(* ===== verification/Prelude.thy ===== *)
theory Prelude
  imports Complex_Main "HOL-Library.AList"
begin

text \<open>
  Shared vocabulary of the development: results that may be an error, ordered
  dictionaries, and machines whose runs keep an invariant.

  \<^item> A Python function that may raise returns a value of a sum type, \<open>Inl\<close> for the
    exception and \<open>Inr\<close> for the result; \<open>bindE\<close> is the sequencing of two such
    computations and \<open>guardE\<close> is a check that raises.
  \<^item> A Python \<open>dict\<close> (and an \<open>OrderedDict\<close>) is an association list in insertion
    order with distinct keys. Assigning to a present key keeps its place, assigning to
    a new key appends, as Python does.
  \<^item> \<open>time.time()\<close> values are real numbers; they are always an argument of the
    operation that reads the clock.
\<close>

named_theorems result_simps \<open>equations and inversions for results that may be errors\<close>
named_theorems odict_simps \<open>lookup laws of ordered dictionaries\<close>

type_synonym time = real

section \<open>Results\<close>

fun bindE :: "'e + 'a \<Rightarrow> ('a \<Rightarrow> 'e + 'b) \<Rightarrow> 'e + 'b" where
  "bindE (Inl e) k = Inl e"
| "bindE (Inr x) k = k x"

definition guardE :: "bool \<Rightarrow> 'e \<Rightarrow> 'e + unit" where
  "guardE ok e = (if ok then Inr () else Inl e)"

lemma bindE_eq_Inr [result_simps]:
  "bindE m k = Inr y \<longleftrightarrow> (\<exists>x. m = Inr x \<and> k x = Inr y)"
  by (cases m) auto

lemma bindE_eq_Inl:
  "bindE m k = Inl e \<longleftrightarrow> m = Inl e \<or> (\<exists>x. m = Inr x \<and> k x = Inl e)"
  by (cases m) auto

lemma guardE_eq_Inr [result_simps]: "guardE ok e = Inr u \<longleftrightarrow> ok"
  by (simp add: guardE_def)

lemma guardE_eq_Inl [result_simps]: "guardE ok e = Inl e' \<longleftrightarrow> \<not> ok \<and> e' = e"
  by (auto simp: guardE_def)

lemma bindE_guardE [simp]: "bindE (guardE ok e) k = (if ok then k () else Inl e)"
  by (simp add: guardE_def)

lemma bindE_InrE:
  assumes "bindE m k = Inr z"
  obtains x where "m = Inr x" "k x = Inr z"
  using assms by (cases m) auto

lemma bindE_pairE:
  assumes "bindE m (case_prod k) = Inr z"
  obtains x s where "m = Inr (x, s)" "k x s = Inr z"
  using assms by (cases m) auto

lemma bindE_assoc: "bindE (bindE m f) g = bindE m (\<lambda>x. bindE (f x) g)"
  by (cases m) auto

lemma if_error_Inr: "((if b then x else Inl e) = Inr y) = (b \<and> x = Inr y)"
  by simp

text \<open>A loop that validates the elements of a list one by one and stops at the first error.\<close>

fun mapE :: "('a \<Rightarrow> 'e + 'b) \<Rightarrow> 'a list \<Rightarrow> 'e + 'b list" where
  "mapE f [] = Inr []"
| "mapE f (x # xs) = bindE (f x) (\<lambda>y. bindE (mapE f xs) (\<lambda>ys. Inr (y # ys)))"

lemma mapE_eq_Inr: "mapE f xs = Inr ys \<longleftrightarrow> list_all2 (\<lambda>x y. f x = Inr y) xs ys"
proof (induction xs arbitrary: ys)
  case Nil
  show ?case by (auto simp: eq_commute)
next
  case (Cons x xs)
  show ?case
    by (cases ys) (auto simp: Cons.IH result_simps)
qed

lemma mapE_id: "(\<And>x. x \<in> set xs \<Longrightarrow> f x = Inr x) \<Longrightarrow> mapE f xs = Inr xs"
  by (induction xs) auto

section \<open>Ordered dictionaries\<close>

type_synonym ('k, 'v) odict = "('k \<times> 'v) list"

abbreviation od_get :: "('k, 'v) odict \<Rightarrow> 'k \<Rightarrow> 'v option" where
  "od_get d k \<equiv> map_of d k"

abbreviation od_set :: "'k \<Rightarrow> 'v \<Rightarrow> ('k, 'v) odict \<Rightarrow> ('k, 'v) odict" where
  "od_set k v d \<equiv> AList.update k v d"

abbreviation od_pop :: "'k \<Rightarrow> ('k, 'v) odict \<Rightarrow> ('k, 'v) odict" where
  "od_pop k d \<equiv> AList.delete k d"

abbreviation od_wf :: "('k, 'v) odict \<Rightarrow> bool" where
  "od_wf d \<equiv> distinct (map fst d)"

text \<open>Popping a list of keys, the loop \<open>for key in keys: d.pop(key, None)\<close>.\<close>

definition od_pop_all :: "'k list \<Rightarrow> ('k, 'v) odict \<Rightarrow> ('k, 'v) odict" where
  "od_pop_all ks d = fold od_pop ks d"

text \<open>\<open>OrderedDict.move_to_end\<close>.\<close>

definition od_move_to_end :: "'k \<Rightarrow> ('k, 'v) odict \<Rightarrow> ('k, 'v) odict" where
  "od_move_to_end k d = (case od_get d k of None \<Rightarrow> d | Some v \<Rightarrow> od_pop k d @ [(k, v)])"

lemma od_get_set [simp, odict_simps]:
  "od_get (od_set k v d) k' = (if k' = k then Some v else od_get d k')"
  by (simp add: update_conv')

lemma od_get_pop [simp, odict_simps]:
  "od_get (od_pop k d) k' = (if k' = k then None else od_get d k')"
  by (simp add: delete_conv')

lemma od_pop_all_filter: "od_pop_all ks d = filter (\<lambda>(k, v). k \<notin> set ks) d"
  unfolding od_pop_all_def
  by (induction ks arbitrary: d) (auto simp: AList.delete_eq intro: filter_cong)

lemma od_get_pop_all [simp, odict_simps]:
  "od_get (od_pop_all ks d) k = (if k \<in> set ks then None else od_get d k)"
  unfolding od_pop_all_filter by (induction d) auto

lemma od_wf_set [simp, intro]: "od_wf d \<Longrightarrow> od_wf (od_set k v d)"
  by (rule distinct_update)

lemma od_wf_pop [simp, intro]: "od_wf d \<Longrightarrow> od_wf (od_pop k d)"
  by (rule distinct_delete)

lemma od_wf_filter [simp, intro]: "od_wf d \<Longrightarrow> od_wf (filter P d)"
  by (induction d) auto

lemma od_wf_pop_all [simp, intro]: "od_wf d \<Longrightarrow> od_wf (od_pop_all ks d)"
  by (simp add: od_pop_all_filter)

lemma od_wf_move_to_end [simp, intro]: "od_wf d \<Longrightarrow> od_wf (od_move_to_end k d)"
  by (auto simp: od_move_to_end_def AList.delete_eq split: option.splits)

lemma od_get_move_to_end [simp, odict_simps]:
  "od_get (od_move_to_end k d) k' = od_get d k'"
  unfolding od_move_to_end_def
  by (cases "od_get d k") (simp_all add: map_add_def del: map_of_eq_None_iff split: option.split)

lemma length_od_set:
  "length (od_set k v d) = (if od_get d k = None then Suc (length d) else length d)"
  by (induction d) auto

lemma length_od_pop_le: "length (od_pop k d) \<le> length d"
  by (simp add: AList.delete_eq)

lemma od_get_Some_mem: "od_get d k = Some v \<Longrightarrow> (k, v) \<in> set d"
  by (rule map_of_SomeD)

lemma od_get_iff_mem: "od_wf d \<Longrightarrow> od_get d k = Some v \<longleftrightarrow> (k, v) \<in> set d"
  by simp

lemma od_set_fresh: "od_get d k = None \<Longrightarrow> od_set k v d = d @ [(k, v)]"
  by (induction d) (auto split: if_splits)

lemma od_pop_absent: "od_get d k = None \<Longrightarrow> od_pop k d = d"
  by (simp add: AList.delete_eq) (metis (mono_tags, lifting) case_prod_beta' filter_True map_of_eq_None_iff image_eqI)

lemma set_od_pop: "set (od_pop k d) \<subseteq> set d"
  by (auto simp: AList.delete_eq)

lemma set_od_set: "set (od_set k v d) \<subseteq> insert (k, v) (set d)"
  by (induction d) auto

lemma length_od_pop:
  "od_wf d \<Longrightarrow> od_get d k = Some v \<Longrightarrow> Suc (length (od_pop k d)) = length d"
proof (induction d)
  case Nil
  then show ?case by simp
next
  case (Cons p d)
  show ?case
  proof (cases "fst p = k")
    case True
    with Cons.prems have "od_get d k = None"
      by (auto simp: map_of_eq_None_iff)
    then have "od_pop k d = d" by (rule od_pop_absent)
    with True show ?thesis by (cases p) (simp add: AList.delete_eq)
  next
    case False
    with Cons show ?thesis by (cases p) (auto simp: AList.delete_eq)
  qed
qed

lemma length_od_move_to_end: "od_wf d \<Longrightarrow> length (od_move_to_end k d) = length d"
  using length_od_pop by (fastforce simp: od_move_to_end_def split: option.splits)

section \<open>The interface of a keyed table\<close>

text \<open>
  What the in-process stores ask of the structure that holds their entries: a lookup,
  an assignment, a removal, and an invariant kept by both. The client lemmas are about
  sweeps, the loops that remove every key of a list.
\<close>

locale keyed_table =
  fixes get :: "'t \<Rightarrow> 'k \<Rightarrow> 'v option"
    and set_key :: "'k \<Rightarrow> 'v \<Rightarrow> 't \<Rightarrow> 't"
    and pop :: "'k \<Rightarrow> 't \<Rightarrow> 't"
    and wf :: "'t \<Rightarrow> bool"
  assumes get_set: "wf t \<Longrightarrow> get (set_key k v t) k' = (if k' = k then Some v else get t k')"
    and get_pop: "wf t \<Longrightarrow> get (pop k t) k' = (if k' = k then None else get t k')"
    and wf_set: "wf t \<Longrightarrow> wf (set_key k v t)"
    and wf_pop: "wf t \<Longrightarrow> wf (pop k t)"
begin

lemma wf_sweep: "wf t \<Longrightarrow> wf (fold pop ks t)"
  by (induction ks arbitrary: t) (auto intro: wf_pop)

lemma get_sweep: "wf t \<Longrightarrow> get (fold pop ks t) k = (if k \<in> set ks then None else get t k)"
  by (induction ks arbitrary: t) (auto simp: get_pop wf_pop)

lemma sweep_only_removes: "wf t \<Longrightarrow> get (fold pop ks t) k = Some v \<Longrightarrow> get t k = Some v"
  by (simp add: get_sweep split: if_splits)

lemma set_then_sweep:
  "wf t \<Longrightarrow> k \<notin> set ks \<Longrightarrow> get (fold pop ks (set_key k v t)) k = Some v"
  by (simp add: get_sweep get_set wf_set)

end

interpretation od: keyed_table map_of AList.update AList.delete "\<lambda>d. distinct (map fst d)"
  by unfold_locales simp_all

section \<open>Rows of a table\<close>

text \<open>\<open>UPDATE ... WHERE\<close>: the rows that match are rewritten in place.\<close>

definition upd_where :: "('a \<Rightarrow> bool) \<Rightarrow> ('a \<Rightarrow> 'a) \<Rightarrow> 'a list \<Rightarrow> 'a list" where
  "upd_where P f xs = map (\<lambda>x. if P x then f x else x) xs"

lemma upd_where_Nil [simp]: "upd_where P f [] = []"
  by (simp add: upd_where_def)

lemma upd_where_Cons [simp]: "upd_where P f (x # xs) = (if P x then f x else x) # upd_where P f xs"
  by (simp add: upd_where_def)

lemma upd_where_append [simp]: "upd_where P f (xs @ ys) = upd_where P f xs @ upd_where P f ys"
  by (simp add: upd_where_def)

lemma length_upd_where [simp]: "length (upd_where P f xs) = length xs"
  by (simp add: upd_where_def)

lemma map_upd_where: "(\<And>x. g (f x) = g x) \<Longrightarrow> map g (upd_where P f xs) = map g xs"
  by (simp add: upd_where_def)

lemma image_upd_where: "(\<And>x. g (f x) = g x) \<Longrightarrow> g ` set (upd_where P f xs) = g ` set xs"
  by (metis list.set_map map_upd_where)

lemma set_upd_where: "y \<in> set (upd_where P f xs) \<longleftrightarrow> (\<exists>x \<in> set xs. y = (if P x then f x else x))"
  by (auto simp: upd_where_def)

lemma filter_upd_where:
  "(\<And>x. Q (f x) = Q x) \<Longrightarrow> filter Q (upd_where P f xs) = upd_where P f (filter Q xs)"
  by (induction xs) auto

lemma upd_where_id: "(\<And>x. x \<in> set xs \<Longrightarrow> \<not> P x) \<Longrightarrow> upd_where P f xs = xs"
  by (induction xs) auto

lemma filter_upd_other:
  "(\<And>x. Q (f x) = Q x) \<Longrightarrow> (\<And>x. Q x \<Longrightarrow> \<not> P x) \<Longrightarrow> filter Q (upd_where P f xs) = filter Q xs"
  by (induction xs) auto

lemma filter_upd_same:
  "(\<And>x. Q (f x) = Q x) \<Longrightarrow> (\<And>x. Q x \<Longrightarrow> P x = P' x) \<Longrightarrow>
    filter Q (upd_where P f xs) = upd_where P' f (filter Q xs)"
  by (induction xs) auto

lemma find_SomeD: "find P xs = Some x \<Longrightarrow> x \<in> set xs \<and> P x"
  by (induction xs) (auto split: if_splits)

lemma find_append: "find P (xs @ ys) = (case find P xs of None \<Rightarrow> find P ys | Some x \<Rightarrow> Some x)"
  by (induction xs) auto

section \<open>Machines and their invariants\<close>

text \<open>
  A machine is a step function over labelled events; an invariant kept by every step is
  kept by every run. The components instantiate it with their own operations.
\<close>

fun run_machine :: "('s \<Rightarrow> 'e \<Rightarrow> 's) \<Rightarrow> 's \<Rightarrow> 'e list \<Rightarrow> 's" where
  "run_machine step s [] = s"
| "run_machine step s (e # es) = run_machine step (step s e) es"

lemma run_machine_append:
  "run_machine step s (es @ fs) = run_machine step (run_machine step s es) fs"
  by (induction es arbitrary: s) auto

locale safe_machine =
  fixes step :: "'s \<Rightarrow> 'e \<Rightarrow> 's"
    and inv :: "'s \<Rightarrow> bool"
    and ok :: "'s \<Rightarrow> 'e \<Rightarrow> bool"
  assumes inv_step: "inv s \<Longrightarrow> ok s e \<Longrightarrow> inv (step s e)"
begin

fun admissible :: "'s \<Rightarrow> 'e list \<Rightarrow> bool" where
  "admissible s [] = True"
| "admissible s (e # es) = (ok s e \<and> admissible (step s e) es)"

lemma run_inv: "inv s \<Longrightarrow> admissible s es \<Longrightarrow> inv (run_machine step s es)"
  by (induction es arbitrary: s) (auto intro: inv_step)

lemma run_inv_unguarded:
  assumes "inv s" and "\<And>s e. ok s e"
  shows "inv (run_machine step s es)"
proof -
  have "admissible s es"
    using assms(2) by (induction es arbitrary: s) auto
  with assms(1) show ?thesis by (rule run_inv)
qed

end

end
