(* ===== verification/Py_Text.thy ===== *)
theory Py_Text
  imports Prelude
begin

text \<open>
  The Python text operations the program uses. A \<open>char\<close> stands for the Unicode code
  point of the same number (0 to 255), so a \<open>string\<close> is a Python \<open>str\<close> over Latin-1;
  \<open>str.strip\<close>, \<open>str.lower\<close> and the UTF-8 length are exact on that alphabet.
  \<open>str.casefold\<close> is exact up to the micro sign, which folds to a Greek letter outside
  the alphabet and is kept here: no other character of the alphabet folds to that
  letter, so equality of folded names, the only use made of it, is the same.
\<close>

section \<open>Characters\<close>

definition py_isspace :: "char \<Rightarrow> bool" where
  "py_isspace c = (let n = (of_char c :: nat) in
     (9 \<le> n \<and> n \<le> 13) \<or> (28 \<le> n \<and> n \<le> 32) \<or> n = 133 \<or> n = 160)"

definition py_lower_char :: "char \<Rightarrow> char" where
  "py_lower_char c = (let n = (of_char c :: nat) in
     if (65 \<le> n \<and> n \<le> 90) \<or> (192 \<le> n \<and> n \<le> 222 \<and> n \<noteq> 215) then char_of (n + 32) else c)"

definition py_is_hex_lower :: "char \<Rightarrow> bool" where
  "py_is_hex_lower c = (let n = (of_char c :: nat) in (48 \<le> n \<and> n \<le> 57) \<or> (97 \<le> n \<and> n \<le> 102))"

definition py_is_ascii_alnum :: "char \<Rightarrow> bool" where
  "py_is_ascii_alnum c = (let n = (of_char c :: nat) in
     (48 \<le> n \<and> n \<le> 57) \<or> (65 \<le> n \<and> n \<le> 90) \<or> (97 \<le> n \<and> n \<le> 122))"

text \<open>\<open>str.isalnum\<close> on Latin-1.\<close>

definition py_isalnum :: "char \<Rightarrow> bool" where
  "py_isalnum c \<longleftrightarrow> py_is_ascii_alnum c \<or> (let n = (of_char c :: nat) in
     n \<in> {170, 178, 179, 181, 185, 186, 188, 189, 190} \<or> (192 \<le> n \<and> n \<noteq> 215 \<and> n \<noteq> 247))"

section \<open>Stripping\<close>

definition py_lstrip :: "string \<Rightarrow> string" where
  "py_lstrip s = dropWhile py_isspace s"

definition py_rstrip :: "string \<Rightarrow> string" where
  "py_rstrip s = rev (dropWhile py_isspace (rev s))"

definition py_strip :: "string \<Rightarrow> string" where
  "py_strip s = py_rstrip (py_lstrip s)"

lemma length_py_lstrip: "length (py_lstrip s) \<le> length s"
  by (simp add: py_lstrip_def length_dropWhile_le)

lemma length_py_rstrip: "length (py_rstrip s) \<le> length s"
  using length_dropWhile_le [of py_isspace "rev s"] by (simp add: py_rstrip_def)

lemma length_py_strip: "length (py_strip s) \<le> length s"
  using length_py_rstrip [of "py_lstrip s"] length_py_lstrip [of s] by (simp add: py_strip_def)

lemma py_strip_Nil [simp]: "py_strip [] = []"
  by (simp add: py_strip_def py_lstrip_def py_rstrip_def)

text \<open>A text that neither starts nor ends with white space is what \<open>strip\<close> returns.\<close>

definition py_trimmed :: "string \<Rightarrow> bool" where
  "py_trimmed s \<longleftrightarrow> s = [] \<or> (\<not> py_isspace (hd s) \<and> \<not> py_isspace (last s))"

lemma dropWhile_hd_id: "s = [] \<or> \<not> P (hd s) \<Longrightarrow> dropWhile P s = s"
  by (cases s) auto

lemma py_strip_trimmed: "py_trimmed s \<Longrightarrow> py_strip s = s"
  by (auto simp: py_trimmed_def py_strip_def py_lstrip_def py_rstrip_def
      dropWhile_hd_id hd_rev)

lemma hd_dropWhile_False: "dropWhile P s \<noteq> [] \<Longrightarrow> \<not> P (hd (dropWhile P s))"
  by (rule hd_dropWhile)

lemma py_rstrip_last: "py_rstrip s \<noteq> [] \<Longrightarrow> \<not> py_isspace (last (py_rstrip s))"
  by (simp add: py_rstrip_def last_rev hd_dropWhile_False)

lemma py_rstrip_prefix: "\<exists>ws. s = py_rstrip s @ ws"
proof -
  have "rev s = takeWhile py_isspace (rev s) @ dropWhile py_isspace (rev s)"
    by simp
  then have "s = rev (dropWhile py_isspace (rev s)) @ rev (takeWhile py_isspace (rev s))"
    by (metis rev_append rev_rev_ident)
  then show ?thesis unfolding py_rstrip_def by blast
qed

lemma py_trimmed_strip [simp]: "py_trimmed (py_strip s)"
proof (cases "py_strip s = []")
  case True
  then show ?thesis by (simp add: py_trimmed_def)
next
  case False
  obtain ws where ws: "py_lstrip s = py_strip s @ ws"
    using py_rstrip_prefix [of "py_lstrip s"] unfolding py_strip_def by blast
  with False have "py_lstrip s \<noteq> []" by auto
  then have "\<not> py_isspace (hd (py_lstrip s))"
    unfolding py_lstrip_def by (rule hd_dropWhile_False)
  moreover have "hd (py_lstrip s) = hd (py_strip s)"
    using ws False by simp
  moreover have "\<not> py_isspace (last (py_strip s))"
    using False unfolding py_strip_def by (rule py_rstrip_last)
  ultimately show ?thesis by (simp add: py_trimmed_def)
qed

lemma py_strip_idem [simp]: "py_strip (py_strip s) = py_strip s"
  by (simp add: py_strip_trimmed)

section \<open>Case folding and prefixes\<close>

definition py_lower :: "string \<Rightarrow> string" where
  "py_lower s = map py_lower_char s"

definition py_casefold :: "string \<Rightarrow> string" where
  "py_casefold s = concat (map (\<lambda>c. if (of_char c :: nat) = 223 then ''ss'' else [py_lower_char c]) s)"

lemma lower_char_space: "py_isspace (py_lower_char c) = py_isspace c"
proof -
  have "(of_char c :: nat) < 256" by (metis of_char_of nat_of_char_less_256)
  then show ?thesis by (auto simp: py_isspace_def py_lower_char_def Let_def of_char_of)
qed

lemma lower_char_idem: "py_lower_char (py_lower_char c) = py_lower_char c"
  by (auto simp: py_lower_char_def Let_def of_char_of)

lemma trimmed_lower: "py_trimmed s \<Longrightarrow> py_trimmed (py_lower s)"
  by (cases "s = []") (auto simp: py_trimmed_def py_lower_def hd_map last_map lower_char_space)

lemma lower_idem [simp]: "py_lower (py_lower s) = py_lower s"
  by (simp add: py_lower_def lower_char_idem)

fun py_startswith :: "string \<Rightarrow> string \<Rightarrow> bool" where
  "py_startswith s [] = True"
| "py_startswith [] (c # p) = False"
| "py_startswith (d # s) (c # p) = (d = c \<and> py_startswith s p)"

lemma py_startswith_iff: "py_startswith s p \<longleftrightarrow> (\<exists>t. s = p @ t)"
  by (induction s p rule: py_startswith.induct) auto

lemma py_startswith_append [simp]: "py_startswith (p @ t) p"
  by (auto simp: py_startswith_iff)

fun py_contains :: "string \<Rightarrow> string \<Rightarrow> bool" where
  "py_contains [] p = (p = [])"
| "py_contains (c # s) p = (py_startswith (c # s) p \<or> py_contains s p)"

lemma py_contains_iff: "py_contains s p \<longleftrightarrow> (\<exists>u v. s = u @ p @ v)"
proof (induction s)
  case Nil
  show ?case by auto
next
  case (Cons c s)
  show ?case
  proof
    assume "py_contains (c # s) p"
    then consider "py_startswith (c # s) p" | "py_contains s p" by auto
    then show "\<exists>u v. c # s = u @ p @ v"
    proof cases
      case 1
      then obtain t where "c # s = p @ t" by (auto simp: py_startswith_iff)
      then have "c # s = [] @ p @ t" by simp
      then show ?thesis by blast
    next
      case 2
      then obtain u v where "s = u @ p @ v" using Cons.IH by blast
      then have "c # s = (c # u) @ p @ v" by simp
      then show ?thesis by blast
    qed
  next
    assume "\<exists>u v. c # s = u @ p @ v"
    then obtain u v where uv: "c # s = u @ p @ v" by blast
    show "py_contains (c # s) p"
    proof (cases u)
      case Nil
      with uv have "py_startswith (c # s) p" by (auto simp: py_startswith_iff)
      then show ?thesis by simp
    next
      case (Cons d u')
      with uv have "s = u' @ p @ v" by simp
      then have "py_contains s p" using Cons.IH by blast
      then show ?thesis by simp
    qed
  qed
qed

text \<open>A text is split at the first occurrence of a separator in one way only.\<close>

lemma prefix_parts:
  assumes "u @ [x] @ v = u' @ [x] @ v'" and "x \<notin> set u" "x \<notin> set u'"
  shows "u = u' \<and> v = v'"
  using assms by (induction u arbitrary: u') (auto simp: Cons_eq_append_conv)

section \<open>Splitting on white space, joining\<close>

text \<open>\<open>" ".join(text.split())\<close>: runs of white space become one space, none at the ends.\<close>

fun py_split_ws :: "string \<Rightarrow> string \<Rightarrow> string list" where
  "py_split_ws acc [] = (if acc = [] then [] else [rev acc])"
| "py_split_ws acc (c # s) =
     (if py_isspace c then (if acc = [] then py_split_ws [] s else rev acc # py_split_ws [] s)
      else py_split_ws (c # acc) s)"

text \<open>\<open>text.split(c)\<close>\<close>

fun py_split_on :: "char \<Rightarrow> string \<Rightarrow> string list" where
  "py_split_on c [] = [[]]"
| "py_split_on c (d # s) = (if d = c then [] # py_split_on c s
     else (case py_split_on c s of [] \<Rightarrow> [[d]] | w # ws \<Rightarrow> (d # w) # ws))"

fun py_join :: "string \<Rightarrow> string list \<Rightarrow> string" where
  "py_join sep [] = []"
| "py_join sep [x] = x"
| "py_join sep (x # y # ys) = x @ sep @ py_join sep (y # ys)"

text \<open>Joining undoes splitting for parts without the separator.\<close>

lemma split_join:
  "ws \<noteq> [] \<Longrightarrow> \<forall>w \<in> set ws. c \<notin> set w \<Longrightarrow> py_split_on c (py_join [c] ws) = ws"
proof (induction ws rule: induct_list012)
  case (2 w)
  then show ?case by (induction w) auto
next
  case (3 w v ws)
  have "py_split_on c (w @ c # t) = w # py_split_on c t" if "c \<notin> set w" for w t
    using that by (induction w) auto
  with 3 show ?case by simp
qed simp

section \<open>Classes of characters\<close>

text \<open>\<open>text.strip(chars)\<close>\<close>

definition py_strip_chars :: "string \<Rightarrow> string \<Rightarrow> string" where
  "py_strip_chars cs s = rev (dropWhile (\<lambda>c. c \<in> set cs) (rev (dropWhile (\<lambda>c. c \<in> set cs) s)))"

text \<open>\<open>re.sub("[^...]+", rep, text)\<close>: every maximal run of characters outside the class becomes \<open>rep\<close>.\<close>

fun re_squeeze :: "(char \<Rightarrow> bool) \<Rightarrow> char \<Rightarrow> bool \<Rightarrow> string \<Rightarrow> string" where
  "re_squeeze ok rep in_run [] = []"
| "re_squeeze ok rep in_run (c # s) =
     (if ok c then c # re_squeeze ok rep False s
      else if in_run then re_squeeze ok rep True s
      else rep # re_squeeze ok rep True s)"

lemma set_py_strip_chars: "set (py_strip_chars cs s) \<subseteq> set s"
  unfolding py_strip_chars_def by (auto dest!: set_dropWhileD)

lemma hd_py_strip_chars:
  assumes "py_strip_chars cs s \<noteq> []"
  shows "hd (py_strip_chars cs s) \<notin> set cs"
proof -
  let ?t = "dropWhile (\<lambda>c. c \<in> set cs) s"
  obtain ws where ws: "?t = py_strip_chars cs s @ ws"
    unfolding py_strip_chars_def by (metis rev_append rev_rev_ident takeWhile_dropWhile_id)
  then have "?t \<noteq> []" "hd ?t = hd (py_strip_chars cs s)" using assms by auto
  then show ?thesis using hd_dropWhile_False by metis
qed

lemma set_re_squeeze: "c \<in> set (re_squeeze ok rep b s) \<Longrightarrow> c = rep \<or> ok c"
  by (induction s arbitrary: b) (auto split: if_splits)

text \<open>\<open>str.splitlines\<close>: the line boundaries of Latin-1; the two characters of CR LF are one.\<close>

definition py_line_break :: "char \<Rightarrow> bool" where
  "py_line_break c \<longleftrightarrow> (of_char c :: nat) \<in> {10, 11, 12, 13, 28, 29, 30, 133}"

fun py_splitlines :: "string \<Rightarrow> string \<Rightarrow> string list" where
  "py_splitlines acc [] = (if acc = [] then [] else [rev acc])"
| "py_splitlines acc (c # s) =
     (if (of_char c :: nat) = 13 \<and> s \<noteq> [] \<and> (of_char (hd s) :: nat) = 10 then py_splitlines acc s
      else if py_line_break c then rev acc # py_splitlines [] s
      else py_splitlines (c # acc) s)"

text \<open>\<open>text.replace(a, b)\<close> for single characters\<close>

definition py_replace_char :: "char \<Rightarrow> char \<Rightarrow> string \<Rightarrow> string" where
  "py_replace_char a b s = map (\<lambda>c. if c = a then b else c) s"

section \<open>Sizes\<close>

text \<open>The length of the UTF-8 encoding: one byte below 128, two above.\<close>

definition utf8_len :: "string \<Rightarrow> nat" where
  "utf8_len s = sum_list (map (\<lambda>c. if (of_char c :: nat) < 128 then 1 else 2) s)"

lemma utf8_len_Nil [simp]: "utf8_len [] = 0"
  by (simp add: utf8_len_def)

lemma utf8_len_append [simp]: "utf8_len (s @ t) = utf8_len s + utf8_len t"
  by (simp add: utf8_len_def)

lemma utf8_len_ge: "length s \<le> utf8_len s"
  by (induction s) (auto simp: utf8_len_def)

lemma utf8_len_le: "utf8_len s \<le> 2 * length s"
  by (induction s) (auto simp: utf8_len_def)

end
