(* ===== verification/Py_Json.thy ===== *)
theory Py_Json
  imports Py_Text
begin

text \<open>
  JSON values as the Python program holds them after \<open>json.loads\<close>, their truth value,
  and the text \<open>json.dumps(..., ensure_ascii=False)\<close> writes for them. An object is an
  ordered dictionary with string keys. The shortest decimal text of a float
  (\<open>float.__repr__\<close>) is a parameter \<open>fr\<close> of the printer.
\<close>

datatype json =
    JNull
  | JBool bool
  | JInt int
  | JFloat real
  | JStr string
  | JArr "json list"
  | JObj "(string \<times> json) list"

type_synonym jdict = "(string, json) odict"

text \<open>\<open>d.get(k)\<close>: a missing key reads as \<open>None\<close>.\<close>

definition jget :: "jdict \<Rightarrow> string \<Rightarrow> json" where
  "jget d k = (case od_get d k of None \<Rightarrow> JNull | Some v \<Rightarrow> v)"

fun truthy :: "json \<Rightarrow> bool" where
  "truthy JNull = False"
| "truthy (JBool b) = b"
| "truthy (JInt i) = (i \<noteq> 0)"
| "truthy (JFloat x) = (x \<noteq> 0)"
| "truthy (JStr s) = (s \<noteq> [])"
| "truthy (JArr xs) = (xs \<noteq> [])"
| "truthy (JObj d) = (d \<noteq> [])"

text \<open>The expression \<open>v or default\<close>.\<close>

definition j_or :: "json \<Rightarrow> json \<Rightarrow> json" where
  "j_or v d = (if truthy v then v else d)"

section \<open>Printing\<close>

fun dec_nat :: "nat \<Rightarrow> string" where
  "dec_nat n = (if n < 10 then [char_of (48 + n)] else dec_nat (n div 10) @ [char_of (48 + n mod 10)])"

declare dec_nat.simps [simp del]

definition dec_int :: "int \<Rightarrow> string" where
  "dec_int i = (if i < 0 then CHR ''-'' # dec_nat (nat (- i)) else dec_nat (nat i))"

definition hex_digit :: "nat \<Rightarrow> char" where
  "hex_digit n = (if n < 10 then char_of (48 + n) else char_of (87 + n))"

text \<open>The escapes of the JSON encoder: quote, backslash, and the control characters.\<close>

definition json_escape_char :: "char \<Rightarrow> string" where
  "json_escape_char c = (let n = (of_char c :: nat) in
     if n = 34 then [CHR 0x5C, CHR 0x22]
     else if n = 92 then [CHR 0x5C, CHR 0x5C]
     else if n = 8 then CHR 0x5C # ''b''
     else if n = 12 then CHR 0x5C # ''f''
     else if n = 10 then CHR 0x5C # ''n''
     else if n = 13 then CHR 0x5C # ''r''
     else if n = 9 then CHR 0x5C # ''t''
     else if n < 32 then CHR 0x5C # ''u00'' @ [hex_digit (n div 16), hex_digit (n mod 16)]
     else [c])"

definition json_quote :: "string \<Rightarrow> string" where
  "json_quote s = CHR 0x22 # concat (map json_escape_char s) @ [CHR 0x22]"

text \<open>
  \<open>comma\<close> and \<open>colon\<close> are the two separators: \<open>", "\<close> and \<open>": "\<close> by default, \<open>","\<close> and
  \<open>":"\<close> in the compact form.
\<close>

fun json_dumps :: "(real \<Rightarrow> string) \<Rightarrow> string \<Rightarrow> string \<Rightarrow> json \<Rightarrow> string" where
  "json_dumps fr comma colon JNull = ''null''"
| "json_dumps fr comma colon (JBool b) = (if b then ''true'' else ''false'')"
| "json_dumps fr comma colon (JInt i) = dec_int i"
| "json_dumps fr comma colon (JFloat x) = fr x"
| "json_dumps fr comma colon (JStr s) = json_quote s"
| "json_dumps fr comma colon (JArr xs) =
     ''['' @ py_join comma (map (json_dumps fr comma colon) xs) @ '']''"
| "json_dumps fr comma colon (JObj d) =
     ''{'' @ py_join comma (map (\<lambda>(k, v). json_quote k @ colon @ json_dumps fr comma colon v) d) @ ''}''"

abbreviation dumps_default :: "(real \<Rightarrow> string) \<Rightarrow> json \<Rightarrow> string" where
  "dumps_default fr \<equiv> json_dumps fr '', '' '': ''"

abbreviation dumps_compact :: "(real \<Rightarrow> string) \<Rightarrow> json \<Rightarrow> string" where
  "dumps_compact fr \<equiv> json_dumps fr '','' '':''"

lemma json_quote_nonempty: "2 \<le> length (json_quote s)"
  by (simp add: json_quote_def)

lemma json_dumps_containers:
  "json_dumps fr comma colon (JArr []) = ''[]''"
  "json_dumps fr comma colon (JObj []) = ''{}''"
  by simp_all

section \<open>The text of a value\<close>

text \<open>
  \<open>repr\<close> of a text: single quotes unless it holds a single quote and no double quote; the
  characters \<open>str.isprintable\<close> rejects become escapes.
\<close>

definition py_repr_char :: "char \<Rightarrow> char \<Rightarrow> string" where
  "py_repr_char q c = (let n = (of_char c :: nat) in
     if c = q \<or> n = 92 then [CHR 0x5C, c]
     else if n = 9 then CHR 0x5C # ''t''
     else if n = 10 then CHR 0x5C # ''n''
     else if n = 13 then CHR 0x5C # ''r''
     else if n < 32 \<or> (127 \<le> n \<and> n \<le> 160) \<or> n = 173
     then CHR 0x5C # ''x'' @ [hex_digit (n div 16), hex_digit (n mod 16)]
     else [c])"

definition py_repr_text :: "string \<Rightarrow> string" where
  "py_repr_text s = (let q = (if CHR 0x27 \<in> set s \<and> CHR 0x22 \<notin> set s then CHR 0x22 else CHR 0x27)
     in q # concat (map (py_repr_char q) s) @ [q])"

fun py_repr :: "(real \<Rightarrow> string) \<Rightarrow> json \<Rightarrow> string" where
  "py_repr fr JNull = ''None''"
| "py_repr fr (JBool b) = (if b then ''True'' else ''False'')"
| "py_repr fr (JInt i) = dec_int i"
| "py_repr fr (JFloat x) = fr x"
| "py_repr fr (JStr s) = py_repr_text s"
| "py_repr fr (JArr xs) = ''['' @ py_join '', '' (map (py_repr fr) xs) @ '']''"
| "py_repr fr (JObj d) = ''{'' @ py_join '', '' (map (\<lambda>(k, v). py_repr_text k @ '': '' @ py_repr fr v) d) @ ''}''"

text \<open>\<open>str(value)\<close>.\<close>

definition py_str :: "(real \<Rightarrow> string) \<Rightarrow> json \<Rightarrow> string" where
  "py_str fr v = (case v of JStr s \<Rightarrow> s | _ \<Rightarrow> py_repr fr v)"

lemma py_str_text [simp]: "py_str fr (JStr s) = s"
  by (simp add: py_str_def)

section \<open>Iteration\<close>

datatype py_exn = PyTypeError | PyValueError | PyRuntimeError | PyAttributeError

text \<open>\<open>for x in value\<close>: the elements of a list, the keys of an object, the characters of a text.\<close>

fun py_iter :: "json \<Rightarrow> py_exn + json list" where
  "py_iter (JArr xs) = Inr xs"
| "py_iter (JObj d) = Inr (map (JStr \<circ> fst) d)"
| "py_iter (JStr s) = Inr (map (\<lambda>c. JStr [c]) s)"
| "py_iter _ = Inl PyTypeError"

section \<open>The integer conversion\<close>

text \<open>
  \<open>int(text)\<close>: surrounding white space, a sign, digits with single underscores between
  them; anything else raises.
\<close>

definition py_isdigit :: "char \<Rightarrow> bool" where
  "py_isdigit c = (let n = (of_char c :: nat) in 48 \<le> n \<and> n \<le> 57)"

fun py_digits :: "bool \<Rightarrow> nat \<Rightarrow> string \<Rightarrow> nat option" where
  "py_digits ok acc [] = (if ok then Some acc else None)"
| "py_digits ok acc (c # s) =
     (if py_isdigit c then py_digits True (10 * acc + (of_char c - 48)) s
      else if c = CHR ''_'' \<and> ok then py_digits False acc s
      else None)"

definition py_int_of_text :: "string \<Rightarrow> int option" where
  "py_int_of_text t = (case py_strip t of
       [] \<Rightarrow> None
     | c # s \<Rightarrow>
         if c = CHR ''-'' then map_option (\<lambda>n. - int n) (py_digits False 0 s)
         else if c = CHR ''+'' then map_option int (py_digits False 0 s)
         else map_option int (py_digits False 0 (c # s)))"

text \<open>\<open>int(value)\<close>; \<open>None\<close> stands for \<open>TypeError\<close> or \<open>ValueError\<close>.\<close>

fun py_int :: "json \<Rightarrow> int option" where
  "py_int (JInt i) = Some i"
| "py_int (JBool b) = Some (if b then 1 else 0)"
| "py_int (JFloat x) = Some (if 0 \<le> x then \<lfloor>x\<rfloor> else \<lceil>x\<rceil>)"
| "py_int (JStr s) = py_int_of_text s"
| "py_int _ = None"

end
