(* ===== verification/Pagination.thy ===== *)
theory Pagination
  imports Py_Json
begin

text \<open>
  \<open>app/utils/pagination.py\<close>: one page of a list, with the numbers the page footer
  shows. The requested page and page size come from a query string and may be any value;
  a value that is no positive integer falls back to a default.
\<close>

section \<open>Model\<close>

datatype page_error = ZeroDivisionError

record page_info =
  pi_page :: int
  pi_per_page :: int
  pi_allowed_per_page :: "int list"
  pi_total :: int
  pi_page_count :: int
  pi_has_prev :: bool
  pi_has_next :: bool
  pi_prev_page :: int
  pi_next_page :: int
  pi_start :: int
  pi_end :: int
  pi_page_numbers :: "int list"

definition coerce_positive_int :: "json \<Rightarrow> int \<Rightarrow> int" where
  "coerce_positive_int value dflt = (case py_int value of
       None \<Rightarrow> dflt
     | Some parsed \<Rightarrow> if 0 < parsed then parsed else dflt)"

text \<open>\<open>items[start:end]\<close> for bounds that are not negative.\<close>

definition py_slice :: "'a list \<Rightarrow> int \<Rightarrow> int \<Rightarrow> 'a list" where
  "py_slice xs start stop = take (nat stop - nat start) (drop (nat start) xs)"

definition paginate_items ::
  "'a list \<Rightarrow> json \<Rightarrow> json \<Rightarrow> int list \<Rightarrow> int \<Rightarrow> page_error + ('a list \<times> page_info)" where
  "paginate_items items page per_page allowed_per_page default_per_page =
     (let total = int (length items);
          pp0 = coerce_positive_int per_page default_per_page;
          pp = (if pp0 \<notin> set allowed_per_page then default_per_page else pp0)
      in if pp = 0 then Inl ZeroDivisionError
      else let page_count = max 1 ((total + pp - 1) div pp);
          page_value = min (coerce_positive_int page 1) page_count;
          start_index = (page_value - 1) * pp;
          end_index = min (start_index + pp) total;
          window_start0 = max 1 (page_value - 2);
          window_end = min page_count (window_start0 + 4);
          window_start = max 1 (window_end - 4)
      in Inr (py_slice items start_index end_index,
          \<lparr> pi_page = page_value,
            pi_per_page = pp,
            pi_allowed_per_page = allowed_per_page,
            pi_total = total,
            pi_page_count = page_count,
            pi_has_prev = 1 < page_value,
            pi_has_next = page_value < page_count,
            pi_prev_page = max 1 (page_value - 1),
            pi_next_page = min page_count (page_value + 1),
            pi_start = (if total \<noteq> 0 then start_index + 1 else 0),
            pi_end = end_index,
            pi_page_numbers = [window_start .. window_end] \<rparr>))"

section \<open>Lemmas\<close>

lemma coerce_positive: "0 < dflt \<Longrightarrow> 0 < coerce_positive_int v dflt"
  by (simp add: coerce_positive_int_def split: option.split)

lemma coerce_JInt: "0 < i \<Longrightarrow> coerce_positive_int (JInt i) dflt = i"
  by (simp add: coerce_positive_int_def)

lemma concat_slices:
  "concat (map (\<lambda>i. take n (drop (i * n) xs)) [0..<k]) = take (k * n) xs"
proof (induction k)
  case 0
  show ?case by simp
next
  case (Suc k)
  have "take (Suc k * n) xs = take (k * n) xs @ take n (drop (k * n) xs)"
    using take_add [of "k * n" n xs] by (simp add: add.commute)
  with Suc show ?case by simp
qed

lemma ceil_div_covers:
  fixes t pp :: int
  assumes "0 \<le> t" and "0 < pp"
  shows "t \<le> max 1 ((t + pp - 1) div pp) * pp"
proof -
  have "t + pp - 1 = (t + pp - 1) div pp * pp + (t + pp - 1) mod pp"
    by (rule div_mult_mod_eq [symmetric])
  moreover have "(t + pp - 1) mod pp < pp"
    using assms(2) by simp
  ultimately have "t \<le> (t + pp - 1) div pp * pp"
    by linarith
  also have "\<dots> \<le> max 1 ((t + pp - 1) div pp) * pp"
    using assms(2) by (intro mult_right_mono) auto
  finally show ?thesis .
qed

lemma last_page_starts_inside:
  fixes t pp q :: int
  assumes "0 \<le> t" and "0 < pp" and "q \<le> max 1 ((t + pp - 1) div pp)"
  shows "(q - 1) * pp \<le> t"
proof (cases "(t + pp - 1) div pp \<le> 1")
  case True
  with assms(3) have "q - 1 \<le> 0" by simp
  with assms(2) have "(q - 1) * pp \<le> 0" by (simp add: mult_nonpos_nonneg)
  with assms(1) show ?thesis by linarith
next
  case False
  with assms(3) have "q - 1 \<le> (t + pp - 1) div pp - 1" by simp
  with assms(2) have "(q - 1) * pp \<le> ((t + pp - 1) div pp - 1) * pp"
    by (intro mult_right_mono) auto
  moreover have "(t + pp - 1) div pp * pp \<le> t + pp - 1"
    using div_mult_mod_eq [of "t + pp - 1" pp] pos_mod_sign [OF assms(2), of "t + pp - 1"]
    by linarith
  ultimately show ?thesis by (simp add: left_diff_distrib)
qed

text \<open>With a positive default the requested size is positive, and the result is the slice.\<close>

lemma paginate_page_slice:
  assumes "0 < pp" and "pp \<in> set allowed" and "1 \<le> q"
    and "q \<le> max 1 ((int (length items) + pp - 1) div pp)"
  shows "\<exists>info. paginate_items items (JInt q) (JInt pp) allowed dflt =
    Inr (take (nat pp) (drop (nat (q - 1) * nat pp) items), info)"
proof -
  let ?t = "int (length items)"
  have cq: "coerce_positive_int (JInt q) 1 = q" and cp: "coerce_positive_int (JInt pp) dflt = pp"
    using assms(1,3) by (simp_all add: coerce_JInt)
  have q: "min q (max 1 ((?t + pp - 1) div pp)) = q" using assms(4) by simp
  have start: "0 \<le> (q - 1) * pp" using assms(1,3) by simp
  have le: "(q - 1) * pp \<le> ?t"
    using assms(1,4) by (intro last_page_starts_inside) auto
  have ns: "nat ((q - 1) * pp) = nat (q - 1) * nat pp"
    using assms(1,3) by (simp add: nat_mult_distrib)
  have slice: "py_slice items ((q - 1) * pp) (min ((q - 1) * pp + pp) ?t)
      = take (nat pp) (drop (nat (q - 1) * nat pp) items)"
  proof -
    have "nat (min ((q - 1) * pp + pp) ?t) - nat ((q - 1) * pp)
        = min (nat pp) (length items - nat ((q - 1) * pp))"
      using start le assms(1) by linarith
    then show ?thesis
      by (simp add: py_slice_def ns min_def)
  qed
  have guards: "\<not> pp \<notin> set allowed" "\<not> pp = 0" using assms(1,2) by auto
  show ?thesis
    unfolding paginate_items_def Let_def cq cp
    by (simp only: guards if_False q slice sum.inject prod.inject simp_thms ex_simps)
qed

lemma paginate_pages_concat:
  assumes "0 < pp" and "pp \<in> set allowed"
  shows "concat (map (\<lambda>q. case paginate_items items (JInt q) (JInt pp) allowed dflt of
            Inr (xs, _) \<Rightarrow> xs | Inl _ \<Rightarrow> [])
         [1 .. max 1 ((int (length items) + pp - 1) div pp)]) = items"
proof -
  let ?c = "max 1 ((int (length items) + pp - 1) div pp)"
  have page: "(case paginate_items items (JInt q) (JInt pp) allowed dflt of
        Inr (xs, _) \<Rightarrow> xs | Inl _ \<Rightarrow> []) = take (nat pp) (drop (nat (q - 1) * nat pp) items)"
    if "1 \<le> q" "q \<le> ?c" for q
    using paginate_page_slice [OF assms that, of dflt] by auto
  have idx: "[1 .. ?c] = map (\<lambda>i. int i + 1) [0..<nat ?c]"
  proof (rule nth_equalityI)
    show "length [1 .. ?c] = length (map (\<lambda>i. int i + 1) [0..<nat ?c])" by simp
  next
    fix i assume "i < length [1 .. ?c]"
    then show "[1 .. ?c] ! i = map (\<lambda>i. int i + 1) [0..<nat ?c] ! i"
      by (simp add: nth_upto)
  qed
  have "concat (map (\<lambda>q. case paginate_items items (JInt q) (JInt pp) allowed dflt of
            Inr (xs, _) \<Rightarrow> xs | Inl _ \<Rightarrow> []) [1 .. ?c])
      = concat (map (\<lambda>q. take (nat pp) (drop (nat (q - 1) * nat pp) items)) [1 .. ?c])"
    using page by (intro arg_cong [where f = concat] map_cong) auto
  also have "\<dots> = concat (map (\<lambda>i. take (nat pp) (drop (i * nat pp) items)) [0..<nat ?c])"
    by (simp only: idx map_map comp_def) simp
  also have "\<dots> = take (nat ?c * nat pp) items"
    by (rule concat_slices)
  also have "\<dots> = items"
  proof -
    have "int (length items) \<le> ?c * pp"
      using assms(1) by (intro ceil_div_covers) auto
    then have "length items \<le> nat (?c * pp)" by linarith
    then show ?thesis using assms(1) by (simp add: nat_mult_distrib)
  qed
  finally show ?thesis .
qed

section \<open>Properties\<close>

text \<open>
  The pages of a list, read in order with any allowed page size, are the list:
  no item is lost, repeated or moved.
\<close>

theorem pages_partition_items:
  assumes "0 < pp" and "pp \<in> set allowed"
  shows "concat (map (\<lambda>q. case paginate_items items (JInt q) (JInt pp) allowed dflt of
            Inr (xs, _) \<Rightarrow> xs | Inl _ \<Rightarrow> [])
         [1 .. max 1 ((int (length items) + pp - 1) div pp)]) = items"
  using assms by (rule paginate_pages_concat)

theorem pages_partition_items_witness:
  "concat (map (\<lambda>q. case paginate_items [7, 8, 9 :: nat] (JInt q) (JInt 2) [2, 5] 5 of
            Inr (xs, _) \<Rightarrow> xs | Inl _ \<Rightarrow> []) [1 .. 2]) = [7, 8, 9]"
proof -
  have "max 1 ((int (length [7, 8, 9 :: nat]) + 2 - 1) div 2) = (2 :: int)" by simp
  then show ?thesis
    using pages_partition_items [of 2 "[2, 5]" "[7, 8, 9 :: nat]" 5] by simp
qed

text \<open>
  Whatever the query string asks for, with a positive default size the call
  returns a page whose number lies between 1 and the page count, whose items are a window
  of the list no longer than the page size, and whose page links are at most five
  consecutive numbers that include the page shown.
\<close>

theorem page_links_in_range:
  assumes "0 < dflt" and "\<forall>a \<in> set allowed. 0 < a"
  shows "\<exists>xs info. paginate_items items page per_page allowed dflt = Inr (xs, info)
    \<and> 1 \<le> pi_page info \<and> pi_page info \<le> pi_page_count info
    \<and> int (length xs) \<le> pi_per_page info \<and> int (length xs) = pi_end info - (pi_page info - 1) * pi_per_page info
    \<and> pi_page info \<in> set (pi_page_numbers info) \<and> length (pi_page_numbers info) \<le> 5
    \<and> set (pi_page_numbers info) \<subseteq> {1 .. pi_page_count info}"
proof -
  let ?t = "int (length items)"
  define pp where "pp = (if coerce_positive_int per_page dflt \<notin> set allowed then dflt
    else coerce_positive_int per_page dflt)"
  define c where "c = max 1 ((?t + pp - 1) div pp)"
  define q where "q = min (coerce_positive_int page 1) c"
  have pp: "0 < pp" using assms coerce_positive [of dflt per_page] by (auto simp: pp_def)
  have q: "1 \<le> q" "q \<le> c"
    using coerce_positive [of 1 page] by (auto simp: q_def c_def)
  have start: "0 \<le> (q - 1) * pp" using pp q(1) by simp
  have le: "(q - 1) * pp \<le> ?t"
    using pp q(2) unfolding c_def by (intro last_page_starts_inside) auto
  have len: "int (length (py_slice items ((q - 1) * pp) (min ((q - 1) * pp + pp) ?t)))
      = min ((q - 1) * pp + pp) ?t - (q - 1) * pp"
    using start le pp by (simp add: py_slice_def)
  show ?thesis
    unfolding paginate_items_def Let_def pp_def [symmetric] c_def [symmetric] q_def [symmetric]
    using pp q len start le by (simp add: nat_le_iff) (intro conjI; linarith)
qed

theorem page_links_in_range_witness:
  "\<exists>xs info. paginate_items [1, 2, 3 :: nat] (JStr ''9'') (JStr ''x'') [2] 2 = Inr (xs, info)
    \<and> 1 \<le> pi_page info \<and> pi_page info \<le> pi_page_count info"
  using page_links_in_range [of 2 "[2]" "[1, 2, 3 :: nat]" "JStr ''9''" "JStr ''x''"] by auto

end
