(* ===== verification/Rate_Limiter.thy ===== *)
theory Rate_Limiter
  imports Prelude
begin

text \<open>
  \<open>app/utils/rate_limiter.py\<close>, the in-memory backend of \<open>RateLimiter\<close>: a sliding window
  of request times per client. The theory shows that no window of the configured length
  ever holds more than the configured number of admitted requests, and that a client who
  waits the advertised number of seconds is admitted.
\<close>

section \<open>Model\<close>

record limiter =
  lim_max_requests :: int
  lim_window_seconds :: int
  lim_requests :: "(string, time list) odict"

datatype limiter_error = LimiterIndexError

text \<open>\<open>int(x)\<close> of a float drops the fraction.\<close>

definition py_trunc :: "real \<Rightarrow> int" where
  "py_trunc x = (if 0 \<le> x then \<lfloor>x\<rfloor> else \<lceil>x\<rceil>)"

definition recent_requests :: "limiter \<Rightarrow> string \<Rightarrow> time \<Rightarrow> time list" where
  "recent_requests rl client now =
     filter (\<lambda>ts. now - ts < real_of_int (lim_window_seconds rl))
       (case od_get (lim_requests rl) client of None \<Rightarrow> [] | Some tss \<Rightarrow> tss)"

text \<open>
  The filtered list is stored before the limit is checked; with a limit of zero the
  refusal reads the first element of an empty list.
\<close>

definition is_allowed_memory ::
  "limiter \<Rightarrow> string \<Rightarrow> time \<Rightarrow> (limiter_error + (bool \<times> int)) \<times> limiter" where
  "is_allowed_memory rl client now =
     (let timestamps = recent_requests rl client now;
          rl1 = rl\<lparr>lim_requests := od_set client timestamps (lim_requests rl)\<rparr>
      in if lim_max_requests rl \<le> int (length timestamps)
         then (case timestamps of
             [] \<Rightarrow> (Inl LimiterIndexError, rl1)
           | oldest # _ \<Rightarrow>
               let wait_time = oldest + real_of_int (lim_window_seconds rl) - now
               in (Inr (False, max 1 (py_trunc wait_time + 1)), rl1))
         else (Inr (True, 0),
               rl\<lparr>lim_requests := od_set client (timestamps @ [now]) (lim_requests rl)\<rparr>))"

section \<open>Runs\<close>

text \<open>
  A run records the admitted requests. A request is admissible in a run when its clock
  reading is not before the last one.
\<close>

record limiter_run =
  run_limiter :: limiter
  run_admitted :: "(string \<times> time) list"
  run_clock :: time

definition limiter_step :: "limiter_run \<Rightarrow> string \<times> time \<Rightarrow> limiter_run" where
  "limiter_step r e = (case e of (client, now) \<Rightarrow>
     (case is_allowed_memory (run_limiter r) client now of (res, rl) \<Rightarrow>
        r\<lparr>run_limiter := rl,
          run_admitted := (if (\<exists>w. res = Inr (True, w)) then run_admitted r @ [(client, now)]
                           else run_admitted r),
          run_clock := now\<rparr>))"

fun clock_monotone :: "time \<Rightarrow> (string \<times> time) list \<Rightarrow> bool" where
  "clock_monotone t [] = True"
| "clock_monotone t ((client, now) # es) = (t \<le> now \<and> clock_monotone now es)"

definition limiter_start :: "int \<Rightarrow> int \<Rightarrow> time \<Rightarrow> limiter_run" where
  "limiter_start m w t =
     \<lparr>run_limiter = \<lparr>lim_max_requests = m, lim_window_seconds = w, lim_requests = []\<rparr>,
      run_admitted = [], run_clock = t\<rparr>"

definition admitted_times :: "limiter_run \<Rightarrow> string \<Rightarrow> time list" where
  "admitted_times r client = map snd (filter (\<lambda>(c, t). c = client) (run_admitted r))"

definition stored_times :: "limiter \<Rightarrow> string \<Rightarrow> time list" where
  "stored_times rl client =
     (case od_get (lim_requests rl) client of None \<Rightarrow> [] | Some tss \<Rightarrow> tss)"

abbreviation win :: "limiter \<Rightarrow> real" where
  "win rl \<equiv> real_of_int (lim_window_seconds rl)"

text \<open>
  The invariant: what is stored for a client agrees with what was admitted on the part
  that can still count, never exceeds the limit, and no window holds too many.
\<close>

definition limiter_inv :: "limiter_run \<Rightarrow> bool" where
  "limiter_inv r \<longleftrightarrow> (let rl = run_limiter r in
     0 < lim_max_requests rl \<and>
     (\<forall>c. int (length (stored_times rl c)) \<le> lim_max_requests rl
       \<and> (\<forall>t \<in> set (admitted_times r c). t \<le> run_clock r)
       \<and> (\<forall>u \<ge> run_clock r. filter (\<lambda>t. u - t < win rl) (stored_times rl c)
              = filter (\<lambda>t. u - t < win rl) (admitted_times r c))
       \<and> (\<forall>x. int (length (filter (\<lambda>t. x - win rl < t \<and> t \<le> x) (admitted_times r c)))
              \<le> lim_max_requests rl)))"

lemma recent_stored: "recent_requests rl c now = filter (\<lambda>t. now - t < win rl) (stored_times rl c)"
  by (simp add: recent_requests_def stored_times_def)

lemma is_allowed_config [simp]:
  "lim_max_requests (snd (is_allowed_memory rl c now)) = lim_max_requests rl"
  "lim_window_seconds (snd (is_allowed_memory rl c now)) = lim_window_seconds rl"
  by (simp_all add: is_allowed_memory_def Let_def split: list.split)

lemma stored_after_refusal:
  assumes "is_allowed_memory rl c now = (res, rl')" and "\<nexists>w. res = Inr (True, w)"
  shows "stored_times rl' d = (if d = c then recent_requests rl c now else stored_times rl d)"
  using assms
  by (auto simp: is_allowed_memory_def Let_def stored_times_def split: if_splits list.splits)

lemma stored_after_admission:
  assumes "is_allowed_memory rl c now = (Inr (True, w), rl')"
  shows "stored_times rl' d = (if d = c then recent_requests rl c now @ [now] else stored_times rl d)"
    and "int (length (recent_requests rl c now)) < lim_max_requests rl"
  using assms
  by (auto simp: is_allowed_memory_def Let_def stored_times_def split: if_splits list.splits)

text \<open>Adding one admission at the current time keeps every window within the limit.\<close>

lemma window_after_admission:
  fixes m :: int and x w now :: real
  assumes old: "int (length (filter (\<lambda>t. x - w < t \<and> t \<le> x) ts)) \<le> m"
    and room: "int (length (filter (\<lambda>t. now - t < w) ts)) < m"
  shows "int (length (filter (\<lambda>t. x - w < t \<and> t \<le> x) (ts @ [now]))) \<le> m"
proof (cases "now \<le> x \<and> x - w < now")
  case False
  then show ?thesis using old by auto
next
  case True
  have "length (filter (\<lambda>t. x - w < t \<and> t \<le> x) ts) \<le> length (filter (\<lambda>t. now - t < w) ts)"
    using True by (induction ts) auto
  with room True show ?thesis by simp
qed

lemma limiter_step_inv:
  assumes inv: "limiter_inv r" and clock: "run_clock r \<le> now"
  shows "limiter_inv (limiter_step r (c, now))"
proof -
  let ?rl = "run_limiter r"
  obtain res rl' where call: "is_allowed_memory ?rl c now = (res, rl')" by force
  have conf: "lim_max_requests rl' = lim_max_requests ?rl"
    "lim_window_seconds rl' = lim_window_seconds ?rl"
    using is_allowed_config [of ?rl c now] call by simp_all
  let ?r = "limiter_step r (c, now)"
  from inv have pos: "0 < lim_max_requests ?rl"
    and len: "\<And>d. int (length (stored_times ?rl d)) \<le> lim_max_requests ?rl"
    and past: "\<And>d t. t \<in> set (admitted_times r d) \<Longrightarrow> t \<le> run_clock r"
    and agree: "\<And>d u. run_clock r \<le> u \<Longrightarrow> filter (\<lambda>t. u - t < win ?rl) (stored_times ?rl d)
        = filter (\<lambda>t. u - t < win ?rl) (admitted_times r d)"
    and bound: "\<And>d x. int (length (filter (\<lambda>t. x - win ?rl < t \<and> t \<le> x) (admitted_times r d)))
        \<le> lim_max_requests ?rl"
    by (auto simp: limiter_inv_def Let_def)
  have recent: "recent_requests ?rl c now = filter (\<lambda>t. now - t < win ?rl) (admitted_times r c)"
    using agree [OF clock] by (simp add: recent_stored)
  have narrow: "filter (\<lambda>t. u - t < win ?rl) (filter (\<lambda>t. now - t < win ?rl) ts)
      = filter (\<lambda>t. u - t < win ?rl) ts" if "now \<le> u" for u ts
    using that by (auto simp: filter_filter intro!: filter_cong)
  show ?thesis
  proof (cases "\<exists>w. res = Inr (True, w)")
    case True
    then obtain w where res: "res = Inr (True, w)" by blast
    note adm = stored_after_admission [OF call [unfolded res]]
    have step: "?r = r\<lparr>run_limiter := rl', run_admitted := run_admitted r @ [(c, now)], run_clock := now\<rparr>"
      by (simp add: limiter_step_def call res)
    have times: "admitted_times ?r d = admitted_times r d @ (if d = c then [now] else [])" for d
      by (simp add: step admitted_times_def)
    have len': "int (length (stored_times rl' d)) \<le> lim_max_requests ?rl" for d
      using adm(2) len [of d] by (simp add: adm(1))
    have agree': "filter (\<lambda>t. u - t < win ?rl) (stored_times rl' d)
        = filter (\<lambda>t. u - t < win ?rl) (admitted_times ?r d)" if "now \<le> u" for d u
      using that clock agree [of u d] narrow [OF that] by (simp add: adm(1) times recent)
    have bound': "int (length (filter (\<lambda>t. x - win ?rl < t \<and> t \<le> x) (admitted_times ?r d)))
        \<le> lim_max_requests ?rl" for d x
      using bound [of x d] window_after_admission [OF bound [of x c], of now] adm(2) recent
      by (cases "d = c") (auto simp: times)
    have past': "t \<le> now" if "t \<in> set (admitted_times ?r d)" for d t
      using that past [of t d] clock by (auto simp: times split: if_splits)
    show ?thesis
      using pos len' agree' bound' past'
      by (simp add: limiter_inv_def Let_def step conf)
  next
    case False
    note ref = stored_after_refusal [OF call False]
    have step: "?r = r\<lparr>run_limiter := rl', run_admitted := run_admitted r, run_clock := now\<rparr>"
      using False by (simp add: limiter_step_def call)
    have times: "admitted_times ?r d = admitted_times r d" for d
      by (simp add: step admitted_times_def)
    have len': "int (length (stored_times rl' d)) \<le> lim_max_requests ?rl" for d
    proof (cases "d = c")
      case True
      then have "length (stored_times rl' d) \<le> length (stored_times ?rl c)"
        by (simp add: ref recent_stored)
      with len [of c] show ?thesis by linarith
    next
      case False
      with len [of d] show ?thesis by (simp add: ref)
    qed
    have agree': "filter (\<lambda>t. u - t < win ?rl) (stored_times rl' d)
        = filter (\<lambda>t. u - t < win ?rl) (admitted_times ?r d)" if "now \<le> u" for d u
      using that clock agree [of u d] narrow [OF that] by (simp add: ref times recent)
    have past': "t \<le> now" if "t \<in> set (admitted_times ?r d)" for d t
      using that past [of t d] clock by (auto simp: times)
    have bound': "int (length (filter (\<lambda>t. x - win ?rl < t \<and> t \<le> x) (admitted_times ?r d)))
        \<le> lim_max_requests ?rl" for d x
      using bound [of x d] by (simp add: times)
    show ?thesis
      using pos len' agree' bound' past'
      by (simp add: limiter_inv_def Let_def step conf)
  qed
qed

lemma limiter_start_inv: "0 < m \<Longrightarrow> limiter_inv (limiter_start m w t)"
  by (simp add: limiter_inv_def limiter_start_def stored_times_def admitted_times_def)

interpretation limiter: safe_machine limiter_step limiter_inv "\<lambda>r e. run_clock r \<le> snd e"
  by unfold_locales (auto intro: limiter_step_inv)

lemma run_clock_step [simp]: "run_clock (limiter_step r e) = snd e"
  by (simp add: limiter_step_def split: prod.split)

lemma clock_monotone_admissible:
  "clock_monotone (run_clock r) es \<Longrightarrow> limiter.admissible r es"
proof (induction es arbitrary: r)
  case Nil
  then show ?case by simp
next
  case (Cons e es)
  obtain c now where e: "e = (c, now)" by force
  from Cons.prems have "clock_monotone (run_clock (limiter_step r e)) es"
    by (simp add: e)
  then have "limiter.admissible (limiter_step r e) es" by (rule Cons.IH)
  with Cons.prems show ?case by (simp add: e)
qed

lemma limiter_run_inv:
  assumes "0 < m" and "clock_monotone t es"
  shows "limiter_inv (run_machine limiter_step (limiter_start m w t) es)"
proof -
  have "limiter.admissible (limiter_start m w t) es"
    using assms(2) by (intro clock_monotone_admissible) (simp add: limiter_start_def)
  with limiter_start_inv [OF assms(1)] show ?thesis
    by (rule limiter.run_inv)
qed

lemma limiter_step_limiter:
  "run_limiter (limiter_step r e) = snd (is_allowed_memory (run_limiter r) (fst e) (snd e))"
  by (simp add: limiter_step_def split: prod.split)

lemma limiter_run_max:
  "lim_max_requests (run_limiter (run_machine limiter_step r es)) = lim_max_requests (run_limiter r)"
  by (induction es arbitrary: r) (simp_all add: limiter_step_limiter)

lemma limiter_run_window:
  "lim_window_seconds (run_limiter (run_machine limiter_step r es)) = lim_window_seconds (run_limiter r)"
  by (induction es arbitrary: r) (simp_all add: limiter_step_limiter)

lemma py_trunc_wait: "0 < x \<Longrightarrow> x < real_of_int (py_trunc x + 1)"
  by (simp add: py_trunc_def)

text \<open>
  After a refusal the stored list is not longer than the limit and its first element
  leaves the window within the advertised time.
\<close>

lemma refusal_then_admission:
  assumes len: "int (length (stored_times rl c)) \<le> lim_max_requests rl"
    and refused: "is_allowed_memory rl c now = (Inr (False, wait), rl')"
    and later: "now + real_of_int wait \<le> now'"
  shows "fst (is_allowed_memory rl' c now') = Inr (True, 0)"
proof -
  let ?ts = "recent_requests rl c now"
  from refused obtain oldest rest where ts: "?ts = oldest # rest"
    and wait: "wait = max 1 (py_trunc (oldest + win rl - now) + 1)"
    by (auto simp: is_allowed_memory_def Let_def split: if_splits list.splits)
  have conf: "lim_max_requests rl' = lim_max_requests rl" "win rl' = win rl"
    using is_allowed_config [of rl c now] refused by simp_all
  have stored: "stored_times rl' c = ?ts"
    using stored_after_refusal [OF refused] by simp
  have "now - oldest < win rl"
    using ts by (auto simp: recent_stored filter_eq_Cons_iff)
  then have "oldest + win rl - now < real_of_int (py_trunc (oldest + win rl - now) + 1)"
    by (intro py_trunc_wait) linarith
  then have "win rl \<le> now' - oldest"
    using later unfolding wait by linarith
  then have "filter (\<lambda>t. now' - t < win rl) ?ts = filter (\<lambda>t. now' - t < win rl) rest"
    by (simp add: ts)
  then have "length (recent_requests rl' c now') \<le> length rest"
    by (simp add: recent_stored [of rl'] stored conf(2))
  moreover have "length ?ts \<le> length (stored_times rl c)"
    by (simp add: recent_stored)
  ultimately have "int (length (recent_requests rl' c now')) < lim_max_requests rl'"
    using len ts conf(1) by simp
  then show ?thesis
    by (simp add: is_allowed_memory_def Let_def)
qed

section \<open>Properties\<close>

text \<open>
  Over any run of requests whose clock does not go back, no half-open window of
  the configured length holds more admitted requests of one client than the limit.
\<close>

theorem sliding_window_never_exceeded:
  assumes "0 < m" and "clock_monotone t es"
  shows "int (length (filter (\<lambda>u. x - real_of_int w < u \<and> u \<le> x)
      (admitted_times (run_machine limiter_step (limiter_start m w t) es) client))) \<le> m"
proof -
  let ?r = "run_machine limiter_step (limiter_start m w t) es"
  have "limiter_inv ?r" using assms by (rule limiter_run_inv)
  moreover have "lim_max_requests (run_limiter ?r) = m" "win (run_limiter ?r) = real_of_int w"
    by (simp_all add: limiter_run_max limiter_run_window limiter_start_def)
  ultimately show ?thesis by (simp add: limiter_inv_def Let_def)
qed

theorem sliding_window_never_exceeded_witness:
  "int (length (filter (\<lambda>u. 3 - real_of_int 10 < u \<and> u \<le> 3)
      (admitted_times (run_machine limiter_step (limiter_start 1 10 0) [(''a'', 1), (''a'', 2)]) ''a''))) \<le> 1"
  by (rule sliding_window_never_exceeded) simp_all

text \<open>
  In every reachable state, a client that is refused and comes back after the
  advertised number of seconds, with no request in between, is admitted.
\<close>

theorem advertised_wait_suffices:
  assumes "0 < m" and "clock_monotone t es"
    and "is_allowed_memory (run_limiter (run_machine limiter_step (limiter_start m w t) es)) client now
      = (Inr (False, wait), rl')"
    and "now + real_of_int wait \<le> now'"
  shows "1 \<le> wait \<and> fst (is_allowed_memory rl' client now') = Inr (True, 0)"
proof
  show "1 \<le> wait"
    using assms(3) by (auto simp: is_allowed_memory_def Let_def split: if_splits list.splits)
  let ?r = "run_machine limiter_step (limiter_start m w t) es"
  have "limiter_inv ?r" using assms(1,2) by (rule limiter_run_inv)
  then have "int (length (stored_times (run_limiter ?r) client)) \<le> lim_max_requests (run_limiter ?r)"
    by (simp add: limiter_inv_def Let_def)
  then show "fst (is_allowed_memory rl' client now') = Inr (True, 0)"
    using assms(3,4) by (rule refusal_then_admission)
qed

theorem advertised_wait_suffices_witness:
  "1 \<le> (10 :: int) \<and> fst (is_allowed_memory
      \<lparr>lim_max_requests = 1, lim_window_seconds = 10, lim_requests = [(''a'', [1])]\<rparr> ''a'' 12) = Inr (True, 0)"
  by (rule advertised_wait_suffices [of 1 0 "[(''a'', 1)]" 10 "''a''" 2 10])
    (simp_all add: is_allowed_memory_def recent_requests_def limiter_step_def limiter_start_def
      py_trunc_def floor_unique)

end
