(* ===== verification/Artifacts.thy ===== *)
theory Artifacts
  imports Py_Json "HOL-Library.List_Lexorder" "HOL-Library.Char_ord"
begin

text \<open>
  The references of \<open>app/utils/conversation_artifacts.py\<close>: which uploads, images and code
  runs the stored metadata of a message names, and which of them a deletion may remove.
  The check \<open>urllib.parse.urlsplit\<close> makes on a bracketed host is a parameter \<open>brk\<close>.
\<close>

section \<open>References\<close>

record artifact_refs =
  r_attachments :: "string set"
  r_images :: "string set"
  r_runs :: "string set"

definition no_refs :: artifact_refs where
  "no_refs = \<lparr>r_attachments = {}, r_images = {}, r_runs = {}\<rparr>"

definition refs_union :: "artifact_refs \<Rightarrow> artifact_refs \<Rightarrow> artifact_refs" where
  "refs_union a b = \<lparr>r_attachments = r_attachments a \<union> r_attachments b,
     r_images = r_images a \<union> r_images b, r_runs = r_runs a \<union> r_runs b\<rparr>"

definition refs_empty :: "artifact_refs \<Rightarrow> bool" where
  "refs_empty r \<longleftrightarrow> r_attachments r = {} \<and> r_images r = {} \<and> r_runs r = {}"

record deletion_plan =
  p_conversations :: "string list"
  p_target :: artifact_refs
  p_retained :: artifact_refs
  p_exclusive :: artifact_refs
  p_safe :: bool

definition hex_id :: "nat \<Rightarrow> string \<Rightarrow> bool" where
  "hex_id n s \<longleftrightarrow> length s = n \<and> list_all py_is_hex_lower s"

definition attachment_id_ok :: "string \<Rightarrow> bool" where
  "attachment_id_ok s = hex_id 32 s"

definition run_id_ok :: "string \<Rightarrow> bool" where
  "run_id_ok s = hex_id 12 s"

definition image_char :: "char \<Rightarrow> bool" where
  "image_char c \<longleftrightarrow> py_is_ascii_alnum c \<or> c \<in> {CHR ''.'', CHR ''_'', CHR ''-''}"

text \<open>Twelve hex digits, an underscore, at least one character of the class, and \<open>.png\<close>.\<close>

definition image_name_ok :: "string \<Rightarrow> bool" where
  "image_name_ok s \<longleftrightarrow> 18 \<le> length s \<and> list_all py_is_hex_lower (take 12 s) \<and> s ! 12 = CHR ''_''
     \<and> list_all image_char (drop 13 s) \<and> drop (length s - 4) s = ''.png''"

definition run_id_for_image :: "string \<Rightarrow> string option" where
  "run_id_for_image s = (if image_name_ok s then Some (take 12 s) else None)"

section \<open>The public name of an image\<close>

record url_parts =
  u_scheme :: string
  u_netloc :: string
  u_path :: string
  u_query :: string
  u_fragment :: string

definition scheme_char :: "char \<Rightarrow> bool" where
  "scheme_char c \<longleftrightarrow> py_is_ascii_alnum c \<or> c \<in> {CHR ''+'', CHR ''-'', CHR ''.''}"

definition split_at :: "char \<Rightarrow> string \<Rightarrow> string \<times> string" where
  "split_at c s = (takeWhile (\<lambda>d. d \<noteq> c) s, drop 1 (dropWhile (\<lambda>d. d \<noteq> c) s))"

text \<open>\<open>urllib.parse.urlsplit\<close>; \<open>None\<close> stands for its \<open>ValueError\<close>.\<close>

definition urlsplit :: "(string \<Rightarrow> bool) \<Rightarrow> string \<Rightarrow> url_parts option" where
  "urlsplit brk url0 =
     (let url = filter (\<lambda>c. c \<notin> {CHR 0x09, CHR 0x0A, CHR 0x0D}) (dropWhile (\<lambda>c. (of_char c :: nat) \<le> 32) url0);
          p = takeWhile (\<lambda>c. c \<noteq> CHR '':'') url;
          has_scheme = (p \<noteq> url \<and> p \<noteq> [] \<and> py_is_ascii_alnum (hd p) \<and> \<not> py_isdigit (hd p) \<and> list_all scheme_char p);
          rest = (if has_scheme then drop (length p + 1) url else url);
          has_net = py_startswith rest ''//'';
          net = (if has_net then takeWhile (\<lambda>c. c \<notin> {CHR ''/'', CHR ''?'', CHR ''#''}) (drop 2 rest) else []);
          rest2 = (if has_net then drop (2 + length net) rest else rest);
          open_b = CHR ''['' \<in> set net; close_b = CHR '']'' \<in> set net;
          (rest3, frag) = split_at (CHR ''#'') rest2;
          (path, query) = split_at (CHR ''?'') rest3
      in if open_b \<noteq> close_b \<or> (open_b \<and> close_b \<and> \<not> brk net) then None
         else Some \<lparr>u_scheme = (if has_scheme then py_lower p else []), u_netloc = net, u_path = path,
                    u_query = query, u_fragment = frag\<rparr>)"

definition public_image_name :: "(string \<Rightarrow> bool) \<Rightarrow> json \<Rightarrow> py_exn + string option" where
  "public_image_name brk v = (case v of
       JStr s \<Rightarrow> (case urlsplit brk s of
           None \<Rightarrow> Inl PyValueError
         | Some u \<Rightarrow>
             if u_scheme u \<noteq> [] \<or> u_netloc u \<noteq> [] \<or> u_query u \<noteq> [] \<or> u_fragment u \<noteq> [] then Inr None
             else if \<not> py_startswith (u_path u) ''/code_pics/'' then Inr None
             else let name = drop (length ''/code_pics/'') (u_path u)
                  in if CHR ''/'' \<in> set name \<or> \<not> image_name_ok name then Inr None else Inr (Some name))
     | _ \<Rightarrow> Inr None)"

section \<open>Extraction\<close>

definition attachment_id_of :: "(real \<Rightarrow> string) \<Rightarrow> json \<Rightarrow> string option" where
  "attachment_id_of fr v = (case v of
       JObj d \<Rightarrow> (let i = py_lower (py_strip (py_str fr (j_or (jget d ''id'') (j_or (jget d ''file_id'') (JStr [])))))
                  in if attachment_id_ok i then Some i else None)
     | _ \<Rightarrow> None)"

definition own_run :: "(real \<Rightarrow> string) \<Rightarrow> jdict \<Rightarrow> string set" where
  "own_run fr r = (let run = py_lower (py_strip (py_str fr (j_or (jget r ''run_id'') (JStr []))))
     in if run_id_ok run then {run} else {})"

definition interpreter_refs ::
  "(real \<Rightarrow> string) \<Rightarrow> (string \<Rightarrow> bool) \<Rightarrow> string set \<Rightarrow> jdict \<Rightarrow> py_exn + artifact_refs" where
  "interpreter_refs fr brk attachment_ids r =
     bindE (py_iter (j_or (jget r ''images'') (JArr []))) (\<lambda>imgs.
     bindE (mapE (public_image_name brk) imgs) (\<lambda>names.
     let found = List.map_filter id names
     in Inr \<lparr>r_attachments = attachment_ids, r_images = set found,
             r_runs = own_run fr r \<union> set (List.map_filter run_id_for_image found)\<rparr>))"

definition references_from_response_payload ::
  "(real \<Rightarrow> string) \<Rightarrow> (string \<Rightarrow> bool) \<Rightarrow> json \<Rightarrow> py_exn + artifact_refs" where
  "references_from_response_payload fr brk payload = (case payload of
       JObj d \<Rightarrow>
         bindE (py_iter (j_or (jget d ''attachments'') (JArr []))) (\<lambda>atts.
         let attachment_ids = set (List.map_filter (attachment_id_of fr) atts)
         in case jget d ''result'' of
              JObj r \<Rightarrow> interpreter_refs fr brk attachment_ids r
            | _ \<Rightarrow> Inr \<lparr>r_attachments = attachment_ids, r_images = {}, r_runs = {}\<rparr>)
     | _ \<Rightarrow> Inr no_refs)"

definition references_from_history_metadata ::
  "(real \<Rightarrow> string) \<Rightarrow> (string \<Rightarrow> bool) \<Rightarrow> json \<Rightarrow> py_exn + artifact_refs" where
  "references_from_history_metadata fr brk metadata = (case metadata of
       JObj d \<Rightarrow> (case jget d ''response_payload'' of
           JObj p \<Rightarrow> references_from_response_payload fr brk (JObj p)
         | _ \<Rightarrow> Inr no_refs)
     | _ \<Rightarrow> Inr no_refs)"

definition exclusive_references :: "artifact_refs \<Rightarrow> artifact_refs \<Rightarrow> artifact_refs" where
  "exclusive_references target retained =
     \<lparr>r_attachments = r_attachments target - r_attachments retained,
      r_images = {i \<in> r_images target - r_images retained. run_id_for_image i \<notin> Some ` r_runs retained},
      r_runs = r_runs target - r_runs retained\<rparr>"

section \<open>Facts about references\<close>

text \<open>Every identifier is well formed, and every image comes with its run.\<close>

definition refs_wf :: "artifact_refs \<Rightarrow> bool" where
  "refs_wf r \<longleftrightarrow> (\<forall>a \<in> r_attachments r. attachment_id_ok a) \<and> (\<forall>x \<in> r_runs r. run_id_ok x)
     \<and> (\<forall>i \<in> r_images r. image_name_ok i \<and> take 12 i \<in> r_runs r)"

lemma refs_wf_none [simp]: "refs_wf no_refs"
  by (simp add: refs_wf_def no_refs_def)

lemma refs_wf_union: "refs_wf a \<Longrightarrow> refs_wf b \<Longrightarrow> refs_wf (refs_union a b)"
  by (auto simp: refs_wf_def refs_union_def)

lemma map_filter_mem: "y \<in> set (List.map_filter f xs) \<longleftrightarrow> (\<exists>x \<in> set xs. f x = Some y)"
  by (induction xs) (auto simp: List.map_filter_simps split: option.splits)

lemma attachment_id_of_ok: "attachment_id_of fr v = Some a \<Longrightarrow> attachment_id_ok a"
  by (auto simp: attachment_id_of_def Let_def split: json.splits if_splits)

lemma public_image_name_ok: "public_image_name brk v = Inr (Some n) \<Longrightarrow> image_name_ok n"
  by (auto simp: public_image_name_def Let_def split: json.splits option.splits if_splits)

lemma public_image_names_ok:
  "mapE (public_image_name brk) vs = Inr ns \<Longrightarrow> Some n \<in> set ns \<Longrightarrow> image_name_ok n"
  by (induction vs arbitrary: ns) (auto simp: bindE_eq_Inr dest: public_image_name_ok)

lemma run_of_image: "image_name_ok i \<Longrightarrow> run_id_for_image i = Some (take 12 i) \<and> run_id_ok (take 12 i)"
  by (simp add: run_id_for_image_def image_name_ok_def run_id_ok_def hex_id_def)

lemma refs_wf_interpreter:
  assumes "interpreter_refs fr brk A d = Inr r" and "\<forall>a \<in> A. attachment_id_ok a"
  shows "refs_wf r"
proof -
  from assms(1) obtain imgs names where names: "mapE (public_image_name brk) imgs = Inr names"
    and r: "r = \<lparr>r_attachments = A, r_images = set (List.map_filter id names),
             r_runs = own_run fr d \<union> set (List.map_filter run_id_for_image (List.map_filter id names))\<rparr>"
    by (auto simp: interpreter_refs_def Let_def bindE_eq_Inr)
  have imgs: "image_name_ok i" if "i \<in> set (List.map_filter id names)" for i
    using that public_image_names_ok [OF names] by (auto simp: map_filter_mem)
  have "run_id_ok x" if "x \<in> own_run fr d" for x
    using that by (auto simp: own_run_def Let_def split: if_splits)
  moreover have "run_id_ok x" if "run_id_for_image i = Some x" for i x
    using that run_of_image [of i] by (auto simp: run_id_for_image_def split: if_splits)
  moreover have "take 12 i \<in> set (List.map_filter run_id_for_image (List.map_filter id names))"
    if "i \<in> set (List.map_filter id names)" for i
    using that run_of_image [OF imgs [OF that]] unfolding map_filter_mem [of "take 12 i"] by blast
  ultimately show ?thesis
    using assms(2) imgs unfolding refs_wf_def r by (auto simp: map_filter_mem [of _ run_id_for_image])
qed

lemma refs_wf_payload:
  assumes "references_from_response_payload fr brk v = Inr r"
  shows "refs_wf r"
proof (cases v)
  case (JObj d)
  with assms obtain atts where step: "(case jget d ''result'' of
      JObj q \<Rightarrow> interpreter_refs fr brk (set (List.map_filter (attachment_id_of fr) atts)) q
    | _ \<Rightarrow> Inr \<lparr>r_attachments = set (List.map_filter (attachment_id_of fr) atts), r_images = {}, r_runs = {}\<rparr>) = Inr r"
    by (auto simp: references_from_response_payload_def Let_def bindE_eq_Inr)
  have A: "\<forall>a \<in> set (List.map_filter (attachment_id_of fr) atts). attachment_id_ok a"
    by (auto simp: map_filter_mem dest: attachment_id_of_ok)
  show ?thesis
    using step A by (auto simp: refs_wf_def split: json.splits dest: refs_wf_interpreter [OF _ A, unfolded refs_wf_def])
qed (use assms in \<open>auto simp: references_from_response_payload_def\<close>)

lemma refs_wf_metadata: "references_from_history_metadata fr brk v = Inr r \<Longrightarrow> refs_wf r"
  by (auto simp: references_from_history_metadata_def split: json.splits dest: refs_wf_payload)

text \<open>The sets are the elements of lists.\<close>

definition refs_finite :: "artifact_refs \<Rightarrow> bool" where
  "refs_finite r \<longleftrightarrow> finite (r_attachments r) \<and> finite (r_images r) \<and> finite (r_runs r)"

lemma refs_finite_none [simp]: "refs_finite no_refs"
  by (simp add: refs_finite_def no_refs_def)

lemma refs_finite_union: "refs_finite a \<Longrightarrow> refs_finite b \<Longrightarrow> refs_finite (refs_union a b)"
  by (simp add: refs_finite_def refs_union_def)

lemma refs_finite_exclusive: "refs_finite a \<Longrightarrow> refs_finite (exclusive_references a b)"
  by (simp add: refs_finite_def exclusive_references_def)

lemma refs_finite_interpreter: "interpreter_refs fr brk (set ids) d = Inr r \<Longrightarrow> refs_finite r"
  by (auto simp: interpreter_refs_def Let_def bindE_eq_Inr refs_finite_def own_run_def)

lemma refs_finite_metadata: "references_from_history_metadata fr brk v = Inr r \<Longrightarrow> refs_finite r"
proof -
  have "refs_finite r" if p: "references_from_response_payload fr brk p = Inr r" for p
  proof (cases p)
    case (JObj d)
    with p obtain atts where "(case jget d ''result'' of
        JObj q \<Rightarrow> interpreter_refs fr brk (set (List.map_filter (attachment_id_of fr) atts)) q
      | _ \<Rightarrow> Inr \<lparr>r_attachments = set (List.map_filter (attachment_id_of fr) atts), r_images = {}, r_runs = {}\<rparr>) = Inr r"
      by (auto simp: references_from_response_payload_def Let_def bindE_eq_Inr)
    then show ?thesis by (auto simp: refs_finite_def split: json.splits dest: refs_finite_interpreter [unfolded refs_finite_def])
  qed (use p in \<open>auto simp: references_from_response_payload_def\<close>)
  then show "references_from_history_metadata fr brk v = Inr r \<Longrightarrow> refs_finite r"
    by (auto simp: references_from_history_metadata_def split: json.splits)
qed

text \<open>What a well-formed retained set still uses is never exclusive, not even through its run.\<close>

definition refs_disjoint :: "artifact_refs \<Rightarrow> artifact_refs \<Rightarrow> bool" where
  "refs_disjoint a b \<longleftrightarrow> r_attachments a \<inter> r_attachments b = {} \<and> r_images a \<inter> r_images b = {}
     \<and> r_runs a \<inter> r_runs b = {}
     \<and> (\<forall>i \<in> r_images a \<union> r_images b. \<forall>x. run_id_for_image i = Some x \<longrightarrow>
          \<not> (i \<in> r_images a \<and> x \<in> r_runs b) \<and> \<not> (i \<in> r_images b \<and> x \<in> r_runs a))"

lemma exclusive_disjoint:
  assumes "refs_wf retained"
  shows "refs_disjoint (exclusive_references target retained) retained"
  using assms by (auto simp: refs_disjoint_def exclusive_references_def refs_wf_def run_of_image)

lemma refs_disjoint_mono:
  assumes "refs_disjoint a b" "r_attachments c \<subseteq> r_attachments b" "r_images c \<subseteq> r_images b" "r_runs c \<subseteq> r_runs b"
  shows "refs_disjoint a c"
  using assms unfolding refs_disjoint_def by (auto 4 4)

end
