(* ===== verification/History_Schema.thy ===== *)
theory History_Schema
  imports Artifacts
begin

text \<open>
  The per-workspace SQLite database of \<open>app/utils/conversation_history_store.py\<close>: its
  tables as lists of rows in insertion order, its declared constraints, and the
  statements the store issues, each of which fails with an integrity error when the row
  it writes would break a constraint. A transaction either commits all its changes or
  leaves the database as it was.

  A JSON text column holds the value its text encodes; \<open>None\<close> in a column of type
  \<open>json option\<close> is a text that \<open>json.loads\<close> rejects. The reference column of the cleanup
  outbox holds the JSON value its text encodes, \<open>None\<close> being a text the reader rejects.
\<close>

named_theorems table_simps \<open>what a statement does to the other tables\<close>

section \<open>Rows and tables\<close>

datatype conv_status = Active | Archived
datatype turn_status = Generating | Ready | Complete | Failed
datatype msg_role = UserRole | AssistantRole

record conv_row =
  c_id :: string
  c_client_id :: string
  c_scope_key :: string
  c_scope_kind :: string
  c_title :: string
  c_status :: conv_status
  c_agent_id :: string
  c_agent_name :: string
  c_provider_id :: string
  c_model_id :: string
  c_prompt_ref :: json
  c_response_language :: string
  c_summary :: string
  c_summary_version :: int
  c_summary_through :: int
  c_message_count :: int
  c_payload_bytes :: int
  c_last_turn_id :: "string option"
  c_created_at :: time
  c_updated_at :: time
  c_archived_at :: "time option"

record ckb_row =
  k_conv :: string
  k_kb :: string
  k_selected :: bool
  k_first_used :: time
  k_last_used :: time

record turn_row =
  t_conv :: string
  t_id :: string
  t_parent :: "string option"
  t_fingerprint :: string
  t_status :: turn_status
  t_digest :: "string option"
  t_lease :: "string option"
  t_lease_expires :: "time option"
  t_created :: time
  t_updated :: time

record msg_row =
  m_conv :: string
  m_turn :: string
  m_role :: msg_role
  m_type :: string
  m_content :: string
  m_sequence :: int
  m_sources :: "json option"
  m_metadata :: "json option"
  m_bytes :: int
  m_created :: time

record outbox_row =
  o_key :: string
  o_refs :: "json option"
  o_created :: time

record hdb =
  convs :: "conv_row list"
  ckbs :: "ckb_row list"
  turns :: "turn_row list"
  msgs :: "msg_row list"
  outbox :: "outbox_row list"

definition empty_hdb :: hdb where
  "empty_hdb = \<lparr>convs = [], ckbs = [], turns = [], msgs = [], outbox = []\<rparr>"

section \<open>Errors and transactions\<close>

datatype hist_error =
    HistoryError string
  | TurnConflict
  | TurnInProgress
  | ContinuityBroken "string option"
  | QuotaExceeded string
  | ConversationNotFound
  | ConversationArchived
  | IncompatibleSchema
  | IntegrityError
  | JSONDecodeError
  | Raised py_exn

text \<open>The \<open>code\<close> attribute of the exceptions that have one.\<close>

fun hist_error_code :: "hist_error \<Rightarrow> string option" where
  "hist_error_code (HistoryError m) = Some ''history_error''"
| "hist_error_code TurnConflict = Some ''turn_id_conflict''"
| "hist_error_code TurnInProgress = Some ''turn_in_progress''"
| "hist_error_code (ContinuityBroken p) = Some ''continuity_error''"
| "hist_error_code (QuotaExceeded m) = Some ''quota_exceeded''"
| "hist_error_code ConversationNotFound = Some ''conversation_not_found''"
| "hist_error_code ConversationArchived = Some ''conversation_archived''"
| "hist_error_code IncompatibleSchema = Some ''incompatible_conversation_schema''"
| "hist_error_code IntegrityError = None"
| "hist_error_code JSONDecodeError = None"
| "hist_error_code (Raised x) = None"

type_synonym 'a tx = "hdb \<Rightarrow> hist_error + 'a \<times> hdb"

text \<open>\<open>BEGIN IMMEDIATE\<close> ... \<open>commit\<close>, with \<open>rollback\<close> and re-raise on any exception.\<close>

definition run_tx :: "'a tx \<Rightarrow> hdb \<Rightarrow> (hist_error + 'a) \<times> hdb" where
  "run_tx body db = (case body db of Inl e \<Rightarrow> (Inl e, db) | Inr (x, db') \<Rightarrow> (Inr x, db'))"

lemma run_tx_error: "run_tx body db = (Inl e, db') \<Longrightarrow> db' = db"
  by (auto simp: run_tx_def split: sum.splits)

lemma run_tx_commit: "run_tx body db = (Inr x, db') \<Longrightarrow> body db = Inr (x, db')"
  by (auto simp: run_tx_def split: sum.splits)

lemma run_tx_cases:
  "run_tx body db = (res, db') \<Longrightarrow> (\<exists>e. res = Inl e \<and> db' = db) \<or> (\<exists>x. res = Inr x \<and> body db = Inr (x, db'))"
  by (auto simp: run_tx_def split: sum.splits)

section \<open>Selection\<close>

definition find_conv :: "hdb \<Rightarrow> string \<Rightarrow> conv_row option" where
  "find_conv db cid = find (\<lambda>c. c_id c = cid) (convs db)"

definition find_scope :: "hdb \<Rightarrow> string \<Rightarrow> conv_row option" where
  "find_scope db key = find (\<lambda>c. c_scope_key c = key) (convs db)"

definition find_turn :: "hdb \<Rightarrow> string \<Rightarrow> string \<Rightarrow> turn_row option" where
  "find_turn db cid tid = find (\<lambda>t. t_conv t = cid \<and> t_id t = tid) (turns db)"

definition conv_turns :: "hdb \<Rightarrow> string \<Rightarrow> turn_row list" where
  "conv_turns db cid = filter (\<lambda>t. t_conv t = cid) (turns db)"

definition conv_msgs :: "hdb \<Rightarrow> string \<Rightarrow> msg_row list" where
  "conv_msgs db cid = filter (\<lambda>m. m_conv m = cid) (msgs db)"

definition in_flight :: "turn_row \<Rightarrow> bool" where
  "in_flight t \<longleftrightarrow> t_status t = Generating \<or> t_status t = Ready"

text \<open>The rows of the partial unique index \<open>idx_turn_requests_linear_parent\<close> and its key.\<close>

definition indexed :: "turn_row \<Rightarrow> bool" where
  "indexed t \<longleftrightarrow> t_status t \<noteq> Failed"

definition slot :: "turn_row \<Rightarrow> string \<times> string" where
  "slot t = (t_conv t, case t_parent t of None \<Rightarrow> '''' | Some p \<Rightarrow> p)"

definition linear_index_ok :: "turn_row list \<Rightarrow> bool" where
  "linear_index_ok ts \<longleftrightarrow> distinct (map slot (filter indexed ts))"

section \<open>Statements\<close>

definition insert_conv :: "conv_row \<Rightarrow> unit tx" where
  "insert_conv c db =
     (if (\<exists>d \<in> set (convs db). c_id d = c_id c \<or> c_scope_key d = c_scope_key c)
         \<or> c_scope_kind c \<notin> {''default'', ''kb'', ''multi''}
      then Inl IntegrityError
      else Inr ((), db\<lparr>convs := convs db @ [c]\<rparr>))"

text \<open>An update of one conversation that leaves its key columns alone.\<close>

definition update_conv :: "string \<Rightarrow> (conv_row \<Rightarrow> conv_row) \<Rightarrow> hdb \<Rightarrow> hdb" where
  "update_conv cid f db = db\<lparr>convs := upd_where (\<lambda>c. c_id c = cid) f (convs db)\<rparr>"

text \<open>\<open>DELETE FROM conversations\<close>, which cascades to the three dependent tables.\<close>

definition delete_conv :: "string \<Rightarrow> hdb \<Rightarrow> hdb" where
  "delete_conv cid db = db\<lparr>
     convs := filter (\<lambda>c. c_id c \<noteq> cid) (convs db),
     ckbs := filter (\<lambda>k. k_conv k \<noteq> cid) (ckbs db),
     turns := filter (\<lambda>t. t_conv t \<noteq> cid) (turns db),
     msgs := filter (\<lambda>m. m_conv m \<noteq> cid) (msgs db)\<rparr>"

definition insert_turn :: "turn_row \<Rightarrow> unit tx" where
  "insert_turn t db =
     (if (\<exists>u \<in> set (turns db). t_conv u = t_conv t \<and> t_id u = t_id t)
         \<or> t_conv t \<notin> c_id ` set (convs db)
         \<or> \<not> linear_index_ok (turns db @ [t])
      then Inl IntegrityError
      else Inr ((), db\<lparr>turns := turns db @ [t]\<rparr>))"

text \<open>An update of one turn that leaves its key columns alone.\<close>

definition update_turn :: "string \<Rightarrow> string \<Rightarrow> (turn_row \<Rightarrow> turn_row) \<Rightarrow> unit tx" where
  "update_turn cid tid f db =
     (let ts = upd_where (\<lambda>t. t_conv t = cid \<and> t_id t = tid) f (turns db)
      in if linear_index_ok ts then Inr ((), db\<lparr>turns := ts\<rparr>) else Inl IntegrityError)"

definition delete_turn :: "string \<Rightarrow> string \<Rightarrow> hdb \<Rightarrow> hdb" where
  "delete_turn cid tid db = db\<lparr>turns := filter (\<lambda>t. \<not> (t_conv t = cid \<and> t_id t = tid)) (turns db)\<rparr>"

definition insert_msg :: "msg_row \<Rightarrow> unit tx" where
  "insert_msg m db =
     (if m_conv m \<notin> c_id ` set (convs db)
         \<or> (\<exists>n \<in> set (msgs db). m_conv n = m_conv m \<and> m_sequence n = m_sequence m)
         \<or> (\<exists>n \<in> set (msgs db). m_conv n = m_conv m \<and> m_turn n = m_turn m \<and> m_role n = m_role m)
      then Inl IntegrityError
      else Inr ((), db\<lparr>msgs := msgs db @ [m]\<rparr>))"

definition insert_ckb :: "ckb_row \<Rightarrow> unit tx" where
  "insert_ckb k db =
     (if (\<exists>j \<in> set (ckbs db). k_conv j = k_conv k \<and> k_kb j = k_kb k)
         \<or> k_conv k \<notin> c_id ` set (convs db)
      then Inl IntegrityError
      else Inr ((), db\<lparr>ckbs := ckbs db @ [k]\<rparr>))"

text \<open>\<open>INSERT OR IGNORE\<close> skips a row whose primary key is taken; a foreign key still fails.\<close>

definition insert_or_ignore_ckb :: "ckb_row \<Rightarrow> unit tx" where
  "insert_or_ignore_ckb k db =
     (if \<exists>j \<in> set (ckbs db). k_conv j = k_conv k \<and> k_kb j = k_kb k then Inr ((), db)
      else insert_ckb k db)"

definition update_ckb :: "string \<Rightarrow> string \<Rightarrow> (ckb_row \<Rightarrow> ckb_row) \<Rightarrow> hdb \<Rightarrow> hdb" where
  "update_ckb cid kb f db =
     db\<lparr>ckbs := upd_where (\<lambda>k. k_conv k = cid \<and> k_kb k = kb) f (ckbs db)\<rparr>"

section \<open>The declared constraints as a predicate\<close>

definition schema_ok :: "hdb \<Rightarrow> bool" where
  "schema_ok db \<longleftrightarrow>
     distinct (map c_id (convs db)) \<and> distinct (map c_scope_key (convs db))
     \<and> c_scope_kind ` set (convs db) \<subseteq> {''default'', ''kb'', ''multi''}
     \<and> distinct (map (\<lambda>t. (t_conv t, t_id t)) (turns db)) \<and> linear_index_ok (turns db)
     \<and> t_conv ` set (turns db) \<subseteq> c_id ` set (convs db)
     \<and> distinct (map (\<lambda>m. (m_conv m, m_sequence m)) (msgs db))
     \<and> distinct (map (\<lambda>m. (m_conv m, m_turn m, m_role m)) (msgs db))
     \<and> m_conv ` set (msgs db) \<subseteq> c_id ` set (convs db)
     \<and> distinct (map (\<lambda>k. (k_conv k, k_kb k)) (ckbs db))
     \<and> k_conv ` set (ckbs db) \<subseteq> c_id ` set (convs db)"

lemma schema_ok_empty: "schema_ok empty_hdb"
  by (simp add: schema_ok_def empty_hdb_def linear_index_ok_def)

text \<open>The statements keep the constraints.\<close>

lemma distinct_map_snoc:
  "distinct (map g (xs @ [x])) \<longleftrightarrow> distinct (map g xs) \<and> (\<forall>y \<in> set xs. g y \<noteq> g x)"
  by (auto simp: image_iff)

lemma image_snoc: "g ` set (xs @ [x]) = insert (g x) (g ` set xs)"
  by auto

lemma distinct_map_filter_sub: "distinct (map f xs) \<Longrightarrow> distinct (map f (filter P xs))"
  by (induction xs) auto

lemma linear_index_filter: "linear_index_ok ts \<Longrightarrow> linear_index_ok (filter P ts)"
proof -
  assume "linear_index_ok ts"
  then have "distinct (map slot (filter P (filter indexed ts)))"
    unfolding linear_index_ok_def by (rule distinct_map_filter_sub)
  then show ?thesis by (simp add: linear_index_ok_def conj_commute)
qed

lemma insert_conv_schema: "schema_ok db \<Longrightarrow> insert_conv c db = Inr (u, db') \<Longrightarrow> schema_ok db'"
  unfolding schema_ok_def insert_conv_def
  by (clarsimp simp: distinct_map_snoc image_snoc subset_insertI2 simp del: map_append set_append split: if_splits)

lemma insert_turn_schema: "schema_ok db \<Longrightarrow> insert_turn t db = Inr (u, db') \<Longrightarrow> schema_ok db'"
  unfolding schema_ok_def insert_turn_def
  by (clarsimp simp: distinct_map_snoc image_snoc simp del: map_append set_append split: if_splits)

lemma insert_msg_schema: "schema_ok db \<Longrightarrow> insert_msg m db = Inr (u, db') \<Longrightarrow> schema_ok db'"
  unfolding schema_ok_def insert_msg_def
  by (clarsimp simp: distinct_map_snoc image_snoc simp del: map_append set_append split: if_splits)

lemma insert_ckb_schema: "schema_ok db \<Longrightarrow> insert_ckb k db = Inr (u, db') \<Longrightarrow> schema_ok db'"
  unfolding schema_ok_def insert_ckb_def
  by (clarsimp simp: distinct_map_snoc image_snoc simp del: map_append set_append split: if_splits)

lemma insert_or_ignore_ckb_schema:
  "schema_ok db \<Longrightarrow> insert_or_ignore_ckb k db = Inr (u, db') \<Longrightarrow> schema_ok db'"
  by (auto simp: insert_or_ignore_ckb_def intro: insert_ckb_schema split: if_splits)

lemma update_conv_schema:
  assumes "schema_ok db"
    and "\<And>c. c_id (f c) = c_id c" "\<And>c. c_scope_key (f c) = c_scope_key c" "\<And>c. c_scope_kind (f c) = c_scope_kind c"
  shows "schema_ok (update_conv cid f db)"
  using assms(1) unfolding schema_ok_def update_conv_def
  by (simp add: map_upd_where image_upd_where assms(2-4) del: list.set_map)

lemma update_turn_schema:
  assumes "schema_ok db" and "update_turn cid tid f db = Inr (u, db')"
    and "\<And>t. t_conv (f t) = t_conv t" "\<And>t. t_id (f t) = t_id t"
  shows "schema_ok db'"
proof -
  let ?ts = "upd_where (\<lambda>t. t_conv t = cid \<and> t_id t = tid) f (turns db)"
  have db': "db' = db\<lparr>turns := ?ts\<rparr>" and idx: "linear_index_ok ?ts"
    using assms(2) by (auto simp: update_turn_def Let_def split: if_splits)
  show ?thesis
    using assms(1) idx unfolding db' schema_ok_def
    by (simp add: map_upd_where image_upd_where assms(3,4) del: list.set_map)
qed

lemma update_ckb_schema:
  assumes "schema_ok db" and "\<And>k. k_conv (f k) = k_conv k" "\<And>k. k_kb (f k) = k_kb k"
  shows "schema_ok (update_ckb cid kb f db)"
  using assms(1) unfolding update_ckb_def schema_ok_def
  by (simp add: map_upd_where image_upd_where assms(2,3) del: list.set_map)

lemma delete_conv_schema: "schema_ok db \<Longrightarrow> schema_ok (delete_conv cid db)"
  unfolding schema_ok_def delete_conv_def
  by (auto simp: distinct_map_filter_sub linear_index_filter)

lemma delete_turn_schema: "schema_ok db \<Longrightarrow> schema_ok (delete_turn cid tid db)"
  unfolding schema_ok_def delete_turn_def
  by (auto simp: distinct_map_filter_sub linear_index_filter)

lemmas statement_schema =
  insert_conv_schema insert_turn_schema insert_msg_schema insert_ckb_schema
  insert_or_ignore_ckb_schema update_conv_schema update_turn_schema update_ckb_schema
  delete_conv_schema delete_turn_schema

end
