(* ===== verification/History_Turns.thy ===== *)
theory History_Turns
  imports History_Schema
begin

text \<open>
  The turn lifecycle of \<open>ConversationHistoryStore\<close>
  (\<open>app/utils/conversation_history_store.py\<close>): reserving a turn, staging its result,
  committing it, renewing, failing and recovering its lease, and the retention sweep that
  runs inside every reservation. The clock and the random identifiers are arguments.
\<close>

section \<open>Configuration and inputs\<close>

record hist_config =
  hc_max_conversations :: int
  hc_max_pending_turns :: int
  hc_max_messages :: int
  hc_max_conversation_bytes :: int
  hc_max_message_chars :: int
  hc_max_sources_bytes :: int
  hc_max_metadata_bytes :: int
  hc_max_history_bytes :: int
  hc_retention_days :: int
  hc_lease_seconds :: int
  hc_incomplete_days :: int
  hc_float_repr :: "real \<Rightarrow> string"
  hc_bracket_ok :: "string \<Rightarrow> bool"

text \<open>The values one call draws from the clock and from the random source.\<close>

record draws =
  d_now :: time
  d_conv_id :: string
  d_lease :: string
  d_retry_lease :: string

record begin_request =
  b_client_id :: string
  b_scope_key :: string
  b_scope_kind :: string
  b_turn_id :: string
  b_parent :: "string option"
  b_fingerprint :: string
  b_kbs :: "string list"
  b_agent_id :: string
  b_agent_name :: string
  b_provider_id :: string
  b_model_id :: string
  b_prompt_ref :: json
  b_language :: string

datatype begin_outcome =
    BNew string time
  | BReady "string option" "string option" "time option"
  | BComplete "msg_row list"

definition utf8_bytes :: "string \<Rightarrow> int" where
  "utf8_bytes s = int (utf8_len s)"

definition json_bytes :: "hist_config \<Rightarrow> json \<Rightarrow> int" where
  "json_bytes cfg v = int (utf8_len (dumps_default (hc_float_repr cfg) v))"

definition validate_json_field :: "hist_config \<Rightarrow> json \<Rightarrow> int \<Rightarrow> json \<Rightarrow> hist_error + json" where
  "validate_json_field cfg v max_bytes dflt =
     (if v = JNull then Inr dflt
      else if max_bytes < json_bytes cfg v then Inl (HistoryError ''JSON field exceeds size limit'')
      else Inr v)"

section \<open>Retention and expiry\<close>

definition lease_expired :: "time \<Rightarrow> turn_row \<Rightarrow> bool" where
  "lease_expired now t \<longleftrightarrow> t_status t = Generating
     \<and> (case t_lease_expires t of None \<Rightarrow> False | Some e \<Rightarrow> e < now)"

definition has_active_turn :: "hdb \<Rightarrow> string \<Rightarrow> bool" where
  "has_active_turn db cid \<longleftrightarrow> (\<exists>t \<in> set (turns db). t_conv t = cid \<and> in_flight t)"

record cleanup_result =
  cr_conversations_deleted :: nat
  cr_turns_deleted :: nat
  cr_leases_failed :: nat
  cr_scope_keys :: "string list"
  cr_turns :: "(string \<times> string) list"

definition expire_leases :: "time \<Rightarrow> hdb \<Rightarrow> hdb" where
  "expire_leases now db = db\<lparr>turns := upd_where (lease_expired now)
     (\<lambda>t. t\<lparr>t_status := Failed, t_lease := None, t_lease_expires := None\<rparr>) (turns db)\<rparr>"

definition stale_conversation :: "time \<Rightarrow> hdb \<Rightarrow> conv_row \<Rightarrow> bool" where
  "stale_conversation cutoff db c \<longleftrightarrow> c_status c = Active \<and> 0 < c_message_count c
     \<and> c_updated_at c < cutoff \<and> \<not> has_active_turn db (c_id c)"

definition stale_turn :: "time \<Rightarrow> hdb \<Rightarrow> turn_row \<Rightarrow> bool" where
  "stale_turn cutoff db t \<longleftrightarrow> (t_status t = Ready \<or> t_status t = Failed) \<and> t_updated t < cutoff
     \<and> find_conv db (t_conv t) \<noteq> None"

definition stale_stub :: "time \<Rightarrow> hdb \<Rightarrow> conv_row \<Rightarrow> bool" where
  "stale_stub cutoff db c \<longleftrightarrow> c_message_count c = 0 \<and> c_updated_at c < cutoff
     \<and> (\<forall>t \<in> set (turns db). t_conv t \<noteq> c_id c)"

definition delete_convs :: "conv_row list \<Rightarrow> hdb \<Rightarrow> hdb" where
  "delete_convs cs db = fold (\<lambda>c. delete_conv (c_id c)) cs db"

definition delete_turns :: "turn_row list \<Rightarrow> hdb \<Rightarrow> hdb" where
  "delete_turns ts db = fold (\<lambda>t. delete_turn (t_conv t) (t_id t)) ts db"

definition cleanup_expired_locked :: "hist_config \<Rightarrow> time \<Rightarrow> hdb \<Rightarrow> cleanup_result \<times> hdb" where
  "cleanup_expired_locked cfg now db0 =
     (let failed = length (filter (lease_expired now) (turns db0));
          db1 = expire_leases now db0;
          old = (if 0 < hc_retention_days cfg
                 then filter (stale_conversation (now - real_of_int (hc_retention_days cfg * 86400)) db1) (convs db1)
                 else []);
          db2 = delete_convs old db1;
          cutoff = now - real_of_int (hc_incomplete_days cfg * 86400);
          dead = (if 0 < hc_incomplete_days cfg then filter (stale_turn cutoff db2) (turns db2) else []);
          db3 = delete_turns dead db2;
          stubs = (if 0 < hc_incomplete_days cfg then filter (stale_stub cutoff db3) (convs db3) else []);
          db4 = delete_convs stubs db3
      in (\<lparr>cr_conversations_deleted = length old + length stubs,
           cr_turns_deleted = length dead,
           cr_leases_failed = failed,
           cr_scope_keys = map c_scope_key old @ map c_scope_key stubs,
           cr_turns = map (\<lambda>t. (case find_conv db2 (t_conv t) of None \<Rightarrow> '''' | Some c \<Rightarrow> c_scope_key c, t_id t)) dead\<rparr>,
          db4))"

section \<open>Quotas and continuity\<close>

definition count_completed_convs :: "hdb \<Rightarrow> int" where
  "count_completed_convs db = int (length (filter (\<lambda>c. 0 < c_message_count c) (convs db)))"

definition enforce_quota_for_new_scope :: "hist_config \<Rightarrow> hdb \<Rightarrow> string \<Rightarrow> hist_error + unit" where
  "enforce_quota_for_new_scope cfg db key =
     (if hc_max_conversations cfg \<le> 0 then Inr ()
      else if find_scope db key \<noteq> None then Inr ()
      else guardE (count_completed_convs db < hc_max_conversations cfg)
             (QuotaExceeded ''conversation quota exceeded''))"

definition enforce_quota_on_first_commit ::
  "hist_config \<Rightarrow> hdb \<Rightarrow> string \<Rightarrow> int \<Rightarrow> hist_error + unit" where
  "enforce_quota_on_first_commit cfg db cid current_count =
     (if hc_max_conversations cfg \<le> 0 \<or> 0 < current_count then Inr ()
      else guardE (int (length (filter (\<lambda>c. 0 < c_message_count c \<and> c_id c \<noteq> cid) (convs db)))
                     < hc_max_conversations cfg)
             (QuotaExceeded ''conversation quota exceeded''))"

definition enforce_pending_quota :: "hist_config \<Rightarrow> hdb \<Rightarrow> hist_error + unit" where
  "enforce_pending_quota cfg db =
     guardE (\<not> (0 < hc_max_pending_turns cfg
         \<and> hc_max_pending_turns cfg \<le> int (length (filter (\<lambda>t. t_status t \<noteq> Complete) (turns db)))))
       (QuotaExceeded ''pending turn quota exceeded'')"

definition enforce_message_quota :: "hist_config \<Rightarrow> int \<Rightarrow> hist_error + unit" where
  "enforce_message_quota cfg current_count =
     guardE (current_count + 2 \<le> hc_max_messages cfg) (QuotaExceeded ''conversation message quota exceeded'')"

definition turn_bytes :: "hist_config \<Rightarrow> string \<Rightarrow> string \<Rightarrow> json \<Rightarrow> json \<Rightarrow> int" where
  "turn_bytes cfg user assistant sources metadata =
     utf8_bytes user + utf8_bytes assistant + json_bytes cfg sources + json_bytes cfg metadata"

definition enforce_conversation_bytes ::
  "hist_config \<Rightarrow> int \<Rightarrow> string \<Rightarrow> string \<Rightarrow> json \<Rightarrow> json \<Rightarrow> hist_error + unit" where
  "enforce_conversation_bytes cfg current_bytes user assistant sources metadata =
     guardE (current_bytes + turn_bytes cfg user assistant sources metadata \<le> hc_max_conversation_bytes cfg)
       (QuotaExceeded ''conversation byte quota exceeded'')"

definition enforce_history_bytes :: "hist_config \<Rightarrow> hdb \<Rightarrow> int \<Rightarrow> hist_error + unit" where
  "enforce_history_bytes cfg db added =
     guardE (sum_list (map c_payload_bytes (convs db)) + added \<le> hc_max_history_bytes cfg)
       (QuotaExceeded ''workspace history byte quota exceeded'')"

definition assert_linear_parent :: "hdb \<Rightarrow> string \<Rightarrow> string option \<Rightarrow> hist_error + unit" where
  "assert_linear_parent db cid parent =
     (let expected = (case find_conv db cid of None \<Rightarrow> None | Some c \<Rightarrow> c_last_turn_id c)
      in case parent of
           None \<Rightarrow> guardE (expected = None) (ContinuityBroken expected)
         | Some p \<Rightarrow> guardE (expected = Some p) (ContinuityBroken expected))"

section \<open>Reading messages\<close>

definition message_row :: "msg_row \<Rightarrow> hist_error + msg_row" where
  "message_row m = (if m_sources m = None \<or> m_metadata m = None then Inl JSONDecodeError else Inr m)"

definition messages_for_turn :: "hdb \<Rightarrow> string \<Rightarrow> string \<Rightarrow> hist_error + msg_row list" where
  "messages_for_turn db cid tid =
     mapE message_row (sort_key m_sequence (filter (\<lambda>m. m_conv m = cid \<and> m_turn m = tid) (msgs db)))"

section \<open>Reserving a turn\<close>

definition get_or_create_conversation :: "begin_request \<Rightarrow> draws \<Rightarrow> conv_row tx" where
  "get_or_create_conversation req dr db =
     (case find_scope db (b_scope_key req) of
        Some c \<Rightarrow> if c_status c = Archived then Inl ConversationArchived else Inr (c, db)
      | None \<Rightarrow>
          let c = \<lparr>c_id = d_conv_id dr, c_client_id = b_client_id req, c_scope_key = b_scope_key req,
                   c_scope_kind = b_scope_kind req, c_title = '''', c_status = Active,
                   c_agent_id = b_agent_id req, c_agent_name = b_agent_name req,
                   c_provider_id = b_provider_id req, c_model_id = b_model_id req,
                   c_prompt_ref = j_or (b_prompt_ref req) (JObj []), c_response_language = b_language req,
                   c_summary = '''', c_summary_version = 0, c_summary_through = 0,
                   c_message_count = 0, c_payload_bytes = 0, c_last_turn_id = None,
                   c_created_at = d_now dr, c_updated_at = d_now dr, c_archived_at = None\<rparr>
          in bindE (insert_conv c db) (\<lambda>(_, db'). Inr (c, db')))"

fun for_each :: "('a \<Rightarrow> unit tx) \<Rightarrow> 'a list \<Rightarrow> unit tx" where
  "for_each f [] db = Inr ((), db)"
| "for_each f (x # xs) db = bindE (f x db) (\<lambda>(_, db'). for_each f xs db')"

text \<open>\<open>dict.fromkeys\<close>: the first occurrence of each value, in order.\<close>

definition py_dedup :: "'a list \<Rightarrow> 'a list" where
  "py_dedup xs = rev (remdups (rev xs))"

definition associate_reservation_kbs :: "string \<Rightarrow> string list \<Rightarrow> time \<Rightarrow> unit tx" where
  "associate_reservation_kbs cid kbs now =
     for_each (\<lambda>kb. insert_or_ignore_ckb
         \<lparr>k_conv = cid, k_kb = kb, k_selected = False, k_first_used = now, k_last_used = now\<rparr>)
       (filter (\<lambda>kb. kb \<noteq> '''') (py_dedup kbs))"

definition take_lease :: "string \<Rightarrow> time \<Rightarrow> time \<Rightarrow> turn_row \<Rightarrow> turn_row" where
  "take_lease token expires now t =
     t\<lparr>t_status := Generating, t_lease := Some token, t_lease_expires := Some expires, t_updated := now\<rparr>"

definition handle_existing_turn ::
  "hist_config \<Rightarrow> draws \<Rightarrow> turn_row \<Rightarrow> string \<Rightarrow> begin_outcome tx" where
  "handle_existing_turn cfg dr existing fingerprint db =
     (let expires = d_now dr + real_of_int (hc_lease_seconds cfg);
          retry = (\<lambda>db. bindE (update_turn (t_conv existing) (t_id existing)
                            (take_lease (d_retry_lease dr) expires (d_now dr)) db)
                     (\<lambda>(_, db'). Inr (BNew (d_retry_lease dr) expires, db')))
      in if t_fingerprint existing \<noteq> fingerprint then Inl TurnConflict
         else (case t_status existing of
             Complete \<Rightarrow> bindE (messages_for_turn db (t_conv existing) (t_id existing))
                           (\<lambda>ms. Inr (BComplete ms, db))
           | Ready \<Rightarrow> Inr (BReady (t_digest existing) (t_lease existing) (t_lease_expires existing), db)
           | Failed \<Rightarrow> bindE (assert_linear_parent db (t_conv existing) (t_parent existing)) (\<lambda>_. retry db)
           | Generating \<Rightarrow>
               if (case t_lease_expires existing of None \<Rightarrow> False | Some e \<Rightarrow> e \<noteq> 0 \<and> e < d_now dr)
               then retry db else Inl TurnInProgress))"

text \<open>An integrity error of the reservation row is reported as a turn in progress.\<close>

definition reserve_turn ::
  "hist_config \<Rightarrow> begin_request \<Rightarrow> draws \<Rightarrow> string \<Rightarrow> begin_outcome tx" where
  "reserve_turn cfg req dr cid db =
     (let expires = d_now dr + real_of_int (hc_lease_seconds cfg)
      in bindE (assert_linear_parent db cid (b_parent req)) (\<lambda>_.
         bindE (enforce_pending_quota cfg db) (\<lambda>_.
         case insert_turn \<lparr>t_conv = cid, t_id = b_turn_id req, t_parent = b_parent req,
               t_fingerprint = b_fingerprint req, t_status = Generating, t_digest = None,
               t_lease = Some (d_lease dr), t_lease_expires = Some expires,
               t_created = d_now dr, t_updated = d_now dr\<rparr> db of
           Inl _ \<Rightarrow> Inl TurnInProgress
         | Inr (_, db') \<Rightarrow> Inr (BNew (d_lease dr) expires, db'))))"

definition begin_turn_body ::
  "hist_config \<Rightarrow> begin_request \<Rightarrow> draws \<Rightarrow> (begin_outcome \<times> conv_row) tx" where
  "begin_turn_body cfg req dr db0 =
     (let db1 = snd (cleanup_expired_locked cfg (d_now dr) db0)
      in bindE (enforce_quota_for_new_scope cfg db1 (b_scope_key req)) (\<lambda>_.
         bindE (get_or_create_conversation req dr db1) (\<lambda>(c, db2).
         bindE (associate_reservation_kbs (c_id c) (b_kbs req) (d_now dr) db2) (\<lambda>(_, db3).
         bindE (case find_turn db3 (c_id c) (b_turn_id req) of
                  Some existing \<Rightarrow> handle_existing_turn cfg dr existing (b_fingerprint req) db3
                | None \<Rightarrow> reserve_turn cfg req dr (c_id c) db3) (\<lambda>(out, db4).
         Inr ((out, c), db4))))))"

definition begin_checks :: "begin_request \<Rightarrow> hist_error + unit" where
  "begin_checks req =
     (if b_scope_kind req \<notin> {''default'', ''kb'', ''multi''} then Inl (HistoryError ''invalid scope_kind'')
      else if b_turn_id req = '''' \<or> 80 < length (b_turn_id req) then Inl (HistoryError ''invalid turn_id'')
      else guardE (\<not> (b_fingerprint req = '''' \<or> 64 < length (b_fingerprint req)))
             (HistoryError ''invalid request_fingerprint''))"

definition begin_turn ::
  "hist_config \<Rightarrow> begin_request \<Rightarrow> draws \<Rightarrow> hdb \<Rightarrow> (hist_error + (begin_outcome \<times> conv_row)) \<times> hdb" where
  "begin_turn cfg req dr db =
     (case begin_checks req of Inl e \<Rightarrow> (Inl e, db) | Inr _ \<Rightarrow> run_tx (begin_turn_body cfg req dr) db)"

section \<open>Staging, committing and releasing a turn\<close>

definition get_turn_for_update :: "hdb \<Rightarrow> string \<Rightarrow> string \<Rightarrow> turn_row option" where
  "get_turn_for_update db key tid =
     (case find_scope db key of None \<Rightarrow> None | Some c \<Rightarrow> find_turn db (c_id c) tid)"

datatype recover_outcome =
    RComplete "msg_row list"
  | RNew string time "conv_row option"

definition recover_ready_body ::
  "hist_config \<Rightarrow> draws \<Rightarrow> string \<Rightarrow> string \<Rightarrow> string \<Rightarrow> string option \<Rightarrow> recover_outcome tx" where
  "recover_ready_body cfg dr key tid fingerprint expected db =
     (case get_turn_for_update db key tid of
        None \<Rightarrow> Inl ConversationNotFound
      | Some row \<Rightarrow>
          if t_fingerprint row \<noteq> fingerprint then Inl TurnConflict
          else if t_status row = Complete
          then bindE (messages_for_turn db (t_conv row) tid) (\<lambda>ms. Inr (RComplete ms, db))
          else if t_status row \<noteq> Ready then Inl TurnInProgress
          else if t_lease row \<noteq> expected then Inl TurnInProgress
          else let expires = d_now dr + real_of_int (hc_lease_seconds cfg)
               in bindE (update_turn (t_conv row) tid
                      (\<lambda>t. (take_lease (d_lease dr) expires (d_now dr) t)\<lparr>t_digest := None\<rparr>) db)
                    (\<lambda>(_, db'). Inr (RNew (d_lease dr) expires (find_conv db' (t_conv row)), db')))"

definition recover_ready_turn ::
  "hist_config \<Rightarrow> draws \<Rightarrow> string \<Rightarrow> string \<Rightarrow> string \<Rightarrow> string option \<Rightarrow> hdb
    \<Rightarrow> (hist_error + recover_outcome) \<times> hdb" where
  "recover_ready_turn cfg dr key tid fingerprint expected =
     run_tx (recover_ready_body cfg dr key tid fingerprint expected)"

definition mark_turn_ready_body :: "time \<Rightarrow> string \<Rightarrow> string \<Rightarrow> string \<Rightarrow> string \<Rightarrow> bool tx" where
  "mark_turn_ready_body now key tid lease digest db =
     (case get_turn_for_update db key tid of
        None \<Rightarrow> Inr (False, db)
      | Some row \<Rightarrow>
          if t_lease row \<noteq> Some lease then Inr (False, db)
          else if \<not> in_flight row then Inr (False, db)
          else bindE (update_turn (t_conv row) tid
                   (\<lambda>t. t\<lparr>t_status := Ready, t_digest := Some digest, t_updated := now\<rparr>) db)
                 (\<lambda>(_, db'). Inr (True, db')))"

definition mark_turn_ready ::
  "time \<Rightarrow> string \<Rightarrow> string \<Rightarrow> string \<Rightarrow> string \<Rightarrow> hdb \<Rightarrow> (hist_error + bool) \<times> hdb" where
  "mark_turn_ready now key tid lease digest = run_tx (mark_turn_ready_body now key tid lease digest)"

definition renew_turn_lease_body ::
  "hist_config \<Rightarrow> time \<Rightarrow> string \<Rightarrow> string \<Rightarrow> string \<Rightarrow> bool tx" where
  "renew_turn_lease_body cfg now key tid lease db =
     (case get_turn_for_update db key tid of
        None \<Rightarrow> Inr (False, db)
      | Some row \<Rightarrow>
          if t_lease row \<noteq> Some lease then Inr (False, db)
          else if \<not> in_flight row then Inr (False, db)
          else bindE (update_turn (t_conv row) tid
                   (\<lambda>t. t\<lparr>t_lease_expires := Some (now + real_of_int (hc_lease_seconds cfg)), t_updated := now\<rparr>) db)
                 (\<lambda>(_, db'). Inr (True, db')))"

definition renew_turn_lease ::
  "hist_config \<Rightarrow> time \<Rightarrow> string \<Rightarrow> string \<Rightarrow> string \<Rightarrow> hdb \<Rightarrow> (hist_error + bool) \<times> hdb" where
  "renew_turn_lease cfg now key tid lease = run_tx (renew_turn_lease_body cfg now key tid lease)"

definition fail_turn_body :: "time \<Rightarrow> string \<Rightarrow> string \<Rightarrow> string \<Rightarrow> bool tx" where
  "fail_turn_body now key tid lease db =
     (case get_turn_for_update db key tid of
        None \<Rightarrow> Inr (False, db)
      | Some row \<Rightarrow>
          if t_lease row \<noteq> Some lease then Inr (False, db)
          else if t_status row = Complete then Inr (False, db)
          else bindE (update_turn (t_conv row) tid
                   (\<lambda>t. t\<lparr>t_status := Failed, t_lease := None, t_lease_expires := None, t_updated := now\<rparr>) db)
                 (\<lambda>(_, db'). Inr (True, db')))"

definition fail_turn ::
  "time \<Rightarrow> string \<Rightarrow> string \<Rightarrow> string \<Rightarrow> hdb \<Rightarrow> (hist_error + bool) \<times> hdb" where
  "fail_turn now key tid lease = run_tx (fail_turn_body now key tid lease)"

section \<open>Committing a turn\<close>

record complete_request =
  q_scope_key :: string
  q_turn_id :: string
  q_lease :: string
  q_fingerprint :: string
  q_user :: string
  q_assistant :: string
  q_message_type :: string
  q_kbs :: "string list"
  q_agent_id :: string
  q_agent_name :: string
  q_provider_id :: string
  q_model_id :: string
  q_prompt_ref :: json
  q_language :: string
  q_sources :: json
  q_metadata :: json

datatype complete_outcome =
    CReplayed "msg_row list"
  | CDone int int int int string "msg_row list"

definition upsert_one :: "string \<Rightarrow> string list \<Rightarrow> time \<Rightarrow> string \<Rightarrow> unit tx" where
  "upsert_one cid existing now kb db =
     (if kb = '''' then Inr ((), db)
      else if kb \<in> set existing
      then Inr ((), update_ckb cid kb (\<lambda>k. k\<lparr>k_selected := True, k_last_used := now\<rparr>) db)
      else insert_ckb \<lparr>k_conv = cid, k_kb = kb, k_selected = True,
                       k_first_used = now, k_last_used = now\<rparr> db)"

definition deselect_kb :: "string \<Rightarrow> string \<Rightarrow> hdb \<Rightarrow> hdb" where
  "deselect_kb cid kb = update_ckb cid kb (\<lambda>k. k\<lparr>k_selected := False\<rparr>)"

definition upsert_knowledge_bases :: "string \<Rightarrow> string list \<Rightarrow> time \<Rightarrow> unit tx" where
  "upsert_knowledge_bases cid ids now db0 =
     (let existing = map k_kb (filter (\<lambda>k. k_conv k = cid) (ckbs db0))
      in bindE (for_each (upsert_one cid existing now) ids db0) (\<lambda>(_, db1).
         Inr ((), fold (deselect_kb cid) (filter (\<lambda>kb. kb \<notin> set ids) existing) db1)))"

definition derive_title :: "string \<Rightarrow> string \<Rightarrow> string" where
  "derive_title current_title user_content =
     (if current_title \<noteq> '''' then current_title
      else take 80 (py_join '' '' (py_split_ws [] user_content)))"

definition validate_message_content :: "hist_config \<Rightarrow> string \<Rightarrow> string \<Rightarrow> hist_error + unit" where
  "validate_message_content cfg user assistant =
     (if hc_max_message_chars cfg < int (length user) then Inl (HistoryError ''user message exceeds size limit'')
      else guardE (int (length assistant) \<le> hc_max_message_chars cfg)
             (HistoryError ''assistant message exceeds size limit''))"

definition next_sequence :: "hdb \<Rightarrow> string \<Rightarrow> int" where
  "next_sequence db cid =
     (case map m_sequence (conv_msgs db cid) of [] \<Rightarrow> 0 | s # ss \<Rightarrow> fold max ss s) + 1"

text \<open>The part of the commit that writes: two messages, the knowledge bases, the two rows.\<close>

definition commit_turn ::
  "hist_config \<Rightarrow> time \<Rightarrow> complete_request \<Rightarrow> json \<Rightarrow> json \<Rightarrow> json \<Rightarrow> conv_row \<Rightarrow> complete_outcome tx" where
  "commit_turn cfg now q sources metadata prompt conv db0 =
     (let cid = c_id conv; tid = q_turn_id q; seq = next_sequence db0 cid;
          user_bytes = utf8_bytes (q_user q); assistant_bytes = utf8_bytes (q_assistant q);
          sources_bytes = json_bytes cfg sources; metadata_bytes = json_bytes cfg metadata;
          title = derive_title (c_title conv) (q_user q);
          count = c_message_count conv + 2;
          bytes = c_payload_bytes conv + (user_bytes + assistant_bytes + sources_bytes + metadata_bytes)
      in bindE (insert_msg \<lparr>m_conv = cid, m_turn = tid, m_role = UserRole, m_type = ''text'',
             m_content = q_user q, m_sequence = seq, m_sources = Some (JArr []), m_metadata = Some (JObj []),
             m_bytes = user_bytes, m_created = now\<rparr> db0) (\<lambda>(_, db1).
         bindE (insert_msg \<lparr>m_conv = cid, m_turn = tid, m_role = AssistantRole, m_type = q_message_type q,
             m_content = q_assistant q, m_sequence = seq + 1, m_sources = Some sources, m_metadata = Some metadata,
             m_bytes = assistant_bytes + sources_bytes + metadata_bytes, m_created = now\<rparr> db1) (\<lambda>(_, db2).
         bindE (upsert_knowledge_bases cid (q_kbs q) now db2) (\<lambda>(_, db3).
         bindE (update_turn cid tid
             (\<lambda>t. t\<lparr>t_status := Complete, t_lease := None, t_lease_expires := None, t_updated := now\<rparr>) db3) (\<lambda>(_, db4).
         let db5 = update_conv cid (\<lambda>c. c\<lparr>c_title := title, c_agent_id := q_agent_id q,
               c_agent_name := q_agent_name q, c_provider_id := q_provider_id q, c_model_id := q_model_id q,
               c_prompt_ref := prompt, c_response_language := q_language q,
               c_message_count := count, c_payload_bytes := bytes,
               c_last_turn_id := Some tid, c_updated_at := now\<rparr>) db4
         in bindE (messages_for_turn db5 cid tid) (\<lambda>ms.
            Inr (CDone seq (seq + 1) count bytes title ms, db5)))))))"

definition complete_turn_body ::
  "hist_config \<Rightarrow> time \<Rightarrow> complete_request \<Rightarrow> json \<Rightarrow> json \<Rightarrow> json \<Rightarrow> complete_outcome tx" where
  "complete_turn_body cfg now q sources metadata prompt db =
     (case get_turn_for_update db (q_scope_key q) (q_turn_id q) of
        None \<Rightarrow> Inl ConversationNotFound
      | Some row \<Rightarrow>
          if t_status row = Complete
          then bindE (messages_for_turn db (t_conv row) (q_turn_id q)) (\<lambda>ms. Inr (CReplayed ms, db))
          else if t_lease row \<noteq> Some (q_lease q) then Inl TurnConflict
          else if t_fingerprint row \<noteq> q_fingerprint q then Inl TurnConflict
          else (case find_conv db (t_conv row) of
              None \<Rightarrow> Inl ConversationNotFound
            | Some conv \<Rightarrow>
                bindE (enforce_quota_on_first_commit cfg db (t_conv row) (c_message_count conv)) (\<lambda>_.
                bindE (enforce_message_quota cfg (c_message_count conv)) (\<lambda>_.
                bindE (enforce_conversation_bytes cfg (c_payload_bytes conv) (q_user q) (q_assistant q) sources metadata) (\<lambda>_.
                bindE (enforce_history_bytes cfg db (turn_bytes cfg (q_user q) (q_assistant q) sources metadata)) (\<lambda>_.
                commit_turn cfg now q sources metadata prompt conv db))))))"

definition complete_checks :: "hist_config \<Rightarrow> complete_request \<Rightarrow> hist_error + json \<times> json \<times> json" where
  "complete_checks cfg q =
     bindE (validate_message_content cfg (q_user q) (q_assistant q)) (\<lambda>_.
     bindE (validate_json_field cfg (j_or (q_sources q) (JArr [])) (hc_max_sources_bytes cfg) (JArr [])) (\<lambda>sources.
     bindE (validate_json_field cfg (j_or (q_metadata q) (JObj [])) (hc_max_metadata_bytes cfg) (JObj [])) (\<lambda>metadata.
     bindE (validate_json_field cfg (j_or (q_prompt_ref q) (JObj [])) 65536 (JObj [])) (\<lambda>prompt.
     Inr (sources, metadata, prompt)))))"

definition complete_turn ::
  "hist_config \<Rightarrow> time \<Rightarrow> complete_request \<Rightarrow> hdb \<Rightarrow> (hist_error + complete_outcome) \<times> hdb" where
  "complete_turn cfg now q db =
     (case complete_checks cfg q of
        Inl e \<Rightarrow> (Inl e, db)
      | Inr (sources, metadata, prompt) \<Rightarrow> run_tx (complete_turn_body cfg now q sources metadata prompt) db)"

section \<open>Continuity reset and the sweep as calls of their own\<close>

definition reset_continuity_body :: "time \<Rightarrow> string \<Rightarrow> (string option \<times> nat) tx" where
  "reset_continuity_body now hid db =
     (case find_conv db hid of
        None \<Rightarrow> Inl ConversationNotFound
      | Some c \<Rightarrow>
          let hit = (\<lambda>t. t_conv t = hid \<and> lease_expired now t)
          in Inr ((c_last_turn_id c, length (filter hit (turns db))),
               db\<lparr>turns := upd_where hit
                  (\<lambda>t. t\<lparr>t_status := Failed, t_lease := None, t_lease_expires := None, t_updated := now\<rparr>) (turns db)\<rparr>))"

definition reset_continuity ::
  "time \<Rightarrow> string \<Rightarrow> hdb \<Rightarrow> (hist_error + (string option \<times> nat)) \<times> hdb" where
  "reset_continuity now hid = run_tx (reset_continuity_body now hid)"

definition cleanup_expired :: "hist_config \<Rightarrow> time \<Rightarrow> hdb \<Rightarrow> (hist_error + cleanup_result) \<times> hdb" where
  "cleanup_expired cfg now = run_tx (\<lambda>db. Inr (cleanup_expired_locked cfg now db))"

end
