(* ===== verification/History_Invariant.thy ===== *)
theory History_Invariant
  imports History_Turns
begin

text \<open>
  What the turn store keeps true of every conversation: its messages are numbered from
  one without gaps and come in user/assistant pairs, its completed turns form one chain in
  which every turn names the previous one as its parent, every turn in flight continues the
  last completed one and holds a lease, and the counters of the conversation row agree with
  its messages. This theory holds the predicate and its preservation by the statements.
\<close>

section \<open>The invariant of one conversation\<close>

fun in_pairs :: "msg_row list \<Rightarrow> bool" where
  "in_pairs [] = True"
| "in_pairs [m] = False"
| "in_pairs (u # a # ms) =
     (m_role u = UserRole \<and> m_role a = AssistantRole \<and> m_turn a = m_turn u \<and> in_pairs ms)"

fun transcript :: "msg_row list \<Rightarrow> string list" where
  "transcript [] = []"
| "transcript [m] = []"
| "transcript (u # a # ms) = m_turn u # transcript ms"

fun linked :: "turn_row set \<Rightarrow> string option \<Rightarrow> string list \<Rightarrow> bool" where
  "linked T prev [] = True"
| "linked T prev (x # xs) =
     ((\<exists>t \<in> T. t_id t = x \<and> t_status t = Complete \<and> t_parent t = prev) \<and> linked T (Some x) xs)"

definition last_of :: "string list \<Rightarrow> string option" where
  "last_of us = (if us = [] then None else Some (last us))"

definition turn_ok :: "string list \<Rightarrow> turn_row \<Rightarrow> bool" where
  "turn_ok us t \<longleftrightarrow> t_id t \<noteq> '''' \<and> (in_flight t \<longrightarrow> t_parent t = last_of us)
     \<and> (t_lease t = None \<longleftrightarrow> \<not> in_flight t) \<and> (t_status t = Complete \<longrightarrow> t_id t \<in> set us)"

definition conv_inv :: "conv_row \<Rightarrow> turn_row list \<Rightarrow> msg_row list \<Rightarrow> bool" where
  "conv_inv c ts ms \<longleftrightarrow>
     c_message_count c = int (length ms)
     \<and> map m_sequence ms = map int [1..<Suc (length ms)]
     \<and> c_payload_bytes c = sum_list (map m_bytes ms)
     \<and> in_pairs ms
     \<and> linked (set ts) None (transcript ms)
     \<and> c_last_turn_id c = last_of (transcript ms)
     \<and> (\<forall>t \<in> set ts. turn_ok (transcript ms) t)"

definition hist_inv :: "hdb \<Rightarrow> bool" where
  "hist_inv db \<longleftrightarrow> schema_ok db
     \<and> (\<forall>c \<in> set (convs db). conv_inv c (conv_turns db (c_id c)) (conv_msgs db (c_id c)))"

lemma hist_inv_schema: "hist_inv db \<Longrightarrow> schema_ok db"
  by (simp add: hist_inv_def)

lemma hist_invD: "hist_inv db \<Longrightarrow> c \<in> set (convs db) \<Longrightarrow> conv_inv c (conv_turns db (c_id c)) (conv_msgs db (c_id c))"
  by (simp add: hist_inv_def)

lemma hist_inv_empty: "hist_inv empty_hdb"
  using schema_ok_empty by (simp add: hist_inv_def) (simp add: empty_hdb_def)

section \<open>Lists of messages\<close>

lemma in_pairs_append: "in_pairs ms \<Longrightarrow> in_pairs (ms @ ns) = in_pairs ns"
  by (induction ms rule: in_pairs.induct) auto

lemma transcript_append: "in_pairs ms \<Longrightarrow> transcript (ms @ ns) = transcript ms @ transcript ns"
  by (induction ms rule: in_pairs.induct) auto

lemma transcript_roles:
  "in_pairs ms \<Longrightarrow> x \<in> set (transcript ms) \<Longrightarrow> \<exists>m \<in> set ms. m_turn m = x \<and> m_role m = UserRole"
  by (induction ms rule: in_pairs.induct) auto

lemma in_pairs_mem: "in_pairs ms \<Longrightarrow> m \<in> set ms \<Longrightarrow> m_turn m \<in> set (transcript ms)"
  by (induction ms rule: in_pairs.induct) auto

lemma length_transcript: "in_pairs ms \<Longrightarrow> length ms = 2 * length (transcript ms)"
  by (induction ms rule: in_pairs.induct) auto

section \<open>Chains\<close>

lemma linked_append:
  "linked T prev (xs @ [x]) \<longleftrightarrow> linked T prev xs
     \<and> (\<exists>t \<in> T. t_id t = x \<and> t_status t = Complete \<and> t_parent t = (if xs = [] then prev else Some (last xs)))"
  by (induction xs arbitrary: prev) auto

lemma linked_mono:
  assumes "linked T prev xs"
    and "\<And>t. t \<in> T \<Longrightarrow> t_status t = Complete \<Longrightarrow>
      \<exists>u \<in> S. t_id u = t_id t \<and> t_status u = Complete \<and> t_parent u = t_parent t"
  shows "linked S prev xs"
  using assms(1)
proof (induction xs arbitrary: prev)
  case Nil
  then show ?case by simp
next
  case (Cons x xs)
  from Cons.prems obtain t where "t \<in> T" "t_id t = x" "t_status t = Complete" "t_parent t = prev"
    by auto
  then have "\<exists>u \<in> S. t_id u = x \<and> t_status u = Complete \<and> t_parent u = prev"
    using assms(2) by force
  with Cons show ?case by simp
qed

section \<open>Selection from a well-formed database\<close>

lemma find_conv_Some: "find_conv db cid = Some c \<Longrightarrow> c \<in> set (convs db) \<and> c_id c = cid"
  by (auto simp: find_conv_def find_Some_iff)

lemma find_scope_Some: "find_scope db key = Some c \<Longrightarrow> c \<in> set (convs db) \<and> c_scope_key c = key"
  by (auto simp: find_scope_def find_Some_iff)

lemma find_turn_Some: "find_turn db cid tid = Some t \<Longrightarrow> t \<in> set (turns db) \<and> t_conv t = cid \<and> t_id t = tid"
  by (auto simp: find_turn_def find_Some_iff)

lemma find_scope_None: "find_scope db key = None \<longleftrightarrow> (\<forall>c \<in> set (convs db). c_scope_key c \<noteq> key)"
  by (auto simp: find_scope_def find_None_iff)

lemma find_conv_None: "find_conv db cid = None \<longleftrightarrow> cid \<notin> c_id ` set (convs db)"
  by (auto simp: find_conv_def find_None_iff)

lemma get_turn_Some:
  "get_turn_for_update db key tid = Some t \<Longrightarrow>
    \<exists>c. find_scope db key = Some c \<and> t_conv t = c_id c \<and> t_id t = tid \<and> t \<in> set (turns db)"
  by (auto simp: get_turn_for_update_def dest: find_turn_Some split: option.splits)

lemma distinct_map_inj: "distinct (map f xs) \<Longrightarrow> x \<in> set xs \<Longrightarrow> y \<in> set xs \<Longrightarrow> f x = f y \<Longrightarrow> x = y"
  by (auto simp: distinct_map dest: inj_onD)

lemma same_conv: "schema_ok db \<Longrightarrow> c \<in> set (convs db) \<Longrightarrow> d \<in> set (convs db) \<Longrightarrow> c_id c = c_id d \<Longrightarrow> c = d"
  by (rule distinct_map_inj [of c_id]) (auto simp: schema_ok_def)

lemma same_turn:
  assumes "schema_ok db" "t \<in> set (turns db)" "u \<in> set (turns db)" "t_conv t = t_conv u" "t_id t = t_id u"
  shows "t = u"
  by (rule distinct_map_inj [of "\<lambda>t. (t_conv t, t_id t)" "turns db"])
    (use assms in \<open>auto simp: schema_ok_def\<close>)

lemma find_conv_eq: "schema_ok db \<Longrightarrow> c \<in> set (convs db) \<Longrightarrow> find_conv db (c_id c) = Some c"
  using find_conv_None [of db "c_id c"]
  by (cases "find_conv db (c_id c)") (auto dest: find_conv_Some same_conv)

lemma turn_has_conv: "schema_ok db \<Longrightarrow> t \<in> set (turns db) \<Longrightarrow> \<exists>c \<in> set (convs db). c_id c = t_conv t"
proof -
  assume sch: "schema_ok db" and t: "t \<in> set (turns db)"
  from sch have "t_conv ` set (turns db) \<subseteq> c_id ` set (convs db)" by (simp add: schema_ok_def)
  with t have "t_conv t \<in> c_id ` set (convs db)" by blast
  then show ?thesis by auto
qed

lemma conv_turns_mem: "t \<in> set (conv_turns db cid) \<longleftrightarrow> t \<in> set (turns db) \<and> t_conv t = cid"
  by (auto simp: conv_turns_def)

lemma no_conv_no_turns: "schema_ok db \<Longrightarrow> cid \<notin> c_id ` set (convs db) \<Longrightarrow> conv_turns db cid = []"
  by (auto simp: schema_ok_def conv_turns_def filter_empty_conv)

lemma no_conv_no_msgs: "schema_ok db \<Longrightarrow> cid \<notin> c_id ` set (convs db) \<Longrightarrow> conv_msgs db cid = []"
  by (auto simp: schema_ok_def conv_msgs_def filter_empty_conv)

text \<open>Two different rows of the linear index never claim the same parent.\<close>

lemma index_unique:
  assumes "linear_index_ok ts" "t \<in> set ts" "u \<in> set ts" "indexed t" "indexed u" "slot t = slot u"
  shows "t = u"
  using assms by (auto simp: linear_index_ok_def intro: distinct_map_inj [of slot "filter indexed ts"])

lemma in_flight_indexed: "in_flight t \<Longrightarrow> indexed t"
  by (auto simp: in_flight_def indexed_def)

text \<open>So a conversation has at most one turn in flight.\<close>

lemma one_in_flight:
  assumes inv: "hist_inv db" and t: "t \<in> set (turns db)" "in_flight t"
    and u: "u \<in> set (turns db)" "in_flight u" and same: "t_conv t = t_conv u"
  shows "t = u"
proof -
  from inv have sch: "schema_ok db" by (rule hist_inv_schema)
  obtain c where c: "c \<in> set (convs db)" "c_id c = t_conv t"
    using turn_has_conv [OF sch t(1)] by blast
  from hist_invD [OF inv c(1)] c(2) same t u
  have "t_parent t = t_parent u"
    by (auto simp: conv_inv_def turn_ok_def conv_turns_mem)
  then have "slot t = slot u" using same by (simp add: slot_def)
  with sch t u show ?thesis
    by (auto simp: schema_ok_def intro: index_unique in_flight_indexed)
qed

section \<open>Preservation by the statements\<close>

lemma hist_inv_frame:
  assumes "hist_inv db" and "convs db' = convs db" "turns db' = turns db" "msgs db' = msgs db"
    and "schema_ok db'"
  shows "hist_inv db'"
  using assms by (simp add: hist_inv_def conv_turns_def conv_msgs_def)

lemma insert_ckb_frame:
  "insert_ckb k db = Inr (u, db') \<Longrightarrow> convs db' = convs db \<and> turns db' = turns db \<and> msgs db' = msgs db"
  by (auto simp: insert_ckb_def split: if_splits)

lemma insert_or_ignore_ckb_frame:
  "insert_or_ignore_ckb k db = Inr (u, db') \<Longrightarrow> convs db' = convs db \<and> turns db' = turns db \<and> msgs db' = msgs db"
  by (auto simp: insert_or_ignore_ckb_def dest: insert_ckb_frame split: if_splits)

lemma update_ckb_frame [simp]:
  "convs (update_ckb cid kb f db) = convs db" "turns (update_ckb cid kb f db) = turns db"
  "msgs (update_ckb cid kb f db) = msgs db" "outbox (update_ckb cid kb f db) = outbox db"
  by (simp_all add: update_ckb_def)

lemma for_each_inv:
  assumes "\<And>x db db'. x \<in> set xs \<Longrightarrow> P db \<Longrightarrow> f x db = Inr ((), db') \<Longrightarrow> P db'"
    and "P db" and "for_each f xs db = Inr (u, db')"
  shows "P db'"
  using assms
proof (induction xs arbitrary: db)
  case Nil
  then show ?case by simp
next
  case (Cons x xs)
  from Cons.prems(3) obtain db1 where "f x db = Inr ((), db1)" "for_each f xs db1 = Inr (u, db')"
    by (auto simp: result_simps)
  with Cons show ?case by (metis list.set_intros)
qed

definition same_core :: "hdb \<Rightarrow> hdb \<Rightarrow> bool" where
  "same_core db db' \<longleftrightarrow> convs db' = convs db \<and> turns db' = turns db \<and> msgs db' = msgs db"

lemma associate_frame:
  assumes "associate_reservation_kbs cid kbs now db = Inr (u, db')" and "schema_ok db"
  shows "same_core db db' \<and> schema_ok db'"
  using assms(1) unfolding associate_reservation_kbs_def
proof (rule for_each_inv [where P = "\<lambda>d. same_core db d \<and> schema_ok d", rotated 2])
  show "same_core db db \<and> schema_ok db" using assms(2) by (simp add: same_core_def)
next
  fix kb d d'
  assume "same_core db d \<and> schema_ok d"
    and ins: "insert_or_ignore_ckb \<lparr>k_conv = cid, k_kb = kb, k_selected = False,
      k_first_used = now, k_last_used = now\<rparr> d = Inr ((), d')"
  then show "same_core db d' \<and> schema_ok d'"
    using insert_or_ignore_ckb_frame [OF ins] insert_or_ignore_ckb_schema [OF _ ins]
    by (simp add: same_core_def)
qed

lemma fold_deselect_kb:
  "same_core db db' \<and> schema_ok db' \<Longrightarrow>
   same_core db (fold (deselect_kb cid) kbs db') \<and> schema_ok (fold (deselect_kb cid) kbs db')"
proof (induction kbs arbitrary: db')
  case Nil
  then show ?case by simp
next
  case (Cons kb kbs)
  have "same_core db (deselect_kb cid kb db') \<and> schema_ok (deselect_kb cid kb db')"
    using Cons.prems by (simp add: same_core_def update_ckb_schema deselect_kb_def)
  from Cons.IH [OF this] show ?case by simp
qed

lemma upsert_one_frame:
  assumes "same_core db d \<and> schema_ok d" and "upsert_one cid ex now kb d = Inr ((), d')"
  shows "same_core db d' \<and> schema_ok d'"
proof (cases "kb = '''' \<or> kb \<in> set ex")
  case True
  then have "d' = d \<or> d' = update_ckb cid kb (\<lambda>k. k\<lparr>k_selected := True, k_last_used := now\<rparr>) d"
    using assms(2) by (simp add: upsert_one_def split: if_split_asm)
  then show ?thesis
    using assms(1) by (elim disjE) (simp_all add: same_core_def update_ckb_schema)
next
  case False
  with assms(2) have ins: "insert_ckb \<lparr>k_conv = cid, k_kb = kb, k_selected = True,
      k_first_used = now, k_last_used = now\<rparr> d = Inr ((), d')"
    by (simp add: upsert_one_def)
  show ?thesis
    using assms(1) insert_ckb_frame [OF ins] insert_ckb_schema [OF _ ins] by (simp add: same_core_def)
qed

lemma upsert_frame:
  assumes "upsert_knowledge_bases cid ids now db = Inr (u, db')" and "schema_ok db"
  shows "same_core db db' \<and> schema_ok db'"
proof -
  let ?ex = "map k_kb (filter (\<lambda>k. k_conv k = cid) (ckbs db))"
  from assms(1) obtain db1 where loop: "for_each (upsert_one cid ?ex now) ids db = Inr ((), db1)"
    and db': "db' = fold (deselect_kb cid) (filter (\<lambda>kb. kb \<notin> set ids) ?ex) db1"
    unfolding upsert_knowledge_bases_def Let_def bindE_eq_Inr by auto
  have start: "same_core db db \<and> schema_ok db" using assms(2) by (simp add: same_core_def)
  have "same_core db db1 \<and> schema_ok db1"
    by (rule for_each_inv [where P = "\<lambda>d. same_core db d \<and> schema_ok d", OF _ start loop])
      (rule upsert_one_frame)
  then show ?thesis unfolding db' by (rule fold_deselect_kb)
qed

lemma hist_inv_same_core: "hist_inv db \<Longrightarrow> same_core db db' \<Longrightarrow> schema_ok db' \<Longrightarrow> hist_inv db'"
  unfolding same_core_def by (rule hist_inv_frame) auto

text \<open>A change of turn rows that completes none of them.\<close>

lemma hist_inv_upd_turns:
  assumes inv: "hist_inv db"
    and db': "db' = db\<lparr>turns := upd_where P f (turns db)\<rparr>" and sch: "schema_ok db'"
    and keep: "\<And>t. t_conv (f t) = t_conv t" "\<And>t. t_id (f t) = t_id t" "\<And>t. t_parent (f t) = t_parent t"
    and ok: "\<And>t. t \<in> set (turns db) \<Longrightarrow> P t \<Longrightarrow> t_status t \<noteq> Complete \<and> t_status (f t) \<noteq> Complete
      \<and> (t_lease (f t) = None \<longleftrightarrow> \<not> in_flight (f t))
      \<and> (in_flight (f t) \<longrightarrow> in_flight t \<or>
          (\<exists>c \<in> set (convs db). c_id c = t_conv t \<and> t_parent t = c_last_turn_id c))"
  shows "hist_inv db'"
  unfolding hist_inv_def
proof (intro conjI ballI sch)
  fix c assume c: "c \<in> set (convs db')"
  then have cdb: "c \<in> set (convs db)" by (simp add: db')
  have inv_c: "conv_inv c (conv_turns db (c_id c)) (conv_msgs db (c_id c))"
    using inv cdb by (rule hist_invD)
  let ?ts = "conv_turns db (c_id c)" and ?us = "transcript (conv_msgs db (c_id c))"
  have ts': "conv_turns db' (c_id c) = upd_where P f ?ts"
    using keep(1) by (simp add: conv_turns_def db' filter_upd_where)
  have ms': "conv_msgs db' (c_id c) = conv_msgs db (c_id c)"
    by (simp add: conv_msgs_def db')
  have "linked (set (upd_where P f ?ts)) None ?us"
  proof (rule linked_mono)
    show "linked (set ?ts) None ?us" using inv_c by (simp add: conv_inv_def)
  next
    fix t assume t: "t \<in> set ?ts" "t_status t = Complete"
    then have "\<not> P t" using ok by (auto simp: conv_turns_mem)
    with t(1) have "t \<in> set (upd_where P f ?ts)" by (auto simp: set_upd_where)
    with t show "\<exists>u \<in> set (upd_where P f ?ts). t_id u = t_id t \<and> t_status u = Complete \<and> t_parent u = t_parent t"
      by blast
  qed
  moreover have "turn_ok ?us u" if u: "u \<in> set (upd_where P f ?ts)" for u
  proof -
    from u obtain t where t: "t \<in> set ?ts" "u = (if P t then f t else t)"
      by (auto simp: set_upd_where)
    have tok: "turn_ok ?us t" using inv_c t(1) by (simp add: conv_inv_def)
    show ?thesis
    proof (cases "P t")
      case False
      with t tok show ?thesis by simp
    next
      case True
      have "t \<in> set (turns db)" using t(1) by (simp add: conv_turns_mem)
      from ok [OF this True]
      have o: "t_status (f t) \<noteq> Complete" "t_lease (f t) = None \<longleftrightarrow> \<not> in_flight (f t)"
        and fl: "in_flight (f t) \<Longrightarrow> in_flight t \<or>
          (\<exists>d \<in> set (convs db). c_id d = t_conv t \<and> t_parent t = c_last_turn_id d)"
        by blast+
      have "t_parent t = last_of ?us" if "in_flight (f t)"
      proof -
        from fl [OF that] consider "in_flight t" | d where "d \<in> set (convs db)"
          "c_id d = t_conv t" "t_parent t = c_last_turn_id d" by blast
        then show ?thesis
        proof cases
          case 1
          with tok show ?thesis by (simp add: turn_ok_def)
        next
          case 2
          with t(1) cdb hist_inv_schema [OF inv] have "d = c"
            by (auto simp: conv_turns_mem intro: same_conv)
          with 2 inv_c show ?thesis by (simp add: conv_inv_def)
        qed
      qed
      with True t o tok keep show ?thesis by (simp add: turn_ok_def)
    qed
  qed
  ultimately show "conv_inv c (conv_turns db' (c_id c)) (conv_msgs db' (c_id c))"
    using inv_c unfolding ts' ms' by (simp add: conv_inv_def)
qed

text \<open>The same for one statement on one row.\<close>

lemma hist_inv_update_turn:
  assumes inv: "hist_inv db" and upd: "update_turn cid tid f db = Inr (u, db')"
    and row: "r \<in> set (turns db)" "t_conv r = cid" "t_id r = tid"
    and keep: "\<And>t. t_conv (f t) = t_conv t" "\<And>t. t_id (f t) = t_id t" "\<And>t. t_parent (f t) = t_parent t"
    and ok: "t_status r \<noteq> Complete" "t_status (f r) \<noteq> Complete" "t_lease (f r) = None \<longleftrightarrow> \<not> in_flight (f r)"
      "in_flight (f r) \<Longrightarrow> in_flight r \<or> (\<exists>c \<in> set (convs db). c_id c = cid \<and> t_parent r = c_last_turn_id c)"
  shows "hist_inv db'"
proof (rule hist_inv_upd_turns [OF inv _ _ keep])
  show "db' = db\<lparr>turns := upd_where (\<lambda>t. t_conv t = cid \<and> t_id t = tid) f (turns db)\<rparr>"
    using upd by (auto simp: update_turn_def Let_def split: if_splits)
  show "schema_ok db'"
    using hist_inv_schema [OF inv] upd keep(1,2) by (rule update_turn_schema)
next
  fix t assume "t \<in> set (turns db)" "t_conv t = cid \<and> t_id t = tid"
  then have "t = r"
    using row hist_inv_schema [OF inv] by (auto intro: same_turn)
  then show "t_status t \<noteq> Complete \<and> t_status (f t) \<noteq> Complete
      \<and> (t_lease (f t) = None \<longleftrightarrow> \<not> in_flight (f t))
      \<and> (in_flight (f t) \<longrightarrow> in_flight t \<or>
          (\<exists>c \<in> set (convs db). c_id c = t_conv t \<and> t_parent t = c_last_turn_id c))"
    using ok row by auto
qed

lemma hist_inv_insert_conv:
  assumes inv: "hist_inv db" and ins: "insert_conv c db = Inr (u, db')"
    and new: "c_message_count c = 0" "c_payload_bytes c = 0" "c_last_turn_id c = None"
  shows "hist_inv db'"
proof -
  have sch: "schema_ok db" using inv by (rule hist_inv_schema)
  have db': "db' = db\<lparr>convs := convs db @ [c]\<rparr>" and fresh: "c_id c \<notin> c_id ` set (convs db)"
    using ins by (auto simp: insert_conv_def split: if_splits)
  have proj: "conv_turns db' x = conv_turns db x" "conv_msgs db' x = conv_msgs db x" for x
    by (simp_all add: db' conv_turns_def conv_msgs_def)
  have "conv_inv c [] []"
    using new by (simp add: conv_inv_def last_of_def)
  then have "conv_inv c (conv_turns db (c_id c)) (conv_msgs db (c_id c))"
    by (simp add: no_conv_no_turns [OF sch fresh] no_conv_no_msgs [OF sch fresh])
  with inv show ?thesis
    using insert_conv_schema [OF sch ins] by (auto simp: hist_inv_def proj) (auto simp: db')
qed

lemma hist_inv_insert_turn:
  assumes inv: "hist_inv db" and ins: "insert_turn t db = Inr (u, db')"
    and new: "t_status t = Generating" "t_lease t \<noteq> None" "t_id t \<noteq> ''''"
    and parent: "\<And>c. find_conv db (t_conv t) = Some c \<Longrightarrow> t_parent t = c_last_turn_id c"
  shows "hist_inv db'"
  unfolding hist_inv_def
proof (intro conjI ballI)
  have sch: "schema_ok db" using inv by (rule hist_inv_schema)
  show "schema_ok db'" using sch ins by (rule insert_turn_schema)
  have db': "db' = db\<lparr>turns := turns db @ [t]\<rparr>"
    using ins by (auto simp: insert_turn_def split: if_splits)
  fix c assume "c \<in> set (convs db')"
  then have c: "c \<in> set (convs db)" by (simp add: db')
  have inv_c: "conv_inv c (conv_turns db (c_id c)) (conv_msgs db (c_id c))"
    using inv c by (rule hist_invD)
  have proj: "conv_turns db' (c_id c) = conv_turns db (c_id c) @ (if t_conv t = c_id c then [t] else [])"
    "conv_msgs db' (c_id c) = conv_msgs db (c_id c)"
    by (simp_all add: db' conv_turns_def conv_msgs_def)
  have "turn_ok (transcript (conv_msgs db (c_id c))) t" if "t_conv t = c_id c"
    using that new parent [of c] find_conv_eq [OF sch c] inv_c
    by (simp add: turn_ok_def in_flight_def conv_inv_def)
  moreover have "linked (set (conv_turns db' (c_id c))) None (transcript (conv_msgs db (c_id c)))"
    by (rule linked_mono [of "set (conv_turns db (c_id c))"])
      (use inv_c in \<open>auto simp: conv_inv_def proj(1)\<close>)
  ultimately show "conv_inv c (conv_turns db' (c_id c)) (conv_msgs db' (c_id c))"
    using inv_c by (auto simp: conv_inv_def proj)
qed

lemma hist_inv_delete_conv: "hist_inv db \<Longrightarrow> hist_inv (delete_conv cid db)"
proof -
  assume inv: "hist_inv db"
  have "conv_turns (delete_conv cid db) x = conv_turns db x" "conv_msgs (delete_conv cid db) x = conv_msgs db x"
    if "x \<noteq> cid" for x
    using that by (auto simp: conv_turns_def conv_msgs_def delete_conv_def intro!: filter_cong)
  moreover have "set (convs (delete_conv cid db)) = {c \<in> set (convs db). c_id c \<noteq> cid}"
    by (auto simp: delete_conv_def)
  ultimately show ?thesis
    using inv delete_conv_schema by (auto simp: hist_inv_def)
qed

lemma hist_inv_delete_turn:
  assumes inv: "hist_inv db" and nc: "\<And>t. t \<in> set (turns db) \<Longrightarrow> t_conv t = cid \<Longrightarrow> t_id t = tid \<Longrightarrow> t_status t \<noteq> Complete"
  shows "hist_inv (delete_turn cid tid db)"
  unfolding hist_inv_def
proof (intro conjI ballI)
  show "schema_ok (delete_turn cid tid db)"
    using inv by (simp add: hist_inv_schema delete_turn_schema)
  fix c assume "c \<in> set (convs (delete_turn cid tid db))"
  then have c: "c \<in> set (convs db)" by (simp add: delete_turn_def)
  have inv_c: "conv_inv c (conv_turns db (c_id c)) (conv_msgs db (c_id c))"
    using inv c by (rule hist_invD)
  let ?db = "delete_turn cid tid db"
  have sub: "set (conv_turns ?db (c_id c)) = {t \<in> set (conv_turns db (c_id c)). \<not> (t_conv t = cid \<and> t_id t = tid)}"
    by (auto simp: conv_turns_def delete_turn_def)
  have ms: "conv_msgs ?db (c_id c) = conv_msgs db (c_id c)"
    by (simp add: conv_msgs_def delete_turn_def)
  have "linked (set (conv_turns ?db (c_id c))) None (transcript (conv_msgs db (c_id c)))"
    by (rule linked_mono [of "set (conv_turns db (c_id c))"])
      (use inv_c nc in \<open>auto simp: conv_inv_def sub conv_turns_mem\<close>)
  then show "conv_inv c (conv_turns ?db (c_id c)) (conv_msgs ?db (c_id c))"
    using inv_c by (auto simp: conv_inv_def ms sub)
qed

lemma hist_inv_update_conv:
  assumes inv: "hist_inv db"
    and keep: "\<And>c. c_id (f c) = c_id c" "\<And>c. c_scope_key (f c) = c_scope_key c" "\<And>c. c_scope_kind (f c) = c_scope_kind c"
      "\<And>c. c_message_count (f c) = c_message_count c" "\<And>c. c_payload_bytes (f c) = c_payload_bytes c"
      "\<And>c. c_last_turn_id (f c) = c_last_turn_id c"
  shows "hist_inv (update_conv cid f db)"
  unfolding hist_inv_def
proof (intro conjI ballI)
  show "schema_ok (update_conv cid f db)"
    using inv keep(1-3) by (simp add: hist_inv_schema update_conv_schema)
  fix c assume "c \<in> set (convs (update_conv cid f db))"
  then obtain d where d: "d \<in> set (convs db)" "c = (if c_id d = cid then f d else d)"
    by (auto simp: update_conv_def set_upd_where)
  have "conv_inv d (conv_turns db (c_id d)) (conv_msgs db (c_id d))"
    using inv d(1) by (rule hist_invD)
  moreover have "conv_turns (update_conv cid f db) x = conv_turns db x"
    "conv_msgs (update_conv cid f db) x = conv_msgs db x" for x
    by (simp_all add: update_conv_def conv_turns_def conv_msgs_def)
  ultimately show "conv_inv c (conv_turns (update_conv cid f db) (c_id c)) (conv_msgs (update_conv cid f db) (c_id c))"
    by (cases "c_id d = cid") (simp_all add: d(2) keep conv_inv_def del: upt_Suc)
qed

end
