(* ===== verification/History_Safety.thy ===== *)
theory History_Safety
  imports History_Invariant
begin

text \<open>
  Every operation of the turn lifecycle keeps the invariant of \<open>History_Invariant\<close>, and
  what a commit does to the database. The facts about one operation are stated on its
  transaction body; the public operations follow because a failed body is rolled back.
\<close>

section \<open>The linear index under updates\<close>

lemma linear_index_drop:
  assumes "linear_index_ok ts" and "\<And>t. P t \<Longrightarrow> \<not> indexed (f t)"
  shows "linear_index_ok (upd_where P f ts)"
proof -
  have "filter indexed (upd_where P f ts) = filter indexed (filter (\<lambda>t. \<not> P t) ts)"
    using assms(2) by (induction ts) auto
  then show ?thesis
    using linear_index_filter [OF assms(1), of "\<lambda>t. \<not> P t"] by (simp add: linear_index_ok_def)
qed

lemma linear_index_same:
  assumes "linear_index_ok ts"
    and "\<And>t. t \<in> set ts \<Longrightarrow> P t \<Longrightarrow> slot (f t) = slot t \<and> indexed (f t) = indexed t"
  shows "linear_index_ok (upd_where P f ts)"
proof -
  have "map slot (filter indexed (upd_where P f ts)) = map slot (filter indexed ts)"
    using assms(2) by (induction ts) auto
  then show ?thesis using assms(1) by (simp add: linear_index_ok_def)
qed

lemma upd_turns_schema:
  assumes "schema_ok db" and "linear_index_ok (upd_where P f (turns db))"
    and "\<And>t. t_conv (f t) = t_conv t" "\<And>t. t_id (f t) = t_id t"
  shows "schema_ok (db\<lparr>turns := upd_where P f (turns db)\<rparr>)"
  using assms(1,2) unfolding schema_ok_def
  by (simp add: map_upd_where image_upd_where assms(3,4) del: list.set_map)

section \<open>The sweep\<close>

lemma lease_expired_generating: "lease_expired now t \<Longrightarrow> t_status t = Generating"
  by (simp add: lease_expired_def)

lemma hist_inv_fail_turns:
  assumes inv: "hist_inv db"
    and hit: "\<And>t. P t \<Longrightarrow> t_status t \<noteq> Complete"
    and f: "\<And>t. t_conv (f t) = t_conv t" "\<And>t. t_id (f t) = t_id t" "\<And>t. t_parent (f t) = t_parent t"
      "\<And>t. t_status (f t) = Failed" "\<And>t. t_lease (f t) = None"
  shows "hist_inv (db\<lparr>turns := upd_where P f (turns db)\<rparr>)"
proof (rule hist_inv_upd_turns [OF inv refl _ f(1-3)])
  show "schema_ok (db\<lparr>turns := upd_where P f (turns db)\<rparr>)"
    by (rule upd_turns_schema [OF hist_inv_schema [OF inv] linear_index_drop])
      (use hist_inv_schema [OF inv] f in \<open>auto simp: schema_ok_def indexed_def\<close>)
next
  fix t assume "t \<in> set (turns db)" "P t"
  then show "t_status t \<noteq> Complete \<and> t_status (f t) \<noteq> Complete
      \<and> (t_lease (f t) = None \<longleftrightarrow> \<not> in_flight (f t))
      \<and> (in_flight (f t) \<longrightarrow> in_flight t \<or>
          (\<exists>c \<in> set (convs db). c_id c = t_conv t \<and> t_parent t = c_last_turn_id c))"
    using hit f by (simp add: in_flight_def)
qed

lemma hist_inv_expire_leases: "hist_inv db \<Longrightarrow> hist_inv (expire_leases now db)"
  unfolding expire_leases_def
  by (rule hist_inv_fail_turns) (auto dest: lease_expired_generating)

lemma hist_inv_delete_convs: "hist_inv db \<Longrightarrow> hist_inv (delete_convs cs db)"
  unfolding delete_convs_def by (induction cs arbitrary: db) (auto intro: hist_inv_delete_conv)

lemma hist_inv_delete_turns:
  assumes "hist_inv db" and "set ts \<subseteq> set (turns db)" and "\<And>t. t \<in> set ts \<Longrightarrow> t_status t \<noteq> Complete"
  shows "hist_inv (delete_turns ts db)"
proof -
  have "hist_inv (fold (\<lambda>t. delete_turn (t_conv t) (t_id t)) ts d)"
    if "hist_inv d" "set (turns d) \<subseteq> set (turns db)" for d
    using that assms(2,3)
  proof (induction ts arbitrary: d)
    case Nil
    then show ?case by simp
  next
    case (Cons t ts)
    have "hist_inv (delete_turn (t_conv t) (t_id t) d)"
    proof (rule hist_inv_delete_turn [OF Cons.prems(1)])
      fix u assume u: "u \<in> set (turns d)" "t_conv u = t_conv t" "t_id u = t_id t"
      with Cons.prems(2,3) have "u = t"
        using hist_inv_schema [OF assms(1)] by (intro same_turn [of db]) auto
      with Cons.prems(4) show "t_status u \<noteq> Complete" by simp
    qed
    moreover have "set (turns (delete_turn (t_conv t) (t_id t) d)) \<subseteq> set (turns db)"
      using Cons.prems(2) by (auto simp: delete_turn_def)
    ultimately show ?case
      using Cons.IH [of "delete_turn (t_conv t) (t_id t) d"] Cons.prems(3,4) by simp
  qed
  from this [OF assms(1)] show ?thesis by (simp add: delete_turns_def)
qed

lemma hist_inv_sweep: "hist_inv db \<Longrightarrow> hist_inv (snd (cleanup_expired_locked cfg now db))"
  unfolding cleanup_expired_locked_def Let_def snd_conv
  by (intro hist_inv_delete_convs hist_inv_delete_turns hist_inv_expire_leases)
    (auto simp: stale_turn_def)

section \<open>Reserving a turn\<close>

lemma assert_linear_parent_eq:
  "assert_linear_parent db cid p = Inr u \<Longrightarrow>
     p = (case find_conv db cid of None \<Rightarrow> None | Some c \<Rightarrow> c_last_turn_id c)"
  by (auto simp: assert_linear_parent_def Let_def guardE_eq_Inr split: option.splits)

lemma get_or_create_inv:
  assumes "hist_inv db" and "get_or_create_conversation req dr db = Inr (c, db')"
  shows "hist_inv db' \<and> c \<in> set (convs db') \<and> c_scope_key c = b_scope_key req \<and> turns db' = turns db"
proof (cases "find_scope db (b_scope_key req)")
  case None
  with assms(2) have ins: "insert_conv c db = Inr ((), db')"
    and new: "c_message_count c = 0" "c_payload_bytes c = 0" "c_last_turn_id c = None"
      "c_scope_key c = b_scope_key req"
    by (auto simp: get_or_create_conversation_def Let_def bindE_eq_Inr)
  have "convs db' = convs db @ [c]" "turns db' = turns db"
    using ins by (auto simp: insert_conv_def split: if_splits)
  then show ?thesis using hist_inv_insert_conv [OF assms(1) ins new(1-3)] new(4) by simp
next
  case (Some d)
  with assms show ?thesis
    by (auto simp: get_or_create_conversation_def dest: find_scope_Some split: if_splits)
qed

lemma update_turn_same_index:
  assumes "schema_ok db" and "\<And>t. t \<in> set (turns db) \<Longrightarrow> t_conv t = cid \<Longrightarrow> t_id t = tid \<Longrightarrow>
      slot (f t) = slot t \<and> indexed (f t) = indexed t"
  shows "update_turn cid tid f db =
    Inr ((), db\<lparr>turns := upd_where (\<lambda>t. t_conv t = cid \<and> t_id t = tid) f (turns db)\<rparr>)"
  using linear_index_same [of "turns db" "\<lambda>t. t_conv t = cid \<and> t_id t = tid" f] assms
  by (auto simp: update_turn_def schema_ok_def Let_def)

lemma hist_inv_take_lease:
  assumes inv: "hist_inv db"
    and upd: "update_turn (t_conv r) (t_id r) (take_lease token ex now) db = Inr (u, db')"
    and r: "r \<in> set (turns db)" "t_status r \<noteq> Complete"
    and parent: "in_flight r \<or> (\<exists>c \<in> set (convs db). c_id c = t_conv r \<and> t_parent r = c_last_turn_id c)"
  shows "hist_inv db'"
  by (rule hist_inv_update_turn [OF inv upd r(1)])
    (use r(2) parent in \<open>auto simp: take_lease_def in_flight_def\<close>)

lemma handle_existing_inv:
  assumes inv: "hist_inv db" and r: "r \<in> set (turns db)"
    and step: "handle_existing_turn cfg dr r fp db = Inr (out, db')"
  shows "hist_inv db'"
proof (cases "t_status r")
  case Complete
  with inv step show ?thesis
    by (auto simp: handle_existing_turn_def Let_def bindE_eq_Inr split: if_splits)
next
  case Ready
  with inv step show ?thesis
    by (auto simp: handle_existing_turn_def Let_def split: if_splits)
next
  case Failed
  with step obtain u v where lin: "assert_linear_parent db (t_conv r) (t_parent r) = Inr u"
    and upd: "update_turn (t_conv r) (t_id r)
      (take_lease (d_retry_lease dr) (d_now dr + real_of_int (hc_lease_seconds cfg)) (d_now dr)) db = Inr (v, db')"
    by (auto simp: handle_existing_turn_def Let_def bindE_eq_Inr split: if_splits)
  obtain c where c: "c \<in> set (convs db)" "c_id c = t_conv r"
    using turn_has_conv [OF hist_inv_schema [OF inv] r] by blast
  have "find_conv db (t_conv r) = Some c"
    using find_conv_eq [OF hist_inv_schema [OF inv] c(1)] c(2) by simp
  with lin c have "t_parent r = c_last_turn_id c"
    by (auto dest: assert_linear_parent_eq)
  with c Failed show ?thesis
    by (intro hist_inv_take_lease [OF inv upd r]) auto
next
  case Generating
  with step obtain v where upd: "update_turn (t_conv r) (t_id r)
      (take_lease (d_retry_lease dr) (d_now dr + real_of_int (hc_lease_seconds cfg)) (d_now dr)) db = Inr (v, db')"
    by (auto simp: handle_existing_turn_def Let_def bindE_eq_Inr split: if_splits)
  show ?thesis
    by (rule hist_inv_take_lease [OF inv upd r]) (simp_all add: Generating in_flight_def)
qed

lemma reserve_turn_inv:
  assumes inv: "hist_inv db" and step: "reserve_turn cfg req dr cid db = Inr (out, db')"
    and tid: "b_turn_id req \<noteq> ''''"
  shows "hist_inv db'"
proof -
  from step obtain u v t where lin: "assert_linear_parent db cid (b_parent req) = Inr u"
    and ins: "insert_turn t db = Inr (v, db')"
    and t: "t_conv t = cid" "t_status t = Generating" "t_lease t = Some (d_lease dr)"
      "t_id t = b_turn_id req" "t_parent t = b_parent req"
    by (auto simp: reserve_turn_def Let_def bindE_eq_Inr split: sum.splits)
  show ?thesis
    by (rule hist_inv_insert_turn [OF inv ins])
      (use t tid assert_linear_parent_eq [OF lin] in \<open>auto split: option.splits\<close>)
qed

lemma begin_turn_body_inv:
  assumes inv: "hist_inv db" and step: "begin_turn_body cfg req dr db = Inr (out, db')"
    and tid: "b_turn_id req \<noteq> ''''"
  shows "hist_inv db'"
proof -
  let ?db1 = "snd (cleanup_expired_locked cfg (d_now dr) db)"
  from step obtain c db2 db3 o4 u
    where conv: "get_or_create_conversation req dr ?db1 = Inr (c, db2)"
      and kbs: "associate_reservation_kbs (c_id c) (b_kbs req) (d_now dr) db2 = Inr (u, db3)"
      and fin: "(case find_turn db3 (c_id c) (b_turn_id req) of
                  Some existing \<Rightarrow> handle_existing_turn cfg dr existing (b_fingerprint req) db3
                | None \<Rightarrow> reserve_turn cfg req dr (c_id c) db3) = Inr (o4, db')"
    by (auto simp: begin_turn_body_def Let_def bindE_eq_Inr)
  have "hist_inv db2"
    using get_or_create_inv [OF hist_inv_sweep [OF inv] conv] by simp
  then have inv3: "hist_inv db3"
    using associate_frame [OF kbs] hist_inv_schema hist_inv_same_core by blast
  show ?thesis
  proof (cases "find_turn db3 (c_id c) (b_turn_id req)")
    case None
    with fin show ?thesis using reserve_turn_inv [OF inv3 _ tid] by simp
  next
    case (Some r)
    with fin show ?thesis using handle_existing_inv [OF inv3] by (auto dest: find_turn_Some)
  qed
qed

lemma begin_checks_turn_id: "begin_checks req = Inr u \<Longrightarrow> b_turn_id req \<noteq> ''''"
  by (auto simp: begin_checks_def split: if_splits)

lemma run_tx_inv:
  assumes "hist_inv db" and "\<And>x db'. body db = Inr (x, db') \<Longrightarrow> hist_inv db'"
  shows "hist_inv (snd (run_tx body db))"
  using assms by (auto simp: run_tx_def split: sum.splits)

lemma begin_turn_inv: "hist_inv db \<Longrightarrow> hist_inv (snd (begin_turn cfg req dr db))"
  by (auto simp: begin_turn_def dest: begin_checks_turn_id split: sum.splits
      intro!: run_tx_inv elim: begin_turn_body_inv)

section \<open>Staging and releasing\<close>

lemma leased_in_flight:
  assumes "hist_inv db" "t \<in> set (turns db)"
  shows "t_lease t = None \<longleftrightarrow> \<not> in_flight t"
proof -
  obtain c where "c \<in> set (convs db)" "c_id c = t_conv t"
    using turn_has_conv [OF hist_inv_schema [OF assms(1)] assms(2)] by blast
  with hist_invD [OF assms(1)] assms(2) show ?thesis
    by (auto simp: conv_inv_def turn_ok_def conv_turns_mem)
qed

lemma recover_ready_inv: "hist_inv db \<Longrightarrow> hist_inv (snd (recover_ready_turn cfg dr key tid fp ex db))"
  unfolding recover_ready_turn_def
proof (rule run_tx_inv)
  fix x db' assume inv: "hist_inv db" and step: "recover_ready_body cfg dr key tid fp ex db = Inr (x, db')"
  from step obtain r where r: "get_turn_for_update db key tid = Some r"
    by (auto simp: recover_ready_body_def split: option.splits)
  show "hist_inv db'"
  proof (cases "t_status r = Complete")
    case True
    with inv step r show ?thesis
      by (auto simp: recover_ready_body_def bindE_eq_Inr split: if_splits)
  next
    case False
    with step r obtain v where st: "t_status r = Ready" and upd: "update_turn (t_conv r) tid
       (\<lambda>t. (take_lease (d_lease dr) (d_now dr + real_of_int (hc_lease_seconds cfg)) (d_now dr) t)\<lparr>t_digest := None\<rparr>) db
       = Inr (v, db')"
      by (auto simp: recover_ready_body_def Let_def bindE_eq_Inr split: if_splits)
    from get_turn_Some [OF r] have m: "r \<in> set (turns db)" "t_id r = tid" by auto
    show ?thesis
      by (rule hist_inv_update_turn [OF inv upd m(1) refl m(2)]) (auto simp: take_lease_def in_flight_def st)
  qed
qed

lemma mark_turn_ready_inv: "hist_inv db \<Longrightarrow> hist_inv (snd (mark_turn_ready now key tid lease digest db))"
  unfolding mark_turn_ready_def
proof (rule run_tx_inv)
  fix x db' assume inv: "hist_inv db" and step: "mark_turn_ready_body now key tid lease digest db = Inr (x, db')"
  consider "db' = db" | r v where "get_turn_for_update db key tid = Some r" "t_lease r = Some lease" "in_flight r"
      "update_turn (t_conv r) tid (\<lambda>t. t\<lparr>t_status := Ready, t_digest := Some digest, t_updated := now\<rparr>) db = Inr (v, db')"
    using step by (auto simp: mark_turn_ready_body_def bindE_eq_Inr split: option.splits if_splits)
  then show "hist_inv db'"
  proof cases
    case 2
    from get_turn_Some [OF 2(1)] have m: "r \<in> set (turns db)" "t_id r = tid" by auto
    show ?thesis
      by (rule hist_inv_update_turn [OF inv 2(4) m(1) refl m(2)]) (use 2(2,3) in \<open>auto simp: in_flight_def\<close>)
  qed (use inv in simp)
qed

lemma renew_turn_lease_inv: "hist_inv db \<Longrightarrow> hist_inv (snd (renew_turn_lease cfg now key tid lease db))"
  unfolding renew_turn_lease_def
proof (rule run_tx_inv)
  fix x db' assume inv: "hist_inv db" and step: "renew_turn_lease_body cfg now key tid lease db = Inr (x, db')"
  consider "db' = db" | r v where "get_turn_for_update db key tid = Some r" "t_lease r = Some lease" "in_flight r"
      "update_turn (t_conv r) tid
        (\<lambda>t. t\<lparr>t_lease_expires := Some (now + real_of_int (hc_lease_seconds cfg)), t_updated := now\<rparr>) db = Inr (v, db')"
    using step by (auto simp: renew_turn_lease_body_def bindE_eq_Inr split: option.splits if_splits)
  then show "hist_inv db'"
  proof cases
    case 2
    from get_turn_Some [OF 2(1)] have m: "r \<in> set (turns db)" "t_id r = tid" by auto
    show ?thesis
      by (rule hist_inv_update_turn [OF inv 2(4) m(1) refl m(2)]) (use 2(2,3) in \<open>auto simp: in_flight_def\<close>)
  qed (use inv in simp)
qed

lemma fail_turn_inv: "hist_inv db \<Longrightarrow> hist_inv (snd (fail_turn now key tid lease db))"
  unfolding fail_turn_def
proof (rule run_tx_inv)
  fix x db' assume inv: "hist_inv db" and step: "fail_turn_body now key tid lease db = Inr (x, db')"
  consider "db' = db" | r v where "get_turn_for_update db key tid = Some r" "t_status r \<noteq> Complete"
      "update_turn (t_conv r) tid
        (\<lambda>t. t\<lparr>t_status := Failed, t_lease := None, t_lease_expires := None, t_updated := now\<rparr>) db = Inr (v, db')"
    using step by (auto simp: fail_turn_body_def bindE_eq_Inr split: option.splits if_splits)
  then show "hist_inv db'"
  proof cases
    case 2
    from get_turn_Some [OF 2(1)] have m: "r \<in> set (turns db)" "t_id r = tid" by auto
    show ?thesis
      by (rule hist_inv_update_turn [OF inv 2(3) m(1) refl m(2)]) (use 2(2) in \<open>auto simp: in_flight_def\<close>)
  qed (use inv in simp)
qed

lemma reset_continuity_inv: "hist_inv db \<Longrightarrow> hist_inv (snd (reset_continuity now hid db))"
  unfolding reset_continuity_def
proof (rule run_tx_inv)
  fix x db' assume inv: "hist_inv db" and step: "reset_continuity_body now hid db = Inr (x, db')"
  then have db': "db' = db\<lparr>turns := upd_where (\<lambda>t. t_conv t = hid \<and> lease_expired now t)
     (\<lambda>t. t\<lparr>t_status := Failed, t_lease := None, t_lease_expires := None, t_updated := now\<rparr>) (turns db)\<rparr>"
    by (auto simp: reset_continuity_body_def Let_def split: option.splits)
  show "hist_inv db'"
    unfolding db' using inv by (rule hist_inv_fail_turns) (auto dest: lease_expired_generating)
qed

lemma cleanup_expired_inv: "hist_inv db \<Longrightarrow> hist_inv (snd (cleanup_expired cfg now db))"
  unfolding cleanup_expired_def
proof (rule run_tx_inv)
  fix x db' assume "hist_inv db" and "Inr (cleanup_expired_locked cfg now db) = Inr (x, db')"
  then show "hist_inv db'" using hist_inv_sweep [of db cfg now] by simp
qed

end
