(* ===== verification/History_Commit.thy ===== *)
theory History_Commit
  imports History_Safety
begin

text \<open>
  The commit of a turn (\<open>complete_turn\<close>): what it writes, that it keeps the invariant, and
  that it succeeds whenever the caller still holds the lease and the quotas allow it.
\<close>

section \<open>The sequence number and the rows of a commit\<close>

lemma fold_max_upt: "fold max (map int [k..<k + n]) (a::int) = (if n = 0 then a else max a (int (k + n) - 1))"
  by (induction n arbitrary: a) auto

lemma next_sequence_eq:
  assumes "map m_sequence (conv_msgs db cid) = map int [1..<Suc (length (conv_msgs db cid))]"
  shows "next_sequence db cid = int (length (conv_msgs db cid)) + 1"
proof (cases "length (conv_msgs db cid)")
  case 0
  then show ?thesis by (simp add: next_sequence_def)
next
  case (Suc n)
  have "[1..<Suc (Suc n)] = 1 # [2..<2 + n]"
    by (simp add: upt_conv_Cons numeral_2_eq_2)
  then have "map m_sequence (conv_msgs db cid) = int 1 # map int [2..<2 + n]"
    using assms Suc by (simp del: upt_Suc)
  then show ?thesis
    using fold_max_upt [of 2 n 1] Suc by (auto simp: next_sequence_def)
qed

definition user_msg :: "time \<Rightarrow> complete_request \<Rightarrow> string \<Rightarrow> int \<Rightarrow> msg_row" where
  "user_msg now q cid seq = \<lparr>m_conv = cid, m_turn = q_turn_id q, m_role = UserRole, m_type = ''text'',
     m_content = q_user q, m_sequence = seq, m_sources = Some (JArr []), m_metadata = Some (JObj []),
     m_bytes = utf8_bytes (q_user q), m_created = now\<rparr>"

definition assistant_msg ::
  "hist_config \<Rightarrow> time \<Rightarrow> complete_request \<Rightarrow> json \<Rightarrow> json \<Rightarrow> string \<Rightarrow> int \<Rightarrow> msg_row" where
  "assistant_msg cfg now q sources metadata cid seq = \<lparr>m_conv = cid, m_turn = q_turn_id q, m_role = AssistantRole,
     m_type = q_message_type q, m_content = q_assistant q, m_sequence = seq, m_sources = Some sources,
     m_metadata = Some metadata,
     m_bytes = utf8_bytes (q_assistant q) + json_bytes cfg sources + json_bytes cfg metadata, m_created = now\<rparr>"

definition completed_turn :: "time \<Rightarrow> turn_row \<Rightarrow> turn_row" where
  "completed_turn now t = t\<lparr>t_status := Complete, t_lease := None, t_lease_expires := None, t_updated := now\<rparr>"

definition committed_conv ::
  "hist_config \<Rightarrow> time \<Rightarrow> complete_request \<Rightarrow> json \<Rightarrow> json \<Rightarrow> json \<Rightarrow> conv_row \<Rightarrow> conv_row \<Rightarrow> conv_row" where
  "committed_conv cfg now q sources metadata prompt conv c =
     c\<lparr>c_title := derive_title (c_title conv) (q_user q), c_agent_id := q_agent_id q,
       c_agent_name := q_agent_name q, c_provider_id := q_provider_id q, c_model_id := q_model_id q,
       c_prompt_ref := prompt, c_response_language := q_language q,
       c_message_count := c_message_count conv + 2,
       c_payload_bytes := c_payload_bytes conv + turn_bytes cfg (q_user q) (q_assistant q) sources metadata,
       c_last_turn_id := Some (q_turn_id q), c_updated_at := now\<rparr>"

lemma commit_turn_unfold:
  "commit_turn cfg now q sources metadata prompt conv db0 =
     (let cid = c_id conv; seq = next_sequence db0 cid
      in bindE (insert_msg (user_msg now q cid seq) db0) (\<lambda>(_, db1).
         bindE (insert_msg (assistant_msg cfg now q sources metadata cid (seq + 1)) db1) (\<lambda>(_, db2).
         bindE (upsert_knowledge_bases cid (q_kbs q) now db2) (\<lambda>(_, db3).
         bindE (update_turn cid (q_turn_id q) (completed_turn now) db3) (\<lambda>(_, db4).
         let db5 = update_conv cid (committed_conv cfg now q sources metadata prompt conv) db4
         in bindE (messages_for_turn db5 cid (q_turn_id q)) (\<lambda>ms.
            Inr (CDone seq (seq + 1) (c_message_count conv + 2)
              (c_payload_bytes conv + turn_bytes cfg (q_user q) (q_assistant q) sources metadata)
              (derive_title (c_title conv) (q_user q)) ms, db5)))))))"
  by (simp add: commit_turn_def user_msg_def assistant_msg_def completed_turn_def committed_conv_def
      turn_bytes_def Let_def fun_eq_iff [symmetric] completed_turn_def [abs_def] committed_conv_def [abs_def])

section \<open>The effect of a commit\<close>

lemma insert_msg_eq:
  "insert_msg m db = Inr (u, db') \<longleftrightarrow>
     m_conv m \<in> c_id ` set (convs db)
     \<and> (\<forall>n \<in> set (msgs db). m_conv n = m_conv m \<longrightarrow> m_sequence n \<noteq> m_sequence m)
     \<and> (\<forall>n \<in> set (msgs db). m_conv n = m_conv m \<longrightarrow> m_turn n = m_turn m \<longrightarrow> m_role n \<noteq> m_role m)
     \<and> db' = db\<lparr>msgs := msgs db @ [m]\<rparr>"
  by (auto simp: insert_msg_def)

lemma role_cases: "(m_role n \<noteq> UserRole \<and> m_role n \<noteq> AssistantRole) = False"
  by (cases "m_role n") auto

lemma commit_messages:
  assumes "\<And>n. n \<in> set (msgs db) \<Longrightarrow> m_conv n = cid \<Longrightarrow> m_turn n \<noteq> q_turn_id q"
    and "msgs db5 = msgs db @ [user_msg now q cid seq, assistant_msg cfg now q sources metadata cid (seq + 1)]"
  shows "messages_for_turn db5 cid (q_turn_id q) =
    Inr [user_msg now q cid seq, assistant_msg cfg now q sources metadata cid (seq + 1)]"
proof -
  have "filter (\<lambda>m. m_conv m = cid \<and> m_turn m = q_turn_id q) (msgs db) = []"
    using assms(1) by (auto simp: filter_empty_conv)
  then show ?thesis
    by (simp add: messages_for_turn_def assms(2) user_msg_def assistant_msg_def message_row_def)
qed

definition commit_effect ::
  "hist_config \<Rightarrow> time \<Rightarrow> complete_request \<Rightarrow> json \<Rightarrow> json \<Rightarrow> json \<Rightarrow> conv_row \<Rightarrow> hdb \<Rightarrow> hdb \<Rightarrow> bool" where
  "commit_effect cfg now q sources metadata prompt conv db0 db5 \<longleftrightarrow>
     (let cid = c_id conv; seq = next_sequence db0 cid
      in convs db5 = upd_where (\<lambda>c. c_id c = cid) (committed_conv cfg now q sources metadata prompt conv) (convs db0)
       \<and> turns db5 = upd_where (\<lambda>t. t_conv t = cid \<and> t_id t = q_turn_id q) (completed_turn now) (turns db0)
       \<and> msgs db5 = msgs db0 @ [user_msg now q cid seq, assistant_msg cfg now q sources metadata cid (seq + 1)])"

lemma commit_turn_effect:
  assumes sch: "schema_ok db0" and step: "commit_turn cfg now q sources metadata prompt conv db0 = Inr (out, db5)"
  shows "schema_ok db5 \<and> commit_effect cfg now q sources metadata prompt conv db0 db5
    \<and> out = CDone (next_sequence db0 (c_id conv)) (next_sequence db0 (c_id conv) + 1) (c_message_count conv + 2)
        (c_payload_bytes conv + turn_bytes cfg (q_user q) (q_assistant q) sources metadata)
        (derive_title (c_title conv) (q_user q))
        [user_msg now q (c_id conv) (next_sequence db0 (c_id conv)),
         assistant_msg cfg now q sources metadata (c_id conv) (next_sequence db0 (c_id conv) + 1)]"
proof -
  let ?cid = "c_id conv" and ?seq = "next_sequence db0 (c_id conv)"
  let ?um = "user_msg now q ?cid ?seq" and ?am = "assistant_msg cfg now q sources metadata ?cid (?seq + 1)"
  let ?F = "committed_conv cfg now q sources metadata prompt conv"
  from step obtain db1 db2 db3 db4 ms u where
    i1: "insert_msg ?um db0 = Inr ((), db1)" and i2: "insert_msg ?am db1 = Inr ((), db2)"
    and up: "upsert_knowledge_bases ?cid (q_kbs q) now db2 = Inr (u, db3)"
    and ut: "update_turn ?cid (q_turn_id q) (completed_turn now) db3 = Inr ((), db4)"
    and db5: "db5 = update_conv ?cid ?F db4" and ms: "messages_for_turn db5 ?cid (q_turn_id q) = Inr ms"
    and out: "out = CDone ?seq (?seq + 1) (c_message_count conv + 2)
        (c_payload_bytes conv + turn_bytes cfg (q_user q) (q_assistant q) sources metadata)
        (derive_title (c_title conv) (q_user q)) ms"
    unfolding commit_turn_unfold Let_def
    by (elim bindE_pairE) (auto simp: bindE_eq_Inr)
  have d1: "db1 = db0\<lparr>msgs := msgs db0 @ [?um]\<rparr>" and d2: "db2 = db1\<lparr>msgs := msgs db1 @ [?am]\<rparr>"
    using i1 i2 by (simp_all add: insert_msg_eq)
  have s2: "schema_ok db2"
    using insert_msg_schema [OF insert_msg_schema [OF sch i1] i2] .
  from upsert_frame [OF up s2] have core: "same_core db2 db3" and s3: "schema_ok db3" by simp_all
  have t4: "db4 = db3\<lparr>turns := upd_where (\<lambda>t. t_conv t = ?cid \<and> t_id t = q_turn_id q) (completed_turn now) (turns db3)\<rparr>"
    using ut by (auto simp: update_turn_def Let_def split: if_splits)
  have s4: "schema_ok db4"
    using s3 ut by (rule update_turn_schema) (simp_all add: completed_turn_def)
  have s5: "schema_ok db5"
    unfolding db5 by (rule update_conv_schema [OF s4]) (simp_all add: committed_conv_def)
  have eff: "commit_effect cfg now q sources metadata prompt conv db0 db5"
    using core by (simp add: commit_effect_def Let_def db5 update_conv_def t4 same_core_def d1 d2)
  have "m_turn n \<noteq> q_turn_id q" if "n \<in> set (msgs db0)" "m_conv n = ?cid" for n
    using i1 i2 that d1
    by (cases "m_role n") (auto simp: insert_msg_eq user_msg_def assistant_msg_def)
  then have "ms = [?um, ?am]"
    using commit_messages [of db0 ?cid q db5 now ?seq cfg sources metadata] eff ms
    by (auto simp: commit_effect_def Let_def)
  with s5 eff out show ?thesis by simp
qed

section \<open>A commit keeps the invariant\<close>

lemma linked_mem: "linked T prev us \<Longrightarrow> x \<in> set us \<Longrightarrow> \<exists>t \<in> T. t_id t = x \<and> t_status t = Complete"
  by (induction us arbitrary: prev) auto

lemma conv_inv_commit:
  assumes inv: "conv_inv c ts ms" and r: "r \<in> set ts" "in_flight r" "t_id r = tid"
    and one: "\<And>t. t \<in> set ts \<Longrightarrow> in_flight t \<Longrightarrow> t = r"
    and uniq: "\<And>t. t \<in> set ts \<Longrightarrow> t_id t = tid \<Longrightarrow> t = r"
    and um: "m_role um = UserRole" "m_turn um = tid" "m_sequence um = int (length ms) + 1"
    and am: "m_role am = AssistantRole" "m_turn am = tid" "m_sequence am = int (length ms) + 2"
    and d: "c_message_count d = c_message_count c + 2" "c_payload_bytes d = c_payload_bytes c + m_bytes um + m_bytes am"
      "c_last_turn_id d = Some tid"
    and ts': "ts' = upd_where (\<lambda>t. t_id t = tid) (completed_turn now) ts"
  shows "conv_inv d ts' (ms @ [um, am])"
proof -
  have pairs: "in_pairs ms" using inv by (simp add: conv_inv_def)
  have tr: "transcript (ms @ [um, am]) = transcript ms @ [tid]"
    using um by (simp add: transcript_append [OF pairs])
  have ne: "tid \<noteq> ''''" and par: "t_parent r = last_of (transcript ms)"
    using inv r by (auto simp: conv_inv_def turn_ok_def)
  have "linked (set ts') None (transcript ms)"
  proof (rule linked_mono)
    show "linked (set ts) None (transcript ms)" using inv by (simp add: conv_inv_def)
  next
    fix t assume t: "t \<in> set ts" "t_status t = Complete"
    have "t_id t \<noteq> tid"
    proof
      assume "t_id t = tid"
      with t(1) have "t = r" by (rule uniq)
      with t(2) r(2) show False by (simp add: in_flight_def)
    qed
    then have "t \<in> set ts'" using t(1) by (auto simp: ts' set_upd_where)
    with t show "\<exists>u \<in> set ts'. t_id u = t_id t \<and> t_status u = Complete \<and> t_parent u = t_parent t" by blast
  qed
  moreover have "completed_turn now r \<in> set ts'"
    using r by (auto simp: ts' set_upd_where)
  then have "\<exists>t \<in> set ts'. t_id t = tid \<and> t_status t = Complete
      \<and> t_parent t = (if transcript ms = [] then None else Some (last (transcript ms)))"
    using r par by (intro bexI [of _ "completed_turn now r"]) (simp_all add: completed_turn_def last_of_def)
  ultimately have lk: "linked (set ts') None (transcript ms @ [tid])"
    by (simp add: linked_append)
  have ok: "turn_ok (transcript ms @ [tid]) u" if u: "u \<in> set ts'" for u
  proof -
    from u obtain t where t: "t \<in> set ts" "u = (if t_id t = tid then completed_turn now t else t)"
      by (auto simp: ts' set_upd_where)
    have tok: "turn_ok (transcript ms) t" using inv t(1) by (simp add: conv_inv_def)
    show ?thesis
    proof (cases "t_id t = tid")
      case True
      then show ?thesis using t(2) ne by (simp add: turn_ok_def completed_turn_def in_flight_def)
    next
      case False
      then have "\<not> in_flight t" using one [OF t(1)] r(3) by blast
      with tok t(2) False show ?thesis by (auto simp: turn_ok_def)
    qed
  qed
  have seq: "map m_sequence (ms @ [um, am]) = map int [1..<Suc (length (ms @ [um, am]))]"
    using inv um am by (simp add: conv_inv_def)
  show ?thesis
    unfolding conv_inv_def tr
  proof (intro conjI)
    show "c_message_count d = int (length (ms @ [um, am]))" using inv d by (simp add: conv_inv_def)
    show "c_payload_bytes d = sum_list (map m_bytes (ms @ [um, am]))" using inv d by (simp add: conv_inv_def)
    show "in_pairs (ms @ [um, am])" using um am by (simp add: in_pairs_append [OF pairs])
    show "c_last_turn_id d = last_of (transcript ms @ [tid])" using d by (simp add: last_of_def)
  qed (use seq lk ok in auto)
qed

lemma hist_inv_commit:
  assumes inv: "hist_inv db0" and sch: "schema_ok db5"
    and eff: "commit_effect cfg now q sources metadata prompt conv db0 db5"
    and conv: "conv \<in> set (convs db0)"
    and r: "r \<in> set (turns db0)" "t_conv r = c_id conv" "t_id r = q_turn_id q" "in_flight r"
  shows "hist_inv db5"
  unfolding hist_inv_def
proof (intro conjI ballI sch)
  let ?cid = "c_id conv" and ?F = "committed_conv cfg now q sources metadata prompt conv"
  have s0: "schema_ok db0" using inv by (rule hist_inv_schema)
  have cv: "convs db5 = upd_where (\<lambda>c. c_id c = ?cid) ?F (convs db0)"
    and tn: "turns db5 = upd_where (\<lambda>t. t_conv t = ?cid \<and> t_id t = q_turn_id q) (completed_turn now) (turns db0)"
    and mg: "msgs db5 = msgs db0 @ [user_msg now q ?cid (next_sequence db0 ?cid),
      assistant_msg cfg now q sources metadata ?cid (next_sequence db0 ?cid + 1)]"
    using eff by (simp_all add: commit_effect_def Let_def)
  fix c assume "c \<in> set (convs db5)"
  then obtain b where b: "b \<in> set (convs db0)" "c = (if c_id b = ?cid then ?F b else b)"
    by (auto simp: cv set_upd_where)
  have idc: "c_id c = c_id b" using b(2) by (simp add: committed_conv_def)
  have inv_b: "conv_inv b (conv_turns db0 (c_id b)) (conv_msgs db0 (c_id b))"
    using inv b(1) by (rule hist_invD)
  show "conv_inv c (conv_turns db5 (c_id c)) (conv_msgs db5 (c_id c))"
  proof (cases "c_id b = ?cid")
    case False
    then have "conv_turns db5 (c_id b) = conv_turns db0 (c_id b)"
      unfolding conv_turns_def tn by (intro filter_upd_other) (auto simp: completed_turn_def)
    moreover have "conv_msgs db5 (c_id b) = conv_msgs db0 (c_id b)"
      using False by (simp add: conv_msgs_def mg user_msg_def assistant_msg_def)
    ultimately show ?thesis using inv_b b(2) False by simp
  next
    case True
    with b(1) conv s0 have bc: "b = conv" by (auto intro: same_conv)
    let ?ts = "conv_turns db0 ?cid" and ?ms = "conv_msgs db0 ?cid"
    have inv_c: "conv_inv conv ?ts ?ms" using inv_b bc by simp
    have ns: "next_sequence db0 ?cid = int (length ?ms) + 1"
      using inv_c by (intro next_sequence_eq) (simp add: conv_inv_def)
    have ts': "conv_turns db5 ?cid = upd_where (\<lambda>t. t_id t = q_turn_id q) (completed_turn now) ?ts"
      unfolding conv_turns_def tn by (intro filter_upd_same) (auto simp: completed_turn_def)
    have ms': "conv_msgs db5 ?cid = ?ms @ [user_msg now q ?cid (next_sequence db0 ?cid),
        assistant_msg cfg now q sources metadata ?cid (next_sequence db0 ?cid + 1)]"
      by (simp add: conv_msgs_def mg user_msg_def assistant_msg_def)
    have cd: "c = ?F conv" using b(2) bc by simp
    have "conv_inv c (conv_turns db5 ?cid) (conv_msgs db5 ?cid)"
      unfolding ms'
    proof (rule conv_inv_commit [OF inv_c _ r(4) r(3) _ _ _ _ _ _ _ _ _ _ _ ts'])
      show "r \<in> set ?ts" using r by (simp add: conv_turns_mem)
      show "t = r" if "t \<in> set ?ts" "in_flight t" for t
        using that r one_in_flight [OF inv] by (simp add: conv_turns_mem)
      show "t = r" if "t \<in> set ?ts" "t_id t = q_turn_id q" for t
        using that r s0 by (auto simp: conv_turns_mem intro: same_turn)
    qed (simp_all add: user_msg_def assistant_msg_def ns cd committed_conv_def turn_bytes_def)
    then show ?thesis using idc bc by simp
  qed
qed

lemma complete_turn_body_cases:
  assumes "complete_turn_body cfg now q sources metadata prompt db = Inr (out, db')"
  obtains (replay) r ms where "get_turn_for_update db (q_scope_key q) (q_turn_id q) = Some r"
      "t_status r = Complete" "out = CReplayed ms" "db' = db"
      "messages_for_turn db (t_conv r) (q_turn_id q) = Inr ms"
  | (commit) r conv where "get_turn_for_update db (q_scope_key q) (q_turn_id q) = Some r"
      "t_status r \<noteq> Complete" "t_lease r = Some (q_lease q)" "t_fingerprint r = q_fingerprint q"
      "find_conv db (t_conv r) = Some conv"
      "enforce_quota_on_first_commit cfg db (t_conv r) (c_message_count conv) = Inr ()"
      "enforce_message_quota cfg (c_message_count conv) = Inr ()"
      "enforce_conversation_bytes cfg (c_payload_bytes conv) (q_user q) (q_assistant q) sources metadata = Inr ()"
      "enforce_history_bytes cfg db (turn_bytes cfg (q_user q) (q_assistant q) sources metadata) = Inr ()"
      "commit_turn cfg now q sources metadata prompt conv db = Inr (out, db')"
  using assms unfolding complete_turn_body_def
  by (auto simp: bindE_eq_Inr split: option.splits if_splits)

lemma complete_turn_body_inv:
  assumes inv: "hist_inv db"
    and step: "complete_turn_body cfg now q sources metadata prompt db = Inr (out, db')"
  shows "hist_inv db'"
  using step
proof (cases rule: complete_turn_body_cases)
  case replay
  with inv show ?thesis by simp
next
  case (commit r conv)
  from get_turn_Some [OF commit(1)] have r: "r \<in> set (turns db)" "t_id r = q_turn_id q" by auto
  from find_conv_Some [OF commit(5)] have conv: "conv \<in> set (convs db)" "c_id conv = t_conv r" by auto
  have "in_flight r" using leased_in_flight [OF inv r(1)] commit(3) by simp
  with commit_turn_effect [OF hist_inv_schema [OF inv] commit(10)] r conv show ?thesis
    by (intro hist_inv_commit [OF inv]) auto
qed

lemma complete_turn_cases:
  "(\<exists>e. complete_turn cfg now q db = (Inl e, db)) \<or>
   (\<exists>sources metadata prompt. complete_turn cfg now q db
      = run_tx (complete_turn_body cfg now q sources metadata prompt) db)"
  by (auto simp: complete_turn_def split: sum.splits prod.splits)

lemma complete_turn_inv: "hist_inv db \<Longrightarrow> hist_inv (snd (complete_turn cfg now q db))"
  using complete_turn_cases [of cfg now q db]
  by (auto intro!: run_tx_inv elim: complete_turn_body_inv)

end
