(* ===== verification/History_Admin.thy ===== *)
theory History_Admin
  imports History_Commit
begin

text \<open>
  The reads and the administrative mutations of \<open>ConversationHistoryStore\<close>
  (\<open>app/utils/conversation_history_store.py\<close>): pages of messages and of conversations,
  renaming and archiving, the summary, deletion with the checkpoint of artifacts to clean
  up, and the quota status.
\<close>

section \<open>Reads\<close>

definition has_incomplete_turn :: "hdb \<Rightarrow> string \<Rightarrow> bool" where
  "has_incomplete_turn db cid \<longleftrightarrow> (\<exists>t \<in> set (turns db). t_conv t = cid \<and> t_status t \<noteq> Complete)"

definition load_knowledge_bases :: "hdb \<Rightarrow> string \<Rightarrow> ckb_row list" where
  "load_knowledge_bases db cid = filter (\<lambda>k. k_conv k = cid) (ckbs db)"

definition get_turn :: "hdb \<Rightarrow> string \<Rightarrow> string \<Rightarrow> turn_row option" where
  "get_turn db key tid = get_turn_for_update db key tid"

definition get_history :: "hdb \<Rightarrow> string \<Rightarrow> (conv_row \<times> ckb_row list \<times> bool) option" where
  "get_history db hid = (case find_conv db hid of
       None \<Rightarrow> None
     | Some c \<Rightarrow> Some (c, load_knowledge_bases db hid, has_incomplete_turn db hid))"

definition get_by_scope_key :: "hdb \<Rightarrow> string \<Rightarrow> (conv_row \<times> ckb_row list) option" where
  "get_by_scope_key db key = (case find_scope db key of
       None \<Rightarrow> None
     | Some c \<Rightarrow> Some (c, load_knowledge_bases db (c_id c)))"

definition clamp :: "int \<Rightarrow> int \<Rightarrow> int \<Rightarrow> int" where
  "clamp lo hi x = max lo (min x hi)"

definition list_messages ::
  "hdb \<Rightarrow> string \<Rightarrow> int option \<Rightarrow> int \<Rightarrow> hist_error + (msg_row list \<times> int option)" where
  "list_messages db hid before limit0 =
     (let n = nat (clamp 1 200 limit0)
      in if find_conv db hid = None then Inl ConversationNotFound
         else let hits = filter (\<lambda>m. case before of None \<Rightarrow> True | Some b \<Rightarrow> m_sequence m < b) (conv_msgs db hid);
                  rows = take (n + 1) (rev (sort_key m_sequence hits));
                  has_more = n < length rows;
                  rows' = (if has_more then take n rows else rows)
              in bindE (mapE message_row rows') (\<lambda>ms.
                 let messages = rev ms
                 in Inr (messages, if has_more \<and> messages \<noteq> [] then Some (m_sequence (hd messages)) else None)))"

definition list_messages_after_sequence ::
  "hdb \<Rightarrow> string \<Rightarrow> int \<Rightarrow> int \<Rightarrow> hist_error + (msg_row list \<times> int option)" where
  "list_messages_after_sequence db hid after limit0 =
     (let n = nat (clamp 1 200 limit0)
      in if find_conv db hid = None then Inl ConversationNotFound
         else let hits = filter (\<lambda>m. max 0 after < m_sequence m) (conv_msgs db hid);
                  rows = take (n + 1) (sort_key m_sequence hits);
                  has_more = n < length rows;
                  rows' = (if has_more then take n rows else rows)
              in bindE (mapE message_row rows') (\<lambda>messages.
                 Inr (messages, if has_more \<and> messages \<noteq> [] then Some (m_sequence (last messages)) else None)))"

record list_page =
  lp_items :: "(conv_row \<times> bool) list"
  lp_page :: int
  lp_per_page :: int
  lp_total :: int
  lp_page_count :: int
  lp_has_prev :: bool
  lp_has_next :: bool

text \<open>Rows of equal \<open>updated_at\<close> come in insertion order.\<close>

definition list_conversations :: "hdb \<Rightarrow> int \<Rightarrow> int \<Rightarrow> string option \<Rightarrow> list_page" where
  "list_conversations db page0 per_page0 status =
     (let per_page = clamp 1 100 per_page0;
          page = max 1 page0;
          wanted = (\<lambda>c. 0 < c_message_count c \<and>
              (if status = Some ''active'' then c_status c = Active
               else if status = Some ''archived'' then c_status c = Archived else True));
          hits = filter wanted (convs db);
          total = int (length hits);
          rows = take (nat per_page) (drop (nat ((page - 1) * per_page)) (sort_key (\<lambda>c. - c_updated_at c) hits));
          page_count = max 1 ((total + per_page - 1) div per_page)
      in \<lparr>lp_items = map (\<lambda>c. (c, has_incomplete_turn db (c_id c))) rows, lp_page = page, lp_per_page = per_page,
          lp_total = total, lp_page_count = page_count, lp_has_prev = (1 < page), lp_has_next = (page < page_count)\<rparr>)"

section \<open>Renaming, archiving, summarising\<close>

definition title_rename_max_len :: nat where
  "title_rename_max_len = 120"

definition check_title :: "string option \<Rightarrow> hist_error + string option" where
  "check_title title = (case title of
       None \<Rightarrow> Inr None
     | Some s \<Rightarrow> (let t = py_strip s
                  in if t = [] then Inl (HistoryError ''title cannot be empty'')
                     else if title_rename_max_len < length t then Inl (HistoryError ''title exceeds limit'')
                     else Inr (Some t)))"

definition renamed :: "time \<Rightarrow> string option \<Rightarrow> bool option \<Rightarrow> conv_row \<Rightarrow> conv_row" where
  "renamed now title archived c = c\<lparr>
     c_title := (case title of None \<Rightarrow> c_title c | Some t \<Rightarrow> t),
     c_status := (case archived of None \<Rightarrow> c_status c | Some True \<Rightarrow> Archived | Some False \<Rightarrow> Active),
     c_archived_at := (case archived of None \<Rightarrow> c_archived_at c | Some True \<Rightarrow> Some now | Some False \<Rightarrow> None),
     c_updated_at := now\<rparr>"

definition update_conversation_body :: "time \<Rightarrow> string \<Rightarrow> string option \<Rightarrow> bool option \<Rightarrow> conv_row tx" where
  "update_conversation_body now hid title archived db = (case find_conv db hid of
       None \<Rightarrow> Inl ConversationNotFound
     | Some c \<Rightarrow>
         if archived = Some True \<and> has_active_turn db hid then Inl TurnInProgress
         else Inr (renamed now title archived c,
              update_conv hid (\<lambda>d. d\<lparr>c_title := c_title (renamed now title archived c),
                c_status := c_status (renamed now title archived c),
                c_archived_at := c_archived_at (renamed now title archived c), c_updated_at := now\<rparr>) db))"

definition update_conversation ::
  "time \<Rightarrow> string \<Rightarrow> string option \<Rightarrow> bool option \<Rightarrow> hdb \<Rightarrow> (hist_error + conv_row) \<times> hdb" where
  "update_conversation now hid title archived db = (case check_title title of
       Inl e \<Rightarrow> (Inl e, db)
     | Inr t \<Rightarrow> run_tx (update_conversation_body now hid t archived) db)"

definition rename_history :: "time \<Rightarrow> string \<Rightarrow> string \<Rightarrow> hdb \<Rightarrow> (hist_error + conv_row) \<times> hdb" where
  "rename_history now hid title = update_conversation now hid (Some title) None"

definition archive_history :: "time \<Rightarrow> string \<Rightarrow> hdb \<Rightarrow> (hist_error + conv_row) \<times> hdb" where
  "archive_history now hid = update_conversation now hid None (Some True)"

definition unarchive_history :: "time \<Rightarrow> string \<Rightarrow> hdb \<Rightarrow> (hist_error + conv_row) \<times> hdb" where
  "unarchive_history now hid = update_conversation now hid None (Some False)"

definition update_summary ::
  "time \<Rightarrow> string \<Rightarrow> string \<Rightarrow> int \<Rightarrow> int \<Rightarrow> hdb \<Rightarrow> bool \<times> hdb" where
  "update_summary now key summary expected_version through db = (case find_scope db key of
       None \<Rightarrow> (False, db)
     | Some c \<Rightarrow>
         if c_summary_version c \<noteq> expected_version then (False, db)
         else if through \<le> c_summary_through c then (False, db)
         else (True, update_conv (c_id c) (\<lambda>d. d\<lparr>c_summary := summary, c_summary_version := expected_version + 1,
                 c_summary_through := through, c_updated_at := now\<rparr>) db))"

section \<open>Artifact plans and the cleanup outbox\<close>

text \<open>
  The scan of the messages: the references of the target conversations, those of the
  others, and whether every metadata text could be read. A text that cannot be decoded
  only clears the flag; a value that cannot be walked raises.
\<close>

definition scan_message ::
  "hist_config \<Rightarrow> string set \<Rightarrow> msg_row \<Rightarrow> artifact_refs \<times> artifact_refs \<times> bool
    \<Rightarrow> py_exn + artifact_refs \<times> artifact_refs \<times> bool" where
  "scan_message cfg ids m acc = (case acc of (target, retained, safe) \<Rightarrow>
     (case m_metadata m of
        None \<Rightarrow> Inr (target, retained, False)
      | Some v \<Rightarrow>
          bindE (references_from_history_metadata (hc_float_repr cfg) (hc_bracket_ok cfg) v) (\<lambda>r.
          if m_conv m \<in> ids then Inr (refs_union target r, retained, safe)
          else Inr (target, refs_union retained r, safe))))"

fun scan_messages ::
  "hist_config \<Rightarrow> string set \<Rightarrow> msg_row list \<Rightarrow> artifact_refs \<times> artifact_refs \<times> bool
    \<Rightarrow> py_exn + artifact_refs \<times> artifact_refs \<times> bool" where
  "scan_messages cfg ids [] acc = Inr acc"
| "scan_messages cfg ids (m # ms) acc = bindE (scan_message cfg ids m acc) (scan_messages cfg ids ms)"

definition artifact_cleanup_plan_locked :: "hist_config \<Rightarrow> hdb \<Rightarrow> string list \<Rightarrow> hist_error + deletion_plan" where
  "artifact_cleanup_plan_locked cfg db ids =
     (case (if ids = [] then Inr (no_refs, no_refs, True)
            else scan_messages cfg (set ids) (msgs db) (no_refs, no_refs, True)) of
        Inl x \<Rightarrow> Inl (Raised x)
      | Inr (target, retained, safe) \<Rightarrow>
          Inr \<lparr>p_conversations = ids, p_target = target, p_retained = retained,
               p_exclusive = (if safe then exclusive_references target retained else no_refs), p_safe = safe\<rparr>)"

definition empty_plan :: "string list \<Rightarrow> bool \<Rightarrow> deletion_plan" where
  "empty_plan ids safe = \<lparr>p_conversations = ids, p_target = no_refs, p_retained = no_refs,
     p_exclusive = no_refs, p_safe = safe\<rparr>"

definition artifact_cleanup_plan :: "hist_config \<Rightarrow> hdb \<Rightarrow> string list \<Rightarrow> hist_error + deletion_plan" where
  "artifact_cleanup_plan cfg db ids =
     (let requested = {i \<in> set ids. i \<noteq> []}
      in if requested = {} then Inr (empty_plan [] True)
         else artifact_cleanup_plan_locked cfg db
                (sorted_list_of_set (c_id ` set (filter (\<lambda>c. c_id c \<in> requested) (convs db)))))"

definition kb_conversations :: "hdb \<Rightarrow> string \<Rightarrow> string list" where
  "kb_conversations db kb = sorted_list_of_set (k_conv ` set (filter (\<lambda>k. k_kb k = kb) (ckbs db)))"

definition artifact_cleanup_plan_by_knowledge_base ::
  "hist_config \<Rightarrow> hdb \<Rightarrow> string \<Rightarrow> hist_error + deletion_plan" where
  "artifact_cleanup_plan_by_knowledge_base cfg db kb =
     (if kb = [] then Inr (empty_plan [] True)
      else artifact_cleanup_plan_locked cfg db (kb_conversations db kb))"

text \<open>
  The references in the outbox: an object of three sorted lists, read back with \<open>payload.get(...) or ()\<close>
  and \<open>frozenset\<close>. An element that is not hashable raises; so does one that is no text, which the program
  never writes. A payload that is no object has no \<open>get\<close>.
\<close>

definition encode_references :: "artifact_refs \<Rightarrow> json" where
  "encode_references refs =
     JObj [(''attachment_ids'', JArr (map JStr (sorted_list_of_set (r_attachments refs)))),
           (''image_names'', JArr (map JStr (sorted_list_of_set (r_images refs)))),
           (''run_ids'', JArr (map JStr (sorted_list_of_set (r_runs refs))))]"

definition text_element :: "json \<Rightarrow> py_exn + string" where
  "text_element v = (case v of JStr t \<Rightarrow> Inr t | _ \<Rightarrow> Inl PyTypeError)"

definition frozen_texts :: "jdict \<Rightarrow> string \<Rightarrow> py_exn + string set" where
  "frozen_texts payload key =
     (let v = jget payload key
      in if \<not> truthy v then Inr {} else bindE (py_iter v) (\<lambda>xs. bindE (mapE text_element xs) (\<lambda>ts. Inr (set ts))))"

definition decode_references :: "json option \<Rightarrow> py_exn + artifact_refs" where
  "decode_references v = (case v of
       None \<Rightarrow> Inl PyValueError
     | Some (JObj payload) \<Rightarrow>
         bindE (frozen_texts payload ''attachment_ids'') (\<lambda>attachments.
         bindE (frozen_texts payload ''image_names'') (\<lambda>images.
         bindE (frozen_texts payload ''run_ids'') (\<lambda>runs.
         Inr \<lparr>r_attachments = attachments, r_images = images, r_runs = runs\<rparr>)))
     | Some _ \<Rightarrow> Inl PyAttributeError)"

definition stage_artifact_cleanup :: "time \<Rightarrow> string \<Rightarrow> artifact_refs \<Rightarrow> hdb \<Rightarrow> hdb" where
  "stage_artifact_cleanup now key refs db =
     (if \<exists>o' \<in> set (outbox db). o_key o' = key
      then db\<lparr>outbox := upd_where (\<lambda>o'. o_key o' = key) (\<lambda>o'. o'\<lparr>o_refs := Some (encode_references refs), o_created := now\<rparr>) (outbox db)\<rparr>
      else db\<lparr>outbox := outbox db @ [\<lparr>o_key = key, o_refs = Some (encode_references refs), o_created = now\<rparr>]\<rparr>)"

definition artifact_cleanup_outbox :: "hdb \<Rightarrow> string \<Rightarrow> string list \<Rightarrow> hist_error + deletion_plan" where
  "artifact_cleanup_outbox db key ids =
     (case find (\<lambda>o'. o_key o' = key) (outbox db) of
        None \<Rightarrow> Inr (empty_plan ids False)
      | Some r \<Rightarrow> (case decode_references (o_refs r) of
            Inl e \<Rightarrow> if e \<in> {PyTypeError, PyValueError} then Inr (empty_plan ids False) else Inl (Raised e)
          | Inr refs \<Rightarrow> Inr \<lparr>p_conversations = ids, p_target = refs, p_retained = no_refs,
                p_exclusive = refs, p_safe = True\<rparr>))"

section \<open>Deletion\<close>

definition delete_history :: "string \<Rightarrow> hdb \<Rightarrow> bool \<times> hdb" where
  "delete_history hid db = (if find_conv db hid = None then (False, db) else (True, delete_conv hid db))"

definition conversation_cleanup_key :: "string \<Rightarrow> string" where
  "conversation_cleanup_key hid = ''conversation:'' @ hid"

definition kb_cleanup_key :: "string \<Rightarrow> string" where
  "kb_cleanup_key kb = ''knowledge-base:'' @ kb"

definition delete_with_artifact_cleanup_body :: "hist_config \<Rightarrow> time \<Rightarrow> string \<Rightarrow> (bool \<times> deletion_plan) tx" where
  "delete_with_artifact_cleanup_body cfg now hid db =
     (let key = conversation_cleanup_key hid
      in if find_conv db hid = None then bindE (artifact_cleanup_outbox db key [hid]) (\<lambda>plan. Inr ((False, plan), db))
         else bindE (artifact_cleanup_plan_locked cfg db [hid]) (\<lambda>plan.
              let db1 = (if p_safe plan then stage_artifact_cleanup now key (p_exclusive plan) db else db)
              in Inr ((True, plan), delete_conv hid db1)))"

definition delete_with_artifact_cleanup ::
  "hist_config \<Rightarrow> time \<Rightarrow> string \<Rightarrow> hdb \<Rightarrow> (hist_error + (bool \<times> deletion_plan)) \<times> hdb" where
  "delete_with_artifact_cleanup cfg now hid = run_tx (delete_with_artifact_cleanup_body cfg now hid)"

definition complete_artifact_cleanup :: "string \<Rightarrow> hdb \<Rightarrow> bool \<times> hdb" where
  "complete_artifact_cleanup key db =
     (if key = [] then (False, db)
      else ((\<exists>o' \<in> set (outbox db). o_key o' = key), db\<lparr>outbox := filter (\<lambda>o'. o_key o' \<noteq> key) (outbox db)\<rparr>))"

definition delete_by_knowledge_base :: "string \<Rightarrow> hdb \<Rightarrow> nat \<times> hdb" where
  "delete_by_knowledge_base kb db =
     (let ids = map k_conv (filter (\<lambda>k. k_kb k = kb) (ckbs db)) in (length ids, fold delete_conv ids db))"

definition delete_by_kb_with_cleanup_body :: "hist_config \<Rightarrow> time \<Rightarrow> string \<Rightarrow> (nat \<times> deletion_plan) tx" where
  "delete_by_kb_with_cleanup_body cfg now kb db =
     (let key = kb_cleanup_key kb; ids = kb_conversations db kb
      in if ids = [] then bindE (artifact_cleanup_outbox db key []) (\<lambda>plan. Inr ((0, plan), db))
         else bindE (artifact_cleanup_plan_locked cfg db ids) (\<lambda>plan.
              let db1 = (if p_safe plan then stage_artifact_cleanup now key (p_exclusive plan) db else db)
              in Inr ((length ids, plan), fold delete_conv ids db1)))"

definition delete_by_knowledge_base_with_artifact_cleanup ::
  "hist_config \<Rightarrow> time \<Rightarrow> string \<Rightarrow> hdb \<Rightarrow> (hist_error + (nat \<times> deletion_plan)) \<times> hdb" where
  "delete_by_knowledge_base_with_artifact_cleanup cfg now kb = run_tx (delete_by_kb_with_cleanup_body cfg now kb)"

section \<open>Counts\<close>

definition scope_keys_by_knowledge_base :: "hdb \<Rightarrow> string \<Rightarrow> string list" where
  "scope_keys_by_knowledge_base db kb =
     (if kb = [] then []
      else sorted_list_of_set (c_scope_key ` set (filter (\<lambda>c. \<exists>k \<in> set (ckbs db). k_conv k = c_id c \<and> k_kb k = kb) (convs db))))"

definition count_by_knowledge_base :: "hdb \<Rightarrow> string \<Rightarrow> nat" where
  "count_by_knowledge_base db kb = card (k_conv ` set (filter (\<lambda>k. k_kb k = kb) (ckbs db)))"

record quota_report =
  qr_conversations :: int
  qr_bytes :: int
  qr_pending :: int

definition quota_status :: "hist_config \<Rightarrow> time \<Rightarrow> hdb \<Rightarrow> quota_report \<times> hdb" where
  "quota_status cfg now db0 =
     (let db = snd (cleanup_expired cfg now db0)
      in (\<lparr>qr_conversations = count_completed_convs db,
           qr_bytes = sum_list (map c_payload_bytes (convs db)),
           qr_pending = int (length (filter in_flight (turns db)))\<rparr>, db))"

section \<open>The invariant\<close>

lemma update_conversation_inv: "hist_inv db \<Longrightarrow> hist_inv (snd (update_conversation now hid title archived db))"
  by (auto simp: update_conversation_def update_conversation_body_def split: sum.splits option.splits if_splits
      intro!: run_tx_inv hist_inv_update_conv)

lemma update_summary_inv: "hist_inv db \<Longrightarrow> hist_inv (snd (update_summary now key summary v through db))"
  by (auto simp: update_summary_def split: option.splits intro!: hist_inv_update_conv)

lemma hist_inv_outbox: "hist_inv db \<Longrightarrow> hist_inv (db\<lparr>outbox := os\<rparr>)"
  by (rule hist_inv_frame) (simp_all add: hist_inv_def schema_ok_def)

lemma stage_cleanup_inv: "hist_inv db \<Longrightarrow> hist_inv (stage_artifact_cleanup now key refs db)"
  by (simp add: stage_artifact_cleanup_def hist_inv_outbox)

lemma fold_delete_conv_inv: "hist_inv db \<Longrightarrow> hist_inv (fold delete_conv ids db)"
  by (induction ids arbitrary: db) (auto intro: hist_inv_delete_conv)

lemma delete_history_inv: "hist_inv db \<Longrightarrow> hist_inv (snd (delete_history hid db))"
  by (simp add: delete_history_def hist_inv_delete_conv)

lemma delete_with_artifact_cleanup_inv: "hist_inv db \<Longrightarrow> hist_inv (snd (delete_with_artifact_cleanup cfg now hid db))"
  unfolding delete_with_artifact_cleanup_def
  by (rule run_tx_inv) (auto simp: delete_with_artifact_cleanup_body_def Let_def bindE_eq_Inr
      intro!: hist_inv_delete_conv stage_cleanup_inv split: if_splits)

lemma complete_artifact_cleanup_inv: "hist_inv db \<Longrightarrow> hist_inv (snd (complete_artifact_cleanup key db))"
  by (simp add: complete_artifact_cleanup_def hist_inv_outbox)

lemma delete_by_knowledge_base_inv: "hist_inv db \<Longrightarrow> hist_inv (snd (delete_by_knowledge_base kb db))"
  by (simp add: delete_by_knowledge_base_def Let_def fold_delete_conv_inv)

lemma delete_by_kb_with_cleanup_inv:
  "hist_inv db \<Longrightarrow> hist_inv (snd (delete_by_knowledge_base_with_artifact_cleanup cfg now kb db))"
  unfolding delete_by_knowledge_base_with_artifact_cleanup_def
  by (rule run_tx_inv) (auto simp: delete_by_kb_with_cleanup_body_def Let_def bindE_eq_Inr
      intro!: fold_delete_conv_inv stage_cleanup_inv split: if_splits)

lemma quota_status_inv: "hist_inv db \<Longrightarrow> hist_inv (snd (quota_status cfg now db))"
  by (simp add: quota_status_def Let_def cleanup_expired_inv)

end
