(* ===== verification/History_Quota.thy ===== *)
theory History_Quota
  imports History_Admin "HOL-Library.Sublist"
begin

text \<open>
  The quotas of the history store as an invariant of the whole database: messages and
  bytes of a conversation, bytes of the workspace, number of conversations that hold
  messages, number of turns not committed. Operations that only remove or rewrite rows
  are compared with \<open>quota_le\<close>; the three statements that grow a quota are the new
  conversation, the new reservation and the commit.
\<close>

definition pending_count :: "hdb \<Rightarrow> nat" where
  "pending_count db = length (filter (\<lambda>t. t_status t \<noteq> Complete) (turns db))"

definition quota_key :: "conv_row \<Rightarrow> int \<times> int" where
  "quota_key c = (c_message_count c, c_payload_bytes c)"

definition within_quotas :: "hist_config \<Rightarrow> (int \<times> int) list \<Rightarrow> nat \<Rightarrow> bool" where
  "within_quotas cfg ks n \<longleftrightarrow>
     (\<forall>(k, b) \<in> set ks. 0 \<le> b \<and> k \<le> max 0 (hc_max_messages cfg) \<and> b \<le> max 0 (hc_max_conversation_bytes cfg))
     \<and> sum_list (map snd ks) \<le> max 0 (hc_max_history_bytes cfg)
     \<and> (0 < hc_max_conversations cfg \<longrightarrow> int (length (filter (\<lambda>(k, b). 0 < k) ks)) \<le> hc_max_conversations cfg)
     \<and> (0 < hc_max_pending_turns cfg \<longrightarrow> int n \<le> hc_max_pending_turns cfg)"

definition quota_inv :: "hist_config \<Rightarrow> hdb \<Rightarrow> bool" where
  "quota_inv cfg db \<longleftrightarrow> within_quotas cfg (map quota_key (convs db)) (pending_count db)"

definition quota_le :: "hdb \<Rightarrow> hdb \<Rightarrow> bool" where
  "quota_le db db' \<longleftrightarrow> subseq (map quota_key (convs db')) (map quota_key (convs db)) \<and> pending_count db' \<le> pending_count db"

section \<open>Shrinking\<close>

lemma subseq_sum_le: "subseq xs ys \<Longrightarrow> (\<forall>y \<in> set ys. 0 \<le> f y) \<Longrightarrow> sum_list (map f xs) \<le> (sum_list (map f ys) :: int)"
proof (induction rule: list_emb.induct)
  case (list_emb_Nil ys)
  have "0 \<le> sum_list (map f ys)"
    by (rule sum_list_nonneg) (use list_emb_Nil in auto)
  then show ?case by simp
qed auto

lemma subseq_set: "subseq xs ys \<Longrightarrow> set xs \<subseteq> set ys"
  by (induction rule: list_emb.induct) auto

lemma within_quotas_mono:
  assumes w: "within_quotas cfg ks n" and sub: "subseq js ks" and le: "m \<le> n"
  shows "within_quotas cfg js m"
  unfolding within_quotas_def
proof (intro conjI)
  have set: "set js \<subseteq> set ks" using sub by (rule subseq_set)
  with w show "\<forall>(k, b) \<in> set js. 0 \<le> b \<and> k \<le> max 0 (hc_max_messages cfg) \<and> b \<le> max 0 (hc_max_conversation_bytes cfg)"
    unfolding within_quotas_def by blast
  have "sum_list (map snd js) \<le> sum_list (map snd ks)"
    by (rule subseq_sum_le [OF sub]) (use w in \<open>auto simp: within_quotas_def\<close>)
  with w show "sum_list (map snd js) \<le> max 0 (hc_max_history_bytes cfg)"
    unfolding within_quotas_def by linarith
  have "length (filter (\<lambda>(k, b). 0 < k) js) \<le> length (filter (\<lambda>(k, b). 0 < k) ks)"
    by (rule list_emb_length [OF subseq_filter [OF sub]])
  with w show "0 < hc_max_conversations cfg \<longrightarrow> int (length (filter (\<lambda>(k, b). 0 < k) js)) \<le> hc_max_conversations cfg"
    unfolding within_quotas_def by linarith
  from w le show "0 < hc_max_pending_turns cfg \<longrightarrow> int m \<le> hc_max_pending_turns cfg"
    unfolding within_quotas_def by linarith
qed

lemma quota_inv_le: "quota_inv cfg db \<Longrightarrow> quota_le db db' \<Longrightarrow> quota_inv cfg db'"
  unfolding quota_inv_def quota_le_def by (blast intro: within_quotas_mono)

lemma quota_le_refl [simp, intro]: "quota_le db db"
  by (simp add: quota_le_def)

lemma quota_le_trans: "quota_le a b \<Longrightarrow> quota_le b c \<Longrightarrow> quota_le a c"
  unfolding quota_le_def by (auto intro: subseq_order.trans)

lemma quota_inv_empty: "quota_inv cfg empty_hdb"
  by (simp add: quota_inv_def within_quotas_def pending_count_def empty_hdb_def)

lemma quota_le_frame: "convs db' = convs db \<Longrightarrow> turns db' = turns db \<Longrightarrow> quota_le db db'"
  by (simp add: quota_le_def pending_count_def)

lemma quota_le_same_core: "same_core db db' \<Longrightarrow> quota_le db db'"
  by (simp add: same_core_def quota_le_frame)

lemma pending_upd_le:
  assumes "\<And>t. t \<in> set ts \<Longrightarrow> P t \<Longrightarrow> t_status t \<noteq> Complete"
  shows "length (filter (\<lambda>t. t_status t \<noteq> Complete) (upd_where P f ts)) \<le> length (filter (\<lambda>t. t_status t \<noteq> Complete) ts)"
  using assms by (induction ts) auto

lemma pending_upd_complete_le:
  "(\<And>t. t_status (f t) = Complete) \<Longrightarrow>
    length (filter (\<lambda>t. t_status t \<noteq> Complete) (upd_where P f ts)) \<le> length (filter (\<lambda>t. t_status t \<noteq> Complete) ts)"
  by (induction ts) auto

lemma quota_le_upd_turns:
  "(\<And>t. t \<in> set (turns db) \<Longrightarrow> P t \<Longrightarrow> t_status t \<noteq> Complete) \<Longrightarrow> quota_le db (db\<lparr>turns := upd_where P f (turns db)\<rparr>)"
  by (simp add: quota_le_def pending_count_def pending_upd_le)

lemma quota_le_update_turn:
  assumes "schema_ok db" and "update_turn cid tid f db = Inr (u, db')"
    and "r \<in> set (turns db)" "t_conv r = cid" "t_id r = tid" "t_status r \<noteq> Complete"
  shows "quota_le db db'"
proof -
  have "db' = db\<lparr>turns := upd_where (\<lambda>t. t_conv t = cid \<and> t_id t = tid) f (turns db)\<rparr>"
    using assms(2) by (auto simp: update_turn_def Let_def split: if_splits)
  moreover have "t_status t \<noteq> Complete" if "t \<in> set (turns db)" "t_conv t = cid \<and> t_id t = tid" for t
    using same_turn [OF assms(1) that(1) assms(3)] that(2) assms(4-6) by simp
  ultimately show ?thesis by (simp add: quota_le_upd_turns)
qed

lemma quota_le_filter:
  "convs db' = filter P (convs db) \<Longrightarrow> turns db' = filter Q (turns db) \<Longrightarrow> quota_le db db'"
  unfolding quota_le_def pending_count_def
  by (auto simp: filter_filter intro!: subseq_map subseq_filter_left list_emb_length
      [OF subseq_filter [OF subseq_filter_left, of "\<lambda>t. t_status t \<noteq> Complete" Q "turns db", simplified]])

lemma quota_le_delete_conv: "quota_le db (delete_conv cid db)"
  by (rule quota_le_filter [where Q = "\<lambda>t. t_conv t \<noteq> cid"]) (simp_all add: delete_conv_def)

lemma quota_le_delete_turn: "quota_le db (delete_turn cid tid db)"
  by (rule quota_le_filter [where P = "\<lambda>_. True" and Q = "\<lambda>t. \<not> (t_conv t = cid \<and> t_id t = tid)"])
    (simp_all add: delete_turn_def)

lemma quota_le_fold: "(\<And>x d. quota_le d (f x d)) \<Longrightarrow> quota_le db (fold f xs db)"
  by (induction xs arbitrary: db) (auto intro: quota_le_trans)

lemma quota_le_sweep: "quota_le db (snd (cleanup_expired_locked cfg now db))"
proof -
  have e: "quota_le db (expire_leases now db)"
    unfolding expire_leases_def by (rule quota_le_upd_turns) (simp add: lease_expired_def)
  have c: "quota_le d (delete_convs cs d)" for cs d
    unfolding delete_convs_def by (rule quota_le_fold) (rule quota_le_delete_conv)
  have t: "quota_le d (delete_turns ts d)" for ts d
    unfolding delete_turns_def by (rule quota_le_fold) (rule quota_le_delete_turn)
  show ?thesis
    unfolding cleanup_expired_locked_def Let_def snd_conv
    by (rule quota_le_trans [OF e quota_le_trans [OF c quota_le_trans [OF t c]]])
qed

lemma quota_le_update_conv:
  assumes "\<And>c. c_message_count (f c) = c_message_count c" "\<And>c. c_payload_bytes (f c) = c_payload_bytes c"
  shows "quota_le db (update_conv cid f db)"
proof -
  have "map quota_key (convs (update_conv cid f db)) = map quota_key (convs db)"
    by (simp add: update_conv_def map_upd_where quota_key_def assms)
  then show ?thesis by (simp add: quota_le_def pending_count_def) (simp add: update_conv_def)
qed

section \<open>Growth\<close>

lemma quota_insert_conv:
  assumes "quota_inv cfg db" and "insert_conv c db = Inr (u, db')"
    and "c_message_count c = 0" "c_payload_bytes c = 0"
  shows "quota_inv cfg db'"
proof -
  have "convs db' = convs db @ [c]" "turns db' = turns db"
    using assms(2) by (auto simp: insert_conv_def split: if_splits)
  with assms show ?thesis
    by (auto simp: quota_inv_def within_quotas_def pending_count_def quota_key_def)
qed

lemma quota_insert_turn:
  assumes "quota_inv cfg db" and "enforce_pending_quota cfg db = Inr v" and "insert_turn t db = Inr (u, db')"
  shows "quota_inv cfg db'"
proof -
  have "convs db' = convs db" "turns db' = turns db @ [t]"
    using assms(3) by (auto simp: insert_turn_def split: if_splits)
  moreover have "0 < hc_max_pending_turns cfg \<longrightarrow> int (pending_count db) < hc_max_pending_turns cfg"
    using assms(2) by (auto simp: enforce_pending_quota_def guardE_eq_Inr pending_count_def)
  ultimately show ?thesis
    using assms(1) by (auto simp: quota_inv_def within_quotas_def pending_count_def)
qed

lemma sum_upd_unique:
  assumes "distinct (map g xs)" "x \<in> set xs"
  shows "sum_list (map h (upd_where (\<lambda>y. g y = g x) f xs)) = sum_list (map h xs) - h x + (h (f x) :: int)"
  using assms
proof (induction xs)
  case Nil
  then show ?case by simp
next
  case (Cons y ys)
  show ?case
  proof (cases "y = x")
    case True
    then have "upd_where (\<lambda>y. g y = g x) f ys = ys"
      using Cons.prems by (intro upd_where_id) (auto simp: image_iff)
    with True show ?thesis by simp
  next
    case False
    with Cons.prems have "x \<in> set ys" "g y \<noteq> g x" by (auto simp: image_iff)
    with Cons show ?thesis by simp
  qed
qed

lemma length_filter_upd:
  "length (filter Q (upd_where P f xs)) = length (filter Q (filter (\<lambda>x. \<not> P x) xs)) + length (filter (\<lambda>x. Q (f x)) (filter P xs))"
  by (induction xs) auto

lemma filter_one:
  "distinct (map g xs) \<Longrightarrow> x \<in> set xs \<Longrightarrow> filter (\<lambda>y. g y = g x) xs = [x]"
proof (induction xs)
  case Nil
  then show ?case by simp
next
  case (Cons y ys)
  show ?case
  proof (cases "y = x")
    case True
    then have "filter (\<lambda>y. g y = g x) ys = []"
      using Cons.prems by (auto simp: filter_empty_conv image_iff)
    with True show ?thesis by simp
  next
    case False
    with Cons.prems have "x \<in> set ys" "g y \<noteq> g x" by (auto simp: image_iff)
    with Cons show ?thesis by simp
  qed
qed

lemma turn_bytes_nonneg: "0 \<le> turn_bytes cfg u a s m"
  by (simp add: turn_bytes_def utf8_bytes_def json_bytes_def)

lemma completed_after_commit:
  assumes d: "distinct (map c_id cs)" and c: "c \<in> set cs" and q: "int (length (filter (\<lambda>x. 0 < c_message_count x) cs)) \<le> n"
    and first: "c_message_count c \<le> 0 \<Longrightarrow>
      int (length (filter (\<lambda>x. 0 < c_message_count x \<and> c_id x \<noteq> c_id c) cs)) < n"
  shows "int (length (filter (\<lambda>x. 0 < c_message_count x) (upd_where (\<lambda>x. c_id x = c_id c) f cs))) \<le> n"
proof -
  let ?oth = "length (filter (\<lambda>x. 0 < c_message_count x) (filter (\<lambda>x. c_id x \<noteq> c_id c) cs))"
  have one: "filter (\<lambda>x. c_id x = c_id c) cs = [c]" using d c by (rule filter_one)
  have split: "length (filter (\<lambda>x. 0 < c_message_count x) cs) = ?oth + (if 0 < c_message_count c then 1 else 0)"
    using length_filter_upd [of "\<lambda>x. 0 < c_message_count x" "\<lambda>x. c_id x = c_id c" "\<lambda>x. x" cs] one
    by (simp add: upd_where_def)
  have "length (filter (\<lambda>x. 0 < c_message_count x) (upd_where (\<lambda>x. c_id x = c_id c) f cs)) \<le> ?oth + 1"
    unfolding length_filter_upd one by simp
  moreover have "int ?oth + 1 \<le> n"
    using q first split by (cases "0 < c_message_count c") (auto simp: conj_commute)
  ultimately show ?thesis by linarith
qed

lemma quota_commit:
  assumes q: "quota_inv cfg db" and sch: "schema_ok db" and conv: "conv \<in> set (convs db)"
    and nonneg: "0 \<le> c_message_count conv"
    and first: "enforce_quota_on_first_commit cfg db (c_id conv) (c_message_count conv) = Inr u1"
    and msgs: "enforce_message_quota cfg (c_message_count conv) = Inr u2"
    and bytes: "enforce_conversation_bytes cfg (c_payload_bytes conv) (q_user r) (q_assistant r) sources metadata = Inr u3"
    and hist: "enforce_history_bytes cfg db (turn_bytes cfg (q_user r) (q_assistant r) sources metadata) = Inr u4"
    and eff: "commit_effect cfg now r sources metadata prompt conv db db'"
  shows "quota_inv cfg db'"
proof -
  let ?F = "committed_conv cfg now r sources metadata prompt conv"
  let ?tb = "turn_bytes cfg (q_user r) (q_assistant r) sources metadata"
  have cs': "convs db' = upd_where (\<lambda>c. c_id c = c_id conv) ?F (convs db)"
    and ts': "turns db' = upd_where (\<lambda>t. t_conv t = c_id conv \<and> t_id t = q_turn_id r) (completed_turn now) (turns db)"
    using eff by (simp_all add: commit_effect_def Let_def)
  have d: "distinct (map c_id (convs db))" using sch by (simp add: schema_ok_def)
  have pend: "pending_count db' \<le> pending_count db"
    unfolding pending_count_def ts' by (rule pending_upd_complete_le) (simp add: completed_turn_def)
  have old: "\<forall>c \<in> set (convs db). 0 \<le> c_payload_bytes c \<and> c_message_count c \<le> max 0 (hc_max_messages cfg)
      \<and> c_payload_bytes c \<le> max 0 (hc_max_conversation_bytes cfg)"
    using q by (auto simp: quota_inv_def within_quotas_def quota_key_def)
  have new: "0 \<le> c_payload_bytes conv + ?tb \<and> c_message_count conv + 2 \<le> max 0 (hc_max_messages cfg)
      \<and> c_payload_bytes conv + ?tb \<le> max 0 (hc_max_conversation_bytes cfg)"
    using msgs bytes old conv turn_bytes_nonneg [of cfg "q_user r" "q_assistant r" sources metadata]
    by (auto simp: enforce_message_quota_def enforce_conversation_bytes_def guardE_eq_Inr)
  have each: "0 \<le> c_payload_bytes c \<and> c_message_count c \<le> max 0 (hc_max_messages cfg)
      \<and> c_payload_bytes c \<le> max 0 (hc_max_conversation_bytes cfg)" if "c \<in> set (convs db')" for c
    using that old new unfolding cs' set_upd_where by (auto simp: committed_conv_def)
  have "sum_list (map c_payload_bytes (convs db')) = sum_list (map c_payload_bytes (convs db)) + ?tb"
    unfolding cs' sum_upd_unique [OF d conv] by (simp add: committed_conv_def)
  then have sum: "sum_list (map c_payload_bytes (convs db')) \<le> max 0 (hc_max_history_bytes cfg)"
    using hist by (auto simp: enforce_history_bytes_def guardE_eq_Inr)
  have cnt: "int (length (filter (\<lambda>c. 0 < c_message_count c) (convs db'))) \<le> hc_max_conversations cfg"
    if pos: "0 < hc_max_conversations cfg"
    unfolding cs'
  proof (rule completed_after_commit [OF d conv])
    show "int (length (filter (\<lambda>x. 0 < c_message_count x) (convs db))) \<le> hc_max_conversations cfg"
      using q pos by (simp add: quota_inv_def within_quotas_def quota_key_def filter_map o_def)
  next
    assume "c_message_count conv \<le> 0"
    then show "int (length (filter (\<lambda>x. 0 < c_message_count x \<and> c_id x \<noteq> c_id conv) (convs db))) < hc_max_conversations cfg"
      using first pos by (auto simp: enforce_quota_on_first_commit_def guardE_eq_Inr split: if_splits)
  qed
  show ?thesis
    unfolding quota_inv_def within_quotas_def
  proof (intro conjI)
    show "\<forall>(k, b) \<in> set (map quota_key (convs db')). 0 \<le> b \<and> k \<le> max 0 (hc_max_messages cfg)
        \<and> b \<le> max 0 (hc_max_conversation_bytes cfg)"
      using each by (auto simp: quota_key_def)
    show "sum_list (map snd (map quota_key (convs db'))) \<le> max 0 (hc_max_history_bytes cfg)"
      using sum by (simp add: quota_key_def o_def)
    show "0 < hc_max_conversations cfg \<longrightarrow>
        int (length (filter (\<lambda>(k, b). 0 < k) (map quota_key (convs db')))) \<le> hc_max_conversations cfg"
      using cnt by (simp add: quota_key_def filter_map o_def)
    show "0 < hc_max_pending_turns cfg \<longrightarrow> int (pending_count db') \<le> hc_max_pending_turns cfg"
      using q pend by (auto simp: quota_inv_def within_quotas_def)
  qed
qed

end
