(* ===== verification/History_Machine.thy ===== *)
theory History_Machine
  imports History_Quota
begin

text \<open>
  The history store as a machine: one event per public call, with the clock readings and
  random identifiers the call draws. Both invariants, the shape of the conversations and
  the quotas, hold after every sequence of calls from the empty database.
\<close>

section \<open>Events\<close>

datatype hist_event =
    EvBegin begin_request draws
  | EvRecover draws string string string "string option"
  | EvReady time string string string string
  | EvRenew time string string string
  | EvFail time string string string
  | EvComplete time complete_request
  | EvReset time string
  | EvCleanup time
  | EvUpdate time string "string option" "bool option"
  | EvSummary time string string int int
  | EvDelete string
  | EvDeleteWithCleanup time string
  | EvCleanupDone string
  | EvDeleteByKb string
  | EvDeleteByKbWithCleanup time string
  | EvQuotaStatus time

fun hist_step :: "hist_config \<Rightarrow> hdb \<Rightarrow> hist_event \<Rightarrow> hdb" where
  "hist_step cfg db (EvBegin req dr) = snd (begin_turn cfg req dr db)"
| "hist_step cfg db (EvRecover dr key tid fp ex) = snd (recover_ready_turn cfg dr key tid fp ex db)"
| "hist_step cfg db (EvReady now key tid lease digest) = snd (mark_turn_ready now key tid lease digest db)"
| "hist_step cfg db (EvRenew now key tid lease) = snd (renew_turn_lease cfg now key tid lease db)"
| "hist_step cfg db (EvFail now key tid lease) = snd (fail_turn now key tid lease db)"
| "hist_step cfg db (EvComplete now q) = snd (complete_turn cfg now q db)"
| "hist_step cfg db (EvReset now hid) = snd (reset_continuity now hid db)"
| "hist_step cfg db (EvCleanup now) = snd (cleanup_expired cfg now db)"
| "hist_step cfg db (EvUpdate now hid title archived) = snd (update_conversation now hid title archived db)"
| "hist_step cfg db (EvSummary now key summary v through) = snd (update_summary now key summary v through db)"
| "hist_step cfg db (EvDelete hid) = snd (delete_history hid db)"
| "hist_step cfg db (EvDeleteWithCleanup now hid) = snd (delete_with_artifact_cleanup cfg now hid db)"
| "hist_step cfg db (EvCleanupDone key) = snd (complete_artifact_cleanup key db)"
| "hist_step cfg db (EvDeleteByKb kb) = snd (delete_by_knowledge_base kb db)"
| "hist_step cfg db (EvDeleteByKbWithCleanup now kb) = snd (delete_by_knowledge_base_with_artifact_cleanup cfg now kb db)"
| "hist_step cfg db (EvQuotaStatus now) = snd (quota_status cfg now db)"

lemma hist_step_inv: "hist_inv db \<Longrightarrow> hist_inv (hist_step cfg db ev)"
  by (cases ev) (simp_all add: begin_turn_inv recover_ready_inv mark_turn_ready_inv renew_turn_lease_inv
      fail_turn_inv complete_turn_inv reset_continuity_inv cleanup_expired_inv update_conversation_inv
      update_summary_inv delete_history_inv delete_with_artifact_cleanup_inv complete_artifact_cleanup_inv
      delete_by_knowledge_base_inv delete_by_kb_with_cleanup_inv quota_status_inv)

section \<open>The quotas step by step\<close>

lemma run_tx_quota:
  assumes "quota_inv cfg db" and "\<And>x db'. body db = Inr (x, db') \<Longrightarrow> quota_inv cfg db'"
  shows "quota_inv cfg (snd (run_tx body db))"
  using assms by (auto simp: run_tx_def split: sum.splits)

lemma run_tx_quota_le:
  assumes "quota_inv cfg db" and "\<And>x db'. body db = Inr (x, db') \<Longrightarrow> quota_le db db'"
  shows "quota_inv cfg (snd (run_tx body db))"
  using run_tx_quota [OF assms(1)] quota_inv_le [OF assms(1) assms(2)] by blast

lemma quota_get_or_create:
  assumes "quota_inv cfg db" and "get_or_create_conversation req dr db = Inr (c, db')"
  shows "quota_inv cfg db'"
proof (cases "find_scope db (b_scope_key req)")
  case None
  with assms(2) have "insert_conv c db = Inr ((), db')" "c_message_count c = 0" "c_payload_bytes c = 0"
    by (auto simp: get_or_create_conversation_def Let_def bindE_eq_Inr)
  with assms(1) show ?thesis by (rule quota_insert_conv)
next
  case (Some d)
  with assms show ?thesis by (auto simp: get_or_create_conversation_def split: if_splits)
qed

lemma quota_le_handle_existing:
  assumes sch: "schema_ok db" and r: "r \<in> set (turns db)"
    and step: "handle_existing_turn cfg dr r fp db = Inr (out, db')"
  shows "quota_le db db'"
proof -
  consider "db' = db" | v where "t_status r \<noteq> Complete" "update_turn (t_conv r) (t_id r)
      (take_lease (d_retry_lease dr) (d_now dr + real_of_int (hc_lease_seconds cfg)) (d_now dr)) db = Inr (v, db')"
    using step by (cases "t_status r")
      (auto simp: handle_existing_turn_def Let_def bindE_eq_Inr split: if_splits)
  then show ?thesis
    by cases (auto intro: quota_le_update_turn [OF sch _ r])
qed

lemma quota_begin_body:
  assumes inv: "hist_inv db" and q: "quota_inv cfg db" and step: "begin_turn_body cfg req dr db = Inr (out, db')"
  shows "quota_inv cfg db'"
proof -
  let ?db1 = "snd (cleanup_expired_locked cfg (d_now dr) db)"
  from step obtain c db2 db3 o4 u
    where conv: "get_or_create_conversation req dr ?db1 = Inr (c, db2)"
      and kbs: "associate_reservation_kbs (c_id c) (b_kbs req) (d_now dr) db2 = Inr (u, db3)"
      and fin: "(case find_turn db3 (c_id c) (b_turn_id req) of
                  Some existing \<Rightarrow> handle_existing_turn cfg dr existing (b_fingerprint req) db3
                | None \<Rightarrow> reserve_turn cfg req dr (c_id c) db3) = Inr (o4, db')"
    by (auto simp: begin_turn_body_def Let_def bindE_eq_Inr)
  have "hist_inv db2" using get_or_create_inv [OF hist_inv_sweep [OF inv] conv] by simp
  with associate_frame [OF kbs] have core: "same_core db2 db3" and s3: "schema_ok db3"
    by (simp_all add: hist_inv_schema)
  have "quota_inv cfg db2"
    by (rule quota_get_or_create [OF quota_inv_le [OF q quota_le_sweep] conv])
  then have q3: "quota_inv cfg db3" using core by (blast intro: quota_inv_le quota_le_same_core)
  show ?thesis
  proof (cases "find_turn db3 (c_id c) (b_turn_id req)")
    case (Some r)
    with fin have "quota_le db3 db'"
      by (auto intro!: quota_le_handle_existing [OF s3] dest: find_turn_Some)
    with q3 show ?thesis by (rule quota_inv_le)
  next
    case None
    with fin obtain v t w where "enforce_pending_quota cfg db3 = Inr v" "insert_turn t db3 = Inr (w, db')"
      by (auto simp: reserve_turn_def Let_def bindE_eq_Inr split: sum.splits)
    with q3 show ?thesis by (rule quota_insert_turn)
  qed
qed

lemma leased_not_complete: "hist_inv db \<Longrightarrow> r \<in> set (turns db) \<Longrightarrow> t_lease r \<noteq> None \<Longrightarrow> t_status r \<noteq> Complete"
  by (auto simp: leased_in_flight in_flight_def)

lemma quota_le_row_update:
  assumes inv: "hist_inv db" and r: "get_turn_for_update db key tid = Some r" and nc: "t_status r \<noteq> Complete"
    and upd: "update_turn (t_conv r) tid f db = Inr (u, db')"
  shows "quota_le db db'"
  using get_turn_Some [OF r] nc by (auto intro: quota_le_update_turn [OF hist_inv_schema [OF inv] upd])

lemma quota_recover: "hist_inv db \<Longrightarrow> quota_inv cfg db \<Longrightarrow> quota_inv cfg (snd (recover_ready_turn c dr key tid fp ex db))"
  unfolding recover_ready_turn_def
  by (erule run_tx_quota_le) (auto simp: recover_ready_body_def Let_def bindE_eq_Inr
      split: option.splits if_splits intro: quota_le_row_update)

lemma quota_mark_ready: "hist_inv db \<Longrightarrow> quota_inv cfg db \<Longrightarrow> quota_inv cfg (snd (mark_turn_ready now key tid lease digest db))"
  unfolding mark_turn_ready_def
  by (erule run_tx_quota_le) (auto simp: mark_turn_ready_body_def bindE_eq_Inr in_flight_def
      split: option.splits if_splits intro: quota_le_row_update)

lemma quota_renew: "hist_inv db \<Longrightarrow> quota_inv cfg db \<Longrightarrow> quota_inv cfg (snd (renew_turn_lease c now key tid lease db))"
  unfolding renew_turn_lease_def
  by (erule run_tx_quota_le) (auto simp: renew_turn_lease_body_def bindE_eq_Inr in_flight_def
      split: option.splits if_splits intro: quota_le_row_update)

lemma quota_fail: "hist_inv db \<Longrightarrow> quota_inv cfg db \<Longrightarrow> quota_inv cfg (snd (fail_turn now key tid lease db))"
  unfolding fail_turn_def
  by (erule run_tx_quota_le) (auto simp: fail_turn_body_def bindE_eq_Inr
      split: option.splits if_splits intro: quota_le_row_update)

lemma quota_reset: "quota_inv cfg db \<Longrightarrow> quota_inv cfg (snd (reset_continuity now hid db))"
  unfolding reset_continuity_def
  by (erule run_tx_quota_le) (auto simp: reset_continuity_body_def Let_def lease_expired_def
      split: option.splits intro!: quota_le_upd_turns)

lemma quota_cleanup: "quota_inv cfg db \<Longrightarrow> quota_inv cfg (snd (cleanup_expired c now db))"
  unfolding cleanup_expired_def
proof (erule run_tx_quota_le)
  fix x db' assume "Inr (cleanup_expired_locked c now db) = Inr (x, db')"
  then show "quota_le db db'" using quota_le_sweep [of db c now] by simp
qed

lemma commit_quota_body:
  assumes inv: "hist_inv db" and q: "quota_inv cfg db"
    and step: "complete_turn_body cfg now r sources metadata prompt db = Inr (out, db')"
  shows "quota_inv cfg db'"
  using step
proof (cases rule: complete_turn_body_cases)
  case replay
  with q show ?thesis by simp
next
  case (commit row conv)
  from find_conv_Some [OF commit(5)] have conv: "conv \<in> set (convs db)" "c_id conv = t_conv row" by auto
  have nonneg: "0 \<le> c_message_count conv"
    using hist_invD [OF inv conv(1)] by (simp add: conv_inv_def)
  note sch = hist_inv_schema [OF inv]
  show ?thesis
    using commit_turn_effect [OF sch commit(10)] commit(6)
    by (intro quota_commit [OF q sch conv(1) nonneg _ commit(7,8,9)]) (auto simp: conv(2))
qed

lemma quota_complete: "hist_inv db \<Longrightarrow> quota_inv cfg db \<Longrightarrow> quota_inv cfg (snd (complete_turn cfg now q db))"
  using complete_turn_cases [of cfg now q db]
  by (auto intro!: run_tx_quota elim: commit_quota_body)

lemma quota_begin: "hist_inv db \<Longrightarrow> quota_inv cfg db \<Longrightarrow> quota_inv cfg (snd (begin_turn cfg req dr db))"
  by (auto simp: begin_turn_def split: sum.splits intro!: run_tx_quota elim: quota_begin_body)

lemma quota_le_stage: "quota_le db (stage_artifact_cleanup now key refs db)"
  by (rule quota_le_frame) (simp_all add: stage_artifact_cleanup_def)

lemma quota_le_deletes: "quota_le db (fold delete_conv ids db)"
  by (rule quota_le_fold) (rule quota_le_delete_conv)

lemma quota_delete_with_cleanup: "quota_inv cfg db \<Longrightarrow> quota_inv cfg (snd (delete_with_artifact_cleanup c now hid db))"
  unfolding delete_with_artifact_cleanup_def
  by (erule run_tx_quota_le) (auto simp: delete_with_artifact_cleanup_body_def Let_def bindE_eq_Inr
      split: if_splits intro: quota_le_trans quota_le_stage quota_le_delete_conv)

lemma quota_delete_by_kb_with_cleanup:
  "quota_inv cfg db \<Longrightarrow> quota_inv cfg (snd (delete_by_knowledge_base_with_artifact_cleanup c now kb db))"
  unfolding delete_by_knowledge_base_with_artifact_cleanup_def
  by (erule run_tx_quota_le) (auto simp: delete_by_kb_with_cleanup_body_def Let_def bindE_eq_Inr
      split: if_splits intro: quota_le_trans quota_le_stage quota_le_deletes)

lemma quota_update_conversation: "quota_inv cfg db \<Longrightarrow> quota_inv cfg (snd (update_conversation now hid title archived db))"
  unfolding update_conversation_def
  by (auto split: sum.splits intro!: run_tx_quota_le quota_le_update_conv simp: update_conversation_body_def
      split: option.splits if_splits)

lemma quota_update_summary: "quota_inv cfg db \<Longrightarrow> quota_inv cfg (snd (update_summary now key summary v through db))"
  by (auto simp: update_summary_def split: option.splits elim!: quota_inv_le intro!: quota_le_update_conv)

lemma quota_cleanup_done: "quota_inv cfg db \<Longrightarrow> quota_inv cfg (snd (complete_artifact_cleanup key db))"
  by (auto simp: complete_artifact_cleanup_def elim!: quota_inv_le intro!: quota_le_frame)

lemma quota_delete_history: "quota_inv cfg db \<Longrightarrow> quota_inv cfg (snd (delete_history hid db))"
  by (auto simp: delete_history_def elim!: quota_inv_le intro!: quota_le_delete_conv)

lemma quota_delete_by_kb: "quota_inv cfg db \<Longrightarrow> quota_inv cfg (snd (delete_by_knowledge_base kb db))"
  by (auto simp: delete_by_knowledge_base_def Let_def elim!: quota_inv_le intro!: quota_le_deletes)

lemma hist_step_quota: "hist_inv db \<Longrightarrow> quota_inv cfg db \<Longrightarrow> quota_inv cfg (hist_step cfg db ev)"
  by (cases ev) (simp_all add: quota_begin quota_recover quota_mark_ready quota_renew quota_fail quota_complete
      quota_reset quota_cleanup quota_update_conversation quota_update_summary quota_delete_history
      quota_delete_with_cleanup quota_cleanup_done quota_delete_by_kb quota_delete_by_kb_with_cleanup
      quota_status_def Let_def)

section \<open>The machine\<close>

interpretation history: safe_machine "hist_step cfg" "\<lambda>db. hist_inv db \<and> quota_inv cfg db" "\<lambda>db ev. True"
  for cfg
  by unfold_locales (auto intro: hist_step_inv hist_step_quota)

lemma history_run: "hist_inv (run_machine (hist_step cfg) empty_hdb evs) \<and> quota_inv cfg (run_machine (hist_step cfg) empty_hdb evs)"
  by (rule history.run_inv_unguarded) (simp_all add: hist_inv_empty quota_inv_empty)

end
