(* ===== verification/History_Claims.thy ===== *)
theory History_Claims
  imports History_Machine
begin

text \<open>
  The properties of the conversation history store
  (\<open>app/utils/conversation_history_store.py\<close>): what every sequence of calls guarantees, and
  what each call decides.
\<close>

section \<open>Every sequence of calls\<close>

text \<open>
  Claim C1: After any sequence of calls to the history store, with any clock readings and
  any identifiers, every conversation is a linear log: its messages are numbered 1, 2, 3, ...
  without gaps and alternate user and assistant of one turn, its completed turns form one
  chain of parents that ends in \<open>last_turn_id\<close>, every turn in flight holds a lease and
  continues exactly that last turn, and the message and byte counters of the row equal
  what the messages add up to.
\<close>

theorem conversations_stay_linear: "hist_inv (run_machine (hist_step cfg) empty_hdb evs)"
  using history_run by blast

text \<open>
  After any sequence of calls, a conversation has at most one turn that is
  generating or ready. (A row, not a worker: the worker whose lease expired may still be running
  when another one takes its turn over; its later writes are fenced off.)
\<close>

theorem at_most_one_turn_in_flight:
  "length (filter (\<lambda>t. t_conv t = cid \<and> in_flight t) (turns (run_machine (hist_step cfg) empty_hdb evs))) \<le> 1"
proof (rule ccontr)
  let ?db = "run_machine (hist_step cfg) empty_hdb evs"
  let ?fs = "filter (\<lambda>t. t_conv t = cid \<and> in_flight t) (turns ?db)"
  assume "\<not> length ?fs \<le> 1"
  then obtain t u rest where fs: "?fs = t # u # rest" by (cases ?fs; cases "tl ?fs") auto
  have inv: "hist_inv ?db" using history_run by blast
  have "distinct (map (\<lambda>t. (t_conv t, t_id t)) ?fs)"
    using hist_inv_schema [OF inv] by (simp add: schema_ok_def distinct_map_filter_sub)
  then have "t \<noteq> u" unfolding fs by auto
  moreover have "t \<in> set ?fs" "u \<in> set ?fs" unfolding fs by simp_all
  then have "t = u" using one_in_flight [OF inv, of t u] by auto
  ultimately show False by blast
qed

text \<open>
  Claim C2: After any sequence of calls, every quota holds: no conversation exceeds its
  message or byte quota, the payload bytes of the workspace stay within the history quota,
  and, when those limits are enabled, neither the number of conversations that hold messages
  nor the number of turns not yet committed exceeds its limit.
\<close>

theorem quotas_never_exceeded: "quota_inv cfg (run_machine (hist_step cfg) empty_hdb evs)"
  using history_run by blast

section \<open>Reserving\<close>

lemma linked_nth:
  "linked T prev us \<Longrightarrow> i < length us \<Longrightarrow>
     \<exists>t \<in> T. t_id t = us ! i \<and> t_status t = Complete \<and> t_parent t = (if i = 0 then prev else Some (us ! (i - 1)))"
proof (induction us arbitrary: prev i)
  case Nil
  then show ?case by simp
next
  case (Cons x xs)
  show ?case
  proof (cases i)
    case 0
    with Cons.prems show ?thesis by auto
  next
    case (Suc j)
    with Cons.prems obtain t where "t \<in> T" "t_id t = xs ! j" "t_status t = Complete"
      "t_parent t = (if j = 0 then Some x else Some (xs ! (j - 1)))"
      using Cons.IH [of "Some x" j] by auto
    with Suc show ?thesis by (cases j) auto
  qed
qed

lemma transcript_distinct:
  "in_pairs ms \<Longrightarrow> distinct (map (\<lambda>m. (m_turn m, m_role m)) ms) \<Longrightarrow> distinct (transcript ms)"
proof (induction ms rule: in_pairs.induct)
  case (3 u a ms)
  then have "distinct (transcript ms)" by simp
  moreover have "m_turn u \<notin> set (transcript ms)"
  proof
    assume "m_turn u \<in> set (transcript ms)"
    then obtain m where "m \<in> set ms" "m_turn m = m_turn u" "m_role m = UserRole"
      using 3 transcript_roles [of ms "m_turn u"] by auto
    then have "(m_turn u, UserRole) \<in> (\<lambda>m. (m_turn m, m_role m)) ` set ms"
      by (intro rev_image_eqI [of m]) simp_all
    with 3 show False by simp
  qed
  ultimately show ?case by simp
qed auto

lemma conv_transcript_distinct:
  assumes "hist_inv db" "c \<in> set (convs db)"
  shows "distinct (transcript (conv_msgs db (c_id c)))"
proof (rule transcript_distinct)
  show "in_pairs (conv_msgs db (c_id c))"
    using hist_invD [OF assms] by (simp add: conv_inv_def)
  have "distinct (map (\<lambda>m. (m_conv m, m_turn m, m_role m)) (conv_msgs db (c_id c)))"
    using hist_inv_schema [OF assms(1)] by (simp add: schema_ok_def conv_msgs_def distinct_map_filter_sub)
  moreover have "map (\<lambda>m. (m_conv m, m_turn m, m_role m)) (conv_msgs db (c_id c))
      = map (Pair (c_id c)) (map (\<lambda>m. (m_turn m, m_role m)) (conv_msgs db (c_id c)))"
    by (simp add: conv_msgs_def)
  ultimately have "distinct (map (Pair (c_id c)) (map (\<lambda>m. (m_turn m, m_role m)) (conv_msgs db (c_id c))))"
    by simp
  then show "distinct (map (\<lambda>m. (m_turn m, m_role m)) (conv_msgs db (c_id c)))"
    by (metis distinct_map)
qed

text \<open>A completed turn sits in the transcript right after its parent.\<close>

lemma complete_row_nth:
  assumes inv: "hist_inv db" and c: "c \<in> set (convs db)"
    and t: "t \<in> set (turns db)" "t_conv t = c_id c" "t_status t = Complete"
  obtains i where "i < length (transcript (conv_msgs db (c_id c)))"
    "t_parent t = (if i = 0 then None else Some (transcript (conv_msgs db (c_id c)) ! (i - 1)))"
proof -
  let ?us = "transcript (conv_msgs db (c_id c))" and ?T = "set (conv_turns db (c_id c))"
  have ci: "conv_inv c (conv_turns db (c_id c)) (conv_msgs db (c_id c))" using inv c by (rule hist_invD)
  have tT: "t \<in> ?T" using t by (simp add: conv_turns_mem)
  with ci t(3) have "t_id t \<in> set ?us" by (simp add: conv_inv_def turn_ok_def)
  then obtain i where i: "i < length ?us" "?us ! i = t_id t" by (auto simp: in_set_conv_nth)
  from ci have "linked ?T None ?us" by (simp add: conv_inv_def)
  from linked_nth [OF this i(1)] obtain r where r: "r \<in> ?T" "t_id r = t_id t"
    "t_parent r = (if i = 0 then None else Some (?us ! (i - 1)))" by (auto simp: i(2))
  have "r = t" using r tT hist_inv_schema [OF inv] by (auto simp: conv_turns_mem intro: same_turn)
  with r(3) i(1) show thesis by (intro that) auto
qed

lemma transcript_nonempty_ids:
  assumes "hist_inv db" "c \<in> set (convs db)"
  shows "'''' \<notin> set (transcript (conv_msgs db (c_id c)))"
proof
  let ?us = "transcript (conv_msgs db (c_id c))"
  assume e: "'''' \<in> set ?us"
  have ci: "conv_inv c (conv_turns db (c_id c)) (conv_msgs db (c_id c))" using assms by (rule hist_invD)
  then have "linked (set (conv_turns db (c_id c))) None ?us" by (simp add: conv_inv_def)
  from linked_mem [OF this e] ci show False by (auto simp: conv_inv_def turn_ok_def)
qed

text \<open>No completed turn continues the last one, and no parent is the empty text.\<close>

lemma complete_parent_not_last:
  assumes inv: "hist_inv db" and c: "c \<in> set (convs db)"
    and t: "t \<in> set (turns db)" "t_conv t = c_id c" "t_status t = Complete"
  shows "t_parent t \<noteq> c_last_turn_id c"
proof
  assume eq: "t_parent t = c_last_turn_id c"
  let ?us = "transcript (conv_msgs db (c_id c))"
  obtain i where i: "i < length ?us" "t_parent t = (if i = 0 then None else Some (?us ! (i - 1)))"
    using complete_row_nth [OF inv c t] .
  have "c_last_turn_id c = last_of ?us" using hist_invD [OF inv c] by (simp add: conv_inv_def)
  with eq i have "i \<noteq> 0" "?us ! (i - 1) = ?us ! (length ?us - 1)"
    by (auto simp: last_of_def last_conv_nth split: if_splits)
  with i conv_transcript_distinct [OF inv c] show False
    by (simp add: nth_eq_iff_index_eq)
qed

lemma parent_nonempty:
  assumes "hist_inv db" "c \<in> set (convs db)"
  shows "c_last_turn_id c \<noteq> Some ''''"
proof -
  let ?us = "transcript (conv_msgs db (c_id c))"
  have "c_last_turn_id c = last_of ?us" using hist_invD [OF assms] by (simp add: conv_inv_def)
  moreover have "last ?us \<noteq> ''''" if "?us \<noteq> []"
    using transcript_nonempty_ids [OF assms] last_in_set [OF that] by metis
  ultimately show ?thesis by (auto simp: last_of_def)
qed

lemma complete_parent_nonempty:
  assumes "hist_inv db" "c \<in> set (convs db)" "t \<in> set (turns db)" "t_conv t = c_id c" "t_status t = Complete"
  shows "t_parent t \<noteq> Some ''''"
proof -
  let ?us = "transcript (conv_msgs db (c_id c))"
  obtain i where i: "i < length ?us" "t_parent t = (if i = 0 then None else Some (?us ! (i - 1)))"
    using complete_row_nth [OF assms] .
  then have "?us ! (i - 1) \<in> set ?us" by (intro nth_mem) simp
  then have "?us ! (i - 1) \<noteq> ''''" using transcript_nonempty_ids [OF assms(1,2)] by metis
  with i(2) show ?thesis by simp
qed

lemma linear_index_snoc:
  "indexed t \<Longrightarrow> linear_index_ok (ts @ [t]) \<longleftrightarrow> linear_index_ok ts \<and> (\<forall>u \<in> set ts. indexed u \<longrightarrow> slot u \<noteq> slot t)"
  by (auto simp: linear_index_ok_def image_iff)

text \<open>The unique index rejects a well-formed reservation exactly when a turn is in flight.\<close>

lemma insert_turn_decides:
  assumes inv: "hist_inv db" and c: "find_conv db cid = Some c"
    and t: "t_conv t = cid" "t_status t = Generating" "t_parent t = c_last_turn_id c"
    and fresh: "find_turn db cid (t_id t) = None"
  shows "insert_turn t db = (if has_active_turn db cid then Inl IntegrityError else Inr ((), db\<lparr>turns := turns db @ [t]\<rparr>))"
proof -
  from find_conv_Some [OF c] have cc: "c \<in> set (convs db)" "c_id c = cid" by auto
  have sch: "schema_ok db" using inv by (rule hist_inv_schema)
  have key: "\<not> (\<exists>u \<in> set (turns db). t_conv u = t_conv t \<and> t_id u = t_id t)"
    using fresh t(1) by (auto simp: find_turn_def find_None_iff)
  have ix: "indexed t" using t(2) by (simp add: indexed_def)
  have "(\<exists>u \<in> set (turns db). indexed u \<and> slot u = slot t) \<longleftrightarrow> has_active_turn db cid"
  proof
    assume "\<exists>u \<in> set (turns db). indexed u \<and> slot u = slot t"
    then obtain u where u: "u \<in> set (turns db)" "indexed u" "slot u = slot t" by blast
    from u(3) t have uc: "t_conv u = c_id c" using cc by (simp add: slot_def)
    have ci: "conv_inv c (conv_turns db (c_id c)) (conv_msgs db (c_id c))" using inv cc(1) by (rule hist_invD)
    show "has_active_turn db cid"
    proof (cases "t_status u = Complete")
      case False
      with u uc cc show ?thesis by (cases "t_status u") (auto simp: has_active_turn_def in_flight_def indexed_def)
    next
      case True
      note up = complete_parent_nonempty [OF inv cc(1) u(1) uc True]
      have "t_parent u = t_parent t"
        using u(3) up parent_nonempty [OF inv cc(1)] t(3) by (auto simp: slot_def split: option.splits)
      with complete_parent_not_last [OF inv cc(1) u(1) uc True] t(3) show ?thesis by simp
    qed
  next
    assume "has_active_turn db cid"
    then obtain u where u: "u \<in> set (turns db)" "t_conv u = cid" "in_flight u" by (auto simp: has_active_turn_def)
    have "conv_inv c (conv_turns db (c_id c)) (conv_msgs db (c_id c))" using inv cc(1) by (rule hist_invD)
    with u cc t have "t_parent u = t_parent t" by (auto simp: conv_inv_def turn_ok_def conv_turns_mem)
    then have "slot u = slot t" using u(2) t(1) by (simp add: slot_def)
    with u in_flight_indexed show "\<exists>u \<in> set (turns db). indexed u \<and> slot u = slot t" by blast
  qed
  moreover have "t_conv t \<in> c_id ` set (convs db)"
    by (rule image_eqI [of _ _ c]) (use t(1) cc in simp_all)
  moreover have "linear_index_ok (turns db)" using sch by (simp add: schema_ok_def)
  ultimately show ?thesis
    using key by (auto simp: insert_turn_def linear_index_snoc [OF ix])
qed

section \<open>A concrete run\<close>

text \<open>
  One conversation, used by the instances below: a turn is reserved (\<open>demo_db1\<close>), and then
  committed (\<open>demo_db2\<close>).
\<close>

definition demo_cfg :: hist_config where
  "demo_cfg = \<lparr>hc_max_conversations = 10, hc_max_pending_turns = 5, hc_max_messages = 100,
     hc_max_conversation_bytes = 10000, hc_max_message_chars = 1000, hc_max_sources_bytes = 1000,
     hc_max_metadata_bytes = 1000, hc_max_history_bytes = 100000, hc_retention_days = 30,
     hc_lease_seconds = 600, hc_incomplete_days = 7, hc_float_repr = (\<lambda>x. ''0.0''), hc_bracket_ok = (\<lambda>s. True)\<rparr>"

definition demo_begin :: "string \<Rightarrow> string option \<Rightarrow> begin_request" where
  "demo_begin tid parent = \<lparr>b_client_id = ''c'', b_scope_key = ''s'', b_scope_kind = ''kb'', b_turn_id = tid,
     b_parent = parent, b_fingerprint = ''f'', b_kbs = [''kb1''], b_agent_id = '''', b_agent_name = '''',
     b_provider_id = '''', b_model_id = '''', b_prompt_ref = JNull, b_language = ''auto''\<rparr>"

definition demo_draws :: "real \<Rightarrow> string \<Rightarrow> draws" where
  "demo_draws now l = \<lparr>d_now = now, d_conv_id = ''h1'', d_lease = l, d_retry_lease = l @ ''r''\<rparr>"

definition demo_complete :: "string \<Rightarrow> string \<Rightarrow> complete_request" where
  "demo_complete tid l = \<lparr>q_scope_key = ''s'', q_turn_id = tid, q_lease = l, q_fingerprint = ''f'',
     q_user = ''hi'', q_assistant = ''yo'', q_message_type = ''text'', q_kbs = [''kb1''], q_agent_id = '''',
     q_agent_name = '''', q_provider_id = '''', q_model_id = '''', q_prompt_ref = JNull, q_language = ''auto'',
     q_sources = JNull, q_metadata = JNull\<rparr>"

definition demo_conv :: conv_row where
  "demo_conv = \<lparr>c_id = ''h1'', c_client_id = ''c'', c_scope_key = ''s'', c_scope_kind = ''kb'', c_title = [],
     c_status = Active, c_agent_id = [], c_agent_name = [], c_provider_id = [], c_model_id = [],
     c_prompt_ref = JObj [], c_response_language = ''auto'', c_summary = [], c_summary_version = 0,
     c_summary_through = 0, c_message_count = 0, c_payload_bytes = 0, c_last_turn_id = None,
     c_created_at = 100, c_updated_at = 100, c_archived_at = None\<rparr>"

definition demo_turn :: turn_row where
  "demo_turn = \<lparr>t_conv = ''h1'', t_id = ''t1'', t_parent = None, t_fingerprint = ''f'', t_status = Generating,
     t_digest = None, t_lease = Some ''L1'', t_lease_expires = Some 700, t_created = 100, t_updated = 100\<rparr>"

definition demo_kb :: ckb_row where
  "demo_kb = \<lparr>k_conv = ''h1'', k_kb = ''kb1'', k_selected = False, k_first_used = 100, k_last_used = 100\<rparr>"

definition demo_db1 :: hdb where
  "demo_db1 = \<lparr>convs = [demo_conv], ckbs = [demo_kb], turns = [demo_turn], msgs = [], outbox = []\<rparr>"

definition demo_user :: msg_row where
  "demo_user = \<lparr>m_conv = ''h1'', m_turn = ''t1'', m_role = UserRole, m_type = ''text'', m_content = ''hi'',
     m_sequence = 1, m_sources = Some (JArr []), m_metadata = Some (JObj []), m_bytes = 2, m_created = 200\<rparr>"

definition demo_assistant :: msg_row where
  "demo_assistant = \<lparr>m_conv = ''h1'', m_turn = ''t1'', m_role = AssistantRole, m_type = ''text'', m_content = ''yo'',
     m_sequence = 2, m_sources = Some (JArr []), m_metadata = Some (JObj []), m_bytes = 6, m_created = 200\<rparr>"

definition demo_db2 :: hdb where
  "demo_db2 = \<lparr>convs = [demo_conv\<lparr>c_title := ''hi'', c_message_count := 2, c_payload_bytes := 8,
       c_last_turn_id := Some ''t1'', c_updated_at := 200\<rparr>],
     ckbs = [demo_kb\<lparr>k_selected := True, k_last_used := 200\<rparr>],
     turns = [demo_turn\<lparr>t_status := Complete, t_lease := None, t_lease_expires := None, t_updated := 200\<rparr>],
     msgs = [demo_user, demo_assistant], outbox = []\<rparr>"

lemmas demo_defs = demo_cfg_def demo_begin_def demo_draws_def demo_complete_def demo_conv_def demo_turn_def
  demo_kb_def demo_db1_def demo_user_def demo_assistant_def demo_db2_def

lemmas hist_eval = run_tx_def Let_def begin_turn_def begin_checks_def begin_turn_body_def cleanup_expired_locked_def
  expire_leases_def lease_expired_def delete_convs_def delete_turns_def stale_conversation_def stale_turn_def
  stale_stub_def has_active_turn_def in_flight_def enforce_quota_for_new_scope_def find_scope_def find_conv_def
  find_turn_def count_completed_convs_def get_or_create_conversation_def insert_conv_def empty_hdb_def
  associate_reservation_kbs_def py_dedup_def insert_or_ignore_ckb_def insert_ckb_def reserve_turn_def
  handle_existing_turn_def take_lease_def update_turn_def assert_linear_parent_def enforce_pending_quota_def
  insert_turn_def linear_index_ok_def indexed_def slot_def j_or_def guardE_def get_turn_for_update_def
  complete_turn_def complete_checks_def validate_message_content_def validate_json_field_def json_bytes_def
  complete_turn_body_def enforce_quota_on_first_commit_def enforce_message_quota_def
  enforce_conversation_bytes_def enforce_history_bytes_def turn_bytes_def utf8_bytes_def utf8_len_def
  commit_turn_def next_sequence_def conv_msgs_def conv_turns_def insert_msg_def upsert_knowledge_bases_def upsert_one_def
  deselect_kb_def update_ckb_def update_conv_def messages_for_turn_def message_row_def derive_title_def py_isspace_def
  fail_turn_def fail_turn_body_def mark_turn_ready_def mark_turn_ready_body_def recover_ready_turn_def
  recover_ready_body_def upd_where_def

lemma demo_run1: "run_machine (hist_step demo_cfg) empty_hdb [EvBegin (demo_begin ''t1'' None) (demo_draws 100 ''L1'')] = demo_db1"
  by (simp add: hist_eval demo_defs)

lemma demo_commit: "complete_turn demo_cfg 200 (demo_complete ''t1'' ''L1'') demo_db1
    = (Inr (CDone 1 2 2 8 ''hi'' [demo_user, demo_assistant]), demo_db2)"
  by code_simp

lemma demo_inv1: "hist_inv demo_db1"
  using history_run [of demo_cfg "[EvBegin (demo_begin ''t1'' None) (demo_draws 100 ''L1'')]"] by (simp only: demo_run1)

lemma demo_inv2: "hist_inv demo_db2"
  using complete_turn_inv [OF demo_inv1, of demo_cfg 200 "demo_complete ''t1'' ''L1''"] by (simp add: demo_commit)

section \<open>What the calls decide\<close>

text \<open>
  In a database that the store can reach, the reservation of a new turn id is
  decided exactly as documented: it fails with the expected parent when the request does not
  continue the last completed turn, with the pending quota when that is exhausted, with
  \<open>TurnInProgressError\<close> exactly when another turn of the conversation is in flight (the
  unique index rejects nothing else), and otherwise it appends one generating row that holds
  the new lease.
\<close>

theorem reservation_decides:
  assumes inv: "hist_inv db" and c: "find_conv db cid = Some c" and fresh: "find_turn db cid (b_turn_id req) = None"
  shows "reserve_turn cfg req dr cid db =
    (if b_parent req \<noteq> c_last_turn_id c then Inl (ContinuityBroken (c_last_turn_id c))
     else if 0 < hc_max_pending_turns cfg \<and> hc_max_pending_turns cfg \<le> int (pending_count db)
     then Inl (QuotaExceeded ''pending turn quota exceeded'')
     else if has_active_turn db cid then Inl TurnInProgress
     else Inr (BNew (d_lease dr) (d_now dr + real_of_int (hc_lease_seconds cfg)),
            db\<lparr>turns := turns db @ [\<lparr>t_conv = cid, t_id = b_turn_id req, t_parent = b_parent req,
               t_fingerprint = b_fingerprint req, t_status = Generating, t_digest = None,
               t_lease = Some (d_lease dr), t_lease_expires = Some (d_now dr + real_of_int (hc_lease_seconds cfg)),
               t_created = d_now dr, t_updated = d_now dr\<rparr>]\<rparr>))"
proof -
  let ?row = "\<lparr>t_conv = cid, t_id = b_turn_id req, t_parent = b_parent req,
     t_fingerprint = b_fingerprint req, t_status = Generating, t_digest = None,
     t_lease = Some (d_lease dr), t_lease_expires = Some (d_now dr + real_of_int (hc_lease_seconds cfg)),
     t_created = d_now dr, t_updated = d_now dr\<rparr>"
  have lin: "assert_linear_parent db cid (b_parent req) =
      (if b_parent req = c_last_turn_id c then Inr () else Inl (ContinuityBroken (c_last_turn_id c)))"
    by (auto simp: assert_linear_parent_def Let_def c guardE_def split: option.splits)
  show ?thesis
  proof (cases "b_parent req = c_last_turn_id c")
    case False
    then show ?thesis by (simp add: reserve_turn_def Let_def lin)
  next
    case True
    have "insert_turn ?row db = (if has_active_turn db cid then Inl IntegrityError else Inr ((), db\<lparr>turns := turns db @ [?row]\<rparr>))"
      by (rule insert_turn_decides [OF inv c]) (simp_all add: True fresh)
    moreover have "assert_linear_parent db cid (b_parent req) = Inr ()" using lin True by simp
    ultimately show ?thesis
      using True by (auto simp: reserve_turn_def Let_def enforce_pending_quota_def guardE_def pending_count_def)
  qed
qed

theorem reservation_decides_witness:
  "reserve_turn demo_cfg (demo_begin ''t2'' None) (demo_draws 150 ''L2'') ''h1'' demo_db1 = Inl TurnInProgress"
  using reservation_decides [OF demo_inv1, of "''h1''" demo_conv "demo_begin ''t2'' None" demo_cfg "demo_draws 150 ''L2''"]
  by (simp add: hist_eval demo_defs pending_count_def)

end
