(* ===== verification/History_Guarantees.thy ===== *)
theory History_Guarantees
  imports History_Claims
begin

text \<open>
  Further properties of the conversation history store: the fencing of lost leases, the
  commit and its replay, the summary, the retention sweep, the pages of a transcript and
  the artifacts a deletion may remove.
\<close>

section \<open>Leases\<close>

lemma find_scope_turns [simp]: "find_scope (db\<lparr>turns := ts\<rparr>) key = find_scope db key"
  by (simp add: find_scope_def)

lemma find_conv_turns [simp]: "find_conv (db\<lparr>turns := ts\<rparr>) cid = find_conv db cid"
  by (simp add: find_conv_def)

lemma find_turn_upd:
  assumes "find_turn db cid tid = Some r" "t_conv (f r) = cid" "t_id (f r) = tid"
  shows "find_turn (db\<lparr>turns := upd_where (\<lambda>t. t_conv t = cid \<and> t_id t = tid) f (turns db)\<rparr>) cid tid = Some (f r)"
proof -
  have "find P xs = Some r \<Longrightarrow> P (f r) \<Longrightarrow> find P (upd_where P f xs) = Some (f r)" for P and xs :: "turn_row list"
    by (induction xs) (auto split: if_splits)
  from this [of "\<lambda>t. t_conv t = cid \<and> t_id t = tid" "turns db"] assms show ?thesis
    by (simp add: find_turn_def)
qed

lemma get_turn_update:
  assumes r: "get_turn_for_update db key tid = Some r" and upd: "update_turn (t_conv r) tid f db = Inr (u, db')"
    and keep: "t_conv (f r) = t_conv r" "t_id (f r) = t_id r"
  shows "get_turn_for_update db' key tid = Some (f r)"
proof -
  from r obtain c where c: "find_scope db key = Some c" "find_turn db (c_id c) tid = Some r"
    by (auto simp: get_turn_for_update_def split: option.splits)
  then have id: "t_conv r = c_id c" "t_id r = tid" by (auto dest: find_turn_Some)
  have "db' = db\<lparr>turns := upd_where (\<lambda>t. t_conv t = c_id c \<and> t_id t = tid) f (turns db)\<rparr>"
    using upd id by (auto simp: update_turn_def Let_def split: if_splits)
  with c id keep find_turn_upd [OF c(2), of f] show ?thesis
    by (simp add: get_turn_for_update_def)
qed

text \<open>A caller whose token is not the one in the row changes nothing.\<close>

lemma wrong_lease_is_inert:
  assumes "get_turn_for_update db key tid = Some r" and "t_lease r \<noteq> Some old"
  shows "mark_turn_ready now key tid old digest db = (Inr False, db)"
    and "renew_turn_lease cfg now key tid old db = (Inr False, db)"
    and "fail_turn now key tid old db = (Inr False, db)"
    and "q_scope_key q = key \<Longrightarrow> q_turn_id q = tid \<Longrightarrow> q_lease q = old \<Longrightarrow> snd (complete_turn cfg now q db) = db"
proof -
  show "mark_turn_ready now key tid old digest db = (Inr False, db)"
    using assms by (simp add: mark_turn_ready_def mark_turn_ready_body_def run_tx_def)
  show "renew_turn_lease cfg now key tid old db = (Inr False, db)"
    using assms by (simp add: renew_turn_lease_def renew_turn_lease_body_def run_tx_def)
  show "fail_turn now key tid old db = (Inr False, db)"
    using assms by (simp add: fail_turn_def fail_turn_body_def run_tx_def)
  assume "q_scope_key q = key" "q_turn_id q = tid" "q_lease q = old"
  then show "snd (complete_turn cfg now q db) = db"
    using assms by (auto simp: complete_turn_def complete_turn_body_def run_tx_def bindE_eq_Inr split: sum.splits prod.splits if_splits)
qed

text \<open>
  Claim C29: Once a recovery has taken a ready turn over, the previous owner is fenced off:
  with any token other than the new one, staging, renewing, failing and completing that turn
  all leave the database exactly as it is, and the first three report failure.
\<close>

theorem takeover_fences_previous_owner:
  assumes "recover_ready_turn cfg dr key tid fp ex db = (Inr (RNew tok expires conv), db')" and "old \<noteq> tok"
  shows "mark_turn_ready now key tid old digest db' = (Inr False, db')
    \<and> renew_turn_lease cfg now key tid old db' = (Inr False, db')
    \<and> fail_turn now key tid old db' = (Inr False, db')
    \<and> snd (complete_turn cfg now (q\<lparr>q_scope_key := key, q_turn_id := tid, q_lease := old\<rparr>) db') = db'"
proof -
  from assms(1) obtain r u where r: "get_turn_for_update db key tid = Some r"
    and tok: "tok = d_lease dr"
    and upd: "update_turn (t_conv r) tid (\<lambda>t. (take_lease (d_lease dr) (d_now dr + real_of_int (hc_lease_seconds cfg)) (d_now dr) t)
         \<lparr>t_digest := None\<rparr>) db = Inr (u, db')"
    by (auto simp: recover_ready_turn_def recover_ready_body_def Let_def bindE_eq_Inr
        dest!: run_tx_commit split: option.splits if_splits)
  from get_turn_update [OF r upd] obtain s where s: "get_turn_for_update db' key tid = Some s" "t_lease s = Some tok"
    by (simp add: take_lease_def tok)
  with assms(2) have "t_lease s \<noteq> Some old" by simp
  from wrong_lease_is_inert [OF s(1) this] show ?thesis by simp
qed

definition demo_ready :: hdb where
  "demo_ready = snd (mark_turn_ready 150 ''s'' ''t1'' ''L1'' ''d'' demo_db1)"

theorem takeover_fences_previous_owner_witness:
  "fail_turn 300 ''s'' ''t1'' ''L1'' (snd (recover_ready_turn demo_cfg (demo_draws 200 ''L2'') ''s'' ''t1'' ''f'' (Some ''L1'') demo_ready))
    = (Inr False, snd (recover_ready_turn demo_cfg (demo_draws 200 ''L2'') ''s'' ''t1'' ''f'' (Some ''L1'') demo_ready))"
proof -
  let ?out = "recover_ready_turn demo_cfg (demo_draws 200 ''L2'') ''s'' ''t1'' ''f'' (Some ''L1'') demo_ready"
  have "fst ?out = Inr (RNew ''L2'' 800 (Some demo_conv))"
    by (simp add: demo_ready_def hist_eval demo_defs)
  then have "?out = (Inr (RNew ''L2'' 800 (Some demo_conv)), snd ?out)" by (metis prod.collapse)
  from takeover_fences_previous_owner [OF this, of "''L1''" 300] show ?thesis by simp
qed

section \<open>Committing\<close>

lemma for_each_ok:
  "(\<And>x d. x \<in> set xs \<Longrightarrow> P d \<Longrightarrow> \<exists>d'. f x d = Inr ((), d') \<and> P d') \<Longrightarrow> P d \<Longrightarrow> \<exists>d'. for_each f xs d = Inr ((), d') \<and> P d'"
proof (induction xs arbitrary: d)
  case Nil
  then show ?case by simp
next
  case (Cons x xs)
  from Cons.prems(1) [of x d] Cons.prems(2) obtain d1 where "f x d = Inr ((), d1)" "P d1" by auto
  with Cons show ?case by auto
qed

definition kb_ids :: "hdb \<Rightarrow> string \<Rightarrow> string set" where
  "kb_ids db cid = set (map k_kb (filter (\<lambda>k. k_conv k = cid) (ckbs db)))"

lemma upsert_one_ok:
  assumes "cid \<in> c_id ` set (convs d)" and "set ex \<subseteq> kb_ids d cid" and "kb \<notin> set ex \<Longrightarrow> kb \<notin> kb_ids d cid"
  shows "\<exists>d'. upsert_one cid ex now kb d = Inr ((), d') \<and> convs d' = convs d
    \<and> kb_ids d' cid \<subseteq> insert kb (kb_ids d cid) \<and> kb_ids d cid \<subseteq> kb_ids d' cid"
proof (cases "kb = '''' \<or> kb \<in> set ex")
  case True
  have "kb_ids (update_ckb cid kb f d) cid = kb_ids d cid" if "\<And>k. k_kb (f k) = k_kb k" "\<And>k. k_conv (f k) = k_conv k" for f
    using that by (simp add: kb_ids_def update_ckb_def filter_upd_where map_upd_where del: set_map list.set_map)
  with True show ?thesis by (auto simp: upsert_one_def)
next
  case False
  with assms(3) have "kb \<notin> kb_ids d cid" by blast
  with False assms(1) show ?thesis
    by (auto simp: upsert_one_def insert_ckb_def kb_ids_def image_iff)
qed

lemma upsert_loop_ok:
  assumes "distinct (filter (\<lambda>kb. kb \<noteq> '''') ids)" and "cid \<in> c_id ` set (convs d)" and "set ex \<subseteq> kb_ids d cid"
    and "\<And>kb. kb \<in> set ids \<Longrightarrow> kb \<noteq> '''' \<Longrightarrow> kb \<notin> set ex \<Longrightarrow> kb \<notin> kb_ids d cid"
  shows "\<exists>d'. for_each (upsert_one cid ex now) ids d = Inr ((), d')"
  using assms
proof (induction ids arbitrary: d)
  case Nil
  then show ?case by simp
next
  case (Cons kb ids)
  show ?case
  proof (cases "kb = ''''")
    case True
    then show ?thesis using Cons by (simp add: upsert_one_def)
  next
    case False
    with Cons.prems upsert_one_ok [of cid d ex kb now]
    obtain d1 where d1: "upsert_one cid ex now kb d = Inr ((), d1)" "convs d1 = convs d"
      "kb_ids d1 cid \<subseteq> insert kb (kb_ids d cid)" "kb_ids d cid \<subseteq> kb_ids d1 cid" by auto
    have "\<exists>d'. for_each (upsert_one cid ex now) ids d1 = Inr ((), d')"
    proof (rule Cons.IH)
      show "distinct (filter (\<lambda>kb. kb \<noteq> '''') ids)" using Cons.prems(1) False by simp
      show "cid \<in> c_id ` set (convs d1)" using Cons.prems(2) d1(2) by simp
      show "set ex \<subseteq> kb_ids d1 cid" using Cons.prems(3) d1(4) by blast
      show "x \<notin> kb_ids d1 cid" if "x \<in> set ids" "x \<noteq> ''''" "x \<notin> set ex" for x
      proof -
        have "x \<noteq> kb" using Cons.prems(1) False that by auto
        moreover have "x \<notin> kb_ids d cid" using Cons.prems(4) that by simp
        ultimately show ?thesis using d1(3) by blast
      qed
    qed
    with d1(1) show ?thesis by simp
  qed
qed

lemma upsert_ok:
  assumes "distinct (filter (\<lambda>kb. kb \<noteq> '''') ids)" and "cid \<in> c_id ` set (convs db)"
  shows "\<exists>db'. upsert_knowledge_bases cid ids now db = Inr ((), db')"
proof -
  let ?ex = "map k_kb (filter (\<lambda>k. k_conv k = cid) (ckbs db))"
  have "set ?ex = kb_ids db cid" by (simp add: kb_ids_def)
  with upsert_loop_ok [OF assms, of ?ex now] show ?thesis
    by (auto simp: upsert_knowledge_bases_def Let_def)
qed

text \<open>The turn of a row in flight has no message yet.\<close>

lemma in_flight_no_message:
  assumes inv: "hist_inv db" and r: "r \<in> set (turns db)" "in_flight r"
    and m: "m \<in> set (msgs db)" "m_conv m = t_conv r"
  shows "m_turn m \<noteq> t_id r"
proof
  assume e: "m_turn m = t_id r"
  obtain c where c: "c \<in> set (convs db)" "c_id c = t_conv r"
    using turn_has_conv [OF hist_inv_schema [OF inv] r(1)] by blast
  let ?us = "transcript (conv_msgs db (c_id c))"
  have ci: "conv_inv c (conv_turns db (c_id c)) (conv_msgs db (c_id c))" using inv c(1) by (rule hist_invD)
  have "m_turn m \<in> set ?us"
    using ci m c by (intro in_pairs_mem) (simp_all add: conv_inv_def conv_msgs_def)
  with ci e obtain t where "t \<in> set (conv_turns db (c_id c))" "t_id t = t_id r" "t_status t = Complete"
    using linked_mem by (fastforce simp: conv_inv_def)
  moreover from this have "t = r"
    using r c hist_inv_schema [OF inv] by (auto simp: conv_turns_mem intro: same_turn)
  ultimately show False using r(2) by (simp add: in_flight_def)
qed

lemma sequence_bound:
  assumes inv: "hist_inv db" and c: "c \<in> set (convs db)" and m: "m \<in> set (msgs db)" "m_conv m = c_id c"
  shows "m_sequence m < next_sequence db (c_id c)"
proof -
  let ?ms = "conv_msgs db (c_id c)"
  have s: "map m_sequence ?ms = map int [1..<Suc (length ?ms)]"
    using hist_invD [OF inv c] by (simp add: conv_inv_def)
  have "m \<in> set ?ms" using m by (simp add: conv_msgs_def)
  then have "m_sequence m \<in> set (map m_sequence ?ms)" by simp
  then show ?thesis unfolding s next_sequence_eq [OF s] by auto
qed

lemma commit_turn_ok:
  assumes inv: "hist_inv db" and conv: "conv \<in> set (convs db)"
    and r: "r \<in> set (turns db)" "t_conv r = c_id conv" "t_id r = q_turn_id q" "in_flight r"
    and kbs: "distinct (filter (\<lambda>kb. kb \<noteq> '''') (q_kbs q))"
  shows "\<exists>out db5. commit_turn cfg now q sources metadata prompt conv db = Inr (out, db5)"
proof -
  let ?cid = "c_id conv" and ?seq = "next_sequence db (c_id conv)"
  let ?um = "user_msg now q ?cid ?seq" and ?am = "assistant_msg cfg now q sources metadata ?cid (?seq + 1)"
  let ?F = "committed_conv cfg now q sources metadata prompt conv"
  note sch = hist_inv_schema [OF inv]
  have fresh: "m_turn n \<noteq> q_turn_id q" "m_sequence n < ?seq" if "n \<in> set (msgs db)" "m_conv n = ?cid" for n
    using in_flight_no_message [OF inv r(1,4) that(1)] sequence_bound [OF inv conv that] that(2) r by auto
  have cm: "?cid \<in> c_id ` set (convs db)" using conv by simp
  let ?d1 = "db\<lparr>msgs := msgs db @ [?um]\<rparr>"
  let ?d2 = "?d1\<lparr>msgs := msgs ?d1 @ [?am]\<rparr>"
  have i1: "insert_msg ?um db = Inr ((), ?d1)"
    using fresh cm unfolding insert_msg_eq by (fastforce simp: user_msg_def)
  have i2: "insert_msg ?am ?d1 = Inr ((), ?d2)"
    using fresh cm unfolding insert_msg_eq by (fastforce simp: user_msg_def assistant_msg_def)
  have s2: "schema_ok ?d2" using insert_msg_schema [OF insert_msg_schema [OF sch i1] i2] .
  have "?cid \<in> c_id ` set (convs ?d2)" using cm by simp
  from upsert_ok [OF kbs this, of now] obtain d3 where d3: "upsert_knowledge_bases ?cid (q_kbs q) now ?d2 = Inr ((), d3)"
    by blast
  from upsert_frame [OF d3 s2] have core: "same_core ?d2 d3" and s3: "schema_ok d3" by simp_all
  have "slot (completed_turn now t) = slot t \<and> indexed (completed_turn now t) = indexed t"
    if "t \<in> set (turns d3)" "t_conv t = ?cid" "t_id t = q_turn_id q" for t
  proof -
    have "t = r" using that core r sch by (auto simp: same_core_def intro: same_turn)
    then show ?thesis using r(4) by (auto simp: completed_turn_def slot_def indexed_def in_flight_def)
  qed
  then obtain d4 where d4: "update_turn ?cid (q_turn_id q) (completed_turn now) d3 = Inr ((), d4)" "msgs d4 = msgs d3"
    using update_turn_same_index [OF s3, of ?cid "q_turn_id q" "completed_turn now"] by auto
  have "messages_for_turn (update_conv ?cid ?F d4) ?cid (q_turn_id q) = Inr [?um, ?am]"
    by (rule commit_messages [of db]) (use fresh core d4(2) in \<open>auto simp: update_conv_def same_core_def\<close>)
  with i1 i2 d3 d4(1) show ?thesis
    by (simp add: commit_turn_unfold Let_def)
qed

lemma commit_get_turn:
  assumes eff: "commit_effect cfg now q sources metadata prompt conv db db'"
    and r: "get_turn_for_update db (q_scope_key q) (q_turn_id q) = Some r" and id: "c_id conv = t_conv r"
  shows "get_turn_for_update db' (q_scope_key q) (q_turn_id q) = Some (completed_turn now r)"
proof -
  from r obtain k where k: "find_scope db (q_scope_key q) = Some k" "find_turn db (c_id k) (q_turn_id q) = Some r"
    by (auto simp: get_turn_for_update_def split: option.splits)
  have kc: "c_id k = c_id conv" "t_id r = q_turn_id q" using find_turn_Some [OF k(2)] id by auto
  have cs: "convs db' = upd_where (\<lambda>x. c_id x = c_id conv) (committed_conv cfg now q sources metadata prompt conv) (convs db)"
    and ts: "turns db' = upd_where (\<lambda>t. t_conv t = c_id conv \<and> t_id t = q_turn_id q) (completed_turn now) (turns db)"
    using eff by (simp_all add: commit_effect_def Let_def)
  have "find (\<lambda>x. c_scope_key x = y) (upd_where P f xs) = map_option (\<lambda>x. if P x then f x else x) (find (\<lambda>x. c_scope_key x = y) xs)"
    if "\<And>x. c_scope_key (f x) = c_scope_key x" for y P f and xs :: "conv_row list"
    using that by (induction xs) auto
  then have sc: "find_scope db' (q_scope_key q) = Some (committed_conv cfg now q sources metadata prompt conv k)"
    using k(1) kc(1) by (simp add: find_scope_def cs committed_conv_def)
  have "find_turn db' (c_id conv) (q_turn_id q) = Some (completed_turn now r)"
    using find_turn_upd [of db "c_id conv" "q_turn_id q" r "completed_turn now"] k(2) kc id
    by (simp add: find_turn_def ts completed_turn_def)
  then show ?thesis using sc kc by (simp add: get_turn_for_update_def committed_conv_def)
qed

text \<open>
  A worker that still holds the lease of its turn can commit: when the contents
  pass the size checks, the quotas admit the turn and the knowledge base ids have no
  duplicate, \<open>complete_turn\<close> succeeds; it appends exactly the user and the assistant message
  with the next two sequence numbers to that conversation and to no other, leaves every
  other turn alone, and marks the turn complete and releases its lease.
\<close>

theorem commit_succeeds_with_lease:
  assumes inv: "hist_inv db" and checks: "complete_checks cfg q = Inr (sources, metadata, prompt)"
    and r: "get_turn_for_update db (q_scope_key q) (q_turn_id q) = Some r"
    and lease: "t_lease r = Some (q_lease q)" and fp: "t_fingerprint r = q_fingerprint q"
    and c: "find_conv db (t_conv r) = Some c"
    and quotas: "enforce_quota_on_first_commit cfg db (t_conv r) (c_message_count c) = Inr ()"
      "enforce_message_quota cfg (c_message_count c) = Inr ()"
      "enforce_conversation_bytes cfg (c_payload_bytes c) (q_user q) (q_assistant q) sources metadata = Inr ()"
      "enforce_history_bytes cfg db (turn_bytes cfg (q_user q) (q_assistant q) sources metadata) = Inr ()"
    and kbs: "distinct (filter (\<lambda>kb. kb \<noteq> '''') (q_kbs q))"
  shows "\<exists>n bytes title new db'.
      n = c_message_count c \<and> new = [user_msg now q (t_conv r) (n + 1), assistant_msg cfg now q sources metadata (t_conv r) (n + 2)]
    \<and> complete_turn cfg now q db = (Inr (CDone (n + 1) (n + 2) (n + 2) bytes title new), db')
    \<and> conv_msgs db' (t_conv r) = conv_msgs db (t_conv r) @ new
    \<and> (\<forall>other. other \<noteq> t_conv r \<longrightarrow> conv_msgs db' other = conv_msgs db other \<and> conv_turns db' other = conv_turns db other)
    \<and> get_turn_for_update db' (q_scope_key q) (q_turn_id q) = Some (completed_turn now r)"
proof -
  from get_turn_Some [OF r] obtain k where rt: "r \<in> set (turns db)" "t_id r = q_turn_id q"
    and k: "find_scope db (q_scope_key q) = Some k" "t_conv r = c_id k" by auto
  from find_conv_Some [OF c] have cc: "c \<in> set (convs db)" "c_id c = t_conv r" by auto
  have fl: "in_flight r" using leased_in_flight [OF inv rt(1)] lease by simp
  then have nc: "t_status r \<noteq> Complete" by (auto simp: in_flight_def)
  note sch = hist_inv_schema [OF inv]
  obtain out db' where com: "commit_turn cfg now q sources metadata prompt c db = Inr (out, db')"
    using commit_turn_ok [OF inv cc(1) rt(1) cc(2) [symmetric] rt(2) fl kbs] by blast
  have run: "complete_turn cfg now q db = (Inr out, db')"
    using com r lease fp c quotas nc by (simp add: complete_turn_def checks complete_turn_body_def run_tx_def)
  note E = commit_turn_effect [OF sch com]
  have ci: "conv_inv c (conv_turns db (c_id c)) (conv_msgs db (c_id c))" using inv cc(1) by (rule hist_invD)
  then have seq: "next_sequence db (c_id c) = c_message_count c + 1"
    by (subst next_sequence_eq) (simp_all add: conv_inv_def)
  have ms: "msgs db' = msgs db @ [user_msg now q (c_id c) (c_message_count c + 1),
      assistant_msg cfg now q sources metadata (c_id c) (c_message_count c + 2)]"
    and ts: "turns db' = upd_where (\<lambda>t. t_conv t = c_id c \<and> t_id t = q_turn_id q) (completed_turn now) (turns db)"
    using E by (simp_all add: commit_effect_def Let_def seq add.commute)
  have gt: "get_turn_for_update db' (q_scope_key q) (q_turn_id q) = Some (completed_turn now r)"
    using E r cc(2) by (blast intro: commit_get_turn)
  have others: "conv_msgs db' x = conv_msgs db x \<and> conv_turns db' x = conv_turns db x" if "x \<noteq> t_conv r" for x
    using that cc(2) unfolding conv_turns_def ts
    by (auto simp: conv_msgs_def ms user_msg_def assistant_msg_def completed_turn_def intro!: filter_upd_other)
  have own: "conv_msgs db' (t_conv r) = conv_msgs db (t_conv r) @
      [user_msg now q (t_conv r) (c_message_count c + 1), assistant_msg cfg now q sources metadata (t_conv r) (c_message_count c + 2)]"
    using cc(2) by (simp add: conv_msgs_def ms user_msg_def assistant_msg_def)
  have "out = CDone (c_message_count c + 1) (c_message_count c + 2) (c_message_count c + 2)
      (c_payload_bytes c + turn_bytes cfg (q_user q) (q_assistant q) sources metadata) (derive_title (c_title c) (q_user q))
      [user_msg now q (t_conv r) (c_message_count c + 1), assistant_msg cfg now q sources metadata (t_conv r) (c_message_count c + 2)]"
    using E cc(2) seq by (simp add: add.commute)
  with run own others gt show ?thesis by blast
qed

theorem commit_succeeds_with_lease_witness:
  "conv_msgs (snd (complete_turn demo_cfg 200 (demo_complete ''t1'' ''L1'') demo_db1)) ''h1'' = [demo_user, demo_assistant]"
proof -
  have "complete_checks demo_cfg (demo_complete ''t1'' ''L1'') = Inr (JArr [], JObj [], JObj [])"
    by (simp add: hist_eval demo_defs)
  moreover have "get_turn_for_update demo_db1 (q_scope_key (demo_complete ''t1'' ''L1'')) (q_turn_id (demo_complete ''t1'' ''L1'')) = Some demo_turn"
    and "t_lease demo_turn = Some (q_lease (demo_complete ''t1'' ''L1''))"
    and "t_fingerprint demo_turn = q_fingerprint (demo_complete ''t1'' ''L1'')"
    and "find_conv demo_db1 (t_conv demo_turn) = Some demo_conv"
    and "enforce_quota_on_first_commit demo_cfg demo_db1 (t_conv demo_turn) (c_message_count demo_conv) = Inr ()"
    and "enforce_message_quota demo_cfg (c_message_count demo_conv) = Inr ()"
    and "enforce_conversation_bytes demo_cfg (c_payload_bytes demo_conv) (q_user (demo_complete ''t1'' ''L1''))
          (q_assistant (demo_complete ''t1'' ''L1'')) (JArr []) (JObj []) = Inr ()"
    and "enforce_history_bytes demo_cfg demo_db1 (turn_bytes demo_cfg (q_user (demo_complete ''t1'' ''L1''))
          (q_assistant (demo_complete ''t1'' ''L1'')) (JArr []) (JObj [])) = Inr ()"
    and "distinct (filter (\<lambda>kb. kb \<noteq> '''') (q_kbs (demo_complete ''t1'' ''L1'')))"
    by (simp_all add: hist_eval demo_defs)
  ultimately obtain new db' where "complete_turn demo_cfg 200 (demo_complete ''t1'' ''L1'') demo_db1 = (Inr new, db')"
    and "conv_msgs db' (t_conv demo_turn) = conv_msgs demo_db1 (t_conv demo_turn) @
      [user_msg 200 (demo_complete ''t1'' ''L1'') (t_conv demo_turn) (c_message_count demo_conv + 1),
       assistant_msg demo_cfg 200 (demo_complete ''t1'' ''L1'') (JArr []) (JObj []) (t_conv demo_turn) (c_message_count demo_conv + 2)]"
    using commit_succeeds_with_lease [OF demo_inv1] by blast
  then show ?thesis
    by (simp add: user_msg_def assistant_msg_def hist_eval demo_defs)
qed

end
