(* ===== verification/History_Reads.thy ===== *)
theory History_Reads
  imports History_Guarantees
begin

text \<open>
  Properties of the calls around the turn lifecycle: the replay of a commit, the summary,
  the retention sweep, the pages of a transcript, and the artifacts a deletion removes.
\<close>

section \<open>Replay\<close>

lemma commit_turn_messages:
  "commit_turn cfg now q sources metadata prompt conv db = Inr (out, db') \<Longrightarrow>
    \<exists>s1 s2 n b t ms. out = CDone s1 s2 n b t ms \<and> messages_for_turn db' (c_id conv) (q_turn_id q) = Inr ms"
  unfolding commit_turn_unfold Let_def by (elim bindE_pairE) (auto simp: bindE_eq_Inr)

text \<open>
  Claim C28: Completing a turn is idempotent: after a commit, every further
  \<open>complete_turn\<close> for the same turn whose contents pass the size checks, whatever its
  contents, lease token or fingerprint, returns the messages of the first commit as a replay
  and changes nothing.
\<close>

theorem complete_turn_is_idempotent:
  assumes inv: "hist_inv db" and first: "complete_turn cfg now q db = (Inr (CDone s1 s2 n b t ms), db')"
    and again: "q_scope_key q' = q_scope_key q" "q_turn_id q' = q_turn_id q" "complete_checks cfg' q' = Inr x"
  shows "complete_turn cfg' now' q' db' = (Inr (CReplayed ms), db')"
proof -
  from first obtain sources metadata prompt
    where body: "complete_turn_body cfg now q sources metadata prompt db = Inr (CDone s1 s2 n b t ms, db')"
    by (auto simp: complete_turn_def split: sum.splits prod.splits dest!: run_tx_commit)
  then show ?thesis
  proof (cases rule: complete_turn_body_cases)
    case (commit r conv)
    from find_conv_Some [OF commit(5)] have cid: "c_id conv = t_conv r" by simp
    have "get_turn_for_update db' (q_scope_key q) (q_turn_id q) = Some (completed_turn now r)"
      using commit_turn_effect [OF hist_inv_schema [OF inv] commit(10)] commit(1) cid by (blast intro: commit_get_turn)
    moreover have "messages_for_turn db' (t_conv r) (q_turn_id q) = Inr ms"
      using commit_turn_messages [OF commit(10)] cid by simp
    ultimately show ?thesis
      using again by (cases x) (simp add: complete_turn_def complete_turn_body_def run_tx_def completed_turn_def)
  qed simp
qed

theorem complete_turn_is_idempotent_witness:
  "complete_turn demo_cfg 900 ((demo_complete ''t1'' ''lost'')\<lparr>q_user := ''other''\<rparr>) demo_db2 = (Inr (CReplayed [demo_user, demo_assistant]), demo_db2)"
proof -
  have "complete_checks demo_cfg ((demo_complete ''t1'' ''lost'')\<lparr>q_user := ''other''\<rparr>) = Inr (JArr [], JObj [], JObj [])"
    by (simp add: hist_eval demo_defs)
  from complete_turn_is_idempotent [OF demo_inv1 demo_commit _ _ this] show ?thesis
    by (simp add: demo_complete_def)
qed

section \<open>The summary\<close>

lemma find_scope_update_conv:
  assumes "find_scope db key = Some c" and "\<And>d. c_scope_key (f d) = c_scope_key d"
  shows "find_scope (update_conv (c_id c) f db) key = Some (f c)"
proof -
  have "find (\<lambda>d. c_scope_key d = key) xs = Some c \<Longrightarrow>
      find (\<lambda>d. c_scope_key d = key) (upd_where (\<lambda>d. c_id d = c_id c) f xs) = Some (f c)" for xs
    using assms(2) by (induction xs) (auto split: if_splits)
  with assms(1) show ?thesis by (simp add: find_scope_def update_conv_def)
qed

text \<open>
  The summary is updated by compare and swap: a successful update found the
  expected version, installs its text under the next version and moves the covered sequence
  strictly forward, so that a second writer that still expects the old version is refused
  and changes nothing; the messages are not touched.
\<close>

theorem summary_compare_and_swap:
  assumes "update_summary now key summary v through db = (True, db')"
  shows "\<exists>c c'. find_scope db key = Some c \<and> find_scope db' key = Some c'
    \<and> c_summary_version c = v \<and> c_summary_version c' = v + 1 \<and> c_summary c' = summary
    \<and> c_summary_through c < c_summary_through c' \<and> c_summary_through c' = through
    \<and> msgs db' = msgs db
    \<and> update_summary later key other v further db' = (False, db')"
proof -
  from assms obtain c where c: "find_scope db key = Some c" "c_summary_version c = v" "c_summary_through c < through"
    and db': "db' = update_conv (c_id c) (\<lambda>d. d\<lparr>c_summary := summary, c_summary_version := v + 1,
                 c_summary_through := through, c_updated_at := now\<rparr>) db"
    by (auto simp: update_summary_def split: option.splits if_splits)
  have "find_scope db' key = Some (c\<lparr>c_summary := summary, c_summary_version := v + 1,
                 c_summary_through := through, c_updated_at := now\<rparr>)"
    unfolding db' by (rule find_scope_update_conv [OF c(1)]) simp
  with c show ?thesis by (simp add: update_summary_def db') (simp add: update_conv_def)
qed

theorem summary_compare_and_swap_witness:
  "update_summary 400 ''s'' ''late'' 0 2 (snd (update_summary 300 ''s'' ''sum'' 0 1 demo_db2))
    = (False, snd (update_summary 300 ''s'' ''sum'' 0 1 demo_db2))"
proof -
  have "fst (update_summary 300 ''s'' ''sum'' 0 1 demo_db2) = True"
    by (simp add: update_summary_def hist_eval demo_defs)
  then have "update_summary 300 ''s'' ''sum'' 0 1 demo_db2 = (True, snd (update_summary 300 ''s'' ''sum'' 0 1 demo_db2))"
    by (metis prod.collapse)
  from summary_compare_and_swap [OF this, of 400 "''late''" 2] show ?thesis by blast
qed

section \<open>Retention\<close>

lemma delete_convs_eq:
  "delete_convs cs db = db\<lparr>convs := filter (\<lambda>c. c_id c \<notin> c_id ` set cs) (convs db),
     ckbs := filter (\<lambda>k. k_conv k \<notin> c_id ` set cs) (ckbs db),
     turns := filter (\<lambda>t. t_conv t \<notin> c_id ` set cs) (turns db),
     msgs := filter (\<lambda>m. m_conv m \<notin> c_id ` set cs) (msgs db)\<rparr>"
  unfolding delete_convs_def
  by (induction cs arbitrary: db) (auto simp: delete_conv_def conj_commute intro!: hdb.equality filter_cong)

lemma delete_turns_eq:
  "delete_turns ts db = db\<lparr>turns := filter (\<lambda>t. \<forall>u \<in> set ts. \<not> (t_conv t = t_conv u \<and> t_id t = t_id u)) (turns db)\<rparr>"
  unfolding delete_turns_def
  by (induction ts arbitrary: db) (auto simp: delete_turn_def intro!: hdb.equality filter_cong)

text \<open>What protects a conversation from the sweep.\<close>

definition sweep_protects :: "hist_config \<Rightarrow> time \<Rightarrow> hdb \<Rightarrow> conv_row \<Rightarrow> bool" where
  "sweep_protects cfg now db c \<longleftrightarrow>
     (0 < c_message_count c \<and> (c_status c = Archived \<or> hc_retention_days cfg \<le> 0
        \<or> now - real_of_int (hc_retention_days cfg * 86400) \<le> c_updated_at c))
     \<or> (\<exists>t \<in> set (turns db). t_conv t = c_id c \<and> t_status t = Generating \<and> \<not> lease_expired now t)"

lemma expired_frame:
  "convs (expire_leases now db) = convs db" "msgs (expire_leases now db) = msgs db"
  "t_status t = Generating \<Longrightarrow> \<not> lease_expired now t \<Longrightarrow> t \<in> set (turns db) \<Longrightarrow> t \<in> set (turns (expire_leases now db))"
  by (auto simp: expire_leases_def set_upd_where)

lemma complete_upd_failed:
  "(\<And>t. P t \<Longrightarrow> t_status t \<noteq> Complete) \<Longrightarrow> (\<And>t. t_status (f t) = Failed) \<Longrightarrow>
    filter (\<lambda>t. t_conv t = x \<and> t_status t = Complete) (upd_where P f ts)
    = filter (\<lambda>t. t_conv t = x \<and> t_status t = Complete) ts"
  by (induction ts) auto

lemma filter_outside:
  assumes "x \<notin> g ` set cs"
  shows "filter (\<lambda>t. f t = x \<and> Q t) (filter (\<lambda>t. f t \<notin> g ` set cs) ts) = filter (\<lambda>t. f t = x \<and> Q t) ts"
  using assms by (induction ts) (auto simp del: filter_filter)

lemma sweep_shape:
  assumes inv: "hist_inv db" and c: "c \<in> set (convs db)" and prot: "sweep_protects cfg now db c"
  shows "c \<in> set (convs (snd (cleanup_expired_locked cfg now db)))
    \<and> conv_msgs (snd (cleanup_expired_locked cfg now db)) (c_id c) = conv_msgs db (c_id c)
    \<and> filter (\<lambda>t. t_conv t = c_id c \<and> t_status t = Complete) (turns (snd (cleanup_expired_locked cfg now db)))
      = filter (\<lambda>t. t_conv t = c_id c \<and> t_status t = Complete) (turns db)"
proof -
  let ?cut1 = "now - real_of_int (hc_retention_days cfg * 86400)"
  let ?cut2 = "now - real_of_int (hc_incomplete_days cfg * 86400)"
  define db1 where "db1 = expire_leases now db"
  define old where "old = (if 0 < hc_retention_days cfg then filter (stale_conversation ?cut1 db1) (convs db1) else [])"
  define db2 where "db2 = delete_convs old db1"
  define dead where "dead = (if 0 < hc_incomplete_days cfg then filter (stale_turn ?cut2 db2) (turns db2) else [])"
  define db3 where "db3 = delete_turns dead db2"
  define stubs where "stubs = (if 0 < hc_incomplete_days cfg then filter (stale_stub ?cut2 db3) (convs db3) else [])"
  have fin: "snd (cleanup_expired_locked cfg now db) = delete_convs stubs db3"
    by (simp add: cleanup_expired_locked_def Let_def db1_def old_def db2_def dead_def db3_def stubs_def)
  have i1: "hist_inv db1" unfolding db1_def using inv by (rule hist_inv_expire_leases)
  have i2: "hist_inv db2" unfolding db2_def using i1 by (rule hist_inv_delete_convs)
  have same: "d = c" if "d \<in> set (convs db)" "c_id d = c_id c" for d
    using that c hist_inv_schema [OF inv] by (auto intro: same_conv)
  have dead: "u = t" if "u \<in> set dead" "t \<in> set (turns db2)" "t_conv t = t_conv u" "t_id t = t_id u" for t u
    using that hist_inv_schema [OF i2] by (auto simp: dead_def intro!: same_turn [of db2] split: if_splits)
  have live: "has_active_turn db1 (c_id c)" "\<exists>t \<in> set (turns db1). t_conv t = c_id c \<and> t_status t = Generating"
    if "\<exists>t \<in> set (turns db). t_conv t = c_id c \<and> t_status t = Generating \<and> \<not> lease_expired now t"
    using that unfolding has_active_turn_def in_flight_def db1_def by (blast intro: expired_frame(3))+
  have "c \<notin> set old"
    using prot live(1) by (auto simp: old_def stale_conversation_def sweep_protects_def split: if_splits)
  then have k1: "c_id c \<notin> c_id ` set old"
    using same by (auto simp: old_def db1_def expired_frame split: if_splits)
  have c2: "c \<in> set (convs db2)" using c k1 by (simp add: db2_def delete_convs_eq db1_def expired_frame)
  have t2: "filter (\<lambda>t. t_conv t = c_id c \<and> Q t) (turns db2) = filter (\<lambda>t. t_conv t = c_id c \<and> Q t) (turns db1)" for Q
    using filter_outside [OF k1, of t_conv Q] by (simp add: db2_def delete_convs_eq)
  have gen3: "\<exists>t \<in> set (turns db3). t_conv t = c_id c"
    if "\<exists>t \<in> set (turns db). t_conv t = c_id c \<and> t_status t = Generating \<and> \<not> lease_expired now t"
  proof -
    from live(2) [OF that] obtain t where t: "t \<in> set (turns db1)" "t_conv t = c_id c" "t_status t = Generating" by blast
    then have m2: "t \<in> set (turns db2)" using k1 by (simp add: db2_def delete_convs_eq)
    have "t \<notin> set dead" using t(3) by (simp add: dead_def stale_turn_def)
    then have "t \<in> set (turns db3)" using m2 dead by (fastforce simp: db3_def delete_turns_eq)
    with t(2) show ?thesis by blast
  qed
  have "c \<notin> set stubs"
    using prot gen3 by (auto simp: stubs_def stale_stub_def sweep_protects_def split: if_splits)
  then have k3: "c_id c \<notin> c_id ` set stubs"
    using same by (auto simp: stubs_def db3_def delete_turns_eq db2_def delete_convs_eq db1_def expired_frame split: if_splits)
  have nc: "t_status t \<noteq> Complete" if "t \<in> set dead" for t
    using that by (auto simp: dead_def stale_turn_def split: if_splits)
  have t3: "filter (\<lambda>t. t_conv t = c_id c \<and> t_status t = Complete) (turns db3)
      = filter (\<lambda>t. t_conv t = c_id c \<and> t_status t = Complete) (turns db2)"
    unfolding db3_def delete_turns_eq by (simp, rule filter_cong) (use nc dead in blast)+
  have t1: "filter (\<lambda>t. t_conv t = c_id c \<and> t_status t = Complete) (turns db1)
      = filter (\<lambda>t. t_conv t = c_id c \<and> t_status t = Complete) (turns db)"
    unfolding db1_def expire_leases_def by simp (rule complete_upd_failed, simp_all add: lease_expired_def)
  have t4: "filter (\<lambda>t. t_conv t = c_id c \<and> Q t) (turns (delete_convs stubs db3)) = filter (\<lambda>t. t_conv t = c_id c \<and> Q t) (turns db3)" for Q
    using filter_outside [OF k3, of t_conv Q] by (simp add: delete_convs_eq)
  have ms: "conv_msgs (delete_convs stubs db3) (c_id c) = conv_msgs db (c_id c)"
  proof -
    have "conv_msgs (delete_convs cs d) (c_id c) = conv_msgs d (c_id c)" if "c_id c \<notin> c_id ` set cs" for cs d
      using filter_outside [OF that, of m_conv "\<lambda>_. True" "msgs d"] by (simp add: delete_convs_eq conv_msgs_def)
    with k1 k3 show ?thesis
      by (simp add: db2_def db3_def delete_turns_eq) (simp add: conv_msgs_def db1_def expired_frame)
  qed
  have "c \<in> set (convs (delete_convs stubs db3))"
    using c2 k3 by (simp add: delete_convs_eq db3_def delete_turns_eq)
  then show ?thesis unfolding fin using ms t4 [of "\<lambda>t. t_status t = Complete"] t3 t2 [of "\<lambda>t. t_status t = Complete"] t1 by simp
qed

text \<open>
  The retention sweep that runs inside every reservation never removes what is in
  use: a conversation that holds messages and is archived, recently updated, or exempt
  because retention is off, and a conversation with a generating turn whose lease has not
  expired, stay in the database unchanged, with all their messages and completed turns.
\<close>

theorem sweep_keeps_live_conversations:
  assumes inv: "hist_inv db" and c: "c \<in> set (convs db)" and prot: "sweep_protects cfg now db c"
  shows "find_conv (snd (cleanup_expired_locked cfg now db)) (c_id c) = Some c
    \<and> conv_msgs (snd (cleanup_expired_locked cfg now db)) (c_id c) = conv_msgs db (c_id c)
    \<and> filter (\<lambda>t. t_conv t = c_id c \<and> t_status t = Complete) (turns (snd (cleanup_expired_locked cfg now db)))
      = filter (\<lambda>t. t_conv t = c_id c \<and> t_status t = Complete) (turns db)"
  using sweep_shape [OF assms] find_conv_eq [OF hist_inv_schema [OF hist_inv_sweep [OF inv]]] by simp

theorem sweep_keeps_live_conversations_witness:
  "conv_msgs (snd (cleanup_expired_locked demo_cfg 1000 demo_db2)) ''h1'' = [demo_user, demo_assistant]"
proof -
  have c: "hd (convs demo_db2) \<in> set (convs demo_db2)" by (simp add: demo_defs)
  have "sweep_protects demo_cfg 1000 demo_db2 (hd (convs demo_db2))"
    by (simp add: sweep_protects_def demo_defs)
  from sweep_keeps_live_conversations [OF demo_inv2 c this] show ?thesis
    by (simp add: demo_defs conv_msgs_def)
qed

end
