(* ===== verification/History_Pages.thy ===== *)
theory History_Pages
  imports History_Reads
begin

text \<open>
  The pages of a transcript: \<open>list_messages\<close> walks it backwards by cursor, and following
  the cursors from the newest page returns every message once, in order.
\<close>

lemma sort_key_sorted: "sorted (map f xs) \<Longrightarrow> sort_key f xs = xs"
  by (induction xs) (auto intro: insort_is_Cons)

definition numbered :: "msg_row list \<Rightarrow> bool" where
  "numbered ms \<longleftrightarrow> map m_sequence ms = map int [1..<Suc (length ms)]"

lemma numbered_nth: "numbered ms \<Longrightarrow> i < length ms \<Longrightarrow> m_sequence (ms ! i) = int i + 1"
  unfolding numbered_def
  by (drule arg_cong [of _ _ "\<lambda>xs. xs ! i"]) (simp del: upt_Suc)

lemma numbered_sorted: "numbered ms \<Longrightarrow> sorted (map m_sequence (take k ms))"
  unfolding sorted_iff_nth_mono by (auto simp: numbered_nth)

lemma numbered_below:
  assumes "numbered ms"
  shows "filter (\<lambda>m. m_sequence m < b) ms = take (nat (b - 1)) ms"
proof -
  have "filter (\<lambda>m. m_sequence m < b) (take n ms) = take (nat (b - 1)) (take n ms)" if "n \<le> length ms" for n
    using that
  proof (induction n)
    case 0
    then show ?case by simp
  next
    case (Suc n)
    then have "take (Suc n) ms = take n ms @ [ms ! n]" by (simp add: take_Suc_conv_app_nth)
    moreover have "m_sequence (ms ! n) = int n + 1" using assms Suc.prems by (simp add: numbered_nth)
    ultimately show ?case using Suc by auto
  qed
  from this [of "length ms"] show ?thesis by simp
qed

definition readable :: "msg_row \<Rightarrow> bool" where
  "readable m \<longleftrightarrow> m_sources m \<noteq> None \<and> m_metadata m \<noteq> None"

lemma message_rows_ok: "(\<And>m. m \<in> set ms \<Longrightarrow> readable m) \<Longrightarrow> mapE message_row ms = Inr ms"
  by (rule mapE_id) (simp add: message_row_def readable_def)

definition page_size :: "int \<Rightarrow> nat" where
  "page_size lm = nat (clamp 1 200 lm)"

lemma page_size_pos: "0 < page_size lm"
  by (simp add: page_size_def clamp_def)

text \<open>One page, described on the transcript: the \<open>w\<close> messages before position \<open>k\<close>.\<close>

lemma list_messages_page:
  assumes c: "find_conv db hid \<noteq> None" and num: "numbered (conv_msgs db hid)"
    and ok: "\<And>m. m \<in> set (conv_msgs db hid) \<Longrightarrow> readable m"
    and k: "k = (case before of None \<Rightarrow> length (conv_msgs db hid) | Some b \<Rightarrow> min (length (conv_msgs db hid)) (nat (b - 1)))"
  shows "list_messages db hid before lm = Inr (drop (k - page_size lm) (take k (conv_msgs db hid)),
           if page_size lm < k then Some (int (k - page_size lm) + 1) else None)"
proof -
  let ?ms = "conv_msgs db hid" and ?w = "page_size lm"
  have kl: "k \<le> length ?ms" using k by (auto split: option.splits)
  have hits: "filter (\<lambda>m. case before of None \<Rightarrow> True | Some b \<Rightarrow> m_sequence m < b) ?ms = take k ?ms"
    using numbered_below [OF num] by (cases before) (simp_all add: k min_def)
  have sorted: "sort_key m_sequence (take k ?ms) = take k ?ms"
    by (rule sort_key_sorted [OF numbered_sorted [OF num]])
  let ?rows = "take (?w + 1) (rev (take k ?ms))"
  have more: "?w < length ?rows \<longleftrightarrow> ?w < k" using kl by simp
  have rows: "(if ?w < length ?rows then take ?w ?rows else ?rows) = take ?w (rev (take k ?ms))"
    using kl by (auto simp: min_def)
  have page: "rev (take ?w (rev (take k ?ms))) = drop (k - ?w) (take k ?ms)"
    using kl by (simp add: take_rev min_def)
  have "mapE message_row (take ?w (rev (take k ?ms))) = Inr (take ?w (rev (take k ?ms)))"
    by (rule message_rows_ok) (use ok in \<open>auto dest!: in_set_takeD\<close>)
  moreover have "m_sequence (hd (drop (k - ?w) (take k ?ms))) = int (k - ?w) + 1" if "?w < k"
    using that kl page_size_pos [of lm] num by (subst hd_drop_conv_nth) (auto simp: numbered_nth)
  moreover have "drop (k - ?w) (take k ?ms) \<noteq> []" if "?w < k"
    using that kl page_size_pos [of lm] by auto
  ultimately show ?thesis
    using c more rows page unfolding list_messages_def Let_def page_size_def [symmetric] hits sorted
    by auto
qed

text \<open>Following the cursors: each page is put in front of the ones already read.\<close>

fun walk_back :: "nat \<Rightarrow> hdb \<Rightarrow> string \<Rightarrow> int \<Rightarrow> int option \<Rightarrow> msg_row list option" where
  "walk_back 0 db hid lm before = None"
| "walk_back (Suc fuel) db hid lm before = (case list_messages db hid before lm of
       Inl e \<Rightarrow> None
     | Inr (ms, None) \<Rightarrow> Some ms
     | Inr (ms, Some cursor) \<Rightarrow> map_option (\<lambda>older. older @ ms) (walk_back fuel db hid lm (Some cursor)))"

lemma walk_back_from:
  assumes c: "find_conv db hid \<noteq> None" and num: "numbered (conv_msgs db hid)"
    and ok: "\<And>m. m \<in> set (conv_msgs db hid) \<Longrightarrow> readable m"
  shows "k = (case before of None \<Rightarrow> length (conv_msgs db hid) | Some b \<Rightarrow> min (length (conv_msgs db hid)) (nat (b - 1)))
    \<Longrightarrow> k < fuel \<Longrightarrow> walk_back fuel db hid lm before = Some (take k (conv_msgs db hid))"
proof (induction fuel arbitrary: k before)
  case 0
  then show ?case by simp
next
  case (Suc fuel)
  let ?ms = "conv_msgs db hid" and ?w = "page_size lm"
  note page = list_messages_page [OF c num ok Suc.prems(1), of lm]
  show ?case
  proof (cases "?w < k")
    case False
    then show ?thesis by (simp add: page)
  next
    case True
    have kl: "k \<le> length ?ms" using Suc.prems(1) by (auto split: option.splits)
    have "walk_back fuel db hid lm (Some (int (k - ?w) + 1)) = Some (take (k - ?w) ?ms)"
      by (rule Suc.IH) (use True kl Suc.prems(2) page_size_pos [of lm] in auto)
    moreover have "take (k - ?w) ?ms @ drop (k - ?w) (take k ?ms) = take k ?ms"
      using append_take_drop_id [of "k - ?w" "take k ?ms"] by (simp add: min_def)
    ultimately show ?thesis using True by (simp add: page)
  qed
qed

text \<open>
  Reading a conversation page by page from the newest message, with any page
  size and following the cursor each page returns, ends after at most as many pages as
  there are messages, and yields exactly the messages of the conversation, each once and
  in the order they were committed.
\<close>

theorem pages_reassemble_transcript:
  assumes inv: "hist_inv db" and c: "find_conv db hid = Some c" and ok: "list_all readable (conv_msgs db hid)"
  shows "walk_back (Suc (length (conv_msgs db hid))) db hid lm None = Some (conv_msgs db hid)"
proof -
  from find_conv_Some [OF c] have cc: "c \<in> set (convs db)" "c_id c = hid" by auto
  from hist_invD [OF inv cc(1)] have "numbered (conv_msgs db hid)"
    unfolding conv_inv_def numbered_def cc(2) by blast
  moreover have "find_conv db hid \<noteq> None" using c by simp
  ultimately show ?thesis
    using walk_back_from [of db hid "length (conv_msgs db hid)" None "Suc (length (conv_msgs db hid))" lm] ok
    by (simp add: list_all_iff del: walk_back.simps)
qed

theorem pages_reassemble_transcript_witness:
  "walk_back 3 demo_db2 ''h1'' 1 None = Some [demo_user, demo_assistant]
    \<and> list_messages demo_db2 ''h1'' None 1 = Inr ([demo_assistant], Some 2)"
proof -
  have "find_conv demo_db2 ''h1'' = Some (hd (convs demo_db2))" by (simp add: hist_eval demo_defs)
  moreover have "list_all readable (conv_msgs demo_db2 ''h1'')" by (simp add: hist_eval demo_defs readable_def)
  ultimately have "walk_back (Suc (length (conv_msgs demo_db2 ''h1''))) demo_db2 ''h1'' 1 None = Some (conv_msgs demo_db2 ''h1'')"
    by (rule pages_reassemble_transcript [OF demo_inv2])
  moreover have "conv_msgs demo_db2 ''h1'' = [demo_user, demo_assistant]" by (simp add: hist_eval demo_defs)
  moreover have "list_messages demo_db2 ''h1'' None 1 = Inr ([demo_assistant], Some 2)" by code_simp
  ultimately show ?thesis by (simp add: eval_nat_numeral)
qed

section \<open>Retrying a failed turn\<close>

text \<open>
  Claim C36: Retrying a failed turn while another turn with the same parent is in flight
  is not reported as a turn in progress: the update violates the unique index and its
  integrity error reaches the caller.
\<close>

theorem retry_behind_sibling_raises_integrity_error:
  assumes inv: "hist_inv db" and r: "r \<in> set (turns db)" "t_status r = Failed"
    and c: "find_conv db (t_conv r) = Some c" "t_parent r = c_last_turn_id c"
    and busy: "has_active_turn db (t_conv r)"
  shows "handle_existing_turn cfg dr r (t_fingerprint r) db = Inl IntegrityError"
proof -
  note sch = hist_inv_schema [OF inv]
  from busy obtain u where u: "u \<in> set (turns db)" "t_conv u = t_conv r" "in_flight u"
    by (auto simp: has_active_turn_def)
  from find_conv_Some [OF c(1)] have cc: "c \<in> set (convs db)" "c_id c = t_conv r" by auto
  have "t_parent u = t_parent r"
    using hist_invD [OF inv cc(1)] u cc(2) c(2) by (auto simp: conv_inv_def turn_ok_def conv_turns_mem)
  then have slot: "slot u = slot r" using u(2) by (simp add: slot_def)
  have ne: "\<not> (t_conv u = t_conv r \<and> t_id u = t_id r)"
    using same_turn [OF sch u(1) r(1)] u(3) r(2) by (auto simp: in_flight_def)
  let ?f = "take_lease (d_retry_lease dr) (d_now dr + real_of_int (hc_lease_seconds cfg)) (d_now dr)"
  let ?ts = "upd_where (\<lambda>t. t_conv t = t_conv r \<and> t_id t = t_id r) ?f (turns db)"
  have "?f r \<in> set ?ts" "u \<in> set ?ts" using r u ne by (auto simp: set_upd_where)
  moreover have "indexed (?f r)" "indexed u" "slot (?f r) = slot u" "?f r \<noteq> u"
    using u(2,3) ne slot by (auto simp: indexed_def take_lease_def in_flight_def slot_def)
  ultimately have "\<not> linear_index_ok ?ts" using index_unique [of ?ts "?f r" u] by blast
  then have "update_turn (t_conv r) (t_id r) ?f db = Inl IntegrityError"
    by (simp add: update_turn_def Let_def)
  moreover have "assert_linear_parent db (t_conv r) (t_parent r) = Inr ()"
    using c by (auto simp: assert_linear_parent_def Let_def guardE_def split: option.splits)
  ultimately show ?thesis using r(2) by (simp add: handle_existing_turn_def Let_def)
qed

definition demo_retry :: hdb where
  "demo_retry = run_machine (hist_step demo_cfg) empty_hdb
     [EvBegin (demo_begin ''t1'' None) (demo_draws 100 ''L1''), EvFail 110 ''s'' ''t1'' ''L1'',
      EvBegin (demo_begin ''t2'' None) (demo_draws 120 ''L2'')]"

theorem retry_behind_sibling_raises_integrity_error_witness:
  "handle_existing_turn demo_cfg (demo_draws 130 ''L3'') (hd (turns demo_retry)) ''f'' demo_retry = Inl IntegrityError
    \<and> fst (begin_turn demo_cfg (demo_begin ''t1'' None) (demo_draws 130 ''L3'') demo_retry) = Inl IntegrityError"
proof -
  have inv: "hist_inv demo_retry" unfolding demo_retry_def using history_run by blast
  have "hd (turns demo_retry) \<in> set (turns demo_retry)" "t_status (hd (turns demo_retry)) = Failed"
    "find_conv demo_retry (t_conv (hd (turns demo_retry))) = Some (hd (convs demo_retry))"
    "t_parent (hd (turns demo_retry)) = c_last_turn_id (hd (convs demo_retry))"
    "has_active_turn demo_retry (t_conv (hd (turns demo_retry)))"
    "t_fingerprint (hd (turns demo_retry)) = ''f''"
    by code_simp+
  with retry_behind_sibling_raises_integrity_error [OF inv, of "hd (turns demo_retry)"]
  have "handle_existing_turn demo_cfg (demo_draws 130 ''L3'') (hd (turns demo_retry)) ''f'' demo_retry = Inl IntegrityError"
    by simp
  moreover have "fst (begin_turn demo_cfg (demo_begin ''t1'' None) (demo_draws 130 ''L3'') demo_retry) = Inl IntegrityError"
    by code_simp
  ultimately show ?thesis by blast
qed

end
