(* ===== verification/History_Deletion.thy ===== *)
theory History_Deletion
  imports History_Pages
begin

text \<open>
  Deleting conversations together with the files they own: the plan never names an artifact
  that a conversation that stays still uses, and an interrupted cleanup can be resumed.
\<close>

section \<open>Plans\<close>

definition refs_le :: "artifact_refs \<Rightarrow> artifact_refs \<Rightarrow> bool" where
  "refs_le a b \<longleftrightarrow> r_attachments a \<subseteq> r_attachments b \<and> r_images a \<subseteq> r_images b \<and> r_runs a \<subseteq> r_runs b"

lemma refs_le_union: "refs_le a (refs_union a b)" "refs_le b (refs_union a b)"
  by (simp_all add: refs_le_def refs_union_def)

lemma refs_le_trans: "refs_le a b \<Longrightarrow> refs_le b c \<Longrightarrow> refs_le a c"
  unfolding refs_le_def by blast

lemma refs_le_refl: "refs_le a a"
  by (simp add: refs_le_def)

lemma scan_messages_retained:
  assumes "scan_messages cfg ids ms (t0, s0, f0) = Inr (t1, s1, f1)" and "refs_wf s0"
  shows "refs_wf s1 \<and> refs_le s0 s1 \<and> (\<forall>m \<in> set ms. \<forall>v r. m_conv m \<notin> ids \<longrightarrow> m_metadata m = Some v \<longrightarrow>
      references_from_history_metadata (hc_float_repr cfg) (hc_bracket_ok cfg) v = Inr r \<longrightarrow> refs_le r s1)"
  using assms
proof (induction ms arbitrary: t0 s0 f0)
  case Nil
  then show ?case by (simp add: refs_le_refl)
next
  case (Cons m ms)
  from Cons.prems(1) obtain t s f where step: "scan_message cfg ids m (t0, s0, f0) = Inr (t, s, f)"
    and rest: "scan_messages cfg ids ms (t, s, f) = Inr (t1, s1, f1)"
    by (auto simp: bindE_eq_Inr)
  have s: "refs_wf s \<and> refs_le s0 s \<and> (\<forall>v r. m_conv m \<notin> ids \<longrightarrow> m_metadata m = Some v \<longrightarrow>
      references_from_history_metadata (hc_float_repr cfg) (hc_bracket_ok cfg) v = Inr r \<longrightarrow> refs_le r s)"
  proof (cases "m_metadata m")
    case None
    with step Cons.prems(2) show ?thesis by (simp add: scan_message_def refs_le_refl)
  next
    case (Some v)
    with step obtain r where r: "references_from_history_metadata (hc_float_repr cfg) (hc_bracket_ok cfg) v = Inr r"
      and s: "s = (if m_conv m \<in> ids then s0 else refs_union s0 r)"
      by (auto simp: scan_message_def bindE_eq_Inr split: if_split_asm)
    with Some Cons.prems(2) refs_wf_metadata [OF r] show ?thesis
      by (simp add: refs_le_refl refs_le_union refs_wf_union)
  qed
  from Cons.IH [OF rest] s have IH: "refs_wf s1 \<and> refs_le s s1 \<and> (\<forall>n \<in> set ms. \<forall>v r. m_conv n \<notin> ids \<longrightarrow> m_metadata n = Some v \<longrightarrow>
      references_from_history_metadata (hc_float_repr cfg) (hc_bracket_ok cfg) v = Inr r \<longrightarrow> refs_le r s1)" by blast
  with s show ?case by (auto intro: refs_le_trans)
qed

lemma no_refs_disjoint: "refs_disjoint no_refs r"
  by (simp add: refs_disjoint_def no_refs_def)

text \<open>
  A deletion plan never removes what a conversation that stays still uses:
  for every stored message outside the deleted conversations, none of its attachments,
  images and runs is exclusive, no exclusive run is the run of one of its images, and no
  exclusive image belongs to one of its runs. When some metadata could not be read, the plan
  is marked unsafe and names nothing at all.
\<close>

theorem plan_spares_retained_artifacts:
  assumes plan: "artifact_cleanup_plan_locked cfg db ids = Inr p"
    and m: "m \<in> set (msgs db)" "m_conv m \<notin> set ids" "m_metadata m = Some v"
    and r: "references_from_history_metadata (hc_float_repr cfg) (hc_bracket_ok cfg) v = Inr r"
  shows "refs_disjoint (p_exclusive p) r \<and> (\<not> p_safe p \<longrightarrow> refs_empty (p_exclusive p))"
proof (cases "ids = []")
  case True
  with plan have "p_exclusive p = no_refs" "p_safe p"
    by (auto simp: artifact_cleanup_plan_locked_def exclusive_references_def no_refs_def)
  then show ?thesis by (simp add: no_refs_disjoint)
next
  case False
  with plan obtain t s f where scan: "scan_messages cfg (set ids) (msgs db) (no_refs, no_refs, True) = Inr (t, s, f)"
    and p: "p_exclusive p = (if f then exclusive_references t s else no_refs)" "p_safe p = f"
    by (auto simp: artifact_cleanup_plan_locked_def split: sum.splits)
  from scan_messages_retained [OF scan refs_wf_none] m r have "refs_wf s" "refs_le r s" by blast+
  then have "refs_disjoint (exclusive_references t s) r"
    by (intro refs_disjoint_mono [OF exclusive_disjoint]) (simp_all add: refs_le_def)
  with p show ?thesis by (simp add: no_refs_disjoint) (simp add: refs_empty_def no_refs_def)
qed

text \<open>Two conversations that both show the image of one run; a third artifact is private.\<close>

definition demo_image :: string where
  "demo_image = ''0123456789ab_plot.png''"

definition demo_meta :: "string \<Rightarrow> json" where
  "demo_meta img = JObj [(''response_payload'', JObj [(''attachments'', JArr []),
     (''result'', JObj [(''images'', JArr [JStr (''/code_pics/'' @ img)])])])]"

definition demo_shared :: hdb where
  "demo_shared = demo_db2\<lparr>msgs := [demo_user, demo_assistant\<lparr>m_metadata := Some (demo_meta demo_image)\<rparr>,
     demo_assistant\<lparr>m_conv := ''h2'', m_metadata := Some (demo_meta ''0123456789ab_other.png'')\<rparr>,
     demo_assistant\<lparr>m_conv := ''h2'', m_turn := ''t9'', m_sequence := 4,
       m_metadata := Some (demo_meta ''00000000000f_mine.png'')\<rparr>]\<rparr>"

theorem plan_spares_retained_artifacts_witness:
  "\<exists>p. artifact_cleanup_plan_locked demo_cfg demo_shared [''h2''] = Inr p \<and> p_safe p
     \<and> r_images (p_exclusive p) = {''00000000000f_mine.png''} \<and> r_runs (p_exclusive p) = {''00000000000f''}
     \<and> refs_disjoint (p_exclusive p) \<lparr>r_attachments = {}, r_images = {demo_image}, r_runs = {''0123456789ab''}\<rparr>"
proof -
  define p where "p = \<lparr>p_conversations = [''h2''],
      p_target = \<lparr>r_attachments = {}, r_images = {''0123456789ab_other.png'', ''00000000000f_mine.png''},
        r_runs = {''0123456789ab'', ''00000000000f''}\<rparr>,
      p_retained = \<lparr>r_attachments = {}, r_images = {demo_image}, r_runs = {''0123456789ab''}\<rparr>,
      p_exclusive = \<lparr>r_attachments = {}, r_images = {''00000000000f_mine.png''}, r_runs = {''00000000000f''}\<rparr>, p_safe = True\<rparr>"
  have plan: "artifact_cleanup_plan_locked demo_cfg demo_shared [''h2''] = Inr p"
    unfolding p_def by code_simp
  have r: "references_from_history_metadata (hc_float_repr demo_cfg) (hc_bracket_ok demo_cfg) (demo_meta demo_image)
      = Inr \<lparr>r_attachments = {}, r_images = {demo_image}, r_runs = {''0123456789ab''}\<rparr>"
    by code_simp
  have m: "demo_assistant\<lparr>m_metadata := Some (demo_meta demo_image)\<rparr> \<in> set (msgs demo_shared)"
    by (simp add: demo_shared_def)
  from plan_spares_retained_artifacts [OF plan m _ _ r] plan show ?thesis
    by (simp add: demo_assistant_def p_def)
qed

section \<open>The outbox\<close>

lemma scan_messages_finite:
  assumes "scan_messages cfg ids ms (t0, s0, f0) = Inr (t1, s1, f1)" and "refs_finite t0"
  shows "refs_finite t1"
  using assms
proof (induction ms arbitrary: t0 s0 f0)
  case (Cons m ms)
  from Cons.prems(1) obtain t s f where step: "scan_message cfg ids m (t0, s0, f0) = Inr (t, s, f)"
    and rest: "scan_messages cfg ids ms (t, s, f) = Inr (t1, s1, f1)"
    by (auto simp: bindE_eq_Inr)
  have "refs_finite t"
    using step Cons.prems(2) by (auto simp: scan_message_def bindE_eq_Inr intro!: refs_finite_union
        dest!: refs_finite_metadata split: option.splits if_splits)
  then show ?case by (rule Cons.IH [OF rest])
qed simp

lemma plan_finite: "artifact_cleanup_plan_locked cfg db ids = Inr p \<Longrightarrow> refs_finite (p_exclusive p)"
  by (auto simp: artifact_cleanup_plan_locked_def intro!: refs_finite_exclusive
      dest!: scan_messages_finite [OF _ refs_finite_none] split: sum.splits if_splits)

text \<open>What is read from the outbox is what was written.\<close>

lemma frozen_sorted:
  assumes "finite A" and "jget payload key = JArr (map JStr (sorted_list_of_set A))"
  shows "frozen_texts payload key = Inr A"
proof -
  have "mapE text_element (map JStr ts) = Inr ts" for ts
    by (induction ts) (simp_all add: text_element_def)
  then show ?thesis using assms by (auto simp: frozen_texts_def Let_def)
qed

lemma decode_encoded: "refs_finite refs \<Longrightarrow> decode_references (Some (encode_references refs)) = Inr refs"
proof -
  assume "refs_finite refs"
  then have f: "finite (r_attachments refs)" "finite (r_images refs)" "finite (r_runs refs)"
    by (simp_all add: refs_finite_def)
  show ?thesis
    unfolding decode_references_def encode_references_def
    by (simp add: frozen_sorted [OF f(1)] frozen_sorted [OF f(2)] frozen_sorted [OF f(3)] jget_def)
qed

lemma staged_row: "\<exists>row. find (\<lambda>r. o_key r = key) (outbox (stage_artifact_cleanup now key refs db)) = Some row
    \<and> o_refs row = Some (encode_references refs)"
proof (cases "\<exists>r \<in> set (outbox db). o_key r = key")
  case True
  let ?f = "\<lambda>r. r\<lparr>o_refs := Some (encode_references refs), o_created := now\<rparr>"
  have "\<exists>r \<in> set os. o_key r = key \<Longrightarrow> \<exists>r. find (\<lambda>r. o_key r = key) (upd_where (\<lambda>r. o_key r = key) ?f os) = Some r
      \<and> o_refs r = Some (encode_references refs)" for os
    by (induction os) auto
  from this [OF True] True show ?thesis by (simp add: stage_artifact_cleanup_def)
next
  case False
  have "\<not> (\<exists>r \<in> set os. o_key r = key) \<Longrightarrow> find (\<lambda>r. o_key r = key) (os @ [new]) = (if o_key new = key then Some new else None)"
    for os and new :: outbox_row
    by (induction os) auto
  from this [OF False] False show ?thesis by (simp add: stage_artifact_cleanup_def)
qed

lemma outbox_after_stage:
  assumes "refs_finite refs"
  shows "artifact_cleanup_outbox (stage_artifact_cleanup now key refs db) key ids
     = Inr \<lparr>p_conversations = ids, p_target = refs, p_retained = no_refs, p_exclusive = refs, p_safe = True\<rparr>"
  using staged_row [of key now refs db] decode_encoded [OF assms] by (auto simp: artifact_cleanup_outbox_def)

lemma outbox_delete_conv [simp]: "artifact_cleanup_outbox (delete_conv cid db) key ids = artifact_cleanup_outbox db key ids"
  by (simp add: artifact_cleanup_outbox_def delete_conv_def)

lemma find_conv_deleted: "find_conv (delete_conv cid db) cid = None"
  by (auto simp: find_conv_def delete_conv_def find_None_iff)

text \<open>
  Claim C30: deleting a conversation with its files survives a crash between the commit
  and the removal of the files. The deletion and the record of the files are one transaction:
  the conversation and its messages are gone. When the plan of the deletion is safe (every stored
  metadata could be read), a repeated deletion reports that the conversation is gone and returns the
  exclusive files of the plan, put in the outbox as an object of three sorted lists and decoded again, without
  changing the database; and once the cleanup is acknowledged a further call finds nothing left to
  remove. When the plan is not safe it names no file and none is recorded.
\<close>

theorem interrupted_cleanup_is_resumable:
  assumes del: "delete_with_artifact_cleanup cfg now hid db = (Inr (True, plan), db')"
  shows "find_conv db' hid = None \<and> conv_msgs db' hid = []
    \<and> (p_safe plan \<longrightarrow>
        (\<exists>again. delete_with_artifact_cleanup cfg later hid db' = (Inr (False, again), db')
          \<and> p_exclusive again = p_exclusive plan \<and> p_safe again)
        \<and> (\<exists>db''. complete_artifact_cleanup (conversation_cleanup_key hid) db' = (True, db'')
          \<and> delete_with_artifact_cleanup cfg later hid db'' = (Inr (False, empty_plan [hid] False), db'')))
    \<and> (\<not> p_safe plan \<longrightarrow> p_exclusive plan = no_refs \<and> outbox db' = outbox db)"
proof -
  let ?key = "conversation_cleanup_key hid"
  let ?st = "stage_artifact_cleanup now ?key (p_exclusive plan) db"
  from del have plan: "artifact_cleanup_plan_locked cfg db [hid] = Inr plan"
    and db': "db' = delete_conv hid (if p_safe plan then ?st else db)"
    by (auto simp: delete_with_artifact_cleanup_def delete_with_artifact_cleanup_body_def Let_def bindE_eq_Inr
        dest!: run_tx_commit split: if_splits)
  have gone: "find_conv db' hid = None" "conv_msgs db' hid = []"
    unfolding db' by (rule find_conv_deleted) (simp add: conv_msgs_def delete_conv_def)
  have key: "?key \<noteq> []" by (simp add: conversation_cleanup_key_def)
  have "(\<exists>again. delete_with_artifact_cleanup cfg later hid db' = (Inr (False, again), db')
          \<and> p_exclusive again = p_exclusive plan \<and> p_safe again)
        \<and> (\<exists>db''. complete_artifact_cleanup ?key db' = (True, db'')
          \<and> delete_with_artifact_cleanup cfg later hid db'' = (Inr (False, empty_plan [hid] False), db''))"
    if safe: "p_safe plan"
  proof -
    have box: "artifact_cleanup_outbox db' ?key [hid] = Inr \<lparr>p_conversations = [hid], p_target = p_exclusive plan,
        p_retained = no_refs, p_exclusive = p_exclusive plan, p_safe = True\<rparr>"
      unfolding db' using safe by (simp add: outbox_after_stage [OF plan_finite [OF plan]])
    have staged: "\<exists>r \<in> set (outbox db'). o_key r = ?key"
      using staged_row [of ?key now "p_exclusive plan" db] safe by (auto simp: db' delete_conv_def dest: find_SomeD)
    let ?db2 = "db'\<lparr>outbox := filter (\<lambda>r. o_key r \<noteq> ?key) (outbox db')\<rparr>"
    have "find (\<lambda>r. o_key r = ?key) (filter (\<lambda>r. o_key r \<noteq> ?key) os) = None" for os :: "outbox_row list"
      by (induction os) auto
    then have "artifact_cleanup_outbox ?db2 ?key [hid] = Inr (empty_plan [hid] False)" by (simp add: artifact_cleanup_outbox_def)
    moreover have "find_conv ?db2 hid = None" using gone by (simp add: find_conv_def)
    ultimately show ?thesis
      using gone box key staged
      by (simp add: delete_with_artifact_cleanup_def delete_with_artifact_cleanup_body_def run_tx_def
          complete_artifact_cleanup_def)
  qed
  moreover have "p_exclusive plan = no_refs \<and> outbox db' = outbox db" if "\<not> p_safe plan"
    using plan that by (auto simp: db' delete_conv_def artifact_cleanup_plan_locked_def split: sum.splits if_splits)
  ultimately show ?thesis using gone by blast
qed

definition demo_owner :: hdb where
  "demo_owner = demo_db2\<lparr>msgs := [demo_user, demo_assistant\<lparr>m_metadata := Some (demo_meta demo_image)\<rparr>]\<rparr>"

text \<open>The conversation owns one image and its run.\<close>

lemma owner_plan: "artifact_cleanup_plan_locked demo_cfg demo_owner [''h1''] = Inr (let refs =
    \<lparr>r_attachments = {}, r_images = {demo_image}, r_runs = {''0123456789ab''}\<rparr>
   in \<lparr>p_conversations = [''h1''], p_target = refs, p_retained = no_refs, p_exclusive = refs, p_safe = True\<rparr>)"
  by code_simp

theorem interrupted_cleanup_is_resumable_witness:
  "\<exists>plan db' again. delete_with_artifact_cleanup demo_cfg 500 ''h1'' demo_owner = (Inr (True, plan), db')
     \<and> delete_with_artifact_cleanup demo_cfg 600 ''h1'' db' = (Inr (False, again), db')
     \<and> p_exclusive again = \<lparr>r_attachments = {}, r_images = {demo_image}, r_runs = {''0123456789ab''}\<rparr>"
proof -
  let ?refs = "\<lparr>r_attachments = {}, r_images = {demo_image}, r_runs = {''0123456789ab''}\<rparr>"
  let ?plan = "\<lparr>p_conversations = [''h1''], p_target = ?refs, p_retained = no_refs, p_exclusive = ?refs, p_safe = True\<rparr>"
  let ?out = "delete_with_artifact_cleanup demo_cfg 500 ''h1'' demo_owner"
  have "artifact_cleanup_plan_locked demo_cfg demo_owner [''h1''] = Inr ?plan" using owner_plan by (simp add: Let_def)
  moreover have "find_conv demo_owner ''h1'' \<noteq> None" by code_simp
  ultimately have "fst ?out = Inr (True, ?plan)"
    by (auto simp: delete_with_artifact_cleanup_def delete_with_artifact_cleanup_body_def run_tx_def Let_def)
  then have out: "?out = (Inr (True, ?plan), snd ?out)" by (metis prod.collapse)
  from interrupted_cleanup_is_resumable [OF out, of 600] obtain again
    where "delete_with_artifact_cleanup demo_cfg 600 ''h1'' (snd ?out) = (Inr (False, again), snd ?out)"
      "p_exclusive again = ?refs" by auto
  with out show ?thesis by blast
qed

end
