(* ===== verification/Pending_Turns.thy ===== *)
theory Pending_Turns
  imports Py_Json
begin

text \<open>
  The in-process store of staged turn results
  (\<open>PendingTurnResultStore\<close> in \<open>app/utils/pending_turn_store.py\<close>): payloads kept per
  scope, turn and lease token, with a time to live and two byte limits. A payload is the
  JSON value its bytes encode together with the length of those bytes. A result that
  \<open>json.dumps\<close> rejects is \<open>None\<close>. The Redis backend is not modelled.
\<close>

section \<open>State\<close>

record pending_entry =
  e_lease :: string
  e_payload :: json
  e_created :: time
  e_expires :: time
  e_size :: int

record pending_result =
  pr_scope :: string
  pr_turn :: string
  pr_lease :: string
  pr_digest :: string
  pr_result :: json
  pr_created :: time

record pending_store =
  ps_ttl :: int
  ps_max_payload :: int
  ps_max_total :: int
  ps_float_repr :: "real \<Rightarrow> string"
  ps_entries :: "(string, pending_entry) odict"
  ps_total :: int

definition new_pending_store :: "int \<Rightarrow> int \<Rightarrow> int \<Rightarrow> (real \<Rightarrow> string) \<Rightarrow> pending_store" where
  "new_pending_store ttl max_payload max_total fr =
     \<lparr>ps_ttl = max 1 ttl, ps_max_payload = max 1 max_payload, ps_max_total = max 1 max_total,
      ps_float_repr = fr, ps_entries = [], ps_total = 0\<rparr>"

section \<open>Encoding\<close>

definition encode_payload :: "string \<Rightarrow> string \<Rightarrow> json option \<Rightarrow> time \<Rightarrow> json option" where
  "encode_payload lease digest result created = map_option (\<lambda>r. JObj
     [(''schema_version'', JInt 1), (''lease_token'', JStr lease), (''result_digest'', JStr digest),
      (''result'', r), (''created_at'', JFloat created)]) result"

text \<open>The length of the encoded payload: compact JSON, non-ASCII characters kept, in UTF-8.\<close>

definition encoded_size :: "(real \<Rightarrow> string) \<Rightarrow> json \<Rightarrow> int" where
  "encoded_size fr payload = int (utf8_len (dumps_compact fr payload))"

text \<open>\<open>float(value)\<close> on the values a payload can hold; \<open>None\<close> stands for an exception.\<close>

fun py_float :: "json \<Rightarrow> real option" where
  "py_float (JFloat x) = Some x"
| "py_float (JInt i) = Some (real_of_int i)"
| "py_float (JBool b) = Some (if b then 1 else 0)"
| "py_float _ = None"

definition decode_pending_result ::
  "(real \<Rightarrow> string) \<Rightarrow> json \<Rightarrow> string \<Rightarrow> string \<Rightarrow> time \<Rightarrow> pending_result option" where
  "decode_pending_result fr payload scope turn fallback = (case payload of
       JObj d \<Rightarrow>
         (case py_int (j_or (jget d ''schema_version'') (JInt 0)) of
            None \<Rightarrow> None
          | Some v \<Rightarrow> if v \<noteq> 1 then None
              else map_option (\<lambda>created. \<lparr>pr_scope = scope, pr_turn = turn,
                     pr_lease = py_str fr (j_or (jget d ''lease_token'') (JStr [])),
                     pr_digest = py_str fr (j_or (jget d ''result_digest'') (JStr [])),
                     pr_result = jget d ''result'', pr_created = created\<rparr>)
                   (py_float (j_or (jget d ''created_at'') (JFloat fallback))))
     | _ \<Rightarrow> None)"

section \<open>Keys\<close>

definition unit_sep :: char where
  "unit_sep = CHR 0x1F"

definition turn_prefix :: "string \<Rightarrow> string \<Rightarrow> string" where
  "turn_prefix scope turn = scope @ [unit_sep] @ turn @ [unit_sep]"

definition pending_key :: "string \<Rightarrow> string \<Rightarrow> string \<Rightarrow> string" where
  "pending_key scope turn lease = turn_prefix scope turn @ lease"

section \<open>Operations\<close>

definition remove_locked :: "string \<Rightarrow> pending_store \<Rightarrow> bool \<times> pending_store" where
  "remove_locked key s = (case od_get (ps_entries s) key of
       None \<Rightarrow> (False, s)
     | Some e \<Rightarrow> (True, s\<lparr>ps_entries := od_pop key (ps_entries s), ps_total := max 0 (ps_total s - e_size e)\<rparr>))"

definition remove_all :: "string list \<Rightarrow> pending_store \<Rightarrow> pending_store" where
  "remove_all ks s = fold (\<lambda>k s. snd (remove_locked k s)) ks s"

definition purge_expired :: "time \<Rightarrow> pending_store \<Rightarrow> pending_store" where
  "purge_expired now s = remove_all (map fst (filter (\<lambda>(k, e). e_expires e \<le> now) (ps_entries s))) s"

text \<open>The section of \<open>put\<close> below the lock, after the purge.\<close>

definition admit_entry :: "string \<Rightarrow> pending_entry \<Rightarrow> pending_store \<Rightarrow> bool \<times> pending_store" where
  "admit_entry key entry s =
     (let previous = (case od_get (ps_entries s) key of None \<Rightarrow> 0 | Some e \<Rightarrow> e_size e);
          projected = ps_total s - previous + e_size entry
      in if ps_max_total s < projected then (False, s)
         else (True, s\<lparr>ps_entries := od_set key entry (ps_entries s), ps_total := projected\<rparr>))"

definition pending_put ::
  "time \<Rightarrow> string \<Rightarrow> string \<Rightarrow> string \<Rightarrow> string \<Rightarrow> json option \<Rightarrow> int option \<Rightarrow> pending_store \<Rightarrow> bool \<times> pending_store" where
  "pending_put now scope turn lease digest result ttl_arg s =
     (if scope = [] \<or> turn = [] \<or> lease = [] then (False, s)
      else let ttl = max 1 (case ttl_arg of None \<Rightarrow> ps_ttl s | Some t \<Rightarrow> if t = 0 then ps_ttl s else t)
      in case encode_payload lease digest result now of
           None \<Rightarrow> (False, s)
         | Some payload \<Rightarrow>
             let size = encoded_size (ps_float_repr s) payload
             in if ps_max_payload s < size then (False, s)
                else admit_entry (pending_key scope turn lease)
                       \<lparr>e_lease = lease, e_payload = payload, e_created = now,
                        e_expires = now + real_of_int ttl, e_size = size\<rparr> (purge_expired now s))"

text \<open>\<open>max(candidates, key=...)\<close>: the first of the entries with the largest creation time.\<close>

fun newest :: "(string \<times> pending_entry) list \<Rightarrow> (string \<times> pending_entry) option" where
  "newest [] = None"
| "newest (x # xs) = (case newest xs of
       None \<Rightarrow> Some x
     | Some y \<Rightarrow> if e_created (snd x) < e_created (snd y) then Some y else Some x)"

definition pending_get ::
  "time \<Rightarrow> string \<Rightarrow> string \<Rightarrow> string option \<Rightarrow> pending_store \<Rightarrow> pending_result option \<times> pending_store" where
  "pending_get now scope turn lease s0 =
     (if scope = [] \<or> turn = [] then (None, s0)
      else let s = purge_expired now s0;
               hit = (case lease of
                   Some l \<Rightarrow> if l \<noteq> [] then map_option (Pair (pending_key scope turn l)) (od_get (ps_entries s) (pending_key scope turn l))
                             else newest (filter (\<lambda>(k, e). py_startswith k (turn_prefix scope turn)) (ps_entries s))
                 | None \<Rightarrow> newest (filter (\<lambda>(k, e). py_startswith k (turn_prefix scope turn)) (ps_entries s)))
           in case hit of
                None \<Rightarrow> (None, s)
              | Some (key, e) \<Rightarrow> (case decode_pending_result (ps_float_repr s) (e_payload e) scope turn (e_created e) of
                    None \<Rightarrow> (None, snd (remove_locked key s))
                  | Some p \<Rightarrow> (Some p, s)))"

definition pending_delete :: "string \<Rightarrow> string \<Rightarrow> pending_store \<Rightarrow> bool \<times> pending_store" where
  "pending_delete scope turn s =
     (if scope = [] \<or> turn = [] then (False, s)
      else let ks = filter (\<lambda>k. py_startswith k (turn_prefix scope turn)) (map fst (ps_entries s))
           in (ks \<noteq> [], remove_all ks s))"

definition delete_if_lease :: "time \<Rightarrow> string \<Rightarrow> string \<Rightarrow> string \<Rightarrow> pending_store \<Rightarrow> bool \<times> pending_store" where
  "delete_if_lease now scope turn lease s0 =
     (if scope = [] \<or> turn = [] \<or> lease = [] then (False, s0)
      else let key = pending_key scope turn lease; s = purge_expired now s0
           in case od_get (ps_entries s) key of
                None \<Rightarrow> (False, s)
              | Some e \<Rightarrow> if e_lease e \<noteq> lease then (False, s) else remove_locked key s)"

definition clear_by_prefix :: "time \<Rightarrow> string \<Rightarrow> pending_store \<Rightarrow> nat \<times> pending_store" where
  "clear_by_prefix now p s0 =
     (if p = [] then (0, s0)
      else let s = purge_expired now s0;
               ks = filter (\<lambda>k. py_startswith (takeWhile (\<lambda>c. c \<noteq> unit_sep) k) p) (map fst (ps_entries s))
           in (length ks, remove_all ks s))"

definition clear_scope :: "time \<Rightarrow> string \<Rightarrow> pending_store \<Rightarrow> nat \<times> pending_store" where
  "clear_scope now scope s0 =
     (if scope = [] then (0, s0)
      else let s = purge_expired now s0;
               ks = filter (\<lambda>k. py_startswith k (scope @ [unit_sep])) (map fst (ps_entries s))
           in (length ks, remove_all ks s))"

definition clear_all :: "pending_store \<Rightarrow> pending_store" where
  "clear_all s = s\<lparr>ps_entries := [], ps_total := 0\<rparr>"

section \<open>The byte account\<close>

definition sizes :: "(string, pending_entry) odict \<Rightarrow> int" where
  "sizes d = sum_list (map (\<lambda>(k, e). e_size e) d)"

text \<open>The recorded size of an entry is the length of its encoded payload, within the limit.\<close>

definition entry_ok :: "pending_store \<Rightarrow> pending_entry \<Rightarrow> bool" where
  "entry_ok s e \<longleftrightarrow> e_size e = encoded_size (ps_float_repr s) (e_payload e) \<and> e_size e \<le> ps_max_payload s"

lemma entry_ok_nonneg: "entry_ok s e \<Longrightarrow> 0 \<le> e_size e"
  by (simp add: entry_ok_def encoded_size_def)

lemma entry_ok_frame [simp]: "entry_ok (s\<lparr>ps_entries := d, ps_total := n\<rparr>) = entry_ok s"
  by (simp add: entry_ok_def fun_eq_iff)

definition pending_inv :: "pending_store \<Rightarrow> bool" where
  "pending_inv s \<longleftrightarrow> od_wf (ps_entries s) \<and> ps_total s = sizes (ps_entries s) \<and> ps_total s \<le> ps_max_total s
     \<and> (\<forall>(k, e) \<in> set (ps_entries s). entry_ok s e)"

lemma sizes_pop: "od_wf d \<Longrightarrow> od_get d k = Some e \<Longrightarrow> sizes (od_pop k d) = sizes d - e_size e"
proof (induction d)
  case Nil
  then show ?case by simp
next
  case (Cons p d)
  show ?case
  proof (cases "fst p = k")
    case True
    with Cons.prems have "od_get d k = None" by (auto simp: map_of_eq_None_iff)
    then have "od_pop k d = d" by (rule od_pop_absent)
    with True Cons.prems show ?thesis by (cases p) (simp add: AList.delete_eq sizes_def)
  next
    case False
    with Cons show ?thesis by (cases p) (auto simp: AList.delete_eq sizes_def)
  qed
qed

lemma sizes_set:
  "sizes (od_set k e d) = sizes d - (case od_get d k of None \<Rightarrow> 0 | Some f \<Rightarrow> e_size f) + e_size e"
  by (induction d) (auto simp: sizes_def)

lemma sizes_nonneg: "(\<forall>(k, e) \<in> set d. 0 \<le> e_size e) \<Longrightarrow> 0 \<le> sizes d"
  by (induction d) (auto simp: sizes_def)

lemma remove_locked_inv: "pending_inv s \<Longrightarrow> pending_inv (snd (remove_locked k s))"
proof (cases "od_get (ps_entries s) k")
  case (Some e)
  assume inv: "pending_inv s"
  then have wf: "od_wf (ps_entries s)" and all: "\<forall>(k, e) \<in> set (ps_entries s). entry_ok s e"
    by (simp_all add: pending_inv_def)
  have sub: "\<forall>(j, f) \<in> set (od_pop k (ps_entries s)). entry_ok s f"
    using all set_od_pop [of k "ps_entries s"] by blast
  then have "0 \<le> sizes (od_pop k (ps_entries s))" by (intro sizes_nonneg) (auto intro: entry_ok_nonneg)
  moreover have "0 \<le> e_size e" using all od_get_Some_mem [OF Some] entry_ok_nonneg by blast
  ultimately show ?thesis
    using inv Some sub sizes_pop [OF wf Some] by (simp add: remove_locked_def pending_inv_def)
qed (simp add: remove_locked_def)

lemma remove_all_inv: "pending_inv s \<Longrightarrow> pending_inv (remove_all ks s)"
  unfolding remove_all_def by (induction ks arbitrary: s) (auto intro: remove_locked_inv)

lemma purge_inv: "pending_inv s \<Longrightarrow> pending_inv (purge_expired now s)"
  unfolding purge_expired_def by (rule remove_all_inv)

lemma remove_locked_config [simp]:
  "ps_max_total (snd (remove_locked k s)) = ps_max_total s" "ps_max_payload (snd (remove_locked k s)) = ps_max_payload s"
  "ps_float_repr (snd (remove_locked k s)) = ps_float_repr s" "ps_ttl (snd (remove_locked k s)) = ps_ttl s"
  by (auto simp: remove_locked_def split: option.splits)

lemma remove_all_config [simp]:
  "ps_max_total (remove_all ks s) = ps_max_total s" "ps_max_payload (remove_all ks s) = ps_max_payload s"
  "ps_float_repr (remove_all ks s) = ps_float_repr s" "ps_ttl (remove_all ks s) = ps_ttl s"
  unfolding remove_all_def by (induction ks arbitrary: s) simp_all

lemma remove_locked_get:
  "od_get (ps_entries (snd (remove_locked k s))) j = (if j = k then None else od_get (ps_entries s) j)"
  by (auto simp: remove_locked_def split: option.splits)

lemma remove_all_get:
  "od_get (ps_entries (remove_all ks s)) j = (if j \<in> set ks then None else od_get (ps_entries s) j)"
  unfolding remove_all_def by (induction ks arbitrary: s) (simp_all add: remove_locked_get)

lemma purge_get:
  "od_wf (ps_entries s) \<Longrightarrow> od_get (ps_entries (purge_expired now s)) j =
    (case od_get (ps_entries s) j of Some e \<Rightarrow> if e_expires e \<le> now then None else Some e | None \<Rightarrow> None)"
  unfolding purge_expired_def remove_all_get
  by (auto split: option.splits simp: map_of_eq_None_iff image_iff dest: eq_key_imp_eq_value)

lemma purge_config [simp]:
  "ps_max_total (purge_expired now s) = ps_max_total s" "ps_max_payload (purge_expired now s) = ps_max_payload s"
  "ps_float_repr (purge_expired now s) = ps_float_repr s" "ps_ttl (purge_expired now s) = ps_ttl s"
  by (simp_all add: purge_expired_def)

lemma admit_inv:
  assumes inv: "pending_inv s" and e: "entry_ok s e"
    and adm: "admit_entry k e s = (ok, s')"
  shows "pending_inv s'"
proof (cases "s' = s")
  case False
  with adm have le: "ps_total s - (case od_get (ps_entries s) k of None \<Rightarrow> 0 | Some f \<Rightarrow> e_size f) + e_size e \<le> ps_max_total s"
    and s': "s' = s\<lparr>ps_entries := od_set k e (ps_entries s),
      ps_total := ps_total s - (case od_get (ps_entries s) k of None \<Rightarrow> 0 | Some f \<Rightarrow> e_size f) + e_size e\<rparr>"
    by (simp_all add: admit_entry_def Let_def split: if_split_asm)
  have "\<forall>(j, f) \<in> set (od_set k e (ps_entries s)). entry_ok s f"
    using inv e set_od_set [of k e "ps_entries s"] unfolding pending_inv_def by blast
  with inv le show ?thesis by (simp add: s' pending_inv_def sizes_set)
qed (use inv in simp)

lemma put_inv: "pending_inv s \<Longrightarrow> pending_inv (snd (pending_put now scope turn lease digest result ttl s))"
proof -
  assume inv: "pending_inv s"
  have "pending_inv (snd (admit_entry k e (purge_expired now s)))" if "entry_ok s e" for k e
    using admit_inv [OF purge_inv [OF inv], of now e k] that by (metis entry_ok_def prod.collapse purge_config(2,3))
  with inv show ?thesis
    by (simp add: pending_put_def Let_def entry_ok_def split: option.split)
qed

lemma get_inv: "pending_inv s \<Longrightarrow> pending_inv (snd (pending_get now scope turn lease s))"
  by (auto simp: pending_get_def Let_def purge_inv split: option.split intro!: remove_locked_inv)

lemma delete_inv: "pending_inv s \<Longrightarrow> pending_inv (snd (pending_delete scope turn s))"
  by (simp add: pending_delete_def Let_def remove_all_inv)

lemma delete_if_lease_inv: "pending_inv s \<Longrightarrow> pending_inv (snd (delete_if_lease now scope turn lease s))"
  by (auto simp: delete_if_lease_def Let_def purge_inv split: option.split intro!: remove_locked_inv)

lemma clear_inv:
  "pending_inv s \<Longrightarrow> pending_inv (snd (clear_by_prefix now p s))"
  "pending_inv s \<Longrightarrow> pending_inv (snd (clear_scope now scope s))"
  by (simp_all add: clear_by_prefix_def clear_scope_def Let_def purge_inv remove_all_inv)

section \<open>The store as a machine\<close>

datatype pending_event =
    PPut time string string string string "json option" "int option"
  | PGet time string string "string option"
  | PDelete string string
  | PDeleteLease time string string string
  | PClearPrefix time string
  | PClearScope time string
  | PClearAll

fun pending_step :: "pending_store \<Rightarrow> pending_event \<Rightarrow> pending_store" where
  "pending_step s (PPut now scope turn lease digest result ttl) = snd (pending_put now scope turn lease digest result ttl s)"
| "pending_step s (PGet now scope turn lease) = snd (pending_get now scope turn lease s)"
| "pending_step s (PDelete scope turn) = snd (pending_delete scope turn s)"
| "pending_step s (PDeleteLease now scope turn lease) = snd (delete_if_lease now scope turn lease s)"
| "pending_step s (PClearPrefix now p) = snd (clear_by_prefix now p s)"
| "pending_step s (PClearScope now scope) = snd (clear_scope now scope s)"
| "pending_step s PClearAll = clear_all s"

lemma pending_step_inv: "pending_inv s \<Longrightarrow> pending_inv (pending_step s ev)"
proof (cases ev)
  case PClearAll
  assume "pending_inv s"
  then have "sizes [] \<le> ps_max_total s"
    using sizes_nonneg [of "ps_entries s"] entry_ok_nonneg by (fastforce simp: pending_inv_def sizes_def)
  with PClearAll show ?thesis by (simp add: clear_all_def pending_inv_def sizes_def)
qed (simp_all add: put_inv get_inv delete_inv delete_if_lease_inv clear_inv)

interpretation pending: safe_machine pending_step pending_inv "\<lambda>s ev. True"
  by unfold_locales (rule pending_step_inv)

lemma pending_inv_new: "pending_inv (new_pending_store ttl mp mt fr)"
  by (simp add: new_pending_store_def pending_inv_def sizes_def)

text \<open>The limits of a store and its rendering of numbers are fixed when it is created.\<close>

lemma pending_step_config:
  "ps_max_total (pending_step s ev) = ps_max_total s \<and> ps_max_payload (pending_step s ev) = ps_max_payload s
    \<and> ps_float_repr (pending_step s ev) = ps_float_repr s"
  by (cases ev) (auto simp: pending_put_def pending_get_def pending_delete_def delete_if_lease_def clear_by_prefix_def
      clear_scope_def clear_all_def admit_entry_def Let_def split: option.split)

lemma pending_run_config:
  "ps_max_total (run_machine pending_step s evs) = ps_max_total s
    \<and> ps_max_payload (run_machine pending_step s evs) = ps_max_payload s
    \<and> ps_float_repr (run_machine pending_step s evs) = ps_float_repr s"
  by (induction evs arbitrary: s) (simp_all add: pending_step_config)

text \<open>
  Claim C34: the staged bytes are bounded. After any sequence of operations on a store that was
  created with two limits (each at least one), the encoded payloads it holds, the compact JSON
  texts in UTF-8, have together exactly the length its byte counter says and at most the total
  limit, none of them is longer than the payload limit, and every key is stored once.
\<close>

theorem staged_bytes_are_bounded:
  "let s = run_machine pending_step (new_pending_store ttl max_payload max_total fr) evs;
       lengths = map (\<lambda>(k, e). encoded_size fr (e_payload e)) (ps_entries s)
   in ps_total s = sum_list lengths \<and> sum_list lengths \<le> max 1 max_total
     \<and> (\<forall>n \<in> set lengths. n \<le> max 1 max_payload) \<and> distinct (map fst (ps_entries s))"
proof -
  let ?new = "new_pending_store ttl max_payload max_total fr"
  let ?s = "run_machine pending_step ?new evs"
  have inv: "pending_inv ?s" by (rule pending.run_inv_unguarded) (simp_all add: pending_inv_new)
  have config: "ps_max_total ?s = max 1 max_total" "ps_max_payload ?s = max 1 max_payload" "ps_float_repr ?s = fr"
    using pending_run_config [of ?new evs] by (simp_all add: new_pending_store_def)
  have entries: "entry_ok ?s e" if "(k, e) \<in> set (ps_entries ?s)" for k e
    using inv that by (auto simp: pending_inv_def)
  have "sum_list (map (\<lambda>(k, e). encoded_size fr (e_payload e)) (ps_entries ?s)) = sizes (ps_entries ?s)"
    unfolding sizes_def using entries config(3) by (intro arg_cong [of _ _ sum_list] map_cong) (auto simp: entry_ok_def)
  moreover have "encoded_size fr (e_payload e) \<le> max 1 max_payload" if "(k, e) \<in> set (ps_entries ?s)" for k e
    using entries [OF that] config by (simp add: entry_ok_def)
  ultimately show ?thesis using inv config(1) by (auto simp: pending_inv_def Let_def)
qed

definition demo_staging :: pending_store where
  "demo_staging = run_machine pending_step (new_pending_store 60 1000 150 (\<lambda>x. ''1.0''))
     [PPut 100 ''s'' ''t'' ''L1'' ''d'' (Some (JStr ''answer'')) None, PPut 101 ''s'' ''t'' ''L2'' ''d'' (Some (JStr ''answer'')) None]"

theorem staged_bytes_are_bounded_witness:
  "map (\<lambda>(k, e). encoded_size (\<lambda>x. ''1.0'') (e_payload e)) (ps_entries demo_staging) = [ps_total demo_staging]
    \<and> 0 < ps_total demo_staging \<and> ps_total demo_staging \<le> 150"
proof -
  have "length (ps_entries demo_staging) = 1" "0 < ps_total demo_staging" by code_simp+
  then obtain k e where one: "ps_entries demo_staging = [(k, e)]" "0 < ps_total demo_staging" by (auto simp: length_Suc_conv)
  show ?thesis
    using staged_bytes_are_bounded [of 60 1000 150 "\<lambda>x. ''1.0''"
        "[PPut 100 ''s'' ''t'' ''L1'' ''d'' (Some (JStr ''answer'')) None, PPut 101 ''s'' ''t'' ''L2'' ''d'' (Some (JStr ''answer'')) None]",
        folded demo_staging_def] one by simp
qed

section \<open>What was staged is what is replayed\<close>

lemma decode_encode:
  "encode_payload lease digest (Some r) now = Some v \<Longrightarrow>
    decode_pending_result fr v scope turn fb = Some \<lparr>pr_scope = scope, pr_turn = turn, pr_lease = lease,
      pr_digest = digest, pr_result = r, pr_created = (if now = 0 then fb else now)\<rparr>"
  by (auto simp: encode_payload_def decode_pending_result_def jget_def j_or_def)

definition effective_ttl :: "pending_store \<Rightarrow> int option \<Rightarrow> int" where
  "effective_ttl s ttl_arg = max 1 (case ttl_arg of None \<Rightarrow> ps_ttl s | Some t \<Rightarrow> if t = 0 then ps_ttl s else t)"

lemma purge_keeps:
  "pending_inv s \<Longrightarrow> od_get (ps_entries s) k = Some e \<Longrightarrow> t < e_expires e \<Longrightarrow> od_get (ps_entries (purge_expired t s)) k = Some e"
  by (simp add: purge_get pending_inv_def)

lemma admit_other: "k' \<noteq> k \<Longrightarrow> od_get (ps_entries (snd (admit_entry k' e' s))) k = od_get (ps_entries s) k"
  by (simp add: admit_entry_def Let_def)

lemma other_lease_keeps:
  assumes inv: "pending_inv s" and e: "od_get (ps_entries s) (pending_key scope turn lease) = Some e"
    and t: "t < e_expires e" and other: "lease' \<noteq> lease"
  shows "od_get (ps_entries (snd (delete_if_lease t scope turn lease' s))) (pending_key scope turn lease) = Some e"
    and "od_get (ps_entries (snd (pending_put t scope turn lease' digest result ttl s))) (pending_key scope turn lease) = Some e"
proof -
  have ne: "pending_key scope turn lease' \<noteq> pending_key scope turn lease" using other by (simp add: pending_key_def)
  note keep = purge_keeps [OF inv e t]
  show "od_get (ps_entries (snd (delete_if_lease t scope turn lease' s))) (pending_key scope turn lease) = Some e"
    using ne keep e by (auto simp: delete_if_lease_def Let_def remove_locked_get split: option.split)
  show "od_get (ps_entries (snd (pending_put t scope turn lease' digest result ttl s))) (pending_key scope turn lease) = Some e"
    using ne keep e by (auto simp: pending_put_def Let_def admit_other split: option.split)
qed

text \<open>
  A result that was staged can be read back under its lease until its time to
  live elapses, with the digest, the result and the creation time it was staged with; and an
  operation of a worker that holds a different lease of the same turn, staging its own
  result or deleting, in between does not change that.
\<close>

theorem staged_result_survives_other_leases:
  assumes inv: "pending_inv s" and put: "pending_put t0 scope turn lease digest (Some r) ttl s = (True, s1)"
    and other: "lease' \<noteq> lease"
    and t1: "t1 < t0 + real_of_int (effective_ttl s ttl)" and t2: "t2 < t0 + real_of_int (effective_ttl s ttl)"
    and mid: "s2 = snd (delete_if_lease t1 scope turn lease' s1)
      \<or> s2 = snd (pending_put t1 scope turn lease' digest' result' ttl' s1)"
  shows "fst (pending_get t2 scope turn (Some lease) s2) = Some \<lparr>pr_scope = scope, pr_turn = turn,
    pr_lease = lease, pr_digest = digest, pr_result = r, pr_created = t0\<rparr>"
proof -
  let ?key = "pending_key scope turn lease"
  from put obtain v size where ids: "scope \<noteq> []" "turn \<noteq> []" "lease \<noteq> []"
    and v: "encode_payload lease digest (Some r) t0 = Some v"
    and adm: "admit_entry ?key \<lparr>e_lease = lease, e_payload = v, e_created = t0,
        e_expires = t0 + real_of_int (effective_ttl s ttl), e_size = size\<rparr> (purge_expired t0 s) = (True, s1)"
    by (auto simp: pending_put_def Let_def effective_ttl_def split: if_splits option.splits)
  then obtain e where e: "od_get (ps_entries s1) ?key = Some e" "e_payload e = v" "e_created e = t0"
    "e_expires e = t0 + real_of_int (effective_ttl s ttl)"
    by (auto simp: admit_entry_def Let_def split: if_splits)
  have inv1: "pending_inv s1" using put_inv [OF inv, of t0 scope turn lease digest "Some r" ttl] put by simp
  have inv2: "pending_inv s2"
    using mid inv1 by (auto intro: delete_if_lease_inv put_inv)
  have "od_get (ps_entries s2) ?key = Some e"
    using mid other_lease_keeps [OF inv1 e(1) _ other] t1 e(4) by auto
  from purge_keeps [OF inv2 this] t2 e(4) have "od_get (ps_entries (purge_expired t2 s2)) ?key = Some e" by simp
  with ids e(2,3) show ?thesis
    using decode_encode [OF v, of _ scope turn t0] by (auto simp: pending_get_def Let_def)
qed

theorem staged_result_survives_other_leases_witness:
  "let s0 = new_pending_store 60 1000 5000 (\<lambda>x. ''1.0'');
       s1 = snd (pending_put 100 ''s'' ''t'' ''L1'' ''d'' (Some (JStr ''answer'')) None s0)
   in fst (pending_get 150 ''s'' ''t'' (Some ''L1'') (snd (delete_if_lease 120 ''s'' ''t'' ''L2'' s1)))
      = Some \<lparr>pr_scope = ''s'', pr_turn = ''t'', pr_lease = ''L1'', pr_digest = ''d'', pr_result = JStr ''answer'', pr_created = 100\<rparr>"
proof -
  let ?s0 = "new_pending_store 60 1000 5000 (\<lambda>x. ''1.0'')"
  let ?out = "pending_put 100 ''s'' ''t'' ''L1'' ''d'' (Some (JStr ''answer'')) None ?s0"
  have "fst ?out = True" by code_simp
  then have put: "?out = (True, snd ?out)" by (metis prod.collapse)
  have ttl: "effective_ttl ?s0 None = 60" by (simp add: effective_ttl_def new_pending_store_def)
  have "fst (pending_get 150 ''s'' ''t'' (Some ''L1'') (snd (delete_if_lease 120 ''s'' ''t'' ''L2'' (snd ?out))))
     = Some \<lparr>pr_scope = ''s'', pr_turn = ''t'', pr_lease = ''L1'', pr_digest = ''d'', pr_result = JStr ''answer'', pr_created = 100\<rparr>"
    by (rule staged_result_survives_other_leases [OF pending_inv_new put, of "''L2''" 120 150]) (simp_all add: ttl)
  then show ?thesis by (simp add: Let_def)
qed

end
