(* ===== verification/Job_Store.thy ===== *)
theory Job_Store
  imports Py_Json
begin

text \<open>
  The in-process store of background jobs (\<open>MemoryJobStore\<close> in
  \<open>app/utils/job_store.py\<close>): admission of rebuild, sync and delete jobs, their updates and
  their removal. A job is a JSON object; the jobs are keyed by the JSON value of their id.
  The first 32 hex digits of a SHA-256 digest are a parameter \<open>env\<close> of the keys. A
  status or type that is a list or an object, on which the membership tests of the source
  raise \<open>TypeError\<close>, counts as no running job here. The Redis backend is not modelled.
\<close>

section \<open>Jobs\<close>

type_synonym job = jdict

record job_env =
  je_digest :: "string \<Rightarrow> string"
  je_float_repr :: "real \<Rightarrow> string"

datatype job_error = JobKeyError | JobTypeError | JobValueError | JobAttributeError

type_synonym response = "job_error + jdict \<times> nat"

definition is_running :: "job \<Rightarrow> bool" where
  "is_running j \<longleftrightarrow> jget j ''status'' \<in> {JStr ''queued'', JStr ''running''}"

definition is_delete :: "job \<Rightarrow> bool" where
  "is_delete j \<longleftrightarrow> jget j ''type'' = JStr ''delete_knowledge_base''"

definition is_rebuild :: "job \<Rightarrow> bool" where
  "is_rebuild j \<longleftrightarrow> jget j ''type'' \<in> {JStr ''rebuild'', JStr ''rebuild_index''}"

definition job_kb :: "job \<Rightarrow> json" where
  "job_kb j = j_or (jget j ''knowledge_base_id'') (JStr ''default'')"

definition job_text :: "job_env \<Rightarrow> job \<Rightarrow> string \<Rightarrow> string" where
  "job_text env j k = py_str (je_float_repr env) (j_or (jget j k) (JStr []))"

definition target_text :: "job_env \<Rightarrow> job \<Rightarrow> string" where
  "target_text env j = job_text env j ''workspace_id'' @ '':'' @ py_str (je_float_repr env) (job_kb j)"

definition data_source_sync_key :: "job_env \<Rightarrow> job \<Rightarrow> string" where
  "data_source_sync_key env j = je_digest env (target_text env j @ '':'' @ job_text env j ''data_source_id'')"

definition knowledge_base_key :: "job_env \<Rightarrow> job \<Rightarrow> string" where
  "knowledge_base_key env j =
     (if job_text env j ''workspace_id'' = [] then [] else je_digest env (target_text env j))"

definition rebuild_key :: "job_env \<Rightarrow> job \<Rightarrow> string" where
  "rebuild_key env j = (if truthy (jget j ''workspace_id'') then je_digest env (target_text env j) else ''legacy'')"

definition same_knowledge_base :: "job_env \<Rightarrow> job \<Rightarrow> job \<Rightarrow> bool" where
  "same_knowledge_base env a b \<longleftrightarrow> job_text env a ''workspace_id'' \<noteq> []
     \<and> job_text env a ''workspace_id'' = job_text env b ''workspace_id'' \<and> job_kb a = job_kb b"

definition delete_conflict :: "json \<Rightarrow> jdict" where
  "delete_conflict i = [(''error'', JStr ''Knowledge base in eliminazione''),
     (''status'', JStr ''knowledge_base_deleting''), (''job_id'', i)]"

definition active_jobs_conflict :: "json \<Rightarrow> jdict" where
  "active_jobs_conflict i = [(''error'', JStr ''La knowledge base ha job attivi''),
     (''status'', JStr ''knowledge_base_has_active_jobs''), (''job_id'', i)]"

definition rebuild_conflict :: "json \<Rightarrow> jdict" where
  "rebuild_conflict i = [(''error'', JStr ''Ricostruzione indice gia' in corso''),
     (''status'', JStr ''conflict''), (''job_id'', i)]"

definition sync_conflict :: "json \<Rightarrow> job \<Rightarrow> jdict" where
  "sync_conflict i j = [(''error'', JStr ''Sync data source gia' in corso''),
     (''status'', JStr ''conflict''), (''job_id'', i),
     (''data_source_id'', case od_get j ''data_source_id'' of None \<Rightarrow> JStr [] | Some v \<Rightarrow> v)]"

section \<open>The store\<close>

record job_store =
  js_jobs :: "(json, job) odict"
  js_rebuild :: "(string, json) odict"
  js_sync :: "(string, json) odict"
  js_delete :: "(string, json) odict"

definition new_job_store :: job_store where
  "new_job_store = \<lparr>js_jobs = [], js_rebuild = [], js_sync = [], js_delete = []\<rparr>"

text \<open>\<open>job["id"]\<close> as a dictionary key: it must be present and hashable.\<close>

definition hashable :: "json \<Rightarrow> bool" where
  "hashable v = (case v of JArr xs \<Rightarrow> False | JObj d \<Rightarrow> False | _ \<Rightarrow> True)"

definition id_key :: "job \<Rightarrow> job_error + json" where
  "id_key j = (case od_get j ''id'' of None \<Rightarrow> Inl JobKeyError
     | Some v \<Rightarrow> if hashable v then Inr v else Inl JobTypeError)"

definition id_text_key :: "job_env \<Rightarrow> job \<Rightarrow> job_error + json" where
  "id_text_key env j = (case od_get j ''id'' of None \<Rightarrow> Inl JobKeyError
     | Some v \<Rightarrow> Inr (JStr (py_str (je_float_repr env) v)))"

definition public_job :: "job \<Rightarrow> job_error + job option" where
  "public_job j = (if j = [] then Inr None
     else case py_iter (case od_get j ''errors'' of None \<Rightarrow> JArr [] | Some v \<Rightarrow> v) of
            Inl x \<Rightarrow> Inl JobTypeError
          | Inr xs \<Rightarrow> Inr (Some (od_set ''knowledge_base_id'' (job_kb j) (od_set ''errors'' (JArr xs) j))))"

definition get_job :: "job_store \<Rightarrow> json \<Rightarrow> job_error + job option" where
  "get_job s i = (case od_get (js_jobs s) i of None \<Rightarrow> Inr None | Some j \<Rightarrow> public_job j)"

text \<open>\<open>return self.get(id) or stored, 202\<close>\<close>

definition accepted :: "job_store \<Rightarrow> json \<Rightarrow> job \<Rightarrow> response" where
  "accepted s i stored = (case get_job s i of
       Inl e \<Rightarrow> Inl e
     | Inr r \<Rightarrow> Inr (case r of None \<Rightarrow> stored | Some p \<Rightarrow> if p = [] then stored else p, 202))"

definition active_running :: "job_store \<Rightarrow> json option \<Rightarrow> bool" where
  "active_running s i = (case i of None \<Rightarrow> False
     | Some v \<Rightarrow> truthy v \<and> (case od_get (js_jobs s) v of None \<Rightarrow> False | Some j \<Rightarrow> is_running j))"

definition active_delete :: "job_env \<Rightarrow> job \<Rightarrow> job_store \<Rightarrow> string \<times> job_store" where
  "active_delete env j s =
     (let key = knowledge_base_key env j; active = od_get (js_delete s) key
      in if active_running s active then (py_str (je_float_repr env) (the active), s)
         else let s1 = (if (case active of None \<Rightarrow> False | Some v \<Rightarrow> truthy v)
                        then s\<lparr>js_delete := od_pop key (js_delete s)\<rparr> else s)
              in case find (\<lambda>c. is_delete c \<and> is_running c \<and> same_knowledge_base env c j) (map snd (js_jobs s1)) of
                   None \<Rightarrow> ([], s1)
                 | Some c \<Rightarrow> (job_text env c ''id'', s1\<lparr>js_delete := od_set key (JStr (job_text env c ''id'')) (js_delete s1)\<rparr>))"

definition active_jobs_for_target :: "job_env \<Rightarrow> job_store \<Rightarrow> job \<Rightarrow> job list" where
  "active_jobs_for_target env s j = filter (\<lambda>c. is_running c \<and> same_knowledge_base env c j) (map snd (js_jobs s))"

section \<open>Admission\<close>

definition set_default :: "string \<Rightarrow> json \<Rightarrow> jdict \<Rightarrow> jdict" where
  "set_default k v d = (if od_get d k = None then od_set k v d else d)"

definition create_rebuild_job :: "job_env \<Rightarrow> job \<Rightarrow> job_store \<Rightarrow> response \<times> job_store" where
  "create_rebuild_job env j s0 =
     (let (busy, s) = active_delete env j s0
      in if busy \<noteq> [] then (Inr (delete_conflict (JStr busy), 409), s)
         else let key = rebuild_key env j;
                  own = od_get (js_rebuild s) key;
                  active = (if key \<noteq> ''legacy'' \<and> (case own of None \<Rightarrow> True | Some v \<Rightarrow> \<not> truthy v)
                            then od_get (js_rebuild s) ''legacy'' else own)
              in if active_running s active then (Inr (rebuild_conflict (the active), 409), s)
                 else let stored = set_default ''type'' (JStr ''rebuild_index'') j
                      in case id_key stored of
                           Inl e \<Rightarrow> (Inl e, s)
                         | Inr i \<Rightarrow> let s' = s\<lparr>js_jobs := od_set i stored (js_jobs s), js_rebuild := od_set key i (js_rebuild s)\<rparr>
                                    in (accepted s' i stored, s'))"

definition create_data_source_sync_job :: "job_env \<Rightarrow> job \<Rightarrow> job_store \<Rightarrow> response \<times> job_store" where
  "create_data_source_sync_job env j s0 =
     (let (busy, s) = active_delete env j s0
      in if busy \<noteq> [] then (Inr (delete_conflict (JStr busy), 409), s)
         else case id_text_key env j of
                Inl e \<Rightarrow> (Inl e, s)
              | Inr i \<Rightarrow>
                  let key = data_source_sync_key env j; active = od_get (js_sync s) key
                  in if active_running s active then (Inr (sync_conflict (the active) j, 409), s)
                     else let s' = s\<lparr>js_jobs := od_set i j (js_jobs s), js_sync := od_set key i (js_sync s)\<rparr>
                          in (accepted s' i j, s'))"

definition create_delete_job :: "job_env \<Rightarrow> job \<Rightarrow> job_store \<Rightarrow> response \<times> job_store" where
  "create_delete_job env j s0 =
     (let key = knowledge_base_key env j
      in if key = [] then (Inl JobValueError, s0)
         else let (existing, s) = active_delete env j s0
              in if existing \<noteq> []
                 then (case get_job s (JStr existing) of
                         Inl e \<Rightarrow> Inl e
                       | Inr (Some p) \<Rightarrow> Inr (p, 202)
                       | Inr None \<Rightarrow> (case od_get (js_jobs s) (JStr existing) of
                             None \<Rightarrow> Inl JobKeyError | Some p \<Rightarrow> Inr (p, 202)), s)
                 else let legacy = od_get (js_rebuild s) ''legacy''
                      in if active_running s legacy then (Inr (active_jobs_conflict (the legacy), 409), s)
                         else case active_jobs_for_target env s j of
                                c # cs \<Rightarrow> (Inr (active_jobs_conflict (JStr (job_text env c ''id'')), 409), s)
                              | [] \<Rightarrow>
                                  let stored = od_set ''type'' (JStr ''delete_knowledge_base'') j
                                  in case id_text_key env stored of
                                       Inl e \<Rightarrow> (Inl e, s)
                                     | Inr i \<Rightarrow> let s' = s\<lparr>js_jobs := od_set i stored (js_jobs s), js_delete := od_set key i (js_delete s)\<rparr>
                                                in (accepted s' i stored, s'))"

definition create_job :: "job_env \<Rightarrow> job \<Rightarrow> job_store \<Rightarrow> response \<times> job_store" where
  "create_job env j s0 =
     (if is_delete j then create_delete_job env j s0
      else let (busy, s) = active_delete env j s0
           in if busy \<noteq> [] then (Inr (delete_conflict (JStr busy), 409), s)
              else case id_key j of
                     Inl e \<Rightarrow> (Inl e, s)
                   | Inr i \<Rightarrow> let s' = s\<lparr>js_jobs := od_set i j (js_jobs s)\<rparr> in (accepted s' i j, s'))"

definition knowledge_base_deletion_job_id :: "job_env \<Rightarrow> string \<Rightarrow> string \<Rightarrow> job_store \<Rightarrow> string \<times> job_store" where
  "knowledge_base_deletion_job_id env ws kb = active_delete env [(''workspace_id'', JStr ws), (''knowledge_base_id'', JStr kb)]"

section \<open>Progress and removal\<close>

definition patch_job :: "jdict \<Rightarrow> job \<Rightarrow> job" where
  "patch_job patch j = fold (\<lambda>(k, v). od_set k v) patch j"

definition update_job :: "string \<Rightarrow> jdict \<Rightarrow> job_store \<Rightarrow> job_store" where
  "update_job i patch s = (case od_get (js_jobs s) (JStr i) of
       None \<Rightarrow> s
     | Some j \<Rightarrow> if j = [] then s else s\<lparr>js_jobs := od_set (JStr i) (patch_job patch j) (js_jobs s)\<rparr>)"

definition append_error :: "string \<Rightarrow> string \<Rightarrow> string \<Rightarrow> job_store \<Rightarrow> (job_error + unit) \<times> job_store" where
  "append_error i filename msg s = (case od_get (js_jobs s) (JStr i) of
       None \<Rightarrow> (Inr (), s)
     | Some j \<Rightarrow>
         let d = set_default ''errors'' (JArr []) j
         in case jget d ''errors'' of
              JArr xs \<Rightarrow> (Inr (), s\<lparr>js_jobs := od_set (JStr i)
                 (od_set ''errors'' (JArr (xs @ [JObj [(''filename'', JStr filename), (''error'', JStr msg)]])) d) (js_jobs s)\<rparr>)
            | _ \<Rightarrow> (Inl JobAttributeError, s\<lparr>js_jobs := od_set (JStr i) d (js_jobs s)\<rparr>))"

definition release :: "string \<Rightarrow> json \<Rightarrow> (string, json) odict \<Rightarrow> (string, json) odict" where
  "release key i d = (if od_get d key = Some i then od_pop key d else d)"

definition finish_job :: "job_env \<Rightarrow> time \<Rightarrow> string \<Rightarrow> string \<Rightarrow> string \<Rightarrow> job_store \<Rightarrow> job_store" where
  "finish_job env now i status msg s = (case od_get (js_jobs s) (JStr i) of
       None \<Rightarrow> s
     | Some j0 \<Rightarrow> if j0 = [] then s
         else let j = patch_job [(''status'', JStr status), (''message'', JStr msg), (''current_file'', JStr []),
                                 (''finished_at'', JFloat now)] j0
              in s\<lparr>js_jobs := od_set (JStr i) j (js_jobs s),
                   js_rebuild := (if is_rebuild j then release (rebuild_key env j) (JStr i) (js_rebuild s) else js_rebuild s),
                   js_sync := (if jget j ''type'' = JStr ''data_source_sync''
                               then release (data_source_sync_key env j) (JStr i) (js_sync s) else js_sync s),
                   js_delete := (if is_delete j then release (knowledge_base_key env j) (JStr i) (js_delete s) else js_delete s)\<rparr>)"

definition active_jobs_count :: "string option \<Rightarrow> string option \<Rightarrow> job_store \<Rightarrow> nat" where
  "active_jobs_count ws kb s = length (filter (\<lambda>j. is_running j
      \<and> (case ws of None \<Rightarrow> True | Some w \<Rightarrow> jget j ''workspace_id'' = JStr w)
      \<and> (case kb of None \<Rightarrow> True | Some b \<Rightarrow> job_kb j = JStr b)) (map snd (js_jobs s)))"

definition clear_job_ids :: "json list \<Rightarrow> job_store \<Rightarrow> job_store" where
  "clear_job_ids ids s = s\<lparr>js_rebuild := filter (\<lambda>(k, i). i \<notin> set ids) (js_rebuild s),
     js_sync := filter (\<lambda>(k, i). i \<notin> set ids) (js_sync s), js_delete := filter (\<lambda>(k, i). i \<notin> set ids) (js_delete s)\<rparr>"

definition remove_jobs :: "json list \<Rightarrow> job_store \<Rightarrow> job_store" where
  "remove_jobs ids s = clear_job_ids ids (s\<lparr>js_jobs := od_pop_all ids (js_jobs s)\<rparr>)"

definition clear_by_knowledge_base :: "string \<Rightarrow> string \<Rightarrow> string option \<Rightarrow> job_store \<Rightarrow> nat \<times> job_store" where
  "clear_by_knowledge_base ws kb keep s =
     (if ws = [] \<or> kb = [] then (0, s)
      else let ids = map fst (filter (\<lambda>(i, j). jget j ''workspace_id'' = JStr ws \<and> job_kb j = JStr kb
                 \<and> i \<noteq> (case keep of None \<Rightarrow> JNull | Some k \<Rightarrow> JStr k)) (js_jobs s))
           in (length ids, remove_jobs ids s))"

definition clear_by_workspace :: "string \<Rightarrow> job_store \<Rightarrow> nat \<times> job_store" where
  "clear_by_workspace ws s =
     (if ws = [] then (0, s)
      else let ids = map fst (filter (\<lambda>(i, j). jget j ''workspace_id'' = JStr ws) (js_jobs s))
           in (length ids, remove_jobs ids s))"

definition clear_jobs :: "job_store \<Rightarrow> job_store" where
  "clear_jobs s = s\<lparr>js_jobs := [], js_rebuild := [], js_sync := [], js_delete := []\<rparr>"

end
