(* ===== verification/Job_Exclusion.thy ===== *)
theory Job_Exclusion
  imports Job_Store
begin

text \<open>
  What the admission of jobs guarantees: a knowledge base under deletion has no other job
  running, and an index has at most one rebuild running.
\<close>

section \<open>Fields of a job\<close>

lemma jget_set [simp]: "jget (od_set k v d) k' = (if k' = k then v else jget d k')"
  by (simp add: jget_def)

lemma jget_default [simp]: "k' \<noteq> k \<Longrightarrow> jget (set_default k v d) k' = jget d k'"
  by (simp add: set_default_def)

lemma patch_get: "k \<notin> fst ` set patch \<Longrightarrow> od_get (patch_job patch j) k = od_get j k"
  unfolding patch_job_def by (induction patch arbitrary: j) auto

lemma patch_jget: "k \<notin> fst ` set patch \<Longrightarrow> jget (patch_job patch j) k = jget j k"
  by (simp add: jget_def patch_get)

lemma patch_values: "jget (patch_job patch j) k = v \<Longrightarrow> jget j k = v \<or> (k, v) \<in> set patch"
  unfolding patch_job_def
proof (induction patch arbitrary: j)
  case Nil
  then show ?case by simp
next
  case (Cons p patch)
  obtain a b where p: "p = (a, b)" by (cases p)
  from Cons.IH [of "od_set a b j"] Cons.prems p show ?case by (auto split: if_splits)
qed

text \<open>Two jobs with the same target and type.\<close>

definition same_fields :: "job \<Rightarrow> job \<Rightarrow> bool" where
  "same_fields a b \<longleftrightarrow> jget a ''workspace_id'' = jget b ''workspace_id''
     \<and> jget a ''knowledge_base_id'' = jget b ''knowledge_base_id'' \<and> jget a ''type'' = jget b ''type''
     \<and> od_get a ''id'' = od_get b ''id''"

lemma same_fieldsD:
  assumes "same_fields a b"
  shows "rebuild_key env a = rebuild_key env b" "is_delete a = is_delete b" "is_rebuild a = is_rebuild b"
    "same_knowledge_base env a c = same_knowledge_base env b c" "same_knowledge_base env c a = same_knowledge_base env c b"
    "od_get a ''id'' = od_get b ''id''"
  using assms by (simp_all add: same_fields_def rebuild_key_def is_delete_def is_rebuild_def same_knowledge_base_def
      target_text_def job_text_def job_kb_def)

lemma same_kb_sym: "same_knowledge_base env a b = same_knowledge_base env b a"
  by (auto simp: same_knowledge_base_def)

lemma same_kb_trans: "same_knowledge_base env a b \<Longrightarrow> same_knowledge_base env a c = same_knowledge_base env b c"
  by (auto simp: same_knowledge_base_def)

section \<open>The invariant\<close>

definition good_id :: "job \<Rightarrow> json \<Rightarrow> bool" where
  "good_id j i \<longleftrightarrow> (\<exists>t. t \<noteq> [] \<and> i = JStr t) \<and> od_get j ''id'' = Some i"

definition jobs_inv :: "job_env \<Rightarrow> job_store \<Rightarrow> bool" where
  "jobs_inv env s \<longleftrightarrow> od_wf (js_jobs s)
     \<and> (\<forall>i j. od_get (js_jobs s) i = Some j \<longrightarrow> good_id j i)
     \<and> (\<forall>i d k j. od_get (js_jobs s) i = Some d \<and> od_get (js_jobs s) k = Some j \<and> is_delete d \<and> is_running d
          \<and> is_running j \<and> same_knowledge_base env d j \<longrightarrow> i = k)
     \<and> (\<forall>i j. od_get (js_jobs s) i = Some j \<and> is_rebuild j \<and> is_running j \<longrightarrow>
          od_get (js_rebuild s) (rebuild_key env j) = Some i)"

lemma jobs_invD:
  assumes "jobs_inv env s"
  shows "od_wf (js_jobs s)" "od_get (js_jobs s) i = Some j \<Longrightarrow> good_id j i"
    "od_get (js_jobs s) i = Some d \<Longrightarrow> od_get (js_jobs s) k = Some j \<Longrightarrow> is_delete d \<Longrightarrow> is_running d \<Longrightarrow>
       is_running j \<Longrightarrow> same_knowledge_base env d j \<Longrightarrow> i = k"
    "od_get (js_jobs s) i = Some j \<Longrightarrow> is_rebuild j \<Longrightarrow> is_running j \<Longrightarrow> od_get (js_rebuild s) (rebuild_key env j) = Some i"
  using assms unfolding jobs_inv_def by blast+

lemma jobs_inv_new: "jobs_inv env new_job_store"
  by (simp add: jobs_inv_def new_job_store_def)

text \<open>Adding a job.\<close>

lemma jobs_inv_add:
  assumes inv: "jobs_inv env s" and i: "good_id j i"
    and js: "js_jobs s' = od_set i j (js_jobs s)"
    and nodel: "\<And>k d. od_get (js_jobs s) k = Some d \<Longrightarrow> is_delete d \<Longrightarrow> is_running d \<Longrightarrow> same_knowledge_base env d j \<Longrightarrow> k = i"
    and alone: "\<And>k c. is_delete j \<Longrightarrow> od_get (js_jobs s) k = Some c \<Longrightarrow> is_running c \<Longrightarrow> same_knowledge_base env j c \<Longrightarrow> k = i"
    and reb: "\<And>k c. od_get (js_jobs s) k = Some c \<Longrightarrow> k \<noteq> i \<Longrightarrow> is_rebuild c \<Longrightarrow> is_running c \<Longrightarrow>
       od_get (js_rebuild s') (rebuild_key env c) = od_get (js_rebuild s) (rebuild_key env c)"
    and own: "is_rebuild j \<Longrightarrow> is_running j \<Longrightarrow> od_get (js_rebuild s') (rebuild_key env j) = Some i"
  shows "jobs_inv env s'"
  unfolding jobs_inv_def
proof (intro conjI allI impI)
  note D = jobs_invD [OF inv]
  show "od_wf (js_jobs s')" using D(1) by (simp add: js)
  fix k c assume kc: "od_get (js_jobs s') k = Some c"
  show "good_id c k" using kc i D(2) [of k c] by (auto simp: js split: if_splits)
next
  note D = jobs_invD [OF inv]
  fix a d k c
  assume A: "od_get (js_jobs s') a = Some d \<and> od_get (js_jobs s') k = Some c \<and> is_delete d \<and> is_running d
    \<and> is_running c \<and> same_knowledge_base env d c"
  show "a = k"
  proof (cases "a = i")
    case True
    show ?thesis
    proof (cases "k = i")
      case False
      with A True have "d = j" "od_get (js_jobs s) k = Some c" by (simp_all add: js)
      with A alone [of k c] True show ?thesis by auto
    qed (use True in simp)
  next
    case False
    with A have da: "od_get (js_jobs s) a = Some d" by (simp add: js)
    show ?thesis
    proof (cases "k = i")
      case True
      with A have "c = j" by (simp add: js)
      with A nodel [OF da] True show ?thesis by auto
    next
      case k: False
      with A have "od_get (js_jobs s) k = Some c" by (simp add: js)
      with A D(3) [OF da] show ?thesis by blast
    qed
  qed
next
  note D = jobs_invD [OF inv]
  fix k c assume "od_get (js_jobs s') k = Some c \<and> is_rebuild c \<and> is_running c"
  then show "od_get (js_rebuild s') (rebuild_key env c) = Some k"
    using own reb [of k c] D(4) [of k c] by (auto simp: js split: if_splits)
qed

text \<open>Rewriting a job without making it run.\<close>

lemma jobs_inv_rewrite:
  assumes inv: "jobs_inv env s" and old: "od_get (js_jobs s) i = Some j"
    and same: "same_fields j' j" and run: "is_running j' \<Longrightarrow> is_running j"
    and js: "js_jobs s' = od_set i j' (js_jobs s)"
    and reb: "\<And>k c. od_get (js_jobs s) k = Some c \<Longrightarrow> is_rebuild c \<Longrightarrow> is_running c \<Longrightarrow> k \<noteq> i \<or> is_running j' \<Longrightarrow>
       od_get (js_rebuild s') (rebuild_key env c) = od_get (js_rebuild s) (rebuild_key env c)"
  shows "jobs_inv env s'"
proof -
  note D = jobs_invD [OF inv] and F = same_fieldsD [OF same]
  have look: "od_get (js_jobs s') k = Some c \<Longrightarrow> (k = i \<and> c = j') \<or> (k \<noteq> i \<and> od_get (js_jobs s) k = Some c)" for k c
    by (simp add: js split: if_splits)
  show ?thesis
    unfolding jobs_inv_def
  proof (intro conjI allI impI)
    show "od_wf (js_jobs s')" using D(1) by (simp add: js)
    fix k c assume "od_get (js_jobs s') k = Some c"
    from look [OF this] show "good_id c k" using D(2) [of k c] D(2) [OF old] F(6) by (auto simp: good_id_def)
  next
    fix a d k c
    assume A: "od_get (js_jobs s') a = Some d \<and> od_get (js_jobs s') k = Some c \<and> is_delete d \<and> is_running d
      \<and> is_running c \<and> same_knowledge_base env d c"
    obtain d0 where d0: "od_get (js_jobs s) a = Some d0" "is_delete d0" "is_running d0" "same_knowledge_base env d0 x = same_knowledge_base env d x" for x
      using look [of a d] A old run F by (cases "a = i") auto
    obtain c0 where c0: "od_get (js_jobs s) k = Some c0" "is_running c0" "same_knowledge_base env x c0 = same_knowledge_base env x c" for x
      using look [of k c] A old run F by (cases "k = i") auto
    show "a = k" using D(3) [OF d0(1) c0(1) d0(2,3) c0(2)] d0(4) c0(3) A by simp
  next
    fix k c assume A: "od_get (js_jobs s') k = Some c \<and> is_rebuild c \<and> is_running c"
    show "od_get (js_rebuild s') (rebuild_key env c) = Some k"
    proof (cases "k = i")
      case True
      with A look [of k c] have "c = j'" by simp
      with A True F run have "is_rebuild j" "is_running j" "is_running j'" "rebuild_key env c = rebuild_key env j" by auto
      with reb [OF old] D(4) [OF old] True show ?thesis by simp
    next
      case False
      with A look [of k c] have kc: "od_get (js_jobs s) k = Some c" by simp
      with A False reb [OF kc] D(4) [OF kc] show ?thesis by simp
    qed
  qed
qed

text \<open>Removing jobs.\<close>

lemma map_of_filter_keep: "map_of d k = Some v \<Longrightarrow> P (k, v) \<Longrightarrow> map_of (filter P d) k = Some v"
  by (induction d) (auto split: if_splits)

lemma jobs_inv_remove: "jobs_inv env s \<Longrightarrow> jobs_inv env (remove_jobs ids s)"
proof -
  assume inv: "jobs_inv env s"
  note D = jobs_invD [OF inv]
  have js: "js_jobs (remove_jobs ids s) = od_pop_all ids (js_jobs s)"
    and rb: "js_rebuild (remove_jobs ids s) = filter (\<lambda>(k, i). i \<notin> set ids) (js_rebuild s)"
    by (simp_all add: remove_jobs_def clear_job_ids_def)
  show ?thesis
    unfolding jobs_inv_def js rb
  proof (intro conjI allI impI)
    show "od_wf (od_pop_all ids (js_jobs s))" using D(1) by simp
  next
    fix i j assume "od_get (od_pop_all ids (js_jobs s)) i = Some j"
    then show "good_id j i" using D(2) by (simp split: if_splits)
  next
    fix i d k j
    assume "od_get (od_pop_all ids (js_jobs s)) i = Some d \<and> od_get (od_pop_all ids (js_jobs s)) k = Some j
      \<and> is_delete d \<and> is_running d \<and> is_running j \<and> same_knowledge_base env d j"
    then show "i = k" using D(3) by (simp split: if_splits)
  next
    fix i j assume "od_get (od_pop_all ids (js_jobs s)) i = Some j \<and> is_rebuild j \<and> is_running j"
    then show "od_get (filter (\<lambda>(k, i). i \<notin> set ids) (js_rebuild s)) (rebuild_key env j) = Some i"
      using D(4) [of i j] by (intro map_of_filter_keep) (auto split: if_splits)
  qed
qed

section \<open>The admission check\<close>

lemma active_delete_frame:
  "active_delete env j s = (busy, s') \<Longrightarrow> js_jobs s' = js_jobs s \<and> js_rebuild s' = js_rebuild s \<and> js_sync s' = js_sync s"
  by (auto simp: active_delete_def Let_def split: if_splits option.splits)

lemma jobs_inv_frame: "jobs_inv env s \<Longrightarrow> js_jobs s' = js_jobs s \<Longrightarrow> js_rebuild s' = js_rebuild s \<Longrightarrow> jobs_inv env s'"
  by (simp add: jobs_inv_def)

lemma active_delete_inv: "jobs_inv env s \<Longrightarrow> active_delete env j s = (busy, s') \<Longrightarrow> jobs_inv env s'"
  using active_delete_frame by (blast intro: jobs_inv_frame)

text \<open>When the check finds nothing, no deletion of that knowledge base is running.\<close>

lemma active_delete_none:
  assumes inv: "jobs_inv env s" and none: "active_delete env j s = ([], s')"
    and d: "od_get (js_jobs s) k = Some d" "is_delete d" "is_running d"
  shows "\<not> same_knowledge_base env d j"
proof
  assume same: "same_knowledge_base env d j"
  note D = jobs_invD [OF inv]
  let ?key = "knowledge_base_key env j" and ?P = "\<lambda>c. is_delete c \<and> is_running c \<and> same_knowledge_base env c j"
  have dm: "d \<in> set (map snd (js_jobs s))" using od_get_Some_mem [OF d(1)] by force
  have idtext: "job_text env c ''id'' \<noteq> []" if "c \<in> set (map snd (js_jobs s))" for c
  proof -
    from that obtain i where "(i, c) \<in> set (js_jobs s)" by auto
    then have "od_get (js_jobs s) i = Some c" using D(1) by simp
    from D(2) [OF this] show ?thesis by (auto simp: good_id_def job_text_def jget_def j_or_def)
  qed
  have actv: "py_str (je_float_repr env) v \<noteq> []" if "active_running s (Some v)" for v
  proof -
    from that obtain j where "od_get (js_jobs s) v = Some j" by (auto simp: active_running_def split: option.splits)
    from D(2) [OF this] show ?thesis by (auto simp: good_id_def)
  qed
  show False
  proof (cases "active_running s (od_get (js_delete s) ?key)")
    case True
    then obtain v where v: "od_get (js_delete s) ?key = Some v" by (auto simp: active_running_def split: option.splits)
    with True none actv show False by (simp add: active_delete_def Let_def)
  next
    case False
    have "find ?P (map snd (js_jobs s)) \<noteq> None" using dm d(2,3) same by (auto simp: find_None_iff)
    then obtain c where c: "find ?P (map snd (js_jobs s)) = Some c" by blast
    then have "c \<in> set (map snd (js_jobs s))" by (auto simp: find_Some_iff)
    moreover have "job_text env c ''id'' = []"
      using none False c by (auto simp: active_delete_def Let_def split: if_splits)
    ultimately show False using idtext by blast
  qed
qed

section \<open>Every operation\<close>

lemma create_rebuild_inv:
  assumes inv: "jobs_inv env s" and i: "good_id j i" and nd: "\<not> is_delete j"
  shows "jobs_inv env (snd (create_rebuild_job env j s))"
proof -
  obtain busy s1 where a: "active_delete env j s = (busy, s1)" by (cases "active_delete env j s")
  have inv1: "jobs_inv env s1" using inv a by (rule active_delete_inv)
  have fr: "js_jobs s1 = js_jobs s" using active_delete_frame [OF a] by simp
  note D = jobs_invD [OF inv1]
  let ?st = "set_default ''type'' (JStr ''rebuild_index'') j" and ?key = "rebuild_key env j"
  have f: "rebuild_key env ?st = ?key" "same_knowledge_base env d ?st = same_knowledge_base env d j" for d
    by (simp_all add: rebuild_key_def same_knowledge_base_def target_text_def job_text_def job_kb_def)
  have st: "good_id ?st i" "\<not> is_delete ?st" using i nd
    by (auto simp: good_id_def set_default_def is_delete_def jget_def)
  then have idk: "id_key ?st = Inr i" by (auto simp: id_key_def good_id_def hashable_def)
  let ?s2 = "s1\<lparr>js_jobs := od_set i ?st (js_jobs s1), js_rebuild := od_set ?key i (js_rebuild s1)\<rparr>"
  have add: "jobs_inv env ?s2" if "busy = []" and free: "\<not> active_running s1 (od_get (js_rebuild s1) ?key)"
  proof (rule jobs_inv_add [OF inv1 st(1)])
    show "k = i" if "od_get (js_jobs s1) k = Some d" "is_delete d" "is_running d" "same_knowledge_base env d ?st" for k d
      using active_delete_none [OF inv a [unfolded \<open>busy = []\<close>], of k d] that fr f by simp
    show "od_get (js_rebuild ?s2) (rebuild_key env c) = od_get (js_rebuild s1) (rebuild_key env c)"
      if "od_get (js_jobs s1) k = Some c" "k \<noteq> i" "is_rebuild c" "is_running c" for k c
    proof -
      have "rebuild_key env c \<noteq> ?key"
        using D(4) [OF that(1,3,4)] D(2) [OF that(1)] that(1,4) free by (auto simp: active_running_def good_id_def)
      then show ?thesis by simp
    qed
  qed (use st f in auto)
  have free: "\<not> active_running s1 (od_get (js_rebuild s1) ?key)"
    if "\<not> active_running s1 (if ?key \<noteq> ''legacy'' \<and> (case od_get (js_rebuild s1) ?key of None \<Rightarrow> True | Some v \<Rightarrow> \<not> truthy v)
                            then od_get (js_rebuild s1) ''legacy'' else od_get (js_rebuild s1) ?key)"
    using that by (auto simp: active_running_def split: if_splits option.splits)
  show ?thesis
    using inv1 add free by (auto simp: create_rebuild_job_def a Let_def idk)
qed

lemma create_sync_inv:
  assumes inv: "jobs_inv env s" and i: "good_id j i" and nd: "\<not> is_delete j" "\<not> is_rebuild j"
  shows "jobs_inv env (snd (create_data_source_sync_job env j s))"
proof -
  obtain busy s1 where a: "active_delete env j s = (busy, s1)" by (cases "active_delete env j s")
  have inv1: "jobs_inv env s1" using inv a by (rule active_delete_inv)
  have fr: "js_jobs s1 = js_jobs s" using active_delete_frame [OF a] by simp
  have idk: "id_text_key env j = Inr i" using i by (auto simp: id_text_key_def good_id_def)
  have "jobs_inv env (s1\<lparr>js_jobs := od_set i j (js_jobs s1), js_sync := m\<rparr>)" if "busy = []" for m
    by (rule jobs_inv_add [OF inv1 i])
      (use active_delete_none [OF inv a [unfolded that]] fr nd in auto)
  with inv1 show ?thesis
    by (auto simp: create_data_source_sync_job_def a Let_def idk)
qed

lemma create_delete_inv:
  assumes inv: "jobs_inv env s" and i: "good_id j i"
  shows "jobs_inv env (snd (create_delete_job env j s))"
proof -
  obtain busy s1 where a: "active_delete env j s = (busy, s1)" by (cases "active_delete env j s")
  have inv1: "jobs_inv env s1" using inv a by (rule active_delete_inv)
  have fr: "js_jobs s1 = js_jobs s" using active_delete_frame [OF a] by simp
  let ?st = "od_set ''type'' (JStr ''delete_knowledge_base'') j"
  have f: "same_knowledge_base env d ?st = same_knowledge_base env d j" for d
    by (simp add: same_knowledge_base_def target_text_def job_text_def job_kb_def)
  have st: "good_id ?st i" "\<not> is_rebuild ?st" using i by (auto simp: good_id_def is_rebuild_def)
  then have idk: "id_text_key env ?st = Inr i" by (auto simp: id_text_key_def good_id_def)
  have add: "jobs_inv env (s1\<lparr>js_jobs := od_set i ?st (js_jobs s1), js_delete := m\<rparr>)"
    if none: "active_jobs_for_target env s1 j = []" for m
  proof -
    have idle: "\<not> (is_running c \<and> same_knowledge_base env c j)" if "od_get (js_jobs s1) k = Some c" for k c
      using none od_get_Some_mem [OF that] by (force simp: active_jobs_for_target_def filter_empty_conv)
    show ?thesis
      by (rule jobs_inv_add [OF inv1 st(1)]) (use idle f st(2) same_kb_sym in \<open>auto simp: same_kb_sym [of env ?st]\<close>)
  qed
  show ?thesis
    using inv inv1 add by (auto simp: create_delete_job_def a Let_def idk split: list.split)
qed

lemma create_job_inv:
  assumes inv: "jobs_inv env s" and i: "good_id j i" and nr: "\<not> is_rebuild j"
  shows "jobs_inv env (snd (create_job env j s))"
proof (cases "is_delete j")
  case True
  then show ?thesis using create_delete_inv [OF inv i] by (simp add: create_job_def)
next
  case False
  obtain busy s1 where a: "active_delete env j s = (busy, s1)" by (cases "active_delete env j s")
  have inv1: "jobs_inv env s1" using inv a by (rule active_delete_inv)
  have fr: "js_jobs s1 = js_jobs s" using active_delete_frame [OF a] by simp
  have idk: "id_key j = Inr i" using i by (auto simp: id_key_def good_id_def hashable_def)
  have "jobs_inv env (s1\<lparr>js_jobs := od_set i j (js_jobs s1)\<rparr>)" if "busy = []"
    by (rule jobs_inv_add [OF inv1 i])
      (use active_delete_none [OF inv a [unfolded that]] fr False nr in auto)
  with inv1 False show ?thesis by (auto simp: create_job_def a Let_def idk)
qed

definition protected_fields :: "string set" where
  "protected_fields = {''id'', ''type'', ''workspace_id'', ''knowledge_base_id''}"

text \<open>A patch that leaves the identity of the job alone and does not start it again.\<close>

definition patch_ok :: "jdict \<Rightarrow> job_store \<Rightarrow> string \<Rightarrow> bool" where
  "patch_ok patch s i \<longleftrightarrow> fst ` set patch \<inter> protected_fields = {}
     \<and> ((''status'', JStr ''queued'') \<in> set patch \<or> (''status'', JStr ''running'') \<in> set patch \<longrightarrow>
        (case od_get (js_jobs s) (JStr i) of None \<Rightarrow> True | Some j \<Rightarrow> is_running j))"

lemma patch_same_fields: "fst ` set patch \<inter> protected_fields = {} \<Longrightarrow> same_fields (patch_job patch j) j"
  unfolding same_fields_def protected_fields_def
  by (intro conjI patch_jget patch_get) auto

lemma update_job_inv:
  assumes inv: "jobs_inv env s" and ok: "patch_ok patch s i"
  shows "jobs_inv env (update_job i patch s)"
proof (cases "od_get (js_jobs s) (JStr i)")
  case None
  with inv show ?thesis by (simp add: update_job_def)
next
  case (Some j)
  have "jobs_inv env (s\<lparr>js_jobs := od_set (JStr i) (patch_job patch j) (js_jobs s)\<rparr>)"
  proof (rule jobs_inv_rewrite [OF inv Some])
    show "same_fields (patch_job patch j) j" using ok by (auto simp: patch_ok_def intro: patch_same_fields)
    show "is_running j" if "is_running (patch_job patch j)"
      using that ok Some patch_values [of patch j "''status''"] by (auto simp: is_running_def patch_ok_def)
  qed simp_all
  with Some inv show ?thesis by (simp add: update_job_def)
qed

lemma append_error_inv:
  assumes inv: "jobs_inv env s"
  shows "jobs_inv env (snd (append_error i f m s))"
proof (cases "od_get (js_jobs s) (JStr i)")
  case None
  with inv show ?thesis by (simp add: append_error_def)
next
  case (Some j)
  let ?d = "set_default ''errors'' (JArr []) j"
  have "jobs_inv env (s\<lparr>js_jobs := od_set (JStr i) d (js_jobs s)\<rparr>)" if "d = ?d \<or> (\<exists>v. d = od_set ''errors'' v ?d)" for d
    by (rule jobs_inv_rewrite [OF inv Some])
      (use that in \<open>auto simp: same_fields_def is_running_def set_default_def split: if_splits\<close>)
  with Some show ?thesis by (auto simp: append_error_def Let_def split: json.split)
qed

lemma finish_job_inv:
  assumes inv: "jobs_inv env s" and st: "status \<noteq> ''queued''" "status \<noteq> ''running''"
  shows "jobs_inv env (finish_job env now i status msg s)"
proof (cases "od_get (js_jobs s) (JStr i)")
  case None
  with inv show ?thesis by (simp add: finish_job_def)
next
  case (Some j0)
  define j where "j = patch_job [(''status'', JStr status), (''message'', JStr msg), (''current_file'', JStr []),
    (''finished_at'', JFloat now)] j0"
  have same: "same_fields j j0" unfolding j_def by (rule patch_same_fields) (simp add: protected_fields_def)
  have idle: "\<not> is_running j" using st by (simp add: j_def patch_job_def is_running_def)
  have "jobs_inv env s'" if js: "js_jobs s' = od_set (JStr i) j (js_jobs s)"
    and rb: "js_rebuild s' = js_rebuild s \<or> js_rebuild s' = release (rebuild_key env j) (JStr i) (js_rebuild s)" for s'
  proof (rule jobs_inv_rewrite [OF inv Some same _ js])
    fix k c assume kc: "od_get (js_jobs s) k = Some c" "is_rebuild c" "is_running c" "k \<noteq> JStr i \<or> is_running j"
    with idle jobs_invD(4) [OF inv kc(1-3)] rb
    show "od_get (js_rebuild s') (rebuild_key env c) = od_get (js_rebuild s) (rebuild_key env c)"
      by (auto simp: release_def)
  qed (use idle in simp)
  with Some inv show ?thesis by (simp add: finish_job_def Let_def j_def [symmetric])
qed

section \<open>The store as a machine\<close>

datatype job_event =
    JRebuild job
  | JCreate job
  | JSync job
  | JDelete job
  | JLookup string string
  | JUpdate string jdict
  | JError string string string
  | JFinish time string string string
  | JClearKb string string "string option"
  | JClearWorkspace string
  | JClear

fun job_step :: "job_env \<Rightarrow> job_store \<Rightarrow> job_event \<Rightarrow> job_store" where
  "job_step env s (JRebuild j) = snd (create_rebuild_job env j s)"
| "job_step env s (JCreate j) = snd (create_job env j s)"
| "job_step env s (JSync j) = snd (create_data_source_sync_job env j s)"
| "job_step env s (JDelete j) = snd (create_delete_job env j s)"
| "job_step env s (JLookup ws kb) = snd (knowledge_base_deletion_job_id env ws kb s)"
| "job_step env s (JUpdate i patch) = update_job i patch s"
| "job_step env s (JError i f m) = snd (append_error i f m s)"
| "job_step env s (JFinish now i status msg) = finish_job env now i status msg s"
| "job_step env s (JClearKb ws kb keep) = snd (clear_by_knowledge_base ws kb keep s)"
| "job_step env s (JClearWorkspace ws) = snd (clear_by_workspace ws s)"
| "job_step env s JClear = clear_jobs s"

text \<open>
  How the application uses the store: jobs carry a non-empty text id, rebuild jobs enter
  through their own call, patches leave the identity of a job alone, and a finished job is
  not set to run again.
\<close>

definition has_id :: "job \<Rightarrow> bool" where
  "has_id j \<longleftrightarrow> (case od_get j ''id'' of Some (JStr t) \<Rightarrow> t \<noteq> [] | _ \<Rightarrow> False)"

fun job_event_ok :: "job_store \<Rightarrow> job_event \<Rightarrow> bool" where
  "job_event_ok s (JRebuild j) = (has_id j \<and> \<not> is_delete j)"
| "job_event_ok s (JCreate j) = (has_id j \<and> \<not> is_rebuild j)"
| "job_event_ok s (JSync j) = (has_id j \<and> \<not> is_delete j \<and> \<not> is_rebuild j)"
| "job_event_ok s (JDelete j) = has_id j"
| "job_event_ok s (JUpdate i patch) = patch_ok patch s i"
| "job_event_ok s (JFinish now i status msg) = (status \<noteq> ''queued'' \<and> status \<noteq> ''running'')"
| "job_event_ok s ev = True"

lemma has_id_good: "has_id j \<Longrightarrow> \<exists>i. good_id j i"
  by (auto simp: has_id_def good_id_def split: option.splits json.splits)

lemma clear_jobs_inv:
  "jobs_inv env s \<Longrightarrow> jobs_inv env (snd (clear_by_knowledge_base ws kb keep s))"
  "jobs_inv env s \<Longrightarrow> jobs_inv env (snd (clear_by_workspace ws s))"
  "jobs_inv env (clear_jobs s)"
  by (simp_all add: clear_by_knowledge_base_def clear_by_workspace_def Let_def jobs_inv_remove)
    (simp add: clear_jobs_def jobs_inv_def)

lemma lookup_inv: "jobs_inv env s \<Longrightarrow> jobs_inv env (snd (knowledge_base_deletion_job_id env ws kb s))"
  unfolding knowledge_base_deletion_job_id_def by (metis active_delete_inv prod.collapse)

lemma job_step_inv: "jobs_inv env s \<Longrightarrow> job_event_ok s ev \<Longrightarrow> jobs_inv env (job_step env s ev)"
  by (cases ev) (simp_all add: update_job_inv append_error_inv finish_job_inv clear_jobs_inv lookup_inv,
      (blast dest: has_id_good intro: create_rebuild_inv create_job_inv create_sync_inv create_delete_inv)+)

interpretation jobs: safe_machine "job_step env" "jobs_inv env" job_event_ok for env
  by unfold_locales (rule job_step_inv)

lemma jobs_run: "jobs.admissible env new_job_store evs \<Longrightarrow> jobs_inv env (run_machine (job_step env) new_job_store evs)"
  by (rule jobs.run_inv [OF jobs_inv_new])


section \<open>Exclusion\<close>

text \<open>
  Claim C31: As long as the application gives jobs ids, hands the creation calls jobs of their own
  type (no rebuild to \<open>create_job\<close>, no deletion to the rebuild call, neither of them to the
  synchronisation call), does not restart finished jobs and does not rewrite their target, a
  knowledge base whose deletion is queued or running has no other job queued or running, after
  any sequence of calls to the store.
\<close>

theorem deletion_excludes_other_jobs:
  assumes adm: "jobs.admissible env new_job_store evs"
    and d: "od_get (js_jobs (run_machine (job_step env) new_job_store evs)) i = Some d" "is_delete d" "is_running d"
    and j: "od_get (js_jobs (run_machine (job_step env) new_job_store evs)) k = Some j" "is_running j"
    and same: "same_knowledge_base env d j"
  shows "i = k"
  using jobs_invD(3) [OF jobs_run [OF adm] d(1) j(1) d(2,3) j(2) same] .

definition demo_env :: job_env where
  "demo_env = \<lparr>je_digest = (\<lambda>s. s), je_float_repr = (\<lambda>x. ''0.0'')\<rparr>"

definition demo_job :: "string \<Rightarrow> string \<Rightarrow> job" where
  "demo_job i ty = [(''id'', JStr i), (''type'', JStr ty), (''status'', JStr ''queued''),
     (''workspace_id'', JStr ''w''), (''knowledge_base_id'', JStr ''kb'')]"

definition demo_events :: "job_event list" where
  "demo_events = [JRebuild (demo_job ''j1'' ''rebuild_index''), JDelete (demo_job ''j2'' ''x''),
     JFinish 10 ''j1'' ''completed'' ''ok'', JDelete (demo_job ''j3'' ''x''), JSync (demo_job ''j4'' ''data_source_sync'')]"

lemma demo_admissible: "jobs.admissible demo_env new_job_store demo_events"
  unfolding demo_events_def
  by (simp add: jobs.admissible.simps has_id_def demo_job_def is_delete_def is_rebuild_def jget_def)

theorem deletion_excludes_other_jobs_witness:
  "map fst (js_jobs (run_machine (job_step demo_env) new_job_store demo_events)) = [JStr ''j1'', JStr ''j3'']
    \<and> \<not> (\<exists>k j. od_get (js_jobs (run_machine (job_step demo_env) new_job_store demo_events)) k = Some j \<and> is_running j
        \<and> same_knowledge_base demo_env (od_set ''type'' (JStr ''delete_knowledge_base'') (demo_job ''j3'' ''x'')) j
        \<and> JStr ''j3'' \<noteq> k)"
proof -
  have d: "od_get (js_jobs (run_machine (job_step demo_env) new_job_store demo_events)) (JStr ''j3'')
      = Some (od_set ''type'' (JStr ''delete_knowledge_base'') (demo_job ''j3'' ''x''))"
    by code_simp
  have r: "is_delete (od_set ''type'' (JStr ''delete_knowledge_base'') (demo_job ''j3'' ''x''))"
    "is_running (od_set ''type'' (JStr ''delete_knowledge_base'') (demo_job ''j3'' ''x''))"
    by code_simp+
  have m: "map fst (js_jobs (run_machine (job_step demo_env) new_job_store demo_events)) = [JStr ''j1'', JStr ''j3'']"
    by code_simp
  from deletion_excludes_other_jobs [OF demo_admissible d r] m show ?thesis by blast
qed

text \<open>
  Under the same use, an index has at most one rebuild queued or running: two
  running rebuild jobs with the same target key are the same job.
\<close>

theorem one_rebuild_per_index:
  assumes adm: "jobs.admissible env new_job_store evs"
    and a: "od_get (js_jobs (run_machine (job_step env) new_job_store evs)) i = Some a" "is_rebuild a" "is_running a"
    and b: "od_get (js_jobs (run_machine (job_step env) new_job_store evs)) k = Some b" "is_rebuild b" "is_running b"
    and same: "rebuild_key env a = rebuild_key env b"
  shows "i = k"
  using jobs_invD(4) [OF jobs_run [OF adm] a] jobs_invD(4) [OF jobs_run [OF adm] b] same by simp

theorem one_rebuild_per_index_witness:
  "\<not> (\<exists>k b. od_get (js_jobs (run_machine (job_step demo_env) new_job_store (take 1 demo_events))) k = Some b
     \<and> is_rebuild b \<and> is_running b \<and> rebuild_key demo_env (demo_job ''j1'' ''rebuild_index'') = rebuild_key demo_env b
     \<and> JStr ''j1'' \<noteq> k)"
proof -
  have a: "od_get (js_jobs (run_machine (job_step demo_env) new_job_store (take 1 demo_events))) (JStr ''j1'')
      = Some (demo_job ''j1'' ''rebuild_index'')"
    by code_simp
  have r: "is_rebuild (demo_job ''j1'' ''rebuild_index'')" "is_running (demo_job ''j1'' ''rebuild_index'')"
    by code_simp+
  have "jobs.admissible demo_env new_job_store (take 1 demo_events)"
    by (simp add: demo_events_def jobs.admissible.simps has_id_def demo_job_def is_delete_def jget_def)
  from one_rebuild_per_index [OF this a r] show ?thesis by blast
qed

end
