(* ===== verification/Catalog_File.thy ===== *)
theory Catalog_File
  imports Py_Json
begin

text \<open>
  The shape shared by the JSON catalogs of a workspace
  (\<open>app/utils/knowledge_base_store.py\<close>, \<open>app/utils/chat_agent_store.py\<close>): one file,
  read and validated under the lock at the start of every operation, and replaced as a whole
  at its end. A file is missing (\<open>None\<close>), unreadable (\<open>Some None\<close>) or holds a JSON value;
  \<open>os.replace\<close> makes the write atomic, so a failed operation leaves the file as it was.
\<close>

type_synonym json_file = "json option option"

definition load_file :: "'e \<Rightarrow> (json \<Rightarrow> 'e + 'r list) \<Rightarrow> json_file \<Rightarrow> 'e + 'r list" where
  "load_file err parse f = (case f of Some (Some v) \<Rightarrow> parse v | _ \<Rightarrow> Inl err)"

text \<open>An operation on the records that may raise, may only read, or may write new records.\<close>

definition edit_file ::
  "'e \<Rightarrow> (json \<Rightarrow> 'e + 'r list) \<Rightarrow> ('r list \<Rightarrow> json) \<Rightarrow> ('r list \<Rightarrow> 'e + 'a \<times> 'r list option)
    \<Rightarrow> json_file \<Rightarrow> ('e + 'a) \<times> json_file" where
  "edit_file err parse render op f = (case load_file err parse f of
       Inl e \<Rightarrow> (Inl e, f)
     | Inr rs \<Rightarrow> (case op rs of
           Inl e \<Rightarrow> (Inl e, f)
         | Inr (x, None) \<Rightarrow> (Inr x, f)
         | Inr (x, Some rs') \<Rightarrow> (Inr x, Some (Some (render rs')))))"

lemma edit_file_error: "edit_file err parse render op f = (Inl e, f') \<Longrightarrow> f' = f"
  by (auto simp: edit_file_def split: sum.splits prod.splits option.splits)

lemma edit_file_ok:
  "edit_file err parse render op f = (Inr x, f') \<Longrightarrow>
    \<exists>rs w. load_file err parse f = Inr rs \<and> op rs = Inr (x, w)
      \<and> f' = (case w of None \<Rightarrow> f | Some rs' \<Rightarrow> Some (Some (render rs')))"
  by (auto simp: edit_file_def split: sum.splits prod.splits option.splits)

section \<open>The contract of a catalog\<close>

text \<open>
  The reader accepts what the writer produces from well-formed records and returns them
  unchanged, and everything the reader accepts is well formed. The client lemmas: an
  operation that keeps well-formedness keeps the file loadable, and the next reader sees
  exactly what was written.
\<close>

locale json_catalog =
  fixes err :: 'e
    and parse :: "json \<Rightarrow> 'e + 'r list"
    and render :: "'r list \<Rightarrow> json"
    and wf :: "'r list \<Rightarrow> bool"
  assumes parse_render: "wf rs \<Longrightarrow> parse (render rs) = Inr rs"
    and parse_wf: "parse v = Inr rs \<Longrightarrow> wf rs"
begin

lemma load_wf: "load_file err parse f = Inr rs \<Longrightarrow> wf rs"
  by (auto simp: load_file_def dest: parse_wf split: option.splits)

lemma load_written: "wf rs \<Longrightarrow> load_file err parse (Some (Some (render rs))) = Inr rs"
  by (simp add: load_file_def parse_render)

text \<open>What the next operation reads after one that wrote \<open>rs'\<close>.\<close>

lemma edit_then_load:
  assumes "edit_file err parse render op f = (Inr x, f')" and "load_file err parse f = Inr rs"
    and "op rs = Inr (x, Some rs')" and "wf rs'"
  shows "load_file err parse f' = Inr rs'"
  using assms edit_file_ok [OF assms(1)] load_written by auto

lemma edit_keeps:
  assumes "load_file err parse f = Inr rs" and "Q rs"
    and "\<And>x rs'. wf rs \<Longrightarrow> op rs = Inr (x, Some rs') \<Longrightarrow> wf rs' \<and> Q rs'"
  shows "\<exists>rs'. load_file err parse (snd (edit_file err parse render op f)) = Inr rs' \<and> Q rs'"
proof (cases "op rs")
  case (Inl e)
  with assms show ?thesis by (simp add: edit_file_def)
next
  case (Inr p)
  obtain x w where p: "p = (x, w)" by (cases p)
  show ?thesis
  proof (cases w)
    case None
    with assms Inr p show ?thesis by (simp add: edit_file_def)
  next
    case (Some rs')
    with assms(3) [OF load_wf [OF assms(1)]] Inr p have "wf rs'" "Q rs'" by auto
    with assms(1) Inr p Some show ?thesis by (simp add: edit_file_def load_written)
  qed
qed

lemma missing_stays_missing: "edit_file err parse render op None = (Inl err, None)"
  by (simp add: edit_file_def load_file_def)

end

section \<open>Helpers of both catalogs\<close>

text \<open>\<open>text.replace("Z", "+00:00")\<close>\<close>

definition replace_zulu :: "string \<Rightarrow> string" where
  "replace_zulu s = concat (map (\<lambda>c. if c = CHR ''Z'' then ''+00:00'' else [c]) s)"

text \<open>
  \<open>_validate_timestamp\<close>. The parser \<open>datetime.fromisoformat\<close> is a parameter \<open>dt\<close>:
  \<open>None\<close> when it raises, otherwise whether the result has a time zone.
\<close>

definition validate_timestamp ::
  "'e \<Rightarrow> (real \<Rightarrow> string) \<Rightarrow> (string \<Rightarrow> bool option) \<Rightarrow> json \<Rightarrow> 'e + string" where
  "validate_timestamp err fr dt v =
     (let ts = py_strip (py_str fr (j_or v (JStr [])))
      in if ts = [] then Inl err
         else case dt (replace_zulu ts) of None \<Rightarrow> Inl err | Some tz \<Rightarrow> if tz then Inr ts else Inl err)"

definition timestamp_ok :: "(string \<Rightarrow> bool option) \<Rightarrow> string \<Rightarrow> bool" where
  "timestamp_ok dt ts \<longleftrightarrow> ts \<noteq> [] \<and> py_trimmed ts \<and> dt (replace_zulu ts) = Some True"

lemma j_or_text: "j_or (JStr s) (JStr []) = JStr s"
  by (simp add: j_or_def)

lemma validate_timestamp_ok: "timestamp_ok dt ts \<Longrightarrow> validate_timestamp err fr dt (JStr ts) = Inr ts"
  by (simp add: timestamp_ok_def validate_timestamp_def Let_def j_or_text py_strip_trimmed)

lemma validate_timestamp_result: "validate_timestamp err fr dt v = Inr ts \<Longrightarrow> timestamp_ok dt ts"
  by (auto simp: timestamp_ok_def validate_timestamp_def Let_def split: if_splits option.splits)

text \<open>\<open>value == 1\<close> on a JSON value.\<close>

definition is_one :: "json \<Rightarrow> bool" where
  "is_one v \<longleftrightarrow> v \<in> {JInt 1, JBool True, JFloat 1}"

text \<open>A name is taken when another record has the same case-folded name.\<close>

definition name_taken :: "('r \<Rightarrow> string) \<Rightarrow> ('r \<Rightarrow> string) \<Rightarrow> string \<Rightarrow> string option \<Rightarrow> 'r list \<Rightarrow> bool" where
  "name_taken idf namef name exclude rs \<longleftrightarrow>
     (\<exists>r \<in> set rs. (case exclude of None \<Rightarrow> True | Some i \<Rightarrow> idf r \<noteq> i) \<and> py_casefold (namef r) = py_casefold name)"

text \<open>The unique keys of a catalog, checked record by record in file order.\<close>

fun collect_unique :: "'e \<Rightarrow> ('r \<Rightarrow> string) \<Rightarrow> ('r \<Rightarrow> string) \<Rightarrow> (json \<Rightarrow> (string set \<Rightarrow> string set \<Rightarrow> 'e + 'r))
    \<Rightarrow> string set \<Rightarrow> string set \<Rightarrow> json list \<Rightarrow> 'e + 'r list" where
  "collect_unique err idf namef read ids names [] = Inr []"
| "collect_unique err idf namef read ids names (v # vs) =
     bindE (read v ids names) (\<lambda>r.
     bindE (collect_unique err idf namef read (insert (idf r) ids) (insert (py_casefold (namef r)) names) vs) (\<lambda>rs.
     Inr (r # rs)))"

lemma collect_unique_result:
  assumes "\<And>v ids names r. read v ids names = Inr r \<Longrightarrow> P r \<and> idf r \<notin> ids \<and> py_casefold (namef r) \<notin> names"
  shows "collect_unique err idf namef read ids names vs = Inr rs \<Longrightarrow>
    list_all P rs \<and> distinct (map idf rs) \<and> distinct (map (\<lambda>r. py_casefold (namef r)) rs)
    \<and> set (map idf rs) \<inter> ids = {} \<and> set (map (\<lambda>r. py_casefold (namef r)) rs) \<inter> names = {}"
proof (induction vs arbitrary: ids names rs)
  case Nil
  then show ?case by simp
next
  case (Cons v vs)
  from Cons.prems obtain r qs where r: "read v ids names = Inr r" "rs = r # qs"
    and q: "collect_unique err idf namef read (insert (idf r) ids) (insert (py_casefold (namef r)) names) vs = Inr qs"
    by (auto simp: bindE_eq_Inr)
  from Cons.IH [OF q] assms [OF r(1)] r(2) show ?case by auto
qed

lemma collect_unique_render:
  assumes "\<And>r ids names. P r \<Longrightarrow> idf r \<notin> ids \<Longrightarrow> py_casefold (namef r) \<notin> names \<Longrightarrow> read (dump r) ids names = Inr r"
  shows "list_all P rs \<Longrightarrow> distinct (map idf rs) \<Longrightarrow> distinct (map (\<lambda>r. py_casefold (namef r)) rs)
    \<Longrightarrow> set (map idf rs) \<inter> ids = {} \<Longrightarrow> set (map (\<lambda>r. py_casefold (namef r)) rs) \<inter> names = {}
    \<Longrightarrow> collect_unique err idf namef read ids names (map dump rs) = Inr rs"
  by (induction rs arbitrary: ids names) (auto simp: assms)

section \<open>The keys of a catalog\<close>

definition keys_unique :: "('r \<Rightarrow> string) \<Rightarrow> ('r \<Rightarrow> string) \<Rightarrow> 'r list \<Rightarrow> bool" where
  "keys_unique idf namef rs \<longleftrightarrow>
     distinct (map idf rs) \<and> distinct (map (\<lambda>r. py_casefold (namef r)) rs)"

lemma keys_unique_empty: "keys_unique idf namef []"
  by (simp add: keys_unique_def)

lemma keys_unique_append:
  "keys_unique idf namef rs \<Longrightarrow> idf r \<notin> set (map idf rs) \<Longrightarrow> \<not> name_taken idf namef (namef r) None rs
    \<Longrightarrow> keys_unique idf namef (rs @ [r])"
  by (fastforce simp: keys_unique_def name_taken_def)

lemma keys_unique_filter: "keys_unique idf namef rs \<Longrightarrow> keys_unique idf namef (filter P rs)"
  by (induction rs) (auto simp: keys_unique_def)

text \<open>
  \<open>_find_record\<close> returns the first record with the id, and assigning to its fields changes
  that record in its place.
\<close>

fun update_first :: "('r \<Rightarrow> bool) \<Rightarrow> 'r \<Rightarrow> 'r list \<Rightarrow> 'r list" where
  "update_first P r' [] = []"
| "update_first P r' (r # rs) = (if P r then r' # rs else r # update_first P r' rs)"

lemma length_update_first [simp]: "length (update_first P r' rs) = length rs"
  by (induction rs) auto

lemma update_first_ids:
  "idf r' = i \<Longrightarrow> map idf (update_first (\<lambda>r. idf r = i) r' rs) = map idf rs"
  by (induction rs) auto

lemma list_all_update_first: "list_all Q rs \<Longrightarrow> Q r' \<Longrightarrow> list_all Q (update_first P r' rs)"
  by (induction rs) auto

lemma set_update_first: "set (update_first P r' rs) \<subseteq> insert r' (set rs)"
  by (induction rs) auto

lemma find_update_first:
  "idf r' = i \<Longrightarrow> find (\<lambda>r. idf r = j) (update_first (\<lambda>r. idf r = i) r' rs) =
    (if i = j \<and> find (\<lambda>r. idf r = i) rs \<noteq> None then Some r' else find (\<lambda>r. idf r = j) rs)"
  by (induction rs) auto

lemma not_taken_by_others:
  assumes "distinct (map (\<lambda>r. py_casefold (namef r)) rs)" and "r \<in> set rs"
  shows "\<not> name_taken idf namef (namef r) (Some (idf r)) rs"
  using assms by (auto simp: name_taken_def distinct_map inj_on_def)

lemma keys_unique_update:
  assumes "keys_unique idf namef rs" and "idf r' = i"
    and "\<not> name_taken idf namef (namef r') (Some i) rs"
  shows "keys_unique idf namef (update_first (\<lambda>r. idf r = i) r' rs)"
  using assms
proof (induction rs)
  case Nil
  then show ?case by (simp add: keys_unique_def)
next
  case (Cons q rs)
  have tail: "keys_unique idf namef rs" "\<not> name_taken idf namef (namef r') (Some i) rs"
    using Cons.prems by (auto simp: keys_unique_def name_taken_def)
  show ?case
  proof (cases "idf q = i")
    case True
    have "py_casefold (namef r') \<notin> (\<lambda>r. py_casefold (namef r)) ` set rs"
    proof
      assume "py_casefold (namef r') \<in> (\<lambda>r. py_casefold (namef r)) ` set rs"
      then obtain r where r: "r \<in> set rs" "py_casefold (namef r) = py_casefold (namef r')" by auto
      with tail(2) have "idf r = i" by (auto simp: name_taken_def)
      moreover have "idf r \<noteq> idf q"
      proof -
        have "idf r \<in> set (map idf rs)" using r(1) by simp
        moreover have "idf q \<notin> set (map idf rs)" using Cons.prems(1) by (simp add: keys_unique_def)
        ultimately show ?thesis by metis
      qed
      ultimately show False using True by simp
    qed
    with True Cons.prems show ?thesis by (auto simp: keys_unique_def)
  next
    case False
    have sub: "set (update_first (\<lambda>r. idf r = i) r' rs) \<subseteq> insert r' (set rs)"
      by (rule set_update_first)
    have ids: "map idf (update_first (\<lambda>r. idf r = i) r' rs) = map idf rs"
      using Cons.prems(2) by (rule update_first_ids)
    have "idf q \<notin> set (map idf (update_first (\<lambda>r. idf r = i) r' rs))"
      unfolding ids using Cons.prems(1) by (auto simp: keys_unique_def)
    moreover have "py_casefold (namef q) \<notin> set (map (\<lambda>r. py_casefold (namef r)) (update_first (\<lambda>r. idf r = i) r' rs))"
      using sub Cons.prems False by (fastforce simp: keys_unique_def name_taken_def)
    ultimately show ?thesis
      using False Cons.IH [OF tail(1) Cons.prems(2) tail(2)] by (simp add: keys_unique_def)
  qed
qed

section \<open>Bounded text fields\<close>

text \<open>A field that must be a text of \<open>lo\<close> to \<open>hi\<close> characters once stripped.\<close>

definition bounded_text :: "'e \<Rightarrow> nat \<Rightarrow> nat \<Rightarrow> json \<Rightarrow> 'e + string" where
  "bounded_text e lo hi v = (case v of
       JStr s \<Rightarrow> (let t = py_strip s in if lo \<le> length t \<and> length t \<le> hi then Inr t else Inl e)
     | _ \<Rightarrow> Inl e)"

definition text_ok :: "nat \<Rightarrow> nat \<Rightarrow> string \<Rightarrow> bool" where
  "text_ok lo hi s \<longleftrightarrow> py_trimmed s \<and> lo \<le> length s \<and> length s \<le> hi"

lemma bounded_text_result: "bounded_text e lo hi v = Inr s \<Longrightarrow> text_ok lo hi s"
  by (auto simp: bounded_text_def text_ok_def Let_def split: json.splits if_splits)

lemma bounded_text_ok: "text_ok lo hi s \<Longrightarrow> bounded_text e lo hi (JStr s) = Inr s"
  by (simp add: bounded_text_def text_ok_def Let_def py_strip_trimmed)

text \<open>\<open>uuid4().hex\<close>: 32 lower-case hexadecimal digits.\<close>

definition hex32 :: "string \<Rightarrow> bool" where
  "hex32 s \<longleftrightarrow> length s = 32 \<and> list_all py_is_hex_lower s"

lemma hex_not_space: "py_is_hex_lower c \<Longrightarrow> \<not> py_isspace c"
  by (auto simp: py_is_hex_lower_def py_isspace_def Let_def)

lemma hex32_trimmed: "hex32 s \<Longrightarrow> p \<noteq> [] \<Longrightarrow> \<not> py_isspace (hd p) \<Longrightarrow> py_trimmed (p @ s)"
  using last_in_set [of s] by (auto simp: hex32_def py_trimmed_def list_all_iff hex_not_space last_append)

end
