(* ===== verification/Knowledge_Bases.thy ===== *)
theory Knowledge_Bases
  imports Catalog_File
begin

text \<open>
  \<open>app/utils/knowledge_base_store.py\<close>: the catalog of the knowledge bases of a workspace.
  The state is the catalog file; every operation loads and validates it under the process
  lock and, if it changes a record, replaces the file. Identifiers (\<open>uuid4().hex\<close>) and the
  text of the current instant (\<open>_now()\<close>) are arguments. Exceptions keep their class, code and
  HTTP status; their messages are not modelled.
\<close>

section \<open>Data\<close>

datatype kb_status = Active | Deleting | DeleteFailed

text \<open>\<open>status in KNOWLEDGE_BASE_STATUSES\<close>, and the constant it is.\<close>

definition status_text :: "kb_status \<Rightarrow> string" where
  "status_text s = (case s of Active \<Rightarrow> ''active'' | Deleting \<Rightarrow> ''deleting'' | DeleteFailed \<Rightarrow> ''delete_failed'')"

definition status_of :: "string \<Rightarrow> kb_status option" where
  "status_of t = (if t = ''active'' then Some Active else if t = ''deleting'' then Some Deleting
     else if t = ''delete_failed'' then Some DeleteFailed else None)"

record kb_record =
  kb_id :: string
  kb_name :: string
  kb_description :: string
  kb_status :: kb_status
  kb_created :: string
  kb_updated :: string
  kb_error :: string
  kb_requester :: string

datatype kb_failure =
    KbCatalogError
  | KbValidationError string nat

definition default_id :: string where
  "default_id = ''default''"

section \<open>Validation of the fields\<close>

definition kb_id_pattern :: "string \<Rightarrow> bool" where
  "kb_id_pattern s \<longleftrightarrow> take 3 s = ''kb_'' \<and> hex32 (drop 3 s)"

definition validate_knowledge_base_id :: "(real \<Rightarrow> string) \<Rightarrow> json \<Rightarrow> kb_failure + string" where
  "validate_knowledge_base_id fr v =
     (if v = JNull then Inr default_id
      else let i = py_strip (py_str fr v)
        in if i = default_id then Inr i
           else if \<not> kb_id_pattern i then Inl (KbValidationError ''invalid_knowledge_base_id'' 400)
           else Inr i)"

definition validate_knowledge_base_name :: "json \<Rightarrow> kb_failure + string" where
  "validate_knowledge_base_name v =
     bounded_text (KbValidationError ''invalid_knowledge_base_name'' 400) 1 120 v"

definition validate_knowledge_base_description :: "json \<Rightarrow> kb_failure + string" where
  "validate_knowledge_base_description v =
     bounded_text (KbValidationError ''invalid_knowledge_base_description'' 400) 0 1000 v"

section \<open>Reading and writing the catalog\<close>

text \<open>One step of the loop of \<open>_validate_catalog\<close>; every failure is a catalog error.\<close>

definition as_catalog_error :: "kb_failure + 'a \<Rightarrow> kb_failure + 'a" where
  "as_catalog_error r = (case r of Inl e \<Rightarrow> Inl KbCatalogError | Inr x \<Rightarrow> Inr x)"

definition read_kb ::
  "(real \<Rightarrow> string) \<Rightarrow> (string \<Rightarrow> bool option) \<Rightarrow> json \<Rightarrow> string set \<Rightarrow> string set \<Rightarrow> kb_failure + kb_record" where
  "read_kb fr dt v ids names = (case v of
       JObj raw \<Rightarrow>
         (let i = py_str fr (j_or (jget raw ''id'') (JStr []))
          in bindE (as_catalog_error (validate_knowledge_base_id fr (JStr i))) (\<lambda>_.
             bindE (as_catalog_error (validate_knowledge_base_name (jget raw ''name''))) (\<lambda>n.
             bindE (as_catalog_error (validate_knowledge_base_description (jget raw ''description''))) (\<lambda>d.
             case status_of (py_str fr (j_or (jget raw ''status'') (JStr []))) of
               None \<Rightarrow> Inl KbCatalogError
             | Some st \<Rightarrow>
                 bindE (guardE (\<not> (i \<in> ids \<or> py_casefold n \<in> names)) KbCatalogError) (\<lambda>_.
                 bindE (validate_timestamp KbCatalogError fr dt (jget raw ''created_at'')) (\<lambda>created.
                 bindE (validate_timestamp KbCatalogError fr dt (jget raw ''updated_at'')) (\<lambda>updated.
                 Inr \<lparr>kb_id = i, kb_name = n, kb_description = d, kb_status = st,
                      kb_created = created, kb_updated = updated,
                      kb_error = take 1000 (py_str fr (j_or (jget raw ''delete_error'') (JStr []))),
                      kb_requester = py_str fr (j_or (jget raw ''delete_requester_api_key_id'') (JStr []))\<rparr>)))))))
     | _ \<Rightarrow> Inl KbCatalogError)"

definition default_count :: "kb_record list \<Rightarrow> nat" where
  "default_count rs = length (filter (\<lambda>r. kb_id r = default_id) rs)"

definition validate_kb_catalog ::
  "(real \<Rightarrow> string) \<Rightarrow> (string \<Rightarrow> bool option) \<Rightarrow> json \<Rightarrow> kb_failure + kb_record list" where
  "validate_kb_catalog fr dt v = (case v of
       JObj catalog \<Rightarrow>
         if \<not> is_one (jget catalog ''schema_version'') then Inl KbCatalogError
         else (case jget catalog ''knowledge_bases'' of
             JArr records \<Rightarrow>
               if records = [] then Inl KbCatalogError
               else bindE (collect_unique KbCatalogError kb_id kb_name (read_kb fr dt) {} {} records) (\<lambda>rs.
                    bindE (guardE (default_count rs = 1) KbCatalogError) (\<lambda>_. Inr rs))
           | _ \<Rightarrow> Inl KbCatalogError)
     | _ \<Rightarrow> Inl KbCatalogError)"

text \<open>The value \<open>json.load\<close> reads back from the text \<open>json.dump(..., sort_keys=True)\<close> wrote.\<close>

definition dump_kb :: "kb_record \<Rightarrow> json" where
  "dump_kb r = JObj [(''created_at'', JStr (kb_created r)), (''delete_error'', JStr (kb_error r)),
     (''delete_requester_api_key_id'', JStr (kb_requester r)), (''description'', JStr (kb_description r)),
     (''id'', JStr (kb_id r)), (''name'', JStr (kb_name r)), (''status'', JStr (status_text (kb_status r))),
     (''updated_at'', JStr (kb_updated r))]"

definition render_kb_catalog :: "kb_record list \<Rightarrow> json" where
  "render_kb_catalog rs =
     JObj [(''knowledge_bases'', JArr (map dump_kb rs)), (''schema_version'', JInt 1)]"

text \<open>\<open>_public_record\<close> hides the key that asked for the deletion and marks the default record.\<close>

definition public_kb :: "kb_record \<Rightarrow> json" where
  "public_kb r = JObj [(''id'', JStr (kb_id r)), (''name'', JStr (kb_name r)),
     (''description'', JStr (kb_description r)), (''status'', JStr (status_text (kb_status r))),
     (''created_at'', JStr (kb_created r)), (''updated_at'', JStr (kb_updated r)),
     (''delete_error'', JStr (kb_error r)), (''is_default'', JBool (kb_id r = default_id))]"

definition public_kb_catalog :: "kb_record list \<Rightarrow> json" where
  "public_kb_catalog rs =
     JObj [(''schema_version'', JInt 1), (''knowledge_bases'', JArr (map public_kb rs))]"

section \<open>Operations\<close>

definition default_record :: "string \<Rightarrow> kb_record" where
  "default_record now = \<lparr>kb_id = default_id, kb_name = ''General'', kb_description = [], kb_status = Active,
     kb_created = now, kb_updated = now, kb_error = [], kb_requester = []\<rparr>"

definition kb_ensure_default ::
  "(real \<Rightarrow> string) \<Rightarrow> (string \<Rightarrow> bool option) \<Rightarrow> string \<Rightarrow> json_file \<Rightarrow> (kb_failure + json) \<times> json_file" where
  "kb_ensure_default fr dt now f = (case f of
       None \<Rightarrow> (Inr (public_kb_catalog [default_record now]), Some (Some (render_kb_catalog [default_record now])))
     | Some _ \<Rightarrow> (case load_file KbCatalogError (validate_kb_catalog fr dt) f of
           Inl e \<Rightarrow> (Inl e, f)
         | Inr rs \<Rightarrow> (Inr (public_kb_catalog rs), f)))"

definition kb_list ::
  "(real \<Rightarrow> string) \<Rightarrow> (string \<Rightarrow> bool option) \<Rightarrow> json_file \<Rightarrow> kb_failure + json list" where
  "kb_list fr dt f = bindE (load_file KbCatalogError (validate_kb_catalog fr dt) f) (\<lambda>rs. Inr (map public_kb rs))"

definition kb_get ::
  "(real \<Rightarrow> string) \<Rightarrow> (string \<Rightarrow> bool option) \<Rightarrow> string \<Rightarrow> json_file \<Rightarrow> kb_failure + json option" where
  "kb_get fr dt i f = bindE (load_file KbCatalogError (validate_kb_catalog fr dt) f) (\<lambda>rs.
     Inr (map_option public_kb (find (\<lambda>r. kb_id r = i) rs)))"

abbreviation edit_kbs :: "(real \<Rightarrow> string) \<Rightarrow> (string \<Rightarrow> bool option)
    \<Rightarrow> (kb_record list \<Rightarrow> kb_failure + 'a \<times> kb_record list option) \<Rightarrow> json_file \<Rightarrow> (kb_failure + 'a) \<times> json_file" where
  "edit_kbs fr dt \<equiv> edit_file KbCatalogError (validate_kb_catalog fr dt) render_kb_catalog"

abbreviation kb_not_found :: kb_failure where
  "kb_not_found \<equiv> KbValidationError ''knowledge_base_not_found'' 404"

abbreviation kb_is_default :: kb_failure where
  "kb_is_default \<equiv> KbValidationError ''default_knowledge_base'' 409"

definition ensure_unique_name :: "kb_record list \<Rightarrow> string \<Rightarrow> string option \<Rightarrow> kb_failure + unit" where
  "ensure_unique_name rs name exclude =
     guardE (\<not> name_taken kb_id kb_name name exclude rs) (KbValidationError ''duplicate_knowledge_base_name'' 409)"

definition find_kb :: "kb_record list \<Rightarrow> string \<Rightarrow> kb_record option" where
  "find_kb rs i = find (\<lambda>r. kb_id r = i) rs"

definition replace_kb :: "kb_record \<Rightarrow> kb_record list \<Rightarrow> kb_record list" where
  "replace_kb r' rs = update_first (\<lambda>r. kb_id r = kb_id r') r' rs"

definition additional_count :: "kb_record list \<Rightarrow> nat" where
  "additional_count rs = length (filter (\<lambda>r. kb_id r \<noteq> default_id) rs)"

definition create_op ::
  "nat \<Rightarrow> string \<Rightarrow> string \<Rightarrow> string \<Rightarrow> string \<Rightarrow> kb_record list \<Rightarrow> kb_failure + json \<times> kb_record list option" where
  "create_op max_additional hex now name description rs =
     bindE (guardE (additional_count rs < max_additional) (KbValidationError ''knowledge_base_limit_reached'' 409)) (\<lambda>_.
     bindE (ensure_unique_name rs name None) (\<lambda>_.
       let r = \<lparr>kb_id = ''kb_'' @ hex, kb_name = name, kb_description = description, kb_status = Active,
                kb_created = now, kb_updated = now, kb_error = [], kb_requester = []\<rparr>
       in Inr (public_kb r, Some (rs @ [r]))))"

definition kb_create :: "(real \<Rightarrow> string) \<Rightarrow> (string \<Rightarrow> bool option) \<Rightarrow> nat \<Rightarrow> string \<Rightarrow> string \<Rightarrow> json \<Rightarrow> json
    \<Rightarrow> json_file \<Rightarrow> (kb_failure + json) \<times> json_file" where
  "kb_create fr dt max_additional hex now name description f =
     (case bindE (validate_knowledge_base_name name) (\<lambda>n.
           bindE (validate_knowledge_base_description description) (\<lambda>d. Inr (n, d))) of
        Inl e \<Rightarrow> (Inl e, f)
      | Inr (n, d) \<Rightarrow> edit_kbs fr dt (create_op max_additional hex now n d) f)"

definition update_op ::
  "string \<Rightarrow> string \<Rightarrow> json \<Rightarrow> json \<Rightarrow> kb_record list \<Rightarrow> kb_failure + json \<times> kb_record list option" where
  "update_op now i name description rs = (case find_kb rs i of
       None \<Rightarrow> Inl kb_not_found
     | Some r \<Rightarrow>
         if kb_status r = Deleting then Inl (KbValidationError ''knowledge_base_deleting'' 409)
         else bindE (if name = JNull then Inr (kb_name r)
                     else bindE (validate_knowledge_base_name name) (\<lambda>n.
                          bindE (ensure_unique_name rs n (Some i)) (\<lambda>_. Inr n))) (\<lambda>n.
              bindE (if description = JNull then Inr (kb_description r)
                     else validate_knowledge_base_description description) (\<lambda>d.
                let r' = r\<lparr>kb_name := n, kb_description := d, kb_updated := now\<rparr>
                in Inr (public_kb r', Some (replace_kb r' rs)))))"

definition kb_update where
  "kb_update fr dt now i name description f = edit_kbs fr dt (update_op now i name description) f"

definition set_status_op ::
  "string \<Rightarrow> string \<Rightarrow> kb_status \<Rightarrow> string \<Rightarrow> kb_record list \<Rightarrow> kb_failure + json \<times> kb_record list option" where
  "set_status_op now i status delete_error rs = (case find_kb rs i of
       None \<Rightarrow> Inl kb_not_found
     | Some r \<Rightarrow>
         if i = default_id \<and> status \<noteq> Active then Inl kb_is_default
         else let r' = r\<lparr>kb_status := status, kb_error := take 1000 delete_error,
                         kb_requester := (if status = Active then [] else kb_requester r), kb_updated := now\<rparr>
              in Inr (public_kb r', Some (replace_kb r' rs)))"

definition kb_set_status where
  "kb_set_status fr dt now i status delete_error f = (case status_of status of
       None \<Rightarrow> (Inl (KbValidationError ''invalid_knowledge_base'' 400), f)
     | Some st \<Rightarrow> edit_kbs fr dt (set_status_op now i st delete_error) f)"

definition begin_delete_op ::
  "string \<Rightarrow> string \<Rightarrow> string \<Rightarrow> kb_record list \<Rightarrow> kb_failure + json \<times> kb_record list option" where
  "begin_delete_op now i requester rs = (case find_kb rs i of
       None \<Rightarrow> Inl kb_not_found
     | Some r \<Rightarrow>
         if kb_status r \<noteq> Deleting then
           let r' = r\<lparr>kb_status := Deleting, kb_error := [], kb_requester := requester, kb_updated := now\<rparr>
           in Inr (public_kb r', Some (replace_kb r' rs))
         else if requester \<noteq> [] \<and> kb_requester r = [] then
           let r' = r\<lparr>kb_requester := requester, kb_updated := now\<rparr>
           in Inr (public_kb r', Some (replace_kb r' rs))
         else Inr (public_kb r, None))"

definition kb_begin_delete where
  "kb_begin_delete fr dt now i requester f =
     (if i = default_id then (Inl kb_is_default, f) else edit_kbs fr dt (begin_delete_op now i requester) f)"

definition kb_delete_requester ::
  "(real \<Rightarrow> string) \<Rightarrow> (string \<Rightarrow> bool option) \<Rightarrow> string \<Rightarrow> json_file \<Rightarrow> kb_failure + string" where
  "kb_delete_requester fr dt i f = bindE (load_file KbCatalogError (validate_kb_catalog fr dt) f) (\<lambda>rs.
     Inr (case find_kb rs i of None \<Rightarrow> [] | Some r \<Rightarrow> kb_requester r))"

definition kb_require_active ::
  "(real \<Rightarrow> string) \<Rightarrow> (string \<Rightarrow> bool option) \<Rightarrow> string \<Rightarrow> json_file \<Rightarrow> kb_failure + json" where
  "kb_require_active fr dt i f = bindE (load_file KbCatalogError (validate_kb_catalog fr dt) f) (\<lambda>rs.
     case find_kb rs i of
       None \<Rightarrow> Inl kb_not_found
     | Some r \<Rightarrow> (case kb_status r of
           Active \<Rightarrow> Inr (public_kb r)
         | Deleting \<Rightarrow> Inl (KbValidationError ''knowledge_base_deleting'' 409)
         | DeleteFailed \<Rightarrow> Inl (KbValidationError ''knowledge_base_delete_failed'' 409)))"

definition remove_op :: "string \<Rightarrow> kb_record list \<Rightarrow> kb_failure + bool \<times> kb_record list option" where
  "remove_op i rs = (let remaining = filter (\<lambda>r. kb_id r \<noteq> i) rs
     in if length remaining = length rs then Inr (False, None) else Inr (True, Some remaining))"

definition kb_remove where
  "kb_remove fr dt i f = (if i = default_id then (Inl kb_is_default, f) else edit_kbs fr dt (remove_op i) f)"

end
