(* ===== verification/Knowledge_Base_Safety.thy ===== *)
theory Knowledge_Base_Safety
  imports Knowledge_Bases
begin

text \<open>
  The knowledge-base catalog: the reader and the writer satisfy the contract of a JSON
  catalog, every operation keeps the file loadable, and a deletion in progress can only be
  ended by the deletion worker.
\<close>

section \<open>Well-formed catalogs\<close>

definition kb_id_ok :: "string \<Rightarrow> bool" where
  "kb_id_ok i \<longleftrightarrow> py_strip i = default_id \<or> kb_id_pattern (py_strip i)"

definition kb_wf :: "(string \<Rightarrow> bool option) \<Rightarrow> kb_record \<Rightarrow> bool" where
  "kb_wf dt r \<longleftrightarrow> kb_id_ok (kb_id r) \<and> text_ok 1 120 (kb_name r) \<and> text_ok 0 1000 (kb_description r)
     \<and> timestamp_ok dt (kb_created r) \<and> timestamp_ok dt (kb_updated r) \<and> length (kb_error r) \<le> 1000"

definition kbs_wf :: "(string \<Rightarrow> bool option) \<Rightarrow> kb_record list \<Rightarrow> bool" where
  "kbs_wf dt rs \<longleftrightarrow> list_all (kb_wf dt) rs \<and> keys_unique kb_id kb_name rs \<and> default_count rs = 1"

lemma default_count_ids: "default_count rs = length (filter (\<lambda>i. i = default_id) (map kb_id rs))"
  by (simp add: default_count_def filter_map comp_def)

lemma additional_count_ids: "additional_count rs = length (filter (\<lambda>i. i \<noteq> default_id) (map kb_id rs))"
  by (simp add: additional_count_def filter_map comp_def)

lemma status_of_text [simp]: "status_of (status_text s) = Some s"
  by (cases s) (simp_all add: status_text_def status_of_def)

lemma validate_id_result:
  "validate_knowledge_base_id fr (JStr i) = Inr j \<Longrightarrow> kb_id_ok i \<and> j = py_strip i"
  by (auto simp: validate_knowledge_base_id_def kb_id_ok_def Let_def split: if_splits)

lemma validate_id_ok: "kb_id_ok i \<Longrightarrow> validate_knowledge_base_id fr (JStr i) = Inr (py_strip i)"
  by (auto simp: validate_knowledge_base_id_def kb_id_ok_def Let_def)

lemma as_catalog_error_Inr [simp]: "as_catalog_error r = Inr x \<longleftrightarrow> r = Inr x"
  by (auto simp: as_catalog_error_def split: sum.splits)

lemma read_kb_result:
  assumes "read_kb fr dt v ids names = Inr r"
  shows "kb_wf dt r \<and> kb_id r \<notin> ids \<and> py_casefold (kb_name r) \<notin> names"
proof (cases v)
  case (JObj raw)
  define i where "i = py_str fr (j_or (jget raw ''id'') (JStr []))"
  obtain j n d st created updated where
    a: "validate_knowledge_base_id fr (JStr i) = Inr j"
      "validate_knowledge_base_name (jget raw ''name'') = Inr n"
      "validate_knowledge_base_description (jget raw ''description'') = Inr d"
      "validate_timestamp KbCatalogError fr dt (jget raw ''created_at'') = Inr created"
      "validate_timestamp KbCatalogError fr dt (jget raw ''updated_at'') = Inr updated"
    and b: "i \<notin> ids" "py_casefold n \<notin> names"
    and r: "kb_id r = i" "kb_name r = n" "kb_description r = d" "kb_created r = created"
      "kb_updated r = updated" "length (kb_error r) \<le> 1000"
    using assms unfolding JObj read_kb_def Let_def json.case i_def
    by (elim bindE_InrE) (auto simp: bindE_eq_Inr split: option.split_asm if_split_asm)
  have "kb_id_ok i" "text_ok 1 120 n" "text_ok 0 1000 d" "timestamp_ok dt created" "timestamp_ok dt updated"
    using a by (auto simp: validate_knowledge_base_name_def validate_knowledge_base_description_def
        dest: validate_id_result bounded_text_result validate_timestamp_result)
  with b r show ?thesis by (simp add: kb_wf_def)
qed (use assms in \<open>auto simp: read_kb_def\<close>)

lemma read_dump_kb:
  assumes "kb_wf dt r" and "kb_id r \<notin> ids" and "py_casefold (kb_name r) \<notin> names"
  shows "read_kb fr dt (dump_kb r) ids names = Inr r"
  using assms
  by (simp add: read_kb_def dump_kb_def jget_def kb_wf_def j_or_text validate_id_ok as_catalog_error_def
      validate_knowledge_base_name_def validate_knowledge_base_description_def bounded_text_ok
      validate_timestamp_ok)

lemma validate_render:
  assumes "kbs_wf dt rs"
  shows "validate_kb_catalog fr dt (render_kb_catalog rs) = Inr rs"
proof -
  have "collect_unique KbCatalogError kb_id kb_name (read_kb fr dt) {} {} (map dump_kb rs) = Inr rs"
    using assms by (intro collect_unique_render [where P = "kb_wf dt"] read_dump_kb)
      (auto simp: kbs_wf_def keys_unique_def)
  moreover have "rs \<noteq> []"
    using assms by (auto simp: kbs_wf_def default_count_def)
  ultimately show ?thesis
    using assms by (simp add: validate_kb_catalog_def render_kb_catalog_def jget_def is_one_def kbs_wf_def)
qed

lemma validate_result:
  assumes "validate_kb_catalog fr dt v = Inr rs"
  shows "kbs_wf dt rs"
proof (cases v)
  case (JObj d)
  obtain records where rec: "jget d ''knowledge_bases'' = JArr records"
    using assms JObj by (auto simp: validate_kb_catalog_def split: if_splits json.splits)
  have c: "collect_unique KbCatalogError kb_id kb_name (read_kb fr dt) {} {} records = Inr rs"
    and d: "default_count rs = 1"
    using assms JObj rec by (auto simp: validate_kb_catalog_def bindE_eq_Inr split: if_splits)
  show ?thesis
    using collect_unique_result [OF read_kb_result c] d by (simp add: kbs_wf_def keys_unique_def)
qed (use assms in \<open>auto simp: validate_kb_catalog_def\<close>)

interpretation kbs: json_catalog KbCatalogError "validate_kb_catalog fr dt" render_kb_catalog "kbs_wf dt"
  for fr dt
  by unfold_locales (auto intro: validate_render validate_result)

section \<open>Every operation keeps the catalog well formed\<close>

definition default_active :: "kb_record list \<Rightarrow> bool" where
  "default_active rs \<longleftrightarrow> (\<forall>r. find_kb rs default_id = Some r \<longrightarrow> kb_status r = Active)"

text \<open>What is kept besides well-formedness: the limit, and the default record in use.\<close>

definition kb_sound :: "nat \<Rightarrow> kb_record list \<Rightarrow> bool" where
  "kb_sound max_additional rs \<longleftrightarrow> additional_count rs \<le> max_additional \<and> default_active rs"

lemma find_kb_replace:
  "find_kb (replace_kb r' rs) j =
     (if kb_id r' = j \<and> find_kb rs (kb_id r') \<noteq> None then Some r' else find_kb rs j)"
  unfolding find_kb_def replace_kb_def by (rule find_update_first) simp

lemma find_kb_append: "find_kb (rs @ [r]) j =
    (case find_kb rs j of None \<Rightarrow> if kb_id r = j then Some r else None | Some q \<Rightarrow> Some q)"
  by (induction rs) (auto simp: find_kb_def)

lemma find_kb_None: "find_kb rs i = None \<longleftrightarrow> i \<notin> set (map kb_id rs)"
  by (induction rs) (auto simp: find_kb_def)

lemma find_kb_id: "find_kb rs i = Some r \<Longrightarrow> kb_id r = i \<and> r \<in> set rs"
  by (auto simp: find_kb_def dest: find_SomeD)

lemma replace_kb_wf:
  assumes "kbs_wf dt rs" and "kb_wf dt r'" and "\<not> name_taken kb_id kb_name (kb_name r') (Some (kb_id r')) rs"
  shows "kbs_wf dt (replace_kb r' rs)"
  using assms keys_unique_update [where idf = kb_id and namef = kb_name and r' = r' and i = "kb_id r'" and rs = rs]
  by (simp add: kbs_wf_def replace_kb_def list_all_update_first default_count_ids update_first_ids)

lemma replace_kb_sound:
  assumes "kb_sound m rs" and "find_kb rs (kb_id r') \<noteq> None"
    and "kb_id r' = default_id \<Longrightarrow> kb_status r' = Active"
  shows "kb_sound m (replace_kb r' rs)"
proof -
  have "additional_count (replace_kb r' rs) = additional_count rs"
    by (simp add: additional_count_ids replace_kb_def update_first_ids)
  moreover have "default_active (replace_kb r' rs)"
    using assms by (auto simp: default_active_def kb_sound_def find_kb_replace split: if_splits)
  ultimately show ?thesis using assms(1) by (simp add: kb_sound_def)
qed

lemma same_name_not_taken:
  "kbs_wf dt rs \<Longrightarrow> find_kb rs i = Some r \<Longrightarrow> \<not> name_taken kb_id kb_name (kb_name r) (Some (kb_id r)) rs"
  by (rule not_taken_by_others) (auto simp: kbs_wf_def keys_unique_def dest: find_kb_id)

lemma found_wf: "kbs_wf dt rs \<Longrightarrow> find_kb rs i = Some r \<Longrightarrow> kb_wf dt r \<and> kb_id r = i"
  by (auto simp: kbs_wf_def list_all_iff dest!: find_kb_id)

lemma create_op_result:
  assumes "create_op m hex now n d rs = Inr (x, Some rs')"
  shows "\<exists>r. rs' = rs @ [r] \<and> kb_id r = ''kb_'' @ hex \<and> kb_name r = n \<and> kb_description r = d
    \<and> kb_created r = now \<and> kb_updated r = now \<and> kb_error r = []
    \<and> additional_count rs < m \<and> \<not> name_taken kb_id kb_name n None rs"
  using assms by (auto simp: create_op_def bindE_eq_Inr ensure_unique_name_def guardE_eq_Inr Let_def split: if_splits)

lemma create_op_wf:
  assumes "kbs_wf dt rs" and "create_op m hex now n d rs = Inr (x, Some rs')"
    and "timestamp_ok dt now" and "hex32 hex" and "''kb_'' @ hex \<notin> set (map kb_id rs)"
    and "text_ok 1 120 n" and "text_ok 0 1000 d"
  shows "kbs_wf dt rs'"
proof -
  obtain r where r: "rs' = rs @ [r]" "kb_id r = ''kb_'' @ hex" "kb_name r = n" "kb_description r = d"
      "kb_created r = now" "kb_updated r = now" "kb_error r = []" "\<not> name_taken kb_id kb_name n None rs"
    using create_op_result [OF assms(2)] by blast
  have "py_trimmed (''kb_'' @ hex)"
    by (rule hex32_trimmed) (use assms(4) in \<open>simp_all add: py_isspace_def\<close>)
  then have "kb_id_ok (kb_id r)"
    using assms(4) by (simp add: kb_id_ok_def r py_strip_trimmed kb_id_pattern_def)
  then have "kb_wf dt r"
    using assms by (simp add: kb_wf_def r)
  moreover have "keys_unique kb_id kb_name (rs @ [r])"
    using assms(1,5) r by (intro keys_unique_append) (auto simp: kbs_wf_def)
  moreover have "kb_id r \<noteq> default_id"
    by (simp add: r default_id_def)
  ultimately show ?thesis
    using assms(1) by (simp add: kbs_wf_def r(1) default_count_def)
qed

lemma create_op_keeps:
  assumes "kbs_wf dt rs" and "kb_sound m rs" and "create_op m hex now n d rs = Inr (x, Some rs')"
    and "timestamp_ok dt now" and "hex32 hex" and "''kb_'' @ hex \<notin> set (map kb_id rs)"
    and "text_ok 1 120 n" and "text_ok 0 1000 d"
  shows "kbs_wf dt rs' \<and> kb_sound m rs'"
proof -
  obtain r where r: "rs' = rs @ [r]" "kb_id r = ''kb_'' @ hex" "additional_count rs < m"
    using create_op_result [OF assms(3)] by blast
  then have "kb_id r \<noteq> default_id"
    by (simp add: default_id_def)
  then have "kb_sound m rs'"
    using assms(2) r by (auto simp: kb_sound_def additional_count_def default_active_def find_kb_append
        split: option.splits)
  with create_op_wf [OF assms(1,3-8)] show ?thesis ..
qed

lemma update_op_keeps:
  assumes "kbs_wf dt rs" and "kb_sound m rs" and "update_op now i name description rs = Inr (x, Some rs')"
    and "timestamp_ok dt now"
  shows "kbs_wf dt rs' \<and> kb_sound m rs'"
proof -
  obtain r n d where r: "find_kb rs i = Some r" "kb_status r \<noteq> Deleting"
    and n: "(if name = JNull then Inr (kb_name r) else bindE (validate_knowledge_base_name name) (\<lambda>n.
              bindE (ensure_unique_name rs n (Some i)) (\<lambda>_. Inr n))) = Inr n"
    and d: "(if description = JNull then Inr (kb_description r)
              else validate_knowledge_base_description description) = Inr d"
    and rs': "rs' = replace_kb (r\<lparr>kb_name := n, kb_description := d, kb_updated := now\<rparr>) rs"
    using assms(3) by (auto simp: update_op_def Let_def bindE_eq_Inr split: option.splits if_splits)
  note w = found_wf [OF assms(1) r(1)]
  have "text_ok 1 120 n \<and> \<not> name_taken kb_id kb_name n (Some i) rs"
    using n w same_name_not_taken [OF assms(1) r(1)]
    by (auto simp: kb_wf_def validate_knowledge_base_name_def ensure_unique_name_def bindE_eq_Inr guardE_eq_Inr
        split: if_splits dest: bounded_text_result)
  moreover have "text_ok 0 1000 d"
    using d w by (auto simp: kb_wf_def validate_knowledge_base_description_def split: if_splits dest: bounded_text_result)
  ultimately show ?thesis
    unfolding rs' using w assms(4) r
    by (intro conjI replace_kb_wf [OF assms(1)] replace_kb_sound [OF assms(2)])
      (use assms(2) in \<open>auto simp: kb_wf_def kb_sound_def default_active_def\<close>)
qed

lemma set_status_op_keeps:
  assumes "kbs_wf dt rs" and "kb_sound m rs" and "set_status_op now i st err rs = Inr (x, Some rs')"
    and "timestamp_ok dt now"
  shows "kbs_wf dt rs' \<and> kb_sound m rs'"
proof -
  obtain r where r: "find_kb rs i = Some r" "i = default_id \<longrightarrow> st = Active"
    and rs': "rs' = replace_kb (r\<lparr>kb_status := st, kb_error := take 1000 err,
      kb_requester := (if st = Active then [] else kb_requester r), kb_updated := now\<rparr>) rs"
    using assms(3) by (auto simp: set_status_op_def Let_def split: option.splits if_splits)
  show ?thesis
    unfolding rs' using found_wf [OF assms(1) r(1)] same_name_not_taken [OF assms(1) r(1)] assms(4) r
    by (intro conjI replace_kb_wf [OF assms(1)] replace_kb_sound [OF assms(2)]) (auto simp: kb_wf_def)
qed

lemma begin_delete_op_keeps:
  assumes "kbs_wf dt rs" and "kb_sound m rs" and "begin_delete_op now i req rs = Inr (x, Some rs')"
    and "timestamp_ok dt now" and "i \<noteq> default_id"
  shows "kbs_wf dt rs' \<and> kb_sound m rs'"
proof -
  obtain r r' where r: "find_kb rs i = Some r" and rs': "rs' = replace_kb r' rs"
    and r': "kb_id r' = kb_id r" "kb_name r' = kb_name r" "kb_wf dt r \<Longrightarrow> kb_wf dt r'"
    using assms(3,4) by (fastforce simp: begin_delete_op_def Let_def kb_wf_def split: option.splits if_splits)
  show ?thesis
    unfolding rs' using found_wf [OF assms(1) r] same_name_not_taken [OF assms(1) r] assms(5) r r'
    by (intro conjI replace_kb_wf [OF assms(1)] replace_kb_sound [OF assms(2)]) auto
qed

lemma find_filter_other: "i \<noteq> j \<Longrightarrow> find_kb (filter (\<lambda>r. kb_id r \<noteq> i) rs) j = find_kb rs j"
  by (induction rs) (auto simp: find_kb_def)

lemma remove_op_keeps:
  assumes "kbs_wf dt rs" and "kb_sound m rs" and "remove_op i rs = Inr (x, Some rs')" and "i \<noteq> default_id"
  shows "kbs_wf dt rs' \<and> kb_sound m rs'"
proof -
  have rs': "rs' = filter (\<lambda>r. kb_id r \<noteq> i) rs"
    using assms(3) by (auto simp: remove_op_def Let_def split: if_splits)
  have "default_count rs' = default_count rs"
    using assms(4) by (auto simp: rs' default_count_def intro!: arg_cong [of _ _ length] filter_cong)
  moreover have "additional_count rs' \<le> additional_count rs"
    unfolding rs' additional_count_def filter_filter
    by (induction rs) auto
  ultimately show ?thesis
    using assms by (auto simp: rs' kbs_wf_def kb_sound_def list_all_iff keys_unique_filter default_active_def
        find_filter_other)
qed
end
