(* ===== verification/Knowledge_Base_Claims.thy ===== *)
theory Knowledge_Base_Claims
  imports Knowledge_Base_Safety
begin

text \<open>
  Runs of the knowledge-base catalog. An event is one call of a writing operation, with the
  identifier and the instant it draws; it is admissible when the instant is a time-stamp the
  loader accepts and a drawn identifier is not in use (the contract of \<open>uuid4\<close>).
\<close>

datatype kb_event =
    EvEnsure string
  | EvCreate string string json json
  | EvUpdate string string json json
  | EvSetStatus string string string string
  | EvBeginDelete string string string
  | EvRemove string

fun kb_step :: "(real \<Rightarrow> string) \<Rightarrow> (string \<Rightarrow> bool option) \<Rightarrow> nat \<Rightarrow> json_file \<Rightarrow> kb_event \<Rightarrow> json_file" where
  "kb_step fr dt m f (EvEnsure now) = snd (kb_ensure_default fr dt now f)"
| "kb_step fr dt m f (EvCreate hex now name d) = snd (kb_create fr dt m hex now name d f)"
| "kb_step fr dt m f (EvUpdate now i name d) = snd (kb_update fr dt now i name d f)"
| "kb_step fr dt m f (EvSetStatus now i st err) = snd (kb_set_status fr dt now i st err f)"
| "kb_step fr dt m f (EvBeginDelete now i req) = snd (kb_begin_delete fr dt now i req f)"
| "kb_step fr dt m f (EvRemove i) = snd (kb_remove fr dt i f)"

definition kb_load :: "(real \<Rightarrow> string) \<Rightarrow> (string \<Rightarrow> bool option) \<Rightarrow> json_file \<Rightarrow> kb_failure + kb_record list" where
  "kb_load fr dt f = load_file KbCatalogError (validate_kb_catalog fr dt) f"

fun kb_event_ok :: "(real \<Rightarrow> string) \<Rightarrow> (string \<Rightarrow> bool option) \<Rightarrow> json_file \<Rightarrow> kb_event \<Rightarrow> bool" where
  "kb_event_ok fr dt f (EvEnsure now) = timestamp_ok dt now"
| "kb_event_ok fr dt f (EvCreate hex now name d) = (timestamp_ok dt now \<and> hex32 hex
     \<and> (case kb_load fr dt f of Inl e \<Rightarrow> True | Inr rs \<Rightarrow> ''kb_'' @ hex \<notin> set (map kb_id rs)))"
| "kb_event_ok fr dt f (EvUpdate now i name d) = timestamp_ok dt now"
| "kb_event_ok fr dt f (EvSetStatus now i st err) = timestamp_ok dt now"
| "kb_event_ok fr dt f (EvBeginDelete now i req) = timestamp_ok dt now"
| "kb_event_ok fr dt f (EvRemove i) = True"

text \<open>What holds of the records of a loadable catalog in every reachable state.\<close>

definition kb_loads :: "(real \<Rightarrow> string) \<Rightarrow> (string \<Rightarrow> bool option) \<Rightarrow> (kb_record list \<Rightarrow> bool) \<Rightarrow> json_file \<Rightarrow> bool" where
  "kb_loads fr dt Q f \<longleftrightarrow> (\<exists>rs. kb_load fr dt f = Inr rs \<and> Q rs)"

lemma kb_loads_edit:
  assumes "kb_loads fr dt Q f"
    and "\<And>rs x rs'. kb_load fr dt f = Inr rs \<Longrightarrow> kbs_wf dt rs \<Longrightarrow> Q rs \<Longrightarrow> op rs = Inr (x, Some rs') \<Longrightarrow> kbs_wf dt rs' \<and> Q rs'"
  shows "kb_loads fr dt Q (snd (edit_kbs fr dt op f))"
proof -
  obtain rs where rs: "load_file KbCatalogError (validate_kb_catalog fr dt) f = Inr rs" "Q rs"
    using assms(1) by (auto simp: kb_loads_def kb_load_def)
  show ?thesis
    unfolding kb_loads_def kb_load_def
    by (rule kbs.edit_keeps [where Q = Q, OF rs]) (use assms(2) rs in \<open>auto simp: kb_load_def\<close>)
qed

lemma kb_missing:
  "kb_step fr dt m None ev = (case ev of EvEnsure now \<Rightarrow> Some (Some (render_kb_catalog [default_record now])) | _ \<Rightarrow> None)"
  by (cases ev) (auto simp: kb_ensure_default_def kb_create_def kb_update_def kb_set_status_def
      kb_begin_delete_def kb_remove_def edit_file_def load_file_def split: sum.splits option.splits)

lemma default_record_wf:
  assumes "timestamp_ok dt now"
  shows "kbs_wf dt [default_record now] \<and> kb_sound m [default_record now]"
  using assms
  by (simp add: kbs_wf_def kb_wf_def default_record_def keys_unique_def default_count_def kb_id_ok_def
      default_id_def text_ok_def py_trimmed_def py_isspace_def kb_sound_def additional_count_def
      default_active_def find_kb_def py_strip_def py_lstrip_def py_rstrip_def)

text \<open>A further predicate on the records that every write of an event keeps.\<close>

fun event_keeps :: "nat \<Rightarrow> (kb_record list \<Rightarrow> bool) \<Rightarrow> kb_event \<Rightarrow> bool" where
  "event_keeps m R (EvEnsure now) = True"
| "event_keeps m R (EvCreate hex now name d) =
     (\<forall>n d' rs x rs'. R rs \<longrightarrow> create_op m hex now n d' rs = Inr (x, Some rs') \<longrightarrow> R rs')"
| "event_keeps m R (EvUpdate now i name d) =
     (\<forall>rs x rs'. R rs \<longrightarrow> update_op now i name d rs = Inr (x, Some rs') \<longrightarrow> R rs')"
| "event_keeps m R (EvSetStatus now i st err) =
     (\<forall>s rs x rs'. R rs \<longrightarrow> set_status_op now i s err rs = Inr (x, Some rs') \<longrightarrow> R rs')"
| "event_keeps m R (EvBeginDelete now i req) =
     (\<forall>rs x rs'. R rs \<longrightarrow> begin_delete_op now i req rs = Inr (x, Some rs') \<longrightarrow> R rs')"
| "event_keeps m R (EvRemove i) =
     (\<forall>rs x rs'. R rs \<longrightarrow> remove_op i rs = Inr (x, Some rs') \<longrightarrow> R rs')"

lemma event_keeps_True: "event_keeps m (\<lambda>_. True) ev"
  by (cases ev) simp_all

definition sound_with :: "nat \<Rightarrow> (kb_record list \<Rightarrow> bool) \<Rightarrow> kb_record list \<Rightarrow> bool" where
  "sound_with m R rs \<longleftrightarrow> kb_sound m rs \<and> R rs"

lemma sound_with_True [simp]: "sound_with m (\<lambda>_. True) = kb_sound m"
  by (simp add: fun_eq_iff sound_with_def)

lemma kb_create_keeps:
  assumes "kb_loads fr dt (sound_with m R) f" and "kb_event_ok fr dt f (EvCreate hex now name d)"
    and "event_keeps m R (EvCreate hex now name d)"
  shows "kb_loads fr dt (sound_with m R) (snd (kb_create fr dt m hex now name d f))"
proof (cases "bindE (validate_knowledge_base_name name) (\<lambda>n.
           bindE (validate_knowledge_base_description d) (\<lambda>d. Inr (n, d)))")
  case (Inl e)
  with assms show ?thesis by (simp add: kb_create_def)
next
  case (Inr p)
  obtain n d' where p: "p = (n, d')" by (cases p)
  have t: "text_ok 1 120 n" "text_ok 0 1000 d'"
    using Inr p by (auto simp: bindE_eq_Inr validate_knowledge_base_name_def
        validate_knowledge_base_description_def dest: bounded_text_result)
  have "kbs_wf dt rs' \<and> sound_with m R rs'"
    if "kb_load fr dt f = Inr rs" "kbs_wf dt rs" "sound_with m R rs" "create_op m hex now n d' rs = Inr (x, Some rs')"
    for rs x rs'
    using create_op_keeps [OF that(2) _ that(4)] that assms(2,3) t by (auto simp: sound_with_def)
  then have "kb_loads fr dt (sound_with m R) (snd (edit_kbs fr dt (create_op m hex now n d') f))"
    by (rule kb_loads_edit [OF assms(1)])
  with Inr p show ?thesis by (simp add: kb_create_def)
qed

lemma kb_step_keeps:
  assumes "kb_loads fr dt (sound_with m R) f" and "kb_event_ok fr dt f ev" and "event_keeps m R ev"
  shows "kb_loads fr dt (sound_with m R) (kb_step fr dt m f ev)"
proof (cases ev)
  case (EvEnsure now)
  with assms(1) show ?thesis
    by (auto simp: kb_ensure_default_def kb_loads_def kb_load_def load_file_def split: option.splits)
next
  case (EvCreate hex now name d)
  with kb_create_keeps [OF assms(1)] assms show ?thesis by simp
next
  case (EvUpdate now i name d)
  with assms(2,3) show ?thesis
    by (auto simp: kb_update_def sound_with_def intro!: kb_loads_edit [OF assms(1)] dest: update_op_keeps)
next
  case (EvSetStatus now i st err)
  with assms show ?thesis
    by (auto simp: kb_set_status_def sound_with_def intro!: kb_loads_edit [OF assms(1)] dest: set_status_op_keeps
        split: option.splits)
next
  case (EvBeginDelete now i req)
  with assms show ?thesis
    by (auto simp: kb_begin_delete_def sound_with_def intro!: kb_loads_edit [OF assms(1)] dest: begin_delete_op_keeps)
next
  case (EvRemove i)
  with assms show ?thesis
    by (auto simp: kb_remove_def sound_with_def intro!: kb_loads_edit [OF assms(1)] dest: remove_op_keeps)
qed

definition kb_inv :: "(real \<Rightarrow> string) \<Rightarrow> (string \<Rightarrow> bool option) \<Rightarrow> nat \<Rightarrow> json_file \<Rightarrow> bool" where
  "kb_inv fr dt m f \<longleftrightarrow> f = None \<or> kb_loads fr dt (kb_sound m) f"

lemma kb_inv_step:
  assumes "kb_inv fr dt m f" and "kb_event_ok fr dt f ev"
  shows "kb_inv fr dt m (kb_step fr dt m f ev)"
proof (cases "f = None")
  case True
  show ?thesis
  proof (cases ev)
    case (EvEnsure now)
    with True assms(2) default_record_wf [of dt now m] show ?thesis
      by (simp add: kb_inv_def kb_missing kb_loads_def kb_load_def kbs.load_written del: kb_step.simps)
  qed (simp_all add: kb_inv_def True kb_missing del: kb_step.simps)
next
  case False
  with assms kb_step_keeps [where R = "\<lambda>_. True"] event_keeps_True show ?thesis by (auto simp: kb_inv_def)
qed

interpretation kb_machine: safe_machine "kb_step fr dt m" "kb_inv fr dt m" "kb_event_ok fr dt" for fr dt m
  by unfold_locales (rule kb_inv_step)

section \<open>A deletion in progress\<close>

text \<open>The events that end a deletion of \<open>i\<close>: the status change and the removal of the record.\<close>

fun ends_deletion :: "string \<Rightarrow> kb_event \<Rightarrow> bool" where
  "ends_deletion i (EvSetStatus now j st err) = (j = i)"
| "ends_deletion i (EvRemove j) = (j = i)"
| "ends_deletion i _ = False"

text \<open>An owner stays; an anonymous deletion, whose owner is empty, may get one.\<close>

definition adopted :: "string \<Rightarrow> string \<Rightarrow> bool" where
  "adopted owner x \<longleftrightarrow> owner = [] \<or> x = owner"

lemma adopted_refl [simp]: "adopted owner owner"
  by (simp add: adopted_def)

lemma adopted_empty: "adopted owner [] \<Longrightarrow> adopted owner x"
  by (auto simp: adopted_def)

definition being_deleted :: "string \<Rightarrow> string \<Rightarrow> kb_record list \<Rightarrow> bool" where
  "being_deleted i owner rs \<longleftrightarrow>
     (\<exists>r. find_kb rs i = Some r \<and> kb_status r = Deleting \<and> adopted owner (kb_requester r))"

lemma being_deleted_found:
  "being_deleted i owner rs \<Longrightarrow> find_kb rs i = Some r \<Longrightarrow> kb_status r = Deleting \<and> adopted owner (kb_requester r)"
  by (auto simp: being_deleted_def)

lemma being_deleted_replace:
  assumes "being_deleted i owner rs" and "find_kb rs j = Some r" and "kb_id r' = kb_id r"
    and "j = i \<Longrightarrow> kb_status r' = Deleting \<and> adopted owner (kb_requester r')"
  shows "being_deleted i owner (replace_kb r' rs)"
  using assms find_kb_id [OF assms(2)] by (auto simp: being_deleted_def find_kb_replace)

lemma deletion_kept_by_ops:
  assumes "being_deleted i owner rs"
  shows "create_op m hex now n d rs = Inr (x, Some rs') \<Longrightarrow> being_deleted i owner rs'"
    and "update_op now j name desc rs = Inr (x, Some rs') \<Longrightarrow> being_deleted i owner rs'"
    and "j \<noteq> i \<Longrightarrow> set_status_op now j st err rs = Inr (x, Some rs') \<Longrightarrow> being_deleted i owner rs'"
    and "begin_delete_op now j req rs = Inr (x, Some rs') \<Longrightarrow> being_deleted i owner rs'"
    and "j \<noteq> i \<Longrightarrow> remove_op j rs = Inr (b, Some rs') \<Longrightarrow> being_deleted i owner rs'"
proof -
  show "create_op m hex now n d rs = Inr (x, Some rs') \<Longrightarrow> being_deleted i owner rs'"
    using assms by (auto simp: create_op_def bindE_eq_Inr Let_def being_deleted_def find_kb_append split: if_splits)
  show "update_op now j name desc rs = Inr (x, Some rs') \<Longrightarrow> being_deleted i owner rs'"
    using assms by (auto simp: update_op_def bindE_eq_Inr Let_def
        intro!: being_deleted_replace dest: being_deleted_found split: option.splits if_splits)
  show "j \<noteq> i \<Longrightarrow> set_status_op now j st err rs = Inr (x, Some rs') \<Longrightarrow> being_deleted i owner rs'"
    using assms by (auto simp: set_status_op_def Let_def intro!: being_deleted_replace
        split: option.splits if_splits)
  show "begin_delete_op now j req rs = Inr (x, Some rs') \<Longrightarrow> being_deleted i owner rs'"
    using assms by (auto simp: begin_delete_op_def Let_def
        intro!: being_deleted_replace dest: being_deleted_found split: option.splits if_splits)
      (metis being_deleted_found adopted_empty)
  show "j \<noteq> i \<Longrightarrow> remove_op j rs = Inr (b, Some rs') \<Longrightarrow> being_deleted i owner rs'"
    using assms by (auto simp: remove_op_def Let_def being_deleted_def find_filter_other split: if_splits)
qed

lemma deletion_kept_by_event:
  assumes "\<not> ends_deletion i ev"
  shows "event_keeps m (being_deleted i owner) ev"
  using assms by (cases ev) (auto dest: deletion_kept_by_ops)

text \<open>What the readers and the guards see while the deletion is in progress.\<close>

lemma deleting_view:
  assumes "kb_loads fr dt (being_deleted i owner) g" and "i \<noteq> default_id"
  obtains x where "adopted owner x" "kb_delete_requester fr dt i g = Inr x"
    "kb_require_active fr dt i g = Inl (KbValidationError ''knowledge_base_deleting'' 409)"
    "kb_update fr dt now i name d g = (Inl (KbValidationError ''knowledge_base_deleting'' 409), g)"
    "\<exists>w g'. kb_begin_delete fr dt now i req g = (Inr w, g') \<and> (x \<noteq> [] \<or> req = [] \<longrightarrow> g' = g)"
proof -
  obtain rs r where g: "kb_load fr dt g = Inr rs" "find_kb rs i = Some r" "kb_status r = Deleting" "adopted owner (kb_requester r)"
    using assms(1) by (auto simp: kb_loads_def being_deleted_def)
  show thesis
    by (rule that [of "kb_requester r"]) (use g assms(2) in \<open>auto simp: kb_load_def kb_delete_requester_def
        kb_require_active_def kb_update_def kb_begin_delete_def edit_file_def update_op_def begin_delete_op_def Let_def\<close>)
qed

text \<open>After a \<open>begin_delete\<close> the owner is the one recorded before, or the requester if there was none.\<close>

lemma begun_deletion:
  assumes "kb_begin_delete fr dt now i req f = (Inr v, f')" and "timestamp_ok dt now"
    and "kb_loads fr dt (kb_sound m) f"
  shows "\<exists>rs r rs' r'. kb_load fr dt f = Inr rs \<and> find_kb rs i = Some r
    \<and> kb_load fr dt f' = Inr rs' \<and> kb_sound m rs' \<and> find_kb rs' i = Some r' \<and> kb_status r' = Deleting
    \<and> kb_requester r' = (if kb_status r = Deleting \<and> kb_requester r \<noteq> [] then kb_requester r else req)"
proof -
  have ni: "i \<noteq> default_id" and e: "edit_kbs fr dt (begin_delete_op now i req) f = (Inr v, f')"
    using assms(1) by (auto simp: kb_begin_delete_def split: if_splits)
  obtain rs where rs: "kb_load fr dt f = Inr rs" "kb_sound m rs" "kbs_wf dt rs"
    using assms(3) by (auto simp: kb_loads_def kb_load_def dest: kbs.load_wf)
  obtain w where w: "begin_delete_op now i req rs = Inr (v, w)"
      "f' = (case w of None \<Rightarrow> f | Some rs' \<Rightarrow> Some (Some (render_kb_catalog rs')))"
    using edit_file_ok [OF e] rs(1) by (auto simp: kb_load_def)
  obtain r where r: "find_kb rs i = Some r"
    using w(1) by (auto simp: begin_delete_op_def split: option.splits)
  show ?thesis
  proof (cases w)
    case None
    then have "kb_status r = Deleting \<and> (kb_requester r \<noteq> [] \<or> req = [])"
      using w(1) r by (auto simp: begin_delete_op_def Let_def split: if_splits)
    with rs w(2) None r show ?thesis by (intro exI [of _ rs] exI [of _ r]) auto
  next
    case (Some rs')
    have "kbs_wf dt rs' \<and> kb_sound m rs'"
      using begin_delete_op_keeps [OF rs(3,2)] w(1) Some assms(2) ni by blast
    moreover have "\<exists>r'. find_kb rs' i = Some r' \<and> kb_status r' = Deleting
        \<and> kb_requester r' = (if kb_status r = Deleting \<and> kb_requester r \<noteq> [] then kb_requester r else req)"
      using w(1) r Some find_kb_id [OF r]
      by (auto simp: begin_delete_op_def Let_def find_kb_replace split: if_splits)
    ultimately show ?thesis
      using w(2) Some rs(1) r by (auto simp: kb_load_def kbs.load_written)
  qed
qed

lemma deletion_kept_by_run:
  assumes "kb_loads fr dt (sound_with m (being_deleted i owner)) f"
    and "kb_machine.admissible fr dt m f evs" and "\<forall>ev \<in> set evs. \<not> ends_deletion i ev"
  shows "kb_loads fr dt (sound_with m (being_deleted i owner)) (run_machine (kb_step fr dt m) f evs)"
  using assms
  by (induction evs arbitrary: f) (auto intro!: kb_step_keeps deletion_kept_by_event)

section \<open>The properties\<close>

text \<open>
  Claim C33: a workspace that starts without a catalog never reaches one the loader rejects.
  After any run of the writing operations, failed calls included, either no catalog was
  created yet or the file loads, its identifiers and its case-folded names are unique, there
  is exactly one default knowledge base and it is active, and at most \<open>m\<close> additional ones.
\<close>

theorem kb_catalog_stays_trusted:
  assumes "kb_machine.admissible fr dt m None evs" and "run_machine (kb_step fr dt m) None evs = f" and "f \<noteq> None"
  shows "\<exists>rs. kb_load fr dt f = Inr rs \<and> distinct (map kb_id rs)
    \<and> distinct (map (\<lambda>r. py_casefold (kb_name r)) rs) \<and> default_count rs = 1
    \<and> (\<exists>r. find_kb rs default_id = Some r \<and> kb_status r = Active)
    \<and> additional_count rs \<le> m"
proof -
  have "kb_inv fr dt m f"
    using kb_machine.run_inv [OF _ assms(1)] assms(2) by (simp add: kb_inv_def)
  with assms(3) obtain rs where rs: "kb_load fr dt f = Inr rs" "kb_sound m rs"
    by (auto simp: kb_inv_def kb_loads_def)
  have wf: "kbs_wf dt rs"
    using rs(1) unfolding kb_load_def by (rule kbs.load_wf)
  then have "filter (\<lambda>r. kb_id r = default_id) rs \<noteq> []"
    by (auto simp: kbs_wf_def default_count_def)
  then obtain r where "find_kb rs default_id = Some r"
    by (cases "find_kb rs default_id") (auto simp: find_kb_def find_None_iff filter_empty_conv)
  with rs wf show ?thesis
    by (auto simp: kbs_wf_def kb_sound_def default_active_def keys_unique_def)
qed

text \<open>The concrete clock, identifier and run the witnesses use.\<close>

definition sample_dt :: "string \<Rightarrow> bool option" where
  "sample_dt s = Some True"

definition sample_hex :: string where
  "sample_hex = replicate 32 CHR ''0''"

definition sample_file :: json_file where
  "sample_file = Some (Some (render_kb_catalog
     [default_record ''T0'',
      \<lparr>kb_id = ''kb_'' @ sample_hex, kb_name = ''Laws'', kb_description = [], kb_status = Active,
       kb_created = ''T0'', kb_updated = ''T0'', kb_error = [], kb_requester = []\<rparr>]))"

lemma sample_clock: "timestamp_ok sample_dt ''T0'' \<and> timestamp_ok sample_dt ''T1''"
  by (simp add: timestamp_ok_def sample_dt_def py_trimmed_def py_isspace_def)

lemma sample_hex32: "hex32 sample_hex"
  by (simp add: hex32_def sample_hex_def list_all_iff) (simp add: py_is_hex_lower_def)

lemma sample_load:
  "kb_load fr sample_dt sample_file = Inr [default_record ''T0'',
      \<lparr>kb_id = ''kb_'' @ sample_hex, kb_name = ''Laws'', kb_description = [], kb_status = Active,
       kb_created = ''T0'', kb_updated = ''T0'', kb_error = [], kb_requester = []\<rparr>]"
  unfolding kb_load_def sample_file_def
proof (rule kbs.load_written)
  have "py_trimmed (''kb_'' @ sample_hex)"
    by (rule hex32_trimmed [OF sample_hex32]) (simp_all add: py_isspace_def)
  then show "kbs_wf sample_dt [default_record ''T0'',
      \<lparr>kb_id = ''kb_'' @ sample_hex, kb_name = ''Laws'', kb_description = [], kb_status = Active,
       kb_created = ''T0'', kb_updated = ''T0'', kb_error = [], kb_requester = []\<rparr>]"
    using sample_clock sample_hex32 default_record_wf [of sample_dt "''T0''"]
    by (simp add: kbs_wf_def kb_wf_def default_record_def keys_unique_def default_count_def kb_id_ok_def
        default_id_def text_ok_def kb_id_pattern_def py_strip_trimmed py_casefold_def py_lower_char_def)
      (simp add: py_trimmed_def py_isspace_def)
qed

theorem kb_catalog_stays_trusted_witness:
  "\<exists>rs. kb_load (\<lambda>x. []) sample_dt (run_machine (kb_step (\<lambda>x. []) sample_dt 1) None
      [EvEnsure ''T0'', EvRemove default_id, EvSetStatus ''T1'' default_id ''deleting'' []]) = Inr rs
    \<and> additional_count rs \<le> 1"
proof -
  let ?evs = "[EvEnsure ''T0'', EvRemove default_id, EvSetStatus ''T1'' default_id ''deleting'' []]"
  have adm: "kb_machine.admissible (\<lambda>x. []) sample_dt 1 None ?evs"
    using sample_clock by simp
  have "run_machine (kb_step (\<lambda>x. []) sample_dt 1) None ?evs \<noteq> None"
    by (auto simp: kb_ensure_default_def kb_remove_def kb_set_status_def edit_file_def status_of_def
        split: sum.splits option.splits prod.splits)
  from kb_catalog_stays_trusted [OF adm refl this] show ?thesis by blast
qed

text \<open>
  Claim C32: once \<open>begin_delete\<close> has returned for a knowledge base of a sound catalog, and whatever
  calls follow other than \<open>set_status\<close> and \<open>remove\<close> on that very id (the calls of the deletion
  worker), ingestion is refused by \<open>require_active\<close> and edits by \<open>update\<close>, both with
  \<open>knowledge_base_deleting\<close>. The API key recorded as the owner of the deletion stays the first
  one, and another \<open>begin_delete\<close> then changes nothing. A deletion that was begun without a key
  (from the user interface) has no owner; the first later \<open>begin_delete\<close> with a key becomes its
  owner, and one without a key changes nothing.
\<close>

theorem deletion_in_progress_persists:
  assumes "kb_begin_delete fr dt now i req f = (Inr v, f')" and "timestamp_ok dt now"
    and "kb_loads fr dt (kb_sound m) f"
    and "kb_machine.admissible fr dt m f' evs" and "\<forall>ev \<in> set evs. \<not> ends_deletion i ev"
  shows "\<exists>owner. kb_delete_requester fr dt i f' = Inr owner \<and> (req \<noteq> [] \<longrightarrow> owner \<noteq> [])
    \<and> (let g = run_machine (kb_step fr dt m) f' evs
       in \<exists>owner'. kb_delete_requester fr dt i g = Inr owner' \<and> (owner \<noteq> [] \<longrightarrow> owner' = owner)
        \<and> kb_require_active fr dt i g = Inl (KbValidationError ''knowledge_base_deleting'' 409)
        \<and> kb_update fr dt now' i name d g = (Inl (KbValidationError ''knowledge_base_deleting'' 409), g)
        \<and> (\<exists>w g'. kb_begin_delete fr dt now' i req' g = (Inr w, g')
            \<and> (owner' \<noteq> [] \<or> req' = [] \<longrightarrow> g' = g)
            \<and> (timestamp_ok dt now' \<longrightarrow> kb_delete_requester fr dt i g' = Inr (if owner' \<noteq> [] then owner' else req'))))"
proof -
  let ?g = "run_machine (kb_step fr dt m) f' evs"
  have ni: "i \<noteq> default_id" using assms(1) by (auto simp: kb_begin_delete_def split: if_splits)
  obtain rs r rs' r' where begun: "kb_load fr dt f = Inr rs" "find_kb rs i = Some r" "kb_load fr dt f' = Inr rs'" "kb_sound m rs'" "find_kb rs' i = Some r'"
    "kb_status r' = Deleting" "kb_requester r' = (if kb_status r = Deleting \<and> kb_requester r \<noteq> [] then kb_requester r else req)"
    using begun_deletion [OF assms(1-3)] by metis
  let ?owner = "kb_requester r'"
  have owner: "kb_delete_requester fr dt i f' = Inr ?owner" "req \<noteq> [] \<longrightarrow> ?owner \<noteq> []"
    using begun by (auto simp: kb_delete_requester_def kb_load_def)
  have "kb_loads fr dt (sound_with m (being_deleted i ?owner)) f'"
    using begun by (auto simp: kb_loads_def sound_with_def being_deleted_def)
  from deletion_kept_by_run [OF this assms(4,5)]
  have g: "kb_loads fr dt (sound_with m (being_deleted i ?owner)) ?g" .
  then have loads: "kb_loads fr dt (being_deleted i ?owner) ?g" "kb_loads fr dt (kb_sound m) ?g"
    by (auto simp: kb_loads_def sound_with_def)
  obtain x where x: "adopted ?owner x" "kb_delete_requester fr dt i ?g = Inr x"
    and refuse: "kb_require_active fr dt i ?g = Inl (KbValidationError ''knowledge_base_deleting'' 409)"
      "kb_update fr dt now' i name d ?g = (Inl (KbValidationError ''knowledge_base_deleting'' 409), ?g)"
    and again: "\<exists>w g'. kb_begin_delete fr dt now' i req' ?g = (Inr w, g') \<and> (x \<noteq> [] \<or> req' = [] \<longrightarrow> g' = ?g)"
    by (rule deleting_view [OF loads(1) ni])
  from again obtain w g' where w: "kb_begin_delete fr dt now' i req' ?g = (Inr w, g')" "x \<noteq> [] \<or> req' = [] \<longrightarrow> g' = ?g" by blast
  have "kb_delete_requester fr dt i g' = Inr (if x \<noteq> [] then x else req')" if clock: "timestamp_ok dt now'"
  proof -
    obtain us u us' u' where "kb_load fr dt ?g = Inr us" "find_kb us i = Some u" "kb_load fr dt g' = Inr us'" "find_kb us' i = Some u'"
      "kb_requester u' = (if kb_status u = Deleting \<and> kb_requester u \<noteq> [] then kb_requester u else req')"
      using begun_deletion [OF w(1) clock loads(2)] by metis
    moreover from this have "kb_requester u = x" "kb_status u = Deleting"
      using x(2) loads(1) by (auto simp: kb_delete_requester_def kb_load_def kb_loads_def being_deleted_def)
    ultimately show ?thesis by (simp add: kb_delete_requester_def kb_load_def)
  qed
  then show ?thesis
    using owner x refuse w unfolding Let_def
    by (intro exI [of _ ?owner] conjI exI [of _ x] exI [of _ w] exI [of _ g']) (auto simp: adopted_def)
qed

lemma sample_sound: "kb_loads fr sample_dt (kb_sound 1) sample_file"
  by (simp add: kb_loads_def sample_load kb_sound_def additional_count_def default_record_def default_id_def
      default_active_def find_kb_def)

theorem deletion_in_progress_persists_witness:
  "let i = ''kb_'' @ sample_hex;
     after = \<lambda>req. run_machine (kb_step (\<lambda>x. []) sample_dt 1) (snd (kb_begin_delete (\<lambda>x. []) sample_dt ''T1'' i req sample_file))
       [EvBeginDelete ''T1'' i [], EvUpdate ''T1'' i (JStr ''New'') JNull]
   in kb_require_active (\<lambda>x. []) sample_dt i (after ''key'') = Inl (KbValidationError ''knowledge_base_deleting'' 409)
     \<and> kb_require_active (\<lambda>x. []) sample_dt i (after []) = Inl (KbValidationError ''knowledge_base_deleting'' 409)"
proof -
  define i where "i = ''kb_'' @ sample_hex"
  have "kb_require_active (\<lambda>x. []) sample_dt i (run_machine (kb_step (\<lambda>x. []) sample_dt 1)
      (snd (kb_begin_delete (\<lambda>x. []) sample_dt ''T1'' i req sample_file))
       [EvBeginDelete ''T1'' i [], EvUpdate ''T1'' i (JStr ''New'') JNull]) = Inl (KbValidationError ''knowledge_base_deleting'' 409)" for req
  proof -
    have "\<exists>v f'. kb_begin_delete (\<lambda>x. []) sample_dt ''T1'' i req sample_file = (Inr v, f')"
      using sample_load [of "\<lambda>x. []"]
      by (simp add: kb_begin_delete_def edit_file_def begin_delete_op_def find_kb_def default_record_def
          kb_load_def i_def default_id_def Let_def)
    then obtain v f' where f': "kb_begin_delete (\<lambda>x. []) sample_dt ''T1'' i req sample_file = (Inr v, f')"
      by blast
    have adm: "kb_machine.admissible (\<lambda>x. []) sample_dt 1 f'
        [EvBeginDelete ''T1'' i [], EvUpdate ''T1'' i (JStr ''New'') JNull]"
      using sample_clock by simp
    from deletion_in_progress_persists [OF f' _ sample_sound adm] f' sample_clock show ?thesis
      unfolding Let_def by auto
  qed
  then show ?thesis unfolding i_def [symmetric] Let_def by blast
qed

text \<open>
  A successful \<open>create\<close> is visible to every later reader and disturbs no other
  record: the file then holds the previous records and the new one at the end, active, under
  its trimmed name; \<open>get\<close> and \<open>require_active\<close> of its identifier return what \<open>create\<close> returned.
\<close>

theorem created_kb_is_found:
  assumes "kb_create fr dt m hex now name d f = (Inr v, f')"
    and "kb_event_ok fr dt f (EvCreate hex now name d)" and "kb_load fr dt f = Inr rs"
  shows "\<exists>r. kb_load fr dt f' = Inr (rs @ [r]) \<and> kb_id r = ''kb_'' @ hex \<and> v = public_kb r
    \<and> kb_require_active fr dt (''kb_'' @ hex) f' = Inr v \<and> kb_get fr dt (''kb_'' @ hex) f' = Inr (Some v)
    \<and> (\<forall>s. name = JStr s \<longrightarrow> kb_name r = py_strip s)
    \<and> additional_count rs < m \<and> \<not> name_taken kb_id kb_name (kb_name r) None rs"
proof -
  obtain n d' where nd: "validate_knowledge_base_name name = Inr n"
      "validate_knowledge_base_description d = Inr d'"
    and e: "edit_kbs fr dt (create_op m hex now n d') f = (Inr v, f')"
    using assms(1) by (auto simp: kb_create_def bindE_eq_Inr split: sum.splits)
  define r where "r = \<lparr>kb_id = ''kb_'' @ hex, kb_name = n, kb_description = d', kb_status = Active,
    kb_created = now, kb_updated = now, kb_error = [], kb_requester = []\<rparr>"
  have op: "create_op m hex now n d' rs = Inr (v, Some (rs @ [r]))" and v: "v = public_kb r"
    using edit_file_ok [OF e] assms(3)
    by (auto simp: kb_load_def create_op_def bindE_eq_Inr Let_def r_def split: if_splits)
  have wf: "kbs_wf dt rs" using assms(3) unfolding kb_load_def by (rule kbs.load_wf)
  have t: "text_ok 1 120 n" "text_ok 0 1000 d'"
    using nd by (auto simp: validate_knowledge_base_name_def validate_knowledge_base_description_def
        dest: bounded_text_result)
  have "kbs_wf dt (rs @ [r])"
    by (rule create_op_wf [OF wf op]) (use assms(2,3) t in auto)
  then have load: "kb_load fr dt f' = Inr (rs @ [r])"
    unfolding kb_load_def by (rule kbs.edit_then_load [OF e assms(3) [unfolded kb_load_def] op])
  have fresh: "find_kb rs (''kb_'' @ hex) = None"
    using assms(2,3) by (simp add: find_kb_None)
  have "\<forall>s. name = JStr s \<longrightarrow> n = py_strip s"
    using nd(1) by (auto simp: validate_knowledge_base_name_def bounded_text_def Let_def split: if_splits)
  moreover have "additional_count rs < m" "\<not> name_taken kb_id kb_name n None rs"
    using op by (auto simp: create_op_def bindE_eq_Inr ensure_unique_name_def guardE_eq_Inr split: if_splits)
  ultimately show ?thesis
    using load v fresh
    by (intro exI [of _ r]) (simp add: r_def kb_require_active_def kb_get_def kb_load_def
        find_kb_append [unfolded find_kb_def] find_kb_def)
qed

theorem created_kb_is_found_witness:
  "\<exists>v f'. kb_create (\<lambda>x. []) sample_dt 1 sample_hex ''T1'' (JStr '' Laws '') (JStr [])
      (Some (Some (render_kb_catalog [default_record ''T0'']))) = (Inr v, f')
    \<and> kb_require_active (\<lambda>x. []) sample_dt (''kb_'' @ sample_hex) f' = Inr v"
proof -
  let ?f = "Some (Some (render_kb_catalog [default_record ''T0'']))"
  have load: "kb_load (\<lambda>x. []) sample_dt ?f = Inr [default_record ''T0'']"
    unfolding kb_load_def using default_record_wf sample_clock by (intro kbs.load_written) blast
  have "\<exists>v f'. kb_create (\<lambda>x. []) sample_dt 1 sample_hex ''T1'' (JStr '' Laws '') (JStr []) ?f = (Inr v, f')"
    using load by (simp add: kb_create_def edit_file_def kb_load_def validate_knowledge_base_name_def
        validate_knowledge_base_description_def bounded_text_def py_strip_def py_lstrip_def py_rstrip_def
        py_isspace_def create_op_def additional_count_def default_record_def ensure_unique_name_def name_taken_def
        py_casefold_def py_lower_char_def Let_def)
  then obtain v f' where c: "kb_create (\<lambda>x. []) sample_dt 1 sample_hex ''T1'' (JStr '' Laws '') (JStr []) ?f = (Inr v, f')"
    by blast
  have "kb_event_ok (\<lambda>x. []) sample_dt ?f (EvCreate sample_hex ''T1'' (JStr '' Laws '') (JStr []))"
    using load sample_clock sample_hex32 by (simp add: default_record_def default_id_def)
  from created_kb_is_found [OF c this load] c show ?thesis by blast
qed

end
