(* ===== verification/Chat_Agents.thy ===== *)
theory Chat_Agents
  imports Knowledge_Base_Safety
begin

text \<open>
  \<open>app/utils/chat_agent_store.py\<close>: the catalog of the chat agents of a workspace. It has the
  shape of the knowledge-base catalog, with stricter records: unknown fields are rejected, an
  agent names between one and \<open>max_query_knowledge_bases\<close> distinct knowledge bases (validated
  by the function of that store) and at most one prompt.
\<close>

section \<open>Data\<close>

datatype prompt_scope = Personal | Shared

definition scope_text :: "prompt_scope \<Rightarrow> string" where
  "scope_text s = (case s of Personal \<Rightarrow> ''personal'' | Shared \<Rightarrow> ''shared'')"

definition scope_of :: "string \<Rightarrow> prompt_scope option" where
  "scope_of t = (if t = ''personal'' then Some Personal else if t = ''shared'' then Some Shared else None)"

record chat_agent =
  ag_id :: string
  ag_name :: string
  ag_description :: string
  ag_provider :: string
  ag_model :: string
  ag_kbs :: "string list"
  ag_prompt :: "(string \<times> prompt_scope) option"
  ag_created :: string
  ag_updated :: string

datatype agent_failure =
    AgentCatalogError
  | AgentValidationError string nat

definition known_record_fields :: "string list" where
  "known_record_fields = [''id'', ''name'', ''description'', ''provider_id'', ''model_id'',
     ''knowledge_base_ids'', ''prompt_ref'', ''created_at'', ''updated_at'']"

section \<open>Validation of the fields\<close>

definition agent_id_pattern :: "string \<Rightarrow> bool" where
  "agent_id_pattern s \<longleftrightarrow> take 6 s = ''agent_'' \<and> hex32 (drop 6 s)"

definition validate_chat_agent_id :: "(real \<Rightarrow> string) \<Rightarrow> json \<Rightarrow> agent_failure + string" where
  "validate_chat_agent_id fr v =
     (if v = JNull then Inl (AgentValidationError ''invalid_chat_agent_id'' 400)
      else let i = py_strip (py_str fr v)
        in if \<not> agent_id_pattern i then Inl (AgentValidationError ''invalid_chat_agent_id'' 400) else Inr i)"

definition validate_chat_agent_name :: "json \<Rightarrow> agent_failure + string" where
  "validate_chat_agent_name v = bounded_text (AgentValidationError ''invalid_chat_agent_name'' 400) 1 120 v"

definition validate_chat_agent_description :: "json \<Rightarrow> agent_failure + string" where
  "validate_chat_agent_description v =
     (let v = (if v = JNull then JStr [] else v)
      in bounded_text (AgentValidationError ''invalid_chat_agent_description'' 400) 0 500 v)"

definition validate_provider_id :: "json \<Rightarrow> agent_failure + string" where
  "validate_provider_id v = bounded_text (AgentValidationError ''invalid_provider_id'' 400) 1 120 v"

definition validate_model_id :: "json \<Rightarrow> agent_failure + string" where
  "validate_model_id v = bounded_text (AgentValidationError ''invalid_model_id'' 400) 1 200 v"

text \<open>The loop body; a \<open>ValueError\<close> inside it becomes \<open>invalid_knowledge_base_ids\<close>.\<close>

definition selected_kb :: "(real \<Rightarrow> string) \<Rightarrow> json \<Rightarrow> agent_failure + string" where
  "selected_kb fr raw = (case raw of
       JStr s \<Rightarrow>
         if py_strip s = [] then Inl (AgentValidationError ''invalid_knowledge_base_ids'' 400)
         else (case validate_knowledge_base_id fr (JStr (py_strip s)) of
             Inl e \<Rightarrow> Inl (AgentValidationError ''invalid_knowledge_base_ids'' 400)
           | Inr i \<Rightarrow> Inr i)
     | _ \<Rightarrow> Inl (AgentValidationError ''invalid_knowledge_base_ids'' 400))"

definition validate_knowledge_base_ids ::
  "(real \<Rightarrow> string) \<Rightarrow> nat \<Rightarrow> json \<Rightarrow> agent_failure + string list" where
  "validate_knowledge_base_ids fr max_ids v = (case v of
       JArr xs \<Rightarrow>
         if xs = [] then Inl (AgentValidationError ''invalid_knowledge_base_ids'' 400)
         else if max_ids < length xs then Inl (AgentValidationError ''knowledge_base_limit_exceeded'' 409)
         else bindE (mapE (selected_kb fr) xs) (\<lambda>normalized.
              if \<not> distinct normalized then Inl (AgentValidationError ''invalid_knowledge_base_ids'' 400)
              else Inr normalized)
     | _ \<Rightarrow> Inl (AgentValidationError ''invalid_knowledge_base_ids'' 400))"

text \<open>The empty dictionary, no prompt, is \<open>None\<close>.\<close>

definition validate_prompt_ref ::
  "(real \<Rightarrow> string) \<Rightarrow> json \<Rightarrow> agent_failure + (string \<times> prompt_scope) option" where
  "validate_prompt_ref fr v = (case v of
       JNull \<Rightarrow> Inr None
     | JObj d \<Rightarrow>
         if d = [] then Inr None
         else bindE (bounded_text (AgentValidationError ''invalid_prompt_ref'' 400) 1 200 (jget d ''id'')) (\<lambda>prompt_id.
              case scope_of (py_strip (py_str fr (j_or (jget d ''scope'') (JStr [])))) of
                None \<Rightarrow> Inl (AgentValidationError ''invalid_prompt_ref'' 400)
              | Some scope \<Rightarrow> Inr (Some (prompt_id, scope)))
     | _ \<Rightarrow> Inl (AgentValidationError ''invalid_prompt_ref'' 400))"

definition validate_prompt_ref_required ::
  "(real \<Rightarrow> string) \<Rightarrow> json \<Rightarrow> agent_failure + (string \<times> prompt_scope) option" where
  "validate_prompt_ref_required fr v = (case v of
       JObj d \<Rightarrow>
         if d = [] \<or> \<not> truthy (jget d ''id'') then Inl (AgentValidationError ''invalid_prompt_ref'' 400)
         else validate_prompt_ref fr v
     | _ \<Rightarrow> Inl (AgentValidationError ''invalid_prompt_ref'' 400))"

section \<open>Reading and writing the catalog\<close>

definition agent_catalog_error :: "agent_failure + 'a \<Rightarrow> agent_failure + 'a" where
  "agent_catalog_error r = (case r of Inl e \<Rightarrow> Inl AgentCatalogError | Inr x \<Rightarrow> Inr x)"

definition read_agent ::
  "(real \<Rightarrow> string) \<Rightarrow> (string \<Rightarrow> bool option) \<Rightarrow> json \<Rightarrow> string set \<Rightarrow> string set \<Rightarrow> agent_failure + chat_agent" where
  "read_agent fr dt v ids names = (case v of
       JObj raw \<Rightarrow>
         bindE (guardE (set (map fst raw) \<subseteq> set known_record_fields) AgentCatalogError) (\<lambda>_.
         bindE (agent_catalog_error (validate_chat_agent_id fr (jget raw ''id''))) (\<lambda>i.
         bindE (agent_catalog_error (validate_chat_agent_name (jget raw ''name''))) (\<lambda>n.
         bindE (agent_catalog_error (validate_chat_agent_description (jget raw ''description''))) (\<lambda>d.
         bindE (agent_catalog_error (validate_provider_id (jget raw ''provider_id''))) (\<lambda>p.
         bindE (agent_catalog_error (validate_model_id (jget raw ''model_id''))) (\<lambda>m.
         bindE (agent_catalog_error (validate_knowledge_base_ids fr 10000 (jget raw ''knowledge_base_ids''))) (\<lambda>ks.
         bindE (agent_catalog_error (validate_prompt_ref fr (jget raw ''prompt_ref''))) (\<lambda>pr.
         bindE (guardE (\<not> (i \<in> ids \<or> py_casefold n \<in> names)) AgentCatalogError) (\<lambda>_.
         bindE (validate_timestamp AgentCatalogError fr dt (jget raw ''created_at'')) (\<lambda>created.
         bindE (validate_timestamp AgentCatalogError fr dt (jget raw ''updated_at'')) (\<lambda>updated.
         Inr \<lparr>ag_id = i, ag_name = n, ag_description = d, ag_provider = p, ag_model = m, ag_kbs = ks,
              ag_prompt = pr, ag_created = created, ag_updated = updated\<rparr>)))))))))))
     | _ \<Rightarrow> Inl AgentCatalogError)"

definition validate_agent_catalog ::
  "(real \<Rightarrow> string) \<Rightarrow> (string \<Rightarrow> bool option) \<Rightarrow> json \<Rightarrow> agent_failure + chat_agent list" where
  "validate_agent_catalog fr dt v = (case v of
       JObj catalog \<Rightarrow>
         if \<not> is_one (jget catalog ''schema_version'') then Inl AgentCatalogError
         else (case jget catalog ''agents'' of
             JArr records \<Rightarrow> collect_unique AgentCatalogError ag_id ag_name (read_agent fr dt) {} {} records
           | _ \<Rightarrow> Inl AgentCatalogError)
     | _ \<Rightarrow> Inl AgentCatalogError)"

definition prompt_json :: "(string \<times> prompt_scope) option \<Rightarrow> json" where
  "prompt_json p = (case p of None \<Rightarrow> JObj []
     | Some (i, s) \<Rightarrow> JObj [(''id'', JStr i), (''scope'', JStr (scope_text s))])"

definition dump_agent :: "chat_agent \<Rightarrow> json" where
  "dump_agent r = JObj [(''created_at'', JStr (ag_created r)), (''description'', JStr (ag_description r)),
     (''id'', JStr (ag_id r)), (''knowledge_base_ids'', JArr (map JStr (ag_kbs r))),
     (''model_id'', JStr (ag_model r)), (''name'', JStr (ag_name r)), (''prompt_ref'', prompt_json (ag_prompt r)),
     (''provider_id'', JStr (ag_provider r)), (''updated_at'', JStr (ag_updated r))]"

definition render_agent_catalog :: "chat_agent list \<Rightarrow> json" where
  "render_agent_catalog rs = JObj [(''agents'', JArr (map dump_agent rs)), (''schema_version'', JInt 1)]"

section \<open>Operations\<close>

text \<open>The public record is a copy of the record, so operations return the record itself.\<close>

abbreviation edit_agents :: "(real \<Rightarrow> string) \<Rightarrow> (string \<Rightarrow> bool option)
    \<Rightarrow> (chat_agent list \<Rightarrow> agent_failure + 'a \<times> chat_agent list option) \<Rightarrow> json_file \<Rightarrow> (agent_failure + 'a) \<times> json_file" where
  "edit_agents fr dt \<equiv> edit_file AgentCatalogError (validate_agent_catalog fr dt) render_agent_catalog"

definition agent_load :: "(real \<Rightarrow> string) \<Rightarrow> (string \<Rightarrow> bool option) \<Rightarrow> json_file \<Rightarrow> agent_failure + chat_agent list" where
  "agent_load fr dt f = load_file AgentCatalogError (validate_agent_catalog fr dt) f"

definition agent_ensure_default ::
  "(real \<Rightarrow> string) \<Rightarrow> (string \<Rightarrow> bool option) \<Rightarrow> json_file \<Rightarrow> (agent_failure + chat_agent list) \<times> json_file" where
  "agent_ensure_default fr dt f = (case f of
       None \<Rightarrow> (Inr [], Some (Some (render_agent_catalog [])))
     | Some _ \<Rightarrow> (agent_load fr dt f, f))"

definition find_agent :: "chat_agent list \<Rightarrow> string \<Rightarrow> chat_agent option" where
  "find_agent rs i = find (\<lambda>r. ag_id r = i) rs"

definition agent_get ::
  "(real \<Rightarrow> string) \<Rightarrow> (string \<Rightarrow> bool option) \<Rightarrow> string \<Rightarrow> json_file \<Rightarrow> agent_failure + chat_agent option" where
  "agent_get fr dt i f = bindE (agent_load fr dt f) (\<lambda>rs. Inr (find_agent rs i))"

definition agent_unique_name :: "chat_agent list \<Rightarrow> string \<Rightarrow> string option \<Rightarrow> agent_failure + unit" where
  "agent_unique_name rs name exclude =
     guardE (\<not> name_taken ag_id ag_name name exclude rs) (AgentValidationError ''duplicate_chat_agent_name'' 409)"

definition agent_create_op ::
  "nat \<Rightarrow> string \<Rightarrow> string \<Rightarrow> chat_agent \<Rightarrow> chat_agent list \<Rightarrow> agent_failure + chat_agent \<times> chat_agent list option" where
  "agent_create_op max_additional hex now draft rs =
     bindE (guardE (length rs < max_additional) (AgentValidationError ''chat_agent_limit_reached'' 409)) (\<lambda>_.
     bindE (agent_unique_name rs (ag_name draft) None) (\<lambda>_.
       let r = draft\<lparr>ag_id := ''agent_'' @ hex, ag_created := now, ag_updated := now\<rparr>
       in Inr (r, Some (rs @ [r]))))"

definition agent_fields ::
  "(real \<Rightarrow> string) \<Rightarrow> nat \<Rightarrow> json \<Rightarrow> json \<Rightarrow> json \<Rightarrow> json \<Rightarrow> json \<Rightarrow> json \<Rightarrow> agent_failure + chat_agent" where
  "agent_fields fr max_kbs name description provider model kbs prompt =
     bindE (validate_chat_agent_name name) (\<lambda>n.
     bindE (validate_chat_agent_description description) (\<lambda>d.
     bindE (validate_provider_id provider) (\<lambda>p.
     bindE (validate_model_id model) (\<lambda>m.
     bindE (validate_knowledge_base_ids fr max_kbs kbs) (\<lambda>ks.
     bindE (validate_prompt_ref fr prompt) (\<lambda>pr.
     Inr \<lparr>ag_id = [], ag_name = n, ag_description = d, ag_provider = p, ag_model = m, ag_kbs = ks,
          ag_prompt = pr, ag_created = [], ag_updated = []\<rparr>))))))"

definition agent_create where
  "agent_create fr dt max_additional max_kbs hex now name description provider model kbs prompt f =
     (case agent_fields fr max_kbs name description provider model kbs prompt of
        Inl e \<Rightarrow> (Inl e, f)
      | Inr draft \<Rightarrow> edit_agents fr dt (agent_create_op max_additional hex now draft) f)"

text \<open>A field of \<open>update\<close> that is \<open>None\<close> keeps its value.\<close>

definition given :: "json \<Rightarrow> 'a \<Rightarrow> (json \<Rightarrow> 'e + 'a) \<Rightarrow> 'e + 'a" where
  "given v old validate = (if v = JNull then Inr old else validate v)"

text \<open>
  The prompt has its own sentinel, \<open>_PROMPT_REF_UNSET\<close> (here \<open>None\<close>), because the value
  \<open>None\<close> (here \<open>Some JNull\<close>) means no prompt.
\<close>

definition agent_update_op ::
  "(real \<Rightarrow> string) \<Rightarrow> nat \<Rightarrow> string \<Rightarrow> string \<Rightarrow> json \<Rightarrow> json \<Rightarrow> json \<Rightarrow> json \<Rightarrow> json \<Rightarrow> json option
    \<Rightarrow> chat_agent list \<Rightarrow> agent_failure + chat_agent \<times> chat_agent list option" where
  "agent_update_op fr max_kbs now i name description provider model kbs prompt rs = (case find_agent rs i of
       None \<Rightarrow> Inl (AgentValidationError ''chat_agent_not_found'' 404)
     | Some r \<Rightarrow>
         bindE (given name (ag_name r) (\<lambda>v. bindE (validate_chat_agent_name v) (\<lambda>n.
                bindE (agent_unique_name rs n (Some i)) (\<lambda>_. Inr n)))) (\<lambda>n.
         bindE (given description (ag_description r) validate_chat_agent_description) (\<lambda>d.
         bindE (given provider (ag_provider r) validate_provider_id) (\<lambda>p.
         bindE (given model (ag_model r) validate_model_id) (\<lambda>m.
         bindE (given kbs (ag_kbs r) (validate_knowledge_base_ids fr max_kbs)) (\<lambda>ks.
         bindE (case prompt of None \<Rightarrow> Inr (ag_prompt r) | Some v \<Rightarrow> validate_prompt_ref fr v) (\<lambda>pr.
           let r' = r\<lparr>ag_name := n, ag_description := d, ag_provider := p, ag_model := m, ag_kbs := ks,
                      ag_prompt := pr, ag_updated := now\<rparr>
           in Inr (r', Some (update_first (\<lambda>q. ag_id q = i) r' rs)))))))))"

definition agent_update where
  "agent_update fr dt max_kbs now i name description provider model kbs prompt f =
     edit_agents fr dt (agent_update_op fr max_kbs now i name description provider model kbs prompt) f"

definition agent_remove_op :: "string \<Rightarrow> chat_agent list \<Rightarrow> agent_failure + bool \<times> chat_agent list option" where
  "agent_remove_op i rs = (let remaining = filter (\<lambda>r. ag_id r \<noteq> i) rs
     in if length remaining = length rs then Inr (False, None) else Inr (True, Some remaining))"

definition agent_remove where
  "agent_remove fr dt i f = edit_agents fr dt (agent_remove_op i) f"

end
