(* ===== verification/Chat_Agent_Claims.thy ===== *)
theory Chat_Agent_Claims
  imports Chat_Agents
begin

text \<open>
  The chat-agent catalog: the contract of a JSON catalog on its reader and writer, the
  invariant of its runs, and the properties of the store.
\<close>

section \<open>Well-formed catalogs\<close>

definition kb_choice_ok :: "string \<Rightarrow> bool" where
  "kb_choice_ok i \<longleftrightarrow> i = default_id \<or> kb_id_pattern i"

definition prompt_ok :: "(string \<times> prompt_scope) option \<Rightarrow> bool" where
  "prompt_ok p \<longleftrightarrow> (case p of None \<Rightarrow> True | Some (i, s) \<Rightarrow> text_ok 1 200 i)"

definition kbs_ok :: "nat \<Rightarrow> string list \<Rightarrow> bool" where
  "kbs_ok n ks \<longleftrightarrow> ks \<noteq> [] \<and> length ks \<le> n \<and> distinct ks \<and> list_all kb_choice_ok ks"

definition agent_fields_ok :: "nat \<Rightarrow> chat_agent \<Rightarrow> bool" where
  "agent_fields_ok n r \<longleftrightarrow> text_ok 1 120 (ag_name r) \<and> text_ok 0 500 (ag_description r)
     \<and> text_ok 1 120 (ag_provider r) \<and> text_ok 1 200 (ag_model r) \<and> kbs_ok n (ag_kbs r) \<and> prompt_ok (ag_prompt r)"

definition agent_wf :: "(string \<Rightarrow> bool option) \<Rightarrow> chat_agent \<Rightarrow> bool" where
  "agent_wf dt r \<longleftrightarrow> agent_id_pattern (ag_id r) \<and> agent_fields_ok 10000 r
     \<and> timestamp_ok dt (ag_created r) \<and> timestamp_ok dt (ag_updated r)"

definition agents_wf :: "(string \<Rightarrow> bool option) \<Rightarrow> chat_agent list \<Rightarrow> bool" where
  "agents_wf dt rs \<longleftrightarrow> list_all (agent_wf dt) rs \<and> keys_unique ag_id ag_name rs"

lemma hex_pattern_trimmed:
  assumes "take n s = p" and "p \<noteq> []" and "\<not> py_isspace (hd p)" and "hex32 (drop n s)"
  shows "py_trimmed s"
  using hex32_trimmed [OF assms(4,2,3)] assms(1) by (metis append_take_drop_id)

lemma agent_id_trimmed: "agent_id_pattern i \<Longrightarrow> py_strip i = i"
  by (rule py_strip_trimmed, rule hex_pattern_trimmed [of 6 _ "''agent_''"])
    (auto simp: agent_id_pattern_def py_isspace_def)

lemma kb_choice_trimmed: "kb_choice_ok i \<Longrightarrow> py_strip i = i \<and> i \<noteq> []"
proof
  assume a: "kb_choice_ok i"
  have "py_trimmed i"
    using a hex_pattern_trimmed [of 3 i "''kb_''"]
    by (auto simp: kb_choice_ok_def kb_id_pattern_def default_id_def py_isspace_def py_trimmed_def)
  then show "py_strip i = i" by (rule py_strip_trimmed)
  show "i \<noteq> []"
    using a by (auto simp: kb_choice_ok_def kb_id_pattern_def default_id_def)
qed

section \<open>The validators\<close>

lemma agent_catalog_error_Inr [simp]: "agent_catalog_error r = Inr x \<longleftrightarrow> r = Inr x"
  by (auto simp: agent_catalog_error_def split: sum.splits)

lemma selected_kb_result: "selected_kb fr raw = Inr i \<Longrightarrow> kb_choice_ok i"
  by (auto simp: selected_kb_def kb_choice_ok_def validate_knowledge_base_id_def Let_def
      split: json.splits if_splits sum.splits)

lemma selected_kb_ok: "kb_choice_ok i \<Longrightarrow> selected_kb fr (JStr i) = Inr i"
  using kb_choice_trimmed [of i]
  by (auto simp: selected_kb_def kb_choice_ok_def validate_knowledge_base_id_def Let_def split: sum.splits)

lemma validate_kbs_result:
  assumes "validate_knowledge_base_ids fr n v = Inr ks"
  shows "kbs_ok n ks"
proof -
  obtain xs where xs: "v = JArr xs" "xs \<noteq> []" "length xs \<le> n" "mapE (selected_kb fr) xs = Inr ks" "distinct ks"
    using assms by (auto simp: validate_knowledge_base_ids_def bindE_eq_Inr split: json.splits if_splits)
  have all2: "list_all2 (\<lambda>x y. selected_kb fr x = Inr y) xs ks"
    using xs(4) by (simp add: mapE_eq_Inr)
  then have "length ks = length xs" by (rule list_all2_lengthD [symmetric])
  moreover have "list_all kb_choice_ok ks"
    using all2 by (induction rule: list_all2_induct) (auto intro: selected_kb_result)
  ultimately show ?thesis using xs by (auto simp: kbs_ok_def)
qed

lemma validate_kbs_ok:
  assumes "kbs_ok n ks"
  shows "validate_knowledge_base_ids fr n (JArr (map JStr ks)) = Inr ks"
proof -
  have "list_all kb_choice_ok ks" using assms by (simp add: kbs_ok_def)
  then have "mapE (selected_kb fr) (map JStr ks) = Inr ks"
    by (induction ks) (auto simp: selected_kb_ok)
  then show ?thesis using assms by (simp add: validate_knowledge_base_ids_def kbs_ok_def)
qed

lemma scope_of_text [simp]: "scope_of (scope_text s) = Some s" "py_strip (scope_text s) = scope_text s"
  by (cases s; simp add: scope_of_def scope_text_def py_strip_def py_lstrip_def py_rstrip_def py_isspace_def)+

lemma validate_prompt_result: "validate_prompt_ref fr v = Inr p \<Longrightarrow> prompt_ok p"
  by (auto simp: validate_prompt_ref_def prompt_ok_def bindE_eq_Inr split: json.splits if_splits option.splits
      dest: bounded_text_result)

lemma validate_prompt_ok: "prompt_ok p \<Longrightarrow> validate_prompt_ref fr (prompt_json p) = Inr p"
  by (auto simp: validate_prompt_ref_def prompt_ok_def prompt_json_def jget_def bounded_text_ok j_or_text
      split: option.splits)

lemma validators_result:
  "validate_chat_agent_name v = Inr s \<Longrightarrow> text_ok 1 120 s"
  "validate_chat_agent_description v = Inr s \<Longrightarrow> text_ok 0 500 s"
  "validate_provider_id v = Inr s \<Longrightarrow> text_ok 1 120 s"
  "validate_model_id v = Inr s \<Longrightarrow> text_ok 1 200 s"
  by (auto simp: validate_chat_agent_name_def validate_chat_agent_description_def validate_provider_id_def
      validate_model_id_def Let_def dest: bounded_text_result)

lemma validators_ok:
  "text_ok 1 120 s \<Longrightarrow> validate_chat_agent_name (JStr s) = Inr s"
  "text_ok 0 500 s \<Longrightarrow> validate_chat_agent_description (JStr s) = Inr s"
  "text_ok 1 120 s \<Longrightarrow> validate_provider_id (JStr s) = Inr s"
  "text_ok 1 200 s \<Longrightarrow> validate_model_id (JStr s) = Inr s"
  by (auto simp: validate_chat_agent_name_def validate_chat_agent_description_def validate_provider_id_def
      validate_model_id_def bounded_text_ok)

lemmas field_results = validators_result validate_kbs_result validate_prompt_result

section \<open>The catalog contract\<close>

lemma read_agent_result:
  assumes "read_agent fr dt v ids names = Inr r"
  shows "agent_wf dt r \<and> ag_id r \<notin> ids \<and> py_casefold (ag_name r) \<notin> names"
proof (cases v)
  case (JObj raw)
  obtain i n d p m ks pr created updated where
    a: "validate_chat_agent_id fr (jget raw ''id'') = Inr i" "validate_chat_agent_name (jget raw ''name'') = Inr n"
      "validate_chat_agent_description (jget raw ''description'') = Inr d"
      "validate_provider_id (jget raw ''provider_id'') = Inr p" "validate_model_id (jget raw ''model_id'') = Inr m"
      "validate_knowledge_base_ids fr 10000 (jget raw ''knowledge_base_ids'') = Inr ks"
      "validate_prompt_ref fr (jget raw ''prompt_ref'') = Inr pr"
      "validate_timestamp AgentCatalogError fr dt (jget raw ''created_at'') = Inr created"
      "validate_timestamp AgentCatalogError fr dt (jget raw ''updated_at'') = Inr updated"
    and b: "i \<notin> ids" "py_casefold n \<notin> names"
    and r: "r = \<lparr>ag_id = i, ag_name = n, ag_description = d, ag_provider = p, ag_model = m, ag_kbs = ks,
      ag_prompt = pr, ag_created = created, ag_updated = updated\<rparr>"
    using assms unfolding JObj read_agent_def json.case
    by (elim bindE_InrE) (auto simp: guardE_eq_Inr)
  have "agent_id_pattern i"
    using a(1) by (auto simp: validate_chat_agent_id_def Let_def split: if_splits)
  with a b show ?thesis
    unfolding r by (auto simp: agent_wf_def agent_fields_ok_def dest: field_results validate_timestamp_result)
qed (use assms in \<open>auto simp: read_agent_def\<close>)

lemma read_dump_agent:
  assumes "agent_wf dt r" and "ag_id r \<notin> ids" and "py_casefold (ag_name r) \<notin> names"
  shows "read_agent fr dt (dump_agent r) ids names = Inr r"
proof -
  have "validate_chat_agent_id fr (JStr (ag_id r)) = Inr (ag_id r)"
    using assms(1) by (auto simp: agent_wf_def validate_chat_agent_id_def Let_def agent_id_trimmed)
  with assms show ?thesis
    by (simp add: read_agent_def dump_agent_def jget_def known_record_fields_def agent_catalog_error_def
        agent_wf_def agent_fields_ok_def validators_ok validate_kbs_ok validate_prompt_ok validate_timestamp_ok)
qed

lemma validate_render_agents:
  assumes "agents_wf dt rs"
  shows "validate_agent_catalog fr dt (render_agent_catalog rs) = Inr rs"
proof -
  have "collect_unique AgentCatalogError ag_id ag_name (read_agent fr dt) {} {} (map dump_agent rs) = Inr rs"
    using assms by (intro collect_unique_render [where P = "agent_wf dt"] read_dump_agent)
      (auto simp: agents_wf_def keys_unique_def)
  then show ?thesis
    by (simp add: validate_agent_catalog_def render_agent_catalog_def jget_def is_one_def)
qed

lemma validate_agents_result:
  assumes "validate_agent_catalog fr dt v = Inr rs"
  shows "agents_wf dt rs"
proof -
  obtain records where c: "collect_unique AgentCatalogError ag_id ag_name (read_agent fr dt) {} {} records = Inr rs"
    using assms by (auto simp: validate_agent_catalog_def split: json.splits if_splits)
  show ?thesis
    using collect_unique_result [OF read_agent_result c] by (simp add: agents_wf_def keys_unique_def)
qed

interpretation agents: json_catalog AgentCatalogError "validate_agent_catalog fr dt" render_agent_catalog "agents_wf dt"
  for fr dt
  by unfold_locales (auto intro: validate_render_agents validate_agents_result)

section \<open>The operations keep the catalog\<close>

text \<open>Besides well-formedness: the number of agents, and the configured number of knowledge bases.\<close>

definition agents_sound :: "nat \<Rightarrow> nat \<Rightarrow> chat_agent list \<Rightarrow> bool" where
  "agents_sound m k rs \<longleftrightarrow> length rs \<le> m \<and> list_all (agent_fields_ok k) rs"

lemma kbs_ok_mono: "kbs_ok k ks \<Longrightarrow> k \<le> n \<Longrightarrow> kbs_ok n ks"
  by (auto simp: kbs_ok_def)

lemma fields_ok_mono: "agent_fields_ok k r \<Longrightarrow> k \<le> n \<Longrightarrow> agent_fields_ok n r"
  by (auto simp: agent_fields_ok_def intro: kbs_ok_mono)

lemma agent_fields_result: "agent_fields fr k name d p m ks pr = Inr r \<Longrightarrow> agent_fields_ok k r"
  by (auto simp: agent_fields_def bindE_eq_Inr agent_fields_ok_def dest: field_results)

lemma agent_create_op_result:
  assumes "agent_create_op m hex now draft rs = Inr (x, Some rs')"
  shows "rs' = rs @ [x] \<and> x = draft\<lparr>ag_id := ''agent_'' @ hex, ag_created := now, ag_updated := now\<rparr>
    \<and> length rs < m \<and> \<not> name_taken ag_id ag_name (ag_name draft) None rs"
  using assms by (auto simp: agent_create_op_def bindE_eq_Inr agent_unique_name_def guardE_eq_Inr Let_def split: if_splits)

lemma agent_create_keeps:
  assumes "agents_wf dt rs" and "agents_sound m k rs" and "agent_create_op m hex now draft rs = Inr (x, Some rs')"
    and "agent_fields_ok k draft" and "k \<le> 10000" and "timestamp_ok dt now" and "hex32 hex"
    and "''agent_'' @ hex \<notin> set (map ag_id rs)"
  shows "agents_wf dt rs' \<and> agents_sound m k rs'"
proof -
  note r = agent_create_op_result [OF assms(3)]
  have f: "agent_fields_ok k x" using assms(4) r by (simp add: agent_fields_ok_def)
  have "agent_wf dt x"
    using fields_ok_mono [OF f assms(5)] assms(6,7) r by (simp add: agent_wf_def agent_id_pattern_def)
  moreover have "keys_unique ag_id ag_name (rs @ [x])"
    using assms(1,8) r by (intro keys_unique_append) (auto simp: agents_wf_def)
  ultimately show ?thesis
    using assms(1,2) f r by (auto simp: agents_wf_def agents_sound_def)
qed

lemma given_Inr: "given v old check = Inr x \<longleftrightarrow> (if v = JNull then x = old else check v = Inr x)"
  by (auto simp: given_def)

lemma agent_update_op_result:
  assumes "agent_update_op fr k now i name d p m ks pr rs = Inr (x, Some rs')"
  shows "\<exists>r. find_agent rs i = Some r \<and> rs' = update_first (\<lambda>q. ag_id q = i) x rs
    \<and> ag_id x = ag_id r \<and> ag_created x = ag_created r \<and> ag_updated x = now
    \<and> given name (ag_name r) (\<lambda>v. bindE (validate_chat_agent_name v) (\<lambda>n.
        bindE (agent_unique_name rs n (Some i)) (\<lambda>_. Inr n))) = Inr (ag_name x)
    \<and> given d (ag_description r) validate_chat_agent_description = Inr (ag_description x)
    \<and> given p (ag_provider r) validate_provider_id = Inr (ag_provider x)
    \<and> given m (ag_model r) validate_model_id = Inr (ag_model x)
    \<and> given ks (ag_kbs r) (validate_knowledge_base_ids fr k) = Inr (ag_kbs x)
    \<and> (case pr of None \<Rightarrow> Inr (ag_prompt r) | Some v \<Rightarrow> validate_prompt_ref fr v) = Inr (ag_prompt x)"
proof (cases "find_agent rs i")
  case None
  with assms show ?thesis by (simp add: agent_update_op_def)
next
  case (Some r)
  from assms show ?thesis
    unfolding agent_update_op_def Some option.case Let_def
    by (elim bindE_InrE) auto
qed

lemma agent_update_writes:
  "agent_update_op fr k now i name d p m ks pr rs = Inr (x, w) \<Longrightarrow> \<exists>rs'. w = Some rs'"
  by (auto simp: agent_update_op_def Let_def bindE_eq_Inr split: option.split_asm)

lemma find_agent_id: "find_agent rs i = Some r \<Longrightarrow> ag_id r = i \<and> r \<in> set rs"
  by (auto simp: find_agent_def dest: find_SomeD)

lemma agent_update_keeps:
  assumes "agents_wf dt rs" and "agents_sound m k rs"
    and "agent_update_op fr k now i name d p md ks pr rs = Inr (x, Some rs')"
    and "k \<le> 10000" and "timestamp_ok dt now"
  shows "agents_wf dt rs' \<and> agents_sound m k rs'"
proof -
  obtain r where r: "find_agent rs i = Some r" and rs': "rs' = update_first (\<lambda>q. ag_id q = i) x rs"
    and x: "ag_id x = ag_id r" "ag_created x = ag_created r" "ag_updated x = now"
    and g: "given name (ag_name r) (\<lambda>v. bindE (validate_chat_agent_name v) (\<lambda>n.
        bindE (agent_unique_name rs n (Some i)) (\<lambda>_. Inr n))) = Inr (ag_name x)"
      "given d (ag_description r) validate_chat_agent_description = Inr (ag_description x)"
      "given p (ag_provider r) validate_provider_id = Inr (ag_provider x)"
      "given md (ag_model r) validate_model_id = Inr (ag_model x)"
      "given ks (ag_kbs r) (validate_knowledge_base_ids fr k) = Inr (ag_kbs x)"
      "(case pr of None \<Rightarrow> Inr (ag_prompt r) | Some v \<Rightarrow> validate_prompt_ref fr v) = Inr (ag_prompt x)"
    using agent_update_op_result [OF assms(3)] by blast
  have id: "ag_id r = i" and mem: "r \<in> set rs" using find_agent_id [OF r] by auto
  have rw: "agent_wf dt r" "agent_fields_ok k r"
    using assms(1,2) mem by (auto simp: agents_wf_def agents_sound_def list_all_iff)
  have free: "\<not> name_taken ag_id ag_name (ag_name x) (Some i) rs"
    using g(1) not_taken_by_others [of ag_name rs r ag_id] assms(1) id mem
    by (auto simp: given_Inr bindE_eq_Inr agent_unique_name_def guardE_eq_Inr agents_wf_def keys_unique_def
        split: if_splits)
  have f: "agent_fields_ok k x"
    using g rw(2) by (auto simp: agent_fields_ok_def given_Inr bindE_eq_Inr split: if_splits option.splits
        dest: field_results)
  have "agent_wf dt x"
    using fields_ok_mono [OF f assms(4)] rw(1) x assms(5) by (simp add: agent_wf_def)
  then show ?thesis
    using assms(1,2) f keys_unique_update [OF _ _ free] x(1) id
    by (auto simp: rs' agents_wf_def agents_sound_def list_all_update_first)
qed

lemma agent_remove_keeps:
  assumes "agents_wf dt rs" and "agents_sound m k rs" and "agent_remove_op i rs = Inr (x, Some rs')"
  shows "agents_wf dt rs' \<and> agents_sound m k rs'"
proof -
  have "rs' = filter (\<lambda>r. ag_id r \<noteq> i) rs"
    using assms(3) by (auto simp: agent_remove_op_def Let_def split: if_splits)
  with assms(1,2) show ?thesis
    by (auto simp: agents_wf_def agents_sound_def list_all_iff keys_unique_filter
        intro: order_trans [OF length_filter_le])
qed

section \<open>Runs\<close>

datatype agent_event =
    AgEnsure
  | AgCreate string string json json json json json json
  | AgUpdate string string json json json json json "json option"
  | AgRemove string

fun agent_step :: "(real \<Rightarrow> string) \<Rightarrow> (string \<Rightarrow> bool option) \<Rightarrow> nat \<Rightarrow> nat \<Rightarrow> json_file \<Rightarrow> agent_event \<Rightarrow> json_file" where
  "agent_step fr dt m k f AgEnsure = snd (agent_ensure_default fr dt f)"
| "agent_step fr dt m k f (AgCreate hex now n d p md ks pr) = snd (agent_create fr dt m k hex now n d p md ks pr f)"
| "agent_step fr dt m k f (AgUpdate now i n d p md ks pr) = snd (agent_update fr dt k now i n d p md ks pr f)"
| "agent_step fr dt m k f (AgRemove i) = snd (agent_remove fr dt i f)"

fun agent_event_ok :: "(real \<Rightarrow> string) \<Rightarrow> (string \<Rightarrow> bool option) \<Rightarrow> json_file \<Rightarrow> agent_event \<Rightarrow> bool" where
  "agent_event_ok fr dt f AgEnsure = True"
| "agent_event_ok fr dt f (AgCreate hex now n d p md ks pr) = (timestamp_ok dt now \<and> hex32 hex
     \<and> (case agent_load fr dt f of Inl e \<Rightarrow> True | Inr rs \<Rightarrow> ''agent_'' @ hex \<notin> set (map ag_id rs)))"
| "agent_event_ok fr dt f (AgUpdate now i n d p md ks pr) = timestamp_ok dt now"
| "agent_event_ok fr dt f (AgRemove i) = True"

definition agents_inv :: "(real \<Rightarrow> string) \<Rightarrow> (string \<Rightarrow> bool option) \<Rightarrow> nat \<Rightarrow> nat \<Rightarrow> json_file \<Rightarrow> bool" where
  "agents_inv fr dt m k f \<longleftrightarrow> f = None \<or> (\<exists>rs. agent_load fr dt f = Inr rs \<and> agents_sound m k rs)"

lemma agents_edit_keeps:
  assumes "agents_inv fr dt m k f"
    and "\<And>rs x rs'. agent_load fr dt f = Inr rs \<Longrightarrow> agents_wf dt rs \<Longrightarrow> agents_sound m k rs \<Longrightarrow> op rs = Inr (x, Some rs')
      \<Longrightarrow> agents_wf dt rs' \<and> agents_sound m k rs'"
  shows "agents_inv fr dt m k (snd (edit_agents fr dt op f))"
proof (cases "f = None")
  case True
  then show ?thesis by (simp add: agents_inv_def agents.missing_stays_missing)
next
  case False
  then obtain rs where rs: "load_file AgentCatalogError (validate_agent_catalog fr dt) f = Inr rs" "agents_sound m k rs"
    using assms(1) by (auto simp: agents_inv_def agent_load_def)
  show ?thesis
    unfolding agents_inv_def agent_load_def
    by (rule disjI2, rule agents.edit_keeps [where Q = "agents_sound m k", OF rs])
      (use assms(2) rs in \<open>auto simp: agent_load_def\<close>)
qed

lemma agents_inv_step:
  assumes "agents_inv fr dt m k f" and "agent_event_ok fr dt f ev" and "k \<le> 10000"
  shows "agents_inv fr dt m k (agent_step fr dt m k f ev)"
proof (cases ev)
  case AgEnsure
  have "agents_wf dt [] \<and> agents_sound m k []"
    by (simp add: agents_wf_def agents_sound_def keys_unique_empty)
  then have "agents_inv fr dt m k (Some (Some (render_agent_catalog [])))"
    by (auto simp: agents_inv_def agent_load_def agents.load_written)
  with AgEnsure assms(1) show ?thesis
    by (auto simp: agent_ensure_default_def split: option.splits)
next
  case (AgCreate hex now n d p md ks pr)
  show ?thesis
  proof (cases "agent_fields fr k n d p md ks pr")
    case (Inl e)
    with AgCreate assms(1) show ?thesis by (simp add: agent_create_def)
  next
    case (Inr draft)
    have "agents_inv fr dt m k (snd (edit_agents fr dt (agent_create_op m hex now draft) f))"
      using AgCreate assms(2,3) agent_fields_result [OF Inr]
      by (intro agents_edit_keeps [OF assms(1)]) (auto dest: agent_create_keeps)
    with AgCreate Inr show ?thesis by (simp add: agent_create_def)
  qed
next
  case (AgUpdate now i n d p md ks pr)
  with assms(2,3) show ?thesis
    by (auto simp: agent_update_def intro!: agents_edit_keeps [OF assms(1)] dest: agent_update_keeps)
next
  case (AgRemove i)
  then show ?thesis
    by (auto simp: agent_remove_def intro!: agents_edit_keeps [OF assms(1)] dest: agent_remove_keeps)
qed

text \<open>The loader accepts at most 10000 knowledge bases per agent, whatever the configured limit.\<close>

definition agent_call_ok :: "(real \<Rightarrow> string) \<Rightarrow> (string \<Rightarrow> bool option) \<Rightarrow> nat \<Rightarrow> json_file \<Rightarrow> agent_event \<Rightarrow> bool" where
  "agent_call_ok fr dt k f ev \<longleftrightarrow> k \<le> 10000 \<and> agent_event_ok fr dt f ev"

interpretation agent_machine: safe_machine "agent_step fr dt m k" "agents_inv fr dt m k" "agent_call_ok fr dt k"
  for fr dt m k
  by unfold_locales (auto simp: agent_call_ok_def intro: agents_inv_step)

section \<open>The properties\<close>

text \<open>
  Claim C35: with at most 10000 knowledge bases per agent (the bound of the loader), no run of
  the agent store, starting without a catalog, reaches one the loader rejects: identifiers and
  case-folded names stay unique, there are at most \<open>m\<close> agents, and each of them names between
  one and \<open>k\<close> distinct knowledge bases with valid identifiers.
\<close>

theorem agent_catalog_stays_trusted:
  assumes "agent_machine.admissible fr dt m k None evs" and "run_machine (agent_step fr dt m k) None evs = f"
    and "f \<noteq> None"
  shows "\<exists>rs. agent_load fr dt f = Inr rs \<and> length rs \<le> m \<and> distinct (map ag_id rs)
    \<and> distinct (map (\<lambda>r. py_casefold (ag_name r)) rs)
    \<and> (\<forall>r \<in> set rs. ag_kbs r \<noteq> [] \<and> length (ag_kbs r) \<le> k \<and> distinct (ag_kbs r)
        \<and> (\<forall>i \<in> set (ag_kbs r). i = default_id \<or> kb_id_pattern i))"
proof -
  have "agents_inv fr dt m k f"
    using agent_machine.run_inv [OF _ assms(1)] assms(2) by (simp add: agents_inv_def)
  with assms(3) obtain rs where rs: "agent_load fr dt f = Inr rs" "agents_sound m k rs"
    by (auto simp: agents_inv_def)
  have "agents_wf dt rs"
    using rs(1) unfolding agent_load_def by (rule agents.load_wf)
  with rs show ?thesis
    by (auto simp: agents_wf_def agents_sound_def keys_unique_def list_all_iff agent_fields_ok_def kbs_ok_def
        kb_choice_ok_def)
qed

theorem agent_catalog_stays_trusted_witness:
  "\<exists>rs. agent_load (\<lambda>x. []) (\<lambda>s. Some True) (run_machine (agent_step (\<lambda>x. []) (\<lambda>s. Some True) 1 5) None
      [AgEnsure, AgRemove ''a'']) = Inr rs \<and> length rs \<le> 1"
proof -
  have adm: "agent_machine.admissible (\<lambda>x. []) (\<lambda>s. Some True) 1 5 None [AgEnsure, AgRemove ''a'']"
    by (simp add: agent_call_ok_def)
  have "run_machine (agent_step (\<lambda>x. []) (\<lambda>s. Some True) 1 5) None [AgEnsure, AgRemove ''a''] \<noteq> None"
    by (auto simp: agent_ensure_default_def agent_remove_def edit_file_def split: sum.splits option.splits prod.splits)
  from agent_catalog_stays_trusted [OF adm refl this] show ?thesis by blast
qed

text \<open>
  A successful \<open>update\<close> of an agent changes that agent only, keeps its identifier and
  creation time, keeps every field that was not given, and stores exactly the validated form of
  the others; giving \<open>None\<close> as the prompt removes it, not giving one keeps it. The file
  written is the one the next reader loads.
\<close>

theorem agent_update_is_exact:
  assumes "agent_update fr dt k now i name d p md ks pr f = (Inr v, f')" and "agent_load fr dt f = Inr rs"
    and "timestamp_ok dt now" and "k \<le> 10000" and "agents_sound m k rs"
  shows "\<exists>r. find_agent rs i = Some r \<and> agent_load fr dt f' = Inr (update_first (\<lambda>q. ag_id q = i) v rs)
    \<and> agent_get fr dt i f' = Inr (Some v)
    \<and> (\<forall>j. j \<noteq> i \<longrightarrow> agent_get fr dt j f' = agent_get fr dt j f)
    \<and> ag_id v = i \<and> ag_created v = ag_created r \<and> ag_updated v = now
    \<and> (if name = JNull then ag_name v = ag_name r else validate_chat_agent_name name = Inr (ag_name v))
    \<and> (if d = JNull then ag_description v = ag_description r else validate_chat_agent_description d = Inr (ag_description v))
    \<and> (if p = JNull then ag_provider v = ag_provider r else validate_provider_id p = Inr (ag_provider v))
    \<and> (if md = JNull then ag_model v = ag_model r else validate_model_id md = Inr (ag_model v))
    \<and> (if ks = JNull then ag_kbs v = ag_kbs r else validate_knowledge_base_ids fr k ks = Inr (ag_kbs v))
    \<and> (pr = None \<longrightarrow> ag_prompt v = ag_prompt r) \<and> (pr = Some JNull \<longrightarrow> ag_prompt v = None)"
proof -
  have e: "edit_agents fr dt (agent_update_op fr k now i name d p md ks pr) f = (Inr v, f')"
    using assms(1) by (simp add: agent_update_def)
  have l: "load_file AgentCatalogError (validate_agent_catalog fr dt) f = Inr rs"
    using assms(2) by (simp add: agent_load_def)
  obtain w where w: "agent_update_op fr k now i name d p md ks pr rs = Inr (v, w)"
    using edit_file_ok [OF e] l by auto
  then obtain rs' where op: "agent_update_op fr k now i name d p md ks pr rs = Inr (v, Some rs')"
    using agent_update_writes by blast
  obtain r where r: "find_agent rs i = Some r" and rs': "rs' = update_first (\<lambda>q. ag_id q = i) v rs"
    and x: "ag_id v = ag_id r" "ag_created v = ag_created r" "ag_updated v = now"
    and g: "given name (ag_name r) (\<lambda>v. bindE (validate_chat_agent_name v) (\<lambda>n.
        bindE (agent_unique_name rs n (Some i)) (\<lambda>_. Inr n))) = Inr (ag_name v)"
      "given d (ag_description r) validate_chat_agent_description = Inr (ag_description v)"
      "given p (ag_provider r) validate_provider_id = Inr (ag_provider v)"
      "given md (ag_model r) validate_model_id = Inr (ag_model v)"
      "given ks (ag_kbs r) (validate_knowledge_base_ids fr k) = Inr (ag_kbs v)"
      "(case pr of None \<Rightarrow> Inr (ag_prompt r) | Some v \<Rightarrow> validate_prompt_ref fr v) = Inr (ag_prompt v)"
    using agent_update_op_result [OF op] by blast
  have id: "ag_id r = i" using find_agent_id [OF r] by simp
  have "agents_wf dt rs'"
    using agent_update_keeps [OF agents.load_wf [OF l] assms(5) op assms(4,3)] by simp
  then have load: "agent_load fr dt f' = Inr rs'"
    using agents.edit_then_load [OF e l op] by (simp add: agent_load_def)
  have found: "find_agent rs' j = (if j = i then Some v else find_agent rs j)" for j
    using find_update_first [of ag_id v i j rs] r x(1) id by (auto simp: rs' find_agent_def)
  show ?thesis
    using r load found x id g assms(2)
    by (intro exI [of _ r]) (auto simp: rs' [symmetric] agent_get_def given_Inr bindE_eq_Inr validate_prompt_ref_def
        split: if_splits)
qed

definition sample_agent :: chat_agent where
  "sample_agent = \<lparr>ag_id = ''agent_'' @ replicate 32 CHR ''a'', ag_name = ''Helper'', ag_description = [],
     ag_provider = ''local'', ag_model = ''m'', ag_kbs = [''default''], ag_prompt = Some (''p1'', Shared),
     ag_created = ''T0'', ag_updated = ''T0''\<rparr>"

lemma sample_agent_load:
  "agent_load fr (\<lambda>s. Some True) (Some (Some (render_agent_catalog [sample_agent]))) = Inr [sample_agent]
    \<and> agents_sound 1 5 [sample_agent]"
proof -
  have f: "agent_fields_ok 5 sample_agent"
    by (simp add: sample_agent_def agent_fields_ok_def text_ok_def py_trimmed_def py_isspace_def kbs_ok_def
        kb_choice_ok_def default_id_def prompt_ok_def)
  have "hex32 (replicate 32 CHR ''a'')"
    by (simp add: hex32_def list_all_iff) (simp add: py_is_hex_lower_def)
  then have "agent_id_pattern (ag_id sample_agent)"
    by (simp add: sample_agent_def agent_id_pattern_def)
  with fields_ok_mono [OF f, of 10000] have "agents_wf (\<lambda>s. Some True) [sample_agent]"
    by (simp add: agents_wf_def agent_wf_def keys_unique_def timestamp_ok_def)
      (simp add: sample_agent_def py_trimmed_def py_isspace_def)
  with f show ?thesis
    by (simp add: agent_load_def agents.load_written agents_sound_def)
qed

theorem agent_update_is_exact_witness:
  "\<exists>v f'. agent_update (\<lambda>x. []) (\<lambda>s. Some True) 5 ''T1'' (ag_id sample_agent) JNull JNull JNull (JStr ''big'') JNull
      (Some JNull) (Some (Some (render_agent_catalog [sample_agent]))) = (Inr v, f')
    \<and> ag_name v = ''Helper'' \<and> ag_prompt v = None \<and> ag_model v = ''big''"
proof -
  let ?f = "Some (Some (render_agent_catalog [sample_agent]))"
  have "\<exists>v f'. agent_update (\<lambda>x. []) (\<lambda>s. Some True) 5 ''T1'' (ag_id sample_agent) JNull JNull JNull (JStr ''big'') JNull
      (Some JNull) ?f = (Inr v, f')"
    using sample_agent_load [of "\<lambda>x. []"]
    by (simp add: agent_update_def edit_file_def agent_load_def agent_update_op_def find_agent_def given_def
        validate_model_id_def bounded_text_def py_strip_def py_lstrip_def py_rstrip_def py_isspace_def
        validate_prompt_ref_def Let_def)
  then obtain v f' where u: "agent_update (\<lambda>x. []) (\<lambda>s. Some True) 5 ''T1'' (ag_id sample_agent) JNull JNull JNull
      (JStr ''big'') JNull (Some JNull) ?f = (Inr v, f')"
    by blast
  have clock: "timestamp_ok (\<lambda>s. Some True) ''T1''"
    by (simp add: timestamp_ok_def py_trimmed_def py_isspace_def)
  have "validate_model_id (JStr ''big'') = Inr ''big''"
    by (simp add: validate_model_id_def bounded_text_def py_strip_def py_lstrip_def py_rstrip_def py_isspace_def)
  with agent_update_is_exact [OF u sample_agent_load [THEN conjunct1] clock _ sample_agent_load [THEN conjunct2]] u
  show ?thesis
    by (auto simp: find_agent_def sample_agent_def)
qed

end
