(* ===== verification/Conversation_Memory.thy ===== *)
theory Conversation_Memory
  imports Py_Json
begin

text \<open>
  The in-process conversation memory (\<open>ConversationMemoryStore\<close> in
  \<open>app/utils/conversation_memory.py\<close>): recent turns of each conversation, kept in the order of
  their durable sequence, a summary of the older ones and a version that the summariser
  compares before it replaces turns by their summary. The conversations form an ordered
  dictionary, least recently used first.

  A missing conversation id and the empty one are both the empty text. The sizes of the
  configuration are natural numbers. One reading of the clock stands for the readings of a
  single call, which all happen under the lock of the store. The Redis subclass is not
  modelled.
\<close>

section \<open>Data\<close>

record mem_turn =
  mt_user :: string
  mt_assistant :: string
  mt_seq :: "int option"

record summary_job =
  sj_conv :: string
  sj_previous :: string
  sj_turns :: "mem_turn list"
  sj_recent :: "mem_turn list"
  sj_version :: int

record mem_state =
  ms_summary :: string
  ms_through :: int
  ms_turns :: "mem_turn list"
  ms_kbs :: "string set"
  ms_created :: time
  ms_updated :: time
  ms_version :: int

record mem_snapshot =
  sn_kbs :: "string set"
  sn_prompt :: string
  sn_retrieval :: string
  sn_version :: "int option"

record mem_store =
  mm_threshold :: nat
  mm_prompt_max :: nat
  mm_retrieval_max :: nat
  mm_summary_max :: nat
  mm_keep :: nat
  mm_ttl :: real
  mm_max_items :: nat
  mm_convs :: "(string, mem_state) odict"

definition new_mem_store :: "nat \<Rightarrow> nat \<Rightarrow> nat \<Rightarrow> nat \<Rightarrow> nat \<Rightarrow> real \<Rightarrow> nat \<Rightarrow> mem_store" where
  "new_mem_store threshold prompt retrieval summary keep ttl max_items =
     \<lparr>mm_threshold = threshold, mm_prompt_max = prompt, mm_retrieval_max = retrieval, mm_summary_max = summary,
      mm_keep = max 1 keep, mm_ttl = ttl, mm_max_items = max_items, mm_convs = []\<rparr>"

definition empty_state :: "time \<Rightarrow> mem_state" where
  "empty_state now = \<lparr>ms_summary = [], ms_through = 0, ms_turns = [], ms_kbs = {},
     ms_created = now, ms_updated = now, ms_version = 0\<rparr>"

section \<open>Texts\<close>

abbreviation newline :: char where
  "newline \<equiv> CHR 0x0A"

definition max_stored_message_chars :: nat where
  "max_stored_message_chars = 6000"

definition default_summary_max_chars :: nat where
  "default_summary_max_chars = 3000"

definition omitted_marker :: string where
  "omitted_marker = ''[...parte iniziale della conversazione omessa...]'' @ [newline]"

definition clamp_marker :: string where
  "clamp_marker = [newline] @ ''[...contenuto abbreviato...]'' @ [newline]"

text \<open>\<open>value[-n:]\<close>: for \<open>n = 0\<close> the slice is the whole text.\<close>

definition py_last :: "nat \<Rightarrow> string \<Rightarrow> string" where
  "py_last n s = (if n = 0 then s else drop (length s - n) s)"

definition trim_left :: "string \<Rightarrow> nat \<Rightarrow> string" where
  "trim_left v max_chars = (if length v \<le> max_chars then v else omitted_marker @ py_last max_chars v)"

definition clamp_text :: "string \<Rightarrow> nat \<Rightarrow> string" where
  "clamp_text value max_chars =
     (let v = py_strip value
      in if length v \<le> max_chars then v
         else let head = max_chars div 2; tail = int max_chars - int head - int (length clamp_marker)
              in if tail \<le> 0 then take max_chars v
                 else py_rstrip (take head v) @ clamp_marker @ py_lstrip (py_last (nat tail) v))"

definition format_turns :: "mem_turn list \<Rightarrow> string" where
  "format_turns ts = py_join [newline, newline] (map (\<lambda>t.
     ''Utente:'' @ [newline] @ mt_user t @ [newline, newline] @ ''Assistente:'' @ [newline] @ mt_assistant t) ts)"

definition render_state :: "mem_state \<Rightarrow> string" where
  "render_state s = py_join [newline, newline]
     ((if ms_summary s \<noteq> [] then [''Riassunto della conversazione precedente:'' @ [newline] @ ms_summary s] else [])
      @ (if ms_turns s \<noteq> [] then [''Turni recenti:'' @ [newline] @ format_turns (ms_turns s)] else []))"

definition state_size :: "mem_state \<Rightarrow> nat" where
  "state_size s = length (render_state s)"

definition fallback_summary :: "summary_job \<Rightarrow> string" where
  "fallback_summary j = clamp_text (py_strip (py_join [newline, newline]
     (filter (\<lambda>p. p \<noteq> []) ((if sj_previous j \<noteq> [] then [sj_previous j] else []) @ [format_turns (sj_turns j)]))))
     default_summary_max_chars"

section \<open>Sequences\<close>

text \<open>\<open>_durable_state_sequence\<close>: the highest durable sequence the turns and the summary stand for.\<close>

definition durable_state_sequence :: "mem_turn list \<Rightarrow> int \<Rightarrow> int" where
  "durable_state_sequence ts through =
     fold (\<lambda>t h. case mt_seq t of None \<Rightarrow> h | Some s \<Rightarrow> max h s) ts (max 0 through)"

definition conversation_state_sequence :: "mem_state \<Rightarrow> int" where
  "conversation_state_sequence s = durable_state_sequence (ms_turns s) (ms_through s)"

text \<open>The property \<open>through_sequence\<close> of a summary job.\<close>

fun through_of :: "int \<Rightarrow> mem_turn list \<Rightarrow> int option" where
  "through_of h [] = Some h"
| "through_of h (t # ts) = (case mt_seq t of None \<Rightarrow> None | Some s \<Rightarrow> through_of (max h s) ts)"

definition through_sequence :: "summary_job \<Rightarrow> int option" where
  "through_sequence j = (if sj_turns j = [] then None else through_of 0 (sj_turns j))"

text \<open>The loop of \<open>_insert_turn_by_sequence\<close>; \<open>None\<close> for a sequence that is present.\<close>

fun insert_by_sequence :: "int \<Rightarrow> mem_turn \<Rightarrow> mem_turn list \<Rightarrow> mem_turn list option" where
  "insert_by_sequence sq t [] = Some [t]"
| "insert_by_sequence sq t (e # es) = (case mt_seq e of
       None \<Rightarrow> map_option ((#) e) (insert_by_sequence sq t es)
     | Some s \<Rightarrow>
         if s = sq then None
         else if sq < s then Some (t # e # es)
         else map_option ((#) e) (insert_by_sequence sq t es))"

definition insert_turn :: "mem_state \<Rightarrow> mem_turn \<Rightarrow> bool \<times> mem_state" where
  "insert_turn s t = (case mt_seq t of
       None \<Rightarrow> (True, s\<lparr>ms_turns := ms_turns s @ [t]\<rparr>)
     | Some sq \<Rightarrow>
         if sq \<le> ms_through s then (False, s)
         else (case insert_by_sequence sq t (ms_turns s) of
             None \<Rightarrow> (False, s)
           | Some ts \<Rightarrow> (True, s\<lparr>ms_turns := ts\<rparr>)))"

text \<open>\<open>range(2, target + 1, 2)\<close>: the assistant messages of a transcript have the even sequences.\<close>

definition state_covers_sequence :: "mem_state option \<Rightarrow> int \<Rightarrow> bool" where
  "state_covers_sequence st sq = (case st of
       None \<Rightarrow> False
     | Some s \<Rightarrow>
         let target = max 0 sq; through = max 0 (ms_through s)
         in target = 0 \<or> list_all (\<lambda>k. \<not> (through < k \<and> Some k \<notin> set (map mt_seq (ms_turns s))))
              (map (\<lambda>i. 2 * int i) [1..<nat target div 2 + 1]))"

section \<open>Operations\<close>

definition mem_purge :: "time \<Rightarrow> mem_store \<Rightarrow> mem_store" where
  "mem_purge now m = m\<lparr>mm_convs := od_pop_all
     (map fst (filter (\<lambda>(i, s). mm_ttl m < now - ms_updated s) (mm_convs m))) (mm_convs m)\<rparr>"

definition mem_get_state :: "time \<Rightarrow> string \<Rightarrow> bool \<Rightarrow> mem_store \<Rightarrow> mem_state option \<times> mem_store" where
  "mem_get_state now i create m0 =
     (let m = mem_purge now m0
      in case od_get (mm_convs m) i of
           Some s \<Rightarrow> (Some s, m)
         | None \<Rightarrow> if \<not> create then (None, m)
             else (Some (empty_state now), m\<lparr>mm_convs := od_set i (empty_state now) (mm_convs m)\<rparr>))"

text \<open>The object of the dictionary is changed in place, then moved to the end.\<close>

definition mem_touch :: "string \<Rightarrow> mem_state \<Rightarrow> mem_store \<Rightarrow> mem_store" where
  "mem_touch i s m = m\<lparr>mm_convs := od_move_to_end i (od_set i s (mm_convs m))\<rparr>"

definition evict_if_needed :: "mem_store \<Rightarrow> mem_store" where
  "evict_if_needed m = m\<lparr>mm_convs := drop (length (mm_convs m) - mm_max_items m) (mm_convs m)\<rparr>"

definition render_for_prompt :: "time \<Rightarrow> string \<Rightarrow> nat option \<Rightarrow> mem_store \<Rightarrow> string \<times> mem_store" where
  "render_for_prompt now i max_chars m0 =
     (if i = [] then ([], m0)
      else case mem_get_state now i False m0 of
             (None, m) \<Rightarrow> ([], m)
           | (Some s, m) \<Rightarrow>
               (trim_left (render_state s) (case max_chars of None \<Rightarrow> mm_prompt_max m
                  | Some n \<Rightarrow> if n = 0 then mm_prompt_max m else n),
                mem_touch i (s\<lparr>ms_updated := now\<rparr>) m))"

definition render_for_retrieval :: "time \<Rightarrow> string \<Rightarrow> mem_store \<Rightarrow> string \<times> mem_store" where
  "render_for_retrieval now i m = render_for_prompt now i (Some (mm_retrieval_max m)) m"

definition mem_take_snapshot :: "time \<Rightarrow> string \<Rightarrow> mem_store \<Rightarrow> mem_snapshot \<times> mem_store" where
  "mem_take_snapshot now i m0 =
     (let nothing = \<lparr>sn_kbs = {}, sn_prompt = [], sn_retrieval = [], sn_version = None\<rparr>
      in if i = [] then (nothing, m0)
         else case mem_get_state now i False m0 of
                (None, m) \<Rightarrow> (nothing, m)
              | (Some s, m) \<Rightarrow>
                  (\<lparr>sn_kbs = ms_kbs s, sn_prompt = trim_left (render_state s) (mm_prompt_max m),
                    sn_retrieval = trim_left (render_state s) (mm_retrieval_max m), sn_version = Some (ms_version s)\<rparr>,
                   mem_touch i (s\<lparr>ms_updated := now\<rparr>) m))"

definition summary_split_index :: "mem_store \<Rightarrow> mem_turn list \<Rightarrow> nat" where
  "summary_split_index m ts = (if length ts \<le> mm_keep m then length ts - 1 else length ts - mm_keep m)"

text \<open>\<open>{str(value) for value in (knowledge_base_ids or ()) if value}\<close>\<close>

definition kb_set :: "string list \<Rightarrow> string set" where
  "kb_set ks = set (filter (\<lambda>k. k \<noteq> []) ks)"

definition mem_append_turn ::
  "time \<Rightarrow> string \<Rightarrow> string \<Rightarrow> string \<Rightarrow> string list \<Rightarrow> int option \<Rightarrow> mem_store \<Rightarrow> summary_job option \<times> mem_store" where
  "mem_append_turn now i user assistant kbs sq m0 =
     (if i = [] then (None, m0)
      else let t = \<lparr>mt_user = clamp_text user max_stored_message_chars,
                    mt_assistant = clamp_text assistant max_stored_message_chars, mt_seq = sq\<rparr>
      in case mem_get_state now i True m0 of
           (None, m) \<Rightarrow> (None, m)
         | (Some s0, m) \<Rightarrow>
             let (added, s1) = insert_turn s0 t;
                 kbs' = ms_kbs s1 \<union> kb_set kbs;
                 s = s1\<lparr>ms_kbs := kbs', ms_updated := now,
                        ms_version := ms_version s1 + (if added \<or> kbs' \<noteq> ms_kbs s1 then 1 else 0)\<rparr>;
                 m' = evict_if_needed (mem_touch i s m);
                 split = summary_split_index m (ms_turns s)
             in (if \<not> added \<or> state_size s \<le> mm_threshold m \<or> split = 0 then None
                 else Some \<lparr>sj_conv = i, sj_previous = ms_summary s, sj_turns = take split (ms_turns s),
                            sj_recent = drop split (ms_turns s), sj_version = ms_version s\<rparr>,
                 m'))"

definition append_turn_once ::
  "time \<Rightarrow> string \<Rightarrow> string \<Rightarrow> string \<Rightarrow> string list \<Rightarrow> int option \<Rightarrow> mem_store \<Rightarrow> summary_job option \<times> mem_store" where
  "append_turn_once now i user assistant kbs sq m0 =
     (if i = [] then (None, m0)
      else case mem_get_state now i False m0 of
             (None, m) \<Rightarrow> mem_append_turn now i user assistant kbs sq m
           | (Some s, m) \<Rightarrow>
               if ms_turns s \<noteq> [] \<and> mt_user (last (ms_turns s)) = clamp_text user max_stored_message_chars
               then (None, m)
               else mem_append_turn now i user assistant kbs sq m)"

definition version_or_length :: "int option \<Rightarrow> mem_turn list \<Rightarrow> int" where
  "version_or_length v ts = (case v of None \<Rightarrow> int (length ts) | Some n \<Rightarrow> n)"

definition hydrate_if_absent ::
  "time \<Rightarrow> string \<Rightarrow> string \<Rightarrow> mem_turn list \<Rightarrow> string list \<Rightarrow> int option \<Rightarrow> int \<Rightarrow> mem_store \<Rightarrow> bool \<times> mem_store" where
  "hydrate_if_absent now i summary ts kbs version through m0 =
     (if i = [] then (False, m0)
      else case mem_get_state now i False m0 of
             (Some s, m) \<Rightarrow> (False, m)
           | (None, m) \<Rightarrow>
               let s = (empty_state now)\<lparr>ms_summary := clamp_text summary (mm_summary_max m), ms_through := max 0 through,
                          ms_turns := ts, ms_kbs := kb_set kbs, ms_version := version_or_length version ts\<rparr>
               in (True, evict_if_needed (mem_touch i s m)))"

definition replace_from_durable ::
  "time \<Rightarrow> string \<Rightarrow> string \<Rightarrow> mem_turn list \<Rightarrow> string list \<Rightarrow> int option \<Rightarrow> int \<Rightarrow> mem_store \<Rightarrow> bool \<times> mem_store" where
  "replace_from_durable now i summary ts kbs version through m0 =
     (if i = [] then (False, m0)
      else let (existing, m) = mem_get_state now i False m0
      in if (case existing of None \<Rightarrow> False
               | Some s \<Rightarrow> durable_state_sequence ts through < conversation_state_sequence s)
         then (False, m)
         else let s = \<lparr>ms_summary = clamp_text summary (mm_summary_max m), ms_through = max 0 through, ms_turns = ts,
                       ms_kbs = kb_set kbs, ms_created = (case existing of None \<Rightarrow> now | Some e \<Rightarrow> ms_created e),
                       ms_updated = now, ms_version = version_or_length version ts\<rparr>
              in (True, evict_if_needed (mem_touch i s m)))"

definition durable_state_is_current :: "time \<Rightarrow> string \<Rightarrow> int \<Rightarrow> mem_store \<Rightarrow> bool \<times> mem_store" where
  "durable_state_is_current now i sq m0 =
     (if i = [] then (False, m0)
      else let (st, m) = mem_get_state now i False m0 in (state_covers_sequence st sq, m))"

definition apply_summary :: "time \<Rightarrow> summary_job \<Rightarrow> string \<Rightarrow> mem_store \<Rightarrow> bool \<times> mem_store" where
  "apply_summary now j summary m0 = (case mem_get_state now (sj_conv j) False m0 of
       (None, m) \<Rightarrow> (False, m)
     | (Some s, m) \<Rightarrow>
         if ms_version s \<noteq> sj_version j then (False, m)
         else (True, mem_touch (sj_conv j)
                (s\<lparr>ms_summary := clamp_text (py_strip summary) (mm_summary_max m), ms_turns := sj_recent j,
                   ms_through := (case through_sequence j of None \<Rightarrow> ms_through s | Some n \<Rightarrow> n),
                   ms_updated := now, ms_version := ms_version s + 1\<rparr>) m))"

definition mem_clear :: "string \<Rightarrow> mem_store \<Rightarrow> bool \<times> mem_store" where
  "mem_clear i m = (if i = [] then (False, m)
     else (od_get (mm_convs m) i \<noteq> None, m\<lparr>mm_convs := od_pop i (mm_convs m)\<rparr>))"

definition clear_if_version :: "time \<Rightarrow> string \<Rightarrow> int option \<Rightarrow> mem_store \<Rightarrow> bool \<times> mem_store" where
  "clear_if_version now i version m0 =
     (if i = [] \<or> version = None then (False, m0)
      else case mem_get_state now i False m0 of
             (None, m) \<Rightarrow> (False, m)
           | (Some s, m) \<Rightarrow> if version \<noteq> Some (ms_version s) then (False, m)
               else (True, m\<lparr>mm_convs := od_pop i (mm_convs m)\<rparr>))"

definition mem_clear_all :: "mem_store \<Rightarrow> mem_store" where
  "mem_clear_all m = m\<lparr>mm_convs := []\<rparr>"

definition mem_clear_by_prefix :: "string \<Rightarrow> mem_store \<Rightarrow> nat \<times> mem_store" where
  "mem_clear_by_prefix p m =
     (if p = [] then (0, m)
      else let ks = filter (\<lambda>i. py_startswith i p) (map fst (mm_convs m))
           in (length ks, m\<lparr>mm_convs := od_pop_all ks (mm_convs m)\<rparr>))"

definition mem_knowledge_base_ids :: "time \<Rightarrow> string \<Rightarrow> mem_store \<Rightarrow> string set \<times> mem_store" where
  "mem_knowledge_base_ids now i m0 =
     (if i = [] then ({}, m0)
      else let (st, m) = mem_get_state now i False m0
           in (case st of None \<Rightarrow> {} | Some s \<Rightarrow> ms_kbs s, m))"

definition mem_clear_by_knowledge_base :: "string \<Rightarrow> string \<Rightarrow> mem_store \<Rightarrow> nat \<times> mem_store" where
  "mem_clear_by_knowledge_base ws kb m =
     (let ks = map fst (filter (\<lambda>(i, s). py_startswith i (ws @ '':kb:'' @ kb @ '':'')
                  \<or> (py_startswith i (ws @ '':multi-chat:'') \<and> kb \<in> ms_kbs s)) (mm_convs m))
      in (length ks, m\<lparr>mm_convs := od_pop_all ks (mm_convs m)\<rparr>))"

end
