(* ===== verification/Memory_Claims.thy ===== *)
theory Memory_Claims
  imports Conversation_Memory
begin

text \<open>
  The conversation memory: bounds of the stored texts and of the store, the order of the
  turns, suppression of replayed turns and the compare-and-swap of the summariser.
\<close>

section \<open>Texts\<close>

lemma length_py_last: "length (py_last n s) = (if n = 0 then length s else min n (length s))"
  by (auto simp: py_last_def)

lemma length_clamp: "length (clamp_text v n) \<le> n"
proof -
  define w where "w = py_strip v"
  define tail where "tail = int n - int (n div 2) - int (length clamp_marker)"
  have "length (py_rstrip (take (n div 2) w)) + length clamp_marker + length (py_lstrip (py_last (nat tail) w)) \<le> n"
    if "0 < tail"
  proof -
    have "length (py_rstrip (take (n div 2) w)) \<le> n div 2"
      using length_py_rstrip [of "take (n div 2) w"] by simp
    moreover have "length (py_lstrip (py_last (nat tail) w)) \<le> nat tail"
      using length_py_lstrip [of "py_last (nat tail) w"] that by (simp add: length_py_last)
    moreover have "n div 2 + length clamp_marker + nat tail = n"
      using that by (simp add: tail_def)
    ultimately show ?thesis by linarith
  qed
  then show ?thesis
    unfolding clamp_text_def w_def [symmetric] Let_def tail_def [symmetric] by auto
qed

section \<open>Sequences\<close>

text \<open>The known sequences of the turns, in order.\<close>

definition seqs :: "mem_turn list \<Rightarrow> int list" where
  "seqs ts = List.map_filter mt_seq ts"

lemma seqs_simps [simp]:
  "seqs [] = []"
  "seqs (t # ts) = (case mt_seq t of None \<Rightarrow> seqs ts | Some s \<Rightarrow> s # seqs ts)"
  "seqs (ts @ us) = seqs ts @ seqs us"
  by (auto simp: seqs_def map_filter_def split: option.splits)

lemma seqs_iff: "s \<in> set (seqs ts) \<longleftrightarrow> Some s \<in> set (map mt_seq ts)"
  by (induction ts) (auto split: option.splits)

lemma insert_by_sequence_set:
  "mt_seq t = Some sq \<Longrightarrow> insert_by_sequence sq t ts = Some us \<Longrightarrow>
    set us = insert t (set ts) \<and> length us = Suc (length ts) \<and> set (seqs us) = insert sq (set (seqs ts))"
  by (induction ts arbitrary: us) (auto split: option.splits if_splits)

lemma insert_by_sequence_sorted:
  "mt_seq t = Some sq \<Longrightarrow> insert_by_sequence sq t ts = Some us \<Longrightarrow> sorted_wrt (<) (seqs ts)
    \<Longrightarrow> sorted_wrt (<) (seqs us)"
proof (induction ts arbitrary: us)
  case Nil
  then show ?case by auto
next
  case (Cons e ts)
  show ?case
  proof (cases "mt_seq e")
    case None
    with Cons show ?thesis by auto
  next
    case (Some s)
    consider "sq < s" | "s < sq" using Some Cons.prems(2) by (auto split: if_splits)
    then show ?thesis
    proof cases
      case 1
      with Some Cons.prems show ?thesis by force
    next
      case 2
      then obtain vs where vs: "insert_by_sequence sq t ts = Some vs" "us = e # vs"
        using Some Cons.prems(2) by auto
      have "sorted_wrt (<) (seqs vs)"
        using Cons.IH [OF Cons.prems(1) vs(1)] Cons.prems(3) Some by simp
      moreover have "\<forall>x \<in> set (seqs vs). s < x"
        using insert_by_sequence_set [OF Cons.prems(1) vs(1)] Cons.prems(3) Some 2 by auto
      ultimately show ?thesis using Some vs(2) by simp
    qed
  qed
qed

lemma insert_by_sequence_present:
  "sorted_wrt (<) (seqs ts) \<Longrightarrow> insert_by_sequence sq t ts = None \<longleftrightarrow> sq \<in> set (seqs ts)"
  by (induction ts) (auto split: option.splits)

section \<open>The invariant\<close>

definition state_ok :: "nat \<Rightarrow> mem_state \<Rightarrow> bool" where
  "state_ok n s \<longleftrightarrow> length (ms_summary s) \<le> n \<and> sorted_wrt (<) (seqs (ms_turns s))"

definition mem_inv :: "mem_store \<Rightarrow> bool" where
  "mem_inv m \<longleftrightarrow> od_wf (mm_convs m) \<and> length (mm_convs m) \<le> mm_max_items m
     \<and> (\<forall>(i, s) \<in> set (mm_convs m). state_ok (mm_summary_max m) s)"

definition mem_weak :: "mem_store \<Rightarrow> bool" where
  "mem_weak m \<longleftrightarrow> od_wf (mm_convs m) \<and> (\<forall>(i, s) \<in> set (mm_convs m). state_ok (mm_summary_max m) s)"

lemma mem_inv_weak: "mem_inv m \<Longrightarrow> mem_weak m"
  by (simp add: mem_inv_def mem_weak_def)

lemma mem_inv_iff: "mem_inv m \<longleftrightarrow> mem_weak m \<and> length (mm_convs m) \<le> mm_max_items m"
  by (auto simp: mem_inv_def mem_weak_def)

lemma weak_get: "mem_weak m \<Longrightarrow> od_get (mm_convs m) i = Some s \<Longrightarrow> state_ok (mm_summary_max m) s"
  by (auto simp: mem_weak_def dest!: od_get_Some_mem)

lemma mem_inv_filter:
  "mem_inv m \<Longrightarrow> mem_inv (m\<lparr>mm_convs := filter P (mm_convs m)\<rparr>)"
  by (auto simp: mem_inv_def intro: order_trans [OF length_filter_le])

lemma mem_inv_pop_all: "mem_inv m \<Longrightarrow> mem_inv (m\<lparr>mm_convs := od_pop_all ks (mm_convs m)\<rparr>)"
  unfolding od_pop_all_filter by (rule mem_inv_filter)

lemma mem_inv_pop: "mem_inv m \<Longrightarrow> mem_inv (m\<lparr>mm_convs := od_pop i (mm_convs m)\<rparr>)"
  unfolding AList.delete_eq by (rule mem_inv_filter)

lemma purge_inv_mem: "mem_inv m \<Longrightarrow> mem_inv (mem_purge now m)"
  unfolding mem_purge_def by (rule mem_inv_pop_all)

lemma purge_settings [simp]:
  "mm_summary_max (mem_purge now m) = mm_summary_max m" "mm_max_items (mem_purge now m) = mm_max_items m"
  "mm_threshold (mem_purge now m) = mm_threshold m" "mm_keep (mem_purge now m) = mm_keep m"
  "mm_ttl (mem_purge now m) = mm_ttl m"
  by (simp_all add: mem_purge_def)

lemma touch_settings [simp]:
  "mm_summary_max (mem_touch i s m) = mm_summary_max m" "mm_max_items (mem_touch i s m) = mm_max_items m"
  "mm_ttl (mem_touch i s m) = mm_ttl m"
  by (simp_all add: mem_touch_def)

lemma empty_state_ok: "state_ok n (empty_state now)"
  by (simp add: state_ok_def empty_state_def)

lemma weak_set: "mem_weak m \<Longrightarrow> state_ok (mm_summary_max m) s \<Longrightarrow> mem_weak (m\<lparr>mm_convs := od_set i s (mm_convs m)\<rparr>)"
  by (auto simp: mem_weak_def dest!: subsetD [OF set_od_set])

lemma weak_move: "mem_weak m \<Longrightarrow> mem_weak (m\<lparr>mm_convs := od_move_to_end i (mm_convs m)\<rparr>)"
  by (auto simp: mem_weak_def od_move_to_end_def AList.delete_eq split: option.splits dest!: od_get_Some_mem)

lemma touch_weak: "mem_weak m \<Longrightarrow> state_ok (mm_summary_max m) s \<Longrightarrow> mem_weak (mem_touch i s m)"
  using weak_move [OF weak_set] by (simp add: mem_touch_def)

lemma get_state_weak:
  assumes "mem_inv m0" and "mem_get_state now i create m0 = (st, m)"
  shows "mem_weak m \<and> (\<forall>s. st = Some s \<longrightarrow> state_ok (mm_summary_max m) s \<and> od_get (mm_convs m) i = Some s)
    \<and> (\<not> create \<longrightarrow> mem_inv m)"
  using assms(2) purge_inv_mem [OF assms(1), of now] empty_state_ok
  by (auto simp: mem_get_state_def Let_def mem_inv_weak weak_set split: option.splits if_splits
      dest: weak_get [OF mem_inv_weak])

lemma evict_inv: "mem_weak m \<Longrightarrow> mem_inv (evict_if_needed m)"
  by (auto simp: mem_inv_def mem_weak_def evict_if_needed_def drop_map [symmetric] dest: in_set_dropD)

lemma touch_present_inv:
  assumes "mem_inv m" and "od_get (mm_convs m) i = Some s0" and "state_ok (mm_summary_max m) s"
  shows "mem_inv (mem_touch i s m)"
proof -
  have "od_wf (mm_convs m)" using assms(1) by (simp add: mem_inv_def)
  then have "length (mm_convs (mem_touch i s m)) = length (mm_convs m)"
    using assms(2) by (simp add: mem_touch_def length_od_move_to_end length_od_set)
  with assms(1) touch_weak [OF mem_inv_weak [OF assms(1)] assms(3)] show ?thesis
    by (simp add: mem_inv_iff)
qed

section \<open>Every operation keeps the invariant\<close>

lemma insert_turn_ok:
  assumes "insert_turn s t = (added, s')" and "state_ok n s"
  shows "state_ok n s' \<and> ms_summary s' = ms_summary s \<and> ms_through s' = ms_through s \<and> ms_kbs s' = ms_kbs s
    \<and> ms_version s' = ms_version s"
proof (cases "mt_seq t")
  case None
  with assms show ?thesis by (auto simp: insert_turn_def state_ok_def)
next
  case (Some sq)
  with assms show ?thesis
    by (auto simp: insert_turn_def state_ok_def split: if_splits option.splits
        intro: insert_by_sequence_sorted)
qed

text \<open>What one \<open>append_turn\<close> does, once the state of the conversation is found or created.\<close>

definition new_turn :: "string \<Rightarrow> string \<Rightarrow> int option \<Rightarrow> mem_turn" where
  "new_turn u a sq = \<lparr>mt_user = clamp_text u max_stored_message_chars,
     mt_assistant = clamp_text a max_stored_message_chars, mt_seq = sq\<rparr>"

definition after_append :: "time \<Rightarrow> string list \<Rightarrow> bool \<Rightarrow> mem_state \<Rightarrow> mem_state" where
  "after_append now kbs added s1 = s1\<lparr>ms_kbs := ms_kbs s1 \<union> kb_set kbs, ms_updated := now,
     ms_version := ms_version s1 + (if added \<or> ms_kbs s1 \<union> kb_set kbs \<noteq> ms_kbs s1 then 1 else 0)\<rparr>"

lemma after_append_turns [simp]:
  "ms_turns (after_append now kbs added s1) = ms_turns s1" "ms_through (after_append now kbs added s1) = ms_through s1"
  "ms_summary (after_append now kbs added s1) = ms_summary s1" "ms_updated (after_append now kbs added s1) = now"
  by (simp_all add: after_append_def)

definition issued_job :: "string \<Rightarrow> nat \<Rightarrow> mem_state \<Rightarrow> summary_job" where
  "issued_job i k s = \<lparr>sj_conv = i, sj_previous = ms_summary s, sj_turns = take k (ms_turns s),
     sj_recent = drop k (ms_turns s), sj_version = ms_version s\<rparr>"

lemma append_turn_unfold:
  assumes "i \<noteq> []" and "mem_get_state now i True m0 = (Some s0, m)" and "insert_turn s0 (new_turn u a sq) = (added, s1)"
  shows "mem_append_turn now i u a kbs sq m0 =
    (let s = after_append now kbs added s1; k = summary_split_index m (ms_turns s)
     in (if \<not> added \<or> state_size s \<le> mm_threshold m \<or> k = 0 then None else Some (issued_job i k s),
         evict_if_needed (mem_touch i s m)))"
  using assms by (simp add: mem_append_turn_def new_turn_def after_append_def issued_job_def Let_def)

lemma get_state_creates: "\<exists>s m. mem_get_state now i True m0 = (Some s, m)"
  by (simp add: mem_get_state_def Let_def split: option.split)

lemma append_turn_result:
  assumes "mem_append_turn now i u a kbs sq m0 = (job, m1)" and "i \<noteq> []" and "mem_inv m0"
  obtains m s0 added s1 where "mem_get_state now i True m0 = (Some s0, m)"
    "insert_turn s0 (new_turn u a sq) = (added, s1)"
    "m1 = evict_if_needed (mem_touch i (after_append now kbs added s1) m)"
    "mem_weak m" "state_ok (mm_summary_max m) (after_append now kbs added s1)"
    "job = None \<or> (added \<and> (\<exists>k. 0 < k \<and> k = summary_split_index m (ms_turns s1)
       \<and> job = Some (issued_job i k (after_append now kbs added s1))))"
proof -
  obtain s0 m where g: "mem_get_state now i True m0 = (Some s0, m)"
    using get_state_creates by blast
  obtain added s1 where ins: "insert_turn s0 (new_turn u a sq) = (added, s1)" by fastforce
  have weak: "mem_weak m" "state_ok (mm_summary_max m) s0"
    using get_state_weak [OF assms(3) g] by auto
  have ok: "state_ok (mm_summary_max m) (after_append now kbs added s1)"
    using insert_turn_ok [OF ins weak(2)] by (auto simp: after_append_def state_ok_def)
  show thesis
    using assms(1) append_turn_unfold [OF assms(2) g ins, of kbs]
    by (intro that [OF g ins _ weak(1) ok]) (auto simp: Let_def split: if_splits)
qed

definition job_ok :: "summary_job \<Rightarrow> bool" where
  "job_ok j \<longleftrightarrow> sorted_wrt (<) (seqs (sj_recent j))"

lemma seqs_append_sorted: "sorted_wrt (<) (seqs (ts @ us)) \<Longrightarrow> sorted_wrt (<) (seqs us)"
  by (simp add: sorted_wrt_append)

lemma append_turn_inv:
  assumes "mem_append_turn now i u a kbs sq m0 = (job, m1)" and "mem_inv m0"
  shows "mem_inv m1 \<and> (\<forall>j. job = Some j \<longrightarrow> job_ok j)"
proof (cases "i = []")
  case True
  with assms show ?thesis by (auto simp: mem_append_turn_def)
next
  case False
  from assms(1) False assms(2) show ?thesis
  proof (rule append_turn_result)
    fix m s0 added s1
    let ?s = "after_append now kbs added s1"
    assume m1: "m1 = evict_if_needed (mem_touch i ?s m)" and w: "mem_weak m" "state_ok (mm_summary_max m) ?s"
      and j: "job = None \<or> (added \<and> (\<exists>k. 0 < k \<and> k = summary_split_index m (ms_turns s1) \<and> job = Some (issued_job i k ?s)))"
    have "sorted_wrt (<) (seqs (drop k (ms_turns ?s)))" for k
      using w(2) seqs_append_sorted [of "take k (ms_turns ?s)" "drop k (ms_turns ?s)"]
      by (simp add: state_ok_def del: seqs_simps)
    with j have "\<forall>j. job = Some j \<longrightarrow> job_ok j" by (auto simp: job_ok_def issued_job_def)
    with m1 evict_inv [OF touch_weak [OF w]] show ?thesis by simp
  qed
qed

lemma touched_state_ok: "state_ok n (s\<lparr>ms_updated := now\<rparr>) = state_ok n s"
  by (simp add: state_ok_def)

lemma mem_read_inv:
  assumes "mem_inv m0" and "mem_get_state now i False m0 = (st, m)"
  shows "mem_inv m" and "st = Some s \<Longrightarrow> mem_inv (mem_touch i (s\<lparr>ms_updated := now'\<rparr>) m)"
  using get_state_weak [OF assms] by (auto intro: touch_present_inv simp: touched_state_ok)

lemma render_inv: "mem_inv m \<Longrightarrow> mem_inv (snd (render_for_prompt now i mx m))"
  using mem_read_inv [of m now i] by (cases "mem_get_state now i False m")
    (auto simp: render_for_prompt_def split: option.splits)

lemma snapshot_inv: "mem_inv m \<Longrightarrow> mem_inv (snd (mem_take_snapshot now i m))"
  using mem_read_inv [of m now i] by (cases "mem_get_state now i False m")
    (auto simp: mem_take_snapshot_def Let_def split: option.splits)

lemma append_once_inv:
  assumes "append_turn_once now i u a kbs sq m0 = (job, m1)" and "mem_inv m0"
  shows "mem_inv m1 \<and> (\<forall>j. job = Some j \<longrightarrow> job_ok j)"
  using assms mem_read_inv(1) [OF assms(2), of now i]
  by (cases "mem_get_state now i False m0")
    (auto simp: append_turn_once_def split: if_splits option.splits dest: append_turn_inv)

lemma fresh_state_ok:
  "sorted_wrt (<) (seqs ts) \<Longrightarrow> state_ok n (s\<lparr>ms_summary := clamp_text summary n, ms_through := t, ms_turns := ts,
    ms_kbs := k, ms_version := v\<rparr>)"
  by (simp add: state_ok_def length_clamp)

lemma hydrate_inv:
  assumes "mem_inv m0" and "sorted_wrt (<) (seqs ts)"
  shows "mem_inv (snd (hydrate_if_absent now i summary ts kbs version through m0))"
  using get_state_weak [OF assms(1), of now i False] assms
  by (cases "mem_get_state now i False m0")
    (auto simp: hydrate_if_absent_def Let_def intro!: evict_inv touch_weak fresh_state_ok dest: mem_inv_weak split: option.splits)

lemma replace_inv:
  assumes "mem_inv m0" and "sorted_wrt (<) (seqs ts)"
  shows "mem_inv (snd (replace_from_durable now i summary ts kbs version through m0))"
  using get_state_weak [OF assms(1), of now i False] assms
  by (cases "mem_get_state now i False m0")
    (auto simp: replace_from_durable_def Let_def state_ok_def length_clamp intro!: evict_inv touch_weak dest: mem_inv_weak)

lemma apply_summary_inv:
  assumes "mem_inv m0" and "job_ok j"
  shows "mem_inv (snd (apply_summary now j summary m0))"
proof -
  obtain st m where g: "mem_get_state now (sj_conv j) False m0 = (st, m)"
    by (cases "mem_get_state now (sj_conv j) False m0")
  note w = get_state_weak [OF assms(1) g]
  show ?thesis
  proof (cases st)
    case None
    with g w show ?thesis by (simp add: apply_summary_def)
  next
    case (Some s)
    with w have "od_get (mm_convs m) (sj_conv j) = Some s" "mem_inv m" by auto
    with g Some assms(2) show ?thesis
      by (auto simp: apply_summary_def state_ok_def job_ok_def length_clamp intro!: touch_present_inv)
  qed
qed

lemma mem_clear_inv:
  "mem_inv m \<Longrightarrow> mem_inv (snd (mem_clear i m))"
  "mem_inv m \<Longrightarrow> mem_inv (mem_clear_all m)"
  "mem_inv m \<Longrightarrow> mem_inv (snd (mem_clear_by_prefix p m))"
  "mem_inv m \<Longrightarrow> mem_inv (snd (mem_clear_by_knowledge_base ws kb m))"
  by (auto simp: mem_clear_def mem_clear_by_prefix_def mem_clear_by_knowledge_base_def Let_def mem_inv_pop mem_inv_pop_all)
    (simp add: mem_clear_all_def mem_inv_def)

lemma clear_if_version_inv: "mem_inv m \<Longrightarrow> mem_inv (snd (clear_if_version now i v m))"
  using mem_read_inv(1) [of m now i] by (cases "mem_get_state now i False m")
    (auto simp: clear_if_version_def mem_inv_pop split: option.splits)

lemma mem_lookup_inv:
  "mem_inv m \<Longrightarrow> mem_inv (snd (durable_state_is_current now i sq m))"
  "mem_inv m \<Longrightarrow> mem_inv (snd (mem_knowledge_base_ids now i m))"
  using mem_read_inv(1) [of m now i] by (cases "mem_get_state now i False m";
    auto simp: durable_state_is_current_def mem_knowledge_base_ids_def)+

section \<open>Runs\<close>

text \<open>
  The summary jobs that \<open>append_turn\<close> hands out live outside the store until a worker applies
  one: the state of the machine is the store and the jobs issued so far.
\<close>

datatype mem_event =
    MAppend time string string string "string list" "int option"
  | MAppendOnce time string string string "string list" "int option"
  | MHydrate time string string "mem_turn list" "string list" "int option" int
  | MReplace time string string "mem_turn list" "string list" "int option" int
  | MApply time nat string
  | MRender time string "nat option"
  | MSnapshot time string
  | MCurrent time string int
  | MKbIds time string
  | MClear string
  | MClearVersion time string "int option"
  | MClearPrefix string
  | MClearKb string string
  | MClearAll

definition issue :: "summary_job option \<times> mem_store \<Rightarrow> summary_job list \<Rightarrow> mem_store \<times> summary_job list" where
  "issue r js = (snd r, js @ (case fst r of None \<Rightarrow> [] | Some j \<Rightarrow> [j]))"

fun mem_step :: "mem_store \<times> summary_job list \<Rightarrow> mem_event \<Rightarrow> mem_store \<times> summary_job list" where
  "mem_step (m, js) (MAppend now i u a kbs sq) = issue (mem_append_turn now i u a kbs sq m) js"
| "mem_step (m, js) (MAppendOnce now i u a kbs sq) = issue (append_turn_once now i u a kbs sq m) js"
| "mem_step (m, js) (MHydrate now i summary ts kbs v through) = (snd (hydrate_if_absent now i summary ts kbs v through m), js)"
| "mem_step (m, js) (MReplace now i summary ts kbs v through) = (snd (replace_from_durable now i summary ts kbs v through m), js)"
| "mem_step (m, js) (MApply now n summary) =
     (if n < length js then snd (apply_summary now (js ! n) summary m) else m, js)"
| "mem_step (m, js) (MRender now i mx) = (snd (render_for_prompt now i mx m), js)"
| "mem_step (m, js) (MSnapshot now i) = (snd (mem_take_snapshot now i m), js)"
| "mem_step (m, js) (MCurrent now i sq) = (snd (durable_state_is_current now i sq m), js)"
| "mem_step (m, js) (MKbIds now i) = (snd (mem_knowledge_base_ids now i m), js)"
| "mem_step (m, js) (MClear i) = (snd (mem_clear i m), js)"
| "mem_step (m, js) (MClearVersion now i v) = (snd (clear_if_version now i v m), js)"
| "mem_step (m, js) (MClearPrefix p) = (snd (mem_clear_by_prefix p m), js)"
| "mem_step (m, js) (MClearKb ws kb) = (snd (mem_clear_by_knowledge_base ws kb m), js)"
| "mem_step (m, js) MClearAll = (mem_clear_all m, js)"

text \<open>The durable history hands its turns over in the order of their sequences.\<close>

fun mem_event_ok :: "mem_store \<times> summary_job list \<Rightarrow> mem_event \<Rightarrow> bool" where
  "mem_event_ok x (MHydrate now i summary ts kbs v through) = sorted_wrt (<) (seqs ts)"
| "mem_event_ok x (MReplace now i summary ts kbs v through) = sorted_wrt (<) (seqs ts)"
| "mem_event_ok x ev = True"

definition mem_sys_inv :: "mem_store \<times> summary_job list \<Rightarrow> bool" where
  "mem_sys_inv x \<longleftrightarrow> mem_inv (fst x) \<and> list_all job_ok (snd x)"

lemma issue_inv:
  assumes "mem_sys_inv (m, js)"
    and "\<And>job m1. r = (job, m1) \<Longrightarrow> mem_inv m1 \<and> (\<forall>j. job = Some j \<longrightarrow> job_ok j)"
  shows "mem_sys_inv (issue r js)"
  using assms by (cases r) (auto simp: issue_def mem_sys_inv_def split: option.splits)

lemma mem_step_inv:
  assumes "mem_sys_inv x" and "mem_event_ok x ev"
  shows "mem_sys_inv (mem_step x ev)"
proof -
  obtain m js where x: "x = (m, js)" by (cases x)
  have m: "mem_inv m" and js: "list_all job_ok js"
    using assms(1) x by (auto simp: mem_sys_inv_def)
  note kept = render_inv [OF m] snapshot_inv [OF m] hydrate_inv [OF m] replace_inv [OF m] mem_clear_inv
    clear_if_version_inv [OF m] mem_lookup_inv [OF m]
  show ?thesis
  proof (cases ev)
    case (MAppend now i u a kbs sq)
    with x assms(1) m show ?thesis by (auto intro!: issue_inv dest: append_turn_inv)
  next
    case (MAppendOnce now i u a kbs sq)
    with x assms(1) m show ?thesis by (auto intro!: issue_inv dest: append_once_inv)
  next
    case (MApply now n summary)
    have "job_ok (js ! n)" if "n < length js" using js that by (simp add: list_all_length)
    with MApply x m js show ?thesis by (auto simp: mem_sys_inv_def intro: apply_summary_inv)
  qed (use x m js assms(2) kept in \<open>auto simp: mem_sys_inv_def\<close>)
qed

interpretation memory: safe_machine mem_step mem_sys_inv mem_event_ok
  by unfold_locales (rule mem_step_inv)

text \<open>The settings of a store never change.\<close>

lemma get_state_settings:
  "mem_get_state now i c m0 = (st, m) \<Longrightarrow> mm_summary_max m = mm_summary_max m0 \<and> mm_max_items m = mm_max_items m0
    \<and> mm_ttl m = mm_ttl m0"
  by (auto simp: mem_get_state_def Let_def split: option.splits if_splits)

lemma evict_settings [simp]:
  "mm_summary_max (evict_if_needed m) = mm_summary_max m" "mm_max_items (evict_if_needed m) = mm_max_items m"
  "mm_ttl (evict_if_needed m) = mm_ttl m"
  by (simp_all add: evict_if_needed_def)

lemma append_settings:
  "mm_summary_max (snd (mem_append_turn now i u a kbs sq m0)) = mm_summary_max m0
    \<and> mm_max_items (snd (mem_append_turn now i u a kbs sq m0)) = mm_max_items m0"
  using get_state_settings [of now i True m0]
  by (cases "mem_get_state now i True m0") (auto simp: mem_append_turn_def Let_def split: option.splits prod.splits)

lemma step_settings:
  "mm_summary_max (fst (mem_step x ev)) = mm_summary_max (fst x) \<and> mm_max_items (fst (mem_step x ev)) = mm_max_items (fst x)"
proof -
  obtain m js where x: "x = (m, js)" by (cases x)
  show ?thesis
  proof (cases ev)
    case (MAppend now i u a kbs sq)
    with x append_settings show ?thesis by (simp add: issue_def)
  next
    case (MAppendOnce now i u a kbs sq)
    with x show ?thesis
      using get_state_settings [of now i False m] append_settings
      by (cases "mem_get_state now i False m") (auto simp: issue_def append_turn_once_def split: option.splits)
  next
    case (MHydrate now i summary ts kbs v through)
    with x show ?thesis using get_state_settings [of now i False m]
      by (cases "mem_get_state now i False m") (auto simp: hydrate_if_absent_def Let_def split: option.splits)
  next
    case (MReplace now i summary ts kbs v through)
    with x show ?thesis using get_state_settings [of now i False m]
      by (cases "mem_get_state now i False m") (auto simp: replace_from_durable_def Let_def)
  next
    case (MApply now n summary)
    with x show ?thesis using get_state_settings [of now "sj_conv (js ! n)" False m]
      by (cases "mem_get_state now (sj_conv (js ! n)) False m") (auto simp: apply_summary_def Let_def split: option.splits)
  next
    case (MRender now i mx)
    with x show ?thesis using get_state_settings [of now i False m]
      by (cases "mem_get_state now i False m") (auto simp: render_for_prompt_def split: option.splits)
  next
    case (MSnapshot now i)
    with x show ?thesis using get_state_settings [of now i False m]
      by (cases "mem_get_state now i False m") (auto simp: mem_take_snapshot_def Let_def split: option.splits)
  next
    case (MCurrent now i sq)
    with x show ?thesis using get_state_settings [of now i False m]
      by (cases "mem_get_state now i False m") (auto simp: durable_state_is_current_def)
  next
    case (MKbIds now i)
    with x show ?thesis using get_state_settings [of now i False m]
      by (cases "mem_get_state now i False m") (auto simp: mem_knowledge_base_ids_def)
  next
    case (MClearVersion now i v)
    with x show ?thesis using get_state_settings [of now i False m]
      by (cases "mem_get_state now i False m") (auto simp: clear_if_version_def split: option.splits)
  qed (use x in \<open>auto simp: mem_clear_def mem_clear_by_prefix_def mem_clear_by_knowledge_base_def mem_clear_all_def Let_def\<close>)
qed

lemma run_settings:
  "mm_summary_max (fst (run_machine mem_step x evs)) = mm_summary_max (fst x)
    \<and> mm_max_items (fst (run_machine mem_step x evs)) = mm_max_items (fst x)"
  by (induction evs arbitrary: x) (simp_all add: step_settings)

end
