(* ===== verification/Memory_Guarantees.thy ===== *)
theory Memory_Guarantees
  imports Memory_Claims
begin

text \<open>
  The properties of the conversation memory: what a run of the store keeps, that a replayed
  turn is not added twice, and when a summary may replace turns.
\<close>

section \<open>The entry of the conversation after an operation\<close>

lemma od_touched: "od_wf d \<Longrightarrow> \<exists>e. od_move_to_end i (od_set i s d) = e @ [(i, s)] \<and> od_wf (e @ [(i, s)])"
  using od_wf_move_to_end [OF od_wf_set [of d i s], of i] by (auto simp: od_move_to_end_def)

lemma od_get_snoc: "od_wf (e @ [(i, s)]) \<Longrightarrow> od_get (e @ [(i, s)]) i = Some s"
  by (induction e) auto

lemma evict_touch_get:
  assumes "mem_weak m" and "1 \<le> mm_max_items m"
  shows "od_get (mm_convs (evict_if_needed (mem_touch i s m))) i = Some s"
proof -
  obtain e where e: "mm_convs (mem_touch i s m) = e @ [(i, s)]" "od_wf (e @ [(i, s)])"
    using od_touched [of "mm_convs m" i s] assms(1) by (auto simp: mem_touch_def mem_weak_def)
  define k where "k = length (e @ [(i, s)]) - mm_max_items m"
  have "k \<le> length e" using assms(2) by (simp add: k_def)
  then have "drop k (e @ [(i, s)]) = drop k e @ [(i, s)]" by simp
  moreover have "od_wf (drop k (e @ [(i, s)]))"
    using e(2) by (simp only: drop_map [symmetric] distinct_drop)
  ultimately show ?thesis
    using od_get_snoc [of "drop k e" i s] e(1) by (simp add: evict_if_needed_def k_def)
qed

lemma get_state_live:
  assumes "od_get (mm_convs m) i = Some s" and "now - ms_updated s \<le> mm_ttl m" and "od_wf (mm_convs m)"
  shows "mem_get_state now i c m = (Some s, mem_purge now m)" "od_get (mm_convs (mem_purge now m)) i = Some s"
proof -
  have "i \<notin> set (map fst (filter (\<lambda>(i, s). mm_ttl m < now - ms_updated s) (mm_convs m)))"
  proof
    assume "i \<in> set (map fst (filter (\<lambda>(i, s). mm_ttl m < now - ms_updated s) (mm_convs m)))"
    then obtain s' where s': "(i, s') \<in> set (mm_convs m)" "mm_ttl m < now - ms_updated s'" by auto
    then have "od_get (mm_convs m) i = Some s'" using assms(3) by simp
    with assms(1,2) s'(2) show False by simp
  qed
  then show "od_get (mm_convs (mem_purge now m)) i = Some s"
    using assms(1) by (simp add: mem_purge_def)
  then show "mem_get_state now i c m = (Some s, mem_purge now m)"
    by (simp add: mem_get_state_def)
qed

lemma touch_get: "od_get (mm_convs (mem_touch i s m)) i = Some s"
  by (simp add: mem_touch_def)

text \<open>What a reader finds after \<open>append_turn\<close>.\<close>

lemma append_entry:
  assumes "mem_append_turn now i u a kbs sq m0 = (job, m1)" and "i \<noteq> []" and "mem_inv m0" and "1 \<le> mm_max_items m0"
  obtains m s0 added s1 where "mem_get_state now i True m0 = (Some s0, m)"
    "insert_turn s0 (new_turn u a sq) = (added, s1)"
    "od_get (mm_convs m1) i = Some (after_append now kbs added s1)"
    "state_ok (mm_summary_max m) (after_append now kbs added s1)" "mem_inv m1"
    "mm_ttl m1 = mm_ttl m0" "mm_max_items m1 = mm_max_items m0" "mm_summary_max m1 = mm_summary_max m0"
    "job = None \<or> (added \<and> (\<exists>k. 0 < k \<and> k = summary_split_index m (ms_turns s1)
       \<and> job = Some (issued_job i k (after_append now kbs added s1))))"
  using assms(1-3)
proof (rule append_turn_result)
  fix m s0 added s1
  assume g: "mem_get_state now i True m0 = (Some s0, m)" and ins: "insert_turn s0 (new_turn u a sq) = (added, s1)"
    and m1: "m1 = evict_if_needed (mem_touch i (after_append now kbs added s1) m)"
    and w: "mem_weak m" "state_ok (mm_summary_max m) (after_append now kbs added s1)"
    and j: "job = None \<or> (added \<and> (\<exists>k. 0 < k \<and> k = summary_split_index m (ms_turns s1)
       \<and> job = Some (issued_job i k (after_append now kbs added s1))))"
  have "od_get (mm_convs m1) i = Some (after_append now kbs added s1)"
    unfolding m1 using evict_touch_get [OF w(1)] get_state_settings [OF g] assms(4) by simp
  moreover have "mem_inv m1" unfolding m1 by (rule evict_inv, rule touch_weak [OF w])
  ultimately show thesis
    using that [OF g ins] w(2) j get_state_settings [OF g] m1 by simp
qed

section \<open>Replays\<close>

definition represented :: "int \<Rightarrow> mem_state \<Rightarrow> bool" where
  "represented sq s \<longleftrightarrow> sq \<le> ms_through s \<or> sq \<in> set (seqs (ms_turns s))"

lemma insert_turn_represents:
  assumes "insert_turn s t = (added, s')" and "mt_seq t = Some sq" and "sorted_wrt (<) (seqs (ms_turns s))"
  shows "represented sq s'" and "represented sq s \<Longrightarrow> \<not> added \<and> s' = s"
  using assms insert_by_sequence_present [OF assms(3), of sq t] insert_by_sequence_set [OF assms(2)]
  by (auto simp: insert_turn_def represented_def split: if_splits option.splits)

section \<open>Summaries\<close>

lemma through_of_bounds:
  "through_of h ts = Some n \<Longrightarrow> h \<le> n \<and> (\<forall>t \<in> set ts. \<exists>q. mt_seq t = Some q \<and> q \<le> n)"
proof (induction ts arbitrary: h)
  case (Cons t ts)
  then obtain q where q: "mt_seq t = Some q" "through_of (max h q) ts = Some n"
    by (auto split: option.splits)
  from Cons.IH [OF q(2)] q(1) show ?case by auto
qed simp

lemma through_of_sequenced: "\<forall>t \<in> set ts. mt_seq t \<noteq> None \<Longrightarrow> \<exists>n. through_of h ts = Some n"
  by (induction ts arbitrary: h) auto

text \<open>The sequences a state stands for are still covered once some of its turns are summarised.\<close>

lemma summary_keeps_coverage:
  assumes cov: "state_covers_sequence (Some s) target"
    and above: "\<forall>t \<in> set (ms_turns s). \<exists>q. mt_seq t = Some q \<and> ms_through s < q"
    and split: "ms_turns s = ts @ us" "ts \<noteq> []"
    and s': "ms_turns s' = us" "through_of 0 ts = Some n" "ms_through s' = n"
  shows "state_covers_sequence (Some s') target"
proof -
  obtain t q where "t \<in> set ts" "mt_seq t = Some q" "ms_through s < q" "q \<le> n"
    using through_of_bounds [OF s'(2)] above split by (cases ts) fastforce+
  then have le: "ms_through s \<le> n" and n: "0 \<le> n"
    using through_of_bounds [OF s'(2)] by auto
  have "Some k \<in> set (map mt_seq us)" if "n < k" "Some k \<in> set (map mt_seq (ms_turns s))" for k
    using that through_of_bounds [OF s'(2)] split(1) by fastforce
  with cov le n show ?thesis
    by (fastforce simp: state_covers_sequence_def Let_def list_all_iff s' max_def split: if_splits)
qed

section \<open>The properties\<close>

text \<open>
  Whatever the calls to the store, provided the durable history hands over turns in
  order, it holds at most \<open>max_items\<close> conversations, each once; every summary fits its
  limit; and the turns of each conversation are in strictly increasing sequence order, so no
  durable turn appears twice. The summary jobs applied are those \<open>append_turn\<close> issued, at
  whatever later time.
\<close>

theorem memory_stays_bounded_and_ordered:
  assumes "memory.admissible (new_mem_store th pm rm sm keep ttl mx, []) evs"
    and "m = fst (run_machine mem_step (new_mem_store th pm rm sm keep ttl mx, []) evs)"
  shows "length (mm_convs m) \<le> mx \<and> distinct (map fst (mm_convs m))
    \<and> (\<forall>(i, s) \<in> set (mm_convs m). length (ms_summary s) \<le> sm \<and> sorted_wrt (<) (seqs (ms_turns s)))"
proof -
  have start: "mem_sys_inv (new_mem_store th pm rm sm keep ttl mx, [])"
    by (simp add: mem_sys_inv_def mem_inv_def new_mem_store_def)
  from memory.run_inv [OF start assms(1)] have "mem_inv m" by (simp add: assms(2) mem_sys_inv_def)
  moreover have "mm_summary_max m = sm \<and> mm_max_items m = mx"
    unfolding assms(2) using run_settings [of "(new_mem_store th pm rm sm keep ttl mx, [])" evs]
    by (simp add: new_mem_store_def)
  ultimately show ?thesis by (auto simp: mem_inv_def state_ok_def)
qed

theorem memory_stays_bounded_and_ordered_witness:
  "length (mm_convs (fst (run_machine mem_step (new_mem_store 10 8 8 8 1 60 1, [])
     [MAppend 1 ''a'' ''q'' ''r'' [] (Some 2), MAppend 2 ''b'' ''q'' ''r'' [''k''] None]))) \<le> 1"
proof -
  let ?evs = "[MAppend 1 ''a'' ''q'' ''r'' [] (Some 2), MAppend 2 ''b'' ''q'' ''r'' [''k''] None]"
  have "memory.admissible (new_mem_store 10 8 8 8 1 60 1, []) ?evs" by simp
  from memory_stays_bounded_and_ordered [OF this refl] show ?thesis by blast
qed

text \<open>
  Appending the turn of a durable sequence is idempotent. When the same sequence
  comes again within the lifetime of the entry (a retry of the request), no summary job is
  issued and neither the turns, nor the summary, nor the version change; the sequence is
  represented after the first call.
\<close>

theorem replayed_turn_is_suppressed:
  assumes "mem_inv m" and "i \<noteq> []" and "1 \<le> mm_max_items m" and "t1 - t0 \<le> mm_ttl m"
    and "mem_append_turn t0 i u a kbs (Some sq) m = (job, m1)"
    and "mem_append_turn t1 i u' a' kbs (Some sq) m1 = (job', m2)"
  shows "job' = None \<and> (\<exists>s1 s2. od_get (mm_convs m1) i = Some s1 \<and> od_get (mm_convs m2) i = Some s2
    \<and> represented sq s1 \<and> ms_turns s2 = ms_turns s1 \<and> ms_summary s2 = ms_summary s1
    \<and> ms_version s2 = ms_version s1)"
  using assms(5,2,1,3)
proof (rule append_entry)
  fix n s0 added s
  assume g: "mem_get_state t0 i True m = (Some s0, n)" and ins: "insert_turn s0 (new_turn u a (Some sq)) = (added, s)"
    and e: "od_get (mm_convs m1) i = Some (after_append t0 kbs added s)" and inv1: "mem_inv m1"
    and set: "mm_ttl m1 = mm_ttl m" "mm_max_items m1 = mm_max_items m"
    and ok: "state_ok (mm_summary_max n) (after_append t0 kbs added s)"
  let ?s1 = "after_append t0 kbs added s"
  have "state_ok (mm_summary_max n) s0" using get_state_weak [OF assms(1) g] by auto
  then have rep: "represented sq ?s1"
    using insert_turn_represents(1) [OF ins] by (simp add: new_turn_def state_ok_def represented_def)
  have live: "mem_get_state t1 i True m1 = (Some ?s1, mem_purge t1 m1)"
    using get_state_live(1) [OF e] assms(4) set inv1 by (simp add: mem_inv_def)
  from assms(6,2) inv1 show ?thesis
  proof (rule append_entry)
    show "1 \<le> mm_max_items m1" using assms(3) set by simp
    fix n' r added' s'
    assume g': "mem_get_state t1 i True m1 = (Some r, n')" and ins': "insert_turn r (new_turn u' a' (Some sq)) = (added', s')"
      and e': "od_get (mm_convs m2) i = Some (after_append t1 kbs added' s')"
      and j': "job' = None \<or> (added' \<and> (\<exists>k. 0 < k \<and> k = summary_split_index n' (ms_turns s')
       \<and> job' = Some (issued_job i k (after_append t1 kbs added' s'))))"
    have r: "r = ?s1" using live g' by simp
    have "\<not> added' \<and> s' = ?s1"
      using insert_turn_represents(2) [OF ins' [unfolded r]] rep ok by (simp add: new_turn_def state_ok_def)
    then show ?thesis
      using e e' j' rep by (auto simp: after_append_def)
  qed
qed

theorem replayed_turn_is_suppressed_witness:
  "let m = new_mem_store 10 8 8 8 1 60 2; m1 = snd (mem_append_turn 5 ''a'' ''q'' ''r'' [] (Some 2) m);
       r = mem_append_turn 7 ''a'' ''q'' ''r'' [] (Some 2) m1
   in fst r = None \<and> (\<exists>s1 s2. od_get (mm_convs m1) ''a'' = Some s1 \<and> od_get (mm_convs (snd r)) ''a'' = Some s2
        \<and> ms_turns s2 = ms_turns s1)"
proof -
  let ?m = "new_mem_store 10 8 8 8 1 60 2"
  let ?m1 = "snd (mem_append_turn 5 ''a'' ''q'' ''r'' [] (Some 2) ?m)"
  have inv: "mem_inv ?m" by (simp add: mem_inv_def new_mem_store_def)
  have "1 \<le> mm_max_items ?m" "7 - 5 \<le> mm_ttl ?m" by (simp_all add: new_mem_store_def)
  from replayed_turn_is_suppressed [OF inv _ this prod.collapse [symmetric] prod.collapse [symmetric], of "''a''" "''q''" "''r''" "[]" 2 "''q''" "''r''"]
  show ?thesis by (auto simp: Let_def)
qed

lemma apply_summary_hit:
  assumes "od_get (mm_convs m) (sj_conv j) = Some s" and "now - ms_updated s \<le> mm_ttl m" and "od_wf (mm_convs m)"
  shows "apply_summary now j summary m =
    (if ms_version s \<noteq> sj_version j then (False, mem_purge now m)
     else (True, mem_touch (sj_conv j)
       (s\<lparr>ms_summary := clamp_text (py_strip summary) (mm_summary_max m), ms_turns := sj_recent j,
          ms_through := (case through_sequence j of None \<Rightarrow> ms_through s | Some n \<Rightarrow> n),
          ms_updated := now, ms_version := ms_version s + 1\<rparr>) (mem_purge now m)))"
  using get_state_live [OF assms] by (simp add: apply_summary_def)

text \<open>
  A summary replaces exactly the turns it was made from. Applied to the state it was
  issued from, it keeps every other turn, advances the version by one, and the state still
  covers every durable sequence it covered before; applied after another turn was added, it
  is refused and that turn stays.
\<close>

theorem summary_replaces_only_its_turns:
  assumes "mem_inv m" and "i \<noteq> []" and "1 \<le> mm_max_items m"
    and "mem_append_turn t0 i u a kbs sq m = (Some j, m1)" and "t1 - t0 \<le> mm_ttl m" and "t2 - t1 \<le> mm_ttl m"
  shows "\<exists>s. od_get (mm_convs m1) i = Some s \<and> ms_turns s = sj_turns j @ sj_recent j \<and> sj_turns j \<noteq> []
    \<and> (\<exists>s'. fst (apply_summary t1 j summary m1) \<and> od_get (mm_convs (snd (apply_summary t1 j summary m1))) i = Some s'
        \<and> ms_turns s' = sj_recent j \<and> ms_version s' = ms_version s + 1
        \<and> ((\<forall>t \<in> set (ms_turns s). \<exists>q. mt_seq t = Some q \<and> ms_through s < q)
            \<longrightarrow> state_covers_sequence (Some s) target \<longrightarrow> state_covers_sequence (Some s') target))
    \<and> (fst (insert_turn s (new_turn u' a' sq')) \<longrightarrow>
        (let m2 = snd (mem_append_turn t1 i u' a' kbs' sq' m1)
         in \<not> fst (apply_summary t2 j summary m2)
          \<and> od_get (mm_convs (snd (apply_summary t2 j summary m2))) i = od_get (mm_convs m2) i))"
  using assms(4,2,1,3)
proof (rule append_entry)
  fix n s0 added s1
  let ?s = "after_append t0 kbs added s1"
  assume e: "od_get (mm_convs m1) i = Some ?s" and inv1: "mem_inv m1"
    and set: "mm_ttl m1 = mm_ttl m" "mm_max_items m1 = mm_max_items m"
    and jj: "Some j = None \<or> (added \<and> (\<exists>k. 0 < k \<and> k = summary_split_index n (ms_turns s1) \<and> Some j = Some (issued_job i k ?s)))"
  obtain k where k: "0 < k" "k = summary_split_index n (ms_turns s1)" and j: "j = issued_job i k ?s" using jj by auto
  have kl: "k \<le> length (ms_turns s1)" "ms_turns s1 \<noteq> []" using k by (auto simp: summary_split_index_def split: if_splits)
  have wf1: "od_wf (mm_convs m1)" using inv1 by (simp add: mem_inv_def)
  have parts: "ms_turns ?s = sj_turns j @ sj_recent j" "sj_turns j \<noteq> []" "sj_conv j = i" "sj_version j = ms_version ?s"
    using k kl by (auto simp: j issued_job_def)
  have hit: "apply_summary t1 j summary m1 = (True, mem_touch i
       (?s\<lparr>ms_summary := clamp_text (py_strip summary) (mm_summary_max m1), ms_turns := sj_recent j,
          ms_through := (case through_sequence j of None \<Rightarrow> ms_through ?s | Some n \<Rightarrow> n),
          ms_updated := t1, ms_version := ms_version ?s + 1\<rparr>) (mem_purge t1 m1))"
    using apply_summary_hit [of m1 j ?s t1 summary] e parts(3,4) assms(5) set wf1 by simp
  have cov: "state_covers_sequence (Some s') target"
    if "\<forall>t \<in> set (ms_turns ?s). \<exists>q. mt_seq t = Some q \<and> ms_through ?s < q" "state_covers_sequence (Some ?s) target"
      "ms_turns s' = sj_recent j" "ms_through s' = (case through_sequence j of None \<Rightarrow> ms_through ?s | Some n \<Rightarrow> n)" for s'
  proof -
    have "\<forall>t \<in> set (sj_turns j). mt_seq t \<noteq> None" using that(1) parts(1) by auto
    then obtain n where "through_of 0 (sj_turns j) = Some n" using through_of_sequenced by blast
    with summary_keeps_coverage [OF that(2,1) parts(1,2) that(3)] that(4) parts(2) show ?thesis
      by (simp add: through_sequence_def)
  qed
  have stale: "\<not> fst (apply_summary t2 j summary m2) \<and> od_get (mm_convs (snd (apply_summary t2 j summary m2))) i = od_get (mm_convs m2) i"
    if added': "fst (insert_turn ?s (new_turn u' a' sq'))" and m2: "mem_append_turn t1 i u' a' kbs' sq' m1 = (r, m2)" for r m2
    using m2 assms(2) inv1
  proof (rule append_entry)
    show "1 \<le> mm_max_items m1" using assms(3) set by simp
    fix n' q ad s'
    assume g': "mem_get_state t1 i True m1 = (Some q, n')" and ins': "insert_turn q (new_turn u' a' sq') = (ad, s')"
      and e': "od_get (mm_convs m2) i = Some (after_append t1 kbs' ad s')" and inv2: "mem_inv m2"
      and set': "mm_ttl m2 = mm_ttl m1" and ok': "state_ok (mm_summary_max n') (after_append t1 kbs' ad s')"
    have q: "q = ?s" using get_state_live(1) [OF e _ wf1, of t1 True] g' assms(5) set by simp
    have "state_ok (mm_summary_max n') q" using get_state_weak [OF inv1 g'] by auto
    from insert_turn_ok [OF ins' this] have "ms_version s' = ms_version q" by simp
    then have v: "ms_version (after_append t1 kbs' ad s') \<noteq> sj_version j"
      using added' ins' q parts(4) by (simp add: after_append_def)
    have wf2: "od_wf (mm_convs m2)" using inv2 by (simp add: mem_inv_def)
    have t: "t2 - ms_updated (after_append t1 kbs' ad s') \<le> mm_ttl m2" using assms(6) set set' by simp
    show ?thesis
      using apply_summary_hit [of m2 j _ t2 summary, unfolded parts(3), OF e' t wf2] v e' get_state_live(2) [OF e' t wf2]
      by simp
  qed
  show ?thesis
    using e parts(1,2) hit cov stale [OF _ prod.collapse [symmetric]] touch_get
    by (intro exI [of _ ?s]) (auto simp: Let_def)
qed

definition sample_store :: mem_store where
  "sample_store = snd (mem_append_turn 1 ''a'' ''q'' ''r'' [] (Some 2) (new_mem_store 3 50 50 20 1 60 2))"

lemma sample_store_inv: "mem_inv sample_store \<and> 1 \<le> mm_max_items sample_store \<and> mm_ttl sample_store = 60"
proof -
  have "mem_inv (new_mem_store 3 50 50 20 1 60 2)" by (simp add: mem_inv_def new_mem_store_def)
  with append_turn_inv [OF prod.collapse [symmetric]] have "mem_inv sample_store"
    unfolding sample_store_def by blast
  moreover have "mm_max_items sample_store = 2"
    using append_settings [of 1 "''a''" "''q''" "''r''" "[]" "Some 2"] by (simp add: sample_store_def new_mem_store_def)
  moreover have "mm_ttl sample_store = 60" by code_simp
  ultimately show ?thesis by simp
qed

theorem summary_replaces_only_its_turns_witness:
  "\<exists>j m1. mem_append_turn 2 ''a'' ''q2'' ''r2'' [] (Some 4) sample_store = (Some j, m1)
    \<and> fst (apply_summary 3 j ''short'' m1)
    \<and> \<not> fst (apply_summary 4 j ''short'' (snd (mem_append_turn 3 ''a'' ''q3'' ''r3'' [] None m1)))"
proof -
  let ?r = "mem_append_turn 2 ''a'' ''q2'' ''r2'' [] (Some 4) sample_store"
  have "(case fst ?r of None \<Rightarrow> False | Some j \<Rightarrow> True)" by code_simp
  then obtain j where j: "fst ?r = Some j" by (auto split: option.splits)
  then have r: "?r = (Some j, snd ?r)" by (metis prod.collapse)
  have bounds: "3 - 2 \<le> mm_ttl sample_store" "4 - 3 \<le> mm_ttl sample_store"
    using sample_store_inv by simp_all
  have new: "fst (insert_turn s (new_turn ''q3'' ''r3'' None))" for s
    by (simp add: insert_turn_def new_turn_def)
  from summary_replaces_only_its_turns [OF _ _ _ r bounds, where summary = "''short''" and u' = "''q3''" and a' = "''r3''" and sq' = None and kbs' = "[]"]
    sample_store_inv r new
  show ?thesis by (auto simp: Let_def)
qed

end
