(* ===== verification/Conversation_Service.thy ===== *)
theory Conversation_Service
  imports History_Deletion Pending_Turns Memory_Guarantees
begin

text \<open>
  \<open>app/utils/conversation_service.py\<close>: the layer that composes the durable history
  (\<open>History_Turns\<close>, \<open>History_Admin\<close>), the staged results (\<open>Pending_Turns\<close>) and the warm
  memory (\<open>Conversation_Memory\<close>) into the life of a turn.

  The state of a service holds the three stores of a workspace. A call draws its clock readings from a
  function of the number of the store call inside it. Where the code prepares for another worker
  that acts between two store calls, the hydration of the memory, that worker is an argument:
  \<open>env k\<close> is what happens to the stores at the \<open>k\<close>-th point of an attempt. The pages of one
  hydration are read from one state of the database. A missing text and the empty text are both
  the empty text. The in-process stores raise nothing in the calls made here, so the branches
  that catch their exceptions are absent.
\<close>

record service =
  sv_enabled :: bool
  sv_cfg :: hist_config
  sv_hist :: hdb
  sv_pending :: pending_store
  sv_memory :: mem_store

section \<open>Retention\<close>

definition no_cleanup :: cleanup_result where
  "no_cleanup = \<lparr>cr_conversations_deleted = 0, cr_turns_deleted = 0, cr_leases_failed = 0,
     cr_scope_keys = [], cr_turns = []\<rparr>"

definition forget_scope :: "time \<Rightarrow> string \<Rightarrow> service \<Rightarrow> service" where
  "forget_scope now key s = s\<lparr>sv_memory := snd (mem_clear key (sv_memory s)),
     sv_pending := snd (clear_scope now key (sv_pending s))\<rparr>"

definition forget_turn :: "string \<times> string \<Rightarrow> service \<Rightarrow> service" where
  "forget_turn kt s = s\<lparr>sv_pending := snd (pending_delete (fst kt) (snd kt) (sv_pending s))\<rparr>"

definition sv_cleanup_expired :: "(nat \<Rightarrow> time) \<Rightarrow> service \<Rightarrow> cleanup_result \<times> service" where
  "sv_cleanup_expired ck s =
     (if \<not> sv_enabled s then (no_cleanup, s)
      else case cleanup_expired (sv_cfg s) (ck 0) (sv_hist s) of
             (Inl e, db) \<Rightarrow> (no_cleanup, s\<lparr>sv_hist := db\<rparr>)
           | (Inr r, db) \<Rightarrow>
               (r, fold forget_turn (cr_turns r) (fold (forget_scope (ck 1)) (cr_scope_keys r) (s\<lparr>sv_hist := db\<rparr>))))"

section \<open>Beginning a turn\<close>

datatype begin_turn_outcome =
    BtDisabled
  | BtNew string time "conv_row option"
  | BtReady "string option" "time option" json string conv_row
  | BtComplete "msg_row list" conv_row
  | BtGenerating
  | BtConflict
  | BtContinuityError "string option"
  | BtArchived
  | BtError string
  | BtVolatileResultLost conv_row

text \<open>The outcome for an exception of the store that the service translates; the others propagate.\<close>

definition begin_failure :: "hist_error \<Rightarrow> hist_error + begin_turn_outcome" where
  "begin_failure e = (case e of
       TurnConflict \<Rightarrow> Inr BtConflict
     | TurnInProgress \<Rightarrow> Inr BtGenerating
     | ContinuityBroken p \<Rightarrow> Inr (BtContinuityError p)
     | ConversationArchived \<Rightarrow> Inr BtArchived
     | QuotaExceeded m \<Rightarrow> Inr (BtError m)
     | _ \<Rightarrow> Inl e)"

text \<open>The explicit recovery of a turn whose staged result is gone.\<close>

definition recover_lost ::
  "draws \<Rightarrow> begin_request \<Rightarrow> string option \<Rightarrow> conv_row \<Rightarrow> service \<Rightarrow> (hist_error + begin_turn_outcome) \<times> service" where
  "recover_lost dr req lease c s =
     (let (r, db) = recover_ready_turn (sv_cfg s) dr (b_scope_key req) (b_turn_id req) (b_fingerprint req) lease (sv_hist s)
      in (case r of
            Inl TurnInProgress \<Rightarrow> Inr BtGenerating
          | Inl e \<Rightarrow> Inl e
          | Inr (RComplete ms) \<Rightarrow> Inr (BtComplete ms c)
          | Inr (RNew token expires conv) \<Rightarrow> Inr (BtNew token expires (case conv of None \<Rightarrow> Some c | Some d \<Rightarrow> Some d)),
          s\<lparr>sv_hist := db\<rparr>))"

text \<open>A turn the store holds as ready: its staged result, when it is the one the durable row names.\<close>

definition replay_ready ::
  "(nat \<Rightarrow> time) \<Rightarrow> draws \<Rightarrow> begin_request \<Rightarrow> bool \<Rightarrow> string option \<Rightarrow> string option \<Rightarrow> time option \<Rightarrow> conv_row
    \<Rightarrow> service \<Rightarrow> (hist_error + begin_turn_outcome) \<times> service" where
  "replay_ready ck dr req recover digest lease expires c s =
     (let (staged, ps) = pending_get (ck 2) (b_scope_key req) (b_turn_id req) lease (sv_pending s); s1 = s\<lparr>sv_pending := ps\<rparr>;
          lost = (\<lambda>s. if recover then recover_lost dr req lease c s else (Inr (BtVolatileResultLost c), s))
      in case staged of
           None \<Rightarrow> lost s1
         | Some p \<Rightarrow>
             if Some (pr_lease p) = lease \<and> Some (pr_digest p) = digest
             then (Inr (BtReady lease expires (pr_result p) (pr_digest p) c), s1)
             else lost (s1\<lparr>sv_pending := snd (delete_if_lease (ck 3) (b_scope_key req) (b_turn_id req) (pr_lease p) ps)\<rparr>))"

definition sv_begin_turn ::
  "(nat \<Rightarrow> time) \<Rightarrow> draws \<Rightarrow> draws \<Rightarrow> begin_request \<Rightarrow> bool \<Rightarrow> service \<Rightarrow> (hist_error + begin_turn_outcome) \<times> service" where
  "sv_begin_turn ck dr dr2 req recover s0 =
     (if \<not> sv_enabled s0 then (Inr BtDisabled, s0)
      else let s = snd (sv_cleanup_expired ck s0);
               (r, db) = begin_turn (sv_cfg s) req dr (sv_hist s); s1 = s\<lparr>sv_hist := db\<rparr>
      in case r of
           Inl e \<Rightarrow> (begin_failure e, s1)
         | Inr (BNew token expires, c) \<Rightarrow> (Inr (BtNew token expires (Some c)), s1)
         | Inr (BComplete ms, c) \<Rightarrow> (Inr (BtComplete ms c), s1)
         | Inr (BReady digest lease expires, c) \<Rightarrow> replay_ready ck dr2 req recover digest lease expires c s1)"

section \<open>Staging and releasing\<close>

definition sv_delete_if_lease :: "time \<Rightarrow> string \<Rightarrow> string \<Rightarrow> string \<Rightarrow> service \<Rightarrow> service" where
  "sv_delete_if_lease now key tid lease s = s\<lparr>sv_pending := snd (delete_if_lease now key tid lease (sv_pending s))\<rparr>"

definition sv_stage_result ::
  "(nat \<Rightarrow> time) \<Rightarrow> string \<Rightarrow> string \<Rightarrow> string \<Rightarrow> json option \<Rightarrow> string \<Rightarrow> service \<Rightarrow> bool \<times> service" where
  "sv_stage_result ck key tid lease result digest s =
     (if \<not> sv_enabled s \<or> key = [] \<or> tid = [] \<or> lease = [] then (False, s)
      else let (stored, ps) = pending_put (ck 0) key tid lease digest result None (sv_pending s); s1 = s\<lparr>sv_pending := ps\<rparr>
      in if \<not> stored then (False, s1)
         else let (marked, db) = mark_turn_ready (ck 1) key tid lease digest (sv_hist s1); s2 = s1\<lparr>sv_hist := db\<rparr>
         in if marked = Inr True then (True, s2) else (False, sv_delete_if_lease (ck 2) key tid lease s2))"

definition sv_fail_turn :: "(nat \<Rightarrow> time) \<Rightarrow> string \<Rightarrow> string \<Rightarrow> string \<Rightarrow> service \<Rightarrow> bool \<times> service" where
  "sv_fail_turn ck key tid lease s =
     (if \<not> sv_enabled s \<or> lease = [] then (False, s)
      else let s1 = sv_delete_if_lease (ck 0) key tid lease s;
               (r, db) = fail_turn (ck 1) key tid lease (sv_hist s1)
           in (r = Inr True, s1\<lparr>sv_hist := db\<rparr>))"

definition sv_renew_turn_lease :: "time \<Rightarrow> string \<Rightarrow> string \<Rightarrow> string \<Rightarrow> service \<Rightarrow> bool \<times> service" where
  "sv_renew_turn_lease now key tid lease s =
     (if \<not> sv_enabled s \<or> lease = [] then (False, s)
      else let (r, db) = renew_turn_lease (sv_cfg s) now key tid lease (sv_hist s) in (r = Inr True, s\<lparr>sv_hist := db\<rparr>))"


section \<open>The tail of the transcript\<close>

record tail_state =
  ta_pending :: "string option"
  ta_recent :: "mem_turn list"
  ta_summary :: string
  ta_through :: int

text \<open>One message: an assistant message closes the turn its user message opened; when more than
  \<open>keep\<close> turns are held, the oldest one is folded into the summary.\<close>

definition evict_oldest :: "string \<Rightarrow> int \<Rightarrow> tail_state \<Rightarrow> tail_state" where
  "evict_oldest key version st = (case ta_recent st of
       [] \<Rightarrow> st
     | evicted # rest \<Rightarrow> st\<lparr>ta_recent := rest,
         ta_summary := fallback_summary \<lparr>sj_conv = key, sj_previous = ta_summary st, sj_turns = [evicted],
            sj_recent = rest, sj_version = version\<rparr>,
         ta_through := (case mt_seq evicted of None \<Rightarrow> 0 | Some q \<Rightarrow> q)\<rparr>)"

definition absorb_message :: "nat \<Rightarrow> string \<Rightarrow> int \<Rightarrow> msg_row \<Rightarrow> tail_state \<Rightarrow> tail_state" where
  "absorb_message keep key version m st = (case m_role m of
       UserRole \<Rightarrow> st\<lparr>ta_pending := Some (m_content m)\<rparr>
     | AssistantRole \<Rightarrow> (case ta_pending st of
           None \<Rightarrow> st
         | Some user \<Rightarrow>
             let st' = st\<lparr>ta_pending := None,
                   ta_recent := ta_recent st @ [\<lparr>mt_user = user, mt_assistant = m_content m, mt_seq = Some (m_sequence m)\<rparr>]\<rparr>
             in if keep < length (ta_recent st') then evict_oldest key version st' else st'))"

definition hydration_limit_messages :: int where
  "hydration_limit_messages = 200"

text \<open>The loop over the pages. The cursor is checked to advance, so the messages after it get fewer.\<close>

function tail_loop :: "nat \<Rightarrow> string \<Rightarrow> int \<Rightarrow> hdb \<Rightarrow> string \<Rightarrow> int \<Rightarrow> tail_state \<Rightarrow> hist_error + tail_state" where
  "tail_loop keep key version db hid after st =
     (case list_messages_after_sequence db hid after hydration_limit_messages of
        Inl e \<Rightarrow> Inl e
      | Inr (page, next_after) \<Rightarrow>
          let st' = fold (absorb_message keep key version) page st
          in case next_after of
               None \<Rightarrow> Inr st'
             | Some n \<Rightarrow> if n \<le> after then Inl (Raised PyRuntimeError)
                 else tail_loop keep key version db hid n st')"
  by pat_completeness auto

lemma mapE_set: "mapE f xs = Inr ys \<Longrightarrow> (\<And>x y. f x = Inr y \<Longrightarrow> y = x) \<Longrightarrow> ys = xs"
  by (induction xs arbitrary: ys) (auto simp: bindE_eq_Inr)

lemma page_cursor_mem:
  assumes "list_messages_after_sequence db hid after bound = Inr (page, Some n)"
  shows "\<exists>m \<in> set (msgs db). m_sequence m = n"
proof -
  define hits where "hits = sort_key m_sequence (filter (\<lambda>m. max 0 after < m_sequence m) (conv_msgs db hid))"
  from assms have rows: "mapE message_row (take (nat (clamp 1 200 bound)) hits) = Inr page" and last: "page \<noteq> []" "n = m_sequence (last page)"
    by (auto simp: list_messages_after_sequence_def hits_def Let_def bindE_eq_Inr split: if_splits)
  from rows have "page = take (nat (clamp 1 200 bound)) hits"
    by (rule mapE_set) (simp add: message_row_def split: if_splits)
  then have "set page \<subseteq> set (msgs db)" by (auto simp: hits_def conv_msgs_def dest!: in_set_takeD)
  with last show ?thesis using last_in_set [of page] by blast
qed

termination tail_loop
proof (relation "measure (\<lambda>(keep, key, version, db, hid, after, st). length (filter (\<lambda>m. after < m_sequence m) (msgs db)))")
  fix keep key version db hid after st res page next_after st' n
  assume "list_messages_after_sequence db hid after hydration_limit_messages = Inr res" "(page, next_after) = res"
    "next_after = Some (n :: int)" "\<not> n \<le> after"
  then obtain m where m: "m \<in> set (msgs db)" "m_sequence m = n" and n: "after < n"
    using page_cursor_mem by fastforce
  have "filter (\<lambda>m. n < m_sequence m) (msgs db) = filter (\<lambda>m. n < m_sequence m) (filter (\<lambda>m. after < m_sequence m) (msgs db))"
    using n by (auto intro: filter_cong)
  moreover have "length (filter (\<lambda>m. n < m_sequence m) (filter (\<lambda>m. after < m_sequence m) (msgs db)))
      < length (filter (\<lambda>m. after < m_sequence m) (msgs db))"
    by (rule length_filter_less [of m]) (use m n in auto)
  ultimately show "((keep, key, version, db, hid, n, st'), keep, key, version, db, hid, after, st)
      \<in> measure (\<lambda>(keep, key, version, db, hid, after, st). length (filter (\<lambda>m. after < m_sequence m) (msgs db)))"
    by simp
qed simp

declare tail_loop.simps [simp del]

definition read_tail :: "nat \<Rightarrow> string \<Rightarrow> conv_row \<Rightarrow> hdb \<Rightarrow> hist_error + tail_state" where
  "read_tail keep key c db = tail_loop (max 1 keep) key (c_summary_version c) db (c_id c) (c_summary_through c)
     \<lparr>ta_pending = None, ta_recent = [], ta_summary = c_summary c, ta_through = c_summary_through c\<rparr>"

section \<open>Hydrating the memory\<close>

text \<open>The end of \<open>_compacted_hydration_tail\<close>: a summary that grew is stored by compare and swap.\<close>

definition persist_tail :: "time \<Rightarrow> string \<Rightarrow> conv_row \<Rightarrow> tail_state \<Rightarrow> service \<Rightarrow> bool \<times> service" where
  "persist_tail now key c t s =
     (if c_summary_through c < ta_through t
      then let (ok, db) = update_summary now key (ta_summary t) (c_summary_version c) (ta_through t) (sv_hist s)
           in (ok, s\<lparr>sv_hist := db\<rparr>)
      else (True, s))"

definition install_tail :: "time \<Rightarrow> bool \<Rightarrow> string \<Rightarrow> conv_row \<Rightarrow> ckb_row list \<Rightarrow> tail_state \<Rightarrow> service \<Rightarrow> bool \<times> service" where
  "install_tail now replace warm c kbs t s =
     (let version = c_summary_version c + (if c_summary_through c < ta_through t then 1 else 0);
          (ok, mem) = (if replace then replace_from_durable else hydrate_if_absent) now warm (ta_summary t) (ta_recent t)
             (filter (\<lambda>k. k \<noteq> []) (map k_kb kbs)) (Some version) (ta_through t) (sv_memory s)
      in (ok, s\<lparr>sv_memory := mem\<rparr>))"

text \<open>
  One attempt; the first component is \<open>None\<close> when another worker has advanced the durable summary
  since the conversation was read.
\<close>

definition hydrate_attempt ::
  "(nat \<Rightarrow> service \<Rightarrow> service) \<Rightarrow> (nat \<Rightarrow> time) \<Rightarrow> bool \<Rightarrow> string \<Rightarrow> string \<Rightarrow> service \<Rightarrow> bool option \<times> service" where
  "hydrate_attempt env ck replace key warm s =
     (if \<not> sv_enabled s \<or> warm = [] then (Some False, s)
      else case get_by_scope_key (sv_hist s) key of
             None \<Rightarrow> (Some False, s)
           | Some (c, kbs) \<Rightarrow>
               let s1 = env 0 s
               in case read_tail (mm_keep (sv_memory s1)) key c (sv_hist s1) of
                    Inl e \<Rightarrow> (Some False, s1)
                  | Inr t \<Rightarrow>
                      let (swapped, s2) = persist_tail (ck 0) key c t (env 1 s1)
                      in if \<not> swapped then (None, s2)
                         else let (ok, s3) = install_tail (ck 1) replace warm c kbs t (env 2 s2) in (Some ok, s3))"

fun hydrate_attempts ::
  "(nat \<Rightarrow> nat \<Rightarrow> service \<Rightarrow> service) \<Rightarrow> (nat \<Rightarrow> nat \<Rightarrow> time) \<Rightarrow> string \<Rightarrow> string \<Rightarrow> nat list \<Rightarrow> service \<Rightarrow> bool \<times> service" where
  "hydrate_attempts env ck key warm [] s = (False, s)"
| "hydrate_attempts env ck key warm (i # is) s = (case hydrate_attempt (env i) (ck i) False key warm s of
       (Some ok, s') \<Rightarrow> (ok, s')
     | (None, s') \<Rightarrow> hydrate_attempts env ck key warm is s')"

definition hydrate_for_prompt ::
  "(nat \<Rightarrow> nat \<Rightarrow> service \<Rightarrow> service) \<Rightarrow> (nat \<Rightarrow> nat \<Rightarrow> time) \<Rightarrow> string \<Rightarrow> string \<Rightarrow> service \<Rightarrow> bool \<times> service" where
  "hydrate_for_prompt env ck key warm = hydrate_attempts env ck key warm [0..<3]"

fun rehydrate_attempts ::
  "(nat \<Rightarrow> nat \<Rightarrow> service \<Rightarrow> service) \<Rightarrow> (nat \<Rightarrow> nat \<Rightarrow> time) \<Rightarrow> string \<Rightarrow> string \<Rightarrow> nat list \<Rightarrow> service \<Rightarrow> bool \<times> service" where
  "rehydrate_attempts env ck key warm [] s = (False, s)"
| "rehydrate_attempts env ck key warm (i # is) s = (case hydrate_attempt (env i) (ck i) True key warm s of
       (r, s') \<Rightarrow> if r = Some True then (True, s') else rehydrate_attempts env ck key warm is s')"

definition rehydrate_for_prompt ::
  "(nat \<Rightarrow> nat \<Rightarrow> service \<Rightarrow> service) \<Rightarrow> (nat \<Rightarrow> nat \<Rightarrow> time) \<Rightarrow> string \<Rightarrow> string \<Rightarrow> service \<Rightarrow> bool \<times> service" where
  "rehydrate_for_prompt env ck key warm = rehydrate_attempts env ck key warm [0..<3]"

text \<open>The catch-up before a prompt; its two memory look-ups read the clock \<open>now\<close>.\<close>

definition sync_for_prompt ::
  "(nat \<Rightarrow> nat \<Rightarrow> service \<Rightarrow> service) \<Rightarrow> time \<Rightarrow> (nat \<Rightarrow> nat \<Rightarrow> time) \<Rightarrow> string \<Rightarrow> string \<Rightarrow> service \<Rightarrow> bool \<times> service" where
  "sync_for_prompt env now ck key warm s =
     (if \<not> sv_enabled s \<or> warm = [] then (False, s)
      else case get_by_scope_key (sv_hist s) key of
             None \<Rightarrow> (False, s)
           | Some (c, kbs) \<Rightarrow>
               let (current, m1) = durable_state_is_current now warm (c_message_count c) (sv_memory s);
                   (warm_kbs, m2) = mem_knowledge_base_ids now warm m1; s' = s\<lparr>sv_memory := m2\<rparr>
               in if current \<and> set (filter (\<lambda>k. k \<noteq> []) (map k_kb kbs)) \<subseteq> warm_kbs then (False, s')
                  else rehydrate_for_prompt env ck key warm s')"

section \<open>Completing a turn\<close>

datatype complete_turn_outcome =
    CtDisabled
  | CtConflict
  | CtReplayed "msg_row list"
  | CtDone int int int int string "msg_row list" "summary_job option"

text \<open>The arguments left out are taken from the request of the turn.\<close>

definition text_or :: "string \<Rightarrow> string \<Rightarrow> string" where
  "text_or a b = (if a \<noteq> [] then a else b)"

definition merge_request :: "begin_request option \<Rightarrow> string list option \<Rightarrow> complete_request \<Rightarrow> complete_request" where
  "merge_request req selected q = (case req of
       None \<Rightarrow> q\<lparr>q_kbs := (case selected of None \<Rightarrow> [] | Some ks \<Rightarrow> ks)\<rparr>
     | Some r \<Rightarrow> q\<lparr>q_kbs := (case selected of None \<Rightarrow> b_kbs r | Some ks \<Rightarrow> ks),
         q_agent_id := text_or (q_agent_id q) (b_agent_id r), q_agent_name := text_or (q_agent_name q) (b_agent_name r),
         q_provider_id := text_or (q_provider_id q) (b_provider_id r), q_model_id := text_or (q_model_id q) (b_model_id r),
         q_prompt_ref := (if q_prompt_ref q \<noteq> JNull then q_prompt_ref q else b_prompt_ref r),
         q_language := text_or (q_language q) (b_language r)\<rparr>)"

definition sv_complete_turn ::
  "(nat \<Rightarrow> nat \<Rightarrow> service \<Rightarrow> service) \<Rightarrow> (nat \<Rightarrow> nat \<Rightarrow> time) \<Rightarrow> (nat \<Rightarrow> time) \<Rightarrow> begin_request option \<Rightarrow> string list option
    \<Rightarrow> complete_request \<Rightarrow> string \<Rightarrow> string list \<Rightarrow> service \<Rightarrow> (hist_error + complete_turn_outcome) \<times> service" where
  "sv_complete_turn env hk ck req selected q0 warm warm_kbs s =
     (if \<not> sv_enabled s then (Inr CtDisabled, s)
      else let q = merge_request req selected q0;
               (r, db) = complete_turn (sv_cfg s) (ck 0) q (sv_hist s); s1 = s\<lparr>sv_hist := db\<rparr>;
               s2 = sv_delete_if_lease (ck 1) (q_scope_key q) (q_turn_id q) (q_lease q) s1
      in case r of
           Inl TurnConflict \<Rightarrow> (Inr CtConflict, s2)
         | Inl e \<Rightarrow> (Inl e, s1)
         | Inr (CReplayed ms) \<Rightarrow>
             (Inr (CtReplayed ms), if warm = [] then s2 else snd (rehydrate_for_prompt env hk (q_scope_key q) warm s2))
         | Inr (CDone useq aseq count bytes title ms) \<Rightarrow>
             let (job, mem) = (if warm = [] then (None, sv_memory s2)
                   else mem_append_turn (ck 2) warm (q_user q) (q_assistant q)
                          (if warm_kbs \<noteq> [] then warm_kbs else q_kbs q) (Some aseq) (sv_memory s2))
             in (Inr (CtDone useq aseq count bytes title ms job), s2\<lparr>sv_memory := mem\<rparr>))"

section \<open>Reads, renaming, deletion\<close>

definition sv_update_summary :: "time \<Rightarrow> string \<Rightarrow> string \<Rightarrow> int \<Rightarrow> int \<Rightarrow> service \<Rightarrow> bool \<times> service" where
  "sv_update_summary now key summary version through s =
     (if \<not> sv_enabled s \<or> key = [] then (False, s)
      else let (ok, db) = update_summary now key summary version through (sv_hist s) in (ok, s\<lparr>sv_hist := db\<rparr>))"

text \<open>The pattern of a UUID; \<open>$\<close> also matches before a final line feed.\<close>

definition uuid_text :: "string \<Rightarrow> bool" where
  "uuid_text t \<longleftrightarrow> length t = 36 \<and> list_all (\<lambda>i. if i \<in> {8, 13, 18, 23} then t ! i = CHR ''-''
     else py_is_hex_lower (py_lower_char (t ! i))) [0..<36]"

definition uuid_re :: "string \<Rightarrow> bool" where
  "uuid_re t \<longleftrightarrow> uuid_text t \<or> (t \<noteq> [] \<and> last t = newline \<and> uuid_text (butlast t))"

definition sv_get_conversation :: "string \<Rightarrow> service \<Rightarrow> (conv_row \<times> ckb_row list) option" where
  "sv_get_conversation key s =
     (if \<not> sv_enabled s then None
      else case (if uuid_re key then get_history (sv_hist s) key else None) of
             Some (c, kbs, incomplete) \<Rightarrow> Some (c, kbs)
           | None \<Rightarrow> get_by_scope_key (sv_hist s) key)"

definition sv_list_messages ::
  "string \<Rightarrow> int option \<Rightarrow> int \<Rightarrow> service \<Rightarrow> hist_error + (msg_row list \<times> int option)" where
  "sv_list_messages hid before bound s =
     (if \<not> sv_enabled s then Inr ([], None) else list_messages (sv_hist s) hid before bound)"

definition sv_list_conversations ::
  "(nat \<Rightarrow> time) \<Rightarrow> int \<Rightarrow> int \<Rightarrow> string option \<Rightarrow> service \<Rightarrow> list_page option \<times> service" where
  "sv_list_conversations ck page per_page status s =
     (if \<not> sv_enabled s then (None, s)
      else let s' = snd (sv_cleanup_expired ck s) in (Some (list_conversations (sv_hist s') page per_page status), s'))"

definition sv_get_conversation_by_id :: "string \<Rightarrow> service \<Rightarrow> (conv_row \<times> ckb_row list \<times> bool) option" where
  "sv_get_conversation_by_id hid s = (if \<not> sv_enabled s then None else get_history (sv_hist s) hid)"

definition sv_update_conversation ::
  "time \<Rightarrow> string \<Rightarrow> string option \<Rightarrow> bool option \<Rightarrow> service \<Rightarrow> (hist_error + conv_row option) \<times> service" where
  "sv_update_conversation now hid title archived s =
     (if \<not> sv_enabled s then (Inr None, s)
      else if title = None \<and> archived = None then (Inr (find_conv (sv_hist s) hid), s)
      else let (r, db) = update_conversation now hid title archived (sv_hist s)
           in (case r of Inl ConversationNotFound \<Rightarrow> Inr None | Inl e \<Rightarrow> Inl e | Inr c \<Rightarrow> Inr (Some c), s\<lparr>sv_hist := db\<rparr>))"

text \<open>\<open>unlink refs\<close>: whether the files of \<open>refs\<close> could be removed; \<open>with_files\<close>: whether an upload folder is given.\<close>

definition sv_delete_conversation ::
  "(artifact_refs \<Rightarrow> bool) \<Rightarrow> bool \<Rightarrow> (nat \<Rightarrow> time) \<Rightarrow> string \<Rightarrow> service \<Rightarrow> (hist_error + bool) \<times> service" where
  "sv_delete_conversation unlink with_files ck hid s =
     (if \<not> sv_enabled s then (Inr False, s)
      else let conv = find_conv (sv_hist s) hid;
               s1 = (case conv of None \<Rightarrow> s
                     | Some c \<Rightarrow> if c_scope_key c = [] then s else forget_scope (ck 0) (c_scope_key c) s)
      in if with_files
         then (case delete_with_artifact_cleanup (sv_cfg s1) (ck 1) hid (sv_hist s1) of
                 (Inl e, db) \<Rightarrow> (Inl e, s1\<lparr>sv_hist := db\<rparr>)
               | (Inr (deleted, plan), db) \<Rightarrow>
                   if p_safe plan
                   then if unlink (p_exclusive plan)
                        then (Inr True, s1\<lparr>sv_hist := snd (complete_artifact_cleanup (conversation_cleanup_key hid) db)\<rparr>)
                        else (Inl (HistoryError ''conversation_artifact_cleanup_failed''), s1\<lparr>sv_hist := db\<rparr>)
                   else (Inr deleted, s1\<lparr>sv_hist := db\<rparr>))
         else if conv = None then (Inr False, s1)
         else let (ok, db) = delete_history hid (sv_hist s1) in (Inr ok, s1\<lparr>sv_hist := db\<rparr>))"

definition sv_reset_continuity :: "time \<Rightarrow> string \<Rightarrow> service \<Rightarrow> (hist_error + string option \<times> nat) \<times> service" where
  "sv_reset_continuity now hid s =
     (if \<not> sv_enabled s then (Inr (None, 0), s)
      else let (r, db) = reset_continuity now hid (sv_hist s) in (r, s\<lparr>sv_hist := db\<rparr>))"

section \<open>Helpers\<close>

text \<open>\<open>_messages_to_turns\<close>\<close>

fun messages_to_turns :: "msg_row list \<Rightarrow> mem_turn list" where
  "messages_to_turns (u # a # ms) =
     (if m_role u = UserRole \<and> m_role a = AssistantRole
      then \<lparr>mt_user = m_content u, mt_assistant = m_content a, mt_seq = Some (m_sequence a)\<rparr> # messages_to_turns ms
      else messages_to_turns (a # ms))"
| "messages_to_turns ms = []"

definition derive_scope_kind :: "string \<Rightarrow> string" where
  "derive_scope_kind key = (if py_contains key '':multi-chat:'' then ''multi''
     else if py_contains key '':kb:'' then ''kb'' else ''default'')"

text \<open>\<open>scope_key.split(":")[0]\<close>\<close>

definition extract_workspace_id_from_scope :: "string \<Rightarrow> string" where
  "extract_workspace_id_from_scope key = takeWhile (\<lambda>c. c \<noteq> CHR '':'') key"

end
