(* ===== verification/Service_Hydration.thy ===== *)
theory Service_Hydration
  imports Conversation_Service
begin

text \<open>
  Rebuilding the warm memory from the durable history: the streamed tail equals the pairing of
  the whole tail at once, whatever the page size, and a rebuilt memory stands for every
  committed message.
\<close>

section \<open>Pages forward\<close>

lemma numbered_above:
  assumes "numbered ms"
  shows "filter (\<lambda>m. b < m_sequence m) ms = drop (nat b) ms"
proof -
  have "filter (\<lambda>m. m_sequence m < b + 1) ms = take (nat b) ms" using numbered_below [OF assms, of "b + 1"] by simp
  moreover have "filter (\<lambda>m. b < m_sequence m) (take n ms) = drop (nat b) (take n ms)" if "n \<le> length ms" for n
    using that
  proof (induction n)
    case (Suc n)
    then have "take (Suc n) ms = take n ms @ [ms ! n]" by (simp add: take_Suc_conv_app_nth)
    moreover have "m_sequence (ms ! n) = int n + 1" using assms Suc.prems by (simp add: numbered_nth)
    ultimately show ?case using Suc by auto
  qed simp
  from this [of "length ms"] show ?thesis by simp
qed

lemma numbered_sorted_drop: "numbered ms \<Longrightarrow> sorted (map m_sequence (drop k ms))"
  unfolding sorted_iff_nth_mono by (auto simp: numbered_nth)

lemma page_after:
  assumes c: "find_conv db hid \<noteq> None" and num: "numbered (conv_msgs db hid)"
    and ok: "list_all readable (conv_msgs db hid)" and after: "0 \<le> after"
  shows "list_messages_after_sequence db hid after hydration_limit_messages
    = Inr (take 200 (drop (nat after) (conv_msgs db hid)),
           if nat after + 200 < length (conv_msgs db hid) then Some (after + 200) else None)"
proof -
  let ?ms = "conv_msgs db hid" and ?k = "nat after"
  have hits: "filter (\<lambda>m. max 0 after < m_sequence m) ?ms = drop ?k ?ms"
    using numbered_above [OF num, of "max 0 after"] after by simp
  have srt: "sort_key m_sequence (drop ?k ?ms) = drop ?k ?ms"
    by (rule sort_key_sorted [OF numbered_sorted_drop [OF num]])
  have size: "nat (clamp 1 200 hydration_limit_messages) = 200" by (simp add: clamp_def hydration_limit_messages_def)
  have rows: "(if 200 < length (take (200 + 1) (drop ?k ?ms)) then take 200 (take (200 + 1) (drop ?k ?ms))
      else take (200 + 1) (drop ?k ?ms)) = take 200 (drop ?k ?ms)"
    by auto
  have "mapE message_row (take 200 (drop ?k ?ms)) = Inr (take 200 (drop ?k ?ms))"
    by (rule message_rows_ok) (use ok in \<open>auto simp: list_all_iff dest!: in_set_takeD in_set_dropD\<close>)
  moreover have "take 200 (drop ?k ?ms) \<noteq> [] \<and> m_sequence (last (take 200 (drop ?k ?ms))) = after + 200"
    if "?k + 200 < length ?ms"
  proof -
    have "last (take 200 (drop ?k ?ms)) = ?ms ! (?k + 199)" using that by (simp add: last_conv_nth min_def add.commute)
    with that num after show ?thesis by (simp add: numbered_nth)
  qed
  moreover have "200 < length (take (200 + 1) (drop ?k ?ms)) \<longleftrightarrow> ?k + 200 < length ?ms" by auto
  ultimately show ?thesis
    using c unfolding list_messages_after_sequence_def Let_def hits srt size rows by auto
qed

text \<open>The loop over the pages reads the tail once, in order.\<close>

lemma tail_loop_folds:
  assumes c: "find_conv db hid \<noteq> None" and num: "numbered (conv_msgs db hid)"
    and ok: "list_all readable (conv_msgs db hid)"
  shows "0 \<le> after \<Longrightarrow> tail_loop keep key version db hid after st
    = Inr (fold (absorb_message keep key version) (drop (nat after) (conv_msgs db hid)) st)"
proof (induction "length (conv_msgs db hid) - nat after" arbitrary: after st rule: less_induct)
  case less
  let ?ms = "conv_msgs db hid" and ?f = "absorb_message keep key version"
  note page = page_after [OF c num ok less.prems]
  show ?case
  proof (cases "nat after + 200 < length ?ms")
    case False
    then have "take 200 (drop (nat after) ?ms) = drop (nat after) ?ms" by simp
    with False page show ?thesis by (simp add: tail_loop.simps Let_def)
  next
    case True
    have "tail_loop keep key version db hid (after + 200) (fold ?f (take 200 (drop (nat after) ?ms)) st)
        = Inr (fold ?f (drop (nat (after + 200)) ?ms) (fold ?f (take 200 (drop (nat after) ?ms)) st))"
      by (rule less.hyps) (use True less.prems in auto)
    also have "\<dots> = Inr (fold ?f (take 200 (drop (nat after) ?ms) @ drop (nat (after + 200)) ?ms) st)" by simp
    also have "take 200 (drop (nat after) ?ms) @ drop (nat (after + 200)) ?ms = drop (nat after) ?ms"
      using append_take_drop_id [of 200 "drop (nat after) ?ms"] less.prems by (simp add: nat_add_distrib add.commute)
    finally show ?thesis using True page by (simp add: tail_loop.simps [of _ _ _ _ _ after] Let_def)
  qed
qed

section \<open>Pairing and eviction\<close>

definition push_turn :: "nat \<Rightarrow> string \<Rightarrow> int \<Rightarrow> mem_turn \<Rightarrow> tail_state \<Rightarrow> tail_state" where
  "push_turn keep key version t st =
     (let st' = st\<lparr>ta_recent := ta_recent st @ [t]\<rparr>
      in if keep < length (ta_recent st') then evict_oldest key version st' else st')"

lemma evict_pending: "evict_oldest key version (st\<lparr>ta_pending := p\<rparr>) = (evict_oldest key version st)\<lparr>ta_pending := p\<rparr>"
  by (auto simp: evict_oldest_def split: list.split)

lemma push_pending: "push_turn keep key version t (st\<lparr>ta_pending := p\<rparr>) = (push_turn keep key version t st)\<lparr>ta_pending := p\<rparr>"
  by (cases st) (auto simp: push_turn_def Let_def evict_oldest_def split: list.split)

lemma absorb_assistant:
  "m_role m = AssistantRole \<Longrightarrow> absorb_message keep key version m (st\<lparr>ta_pending := Some u\<rparr>)
    = (push_turn keep key version \<lparr>mt_user = u, mt_assistant = m_content m, mt_seq = Some (m_sequence m)\<rparr> st)\<lparr>ta_pending := None\<rparr>"
  by (cases st) (auto simp: absorb_message_def push_turn_def Let_def evict_oldest_def split: list.split)

lemma absorb_stray: "m_role m = AssistantRole \<Longrightarrow> ta_pending st = None \<Longrightarrow> absorb_message keep key version m st = st"
  by (simp add: absorb_message_def)

lemma absorb_user: "m_role m = UserRole \<Longrightarrow> absorb_message keep key version m st = st\<lparr>ta_pending := Some (m_content m)\<rparr>"
  by (simp add: absorb_message_def)

text \<open>Streaming message by message forms the turns that \<open>_messages_to_turns\<close> forms.\<close>

lemma absorb_pairs:
  "\<exists>p. fold (absorb_message keep key version) ms (st\<lparr>ta_pending := None\<rparr>)
    = (fold (push_turn keep key version) (messages_to_turns ms) st)\<lparr>ta_pending := p\<rparr>"
proof (induction ms arbitrary: st rule: messages_to_turns.induct)
  case (1 u a ms)
  show ?case
  proof (cases "m_role u")
    case AssistantRole
    then show ?thesis using 1(2) [of st] by (simp add: absorb_stray)
  next
    case UserRole
    note u = this
    show ?thesis
    proof (cases "m_role a")
      case AssistantRole
      with u show ?thesis using 1(1) by (simp add: absorb_user absorb_assistant)
    next
      case UserRole
      with u have "fold (absorb_message keep key version) (u # a # ms) (st\<lparr>ta_pending := None\<rparr>)
          = fold (absorb_message keep key version) (a # ms) (st\<lparr>ta_pending := None\<rparr>)"
        by (simp add: absorb_user)
      with UserRole show ?thesis using 1(2) [of st] by simp
    qed
  qed
next
  case "2_1"
  show ?case by (rule exI [of _ None]) simp
next
  case "2_2"
  show ?case by (simp add: absorb_message_def split: msg_role.split) blast
qed

text \<open>The summary of a turn after an earlier summary.\<close>

definition compress :: "mem_turn \<Rightarrow> string \<Rightarrow> string" where
  "compress t previous = clamp_text (py_strip (py_join [newline, newline]
     (filter (\<lambda>p. p \<noteq> []) ((if previous \<noteq> [] then [previous] else []) @ [format_turns [t]])))) default_summary_max_chars"

definition seq_of :: "mem_turn \<Rightarrow> int" where
  "seq_of t = (case mt_seq t of None \<Rightarrow> 0 | Some q \<Rightarrow> q)"

definition evicted :: "nat \<Rightarrow> mem_turn list \<Rightarrow> mem_turn list" where
  "evicted keep ts = take (length ts - keep) ts"

definition kept :: "nat \<Rightarrow> mem_turn list \<Rightarrow> mem_turn list" where
  "kept keep ts = drop (length ts - keep) ts"

definition tail_of :: "nat \<Rightarrow> string \<Rightarrow> int \<Rightarrow> mem_turn list \<Rightarrow> tail_state" where
  "tail_of keep summary through ts = \<lparr>ta_pending = None, ta_recent = kept keep ts,
     ta_summary = fold compress (evicted keep ts) summary,
     ta_through = (if evicted keep ts = [] then through else seq_of (last (evicted keep ts)))\<rparr>"

lemma evict_oldest_Cons:
  "ta_recent st = t # ts \<Longrightarrow> evict_oldest key version st
    = st\<lparr>ta_recent := ts, ta_summary := compress t (ta_summary st), ta_through := seq_of t\<rparr>"
  by (simp add: evict_oldest_def compress_def fallback_summary_def seq_of_def)

lemma push_tail_of: "push_turn keep key version t (tail_of keep summary through ts) = tail_of keep summary through (ts @ [t])"
proof (cases "length ts < keep")
  case True
  then show ?thesis by (simp add: push_turn_def tail_of_def kept_def evicted_def)
next
  case False
  let ?n = "length ts - keep"
  from False have n: "Suc (length ts) - keep = Suc ?n" by simp
  have split: "drop ?n (ts @ [t]) = (ts @ [t]) ! ?n # drop (Suc ?n) (ts @ [t])"
    by (rule Cons_nth_drop_Suc [symmetric]) simp
  define x where "x = (ts @ [t]) ! ?n"
  define st where "st = (tail_of keep summary through ts)\<lparr>ta_recent := kept keep ts @ [t]\<rparr>"
  have "kept keep ts @ [t] = drop ?n (ts @ [t])" using False by (simp add: kept_def)
  also have "\<dots> = x # kept keep (ts @ [t])" unfolding x_def kept_def split by (simp only: length_append_singleton n)
  finally have recent: "ta_recent st = x # kept keep (ts @ [t])" by (simp add: st_def)
  have gone: "evicted keep (ts @ [t]) = evicted keep ts @ [x]"
    using take_Suc_conv_app_nth [of ?n "ts @ [t]"] by (simp add: evicted_def n x_def)
  have "keep < length (ta_recent st)" using False by (simp add: st_def kept_def)
  then have "push_turn keep key version t (tail_of keep summary through ts) = evict_oldest key version st"
    unfolding push_turn_def Let_def st_def by (simp add: tail_of_def)
  then show ?thesis
    unfolding evict_oldest_Cons [OF recent] by (simp add: tail_of_def gone st_def)
qed

lemma push_all: "fold (push_turn keep key version) us (tail_of keep summary through ts) = tail_of keep summary through (ts @ us)"
  by (induction us arbitrary: ts) (simp_all add: push_tail_of)

lemma tail_of_Nil: "tail_of keep summary through [] = \<lparr>ta_pending = None, ta_recent = [], ta_summary = summary, ta_through = through\<rparr>"
  by (simp add: tail_of_def kept_def evicted_def)

lemma hist_numbered: "hist_inv db \<Longrightarrow> c \<in> set (convs db) \<Longrightarrow> numbered (conv_msgs db (c_id c))"
  by (drule (1) hist_invD) (simp add: conv_inv_def numbered_def)

lemma read_tail_eq:
  assumes inv: "hist_inv db" and c: "c \<in> set (convs db)" and ok: "list_all readable (conv_msgs db (c_id c))"
    and through: "0 \<le> c_summary_through c"
  shows "\<exists>p. read_tail keep key c db = Inr ((tail_of (max 1 keep) (c_summary c) (c_summary_through c)
      (messages_to_turns (drop (nat (c_summary_through c)) (conv_msgs db (c_id c)))))\<lparr>ta_pending := p\<rparr>)"
proof -
  let ?st = "tail_of (max 1 keep) (c_summary c) (c_summary_through c) []"
  let ?ms = "drop (nat (c_summary_through c)) (conv_msgs db (c_id c))"
  have "find_conv db (c_id c) \<noteq> None" using find_conv_eq [OF hist_inv_schema [OF inv] c] by simp
  from tail_loop_folds [OF this hist_numbered [OF inv c] ok through]
  have "read_tail keep key c db = Inr (fold (absorb_message (max 1 keep) key (c_summary_version c)) ?ms (?st\<lparr>ta_pending := None\<rparr>))"
    by (simp add: read_tail_def tail_of_Nil)
  with absorb_pairs [of "max 1 keep" key "c_summary_version c" ?ms ?st] show ?thesis
    by (auto simp: push_all)
qed

end
