(* ===== verification/Service_Sync.thy ===== *)
theory Service_Sync
  imports Service_Hydration
begin

text \<open>
  The warm memory against the durable history: the sequences of the turns of a tail, and what a
  successful catch-up leaves in the memory.
\<close>

section \<open>Sequences of a tail\<close>

lemma pairs_sequences:
  "in_pairs ms \<Longrightarrow> map m_sequence ms = map (\<lambda>i. b + int i) [1..<Suc (length ms)]
    \<Longrightarrow> map mt_seq (messages_to_turns ms) = map (\<lambda>i. Some (b + 2 * int i)) [1..<Suc (length ms div 2)]"
proof (induction ms arbitrary: b rule: in_pairs.induct)
  case (3 u a ms)
  have upt: "[1..<Suc (length (u # a # ms))] = 1 # 2 # map (\<lambda>i. i + 2) [1..<Suc (length ms)]"
    by (rule nth_equalityI) (auto simp: nth_Cons less_Suc_eq_0_disj simp del: upt_Suc split: nat.split)
  from 3(3) have seqs: "m_sequence a = b + 2" "map m_sequence ms = map (\<lambda>i. (b + 2) + int i) [1..<Suc (length ms)]"
    unfolding upt by (simp_all add: comp_def add.assoc)
  from 3(2) have "in_pairs ms" "m_role u = UserRole" "m_role a = AssistantRole" by simp_all
  with 3(1) [OF _ seqs(2)] seqs(1)
  have "map mt_seq (messages_to_turns (u # a # ms)) = Some (b + 2) # map (\<lambda>i. Some (b + 2 + 2 * int i)) [1..<Suc (length ms div 2)]"
    by simp
  also have "\<dots> = map (\<lambda>i. Some (b + 2 * int i)) (1 # map Suc [1..<Suc (length ms div 2)])"
    by (simp add: algebra_simps)
  also have "1 # map Suc [1..<Suc (length ms div 2)] = [1..<Suc (length (u # a # ms) div 2)]"
    by (simp add: map_Suc_upt upt_conv_Cons [of "Suc 0"] del: upt_Suc)
  finally show ?case .
qed simp_all

lemma in_pairs_drop: "in_pairs ms \<Longrightarrow> in_pairs (drop (2 * k) ms)"
proof (induction ms arbitrary: k rule: in_pairs.induct)
  case (3 u a ms)
  then show ?case by (cases k) simp_all
qed simp_all

text \<open>The turns of the transcript after an even position, and their sequences.\<close>

definition tail_turns :: "hdb \<Rightarrow> conv_row \<Rightarrow> mem_turn list" where
  "tail_turns db c = messages_to_turns (drop (nat (c_summary_through c)) (conv_msgs db (c_id c)))"

definition whole_turns :: "conv_row \<Rightarrow> bool" where
  "whole_turns c \<longleftrightarrow> even (c_summary_through c) \<and> 0 \<le> c_summary_through c \<and> c_summary_through c \<le> c_message_count c"

lemma tail_turns_sequences:
  assumes inv: "hist_inv db" and c: "c \<in> set (convs db)" and w: "whole_turns c"
  shows "map mt_seq (tail_turns db c) = map (\<lambda>i. Some (c_summary_through c + 2 * int i)) [1..<Suc (length (tail_turns db c))]"
    and "c_message_count c = c_summary_through c + 2 * int (length (tail_turns db c))"
proof -
  let ?ms = "conv_msgs db (c_id c)" and ?T = "nat (c_summary_through c)"
  from hist_invD [OF inv c] have count: "c_message_count c = int (length ?ms)" and pairs: "in_pairs ?ms"
    by (simp_all add: conv_inv_def)
  note num = hist_numbered [OF inv c]
  have "even ?T" using w by (simp add: whole_turns_def even_nat_iff)
  then obtain k where k: "?T = 2 * k" by (elim evenE)
  have T: "int ?T = c_summary_through c" "?T \<le> length ?ms" using w count by (auto simp: whole_turns_def)
  have "map m_sequence (drop ?T ?ms) = map (\<lambda>i. c_summary_through c + int i) [1..<Suc (length (drop ?T ?ms))]"
    by (rule nth_equalityI) (use num T in \<open>auto simp: numbered_nth simp del: upt_Suc\<close>)
  from pairs_sequences [OF _ this] in_pairs_drop [OF pairs, of k] k
  have seqs: "map mt_seq (tail_turns db c) = map (\<lambda>i. Some (c_summary_through c + 2 * int i)) [1..<Suc (length (drop ?T ?ms) div 2)]"
    by (simp add: tail_turns_def)
  then have len: "length (tail_turns db c) = length (drop ?T ?ms) div 2"
    by (drule_tac arg_cong [of _ _ length]) (simp del: upt_Suc)
  with seqs show "map mt_seq (tail_turns db c) = map (\<lambda>i. Some (c_summary_through c + 2 * int i)) [1..<Suc (length (tail_turns db c))]"
    by simp
  have "even (length (drop ?T ?ms))" using length_transcript [OF in_pairs_drop [OF pairs, of k]] k by simp
  then have "length (drop ?T ?ms) = 2 * length (tail_turns db c)" unfolding len by simp
  then have "length ?ms = ?T + 2 * length (tail_turns db c)" using T(2) by simp
  then have "int (length ?ms) = int ?T + 2 * int (length (tail_turns db c))" by simp
  with T(1) count show "c_message_count c = c_summary_through c + 2 * int (length (tail_turns db c))" by linarith
qed

section \<open>What the kept turns and the summary stand for\<close>

definition numbered_turns :: "int \<Rightarrow> mem_turn list \<Rightarrow> bool" where
  "numbered_turns b ts \<longleftrightarrow> map mt_seq ts = map (\<lambda>i. Some (b + 2 * int i)) [1..<Suc (length ts)]"

lemma numbered_turns_nth: "numbered_turns b ts \<longleftrightarrow> (\<forall>i < length ts. mt_seq (ts ! i) = Some (b + 2 * (int i + 1)))"
  unfolding numbered_turns_def list_eq_iff_nth_eq by (auto simp del: upt_Suc)

lemma numbered_turns_drop: "numbered_turns b ts \<Longrightarrow> k \<le> length ts \<Longrightarrow> numbered_turns (b + 2 * int k) (drop k ts)"
  unfolding numbered_turns_nth by (auto simp: algebra_simps)

lemma numbered_turns_sorted: "numbered_turns b ts \<Longrightarrow> sorted_wrt (<) (seqs ts)"
proof (induction ts arbitrary: b)
  case (Cons t ts)
  from Cons.prems have t: "mt_seq t = Some (b + 2)" by (auto simp: numbered_turns_nth)
  from numbered_turns_drop [OF Cons.prems, of 1] have ts: "numbered_turns (b + 2) ts" by simp
  have "b + 2 < q" if "q \<in> set (seqs ts)" for q
  proof -
    from that have "Some q \<in> set (map mt_seq ts)" by (simp add: seqs_iff)
    then obtain i where "i < length ts" "mt_seq (ts ! i) = Some q" by (auto simp: in_set_conv_nth)
    with ts show ?thesis by (simp add: numbered_turns_nth)
  qed
  with t Cons.IH [OF ts] show ?case by simp
qed simp

lemma numbered_turns_end:
  "numbered_turns b ts \<Longrightarrow> 0 \<le> b \<Longrightarrow> durable_state_sequence ts b = b + 2 * int (length ts)"
proof -
  assume num: "numbered_turns b ts" and b: "0 \<le> b"
  have "fold (\<lambda>t h. case mt_seq t of None \<Rightarrow> h | Some s \<Rightarrow> max h s) (take n ts) b = b + 2 * int n" if "n \<le> length ts" for n
    using that
  proof (induction n)
    case (Suc n)
    then have "take (Suc n) ts = take n ts @ [ts ! n]" by (simp add: take_Suc_conv_app_nth)
    with Suc num show ?case by (simp add: numbered_turns_nth)
  qed simp
  from this [of "length ts"] b show ?thesis by (simp add: durable_state_sequence_def)
qed

lemma numbered_turns_cover:
  assumes num: "numbered_turns b ts" and b: "0 \<le> b" "even b" and st: "ms_turns st = ts" "ms_through st = b"
  shows "state_covers_sequence (Some st) (b + 2 * int (length ts))"
proof -
  have "Some (2 * int i) \<in> set (map mt_seq ts)" if "b < 2 * int i" "i < nat (b + 2 * int (length ts)) div 2 + 1" for i
  proof -
    obtain k where k: "b = 2 * k" using b(2) by (elim evenE)
    define j where "j = nat (int i - k - 1)"
    have j: "int j = int i - k - 1" "j < length ts" using that k b(1) by (auto simp: j_def)
    then have "mt_seq (ts ! j) = Some (2 * int i)" using num k by (simp add: numbered_turns_nth)
    with j(2) show ?thesis by (auto simp: in_set_conv_nth intro!: image_eqI [of _ _ "ts ! j"])
  qed
  then show ?thesis
    unfolding state_covers_sequence_def Let_def option.case st list_all_iff using b(1) by (auto simp del: upt_Suc)
qed

lemma tail_of_numbered:
  assumes num: "numbered_turns b ts" and keep: "1 \<le> keep"
  shows "ta_through (tail_of keep summary b ts) = b + 2 * int (length ts - keep)"
    and "numbered_turns (b + 2 * int (length ts - keep)) (ta_recent (tail_of keep summary b ts))"
proof -
  let ?n = "length ts - keep"
  have "seq_of (last (take ?n ts)) = b + 2 * int ?n" if "?n \<noteq> 0"
  proof -
    have "take ?n ts \<noteq> []" using that by auto
    moreover have "length (take ?n ts) = ?n" by simp
    ultimately have "last (take ?n ts) = ts ! (?n - 1)"
      using that by (metis bot_nat_0.not_eq_extremum diff_less last_conv_nth nth_take zero_less_one)
    moreover have "mt_seq (ts ! (?n - 1)) = Some (b + 2 * (int (?n - 1) + 1))"
    proof -
      have "?n - 1 < length ts" using that by linarith
      with num show ?thesis unfolding numbered_turns_nth by blast
    qed
    ultimately show ?thesis using that by (simp add: seq_of_def)
  qed
  then show "ta_through (tail_of keep summary b ts) = b + 2 * int ?n"
    by (auto simp: tail_of_def evicted_def)
  show "numbered_turns (b + 2 * int ?n) (ta_recent (tail_of keep summary b ts))"
    using numbered_turns_drop [OF num, of ?n] by (simp add: tail_of_def kept_def)
qed


section \<open>A catch-up without interference\<close>

definition quiet :: "nat \<Rightarrow> nat \<Rightarrow> service \<Rightarrow> service" where
  "quiet i k s = s"

definition durable_kbs :: "hdb \<Rightarrow> conv_row \<Rightarrow> string list" where
  "durable_kbs db c = filter (\<lambda>k. k \<noteq> []) (map k_kb (load_knowledge_bases db (c_id c)))"

text \<open>The memory of a conversation has not seen more than the database holds.\<close>

definition not_ahead :: "mem_store \<Rightarrow> string \<Rightarrow> int \<Rightarrow> bool" where
  "not_ahead m warm n \<longleftrightarrow> (\<forall>st. od_get (mm_convs m) warm = Some st \<longrightarrow> conversation_state_sequence st \<le> n)"

lemma get_state_reads: "mem_get_state now i False m = (od_get (mm_convs (mem_purge now m)) i, mem_purge now m)"
  by (auto simp: mem_get_state_def Let_def split: option.split)

lemma purge_gets: "od_get (mm_convs (mem_purge now m)) i = Some st \<Longrightarrow> od_get (mm_convs m) i = Some st"
  by (simp add: mem_purge_def split: if_splits)

lemma not_ahead_purge: "not_ahead m warm n \<Longrightarrow> not_ahead (mem_purge now m) warm n"
  by (auto simp: not_ahead_def dest: purge_gets)

lemma replace_result:
  assumes inv: "mem_inv m" and items: "1 \<le> mm_max_items m" and warm: "warm \<noteq> []"
    and ahead: "not_ahead m warm (durable_state_sequence ts through)"
  obtains m' st where "replace_from_durable now warm summary ts kbs v through m = (True, m')"
    "od_get (mm_convs m') warm = Some st" "ms_turns st = ts" "ms_through st = max 0 through"
    "ms_summary st = clamp_text summary (mm_summary_max m)" "ms_kbs st = kb_set kbs"
proof -
  let ?p = "mem_purge now m" and ?e = "od_get (mm_convs (mem_purge now m)) warm"
  let ?st = "\<lparr>ms_summary = clamp_text summary (mm_summary_max m), ms_through = max 0 through, ms_turns = ts, ms_kbs = kb_set kbs,
     ms_created = (case ?e of None \<Rightarrow> now | Some e \<Rightarrow> ms_created e), ms_updated = now, ms_version = version_or_length v ts\<rparr>"
  have "\<not> (case ?e of None \<Rightarrow> False | Some s \<Rightarrow> durable_state_sequence ts through < conversation_state_sequence s)"
    using not_ahead_purge [OF ahead, of now] by (auto simp: not_ahead_def split: option.splits)
  then have "replace_from_durable now warm summary ts kbs v through m = (True, evict_if_needed (mem_touch warm ?st ?p))"
    using warm by (simp add: replace_from_durable_def get_state_reads Let_def)
  moreover have "od_get (mm_convs (evict_if_needed (mem_touch warm ?st ?p))) warm = Some ?st"
    by (rule evict_touch_get) (use items mem_inv_weak [OF purge_inv_mem [OF inv]] in simp_all)
  ultimately show thesis by (rule that) simp_all
qed

lemma attempt_restores:
  assumes inv: "hist_inv (sv_hist s)" and c: "find_scope (sv_hist s) key = Some c" and w: "whole_turns c"
    and ok: "list_all readable (conv_msgs (sv_hist s) (c_id c))"
    and mem: "mem_inv (sv_memory s)" "1 \<le> mm_max_items (sv_memory s)" "not_ahead (sv_memory s) warm (c_message_count c)"
    and en: "sv_enabled s" "warm \<noteq> []"
  obtains s' st where "hydrate_attempt (quiet i) ck True key warm s = (Some True, s')"
    "od_get (mm_convs (sv_memory s')) warm = Some st"
    "ms_turns st = kept (max 1 (mm_keep (sv_memory s))) (tail_turns (sv_hist s) c)"
    "ms_kbs st = set (durable_kbs (sv_hist s) c)" "state_covers_sequence (Some st) (c_message_count c)"
    "msgs (sv_hist s') = msgs (sv_hist s)"
    "\<exists>c'. find_scope (sv_hist s') key = Some c' \<and> c_id c' = c_id c \<and> c_message_count c' = c_message_count c
       \<and> c_summary_through c' = ms_through st \<and> ms_summary st = clamp_text (c_summary c') (mm_summary_max (sv_memory s))"
    "even (ms_through st) \<and> 0 \<le> ms_through st \<and> conversation_state_sequence st = c_message_count c
       \<and> ms_through st \<le> c_message_count c"
proof -
  let ?db = "sv_hist s" and ?k = "max 1 (mm_keep (sv_memory s))" and ?b = "c_summary_through c"
  let ?ts = "tail_turns ?db c"
  from find_scope_Some [OF c] have cm: "c \<in> set (convs ?db)" by simp
  have b: "0 \<le> ?b" "even ?b" using w by (simp_all add: whole_turns_def)
  have num: "numbered_turns ?b ?ts" using tail_turns_sequences(1) [OF inv cm w] by (simp add: numbered_turns_def)
  note count = tail_turns_sequences(2) [OF inv cm w]
  obtain p where rt: "read_tail (mm_keep (sv_memory s)) key c ?db = Inr ((tail_of ?k (c_summary c) ?b ?ts)\<lparr>ta_pending := p\<rparr>)"
    using read_tail_eq [OF inv cm ok b(1)] unfolding tail_turns_def by blast
  define t where "t = (tail_of ?k (c_summary c) ?b ?ts)\<lparr>ta_pending := p\<rparr>"
  have rt': "read_tail (mm_keep (sv_memory s)) key c ?db = Inr t" using rt by (simp only: t_def)
  let ?n = "length ?ts - ?k"
  have th: "ta_through t
     = ?b + 2 * int ?n" and rec: "numbered_turns (?b + 2 * int ?n) (ta_recent t)" and keepts: "ta_recent t = kept ?k ?ts"
    using tail_of_numbered [OF num, of ?k] by (simp_all add: t_def) (simp add: tail_of_def)
  have total: "ta_through t + 2 * int (length (ta_recent t)) = c_message_count c"
    using count by (simp add: th keepts kept_def)
  have seq: "durable_state_sequence (ta_recent t) (ta_through t) = c_message_count c"
    using numbered_turns_end [OF rec] b(1) total by (simp add: th)
  define db where "db = (if ?b < ta_through t then snd (update_summary (ck 0) key (ta_summary t) (c_summary_version c) (ta_through t) ?db) else ?db)"
  have upd: "persist_tail (ck 0) key c t s = (True, s\<lparr>sv_hist := db\<rparr>)"
    using c by (simp add: persist_tail_def db_def update_summary_def)
  have scope: "get_by_scope_key ?db key = Some (c, load_knowledge_bases ?db (c_id c))" using c by (simp add: get_by_scope_key_def)
  have ahead: "not_ahead (sv_memory s) warm (durable_state_sequence (ta_recent t) (ta_through t))" using mem(3) seq by simp
  obtain m' st where rep: "replace_from_durable (ck 1) warm (ta_summary t) (ta_recent t) (durable_kbs ?db c)
        (Some (c_summary_version c + (if ?b < ta_through t then 1 else 0))) (ta_through t) (sv_memory s) = (True, m')"
    and st: "od_get (mm_convs m') warm = Some st" "ms_turns st = ta_recent t" "ms_through st = max 0 (ta_through t)"
      "ms_summary st = clamp_text (ta_summary t) (mm_summary_max (sv_memory s))" "ms_kbs st = kb_set (durable_kbs ?db c)"
    by (rule replace_result [OF mem(1,2) en(2) ahead])
  have inst: "install_tail (ck 1) True warm c (load_knowledge_bases ?db (c_id c)) t (s\<lparr>sv_hist := db\<rparr>)
      = (True, s\<lparr>sv_hist := db, sv_memory := m'\<rparr>)"
    using rep by (simp add: install_tail_def durable_kbs_def Let_def split del: if_split)
  have "hydrate_attempt (quiet i) ck True key warm s = (Some True, s\<lparr>sv_hist := db, sv_memory := m'\<rparr>)"
    using en inst by (simp add: hydrate_attempt_def quiet_def Let_def scope rt' upd)
  moreover have through: "ms_through st = ta_through t" using st(3) b(1) by (simp add: th)
  moreover have "even (ms_through st) \<and> 0 \<le> ms_through st \<and> conversation_state_sequence st = c_message_count c
       \<and> ms_through st \<le> c_message_count c"
    using b total seq by (simp add: through conversation_state_sequence_def st(2)) (simp add: th)
  moreover have "state_covers_sequence (Some st) (c_message_count c)"
    using numbered_turns_cover [OF rec _ _ st(2)] total through b by (simp add: th)
  moreover have "\<exists>c'. find_scope db key = Some c' \<and> c_id c' = c_id c \<and> c_message_count c' = c_message_count c
       \<and> c_summary_through c' = ta_through t \<and> c_summary c' = ta_summary t"
  proof (cases "?b < ta_through t")
    case True
    with c show ?thesis
      by (simp add: db_def update_summary_def find_scope_update_conv)
  next
    case False
    then have "?n = 0" using th by auto
    then have "ta_summary t = c_summary c" by (simp add: t_def tail_of_def evicted_def)
    with c False th \<open>?n = 0\<close> show ?thesis by (simp add: db_def)
  qed
  moreover have "msgs db = msgs ?db" using c by (simp add: db_def update_summary_def update_conv_def)
  ultimately show thesis
    using st keepts by (intro that [of "s\<lparr>sv_hist := db, sv_memory := m'\<rparr>" st]) (auto simp: kb_set_def durable_kbs_def)
qed

end
