(* ===== verification/Service_Machine.thy ===== *)
theory Service_Machine
  imports Service_Sync
begin

text \<open>
  The conversation service as a machine: its calls in any order, with whatever other workers do
  inside a hydration, keep the invariants of all three stores. The condition under which the
  memory keeps its own, that turns are handed over in the order of their sequences, follows from
  the invariant of the database.
\<close>

section \<open>The invariant\<close>

definition db_ok :: "hist_config \<Rightarrow> hdb \<Rightarrow> bool" where
  "db_ok cfg db \<longleftrightarrow> hist_inv db \<and> quota_inv cfg db"

definition service_inv :: "service \<Rightarrow> bool" where
  "service_inv s \<longleftrightarrow> db_ok (sv_cfg s) (sv_hist s) \<and> pending_inv (sv_pending s) \<and> mem_inv (sv_memory s)"

lemma db_step: "db_ok cfg db \<Longrightarrow> db_ok cfg (hist_step cfg db ev)"
  by (simp add: db_ok_def hist_step_inv hist_step_quota)

lemma set_hist_inv: "service_inv s \<Longrightarrow> db_ok (sv_cfg s) db \<Longrightarrow> service_inv (s\<lparr>sv_hist := db\<rparr>)"
  by (simp add: service_inv_def)

lemma set_pending_inv: "service_inv s \<Longrightarrow> pending_inv p \<Longrightarrow> service_inv (s\<lparr>sv_pending := p\<rparr>)"
  by (simp add: service_inv_def)

lemma set_memory_inv: "service_inv s \<Longrightarrow> mem_inv m \<Longrightarrow> service_inv (s\<lparr>sv_memory := m\<rparr>)"
  by (simp add: service_inv_def)

lemma service_invD: "service_inv s \<Longrightarrow> db_ok (sv_cfg s) (sv_hist s) \<and> pending_inv (sv_pending s) \<and> mem_inv (sv_memory s)"
  by (simp add: service_inv_def)

text \<open>Every call of the history store, seen from the service.\<close>

lemma hist_call: "service_inv s \<Longrightarrow> service_inv (s\<lparr>sv_hist := hist_step (sv_cfg s) (sv_hist s) ev\<rparr>)"
  by (simp add: service_inv_def db_step)

lemmas hist_calls =
  hist_call [of _ "EvBegin _ _", simplified] hist_call [of _ "EvRecover _ _ _ _ _", simplified]
  hist_call [of _ "EvReady _ _ _ _ _", simplified] hist_call [of _ "EvRenew _ _ _ _", simplified]
  hist_call [of _ "EvFail _ _ _ _", simplified] hist_call [of _ "EvComplete _ _", simplified]
  hist_call [of _ "EvReset _ _", simplified] hist_call [of _ "EvCleanup _", simplified]
  hist_call [of _ "EvUpdate _ _ _ _", simplified] hist_call [of _ "EvSummary _ _ _ _ _", simplified]
  hist_call [of _ "EvDelete _", simplified] hist_call [of _ "EvDeleteWithCleanup _ _", simplified]
  hist_call [of _ "EvCleanupDone _", simplified]

section \<open>The turns of a tail come in order\<close>

definition tail_ok :: "int \<Rightarrow> tail_state \<Rightarrow> bool" where
  "tail_ok b st \<longleftrightarrow> sorted_wrt (<) (seqs (ta_recent st)) \<and> (\<forall>q \<in> set (seqs (ta_recent st)). q \<le> b)"

lemma absorb_ok:
  assumes "tail_ok b st" and "b < m_sequence m"
  shows "tail_ok (m_sequence m) (absorb_message keep key version m st)"
proof -
  let ?t = "\<lambda>u. \<lparr>mt_user = u, mt_assistant = m_content m, mt_seq = Some (m_sequence m)\<rparr>"
  have more: "tail_ok (m_sequence m) (st\<lparr>ta_pending := p, ta_recent := ta_recent st @ [?t u]\<rparr>)" for p u
    using assms by (fastforce simp: tail_ok_def sorted_wrt_append)
  have evict: "tail_ok n st' \<Longrightarrow> tail_ok n (evict_oldest key version st')" for n st'
    by (auto simp: tail_ok_def evict_oldest_def split: list.split option.splits)
  have weak: "tail_ok (m_sequence m) st" using assms by (fastforce simp: tail_ok_def)
  show ?thesis
    using more evict weak by (simp add: absorb_message_def Let_def split: msg_role.split option.split) (simp add: tail_ok_def)
qed

lemma absorb_all_ok:
  "tail_ok b st \<Longrightarrow> sorted_wrt (<) (map m_sequence ms) \<Longrightarrow> (\<forall>m \<in> set ms. b < m_sequence m)
    \<Longrightarrow> tail_ok (if ms = [] then b else m_sequence (last ms)) (fold (absorb_message keep key version) ms st)"
proof (induction ms arbitrary: b st)
  case (Cons m ms)
  have "tail_ok (m_sequence m) (absorb_message keep key version m st)"
    by (rule absorb_ok [of b]) (use Cons.prems in simp_all)
  from Cons.IH [OF this] Cons.prems show ?case by auto
qed simp

lemma page_sorted:
  assumes inv: "hist_inv db" and page: "list_messages_after_sequence db hid after bound = Inr (ms, nxt)"
  shows "sorted_wrt (<) (map m_sequence ms)" and "\<forall>m \<in> set ms. after < m_sequence m"
    and "nxt = Some n \<Longrightarrow> ms \<noteq> [] \<and> n = m_sequence (last ms)"
proof -
  define hits where "hits = sort_key m_sequence (filter (\<lambda>m. max 0 after < m_sequence m) (conv_msgs db hid))"
  have "mapE message_row hits = Inr ms \<or> (\<exists>k. mapE message_row (take k hits) = Inr ms)" and conv: "find_conv db hid \<noteq> None"
    and nxt: "nxt = Some n \<Longrightarrow> ms \<noteq> [] \<and> n = m_sequence (last ms)"
    using page by (auto simp: list_messages_after_sequence_def hits_def Let_def bindE_eq_Inr split: if_splits)
  then have "\<exists>k. mapE message_row (take k hits) = Inr ms" by (metis take_all order_refl)
  then obtain k where k: "ms = take k hits"
    using mapE_set by (metis (no_types, lifting) message_row_def sum.inject(2) sum.simps(4))
  from conv obtain c where c: "c \<in> set (convs db)" "c_id c = hid" by (auto dest: find_conv_Some)
  have "distinct (map m_sequence (conv_msgs db hid))"
    using hist_numbered [OF inv c(1)] c(2) by (simp add: numbered_def distinct_map inj_on_def del: upt_Suc)
  then have "distinct (map m_sequence hits)"
    unfolding hits_def by (auto simp: distinct_map intro: inj_on_subset)
  then have "sorted_wrt (<) (map m_sequence hits)"
    by (simp add: strict_sorted_iff) (simp add: hits_def)
  then show "sorted_wrt (<) (map m_sequence ms)" unfolding k by (simp add: take_map [symmetric] sorted_wrt_take)
  show "\<forall>m \<in> set ms. after < m_sequence m" by (auto simp: k hits_def dest!: in_set_takeD)
  show "nxt = Some n \<Longrightarrow> ms \<noteq> [] \<and> n = m_sequence (last ms)" by (rule nxt)
qed

lemma tail_loop_sorted:
  "tail_loop keep key version db hid after st = Inr t \<Longrightarrow> hist_inv db \<Longrightarrow> tail_ok after st \<Longrightarrow> sorted_wrt (<) (seqs (ta_recent t))"
proof (induction keep key version db hid after st rule: tail_loop.induct)
  case (1 keep key version db hid after st)
  from 1(2) obtain ms nxt where page: "list_messages_after_sequence db hid after hydration_limit_messages = Inr (ms, nxt)"
    by (auto simp: tail_loop.simps [of keep] split: sum.splits)
  let ?st = "fold (absorb_message keep key version) ms st"
  note sorted = page_sorted [OF 1(3) page]
  have ok: "tail_ok (if ms = [] then after else m_sequence (last ms)) ?st"
    by (rule absorb_all_ok [OF 1(4) sorted(1,2)])
  show ?case
  proof (cases nxt)
    case None
    with 1(2) page have "t = ?st" by (simp add: tail_loop.simps [of keep] Let_def)
    with ok show ?thesis by (simp add: tail_ok_def)
  next
    case (Some n)
    with 1(2) page have "\<not> n \<le> after" "tail_loop keep key version db hid n ?st = Inr t"
      by (simp_all add: tail_loop.simps [of keep _ _ _ _ after] Let_def split: if_splits)
    moreover have "tail_ok n ?st" using ok sorted(3) [OF Some] by simp
    ultimately show ?thesis using 1(1) [OF page refl refl Some] 1(3) by blast
  qed
qed

lemma read_tail_sorted: "hist_inv db \<Longrightarrow> read_tail keep key c db = Inr t \<Longrightarrow> sorted_wrt (<) (seqs (ta_recent t))"
  unfolding read_tail_def by (erule tail_loop_sorted) (simp_all add: tail_ok_def)


section \<open>Every call keeps the invariant\<close>

lemma forget_inv: "service_inv s \<Longrightarrow> service_inv (forget_scope now key s)" "service_inv s \<Longrightarrow> service_inv (forget_turn kt s)"
  by (simp_all add: forget_scope_def forget_turn_def service_inv_def mem_clear_inv clear_inv delete_inv)

lemma fold_inv: "service_inv s \<Longrightarrow> (\<And>x s. service_inv s \<Longrightarrow> service_inv (f x s)) \<Longrightarrow> service_inv (fold f xs s)"
  by (induction xs arbitrary: s) simp_all

lemma cleanup_service_inv:
  assumes "service_inv s"
  shows "service_inv (snd (sv_cleanup_expired ck s))"
proof -
  obtain r db where r: "cleanup_expired (sv_cfg s) (ck 0) (sv_hist s) = (r, db)" by (cases "cleanup_expired (sv_cfg s) (ck 0) (sv_hist s)")
  have "service_inv (s\<lparr>sv_hist := db\<rparr>)" using hist_calls(8) [OF assms, of "ck 0"] r by simp
  then show ?thesis
    using assms r by (auto simp: sv_cleanup_expired_def split: sum.split intro!: fold_inv forget_inv)
qed

lemma sv_delete_if_lease_inv: "service_inv s \<Longrightarrow> service_inv (sv_delete_if_lease now key tid lease s)"
  by (simp add: sv_delete_if_lease_def service_inv_def delete_if_lease_inv)

lemma recover_lost_inv: "service_inv s \<Longrightarrow> service_inv (snd (recover_lost dr req lease c s))"
  using hist_calls(2) [of s dr "b_scope_key req" "b_turn_id req" "b_fingerprint req" lease]
  by (simp add: recover_lost_def Let_def case_prod_unfold)

lemma replay_ready_inv:
  assumes "service_inv s"
  shows "service_inv (snd (replay_ready ck dr req recover digest lease expires c s))"
proof -
  obtain p ps where g: "pending_get (ck 2) (b_scope_key req) (b_turn_id req) lease (sv_pending s) = (p, ps)"
    by (cases "pending_get (ck 2) (b_scope_key req) (b_turn_id req) lease (sv_pending s)")
  have ps: "pending_inv ps" using get_inv [of "sv_pending s" "ck 2" "b_scope_key req" "b_turn_id req" lease] assms g by (simp add: service_inv_def)
  then show ?thesis
    using assms g by (auto simp: replay_ready_def Let_def delete_if_lease_inv split: option.split
        intro!: recover_lost_inv set_pending_inv [where p = "snd (delete_if_lease _ _ _ _ _)"] set_pending_inv)
qed

lemma begin_service_inv:
  assumes "service_inv s"
  shows "service_inv (snd (sv_begin_turn ck dr dr2 req recover s))"
proof -
  let ?s = "snd (sv_cleanup_expired ck s)"
  obtain r db where r: "begin_turn (sv_cfg ?s) req dr (sv_hist ?s) = (r, db)"
    by (cases "begin_turn (sv_cfg ?s) req dr (sv_hist ?s)")
  have "service_inv (?s\<lparr>sv_hist := db\<rparr>)" using hist_calls(1) [OF cleanup_service_inv [OF assms]] r by (metis snd_conv)
  then show ?thesis
    using assms r by (auto simp: sv_begin_turn_def Let_def replay_ready_inv split: sum.split prod.split begin_outcome.split)
qed

lemma stage_service_inv:
  assumes "service_inv s"
  shows "service_inv (snd (sv_stage_result ck key tid lease result digest s))"
proof -
  obtain b ps where p: "pending_put (ck 0) key tid lease digest result None (sv_pending s) = (b, ps)"
    by (cases "pending_put (ck 0) key tid lease digest result None (sv_pending s)")
  obtain r db where m: "mark_turn_ready (ck 1) key tid lease digest (sv_hist s) = (r, db)"
    by (cases "mark_turn_ready (ck 1) key tid lease digest (sv_hist s)")
  have ps: "service_inv (s\<lparr>sv_pending := ps\<rparr>)"
    using assms put_inv [of "sv_pending s" "ck 0" key tid lease digest result None] p by (simp add: service_inv_def)
  have "service_inv (s\<lparr>sv_pending := ps, sv_hist := db\<rparr>)" using hist_calls(3) [OF ps, of "ck 1" key tid lease digest] m by simp
  with assms ps p m show ?thesis by (simp add: sv_stage_result_def Let_def sv_delete_if_lease_inv)
qed

lemma fail_service_inv: "service_inv s \<Longrightarrow> service_inv (snd (sv_fail_turn ck key tid lease s))"
  using hist_calls(5) [OF sv_delete_if_lease_inv [of s "ck 0" key tid lease], of "ck 1" key tid lease]
  by (simp add: sv_fail_turn_def Let_def case_prod_unfold)

lemma renew_service_inv: "service_inv s \<Longrightarrow> service_inv (snd (sv_renew_turn_lease now key tid lease s))"
  using hist_calls(4) [of s now key tid lease] by (simp add: sv_renew_turn_lease_def Let_def case_prod_unfold)

text \<open>An interference is harmless when it keeps the invariant.\<close>

definition harmless :: "(nat \<Rightarrow> nat \<Rightarrow> service \<Rightarrow> service) \<Rightarrow> bool" where
  "harmless env \<longleftrightarrow> (\<forall>i k s. service_inv s \<longrightarrow> service_inv (env i k s))"

lemma persist_service_inv: "service_inv s \<Longrightarrow> service_inv (snd (persist_tail now key c t s))"
  using hist_calls(10) [of s now key "ta_summary t" "c_summary_version c" "ta_through t"]
  by (simp add: persist_tail_def Let_def case_prod_unfold)

lemma install_service_inv:
  "service_inv s \<Longrightarrow> sorted_wrt (<) (seqs (ta_recent t)) \<Longrightarrow> service_inv (snd (install_tail now replace warm c kbs t s))"
  by (simp add: install_tail_def Let_def case_prod_unfold service_inv_def replace_inv hydrate_inv)

lemma attempt_service_inv:
  assumes inv: "service_inv s" and env: "\<And>k s. service_inv s \<Longrightarrow> service_inv (env k s)"
  shows "service_inv (snd (hydrate_attempt env ck replace key warm s))"
proof -
  have step: "service_inv (snd (install_tail now replace warm c kbs t (env 2 (snd (persist_tail now' key c t (env 1 (env 0 s)))))))"
    "service_inv (snd (persist_tail now' key c t (env 1 (env 0 s))))"
    if "read_tail keep key c (sv_hist (env 0 s)) = Inr t" for now now' c t kbs keep
  proof -
    have "hist_inv (sv_hist (env 0 s))" using env [OF inv] by (simp add: service_inv_def db_ok_def)
    note sorted = read_tail_sorted [OF this that]
    show p: "service_inv (snd (persist_tail now' key c t (env 1 (env 0 s))))"
      by (intro persist_service_inv env inv)
    show "service_inv (snd (install_tail now replace warm c kbs t (env 2 (snd (persist_tail now' key c t (env 1 (env 0 s)))))))"
      by (rule install_service_inv [OF env [OF p] sorted])
  qed
  with inv env show ?thesis
    by (auto simp: hydrate_attempt_def Let_def case_prod_unfold split: option.split sum.split)
qed

lemma hydrate_service_inv:
  assumes "harmless env" and "service_inv s"
  shows "service_inv (snd (hydrate_for_prompt env ck key warm s))" "service_inv (snd (rehydrate_for_prompt env ck key warm s))"
proof -
  have "service_inv (snd (hydrate_attempts env ck key warm is s)) \<and> service_inv (snd (rehydrate_attempts env ck key warm is s))" for "is"
    using assms(2)
  proof (induction "is" arbitrary: s)
    case (Cons i "is")
    have "service_inv (snd (hydrate_attempt (env i) (ck i) b key warm s))" for b
      using Cons.prems assms(1) by (intro attempt_service_inv) (auto simp: harmless_def)
    with Cons.IH show ?case by (auto split: prod.split option.split) (metis snd_conv)+
  qed simp
  then show "service_inv (snd (hydrate_for_prompt env ck key warm s))" "service_inv (snd (rehydrate_for_prompt env ck key warm s))"
    by (simp_all add: hydrate_for_prompt_def rehydrate_for_prompt_def)
qed

lemma sync_service_inv:
  assumes "harmless env" and "service_inv s"
  shows "service_inv (snd (sync_for_prompt env now ck key warm s))"
proof -
  have "service_inv (s\<lparr>sv_memory := mem_purge now (mem_purge now (sv_memory s))\<rparr>)"
    using assms(2) by (simp add: service_inv_def purge_inv_mem)
  with hydrate_service_inv(2) [OF assms(1)] assms(2) show ?thesis
    by (auto simp: sync_for_prompt_def durable_state_is_current_def mem_knowledge_base_ids_def get_state_reads Let_def split: option.split)
qed

lemma complete_service_inv:
  assumes env: "harmless env" and inv: "service_inv s"
  shows "service_inv (snd (sv_complete_turn env hk ck req selected q warm warm_kbs s))"
proof -
  let ?q = "merge_request req selected q"
  obtain r db where r: "complete_turn (sv_cfg s) (ck 0) ?q (sv_hist s) = (r, db)" by (cases "complete_turn (sv_cfg s) (ck 0) ?q (sv_hist s)")
  have i1: "service_inv (s\<lparr>sv_hist := db\<rparr>)" using hist_calls(6) [OF inv, of "ck 0" ?q] r by simp
  note i2 = sv_delete_if_lease_inv [OF i1, of "ck 1" "q_scope_key ?q" "q_turn_id ?q" "q_lease ?q"]
  have "mem_inv (snd (mem_append_turn (ck 2) warm u a ks sq (sv_memory (sv_delete_if_lease now key tid l (s\<lparr>sv_hist := db\<rparr>)))))"
    for u a ks sq now key tid l
    using append_turn_inv [OF prod.collapse [symmetric]] inv by (simp add: service_inv_def sv_delete_if_lease_def)
  then show ?thesis
    using inv r i1 i2 hydrate_service_inv(2) [OF env]
    by (auto simp: sv_complete_turn_def Let_def intro!: set_memory_inv split: sum.split hist_error.split complete_outcome.split prod.split)
      (metis snd_conv)+
qed

lemma delete_service_inv:
  assumes "service_inv s"
  shows "service_inv (snd (sv_delete_conversation unlink files ck hid s))"
proof -
  define s1 where "s1 = (case find_conv (sv_hist s) hid of None \<Rightarrow> s
                     | Some c \<Rightarrow> if c_scope_key c = [] then s else forget_scope (ck 0) (c_scope_key c) s)"
  have i1: "service_inv s1" using assms by (auto simp: s1_def forget_inv split: option.split)
  obtain r db where r: "delete_with_artifact_cleanup (sv_cfg s1) (ck 1) hid (sv_hist s1) = (r, db)"
    by (cases "delete_with_artifact_cleanup (sv_cfg s1) (ck 1) hid (sv_hist s1)")
  have i2: "service_inv (s1\<lparr>sv_hist := db\<rparr>)" using hist_calls(12) [OF i1, of "ck 1" hid] r by simp
  have i3: "service_inv (s1\<lparr>sv_hist := snd (complete_artifact_cleanup key db)\<rparr>)" for key
    using hist_calls(13) [OF i2, of key] by simp
  have i4: "service_inv (s1\<lparr>sv_hist := snd (delete_history hid (sv_hist s1))\<rparr>)"
    using hist_calls(11) [OF i1, of hid] by simp
  show ?thesis
    using assms i1 i2 i3 i4 r unfolding sv_delete_conversation_def Let_def s1_def [symmetric]
    by (auto simp: case_prod_unfold split: sum.split)
qed


lemma other_calls_inv:
  assumes "service_inv s"
  shows "service_inv (snd (sv_update_summary now key summary v n s))"
    and "service_inv (snd (sv_list_conversations ck page per_page status s))"
    and "service_inv (snd (sv_update_conversation now hid title archived s))"
    and "service_inv (snd (sv_reset_continuity now hid s))"
  using assms hist_calls(10) [OF assms, of now key summary v n] cleanup_service_inv [OF assms, of ck]
    hist_calls(9) [OF assms, of now hid title archived] hist_calls(7) [OF assms, of now hid]
  by (simp_all add: sv_update_summary_def sv_list_conversations_def sv_update_conversation_def sv_reset_continuity_def
      Let_def case_prod_unfold)

section \<open>Runs\<close>

datatype service_event =
    SvBegin "nat \<Rightarrow> time" draws draws begin_request bool
  | SvStage "nat \<Rightarrow> time" string string string "json option" string
  | SvComplete "nat \<Rightarrow> nat \<Rightarrow> service \<Rightarrow> service" "nat \<Rightarrow> nat \<Rightarrow> time" "nat \<Rightarrow> time" "begin_request option" "string list option"
      complete_request string "string list"
  | SvFail "nat \<Rightarrow> time" string string string
  | SvRenew time string string string
  | SvHydrate "nat \<Rightarrow> nat \<Rightarrow> service \<Rightarrow> service" "nat \<Rightarrow> nat \<Rightarrow> time" string string
  | SvSync "nat \<Rightarrow> nat \<Rightarrow> service \<Rightarrow> service" time "nat \<Rightarrow> nat \<Rightarrow> time" string string
  | SvCleanup "nat \<Rightarrow> time"
  | SvSummary time string string int int
  | SvList "nat \<Rightarrow> time" int int "string option"
  | SvUpdate time string "string option" "bool option"
  | SvDelete "artifact_refs \<Rightarrow> bool" bool "nat \<Rightarrow> time" string
  | SvReset time string

fun service_step :: "service \<Rightarrow> service_event \<Rightarrow> service" where
  "service_step s (SvBegin ck dr dr2 req recover) = snd (sv_begin_turn ck dr dr2 req recover s)"
| "service_step s (SvStage ck key tid lease result digest) = snd (sv_stage_result ck key tid lease result digest s)"
| "service_step s (SvComplete env hk ck req selected q warm kbs) = snd (sv_complete_turn env hk ck req selected q warm kbs s)"
| "service_step s (SvFail ck key tid lease) = snd (sv_fail_turn ck key tid lease s)"
| "service_step s (SvRenew now key tid lease) = snd (sv_renew_turn_lease now key tid lease s)"
| "service_step s (SvHydrate env ck key warm) = snd (hydrate_for_prompt env ck key warm s)"
| "service_step s (SvSync env now ck key warm) = snd (sync_for_prompt env now ck key warm s)"
| "service_step s (SvCleanup ck) = snd (sv_cleanup_expired ck s)"
| "service_step s (SvSummary now key summary v n) = snd (sv_update_summary now key summary v n s)"
| "service_step s (SvList ck page per_page status) = snd (sv_list_conversations ck page per_page status s)"
| "service_step s (SvUpdate now hid title archived) = snd (sv_update_conversation now hid title archived s)"
| "service_step s (SvDelete unlink files ck hid) = snd (sv_delete_conversation unlink files ck hid s)"
| "service_step s (SvReset now hid) = snd (sv_reset_continuity now hid s)"

text \<open>The only condition: what other workers do inside a hydration keeps the invariant too.\<close>

fun service_event_ok :: "service \<Rightarrow> service_event \<Rightarrow> bool" where
  "service_event_ok s (SvComplete env hk ck req selected q warm kbs) = harmless env"
| "service_event_ok s (SvHydrate env ck key warm) = harmless env"
| "service_event_ok s (SvSync env now ck key warm) = harmless env"
| "service_event_ok s ev = True"

lemma service_step_inv: "service_inv s \<Longrightarrow> service_event_ok s ev \<Longrightarrow> service_inv (service_step s ev)"
  by (cases ev) (simp_all add: begin_service_inv stage_service_inv complete_service_inv fail_service_inv renew_service_inv
      hydrate_service_inv sync_service_inv cleanup_service_inv other_calls_inv delete_service_inv)

interpretation conversations: safe_machine service_step service_inv service_event_ok
  by unfold_locales (rule service_step_inv)

definition fresh_service :: "hist_config \<Rightarrow> pending_store \<Rightarrow> mem_store \<Rightarrow> service" where
  "fresh_service cfg p m = \<lparr>sv_enabled = True, sv_cfg = cfg, sv_hist = empty_hdb, sv_pending = p, sv_memory = m\<rparr>"

lemma fresh_service_inv:
  "service_inv (fresh_service cfg (new_pending_store ttl mp mt fr) (new_mem_store threshold prompt retrieval summary keep mttl items))"
  by (simp add: service_inv_def fresh_service_def db_ok_def hist_inv_empty quota_inv_empty pending_inv_new mem_inv_def new_mem_store_def)

end
