(* ===== verification/Service_Replay.thy ===== *)
theory Service_Replay
  imports Service_Machine
begin

text \<open>
  Retrying a turn whose result was staged: neither the retention sweeps nor the clearing of other
  conversations touch it, so the retry gets the staged result.
\<close>

section \<open>The sweep keeps a ready turn\<close>

definition kept_ready :: "hist_config \<Rightarrow> time \<Rightarrow> turn_row \<Rightarrow> bool" where
  "kept_ready cfg now t \<longleftrightarrow> t_status t = Ready
     \<and> (0 < hc_incomplete_days cfg \<longrightarrow> now - real_of_int (hc_incomplete_days cfg * 86400) \<le> t_updated t)"

lemma upd_where_keeps: "x \<in> set xs \<Longrightarrow> \<not> P x \<Longrightarrow> x \<in> set (upd_where P f xs)"
  by (induction xs) auto

lemma find_scope_eq:
  "schema_ok db \<Longrightarrow> c \<in> set (convs db) \<Longrightarrow> find_scope db (c_scope_key c) = Some c"
  using find_scope_None [of db "c_scope_key c"]
  by (cases "find_scope db (c_scope_key c)")
    (auto dest!: find_scope_Some simp: schema_ok_def dest: distinct_map_inj)

lemma find_turn_eq: "schema_ok db \<Longrightarrow> t \<in> set (turns db) \<Longrightarrow> find_turn db (t_conv t) (t_id t) = Some t"
  by (cases "find_turn db (t_conv t) (t_id t)")
    (auto simp: find_turn_def find_None_iff dest!: find_turn_Some [unfolded find_turn_def] intro: same_turn)

lemma sweep_keeps_ready:
  assumes inv: "hist_inv db" and c: "find_scope db key = Some c" and t: "find_turn db (c_id c) tid = Some t"
    and kept: "kept_ready cfg now t" and sweep: "cleanup_expired_locked cfg now db = (r, db')"
  shows "find_scope db' key = Some c \<and> find_turn db' (c_id c) tid = Some t \<and> hist_inv db'
    \<and> key \<notin> set (cr_scope_keys r) \<and> (key, tid) \<notin> set (cr_turns r)"
proof -
  let ?cut1 = "now - real_of_int (hc_retention_days cfg * 86400)"
  let ?cut2 = "now - real_of_int (hc_incomplete_days cfg * 86400)"
  define db1 where "db1 = expire_leases now db"
  define old where "old = (if 0 < hc_retention_days cfg then filter (stale_conversation ?cut1 db1) (convs db1) else [])"
  define db2 where "db2 = delete_convs old db1"
  define dead where "dead = (if 0 < hc_incomplete_days cfg then filter (stale_turn ?cut2 db2) (turns db2) else [])"
  define db3 where "db3 = delete_turns dead db2"
  define stubs where "stubs = (if 0 < hc_incomplete_days cfg then filter (stale_stub ?cut2 db3) (convs db3) else [])"
  note folded = db1_def [symmetric] old_def [symmetric] db2_def [symmetric] dead_def [symmetric] db3_def [symmetric] stubs_def [symmetric]
  have r: "cr_scope_keys r = map c_scope_key old @ map c_scope_key stubs"
      "cr_turns r = map (\<lambda>t. (case find_conv db2 (t_conv t) of None \<Rightarrow> '''' | Some c \<Rightarrow> c_scope_key c, t_id t)) dead"
    and db': "db' = delete_convs stubs db3"
    using sweep unfolding cleanup_expired_locked_def Let_def folded by auto
  have c0: "c \<in> set (convs db)" "c_scope_key c = key" using find_scope_Some [OF c] by simp_all
  have t0: "t \<in> set (turns db)" "t_conv t = c_id c" "t_id t = tid" using find_turn_Some [OF t] by simp_all
  have ready: "t_status t = Ready" using kept by (simp add: kept_ready_def)
  have i2: "hist_inv db2" unfolding db2_def db1_def by (intro hist_inv_delete_convs hist_inv_expire_leases inv)
  have i': "hist_inv db'" using hist_inv_sweep [OF inv, of cfg now] sweep by simp
  have same: "d = c" if "d \<in> set (convs db)" "c_id d = c_id c" for d
    using that c0 hist_inv_schema [OF inv] by (auto intro: same_conv)
  have same_key: "d = c" if "d \<in> set (convs db)" "c_scope_key d = key" for d
    using that c0 hist_inv_schema [OF inv] by (auto simp: schema_ok_def dest: distinct_map_inj)
  have sub: "set (convs db3) \<subseteq> set (convs db)" "set (convs db2) \<subseteq> set (convs db)" "set old \<subseteq> set (convs db)"
    by (auto simp: db3_def delete_turns_eq db2_def delete_convs_eq db1_def expired_frame old_def)
  have outside: "c_id c \<notin> c_id ` set cs \<and> key \<notin> c_scope_key ` set cs" if "set cs \<subseteq> set (convs db)" "c \<notin> set cs" for cs
  proof -
    have "c_id d \<noteq> c_id c \<and> c_scope_key d \<noteq> key" if "d \<in> set cs" for d
      using \<open>set cs \<subseteq> set (convs db)\<close> \<open>c \<notin> set cs\<close> that same [of d] same_key [of d] by auto
    then show ?thesis unfolding image_iff by metis
  qed
  have t1: "t \<in> set (turns db1)"
    using upd_where_keeps [OF t0(1), of "lease_expired now"] ready by (simp add: db1_def expire_leases_def lease_expired_def)
  then have "has_active_turn db1 (c_id c)" using t0(2) ready by (auto simp: has_active_turn_def in_flight_def)
  then have "c \<notin> set old" by (auto simp: old_def stale_conversation_def)
  then have k1: "c_id c \<notin> c_id ` set old" "key \<notin> c_scope_key ` set old" using outside [OF sub(3)] by blast+
  have t2: "t \<in> set (turns db2)" using t1 t0(2) k1(1) by (simp add: db2_def delete_convs_eq)
  have "t \<notin> set dead" using kept by (auto simp: dead_def stale_turn_def kept_ready_def)
  then have alive: "u \<notin> set dead" if "t_conv u = c_id c" "t_id u = tid" for u
    using that t2 t0 same_turn [OF hist_inv_schema [OF i2], of u t] by (auto simp: dead_def split: if_splits)
  have t3: "t \<in> set (turns db3)" using t2 t0 alive by (force simp: db3_def delete_turns_eq)
  then have "c \<notin> set stubs" using t0(2) by (auto simp: stubs_def stale_stub_def)
  then have k3: "c_id c \<notin> c_id ` set stubs" "key \<notin> c_scope_key ` set stubs"
    using outside [of stubs] sub(1) by (auto simp: stubs_def split: if_splits)
  have "c \<in> set (convs db')" "t \<in> set (turns db')"
    using c0 t3 t0(2) k1 k3 by (simp_all add: db' delete_convs_eq db3_def delete_turns_eq db2_def db1_def expired_frame)
  then have "find_scope db' key = Some c" "find_turn db' (c_id c) tid = Some t"
    using find_scope_eq find_turn_eq hist_inv_schema [OF i'] c0(2) t0(2,3) by metis+
  moreover have "(key, tid) \<notin> set (cr_turns r)"
  proof
    assume "(key, tid) \<in> set (cr_turns r)"
    then obtain u where u: "u \<in> set dead" "t_id u = tid" "key = (case find_conv db2 (t_conv u) of None \<Rightarrow> '''' | Some c \<Rightarrow> c_scope_key c)"
      by (auto simp: r(2))
    then obtain d where d: "find_conv db2 (t_conv u) = Some d" by (auto simp: dead_def stale_turn_def split: if_splits)
    with u(3) have "c_scope_key d = key" "d \<in> set (convs db)" using sub(2) find_conv_Some [OF d] by auto
    then have "d = c" by (rule same_key [rotated])
    then have "t_conv u = c_id c" using find_conv_Some [OF d] by simp
    with u alive show False by blast
  qed
  ultimately show ?thesis using k1 k3 i' by (simp add: r(1))
qed

section \<open>The retry in the database\<close>

lemma associate_ok:
  assumes "schema_ok db" and "c \<in> set (convs db)"
  shows "\<exists>db'. associate_reservation_kbs (c_id c) kbs now db = Inr ((), db') \<and> same_core db db' \<and> schema_ok db'"
proof -
  have "\<exists>db'. associate_reservation_kbs (c_id c) kbs now db = Inr ((), db') \<and> convs db' = convs db"
    unfolding associate_reservation_kbs_def
    by (rule for_each_ok) (use assms(2) in \<open>auto simp: insert_or_ignore_ckb_def insert_ckb_def\<close>)
  with associate_frame [OF _ assms(1)] show ?thesis by blast
qed

lemma find_core: "same_core db db' \<Longrightarrow> find_turn db' i j = find_turn db i j"
  by (simp add: same_core_def find_turn_def)

lemma begin_turn_ready:
  assumes inv: "hist_inv db" and c: "find_scope db (b_scope_key req) = Some c" "c_status c = Active"
    and t: "find_turn db (c_id c) (b_turn_id req) = Some t" "t_fingerprint t = b_fingerprint req"
    and kept: "kept_ready cfg (d_now dr) t" and checks: "begin_checks req = Inr ()"
  shows "\<exists>db'. begin_turn cfg req dr db = (Inr (BReady (t_digest t) (t_lease t) (t_lease_expires t), c), db')"
proof -
  obtain r db1 where sw: "cleanup_expired_locked cfg (d_now dr) db = (r, db1)" by (cases "cleanup_expired_locked cfg (d_now dr) db")
  from sweep_keeps_ready [OF inv c(1) t(1) kept sw] have k: "find_scope db1 (b_scope_key req) = Some c"
    "find_turn db1 (c_id c) (b_turn_id req) = Some t" "hist_inv db1" by simp_all
  have cm: "c \<in> set (convs db1)" using find_scope_Some [OF k(1)] by simp
  obtain db2 where db2: "associate_reservation_kbs (c_id c) (b_kbs req) (d_now dr) db1 = Inr ((), db2)" "same_core db1 db2"
    using associate_ok [OF hist_inv_schema [OF k(3)] cm] by blast
  have "begin_turn_body cfg req dr db = Inr ((BReady (t_digest t) (t_lease t) (t_lease_expires t), c), db2)"
    using sw k c(2) t(2) kept db2 find_core [OF db2(2)]
    by (simp add: begin_turn_body_def Let_def enforce_quota_for_new_scope_def get_or_create_conversation_def
        handle_existing_turn_def kept_ready_def)
  then show ?thesis using checks by (simp add: begin_turn_def run_tx_def)
qed

section \<open>The staged entry\<close>

definition staged_at :: "pending_store \<Rightarrow> string \<Rightarrow> pending_entry \<Rightarrow> bool" where
  "staged_at s k e \<longleftrightarrow> pending_inv s \<and> od_get (ps_entries s) k = Some e"

lemma clear_scope_keeps:
  assumes "staged_at s (pending_key key tid lease) e" and "now < e_expires e"
    and "key' \<noteq> key" "unit_sep \<notin> set key" "unit_sep \<notin> set key'"
  shows "staged_at (snd (clear_scope now key' s)) (pending_key key tid lease) e"
proof -
  have "\<not> py_startswith (pending_key key tid lease) (key' @ [unit_sep])"
    using assms(3-5) prefix_parts [of key unit_sep "tid @ [unit_sep] @ lease" key']
    by (auto simp: py_startswith_iff pending_key_def turn_prefix_def)
  with assms(1,2) purge_keeps [of s "pending_key key tid lease" e now] show ?thesis
    by (auto simp: staged_at_def clear_scope_def Let_def remove_all_get clear_inv(2) [unfolded clear_scope_def Let_def]
        purge_inv remove_all_inv)
qed

lemma pending_delete_keeps:
  assumes "staged_at s (pending_key key tid lease) e" and "(key', tid') \<noteq> (key, tid)"
    and "unit_sep \<notin> set key" "unit_sep \<notin> set key'" "unit_sep \<notin> set tid" "unit_sep \<notin> set tid'"
  shows "staged_at (snd (pending_delete key' tid' s)) (pending_key key tid lease) e"
proof -
  have "\<not> py_startswith (pending_key key tid lease) (turn_prefix key' tid')"
  proof
    assume "py_startswith (pending_key key tid lease) (turn_prefix key' tid')"
    then obtain v where "key @ [unit_sep] @ (tid @ [unit_sep] @ lease) = key' @ [unit_sep] @ (tid' @ [unit_sep] @ v)"
      by (auto simp: py_startswith_iff pending_key_def turn_prefix_def)
    with prefix_parts [OF this assms(3,4)] prefix_parts [of tid unit_sep lease tid' v] assms(2,5,6) show False by auto
  qed
  with assms(1) show ?thesis
    by (auto simp: staged_at_def pending_delete_def Let_def remove_all_get remove_all_inv)
qed


section \<open>The retry in the service\<close>

text \<open>The separator of the keys of staged results occurs in no identifier of the database.\<close>

definition plain_ids :: "hdb \<Rightarrow> bool" where
  "plain_ids db \<longleftrightarrow> (\<forall>c \<in> set (convs db). unit_sep \<notin> set (c_scope_key c)) \<and> (\<forall>t \<in> set (turns db). unit_sep \<notin> set (t_id t))"

lemma sweep_reports:
  assumes "cleanup_expired_locked cfg now db = (r, db')" and "plain_ids db"
  shows "key \<in> set (cr_scope_keys r) \<Longrightarrow> unit_sep \<notin> set key"
    and "kt \<in> set (cr_turns r) \<Longrightarrow> unit_sep \<notin> set (fst kt) \<and> unit_sep \<notin> set (snd kt)"
proof -
  define db1 where "db1 = expire_leases now db"
  define old where "old = (if 0 < hc_retention_days cfg
    then filter (stale_conversation (now - real_of_int (hc_retention_days cfg * 86400)) db1) (convs db1) else [])"
  define db2 where "db2 = delete_convs old db1"
  define dead where "dead = (if 0 < hc_incomplete_days cfg
    then filter (stale_turn (now - real_of_int (hc_incomplete_days cfg * 86400)) db2) (turns db2) else [])"
  define db3 where "db3 = delete_turns dead db2"
  define stubs where "stubs = (if 0 < hc_incomplete_days cfg
    then filter (stale_stub (now - real_of_int (hc_incomplete_days cfg * 86400)) db3) (convs db3) else [])"
  note folded = db1_def [symmetric] old_def [symmetric] db2_def [symmetric] dead_def [symmetric] db3_def [symmetric] stubs_def [symmetric]
  have r: "cr_scope_keys r = map c_scope_key old @ map c_scope_key stubs"
      "cr_turns r = map (\<lambda>t. (case find_conv db2 (t_conv t) of None \<Rightarrow> '''' | Some c \<Rightarrow> c_scope_key c, t_id t)) dead"
    using assms(1) unfolding cleanup_expired_locked_def Let_def folded by auto
  have sub: "set old \<subseteq> set (convs db)" "set (convs db2) \<subseteq> set (convs db)" "set stubs \<subseteq> set (convs db)"
    by (auto simp: stubs_def db3_def delete_turns_eq db2_def delete_convs_eq db1_def expired_frame old_def)
  have ids: "t_id ` set (turns db1) = t_id ` set (turns db)" by (simp add: db1_def expire_leases_def image_upd_where)
  have "set dead \<subseteq> set (turns db1)" by (auto simp: dead_def db2_def delete_convs_eq)
  then have dead: "t_id t \<in> t_id ` set (turns db)" if "t \<in> set dead" for t using that ids by blast
  show "unit_sep \<notin> set key" if "key \<in> set (cr_scope_keys r)"
    using that sub assms(2) by (auto simp: r(1) plain_ids_def)
  show "unit_sep \<notin> set (fst kt) \<and> unit_sep \<notin> set (snd kt)" if kt: "kt \<in> set (cr_turns r)"
  proof -
    from kt obtain t where t: "t \<in> set dead" and
      e: "kt = (case find_conv db2 (t_conv t) of None \<Rightarrow> '''' | Some c \<Rightarrow> c_scope_key c, t_id t)" by (auto simp: r(2))
    have "unit_sep \<notin> set (t_id t)" using dead [OF t] assms(2) by (auto simp: plain_ids_def)
    moreover have "unit_sep \<notin> set (c_scope_key d)" if "find_conv db2 (t_conv t) = Some d" for d
      using find_conv_Some [OF that] sub(2) assms(2) by (auto simp: plain_ids_def)
    ultimately show ?thesis by (simp add: e split: option.split)
  qed
qed

lemma forget_scopes_keep:
  "(\<And>k. k \<in> set ks \<Longrightarrow> k \<noteq> key \<and> unit_sep \<notin> set k) \<Longrightarrow> unit_sep \<notin> set key \<Longrightarrow> now < e_expires e
    \<Longrightarrow> staged_at (sv_pending s) (pending_key key tid lease) e
    \<Longrightarrow> staged_at (sv_pending (fold (forget_scope now) ks s)) (pending_key key tid lease) e
      \<and> sv_hist (fold (forget_scope now) ks s) = sv_hist s \<and> sv_cfg (fold (forget_scope now) ks s) = sv_cfg s"
  by (induction ks arbitrary: s) (auto simp: forget_scope_def clear_scope_keeps)

lemma forget_turns_keep:
  "(\<And>kt. kt \<in> set kts \<Longrightarrow> kt \<noteq> (key, tid) \<and> unit_sep \<notin> set (fst kt) \<and> unit_sep \<notin> set (snd kt))
    \<Longrightarrow> unit_sep \<notin> set key \<Longrightarrow> unit_sep \<notin> set tid
    \<Longrightarrow> staged_at (sv_pending s) (pending_key key tid lease) e
    \<Longrightarrow> staged_at (sv_pending (fold forget_turn kts s)) (pending_key key tid lease) e
      \<and> sv_hist (fold forget_turn kts s) = sv_hist s \<and> sv_cfg (fold forget_turn kts s) = sv_cfg s"
  by (induction kts arbitrary: s) (auto simp: forget_turn_def pending_delete_keeps)

text \<open>What a successful staging leaves behind.\<close>

definition ready_row :: "time \<Rightarrow> string \<Rightarrow> turn_row \<Rightarrow> turn_row" where
  "ready_row now digest t = t\<lparr>t_status := Ready, t_digest := Some digest, t_updated := now\<rparr>"

lemma staging_leaves:
  assumes inv: "service_inv s" and stage: "sv_stage_result ck key tid lease (Some r) digest s = (True, s1)"
    and c: "find_scope (sv_hist s) key = Some c" and t: "get_turn_for_update (sv_hist s) key tid = Some t"
  obtains e where "staged_at (sv_pending s1) (pending_key key tid lease) e"
    "Some (e_payload e) = encode_payload lease digest (Some r) (ck 0)" "e_created e = ck 0"
    "e_expires e = ck 0 + real_of_int (effective_ttl (sv_pending s) None)"
    "key \<noteq> []" "tid \<noteq> []" "lease \<noteq> []" "sv_enabled s1" "sv_cfg s1 = sv_cfg s" "hist_inv (sv_hist s1)"
    "find_scope (sv_hist s1) key = Some c" "find_turn (sv_hist s1) (c_id c) tid = Some (ready_row (ck 1) digest t)" "t_lease t = Some lease"
    "convs (sv_hist s1) = convs (sv_hist s)" "t_id ` set (turns (sv_hist s1)) = t_id ` set (turns (sv_hist s))"
proof -
  obtain ps where put: "pending_put (ck 0) key tid lease digest (Some r) None (sv_pending s) = (True, ps)"
    and on: "sv_enabled s" "key \<noteq> []" "tid \<noteq> []" "lease \<noteq> []"
    using stage by (auto simp: sv_stage_result_def Let_def case_prod_unfold split: if_splits) (metis prod.collapse)
  obtain db where mark: "mark_turn_ready (ck 1) key tid lease digest (sv_hist s) = (Inr True, db)"
    and s1: "s1 = s\<lparr>sv_pending := ps, sv_hist := db\<rparr>"
    using stage put on by (auto simp: sv_stage_result_def Let_def case_prod_unfold split: if_splits) (metis prod.collapse)
  from mark have body: "mark_turn_ready_body (ck 1) key tid lease digest (sv_hist s) = Inr (True, db)"
    unfolding mark_turn_ready_def by (rule run_tx_commit)
  then obtain u where l: "t_lease t = Some lease" and upd: "update_turn (t_conv t) tid (ready_row (ck 1) digest) (sv_hist s) = Inr (u, db)"
    using t by (auto simp: mark_turn_ready_body_def bindE_eq_Inr ready_row_def [abs_def] split: if_splits)
  have id: "t_conv t = c_id c" "t_id t = tid" using get_turn_Some [OF t] c by auto
  have t1: "get_turn_for_update db key tid = Some (ready_row (ck 1) digest t)"
    by (rule get_turn_update [OF t upd]) (simp_all add: ready_row_def)
  have conv: "convs db = convs (sv_hist s)" "t_id ` set (turns db) = t_id ` set (turns (sv_hist s))"
  proof -
    have "db = (sv_hist s)\<lparr>turns := upd_where (\<lambda>u. t_conv u = t_conv t \<and> t_id u = tid) (ready_row (ck 1) digest) (turns (sv_hist s))\<rparr>"
      using upd by (simp add: update_turn_def Let_def split: if_splits)
    moreover have "t_id (ready_row (ck 1) digest u) = t_id u" for u by (simp add: ready_row_def)
    ultimately show "convs db = convs (sv_hist s)" "t_id ` set (turns db) = t_id ` set (turns (sv_hist s))"
      by (simp_all add: image_upd_where)
  qed
  then have c1: "find_scope db key = Some c" using c by (simp add: find_scope_def)
  from put obtain v size where v: "encode_payload lease digest (Some r) (ck 0) = Some v"
    and adm: "admit_entry (pending_key key tid lease) \<lparr>e_lease = lease, e_payload = v, e_created = ck 0,
        e_expires = ck 0 + real_of_int (effective_ttl (sv_pending s) None), e_size = size\<rparr> (purge_expired (ck 0) (sv_pending s)) = (True, ps)"
    by (auto simp: pending_put_def Let_def effective_ttl_def split: if_splits option.splits)
  then obtain e where e: "od_get (ps_entries ps) (pending_key key tid lease) = Some e" "e_payload e = v" "e_created e = ck 0"
    "e_expires e = ck 0 + real_of_int (effective_ttl (sv_pending s) None)"
    by (auto simp: admit_entry_def Let_def split: if_splits)
  have "pending_inv ps" using put_inv [of "sv_pending s" "ck 0" key tid lease digest "Some r" None] put inv by (simp add: service_inv_def)
  moreover have "hist_inv db" using mark_turn_ready_inv [of "sv_hist s" "ck 1" key tid lease digest] mark inv by (simp add: service_inv_def db_ok_def)
  ultimately show thesis
    using e v on s1 c1 t1 l conv by (intro that [of e]) (auto simp: staged_at_def get_turn_for_update_def)
qed


text \<open>
  Claim C3: A turn whose result was staged is answered from the staging area, never generated
  again: when the owner of the lease has staged a result, the same request, repeated before the
  result expires and before the retention of unfinished turns ends, gets that result with its
  digest and lease, whatever else the sweep at the beginning of the retry removes. The conversation
  is active, and no id contains the separator U+001F of the staging keys (the routes refuse such ids).
\<close>

theorem staged_turn_is_replayed:
  assumes inv: "service_inv s" and stage: "sv_stage_result ck key tid lease (Some r) digest s = (True, s1)"
    and c: "find_scope (sv_hist s) key = Some c" "c_status c = Active"
    and t: "get_turn_for_update (sv_hist s) key tid = Some t"
    and req: "b_scope_key req = key" "b_turn_id req = tid" "b_fingerprint req = t_fingerprint t" "begin_checks req = Inr ()"
    and ttl: "\<And>i. ck2 i < ck 0 + real_of_int (effective_ttl (sv_pending s) None)"
    and retention: "\<And>now. now \<in> {ck2 0, d_now dr} \<Longrightarrow> now - real_of_int (hc_incomplete_days (sv_cfg s) * 86400) \<le> ck 1"
    and plain: "plain_ids (sv_hist s)"
  shows "\<exists>expires s2. sv_begin_turn ck2 dr dr2 req recover s1 = (Inr (BtReady (Some lease) expires r digest c), s2)"
proof -
  obtain e where e: "staged_at (sv_pending s1) (pending_key key tid lease) e"
    "Some (e_payload e) = encode_payload lease digest (Some r) (ck 0)" "e_created e = ck 0"
    "e_expires e = ck 0 + real_of_int (effective_ttl (sv_pending s) None)"
    and on: "key \<noteq> []" "tid \<noteq> []" "lease \<noteq> []" "sv_enabled s1" "sv_cfg s1 = sv_cfg s"
    and db: "hist_inv (sv_hist s1)" "find_scope (sv_hist s1) key = Some c"
      "find_turn (sv_hist s1) (c_id c) tid = Some (ready_row (ck 1) digest t)" "t_lease t = Some lease"
    and same: "convs (sv_hist s1) = convs (sv_hist s)" "t_id ` set (turns (sv_hist s1)) = t_id ` set (turns (sv_hist s))"
    by (rule staging_leaves [OF inv stage c(1) t])
  let ?t = "ready_row (ck 1) digest t"
  have kept: "kept_ready (sv_cfg s) now ?t" if "now \<in> {ck2 0, d_now dr}" for now
    using retention [OF that] by (simp add: kept_ready_def ready_row_def)
  have plain1: "plain_ids (sv_hist s1)" using plain same unfolding plain_ids_def by (metis (no_types, lifting) image_iff)
  have sep: "unit_sep \<notin> set key" "unit_sep \<notin> set tid"
    using plain c(1) get_turn_Some [OF t] by (auto simp: plain_ids_def dest: find_scope_Some)
  obtain rep db1 where sweep: "cleanup_expired_locked (sv_cfg s) (ck2 0) (sv_hist s1) = (rep, db1)"
    by (cases "cleanup_expired_locked (sv_cfg s) (ck2 0) (sv_hist s1)")
  from sweep_keeps_ready [OF db(1-3) kept sweep] have k: "find_scope db1 key = Some c" "find_turn db1 (c_id c) tid = Some ?t"
    "hist_inv db1" "key \<notin> set (cr_scope_keys rep)" "(key, tid) \<notin> set (cr_turns rep)" by simp_all
  define s2 where "s2 = fold forget_turn (cr_turns rep) (fold (forget_scope (ck2 1)) (cr_scope_keys rep) (s1\<lparr>sv_hist := db1\<rparr>))"
  have clean: "snd (sv_cleanup_expired ck2 s1) = s2"
    using on sweep by (simp add: sv_cleanup_expired_def cleanup_expired_def run_tx_def s2_def)
  note reports = sweep_reports [OF sweep plain1]
  have st1: "staged_at (sv_pending (s1\<lparr>sv_hist := db1\<rparr>)) (pending_key key tid lease) e" using e(1) by simp
  have early: "ck2 1 < e_expires e" using ttl [of 1] e(4) by simp
  have f1: "staged_at (sv_pending (fold (forget_scope (ck2 1)) (cr_scope_keys rep) (s1\<lparr>sv_hist := db1\<rparr>))) (pending_key key tid lease) e
     \<and> sv_hist (fold (forget_scope (ck2 1)) (cr_scope_keys rep) (s1\<lparr>sv_hist := db1\<rparr>)) = db1
     \<and> sv_cfg (fold (forget_scope (ck2 1)) (cr_scope_keys rep) (s1\<lparr>sv_hist := db1\<rparr>)) = sv_cfg s"
    using forget_scopes_keep [OF _ sep(1) early st1, of "cr_scope_keys rep"] k(4) reports(1) on(5) by auto
  have f2: "staged_at (sv_pending s2) (pending_key key tid lease) e \<and> sv_hist s2 = db1 \<and> sv_cfg s2 = sv_cfg s"
    unfolding s2_def using forget_turns_keep [OF _ sep conjunct1 [OF f1], of "cr_turns rep"] k(5) reports(2) f1 by auto
  obtain db2 where began: "begin_turn (sv_cfg s) req dr db1 = (Inr (BReady (t_digest ?t) (t_lease ?t) (t_lease_expires ?t), c), db2)"
    using begin_turn_ready [OF k(3), of req c ?t "sv_cfg s" dr] k(1,2) c(2) req kept [of "d_now dr"] by (auto simp: ready_row_def)
  have "od_get (ps_entries (purge_expired (ck2 2) (sv_pending s2))) (pending_key key tid lease) = Some e"
    using purge_keeps [of "sv_pending s2" "pending_key key tid lease" e "ck2 2"] f2 ttl [of 2] e(4) by (simp add: staged_at_def)
  then have get: "pending_get (ck2 2) key tid (Some lease) (sv_pending s2) = (Some \<lparr>pr_scope = key, pr_turn = tid, pr_lease = lease,
      pr_digest = digest, pr_result = r, pr_created = ck 0\<rparr>, purge_expired (ck2 2) (sv_pending s2))"
    using on e(3) decode_encode [OF e(2) [symmetric], of _ key tid "ck 0"] by (simp add: pending_get_def Let_def)
  show ?thesis
    using on(4) began get f2 db(4) req
    by (simp add: sv_begin_turn_def clean Let_def replay_ready_def ready_row_def)
qed

definition demo_running :: service where
  "demo_running = \<lparr>sv_enabled = True, sv_cfg = demo_cfg, sv_hist = demo_db1,
     sv_pending = new_pending_store 60 1000 5000 (\<lambda>x. ''1.0''), sv_memory = new_mem_store 3 50 50 20 1 60 2\<rparr>"

lemma demo_running_inv: "service_inv demo_running"
proof -
  have "quota_inv demo_cfg demo_db1"
    using history_run [of demo_cfg "[EvBegin (demo_begin ''t1'' None) (demo_draws 100 ''L1'')]"] by (simp only: demo_run1)
  then show ?thesis
    using demo_inv1 by (simp add: service_inv_def demo_running_def db_ok_def pending_inv_new mem_inv_def new_mem_store_def)
qed

theorem staged_turn_is_replayed_witness:
  "\<exists>expires s2. sv_begin_turn (\<lambda>i. 150) (demo_draws 150 ''L2'') (demo_draws 150 ''L3'') (demo_begin ''t1'' None) False
      (snd (sv_stage_result (\<lambda>i. 120) ''s'' ''t1'' ''L1'' (Some (JStr ''answer'')) ''d'' demo_running))
    = (Inr (BtReady (Some ''L1'') expires (JStr ''answer'') ''d'' demo_conv), s2)"
proof -
  let ?out = "sv_stage_result (\<lambda>i. 120) ''s'' ''t1'' ''L1'' (Some (JStr ''answer'')) ''d'' demo_running"
  have "fst ?out = True" by code_simp
  then have stage: "?out = (True, snd ?out)" by (metis prod.collapse)
  have c: "find_scope (sv_hist demo_running) ''s'' = Some demo_conv" "c_status demo_conv = Active"
    and t: "get_turn_for_update (sv_hist demo_running) ''s'' ''t1'' = Some demo_turn"
    by (simp_all add: demo_running_def demo_defs find_scope_def get_turn_for_update_def find_turn_def)
  have req: "begin_checks (demo_begin ''t1'' None) = Inr ()" "b_scope_key (demo_begin ''t1'' None) = ''s''"
    "b_turn_id (demo_begin ''t1'' None) = ''t1''" "b_fingerprint (demo_begin ''t1'' None) = t_fingerprint demo_turn"
    by (simp_all add: begin_checks_def demo_defs guardE_def)
  have plain: "plain_ids (sv_hist demo_running)"
    by (simp add: plain_ids_def demo_running_def demo_defs unit_sep_def)
  have ttl: "(150 :: real) < 120 + real_of_int (effective_ttl (sv_pending demo_running) None)"
    by (simp add: effective_ttl_def demo_running_def new_pending_store_def)
  have retention: "now - real_of_int (hc_incomplete_days (sv_cfg demo_running) * 86400) \<le> 120"
    if "now \<in> {150, d_now (demo_draws 150 ''L2'')}" for now
    using that by (auto simp: demo_running_def demo_defs)
  show ?thesis
    by (rule staged_turn_is_replayed [OF demo_running_inv stage c t req(2-4,1)]) (use ttl retention plain in simp_all)
qed

end
