(* ===== verification/Service_Deletion.thy ===== *)
theory Service_Deletion
  imports Service_Sync Service_Replay
begin

text \<open>
  The properties of the conversation service: the equivalence of its streamed hydration with a
  pairing of the whole tail, and what a catch-up of the warm memory guarantees.
\<close>

section \<open>Hydration\<close>

text \<open>
  Claim C5: Reading the tail of a conversation page by page, forming turns message by message and
  folding a turn into the summary whenever more than the configured number are held, gives what
  the whole tail gives at once: the turns kept are the last ones of
  \<open>_messages_to_turns\<close> on all messages behind the summary, the summary is the earlier one
  extended by the other turns in order, and the cursor is the sequence of the last of these.
  The reading always ends.
\<close>

theorem streamed_tail_is_the_paired_tail:
  assumes inv: "hist_inv db" and c: "c \<in> set (convs db)" and ok: "list_all readable (conv_msgs db (c_id c))"
    and through: "0 \<le> c_summary_through c"
  shows "let ts = messages_to_turns (drop (nat (c_summary_through c)) (conv_msgs db (c_id c)));
             n = length ts - max 1 keep
         in \<exists>t. read_tail keep key c db = Inr t \<and> ta_recent t = drop n ts
              \<and> ta_summary t = fold compress (take n ts) (c_summary c)
              \<and> ta_through t = (if n = 0 then c_summary_through c else seq_of (last (take n ts)))"
proof -
  obtain p where "read_tail keep key c db = Inr ((tail_of (max 1 keep) (c_summary c) (c_summary_through c)
      (messages_to_turns (drop (nat (c_summary_through c)) (conv_msgs db (c_id c)))))\<lparr>ta_pending := p\<rparr>)"
    using read_tail_eq [OF assms] by blast
  then show ?thesis by (auto simp: Let_def tail_of_def kept_def evicted_def)
qed

lemma demo_readable: "list_all readable (conv_msgs demo_db2 ''h1'')"
  by (simp add: demo_defs conv_msgs_def readable_def)

theorem streamed_tail_is_the_paired_tail_witness:
  "\<exists>t. read_tail 3 ''s'' (hd (convs demo_db2)) demo_db2 = Inr t \<and> ta_through t = 0
     \<and> ta_recent t = [\<lparr>mt_user = ''hi'', mt_assistant = ''yo'', mt_seq = Some 2\<rparr>]"
proof -
  have c: "hd (convs demo_db2) \<in> set (convs demo_db2)" by (simp add: demo_defs)
  have "list_all readable (conv_msgs demo_db2 (c_id (hd (convs demo_db2))))" "0 \<le> c_summary_through (hd (convs demo_db2))"
    using demo_readable by (simp_all add: demo_defs)
  from streamed_tail_is_the_paired_tail [OF demo_inv2 c this, of 3 "''s''"] show ?thesis
    by (auto simp: Let_def demo_defs conv_msgs_def)
qed

section \<open>The catch-up before a prompt\<close>

lemma covers_needs_entry: "\<not> state_covers_sequence None n"
  by (simp add: state_covers_sequence_def)

lemma current_entry:
  assumes "warm \<noteq> []"
  shows "durable_state_is_current now warm n m = (state_covers_sequence (od_get (mm_convs (mem_purge now m)) warm) n, mem_purge now m)"
  using assms by (simp add: durable_state_is_current_def get_state_reads)

lemma purge_twice: "mem_purge now (mem_purge now m) = mem_purge now m"
proof -
  have "filter (\<lambda>(i, s). mm_ttl m < now - ms_updated s) (mm_convs (mem_purge now m)) = []"
    unfolding mem_purge_def od_pop_all_filter by (force simp: filter_empty_conv)
  then show ?thesis by (simp add: mem_purge_def [of now "mem_purge now m"]) (simp add: od_pop_all_filter)
qed

text \<open>
  Claim C4: a catch-up restores the warm memory. In a service with the invariant of its runs, for a
  conversation whose stored metadata can be read and whose summary ends at a whole turn within the
  transcript, and a memory that holds at least one conversation and has not seen more of this one
  than the database: after a catch-up that no other worker interferes with, the warm memory stands
  for every message committed to the durable history, each assistant message being covered by its
  summary or present among its turns, and knows every knowledge base of the conversation; whether
  the memory was current, had fallen behind, had lost turns in between, or was absent. The
  transcript is unchanged, and the conditions on summary and memory hold again.
\<close>

theorem catch_up_covers_the_transcript:
  assumes service: "service_inv s" and c: "find_scope (sv_hist s) key = Some c" and w: "whole_turns c"
    and ok: "list_all readable (conv_msgs (sv_hist s) (c_id c))"
    and room: "1 \<le> mm_max_items (sv_memory s)" "not_ahead (sv_memory s) warm (c_message_count c)"
    and en: "sv_enabled s" "warm \<noteq> []"
  shows "let s' = snd (sync_for_prompt quiet now ck key warm s)
         in \<exists>st c'. od_get (mm_convs (sv_memory s')) warm = Some st \<and> state_covers_sequence (Some st) (c_message_count c)
              \<and> set (durable_kbs (sv_hist s) c) \<subseteq> ms_kbs st \<and> msgs (sv_hist s') = msgs (sv_hist s)
              \<and> find_scope (sv_hist s') key = Some c' \<and> c_message_count c' = c_message_count c \<and> whole_turns c'
              \<and> not_ahead (sv_memory s') warm (c_message_count c)"
proof -
  have inv: "hist_inv (sv_hist s)" and mem: "mem_inv (sv_memory s)"
    using service by (simp_all add: service_inv_def db_ok_def)
  let ?m = "mem_purge now (sv_memory s)"
  define cur where "cur = state_covers_sequence (od_get (mm_convs ?m) warm) (c_message_count c)"
  have cur: "durable_state_is_current now warm (c_message_count c) (sv_memory s) = (cur, ?m)"
    unfolding cur_def by (rule current_entry [OF en(2)])
  define kbs where "kbs = (case od_get (mm_convs ?m) warm of None \<Rightarrow> {} | Some st \<Rightarrow> ms_kbs st)"
  have kbs: "mem_knowledge_base_ids now warm ?m = (kbs, ?m)"
    using en(2) by (simp add: mem_knowledge_base_ids_def get_state_reads purge_twice kbs_def)
  have scope: "get_by_scope_key (sv_hist s) key = Some (c, load_knowledge_bases (sv_hist s) (c_id c))"
    using c by (simp add: get_by_scope_key_def)
  define s1 where "s1 = s\<lparr>sv_memory := ?m\<rparr>"
  show ?thesis
  proof (cases "cur \<and> set (durable_kbs (sv_hist s) c) \<subseteq> kbs")
    case True
    then have "snd (sync_for_prompt quiet now ck key warm s) = s1"
      using en scope cur kbs by (simp add: sync_for_prompt_def durable_kbs_def s1_def)
    moreover obtain st where st: "od_get (mm_convs ?m) warm = Some st"
      using True covers_needs_entry unfolding cur_def by (cases "od_get (mm_convs ?m) warm") auto
    moreover have "state_covers_sequence (Some st) (c_message_count c)" "kbs = ms_kbs st"
      using True st by (simp_all add: cur_def kbs_def)
    ultimately show ?thesis using True c w not_ahead_purge [OF room(2)] by (auto simp: Let_def s1_def)
  next
    case False
    then have sync: "sync_for_prompt quiet now ck key warm s = rehydrate_for_prompt quiet ck key warm s1"
      using en scope cur kbs by (auto simp: sync_for_prompt_def durable_kbs_def s1_def Let_def)
    have mem1: "mem_inv (sv_memory s1)" "1 \<le> mm_max_items (sv_memory s1)" "not_ahead (sv_memory s1) warm (c_message_count c)"
      using purge_inv_mem [OF mem] room(1) not_ahead_purge [OF room(2)] by (simp_all add: s1_def)
    obtain s' st where att: "hydrate_attempt (quiet 0) (ck 0) True key warm s1 = (Some True, s')"
      and st: "od_get (mm_convs (sv_memory s')) warm = Some st" "ms_kbs st = set (durable_kbs (sv_hist s1) c)"
        "state_covers_sequence (Some st) (c_message_count c)" "msgs (sv_hist s') = msgs (sv_hist s1)"
      and row: "\<exists>c'. find_scope (sv_hist s') key = Some c' \<and> c_id c' = c_id c \<and> c_message_count c' = c_message_count c
       \<and> c_summary_through c' = ms_through st \<and> ms_summary st = clamp_text (c_summary c') (mm_summary_max (sv_memory s1))"
      and bounds: "even (ms_through st) \<and> 0 \<le> ms_through st \<and> conversation_state_sequence st = c_message_count c
       \<and> ms_through st \<le> c_message_count c"
      by (rule attempt_restores [of s1 key c warm 0 "ck 0"]) (use inv c w ok mem1 en in \<open>simp_all add: s1_def\<close>)
    have "rehydrate_for_prompt quiet ck key warm s1 = (True, s')"
      by (simp add: rehydrate_for_prompt_def upt_rec [of 0] att)
    moreover have "not_ahead (sv_memory s') warm (c_message_count c)" using st(1) bounds by (simp add: not_ahead_def)
    moreover obtain c' where "find_scope (sv_hist s') key = Some c'" "c_message_count c' = c_message_count c" "whole_turns c'"
      using row bounds by (auto simp: whole_turns_def)
    ultimately show ?thesis using sync st by (auto simp: Let_def s1_def)
  qed
qed

definition demo_service :: service where
  "demo_service = \<lparr>sv_enabled = True, sv_cfg = demo_cfg, sv_hist = demo_db2,
     sv_pending = new_pending_store 60 1000 5000 (\<lambda>x. ''1.0''), sv_memory = new_mem_store 3 50 50 20 1 60 2\<rparr>"

text \<open>The same service with a memory of the conversation that has none of its turns.\<close>

definition behind_service :: service where
  "behind_service = demo_service\<lparr>sv_memory := (new_mem_store 3 50 50 20 1 60 2)
     \<lparr>mm_convs := [(''w'', \<lparr>ms_summary = [], ms_through = 0, ms_turns = [], ms_kbs = {}, ms_created = 250, ms_updated = 290,
        ms_version = 0\<rparr>)]\<rparr>\<rparr>"

lemma demo_quota: "quota_inv demo_cfg demo_db2"
  unfolding quota_inv_def by (simp add: demo_defs within_quotas_def quota_key_def pending_count_def)

lemma demo_service_ok: "service_inv demo_service" "service_inv behind_service"
  using demo_inv2 demo_quota by (simp_all add: behind_service_def demo_service_def service_inv_def db_ok_def pending_inv_new
      mem_inv_def state_ok_def new_mem_store_def)

theorem catch_up_covers_the_transcript_witness:
  "(\<exists>st. od_get (mm_convs (sv_memory (snd (sync_for_prompt quiet 300 (\<lambda>i k. 301) ''s'' ''w'' demo_service)))) ''w'' = Some st
     \<and> state_covers_sequence (Some st) 2 \<and> {''kb1''} \<subseteq> ms_kbs st)
   \<and> (\<exists>st. od_get (mm_convs (sv_memory (snd (sync_for_prompt quiet 300 (\<lambda>i k. 301) ''s'' ''w'' behind_service)))) ''w'' = Some st
     \<and> state_covers_sequence (Some st) 2 \<and> {''kb1''} \<subseteq> ms_kbs st)
   \<and> \<not> state_covers_sequence (od_get (mm_convs (sv_memory behind_service)) ''w'') 2"
proof -
  let ?c = "hd (convs demo_db2)"
  have facts: "sv_hist demo_service = demo_db2" "sv_hist behind_service = demo_db2" "find_scope demo_db2 ''s'' = Some ?c"
    "whole_turns ?c" "list_all readable (conv_msgs demo_db2 (c_id ?c))" "c_message_count ?c = 2" "durable_kbs demo_db2 ?c = [''kb1'']"
    using demo_readable
    by (simp_all add: behind_service_def demo_service_def demo_defs find_scope_def whole_turns_def durable_kbs_def load_knowledge_bases_def)
  have mem: "1 \<le> mm_max_items (sv_memory x) \<and> not_ahead (sv_memory x) ''w'' 2 \<and> sv_enabled x"
    if "x = demo_service \<or> x = behind_service" for x
    using that by (auto simp: behind_service_def demo_service_def new_mem_store_def not_ahead_def conversation_state_sequence_def
        durable_state_sequence_def)
  have "\<exists>st. od_get (mm_convs (sv_memory (snd (sync_for_prompt quiet 300 (\<lambda>i k. 301) ''s'' ''w'' x)))) ''w'' = Some st
     \<and> state_covers_sequence (Some st) 2 \<and> {''kb1''} \<subseteq> ms_kbs st" if x: "x = demo_service \<or> x = behind_service" for x
    using catch_up_covers_the_transcript [of x "''s''" ?c "''w''" 300 "\<lambda>i k. 301"] x demo_service_ok facts mem [OF x]
    by (auto simp: Let_def)
  moreover have "\<not> state_covers_sequence (od_get (mm_convs (sv_memory behind_service)) ''w'') 2"
    by (simp add: behind_service_def demo_service_def state_covers_sequence_def Let_def upt_rec)
  ultimately show ?thesis by blast
qed

text \<open>
  The invariant of every run of the conversation service, and what remains of a conversation
  after its deletion: nothing, in any of the three stores.
\<close>

section \<open>Runs\<close>

text \<open>
  Claim C7: After any sequence of calls of the conversation service, with other workers acting in
  the middle of its hydrations in any way that keeps the stores sound themselves, the database is
  linear and within its quotas, the byte account of the staged results is exact, and the memory is
  bounded with its turns in order: no call hands the memory turns out of order or overdraws a
  store.
\<close>

theorem service_runs_stay_sound:
  assumes "conversations.admissible (fresh_service cfg (new_pending_store ttl mp mt fr)
      (new_mem_store threshold prompt retrieval summary keep mttl items)) evs"
  shows "let s = run_machine service_step (fresh_service cfg (new_pending_store ttl mp mt fr)
             (new_mem_store threshold prompt retrieval summary keep mttl items)) evs
         in hist_inv (sv_hist s) \<and> quota_inv (sv_cfg s) (sv_hist s) \<and> pending_inv (sv_pending s) \<and> mem_inv (sv_memory s)"
  using conversations.run_inv [OF fresh_service_inv assms] by (simp add: Let_def service_inv_def db_ok_def)

theorem service_runs_stay_sound_witness:
  "mem_inv (sv_memory (run_machine service_step (fresh_service demo_cfg (new_pending_store 60 1000 5000 (\<lambda>x. ''1.0''))
     (new_mem_store 3 50 50 20 1 60 2))
     [SvBegin (\<lambda>i. 100) (demo_draws 100 ''L1'') (demo_draws 100 ''L9'') (demo_begin ''t1'' None) False,
      SvComplete quiet (\<lambda>i k. 200) (\<lambda>i. 200) None None (demo_complete ''t1'' ''L1'') ''w'' [],
      SvSync quiet 300 (\<lambda>i k. 301) ''s'' ''w'']))"
proof -
  let ?s = "fresh_service demo_cfg (new_pending_store 60 1000 5000 (\<lambda>x. ''1.0'')) (new_mem_store 3 50 50 20 1 60 2)"
  have "harmless quiet" by (simp add: harmless_def quiet_def)
  then have "conversations.admissible ?s
     [SvBegin (\<lambda>i. 100) (demo_draws 100 ''L1'') (demo_draws 100 ''L9'') (demo_begin ''t1'' None) False,
      SvComplete quiet (\<lambda>i k. 200) (\<lambda>i. 200) None None (demo_complete ''t1'' ''L1'') ''w'' [],
      SvSync quiet 300 (\<lambda>i k. 301) ''s'' ''w'']" by simp
  from service_runs_stay_sound [OF this] show ?thesis by (simp add: Let_def)
qed

section \<open>Deletion\<close>

lemma clear_scope_removes: "od_get (ps_entries (snd (clear_scope now key s))) (pending_key key tid lease) = None" if "key \<noteq> []"
proof -
  let ?s = "purge_expired now s" and ?k = "pending_key key tid lease"
  have p: "py_startswith ?k (key @ [unit_sep])" by (simp add: pending_key_def turn_prefix_def py_startswith_iff)
  show ?thesis
  proof (cases "od_get (ps_entries ?s) ?k")
    case None
    with that show ?thesis by (simp add: clear_scope_def Let_def remove_all_get)
  next
    case (Some e)
    then have "?k \<in> set (map fst (ps_entries ?s))" by (force dest: od_get_Some_mem)
    with that p show ?thesis by (simp add: clear_scope_def Let_def remove_all_get)
  qed
qed

lemma delete_conv_gone:
  "find_conv (delete_conv hid db) hid = None \<and> conv_turns (delete_conv hid db) hid = [] \<and> conv_msgs (delete_conv hid db) hid = []
    \<and> load_knowledge_bases (delete_conv hid db) hid = []"
  by (auto simp: delete_conv_def find_conv_None conv_turns_def conv_msgs_def load_knowledge_bases_def filter_empty_conv)

lemma no_trace_outbox:
  "find_conv (db\<lparr>outbox := os\<rparr>) hid = find_conv db hid" "conv_turns (db\<lparr>outbox := os\<rparr>) hid = conv_turns db hid"
  "conv_msgs (db\<lparr>outbox := os\<rparr>) hid = conv_msgs db hid" "load_knowledge_bases (db\<lparr>outbox := os\<rparr>) hid = load_knowledge_bases db hid"
  by (simp_all add: find_conv_def conv_turns_def conv_msgs_def load_knowledge_bases_def)

definition no_trace ::
  "hdb \<Rightarrow> string \<Rightarrow> bool" where
  "no_trace db hid \<longleftrightarrow> find_conv db hid = None \<and> conv_turns db hid = [] \<and> conv_msgs db hid = [] \<and> load_knowledge_bases db hid = []"

text \<open>
  Claim C6: A conversation that was deleted leaves nothing behind in any of the stores, with or
  without removal of its files: when the call returns true for an existing conversation, its row,
  turns, messages and knowledge bases are gone from the database, its warm memory is gone, and no
  staged result of any of its turns can be read. When the removal of the files fails, the same
  holds and the call raises, and the outbox row of the conversation can be read back and names
  exactly the files that only this conversation uses, as planned from the database before the deletion.
\<close>

theorem deletion_leaves_no_trace:
  assumes call: "sv_delete_conversation unlink files ck hid s = (res, s')" and en: "sv_enabled s"
    and c: "find_conv (sv_hist s) hid = Some c" and key: "c_scope_key c \<noteq> []"
    and res: "res = Inr True \<or> res = Inl (HistoryError ''conversation_artifact_cleanup_failed'')"
  shows "no_trace (sv_hist s') hid \<and> od_get (mm_convs (sv_memory s')) (c_scope_key c) = None
    \<and> od_get (ps_entries (sv_pending s')) (pending_key (c_scope_key c) tid lease) = None
    \<and> (res \<noteq> Inr True \<longrightarrow> (\<exists>plan row. artifact_cleanup_plan_locked (sv_cfg s) (sv_hist s) [hid] = Inr plan
        \<and> find (\<lambda>r. o_key r = conversation_cleanup_key hid) (outbox (sv_hist s')) = Some row
        \<and> decode_references (o_refs row) = Inr (p_exclusive plan)))"
proof -
  let ?s1 = "forget_scope (ck 0) (c_scope_key c) s"
  have volatile: "od_get (mm_convs (sv_memory ?s1)) (c_scope_key c) = None"
    "od_get (ps_entries (sv_pending ?s1)) (pending_key (c_scope_key c) tid lease) = None"
    using key clear_scope_removes [OF key, of "ck 0" "sv_pending s" tid lease] by (simp_all add: forget_scope_def mem_clear_def)
  have hist: "sv_hist ?s1 = sv_hist s" "sv_cfg ?s1 = sv_cfg s" by (simp_all add: forget_scope_def)
  show ?thesis
  proof (cases files)
    case False
    then have "s' = ?s1\<lparr>sv_hist := delete_conv hid (sv_hist s)\<rparr>" "res = Inr True"
      using call en c key by (auto simp: sv_delete_conversation_def Let_def hist delete_history_def)
    with volatile delete_conv_gone [of hid "sv_hist s"] show ?thesis by (simp add: no_trace_def)
  next
    case True
    obtain r db where del: "delete_with_artifact_cleanup (sv_cfg ?s1) (ck 1) hid (sv_hist s) = (r, db)"
      by (cases "delete_with_artifact_cleanup (sv_cfg ?s1) (ck 1) hid (sv_hist s)")
    show ?thesis
    proof (cases r)
      case (Inl e)
      then have "res = Inl e" using call en c key True del by (simp add: sv_delete_conversation_def Let_def hist)
      moreover have "\<exists>x. e = Raised x"
        using del Inl c by (auto simp: delete_with_artifact_cleanup_def run_tx_def delete_with_artifact_cleanup_body_def
            artifact_cleanup_plan_locked_def Let_def bindE_eq_Inl split: sum.splits if_splits)
      ultimately show ?thesis using res by auto
    next
      case (Inr x)
      obtain plan where plan: "artifact_cleanup_plan_locked (sv_cfg ?s1) (sv_hist s) [hid] = Inr plan" "x = (True, plan)"
        and db: "db = delete_conv hid (if p_safe plan
            then stage_artifact_cleanup (ck 1) (conversation_cleanup_key hid) (p_exclusive plan) (sv_hist s) else sv_hist s)"
        using del Inr c by (auto simp: delete_with_artifact_cleanup_def delete_with_artifact_cleanup_body_def
            Let_def bindE_eq_Inr dest!: run_tx_commit)
      have gone: "no_trace db hid" "no_trace (db\<lparr>outbox := os\<rparr>) hid" for os
        using delete_conv_gone by (simp_all add: no_trace_def db no_trace_outbox)
      have staged: "\<exists>row. find (\<lambda>r. o_key r = conversation_cleanup_key hid) (outbox db) = Some row
          \<and> decode_references (o_refs row) = Inr (p_exclusive plan)" if "p_safe plan"
        using that staged_row [of "conversation_cleanup_key hid" "ck 1" "p_exclusive plan" "sv_hist s"]
          decode_encoded [OF plan_finite [OF plan(1)]] by (auto simp: db delete_conv_def)
      show ?thesis
        using call en c key True del Inr plan res gone staged volatile
        by (auto simp: sv_delete_conversation_def Let_def hist complete_artifact_cleanup_def conversation_cleanup_key_def split: if_splits)
    qed
  qed
qed


text \<open>The conversation owns an image; its file cannot be removed.\<close>

definition owner_service :: service where
  "owner_service = demo_service\<lparr>sv_hist := demo_owner\<rparr>"

theorem deletion_leaves_no_trace_witness:
  "let out = sv_delete_conversation (\<lambda>r. False) True (\<lambda>i. 400) ''h1'' owner_service
   in fst out = Inl (HistoryError ''conversation_artifact_cleanup_failed'') \<and> no_trace (sv_hist (snd out)) ''h1''
     \<and> (\<exists>row. find (\<lambda>r. o_key r = ''conversation:h1'') (outbox (sv_hist (snd out))) = Some row
         \<and> decode_references (o_refs row) = Inr \<lparr>r_attachments = {}, r_images = {demo_image}, r_runs = {''0123456789ab''}\<rparr>)"
proof -
  let ?out = "sv_delete_conversation (\<lambda>r. False) True (\<lambda>i. 400) ''h1'' owner_service"
  have res: "fst ?out = Inl (HistoryError ''conversation_artifact_cleanup_failed'')"
    by code_simp
  have call: "?out = (fst ?out, snd ?out)" by simp
  have c: "find_conv (sv_hist owner_service) ''h1'' = Some (hd (convs demo_db2))" "c_scope_key (hd (convs demo_db2)) \<noteq> []"
    and en: "sv_enabled owner_service"
    by (simp_all add: owner_service_def demo_owner_def demo_service_def demo_defs find_conv_def)
  have "artifact_cleanup_plan_locked (sv_cfg owner_service) (sv_hist owner_service) [''h1''] = Inr plan \<Longrightarrow>
      p_exclusive plan = \<lparr>r_attachments = {}, r_images = {demo_image}, r_runs = {''0123456789ab''}\<rparr>" for plan
    using owner_plan by (auto simp: owner_service_def demo_service_def Let_def)
  then show ?thesis
    using deletion_leaves_no_trace [OF call en c disjI2 [OF res]] res
    by (fastforce simp: Let_def conversation_cleanup_key_def)
qed

end
