(* ===== verification/Bytes.thy ===== *)
theory Bytes
  imports Prelude "HOL-Library.Word"
begin

text \<open>
  Bytes and the two encodings of texts the secret store uses: UTF-8 of the modelled characters
  (code points below 256) and base64. A byte is an 8-bit word; the encodings are written on the
  byte_codes of the bytes.
\<close>

type_synonym byte = "8 word"

definition byte_value :: "nat \<Rightarrow> bool" where
  "byte_value n \<longleftrightarrow> n < 256"

definition byte_codes :: "byte list \<Rightarrow> nat list" where
  "byte_codes = map unat"

definition bytes_of :: "nat list \<Rightarrow> byte list" where
  "bytes_of = map word_of_nat"

lemma codes_bound: "list_all byte_value (byte_codes bs)"
proof (induction bs)
  case (Cons b bs)
  have "unat b < 256" using unsigned_less [of b] by simp
  with Cons show ?case by (simp add: byte_codes_def byte_value_def)
qed (simp add: byte_codes_def)

lemma bytes_of_codes [simp]: "bytes_of (byte_codes bs) = bs"
  by (induction bs) (simp_all add: byte_codes_def bytes_of_def)

lemma byte_codes_of: "list_all byte_value ns \<Longrightarrow> byte_codes (bytes_of ns) = ns"
  by (induction ns) (simp_all add: byte_codes_def bytes_of_def byte_value_def unat_of_nat)

lemma length_bytes_of [simp]: "length (bytes_of ns) = length ns"
  by (simp add: bytes_of_def)

section \<open>UTF-8\<close>

definition utf8_char :: "char \<Rightarrow> nat list" where
  "utf8_char c = (let n = of_char c :: nat in if n < 128 then [n] else [192 + n div 64, 128 + n mod 64])"

definition utf8_values :: "string \<Rightarrow> nat list" where
  "utf8_values s = concat (map utf8_char s)"

definition utf8_encode :: "string \<Rightarrow> byte list" where
  "utf8_encode s = bytes_of (utf8_values s)"

text \<open>\<open>None\<close>: not the encoding of a text of the model.\<close>

fun utf8_read :: "nat list \<Rightarrow> string option" where
  "utf8_read [] = Some []"
| "utf8_read [n] = (if n < 128 then Some [char_of n] else None)"
| "utf8_read (n # m # ns) =
     (if n < 128 then map_option ((#) (char_of n)) (utf8_read (m # ns))
      else if (n = 194 \<or> n = 195) \<and> 128 \<le> m \<and> m < 192
      then map_option ((#) (char_of ((n - 192) * 64 + (m - 128)))) (utf8_read ns)
      else None)"

definition utf8_decode :: "byte list \<Rightarrow> string option" where
  "utf8_decode bs = utf8_read (byte_codes bs)"

lemma char_code: "(of_char c :: nat) < 256"
  by (metis of_char_of nat_of_char_less_256)

lemma two_byte_code:
  fixes n :: nat
  assumes "n < 256"
  shows "\<not> n < 128 \<Longrightarrow> n div 64 = 2 \<or> n div 64 = 3" and "192 + n div 64 < 256" and "128 + n mod 64 < 256"
proof -
  have "n div 64 < 4" using assms by (intro less_mult_imp_div_less) simp
  moreover have "2 \<le> n div 64" if "\<not> n < 128" using div_le_mono [of 128 n 64] that by simp
  ultimately show "\<not> n < 128 \<Longrightarrow> n div 64 = 2 \<or> n div 64 = 3" "192 + n div 64 < 256" by linarith+
  have "n mod 64 < 64" by simp
  then show "128 + n mod 64 < 256" by linarith
qed

lemma utf8_read_char: "utf8_read (utf8_char c @ ns) = map_option ((#) c) (utf8_read ns)"
proof (cases "(of_char c :: nat) < 128")
  case True
  then show ?thesis by (cases ns) (simp_all add: utf8_char_def)
next
  case False
  let ?n = "of_char c :: nat"
  have "?n div 64 = 2 \<or> ?n div 64 = 3" using False two_byte_code(1) [OF char_code] by blast
  moreover have "?n div 64 * 64 + ?n mod 64 = ?n" by simp
  moreover have "?n mod 64 < 64" by simp
  ultimately show ?thesis using False by (auto simp: utf8_char_def Let_def)
qed

lemma utf8_codes_bound: "list_all byte_value (utf8_values s)"
proof (induction s)
  case (Cons c s)
  have "192 + (of_char c :: nat) div 64 < 256" "128 + (of_char c :: nat) mod 64 < 256"
    using two_byte_code(2,3) [OF char_code] .
  with Cons char_code [of c] show ?case by (simp add: utf8_values_def utf8_char_def Let_def byte_value_def)
qed (simp add: utf8_values_def)

lemma utf8_round_trip: "utf8_decode (utf8_encode s) = Some s"
proof -
  have "utf8_read (utf8_values s) = Some s"
    by (induction s) (simp_all add: utf8_values_def utf8_read_char)
  then show ?thesis by (simp add: utf8_decode_def utf8_encode_def byte_codes_of utf8_codes_bound)
qed

section \<open>Base64\<close>

definition b64_char :: "nat \<Rightarrow> char" where
  "b64_char n = (if n < 26 then char_of (65 + n)
     else if n < 52 then char_of (71 + n)
     else if n < 62 then char_of (n - 4)
     else if n = 62 then CHR ''+'' else CHR ''/'')"

definition b64_value :: "char \<Rightarrow> nat option" where
  "b64_value c = (let n = of_char c :: nat in
     if 65 \<le> n \<and> n \<le> 90 then Some (n - 65)
     else if 97 \<le> n \<and> n \<le> 122 then Some (n - 71)
     else if 48 \<le> n \<and> n \<le> 57 then Some (n + 4)
     else if n = 43 then Some 62 else if n = 47 then Some 63 else None)"

text \<open>Three bytes are four groups of six bits; a final group is padded.\<close>

fun b64_write :: "nat list \<Rightarrow> string" where
  "b64_write [] = []"
| "b64_write [a] = [b64_char (a div 4), b64_char (a mod 4 * 16), CHR ''='', CHR ''='']"
| "b64_write [a, b] = [b64_char (a div 4), b64_char (a mod 4 * 16 + b div 16), b64_char (b mod 16 * 4), CHR ''='']"
| "b64_write (a # b # c # ns) =
     [b64_char (a div 4), b64_char (a mod 4 * 16 + b div 16), b64_char (b mod 16 * 4 + c div 64), b64_char (c mod 64)]
     @ b64_write ns"

text \<open>
  \<open>binascii.a2b_base64\<close> in its lenient mode: characters outside the alphabet are skipped, padding
  that completes a group ends the text. The arguments are the position in the group of four, the
  bits carried over, and the padding seen. \<open>None\<close>: an incomplete group.
\<close>

fun b64_read :: "nat \<Rightarrow> nat \<Rightarrow> nat \<Rightarrow> string \<Rightarrow> nat list option" where
  "b64_read quad left pads [] = (if quad = 0 then Some [] else None)"
| "b64_read quad left pads (c # s) =
     (if c = CHR ''=''
      then (if 2 \<le> quad then (if 4 \<le> quad + (pads + 1) then Some [] else b64_read quad left (pads + 1) s)
            else b64_read quad left pads s)
      else case b64_value c of
             None \<Rightarrow> b64_read quad left pads s
           | Some v \<Rightarrow>
               if quad = 0 then b64_read 1 v 0 s
               else if quad = 1 then map_option ((#) (left * 4 + v div 16)) (b64_read 2 (v mod 16) 0 s)
               else if quad = 2 then map_option ((#) (left * 16 + v div 4)) (b64_read 3 (v mod 4) 0 s)
               else map_option ((#) (left * 64 + v)) (b64_read 0 0 0 s))"

definition b64_encode :: "byte list \<Rightarrow> string" where
  "b64_encode bs = b64_write (byte_codes bs)"

text \<open>\<open>base64.b64decode(text)\<close>: a text that is not ASCII raises as well.\<close>

definition b64_decode :: "string \<Rightarrow> byte list option" where
  "b64_decode s = (if \<exists>c \<in> set s. 128 \<le> (of_char c :: nat) then None else map_option bytes_of (b64_read 0 0 0 s))"

lemma b64_value_char: "n < 64 \<Longrightarrow> b64_value (b64_char n) = Some n"
proof -
  assume "n < 64"
  then consider "n < 26" | "26 \<le> n" "n < 52" | "52 \<le> n" "n < 62" | "n = 62" | "n = 63" by linarith
  then show ?thesis by cases (auto simp: b64_value_def b64_char_def Let_def)
qed

lemma b64_char_not_pad: "n < 64 \<Longrightarrow> b64_char n \<noteq> CHR ''=''"
proof -
  assume "n < 64"
  then have "b64_value (b64_char n) \<noteq> None" by (simp add: b64_value_char)
  moreover have "b64_value CHR ''='' = None" by (simp add: b64_value_def)
  ultimately show ?thesis by metis
qed

lemma sextets:
  fixes a b c :: nat
  assumes "a < 256" "b < 256" "c < 256"
  shows "a div 4 < 64" "a mod 4 * 16 + b div 16 < 64" "b mod 16 * 4 + c div 64 < 64" "c mod 64 < 64"
    "a mod 4 * 16 < 64" "b mod 16 * 4 < 64"
    "a div 4 * 4 + (a mod 4 * 16 + b div 16) div 16 = a"
    "(a mod 4 * 16 + b div 16) mod 16 * 16 + (b mod 16 * 4 + c div 64) div 4 = b"
    "(b mod 16 * 4 + c div 64) mod 4 * 64 + c mod 64 = c"
    "a div 4 * 4 + (a mod 4 * 16) div 16 = a" "(a mod 4 * 16 + b div 16) mod 16 * 16 + (b mod 16 * 4) div 4 = b"
proof -
  have q: "a div 4 < 64" "b div 16 < 16" "c div 64 < 4" using assms by (auto intro!: less_mult_imp_div_less)
  have r: "a mod 4 < 4" "b mod 16 < 16" "c mod 64 < 64" by simp_all
  show "a div 4 < 64" by (rule q)
  show "a mod 4 * 16 + b div 16 < 64" "b mod 16 * 4 + c div 64 < 64" "c mod 64 < 64" "a mod 4 * 16 < 64" "b mod 16 * 4 < 64"
    using q r by linarith+
  have hi: "(a mod 4 * 16 + b div 16) div 16 = a mod 4" "(b mod 16 * 4 + c div 64) div 4 = b mod 16"
    and lo: "(a mod 4 * 16 + b div 16) mod 16 = b div 16" "(b mod 16 * 4 + c div 64) mod 4 = c div 64"
    using q by simp_all
  show "a div 4 * 4 + (a mod 4 * 16 + b div 16) div 16 = a"
    "(a mod 4 * 16 + b div 16) mod 16 * 16 + (b mod 16 * 4 + c div 64) div 4 = b"
    "(b mod 16 * 4 + c div 64) mod 4 * 64 + c mod 64 = c"
    unfolding hi lo by simp_all
  show "a div 4 * 4 + (a mod 4 * 16) div 16 = a" "(a mod 4 * 16 + b div 16) mod 16 * 16 + (b mod 16 * 4) div 4 = b"
    unfolding lo by simp_all
qed

lemma b64_read_digit:
  "n < 64 \<Longrightarrow> b64_read 0 l p (b64_char n # s) = b64_read (Suc 0) n 0 s"
  "n < 64 \<Longrightarrow> b64_read (Suc 0) l p (b64_char n # s) = map_option ((#) (l * 4 + n div 16)) (b64_read 2 (n mod 16) 0 s)"
  "n < 64 \<Longrightarrow> b64_read 2 l p (b64_char n # s) = map_option ((#) (l * 16 + n div 4)) (b64_read 3 (n mod 4) 0 s)"
  "n < 64 \<Longrightarrow> b64_read 3 l p (b64_char n # s) = map_option ((#) (l * 64 + n)) (b64_read 0 0 0 s)"
  by (simp_all add: b64_char_not_pad b64_value_char)

lemma b64_read_pad:
  "b64_read 2 l 0 [CHR ''='', CHR ''=''] = Some []" "b64_read 3 l 0 [CHR ''=''] = Some []" "b64_read 0 l p [] = Some []"
  by simp_all

declare b64_read.simps [simp del]

lemma b64_read_write: "list_all byte_value ns \<Longrightarrow> b64_read 0 l p (b64_write ns) = Some ns"
proof (induction ns arbitrary: l p rule: b64_write.induct)
  case (2 a)
  then have "a < 256" by (simp add: byte_value_def)
  with sextets [of a 0 0] show ?case by (simp add: b64_read_digit b64_read_pad)
next
  case (3 a b)
  then have "a < 256" "b < 256" by (simp_all add: byte_value_def)
  with sextets [of a b 0] show ?case by (simp add: b64_read_digit b64_read_pad)
next
  case (4 a b c ns)
  then have "a < 256" "b < 256" "c < 256" by (simp_all add: byte_value_def)
  with sextets [of a b c] 4 show ?case by (simp add: b64_read_digit)
qed (simp add: b64_read_pad)

lemma b64_char_ascii: "(of_char (b64_char n) :: nat) < 128"
proof -
  consider "n < 26" | "26 \<le> n" "n < 52" | "52 \<le> n" "n < 62" | "n = 62" | "62 < n" by linarith
  then show ?thesis by cases (simp_all add: b64_char_def)
qed

lemma b64_write_ascii: "c \<in> set (b64_write ns) \<Longrightarrow> (of_char c :: nat) < 128"
proof (induction ns rule: b64_write.induct)
  case (4 a b c' ns)
  then show ?case by (auto simp: b64_char_ascii)
qed (auto simp: b64_char_ascii)

lemma b64_round_trip: "b64_decode (b64_encode bs) = Some bs"
proof -
  have "\<not> (\<exists>c \<in> set (b64_encode bs). 128 \<le> (of_char c :: nat))"
    using b64_write_ascii by (fastforce simp: b64_encode_def)
  then show ?thesis by (simp add: b64_decode_def) (simp add: b64_encode_def b64_read_write codes_bound)
qed

end
