(* ===== verification/Model_Defaults.thy ===== *)
theory Model_Defaults
  imports Catalog_File
begin

text \<open>
  \<open>app/utils/model_defaults.py\<close> and the helpers of \<open>app/utils/provider_config.py\<close>: the providers
  the installation ships, read from one JSON file. A provider is a JSON object; the loaders add or
  replace its normalised fields and keep the others. \<open>fr\<close> is the text of a float.
\<close>

section \<open>Reading fields\<close>

text \<open>\<open>str(d.get(k) or dflt)\<close> and \<open>str(d.get(k, dflt))\<close>\<close>

definition text_or :: "(real \<Rightarrow> string) \<Rightarrow> string \<Rightarrow> json \<Rightarrow> string" where
  "text_or fr dflt v = py_str fr (j_or v (JStr dflt))"

definition jget_or :: "jdict \<Rightarrow> string \<Rightarrow> json \<Rightarrow> json" where
  "jget_or d k dflt = (case od_get d k of None \<Rightarrow> dflt | Some v \<Rightarrow> v)"

text \<open>The dictionary display \<open>{**d, k1: v1, ...}\<close>\<close>

definition with_fields :: "jdict \<Rightarrow> jdict \<Rightarrow> jdict" where
  "with_fields d kvs = fold (\<lambda>(k, v) d. od_set k v d) kvs d"

text \<open>The elements of a list, or the lines and comma-separated parts of a text.\<close>

definition listed :: "(real \<Rightarrow> string) \<Rightarrow> json \<Rightarrow> string list" where
  "listed fr v = (case v of
       JArr xs \<Rightarrow> map (py_str fr) xs
     | _ \<Rightarrow> py_splitlines [] (py_replace_char CHR '','' CHR 0x0A (text_or fr [] v)))"

text \<open>The loops that keep the first occurrence of every non-empty value.\<close>

fun first_occurrences :: "string list \<Rightarrow> string list \<Rightarrow> string list" where
  "first_occurrences seen [] = []"
| "first_occurrences seen (x # xs) =
     (if x = [] \<or> x \<in> set seen then first_occurrences seen xs else x # first_occurrences (x # seen) xs)"

definition normalize_models :: "(real \<Rightarrow> string) \<Rightarrow> json \<Rightarrow> string list" where
  "normalize_models fr v = first_occurrences [] (map py_strip (listed fr v))"

definition normalize_values :: "(real \<Rightarrow> string) \<Rightarrow> json \<Rightarrow> string list \<Rightarrow> string list" where
  "normalize_values fr v dflt =
     (let found = first_occurrences [] (map (py_lower \<circ> py_strip) (listed fr v)) in if found = [] then dflt else found)"

definition texts :: "string list \<Rightarrow> json" where
  "texts xs = JArr (map JStr xs)"

definition py_rstrip_char :: "char \<Rightarrow> string \<Rightarrow> string" where
  "py_rstrip_char c s = rev (dropWhile (\<lambda>d. d = c) (rev s))"

definition normalize_base_url :: "(real \<Rightarrow> string) \<Rightarrow> json \<Rightarrow> string" where
  "normalize_base_url fr v = py_rstrip_char CHR ''/'' (py_strip (text_or fr [] v))"

definition normalize_reranker_mode :: "(real \<Rightarrow> string) \<Rightarrow> json \<Rightarrow> string" where
  "normalize_reranker_mode fr v =
     (let selected = py_replace_char CHR ''-'' CHR ''_'' (py_lower (py_strip (text_or fr ''chat_completions'' v)))
      in if selected \<in> {''chat'', ''chat_completion'', ''chat_completions''} then ''chat_completions''
         else if selected \<in> {''rerank'', ''reranker'', ''rerank_endpoint''} then ''rerank''
         else if selected = ''auto'' then ''auto''
         else ''chat_completions'')"

definition normalize_ocr_mode :: "(real \<Rightarrow> string) \<Rightarrow> json \<Rightarrow> string" where
  "normalize_ocr_mode fr v =
     (let selected = py_replace_char CHR ''-'' CHR ''_'' (py_lower (py_strip (text_or fr ''vision_chat'' v)))
      in if selected \<in> {''vision'', ''vision_chat'', ''chat_completions''} then ''vision_chat''
         else if selected \<in> {''ocr'', ''ocr_endpoint'', ''dedicated_ocr''} then ''ocr_endpoint''
         else if selected \<in> {''local'', ''local_engine''} then ''local_engine''
         else ''vision_chat'')"

section \<open>The file\<close>

datatype config_error =
    ModelConfigurationError
  | ConfigTypeError

definition load_raw :: "json_file \<Rightarrow> config_error + jdict" where
  "load_raw f = (case f of
       None \<Rightarrow> Inl ModelConfigurationError
     | Some None \<Rightarrow> Inl ModelConfigurationError
     | Some (Some (JObj d)) \<Rightarrow> Inr d
     | Some (Some _) \<Rightarrow> Inr [])"

definition compatible :: string where "compatible = ''openai_compatible''"

section \<open>Language models\<close>

definition normalize_llm_provider :: "(real \<Rightarrow> string) \<Rightarrow> jdict \<Rightarrow> jdict" where
  "normalize_llm_provider fr entry =
     (let pid = py_str fr (jget_or entry ''id'' (JStr []));
          models = normalize_models fr (jget entry ''models'')
      in if models = [] then with_fields entry [(''models'', JArr []), (''default_model'', JStr [])]
         else
           let dflt = py_strip (text_or fr (hd models) (jget entry ''default_model''));
               models = (if dflt \<in> set models then models else dflt # models)
           in with_fields entry [
                (''id'', JStr pid),
                (''name'', JStr (text_or fr pid (jget entry ''name''))),
                (''type'', JStr (text_or fr compatible (jget entry ''type''))),
                (''base_url'', JStr (normalize_base_url fr (jget entry ''base_url''))),
                (''requires_api_key'', JBool (truthy (jget_or entry ''requires_api_key'' (JBool True)))),
                (''api_key_env'', JStr (text_or fr [] (jget entry ''api_key_env''))),
                (''billing_note'', JStr (text_or fr [] (jget entry ''billing_note''))),
                (''models'', texts models),
                (''default_model'', JStr dflt)])"

definition model_count :: "jdict \<Rightarrow> nat" where
  "model_count p = (case jget p ''models'' of JArr xs \<Rightarrow> length xs | _ \<Rightarrow> 0)"

type_synonym providers = "(string, jdict) odict"

text \<open>A later entry of the same id replaces an earlier one in its place; its models count again.\<close>

definition providers_from_list :: "(real \<Rightarrow> string) \<Rightarrow> json list \<Rightarrow> providers \<times> nat" where
  "providers_from_list fr xs = fold (\<lambda>x (ps, n). case x of
       JObj d \<Rightarrow> (let pid = py_str fr (jget_or d ''id'' (JStr [])) in
         if pid = [] then (ps, n)
         else let e = normalize_llm_provider fr (with_fields d [(''id'', JStr pid)])
              in (od_set pid e ps, n + model_count e))
     | _ \<Rightarrow> (ps, n)) xs ([], 0)"

definition providers_from_dict :: "(real \<Rightarrow> string) \<Rightarrow> jdict \<Rightarrow> providers \<times> nat" where
  "providers_from_dict fr ds = fold (\<lambda>(pid, x) (ps, n). case x of
       JObj d \<Rightarrow> (let e = normalize_llm_provider fr (with_fields d [(''id'', JStr pid)])
         in (od_set pid e ps, n + model_count e))
     | _ \<Rightarrow> (ps, n)) ds ([], 0)"

definition require_models :: "providers \<times> nat \<Rightarrow> config_error + providers" where
  "require_models r = (if fst r = [] \<or> snd r = 0 then Inl ModelConfigurationError else Inr (fst r))"

definition load_builtin_provider_definitions :: "(real \<Rightarrow> string) \<Rightarrow> json_file \<Rightarrow> config_error + providers" where
  "load_builtin_provider_definitions fr f = bindE (load_raw f) (\<lambda>raw.
     case jget raw ''llm'' of
       JArr xs \<Rightarrow> require_models (providers_from_list fr xs)
     | _ \<Rightarrow> (case jget_or raw ''providers'' (JObj raw) of
           JObj ds \<Rightarrow> require_models (providers_from_dict fr ds)
         | _ \<Rightarrow> Inl ModelConfigurationError))"

section \<open>The other providers\<close>

definition objects :: "json \<Rightarrow> jdict list" where
  "objects v = (case v of JArr xs \<Rightarrow> List.map_filter (\<lambda>x. case x of JObj d \<Rightarrow> Some d | _ \<Rightarrow> None) xs | _ \<Rightarrow> [])"

definition common_fields :: "(real \<Rightarrow> string) \<Rightarrow> jdict \<Rightarrow> jdict" where
  "common_fields fr e = [
     (''id'', JStr (py_str fr (jget_or e ''id'' (JStr [])))),
     (''name'', JStr (py_str fr (jget_or e ''name'' (JStr [])))),
     (''type'', JStr (text_or fr compatible (jget e ''type''))),
     (''base_url'', JStr (normalize_base_url fr (jget e ''base_url''))),
     (''requires_api_key'', JBool (truthy (jget_or e ''requires_api_key'' (JBool True)))),
     (''api_key_env'', JStr (py_str fr (jget_or e ''api_key_env'' (JStr []))))]"

definition listed_models :: "(real \<Rightarrow> string) \<Rightarrow> jdict \<Rightarrow> jdict" where
  "listed_models fr e = [
     (''models'', texts (normalize_models fr (jget e ''models''))),
     (''default_model'', JStr (py_str fr (jget_or e ''default_model'' (JStr []))))]"

text \<open>\<open>int(entry.get("dimensions", 0))\<close> may raise.\<close>

definition embedding_entry :: "(real \<Rightarrow> string) \<Rightarrow> jdict \<Rightarrow> config_error + jdict" where
  "embedding_entry fr e = (case py_int (jget_or e ''dimensions'' (JInt 0)) of
       None \<Rightarrow> Inl ConfigTypeError
     | Some n \<Rightarrow> Inr (with_fields e (common_fields fr e @ listed_models fr e
         @ [(''dimensions'', JInt n), (''privacy_note'', JStr (py_str fr (jget_or e ''privacy_note'' (JStr []))))])))"

text \<open>The default of the lookup is evaluated first: a \<open>providers\<close> value that is no object raises.\<close>

definition load_builtin_embedding_providers :: "(real \<Rightarrow> string) \<Rightarrow> json_file \<Rightarrow> config_error + jdict list" where
  "load_builtin_embedding_providers fr f = bindE (load_raw f) (\<lambda>raw.
     case jget_or raw ''providers'' (JObj []) of
       JObj ps \<Rightarrow> mapE (embedding_entry fr) (objects (jget_or raw ''embedding'' (jget_or ps ''embedding'' (JArr []))))
     | _ \<Rightarrow> Inl ConfigTypeError)"

definition load_builtin_reranker_providers :: "(real \<Rightarrow> string) \<Rightarrow> json_file \<Rightarrow> config_error + jdict list" where
  "load_builtin_reranker_providers fr f = bindE (load_raw f) (\<lambda>raw.
     Inr (map (\<lambda>e. with_fields e (common_fields fr e @ listed_models fr e
         @ [(''reranker_mode'', JStr (normalize_reranker_mode fr (jget e ''reranker_mode'')))]))
       (objects (jget_or raw ''reranker'' (JArr [])))))"

definition load_builtin_voice_providers :: "(real \<Rightarrow> string) \<Rightarrow> json_file \<Rightarrow> config_error + jdict list" where
  "load_builtin_voice_providers fr f = bindE (load_raw f) (\<lambda>raw.
     Inr (map (\<lambda>e. with_fields e (common_fields fr e @ [
         (''stt_model'', JStr (py_str fr (jget_or e ''stt_model'' (JStr [])))),
         (''stt_language'', JStr (py_str fr (jget_or e ''stt_language'' (JStr [])))),
         (''tts_model'', JStr (py_str fr (jget_or e ''tts_model'' (JStr [])))),
         (''voice'', JStr (py_str fr (jget_or e ''voice'' (JStr ''alloy'')))),
         (''format'', JStr (py_str fr (jget_or e ''format'' (JStr ''mp3''))))]))
       (objects (jget_or raw ''voice'' (JArr [])))))"

definition load_builtin_ocr_providers :: "(real \<Rightarrow> string) \<Rightarrow> json_file \<Rightarrow> config_error + jdict list" where
  "load_builtin_ocr_providers fr f = bindE (load_raw f) (\<lambda>raw.
     Inr (map (\<lambda>e. with_fields e (common_fields fr e @ listed_models fr e @ [
         (''ocr_mode'', JStr (normalize_ocr_mode fr (jget e ''ocr_mode''))),
         (''input_types'', texts (normalize_values fr (jget e ''input_types'') [''image'', ''pdf''])),
         (''output_format'', JStr (text_or fr ''text'' (jget e ''output_format''))),
         (''supports_layout'', JBool (truthy (jget e ''supports_layout''))),
         (''supports_tables'', JBool (truthy (jget e ''supports_tables'')))]))
       (objects (jget_or raw ''ocr'' (JArr [])))))"

record builtins =
  bi_llm :: providers
  bi_embedding :: "jdict list"
  bi_reranker :: "jdict list"
  bi_voice :: "jdict list"
  bi_ocr :: "jdict list"

definition load_builtin_defaults :: "(real \<Rightarrow> string) \<Rightarrow> json_file \<Rightarrow> config_error + builtins" where
  "load_builtin_defaults fr f =
     bindE (load_builtin_provider_definitions fr f) (\<lambda>llm.
     bindE (load_builtin_embedding_providers fr f) (\<lambda>emb.
     bindE (load_builtin_reranker_providers fr f) (\<lambda>rer.
     bindE (load_builtin_voice_providers fr f) (\<lambda>voice.
     bindE (load_builtin_ocr_providers fr f) (\<lambda>ocr.
     Inr \<lparr>bi_llm = llm, bi_embedding = emb, bi_reranker = rer, bi_voice = voice, bi_ocr = ocr\<rparr>)))))"

text \<open>\<open>True\<close>: a message for the administrator.\<close>

definition get_model_configuration_error :: "(real \<Rightarrow> string) \<Rightarrow> json_file \<Rightarrow> bool" where
  "get_model_configuration_error fr f = (load_builtin_provider_definitions fr f = Inl ModelConfigurationError)"

end
