(* ===== verification/Validators.thy ===== *)
theory Validators
  imports Py_Json Bytes
begin

text \<open>
  \<open>app/utils/validators.py\<close>: the checks of request fields, of uploaded files and of configuration
  values. A failed check is the \<open>ValidationError\<close> with its message and field; \<open>Uncaught\<close> is an
  exception the validator does not turn into one. The texts \<open>str\<close> prints for floats are the
  parameter \<open>fr\<close>, a compiled pattern is a predicate on texts. The audit log is not modelled.
\<close>

record validation_error =
  ve_message :: string
  ve_field :: "string option"
  ve_code :: string

datatype val_exn = Invalid validation_error | Uncaught py_exn | UncaughtOverflow

definition invalid :: "string \<Rightarrow> string \<Rightarrow> val_exn" where
  "invalid message field = Invalid \<lparr>ve_message = message, ve_field = Some field, ve_code = ''validation_error''\<rparr>"

definition to_dict :: "validation_error \<Rightarrow> jdict" where
  "to_dict e = [(''error'', JStr (ve_message e)), (''status'', JStr (ve_code e))]
     @ (case ve_field e of None \<Rightarrow> [] | Some f \<Rightarrow> if f = [] then [] else [(''field'', JStr f)])"

section \<open>The float conversion\<close>

text \<open>
  \<open>float(value)\<close>. Finite floats are real numbers, without rounding; from the half-way point above
  the largest double on, a text gives an infinity and an integer raises \<open>OverflowError\<close>.
\<close>

datatype py_number = Finite real | Infinity bool | NotANumber

definition float_limit :: real where
  "float_limit = 2 ^ 1024 - 2 ^ 970"

text \<open>Digits with single underscores between them; the flag says that the previous character is a digit.\<close>

fun digit_run :: "bool \<Rightarrow> string \<Rightarrow> nat list \<times> string" where
  "digit_run p [] = ([], [])"
| "digit_run p (c # s) =
     (if py_isdigit c then apfst ((#) (of_char c - 48)) (digit_run True s)
      else if c = CHR ''_'' \<and> p \<and> s \<noteq> [] \<and> py_isdigit (hd s) then digit_run False s
      else ([], c # s))"

definition digits_value :: "nat list \<Rightarrow> nat" where
  "digits_value ds = fold (\<lambda>d acc. 10 * acc + d) ds 0"

definition sign_split :: "string \<Rightarrow> bool \<times> string" where
  "sign_split s = (case s of [] \<Rightarrow> (False, [])
     | c # t \<Rightarrow> if c = CHR ''-'' then (True, t) else if c = CHR ''+'' then (False, t) else (False, c # t))"

text \<open>The exponent of a number, or none; \<open>None\<close>: text is left over.\<close>

definition exponent_part :: "string \<Rightarrow> int option" where
  "exponent_part s = (case s of
       [] \<Rightarrow> Some 0
     | c # t \<Rightarrow>
         if c = CHR ''e'' \<or> c = CHR ''E''
         then (let (neg, u) = sign_split t; (ds, rest) = digit_run False u
               in if ds = [] \<or> rest \<noteq> [] then None
                  else Some (if neg then - int (digits_value ds) else int (digits_value ds)))
         else None)"

definition scaled :: "nat \<Rightarrow> int \<Rightarrow> real" where
  "scaled m e = (if 0 \<le> e then real m * 10 ^ nat e else real m / 10 ^ nat (- e))"

definition decimal_part :: "string \<Rightarrow> real option" where
  "decimal_part s =
     (let (ds, r) = digit_run False s;
          (fs, r') = (if r \<noteq> [] \<and> hd r = CHR ''.'' then digit_run False (tl r) else ([], r))
      in if ds = [] \<and> fs = [] then None
         else map_option (\<lambda>e. scaled (digits_value (ds @ fs)) (e - int (length fs))) (exponent_part r'))"

definition py_float_of_text :: "string \<Rightarrow> py_number option" where
  "py_float_of_text t =
     (let (neg, s) = sign_split (py_strip t)
      in if py_lower s = ''nan'' then Some NotANumber
         else if py_lower s = ''inf'' \<or> py_lower s = ''infinity'' then Some (Infinity neg)
         else map_option (\<lambda>x. if float_limit \<le> x then Infinity neg else Finite (if neg then - x else x)) (decimal_part s))"

text \<open>\<open>Inl None\<close>: \<open>TypeError\<close> or \<open>ValueError\<close>; \<open>Inl (Some ())\<close>: \<open>OverflowError\<close>.\<close>

fun py_float :: "json \<Rightarrow> unit option + py_number" where
  "py_float (JInt i) = (if float_limit \<le> \<bar>of_int i\<bar> then Inl (Some ()) else Inr (Finite (of_int i)))"
| "py_float (JBool b) = Inr (Finite (if b then 1 else 0))"
| "py_float (JFloat x) = Inr (Finite x)"
| "py_float (JStr s) = (case py_float_of_text s of None \<Rightarrow> Inl None | Some x \<Rightarrow> Inr x)"
| "py_float _ = Inl None"

text \<open>The comparison \<open>x < y\<close>, false whenever a side is not a number.\<close>

fun float_less :: "py_number \<Rightarrow> real \<Rightarrow> bool" where
  "float_less (Finite x) y = (x < y)"
| "float_less (Infinity neg) y = neg"
| "float_less NotANumber y = False"

fun float_greater :: "py_number \<Rightarrow> real \<Rightarrow> bool" where
  "float_greater (Finite x) y = (y < x)"
| "float_greater (Infinity neg) y = (\<not> neg)"
| "float_greater NotANumber y = False"

section \<open>Base validators\<close>

definition mandatory :: "string \<Rightarrow> val_exn" where
  "mandatory field = invalid (field @ '' e'' @ [CHR 0x27] @ '' obbligatorio'') field"

definition validate_string ::
  "nat \<Rightarrow> nat \<Rightarrow> (string \<Rightarrow> bool) option \<Rightarrow> bool \<Rightarrow> bool \<Rightarrow> string \<Rightarrow> json \<Rightarrow> val_exn + string option" where
  "validate_string min_length max_length pattern required strip field v =
     (if required \<and> (v = JNull \<or> v = JStr []) then Inl (mandatory field)
      else case v of
        JNull \<Rightarrow> Inr None
      | JStr s \<Rightarrow>
          (let t = (if strip then py_strip s else s) in
             bindE (guardE (min_length \<le> length t)
               (invalid (field @ '' deve avere almeno '' @ dec_nat min_length @ '' caratteri'') field)) (\<lambda>_.
             bindE (guardE (length t \<le> max_length)
               (invalid (field @ '' deve avere al massimo '' @ dec_nat max_length @ '' caratteri'') field)) (\<lambda>_.
             bindE (guardE (case pattern of None \<Rightarrow> True | Some p \<Rightarrow> p t)
               (invalid (field @ '' non ha un formato valido'') field)) (\<lambda>_.
             Inr (Some t)))))
      | _ \<Rightarrow> Inl (invalid (field @ '' deve essere una stringa'') field))"

definition check_bounds :: "('n \<Rightarrow> string) \<Rightarrow> ('n \<Rightarrow> bool) \<Rightarrow> ('n \<Rightarrow> bool) \<Rightarrow> 'n option \<Rightarrow> 'n option \<Rightarrow> string \<Rightarrow> val_exn + unit" where
  "check_bounds text lower higher min_value max_value field =
     bindE (guardE (case min_value of None \<Rightarrow> True | Some m \<Rightarrow> \<not> lower m)
       (invalid (field @ '' deve essere >= '' @ (case min_value of None \<Rightarrow> [] | Some m \<Rightarrow> text m)) field)) (\<lambda>_.
     guardE (case max_value of None \<Rightarrow> True | Some m \<Rightarrow> \<not> higher m)
       (invalid (field @ '' deve essere <= '' @ (case max_value of None \<Rightarrow> [] | Some m \<Rightarrow> text m)) field))"

definition validate_integer :: "int option \<Rightarrow> int option \<Rightarrow> bool \<Rightarrow> string \<Rightarrow> json \<Rightarrow> val_exn + int option" where
  "validate_integer min_value max_value required field v =
     (if v = JNull then (if required then Inl (mandatory field) else Inr None)
      else case py_int v of
        None \<Rightarrow> Inl (invalid (field @ '' deve essere un numero intero'') field)
      | Some i \<Rightarrow> bindE (check_bounds dec_int (\<lambda>m. i < m) (\<lambda>m. m < i) min_value max_value field) (\<lambda>_. Inr (Some i)))"

definition validate_float ::
  "(real \<Rightarrow> string) \<Rightarrow> real option \<Rightarrow> real option \<Rightarrow> bool \<Rightarrow> string \<Rightarrow> json \<Rightarrow> val_exn + py_number option" where
  "validate_float fr min_value max_value required field v =
     (if v = JNull then (if required then Inl (mandatory field) else Inr None)
      else case py_float v of
        Inl (Some _) \<Rightarrow> Inl UncaughtOverflow
      | Inl None \<Rightarrow> Inl (invalid (field @ '' deve essere un numero decimale'') field)
      | Inr x \<Rightarrow> bindE (check_bounds fr (float_less x) (float_greater x) min_value max_value field) (\<lambda>_. Inr (Some x)))"

definition truthy_values :: "string list" where
  "truthy_values = [''true'', ''yes'', ''1'', ''y'', ''on'', ''enabled'']"

definition falsy_values :: "string list" where
  "falsy_values = [''false'', ''no'', ''0'', ''n'', ''off'', ''disabled'']"

definition validate_boolean :: "bool \<Rightarrow> string \<Rightarrow> json \<Rightarrow> val_exn + bool" where
  "validate_boolean required field v =
     (let bad = Inl (invalid (field @ '' deve essere un booleano valido (true/false, yes/no, 1/0)'') field)
      in if required \<and> v = JNull then Inl (mandatory field)
         else case v of
           JBool b \<Rightarrow> Inr b
         | JInt i \<Rightarrow> Inr (i \<noteq> 0)
         | JStr s \<Rightarrow> (let t = py_strip (py_lower s)
             in if t \<in> set truthy_values then Inr True else if t \<in> set falsy_values then Inr False else bad)
         | _ \<Rightarrow> bad)"

fun index_of :: "'a \<Rightarrow> 'a list \<Rightarrow> nat" where
  "index_of x [] = 0"
| "index_of x (y # ys) = (if x = y then 0 else Suc (index_of x ys))"

definition validate_enum ::
  "(real \<Rightarrow> string) \<Rightarrow> string list \<Rightarrow> bool \<Rightarrow> bool \<Rightarrow> string \<Rightarrow> json \<Rightarrow> val_exn + string option" where
  "validate_enum fr allowed required case_sensitive field v =
     (if v = JNull then (if required then Inl (mandatory field) else Inr None)
      else let bad = Inl (invalid (field @ '' deve essere uno di: '' @ py_join '', '' allowed) field) in
        if \<not> case_sensitive
        then (let t = py_lower (py_str fr v); lowered = map py_lower allowed
              in if t \<notin> set lowered then bad else Inr (Some (allowed ! index_of t lowered)))
        else if py_str fr v \<notin> set allowed then bad else Inr (Some (py_str fr v)))"

text \<open>An error of an element is raised again with its own message and field.\<close>

definition validate_items :: "(json \<Rightarrow> string \<Rightarrow> val_exn + 'a) \<Rightarrow> string \<Rightarrow> json list \<Rightarrow> val_exn + 'a list" where
  "validate_items item field xs =
     mapE (\<lambda>(i, x). case item x (field @ ''['' @ dec_nat i @ '']'') of
         Inl (Invalid e) \<Rightarrow> Inl (Invalid (e\<lparr>ve_code := ''validation_error''\<rparr>))
       | r \<Rightarrow> r) (enumerate 0 xs)"

definition validate_list ::
  "nat \<Rightarrow> nat option \<Rightarrow> (json \<Rightarrow> string \<Rightarrow> val_exn + json) option \<Rightarrow> bool \<Rightarrow> string \<Rightarrow> json \<Rightarrow> val_exn + json list" where
  "validate_list min_items max_items item required field v =
     (if v = JNull then (if required then Inl (mandatory field) else Inr [])
      else case v of
        JArr xs \<Rightarrow>
          bindE (guardE (min_items \<le> length xs)
            (invalid (field @ '' deve contenere almeno '' @ dec_nat min_items @ '' elementi'') field)) (\<lambda>_.
          bindE (guardE (case max_items of None \<Rightarrow> True | Some m \<Rightarrow> length xs \<le> m)
            (invalid (field @ '' deve contenere al massimo '' @ (case max_items of None \<Rightarrow> [] | Some m \<Rightarrow> dec_nat m)
               @ '' elementi'') field)) (\<lambda>_.
          (case item of None \<Rightarrow> Inr xs | Some f \<Rightarrow> validate_items f field xs)))
      | _ \<Rightarrow> Inl (invalid (field @ '' deve essere una lista'') field))"


section \<open>Request fields\<close>

definition validate_query :: "json \<Rightarrow> val_exn + string" where
  "validate_query v = (case v of
       JStr s \<Rightarrow>
         (let q = py_strip s in
            bindE (guardE (3 \<le> length q) (invalid ''query deve avere almeno 3 caratteri'' ''query'')) (\<lambda>_.
            bindE (guardE (length q \<le> 2000) (invalid ''query deve avere al massimo 2000 caratteri'' ''query'')) (\<lambda>_.
            bindE (guardE (CHR 0x00 \<notin> set q) (invalid ''query contiene caratteri non validi'' ''query'')) (\<lambda>_.
            Inr q))))
     | _ \<Rightarrow> Inl (invalid ''query deve essere una stringa'' ''query''))"

text \<open>
  \<open>^[A-Za-z0-9][A-Za-z0-9_-]*$\<close>: \<open>$\<close> also matches before a final line feed.
\<close>

definition token_char :: "char \<Rightarrow> bool" where
  "token_char c \<longleftrightarrow> py_is_ascii_alnum c \<or> c = CHR ''_'' \<or> c = CHR ''-''"

definition drop_final_newline :: "string \<Rightarrow> string" where
  "drop_final_newline s = (if s \<noteq> [] \<and> last s = CHR 0x0A then butlast s else s)"

definition token_pattern :: "string \<Rightarrow> bool" where
  "token_pattern s = (case drop_final_newline s of [] \<Rightarrow> False | c # t \<Rightarrow> py_is_ascii_alnum c \<and> list_all token_char t)"

definition validate_conversation_id :: "bool \<Rightarrow> json \<Rightarrow> val_exn + string option" where
  "validate_conversation_id required v =
     (let missing = invalid (''conversation_id e'' @ [CHR 0x27] @ '' obbligatorio'') ''conversation_id''
      in if v = JNull \<or> v = JStr [] then (if required then Inl missing else Inr None)
         else case v of
           JStr s \<Rightarrow>
             (let t = py_strip s in
                bindE (guardE (\<not> (required \<and> t = [])) missing) (\<lambda>_.
                bindE (guardE (8 \<le> length t \<and> length t \<le> 80)
                  (invalid ''conversation_id deve avere tra 8 e 80 caratteri'' ''conversation_id'')) (\<lambda>_.
                bindE (guardE (token_pattern t) (invalid ''conversation_id non ha un formato valido'' ''conversation_id'')) (\<lambda>_.
                Inr (Some t)))))
         | _ \<Rightarrow> Inl (invalid ''conversation_id deve essere una stringa'' ''conversation_id''))"

definition validate_model :: "(real \<Rightarrow> string) \<Rightarrow> string list \<Rightarrow> bool \<Rightarrow> json \<Rightarrow> val_exn + string option" where
  "validate_model fr allowed_models required v = validate_enum fr allowed_models required True ''model'' v"

definition validate_temperature :: "(real \<Rightarrow> string) \<Rightarrow> bool \<Rightarrow> json \<Rightarrow> val_exn + py_number option" where
  "validate_temperature fr required v = validate_float fr (Some 0) (Some 1) required ''temperature'' v"

definition validate_k :: "int \<Rightarrow> bool \<Rightarrow> json \<Rightarrow> val_exn + int option" where
  "validate_k max_k required v = validate_integer (Some 1) (Some max_k) required ''k'' v"

section \<open>Uploaded files\<close>

record upload =
  up_filename :: string
  up_content :: "byte list"
  up_mime :: string

definition has_prefix :: "byte list \<Rightarrow> byte list \<Rightarrow> bool" where
  "has_prefix header p = (take (length p) header = p)"

definition text_bytes :: "string \<Rightarrow> byte list" where
  "text_bytes s = map (word_of_nat \<circ> of_char) s"

definition has_text_at :: "nat \<Rightarrow> string \<Rightarrow> byte list \<Rightarrow> bool" where
  "has_text_at i s header = (take (length s) (drop i header) = text_bytes s)"

definition is_pdf :: "byte list \<Rightarrow> bool" where "is_pdf header = has_prefix header (text_bytes ''%PDF-'')"

definition is_png :: "byte list \<Rightarrow> bool" where
  "is_png header = has_prefix header [0x89, 0x50, 0x4E, 0x47, 0x0D, 0x0A, 0x1A, 0x0A]"

definition is_jpeg :: "byte list \<Rightarrow> bool" where "is_jpeg header = has_prefix header [0xFF, 0xD8, 0xFF]"

definition is_gif :: "byte list \<Rightarrow> bool" where
  "is_gif header = (has_prefix header (text_bytes ''GIF87a'') \<or> has_prefix header (text_bytes ''GIF89a''))"

definition is_webp :: "byte list \<Rightarrow> bool" where
  "is_webp header = (12 \<le> length header \<and> has_text_at 0 ''RIFF'' header \<and> has_text_at 8 ''WEBP'' header)"

definition is_bmp :: "byte list \<Rightarrow> bool" where "is_bmp header = has_prefix header (text_bytes ''BM'')"

definition is_tiff :: "byte list \<Rightarrow> bool" where
  "is_tiff header = (has_prefix header [0x49, 0x49, 0x2A, 0x00] \<or> has_prefix header [0x4D, 0x4D, 0x00, 0x2A])"

definition is_mp3 :: "byte list \<Rightarrow> bool" where
  "is_mp3 header = (has_prefix header (text_bytes ''ID3'')
     \<or> (case header of a # b # _ \<Rightarrow> a = 0xFF \<and> and b 0xE0 = 0xE0 | _ \<Rightarrow> False))"

definition is_wav :: "byte list \<Rightarrow> bool" where
  "is_wav header = (12 \<le> length header \<and> has_text_at 0 ''RIFF'' header \<and> has_text_at 8 ''WAVE'' header)"

definition is_m4a :: "byte list \<Rightarrow> bool" where
  "is_m4a header = (12 \<le> length header \<and> has_text_at 4 ''ftyp'' header)"

definition is_webm :: "byte list \<Rightarrow> bool" where "is_webm header = has_prefix header [0x1A, 0x45, 0xDF, 0xA3]"

definition is_ogg :: "byte list \<Rightarrow> bool" where "is_ogg header = has_prefix header (text_bytes ''OggS'')"

definition is_flac :: "byte list \<Rightarrow> bool" where "is_flac header = has_prefix header (text_bytes ''fLaC'')"

definition signature_checks :: "(string \<times> (byte list \<Rightarrow> bool)) list" where
  "signature_checks = [(''pdf'', is_pdf), (''png'', is_png), (''jpg'', is_jpeg), (''jpeg'', is_jpeg), (''webp'', is_webp),
     (''gif'', is_gif), (''bmp'', is_bmp), (''tif'', is_tiff), (''tiff'', is_tiff), (''mp3'', is_mp3), (''wav'', is_wav),
     (''m4a'', is_m4a), (''webm'', is_webm), (''ogg'', is_ogg), (''flac'', is_flac)]"

definition text_extensions :: "string list" where
  "text_extensions = [''txt'', ''md'', ''csv'']"

text \<open>\<open>DOCUMENT_UPLOAD_EXTENSIONS\<close>, \<open>OCR_EXTENSIONS\<close> and \<open>AUDIO_EXTENSIONS\<close>.\<close>

definition document_extensions :: "string list" where
  "document_extensions = [''csv'', ''md'', ''pdf'', ''txt'']"

definition ocr_extensions :: "string list" where
  "ocr_extensions = [''bmp'', ''gif'', ''jpeg'', ''jpg'', ''pdf'', ''png'', ''tif'', ''tiff'', ''webp'']"

definition audio_extensions :: "string list" where
  "audio_extensions = [''flac'', ''m4a'', ''mp3'', ''ogg'', ''wav'', ''webm'']"

definition read_header :: "upload \<Rightarrow> byte list" where
  "read_header f = take 4096 (up_content f)"

definition control_byte :: "byte \<Rightarrow> bool" where
  "control_byte b = (b < 9 \<or> (13 < b \<and> b < 32))"

definition looks_like_binary :: "byte list \<Rightarrow> bool" where
  "looks_like_binary header =
     (header \<noteq> [] \<and>
       (list_ex (\<lambda>(_, check). check header) signature_checks \<or> 0 \<in> set header
        \<or> 1 / 20 < (real (length (filter control_byte header)) / real (max 1 (length header)))))"

definition validate_signature :: "upload \<Rightarrow> string \<Rightarrow> string \<Rightarrow> val_exn + unit" where
  "validate_signature f ext field =
     (let header = read_header f; e = py_lower ext in
        bindE (guardE (case od_get signature_checks e of None \<Rightarrow> True | Some check \<Rightarrow> check header)
          (invalid (field @ '' contenuto non corrisponde all'' @ [CHR 0x27] @ ''estensione .'' @ e) field)) (\<lambda>_.
        guardE (\<not> (e \<in> set text_extensions \<and> looks_like_binary header))
          (invalid (field @ '' sembra un file binario, non un documento testuale'') field)))"

text \<open>\<open>filename.rsplit('.', 1)[1].lower()\<close>\<close>

definition extension_of :: "string \<Rightarrow> string" where
  "extension_of name = py_lower (rev (takeWhile (\<lambda>c. c \<noteq> CHR ''.'') (rev name)))"

definition octets :: string where "octets = ''application/octet-stream''"

definition allowed_mimes :: "(string \<times> string list) list" where
  "allowed_mimes = [
     (''pdf'', [''application/pdf'', ''application/x-pdf'']),
     (''txt'', [''text/plain'', octets]),
     (''md'', [''text/markdown'', ''text/plain'', ''text/x-markdown'', octets]),
     (''docx'', [''application/vnd.openxmlformats-officedocument.wordprocessingml.document'']),
     (''png'', [''image/png'']),
     (''jpg'', [''image/jpeg'']),
     (''jpeg'', [''image/jpeg'']),
     (''webp'', [''image/webp'']),
     (''gif'', [''image/gif'']),
     (''bmp'', [''image/bmp'', ''image/x-ms-bmp'']),
     (''tif'', [''image/tiff'']),
     (''tiff'', [''image/tiff'']),
     (''mp3'', [''audio/mpeg'', ''audio/mp3'', octets]),
     (''wav'', [''audio/wav'', ''audio/x-wav'', ''audio/wave'', octets]),
     (''m4a'', [''audio/mp4'', ''audio/x-m4a'', ''video/mp4'', octets]),
     (''webm'', [''audio/webm'', ''video/webm'', octets]),
     (''ogg'', [''audio/ogg'', ''application/ogg'', octets]),
     (''flac'', [''audio/flac'', ''audio/x-flac'', octets])]"

text \<open>\<open>mb\<close> prints a number of megabytes with one decimal. \<open>None\<close> is a missing file.\<close>

definition validate_file ::
  "(real \<Rightarrow> string) \<Rightarrow> string \<Rightarrow> string list option \<Rightarrow> nat \<Rightarrow> upload option \<Rightarrow> val_exn + upload" where
  "validate_file mb field extensions max_size_mb file =
     (let allowed = (case extensions of None \<Rightarrow> [''pdf''] | Some es \<Rightarrow> es) in
      case file of
        None \<Rightarrow> Inl (mandatory field)
      | Some f \<Rightarrow>
          bindE (guardE (up_filename f \<noteq> []) (mandatory field)) (\<lambda>_.
          bindE (guardE (CHR ''.'' \<in> set (up_filename f))
            (invalid (field @ '' deve avere un'' @ [CHR 0x27] @ ''estensione'') field)) (\<lambda>_.
          let ext = extension_of (up_filename f) in
          bindE (guardE (ext \<in> set (map py_lower allowed))
            (invalid (field @ '' deve essere un file '' @ py_join '', '' allowed) field)) (\<lambda>_.
          bindE (guardE (length (up_content f) \<le> max_size_mb * 1024 * 1024)
            (invalid (field @ '' deve essere <= '' @ dec_nat max_size_mb @ ''MB (ricevuti ''
               @ mb (real (length (up_content f)) / 1024 / 1024) @ ''MB)'') field)) (\<lambda>_.
          bindE (guardE (up_mime f = [] \<or> (case od_get allowed_mimes (py_lower ext) of None \<Rightarrow> True
                | Some mimes \<Rightarrow> up_mime f \<in> set mimes))
            (invalid (field @ '' tipo MIME non valido: '' @ up_mime f @ ''. Atteso uno di: ''
               @ (case od_get allowed_mimes (py_lower ext) of None \<Rightarrow> [] | Some mimes \<Rightarrow> py_join '', '' mimes)) field)) (\<lambda>_.
          bindE (validate_signature f ext field) (\<lambda>_.
          Inr f)))))))"


section \<open>Configuration values\<close>

datatype value_type = StrType | IntType | FloatType | BoolType

text \<open>A float of the environment may be no finite number.\<close>

datatype config_value = Plain json | Special py_number

fun of_number :: "py_number \<Rightarrow> config_value" where
  "of_number (Finite x) = Plain (JFloat x)"
| "of_number x = Special x"

fun type_name :: "value_type \<Rightarrow> string" where
  "type_name StrType = ''str''"
| "type_name IntType = ''int''"
| "type_name FloatType = ''float''"
| "type_name BoolType = ''bool''"

fun instance_of :: "json \<Rightarrow> value_type \<Rightarrow> bool" where
  "instance_of (JStr s) t = (t = StrType)"
| "instance_of (JInt i) t = (t = IntType)"
| "instance_of (JBool b) t = (t = IntType \<or> t = BoolType)"
| "instance_of (JFloat x) t = (t = FloatType)"
| "instance_of _ t = False"

fun number_of :: "json \<Rightarrow> py_number option" where
  "number_of (JInt i) = Some (Finite (of_int i))"
| "number_of (JBool b) = Some (Finite (if b then 1 else 0))"
| "number_of (JFloat x) = Some (Finite x)"
| "number_of _ = None"

definition config_number :: "config_value \<Rightarrow> py_number option" where
  "config_number v = (case v of Plain j \<Rightarrow> number_of j | Special x \<Rightarrow> Some x)"

text \<open>\<open>value == allowed\<close>: numbers of different types compare by value.\<close>

definition config_equal :: "config_value \<Rightarrow> json \<Rightarrow> bool" where
  "config_equal v a = (case (config_number v, number_of a) of
       (Some x, Some y) \<Rightarrow> x = y \<and> x \<noteq> NotANumber
     | _ \<Rightarrow> v = Plain a)"

definition convert_config :: "value_type \<Rightarrow> string \<Rightarrow> json \<Rightarrow> val_exn + config_value" where
  "convert_config ty field v =
     (let bad = Inl (invalid (field @ '' deve essere di tipo '' @ type_name ty) field)
      in if instance_of v ty then Inr (Plain v)
         else case ty of
           IntType \<Rightarrow> (case py_int v of None \<Rightarrow> bad | Some i \<Rightarrow> Inr (Plain (JInt i)))
         | FloatType \<Rightarrow> (case py_float v of Inl None \<Rightarrow> bad | Inl (Some _) \<Rightarrow> Inl UncaughtOverflow | Inr x \<Rightarrow> Inr (of_number x))
         | BoolType \<Rightarrow> (case validate_boolean True field v of Inl _ \<Rightarrow> bad | Inr b \<Rightarrow> Inr (Plain (JBool b)))
         | StrType \<Rightarrow> bad)"

definition validate_config_value ::
  "(real \<Rightarrow> string) \<Rightarrow> value_type \<Rightarrow> int option \<Rightarrow> int option \<Rightarrow> json list \<Rightarrow> string \<Rightarrow> json \<Rightarrow> val_exn + config_value" where
  "validate_config_value fr ty min_value max_value allowed field v =
     (if v = JNull then Inr (Plain JNull)
      else bindE (convert_config ty field v) (\<lambda>c.
           bindE (case config_number c of
               None \<Rightarrow> Inr ()
             | Some x \<Rightarrow> check_bounds dec_int (\<lambda>m. float_less x (of_int m)) (\<lambda>m. float_greater x (of_int m))
                 min_value max_value field) (\<lambda>_.
           bindE (guardE (allowed = [] \<or> list_ex (config_equal c) allowed)
             (invalid (field @ '' deve essere uno di: '' @ py_join '', '' (map (py_str fr) allowed)) field)) (\<lambda>_.
           Inr c))))"

text \<open>
  The error of a variable is a \<open>ValueError\<close> with a message; \<open>None\<close> is an exception that escapes.
\<close>

definition load_validated_env ::
  "(real \<Rightarrow> string) \<Rightarrow> (string \<Rightarrow> string option) \<Rightarrow> json \<Rightarrow> value_type \<Rightarrow> int option \<Rightarrow> int option \<Rightarrow> json list \<Rightarrow> string
    \<Rightarrow> string option + config_value" where
  "load_validated_env fr getenv dflt ty min_value max_value allowed var =
     (let v = (case getenv var of Some s \<Rightarrow> JStr s | None \<Rightarrow> dflt)
      in if v = JNull then Inr (Plain JNull)
         else case validate_config_value fr ty min_value max_value allowed var v of
           Inr c \<Rightarrow> Inr c
         | Inl (Invalid e) \<Rightarrow> Inl (Some (''Configurazione non valida per '' @ var @ '': '' @ ve_message e))
         | Inl _ \<Rightarrow> Inl None)"

section \<open>What an accepted value satisfies\<close>

named_theorems accepted \<open>what the validators let through\<close>

lemma validate_string_ok [accepted]:
  "validate_string min_length max_length pattern required strip field v = Inr (Some t) \<Longrightarrow>
     min_length \<le> length t \<and> length t \<le> max_length \<and> (strip \<longrightarrow> py_trimmed t) \<and> (\<forall>p. pattern = Some p \<longrightarrow> p t)
     \<and> (\<exists>s. v = JStr s \<and> t = (if strip then py_strip s else s))"
  by (auto simp: validate_string_def Let_def result_simps split: json.splits if_splits option.splits)

lemma validate_string_none [accepted]:
  "validate_string min_length max_length pattern required strip field v = Inr None \<Longrightarrow> \<not> required \<and> v = JNull"
  by (auto simp: validate_string_def Let_def result_simps split: json.splits if_splits option.splits)

lemma check_bounds_ok [accepted]:
  "check_bounds text lower higher min_value max_value field = Inr u \<longleftrightarrow>
     (\<forall>m. min_value = Some m \<longrightarrow> \<not> lower m) \<and> (\<forall>m. max_value = Some m \<longrightarrow> \<not> higher m)"
  by (auto simp: check_bounds_def result_simps split: option.splits)

lemma validate_integer_ok [accepted]:
  "validate_integer min_value max_value required field v = Inr (Some i) \<Longrightarrow>
     (\<forall>m. min_value = Some m \<longrightarrow> m \<le> i) \<and> (\<forall>m. max_value = Some m \<longrightarrow> i \<le> m)"
  by (auto simp: validate_integer_def result_simps accepted split: if_splits option.splits)

definition in_range :: "real option \<Rightarrow> real option \<Rightarrow> py_number \<Rightarrow> bool" where
  "in_range min_value max_value x \<longleftrightarrow> (case x of
       NotANumber \<Rightarrow> True
     | Finite r \<Rightarrow> (\<forall>m. min_value = Some m \<longrightarrow> m \<le> r) \<and> (\<forall>m. max_value = Some m \<longrightarrow> r \<le> m)
     | Infinity neg \<Rightarrow> (neg \<longrightarrow> min_value = None) \<and> (\<not> neg \<longrightarrow> max_value = None))"

lemma validate_float_ok [accepted]:
  "validate_float fr min_value max_value required field v = Inr (Some x) \<Longrightarrow> in_range min_value max_value x"
  by (cases x) (auto simp: validate_float_def in_range_def result_simps accepted split: if_splits option.splits sum.splits)

lemma validate_query_ok [accepted]:
  "validate_query v = Inr q \<Longrightarrow> py_trimmed q \<and> 3 \<le> length q \<and> length q \<le> 2000 \<and> CHR 0x00 \<notin> set q"
  by (auto simp: validate_query_def Let_def result_simps split: json.splits if_splits)

text \<open>The pattern without the final line feed a trimmed text does not have.\<close>

lemma token_pattern_trimmed:
  assumes "token_pattern s" and "py_trimmed s"
  shows "s \<noteq> [] \<and> py_is_ascii_alnum (hd s) \<and> list_all token_char s"
proof -
  have "py_isspace CHR 0x0A" by (simp add: py_isspace_def)
  with assms(2) have "drop_final_newline s = s" by (auto simp: drop_final_newline_def py_trimmed_def)
  with assms(1) show ?thesis by (auto simp: token_pattern_def token_char_def split: list.splits)
qed

lemma validate_conversation_id_ok [accepted]:
  "validate_conversation_id required v = Inr (Some t) \<Longrightarrow>
     8 \<le> length t \<and> length t \<le> 80 \<and> py_is_ascii_alnum (hd t) \<and> list_all token_char t"
  using token_pattern_trimmed [of t]
  by (auto simp: validate_conversation_id_def Let_def result_simps split: json.splits if_splits)


section \<open>Accepted uploads\<close>

text \<open>
  The magic numbers of the formats, byte by byte and without reference to the checks of the code.
  The formats that are not listed (\<open>xlsx\<close>, \<open>xls\<close>, \<open>parquet\<close>, \<open>zip\<close>, \<open>json\<close>, \<open>tsv\<close>, \<open>docx\<close>) have none.
\<close>

definition begins_like :: "string \<Rightarrow> byte list \<Rightarrow> bool" where
  "begins_like ext c \<longleftrightarrow>
     (if ext = ''pdf'' then take 5 c = [0x25, 0x50, 0x44, 0x46, 0x2D]
      else if ext = ''png'' then take 8 c = [0x89, 0x50, 0x4E, 0x47, 0x0D, 0x0A, 0x1A, 0x0A]
      else if ext \<in> {''jpg'', ''jpeg''} then take 3 c = [0xFF, 0xD8, 0xFF]
      else if ext = ''webp'' then take 4 c = [0x52, 0x49, 0x46, 0x46] \<and> take 4 (drop 8 c) = [0x57, 0x45, 0x42, 0x50]
      else if ext = ''gif'' then take 6 c = [0x47, 0x49, 0x46, 0x38, 0x37, 0x61] \<or> take 6 c = [0x47, 0x49, 0x46, 0x38, 0x39, 0x61]
      else if ext = ''bmp'' then take 2 c = [0x42, 0x4D]
      else if ext \<in> {''tif'', ''tiff''} then take 4 c = [0x49, 0x49, 0x2A, 0] \<or> take 4 c = [0x4D, 0x4D, 0, 0x2A]
      else if ext = ''mp3'' then take 3 c = [0x49, 0x44, 0x33] \<or> 2 \<le> length c \<and> c ! 0 = 0xFF \<and> and (c ! 1) 0xE0 = 0xE0
      else if ext = ''wav'' then take 4 c = [0x52, 0x49, 0x46, 0x46] \<and> take 4 (drop 8 c) = [0x57, 0x41, 0x56, 0x45]
      else if ext = ''m4a'' then take 4 (drop 4 c) = [0x66, 0x74, 0x79, 0x70] \<and> 12 \<le> length c
      else if ext = ''webm'' then take 4 c = [0x1A, 0x45, 0xDF, 0xA3]
      else if ext = ''ogg'' then take 4 c = [0x4F, 0x67, 0x67, 0x53]
      else ext = ''flac'' \<and> take 4 c = [0x66, 0x4C, 0x61, 0x43])"

definition checked_formats :: "string list" where
  "checked_formats = [''pdf'', ''png'', ''jpg'', ''jpeg'', ''webp'', ''gif'', ''bmp'', ''tif'', ''tiff'', ''mp3'', ''wav'',
     ''m4a'', ''webm'', ''ogg'', ''flac'']"

lemma lower_extension [simp]: "py_lower (extension_of name) = extension_of name"
  by (simp add: extension_of_def py_lower_def rev_map lower_char_idem)

lemmas signature_defs = is_pdf_def is_png_def is_jpeg_def is_gif_def is_webp_def is_bmp_def is_tiff_def is_mp3_def is_wav_def
  is_m4a_def is_webm_def is_ogg_def is_flac_def

lemma two_bytes: "(case h of a # b # _ \<Rightarrow> P a b | _ \<Rightarrow> False) \<longleftrightarrow> 2 \<le> length h \<and> P (h ! 0) (h ! 1)"
  by (auto split: list.splits)

lemma twelve_bytes: "take 4 (drop 8 c) = [x, y, z, w] \<Longrightarrow> 12 \<le> length c"
  by (drule arg_cong [where f = length]) (simp split: if_splits)

lemma text_codes: "text_bytes ''%PDF-'' = [0x25, 0x50, 0x44, 0x46, 0x2D]" "text_bytes ''GIF87a'' = [0x47, 0x49, 0x46, 0x38, 0x37, 0x61]"
  "text_bytes ''GIF89a'' = [0x47, 0x49, 0x46, 0x38, 0x39, 0x61]" "text_bytes ''RIFF'' = [0x52, 0x49, 0x46, 0x46]"
  "text_bytes ''WEBP'' = [0x57, 0x45, 0x42, 0x50]" "text_bytes ''BM'' = [0x42, 0x4D]" "text_bytes ''ID3'' = [0x49, 0x44, 0x33]"
  "text_bytes ''WAVE'' = [0x57, 0x41, 0x56, 0x45]" "text_bytes ''ftyp'' = [0x66, 0x74, 0x79, 0x70]"
  "text_bytes ''OggS'' = [0x4F, 0x67, 0x67, 0x53]" "text_bytes ''fLaC'' = [0x66, 0x4C, 0x61, 0x43]"
  by (simp_all add: text_bytes_def)

lemma signature_is_magic:
  assumes "(ext, check) \<in> set signature_checks"
  shows "check (take 4096 c) \<longleftrightarrow> begins_like ext c"
proof -
  note simple = signature_defs has_prefix_def text_codes begins_like_def
  have "is_pdf (take 4096 c) = begins_like ''pdf'' c" "is_png (take 4096 c) = begins_like ''png'' c"
    "is_jpeg (take 4096 c) = begins_like ''jpg'' c" "is_jpeg (take 4096 c) = begins_like ''jpeg'' c"
    "is_gif (take 4096 c) = begins_like ''gif'' c" "is_bmp (take 4096 c) = begins_like ''bmp'' c"
    "is_tiff (take 4096 c) = begins_like ''tif'' c" "is_tiff (take 4096 c) = begins_like ''tiff'' c"
    "is_webm (take 4096 c) = begins_like ''webm'' c" "is_ogg (take 4096 c) = begins_like ''ogg'' c"
    "is_flac (take 4096 c) = begins_like ''flac'' c"
    by (simp_all add: simple) (simp_all add: numeral_eq_Suc)
  moreover have "is_webp (take 4096 c) = begins_like ''webp'' c" "is_wav (take 4096 c) = begins_like ''wav'' c"
    using twelve_bytes [of c] by (auto simp: simple has_text_at_def drop_take) (simp_all add: numeral_eq_Suc)
  moreover have "is_m4a (take 4096 c) = begins_like ''m4a'' c" 
    by (auto simp: simple has_text_at_def drop_take) (simp_all add: numeral_eq_Suc)
  moreover have "is_mp3 (take 4096 c) = begins_like ''mp3'' c" 
    by (auto simp: simple two_bytes) (simp_all add: numeral_eq_Suc)
  ultimately show ?thesis using assms unfolding signature_checks_def by auto
qed

lemma checked_keys: "od_get signature_checks ext = None \<longleftrightarrow> ext \<notin> set checked_formats"
  by (simp add: signature_checks_def checked_formats_def)

lemma begins_like_checked: "begins_like ext c \<Longrightarrow> ext \<in> set checked_formats"
  by (auto simp: begins_like_def checked_formats_def split: if_splits)

lemma empty_no_signature: "(ext, check) \<in> set signature_checks \<Longrightarrow> \<not> check []"
  by (auto simp: signature_checks_def signature_defs has_prefix_def text_bytes_def)

lemma not_binary:
  "\<not> looks_like_binary header \<Longrightarrow> 0 \<notin> set header \<and> 20 * length (filter control_byte header) \<le> length header
     \<and> (\<forall>(ext, check) \<in> set signature_checks. \<not> check header)"
proof (cases "header = []")
  case False
  assume quiet: "\<not> looks_like_binary header"
  let ?n = "length header" and ?c = "length (filter control_byte header)"
  have "\<not> 1 / 20 < real ?c / real (max 1 ?n)" using quiet False by (auto simp: looks_like_binary_def)
  moreover have "max 1 ?n = ?n" using False by (cases header) auto
  moreover have "0 < real ?n" using False by simp
  ultimately have "real (20 * ?c) \<le> real ?n" by (simp add: not_less pos_divide_le_eq)
  then have "20 * ?c \<le> ?n" by (simp only: of_nat_le_iff)
  with quiet False show ?thesis by (auto simp: looks_like_binary_def list_ex_iff)
qed (use empty_no_signature in auto)

text \<open>
  Claim C25: an upload that is accepted is what its name says, as far as the code looks. Its extension
  is one of those asked for; it is no larger than the limit; a file of one of the formats with a check
  (PDF, the image and the audio formats) begins with the magic number of its format; and a text
  (\<open>txt\<close>, \<open>md\<close>, \<open>csv\<close>) has, in its first 4096 bytes, no NUL byte and at most one control byte in twenty, and
  does not begin like any of these formats. Every format that document, OCR and audio uploads accept
  is one or the other; \<open>xlsx\<close>, \<open>xls\<close>, \<open>parquet\<close>, \<open>zip\<close>, \<open>json\<close> and \<open>tsv\<close>, which only the chat upload accepts,
  are not looked into, and nothing is said of their content.
\<close>

theorem accepted_upload_is_what_it_claims:
  assumes "validate_file mb field (Some extensions) max_size_mb file = Inr f"
  shows "file = Some f \<and> extension_of (up_filename f) \<in> set (map py_lower extensions)
    \<and> length (up_content f) \<le> max_size_mb * 1024 * 1024
    \<and> (extension_of (up_filename f) \<in> set checked_formats \<longrightarrow> begins_like (extension_of (up_filename f)) (up_content f))
    \<and> (extension_of (up_filename f) \<in> set text_extensions \<longrightarrow>
         0 \<notin> set (take 4096 (up_content f))
         \<and> 20 * length (filter control_byte (take 4096 (up_content f))) \<le> length (take 4096 (up_content f))
         \<and> (\<forall>ext. \<not> begins_like ext (up_content f)))
    \<and> set document_extensions \<union> set ocr_extensions \<union> set audio_extensions \<subseteq> set checked_formats \<union> set text_extensions"
proof -
  from assms obtain g where g: "file = Some g" by (auto simp: validate_file_def split: option.splits)
  from assms have ok: "f = g" "extension_of (up_filename g) \<in> set (map py_lower extensions)"
    "length (up_content g) \<le> max_size_mb * 1024 * 1024" "validate_signature g (extension_of (up_filename g)) field = Inr ()"
    by (auto simp: g validate_file_def Let_def if_error_Inr bindE_eq_Inr)
  let ?ext = "extension_of (up_filename g)" and ?header = "take 4096 (up_content g)"
  have checks: "\<And>check. od_get signature_checks ?ext = Some check \<Longrightarrow> check ?header"
    "?ext \<in> set text_extensions \<Longrightarrow> \<not> looks_like_binary ?header"
    using ok(4) by (auto simp: validate_signature_def read_header_def Let_def if_error_Inr guardE_eq_Inr
        split: option.splits)
  have "begins_like ?ext (up_content g)" if known: "?ext \<in> set checked_formats"
  proof -
    obtain check where "od_get signature_checks ?ext = Some check" using known checked_keys [of ?ext] by (cases "od_get signature_checks ?ext") auto
    then show ?thesis using checks(1) signature_is_magic od_get_Some_mem by metis
  qed
  moreover have "\<not> begins_like ext (up_content g)" if "?ext \<in> set text_extensions" for ext
  proof
    assume like: "begins_like ext (up_content g)"
    then obtain check where check: "od_get signature_checks ext = Some check"
      using begins_like_checked checked_keys [of ext] by (cases "od_get signature_checks ext") auto
    then have "check ?header" using like signature_is_magic od_get_Some_mem by metis
    then show False using not_binary [OF checks(2) [OF that]] od_get_Some_mem [OF check] by blast
  qed
  moreover note not_binary [OF checks(2)]
  moreover have "set document_extensions \<union> set ocr_extensions \<union> set audio_extensions \<subseteq> set checked_formats \<union> set text_extensions"
    by code_simp
  ultimately show ?thesis using g ok(1-3) by blast
qed

definition small_pdf :: upload where
  "small_pdf = \<lparr>up_filename = ''Report.PDF'', up_content = text_bytes ''%PDF-1.7'', up_mime = ''application/pdf''\<rparr>"

theorem accepted_upload_is_what_it_claims_witness:
  "extension_of (up_filename small_pdf) = ''pdf'' \<and> begins_like ''pdf'' (up_content small_pdf)
    \<and> length (up_content small_pdf) \<le> 1 * 1024 * 1024"
proof -
  have ext: "extension_of (up_filename small_pdf) = ''pdf''" by (simp add: small_pdf_def) code_simp
  have signature: "validate_signature small_pdf ''pdf'' ''file'' = Inr ()" by code_simp
  have size: "length (up_content small_pdf) = 8" by (simp add: small_pdf_def text_bytes_def)
  have "py_lower ''pdf'' = ''pdf''" by code_simp
  moreover have "CHR ''.'' \<in> set (up_filename small_pdf)" "up_filename small_pdf \<noteq> []" by (simp_all add: small_pdf_def)
  moreover have "up_mime small_pdf \<in> set (the (od_get allowed_mimes ''pdf''))" "od_get allowed_mimes ''pdf'' \<noteq> None" by code_simp+
  ultimately have "validate_file (\<lambda>_. []) ''file'' (Some [''pdf'']) 1 (Some small_pdf) = Inr small_pdf"
    unfolding validate_file_def Let_def option.case ext by (auto simp: size signature)
  moreover have "''pdf'' \<in> set checked_formats" by (simp add: checked_formats_def)
  ultimately show ?thesis
    using accepted_upload_is_what_it_claims [of "\<lambda>_. []" "''file''" "[''pdf'']" 1 "Some small_pdf" small_pdf] ext by simp
qed

text \<open>
  What the chat upload does not look into: a file with an extension outside the table passes the check
  of its signature whatever it contains. And a text whose first letters are those of a bitmap, \<open>BM\<close>,
  is refused as binary.
\<close>

lemma unchecked_content:
  "ext \<in> {''xlsx'', ''xls'', ''parquet'', ''zip'', ''json'', ''tsv''} \<Longrightarrow> validate_signature f ext field = Inr ()"
  by (auto simp: validate_signature_def signature_checks_def text_extensions_def py_lower_def py_lower_char_def guardE_def)

lemma bitmap_letters_refused:
  "validate_signature \<lparr>up_filename = ''makers.csv'', up_content = text_bytes ''BMW,Audi'', up_mime = ''text/csv''\<rparr> ''csv'' ''file''
     = Inl (invalid ''file sembra un file binario, non un documento testuale'' ''file'')"
  by code_simp

end
