(* ===== verification/Settings_Normalize.thy ===== *)
theory Settings_Normalize
  imports Model_Defaults Validators
begin

text \<open>
  The normalisation of \<open>app/utils/settings_store.py\<close>: default settings, the merge of a document
  with them, and the functions that bring every part of the document into its shape. A document is
  a JSON object; \<open>bi\<close> are the built-in providers the module reads when it is imported, \<open>llm\<close> those
  it reads again at every normalisation.
\<close>

datatype settings_error = NoDictionary | NoIterable | FloatOverflow | NoText

section \<open>Values\<close>

definition as_dict :: "json \<Rightarrow> settings_error + jdict" where
  "as_dict v = (case v of JObj d \<Rightarrow> Inr d | _ \<Rightarrow> Inl NoDictionary)"

text \<open>\<open>for provider in values: ... provider.get(...)\<close>\<close>

definition dict_elements :: "json \<Rightarrow> settings_error + jdict list" where
  "dict_elements v = (case py_iter v of Inl _ \<Rightarrow> Inl NoIterable | Inr xs \<Rightarrow> mapE as_dict xs)"

definition slug :: "(real \<Rightarrow> string) \<Rightarrow> json \<Rightarrow> string" where
  "slug fr v =
     (let cleaned = map (\<lambda>c. if py_isalnum c then py_lower_char c else CHR ''-'') (text_or fr [] v)
      in take 80 (py_join ''-'' (filter (\<lambda>part. part \<noteq> []) (py_split_on CHR ''-'' cleaned))))"

definition true_words :: "string list" where
  "true_words = [''1'', ''true'', ''yes'', ''y'', ''on'', ''enabled'']"

definition as_bool :: "(real \<Rightarrow> string) \<Rightarrow> bool \<Rightarrow> json \<Rightarrow> bool" where
  "as_bool fr dflt v = (case v of
       JNull \<Rightarrow> dflt
     | JBool b \<Rightarrow> b
     | JInt i \<Rightarrow> i \<noteq> 0
     | _ \<Rightarrow> py_lower (py_strip (py_str fr v)) \<in> set true_words)"

definition int_between :: "int \<Rightarrow> int \<Rightarrow> int \<Rightarrow> json \<Rightarrow> int" where
  "int_between lo hi dflt v = max lo (min hi (case py_int v of None \<Rightarrow> dflt | Some i \<Rightarrow> i))"

text \<open>\<open>min(hi, nan)\<close> is \<open>hi\<close>: no comparison with it holds.\<close>

fun clamp :: "real \<Rightarrow> real \<Rightarrow> py_number \<Rightarrow> real" where
  "clamp lo hi (Finite x) = max lo (min hi x)"
| "clamp lo hi (Infinity neg) = (if neg then lo else max lo hi)"
| "clamp lo hi NotANumber = max lo hi"

definition float_between :: "real \<Rightarrow> real \<Rightarrow> real \<Rightarrow> json \<Rightarrow> settings_error + real" where
  "float_between lo hi dflt v = (case py_float v of
       Inl (Some _) \<Rightarrow> Inl FloatOverflow
     | Inl None \<Rightarrow> Inr (clamp lo hi (Finite dflt))
     | Inr x \<Rightarrow> Inr (clamp lo hi x))"

definition choice :: "(real \<Rightarrow> string) \<Rightarrow> string list \<Rightarrow> string \<Rightarrow> json \<Rightarrow> string" where
  "choice fr choices dflt v = (let s = py_strip (text_or fr dflt v) in if s \<in> set choices then s else dflt)"

definition stripped :: "(real \<Rightarrow> string) \<Rightarrow> string \<Rightarrow> json \<Rightarrow> json" where
  "stripped fr dflt v = JStr (py_strip (text_or fr dflt v))"

definition mask_secret :: "string \<Rightarrow> string" where
  "mask_secret s =
     (if s = [] then []
      else if length s \<le> 8 then replicate (length s) CHR ''*''
      else take 4 s @ ''...'' @ drop (length s - 4) s)"

definition parse_models :: "(real \<Rightarrow> string) \<Rightarrow> json \<Rightarrow> string list" where
  "parse_models fr v = first_occurrences [] (map py_strip (listed fr v))"

definition canonical_model :: "string list \<Rightarrow> string \<Rightarrow> string option" where
  "canonical_model models selected =
     (let s = py_strip selected in
      if s = [] then None
      else if s \<in> set models then Some s
      else (case filter (\<lambda>m. py_lower m = py_lower s) models of [m] \<Rightarrow> Some m | _ \<Rightarrow> None))"

definition model_texts :: "(real \<Rightarrow> string) \<Rightarrow> jdict \<Rightarrow> string list" where
  "model_texts fr p = (case jget p ''models'' of JArr xs \<Rightarrow> map (py_str fr) xs | _ \<Rightarrow> [])"

text \<open>The canonical name when there is one; a default that is not listed is put first.\<close>

definition with_default_model :: "string list \<Rightarrow> string \<Rightarrow> string list \<times> string" where
  "with_default_model models dflt = (case canonical_model models dflt of
       Some m \<Rightarrow> (models, m)
     | None \<Rightarrow> (if dflt \<noteq> [] \<and> dflt \<notin> set models then dflt # models else models, dflt))"

definition first_text :: "string list \<Rightarrow> string" where
  "first_text xs = (case xs of [] \<Rightarrow> [] | x # _ \<Rightarrow> x)"

section \<open>Providers\<close>

definition normalize_custom_provider :: "(real \<Rightarrow> string) \<Rightarrow> jdict \<Rightarrow> jdict" where
  "normalize_custom_provider fr p =
     (let pid = slug fr (j_or (jget p ''id'') (jget p ''name''));
          models = parse_models fr (jget_or p ''models'' (JArr []));
          (models, dflt) = with_default_model models (py_strip (text_or fr (first_text models) (jget p ''default_model'')))
      in [(''id'', JStr pid),
          (''name'', stripped fr pid (jget p ''name'')),
          (''type'', stripped fr compatible (jget p ''type'')),
          (''base_url'', JStr (normalize_base_url fr (jget p ''base_url''))),
          (''api_key_env'', stripped fr [] (jget p ''api_key_env'')),
          (''requires_api_key'', JBool (as_bool fr False (jget p ''requires_api_key''))),
          (''api_key'', stripped fr [] (jget p ''api_key'')),
          (''models'', texts models),
          (''default_model'', JStr dflt),
          (''enabled'', JBool (as_bool fr True (jget p ''enabled'')))])"

definition sync_interval_seconds :: "jdict \<Rightarrow> int" where
  "sync_interval_seconds s =
     (if od_get s ''sync_interval_seconds'' \<noteq> None then int_between 0 2592000 0 (jget s ''sync_interval_seconds'')
      else let minutes = (case py_int (jget_or s ''sync_interval_minutes'' (JInt 0)) of None \<Rightarrow> 0 | Some m \<Rightarrow> m)
           in int_between 0 2592000 0 (JInt (minutes * 60)))"

definition dict_or_empty :: "json \<Rightarrow> jdict" where
  "dict_or_empty v = (case v of JObj d \<Rightarrow> d | _ \<Rightarrow> [])"

definition is_secret_ref :: "json \<Rightarrow> bool" where
  "is_secret_ref v = (case v of JObj d \<Rightarrow> truthy (jget d ''ref'') | _ \<Rightarrow> False)"

definition normalize_data_source :: "(real \<Rightarrow> string) \<Rightarrow> jdict \<Rightarrow> jdict" where
  "normalize_data_source fr s =
     (let sid = slug fr (j_or (jget s ''id'') (jget s ''name'')) in
      [(''id'', JStr sid),
       (''knowledge_base_id'', stripped fr ''default'' (jget s ''knowledge_base_id'')),
       (''name'', stripped fr sid (jget s ''name'')),
       (''plugin'', stripped fr [] (jget s ''plugin'')),
       (''enabled'', JBool (as_bool fr True (jget s ''enabled''))),
       (''sync_enabled'', JBool (as_bool fr False (jget s ''sync_enabled''))),
       (''sync_interval_seconds'', JInt (sync_interval_seconds s)),
       (''config'', JObj (dict_or_empty (jget s ''config''))),
       (''secrets_env'', JObj (map (\<lambda>(k, v). (k, JStr (py_strip (py_str fr v)))) (dict_or_empty (jget s ''secrets_env'')))),
       (''secrets'', JObj (filter (\<lambda>(k, v). is_secret_ref v) (dict_or_empty (jget s ''secrets'')))),
       (''cursor'', JObj (dict_or_empty (jget s ''cursor''))),
       (''last_sync'', stripped fr [] (jget s ''last_sync'')),
       (''last_sync_status'', stripped fr [] (jget s ''last_sync_status'')),
       (''next_sync_at'', stripped fr [] (jget s ''next_sync_at'')),
       (''last_error'', stripped fr [] (jget s ''last_error''))])"

definition normalize_embedding_provider :: "(real \<Rightarrow> string) \<Rightarrow> jdict \<Rightarrow> jdict" where
  "normalize_embedding_provider fr p =
     od_set ''dimensions'' (JInt (int_between 0 1000000 0 (jget p ''dimensions''))) (normalize_custom_provider fr p)"

definition reranker_mode :: "(real \<Rightarrow> string) \<Rightarrow> json \<Rightarrow> string" where
  "reranker_mode fr v = normalize_reranker_mode fr v"

definition normalize_reranker_provider :: "(real \<Rightarrow> string) \<Rightarrow> jdict \<Rightarrow> jdict" where
  "normalize_reranker_provider fr p =
     od_set ''reranker_mode'' (JStr (reranker_mode fr (jget p ''reranker_mode''))) (normalize_custom_provider fr p)"

definition voice_formats :: "string list" where
  "voice_formats = [''mp3'', ''wav'', ''opus'', ''aac'', ''flac'']"

definition voice_format :: "(real \<Rightarrow> string) \<Rightarrow> string \<Rightarrow> json \<Rightarrow> string" where
  "voice_format fr dflt v = (let s = py_lower (py_strip (text_or fr dflt v)) in if s \<in> set voice_formats then s else dflt)"

definition voice_language :: "(real \<Rightarrow> string) \<Rightarrow> json \<Rightarrow> string" where
  "voice_language fr v =
     (let s = py_replace_char CHR ''_'' CHR ''-'' (py_lower (py_strip (text_or fr [] v)))
      in if s = [] \<or> 16 < length s \<or> \<not> list_all (\<lambda>c. py_isalnum c \<or> c = CHR ''-'') s then [] else s)"

definition or_text :: "string \<Rightarrow> string \<Rightarrow> string" where
  "or_text s dflt = (if s = [] then dflt else s)"

text \<open>\<open>provider.get("name") or provider.get("id") or ""\<close>\<close>

definition name_or_id :: "(real \<Rightarrow> string) \<Rightarrow> jdict \<Rightarrow> json" where
  "name_or_id fr p = stripped fr [] (j_or (jget p ''name'') (jget p ''id''))"

definition normalize_voice_provider :: "(real \<Rightarrow> string) \<Rightarrow> jdict \<Rightarrow> jdict" where
  "normalize_voice_provider fr p = [
     (''id'', JStr (slug fr (j_or (jget p ''id'') (jget p ''name'')))),
     (''name'', name_or_id fr p),
     (''type'', stripped fr compatible (jget p ''type'')),
     (''base_url'', JStr (normalize_base_url fr (jget p ''base_url''))),
     (''api_key_env'', stripped fr [] (jget p ''api_key_env'')),
     (''requires_api_key'', JBool (as_bool fr True (jget p ''requires_api_key''))),
     (''api_key'', stripped fr [] (jget p ''api_key'')),
     (''stt_model'', stripped fr [] (jget p ''stt_model'')),
     (''stt_language'', JStr (voice_language fr (jget p ''stt_language''))),
     (''tts_model'', stripped fr [] (jget p ''tts_model'')),
     (''voice'', JStr (or_text (py_strip (text_or fr ''alloy'' (jget p ''voice''))) ''alloy'')),
     (''format'', JStr (voice_format fr ''mp3'' (jget p ''format''))),
     (''enabled'', JBool (as_bool fr True (jget p ''enabled'')))]"

definition ocr_mode :: "(real \<Rightarrow> string) \<Rightarrow> json \<Rightarrow> string" where
  "ocr_mode fr v = normalize_ocr_mode fr v"

fun distinct_allowed :: "string list \<Rightarrow> string list \<Rightarrow> string list \<Rightarrow> string list" where
  "distinct_allowed allowed acc [] = acc"
| "distinct_allowed allowed acc (x # xs) =
     distinct_allowed allowed (if x \<in> set allowed \<and> x \<notin> set acc then acc @ [x] else acc) xs"

definition ocr_input_types :: "(real \<Rightarrow> string) \<Rightarrow> json \<Rightarrow> string list" where
  "ocr_input_types fr v =
     (let found = distinct_allowed [''image'', ''pdf''] [] (map (py_lower \<circ> py_strip) (listed fr v))
      in if found = [] then [''image'', ''pdf''] else found)"

definition normalize_ocr_provider :: "(real \<Rightarrow> string) \<Rightarrow> jdict \<Rightarrow> jdict" where
  "normalize_ocr_provider fr p =
     (let models = parse_models fr (jget_or p ''models'' (JArr []));
          (models, dflt) = with_default_model models (py_strip (text_or fr (first_text models) (jget p ''default_model'')))
      in [(''id'', JStr (slug fr (j_or (jget p ''id'') (jget p ''name'')))),
          (''name'', name_or_id fr p),
          (''type'', stripped fr compatible (jget p ''type'')),
          (''base_url'', JStr (normalize_base_url fr (jget p ''base_url''))),
          (''api_key_env'', stripped fr [] (jget p ''api_key_env'')),
          (''requires_api_key'', JBool (as_bool fr True (jget p ''requires_api_key''))),
          (''api_key'', stripped fr [] (jget p ''api_key'')),
          (''models'', texts models),
          (''default_model'', JStr dflt),
          (''ocr_mode'', JStr (ocr_mode fr (jget p ''ocr_mode''))),
          (''input_types'', texts (ocr_input_types fr (jget p ''input_types''))),
          (''output_format'', JStr (or_text (py_strip (text_or fr ''text'' (jget p ''output_format''))) ''text'')),
          (''supports_layout'', JBool (as_bool fr False (jget p ''supports_layout''))),
          (''supports_tables'', JBool (as_bool fr False (jget p ''supports_tables''))),
          (''enabled'', JBool (as_bool fr True (jget p ''enabled'')))])"

end
