(* ===== verification/Secret_Store.thy ===== *)
theory Secret_Store
  imports Bytes Knowledge_Bases Settings_Normalize "HOL-Library.List_Lexorder" "HOL-Library.Char_ord"
begin

unbundle bit_operations_syntax

text \<open>
  \<open>app/utils/secret_store.py\<close>: the encrypted JSON file of connector credentials. HMAC-SHA256 is a
  parameter \<open>mac\<close>, of which only the size of its result is assumed (32 bytes); random bytes and
  identifiers are arguments. The file lock makes every operation one step.
\<close>

section \<open>The key stream\<close>

datatype secret_error =
    InvalidArchive
  | AuthenticationFailed
  | MissingField
  | NotText
  | NotBase64
  | NotUtf8
  | CounterOverflow

text \<open>\<open>counter.to_bytes(8, "big")\<close>\<close>

definition counter_bytes :: "nat \<Rightarrow> byte list" where
  "counter_bytes n = map (\<lambda>i. word_of_nat (n div 256 ^ i)) [7, 6, 5, 4, 3, 2, 1, 0]"

text \<open>
  The loop of \<open>_keystream\<close>; the value \<open>None\<close> would be a loop that never ends, which the code has
  when \<open>mac\<close> returns no bytes.
\<close>

partial_function (option) keystream_loop ::
  "(byte list \<Rightarrow> byte list \<Rightarrow> byte list) \<Rightarrow> byte list \<Rightarrow> byte list \<Rightarrow> nat \<Rightarrow> nat \<Rightarrow> byte list list
    \<Rightarrow> (secret_error + byte list) option" where
  "keystream_loop mac key nonce len counter chunks =
     (if sum_list (map length chunks) < len
      then (if 256 ^ 8 \<le> counter then Some (Inl CounterOverflow)
            else keystream_loop mac key nonce len (counter + 1) (chunks @ [mac key (nonce @ counter_bytes counter)]))
      else Some (Inr (take len (concat chunks))))"



definition keystream ::
  "(byte list \<Rightarrow> byte list \<Rightarrow> byte list) \<Rightarrow> byte list \<Rightarrow> byte list \<Rightarrow> nat \<Rightarrow> (secret_error + byte list) option" where
  "keystream mac key nonce len = keystream_loop mac key nonce len 0 []"

section \<open>Encryption\<close>

definition xor_bytes :: "byte list \<Rightarrow> byte list \<Rightarrow> byte list" where
  "xor_bytes bs stream = map2 (XOR) bs stream"

definition encrypt ::
  "(byte list \<Rightarrow> byte list \<Rightarrow> byte list) \<Rightarrow> byte list \<Rightarrow> byte list \<Rightarrow> string \<Rightarrow> (secret_error + json) option" where
  "encrypt mac key nonce value =
     (let raw = utf8_encode value
      in map_option (\<lambda>r. bindE r (\<lambda>stream.
           let ciphertext = xor_bytes raw stream; tag = mac key (nonce @ ciphertext)
           in Inr (JObj [(''nonce'', JStr (b64_encode nonce)), (''ciphertext'', JStr (b64_encode ciphertext)),
                         (''tag'', JStr (b64_encode tag))])))
         (keystream mac key nonce (length raw)))"

text \<open>\<open>base64.b64decode(payload[k])\<close>\<close>

definition payload_bytes :: "jdict \<Rightarrow> string \<Rightarrow> secret_error + byte list" where
  "payload_bytes d k = (case od_get d k of
       None \<Rightarrow> Inl MissingField
     | Some (JStr s) \<Rightarrow> (case b64_decode s of None \<Rightarrow> Inl NotBase64 | Some bs \<Rightarrow> Inr bs)
     | Some _ \<Rightarrow> Inl NotText)"

definition open_payload ::
  "(byte list \<Rightarrow> byte list \<Rightarrow> byte list) \<Rightarrow> byte list \<Rightarrow> json \<Rightarrow> secret_error + byte list \<times> byte list" where
  "open_payload mac key payload = (case payload of
       JObj d \<Rightarrow> bindE (payload_bytes d ''nonce'') (\<lambda>nonce.
                 bindE (payload_bytes d ''ciphertext'') (\<lambda>ciphertext.
                 bindE (payload_bytes d ''tag'') (\<lambda>tag.
                 bindE (guardE (tag = mac key (nonce @ ciphertext)) AuthenticationFailed) (\<lambda>_.
                 Inr (nonce, ciphertext)))))
     | _ \<Rightarrow> Inl NotText)"

definition decrypt ::
  "(byte list \<Rightarrow> byte list \<Rightarrow> byte list) \<Rightarrow> byte list \<Rightarrow> json \<Rightarrow> (secret_error + string) option" where
  "decrypt mac key payload = (case open_payload mac key payload of
       Inl e \<Rightarrow> Some (Inl e)
     | Inr (nonce, ciphertext) \<Rightarrow>
         map_option (\<lambda>r. bindE r (\<lambda>stream. case utf8_decode (xor_bytes ciphertext stream) of
             None \<Rightarrow> Inl NotUtf8 | Some t \<Rightarrow> Inr t))
           (keystream mac key nonce (length ciphertext)))"

section \<open>The file\<close>

record secret_store =
  ss_mac :: "byte list \<Rightarrow> byte list \<Rightarrow> byte list"
  ss_key :: "byte list"
  ss_file :: json_file

definition load_secrets :: "secret_store \<Rightarrow> secret_error + jdict" where
  "load_secrets s = (case ss_file s of
       None \<Rightarrow> Inr []
     | Some (Some (JObj d)) \<Rightarrow> Inr d
     | Some _ \<Rightarrow> Inl InvalidArchive)"

text \<open>The file is written with its keys in order.\<close>

definition save_secrets :: "jdict \<Rightarrow> secret_store \<Rightarrow> secret_store" where
  "save_secrets d s = s\<lparr>ss_file := Some (Some (JObj (sort_key fst d)))\<rparr>"

definition secret_ref :: "string \<Rightarrow> string \<Rightarrow> string" where
  "secret_ref owner name =
     (let clean = map (\<lambda>c. if py_isalnum c \<or> c \<in> set ''._:-'' then c else CHR ''-'') (if name = [] then ''secret'' else name);
          stripped = py_strip_chars ''-'' clean
      in owner @ '':'' @ (if stripped = [] then ''secret'' else stripped))"

section \<open>Operations\<close>

definition put_secret :: "byte list \<Rightarrow> string \<Rightarrow> string \<Rightarrow> secret_store \<Rightarrow> (secret_error + string) option \<times> secret_store" where
  "put_secret nonce ref value s = (case load_secrets s of
       Inl e \<Rightarrow> (Some (Inl e), s)
     | Inr d \<Rightarrow> (case encrypt (ss_mac s) (ss_key s) nonce value of
           None \<Rightarrow> (None, s)
         | Some (Inl e) \<Rightarrow> (Some (Inl e), s)
         | Some (Inr p) \<Rightarrow> (Some (Inr ref), save_secrets (od_set ref p d) s)))"

definition set_secret ::
  "byte list \<Rightarrow> string \<Rightarrow> string \<Rightarrow> string \<Rightarrow> secret_store \<Rightarrow> (secret_error + string) option \<times> secret_store" where
  "set_secret nonce owner name value s = put_secret nonce (secret_ref owner name) value s"

definition create_secret ::
  "string \<Rightarrow> byte list \<Rightarrow> string \<Rightarrow> string \<Rightarrow> string \<Rightarrow> secret_store \<Rightarrow> (secret_error + string) option \<times> secret_store" where
  "create_secret uid nonce owner name value s = put_secret nonce (secret_ref owner name @ '':v:'' @ uid) value s"

definition get_secret :: "string \<Rightarrow> secret_store \<Rightarrow> (secret_error + string) option" where
  "get_secret ref s = (case load_secrets s of
       Inl e \<Rightarrow> Some (Inl e)
     | Inr d \<Rightarrow> (let payload = jget d ref
                 in if truthy payload then decrypt (ss_mac s) (ss_key s) payload else Some (Inr [])))"

definition delete_owner :: "string \<Rightarrow> secret_store \<Rightarrow> (secret_error + nat) \<times> secret_store" where
  "delete_owner owner s = (case load_secrets s of
       Inl e \<Rightarrow> (Inl e, s)
     | Inr d \<Rightarrow> let keys = filter (\<lambda>k. py_startswith k (owner @ '':'')) (map fst d)
                in (Inr (length keys), save_secrets (od_pop_all keys d) s))"

definition delete_secret :: "string \<Rightarrow> secret_store \<Rightarrow> (secret_error + bool) \<times> secret_store" where
  "delete_secret ref s =
     (if ref = [] then (Inr False, s)
      else case load_secrets s of
             Inl e \<Rightarrow> (Inl e, s)
           | Inr d \<Rightarrow> if od_get d ref = None then (Inr False, s)
                      else (Inr True, save_secrets (od_pop ref d) s))"

section \<open>The stream ends\<close>

text \<open>The documented size of an HMAC-SHA256 tag.\<close>

definition mac_size_ok :: "(byte list \<Rightarrow> byte list \<Rightarrow> byte list) \<Rightarrow> bool" where
  "mac_size_ok mac \<longleftrightarrow> (\<forall>k m. length (mac k m) = 32)"

lemma keystream_loop_ends:
  assumes mac: "mac_size_ok mac" and small: "len \<le> 32 * 256 ^ 8"
  shows "sum_list (map length chunks) = 32 * counter
    \<Longrightarrow> \<exists>bs. keystream_loop mac key nonce len counter chunks = Some (Inr bs) \<and> length bs = len"
proof (induction "len - 32 * counter" arbitrary: counter chunks rule: less_induct)
  case less
  show ?case
  proof (cases "32 * counter < len")
    case False
    then have "len \<le> length (concat chunks)" using less.prems by (simp add: length_concat)
    with False less.prems show ?thesis by (subst keystream_loop.simps) simp
  next
    case True
    let ?cs = "chunks @ [mac key (nonce @ counter_bytes counter)]"
    have "sum_list (map length ?cs) = 32 * (counter + 1)" using less.prems mac by (simp add: mac_size_ok_def)
    moreover have "len - 32 * (counter + 1) < len - 32 * counter" using True by simp
    ultimately obtain bs where "keystream_loop mac key nonce len (counter + 1) ?cs = Some (Inr bs)" "length bs = len"
      using less.hyps by blast
    moreover have "\<not> 256 ^ 8 \<le> counter" using True small by simp
    ultimately show ?thesis using True less.prems by (subst keystream_loop.simps) simp
  qed
qed

lemma keystream_ends:
  assumes "mac_size_ok mac" and "len \<le> 32 * 256 ^ 8"
  obtains bs where "keystream mac key nonce len = Some (Inr bs)" "length bs = len"
  using keystream_loop_ends [OF assms, of "[]" 0] unfolding keystream_def by auto

lemma xor_twice: "length ks = length bs \<Longrightarrow> xor_bytes (xor_bytes bs ks) ks = bs"
  unfolding xor_bytes_def by (induction bs ks rule: list_induct2') (simp_all add: xor.assoc)

lemma decrypt_encrypt:
  assumes mac: "mac_size_ok mac" and small: "length (utf8_encode value) \<le> 32 * 256 ^ 8"
  shows "\<exists>p. encrypt mac key nonce value = Some (Inr p) \<and> truthy p \<and> decrypt mac key p = Some (Inr value)"
proof -
  let ?raw = "utf8_encode value"
  obtain ks where ks: "keystream mac key nonce (length ?raw) = Some (Inr ks)" "length ks = length ?raw"
    by (rule keystream_ends [OF mac small])
  have len: "length (xor_bytes ?raw ks) = length ?raw" using ks(2) by (simp add: xor_bytes_def)
  let ?p = "JObj [(''nonce'', JStr (b64_encode nonce)), (''ciphertext'', JStr (b64_encode (xor_bytes ?raw ks))),
     (''tag'', JStr (b64_encode (mac key (nonce @ xor_bytes ?raw ks))))]"
  have "encrypt mac key nonce value = Some (Inr ?p)" by (simp add: encrypt_def Let_def ks(1))
  moreover have "open_payload mac key ?p = Inr (nonce, xor_bytes ?raw ks)"
    by (simp add: open_payload_def payload_bytes_def b64_round_trip guardE_def)
  then have "decrypt mac key ?p = Some (Inr value)"
    using ks xor_twice [OF ks(2)] by (simp add: decrypt_def len utf8_round_trip)
  ultimately show ?thesis by simp
qed

section \<open>Lookups in the sorted file\<close>

lemma set_sorted: "set (sort_key fst d) = set d"
  by simp

lemma map_of_eq_set: "distinct (map fst d) \<Longrightarrow> distinct (map fst e) \<Longrightarrow> set d = set e \<Longrightarrow> map_of d = map_of e"
  by (simp add: map_of_inject_set)

lemma distinct_sorted: "distinct (map fst (d :: jdict)) \<Longrightarrow> distinct (map fst (sort_key fst d))"
  by (metis distinct_map distinct_sort set_sort sorted_sort_key)

lemma load_saved:
  assumes "od_wf (d :: jdict)"
  shows "\<exists>e. load_secrets (save_secrets d s) = Inr e \<and> od_wf e \<and> od_get e = od_get d"
proof -
  have "distinct (map fst (sort_key fst d))" using assms by (intro distinct_sorted) simp
  with assms map_of_eq_set [of "sort_key fst d" d] show ?thesis
    by (simp add: load_secrets_def save_secrets_def)
qed

section \<open>What the store promises\<close>

lemma get_secret_of_load:
  "load_secrets s = Inr d \<Longrightarrow> load_secrets t = Inr e \<Longrightarrow> od_get e r = od_get d r \<Longrightarrow> ss_mac t = ss_mac s \<Longrightarrow>
   ss_key t = ss_key s \<Longrightarrow> get_secret r t = get_secret r s"
  by (simp add: get_secret_def jget_def Let_def)

lemma save_keeps_keys [simp]: "ss_mac (save_secrets d s) = ss_mac s" "ss_key (save_secrets d s) = ss_key s"
  by (simp_all add: save_secrets_def)

lemma get_after_save:
  assumes "load_secrets s = Inr d" and "od_wf d'" and "od_get d' r = od_get d r"
  shows "get_secret r (save_secrets d' s) = get_secret r s"
  using load_saved [OF assms(2), of s] assms get_secret_of_load [of s d "save_secrets d' s" _ r] by auto

lemma put_secret_readable:
  assumes mac: "mac_size_ok (ss_mac s)" and load: "load_secrets s = Inr d" "od_wf d"
    and small: "length (utf8_encode value) \<le> 32 * 256 ^ 8"
  shows "\<exists>s'. put_secret nonce ref value s = (Some (Inr ref), s') \<and> get_secret ref s' = Some (Inr value)
    \<and> (\<forall>r. r \<noteq> ref \<longrightarrow> get_secret r s' = get_secret r s)"
proof -
  obtain p where p: "encrypt (ss_mac s) (ss_key s) nonce value = Some (Inr p)" "truthy p"
    "decrypt (ss_mac s) (ss_key s) p = Some (Inr value)"
    using decrypt_encrypt [OF mac small] by blast
  let ?s' = "save_secrets (od_set ref p d) s"
  have "put_secret nonce ref value s = (Some (Inr ref), ?s')" using load p by (simp add: put_secret_def)
  moreover obtain e where "load_secrets ?s' = Inr e" "od_get e = od_get (od_set ref p d)"
    using load_saved [of "od_set ref p d" s] load(2) by blast
  then have "get_secret ref ?s' = Some (Inr value)" using p by (simp add: get_secret_def jget_def)
  moreover have "get_secret r ?s' = get_secret r s" if "r \<noteq> ref" for r
    using that load by (intro get_after_save [OF load(1)]) simp_all
  ultimately show ?thesis by blast
qed

text \<open>
  Claim C23: a credential that is stored can be read back, and storing it changes no other
  credential. Hypotheses: the file is readable and the tags have their documented size.
\<close>

theorem stored_secret_is_read_back:
  assumes "mac_size_ok (ss_mac s)" and "load_secrets s = Inr d" and "od_wf d"
    and "length (utf8_encode value) \<le> 32 * 256 ^ 8"
  shows "\<exists>s'. set_secret nonce owner name value s = (Some (Inr (secret_ref owner name)), s')
    \<and> get_secret (secret_ref owner name) s' = Some (Inr value)
    \<and> (\<forall>r. r \<noteq> secret_ref owner name \<longrightarrow> get_secret r s' = get_secret r s)"
  unfolding set_secret_def by (rule put_secret_readable [OF assms])

definition sample_store :: secret_store where
  "sample_store = \<lparr>ss_mac = (\<lambda>k m. replicate 32 (word_of_nat (length m))), ss_key = utf8_encode ''key'', ss_file = None\<rparr>"

lemma sample_store_ok: "mac_size_ok (ss_mac sample_store)" "load_secrets sample_store = Inr []"
  by (simp_all add: sample_store_def mac_size_ok_def load_secrets_def)

theorem stored_secret_is_read_back_witness:
  "\<exists>s'. set_secret [1, 2] ''src'' ''pass word'' ''p4ss'' sample_store = (Some (Inr ''src:pass-word''), s')
    \<and> get_secret ''src:pass-word'' s' = Some (Inr ''p4ss'')"
proof -
  have "secret_ref ''src'' ''pass word'' = ''src:pass-word''" by code_simp
  moreover have "length (utf8_encode ''p4ss'') = 4" by code_simp
  ultimately show ?thesis
    using stored_secret_is_read_back [OF sample_store_ok, of "''p4ss''" "[1, 2]" "''src''" "''pass word''"] by simp blast
qed


section \<open>Deleting the secrets of an owner\<close>

text \<open>An owner's references: \<open>secret_ref\<close> puts the owner and a colon first.\<close>

lemma secret_ref_prefix: "py_startswith (secret_ref owner name) (owner @ '':'')"
  by (simp add: secret_ref_def Let_def py_startswith_iff)

lemma delete_owner_result:
  assumes "load_secrets s = Inr d" and "od_wf d"
  shows "\<exists>s'. delete_owner owner s = (Inr (length (filter (\<lambda>k. py_startswith k (owner @ '':'')) (map fst d))), s')
    \<and> (\<forall>r. get_secret r s' = (if py_startswith r (owner @ '':'') then Some (Inr []) else get_secret r s))"
proof -
  let ?keys = "filter (\<lambda>k. py_startswith k (owner @ '':'')) (map fst d)"
  let ?d = "od_pop_all ?keys d"
  let ?s = "save_secrets ?d s"
  have gone: "od_get ?d r = None" if "py_startswith r (owner @ '':'')" for r
    using that by (auto simp: map_of_eq_None_iff image_iff)
  have kept: "od_get ?d r = od_get d r" if "\<not> py_startswith r (owner @ '':'')" for r
    using that by auto
  obtain e where e: "load_secrets ?s = Inr e" "od_get e = od_get ?d" using load_saved [of ?d s] assms(2) by auto
  have "get_secret r ?s = (if py_startswith r (owner @ '':'') then Some (Inr []) else get_secret r s)" for r
    using e gone [of r] kept [of r] get_after_save [OF assms(1), of ?d r] assms(2)
    by (auto simp: get_secret_def jget_def)
  moreover have "delete_owner owner s = (Inr (length ?keys), ?s)" using assms(1) by (simp add: delete_owner_def Let_def)
  ultimately show ?thesis by blast
qed


text \<open>
  The owners in use: the default knowledge base of a workspace files its credentials under the
  workspace, any other under the workspace and its own identifier (\<open>_data_source_from_form\<close> in
  \<open>app/app.py\<close>); the name of a credential is that of its data source, whose identifier is a
  \<open>slug\<close>, and of the field.
\<close>

definition secret_owner :: "string \<Rightarrow> string \<Rightarrow> string" where
  "secret_owner workspace kb = (if kb \<noteq> ''default'' then workspace @ '':'' @ kb else workspace)"

definition source_secret :: "string \<Rightarrow> string \<Rightarrow> string \<Rightarrow> string \<Rightarrow> string" where
  "source_secret workspace kb source secret_name = secret_ref (secret_owner workspace kb) (source @ '':'' @ secret_name)"

definition colon_free :: "string \<Rightarrow> bool" where
  "colon_free s \<longleftrightarrow> CHR '':'' \<notin> set s"

definition source_id_ok :: "string \<Rightarrow> bool" where
  "source_id_ok i \<longleftrightarrow> i \<noteq> [] \<and> hd i \<noteq> CHR ''-'' \<and> list_all (\<lambda>c. py_isalnum c \<or> c = CHR ''-'') i"

lemma alnum_chars: "\<not> py_isalnum CHR '':''" "\<not> py_isalnum CHR ''-''" "\<not> py_isalnum CHR ''_''"
  by code_simp+

lemma lower_alnum: "py_isalnum c \<Longrightarrow> py_isalnum (py_lower_char c)"
proof -
  let ?n = "of_char c :: nat"
  assume alnum: "py_isalnum c"
  show ?thesis
  proof (cases "65 \<le> ?n \<and> ?n \<le> 90 \<or> 192 \<le> ?n \<and> ?n \<le> 222 \<and> ?n \<noteq> 215")
    case True
    then have "of_char (char_of (?n + 32) :: char) = ?n + 32" by (auto simp: of_char_of)
    with True show ?thesis
      by (auto simp: py_lower_char_def Let_def py_isalnum_def py_is_ascii_alnum_def)
  next
    case False
    then have "py_lower_char c = c" unfolding py_lower_char_def Let_def by (rule if_not_P)
    with alnum show ?thesis by simp
  qed
qed

lemma split_on_free: "\<forall>w \<in> set (py_split_on c s). c \<notin> set w \<and> set w \<subseteq> set s"
  by (induction s) (auto split: list.splits)

lemma join_parts:
  "\<forall>w \<in> set ws. w \<noteq> [] \<and> list_all P w \<Longrightarrow> P' c \<Longrightarrow> (\<And>x. P x \<Longrightarrow> P' x) \<Longrightarrow>
    list_all P' (py_join [c] ws) \<and> (ws \<noteq> [] \<longrightarrow> py_join [c] ws \<noteq> [] \<and> P (hd (py_join [c] ws)))"
  by (induction "[c]" ws rule: py_join.induct) (auto simp: list_all_iff)

text \<open>A slug is empty or such an identifier.\<close>

lemma slug_source_id: "slug fr v \<noteq> [] \<Longrightarrow> source_id_ok (slug fr v)"
proof -
  let ?cleaned = "map (\<lambda>c. if py_isalnum c then py_lower_char c else CHR ''-'') (text_or fr [] v)"
  let ?parts = "filter (\<lambda>part. part \<noteq> []) (py_split_on CHR ''-'' ?cleaned)"
  let ?P = "\<lambda>c. py_isalnum c \<or> c = CHR ''-''" and ?joined = "py_join ''-'' ?parts"
  have cleaned: "?P c" if "c \<in> set ?cleaned" for c using that lower_alnum by (auto split: if_splits)
  have "\<forall>w \<in> set ?parts. w \<noteq> [] \<and> list_all py_isalnum w"
  proof
    fix w assume w: "w \<in> set ?parts"
    then have "CHR ''-'' \<notin> set w \<and> set w \<subseteq> set ?cleaned" using split_on_free [of "CHR ''-''" ?cleaned] by simp
    then show "w \<noteq> [] \<and> list_all py_isalnum w" using w cleaned unfolding list_all_iff set_filter by blast
  qed
  from join_parts [OF this, of ?P "CHR ''-''"]
  have parts: "list_all ?P ?joined" "?parts \<noteq> [] \<Longrightarrow> py_isalnum (hd ?joined)" by blast+
  assume ne: "slug fr v \<noteq> []"
  then have "?parts \<noteq> []" by (intro notI) (simp add: slug_def Let_def)
  then have "py_isalnum (hd ?joined)" by (rule parts(2))
  moreover have "slug fr v = take 80 ?joined" by (simp add: slug_def Let_def)
  moreover from this ne have "hd (slug fr v) = hd ?joined" by (simp add: hd_take)
  moreover have "list_all ?P (take 80 ?joined)" using parts(1) unfolding list_all_iff by (blast dest: in_set_takeD)
  ultimately show "source_id_ok (slug fr v)" using ne alnum_chars(2) unfolding source_id_ok_def by metis
qed

lemma strip_after_colon:
  assumes "u \<noteq> []" and "hd u \<noteq> CHR ''-''"
  shows "\<exists>v. py_strip_chars ''-'' (u @ '':'' @ t) = u @ '':'' @ v"
proof -
  let ?drop = "dropWhile (\<lambda>c. c \<in> set ''-'')"
  have "?drop (u @ '':'' @ t) = u @ '':'' @ t" using assms by (cases u) auto
  moreover have "\<exists>w. ?drop (rev t @ CHR '':'' # rev u) = w @ CHR '':'' # rev u"
    by (auto simp: dropWhile_append)
  ultimately show ?thesis by (auto simp: py_strip_chars_def)
qed

lemma source_secret_parts:
  assumes "source_id_ok source"
  shows "\<exists>v. source_secret w kb source secret_name = secret_owner w kb @ '':'' @ source @ '':'' @ v"
proof -
  let ?clean = "map (\<lambda>c. if py_isalnum c \<or> c \<in> set ''._:-'' then c else CHR ''-'')"
  have "?clean source = source" using assms by (intro map_idI) (auto simp: source_id_ok_def list_all_iff)
  moreover have "?clean '':'' = '':''" by simp
  ultimately have "?clean (source @ '':'' @ secret_name) = source @ '':'' @ ?clean secret_name" by simp
  moreover obtain v where "py_strip_chars ''-'' (source @ '':'' @ ?clean secret_name) = source @ '':'' @ v"
    using strip_after_colon [of source] assms by (auto simp: source_id_ok_def)
  ultimately show ?thesis by (auto simp: source_secret_def secret_ref_def Let_def)
qed

text \<open>Whose credential a reference is can be read off its first parts.\<close>

lemma starts_with_owner:
  assumes "colon_free w" "colon_free w'" "source_id_ok source"
  shows "py_startswith (source_secret w' kb' source secret_name @ version) (w @ '':'') \<longleftrightarrow> w' = w"
proof -
  obtain v where v: "source_secret w' kb' source secret_name = secret_owner w' kb' @ '':'' @ source @ '':'' @ v"
    using source_secret_parts [OF assms(3)] by blast
  have "\<exists>u. source_secret w' kb' source secret_name = w' @ [CHR '':''] @ u"
    unfolding v by (cases "kb' = ''default''") (simp_all add: secret_owner_def)
  then obtain u where u: "source_secret w' kb' source secret_name = w' @ [CHR '':''] @ u" by blast
  have "w' = w" if "w' @ [CHR '':''] @ u @ version = w @ [CHR '':''] @ v" for v
    using prefix_parts [OF that] assms(1,2) by (simp add: colon_free_def)
  then show ?thesis by (auto simp: u py_startswith_iff)
qed

lemma kb_no_colon: "kb = default_id \<or> kb_id_pattern kb \<Longrightarrow> CHR '':'' \<notin> set kb"
proof -
  have hex: "c \<noteq> CHR '':''" if "py_is_hex_lower c" for c
  proof
    assume "c = CHR '':''"
    moreover have "\<not> py_is_hex_lower CHR '':''" by code_simp
    ultimately show False using that by simp
  qed
  have "CHR '':'' \<notin> set kb" if kb: "kb_id_pattern kb"
  proof
    assume "CHR '':'' \<in> set kb"
    moreover have "set kb = set (take 3 kb) \<union> set (drop 3 kb)" by (metis append_take_drop_id set_append)
    moreover have "CHR '':'' \<notin> set (take 3 kb)" using kb by (simp add: kb_id_pattern_def)
    ultimately have "CHR '':'' \<in> set (drop 3 kb)" by blast
    moreover have "list_all py_is_hex_lower (drop 3 kb)" using kb by (simp add: kb_id_pattern_def hex32_def)
    ultimately show False using hex unfolding list_all_iff by blast
  qed
  then show "kb = default_id \<or> kb_id_pattern kb \<Longrightarrow> CHR '':'' \<notin> set kb" by (auto simp: default_id_def)
qed

lemma starts_with_kb:
  assumes "colon_free w" "colon_free w'" "kb_id_pattern kb" "kb' = default_id \<or> kb_id_pattern kb'" "source_id_ok source"
  shows "py_startswith (source_secret w' kb' source secret_name @ version) (secret_owner w kb @ '':'') \<longleftrightarrow> w' = w \<and> kb' = kb"
proof -
  let ?second = "if kb' = ''default'' then source else kb'"
  obtain v where v: "source_secret w' kb' source secret_name = secret_owner w' kb' @ '':'' @ source @ '':'' @ v"
    using source_secret_parts [OF assms(5)] by blast
  have "\<exists>u. source_secret w' kb' source secret_name @ version = w' @ [CHR '':''] @ ?second @ [CHR '':''] @ u"
    unfolding v by (cases "kb' = ''default''") (simp_all add: secret_owner_def)
  then obtain u where u: "source_secret w' kb' source secret_name @ version = w' @ [CHR '':''] @ ?second @ [CHR '':''] @ u" by blast
  have "CHR ''_'' \<in> set (take 3 kb)" using assms(3) by (simp add: kb_id_pattern_def)
  then have underscore: "CHR ''_'' \<in> set kb" by (rule in_set_takeD)
  have kb: "kb \<noteq> ''default''" using assms(3) by (auto simp: kb_id_pattern_def)
  have source: "CHR '':'' \<notin> set source" "CHR ''_'' \<notin> set source"
    using assms(5) alnum_chars by (auto simp: source_id_ok_def list_all_iff)
  have second: "CHR '':'' \<notin> set ?second" using source(1) kb_no_colon [OF assms(4)] by simp
  have "w' = w \<and> ?second = kb" if v: "w' @ [CHR '':''] @ ?second @ [CHR '':''] @ u = w @ [CHR '':''] @ kb @ [CHR '':''] @ v" for v
  proof -
    from prefix_parts [OF v] assms(1,2) have "w' = w" and rest: "?second @ [CHR '':''] @ u = kb @ [CHR '':''] @ v"
      unfolding colon_free_def by blast+
    moreover have "?second = kb" using prefix_parts [OF rest second] kb_no_colon [of kb] assms(3) by blast
    ultimately show ?thesis by blast
  qed
  moreover have "?second = kb \<longleftrightarrow> kb' = kb" using kb underscore source(2) by auto
  ultimately have "py_startswith (source_secret w' kb' source secret_name @ version) (secret_owner w kb @ '':'') \<Longrightarrow> w' = w \<and> kb' = kb"
    unfolding u using kb by (auto simp: py_startswith_iff secret_owner_def)
  moreover have "py_startswith (source_secret w kb source secret_name @ version) (secret_owner w kb @ '':'')"
    using source_secret_parts [OF assms(5), of w kb secret_name] by (auto simp: py_startswith_iff)
  ultimately show ?thesis by blast
qed

text \<open>
  Claim C24: deleting credentials is exact. The owners are those of the application: a workspace for
  its default knowledge base; the workspace, a colon and the knowledge base for another one. Deleting
  the owner of a knowledge base other than the default one leaves none of the credentials of its data
  sources, and every credential of a data source of any other knowledge base, of the same workspace
  or another, as it was. Deleting a workspace leaves none of the credentials of any of its knowledge
  bases, and those of the other workspaces as they were. (The archive can be read and has no key
  twice; workspace identifiers have no colon; data sources have a slug as identifier.)
\<close>

theorem owner_deletion_is_exact:
  assumes "load_secrets s = Inr d" and "od_wf d" and "colon_free w" and "kb_id_pattern kb"
  shows "(\<exists>n s'. delete_owner (secret_owner w kb) s = (Inr n, s') \<and>
      (\<forall>w' kb' fr v secret_name version. colon_free w' \<longrightarrow> kb' = default_id \<or> kb_id_pattern kb' \<longrightarrow> slug fr v \<noteq> [] \<longrightarrow>
        get_secret (source_secret w' kb' (slug fr v) secret_name @ version) s' =
          (if w' = w \<and> kb' = kb then Some (Inr [])
           else get_secret (source_secret w' kb' (slug fr v) secret_name @ version) s)))
    \<and> (\<exists>n s'. delete_owner w s = (Inr n, s') \<and>
      (\<forall>w' kb' fr v secret_name version. colon_free w' \<longrightarrow> slug fr v \<noteq> [] \<longrightarrow>
        get_secret (source_secret w' kb' (slug fr v) secret_name @ version) s' =
          (if w' = w then Some (Inr []) else get_secret (source_secret w' kb' (slug fr v) secret_name @ version) s)))"
proof -
  obtain n s1 where one: "delete_owner (secret_owner w kb) s = (Inr n, s1)"
    "\<And>r. get_secret r s1 = (if py_startswith r (secret_owner w kb @ '':'') then Some (Inr []) else get_secret r s)"
    using delete_owner_result [OF assms(1,2), of "secret_owner w kb"] by blast
  obtain m s2 where all: "delete_owner w s = (Inr m, s2)"
    "\<And>r. get_secret r s2 = (if py_startswith r (w @ '':'') then Some (Inr []) else get_secret r s)"
    using delete_owner_result [OF assms(1,2), of w] by blast
  show ?thesis
    using one(1) all(1) starts_with_kb [OF assms(3) _ assms(4) _ slug_source_id] starts_with_owner [OF assms(3) _ slug_source_id]
    by (simp add: one(2) all(2))
qed

definition demo_kb :: "char \<Rightarrow> string" where
  "demo_kb c = ''kb_'' @ replicate 32 c"

definition demo_secret :: "char \<Rightarrow> string" where
  "demo_secret c = ''w:'' @ demo_kb c @ '':imap:x''"

definition two_owners :: secret_store where
  "two_owners = save_secrets [(demo_secret CHR ''1'', JObj [(''tag'', JStr '''')]), (demo_secret CHR ''2'', JObj [(''nonce'', JNull)])] sample_store"

theorem owner_deletion_is_exact_witness:
  "\<exists>n s'. delete_owner (''w:'' @ demo_kb CHR ''1'') two_owners = (Inr n, s') \<and> get_secret (demo_secret CHR ''1'') s' = Some (Inr [])
    \<and> get_secret (demo_secret CHR ''2'') s' = Some (Inl NotText)"
proof -
  let ?d = "[(demo_secret CHR ''1'', JObj [(''tag'', JStr '''')]), (demo_secret CHR ''2'', JObj [(''nonce'', JNull)])]"
  have load: "load_secrets two_owners = Inr ?d" by code_simp
  have refs: "source_secret ''w'' (demo_kb CHR ''1'') (slug (\<lambda>_. []) (JStr ''IMAP'')) ''x'' = demo_secret CHR ''1''"
    "source_secret ''w'' (demo_kb CHR ''2'') (slug (\<lambda>_. []) (JStr ''IMAP'')) ''x'' = demo_secret CHR ''2''" by code_simp+
  have ids: "colon_free ''w''" "kb_id_pattern (demo_kb CHR ''1'')" "kb_id_pattern (demo_kb CHR ''2'')"
    "slug (\<lambda>_. []) (JStr ''IMAP'') \<noteq> []" "od_wf ?d" "secret_owner ''w'' (demo_kb CHR ''1'') = ''w:'' @ demo_kb CHR ''1''" by code_simp+
  have before: "get_secret (demo_secret CHR ''2'') two_owners = Some (Inl NotText)"
    using load by (simp add: get_secret_def jget_def decrypt_def open_payload_def payload_bytes_def demo_secret_def demo_kb_def)
  obtain n s' where "delete_owner (secret_owner ''w'' (demo_kb CHR ''1'')) two_owners = (Inr n, s')"
    and kept: "\<forall>w' kb' fr v secret_name version. colon_free w' \<longrightarrow> kb' = default_id \<or> kb_id_pattern kb' \<longrightarrow> slug fr v \<noteq> [] \<longrightarrow>
        get_secret (source_secret w' kb' (slug fr v) secret_name @ version) s' =
          (if w' = ''w'' \<and> kb' = demo_kb CHR ''1'' then Some (Inr [])
           else get_secret (source_secret w' kb' (slug fr v) secret_name @ version) two_owners)"
    using owner_deletion_is_exact [OF load ids(5,1,2)] by blast
  have after: "get_secret (source_secret ''w'' kb' (slug (\<lambda>_. []) (JStr ''IMAP'')) ''x'') s' =
      (if kb' = demo_kb CHR ''1'' then Some (Inr [])
       else get_secret (source_secret ''w'' kb' (slug (\<lambda>_. []) (JStr ''IMAP'')) ''x'') two_owners)"
    if "kb_id_pattern kb'" for kb'
    using kept [rule_format, of "''w''" kb' "\<lambda>_. []" "JStr ''IMAP''" "''x''" "[]"] ids(1,4) that by simp
  note \<open>delete_owner (secret_owner ''w'' (demo_kb CHR ''1'')) two_owners = (Inr n, s')\<close>
  moreover have "demo_kb CHR ''2'' \<noteq> demo_kb CHR ''1''" by (simp add: demo_kb_def)
  ultimately show ?thesis using after [OF ids(2)] after [OF ids(3)] refs before ids(6) by auto
qed

end
