(* ===== verification/Settings_Document.thy ===== *)
theory Settings_Document
  imports Settings_Normalize
begin

text \<open>
  The settings document as a whole: defaults, merge, the choice of default providers and models,
  and \<open>SettingsStore._normalize\<close>. \<open>bi\<close> are the built-in providers of the module, \<open>llm\<close> the
  language-model providers \<open>load_builtin_provider_definitions\<close> returns when it is called again, or
  nothing when it raises.
\<close>

section \<open>Defaults\<close>

abbreviation minilm :: string where "minilm \<equiv> ''sentence-transformers/all-MiniLM-L6-v2''"
abbreviation bge :: string where "bge \<equiv> ''BAAI/bge-reranker-v2-m3''"

definition first_llm_provider :: "(real \<Rightarrow> string) \<Rightarrow> builtins \<Rightarrow> string \<times> string" where
  "first_llm_provider fr bi = (case bi_llm bi of [] \<Rightarrow> ([], [])
     | (pid, p) # _ \<Rightarrow> (pid, py_str fr (jget_or p ''default_model'' (JStr []))))"

definition first_embedding_provider :: "builtins \<Rightarrow> json \<times> json" where
  "first_embedding_provider bi = (case bi_embedding bi of [] \<Rightarrow> (JStr ''local'', JStr minilm)
     | p # _ \<Rightarrow> (jget_or p ''id'' (JStr []), jget_or p ''default_model'' (JStr [])))"

definition first_reranker_provider :: "builtins \<Rightarrow> jdict" where
  "first_reranker_provider bi = (case bi_reranker bi of
       [] \<Rightarrow> [(''id'', JStr ''local''), (''default_model'', JStr bge), (''name'', JStr ''Local BGE'')]
     | p # _ \<Rightarrow> p)"

definition first_voice_provider :: "builtins \<Rightarrow> jdict" where
  "first_voice_provider bi = (case bi_voice bi of
       [] \<Rightarrow> [(''id'', JStr []), (''base_url'', JStr []), (''stt_model'', JStr []), (''stt_language'', JStr []),
            (''tts_model'', JStr []), (''voice'', JStr ''alloy''), (''format'', JStr ''mp3'')]
     | p # _ \<Rightarrow> p)"

definition first_ocr_provider :: "builtins \<Rightarrow> jdict" where
  "first_ocr_provider bi = (case bi_ocr bi of
       [] \<Rightarrow> [(''id'', JStr []), (''name'', JStr []), (''base_url'', JStr []), (''api_key_env'', JStr []),
            (''requires_api_key'', JBool True), (''models'', JArr []), (''default_model'', JStr []),
            (''ocr_mode'', JStr ''vision_chat''), (''input_types'', texts [''image'', ''pdf'']),
            (''output_format'', JStr ''text''), (''supports_layout'', JBool False), (''supports_tables'', JBool False)]
     | p # _ \<Rightarrow> p)"

definition default_reranker_model_value :: "(real \<Rightarrow> string) \<Rightarrow> jdict \<Rightarrow> string" where
  "default_reranker_model_value fr p =
     (let pid = text_or fr ''local'' (jget p ''id''); model = text_or fr [] (jget p ''default_model'')
      in if pid \<noteq> [] \<and> pid \<noteq> ''local'' \<and> model \<noteq> [] then pid @ ''/'' @ model else or_text model bge)"

definition default_rag :: "(real \<Rightarrow> string) \<Rightarrow> builtins \<Rightarrow> jdict" where
  "default_rag fr bi =
     (let (llm, llm_model) = first_llm_provider fr bi; (emb, emb_model) = first_embedding_provider bi;
          rer = first_reranker_provider bi
      in [(''embedding_model'', emb_model), (''embedding_provider'', emb), (''chunk_size'', JInt 1000),
          (''chunk_overlap'', JInt 150), (''query_k'', JInt 5), (''temperature'', JFloat (3 / 10)),
          (''default_provider'', JStr llm), (''default_model'', JStr llm_model), (''enable_cache'', JBool True),
          (''cache_ttl'', JInt 3600), (''use_internal_knowledge'', JBool False), (''reranker_enabled'', JBool False),
          (''reranker_type'', JStr (text_or fr ''local'' (jget rer ''id''))),
          (''reranker_model'', JStr (default_reranker_model_value fr rer)), (''reranker_top_n'', JInt 20),
          (''reranker_diversity_mode'', JStr ''none''), (''reranker_mmr_lambda'', JFloat (7 / 10)),
          (''reranker_mmr_candidate_pool'', JInt 80), (''reranker_threshold'', JFloat 0),
          (''reranker_api_key'', JStr []), (''reranker_regolo_api_key'', JStr [])])"

definition default_voice :: "builtins \<Rightarrow> jdict" where
  "default_voice bi = (let v = first_voice_provider bi in
     [(''provider'', jget_or v ''id'' (JStr [])), (''enabled'', JBool True),
      (''base_url'', jget_or v ''base_url'' (JStr [])), (''api_key_env'', jget_or v ''api_key_env'' (JStr [])),
      (''requires_api_key'', jget_or v ''requires_api_key'' (JBool True)), (''api_key'', JStr []),
      (''stt_model'', jget_or v ''stt_model'' (JStr [])), (''stt_language'', jget_or v ''stt_language'' (JStr [])),
      (''tts_model'', jget_or v ''tts_model'' (JStr [])), (''voice'', jget_or v ''voice'' (JStr ''alloy'')),
      (''format'', jget_or v ''format'' (JStr ''mp3''))])"

definition default_ocr :: "builtins \<Rightarrow> jdict" where
  "default_ocr bi = (let p = first_ocr_provider bi in
     [(''provider'', jget_or p ''id'' (JStr [])), (''enabled'', JBool (truthy (jget p ''id''))),
      (''auto_on_empty_pdf'', JBool True), (''base_url'', jget_or p ''base_url'' (JStr [])),
      (''api_key_env'', jget_or p ''api_key_env'' (JStr [])), (''requires_api_key'', jget_or p ''requires_api_key'' (JBool True)),
      (''api_key'', JStr []), (''models'', jget_or p ''models'' (JArr [])),
      (''default_model'', jget_or p ''default_model'' (JStr [])), (''ocr_mode'', jget_or p ''ocr_mode'' (JStr ''vision_chat'')),
      (''input_types'', jget_or p ''input_types'' (texts [''image'', ''pdf''])),
      (''output_format'', jget_or p ''output_format'' (JStr ''text'')),
      (''supports_layout'', JBool (truthy (jget p ''supports_layout''))),
      (''supports_tables'', JBool (truthy (jget p ''supports_tables'')))])"

definition default_settings :: "(real \<Rightarrow> string) \<Rightarrow> builtins \<Rightarrow> jdict" where
  "default_settings fr bi = [
     (''version'', JInt 1), (''rag'', JObj (default_rag fr bi)),
     (''auth'', JObj [(''admin_password_hash'', JStr []), (''api_keys'', JArr [])]),
     (''custom_providers'', JArr []), (''embedding_providers'', JArr []), (''reranker_providers'', JArr []),
     (''voice_providers'', JArr []), (''ocr_providers'', JArr []),
     (''voice'', JObj (default_voice bi)), (''ocr'', JObj (default_ocr bi)),
     (''data_sources'', JArr []), (''updated_at'', JStr [])]"

text \<open>\<open>_deep_merge\<close>: dictionaries merge key by key, any other value is replaced.\<close>

function deep_merge :: "jdict \<Rightarrow> jdict \<Rightarrow> jdict" where
  "deep_merge base [] = base"
| "deep_merge base ((k, v) # rest) =
     deep_merge (od_set k (case (v, od_get base k) of
         (JObj o', Some (JObj b)) \<Rightarrow> JObj (deep_merge b o')
       | _ \<Rightarrow> v) base) rest"
  by pat_completeness auto
termination
  by (relation "measure (\<lambda>(b, o'). size_list (size_prod (\<lambda>_. 0) size) o')") auto

section \<open>Voice and recognition of texts\<close>

text \<open>\<open>a == b\<close> for a truth value or number \<open>b\<close>, which the default is.\<close>

definition py_scalar_eq :: "json \<Rightarrow> json \<Rightarrow> bool" where
  "py_scalar_eq a b = config_equal (Plain a) b"

definition provider_definitions :: "(real \<Rightarrow> string) \<Rightarrow> jdict list \<Rightarrow> jdict list \<Rightarrow> providers" where
  "provider_definitions fr builtin custom =
     fold (\<lambda>p ps. let pid = py_strip (text_or fr [] (jget p ''id'')) in
        if truthy (jget_or p ''enabled'' (JBool True)) \<and> pid \<noteq> [] then od_set pid p ps else ps) custom
       (fold (\<lambda>p ps. let pid = py_strip (text_or fr [] (jget p ''id'')) in if pid \<noteq> [] then od_set pid p ps else ps) builtin [])"

text \<open>The selected provider, or the first one, or the unknown selection when there is none.\<close>

definition known_provider :: "providers \<Rightarrow> string \<Rightarrow> string" where
  "known_provider ps selected =
     (if od_get ps selected \<noteq> None then selected else case ps of [] \<Rightarrow> selected | (pid, _) # _ \<Rightarrow> pid)"

text \<open>
  \<open>_voice_value\<close> and \<open>_ocr_value\<close>: a value that is still the default of the default provider gives
  way to the one of the selected provider.
\<close>

definition section_value :: "(real \<Rightarrow> string) \<Rightarrow> jdict \<Rightarrow> jdict \<Rightarrow> jdict \<Rightarrow> string \<Rightarrow> string \<Rightarrow> string \<Rightarrow> string" where
  "section_value fr defaults settings provider_defaults k dflt selected =
     (let v = py_strip (text_or fr [] (jget settings k)); pv = py_strip (text_or fr [] (jget provider_defaults k));
          dp = py_strip (text_or fr [] (jget defaults ''provider'')); dv = py_strip (text_or fr [] (jget defaults k))
      in if pv \<noteq> [] \<and> selected \<noteq> dp \<and> v = dv then pv else or_text v (or_text pv dflt))"

definition section_requires_key :: "(real \<Rightarrow> string) \<Rightarrow> jdict \<Rightarrow> jdict \<Rightarrow> jdict \<Rightarrow> string \<Rightarrow> bool" where
  "section_requires_key fr defaults settings pd selected =
     (let r = jget settings ''requires_api_key'';
          r = (if selected \<noteq> py_strip (text_or fr [] (jget defaults ''provider'')) \<and> py_scalar_eq r (jget defaults ''requires_api_key'')
               then jget pd ''requires_api_key'' else r)
      in as_bool fr (truthy (jget_or pd ''requires_api_key'' (JBool True))) r)"

definition normalize_voice_settings :: "(real \<Rightarrow> string) \<Rightarrow> builtins \<Rightarrow> jdict \<Rightarrow> jdict list \<Rightarrow> jdict" where
  "normalize_voice_settings fr bi s custom =
     (let ps = provider_definitions fr (bi_voice bi) custom;
          sel = known_provider ps (py_strip (text_or fr [] (jget s ''provider'')));
          pd = (case od_get ps sel of Some p \<Rightarrow> p | None \<Rightarrow> first_voice_provider bi);
          val = (\<lambda>k dflt. section_value fr (default_voice bi) s pd k dflt sel)
      in [(''provider'', JStr sel),
          (''name'', stripped fr sel (jget pd ''name'')),
          (''type'', stripped fr compatible (jget pd ''type'')),
          (''enabled'', JBool (as_bool fr True (jget s ''enabled''))),
          (''base_url'', JStr (py_rstrip_char CHR ''/'' (val ''base_url'' []))),
          (''api_key_env'', JStr (val ''api_key_env'' [])),
          (''requires_api_key'', JBool (section_requires_key fr (default_voice bi) s pd sel)),
          (''api_key'', JStr (py_strip (py_str fr (j_or (jget s ''api_key'') (j_or (jget pd ''api_key'') (JStr [])))))),
          (''stt_model'', JStr (val ''stt_model'' [])),
          (''stt_language'', JStr (if od_get s ''stt_language'' \<noteq> None then voice_language fr (jget s ''stt_language'')
             else voice_language fr (JStr (val ''stt_language'' [])))),
          (''tts_model'', JStr (val ''tts_model'' [])),
          (''voice'', JStr (or_text (val ''voice'' ''alloy'') ''alloy'')),
          (''format'', JStr (voice_format fr ''mp3'' (JStr (val ''format'' ''mp3''))))])"

definition normalize_ocr_settings :: "(real \<Rightarrow> string) \<Rightarrow> builtins \<Rightarrow> jdict \<Rightarrow> jdict list \<Rightarrow> jdict" where
  "normalize_ocr_settings fr bi s custom =
     (let ps = provider_definitions fr (bi_ocr bi) custom; d = default_ocr bi;
          sel = known_provider ps (py_strip (text_or fr [] (jget s ''provider'')));
          pd = (case od_get ps sel of Some p \<Rightarrow> p | None \<Rightarrow> first_ocr_provider bi);
          models = parse_models fr (jget_or pd ''models'' (JArr []));
          configured = py_strip (text_or fr [] (jget s ''default_model''));
          configured = (if sel \<noteq> py_strip (text_or fr [] (jget d ''provider''))
              \<and> configured = py_strip (text_or fr [] (jget d ''default_model'')) then [] else configured);
          dflt = py_strip (py_str fr (j_or (JStr configured) (j_or (jget pd ''default_model'') (JStr (first_text models)))));
          (models, dflt) = with_default_model models dflt;
          val = (\<lambda>k dflt. section_value fr d s pd k dflt sel)
      in [(''provider'', JStr sel),
          (''name'', stripped fr sel (jget pd ''name'')),
          (''type'', stripped fr compatible (jget pd ''type'')),
          (''enabled'', JBool (as_bool fr False (jget s ''enabled''))),
          (''auto_on_empty_pdf'', JBool (as_bool fr True (jget s ''auto_on_empty_pdf''))),
          (''base_url'', JStr (py_rstrip_char CHR ''/'' (val ''base_url'' []))),
          (''api_key_env'', JStr (val ''api_key_env'' [])),
          (''requires_api_key'', JBool (section_requires_key fr d s pd sel)),
          (''api_key'', JStr (py_strip (py_str fr (j_or (jget s ''api_key'') (j_or (jget pd ''api_key'') (JStr [])))))),
          (''models'', texts models),
          (''default_model'', JStr dflt),
          (''ocr_mode'', JStr (ocr_mode fr (j_or (jget s ''ocr_mode'') (jget pd ''ocr_mode'')))),
          (''input_types'', texts (ocr_input_types fr (j_or (jget s ''input_types'') (jget pd ''input_types'')))),
          (''output_format'', JStr (py_strip (py_str fr (j_or (jget s ''output_format'') (j_or (jget pd ''output_format'') (JStr ''text'')))))),
          (''supports_layout'', JBool (as_bool fr (truthy (jget pd ''supports_layout'')) (jget s ''supports_layout''))),
          (''supports_tables'', JBool (as_bool fr (truthy (jget pd ''supports_tables'')) (jget s ''supports_tables'')))])"


section \<open>Choices\<close>

definition builtin_ids :: "(real \<Rightarrow> string) \<Rightarrow> builtins \<Rightarrow> string list" where
  "builtin_ids fr bi = map (py_str fr) (filter truthy (map (\<lambda>p. jget p ''id'') (bi_embedding bi)))"

definition embedding_provider_choice :: "(real \<Rightarrow> string) \<Rightarrow> builtins \<Rightarrow> json \<Rightarrow> jdict list \<Rightarrow> string" where
  "embedding_provider_choice fr bi v custom =
     (let ids = builtin_ids fr bi;
          sel = (case ids of [] \<Rightarrow> ''local'' | i # _ \<Rightarrow> py_strip (text_or fr i v));
          custom_ids = map (\<lambda>p. py_str fr (jget p ''id''))
            (filter (\<lambda>p. truthy (jget p ''id'') \<and> truthy (jget_or p ''enabled'' (JBool True))) custom)
      in if sel \<in> set ids \<or> sel = ''local'' \<or> sel \<in> set custom_ids then sel
         else case ids of [] \<Rightarrow> ''local'' | i # _ \<Rightarrow> i)"

definition builtin_embedding_model :: "(real \<Rightarrow> string) \<Rightarrow> builtins \<Rightarrow> string \<Rightarrow> string" where
  "builtin_embedding_model fr bi pid = (case find (\<lambda>p. jget p ''id'' = JStr pid) (bi_embedding bi) of
       None \<Rightarrow> [] | Some p \<Rightarrow> py_str fr (jget_or p ''default_model'' (JStr [])))"

definition embedding_model_for_provider :: "(real \<Rightarrow> string) \<Rightarrow> builtins \<Rightarrow> string \<Rightarrow> json \<Rightarrow> jdict list \<Rightarrow> string" where
  "embedding_model_for_provider fr bi pid model custom =
     (let sel = py_strip (text_or fr [] model); builtin = builtin_embedding_model fr bi pid in
      if pid = ''local'' then (if py_startswith sel ''sentence-transformers/'' then sel else minilm)
      else if builtin \<noteq> [] then builtin
      else case find (\<lambda>p. jget p ''id'' = JStr pid \<and> truthy (jget_or p ''enabled'' (JBool True))) custom of
        Some p \<Rightarrow> (case canonical_model (model_texts fr p) sel of
            Some m \<Rightarrow> m
          | None \<Rightarrow> text_or fr (case model_texts fr p of [] \<Rightarrow> sel | m # _ \<Rightarrow> m) (jget p ''default_model''))
      | None \<Rightarrow> or_text (builtin_embedding_model fr bi ''local'') minilm)"

definition enabled_custom :: "jdict list \<Rightarrow> jdict list" where
  "enabled_custom custom = filter (\<lambda>p. truthy (jget_or p ''enabled'' (JBool True))) custom"

definition reranker_definitions :: "(real \<Rightarrow> string) \<Rightarrow> builtins \<Rightarrow> jdict list \<Rightarrow> providers" where
  "reranker_definitions fr bi custom =
     fold (\<lambda>p ps. let i = jget p ''id'' in od_set (py_str fr i)
         [(''id'', i), (''name'', j_or (jget p ''name'') i), (''models'', jget_or p ''models'' (JArr [])),
          (''default_model'', jget_or p ''default_model'' (JStr [])), (''base_url'', jget_or p ''base_url'' (JStr [])),
          (''api_key'', jget_or p ''api_key'' (JStr [])),
          (''reranker_mode'', jget_or p ''reranker_mode'' (JStr ''chat_completions''))] ps) (enabled_custom custom)
       (fold (\<lambda>p ps. let pid = py_strip (text_or fr [] (jget p ''id'')) in if pid = [] then ps else od_set pid p ps)
         (bi_reranker bi)
         [(''local'', [(''id'', JStr ''local''), (''name'', JStr ''Local BGE''), (''models'', texts [bge]), (''default_model'', JStr bge)])])"

text \<open>\<open>value.split("/", 1)\<close>\<close>

definition split_once :: "char \<Rightarrow> string \<Rightarrow> string \<times> string" where
  "split_once c s = (takeWhile (\<lambda>d. d \<noteq> c) s, tl (dropWhile (\<lambda>d. d \<noteq> c) s))"

text \<open>The model a provider offers for a selection: its canonical name, its default, its first.\<close>

definition offered_model :: "(real \<Rightarrow> string) \<Rightarrow> jdict \<Rightarrow> string \<Rightarrow> string" where
  "offered_model fr p sel = text_or fr (case model_texts fr p of [] \<Rightarrow> sel | m # _ \<Rightarrow> m) (jget p ''default_model'')"

definition first_known :: "providers \<Rightarrow> string \<Rightarrow> string \<Rightarrow> string" where
  "first_known ps pid dflt =
     (if od_get ps pid \<noteq> None then pid else if od_get ps dflt \<noteq> None then dflt
      else case ps of [] \<Rightarrow> [] | (i, _) # _ \<Rightarrow> i)"

definition provider_in :: "providers \<Rightarrow> string \<Rightarrow> jdict" where
  "provider_in ps pid = (case od_get ps pid of None \<Rightarrow> [] | Some p \<Rightarrow> p)"

definition normalize_reranker_default :: "(real \<Rightarrow> string) \<Rightarrow> builtins \<Rightarrow> jdict list \<Rightarrow> jdict \<Rightarrow> jdict" where
  "normalize_reranker_default fr bi custom rag =
     (let ps = reranker_definitions fr bi custom; d = default_rag fr bi;
          v = py_strip (py_str fr (j_or (jget rag ''reranker_model'') (jget d ''reranker_model'')));
          ty = py_strip (py_str fr (j_or (jget rag ''reranker_type'') (jget d ''reranker_type'')));
          (ty, v) = (if CHR ''/'' \<in> set v \<and> od_get ps (fst (split_once CHR ''/'' v)) \<noteq> None then split_once CHR ''/'' v else (ty, v));
          ty = first_known ps ty (py_str fr (jget d ''reranker_type''));
          p = provider_in ps ty;
          model = (case canonical_model (model_texts fr p) v of Some m \<Rightarrow> m | None \<Rightarrow> offered_model fr p v)
      in od_set ''reranker_model'' (JStr (if ty = ''local'' then ''local/'' @ model else if model = [] then ty else ty @ ''/'' @ model))
           (od_set ''reranker_type'' (JStr ty) rag))"

definition llm_definitions :: "(real \<Rightarrow> string) \<Rightarrow> providers option \<Rightarrow> jdict list \<Rightarrow> providers" where
  "llm_definitions fr llm custom = (case llm of
       None \<Rightarrow> []
     | Some builtin \<Rightarrow> fold (\<lambda>p ps. let i = jget p ''id'' in od_set (py_str fr i)
           [(''name'', j_or (jget p ''name'') i), (''type'', JStr compatible), (''models'', jget_or p ''models'' (JArr [])),
            (''default_model'', jget_or p ''default_model'' (JStr []))] ps) (enabled_custom custom) builtin)"

definition find_canonical_model :: "(real \<Rightarrow> string) \<Rightarrow> providers \<Rightarrow> string \<Rightarrow> string \<Rightarrow> (string \<times> string) option" where
  "find_canonical_model fr ps sel preferred =
     (let hit = (\<lambda>(pid, p). map_option (Pair pid) (canonical_model (model_texts fr p) sel)) in
      if sel = [] then None
      else case Option.bind (od_get ps preferred) (\<lambda>p. hit (preferred, p)) of
        Some r \<Rightarrow> Some r
      | None \<Rightarrow> (case List.map_filter hit ps of [] \<Rightarrow> None | r # _ \<Rightarrow> Some r))"

definition normalize_llm_default :: "(real \<Rightarrow> string) \<Rightarrow> builtins \<Rightarrow> providers option \<Rightarrow> jdict list \<Rightarrow> jdict \<Rightarrow> jdict" where
  "normalize_llm_default fr bi llm custom rag =
     (let ps = llm_definitions fr llm custom; d = py_str fr (jget (default_rag fr bi) ''default_provider'');
          pid = py_strip (text_or fr d (jget rag ''default_provider'')); sel = py_strip (text_or fr [] (jget rag ''default_model''))
      in if ps = [] then rag
         else case find_canonical_model fr ps sel pid of
           Some (i, m) \<Rightarrow> od_set ''default_model'' (JStr m) (od_set ''default_provider'' (JStr i) rag)
         | None \<Rightarrow> (let i = first_known ps pid d; p = provider_in ps i
             in od_set ''default_model'' (JStr (offered_model fr p sel)) (od_set ''default_provider'' (JStr i) rag)))"

end
