(* ===== verification/Settings_Store.thy ===== *)
theory Settings_Store
  imports Settings_Document "HOL-Library.List_Lexorder" "HOL-Library.Char_ord"
begin

text \<open>
  \<open>SettingsStore\<close> of \<open>app/utils/settings_store.py\<close>: the normalisation of a whole document and the
  operations on its file. The lock of the file makes every operation one step; \<open>now\<close> is the text of
  the clock.
\<close>

section \<open>Normalising a document\<close>

definition api_scope_names :: "string list" where
  "api_scope_names = [''query'', ''ingest'', ''speech'', ''kb_manage'', ''agent_manage'', ''history_read'', ''history_manage'']"

definition normalize_api_key_scopes :: "(real \<Rightarrow> string) \<Rightarrow> jdict \<Rightarrow> string list" where
  "normalize_api_key_scopes fr item =
     (let values = (case jget item ''scopes'' of
          JStr s \<Rightarrow> py_splitlines [] (py_replace_char CHR '','' CHR 0x0A s)
        | JArr xs \<Rightarrow> map (py_str fr) xs
        | _ \<Rightarrow> []);
        found = distinct_allowed api_scope_names [] (map (py_lower \<circ> py_strip) values)
      in if found = [] then [''query''] else found)"

definition normalize_api_key :: "(real \<Rightarrow> string) \<Rightarrow> jdict \<Rightarrow> jdict" where
  "normalize_api_key fr item =
     (let scopes = normalize_api_key_scopes fr item in
      [(''name'', stripped fr ''default'' (jget item ''name'')),
       (''key'', stripped fr [] (jget item ''key'')),
       (''enabled'', JBool (as_bool fr True (jget item ''enabled''))),
       (''scopes'', texts scopes),
       (''can_upload'', JBool (''ingest'' \<in> set scopes))])"

definition dicts :: "jdict list \<Rightarrow> json" where
  "dicts ds = JArr (map JObj ds)"

definition with_key :: "string \<Rightarrow> jdict list \<Rightarrow> jdict list" where
  "with_key k ds = filter (\<lambda>d. truthy (jget d k)) ds"

definition section_list :: "(jdict \<Rightarrow> jdict) \<Rightarrow> string \<Rightarrow> jdict \<Rightarrow> settings_error + jdict list" where
  "section_list shape k settings = bindE (dict_elements (jget_or settings k (JArr []))) (\<lambda>ps. Inr (with_key ''id'' (map shape ps)))"

text \<open>The first source of every id is kept.\<close>

fun first_sources :: "json list \<Rightarrow> jdict list \<Rightarrow> jdict list" where
  "first_sources seen [] = []"
| "first_sources seen (d # ds) =
     (if truthy (jget d ''id'') \<and> jget d ''id'' \<notin> set seen then d # first_sources (jget d ''id'' # seen) ds
      else first_sources seen ds)"

definition section_dict :: "string \<Rightarrow> jdict \<Rightarrow> settings_error + jdict" where
  "section_dict k settings = as_dict (jget_or settings k (JObj []))"

definition diversity_modes :: "string list" where
  "diversity_modes = [''none'', ''source_diversity'', ''mmr'']"

definition set_int :: "string \<Rightarrow> int \<Rightarrow> int \<Rightarrow> int \<Rightarrow> jdict \<Rightarrow> jdict" where
  "set_int k lo hi dflt rag = od_set k (JInt (int_between lo hi dflt (jget rag k))) rag"

definition set_float :: "string \<Rightarrow> real \<Rightarrow> real \<Rightarrow> real \<Rightarrow> jdict \<Rightarrow> settings_error + jdict" where
  "set_float k lo hi dflt rag = bindE (float_between lo hi dflt (jget rag k)) (\<lambda>x. Inr (od_set k (JFloat x) rag))"

definition set_bool :: "(real \<Rightarrow> string) \<Rightarrow> string \<Rightarrow> bool \<Rightarrow> jdict \<Rightarrow> jdict" where
  "set_bool fr k dflt rag = od_set k (JBool (as_bool fr dflt (jget rag k))) rag"

definition set_text :: "string \<Rightarrow> string \<Rightarrow> jdict \<Rightarrow> jdict" where
  "set_text k s rag = od_set k (JStr s) rag"

definition top_n_of :: "jdict \<Rightarrow> int" where
  "top_n_of rag = (case jget rag ''reranker_top_n'' of JInt n \<Rightarrow> n | _ \<Rightarrow> 0)"

definition normalize_rag_models :: "(real \<Rightarrow> string) \<Rightarrow> builtins \<Rightarrow> providers option \<Rightarrow> jdict list \<Rightarrow> jdict list \<Rightarrow> jdict \<Rightarrow> jdict" where
  "normalize_rag_models fr bi llm custom embedding rag =
     (let d = default_rag fr bi;
          rag = od_set ''default_provider'' (JStr (py_strip (py_str fr (j_or (jget rag ''default_provider'') (jget d ''default_provider''))))) rag;
          rag = od_set ''default_model'' (JStr (py_strip (py_str fr (j_or (jget rag ''default_model'') (jget d ''default_model''))))) rag;
          rag = normalize_llm_default fr bi llm custom rag;
          ep = embedding_provider_choice fr bi (jget rag ''embedding_provider'') embedding;
          rag = set_text ''embedding_provider'' ep rag
      in set_text ''embedding_model'' (embedding_model_for_provider fr bi ep (jget rag ''embedding_model'') embedding) rag)"

definition normalize_rag_keys :: "(real \<Rightarrow> string) \<Rightarrow> jdict \<Rightarrow> jdict" where
  "normalize_rag_keys fr rag =
     (let rag = od_set ''reranker_api_key'' (JStr (py_strip (py_str fr
            (j_or (jget rag ''reranker_api_key'') (j_or (jget rag ''reranker_regolo_api_key'') (JStr [])))))) rag;
          rag = od_set ''reranker_regolo_api_key'' (JStr (py_strip (py_str fr (jget_or rag ''reranker_regolo_api_key'' (JStr []))))) rag
      in od_pop ''reranker_custom_api_key'' (od_pop ''reranker_mmr_enabled'' (od_pop ''reranker_source_diversity'' rag)))"

definition normalize_rag :: "(real \<Rightarrow> string) \<Rightarrow> builtins \<Rightarrow> providers option \<Rightarrow> jdict list \<Rightarrow> jdict list \<Rightarrow> jdict list
    \<Rightarrow> jdict \<Rightarrow> settings_error + jdict" where
  "normalize_rag fr bi llm custom embedding reranker rag =
     (let rag = set_int ''chunk_size'' 100 10000 1000 rag;
          rag = set_int ''chunk_overlap'' 0 500 150 rag;
          rag = set_int ''query_k'' 1 50 5 rag
      in bindE (set_float ''temperature'' 0 1 (3 / 10) rag) (\<lambda>rag.
     let rag = normalize_rag_models fr bi llm custom embedding rag;
         rag = set_int ''cache_ttl'' 60 86400 3600 rag;
         rag = set_bool fr ''enable_cache'' True rag;
         rag = set_bool fr ''use_internal_knowledge'' False rag;
         rag = set_bool fr ''reranker_enabled'' False rag;
         rag = normalize_reranker_default fr bi reranker rag;
         rag = set_int ''reranker_top_n'' 1 200 20 rag;
         rag = set_text ''reranker_diversity_mode'' (choice fr diversity_modes ''none'' (jget rag ''reranker_diversity_mode'')) rag
      in bindE (set_float ''reranker_mmr_lambda'' 0 1 (7 / 10) rag) (\<lambda>rag.
     let n = top_n_of rag;
         rag = set_int ''reranker_mmr_candidate_pool'' n 200 (min (max n (n * 4)) 200) rag
      in bindE (set_float ''reranker_threshold'' 0 10 0 rag) (\<lambda>rag. Inr (normalize_rag_keys fr rag)))))"

definition normalize_settings :: "(real \<Rightarrow> string) \<Rightarrow> builtins \<Rightarrow> providers option \<Rightarrow> jdict \<Rightarrow> settings_error + jdict" where
  "normalize_settings fr bi llm s0 =
     bindE (section_list (normalize_custom_provider fr) ''custom_providers'' s0) (\<lambda>custom.
     let s = od_set ''custom_providers'' (dicts custom) s0 in
     bindE (section_list (normalize_embedding_provider fr) ''embedding_providers'' s) (\<lambda>embedding.
     let s = od_set ''embedding_providers'' (dicts embedding) s in
     bindE (section_list (normalize_reranker_provider fr) ''reranker_providers'' s) (\<lambda>reranker.
     let s = od_set ''reranker_providers'' (dicts reranker) s in
     bindE (section_list (normalize_voice_provider fr) ''voice_providers'' s) (\<lambda>voices.
     let s = od_set ''voice_providers'' (dicts voices) s in
     bindE (section_dict ''voice'' s) (\<lambda>voice.
     let s = od_set ''voice'' (JObj (normalize_voice_settings fr bi voice voices)) s in
     bindE (section_list (normalize_ocr_provider fr) ''ocr_providers'' s) (\<lambda>ocrs.
     let s = od_set ''ocr_providers'' (dicts ocrs) s in
     bindE (section_dict ''ocr'' s) (\<lambda>ocr.
     let s = od_set ''ocr'' (JObj (normalize_ocr_settings fr bi ocr ocrs)) s in
     bindE (dict_elements (jget_or s ''data_sources'' (JArr []))) (\<lambda>sources.
     let s = od_set ''data_sources'' (dicts (first_sources [] (map (normalize_data_source fr) sources))) s in
     bindE (section_dict ''rag'' s) (\<lambda>rag.
     bindE (normalize_rag fr bi llm custom embedding reranker rag) (\<lambda>rag.
     let s = od_set ''rag'' (JObj rag) s in
     bindE (section_dict ''auth'' s) (\<lambda>auth.
     bindE (dict_elements (jget_or auth ''api_keys'' (JArr []))) (\<lambda>keys.
     Inr (od_set ''auth'' (JObj (od_set ''api_keys'' (dicts (with_key ''key'' (map (normalize_api_key fr) keys))) auth)) s)))))))))))))"

text \<open>The equality of two documents: numbers by value, objects in any order of their keys.\<close>

function py_equal :: "json \<Rightarrow> json \<Rightarrow> bool" where
  "py_equal (JArr xs) b = (case b of
       JArr ys \<Rightarrow> length xs = length ys \<and> list_all (\<lambda>(x, y). py_equal x y) (zip xs ys)
     | _ \<Rightarrow> False)"
| "py_equal (JObj d) b = (case b of
       JObj e \<Rightarrow> length d = length e
         \<and> list_all (\<lambda>(k, v). case od_get e k of None \<Rightarrow> False | Some w \<Rightarrow> py_equal v w) d
     | _ \<Rightarrow> False)"
| "py_equal JNull b = (b = JNull)"
| "py_equal (JStr s) b = (b = JStr s)"
| "py_equal (JBool x) b = (number_of b = Some (Finite (if x then 1 else 0)))"
| "py_equal (JInt i) b = (number_of b = Some (Finite (of_int i)))"
| "py_equal (JFloat x) b = (number_of b = Some (Finite x))"
  by pat_completeness auto
termination
  by (relation "measure (size \<circ> fst)")
    (auto dest!: set_zip_leftD simp: less_Suc_eq_le size_list_estimation' size_list_estimation)

section \<open>The store\<close>

record settings_env =
  se_text :: "real \<Rightarrow> string"
  se_builtins :: builtins
  se_llm :: "providers option"

abbreviation defaults_of :: "settings_env \<Rightarrow> jdict" where
  "defaults_of env \<equiv> default_settings (se_text env) (se_builtins env)"

definition normalized :: "settings_env \<Rightarrow> jdict \<Rightarrow> settings_error + jdict" where
  "normalized env d = normalize_settings (se_text env) (se_builtins env) (se_llm env) (deep_merge (defaults_of env) d)"

text \<open>The keys of every object are written in order.\<close>

fun sort_json :: "json \<Rightarrow> json" where
  "sort_json (JObj d) = JObj (sort_key fst (map (\<lambda>(k, v). (k, sort_json v)) d))"
| "sort_json (JArr xs) = JArr (map sort_json xs)"
| "sort_json v = v"

definition write_settings :: "jdict \<Rightarrow> json_file" where
  "write_settings d = Some (Some (sort_json (JObj d)))"

text \<open>
  \<open>_load_unlocked\<close>: a missing file is created with the defaults, an unreadable one counts as empty.
\<close>

definition load_settings :: "settings_env \<Rightarrow> json_file \<Rightarrow> (settings_error + jdict) \<times> json_file" where
  "load_settings env f = (case f of
       None \<Rightarrow> (Inr (defaults_of env), write_settings (defaults_of env))
     | Some None \<Rightarrow> (normalized env [], f)
     | Some (Some (JObj d)) \<Rightarrow> (normalized env d, f)
     | Some (Some _) \<Rightarrow> (Inl NoDictionary, f))"

definition store_settings :: "settings_env \<Rightarrow> string \<Rightarrow> jdict \<Rightarrow> json_file \<Rightarrow> (settings_error + jdict) \<times> json_file" where
  "store_settings env now d f = (case normalized env d of
       Inl e \<Rightarrow> (Inl e, f)
     | Inr n \<Rightarrow> (let n = od_set ''updated_at'' (JStr now) n in (Inr n, write_settings n)))"

definition save_settings :: "settings_env \<Rightarrow> string \<Rightarrow> jdict \<Rightarrow> json_file \<Rightarrow> (settings_error + jdict) \<times> json_file" where
  "save_settings env now d f = store_settings env now d f"

definition update_settings :: "settings_env \<Rightarrow> string \<Rightarrow> jdict \<Rightarrow> json_file \<Rightarrow> (settings_error + jdict) \<times> json_file" where
  "update_settings env now patch f = (case load_settings env f of
       (Inl e, f) \<Rightarrow> (Inl e, f)
     | (Inr current, f) \<Rightarrow> store_settings env now (deep_merge current patch) f)"

text \<open>The mutator gives a document, or no dictionary; a document equal to the current one is not written.\<close>

definition mutate_settings :: "settings_env \<Rightarrow> string \<Rightarrow> (jdict \<Rightarrow> json) \<Rightarrow> json_file
    \<Rightarrow> (settings_error + jdict) \<times> json_file" where
  "mutate_settings env now mutator f = (case load_settings env f of
       (Inl e, f) \<Rightarrow> (Inl e, f)
     | (Inr current, f) \<Rightarrow> (case mutator current of
           JObj mutated \<Rightarrow> if py_equal (JObj mutated) (JObj current) then (Inr current, f) else store_settings env now mutated f
         | _ \<Rightarrow> (Inl NoDictionary, f)))"


text \<open>
  \<open>public_view\<close>. A secret of a normalised document is a text; \<open>NoText\<close> is any other true value.
\<close>

definition mask_value :: "json \<Rightarrow> settings_error + json" where
  "mask_value v = (if \<not> truthy v then Inr (JStr []) else case v of JStr s \<Rightarrow> Inr (JStr (mask_secret s)) | _ \<Rightarrow> Inl NoText)"

definition mask_field :: "string \<Rightarrow> jdict \<Rightarrow> settings_error + jdict" where
  "mask_field k d = bindE (mask_value (jget_or d k (JStr []))) (\<lambda>m. Inr (od_set k m d))"

definition mask_list :: "string \<Rightarrow> jdict \<Rightarrow> settings_error + jdict" where
  "mask_list k s = bindE (dict_elements (jget_or s k (JArr []))) (\<lambda>ps.
     bindE (mapE (mask_field ''api_key'') ps) (\<lambda>ps. Inr (if od_get s k = None then s else od_set k (dicts ps) s)))"

definition mask_section :: "string \<Rightarrow> (jdict \<Rightarrow> settings_error + jdict) \<Rightarrow> jdict \<Rightarrow> settings_error + jdict" where
  "mask_section k hide s = bindE (section_dict k s) (\<lambda>d. bindE (hide d) (\<lambda>d. Inr (od_set k (JObj d) s)))"

definition mask_api_keys :: "jdict \<Rightarrow> settings_error + jdict" where
  "mask_api_keys auth = bindE (dict_elements (jget_or auth ''api_keys'' (JArr []))) (\<lambda>ks.
     bindE (mapE (mask_field ''key'') ks) (\<lambda>ks. Inr (od_set ''api_keys'' (dicts ks) auth)))"

definition masked_document :: "jdict \<Rightarrow> settings_error + jdict" where
  "masked_document s =
     bindE (mask_list ''custom_providers'' s) (\<lambda>s. bindE (mask_list ''embedding_providers'' s) (\<lambda>s.
     bindE (mask_list ''reranker_providers'' s) (\<lambda>s. bindE (mask_list ''voice_providers'' s) (\<lambda>s.
     bindE (mask_list ''ocr_providers'' s) (\<lambda>s.
     bindE (mask_section ''voice'' (mask_field ''api_key'') s) (\<lambda>s.
     bindE (mask_section ''ocr'' (mask_field ''api_key'') s) (\<lambda>s.
     bindE (mask_section ''rag'' (\<lambda>rag. bindE (mask_field ''reranker_api_key'' rag) (mask_field ''reranker_regolo_api_key'')) s) (\<lambda>s.
     mask_section ''auth'' mask_api_keys s))))))))"

definition public_view :: "settings_env \<Rightarrow> json_file \<Rightarrow> (settings_error + jdict) \<times> json_file" where
  "public_view env f = (case load_settings env f of
       (Inl e, f) \<Rightarrow> (Inl e, f)
     | (Inr s, f) \<Rightarrow> (masked_document s, f))"

section \<open>What each step keeps\<close>

lemma llm_default_frame:
  "k \<noteq> ''default_model'' \<Longrightarrow> k \<noteq> ''default_provider'' \<Longrightarrow> od_get (normalize_llm_default fr bi llm custom rag) k = od_get rag k"
  by (auto simp: normalize_llm_default_def Let_def split: option.splits)

lemma reranker_default_frame:
  "k \<noteq> ''reranker_model'' \<Longrightarrow> k \<noteq> ''reranker_type'' \<Longrightarrow> od_get (normalize_reranker_default fr bi custom rag) k = od_get rag k"
  by (simp add: normalize_reranker_default_def Let_def split: prod.split)

lemma rag_models_frame:
  "k \<notin> {''default_model'', ''default_provider'', ''embedding_model'', ''embedding_provider''} \<Longrightarrow>
   od_get (normalize_rag_models fr bi llm custom embedding rag) k = od_get rag k"
  by (simp add: normalize_rag_models_def Let_def set_text_def llm_default_frame)

lemma rag_keys_frame:
  "k \<notin> {''reranker_api_key'', ''reranker_regolo_api_key'', ''reranker_custom_api_key'', ''reranker_mmr_enabled'',
     ''reranker_source_diversity''} \<Longrightarrow> od_get (normalize_rag_keys fr rag) k = od_get rag k"
  by (simp add: normalize_rag_keys_def Let_def)

lemma set_int_get [simp]:
  "od_get (set_int k lo hi dflt rag) k' = (if k' = k then Some (JInt (int_between lo hi dflt (jget rag k))) else od_get rag k')"
  by (simp add: set_int_def)

lemma set_bool_get [simp]:
  "od_get (set_bool fr k dflt rag) k' = (if k' = k then Some (JBool (as_bool fr dflt (jget rag k))) else od_get rag k')"
  by (simp add: set_bool_def)

lemma set_text_get [simp]: "od_get (set_text k s rag) k' = (if k' = k then Some (JStr s) else od_get rag k')"
  by (simp add: set_text_def)

lemma set_float_get:
  assumes "set_float k lo hi dflt rag = Inr rag'" and "lo \<le> hi"
  shows "\<exists>x. lo \<le> x \<and> x \<le> hi \<and> (\<forall>k'. od_get rag' k' = (if k' = k then Some (JFloat x) else od_get rag k'))"
proof -
  from assms(1) obtain x where x: "float_between lo hi dflt (jget rag k) = Inr x" "rag' = od_set k (JFloat x) rag"
    by (auto simp: set_float_def bindE_eq_Inr)
  have "lo \<le> clamp lo hi n \<and> clamp lo hi n \<le> hi" for n using assms(2) by (cases n) auto
  then have "lo \<le> x \<and> x \<le> hi"
    using x(1) by (auto simp: float_between_def split: sum.splits option.splits simp del: clamp.simps)
  with x(2) show ?thesis by auto
qed

lemma int_between_range: "lo \<le> hi \<Longrightarrow> lo \<le> int_between lo hi dflt v \<and> int_between lo hi dflt v \<le> hi"
  by (simp add: int_between_def)


section \<open>Ranges\<close>

definition int_field :: "string \<Rightarrow> int \<Rightarrow> int \<Rightarrow> jdict \<Rightarrow> bool" where
  "int_field k lo hi d \<longleftrightarrow> (\<exists>n. od_get d k = Some (JInt n) \<and> lo \<le> n \<and> n \<le> hi)"

definition float_field :: "string \<Rightarrow> real \<Rightarrow> real \<Rightarrow> jdict \<Rightarrow> bool" where
  "float_field k lo hi d \<longleftrightarrow> (\<exists>x. od_get d k = Some (JFloat x) \<and> lo \<le> x \<and> x \<le> hi)"

definition rag_in_range :: "jdict \<Rightarrow> bool" where
  "rag_in_range rag \<longleftrightarrow>
     int_field ''chunk_size'' 100 10000 rag \<and> int_field ''chunk_overlap'' 0 500 rag \<and> int_field ''query_k'' 1 50 rag
     \<and> float_field ''temperature'' 0 1 rag \<and> int_field ''cache_ttl'' 60 86400 rag
     \<and> float_field ''reranker_mmr_lambda'' 0 1 rag \<and> float_field ''reranker_threshold'' 0 10 rag
     \<and> (\<exists>n. int_field ''reranker_top_n'' 1 200 rag \<and> od_get rag ''reranker_top_n'' = Some (JInt n)
          \<and> int_field ''reranker_mmr_candidate_pool'' n 200 rag)"

lemma normalize_rag_result:
  assumes "normalize_rag fr bi llm custom embedding reranker rag = Inr rag'"
  shows "rag_in_range rag' \<and> (\<exists>r. \<forall>k \<in> {''default_provider'', ''default_model''}.
    od_get rag' k = od_get (normalize_rag_models fr bi llm custom embedding r) k)"
proof -
  let ?r1 = "set_int ''query_k'' 1 50 5 (set_int ''chunk_overlap'' 0 500 150 (set_int ''chunk_size'' 100 10000 1000 rag))"
  obtain r2 where r2: "set_float ''temperature'' 0 1 (3 / 10) ?r1 = Inr r2"
    using assms by (auto simp: normalize_rag_def Let_def bindE_eq_Inr)
  define r3 where "r3 = normalize_rag_models fr bi llm custom embedding r2"
  define r4 where "r4 = set_bool fr ''reranker_enabled'' False (set_bool fr ''use_internal_knowledge'' False
    (set_bool fr ''enable_cache'' True (set_int ''cache_ttl'' 60 86400 3600 r3)))"
  define r5 where "r5 = set_int ''reranker_top_n'' 1 200 20 (normalize_reranker_default fr bi reranker r4)"
  define r6 where "r6 = set_text ''reranker_diversity_mode''
    (choice fr diversity_modes ''none'' (jget r5 ''reranker_diversity_mode'')) r5"
  obtain r7 where r7: "set_float ''reranker_mmr_lambda'' 0 1 (7 / 10) r6 = Inr r7"
    using assms r2 by (auto simp: normalize_rag_def Let_def bindE_eq_Inr r3_def r4_def r5_def r6_def)
  define n where "n = top_n_of r7"
  define r8 where "r8 = set_int ''reranker_mmr_candidate_pool'' n 200 (min (max n (n * 4)) 200) r7"
  obtain r9 where r9: "set_float ''reranker_threshold'' 0 10 0 r8 = Inr r9" "rag' = normalize_rag_keys fr r9"
    using assms r2 r7 by (auto simp: normalize_rag_def Let_def bindE_eq_Inr r3_def r4_def r5_def r6_def r8_def n_def)
  obtain t where t: "0 \<le> t" "t \<le> 1" "\<And>k. od_get r2 k = (if k = ''temperature'' then Some (JFloat t) else od_get ?r1 k)"
    using set_float_get [OF r2] by auto
  obtain l where l: "0 \<le> l" "l \<le> 1" "\<And>k. od_get r7 k = (if k = ''reranker_mmr_lambda'' then Some (JFloat l) else od_get r6 k)"
    using set_float_get [OF r7] by auto
  obtain h where h: "0 \<le> h" "h \<le> 10" "\<And>k. od_get r9 k = (if k = ''reranker_threshold'' then Some (JFloat h) else od_get r8 k)"
    using set_float_get [OF r9(1)] by auto
  note steps = r9(2) rag_keys_frame h(3) r8_def l(3) r6_def r5_def reranker_default_frame r4_def r3_def rag_models_frame t(3)
  have "int_field ''chunk_size'' 100 10000 rag'" "int_field ''chunk_overlap'' 0 500 rag'" "int_field ''query_k'' 1 50 rag'"
    "int_field ''cache_ttl'' 60 86400 rag'" and top: "int_field ''reranker_top_n'' 1 200 rag'"
    by (simp_all add: int_field_def steps int_between_range)
  moreover have "float_field ''temperature'' 0 1 rag'" "float_field ''reranker_mmr_lambda'' 0 1 rag'"
    "float_field ''reranker_threshold'' 0 10 rag'"
    using t l h by (simp_all add: float_field_def steps)
  moreover have n: "od_get rag' ''reranker_top_n'' = Some (JInt n)"
    by (simp add: steps n_def top_n_of_def jget_def)
  moreover have "n \<le> 200" using top n by (simp add: int_field_def)
  then have "int_field ''reranker_mmr_candidate_pool'' n 200 rag'"
    by (simp add: int_field_def steps int_between_range)
  moreover have "od_get rag' k = od_get r3 k" if "k \<in> {''default_provider'', ''default_model''}" for k
    using that by (auto simp: r9(2) rag_keys_frame h(3) r8_def l(3) r6_def r5_def reranker_default_frame r4_def)
  ultimately show ?thesis unfolding rag_in_range_def r3_def by blast
qed


section \<open>Documents the store returns\<close>

definition settings_sound :: "jdict \<Rightarrow> bool" where
  "settings_sound s \<longleftrightarrow>
     (\<exists>rag. od_get s ''rag'' = Some (JObj rag) \<and> rag_in_range rag)
     \<and> (\<exists>sources. od_get s ''data_sources'' = Some (dicts sources) \<and> distinct (map (\<lambda>d. jget d ''id'') sources)
          \<and> (\<forall>d \<in> set sources. truthy (jget d ''id'')))"

lemma first_sources_distinct:
  "distinct (map (\<lambda>d. jget d ''id'') (first_sources seen ds))
   \<and> (\<forall>d \<in> set (first_sources seen ds). truthy (jget d ''id'') \<and> jget d ''id'' \<notin> set seen)"
proof (induction ds arbitrary: seen)
  case (Cons d ds)
  from Cons [of "jget d ''id'' # seen"] Cons [of seen] show ?case by auto
qed simp

text \<open>The parts of a normalised document.\<close>

lemma normalize_settings_parts:
  assumes "normalize_settings fr bi llm s0 = Inr s"
  obtains custom embedding reranker rag rag' sources where
    "dict_elements (jget_or s0 ''custom_providers'' (JArr [])) = Inr custom"
    "od_get s ''custom_providers'' = Some (dicts (with_key ''id'' (map (normalize_custom_provider fr) custom)))"
    "normalize_rag fr bi llm (with_key ''id'' (map (normalize_custom_provider fr) custom)) embedding reranker rag = Inr rag'"
    "od_get s ''rag'' = Some (JObj rag')"
    "od_get s ''data_sources'' = Some (dicts (first_sources [] sources))"
  using assms unfolding normalize_settings_def section_list_def Let_def
  by (auto simp: bindE_eq_Inr)

lemma normalized_sound:
  assumes "normalized env d = Inr s"
  shows "settings_sound s"
  using assms unfolding normalized_def
proof (rule normalize_settings_parts)
  fix custom embedding reranker rag rag' sources
  assume "normalize_rag (se_text env) (se_builtins env) (se_llm env)
      (with_key ''id'' (map (normalize_custom_provider (se_text env)) custom)) embedding reranker rag = Inr rag'"
    and "od_get s ''rag'' = Some (JObj rag')" and "od_get s ''data_sources'' = Some (dicts (first_sources [] sources))"
  with normalize_rag_result first_sources_distinct [of "[]" sources] show ?thesis unfolding settings_sound_def by blast
qed

lemma default_rag_get:
  "od_get (default_rag fr bi) ''chunk_size'' = Some (JInt 1000)" "od_get (default_rag fr bi) ''chunk_overlap'' = Some (JInt 150)"
  "od_get (default_rag fr bi) ''query_k'' = Some (JInt 5)" "od_get (default_rag fr bi) ''temperature'' = Some (JFloat (3 / 10))"
  "od_get (default_rag fr bi) ''cache_ttl'' = Some (JInt 3600)"
  "od_get (default_rag fr bi) ''reranker_mmr_lambda'' = Some (JFloat (7 / 10))"
  "od_get (default_rag fr bi) ''reranker_threshold'' = Some (JFloat 0)" "od_get (default_rag fr bi) ''reranker_top_n'' = Some (JInt 20)"
  "od_get (default_rag fr bi) ''reranker_mmr_candidate_pool'' = Some (JInt 80)"
  by (simp_all add: default_rag_def Let_def case_prod_beta)

lemma defaults_sound: "settings_sound (default_settings fr bi)"
proof -
  have "float_field ''temperature'' 0 1 (default_rag fr bi)"
    unfolding float_field_def by (intro exI [of _ "3 / 10"]) (simp add: default_rag_get)
  moreover have "float_field ''reranker_mmr_lambda'' 0 1 (default_rag fr bi)"
    unfolding float_field_def by (intro exI [of _ "7 / 10"]) (simp add: default_rag_get)
  ultimately have "rag_in_range (default_rag fr bi)"
    by (simp add: rag_in_range_def int_field_def default_rag_get) (simp add: float_field_def default_rag_get)
  moreover have "od_get (default_settings fr bi) ''data_sources'' = Some (dicts [])" by (simp add: default_settings_def dicts_def)
  moreover have "od_get (default_settings fr bi) ''rag'' = Some (JObj (default_rag fr bi))" by (simp add: default_settings_def)
  ultimately show ?thesis unfolding settings_sound_def by force
qed

lemma load_sound: "load_settings env f = (Inr s, f') \<Longrightarrow> settings_sound s"
  unfolding load_settings_def
  by (cases f; cases "the f"; cases "the (the f)") (auto intro: defaults_sound normalized_sound split: option.splits json.splits)

lemma store_sound:
  assumes "store_settings env now d f = (Inr s, f')"
  shows "settings_sound s"
proof -
  from assms obtain n where n: "normalized env d = Inr n" "s = od_set ''updated_at'' (JStr now) n"
    by (auto simp: store_settings_def Let_def split: sum.splits)
  from normalized_sound [OF n(1)] show ?thesis by (simp add: n(2) settings_sound_def)
qed

lemma update_sound: "update_settings env now d f = (Inr s, f') \<Longrightarrow> settings_sound s"
  by (auto simp: update_settings_def split: prod.splits sum.splits intro: store_sound)

lemma mutate_sound: "mutate_settings env now mutator f = (Inr s, f') \<Longrightarrow> settings_sound s"
  by (auto simp: mutate_settings_def split: prod.splits sum.splits json.splits if_splits intro: store_sound load_sound)

text \<open>
  Claim C22: whatever file it finds and whatever document it is given, the settings store only
  returns settings in range: sizes, counts, temperature, thresholds and the candidate pool
  lie in their intervals, the pool is at least as large as the number of results kept, and the data
  sources have distinct identifiers.
\<close>

theorem settings_are_always_in_range:
  assumes "fst (load_settings env f) = Inr s \<or> fst (save_settings env now d f) = Inr s
    \<or> fst (update_settings env now d f) = Inr s \<or> fst (mutate_settings env now mutator f) = Inr s"
  shows "settings_sound s"
  using assms load_sound [of env f s] store_sound [of env now d f s] update_sound [of env now d f s]
    mutate_sound [of env now mutator f s]
  unfolding save_settings_def by (metis prod.collapse)


definition bare_env :: settings_env where
  "bare_env = \<lparr>se_text = (\<lambda>_. []), se_builtins = \<lparr>bi_llm = [], bi_embedding = [], bi_reranker = [], bi_voice = [], bi_ocr = []\<rparr>,
     se_llm = None\<rparr>"

theorem settings_are_always_in_range_witness:
  "fst (load_settings bare_env None) = Inr (defaults_of bare_env) \<and> settings_sound (defaults_of bare_env)"
proof -
  have "fst (load_settings bare_env None) = Inr (defaults_of bare_env)" by (simp add: load_settings_def)
  then show ?thesis using settings_are_always_in_range [of bare_env None "defaults_of bare_env"] by blast
qed

section \<open>Corner cases\<close>

text \<open>The two sizes are checked one by one: an overlap larger than the chunk is accepted.\<close>

lemma overlap_may_exceed_chunk:
  "od_get (set_int ''chunk_overlap'' 0 500 150 (set_int ''chunk_size'' 100 10000 1000
     [(''chunk_size'', JInt 100), (''chunk_overlap'', JInt 500)])) ''chunk_overlap'' = Some (JInt 500)"
  "od_get (set_int ''chunk_overlap'' 0 500 150 (set_int ''chunk_size'' 100 10000 1000
     [(''chunk_size'', JInt 100), (''chunk_overlap'', JInt 500)])) ''chunk_size'' = Some (JInt 100)"
  by (simp_all add: int_between_def jget_def)

text \<open>An identifier cut after a dash is another one at the next load.\<close>

lemma slug_not_stable: "slug fr (JStr (slug fr (JStr (replicate 79 CHR ''a'' @ ''-b'')))) \<noteq> slug fr (JStr (replicate 79 CHR ''a'' @ ''-b''))"
  by code_simp

text \<open>Without built-in embedding providers no custom one can be selected.\<close>

lemma custom_embedding_ignored: "bi_embedding bi = [] \<Longrightarrow> embedding_provider_choice fr bi v custom = ''local''"
  by (simp add: embedding_provider_choice_def builtin_ids_def)

text \<open>A null key of the legacy field becomes the text \<open>None\<close>, which the next load takes for the key.\<close>

lemma null_key_becomes_text:
  "jget (normalize_rag_keys fr (normalize_rag_keys fr [(''reranker_regolo_api_key'', JNull)])) ''reranker_api_key'' = JStr ''None''"
  by (simp add: normalize_rag_keys_def jget_def jget_or_def j_or_def Let_def py_str_def) (simp add: py_strip_trimmed py_trimmed_def py_isspace_def)

end
