(* ===== verification/Provider_Registry.thy ===== *)
theory Provider_Registry
  imports Settings_Store
begin

text \<open>
  \<open>app/utils/providers/registry.py\<close> and \<open>app/utils/provider_config.py\<close>: which provider and model
  a request is routed to. \<open>getenv\<close> is the environment, \<open>builtin\<close> the outcome of loading the
  built-in providers, \<open>settings\<close> a document of the settings store.
\<close>

section \<open>Keys of providers\<close>

definition env_names :: "(real \<Rightarrow> string) \<Rightarrow> json \<Rightarrow> string list" where
  "env_names fr v = filter (\<lambda>s. s \<noteq> []) (map py_strip (listed fr v))"

definition resolve_api_key :: "(real \<Rightarrow> string) \<Rightarrow> (string \<Rightarrow> string option) \<Rightarrow> jdict \<Rightarrow> string" where
  "resolve_api_key fr getenv config =
     (let explicit = py_strip (text_or fr [] (jget config ''api_key'')) in
      if explicit \<noteq> [] then explicit
      else case List.map_filter getenv (env_names fr (jget config ''api_key_env'')) of
        vs \<Rightarrow> first_text (filter (\<lambda>v. v \<noteq> []) vs))"

definition requires_api_key :: "(real \<Rightarrow> string) \<Rightarrow> bool \<Rightarrow> jdict \<Rightarrow> bool" where
  "requires_api_key fr dflt config = (case jget config ''requires_api_key'' of
       JNull \<Rightarrow> dflt
     | JBool b \<Rightarrow> b
     | JInt i \<Rightarrow> i \<noteq> 0
     | v \<Rightarrow> py_lower (py_strip (py_str fr v)) \<in> set [''1'', ''true'', ''yes'', ''y'', ''on'', ''required''])"

definition client_api_key :: "(real \<Rightarrow> string) \<Rightarrow> (string \<Rightarrow> string option) \<Rightarrow> jdict \<Rightarrow> string" where
  "client_api_key fr getenv config = or_text (resolve_api_key fr getenv config) ''openai-compatible''"

definition default_model :: "(real \<Rightarrow> string) \<Rightarrow> jdict \<Rightarrow> string" where
  "default_model fr config = text_or fr (first_text (model_texts fr config)) (jget config ''default_model'')"

definition is_openai_compatible :: "(real \<Rightarrow> string) \<Rightarrow> jdict \<Rightarrow> bool" where
  "is_openai_compatible fr config \<longleftrightarrow> text_or fr compatible (jget config ''type'') = compatible \<or> truthy (jget config ''base_url'')"

definition provider_cache_key ::
  "(string \<Rightarrow> string) \<Rightarrow> (real \<Rightarrow> string) \<Rightarrow> (string \<Rightarrow> string option) \<Rightarrow> string \<Rightarrow> jdict \<Rightarrow> string" where
  "provider_cache_key dig fr getenv pid config =
     py_join '':'' [pid, text_or fr [] (jget config ''type''), normalize_base_url fr (jget config ''base_url''),
       take 12 (dig (resolve_api_key fr getenv config))]"

section \<open>Providers and models\<close>

definition with_resolved_api_key :: "(real \<Rightarrow> string) \<Rightarrow> (string \<Rightarrow> string option) \<Rightarrow> jdict \<Rightarrow> jdict" where
  "with_resolved_api_key fr getenv p =
     (if truthy (jget p ''api_key'') then p else od_set ''api_key'' (JStr (resolve_api_key fr getenv p)) p)"

definition custom_entry :: "jdict \<Rightarrow> jdict" where
  "custom_entry c = [
     (''id'', jget c ''id''), (''name'', j_or (jget c ''name'') (jget c ''id'')),
     (''type'', jget_or c ''type'' (JStr compatible)),
     (''requires_api_key'', JBool (truthy (jget c ''requires_api_key''))),
     (''models'', jget_or c ''models'' (JArr [])), (''default_model'', jget_or c ''default_model'' (JStr [])),
     (''base_url'', jget_or c ''base_url'' (JStr [])), (''api_key_env'', jget_or c ''api_key_env'' (JStr [])),
     (''api_key'', jget_or c ''api_key'' (JStr []))]"

definition custom_of :: "jdict \<Rightarrow> jdict list" where
  "custom_of settings = objects (jget settings ''custom_providers'')"

definition registry_providers ::
  "(real \<Rightarrow> string) \<Rightarrow> (string \<Rightarrow> string option) \<Rightarrow> config_error + providers \<Rightarrow> jdict \<Rightarrow> config_error + providers" where
  "registry_providers fr getenv builtin settings = bindE builtin (\<lambda>ps.
     Inr (fold (\<lambda>c ps. od_set (py_str fr (jget c ''id'')) (custom_entry c) ps) (enabled_custom (custom_of settings))
       (map (\<lambda>(k, p). (k, with_resolved_api_key fr getenv p)) ps)))"

record model_info =
  mi_id :: string
  mi_name :: string
  mi_provider :: string
  mi_provider_name :: string
  mi_provider_type :: string

definition models_of :: "(real \<Rightarrow> string) \<Rightarrow> string \<times> jdict \<Rightarrow> model_info list" where
  "models_of fr = (\<lambda>(pid, p). let name = text_or fr pid (jget p ''name'') in
     map (\<lambda>m. \<lparr>mi_id = m, mi_name = m @ '' ('' @ name @ '')'', mi_provider = pid, mi_provider_name = name,
       mi_provider_type = text_or fr pid (jget p ''type'')\<rparr>) (model_texts fr p))"

definition list_models :: "(real \<Rightarrow> string) \<Rightarrow> providers \<Rightarrow> model_info list" where
  "list_models fr ps = concat (map (models_of fr) ps)"

definition model_ids :: "(real \<Rightarrow> string) \<Rightarrow> providers \<Rightarrow> string list" where
  "model_ids fr ps = map mi_id (list_models fr ps)"

definition find_provider_for_model :: "(real \<Rightarrow> string) \<Rightarrow> string \<Rightarrow> providers \<Rightarrow> string option" where
  "find_provider_for_model fr model ps = map_option fst (find (\<lambda>(pid, p). model \<in> set (model_texts fr p)) ps)"

datatype resolve_error = ProvidersUnreadable | NoProviderConfigured | ModelNotConfigured string string

definition rag_text :: "(real \<Rightarrow> string) \<Rightarrow> jdict \<Rightarrow> string \<Rightarrow> string" where
  "rag_text fr settings k = text_or fr [] (jget (dict_or_empty (jget settings ''rag'')) k)"

definition routed :: "providers \<Rightarrow> string option \<Rightarrow> string option \<Rightarrow> string option \<times> string option" where
  "routed ps model provider = (case (model, provider) of
       (Some m, None) \<Rightarrow>
         (if CHR '':'' \<in> set m \<and> od_get ps (fst (split_once CHR '':'' m)) \<noteq> None
          then (Some (snd (split_once CHR '':'' m)), Some (fst (split_once CHR '':'' m))) else (model, provider))
     | _ \<Rightarrow> (model, provider))"

definition resolve_model ::
  "(real \<Rightarrow> string) \<Rightarrow> config_error + providers \<Rightarrow> jdict \<Rightarrow> string option \<Rightarrow> string option
    \<Rightarrow> resolve_error + string \<times> string \<times> jdict" where
  "resolve_model fr loaded settings model provider = (case loaded of
       Inl _ \<Rightarrow> Inl ProvidersUnreadable
     | Inr ps \<Rightarrow>
         let (model, provider) = routed ps model provider in
         if ps = [] then Inl NoProviderConfigured
         else
           let wanted = (case model of None \<Rightarrow> [] | Some m \<Rightarrow> m);
               first = fst (hd ps);
               pid = or_text (or_text (case provider of None \<Rightarrow> [] | Some p \<Rightarrow> p) (rag_text fr settings ''default_provider'')) first;
               pid = (if od_get ps pid = None then first else pid);
               sel = or_text wanted (or_text (rag_text fr settings ''default_model'')
                 (text_or fr [] (jget (provider_in ps pid) ''default_model'')));
               pid = (if sel \<notin> set (model_texts fr (provider_in ps pid)) \<and> provider = None
                  then (case find_provider_for_model fr sel ps of Some i \<Rightarrow> or_text i pid | None \<Rightarrow> pid) else pid);
               p = provider_in ps pid;
               available = model_texts fr p
           in if sel \<in> set available then Inr (pid, sel, p)
              else if wanted \<noteq> [] then Inl (ModelNotConfigured sel pid)
              else Inr (pid, text_or fr (first_text available) (jget p ''default_model''), p))"


section \<open>The default of a provider is one of its models\<close>

definition default_listed :: "(real \<Rightarrow> string) \<Rightarrow> jdict \<Rightarrow> bool" where
  "default_listed fr p \<longleftrightarrow>
     (\<exists>d. jget_or p ''default_model'' (JStr []) = JStr d \<and> (d = [] \<or> d \<in> set (model_texts fr p)))"

lemma model_texts_texts: "jget p ''models'' = texts ms \<Longrightarrow> model_texts fr p = ms"
  by (simp add: model_texts_def texts_def comp_def)

lemma canonical_model_mem: "canonical_model ms s = Some m \<Longrightarrow> m \<in> set ms"
  by (auto simp: canonical_model_def Let_def filter_eq_Cons_iff split: if_splits list.splits)

lemma with_default_listed: "with_default_model ms d = (ms', d') \<Longrightarrow> d' = [] \<or> d' \<in> set ms'"
  by (auto simp: with_default_model_def dest: canonical_model_mem split: option.splits if_splits)

lemma custom_default_listed: "default_listed fr (normalize_custom_provider fr p)"
proof -
  let ?ms = "parse_models fr (jget_or p ''models'' (JArr []))"
  obtain ms d where d: "with_default_model ?ms (py_strip (text_or fr (first_text ?ms) (jget p ''default_model''))) = (ms, d)"
    by (meson surj_pair)
  then have "jget (normalize_custom_provider fr p) ''models'' = texts ms"
    "jget_or (normalize_custom_provider fr p) ''default_model'' (JStr []) = JStr d"
    by (simp_all add: normalize_custom_provider_def jget_def jget_or_def Let_def)
  with with_default_listed [OF d] show ?thesis by (auto simp: default_listed_def model_texts_texts)
qed

lemma with_fields_get: "od_get (with_fields d kvs) k = (case od_get (rev kvs) k of None \<Rightarrow> od_get d k | v \<Rightarrow> v)"
  unfolding with_fields_def by (induction kvs arbitrary: d) (auto simp: map_add_def split: option.splits)

lemma llm_default_listed: "default_listed fr (normalize_llm_provider fr e)"
proof (cases "normalize_models fr (jget e ''models'') = []")
  case True
  then show ?thesis
    by (simp add: normalize_llm_provider_def default_listed_def with_fields_get jget_or_def)
next
  case False
  let ?ms = "normalize_models fr (jget e ''models'')"
  let ?d = "py_strip (text_or fr (hd ?ms) (jget e ''default_model''))"
  let ?p = "normalize_llm_provider fr e"
  have "jget ?p ''models'' = texts (if ?d \<in> set ?ms then ?ms else ?d # ?ms)" "jget_or ?p ''default_model'' (JStr []) = JStr ?d"
    using False by (simp_all add: normalize_llm_provider_def Let_def with_fields_get jget_def jget_or_def)
  then show ?thesis by (auto simp: default_listed_def model_texts_texts)
qed

lemma offered_model_listed:
  assumes "default_listed fr p" and "model_texts fr p \<noteq> []"
  shows "offered_model fr p sel \<in> set (model_texts fr p)"
proof -
  obtain d where d: "jget_or p ''default_model'' (JStr []) = JStr d" "d = [] \<or> d \<in> set (model_texts fr p)"
    using assms(1) by (auto simp: default_listed_def)
  then have "jget p ''default_model'' = JStr d \<or> (jget p ''default_model'' = JNull \<and> d = [])"
    by (auto simp: jget_def jget_or_def split: option.splits)
  with d(2) assms(2) show ?thesis
    by (auto simp: offered_model_def text_or_def j_or_def split: list.splits)
qed

lemma fold_od_set_all:
  assumes "\<And>k p. (k, p) \<in> set ps \<Longrightarrow> P p" and "\<And>c. c \<in> set cs \<Longrightarrow> P (f c)"
  shows "(k, p) \<in> set (fold (\<lambda>c ps. od_set (key c) (f c) ps) cs ps) \<Longrightarrow> P p"
  using assms
proof (induction cs arbitrary: ps)
  case (Cons c cs)
  have "P q" if "(j, q) \<in> set (od_set (key c) (f c) ps)" for j q
  proof -
    from that set_od_set have "(j, q) = (key c, f c) \<or> (j, q) \<in> set ps" by fast
    then show "P q" using Cons.prems(2) Cons.prems(3) [of c] by auto
  qed
  with Cons show ?case by auto
qed auto

lemma from_list_listed:
  "(\<And>k p. (k, p) \<in> set (fst acc) \<Longrightarrow> default_listed fr p) \<Longrightarrow>
   (k, p) \<in> set (fst (fold (\<lambda>x (ps, n). case x of
       JObj d \<Rightarrow> (let pid = py_str fr (jget_or d ''id'' (JStr [])) in
         if pid = [] then (ps, n)
         else let e = normalize_llm_provider fr (with_fields d [(''id'', JStr pid)])
              in (od_set pid e ps, n + model_count e))
     | _ \<Rightarrow> (ps, n)) xs acc)) \<Longrightarrow> default_listed fr p"
proof (induction xs arbitrary: acc)
  case (Cons x xs)
  obtain ps n where acc: "acc = (ps, n)" by (cases acc)
  have step: "default_listed fr q" if "(j, q) \<in> set (od_set pid (normalize_llm_provider fr d) ps)" for j q pid d
    using that set_od_set [of pid "normalize_llm_provider fr d" ps] Cons.prems(1) llm_default_listed acc by fastforce
  show ?case
    by (rule Cons.IH [OF _ Cons.prems(2) [unfolded fold_Cons o_apply]])
      (auto simp: acc Let_def split: json.splits if_splits intro: step Cons.prems(1) [unfolded acc])
qed auto

lemma from_dict_listed:
  "(\<And>k p. (k, p) \<in> set (fst acc) \<Longrightarrow> default_listed fr p) \<Longrightarrow>
   (k, p) \<in> set (fst (fold (\<lambda>(pid, x) (ps, n). case x of
       JObj d \<Rightarrow> (let e = normalize_llm_provider fr (with_fields d [(''id'', JStr pid)])
         in (od_set pid e ps, n + model_count e))
     | _ \<Rightarrow> (ps, n)) ds acc)) \<Longrightarrow> default_listed fr p"
proof (induction ds arbitrary: acc)
  case (Cons x xs)
  obtain ps n where acc: "acc = (ps, n)" by (cases acc)
  have step: "default_listed fr q" if "(j, q) \<in> set (od_set pid (normalize_llm_provider fr d) ps)" for j q pid d
    using that set_od_set [of pid "normalize_llm_provider fr d" ps] Cons.prems(1) llm_default_listed acc by fastforce
  show ?case
    by (rule Cons.IH [OF _ Cons.prems(2) [unfolded fold_Cons o_apply]])
      (auto simp: acc Let_def split: json.splits if_splits prod.splits intro: step Cons.prems(1) [unfolded acc])
qed auto

lemma builtin_source:
  assumes "load_builtin_provider_definitions fr config = Inr ps"
  shows "(\<exists>xs. ps = fst (providers_from_list fr xs)) \<or> (\<exists>ds. ps = fst (providers_from_dict fr ds))" and "ps \<noteq> []"
proof -
  obtain raw where raw: "load_raw config = Inr raw" using assms
    by (auto simp: load_builtin_provider_definitions_def bindE_eq_Inr)
  have src: "require_models r = Inr ps \<Longrightarrow> ps = fst r \<and> ps \<noteq> []" for r by (auto simp: require_models_def split: if_splits)
  have "(\<exists>xs. require_models (providers_from_list fr xs) = Inr ps) \<or> (\<exists>ds. require_models (providers_from_dict fr ds) = Inr ps)"
    using assms raw unfolding load_builtin_provider_definitions_def
    by (cases "jget raw ''llm''"; cases "jget_or raw ''providers'' (JObj raw)") auto
  with src show "(\<exists>xs. ps = fst (providers_from_list fr xs)) \<or> (\<exists>ds. ps = fst (providers_from_dict fr ds))" "ps \<noteq> []"
    by blast+
qed

lemma builtin_listed:
  assumes "load_builtin_provider_definitions fr config = Inr ps" and "(k, p) \<in> set ps"
  shows "default_listed fr p"
  using builtin_source(1) [OF assms(1)] assms(2) from_list_listed [of "([], 0)" fr k p] from_dict_listed [of "([], 0)" fr k p]
  unfolding providers_from_list_def providers_from_dict_def by auto

section \<open>The default model of the settings is offered\<close>

lemma llm_definitions_listed:
  assumes "\<And>k p. (k, p) \<in> set builtin \<Longrightarrow> default_listed fr p" and "list_all (default_listed fr) custom"
    and "od_get (llm_definitions fr (Some builtin) custom) k = Some p"
  shows "default_listed fr p"
proof -
  let ?entry = "\<lambda>c. [(''name'', j_or (jget c ''name'') (jget c ''id'')), (''type'', JStr compatible),
    (''models'', jget_or c ''models'' (JArr [])), (''default_model'', jget_or c ''default_model'' (JStr []))]"
  have "default_listed fr (?entry c)" if "c \<in> set (enabled_custom custom)" for c
  proof -
    have "default_listed fr c" using assms(2) that by (auto simp: list_all_iff enabled_custom_def)
    moreover have "model_texts fr (?entry c) = model_texts fr c"
      by (simp add: model_texts_def jget_def jget_or_def split: option.splits)
    ultimately show ?thesis by (auto simp: default_listed_def jget_or_def)
  qed
  with assms(1) have "(k, p) \<in> set (fold (\<lambda>c ps. od_set (py_str fr (jget c ''id'')) (?entry c) ps) (enabled_custom custom) builtin)
    \<Longrightarrow> default_listed fr p"
    by (rule fold_od_set_all)
  with assms(3) show ?thesis by (auto simp: llm_definitions_def Let_def dest: map_of_SomeD)
qed

definition offered_by :: "(real \<Rightarrow> string) \<Rightarrow> providers \<Rightarrow> string \<Rightarrow> string \<Rightarrow> bool" where
  "offered_by fr ps pid m \<longleftrightarrow> (\<exists>p. od_get ps pid = Some p \<and> (model_texts fr p = [] \<or> m \<in> set (model_texts fr p)))"

lemma find_canonical_offered:
  "od_wf ps \<Longrightarrow> find_canonical_model fr ps sel preferred = Some (i, m) \<Longrightarrow> offered_by fr ps i m"
proof -
  assume wf: "od_wf ps" and hit: "find_canonical_model fr ps sel preferred = Some (i, m)"
  let ?hit = "\<lambda>(pid, p). map_option (Pair pid) (canonical_model (model_texts fr p) sel)"
  have found: "\<exists>p. od_get ps i = Some p \<and> canonical_model (model_texts fr p) sel = Some m"
  proof (cases "Option.bind (od_get ps preferred) (\<lambda>p. ?hit (preferred, p))")
    case None
    then have "\<exists>rs. List.map_filter ?hit ps = (i, m) # rs"
      using hit by (auto simp: find_canonical_model_def Let_def split: if_splits list.splits)
    then have "(i, m) \<in> set (List.map_filter ?hit ps)" by auto
    then obtain j p where "(j, p) \<in> set ps" "?hit (j, p) = Some (i, m)" by (auto simp: map_filter_def)
    with wf show ?thesis by auto
  next
    case (Some r)
    then have "r = (i, m)" using hit by (auto simp: find_canonical_model_def Let_def split: if_splits)
    with Some show ?thesis by (cases "od_get ps preferred") auto
  qed
  then show ?thesis by (auto simp: offered_by_def dest: canonical_model_mem)
qed

lemma first_known_in: "ps \<noteq> [] \<Longrightarrow> od_get ps (first_known ps i d) \<noteq> None"
  by (cases ps) (auto simp: first_known_def)

lemma llm_default_offered:
  assumes ps: "llm_definitions fr llm custom = ps" "ps \<noteq> []" "od_wf ps"
    and listed: "\<And>k p. od_get ps k = Some p \<Longrightarrow> default_listed fr p"
  shows "\<exists>i m. offered_by fr ps i m
    \<and> od_get (normalize_llm_default fr bi llm custom rag) ''default_provider'' = Some (JStr i)
    \<and> od_get (normalize_llm_default fr bi llm custom rag) ''default_model'' = Some (JStr m)"
proof -
  let ?d = "py_str fr (jget (default_rag fr bi) ''default_provider'')"
  let ?pid = "py_strip (text_or fr ?d (jget rag ''default_provider''))" and ?sel = "py_strip (text_or fr [] (jget rag ''default_model''))"
  show ?thesis
  proof (cases "find_canonical_model fr ps ?sel ?pid")
    case None
    let ?i = "first_known ps ?pid ?d"
    obtain p where p: "od_get ps ?i = Some p" using first_known_in [OF ps(2)] by blast
    then have "offered_by fr ps ?i (offered_model fr p ?sel)"
      using offered_model_listed [OF listed [OF p]] by (auto simp: offered_by_def)
    with None p ps show ?thesis by (auto simp: normalize_llm_default_def Let_def provider_in_def)
  next
    case (Some r)
    obtain i m where r: "r = (i, m)" by (cases r)
    with Some find_canonical_offered [OF ps(3)] have "offered_by fr ps i m" by blast
    with Some ps r show ?thesis by (auto simp: normalize_llm_default_def Let_def)
  qed
qed


lemma fold_od_set_wf: "od_wf ps \<Longrightarrow> od_wf (fold (\<lambda>c ps. od_set (key c) (f c) ps) cs ps)"
  by (induction cs arbitrary: ps) auto

lemma builtin_wf:
  assumes "load_builtin_provider_definitions fr config = Inr ps"
  shows "od_wf ps"
proof -
  have step: "od_wf (fst (fold h xs acc))" if "od_wf (fst acc)" "\<And>x acc. od_wf (fst acc) \<Longrightarrow> od_wf (fst (h x acc))"
    for h :: "'x \<Rightarrow> providers \<times> nat \<Rightarrow> providers \<times> nat" and xs acc
    using that by (induction xs arbitrary: acc) auto
  have "od_wf (fst (providers_from_list fr xs))" for xs
    unfolding providers_from_list_def by (rule step) (auto simp: Let_def split: json.splits if_splits prod.splits)
  moreover have "od_wf (fst (providers_from_dict fr ds))" for ds
    unfolding providers_from_dict_def by (rule step) (auto simp: Let_def split: json.splits prod.splits)
  ultimately show ?thesis using builtin_source(1) [OF assms] by auto
qed

lemma rag_keeps_llm_default:
  assumes "normalize_rag fr bi llm custom embedding reranker rag = Inr rag'"
  shows "\<exists>rag0. \<forall>k \<in> {''default_provider'', ''default_model''}.
    od_get rag' k = od_get (normalize_llm_default fr bi llm custom rag0) k"
proof -
  obtain r where "\<forall>k \<in> {''default_provider'', ''default_model''}.
      od_get rag' k = od_get (normalize_rag_models fr bi llm custom embedding r) k"
    using normalize_rag_result [OF assms] by blast
  then show ?thesis by (auto simp: normalize_rag_models_def Let_def)
qed

lemma objects_dicts [simp]: "objects (dicts cs) = cs"
  by (induction cs) (simp_all add: objects_def dicts_def map_filter_def)

lemma same_models_fold:
  assumes "\<And>c. model_texts fr (f c) = model_texts fr (g c)"
  shows "(\<And>k. map_option (model_texts fr) (od_get ps k) = map_option (model_texts fr) (od_get qs k)) \<Longrightarrow>
    map_option (model_texts fr) (od_get (fold (\<lambda>c ps. od_set (key c) (f c) ps) cs ps) k)
    = map_option (model_texts fr) (od_get (fold (\<lambda>c ps. od_set (key c) (g c) ps) cs qs) k)"
  using assms by (induction cs arbitrary: ps qs) auto

lemma registry_models:
  assumes "registry_providers fr getenv (Inr builtin) s = Inr ps" and "custom_of s = custom"
  shows "map_option (model_texts fr) (od_get ps k)
    = map_option (model_texts fr) (od_get (llm_definitions fr (Some builtin) custom) k)"
proof -
  let ?g = "\<lambda>c. [(''name'', j_or (jget c ''name'') (jget c ''id'')), (''type'', JStr compatible),
    (''models'', jget_or c ''models'' (JArr [])), (''default_model'', jget_or c ''default_model'' (JStr []))]"
  have base: "map_option (model_texts fr) (od_get (map (\<lambda>(k, p). (k, with_resolved_api_key fr getenv p)) builtin) k)
      = map_option (model_texts fr) (od_get builtin k)" for k
    by (induction builtin) (auto simp: with_resolved_api_key_def model_texts_def jget_def)
  have "model_texts fr (custom_entry c) = model_texts fr (?g c)" for c
    by (simp add: custom_entry_def model_texts_def jget_def)
  from same_models_fold [of fr custom_entry ?g, OF this base] assms show ?thesis
    by (auto simp: registry_providers_def llm_definitions_def Let_def)
qed

lemma llm_definitions_wf:
  assumes "load_builtin_provider_definitions fr config = Inr builtin"
  shows "od_wf (llm_definitions fr (Some builtin) custom)" and "llm_definitions fr (Some builtin) custom \<noteq> []"
proof -
  show "od_wf (llm_definitions fr (Some builtin) custom)"
    using builtin_wf [OF assms] by (simp add: llm_definitions_def Let_def fold_od_set_wf)
  have "fold (\<lambda>c ps. od_set (key c) (f c) ps) cs ps \<noteq> []" if "ps \<noteq> []" for key :: "jdict \<Rightarrow> string" and f :: "jdict \<Rightarrow> jdict" and cs ps
    using that by (induction cs arbitrary: ps) (auto simp: neq_Nil_conv split: prod.splits)
  then show "llm_definitions fr (Some builtin) custom \<noteq> []"
    using builtin_source(2) [OF assms] by (simp add: llm_definitions_def Let_def)
qed

lemma llm_definitions_keys:
  assumes "od_get builtin [] = None" and "\<And>c. c \<in> set custom \<Longrightarrow> py_str fr (jget c ''id'') \<noteq> []"
  shows "od_get (llm_definitions fr (Some builtin) custom) [] = None"
proof -
  have "od_get (fold (\<lambda>c ps. od_set (py_str fr (jget c ''id'')) (f c) ps) cs qs) [] = od_get qs []"
    if "\<forall>c \<in> set cs. py_str fr (jget c ''id'') \<noteq> []" for f cs and qs :: providers
    using that by (induction cs arbitrary: qs) auto
  from this [of "enabled_custom custom"] assms show ?thesis
    by (simp add: llm_definitions_def Let_def enabled_custom_def)
qed

text \<open>The normalised custom providers of a document: a default that is a model, an identifier.\<close>

lemma normalized_custom:
  assumes "c \<in> set (with_key ''id'' (map (normalize_custom_provider fr) custom))"
  shows "default_listed fr c" and "py_str fr (jget c ''id'') \<noteq> []"
  using assms by (auto simp: with_key_def custom_default_listed)
    (auto simp: normalize_custom_provider_def Let_def jget_def split: prod.splits)

lemma stored_default_offered:
  assumes builtin: "load_builtin_provider_definitions fr config = Inr builtin"
    and custom: "custom = with_key ''id'' (map (normalize_custom_provider fr) custom0)"
    and rag: "normalize_rag fr bi (Some builtin) custom embedding reranker rag = Inr rag'"
  shows "\<exists>pid m. offered_by fr (llm_definitions fr (Some builtin) custom) pid m
    \<and> od_get rag' ''default_provider'' = Some (JStr pid) \<and> od_get rag' ''default_model'' = Some (JStr m)"
proof -
  let ?llm = "llm_definitions fr (Some builtin) custom"
  have "list_all (default_listed fr) custom" using normalized_custom(1) by (auto simp: custom list_all_iff)
  then have "default_listed fr p" if "od_get ?llm k = Some p" for k p
    using llm_definitions_listed builtin_listed [OF builtin] that by blast
  then have offer: "\<exists>i m. offered_by fr ?llm i m
      \<and> od_get (normalize_llm_default fr bi (Some builtin) custom r) ''default_provider'' = Some (JStr i)
      \<and> od_get (normalize_llm_default fr bi (Some builtin) custom r) ''default_model'' = Some (JStr m)" for r
    using llm_definitions_wf [OF builtin] by (intro llm_default_offered) auto
  obtain r where "\<forall>k \<in> {''default_provider'', ''default_model''}.
      od_get rag' k = od_get (normalize_llm_default fr bi (Some builtin) custom r) k"
    using rag_keeps_llm_default [OF rag] by blast
  with offer [of r] show ?thesis by auto
qed

lemma resolve_stored_default:
  assumes "rag_text fr s ''default_provider'' = pid" "rag_text fr s ''default_model'' = m"
    and "od_get ps pid = Some q" "m \<in> set (model_texts fr q)" "m \<noteq> []" "pid \<noteq> []"
  shows "resolve_model fr (Inr ps) s None None = Inr (pid, m, q)"
proof -
  have "ps \<noteq> []" using assms(3) by auto
  moreover have "provider_in ps pid = q" using assms(3) by (simp add: provider_in_def)
  ultimately show ?thesis using assms by (simp add: resolve_model_def routed_def or_text_def Let_def)
qed

text \<open>
  After any load of the settings, a request that names no model and no provider is routed to
  the default provider of the settings and to the default model stored there, which is one of the
  models the provider offers, as soon as that provider has a model at all (and the stored model is not
  the empty text, which only a built-in provider with a blank default gives). Hypothesis: the
  built-in providers are those of the shipped file, none with an empty identifier.
\<close>

theorem default_route_is_offered:
  assumes builtin: "load_builtin_provider_definitions (se_text env) config = Inr builtin" "se_llm env = Some builtin"
    "od_get builtin [] = None"
    and load: "load_settings env (Some doc) = (Inr s, f')"
  shows "\<exists>ps p pid m. registry_providers (se_text env) getenv (Inr builtin) s = Inr ps \<and> od_get ps pid = Some p
    \<and> rag_text (se_text env) s ''default_provider'' = pid \<and> rag_text (se_text env) s ''default_model'' = m
    \<and> (model_texts (se_text env) p \<noteq> [] \<longrightarrow>
         m \<in> set (model_texts (se_text env) p)
         \<and> (m \<noteq> [] \<longrightarrow> resolve_model (se_text env) (Inr ps) s None None = Inr (pid, m, p)))"
proof -
  let ?fr = "se_text env" and ?bi = "se_builtins env"
  obtain d where "normalized env d = Inr s"
    using load by (cases doc; cases "the doc") (auto simp: load_settings_def split: json.splits)
  then obtain s0 where "normalize_settings ?fr ?bi (Some builtin) s0 = Inr s" by (auto simp: normalized_def builtin(2))
  then obtain custom0 embedding reranker rag rag' sources where s:
    "od_get s ''custom_providers'' = Some (dicts (with_key ''id'' (map (normalize_custom_provider ?fr) custom0)))"
    "normalize_rag ?fr ?bi (Some builtin) (with_key ''id'' (map (normalize_custom_provider ?fr) custom0)) embedding reranker rag = Inr rag'"
    "od_get s ''rag'' = Some (JObj rag')"
    by (rule normalize_settings_parts)
  define custom where "custom = with_key ''id'' (map (normalize_custom_provider ?fr) custom0)"
  let ?llm = "llm_definitions ?fr (Some builtin) custom"
  obtain pid m p where offer: "od_get ?llm pid = Some p" "model_texts ?fr p = [] \<or> m \<in> set (model_texts ?fr p)"
    and rag: "od_get rag' ''default_provider'' = Some (JStr pid)" "od_get rag' ''default_model'' = Some (JStr m)"
    using stored_default_offered [OF builtin(1) custom_def s(2) [folded custom_def]] by (auto simp: offered_by_def)
  have "pid \<noteq> []" using llm_definitions_keys [OF builtin(3), of custom ?fr] normalized_custom(2) offer(1) unfolding custom_def by auto
  obtain ps where ps: "registry_providers ?fr getenv (Inr builtin) s = Inr ps" by (simp add: registry_providers_def)
  have "custom_of s = custom" using s(1) by (simp add: custom_of_def jget_def custom_def)
  from registry_models [OF ps this, of pid] offer(1)
  obtain q where q: "od_get ps pid = Some q" "model_texts ?fr q = model_texts ?fr p" by auto
  have stored: "rag_text ?fr s ''default_provider'' = pid" "rag_text ?fr s ''default_model'' = m"
    using s(3) rag by (simp_all add: rag_text_def jget_def dict_or_empty_def text_or_def j_or_def)
  with resolve_stored_default [OF stored q(1)] \<open>pid \<noteq> []\<close> ps q offer(2) show ?thesis by auto
qed

definition one_builtin :: json_file where
  "one_builtin = Some (Some (JObj [(''llm'', JArr [JObj [(''id'', JStr ''acme''), (''models'', JArr [JStr ''m1''])]])]))"

definition one_provider :: providers where
  "one_provider = (case load_builtin_provider_definitions (\<lambda>_. []) one_builtin of Inr ps \<Rightarrow> ps | Inl _ \<Rightarrow> [])"

definition demo_env :: settings_env where
  "demo_env = \<lparr>se_text = (\<lambda>_. []), se_builtins = \<lparr>bi_llm = one_provider, bi_embedding = [], bi_reranker = [], bi_voice = [], bi_ocr = []\<rparr>,
     se_llm = Some one_provider\<rparr>"

lemma one_provider_loaded: "load_builtin_provider_definitions (\<lambda>_. []) one_builtin = Inr one_provider" "od_get one_provider [] = None"
  by code_simp+

text \<open>An unreadable file loads as the normalised defaults.\<close>

definition is_float_at :: "jdict \<Rightarrow> string \<Rightarrow> bool" where
  "is_float_at d k \<longleftrightarrow> (case od_get d k of Some (JFloat x) \<Rightarrow> True | _ \<Rightarrow> False)"

lemma is_float_at_steps [simp]:
  "is_float_at (od_set k (JFloat x) rag) k' = (k' = k \<or> is_float_at rag k')"
  "k' \<noteq> k \<Longrightarrow> is_float_at (set_int k lo hi dflt rag) k' = is_float_at rag k'"
  "k' \<noteq> k \<Longrightarrow> is_float_at (set_bool fr k b rag) k' = is_float_at rag k'"
  "k' \<noteq> k \<Longrightarrow> is_float_at (set_text k s rag) k' = is_float_at rag k'"
  "k' \<notin> {''default_model'', ''default_provider'', ''embedding_model'', ''embedding_provider''} \<Longrightarrow>
     is_float_at (normalize_rag_models fr bi llm custom embedding rag) k' = is_float_at rag k'"
  "k' \<noteq> ''reranker_model'' \<Longrightarrow> k' \<noteq> ''reranker_type'' \<Longrightarrow>
     is_float_at (normalize_reranker_default fr bi custom rag) k' = is_float_at rag k'"
  by (simp_all add: is_float_at_def rag_models_frame reranker_default_frame)

lemma set_float_total: "is_float_at rag k \<Longrightarrow> \<exists>x. set_float k lo hi dflt rag = Inr (od_set k (JFloat x) rag)"
  by (auto simp: is_float_at_def set_float_def float_between_def jget_def split: option.splits json.splits)

lemma normalize_rag_total:
  assumes "is_float_at rag ''temperature''" "is_float_at rag ''reranker_mmr_lambda''" "is_float_at rag ''reranker_threshold''"
  shows "\<exists>rag'. normalize_rag fr bi llm custom embedding reranker rag = Inr rag'"
proof -
  let ?r1 = "set_int ''query_k'' 1 50 5 (set_int ''chunk_overlap'' 0 500 150 (set_int ''chunk_size'' 100 10000 1000 rag))"
  obtain t where t: "set_float ''temperature'' 0 1 (3 / 10) ?r1 = Inr (od_set ''temperature'' (JFloat t) ?r1)"
    using set_float_total [of ?r1 "''temperature''" 0 1 "3 / 10"] assms(1) by auto
  define r2 where "r2 = od_set ''temperature'' (JFloat t) ?r1"
  define r5 where "r5 = set_int ''reranker_top_n'' 1 200 20 (normalize_reranker_default fr bi reranker
    (set_bool fr ''reranker_enabled'' False (set_bool fr ''use_internal_knowledge'' False (set_bool fr ''enable_cache'' True
    (set_int ''cache_ttl'' 60 86400 3600 (normalize_rag_models fr bi llm custom embedding r2))))))"
  define r6 where "r6 = set_text ''reranker_diversity_mode'' (choice fr diversity_modes ''none'' (jget r5 ''reranker_diversity_mode'')) r5"
  have "is_float_at r6 ''reranker_mmr_lambda''" "is_float_at r6 ''reranker_threshold''"
    using assms(2,3) by (simp_all add: r6_def r5_def r2_def)
  then obtain l where l: "set_float ''reranker_mmr_lambda'' 0 1 (7 / 10) r6 = Inr (od_set ''reranker_mmr_lambda'' (JFloat l) r6)"
    and h: "is_float_at (od_set ''reranker_mmr_lambda'' (JFloat l) r6) ''reranker_threshold''"
    using set_float_total [of r6 "''reranker_mmr_lambda''" 0 1 "7 / 10"] by auto
  define r7 where "r7 = od_set ''reranker_mmr_lambda'' (JFloat l) r6"
  define r8 where "r8 = set_int ''reranker_mmr_candidate_pool'' (top_n_of r7) 200 (min (max (top_n_of r7) (top_n_of r7 * 4)) 200) r7"
  obtain x where "set_float ''reranker_threshold'' 0 10 0 r8 = Inr (od_set ''reranker_threshold'' (JFloat x) r8)"
    using set_float_total [of r8 "''reranker_threshold''" 0 10 0] h by (auto simp: r8_def r7_def)
  then show ?thesis
    unfolding normalize_rag_def Let_def t bindE.simps r2_def [symmetric] r5_def [symmetric] r6_def [symmetric] l r7_def [symmetric]
      r8_def [symmetric] by simp
qed

lemma default_settings_get:
  "jget_or (default_settings fr bi) ''custom_providers'' v = JArr []" "jget_or (default_settings fr bi) ''embedding_providers'' v = JArr []"
  "jget_or (default_settings fr bi) ''reranker_providers'' v = JArr []" "jget_or (default_settings fr bi) ''voice_providers'' v = JArr []"
  "jget_or (default_settings fr bi) ''ocr_providers'' v = JArr []" "jget_or (default_settings fr bi) ''data_sources'' v = JArr []"
  "jget_or (default_settings fr bi) ''voice'' v = JObj (default_voice bi)" "jget_or (default_settings fr bi) ''ocr'' v = JObj (default_ocr bi)"
  "jget_or (default_settings fr bi) ''rag'' v = JObj (default_rag fr bi)"
  "jget_or (default_settings fr bi) ''auth'' v = JObj [(''admin_password_hash'', JStr []), (''api_keys'', JArr [])]"
  by (simp_all add: default_settings_def jget_or_def)

lemma jget_or_set [simp]: "jget_or (od_set k v d) k' dflt = (if k' = k then v else jget_or d k' dflt)"
  by (simp add: jget_or_def)

lemma dict_elements_empty [simp]: "dict_elements (JArr []) = Inr []"
  by (simp add: dict_elements_def)

lemma defaults_normalize: "\<exists>s. normalize_settings fr bi llm (default_settings fr bi) = Inr s"
proof -
  have "\<exists>rag. normalize_rag fr bi llm [] [] [] (default_rag fr bi) = Inr rag"
    by (rule normalize_rag_total) (simp_all add: is_float_at_def default_rag_get)
  then show ?thesis
    by (auto simp: normalize_settings_def section_list_def section_dict_def as_dict_def Let_def default_settings_get with_key_def
        jget_or_def [of "[(''admin_password_hash'', JStr []), (''api_keys'', JArr [])]"])
qed

theorem default_route_is_offered_witness:
  "\<exists>s ps p m. fst (load_settings demo_env (Some None)) = Inr s
    \<and> registry_providers (\<lambda>_. []) (\<lambda>_. None) (Inr one_provider) s = Inr ps
    \<and> od_get ps (rag_text (\<lambda>_. []) s ''default_provider'') = Some p \<and> rag_text (\<lambda>_. []) s ''default_model'' = m"
proof -
  have env: "se_text demo_env = (\<lambda>_. [])" "se_llm demo_env = Some one_provider" by (simp_all add: demo_env_def)
  obtain s where "load_settings demo_env (Some None) = (Inr s, Some None)"
    using defaults_normalize [of "se_text demo_env" "se_builtins demo_env" "se_llm demo_env"]
    by (auto simp: load_settings_def normalized_def)
  with default_route_is_offered [of demo_env one_builtin one_provider None s "Some None" "\<lambda>_. None"] one_provider_loaded env
  show ?thesis by auto
qed

end
