(* ===== verification/User_Store.thy ===== *)
theory User_Store
  imports Py_Text "HOL-Library.List_Lexorder" "HOL-Library.Char_ord" Knowledge_Bases
begin

text \<open>
  The user database, \<open>app/db/schema.sql\<close>: the rows of its two tables, the statements of
  \<open>app/utils/user_store.py\<close> that change them with the constraints SQLite enforces, and the
  public views of the rows. Lists stand for tables in the order of their row ids; the two JSON
  columns of an API key hold the lists they encode.
\<close>

section \<open>Rows\<close>

record user_row =
  u_id :: string
  u_email :: string
  u_display :: string
  u_hash :: string
  u_role :: string
  u_enabled :: bool
  u_created :: string
  u_updated :: string
  u_status :: string
  u_error :: string

record key_row =
  k_id :: string
  k_user :: string
  k_name :: string
  k_hash :: string
  k_prefix :: string
  k_suffix :: string
  k_scopes :: "string list"
  k_kbs :: "string list"
  k_enabled :: bool
  k_created :: string
  k_last_used :: string
  k_usage :: nat
  k_description :: string
  k_expires :: "string option"

record udb =
  users :: "user_row list"
  keys :: "key_row list"

definition empty_udb :: udb where
  "empty_udb = \<lparr>users = [], keys = []\<rparr>"

section \<open>Selection\<close>

definition find_user :: "udb \<Rightarrow> string \<Rightarrow> user_row option" where
  "find_user db uid = find (\<lambda>u. u_id u = uid) (users db)"

definition find_email :: "udb \<Rightarrow> string \<Rightarrow> user_row option" where
  "find_email db email = find (\<lambda>u. u_email u = email) (users db)"

definition find_key :: "udb \<Rightarrow> string \<Rightarrow> string \<Rightarrow> key_row option" where
  "find_key db uid name = find (\<lambda>k. k_user k = uid \<and> k_name k = name) (keys db)"

definition user_keys :: "udb \<Rightarrow> string \<Rightarrow> key_row list" where
  "user_keys db uid = filter (\<lambda>k. k_user k = uid) (keys db)"

section \<open>Statements\<close>

datatype sql_error = UniqueUserId | UniqueEmail | UniqueKeyId | UniqueKeyName | ForeignKey

definition insert_user :: "user_row \<Rightarrow> udb \<Rightarrow> sql_error + udb" where
  "insert_user u db =
     (if find_user db (u_id u) \<noteq> None then Inl UniqueUserId
      else if find_email db (u_email u) \<noteq> None then Inl UniqueEmail
      else Inr (db\<lparr>users := users db @ [u]\<rparr>))"

definition set_user :: "string \<Rightarrow> (user_row \<Rightarrow> user_row) \<Rightarrow> udb \<Rightarrow> udb" where
  "set_user uid f db = db\<lparr>users := upd_where (\<lambda>u. u_id u = uid) f (users db)\<rparr>"

text \<open>\<open>DELETE FROM users\<close>; the foreign key cascades to the API keys.\<close>

definition delete_user_row :: "string \<Rightarrow> udb \<Rightarrow> bool \<times> udb" where
  "delete_user_row uid db = (find_user db uid \<noteq> None,
     \<lparr>users = filter (\<lambda>u. u_id u \<noteq> uid) (users db), keys = filter (\<lambda>k. k_user k \<noteq> uid) (keys db)\<rparr>)"

definition insert_key :: "key_row \<Rightarrow> udb \<Rightarrow> sql_error + udb" where
  "insert_key k db =
     (if find_user db (k_user k) = None then Inl ForeignKey
      else if k_id k \<in> k_id ` set (keys db) then Inl UniqueKeyId
      else if find_key db (k_user k) (k_name k) \<noteq> None then Inl UniqueKeyName
      else Inr (db\<lparr>keys := keys db @ [k]\<rparr>))"

definition set_key :: "string \<Rightarrow> (key_row \<Rightarrow> key_row) \<Rightarrow> udb \<Rightarrow> udb" where
  "set_key kid f db = db\<lparr>keys := upd_where (\<lambda>k. k_id k = kid) f (keys db)\<rparr>"

definition touch_user :: "string \<Rightarrow> string \<Rightarrow> udb \<Rightarrow> udb" where
  "touch_user uid now = set_user uid (\<lambda>u. u\<lparr>u_updated := now\<rparr>)"

definition remove_key :: "string \<Rightarrow> udb \<Rightarrow> udb" where
  "remove_key kid db = db\<lparr>keys := filter (\<lambda>k. k_id k \<noteq> kid) (keys db)\<rparr>"

section \<open>Public views\<close>

record public_key =
  pk_id :: string
  pk_name :: string
  pk_scopes :: "string list"
  pk_kbs :: "string list"
  pk_enabled :: bool
  pk_created :: string
  pk_last_used :: string
  pk_usage :: nat
  pk_description :: string
  pk_expires :: "string option"
  pk_masked :: string
  pk_user :: string

record public_user =
  pu_id :: string
  pu_email :: string
  pu_display :: string
  pu_role :: string
  pu_enabled :: bool
  pu_created :: string
  pu_updated :: string
  pu_status :: string
  pu_error :: string
  pu_keys :: "public_key list"

definition public_api_key :: "key_row \<Rightarrow> public_key" where
  "public_api_key k = \<lparr>pk_id = k_id k, pk_name = k_name k, pk_scopes = k_scopes k, pk_kbs = k_kbs k,
     pk_enabled = k_enabled k, pk_created = k_created k, pk_last_used = k_last_used k, pk_usage = k_usage k,
     pk_description = k_description k, pk_expires = k_expires k,
     pk_masked = (if k_prefix k \<noteq> [] \<or> k_suffix k \<noteq> [] then k_prefix k @ ''...'' @ k_suffix k else []),
     pk_user = k_user k\<rparr>"

text \<open>\<open>SELECT * FROM api_keys WHERE user_id = ? ORDER BY created_at\<close>\<close>

definition load_api_keys :: "udb \<Rightarrow> string \<Rightarrow> key_row list" where
  "load_api_keys db uid = sort_key k_created (user_keys db uid)"

definition public_user_of :: "udb \<Rightarrow> user_row \<Rightarrow> public_user" where
  "public_user_of db u = \<lparr>pu_id = u_id u, pu_email = u_email u, pu_display = u_display u, pu_role = u_role u,
     pu_enabled = u_enabled u, pu_created = u_created u, pu_updated = u_updated u, pu_status = u_status u,
     pu_error = u_error u, pu_keys = map public_api_key (load_api_keys db (u_id u))\<rparr>"

section \<open>Integrity\<close>

text \<open>What the schema enforces: keys of the tables, unique columns, and the foreign key.\<close>

definition key_slot :: "key_row \<Rightarrow> string \<times> string" where
  "key_slot k = (k_user k, k_name k)"

definition integrity :: "udb \<Rightarrow> bool" where
  "integrity db \<longleftrightarrow> distinct (map u_id (users db)) \<and> distinct (map u_email (users db))
     \<and> distinct (map k_id (keys db)) \<and> distinct (map key_slot (keys db))
     \<and> k_user ` set (keys db) \<subseteq> u_id ` set (users db)"

lemma find_user_None: "find_user db uid = None \<longleftrightarrow> uid \<notin> u_id ` set (users db)"
  by (auto simp: find_user_def find_None_iff)

lemma find_email_None: "find_email db e = None \<longleftrightarrow> e \<notin> u_email ` set (users db)"
  by (auto simp: find_email_def find_None_iff)

lemma find_user_Some: "find_user db uid = Some u \<Longrightarrow> u \<in> set (users db) \<and> u_id u = uid"
  by (auto simp: find_user_def find_Some_iff)

lemma find_email_Some: "find_email db e = Some u \<Longrightarrow> u \<in> set (users db) \<and> u_email u = e"
  by (auto simp: find_email_def find_Some_iff)

lemma find_key_None: "find_key db uid name = None \<longleftrightarrow> (uid, name) \<notin> key_slot ` set (keys db)"
  by (auto simp: find_key_def find_None_iff key_slot_def)

lemma find_key_Some: "find_key db uid name = Some k \<Longrightarrow> k \<in> set (keys db) \<and> key_slot k = (uid, name)"
  by (auto simp: find_key_def find_Some_iff key_slot_def)

lemma find_user_mem: "integrity db \<Longrightarrow> u \<in> set (users db) \<Longrightarrow> find_user db (u_id u) = Some u"
  by (cases "find_user db (u_id u)")
    (auto simp: integrity_def find_user_None dest!: find_user_Some dest: inj_onD simp: distinct_map)

lemma key_by_id: "integrity db \<Longrightarrow> k \<in> set (keys db) \<Longrightarrow> k' \<in> set (keys db) \<Longrightarrow> k_id k = k_id k' \<Longrightarrow> k = k'"
  by (auto simp: integrity_def distinct_map dest: inj_onD)

lemma insert_user_integrity: "integrity db \<Longrightarrow> insert_user u db = Inr db' \<Longrightarrow> integrity db'"
  by (auto simp: insert_user_def integrity_def find_user_None find_email_None image_subset_iff split: if_splits)

lemma insert_key_integrity: "integrity db \<Longrightarrow> insert_key k db = Inr db' \<Longrightarrow> integrity db'"
  by (auto simp: insert_key_def integrity_def find_user_None find_key_None key_slot_def image_subset_iff split: if_splits)

lemma set_user_integrity:
  "integrity db \<Longrightarrow> (\<And>u. u_id (f u) = u_id u \<and> u_email (f u) = u_email u) \<Longrightarrow> integrity (set_user uid f db)"
  by (simp add: integrity_def set_user_def map_upd_where image_upd_where)

lemma delete_user_integrity: "integrity db \<Longrightarrow> integrity (snd (delete_user_row uid db))"
  by (auto simp: integrity_def delete_user_row_def distinct_map inj_on_def)

lemma set_key_integrity:
  "integrity db \<Longrightarrow> (\<And>k. k_id (f k) = k_id k \<and> key_slot (f k) = key_slot k) \<Longrightarrow> integrity (set_key kid f db)"
proof -
  assume i: "integrity db" and f: "\<And>k. k_id (f k) = k_id k \<and> key_slot (f k) = key_slot k"
  then have "\<And>k. k_user (f k) = k_user k" by (simp add: key_slot_def)
  with i f show ?thesis by (simp add: integrity_def set_key_def map_upd_where image_upd_where)
qed

lemma remove_key_integrity: "integrity db \<Longrightarrow> integrity (remove_key kid db)"
  by (auto simp: integrity_def remove_key_def distinct_map inj_on_def)

lemma touch_user_integrity: "integrity db \<Longrightarrow> integrity (touch_user uid now db)"
  by (simp add: touch_user_def set_user_integrity)

lemma statements_frame [simp]:
  "keys (set_user uid f db) = keys db" "users (set_key kid g db) = users db" "users (remove_key kid db) = users db"
  "keys (touch_user uid now db) = keys db"
  by (simp_all add: set_user_def set_key_def remove_key_def touch_user_def)

text \<open>
  \<open>app/utils/user_store.py\<close>: local accounts and their API keys. Every method is one function
  of the database; what it draws from the outside (the current instant as text, random
  identifiers and keys, the salt of a password hash, the outcome of a callback) is an argument.
  Password hashing is a pair of parameters, \<open>genpw salt password\<close> and \<open>checkpw hash password\<close>;
  the hexadecimal SHA-256 of a text is \<open>dig\<close>.
\<close>

section \<open>Errors and constants\<close>

datatype user_error =
    ValueError string
  | KbError kb_failure
  | SqlError sql_error
  | Callback string

definition api_scopes :: "string list" where
  "api_scopes = [''query'', ''ingest'', ''speech'', ''kb_manage'', ''agent_manage'', ''history_read'', ''history_manage'']"

definition api_scopes_requiring_kb :: "string list" where
  "api_scopes_requiring_kb = [''query'', ''ingest'', ''agent_manage'', ''history_read'', ''history_manage'']"

definition user_deletion_statuses :: "string list" where
  "user_deletion_statuses = [''deleting'', ''delete_failed'']"

text \<open>\<open>API_SCOPES_REQUIRING_KB & set(scopes)\<close>\<close>

definition requires_kb :: "string list \<Rightarrow> bool" where
  "requires_kb scopes \<longleftrightarrow> list_ex (\<lambda>s. s \<in> set scopes) api_scopes_requiring_kb"

section \<open>Normalization\<close>

definition normalize_email :: "string \<Rightarrow> string" where
  "normalize_email value = py_lower (py_strip value)"

fun normalize_scopes_loop :: "string list \<Rightarrow> string list \<Rightarrow> string list" where
  "normalize_scopes_loop result [] = result"
| "normalize_scopes_loop result (s # ss) =
     (let cleaned = py_lower (py_strip s)
      in normalize_scopes_loop (if cleaned \<in> set api_scopes \<and> cleaned \<notin> set result then result @ [cleaned] else result) ss)"

definition normalize_api_scopes :: "string list \<Rightarrow> string list" where
  "normalize_api_scopes scopes =
     (let result = normalize_scopes_loop [] scopes in if result = [] then [''query''] else result)"

text \<open>The three forms of the argument: \<open>None\<close>, a text, a list.\<close>

datatype kb_ids_arg = NoIds | IdText string | IdList "string list"

fun kb_values :: "kb_ids_arg \<Rightarrow> string list" where
  "kb_values NoIds = [''default'']"
| "kb_values (IdText t) = py_splitlines [] (map (\<lambda>c. if c = CHR '','' then CHR 0x0A else c) t)"
| "kb_values (IdList xs) = xs"

definition validate_kb_text :: "string \<Rightarrow> user_error + string" where
  "validate_kb_text v = (case validate_knowledge_base_id (\<lambda>_. []) (JStr v) of Inl e \<Rightarrow> Inl (KbError e) | Inr i \<Rightarrow> Inr i)"

fun normalize_kb_loop :: "string list \<Rightarrow> string list \<Rightarrow> user_error + string list" where
  "normalize_kb_loop result [] = Inr result"
| "normalize_kb_loop result (v # vs) =
     bindE (validate_kb_text v) (\<lambda>i. normalize_kb_loop (if i \<in> set result then result else result @ [i]) vs)"

definition normalize_knowledge_base_ids :: "kb_ids_arg \<Rightarrow> user_error + string list" where
  "normalize_knowledge_base_ids values = normalize_kb_loop [] (kb_values values)"

definition need_kb :: "string list \<Rightarrow> string list \<Rightarrow> user_error + unit" where
  "need_kb scopes kbs = guardE (\<not> (requires_kb scopes \<and> kbs = [])) (ValueError ''knowledge base required'')"

section \<open>Users\<close>

definition user_id :: "string \<Rightarrow> string \<Rightarrow> string" where
  "user_id email uuid =
     (let slug = py_strip_chars ''-._'' (re_squeeze
            (\<lambda>c. (let n = of_char c :: nat in 97 \<le> n \<and> n \<le> 122 \<or> 48 \<le> n \<and> n \<le> 57 \<or> c \<in> set ''_.-''))
            CHR ''-'' False (py_lower email));
          short = take 48 slug
      in (if short = [] then ''user'' else short) @ ''-'' @ take 8 uuid)"

definition user_record :: "(string \<Rightarrow> string \<Rightarrow> string) \<Rightarrow> string \<Rightarrow> string \<Rightarrow> string \<Rightarrow> string \<Rightarrow> bool
    \<Rightarrow> string \<Rightarrow> string \<Rightarrow> string \<Rightarrow> user_row" where
  "user_record genpw email password display role enabled uuid salt now =
     \<lparr>u_id = user_id email uuid, u_email = email,
      u_display = (if py_strip display = [] then email else py_strip display),
      u_hash = genpw salt password, u_role = role, u_enabled = enabled, u_created = now, u_updated = now,
      u_status = [], u_error = []\<rparr>"

text \<open>The public view of a user that was just built carries no list of keys.\<close>

definition public_new_user :: "user_row \<Rightarrow> public_user" where
  "public_new_user u = public_user_of empty_udb u"

definition user_roles :: "string list" where
  "user_roles = [''admin'', ''user'']"

definition create_user :: "(string \<Rightarrow> string \<Rightarrow> string) \<Rightarrow> string \<Rightarrow> string \<Rightarrow> string \<Rightarrow> string \<Rightarrow> bool
    \<Rightarrow> string \<Rightarrow> string \<Rightarrow> string \<Rightarrow> udb \<Rightarrow> (user_error + public_user) \<times> udb" where
  "create_user genpw email password display role enabled uuid salt now db =
     (let email' = normalize_email email; role' = (if role \<in> set user_roles then role else ''user'')
      in if email' = [] then (Inl (ValueError ''email is required''), db)
         else if password = [] then (Inl (ValueError ''password is required''), db)
         else let u = user_record genpw email' password display role' enabled uuid salt now
           in case insert_user u db of
                Inl e \<Rightarrow> (Inl (if e = UniqueEmail then ValueError ''email already exists'' else SqlError e), db)
              | Inr db' \<Rightarrow> (Inr (public_new_user u), db'))"

text \<open>\<open>None\<close> in a field of the patch: the key is absent.\<close>

record user_patch =
  up_display :: "string option"
  up_role :: "string option"
  up_enabled :: "bool option"
  up_password :: "string option"

definition patched_user :: "(string \<Rightarrow> string \<Rightarrow> string) \<Rightarrow> user_patch \<Rightarrow> string \<Rightarrow> string \<Rightarrow> user_row \<Rightarrow> user_row \<Rightarrow> user_row" where
  "patched_user genpw p salt now seen u =
     (let u1 = (case up_display p of None \<Rightarrow> u
            | Some d \<Rightarrow> u\<lparr>u_display := py_strip (if d = [] then u_email seen else d)\<rparr>);
          u2 = (case up_role p of None \<Rightarrow> u1 | Some r \<Rightarrow> if r \<in> set user_roles then u1\<lparr>u_role := r\<rparr> else u1);
          u3 = (case up_enabled p of None \<Rightarrow> u2 | Some b \<Rightarrow> u2\<lparr>u_enabled := b\<rparr>);
          u4 = (case up_password p of None \<Rightarrow> u3
            | Some pw \<Rightarrow> if pw = [] then u3 else u3\<lparr>u_hash := genpw salt pw\<rparr>)
      in u4\<lparr>u_updated := now\<rparr>)"

text \<open>
  \<open>update_user\<close> reads the row, checks the patch against it, and then writes: two statements,
  with no transaction around them. \<open>seen\<close> is the row that was read.
\<close>

definition update_user_check :: "user_patch \<Rightarrow> user_row \<Rightarrow> user_error + unit" where
  "update_user_check p seen =
     guardE (\<not> (up_enabled p = Some True \<and> u_status seen \<in> set user_deletion_statuses)) (ValueError ''incomplete deletion'')"

definition update_user_write :: "(string \<Rightarrow> string \<Rightarrow> string) \<Rightarrow> string \<Rightarrow> user_patch \<Rightarrow> string \<Rightarrow> string \<Rightarrow> user_row \<Rightarrow> udb \<Rightarrow> udb" where
  "update_user_write genpw uid p salt now seen db = set_user uid (patched_user genpw p salt now seen) db"

definition update_user :: "(string \<Rightarrow> string \<Rightarrow> string) \<Rightarrow> string \<Rightarrow> user_patch \<Rightarrow> string \<Rightarrow> string \<Rightarrow> udb
    \<Rightarrow> (user_error + public_user option) \<times> udb" where
  "update_user genpw uid p salt now db =
     (case find_user db uid of
        None \<Rightarrow> (Inr None, db)
      | Some u \<Rightarrow>
          (case update_user_check p u of
             Inl e \<Rightarrow> (Inl e, db)
           | Inr _ \<Rightarrow> let db' = update_user_write genpw uid p salt now u db
               in (Inr (Some (public_user_of db' (patched_user genpw p salt now u u))), db')))"

definition list_users :: "udb \<Rightarrow> public_user list" where
  "list_users db = map (public_user_of db) (sort_key u_created (users db))"

definition get_user :: "udb \<Rightarrow> string \<Rightarrow> public_user option" where
  "get_user db uid = map_option (public_user_of db) (find_user db uid)"

definition get_by_email :: "udb \<Rightarrow> string \<Rightarrow> public_user option" where
  "get_by_email db email = map_option (public_user_of db) (find_email db (normalize_email email))"

definition has_users :: "udb \<Rightarrow> bool" where
  "has_users db \<longleftrightarrow> users db \<noteq> []"

definition authenticate :: "(string \<Rightarrow> string \<Rightarrow> bool) \<Rightarrow> string \<Rightarrow> string \<Rightarrow> udb \<Rightarrow> public_user option" where
  "authenticate checkpw email password db =
     (case find (\<lambda>u. u_email u = normalize_email email \<and> u_enabled u) (users db) of
        None \<Rightarrow> None
      | Some u \<Rightarrow> if \<not> checkpw (u_hash u) password then None else Some (public_user_of db u))"

definition bootstrap_admin_if_empty :: "(string \<Rightarrow> string \<Rightarrow> string) \<Rightarrow> string \<Rightarrow> string \<Rightarrow> string \<Rightarrow> string \<Rightarrow> string
    \<Rightarrow> udb \<Rightarrow> (user_error + public_user option) \<times> udb" where
  "bootstrap_admin_if_empty genpw email password uuid salt now db =
     (if users db \<noteq> [] then (Inr None, db)
      else let u = user_record genpw (normalize_email (if email = [] then ''admin@example.local'' else email))
                     password ''Admin'' ''admin'' True uuid salt now
        in case insert_user u db of Inl e \<Rightarrow> (Inl (SqlError e), db) | Inr db' \<Rightarrow> (Inr (Some (public_new_user u)), db'))"

section \<open>Deleting a user\<close>

text \<open>
  The phases of \<open>delete_user\<close> with a callback. The first returns the row as it was, which the
  restoration after a failed preflight puts back; it too reads and then writes, so the write is a
  definition of its own.
\<close>

definition delete_mark :: "string \<Rightarrow> string \<Rightarrow> udb \<Rightarrow> udb" where
  "delete_mark uid now db = set_user uid
     (\<lambda>u. u\<lparr>u_enabled := False, u_status := ''deleting'', u_error := [], u_updated := now\<rparr>) db"

definition delete_begin :: "string \<Rightarrow> string \<Rightarrow> udb \<Rightarrow> user_row option \<times> udb" where
  "delete_begin uid now db =
     (case find_user db uid of
        None \<Rightarrow> (None, db)
      | Some u \<Rightarrow> (Some u, delete_mark uid now db))"

definition delete_restore :: "string \<Rightarrow> user_row \<Rightarrow> string \<Rightarrow> udb \<Rightarrow> udb" where
  "delete_restore uid original now db = set_user uid
     (\<lambda>u. u\<lparr>u_enabled := u_enabled original, u_status := u_status original, u_error := u_error original,
            u_updated := now\<rparr>) db"

definition delete_mark_failed :: "string \<Rightarrow> string \<Rightarrow> string \<Rightarrow> udb \<Rightarrow> udb" where
  "delete_mark_failed uid message now db = set_user uid
     (\<lambda>u. u\<lparr>u_enabled := False, u_status := ''delete_failed'', u_error := message, u_updated := now\<rparr>) db"

datatype callback_outcome = CallbackReturns | PreflightError string | CallbackRaises string

definition delete_user :: "string \<Rightarrow> callback_outcome option \<Rightarrow> string \<Rightarrow> string \<Rightarrow> udb \<Rightarrow> (user_error + bool) \<times> udb" where
  "delete_user uid before_delete now now' db =
     (case before_delete of
        None \<Rightarrow> (let (found, db') = delete_user_row uid db in (Inr found, db'))
      | Some outcome \<Rightarrow>
          (case delete_begin uid now db of
             (None, db1) \<Rightarrow> (Inr False, db1)
           | (Some original, db1) \<Rightarrow>
               (case outcome of
                  PreflightError m \<Rightarrow> (Inl (Callback m), delete_restore uid original now' db1)
                | CallbackRaises m \<Rightarrow> (Inl (Callback m), delete_mark_failed uid m now' db1)
                | CallbackReturns \<Rightarrow> (let (found, db2) = delete_user_row uid db1 in (Inr found, db2)))))"

end
