(* ===== verification/User_Keys.thy ===== *)
theory User_Keys
  imports User_Store
begin

text \<open>
  The API keys of \<open>app/utils/user_store.py\<close>. The raw key is handed out once; the database
  keeps its hash. \<open>validate\<close>, \<open>lease_check\<close> and \<open>finalize\<close> are callbacks of the caller: their
  outcome is an argument, \<open>None\<close> when they return.
\<close>

section \<open>Creating, changing, deleting\<close>

definition api_key_hash :: "(string \<Rightarrow> string) \<Rightarrow> string \<Rightarrow> string" where
  "api_key_hash dig value = dig value"

definition key_suffix :: "string \<Rightarrow> string" where
  "key_suffix key = drop (length key - 4) key"

definition mask_api_key :: "string \<Rightarrow> string" where
  "mask_api_key key = (if length key \<le> 8 then map (\<lambda>_. CHR ''*'') key else take 8 key @ ''...'' @ key_suffix key)"

definition or_raises :: "string option \<Rightarrow> user_error + unit" where
  "or_raises outcome = (case outcome of None \<Rightarrow> Inr () | Some m \<Rightarrow> Inl (Callback m))"

text \<open>A transaction: an exception before \<open>commit\<close> leaves the database as it was.\<close>

definition in_tx :: "udb \<Rightarrow> (user_error + 'a \<times> udb) \<Rightarrow> (user_error + 'a) \<times> udb" where
  "in_tx db r = (case r of Inl e \<Rightarrow> (Inl e, db) | Inr (x, db') \<Rightarrow> (Inr x, db'))"

definition new_key_row :: "(string \<Rightarrow> string) \<Rightarrow> string \<Rightarrow> string \<Rightarrow> string \<Rightarrow> string \<Rightarrow> string list \<Rightarrow> string list \<Rightarrow> bool
    \<Rightarrow> string \<Rightarrow> string option \<Rightarrow> string \<Rightarrow> key_row" where
  "new_key_row dig kid uid name value scopes kbs enabled description expires now =
     \<lparr>k_id = kid, k_user = uid, k_name = name, k_hash = api_key_hash dig value, k_prefix = take 8 value,
      k_suffix = key_suffix value, k_scopes = scopes, k_kbs = kbs, k_enabled = enabled, k_created = now,
      k_last_used = [], k_usage = 0, k_description = py_strip description, k_expires = expires\<rparr>"

text \<open>The two statements of the transaction; a violated constraint is reported as a name in use.\<close>

definition store_key :: "key_row \<Rightarrow> string \<Rightarrow> udb \<Rightarrow> user_error + udb" where
  "store_key k now db = (case insert_key k db of
     Inl e \<Rightarrow> Inl (ValueError ''API key name already exists'') | Inr db' \<Rightarrow> Inr (touch_user (k_user k) now db'))"

text \<open>The result of \<open>create_api_key\<close>: the raw key and the public view.\<close>

definition create_api_key :: "(string \<Rightarrow> string) \<Rightarrow> string \<Rightarrow> string \<Rightarrow> string list \<Rightarrow> kb_ids_arg \<Rightarrow> string \<Rightarrow> bool \<Rightarrow> string
    \<Rightarrow> string option \<Rightarrow> string option \<Rightarrow> string \<Rightarrow> string \<Rightarrow> string \<Rightarrow> udb \<Rightarrow> (user_error + string \<times> string \<times> key_row) \<times> udb" where
  "create_api_key dig uid name scopes kb_arg given_value enabled description expires validate generated kid now db =
     in_tx db
       (let name' = py_strip name; value = py_strip (if given_value = [] then generated else given_value)
        in bindE (guardE (name' \<noteq> []) (ValueError ''name is required'')) (\<lambda>_.
           let scopes' = normalize_api_scopes scopes
           in bindE (normalize_knowledge_base_ids kb_arg) (\<lambda>kbs.
              bindE (need_kb scopes' kbs) (\<lambda>_.
              bindE (guardE (find_user db uid \<noteq> None) (ValueError ''User not found'')) (\<lambda>_.
              bindE (or_raises validate) (\<lambda>_.
              let k = new_key_row dig kid uid name' value scopes' kbs enabled description expires now
              in bindE (store_key k now db) (\<lambda>db'. Inr ((value, mask_api_key value, k), db'))))))))"

definition get_api_keys :: "udb \<Rightarrow> string \<Rightarrow> public_key list" where
  "get_api_keys db uid = map public_api_key (load_api_keys db uid)"

definition get_api_key :: "udb \<Rightarrow> string \<Rightarrow> string \<Rightarrow> public_key option" where
  "get_api_key db uid name = map_option public_api_key (find_key db uid name)"

definition update_api_key_usage :: "string \<Rightarrow> string \<Rightarrow> string \<Rightarrow> udb \<Rightarrow> udb" where
  "update_api_key_usage uid name now db =
     (case find_key db uid name of
        None \<Rightarrow> db
      | Some k \<Rightarrow> if \<not> k_enabled k then db
          else touch_user uid now (set_key (k_id k) (\<lambda>k. k\<lparr>k_last_used := now, k_usage := k_usage k + 1\<rparr>) db))"

text \<open>The statement that follows the lookup of a key by name: change one row, touch the user.\<close>

definition change_key :: "key_row \<Rightarrow> (key_row \<Rightarrow> key_row) \<Rightarrow> string \<Rightarrow> string \<Rightarrow> udb \<Rightarrow> public_key option \<times> udb" where
  "change_key row f uid now db = (Some (public_api_key (f row)), touch_user uid now (set_key (k_id row) f db))"

definition toggle_api_key_enabled :: "string \<Rightarrow> string \<Rightarrow> bool option \<Rightarrow> string \<Rightarrow> udb \<Rightarrow> public_key option \<times> udb" where
  "toggle_api_key_enabled uid name enabled now db =
     (case find_key db uid name of
        None \<Rightarrow> (None, db)
      | Some row \<Rightarrow>
          let new_enabled = (case enabled of None \<Rightarrow> \<not> k_enabled row | Some b \<Rightarrow> b)
          in change_key row (\<lambda>k. k\<lparr>k_enabled := new_enabled\<rparr>) uid now db)"

definition delete_api_key :: "string \<Rightarrow> string \<Rightarrow> string \<Rightarrow> udb \<Rightarrow> bool \<times> udb" where
  "delete_api_key uid name now db =
     (case find_key db uid name of
        None \<Rightarrow> (False, db)
      | Some row \<Rightarrow> (True, touch_user uid now (remove_key (k_id row) db)))"

definition rotate_api_key :: "(string \<Rightarrow> string) \<Rightarrow> string \<Rightarrow> string \<Rightarrow> string \<Rightarrow> string \<Rightarrow> udb
    \<Rightarrow> (string \<times> public_key) option \<times> udb" where
  "rotate_api_key dig uid name new_key now db =
     (case find_key db uid name of
        None \<Rightarrow> (None, db)
      | Some row \<Rightarrow>
          let (result, db') = change_key row
                (\<lambda>k. k\<lparr>k_hash := api_key_hash dig new_key, k_prefix := take 8 new_key, k_suffix := key_suffix new_key\<rparr>) uid now db
          in (map_option (\<lambda>r. (new_key, r)) result, db'))"

definition update_api_key_name :: "string \<Rightarrow> string \<Rightarrow> string \<Rightarrow> string \<Rightarrow> udb \<Rightarrow> (user_error + public_key option) \<times> udb" where
  "update_api_key_name uid name new_name now db =
     (let new_name' = py_strip new_name
      in if new_name' = [] then (Inl (ValueError ''new_name is required''), db)
         else case find_key db uid name of
                None \<Rightarrow> (Inr None, db)
              | Some row \<Rightarrow>
                  if list_ex (\<lambda>k. k_user k = uid \<and> k_name k = new_name' \<and> k_id k \<noteq> k_id row) (keys db)
                  then (Inl (ValueError ''API key name already exists''), db)
                  else let (result, db') = change_key row (\<lambda>k. k\<lparr>k_name := new_name'\<rparr>) uid now db
                    in (Inr result, db'))"

definition update_api_key_scopes :: "string \<Rightarrow> string \<Rightarrow> string list \<Rightarrow> string \<Rightarrow> udb \<Rightarrow> (user_error + public_key option) \<times> udb" where
  "update_api_key_scopes uid name scopes now db =
     (let normalized = normalize_api_scopes scopes
      in case find_key db uid name of
           None \<Rightarrow> (Inr None, db)
         | Some row \<Rightarrow> in_tx db
             (bindE (normalize_knowledge_base_ids (IdList (k_kbs row))) (\<lambda>kbs.
              bindE (need_kb normalized kbs) (\<lambda>_.
              Inr (change_key row (\<lambda>k. k\<lparr>k_scopes := normalized\<rparr>) uid now db)))))"

definition update_api_key_knowledge_bases :: "string \<Rightarrow> string \<Rightarrow> kb_ids_arg \<Rightarrow> string \<Rightarrow> udb
    \<Rightarrow> (user_error + public_key option) \<times> udb" where
  "update_api_key_knowledge_bases uid name kb_arg now db =
     in_tx db
       (bindE (normalize_knowledge_base_ids kb_arg) (\<lambda>normalized.
        case find_key db uid name of
          None \<Rightarrow> Inr (None, db)
        | Some row \<Rightarrow>
            let scopes = (if k_scopes row = [] then [''query''] else k_scopes row)
            in bindE (need_kb scopes normalized) (\<lambda>_.
               Inr (change_key row (\<lambda>k. k\<lparr>k_kbs := normalized\<rparr>) uid now db))))"

definition update_api_key_access :: "string \<Rightarrow> string \<Rightarrow> string list \<Rightarrow> kb_ids_arg \<Rightarrow> string option \<Rightarrow> string \<Rightarrow> udb
    \<Rightarrow> (user_error + public_key option) \<times> udb" where
  "update_api_key_access uid name scopes kb_arg validate now db =
     in_tx db
       (let scopes' = normalize_api_scopes scopes
        in bindE (normalize_knowledge_base_ids kb_arg) (\<lambda>kbs.
           bindE (need_kb scopes' kbs) (\<lambda>_.
           case find_key db uid name of
             None \<Rightarrow> Inr (None, db)
           | Some row \<Rightarrow> bindE (or_raises validate) (\<lambda>_.
               Inr (change_key row (\<lambda>k. k\<lparr>k_scopes := scopes', k_kbs := kbs\<rparr>) uid now db)))))"

definition add_knowledge_base_to_api_key :: "string \<Rightarrow> string \<Rightarrow> string \<Rightarrow> string option \<Rightarrow> string option \<Rightarrow> string option
    \<Rightarrow> string \<Rightarrow> udb \<Rightarrow> (user_error + public_key option) \<times> udb" where
  "add_knowledge_base_to_api_key uid name knowledge_base_id kid required_scope validate now db =
     in_tx db
       (bindE (normalize_knowledge_base_ids (IdList [knowledge_base_id])) (\<lambda>ids.
        let normalized = hd ids;
            row = (case kid of
                     None \<Rightarrow> find_key db uid name
                   | Some i \<Rightarrow> if i = [] then find_key db uid name
                       else find (\<lambda>k. k_user k = uid \<and> k_id k = i) (keys db))
        in case row of
             None \<Rightarrow> Inr (None, db)
           | Some row \<Rightarrow>
               if \<not> k_enabled row then Inr (None, db)
               else if (case required_scope of None \<Rightarrow> False | Some s \<Rightarrow> s \<noteq> [] \<and> s \<notin> set (k_scopes row))
               then Inr (None, db)
               else bindE (or_raises validate) (\<lambda>_.
                    bindE (normalize_knowledge_base_ids (IdList (k_kbs row))) (\<lambda>allowed.
                    if normalized \<in> set allowed then Inr (Some (public_api_key (row\<lparr>k_kbs := allowed\<rparr>)), db)
                    else Inr (change_key row (\<lambda>k. k\<lparr>k_kbs := allowed @ [normalized]\<rparr>) uid now db)))))"

section \<open>Reading and writing apart\<close>

text \<open>
  Six of the operations above read a key and then write, with no transaction around the two. The
  read decides the statement, which names the row by its id (\<open>key_plan\<close>); the statement and the
  touch of the user are one transaction (\<open>run_statement\<close>). A rename that would violate
  \<open>UNIQUE (user_id, name)\<close> raises, and changes nothing.
\<close>

datatype key_request =
    ToggleKey string string "bool option"
  | DeleteKey string string
  | RotateKey string string string
  | RenameKey string string string
  | SetScopes string string "string list"
  | SetKbs string string kb_ids_arg

datatype key_statement = ChangeRow string "key_row \<Rightarrow> key_row" | DropRow string

definition change_plan :: "string \<Rightarrow> key_row \<Rightarrow> (key_row \<Rightarrow> key_row) \<Rightarrow> (string \<times> key_statement) option" where
  "change_plan uid row f = Some (uid, ChangeRow (k_id row) f)"

fun key_plan :: "(string \<Rightarrow> string) \<Rightarrow> key_request \<Rightarrow> udb \<Rightarrow> user_error + (string \<times> key_statement) option" where
  "key_plan dig (ToggleKey uid name enabled) db = Inr (case find_key db uid name of
      None \<Rightarrow> None
    | Some row \<Rightarrow> let new_enabled = (case enabled of None \<Rightarrow> \<not> k_enabled row | Some b \<Rightarrow> b)
        in change_plan uid row (\<lambda>k. k\<lparr>k_enabled := new_enabled\<rparr>))"
| "key_plan dig (DeleteKey uid name) db = Inr (case find_key db uid name of
      None \<Rightarrow> None | Some row \<Rightarrow> Some (uid, DropRow (k_id row)))"
| "key_plan dig (RotateKey uid name new_key) db = Inr (case find_key db uid name of
      None \<Rightarrow> None
    | Some row \<Rightarrow> change_plan uid row
        (\<lambda>k. k\<lparr>k_hash := api_key_hash dig new_key, k_prefix := take 8 new_key, k_suffix := key_suffix new_key\<rparr>))"
| "key_plan dig (RenameKey uid name new_name) db =
     (let new_name' = py_strip new_name
      in if new_name' = [] then Inl (ValueError ''new_name is required'')
         else case find_key db uid name of
                None \<Rightarrow> Inr None
              | Some row \<Rightarrow>
                  if list_ex (\<lambda>k. k_user k = uid \<and> k_name k = new_name' \<and> k_id k \<noteq> k_id row) (keys db)
                  then Inl (ValueError ''API key name already exists'')
                  else Inr (change_plan uid row (\<lambda>k. k\<lparr>k_name := new_name'\<rparr>)))"
| "key_plan dig (SetScopes uid name scopes) db =
     (let normalized = normalize_api_scopes scopes
      in case find_key db uid name of
           None \<Rightarrow> Inr None
         | Some row \<Rightarrow>
             bindE (normalize_knowledge_base_ids (IdList (k_kbs row))) (\<lambda>kbs.
             bindE (need_kb normalized kbs) (\<lambda>_.
             Inr (change_plan uid row (\<lambda>k. k\<lparr>k_scopes := normalized\<rparr>)))))"
| "key_plan dig (SetKbs uid name kb_arg) db =
     bindE (normalize_knowledge_base_ids kb_arg) (\<lambda>normalized.
     case find_key db uid name of
       None \<Rightarrow> Inr None
     | Some row \<Rightarrow>
         let scopes = (if k_scopes row = [] then [''query''] else k_scopes row)
         in bindE (need_kb scopes normalized) (\<lambda>_.
            Inr (change_plan uid row (\<lambda>k. k\<lparr>k_kbs := normalized\<rparr>))))"

fun run_statement :: "string \<Rightarrow> string \<times> key_statement \<Rightarrow> udb \<Rightarrow> udb" where
  "run_statement now (uid, ChangeRow kid f) db =
     (let db' = set_key kid f db
      in if distinct (map key_slot (keys db')) then touch_user uid now db' else db)"
| "run_statement now (uid, DropRow kid) db = touch_user uid now (remove_key kid db)"

text \<open>The write right after the read.\<close>

definition key_request_at_once :: "(string \<Rightarrow> string) \<Rightarrow> key_request \<Rightarrow> string \<Rightarrow> udb \<Rightarrow> udb" where
  "key_request_at_once dig req now db = (case key_plan dig req db of
     Inl _ \<Rightarrow> db | Inr None \<Rightarrow> db | Inr (Some st) \<Rightarrow> run_statement now st db)"

section \<open>Removing a knowledge base from all keys of a user\<close>

text \<open>The new columns of a key, and whether it is counted as disabled.\<close>

definition stripped_key :: "string \<Rightarrow> string list \<Rightarrow> key_row \<Rightarrow> key_row \<times> bool" where
  "stripped_key kb allowed row =
     (let new_allowed = filter (\<lambda>item. item \<noteq> kb) allowed;
          scopes = (if k_scopes row = [] then [''query''] else k_scopes row);
          disable = (new_allowed = [] \<and> (requires_kb scopes \<or> ''kb_manage'' \<notin> set scopes))
      in (row\<lparr>k_kbs := new_allowed, k_enabled := k_enabled row \<and> \<not> disable\<rparr>, disable))"

record removal =
  rm_updated :: nat
  rm_disabled :: nat
  rm_originals :: "key_row list"

fun remove_kb_rows :: "string \<Rightarrow> key_row list \<Rightarrow> removal \<Rightarrow> udb \<Rightarrow> user_error + removal \<times> udb" where
  "remove_kb_rows kb [] acc db = Inr (acc, db)"
| "remove_kb_rows kb (row # rows) acc db =
     bindE (normalize_knowledge_base_ids (IdList (k_kbs row))) (\<lambda>allowed.
       if kb \<notin> set allowed then remove_kb_rows kb rows acc db
       else let (row', disable) = stripped_key kb allowed row
         in remove_kb_rows kb rows
              \<lparr>rm_updated = rm_updated acc + 1, rm_disabled = rm_disabled acc + (if disable then 1 else 0),
               rm_originals = rm_originals acc @ [row]\<rparr>
              (set_key (k_id row) (\<lambda>k. k\<lparr>k_kbs := k_kbs row', k_enabled := k_enabled row'\<rparr>) db))"

text \<open>Phase 1, one transaction.\<close>

definition remove_kb_begin :: "string \<Rightarrow> string \<Rightarrow> string option \<Rightarrow> string \<Rightarrow> udb \<Rightarrow> (user_error + removal) \<times> udb" where
  "remove_kb_begin uid kb lease_check now db =
     in_tx db
       (bindE (guardE (find_user db uid \<noteq> None) (ValueError ''User not found'')) (\<lambda>_.
        bindE (remove_kb_rows kb (user_keys db uid) \<lparr>rm_updated = 0, rm_disabled = 0, rm_originals = []\<rparr> db) (\<lambda>(acc, db').
        if rm_updated acc = 0 then Inr (acc, db)
        else bindE (or_raises lease_check) (\<lambda>_. Inr (acc, touch_user uid now db')))))"

text \<open>Phase 2: the outcome of the callbacks, and the restoration after a failure.\<close>

datatype finalize_outcome = FinalizeReturns | LeaseLost | FinalizeRaises string

fun restore_keys :: "key_row list \<Rightarrow> udb \<Rightarrow> udb" where
  "restore_keys [] db = db"
| "restore_keys (orig # originals) db =
     restore_keys originals (set_key (k_id orig) (\<lambda>k. k\<lparr>k_kbs := k_kbs orig, k_enabled := k_enabled orig\<rparr>) db)"

definition remove_kb_finish :: "string \<Rightarrow> removal \<Rightarrow> finalize_outcome \<Rightarrow> string \<Rightarrow> udb \<Rightarrow> (user_error + nat \<times> nat) \<times> udb" where
  "remove_kb_finish uid acc outcome now db =
     (case outcome of
        FinalizeReturns \<Rightarrow> (Inr (rm_updated acc, rm_disabled acc), db)
      | LeaseLost \<Rightarrow> (Inl (Callback ''lease lost''), db)
      | FinalizeRaises m \<Rightarrow> (Inl (Callback m),
          if rm_updated acc = 0 then db else touch_user uid now (restore_keys (rm_originals acc) db)))"

definition remove_knowledge_base_from_api_keys :: "string \<Rightarrow> string \<Rightarrow> string option \<Rightarrow> finalize_outcome \<Rightarrow> string \<Rightarrow> udb
    \<Rightarrow> (user_error + nat \<times> nat) \<times> udb" where
  "remove_knowledge_base_from_api_keys uid kb lease_check outcome now db =
     (case remove_kb_begin uid kb lease_check now db of
        (Inl e, db') \<Rightarrow> (Inl e, db')
      | (Inr acc, db') \<Rightarrow> remove_kb_finish uid acc outcome now db')"

section \<open>Looking a key up by its value\<close>

text \<open>
  \<open>dt\<close> is \<open>datetime.fromisoformat\<close> as an instant: the seconds since the epoch, a time without
  zone read as UTC; \<open>None\<close> when it raises. A bare date expires at the end of its day.
\<close>

definition parse_expiration :: "(string \<Rightarrow> real option) \<Rightarrow> string \<Rightarrow> real option" where
  "parse_expiration dt value =
     (let raw = py_strip value
      in if raw = [] then None
         else if length raw = 10 \<and> raw ! 4 = CHR ''-'' \<and> raw ! 7 = CHR ''-''
         then map_option (\<lambda>midnight. midnight + 86400 - 1 / 10 ^ 6) (dt raw)
         else dt (if last raw = CHR ''Z'' then butlast raw @ ''+00:00'' else raw))"

definition key_expired :: "(string \<Rightarrow> real option) \<Rightarrow> real \<Rightarrow> string option \<Rightarrow> bool" where
  "key_expired dt now expires =
     (case expires of
        None \<Rightarrow> False
      | Some e \<Rightarrow> if e = [] then False
          else case parse_expiration dt e of None \<Rightarrow> False | Some t \<Rightarrow> t \<le> now)"

record found_key =
  fk_name :: string
  fk_scopes :: "string list"
  fk_kbs :: "string list"
  fk_can_upload :: bool
  fk_user :: string
  fk_key_id :: string

definition find_api_key_by_value :: "(string \<Rightarrow> string) \<Rightarrow> (string \<Rightarrow> real option) \<Rightarrow> real \<Rightarrow> string \<Rightarrow> udb \<Rightarrow> found_key option" where
  "find_api_key_by_value dig dt now value db =
     (if value = [] then None
      else case find (\<lambda>k. k_hash k = api_key_hash dig value \<and> k_enabled k
                \<and> list_ex (\<lambda>u. u_id u = k_user k \<and> u_enabled u) (users db)) (keys db) of
             None \<Rightarrow> None
           | Some k \<Rightarrow>
               if key_expired dt now (k_expires k) then None
               else Some \<lparr>fk_name = k_name k, fk_scopes = k_scopes k, fk_kbs = k_kbs k,
                      fk_can_upload = (''ingest'' \<in> set (k_scopes k)), fk_user = k_user k,
                      fk_key_id = (if k_id k = [] then k_name k else k_id k)\<rparr>)"

end
