(* ===== verification/Workspace.thy ===== *)
theory Workspace
  imports User_Keys
begin

text \<open>
  \<open>app/utils/workspace.py\<close>: the workspace of a user and the place of a knowledge base in it. A
  path is the list of its components below the two roots of the installation. The hexadecimal
  SHA-256 is a parameter \<open>dig\<close>; \<open>fr\<close> and \<open>dt\<close> are the parameters of the catalog.
\<close>

section \<open>Names\<close>

definition id_char :: "char \<Rightarrow> bool" where
  "id_char c \<longleftrightarrow> py_is_ascii_alnum c \<or> c \<in> set ''_.-''"

definition safe_workspace_id :: "string \<Rightarrow> string" where
  "safe_workspace_id value =
     (let safe = py_strip_chars ''-._'' (re_squeeze id_char CHR ''-'' False value)
      in if take 80 safe = [] then ''workspace'' else take 80 safe)"

definition collection_for_workspace :: "string \<Rightarrow> string" where
  "collection_for_workspace workspace_id =
     ''documents_'' @ re_squeeze (\<lambda>c. py_is_ascii_alnum c \<or> c \<in> set ''_-'') CHR ''_'' False (safe_workspace_id workspace_id)"

definition collection_for_knowledge_base :: "(string \<Rightarrow> string) \<Rightarrow> string \<Rightarrow> json \<Rightarrow> kb_failure + string" where
  "collection_for_knowledge_base dig workspace_id knowledge_base_id =
     bindE (validate_knowledge_base_id (\<lambda>_. []) knowledge_base_id) (\<lambda>kb.
       if kb = default_id then Inr (collection_for_workspace workspace_id)
       else Inr (''kb_'' @ take 40 (dig (workspace_id @ '':'' @ kb))))"

section \<open>Contexts\<close>

type_synonym path = "string list"

record workspace =
  ws_user :: string
  ws_id :: string
  ws_data :: path
  ws_uploads :: path
  ws_settings :: path
  ws_catalog :: path
  ws_agents :: path

text \<open>\<open>None\<close>: the \<open>RuntimeError\<close> of a user without id.\<close>

definition workspace_for_user :: "path \<Rightarrow> path \<Rightarrow> string \<Rightarrow> workspace option" where
  "workspace_for_user data_root upload_root uid =
     (if uid = [] then None
      else let i = safe_workspace_id uid; data = data_root @ [i]
        in Some \<lparr>ws_user = uid, ws_id = i, ws_data = data, ws_uploads = upload_root @ [i],
             ws_settings = data @ [''settings.json''], ws_catalog = data @ [''knowledge_bases.json''],
             ws_agents = data @ [''chat_agents.json'']\<rparr>)"

text \<open>The user of a request: the owner of its API key, or the logged-in user.\<close>

definition workspace_from_request :: "path \<Rightarrow> path \<Rightarrow> udb \<Rightarrow> found_key option \<Rightarrow> public_user option \<Rightarrow> workspace option" where
  "workspace_from_request data_root upload_root db api_key logged_in =
     (case (case api_key of Some k \<Rightarrow> get_user db (fk_user k) | None \<Rightarrow> logged_in) of
        None \<Rightarrow> None
      | Some u \<Rightarrow> if \<not> pu_enabled u then None else workspace_for_user data_root upload_root (pu_id u))"

record kb_context =
  kc_user :: string
  kc_workspace :: string
  kc_kb :: string
  kc_name :: json
  kc_index :: path
  kc_uploads :: path
  kc_collection :: string

definition knowledge_base_context :: "(string \<Rightarrow> string) \<Rightarrow> (real \<Rightarrow> string) \<Rightarrow> (string \<Rightarrow> bool option) \<Rightarrow> json_file \<Rightarrow> workspace
    \<Rightarrow> json \<Rightarrow> found_key option \<Rightarrow> bool \<Rightarrow> kb_failure + kb_context" where
  "knowledge_base_context dig fr dt catalog ws knowledge_base_id api_key allow_inactive =
     bindE (validate_knowledge_base_id fr knowledge_base_id) (\<lambda>kb.
     bindE (guardE (case api_key of None \<Rightarrow> True | Some k \<Rightarrow> kb \<in> set (fk_kbs k)) kb_not_found) (\<lambda>_.
     bindE (kb_get fr dt kb catalog) (\<lambda>found.
       case found of
         None \<Rightarrow> Inl kb_not_found
       | Some r \<Rightarrow>
           (case r of
              JObj record \<Rightarrow>
                if \<not> allow_inactive \<and> jget record ''status'' \<noteq> JStr ''active''
                then Inl (KbValidationError (if jget record ''status'' = JStr ''deleting''
                       then ''knowledge_base_deleting'' else ''knowledge_base_delete_failed'') 409)
                else bindE (collection_for_knowledge_base dig (ws_id ws) (JStr kb)) (\<lambda>collection.
                  Inr \<lparr>kc_user = ws_user ws, kc_workspace = ws_id ws, kc_kb = kb, kc_name = jget record ''name'',
                    kc_index = (if kb = default_id then ws_data ws @ [''files.json'']
                      else ws_data ws @ [''knowledge_bases'', kb, ''files.json'']),
                    kc_uploads = (if kb = default_id then ws_uploads ws else ws_uploads ws @ [''__knowledge_bases__'', kb]),
                    kc_collection = collection\<rparr>)
            | _ \<Rightarrow> Inl kb_not_found))))"

definition knowledge_base_contexts :: "(string \<Rightarrow> string) \<Rightarrow> (real \<Rightarrow> string) \<Rightarrow> (string \<Rightarrow> bool option) \<Rightarrow> json_file \<Rightarrow> workspace
    \<Rightarrow> json list \<Rightarrow> found_key option \<Rightarrow> bool \<Rightarrow> kb_failure + kb_context list" where
  "knowledge_base_contexts dig fr dt catalog ws knowledge_base_ids api_key allow_inactive =
     mapE (\<lambda>i. knowledge_base_context dig fr dt catalog ws i api_key allow_inactive) knowledge_base_ids"

section \<open>Workspace names are single path components\<close>

lemma safe_workspace_id_chars:
  assumes "c \<in> set (safe_workspace_id value)"
  shows "id_char c"
proof (rule ccontr)
  assume bad: "\<not> id_char c"
  let ?safe = "py_strip_chars ''-._'' (re_squeeze id_char CHR ''-'' False value)"
  have "c \<in> set (take 80 ?safe) \<or> c \<in> set ''workspace''"
    using assms by (auto simp: safe_workspace_id_def Let_def split: if_splits)
  moreover have "\<not> c \<in> set ''workspace''" using bad by (auto simp: id_char_def py_is_ascii_alnum_def)
  ultimately have "c \<in> set (re_squeeze id_char CHR ''-'' False value)"
    using set_py_strip_chars [of "''-._''" "re_squeeze id_char CHR ''-'' False value"] by (auto dest: in_set_takeD)
  then show False using bad set_re_squeeze by (fastforce simp: id_char_def)
qed

lemma safe_workspace_id_head: "hd (safe_workspace_id value) \<notin> set ''-._'' \<and> safe_workspace_id value \<noteq> [] \<and> length (safe_workspace_id value) \<le> 80"
proof -
  let ?safe = "py_strip_chars ''-._'' (re_squeeze id_char CHR ''-'' False value)"
  show ?thesis
  proof (cases "?safe = []")
    case False
    then have "hd (take 80 ?safe) = hd ?safe" "take 80 ?safe \<noteq> []" by (simp_all add: hd_take)
    with hd_py_strip_chars [OF False] show ?thesis by (simp add: safe_workspace_id_def Let_def)
  qed (simp add: safe_workspace_id_def Let_def)
qed

text \<open>
  A user id never names a place outside its workspace. The directory derived from any
  text is one path component of at most 80 characters, made of letters, digits, dots, dashes
  and underscores, that starts with a letter or digit: neither empty nor a relative step.
\<close>

theorem workspace_directory_is_one_component:
  "let d = safe_workspace_id value
   in d \<noteq> [] \<and> length d \<le> 80 \<and> list_all id_char d \<and> py_is_ascii_alnum (hd d)
      \<and> CHR ''/'' \<notin> set d \<and> CHR 0x5C \<notin> set d \<and> d \<noteq> ''.'' \<and> d \<noteq> ''..''"
proof -
  let ?d = "safe_workspace_id value"
  have all: "id_char c" if "c \<in> set ?d" for c using safe_workspace_id_chars that by blast
  have head: "hd ?d \<notin> set ''-._''" "?d \<noteq> []" "length ?d \<le> 80" using safe_workspace_id_head by blast+
  then have "py_is_ascii_alnum (hd ?d)" using all [of "hd ?d"] by (auto simp: id_char_def)
  moreover have "CHR ''/'' \<notin> set ?d" "CHR 0x5C \<notin> set ?d"
    using all [of "CHR ''/''"] all [of "CHR 0x5C"] by (auto simp: id_char_def py_is_ascii_alnum_def)
  ultimately show ?thesis using head all by (auto simp: list_all_iff Let_def)
qed

end
