(* ===== verification/Query_Payload.thy ===== *)
theory Query_Payload
  imports Provider_Registry Chat_Agent_Claims Workspace
begin

text \<open>
  The checks of a chat request in \<open>app/app.py\<close>: \<open>_parse_query_payload\<close> with the selection of
  knowledge bases, of an agent and of a model, the sanitised context of the client, and the scope of a
  conversation. The parsed body is a JSON value; settings, providers and the agent catalog are those
  of the workspace of the request. An exception that is no \<open>ValidationError\<close> is a failure of its own.
\<close>

datatype query_failure = Bad val_exn | BadCatalog agent_failure | BadType

definition checked :: "val_exn + 'a \<Rightarrow> query_failure + 'a" where
  "checked r = (case r of Inl e \<Rightarrow> Inl (Bad e) | Inr x \<Rightarrow> Inr x)"

definition reject :: "string \<Rightarrow> string \<Rightarrow> query_failure" where
  "reject message field = Bad (invalid message field)"

definition reject_code :: "string \<Rightarrow> string \<Rightarrow> string \<Rightarrow> query_failure" where
  "reject_code message field code = Bad (Invalid \<lparr>ve_message = message, ve_field = Some field, ve_code = code\<rparr>)"

definition reject_body :: "string \<Rightarrow> query_failure" where
  "reject_body message = Bad (Invalid \<lparr>ve_message = message, ve_field = None, ve_code = ''validation_error''\<rparr>)"

definition quoted :: "string \<Rightarrow> string" where
  "quoted s = [CHR 0x27] @ s @ [CHR 0x27]"

section \<open>Languages and the context of the client\<close>

definition language_text :: "string \<Rightarrow> string" where
  "language_text s = py_replace_char CHR ''_'' CHR ''-'' (py_lower (py_strip s))"

definition language_ok :: "string \<Rightarrow> bool" where
  "language_ok s \<longleftrightarrow> length s \<le> 16 \<and> list_all (\<lambda>c. py_isalnum c \<or> c = CHR ''-'') s"

definition validate_language_hint :: "(real \<Rightarrow> string) \<Rightarrow> json \<Rightarrow> query_failure + string" where
  "validate_language_hint fr v =
     (let l = language_text (text_or fr [] v) in
      if l = [] then Inr [] else if \<not> language_ok l then Inl (reject ''language non valida'' ''language'') else Inr l)"

definition validate_response_language :: "(real \<Rightarrow> string) \<Rightarrow> json \<Rightarrow> query_failure + string" where
  "validate_response_language fr v =
     (let l = language_text (if v = JNull then ''auto'' else py_str fr v) in
      if l = [] \<or> l = ''auto'' then Inr ''auto''
      else if \<not> language_ok l then Inl (reject ''response_language non valida'' ''response_language'') else Inr l)"

definition context_fields :: "(string \<times> nat) list" where
  "context_fields = [(''site_name'', 120), (''page_title'', 180), (''page_url'', 500), (''post_type'', 80), (''locale'', 40),
     (''instructions'', 1200)]"

definition one_line :: "string \<Rightarrow> string" where
  "one_line s = py_join '' '' (py_split_ws [] (filter (\<lambda>c. c \<noteq> CHR 0x00) s))"

text \<open>The loop over the allowed fields; \<open>remaining\<close> are the characters still free.\<close>

fun context_loop :: "jdict \<Rightarrow> nat \<Rightarrow> (string \<times> nat) list \<Rightarrow> query_failure + (string \<times> string) list" where
  "context_loop d remaining [] = Inr []"
| "context_loop d remaining ((k, max_length) # others) =
     (if remaining = 0 then Inr []
      else let raw = jget d k in
        if raw = JNull \<or> raw = JStr [] then context_loop d remaining others
        else bindE (checked (validate_string 0 10000 None False True (''client_context.'' @ k) raw)) (\<lambda>t.
          let s = take remaining (take max_length (one_line (case t of None \<Rightarrow> [] | Some s \<Rightarrow> s)))
          in if s = [] then context_loop d remaining others
             else bindE (context_loop d (remaining - length s) others) (\<lambda>rest. Inr ((k, s) # rest))))"

definition validate_client_context :: "json \<Rightarrow> query_failure + (string \<times> string) list option" where
  "validate_client_context v =
     (if v = JNull \<or> v = JStr [] then Inr None
      else case v of
        JObj d \<Rightarrow> bindE (context_loop d 2000 context_fields) (\<lambda>s. Inr (if s = [] then None else Some s))
      | _ \<Rightarrow> Inl (reject ''client_context deve essere un oggetto'' ''client_context''))"

section \<open>Knowledge bases and models\<close>

definition kb_selection_code :: string where
  "kb_selection_code = ''invalid_knowledge_base_selection''"

definition query_kb :: "(real \<Rightarrow> string) \<Rightarrow> bool \<Rightarrow> json \<Rightarrow> query_failure + string" where
  "query_kb fr has_plural v =
     (let bad = Inl (reject_code ''Selezione knowledge base non valida''
        (if has_plural then ''knowledge_base_ids'' else ''knowledge_base_id'') kb_selection_code)
      in case v of
        JStr s \<Rightarrow> if py_strip s = [] then bad
          else (case validate_knowledge_base_id fr (JStr (py_strip s)) of Inl _ \<Rightarrow> bad | Inr i \<Rightarrow> Inr i)
      | _ \<Rightarrow> bad)"

definition parse_query_knowledge_base_ids :: "(real \<Rightarrow> string) \<Rightarrow> nat \<Rightarrow> jdict \<Rightarrow> query_failure + string list \<times> bool" where
  "parse_query_knowledge_base_ids fr max_ids data =
     (let has_singular = od_get data ''knowledge_base_id'' \<noteq> None; has_plural = od_get data ''knowledge_base_ids'' \<noteq> None in
      bindE (guardE (\<not> (has_singular \<and> has_plural)) (reject_code
        ''Usa knowledge_base_id oppure knowledge_base_ids, non entrambi'' ''knowledge_base_ids'' kb_selection_code)) (\<lambda>_.
      bindE (if \<not> has_plural then Inr (if has_singular then [jget data ''knowledge_base_id''] else [JStr ''default''])
         else case jget data ''knowledge_base_ids'' of
           JArr (x # xs) \<Rightarrow> Inr (x # xs)
         | _ \<Rightarrow> Inl (reject_code ''knowledge_base_ids deve contenere almeno un elemento'' ''knowledge_base_ids'' kb_selection_code))
        (\<lambda>raw_ids.
      bindE (guardE (length raw_ids \<le> max_ids) (reject_code
        (''Puoi interrogare al massimo '' @ dec_nat max_ids @ '' knowledge base'') ''knowledge_base_ids'' kb_selection_code)) (\<lambda>_.
      bindE (mapE (query_kb fr has_plural) raw_ids) (\<lambda>normalized.
      bindE (guardE (distinct normalized) (reject_code
        (''knowledge_base_ids non pu'' @ [CHR 0xF2] @ '' contenere duplicati'') ''knowledge_base_ids'' kb_selection_code)) (\<lambda>_.
      Inr (normalized, has_plural)))))))"

text \<open>
  \<open>_validate_model_selection\<close>. The two values may have any JSON type: membership in a dictionary
  raises for lists and objects, the search for a colon for numbers.
\<close>

definition validate_model_selection :: "(real \<Rightarrow> string) \<Rightarrow> providers \<Rightarrow> json \<Rightarrow> json \<Rightarrow> query_failure + unit" where
  "validate_model_selection fr ps model provider =
     (let has = (\<lambda>pid m. m \<in> JStr ` set (model_texts fr (provider_in ps pid)));
          bad = Inl (reject ''Modello non valido'' ''model'') in
      bindE (if \<not> truthy provider then Inr () else case provider of
          JStr pid \<Rightarrow> guardE (od_get ps pid \<noteq> None) (reject ''Provider non valido'' ''provider'')
        | JArr _ \<Rightarrow> Inl BadType
        | JObj _ \<Rightarrow> Inl BadType
        | _ \<Rightarrow> Inl (reject ''Provider non valido'' ''provider'')) (\<lambda>_.
      if \<not> truthy model then Inr ()
      else case (if truthy provider then provider else JNull) of
        JStr pid \<Rightarrow> guardE (has pid model) (reject ''Modello non valido per il provider selezionato'' ''model'')
      | _ \<Rightarrow> (case model of
          JStr m \<Rightarrow>
            (let (possible, selected) = split_once CHR '':'' m in
             if CHR '':'' \<in> set m \<and> od_get ps possible \<noteq> None
             then (if has possible (JStr selected) then Inr () else bad)
             else if m \<in> set (model_ids fr ps) then Inr () else bad)
        | JArr xs \<Rightarrow> if JStr '':'' \<in> set xs then Inl BadType else bad
        | JObj d \<Rightarrow> if od_get d '':'' \<noteq> None then Inl BadType else bad
        | _ \<Rightarrow> Inl BadType)))"

section \<open>Agents\<close>

definition exclusive_fields :: "string list" where
  "exclusive_fields = [''knowledge_base_id'', ''knowledge_base_ids'', ''model'', ''provider'', ''system_prompt_id'', ''system_prompt_scope'']"

definition conflicting_fields :: "jdict \<Rightarrow> string list" where
  "conflicting_fields data = filter (\<lambda>k. od_get data k \<noteq> None \<and> jget data k \<notin> {JNull, JStr [], JArr []}) exclusive_fields"

definition agent_not_found :: query_failure where
  "agent_not_found = reject_code ''Agent non trovato'' ''agent_id'' ''chat_agent_not_found''"

text \<open>The selection of an agent replaces the fields of the request.\<close>

definition with_agent :: "chat_agent \<Rightarrow> jdict \<Rightarrow> jdict" where
  "with_agent a data =
     (let data = od_set ''provider'' (JStr (ag_provider a)) data;
          data = od_set ''model'' (JStr (ag_model a)) data;
          data = od_set ''knowledge_base_ids'' (JArr (map JStr (ag_kbs a))) data;
          data = od_pop ''knowledge_base_id'' data;
          data = od_set ''system_prompt_id'' (case ag_prompt a of None \<Rightarrow> JNull | Some (i, _) \<Rightarrow> JStr i) data
      in od_set ''system_prompt_scope'' (case ag_prompt a of None \<Rightarrow> JNull | Some (_, s) \<Rightarrow> JStr (scope_text s)) data)"

definition resolve_agent_for_query ::
  "(real \<Rightarrow> string) \<Rightarrow> (string \<Rightarrow> bool option) \<Rightarrow> json_file \<Rightarrow> found_key option \<Rightarrow> json \<Rightarrow> jdict \<Rightarrow> query_failure + chat_agent \<times> jdict" where
  "resolve_agent_for_query fr dt agents api_key agent_id data =
     (case validate_chat_agent_id fr agent_id of
        Inl (AgentValidationError code _) \<Rightarrow> Inl (reject_code ''ID agent non valido'' ''agent_id'' code)
      | Inl e \<Rightarrow> Inl (BadCatalog e)
      | Inr i \<Rightarrow>
          bindE (guardE (conflicting_fields data = []) (reject_code
            (''Non inviare parametri espliciti insieme ad agent_id: '' @ py_join '', '' (conflicting_fields data))
            ''agent_id'' ''agent_conflicting_params'')) (\<lambda>_.
          case agent_get fr dt i agents of
            Inl e \<Rightarrow> Inl (BadCatalog e)
          | Inr None \<Rightarrow> Inl agent_not_found
          | Inr (Some a) \<Rightarrow>
              bindE (guardE (case api_key of None \<Rightarrow> True | Some k \<Rightarrow> set (ag_kbs a) \<subseteq> set (fk_kbs k)) agent_not_found) (\<lambda>_.
              Inr (a, with_agent a data))))"

section \<open>The whole request\<close>

text \<open>\<open>^[0-9a-f]{32}$\<close>; the loop over the attached files with their position.\<close>

definition file_id_pattern :: "string \<Rightarrow> bool" where
  "file_id_pattern s = hex32 (drop_final_newline s)"

definition attached_field :: "nat \<Rightarrow> string" where
  "attached_field i = ''attached_files['' @ dec_nat i @ '']''"

fun check_attached :: "nat \<Rightarrow> json list \<Rightarrow> query_failure + unit" where
  "check_attached i [] = Inr ()"
| "check_attached i (x # xs) = (case x of
       JObj d \<Rightarrow>
         bindE (checked (validate_string 0 32 (Some file_id_pattern) True True (attached_field i @ ''.id'')
           (j_or (jget d ''id'') (jget d ''file_id'')))) (\<lambda>_.
         bindE (checked (validate_string 0 10000 None False True (attached_field i @ ''.name'') (jget d ''name''))) (\<lambda>_.
         check_attached (Suc i) xs))
     | _ \<Rightarrow> Inl (reject (attached_field i @ '' deve essere un oggetto'') ''attached_files''))"

definition attached_files :: "json \<Rightarrow> query_failure + json list" where
  "attached_files v =
     (if \<not> truthy v then Inr []
      else case v of
        JArr xs \<Rightarrow> bindE (check_attached 0 xs) (\<lambda>_. Inr xs)
      | _ \<Rightarrow> Inl (reject ''attached_files deve essere una lista'' ''attached_files''))"

definition stream_format_of :: "(real \<Rightarrow> string) \<Rightarrow> json \<Rightarrow> query_failure + string" where
  "stream_format_of fr v =
     (let f = py_lower (py_strip (text_or fr ''text'' v))
      in if f \<in> set [''text'', ''ndjson''] then Inr f else Inl (reject ''Formato stream non valido'' ''stream_format''))"

definition prompt_selection :: "(real \<Rightarrow> string) \<Rightarrow> json \<Rightarrow> json \<Rightarrow> query_failure + json \<times> string option" where
  "prompt_selection fr prompt_id v =
     (let prompt_id = j_or prompt_id JNull; scope = py_lower (py_strip (text_or fr [] v)) in
      bindE (guardE (scope = [] \<or> scope \<in> set [''personal'', ''shared'']) (reject
        (''system_prompt_scope deve essere '' @ quoted ''personal'' @ '' o '' @ quoted ''shared'') ''system_prompt_scope'')) (\<lambda>_.
      bindE (guardE (scope = [] \<or> truthy prompt_id) (reject
        (''system_prompt_id richiesto quando system_prompt_scope '' @ [CHR 0xE8] @ '' specificato'') ''system_prompt_id'')) (\<lambda>_.
      Inr (prompt_id, if scope = [] then None else Some scope))))"

record query_payload =
  qp_query :: string
  qp_model :: json
  qp_provider :: json
  qp_conversation :: "string option"
  qp_context :: "(string \<times> string) list option"
  qp_language :: string
  qp_stream :: bool
  qp_format :: string
  qp_temperature :: "py_number option"
  qp_k :: "int option"
  qp_prompt :: json
  qp_prompt_scope :: "string option"
  qp_code :: bool
  qp_files :: "json list"
  qp_kbs :: "string list"
  qp_plural :: bool
  qp_turn :: "string option"
  qp_parent :: "string option"
  qp_regenerate :: bool
  qp_persist :: bool
  qp_agent :: "(string \<times> string) option"

text \<open>The body after the agent: the fields in the order in which they are checked.\<close>

definition turn_field :: "string \<Rightarrow> jdict \<Rightarrow> query_failure + string option" where
  "turn_field k d = checked (validate_string 0 80 (Some token_pattern) False True k (jget d k))"

definition flag_field :: "string \<Rightarrow> bool \<Rightarrow> jdict \<Rightarrow> query_failure + bool" where
  "flag_field k dflt d = checked (validate_boolean True k (jget_or d k (JBool dflt)))"

definition parse_fields ::
  "(real \<Rightarrow> string) \<Rightarrow> nat \<Rightarrow> providers \<Rightarrow> bool \<Rightarrow> (string \<times> string) option \<Rightarrow> jdict \<Rightarrow> query_failure + query_payload" where
  "parse_fields fr max_ids ps default_persist agent d =
     bindE (checked (validate_query (jget d ''query''))) (\<lambda>query.
     bindE (flag_field ''stream'' False d) (\<lambda>stream.
     bindE (stream_format_of fr (jget d ''stream_format'')) (\<lambda>format.
     bindE (checked (validate_float fr (Some 0) (Some 1) False ''temperature'' (jget d ''temperature''))) (\<lambda>temperature.
     bindE (checked (validate_integer (Some 1) (Some 50) False ''k'' (jget d ''k''))) (\<lambda>k.
     let provider = j_or (jget d ''provider'') JNull; model = j_or (jget d ''model'') JNull in
     bindE (checked (validate_conversation_id False (jget d ''conversation_id''))) (\<lambda>conversation.
     bindE (turn_field ''turn_id'' d) (\<lambda>turn.
     bindE (turn_field ''parent_turn_id'' d) (\<lambda>parent.
     bindE (flag_field ''regenerate_lost_result'' False d) (\<lambda>regenerate.
     let plain_stream = (stream \<and> format \<noteq> ''ndjson'') in
     bindE (flag_field ''persist_history'' (default_persist \<and> \<not> plain_stream) d) (\<lambda>persist.
     bindE (guardE (\<not> (persist \<and> plain_stream)) (reject_code
       (''La cronologia persistente richiede stream_format='' @ quoted ''ndjson'') ''stream_format'' ''history_requires_ndjson'')) (\<lambda>_.
     bindE (validate_client_context (jget d ''client_context'')) (\<lambda>client.
     bindE (validate_response_language fr (jget d ''response_language'')) (\<lambda>language.
     bindE (prompt_selection fr (jget d ''system_prompt_id'') (jget d ''system_prompt_scope'')) (\<lambda>(prompt, scope).
     bindE (flag_field ''use_code_interpreter'' False d) (\<lambda>code.
     bindE (attached_files (jget d ''attached_files'')) (\<lambda>attached.
     bindE (parse_query_knowledge_base_ids fr max_ids d) (\<lambda>(kbs, plural).
     bindE (validate_model_selection fr ps model provider) (\<lambda>_.
     Inr \<lparr>qp_query = query, qp_model = model, qp_provider = provider, qp_conversation = conversation, qp_context = client,
       qp_language = language, qp_stream = stream, qp_format = format, qp_temperature = temperature, qp_k = k,
       qp_prompt = prompt, qp_prompt_scope = scope, qp_code = code, qp_files = attached, qp_kbs = kbs, qp_plural = plural,
       qp_turn = turn, qp_parent = parent, qp_regenerate = regenerate, qp_persist = persist, qp_agent = agent\<rparr>))))))))))))))))))"

definition parse_query_payload ::
  "(real \<Rightarrow> string) \<Rightarrow> (string \<Rightarrow> bool option) \<Rightarrow> json_file \<Rightarrow> found_key option \<Rightarrow> nat \<Rightarrow> providers \<Rightarrow> bool \<Rightarrow> bool \<Rightarrow> bool
    \<Rightarrow> json \<Rightarrow> query_failure + query_payload" where
  "parse_query_payload fr dt agents api_key max_ids ps require_json is_json default_persist body =
     bindE (guardE (require_json \<longrightarrow> is_json) (reject_body ''Content-Type deve essere application/json'')) (\<lambda>_.
     case body of
       JNull \<Rightarrow> Inl (reject_body ''Body vuoto'')
     | JObj d \<Rightarrow>
         (case od_get d ''agent_id'' of
            None \<Rightarrow> parse_fields fr max_ids ps default_persist None d
          | Some i \<Rightarrow> bindE (resolve_agent_for_query fr dt agents api_key i d) (\<lambda>(a, d').
              parse_fields fr max_ids ps default_persist (Some (ag_id a, ag_name a)) d'))
     | _ \<Rightarrow> Inl (reject_body ''Il body JSON deve essere un oggetto''))"

text \<open>The id of the knowledge base, where there is exactly one.\<close>

definition single_kb :: "query_payload \<Rightarrow> string option" where
  "single_kb p = (case qp_kbs p of [kb] \<Rightarrow> Some kb | _ \<Rightarrow> None)"

section \<open>The scope of a conversation\<close>

definition scoped_conversation_id :: "string \<Rightarrow> string \<Rightarrow> string option \<Rightarrow> string option" where
  "scoped_conversation_id workspace_id kb conversation = (case conversation of
       None \<Rightarrow> None
     | Some [] \<Rightarrow> None
     | Some c \<Rightarrow> Some (if kb = default_id then workspace_id @ '':'' @ c else workspace_id @ '':kb:'' @ kb @ '':'' @ c))"

definition query_scoped_conversation_id :: "string \<Rightarrow> string \<Rightarrow> bool \<Rightarrow> string option \<Rightarrow> string option" where
  "query_scoped_conversation_id workspace_id kb plural conversation =
     (case conversation of
        None \<Rightarrow> None
      | Some [] \<Rightarrow> None
      | Some c \<Rightarrow> if plural then Some (workspace_id @ '':multi-chat:'' @ c) else scoped_conversation_id workspace_id kb conversation)"

end
