(* ===== verification/Query_Claims.thy ===== *)
theory Query_Claims
  imports Query_Payload
begin

text \<open>
  What an accepted chat request guarantees to the code after it: bounded fields, knowledge bases and a
  model that exist in form, the stored configuration of an agent, and scopes of conversations that
  never meet.
\<close>

named_theorems request_results \<open>what an accepted part of the request satisfies\<close>

lemma checked_Inr [simp]: "checked r = Inr x \<longleftrightarrow> r = Inr x"
  by (auto simp: checked_def split: sum.splits)

lemma checked_ok [simp]: "checked (Inr x) = Inr x"
  by (simp add: checked_def)

section \<open>Knowledge bases\<close>

lemma validate_id_choice: "validate_knowledge_base_id fr (JStr s) = Inr i \<Longrightarrow> kb_choice_ok i"
  by (auto simp: validate_knowledge_base_id_def kb_choice_ok_def Let_def split: if_splits)

lemma query_kb_choice [request_results]: "query_kb fr plural v = Inr i \<Longrightarrow> kb_choice_ok i"
  by (auto simp: query_kb_def Let_def split: json.splits if_splits sum.splits intro: validate_id_choice)

lemma query_kb_canonical: "kb_choice_ok i \<Longrightarrow> query_kb fr plural (JStr i) = Inr i"
  using kb_choice_trimmed [of i]
  by (auto simp: query_kb_def validate_knowledge_base_id_def kb_choice_ok_def Let_def)

lemma query_kbs_choice: "mapE (query_kb fr plural) raw = Inr kbs \<Longrightarrow> length kbs = length raw \<and> list_all kb_choice_ok kbs"
  by (induction raw arbitrary: kbs) (auto simp: bindE_eq_Inr intro: query_kb_choice)

lemma parse_kbs_result [request_results]:
  assumes "parse_query_knowledge_base_ids fr max_ids d = Inr (kbs, plural)"
  shows "kbs \<noteq> [] \<and> distinct kbs \<and> length kbs \<le> max_ids \<and> list_all kb_choice_ok kbs"
  using assms
  by (auto simp: parse_query_knowledge_base_ids_def Let_def bindE_eq_Inr split: if_splits json.splits list.splits
      dest!: query_kb_choice query_kbs_choice)

lemma parse_kbs_stored:
  assumes "parse_query_knowledge_base_ids fr max_ids d = Inr (kbs, plural)"
    and "od_get d ''knowledge_base_ids'' = Some (JArr (map JStr ks))" and "list_all kb_choice_ok ks"
  shows "kbs = ks"
proof -
  have "mapE (query_kb fr True) (map JStr ks) = Inr ks"
    using assms(3) by (induction ks) (auto simp: query_kb_canonical)
  with assms(1,2) show ?thesis
    by (auto simp: parse_query_knowledge_base_ids_def Let_def bindE_eq_Inr jget_def split: if_splits list.splits)
qed

section \<open>The context of the client\<close>

definition context_ok :: "nat \<Rightarrow> (string \<times> nat) list \<Rightarrow> (string \<times> string) list \<Rightarrow> bool" where
  "context_ok whole limits kvs \<longleftrightarrow> sum_list (map (length \<circ> snd) kvs) \<le> whole
     \<and> (\<forall>(k, s) \<in> set kvs. s \<noteq> [] \<and> CHR 0x00 \<notin> set s \<and> (\<exists>m. (k, m) \<in> set limits \<and> length s \<le> m))"

lemma one_line_chars: "c \<in> set (one_line s) \<Longrightarrow> c \<noteq> CHR 0x00"
proof -
  have split: "w \<in> set (py_split_ws acc t) \<Longrightarrow> set w \<subseteq> set acc \<union> set t" for w acc t
    by (induction acc t rule: py_split_ws.induct) (auto split: if_splits)
  have join: "set (py_join '' '' ws) \<subseteq> {CHR '' ''} \<union> \<Union> (set ` set ws)" for ws
    by (induction ws rule: induct_list012) auto
  assume "c \<in> set (one_line s)"
  with join have "c = CHR '' '' \<or> (\<exists>w \<in> set (py_split_ws [] (filter (\<lambda>c. c \<noteq> CHR 0x00) s)). c \<in> set w)"
    by (fastforce simp: one_line_def)
  with split show ?thesis by fastforce
qed

lemma context_loop_ok:
  "context_loop d remaining limits = Inr kvs \<Longrightarrow> context_ok remaining limits kvs"
proof (induction limits arbitrary: remaining kvs)
  case (Cons limit others)
  obtain k m where limit: "limit = (k, m)" by (cases limit)
  have weaken: "context_ok remaining (limit # others) kvs" if "context_ok remaining others kvs"
    using that by (fastforce simp: context_ok_def)
  show ?case
  proof (cases "remaining = 0 \<or> jget d k = JNull \<or> jget d k = JStr []")
    case True
    with Cons weaken show ?thesis by (auto simp: context_ok_def Let_def limit split: if_splits)
  next
    case False
    then obtain t where t: "validate_string 0 10000 None False True (''client_context.'' @ k) (jget d k) = Inr t"
      using Cons.prems by (auto simp: Let_def bindE_eq_Inr limit)
    define s where "s = take remaining (take m (one_line (case t of None \<Rightarrow> [] | Some s \<Rightarrow> s)))"
    have s: "length s \<le> remaining" "length s \<le> m" "CHR 0x00 \<notin> set s"
      unfolding s_def using one_line_chars by (auto dest!: in_set_takeD)
    have step: "context_loop d remaining (limit # others) = (if s = [] then context_loop d remaining others
        else bindE (context_loop d (remaining - length s) others) (\<lambda>rest. Inr ((k, s) # rest)))"
      using False t unfolding limit context_loop.simps Let_def s_def by (simp only: if_False checked_ok bindE.simps) auto
    show ?thesis
    proof (cases "s = []")
      case True
      with Cons.prems step Cons.IH [of remaining kvs] weaken show ?thesis by simp
    next
      case n: False
      with Cons.prems step obtain rest where rest: "context_loop d (remaining - length s) others = Inr rest" "kvs = (k, s) # rest"
        by (auto simp: bindE_eq_Inr)
      with Cons.IH have "context_ok (remaining - length s) others rest" by blast
      with rest s n show ?thesis unfolding limit context_ok_def by fastforce
    qed
  qed
qed (simp add: context_ok_def)

lemma validate_client_context_ok [request_results]:
  "validate_client_context v = Inr (Some kvs) \<Longrightarrow> context_ok 2000 context_fields kvs \<and> kvs \<noteq> []"
  by (auto simp: validate_client_context_def bindE_eq_Inr split: if_splits json.splits intro: context_loop_ok)

section \<open>Models\<close>

text \<open>A model the providers offer for a selection, by itself or behind the name of its provider.\<close>

definition model_offered :: "(real \<Rightarrow> string) \<Rightarrow> providers \<Rightarrow> json \<Rightarrow> json \<Rightarrow> bool" where
  "model_offered fr ps model provider \<longleftrightarrow> (\<exists>pid m. (\<exists>p. (pid, p) \<in> set ps \<and> m \<in> set (model_texts fr p))
     \<and> ((model = JStr m \<and> provider \<in> {JNull, JStr pid}) \<or> (model = JStr (pid @ '':'' @ m) \<and> provider = JNull)))"

lemma split_once_parts: "c \<in> set s \<Longrightarrow> s = fst (split_once c s) @ [c] @ snd (split_once c s)"
proof -
  assume "c \<in> set s"
  then have "dropWhile (\<lambda>d. d \<noteq> c) s \<noteq> []" by (auto simp: dropWhile_eq_Nil_conv)
  moreover from this have "hd (dropWhile (\<lambda>d. d \<noteq> c) s) = c" using hd_dropWhile by blast
  ultimately have "dropWhile (\<lambda>d. d \<noteq> c) s = c # tl (dropWhile (\<lambda>d. d \<noteq> c) s)" by (metis list.collapse)
  then show ?thesis by (metis append_Cons append_Nil fst_conv snd_conv split_once_def takeWhile_dropWhile_id)
qed

lemma provider_in_mem: "m \<in> set (model_texts fr (provider_in ps pid)) \<Longrightarrow> od_get ps pid \<noteq> None \<Longrightarrow>
    \<exists>p. (pid, p) \<in> set ps \<and> m \<in> set (model_texts fr p)"
  by (auto simp: provider_in_def dest: map_of_SomeD)

lemma model_ids_mem: "m \<in> set (model_ids fr ps) \<Longrightarrow> \<exists>pid p. (pid, p) \<in> set ps \<and> m \<in> set (model_texts fr p)"
  by (fastforce simp: model_ids_def list_models_def models_of_def Let_def)

lemma validate_model_result [request_results]:
  assumes "validate_model_selection fr ps model provider = Inr u" and "truthy model" and "truthy provider \<or> provider = JNull"
  shows "model_offered fr ps model provider"
proof (cases "provider = JNull")
  case True
  then obtain m where m: "model = JStr m"
    using assms by (auto simp: validate_model_selection_def Let_def split: json.splits if_splits)
  define pid rest where "pid = fst (split_once CHR '':'' m)" and "rest = snd (split_once CHR '':'' m)"
  then have sp: "split_once CHR '':'' m = (pid, rest)" by simp
  show ?thesis
  proof (cases "CHR '':'' \<in> set m \<and> od_get ps pid \<noteq> None")
    case c: True
    then have "m = pid @ '':'' @ rest" using split_once_parts [of "CHR '':''" m] sp by simp
    moreover have "rest \<in> set (model_texts fr (provider_in ps pid))"
      using assms(1,2) c True m by (auto simp: validate_model_selection_def sp Let_def split: if_splits)
    ultimately show ?thesis using provider_in_mem [of rest fr ps pid] c m True by (auto simp: model_offered_def)
  next
    case False
    then have "m \<in> set (model_ids fr ps)"
      using assms(1) True m assms(2) by (auto simp: validate_model_selection_def sp Let_def split: if_splits)
    with model_ids_mem m True show ?thesis by (fastforce simp: model_offered_def)
  qed
next
  case False
  then obtain pid where "provider = JStr pid" "pid \<noteq> []" "od_get ps pid \<noteq> None" "model \<in> JStr ` set (model_texts fr (provider_in ps pid))"
    using assms by (auto simp: validate_model_selection_def Let_def guardE_eq_Inr split: json.splits if_splits)
  with provider_in_mem show ?thesis by (fastforce simp: model_offered_def)
qed

section \<open>Accepted requests\<close>

lemma stream_format_ok [request_results]: "stream_format_of fr v = Inr f \<Longrightarrow> f = ''text'' \<or> f = ''ndjson''"
  by (auto simp: stream_format_of_def Let_def split: if_splits)

lemma prompt_selection_ok [request_results]:
  "prompt_selection fr i v = Inr (prompt, Some scope) \<Longrightarrow> truthy prompt \<and> (scope = ''personal'' \<or> scope = ''shared'')"
  by (auto simp: prompt_selection_def Let_def result_simps split: if_splits)

lemma parse_fields_agent: "parse_fields fr max_ids ps dp agent d = Inr p \<Longrightarrow> qp_agent p = agent"
  by (auto simp: parse_fields_def bindE_eq_Inr Let_def split: if_splits)

lemma parse_fields_numbers:
  assumes "parse_fields fr max_ids ps dp agent d = Inr p"
  shows "validate_query (jget d ''query'') = Inr (qp_query p)
    \<and> validate_float fr (Some 0) (Some 1) False ''temperature'' (jget d ''temperature'') = Inr (qp_temperature p)
    \<and> validate_integer (Some 1) (Some 50) False ''k'' (jget d ''k'') = Inr (qp_k p)
    \<and> validate_conversation_id False (jget d ''conversation_id'') = Inr (qp_conversation p)
    \<and> stream_format_of fr (jget d ''stream_format'') = Inr (qp_format p)
    \<and> (qp_persist p \<longrightarrow> qp_stream p \<longrightarrow> qp_format p = ''ndjson'')"
  using assms by (auto simp: parse_fields_def bindE_eq_Inr Let_def split: if_splits)

lemma parse_fields_selection:
  assumes "parse_fields fr max_ids ps dp agent d = Inr p"
  shows "validate_client_context (jget d ''client_context'') = Inr (qp_context p)
    \<and> prompt_selection fr (jget d ''system_prompt_id'') (jget d ''system_prompt_scope'') = Inr (qp_prompt p, qp_prompt_scope p)
    \<and> parse_query_knowledge_base_ids fr max_ids d = Inr (qp_kbs p, qp_plural p)
    \<and> qp_model p = j_or (jget d ''model'') JNull \<and> qp_provider p = j_or (jget d ''provider'') JNull
    \<and> validate_model_selection fr ps (qp_model p) (qp_provider p) = Inr ()"
  using assms by (auto simp: parse_fields_def bindE_eq_Inr Let_def split: if_splits)

lemma parse_payload_fields:
  assumes "parse_query_payload fr dt agents api_key max_ids ps rj ij dp body = Inr p"
  shows "\<exists>agent d. parse_fields fr max_ids ps dp agent d = Inr p"
  using assms by (auto simp: parse_query_payload_def bindE_eq_Inr split: if_splits json.splits option.splits)

text \<open>
  Claim C20: A chat request that is accepted is within all bounds. Whatever body a client sends and with or
  without an agent, an accepted request has a trimmed question of 3 to 2000 characters without NUL, a
  number of results from 1 to 50, a temperature in the unit interval (or no number at all), a
  conversation id made of token characters, one to \<open>max_ids\<close> different well-formed knowledge bases, a
  context of the client of at most 2000 characters in which each field respects its own limit, a
  prompt wherever a scope is given, and history is persisted for a stream only in the ndjson format.
\<close>

theorem accepted_request_is_bounded:
  assumes "parse_query_payload fr dt agents api_key max_ids ps require_json is_json default_persist body = Inr p"
  shows "py_trimmed (qp_query p) \<and> 3 \<le> length (qp_query p) \<and> length (qp_query p) \<le> 2000 \<and> CHR 0x00 \<notin> set (qp_query p)
    \<and> (\<forall>k. qp_k p = Some k \<longrightarrow> 1 \<le> k \<and> k \<le> 50)
    \<and> (\<forall>x. qp_temperature p = Some x \<longrightarrow> in_range (Some 0) (Some 1) x)
    \<and> (\<forall>c. qp_conversation p = Some c \<longrightarrow> 8 \<le> length c \<and> length c \<le> 80 \<and> list_all token_char c)
    \<and> qp_kbs p \<noteq> [] \<and> distinct (qp_kbs p) \<and> length (qp_kbs p) \<le> max_ids \<and> list_all kb_choice_ok (qp_kbs p)
    \<and> (\<forall>kvs. qp_context p = Some kvs \<longrightarrow> context_ok 2000 context_fields kvs)
    \<and> (qp_prompt_scope p \<noteq> None \<longrightarrow> truthy (qp_prompt p))
    \<and> (qp_persist p \<and> qp_stream p \<longrightarrow> qp_format p = ''ndjson'')"
proof -
  obtain agent d where f: "parse_fields fr max_ids ps default_persist agent d = Inr p"
    using parse_payload_fields [OF assms] by blast
  note numbers = parse_fields_numbers [OF f] and selection = parse_fields_selection [OF f]
  have "\<forall>k. qp_k p = Some k \<longrightarrow> 1 \<le> k \<and> k \<le> 50" using numbers validate_integer_ok by fastforce
  moreover have "\<forall>x. qp_temperature p = Some x \<longrightarrow> in_range (Some 0) (Some 1) x" using numbers validate_float_ok by metis
  moreover have "\<forall>c. qp_conversation p = Some c \<longrightarrow> 8 \<le> length c \<and> length c \<le> 80 \<and> list_all token_char c"
    using numbers validate_conversation_id_ok by metis
  moreover have "\<forall>kvs. qp_context p = Some kvs \<longrightarrow> context_ok 2000 context_fields kvs"
    using selection validate_client_context_ok by metis
  moreover have "qp_prompt_scope p \<noteq> None \<longrightarrow> truthy (qp_prompt p)" using selection prompt_selection_ok by force
  ultimately show ?thesis
    using numbers validate_query_ok parse_kbs_result selection by blast
qed

lemmas request_evaluation = parse_query_payload_def parse_fields_def flag_field_def turn_field_def checked_def
  validate_query_def validate_boolean_def stream_format_of_def validate_float_def validate_integer_def validate_conversation_id_def
  validate_string_def validate_client_context_def validate_response_language_def prompt_selection_def attached_files_def
  validate_model_selection_def language_text_def jget_def jget_or_def j_or_def text_or_def check_bounds_def guardE_def

lemma small_strips [simp]: "py_strip [] = []" "py_lower [] = []"
  by (simp_all add: py_strip_def py_lstrip_def py_rstrip_def py_lower_def)

definition sample_providers :: providers where
  "sample_providers = [(''local'', [(''models'', JArr [JStr ''m''])])]"

definition plain_request :: "(string \<times> json) list" where
  "plain_request = [(''query'', JStr '' who? ''), (''k'', JInt 50), (''model'', JStr ''local:m''),
     (''client_context'', JObj [(''locale'', JStr ''it'')])]"

theorem accepted_request_is_bounded_witness:
  "\<exists>p. parse_query_payload (\<lambda>_. []) (\<lambda>_. Some True) None None 5 sample_providers True True True (JObj plain_request) = Inr p
    \<and> length (qp_kbs p) \<le> 5 \<and> 3 \<le> length (qp_query p)"
proof -
  have texts: "py_strip '' who? '' = ''who?''" "py_strip ''text'' = ''text''" "py_strip ''auto'' = ''auto''" "py_strip ''it'' = ''it''"
    by (simp_all add: py_strip_def py_lstrip_def py_rstrip_def py_isspace_def)
  have lowers: "py_lower ''text'' = ''text''" "py_lower ''auto'' = ''auto''" "py_replace_char CHR ''_'' CHR ''-'' ''auto'' = ''auto''"
    by (simp_all add: py_lower_def py_lower_char_def py_replace_char_def)
  have kb: "parse_query_knowledge_base_ids (\<lambda>_. []) 5 plain_request = Inr ([''default''], False)"
    by (simp add: parse_query_knowledge_base_ids_def plain_request_def query_kb_canonical kb_choice_ok_def default_id_def)
  have ctx: "context_loop plain_context 2000 context_fields = Inr [(''locale'', ''it'')]"
    if "plain_context = [(''locale'', JStr ''it'')]" for plain_context
    by (simp add: that context_fields_def jget_def checked_def validate_string_def texts one_line_def py_isspace_def guardE_def)
  have "\<exists>p. parse_query_payload (\<lambda>_. []) (\<lambda>_. Some True) None None 5 sample_providers True True True (JObj plain_request) = Inr p"
    using kb unfolding plain_request_def
    by (simp add: request_evaluation Let_def texts lowers ctx split_once_def sample_providers_def provider_in_def model_texts_def)
  then obtain p where "parse_query_payload (\<lambda>_. []) (\<lambda>_. Some True) None None 5 sample_providers True True True (JObj plain_request) = Inr p" ..
  with accepted_request_is_bounded [OF this] show ?thesis by blast
qed

section \<open>Requests with an agent\<close>

lemma with_agent_get:
  "jget (with_agent a d) ''provider'' = JStr (ag_provider a)" "jget (with_agent a d) ''model'' = JStr (ag_model a)"
  "od_get (with_agent a d) ''knowledge_base_ids'' = Some (JArr (map JStr (ag_kbs a)))"
  "jget (with_agent a d) ''system_prompt_id'' = (case ag_prompt a of None \<Rightarrow> JNull | Some (i, s) \<Rightarrow> JStr i)"
  "jget (with_agent a d) ''system_prompt_scope'' = (case ag_prompt a of None \<Rightarrow> JNull | Some (i, s) \<Rightarrow> JStr (scope_text s))"
  by (auto simp: with_agent_def Let_def jget_def split: option.splits)

lemma loaded_agent:
  assumes "agent_get fr dt i agents = Inr (Some a)"
  shows "\<exists>rs. agent_load fr dt agents = Inr rs \<and> a \<in> set rs \<and> ag_id a = i \<and> agent_fields_ok 10000 a"
proof -
  obtain rs where rs: "agent_load fr dt agents = Inr rs" "a \<in> set rs" "ag_id a = i"
    using assms find_agent_id by (fastforce simp: agent_get_def bindE_eq_Inr)
  then have "agents_wf dt rs"
    using validate_agents_result by (auto simp: agent_load_def load_file_def split: option.splits)
  with rs show ?thesis by (auto simp: agents_wf_def agent_wf_def list_all_iff)
qed

lemma stored_prompt_selected:
  assumes "prompt_ok (ag_prompt a)"
    and "prompt_selection fr (case ag_prompt a of None \<Rightarrow> JNull | Some (i, s) \<Rightarrow> JStr i)
      (case ag_prompt a of None \<Rightarrow> JNull | Some (i, s) \<Rightarrow> JStr (scope_text s)) = Inr r"
  shows "r = (case ag_prompt a of None \<Rightarrow> (JNull, None) | Some (i, s) \<Rightarrow> (JStr i, Some (scope_text s)))"
proof -
  have "py_lower (py_strip (scope_text s)) = scope_text s \<and> scope_text s \<noteq> []" for s
    by (cases s) (simp_all add: scope_text_def py_strip_trimmed py_trimmed_def py_isspace_def py_lower_def py_lower_char_def)
  moreover have "py_lower (py_strip []) = []" by (simp add: py_strip_def py_lstrip_def py_rstrip_def py_lower_def)
  ultimately show ?thesis
    using assms by (auto simp: prompt_selection_def Let_def text_or_def j_or_def prompt_ok_def text_ok_def result_simps
        split: option.splits if_splits prod.splits)
qed

text \<open>
  Claim C19: A request that names an agent runs as the agent is stored. When it is accepted, the agent is in
  the workspace's catalog, the provider, the model, the knowledge bases and the prompt of the request
  are exactly the stored ones whatever else the body contains, the model is one the providers offer,
  and every knowledge base of the agent is within the reach of the API key, if the request has one.
\<close>

theorem agent_request_runs_as_stored:
  assumes "parse_query_payload fr dt agents api_key max_ids ps require_json is_json default_persist body = Inr p"
    and "qp_agent p = Some (i, name)"
  shows "\<exists>rs a. agent_load fr dt agents = Inr rs \<and> a \<in> set rs \<and> ag_id a = i \<and> ag_name a = name
    \<and> qp_provider p = JStr (ag_provider a) \<and> qp_model p = JStr (ag_model a) \<and> qp_kbs p = ag_kbs a
    \<and> (qp_prompt p, qp_prompt_scope p)
        = (case ag_prompt a of None \<Rightarrow> (JNull, None) | Some (j, s) \<Rightarrow> (JStr j, Some (scope_text s)))
    \<and> model_offered fr ps (JStr (ag_model a)) (JStr (ag_provider a))
    \<and> (\<forall>key. api_key = Some key \<longrightarrow> set (ag_kbs a) \<subseteq> set (fk_kbs key))"
proof -
  obtain d v a d' where d: "body = JObj d" "resolve_agent_for_query fr dt agents api_key v d = Inr (a, d')"
    and f: "parse_fields fr max_ids ps default_persist (Some (ag_id a, ag_name a)) d' = Inr p"
    using assms parse_fields_agent
    by (fastforce simp: parse_query_payload_def bindE_eq_Inr split: if_splits json.splits option.splits)
  have a: "ag_id a = i" "ag_name a = name" using parse_fields_agent [OF f] assms(2) by auto
  obtain j where d': "agent_get fr dt j agents = Inr (Some a)" "d' = with_agent a d"
    "\<forall>key. api_key = Some key \<longrightarrow> set (ag_kbs a) \<subseteq> set (fk_kbs key)"
    using d(2) by (auto simp: resolve_agent_for_query_def bindE_eq_Inr result_simps split: sum.splits agent_failure.splits option.splits if_splits)
  obtain rs where rs: "agent_load fr dt agents = Inr rs" "a \<in> set rs" and ok: "agent_fields_ok 10000 a"
    using loaded_agent [OF d'(1)] by blast
  note selection = parse_fields_selection [OF f, unfolded d'(2) with_agent_get]
  have texts: "ag_provider a \<noteq> []" "ag_model a \<noteq> []" using ok by (auto simp: agent_fields_ok_def text_ok_def)
  then have routed: "qp_provider p = JStr (ag_provider a)" "qp_model p = JStr (ag_model a)"
    using selection by (auto simp: j_or_def)
  then have "model_offered fr ps (JStr (ag_model a)) (JStr (ag_provider a))"
    using selection texts by (intro validate_model_result) auto
  moreover have "qp_kbs p = ag_kbs a"
    using parse_kbs_stored [OF _ with_agent_get(3)] selection ok by (auto simp: agent_fields_ok_def kbs_ok_def)
  moreover have "(qp_prompt p, qp_prompt_scope p)
      = (case ag_prompt a of None \<Rightarrow> (JNull, None) | Some (j, s) \<Rightarrow> (JStr j, Some (scope_text s)))"
    using stored_prompt_selected [of a fr "(qp_prompt p, qp_prompt_scope p)"] selection ok by (simp add: agent_fields_ok_def)
  ultimately show ?thesis using rs a routed d'(3) by blast
qed

definition agent_request :: "(string \<times> json) list" where
  "agent_request = [(''agent_id'', JStr (ag_id sample_agent)), (''query'', JStr ''who?'')]"

lemma agent_request_resolved:
  "resolve_agent_for_query (\<lambda>_. []) (\<lambda>_. Some True) (Some (Some (render_agent_catalog [sample_agent]))) None
     (JStr (ag_id sample_agent)) agent_request = Inr (sample_agent, with_agent sample_agent agent_request)"
proof -
  have "agent_id_pattern (ag_id sample_agent)"
    by (simp add: sample_agent_def agent_id_pattern_def hex32_def list_all_iff) (simp add: py_is_hex_lower_def)
  then have "validate_chat_agent_id (\<lambda>_. []) (JStr (ag_id sample_agent)) = Inr (ag_id sample_agent)"
    by (simp add: validate_chat_agent_id_def Let_def agent_id_trimmed)
  moreover have "agent_get (\<lambda>_. []) (\<lambda>_. Some True) (ag_id sample_agent) (Some (Some (render_agent_catalog [sample_agent])))
      = Inr (Some sample_agent)"
    using sample_agent_load [of "\<lambda>_. []"] by (simp add: agent_get_def find_agent_def)
  moreover have "conflicting_fields agent_request = []"
    by (simp add: conflicting_fields_def exclusive_fields_def agent_request_def)
  ultimately show ?thesis by (simp add: resolve_agent_for_query_def)
qed

theorem agent_request_runs_as_stored_witness:
  "\<exists>p. parse_query_payload (\<lambda>_. []) (\<lambda>_. Some True) (Some (Some (render_agent_catalog [sample_agent]))) None 5 sample_providers
      True True True (JObj agent_request) = Inr p \<and> qp_model p = JStr ''m'' \<and> qp_prompt p = JStr ''p1''"
proof -
  let ?agents = "Some (Some (render_agent_catalog [sample_agent]))"
  have texts: "py_strip ''who?'' = ''who?''" "py_strip ''text'' = ''text''" "py_strip ''auto'' = ''auto''" "py_strip ''shared'' = ''shared''"
    by (simp_all add: py_strip_def py_lstrip_def py_rstrip_def py_isspace_def)
  have lowers: "py_lower ''text'' = ''text''" "py_lower ''auto'' = ''auto''" "py_replace_char CHR ''_'' CHR ''-'' ''auto'' = ''auto''"
    "py_lower ''shared'' = ''shared''"
    by (simp_all add: py_lower_def py_lower_char_def py_replace_char_def)
  define d where "d = with_agent sample_agent agent_request"
  have d: "d = [(''agent_id'', JStr (ag_id sample_agent)), (''query'', JStr ''who?''), (''provider'', JStr ''local''),
      (''model'', JStr ''m''), (''knowledge_base_ids'', JArr [JStr ''default'']), (''system_prompt_id'', JStr ''p1''),
      (''system_prompt_scope'', JStr ''shared'')]"
    by (simp add: d_def with_agent_def agent_request_def sample_agent_def Let_def scope_text_def)
  have kb: "parse_query_knowledge_base_ids (\<lambda>_. []) 5 d = Inr ([''default''], True)"
    by (simp add: parse_query_knowledge_base_ids_def d jget_def query_kb_canonical kb_choice_ok_def default_id_def)
  then have "\<exists>p. parse_fields (\<lambda>_. []) 5 sample_providers True (Some (ag_id sample_agent, ag_name sample_agent)) d = Inr p"
    unfolding d by (simp add: request_evaluation Let_def texts lowers sample_providers_def provider_in_def model_texts_def)
  then obtain p where f: "parse_fields (\<lambda>_. []) 5 sample_providers True (Some (ag_id sample_agent, ag_name sample_agent)) d = Inr p" ..
  have first: "od_get agent_request ''agent_id'' = Some (JStr (ag_id sample_agent))" by (simp add: agent_request_def)
  have p: "parse_query_payload (\<lambda>_. []) (\<lambda>_. Some True) ?agents None 5 sample_providers True True True (JObj agent_request) = Inr p"
    using f agent_request_resolved first by (simp add: parse_query_payload_def d_def)
  have "agent_load (\<lambda>_. []) (\<lambda>_. Some True) ?agents = Inr [sample_agent]" using sample_agent_load by blast
  with agent_request_runs_as_stored [OF p parse_fields_agent [OF f]]
  have "qp_model p = JStr (ag_model sample_agent)" "qp_prompt p = JStr ''p1''" by (auto simp: sample_agent_def)
  with p show ?thesis by (auto simp: sample_agent_def)
qed

section \<open>Scopes of conversations\<close>

lemma no_colon:
  "list_all id_char s \<Longrightarrow> CHR '':'' \<notin> set s" "list_all token_char s \<Longrightarrow> CHR '':'' \<notin> set s" "kb_choice_ok s \<Longrightarrow> CHR '':'' \<notin> set s"
proof -
  show "list_all id_char s \<Longrightarrow> CHR '':'' \<notin> set s" by (auto simp: list_all_iff id_char_def py_is_ascii_alnum_def)
  show "list_all token_char s \<Longrightarrow> CHR '':'' \<notin> set s" by (auto simp: list_all_iff token_char_def py_is_ascii_alnum_def)
  have "s = take 3 s @ drop 3 s" by simp
  then have "set s = set (take 3 s) \<union> set (drop 3 s)" by (metis set_append)
  moreover have "\<not> py_is_hex_lower CHR '':''" by (simp add: py_is_hex_lower_def)
  ultimately show "kb_choice_ok s \<Longrightarrow> CHR '':'' \<notin> set s"
    by (auto simp: kb_choice_ok_def kb_id_pattern_def hex32_def list_all_iff default_id_def)
qed

definition scope_parts :: "string \<Rightarrow> string \<Rightarrow> bool \<Rightarrow> string \<Rightarrow> string list" where
  "scope_parts workspace_id kb plural c =
     (if plural then [workspace_id, ''multi-chat'', c]
      else if kb = default_id then [workspace_id, c] else [workspace_id, ''kb'', kb, c])"

lemma scope_joins:
  assumes "c \<noteq> []"
  shows "query_scoped_conversation_id w kb plural (Some c) = Some (py_join '':'' (scope_parts w kb plural c))"
  using assms by (cases c) (simp_all add: query_scoped_conversation_id_def scoped_conversation_id_def scope_parts_def)

lemma scope_parts_back:
  assumes "list_all id_char w" and "list_all token_char c" and "kb_choice_ok kb"
  shows "py_split_on CHR '':'' (py_join '':'' (scope_parts w kb plural c)) = scope_parts w kb plural c"
  using no_colon(1) [OF assms(1)] no_colon(2) [OF assms(2)] no_colon(3) [OF assms(3)]
  by (intro split_join) (auto simp: scope_parts_def)

text \<open>
  Claim C21: No two conversations share a scope. The key under which the memory of a conversation is kept
  determines the workspace, whether the request selected several knowledge bases, the knowledge base
  of a request that did not, and the conversation id, for ids and names as the checks accept them.
\<close>

theorem conversation_scopes_never_collide:
  assumes "query_scoped_conversation_id w kb plural (Some c) = Some key"
    and "query_scoped_conversation_id w' kb' plural' (Some c') = Some key"
    and "list_all id_char w" "list_all token_char c" "kb_choice_ok kb"
    and "list_all id_char w'" "list_all token_char c'" "kb_choice_ok kb'"
  shows "w = w' \<and> plural = plural' \<and> c = c' \<and> (\<not> plural \<longrightarrow> kb = kb')"
proof -
  have "c \<noteq> []" "c' \<noteq> []" using assms(1,2) by (auto simp: query_scoped_conversation_id_def)
  then have "scope_parts w kb plural c = scope_parts w' kb' plural' c'"
    using assms(1,2) scope_parts_back [OF assms(3-5)] scope_parts_back [OF assms(6-8)] by (metis option.inject scope_joins)
  then show ?thesis by (auto simp: scope_parts_def split: if_splits)
qed

theorem conversation_scopes_never_collide_witness:
  "\<exists>key. query_scoped_conversation_id ''u1'' ''default'' True (Some ''conv-0001'') = Some key
    \<and> query_scoped_conversation_id ''u1'' ''default'' False (Some ''conv-0001'') \<noteq> Some key"
proof -
  have ok: "list_all id_char ''u1''" "list_all token_char ''conv-0001''" "kb_choice_ok ''default''"
    by (simp_all add: id_char_def token_char_def py_is_ascii_alnum_def kb_choice_ok_def default_id_def)
  have "query_scoped_conversation_id ''u1'' ''default'' True (Some ''conv-0001'') = Some ''u1:multi-chat:conv-0001''"
    by (simp add: query_scoped_conversation_id_def)
  with conversation_scopes_never_collide [OF _ _ ok ok, of True "''u1:multi-chat:conv-0001''" False] show ?thesis by auto
qed

end
