(* ===== verification/Prompt_Store.thy ===== *)
theory Prompt_Store
  imports Model_Defaults
begin

text \<open>
  \<open>app/utils/prompt_store.py\<close>: the system prompts of the installation and of each user, one JSON
  file each, read and replaced under one lock. An unreadable file reads as empty. Identifiers and
  the texts of the clock are arguments. \<open>app/utils/prompt_templates.py\<close>: the prompt of the code
  interpreter, with Python's \<open>str.format\<close>.
\<close>

datatype prompt_error = NothingGiven | NameTooLong | ContentTooLong | BrokenRecord

record prompt_store =
  ps_shared :: json_file
  ps_personal :: "string \<Rightarrow> json_file"

section \<open>Files\<close>

definition read_prompts :: "json_file \<Rightarrow> json list" where
  "read_prompts f = (case f of
       Some (Some (JObj d)) \<Rightarrow> (case jget d ''prompts'' of JArr ps \<Rightarrow> ps | _ \<Rightarrow> [])
     | Some (Some (JArr ps)) \<Rightarrow> ps
     | _ \<Rightarrow> [])"

definition write_prompts :: "json list \<Rightarrow> json_file" where
  "write_prompts ps = Some (Some (JObj [(''prompts'', JArr ps)]))"

definition redact :: "jdict \<Rightarrow> jdict" where
  "redact d = filter (\<lambda>(k, v). k \<noteq> ''password'') d"

definition validate_prompt :: "bool \<Rightarrow> string option \<Rightarrow> string option \<Rightarrow> prompt_error + unit" where
  "validate_prompt require_any name content =
     (let empty = (\<lambda>t. case t of None \<Rightarrow> True | Some s \<Rightarrow> s = []) in
        bindE (guardE (\<not> (require_any \<and> empty name \<and> empty content)) NothingGiven) (\<lambda>_.
        bindE (guardE (case name of None \<Rightarrow> True | Some s \<Rightarrow> length s \<le> 500) NameTooLong) (\<lambda>_.
        guardE (case content of None \<Rightarrow> True | Some s \<Rightarrow> length s \<le> 100000) ContentTooLong)))"

text \<open>\<open>p.get("is_active", True)\<close>\<close>

definition is_active :: "json \<Rightarrow> prompt_error + bool" where
  "is_active p = (case p of JObj d \<Rightarrow> Inr (truthy (jget_or d ''is_active'' (JBool True))) | _ \<Rightarrow> Inl BrokenRecord)"

text \<open>\<open>p["id"] == prompt_id\<close> and \<open>p.get("id") == prompt_id\<close>\<close>

definition id_is :: "string \<Rightarrow> json \<Rightarrow> prompt_error + bool" where
  "id_is i p = (case p of
       JObj d \<Rightarrow> (case od_get d ''id'' of None \<Rightarrow> Inl BrokenRecord | Some v \<Rightarrow> Inr (v = JStr i))
     | _ \<Rightarrow> Inl BrokenRecord)"

definition may_id_be :: "string \<Rightarrow> json \<Rightarrow> prompt_error + bool" where
  "may_id_be i p = (case p of JObj d \<Rightarrow> Inr (jget d ''id'' = JStr i) | _ \<Rightarrow> Inl BrokenRecord)"

fun filterE :: "('a \<Rightarrow> 'e + bool) \<Rightarrow> 'a list \<Rightarrow> 'e + 'a list" where
  "filterE P [] = Inr []"
| "filterE P (x # xs) = bindE (P x) (\<lambda>b. bindE (filterE P xs) (\<lambda>ys. Inr (if b then x # ys else ys)))"

fun findE :: "('a \<Rightarrow> 'e + bool) \<Rightarrow> 'a list \<Rightarrow> 'e + 'a option" where
  "findE P [] = Inr None"
| "findE P (x # xs) = bindE (P x) (\<lambda>b. if b then Inr (Some x) else findE P xs)"

text \<open>The loops that change the first matching record and stop.\<close>

fun edit_first :: "(json \<Rightarrow> prompt_error + bool) \<Rightarrow> (jdict \<Rightarrow> jdict) \<Rightarrow> json list \<Rightarrow> prompt_error + (jdict \<times> json list) option" where
  "edit_first hit f [] = Inr None"
| "edit_first hit f (p # ps) = bindE (hit p) (\<lambda>b.
     if b then (case p of JObj d \<Rightarrow> Inr (Some (f d, JObj (f d) # ps)) | _ \<Rightarrow> Inl BrokenRecord)
     else bindE (edit_first hit f ps) (\<lambda>r. Inr (map_option (apsnd ((#) p)) r)))"

definition active_prompts :: "json_file \<Rightarrow> prompt_error + json list" where
  "active_prompts f = filterE is_active (read_prompts f)"

definition redacted :: "json option \<Rightarrow> jdict option" where
  "redacted r = (case r of Some (JObj d) \<Rightarrow> Some (redact d) | _ \<Rightarrow> None)"

section \<open>Operations on one file\<close>

definition new_prompt :: "string \<Rightarrow> string \<Rightarrow> string option \<Rightarrow> string option \<Rightarrow> string option \<Rightarrow> jdict" where
  "new_prompt uid now name content created_by =
     (let text = (\<lambda>t. case t of None \<Rightarrow> JNull | Some s \<Rightarrow> JStr s) in
      [(''id'', JStr uid), (''name'', text name), (''content'', text content)]
      @ (case created_by of None \<Rightarrow> [] | Some c \<Rightarrow> [(''created_by'', JStr c)])
      @ [(''created_at'', JStr now), (''updated_at'', JStr now), (''is_active'', JBool True)])"

definition create_in :: "string \<Rightarrow> string \<Rightarrow> string option \<Rightarrow> string option \<Rightarrow> string option \<Rightarrow> json_file
    \<Rightarrow> (prompt_error + jdict) \<times> json_file" where
  "create_in uid now name content created_by f =
     (case validate_prompt True name content of
        Inl e \<Rightarrow> (Inl e, f)
      | Inr _ \<Rightarrow> let p = new_prompt uid now name content created_by
          in (Inr (redact p), write_prompts (read_prompts f @ [JObj p])))"

definition written :: "prompt_error + (jdict \<times> json list) option \<Rightarrow> json_file \<Rightarrow> (prompt_error + jdict option) \<times> json_file" where
  "written r f = (case r of
       Inl e \<Rightarrow> (Inl e, f)
     | Inr None \<Rightarrow> (Inr None, f)
     | Inr (Some (d, ps)) \<Rightarrow> (Inr (Some (redact d)), write_prompts ps))"

definition changed_texts :: "string \<Rightarrow> string option \<Rightarrow> string option \<Rightarrow> jdict \<Rightarrow> jdict" where
  "changed_texts now name content d =
     (let d = (case name of None \<Rightarrow> d | Some n \<Rightarrow> od_set ''name'' (JStr n) d);
          d = (case content of None \<Rightarrow> d | Some c \<Rightarrow> od_set ''content'' (JStr c) d)
      in od_set ''updated_at'' (JStr now) d)"

definition update_in :: "string \<Rightarrow> string \<Rightarrow> string option \<Rightarrow> string option \<Rightarrow> json_file
    \<Rightarrow> (prompt_error + jdict option) \<times> json_file" where
  "update_in i now name content f =
     (case validate_prompt False name content of
        Inl e \<Rightarrow> (Inl e, f)
      | Inr _ \<Rightarrow> written (edit_first (id_is i) (changed_texts now name content) (read_prompts f)) f)"

definition toggle_active :: "string \<Rightarrow> string \<Rightarrow> bool \<Rightarrow> json_file \<Rightarrow> (prompt_error + jdict option) \<times> json_file" where
  "toggle_active i now active f =
     written (edit_first (id_is i) (\<lambda>d. od_set ''updated_at'' (JStr now) (od_set ''is_active'' (JBool active) d)) (read_prompts f)) f"

definition delete_in :: "string \<Rightarrow> json_file \<Rightarrow> (prompt_error + bool) \<times> json_file" where
  "delete_in i f = (case filterE (\<lambda>p. bindE (id_is i p) (\<lambda>b. Inr (\<not> b))) (read_prompts f) of
       Inl e \<Rightarrow> (Inl e, f)
     | Inr ps \<Rightarrow> if length ps = length (read_prompts f) then (Inr False, f) else (Inr True, write_prompts ps))"

definition get_active :: "string \<Rightarrow> json_file \<Rightarrow> prompt_error + jdict option" where
  "get_active i f = bindE (active_prompts f) (\<lambda>ps. bindE (findE (id_is i) ps) (\<lambda>r. Inr (redacted r)))"

definition get_any :: "string \<Rightarrow> json_file \<Rightarrow> prompt_error + jdict option" where
  "get_any i f = bindE (findE (may_id_be i) (read_prompts f)) (\<lambda>r. Inr (redacted r))"

section \<open>Shared prompts\<close>

definition on_shared :: "(json_file \<Rightarrow> 'r \<times> json_file) \<Rightarrow> prompt_store \<Rightarrow> 'r \<times> prompt_store" where
  "on_shared op s = (case op (ps_shared s) of (r, f) \<Rightarrow> (r, s\<lparr>ps_shared := f\<rparr>))"

definition list_shared :: "prompt_store \<Rightarrow> prompt_error + json list" where
  "list_shared s = active_prompts (ps_shared s)"

definition all_shared :: "prompt_store \<Rightarrow> json list" where
  "all_shared s = read_prompts (ps_shared s)"

definition toggle_shared :: "string \<Rightarrow> string \<Rightarrow> prompt_store \<Rightarrow> (prompt_error + jdict option) \<times> prompt_store" where
  "toggle_shared i now = on_shared (\<lambda>f. written (edit_first (may_id_be i)
     (\<lambda>d. od_set ''updated_at'' (JStr now) (od_set ''is_active'' (JBool (\<not> truthy (jget_or d ''is_active'' (JBool True)))) d))
     (read_prompts f)) f)"

definition create_shared :: "string \<Rightarrow> string \<Rightarrow> string option \<Rightarrow> string option \<Rightarrow> string \<Rightarrow> prompt_store
    \<Rightarrow> (prompt_error + jdict) \<times> prompt_store" where
  "create_shared uid now name content created_by = on_shared (create_in uid now name content (Some created_by))"

definition update_shared :: "string \<Rightarrow> string \<Rightarrow> string option \<Rightarrow> string option \<Rightarrow> prompt_store
    \<Rightarrow> (prompt_error + jdict option) \<times> prompt_store" where
  "update_shared i now name content = on_shared (update_in i now name content)"

definition activate_shared :: "string \<Rightarrow> string \<Rightarrow> prompt_store \<Rightarrow> (prompt_error + jdict option) \<times> prompt_store" where
  "activate_shared i now = on_shared (toggle_active i now True)"

definition deactivate_shared :: "string \<Rightarrow> string \<Rightarrow> prompt_store \<Rightarrow> (prompt_error + jdict option) \<times> prompt_store" where
  "deactivate_shared i now = on_shared (toggle_active i now False)"

definition delete_shared :: "string \<Rightarrow> prompt_store \<Rightarrow> (prompt_error + bool) \<times> prompt_store" where
  "delete_shared i = on_shared (delete_in i)"

definition get_shared :: "string \<Rightarrow> prompt_store \<Rightarrow> prompt_error + jdict option" where
  "get_shared i s = get_active i (ps_shared s)"

definition get_shared_any :: "string \<Rightarrow> prompt_store \<Rightarrow> prompt_error + jdict option" where
  "get_shared_any i s = (if i = [] then Inr None else get_any i (ps_shared s))"

section \<open>Personal prompts\<close>

definition on_personal :: "string \<Rightarrow> (json_file \<Rightarrow> 'r \<times> json_file) \<Rightarrow> prompt_store \<Rightarrow> 'r \<times> prompt_store" where
  "on_personal u op s = (case op (ps_personal s u) of (r, f) \<Rightarrow> (r, s\<lparr>ps_personal := (ps_personal s)(u := f)\<rparr>))"

definition list_user_prompts :: "string \<Rightarrow> prompt_store \<Rightarrow> prompt_error + json list" where
  "list_user_prompts u s = active_prompts (ps_personal s u)"

definition create_user_prompt :: "string \<Rightarrow> string \<Rightarrow> string \<Rightarrow> string option \<Rightarrow> string option \<Rightarrow> prompt_store
    \<Rightarrow> (prompt_error + jdict) \<times> prompt_store" where
  "create_user_prompt uid now u name content = on_personal u (create_in uid now name content None)"

definition update_user_prompt :: "string \<Rightarrow> string \<Rightarrow> string \<Rightarrow> string option \<Rightarrow> string option \<Rightarrow> prompt_store
    \<Rightarrow> (prompt_error + jdict option) \<times> prompt_store" where
  "update_user_prompt u i now name content = on_personal u (update_in i now name content)"

definition activate_user_prompt :: "string \<Rightarrow> string \<Rightarrow> string \<Rightarrow> prompt_store \<Rightarrow> (prompt_error + jdict option) \<times> prompt_store" where
  "activate_user_prompt u i now = on_personal u (toggle_active i now True)"

definition deactivate_user_prompt :: "string \<Rightarrow> string \<Rightarrow> string \<Rightarrow> prompt_store \<Rightarrow> (prompt_error + jdict option) \<times> prompt_store" where
  "deactivate_user_prompt u i now = on_personal u (toggle_active i now False)"

definition delete_user_prompt :: "string \<Rightarrow> string \<Rightarrow> prompt_store \<Rightarrow> (prompt_error + bool) \<times> prompt_store" where
  "delete_user_prompt u i = on_personal u (delete_in i)"

definition delete_user_prompts :: "string \<Rightarrow> prompt_store \<Rightarrow> nat \<times> prompt_store" where
  "delete_user_prompts u = on_personal u (\<lambda>f. (length (read_prompts f), None))"

definition get_user_prompt :: "string \<Rightarrow> string \<Rightarrow> prompt_store \<Rightarrow> prompt_error + jdict option" where
  "get_user_prompt u i s = get_active i (ps_personal s u)"

definition get_user_prompt_any :: "string \<Rightarrow> string \<Rightarrow> prompt_store \<Rightarrow> prompt_error + jdict option" where
  "get_user_prompt_any u i s = (if u = [] \<or> i = [] then Inr None else get_any i (ps_personal s u))"

section \<open>Both\<close>

text \<open>A record found is never the empty dictionary: it has an id.\<close>

definition resolve_prompt :: "string \<Rightarrow> string \<Rightarrow> prompt_store \<Rightarrow> prompt_error + jdict option" where
  "resolve_prompt u i s =
     (if u = [] \<or> i = [] then Inr None
      else bindE (get_user_prompt u i s) (\<lambda>r. case r of
             Some d \<Rightarrow> if d \<noteq> [] then Inr (Some d) else get_shared i s
           | None \<Rightarrow> get_shared i s))"

definition with_scope :: "string \<Rightarrow> json list \<Rightarrow> jdict list" where
  "with_scope scope ps = map (\<lambda>d. od_set ''scope'' (JStr scope) (redact d)) (objects (JArr ps))"

definition list_for_dropdown :: "string \<Rightarrow> prompt_store \<Rightarrow> prompt_error + jdict list" where
  "list_for_dropdown u s = bindE (list_shared s) (\<lambda>shared. bindE (list_user_prompts u s) (\<lambda>own.
     Inr (with_scope ''shared'' shared @ with_scope ''personal'' own)))"

end
