(* ===== verification/Prompt_Templates.thy ===== *)
theory Prompt_Templates
  imports Prompt_Store
begin

text \<open>
  The two expansions of prompt texts: \<open>PromptStore.resolve_template\<close>, one pass of
  \<open>re.sub\<close> over \<open>{{NAME}}\<close>, and \<open>build_code_system_prompt\<close> of \<open>app/utils/prompt_templates.py\<close>,
  which ends in a \<open>str.format\<close>.
\<close>

section \<open>Placeholders\<close>

record template_user =
  tu_email :: string
  tu_display :: string

definition py_upper_ascii :: "string \<Rightarrow> string" where
  "py_upper_ascii s = map (\<lambda>c. let n = (of_char c :: nat) in if 97 \<le> n \<and> n \<le> 122 then char_of (n - 32) else c) s"

text \<open>\<open>[A-Za-z_]\<close>\<close>

definition name_char :: "char \<Rightarrow> bool" where
  "name_char c = (let n = (of_char c :: nat) in (65 \<le> n \<and> n \<le> 90) \<or> (97 \<le> n \<and> n \<le> 122) \<or> n = 95)"

text \<open>A match of \<open>{{name}}\<close> at the start of the text: the name and the rest.\<close>

definition placeholder :: "string \<Rightarrow> (string \<times> string) option" where
  "placeholder s = (case s of
       a # b # t \<Rightarrow>
         (let name = takeWhile name_char t; rest = dropWhile name_char t
          in if a = CHR ''{'' \<and> b = CHR ''{'' \<and> name \<noteq> [] \<and> py_startswith rest ''}}'' then Some (name, drop 2 rest) else None)
     | _ \<Rightarrow> None)"

text \<open>\<open>today\<close> and \<open>clock\<close> are the formatted instants.\<close>

definition replacement :: "string \<Rightarrow> string \<Rightarrow> template_user option \<Rightarrow> string \<Rightarrow> string" where
  "replacement today clock user name =
     (let var = py_upper_ascii name in
      case user of
        Some u \<Rightarrow>
          if var = ''UTENTE'' then tu_email u
          else if var = ''NOME_UTENTE'' then (if tu_display u = [] then tu_email u else tu_display u)
          else if var = ''DATA_ODOIERNO'' then today else if var = ''ORA'' then clock
          else ''{{'' @ name @ ''}}''
      | None \<Rightarrow>
          if var = ''DATA_ODOIERNO'' then today else if var = ''ORA'' then clock
          else ''{{'' @ name @ ''}}'')"

lemma placeholder_shorter: "placeholder s = Some (name, rest) \<Longrightarrow> length rest < length s"
proof -
  assume "placeholder s = Some (name, rest)"
  then obtain a b t where s: "s = a # b # t" and "rest = drop 2 (dropWhile name_char t)"
    by (auto simp: placeholder_def Let_def split: list.splits if_splits)
  moreover have "length (dropWhile name_char t) \<le> length t" by (rule length_dropWhile_le)
  ultimately show ?thesis by simp
qed

function expand :: "(string \<Rightarrow> string) \<Rightarrow> string \<Rightarrow> string" where
  "expand f [] = []"
| "expand f (c # s) = (case placeholder (c # s) of
       Some (name, rest) \<Rightarrow> f name @ expand f rest
     | None \<Rightarrow> c # expand f s)"
  by pat_completeness auto
termination
  by (relation "measure (length \<circ> snd)") (auto dest: placeholder_shorter)

definition resolve_template :: "string \<Rightarrow> string \<Rightarrow> template_user option \<Rightarrow> string \<Rightarrow> string" where
  "resolve_template today clock user content = expand (replacement today clock user) content"

section \<open>Python's format strings\<close>

datatype format_result = Formatted string | FormatRaises

text \<open>
  The field name of a replacement field: it ends at a closing brace, a colon or an exclamation
  mark; \<open>None\<close>: an opening brace in it, or the end of the text. The flag is inside brackets.
\<close>

fun field_name :: "bool \<Rightarrow> string \<Rightarrow> (string \<times> char \<times> string) option" where
  "field_name b [] = None"
| "field_name b (c # s) =
     (if b then map_option (apfst ((#) c)) (field_name (c \<noteq> CHR '']'') s)
      else if c = CHR ''{'' then None
      else if c = CHR ''}'' \<or> c = CHR '':'' \<or> c = CHR ''!'' then Some ([], c, s)
      else map_option (apfst ((#) c)) (field_name (c = CHR ''['') s))"

text \<open>The rest after a conversion or a format specification, whose braces nest.\<close>

fun after_spec :: "nat \<Rightarrow> string \<Rightarrow> string option" where
  "after_spec d [] = None"
| "after_spec d (c # s) =
     (if c = CHR ''{'' then after_spec (Suc d) s
      else if c = CHR ''}'' then (case d of 0 \<Rightarrow> Some s | Suc d' \<Rightarrow> after_spec d' s)
      else after_spec d s)"

text \<open>
  \<open>text.format(key=value)\<close>. A field of the key with attributes, indices or a specification is the
  parameter \<open>special\<close> of the model; a field of any other name raises.
\<close>

definition first_component :: "string \<Rightarrow> string" where
  "first_component name = takeWhile (\<lambda>c. c \<noteq> CHR ''.'' \<and> c \<noteq> CHR ''['') name"

lemma field_name_shorter: "field_name b s = Some (n, c, r) \<Longrightarrow> length r < length s"
  by (induction b s arbitrary: n rule: field_name.induct) (auto split: if_splits simp: less_Suc_eq)

lemma after_spec_shorter: "after_spec d s = Some r \<Longrightarrow> length r < length s"
  by (induction d s rule: after_spec.induct) (auto split: if_splits nat.splits simp: less_Suc_eq)

text \<open>The name of a field, its whole text, and what follows it.\<close>

definition parse_field :: "string \<Rightarrow> (string \<times> string \<times> string) option" where
  "parse_field s = (case field_name False s of
       None \<Rightarrow> None
     | Some (name, e, rest) \<Rightarrow> (case (if e = CHR ''}'' then Some rest else after_spec 0 rest) of
           None \<Rightarrow> None
         | Some rest' \<Rightarrow> Some (name, take (length s - length rest' - 1) s, rest')))"

lemma parse_field_shorter: "parse_field s = Some (name, raw, rest) \<Longrightarrow> length rest < length s"
  using field_name_shorter after_spec_shorter
  by (fastforce simp: parse_field_def split: option.splits if_splits prod.splits)

definition field_value :: "(string \<Rightarrow> string option) \<Rightarrow> string \<Rightarrow> string \<Rightarrow> string \<Rightarrow> string \<Rightarrow> string option" where
  "field_value special key val name raw =
     (if raw = key then Some val else if first_component name \<noteq> key then None else special raw)"

fun cons_format :: "string \<Rightarrow> format_result \<Rightarrow> format_result" where
  "cons_format t (Formatted s) = Formatted (t @ s)"
| "cons_format t FormatRaises = FormatRaises"

function py_format :: "(string \<Rightarrow> string \<Rightarrow> string option) \<Rightarrow> string \<Rightarrow> format_result" where
  "py_format f [] = Formatted []"
| "py_format f (c # s) =
     (if c = CHR ''{'' \<and> s \<noteq> [] \<and> hd s = CHR ''{'' then cons_format ''{'' (py_format f (tl s))
      else if c = CHR ''}'' \<and> s \<noteq> [] \<and> hd s = CHR ''}'' then cons_format ''}'' (py_format f (tl s))
      else if c = CHR ''}'' then FormatRaises
      else if c = CHR ''{'' then
        (case parse_field s of
           None \<Rightarrow> FormatRaises
         | Some (name, raw, rest) \<Rightarrow> (case f name raw of
               None \<Rightarrow> FormatRaises
             | Some t \<Rightarrow> cons_format t (py_format f rest)))
      else cons_format [c] (py_format f s))"
  by pat_completeness auto
termination
  by (relation "measure (length \<circ> snd)") (auto dest: parse_field_shorter less_SucI)

section \<open>The prompt of the code interpreter\<close>

definition nl :: string where "nl = [CHR 0x0A]"
definition dq :: string where "dq = [CHR 0x22]"
definition sq :: string where "sq = [CHR 0x27]"

definition file_block :: "(real \<Rightarrow> string) \<Rightarrow> jdict \<Rightarrow> string" where
  "file_block fr f =
     (let block = ''- Nome: '' @ dq @ py_str fr (jget_or f ''name'' (JStr ''file'')) @ dq @ nl
        @ ''  Percorso Python: '' @ py_str fr (jget_or f ''container_path'' (JStr ''/data/file'')) @ nl
        @ ''  Tipo: '' @ py_str fr (jget_or f ''type'' (JStr ''sconosciuto''));
          preview = py_strip (text_or fr [] (jget f ''preview''))
      in if preview = [] then block else block @ nl @ ''  Anteprima limitata:'' @ nl @ preview)"

definition language_instruction :: "string \<Rightarrow> string" where
  "language_instruction language =
     (let l = py_lower (if language = [] then ''auto'' else language) in
      if l = ''it'' then ''Stampa risultati in italiano.''
      else if l = ''en'' then ''Print results in English.''
      else if l = ''auto'' then ''Stampa risultati nella stessa lingua della richiesta utente.''
      else ''Stampa risultati nella lingua richiesta dall'' @ sq @ ''utente.'')"

definition or_else :: "string \<Rightarrow> string \<Rightarrow> string" where
  "or_else s dflt = (if s = [] then dflt else s)"

text \<open>The text before the call of \<open>format\<close>: the literals after the inserted texts hold one field.\<close>

definition code_prompt_head :: "(real \<Rightarrow> string) \<Rightarrow> jdict list \<Rightarrow> string \<Rightarrow> string \<Rightarrow> string \<Rightarrow> string \<Rightarrow> string" where
  "code_prompt_head fr files rag conversation client custom =
     ''Sei un assistente per l'' @ sq @ ''analisi dati con Python.'' @ nl @ nl @ ''FILE DATI ALLEGATI:'' @ nl
     @ py_join nl (map (file_block fr) files) @ nl @ nl
     @ ''CONTESTO RAG DOCUMENTALE DA USARE COME RIFERIMENTO (non come dataset tabellare):'' @ nl
     @ or_else rag ''Nessun contesto documentale recuperato.'' @ nl @ nl
     @ ''CONTESTO CONVERSAZIONE:'' @ nl @ or_else conversation ''Nessun contesto conversazionale precedente.'' @ nl @ nl
     @ ''CONTESTO CLIENT:'' @ nl @ or_else client ''Nessun contesto client fornito.'' @ nl @ nl
     @ ''ISTRUZIONI AGGIUNTIVE:'' @ nl @ or_else custom ''Nessuna istruzione aggiuntiva.'' @ nl @ nl"

definition rules_before :: "string \<Rightarrow> string" where
  "rules_before language =
     ''ISTRUZIONI:'' @ nl
     @ ''1. Genera codice Python che analizza i FILE DATI ALLEGATI.'' @ nl
     @ ''2. Usa sempre i Percorsi Python indicati sopra per leggere i file, ad esempio pandas.read_csv('' @ sq
     @ ''/data/file.csv'' @ sq @ '').'' @ nl
     @ ''3. Usa il CONTESTO RAG solo per regole, definizioni, interpretazione o vincoli aziendali rilevanti.'' @ nl
     @ ''4. Usa pandas/numpy per tabelle e calcoli; usa matplotlib per grafici.'' @ nl
     @ ''5. Per grafici: salva PNG in /output, ad esempio plt.savefig('' @ sq @ ''/output/plot.png'' @ sq @ '', bbox_inches='' @ sq
     @ ''tight'' @ sq @ '').'' @ nl
     @ ''6. Stampa risultati testuali con print(); non usare input interattivo.'' @ nl
     @ ''7. '' @ language_instruction language @ nl @ nl
     @ ''LIBRERIE CONSENTITE: pandas, numpy, matplotlib, json, csv, math, statistics'' @ nl @ nl
     @ ''QUESTO '' @ [CHR 0xE8] @ '' IL TASK DELL'' @ sq @ ''UTENTE: ''"

definition rules_after :: string where
  "rules_after = nl @ nl @ ''RESPONDI SOLO CON CODICE PYTHON. Niente spiegazioni, niente markdown.''"

definition build_code_system_prompt ::
  "(real \<Rightarrow> string) \<Rightarrow> (string \<Rightarrow> string option) \<Rightarrow> string \<Rightarrow> jdict list \<Rightarrow> string \<Rightarrow> string \<Rightarrow> string \<Rightarrow> string \<Rightarrow> string
    \<Rightarrow> format_result" where
  "build_code_system_prompt fr special query files rag conversation client custom language =
     py_format (field_value special ''user_query'' query)
       (code_prompt_head fr files rag conversation client custom @ rules_before language @ ''{user_query}'' @ rules_after)"


section \<open>Braces in the inserted texts\<close>

definition brace_free :: "string \<Rightarrow> bool" where
  "brace_free s \<longleftrightarrow> CHR ''{'' \<notin> set s \<and> CHR ''}'' \<notin> set s"

lemma cons_format_append: "cons_format (u @ v) r = cons_format u (cons_format v r)"
  by (cases r) auto

lemma brace_free_simps [simp]: "brace_free []" "brace_free (u @ v) \<longleftrightarrow> brace_free u \<and> brace_free v"
  "brace_free (c # u) \<longleftrightarrow> c \<noteq> CHR ''{'' \<and> c \<noteq> CHR ''}'' \<and> brace_free u"
  by (auto simp: brace_free_def)

lemma format_literal: "brace_free u \<Longrightarrow> py_format f (u @ s) = cons_format u (py_format f s)"
proof (induction u)
  case Nil
  show ?case by (cases "py_format f s") auto
next
  case (Cons c u)
  then show ?case using cons_format_append [of "[c]" u] by simp
qed

lemma format_field: "py_format f (''{user_query}'' @ s) = (case f ''user_query'' ''user_query'' of
    None \<Rightarrow> FormatRaises | Some t \<Rightarrow> cons_format t (py_format f s))"
proof -
  have "parse_field (''user_query}'' @ s) = Some (''user_query'', ''user_query'', s)"
    by (simp add: parse_field_def)
  then show ?thesis by simp
qed

lemma format_Nil: "py_format f [] = Formatted []"
  by simp

lemma rules_brace_free: "brace_free (rules_before language)" "brace_free rules_after"
  by (simp_all add: rules_before_def rules_after_def language_instruction_def Let_def nl_def sq_def)

text \<open>A field whose name starts with a quote is the key of no argument.\<close>

lemma quoted_field: "py_format (field_value special ''user_query'' query) (CHR ''{'' # CHR 0x22 # v) = FormatRaises"
proof -
  have raises: "field_value special ''user_query'' query name raw = None"
    if "parse_field (CHR 0x22 # v) = Some (name, raw, rest)" for name raw rest
  proof -
    have "\<exists>e r. field_name False (CHR 0x22 # v) = Some (name, e, r)"
      and raw: "raw = take (length v - length rest) (CHR 0x22 # v)"
      using that by (auto simp: parse_field_def simp del: field_name.simps split: option.splits prod.splits if_splits)
    then have "\<exists>t. name = CHR 0x22 # t" by auto
    then have "first_component name \<noteq> ''user_query''" by (auto simp: first_component_def)
    moreover have "raw \<noteq> ''user_query''" unfolding raw by (cases "length v - length rest") auto
    ultimately show ?thesis by (simp add: field_value_def)
  qed
  show ?thesis using raises by (auto split: option.splits)
qed

declare py_format.simps [simp del]

text \<open>
  Claim C26: the prompt of the code interpreter is built when no inserted text holds a brace, and then
  holds the request as it was written. But the texts of the attached files, of the documents and of the
  conversation go through \<open>str.format\<close> as well: when the first brace among them opens a JSON object,
  building the prompt raises.
\<close>

theorem code_prompt_raises_on_json:
  assumes "code_prompt_head fr files rag conversation client custom = head"
  shows "(brace_free head \<longrightarrow> build_code_system_prompt fr special query files rag conversation client custom language
      = Formatted (head @ rules_before language @ query @ rules_after))
    \<and> (head = u @ CHR ''{'' # CHR 0x22 # v \<and> brace_free u \<longrightarrow>
      build_code_system_prompt fr special query files rag conversation client custom language = FormatRaises)"
  unfolding build_code_system_prompt_def assms
  using format_literal [OF rules_brace_free(2), of "field_value special ''user_query'' query" "[]"]
  by (auto simp: format_literal rules_brace_free format_field [simplified] field_value_def [of _ _ _ "''user_query''" "''user_query''"]
      quoted_field format_Nil)

definition json_file_attached :: jdict where
  "json_file_attached = [(''name'', JStr ''a.json''), (''container_path'', JStr ''/data/a.json''), (''type'', JStr ''application/json''),
     (''preview'', JStr (CHR ''{'' # CHR 0x22 # ''a'' @ CHR 0x22 # '': 1}''))]"

theorem code_prompt_raises_on_json_witness:
  "build_code_system_prompt (\<lambda>_. []) (\<lambda>_. None) ''media?'' [json_file_attached] [] [] [] [] ''auto'' = FormatRaises"
proof -
  obtain head where head: "code_prompt_head (\<lambda>_. []) [json_file_attached] [] [] [] [] = head" by blast
  then have "head = takeWhile (\<lambda>c. c \<noteq> CHR ''{'') head @ CHR ''{'' # CHR 0x22 # drop 2 (dropWhile (\<lambda>c. c \<noteq> CHR ''{'') head)"
    and "brace_free (takeWhile (\<lambda>c. c \<noteq> CHR ''{'') head)"
    unfolding brace_free_def by (simp_all only: head [symmetric], code_simp+)
  with code_prompt_raises_on_json [OF head] show ?thesis by blast
qed

end
