(* ===== verification/Lifecycle_Lock.thy ===== *)
theory Lifecycle_Lock
  imports Prelude
begin

text \<open>
  The re-entrant, writer-preferring read/write lock of \<open>app/utils/index_lock.py\<close>
  (\<open>_ThreadReadWriteLock\<close>). Each method runs under the monitor of its condition variable, so
  it is one atomic operation up to its call of \<open>wait\<close>. A call that would wait has a result
  of its own; the wake-up is a second operation that tests the loop condition again.
\<close>

section \<open>State\<close>

type_synonym tid = nat

record rw_lock =
  rw_readers :: "(tid, nat) odict"
  rw_writer :: "tid option"
  rw_depth :: nat
  rw_waiting :: nat

definition new_rw_lock :: rw_lock where
  "new_rw_lock = \<lparr>rw_readers = [], rw_writer = None, rw_depth = 0, rw_waiting = 0\<rparr>"

text \<open>\<open>self._readers.get(thread_id, 0)\<close>\<close>

definition read_depth :: "rw_lock \<Rightarrow> tid \<Rightarrow> nat" where
  "read_depth l t = (case od_get (rw_readers l) t of None \<Rightarrow> 0 | Some n \<Rightarrow> n)"

definition already_held :: "rw_lock \<Rightarrow> tid \<Rightarrow> bool" where
  "already_held l t \<longleftrightarrow> rw_writer l = Some t \<or> 0 < read_depth l t"

text \<open>
  The outcome of a call: it waits, it raises \<open>RuntimeError\<close>, or it returns (for an
  acquisition, whether it is the outermost one of the thread).
\<close>

datatype lock_outcome = Waits | Fails | Returns bool

section \<open>Operations\<close>

definition acquire_read :: "tid \<Rightarrow> rw_lock \<Rightarrow> lock_outcome \<times> rw_lock" where
  "acquire_read t l =
     (let held = already_held l t
      in if \<not> held \<and> (rw_writer l \<noteq> None \<or> 0 < rw_waiting l) then (Waits, l)
         else (Returns (\<not> held), l\<lparr>rw_readers := od_set t (read_depth l t + 1) (rw_readers l)\<rparr>))"

definition release_read :: "tid \<Rightarrow> rw_lock \<Rightarrow> lock_outcome \<times> rw_lock" where
  "release_read t l =
     (let depth = read_depth l t
      in if depth = 0 then (Fails, l)
         else if depth = 1 then (Returns True, l\<lparr>rw_readers := od_pop t (rw_readers l)\<rparr>)
         else (Returns True, l\<lparr>rw_readers := od_set t (depth - 1) (rw_readers l)\<rparr>))"

text \<open>
  The first pass of \<open>acquire_write\<close>: a call that waits has counted itself among the waiting
  writers. \<open>wake_write\<close> is a later test of the loop condition, after a notification.
\<close>

definition acquire_write :: "tid \<Rightarrow> rw_lock \<Rightarrow> lock_outcome \<times> rw_lock" where
  "acquire_write t l =
     (if rw_writer l = Some t then (Returns False, l\<lparr>rw_depth := rw_depth l + 1\<rparr>)
      else if 0 < read_depth l t then (Fails, l)
      else if rw_writer l \<noteq> None \<or> rw_readers l \<noteq> [] then (Waits, l\<lparr>rw_waiting := rw_waiting l + 1\<rparr>)
      else (Returns True, l\<lparr>rw_writer := Some t, rw_depth := 1\<rparr>))"

definition wake_write :: "tid \<Rightarrow> rw_lock \<Rightarrow> lock_outcome \<times> rw_lock" where
  "wake_write t l =
     (if rw_writer l \<noteq> None \<or> rw_readers l \<noteq> [] then (Waits, l)
      else (Returns True, l\<lparr>rw_writer := Some t, rw_depth := 1, rw_waiting := rw_waiting l - 1\<rparr>))"

definition release_write :: "tid \<Rightarrow> rw_lock \<Rightarrow> lock_outcome \<times> rw_lock" where
  "release_write t l =
     (if rw_writer l \<noteq> Some t then (Fails, l)
      else if rw_depth l = 1 then (Returns True, l\<lparr>rw_depth := 0, rw_writer := None\<rparr>)
      else (Returns True, l\<lparr>rw_depth := rw_depth l - 1\<rparr>))"

section \<open>The invariant\<close>

definition reader_ids :: "rw_lock \<Rightarrow> tid set" where
  "reader_ids l = fst ` set (rw_readers l)"

definition positive :: "(tid, nat) odict \<Rightarrow> bool" where
  "positive d \<longleftrightarrow> (\<forall>n \<in> snd ` set d. 0 < n)"

definition rw_inv :: "rw_lock \<Rightarrow> bool" where
  "rw_inv l \<longleftrightarrow> od_wf (rw_readers l) \<and> positive (rw_readers l)
     \<and> (rw_writer l = None \<longleftrightarrow> rw_depth l = 0)
     \<and> (\<forall>w. rw_writer l = Some w \<longrightarrow> reader_ids l \<subseteq> {w})"

lemma rw_inv_new: "rw_inv new_rw_lock"
  by (simp add: rw_inv_def new_rw_lock_def positive_def)

lemma reader_ids_iff: "t \<in> reader_ids l \<longleftrightarrow> od_get (rw_readers l) t \<noteq> None"
  by (simp add: reader_ids_def map_of_eq_None_iff)

lemma positive_get: "positive d \<Longrightarrow> od_get d t = Some n \<Longrightarrow> 0 < n"
  by (force simp: positive_def dest: od_get_Some_mem)

lemma read_depth_pos: "rw_inv l \<Longrightarrow> 0 < read_depth l t \<longleftrightarrow> t \<in> reader_ids l"
  by (auto simp: rw_inv_def read_depth_def reader_ids_iff dest: positive_get split: option.splits)

lemma no_readers: "rw_readers l = [] \<longleftrightarrow> reader_ids l = {}"
  by (simp add: reader_ids_def)

lemma reader_ids_set: "reader_ids (l\<lparr>rw_readers := od_set t n (rw_readers l)\<rparr>) = insert t (reader_ids l)"
  by (simp add: reader_ids_def dom_update)

lemma reader_ids_pop: "reader_ids (l\<lparr>rw_readers := od_pop t (rw_readers l)\<rparr>) = reader_ids l - {t}"
  by (auto simp: reader_ids_def AList.delete_eq image_iff)

lemma positive_set: "positive d \<Longrightarrow> 0 < k \<Longrightarrow> positive (od_set t k d)"
  using set_od_set [of t k d] by (fastforce simp: positive_def)

lemma positive_pop: "positive d \<Longrightarrow> positive (od_pop t d)"
  using set_od_pop [of t d] by (fastforce simp: positive_def)

lemma rw_inv_frame:
  "rw_inv l \<Longrightarrow> od_wf d \<Longrightarrow> positive d \<Longrightarrow>
    (\<And>w. rw_writer l = Some w \<Longrightarrow> reader_ids (l\<lparr>rw_readers := d\<rparr>) \<subseteq> {w}) \<Longrightarrow> rw_inv (l\<lparr>rw_readers := d\<rparr>)"
  by (simp add: rw_inv_def)

text \<open>What one operation does to a lock that satisfies the invariant.\<close>

datatype rw_call = AcquireRead | ReleaseRead | AcquireWrite | WakeWrite | ReleaseWrite

fun rw_perform :: "rw_call \<Rightarrow> tid \<Rightarrow> rw_lock \<Rightarrow> lock_outcome \<times> rw_lock" where
  "rw_perform AcquireRead = acquire_read"
| "rw_perform ReleaseRead = release_read"
| "rw_perform AcquireWrite = acquire_write"
| "rw_perform WakeWrite = wake_write"
| "rw_perform ReleaseWrite = release_write"

lemma acquire_read_inv:
  assumes "rw_inv l"
  shows "rw_inv (snd (acquire_read t l))"
proof -
  have "rw_inv (l\<lparr>rw_readers := od_set t (read_depth l t + 1) (rw_readers l)\<rparr>)"
    if "already_held l t \<or> rw_writer l = None"
    using assms that read_depth_pos [OF assms, of t]
    by (intro rw_inv_frame) (auto simp: rw_inv_def reader_ids_set positive_set already_held_def)
  with assms show ?thesis by (auto simp: acquire_read_def Let_def)
qed

lemma release_read_inv:
  assumes "rw_inv l"
  shows "rw_inv (snd (release_read t l))"
proof -
  have "rw_inv (l\<lparr>rw_readers := od_pop t (rw_readers l)\<rparr>)"
    using assms by (intro rw_inv_frame) (auto simp: rw_inv_def reader_ids_pop positive_pop)
  moreover have "rw_inv (l\<lparr>rw_readers := od_set t (read_depth l t - 1) (rw_readers l)\<rparr>)" if "1 < read_depth l t"
    using assms that read_depth_pos [OF assms, of t]
    by (intro rw_inv_frame) (auto simp: rw_inv_def reader_ids_set positive_set)
  ultimately show ?thesis using assms by (auto simp: release_read_def Let_def)
qed

lemma acquire_write_inv: "rw_inv l \<Longrightarrow> rw_inv (snd (acquire_write t l))"
  by (auto simp: acquire_write_def rw_inv_def reader_ids_def)

lemma wake_write_inv: "rw_inv l \<Longrightarrow> rw_inv (snd (wake_write t l))"
  by (auto simp: wake_write_def rw_inv_def reader_ids_def)

lemma release_write_inv: "rw_inv l \<Longrightarrow> rw_inv (snd (release_write t l))"
  by (auto simp: release_write_def rw_inv_def reader_ids_def)

lemma rw_perform_inv: "rw_inv l \<Longrightarrow> rw_inv (snd (rw_perform c t l))"
  by (cases c) (simp_all add: acquire_read_inv release_read_inv acquire_write_inv wake_write_inv release_write_inv)

end
