(* ===== verification/Lifecycle_Order.thy ===== *)
theory Lifecycle_Order
  imports Lifecycle_Lock Py_Text "HOL-Library.List_Lexorder" "HOL-Library.Char_ord" "HOL-Library.Option_ord"
begin

text \<open>
  The lifecycle context managers of \<open>app/utils/index_lock.py\<close> and the threads that use them.
  Every manager acquires a sequence of locks, the global one first and then those of its
  scopes in lexical order, runs its body and releases them in the opposite order. The system
  interleaves the operations of any number of threads of one process. The digest that turns a
  scope into the key of its lock is a parameter \<open>dig\<close>.
\<close>

section \<open>The plans of the context managers\<close>

datatype lock_mode = Shared | Exclusive

type_synonym plan = "(string \<times> lock_mode) list"

definition lifecycle_scope_key :: "(string \<Rightarrow> string) \<Rightarrow> string option \<Rightarrow> string" where
  "lifecycle_scope_key dig scope = (case scope of None \<Rightarrow> ''global'' | Some s \<Rightarrow> dig (py_strip s))"

definition lifecycle_read_lock :: "(string \<Rightarrow> string) \<Rightarrow> string option \<Rightarrow> plan" where
  "lifecycle_read_lock dig scope = (case scope of
       None \<Rightarrow> [(lifecycle_scope_key dig None, Shared)]
     | Some s \<Rightarrow> [(lifecycle_scope_key dig None, Shared), (lifecycle_scope_key dig (Some s), Shared)])"

definition ordered_scopes :: "string list \<Rightarrow> string list" where
  "ordered_scopes scopes = sort (remdups (filter (\<lambda>s. s \<noteq> []) (map py_strip scopes)))"

definition lifecycle_read_locks :: "(string \<Rightarrow> string) \<Rightarrow> string list \<Rightarrow> plan" where
  "lifecycle_read_locks dig scopes = (lifecycle_scope_key dig None, Shared)
     # map (\<lambda>s. (lifecycle_scope_key dig (Some s), Shared)) (ordered_scopes scopes)"

definition lifecycle_write_lock :: "(string \<Rightarrow> string) \<Rightarrow> string option \<Rightarrow> plan" where
  "lifecycle_write_lock dig scope = (case scope of
       None \<Rightarrow> [(lifecycle_scope_key dig None, Exclusive)]
     | Some s \<Rightarrow> [(lifecycle_scope_key dig None, Shared), (lifecycle_scope_key dig (Some s), Exclusive)])"

section \<open>Threads\<close>

text \<open>
  A thread still has locks to acquire, holds a stack of acquired ones, and may be counted
  among the waiting writers of the next lock.
\<close>

record thread =
  th_todo :: plan
  th_held :: plan
  th_wait :: bool

record lock_sys =
  sy_locks :: "string \<Rightarrow> rw_lock"
  sy_threads :: "thread list"

definition start_sys :: "plan list \<Rightarrow> lock_sys" where
  "start_sys plans = \<lparr>sy_locks = (\<lambda>k. new_rw_lock),
     sy_threads = map (\<lambda>p. \<lparr>th_todo = p, th_held = [], th_wait = False\<rparr>) plans\<rparr>"

definition put_back :: "tid \<Rightarrow> thread \<Rightarrow> string \<Rightarrow> rw_lock \<Rightarrow> lock_sys \<Rightarrow> lock_sys" where
  "put_back t th k l s = s\<lparr>sy_locks := (sy_locks s)(k := l), sy_threads := (sy_threads s)[t := th]\<rparr>"

text \<open>
  The next operation of a thread; \<open>None\<close> when it has none or is blocked in a \<open>wait\<close>. A call
  that begins to wait as a writer is a step, because it counts itself.
\<close>

definition acquire_next :: "tid \<Rightarrow> string \<Rightarrow> lock_mode \<Rightarrow> bool \<Rightarrow> rw_lock \<Rightarrow> lock_outcome \<times> rw_lock" where
  "acquire_next t k m waiting l =
     (case m of Shared \<Rightarrow> acquire_read t l | Exclusive \<Rightarrow> if waiting then wake_write t l else acquire_write t l)"

definition release_last :: "tid \<Rightarrow> lock_mode \<Rightarrow> rw_lock \<Rightarrow> lock_outcome \<times> rw_lock" where
  "release_last t m l = (case m of Shared \<Rightarrow> release_read t l | Exclusive \<Rightarrow> release_write t l)"

definition thread_step :: "tid \<Rightarrow> lock_sys \<Rightarrow> lock_sys option" where
  "thread_step t s =
     (if length (sy_threads s) \<le> t then None
      else let th = sy_threads s ! t
      in case th_todo th of
           (k, m) # rest \<Rightarrow>
             (case acquire_next t k m (th_wait th) (sy_locks s k) of
                (Returns b, l) \<Rightarrow> Some (put_back t \<lparr>th_todo = rest, th_held = (k, m) # th_held th, th_wait = False\<rparr> k l s)
              | (Waits, l) \<Rightarrow> if m = Exclusive \<and> \<not> th_wait th then Some (put_back t (th\<lparr>th_wait := True\<rparr>) k l s) else None
              | (Fails, l) \<Rightarrow> None)
         | [] \<Rightarrow>
             (case th_held th of
                [] \<Rightarrow> None
              | (k, m) # held \<Rightarrow>
                  (case release_last t m (sy_locks s k) of
                     (Returns b, l) \<Rightarrow> Some (put_back t (th\<lparr>th_held := held\<rparr>) k l s)
                   | (_, l) \<Rightarrow> None)))"

inductive lock_reach :: "lock_sys \<Rightarrow> lock_sys \<Rightarrow> bool" for s0 where
  start: "lock_reach s0 s0"
| step: "lock_reach s0 s \<Longrightarrow> thread_step t s = Some s' \<Longrightarrow> lock_reach s0 s'"

definition finished :: "thread \<Rightarrow> bool" where
  "finished th \<longleftrightarrow> th_todo th = [] \<and> th_held th = []"

section \<open>The invariant of the system\<close>

definition holds :: "lock_sys \<Rightarrow> tid \<Rightarrow> string \<Rightarrow> lock_mode \<Rightarrow> bool" where
  "holds s t k m \<longleftrightarrow> t < length (sy_threads s) \<and> (k, m) \<in> set (th_held (sy_threads s ! t))"

definition waits_for :: "lock_sys \<Rightarrow> tid \<Rightarrow> string \<Rightarrow> bool" where
  "waits_for s t k \<longleftrightarrow> t < length (sy_threads s) \<and> th_wait (sy_threads s ! t)
     \<and> (\<exists>m rest. th_todo (sy_threads s ! t) = (k, m) # rest)"

text \<open>The keys of a thread, in the order of acquisition.\<close>

definition keys_of :: "thread \<Rightarrow> string list" where
  "keys_of th = map fst (rev (th_held th) @ th_todo th)"

definition lock_view :: "lock_sys \<Rightarrow> string \<Rightarrow> bool" where
  "lock_view s k \<longleftrightarrow> (let l = sy_locks s k in rw_inv l
     \<and> reader_ids l = {t. holds s t k Shared} \<and> (\<forall>t \<in> reader_ids l. read_depth l t = 1)
     \<and> (\<forall>t. rw_writer l = Some t \<longleftrightarrow> holds s t k Exclusive) \<and> rw_depth l \<le> 1
     \<and> rw_waiting l = card {t. waits_for s t k})"

definition thread_ok :: "(string \<Rightarrow> 'r :: linorder) \<Rightarrow> thread \<Rightarrow> bool" where
  "thread_ok rank th \<longleftrightarrow> sorted_wrt (<) (map rank (keys_of th))
     \<and> (th_wait th \<longrightarrow> (\<exists>k rest. th_todo th = (k, Exclusive) # rest))"

definition sys_inv :: "(string \<Rightarrow> 'r :: linorder) \<Rightarrow> lock_sys \<Rightarrow> bool" where
  "sys_inv rank s \<longleftrightarrow> list_all (thread_ok rank) (sy_threads s) \<and> (\<forall>k. lock_view s k)"

lemma finite_waits: "finite {t. waits_for s t k}"
  by (rule finite_subset [of _ "{..<length (sy_threads s)}"]) (auto simp: waits_for_def)

text \<open>How a step that replaces one thread and one lock changes the views.\<close>

lemma put_back_threads [simp]:
  "sy_threads (put_back t th k l s) = (sy_threads s)[t := th]"
  "sy_locks (put_back t th k l s) = (sy_locks s)(k := l)"
  by (simp_all add: put_back_def)

lemma holds_put_back:
  "t < length (sy_threads s) \<Longrightarrow> holds (put_back t th k l s) u j m \<longleftrightarrow>
    (if u = t then (j, m) \<in> set (th_held th) else holds s u j m)"
  by (auto simp: holds_def nth_list_update)

lemma waits_put_back:
  "t < length (sy_threads s) \<Longrightarrow> waits_for (put_back t th k l s) u j \<longleftrightarrow>
    (if u = t then th_wait th \<and> (\<exists>m rest. th_todo th = (j, m) # rest) else waits_for s u j)"
  by (auto simp: waits_for_def nth_list_update)

lemma sys_inv_put_back:
  assumes "sys_inv rank s" and "t < length (sy_threads s)" and "thread_ok rank th"
    and "\<And>j. lock_view (put_back t th k l s) j"
  shows "sys_inv rank (put_back t th k l s)"
  using assms by (auto simp: sys_inv_def list_all_iff dest: subsetD [OF set_update_subset_insert])

lemma view_other:
  assumes "lock_view s j" and "j \<noteq> k" and "t < length (sy_threads s)"
    and "\<And>m. (j, m) \<in> set (th_held th) \<longleftrightarrow> (j, m) \<in> set (th_held (sy_threads s ! t))"
    and "(th_wait th \<and> (\<exists>m rest. th_todo th = (j, m) # rest))
      \<longleftrightarrow> (th_wait (sy_threads s ! t) \<and> (\<exists>m rest. th_todo (sy_threads s ! t) = (j, m) # rest))"
  shows "lock_view (put_back t th k l s) j"
proof -
  have "holds (put_back t th k l s) u j m = holds s u j m" for u m
    using assms(3,4) by (simp add: holds_put_back) (simp add: holds_def)
  moreover have "waits_for (put_back t th k l s) u j = waits_for s u j" for u
    unfolding waits_put_back [OF assms(3)] assms(5) by (simp add: waits_for_def assms(3))
  ultimately show ?thesis using assms(1,2) by (simp add: lock_view_def)
qed

lemma keys_distinct:
  fixes rank :: "string \<Rightarrow> 'r :: linorder"
  shows "sorted_wrt (<) (map rank (keys_of th)) \<Longrightarrow> distinct (keys_of th)"
  by (simp add: strict_sorted_iff distinct_map)

lemma keys_of_todo:
  fixes rank :: "string \<Rightarrow> 'r :: linorder"
  shows "th_todo th = (k, m) # rest \<Longrightarrow> sorted_wrt (<) (map rank (keys_of th)) \<Longrightarrow> (k, m') \<notin> set (th_held th)"
  using keys_distinct [of rank th] by (force simp: keys_of_def)

lemma keys_of_held:
  fixes rank :: "string \<Rightarrow> 'r :: linorder"
  shows "th_held th = (k, m) # held \<Longrightarrow> sorted_wrt (<) (map rank (keys_of th)) \<Longrightarrow> (k, m') \<notin> set held"
  using keys_distinct [of rank th] by (force simp: keys_of_def)

lemma waits_moved:
  assumes "t < length (sy_threads s)" and "th_todo (sy_threads s ! t) = (k, m) # rest"
  shows "{u. waits_for (put_back t th k l s) u k} = (if th_wait th \<and> (\<exists>m' r. th_todo th = (k, m') # r)
    then insert t {u. waits_for s u k} else {u. waits_for s u k} - {t})"
  using assms by (auto simp: waits_put_back)

lemma waits_self: "t < length (sy_threads s) \<Longrightarrow> th_todo (sy_threads s ! t) = (k, m) # rest \<Longrightarrow>
    waits_for s t k \<longleftrightarrow> th_wait (sy_threads s ! t)"
  by (auto simp: waits_for_def)

text \<open>A thread that has not acquired a lock neither reads under it nor writes.\<close>

lemma fresh_view:
  assumes "lock_view s k" and "\<And>m. (k, m) \<notin> set (th_held (sy_threads s ! t))"
  shows "t \<notin> reader_ids (sy_locks s k)" "rw_writer (sy_locks s k) \<noteq> Some t" "read_depth (sy_locks s k) t = 0"
proof -
  show a: "t \<notin> reader_ids (sy_locks s k)" and "rw_writer (sy_locks s k) \<noteq> Some t"
    using assms by (auto simp: lock_view_def Let_def holds_def)
  show "read_depth (sy_locks s k) t = 0"
    using a read_depth_pos [of "sy_locks s k" t] assms(1) by (auto simp: lock_view_def Let_def)
qed

lemma read_depth_set:
  "read_depth (l\<lparr>rw_readers := od_set t n (rw_readers l)\<rparr>) u = (if u = t then n else read_depth l u)"
  by (simp add: read_depth_def)

lemma read_depth_pop:
  "read_depth (l\<lparr>rw_readers := od_pop t (rw_readers l)\<rparr>) u = (if u = t then 0 else read_depth l u)"
  by (simp add: read_depth_def)

lemma read_depth_frame [simp]:
  "read_depth (l\<lparr>rw_writer := w\<rparr>) u = read_depth l u" "read_depth (l\<lparr>rw_depth := d\<rparr>) u = read_depth l u"
  "read_depth (l\<lparr>rw_waiting := n\<rparr>) u = read_depth l u"
  "reader_ids (l\<lparr>rw_writer := w\<rparr>) = reader_ids l" "reader_ids (l\<lparr>rw_depth := d\<rparr>) = reader_ids l"
  "reader_ids (l\<lparr>rw_waiting := n\<rparr>) = reader_ids l"
  by (simp_all add: read_depth_def reader_ids_def)

lemma view_acquired:
  assumes view: "lock_view s k" and t: "t < length (sy_threads s)"
    and th: "th_todo (sy_threads s ! t) = (k, m) # rest" and fresh: "\<And>m. (k, m) \<notin> set (th_held (sy_threads s ! t))"
    and w: "th_wait (sy_threads s ! t) \<Longrightarrow> m = Exclusive"
    and acq: "acquire_next t k m (th_wait (sy_threads s ! t)) (sy_locks s k) = (Returns b, l)"
  shows "lock_view (put_back t \<lparr>th_todo = rest, th_held = (k, m) # th_held (sy_threads s ! t), th_wait = False\<rparr> k l s) k"
proof -
  let ?l = "sy_locks s k"
  let ?s' = "put_back t \<lparr>th_todo = rest, th_held = (k, m) # th_held (sy_threads s ! t), th_wait = False\<rparr> k l s"
  note f = fresh_view [OF view fresh]
  have inv: "rw_inv ?l" and rd: "reader_ids ?l = {u. holds s u k Shared}" "\<forall>u \<in> reader_ids ?l. read_depth ?l u = 1"
    and wr: "\<And>u. rw_writer ?l = Some u \<longleftrightarrow> holds s u k Exclusive" and dp: "rw_depth ?l \<le> 1"
    and wt: "rw_waiting ?l = card {u. waits_for s u k}"
    using view by (simp_all add: lock_view_def Let_def)
  have held: "holds ?s' u k m' \<longleftrightarrow> (if u = t then m' = m else holds s u k m')" for u m'
    using t fresh by (simp add: holds_put_back)
  have waits: "{u. waits_for ?s' u k} = {u. waits_for s u k} - {t}"
    using waits_moved [OF t th, of "\<lparr>th_todo = rest, th_held = (k, m) # th_held (sy_threads s ! t), th_wait = False\<rparr>" l] by simp
  have self: "waits_for s t k = th_wait (sy_threads s ! t)" by (rule waits_self [OF t th])
  have card': "card {u. waits_for ?s' u k} = rw_waiting ?l - (if th_wait (sy_threads s ! t) then 1 else 0)"
    using self wt finite_waits [of s k] unfolding waits by (auto simp: card_Diff_singleton)
  show ?thesis
  proof (cases m)
    case Shared
    then have nw: "\<not> th_wait (sy_threads s ! t)" using w by auto
    have acq': "acquire_read t ?l = (Returns b, l)" using acq Shared by (simp add: acquire_next_def)
    then have l: "l = ?l\<lparr>rw_readers := od_set t 1 (rw_readers ?l)\<rparr>" and nowriter: "rw_writer ?l = None"
      using f by (auto simp: acquire_read_def already_held_def Let_def split: if_splits)
    have "rw_inv l" using acquire_read_inv [OF inv, of t] acq' by simp
    then show ?thesis
      using rd wr dp card' nw nowriter held Shared f(1)
      by (auto simp: lock_view_def Let_def l reader_ids_set read_depth_set)
  next
    case Exclusive
    have free: "rw_writer ?l = None" "reader_ids ?l = {}"
      and l: "l = ?l\<lparr>rw_writer := Some t, rw_depth := 1, rw_waiting := rw_waiting ?l - (if th_wait (sy_threads s ! t) then 1 else 0)\<rparr>"
      using acq Exclusive f by (auto simp: acquire_next_def acquire_write_def wake_write_def no_readers split: if_splits)
    have "rw_inv l"
      using acq Exclusive acquire_write_inv [OF inv, of t] wake_write_inv [OF inv, of t]
      by (auto simp: acquire_next_def split: if_splits)
    moreover have "reader_ids l = {}" "rw_writer l = Some t" "rw_depth l = 1"
      using free(2) by (simp_all add: l)
    moreover have "{u. holds ?s' u k Shared} = {}"
      using held Exclusive rd free by auto
    moreover have "rw_writer l = Some u \<longleftrightarrow> holds ?s' u k Exclusive" for u
      using held Exclusive wr [of u] free(1) by (auto simp: l)
    ultimately show ?thesis
      using card' by (auto simp: lock_view_def Let_def l)
  qed
qed

lemma view_enqueued:
  assumes view: "lock_view s k" and t: "t < length (sy_threads s)"
    and th: "th_todo (sy_threads s ! t) = (k, Exclusive) # rest" and w: "\<not> th_wait (sy_threads s ! t)"
    and acq: "acquire_write t (sy_locks s k) = (Waits, l)"
  shows "lock_view (put_back t ((sy_threads s ! t)\<lparr>th_wait := True\<rparr>) k l s) k"
proof -
  let ?s' = "put_back t ((sy_threads s ! t)\<lparr>th_wait := True\<rparr>) k l s"
  have l: "l = (sy_locks s k)\<lparr>rw_waiting := rw_waiting (sy_locks s k) + 1\<rparr>"
    using acq by (auto simp: acquire_write_def split: if_splits)
  have "holds ?s' u k m = holds s u k m" for u m
    using t by (simp add: holds_put_back) (simp add: holds_def)
  moreover have "card {u. waits_for ?s' u k} = Suc (card {u. waits_for s u k})"
    using waits_moved [OF t th, of "(sy_threads s ! t)\<lparr>th_wait := True\<rparr>" l] waits_self [OF t th] w th finite_waits [of s k]
    by simp
  ultimately show ?thesis
    using view acquire_write_inv [of "sy_locks s k" t] acq by (auto simp: lock_view_def Let_def l)
qed

lemma view_released:
  assumes view: "lock_view s k" and t: "t < length (sy_threads s)" and todo: "th_todo (sy_threads s ! t) = []"
    and th: "th_held (sy_threads s ! t) = (k, m) # held" and fresh: "\<And>m. (k, m) \<notin> set held"
    and rel: "release_last t m (sy_locks s k) = (out, l)"
  shows "\<exists>b. out = Returns b"
    and "lock_view (put_back t ((sy_threads s ! t)\<lparr>th_held := held\<rparr>) k l s) k"
proof -
  let ?l = "sy_locks s k"
  let ?s' = "put_back t ((sy_threads s ! t)\<lparr>th_held := held\<rparr>) k l s"
  have inv: "rw_inv ?l" and rd: "reader_ids ?l = {u. holds s u k Shared}" "\<forall>u \<in> reader_ids ?l. read_depth ?l u = 1"
    and wr: "\<And>u. rw_writer ?l = Some u \<longleftrightarrow> holds s u k Exclusive" and dp: "rw_depth ?l \<le> 1"
    and wt: "rw_waiting ?l = card {u. waits_for s u k}"
    using view by (simp_all add: lock_view_def Let_def)
  have held': "holds ?s' u k m' \<longleftrightarrow> u \<noteq> t \<and> holds s u k m'" for u m'
    using t fresh by (simp add: holds_put_back)
  have self: "holds s t k m' \<longleftrightarrow> m' = m" for m' using t th fresh by (auto simp: holds_def)
  have waits: "waits_for ?s' u k = waits_for s u k" for u
    using t todo by (simp add: waits_put_back) (simp add: waits_for_def)
  have "(\<exists>b. out = Returns b) \<and> lock_view ?s' k"
  proof (cases m)
    case Shared
    then have d: "read_depth ?l t = 1" using rd self by auto
    have rel': "release_read t ?l = (out, l)" using rel Shared by (simp add: release_last_def)
    then have l: "out = Returns True" "l = ?l\<lparr>rw_readers := od_pop t (rw_readers ?l)\<rparr>"
      using d by (auto simp: release_read_def Let_def)
    have "rw_inv l" using release_read_inv [OF inv, of t] rel' by simp
    then show ?thesis
      using l rd wr dp wt held' waits self Shared
      by (auto simp: lock_view_def Let_def reader_ids_pop read_depth_pop)
  next
    case Exclusive
    then have wt': "rw_writer ?l = Some t" using wr self by simp
    have rel': "release_write t ?l = (out, l)" using rel Exclusive by (simp add: release_last_def)
    have "rw_depth ?l = 1" using dp wt' inv by (auto simp: rw_inv_def)
    then have l: "out = Returns True" "l = ?l\<lparr>rw_depth := 0, rw_writer := None\<rparr>"
      using rel' wt' by (auto simp: release_write_def)
    have "rw_inv l" using release_write_inv [OF inv, of t] rel' by simp
    moreover have "\<not> holds ?s' u k Exclusive" for u
      using held' wr [of u] wt' by auto
    moreover have "holds ?s' u k Shared = holds s u k Shared" for u
      using held' self Exclusive by auto
    ultimately show ?thesis
      using l rd wt waits by (auto simp: lock_view_def Let_def)
  qed
  then show "\<exists>b. out = Returns b" and "lock_view ?s' k" by auto
qed

section \<open>Steps and progress\<close>

lemma thread_step_acquire:
  "t < length (sy_threads s) \<Longrightarrow> th_todo (sy_threads s ! t) = (k, m) # rest \<Longrightarrow>
    thread_step t s = (case acquire_next t k m (th_wait (sy_threads s ! t)) (sy_locks s k) of
        (Returns b, l) \<Rightarrow> Some (put_back t \<lparr>th_todo = rest, th_held = (k, m) # th_held (sy_threads s ! t), th_wait = False\<rparr> k l s)
      | (Waits, l) \<Rightarrow> if m = Exclusive \<and> \<not> th_wait (sy_threads s ! t)
          then Some (put_back t ((sy_threads s ! t)\<lparr>th_wait := True\<rparr>) k l s) else None
      | (Fails, l) \<Rightarrow> None)"
  by (simp add: thread_step_def Let_def)

lemma thread_step_release:
  "t < length (sy_threads s) \<Longrightarrow> th_todo (sy_threads s ! t) = [] \<Longrightarrow> th_held (sy_threads s ! t) = (k, m) # held \<Longrightarrow>
    thread_step t s = (case release_last t m (sy_locks s k) of
        (Returns b, l) \<Rightarrow> Some (put_back t ((sy_threads s ! t)\<lparr>th_held := held\<rparr>) k l s) | (_, l) \<Rightarrow> None)"
  by (simp add: thread_step_def Let_def)

text \<open>Acquisitions count three, two once waiting, and a held lock one.\<close>

definition thread_weight :: "thread \<Rightarrow> nat" where
  "thread_weight th = 3 * length (th_todo th) + length (th_held th) - (if th_wait th then 1 else 0)"

definition sys_weight :: "lock_sys \<Rightarrow> nat" where
  "sys_weight s = sum_list (map thread_weight (sy_threads s))"

lemma sum_list_less:
  "t < length ths \<Longrightarrow> f th < f (ths ! t) \<Longrightarrow> sum_list (map f (ths[t := th])) < sum_list (map (f :: thread \<Rightarrow> nat) ths)"
proof (induction ths arbitrary: t)
  case (Cons x xs)
  then show ?case by (cases t) auto
qed simp

lemma weight_put_back:
  "t < length (sy_threads s) \<Longrightarrow> thread_weight th < thread_weight (sy_threads s ! t) \<Longrightarrow>
    sys_weight (put_back t th k l s) < sys_weight s"
  by (simp add: sys_weight_def sum_list_less)

lemma thread_step_inv:
  fixes rank :: "string \<Rightarrow> 'r :: linorder"
  assumes inv: "sys_inv rank s" and step: "thread_step t s = Some s'"
  shows "sys_inv rank s' \<and> sys_weight s' < sys_weight s"
proof -
  have t: "t < length (sy_threads s)" using step by (auto simp: thread_step_def split: if_splits)
  let ?th = "sy_threads s ! t"
  have ok: "thread_ok rank ?th" and view: "\<And>k. lock_view s k"
    using inv t by (auto simp: sys_inv_def list_all_length)
  show ?thesis
  proof (cases "th_todo ?th")
    case (Cons a rest)
    obtain k m where a: "a = (k, m)" by (cases a)
    have todo: "th_todo ?th = (k, m) # rest" using Cons a by simp
    have fresh: "(k, m') \<notin> set (th_held ?th)" for m'
      using keys_of_todo [OF todo] ok by (auto simp: thread_ok_def)
    have w: "th_wait ?th \<Longrightarrow> m = Exclusive" using ok todo by (auto simp: thread_ok_def)
    obtain out l where acq: "acquire_next t k m (th_wait ?th) (sy_locks s k) = (out, l)" by fastforce
    show ?thesis
    proof (cases out)
      case (Returns b)
      let ?new = "\<lparr>th_todo = rest, th_held = (k, m) # th_held ?th, th_wait = False\<rparr>"
      have s': "s' = put_back t ?new k l s"
        using step thread_step_acquire [OF t todo] acq Returns by simp
      have "thread_ok rank ?new" using ok todo by (simp add: thread_ok_def keys_of_def)
      moreover have "lock_view (put_back t ?new k l s) j" for j
      proof (cases "j = k")
        case True
        with view_acquired [OF view t todo fresh w, of b l] acq Returns show ?thesis by simp
      next
        case False
        then show ?thesis by (intro view_other [OF view _ t]) (auto simp: todo)
      qed
      ultimately have "sys_inv rank s'" unfolding s' by (rule sys_inv_put_back [OF inv t])
      moreover have "thread_weight ?new < thread_weight ?th" using todo by (simp add: thread_weight_def)
      ultimately show ?thesis using weight_put_back [OF t] s' by blast
    next
      case Waits
      then have m: "m = Exclusive" and nw: "\<not> th_wait ?th" and s': "s' = put_back t (?th\<lparr>th_wait := True\<rparr>) k l s"
        using step thread_step_acquire [OF t todo] acq by (auto split: if_splits)
      have "thread_ok rank (?th\<lparr>th_wait := True\<rparr>)" using ok todo m by (simp add: thread_ok_def keys_of_def)
      moreover have "lock_view (put_back t (?th\<lparr>th_wait := True\<rparr>) k l s) j" for j
      proof (cases "j = k")
        case True
        with view_enqueued [OF view t _ nw, of k rest l] todo acq Waits m nw show ?thesis
          by (simp add: acquire_next_def)
      next
        case False
        then show ?thesis by (intro view_other [OF view _ t]) (auto simp: todo)
      qed
      ultimately have "sys_inv rank s'" unfolding s' by (rule sys_inv_put_back [OF inv t])
      moreover have "thread_weight (?th\<lparr>th_wait := True\<rparr>) < thread_weight ?th"
        using todo nw by (simp add: thread_weight_def)
      ultimately show ?thesis using weight_put_back [OF t] s' by blast
    qed (use step thread_step_acquire [OF t todo] acq in auto)
  next
    case Nil
    show ?thesis
    proof (cases "th_held ?th")
      case (Cons a held)
      obtain k m where a: "a = (k, m)" by (cases a)
      have held: "th_held ?th = (k, m) # held" using Cons a by simp
      have fresh: "(k, m') \<notin> set held" for m'
        using keys_of_held [OF held] ok by (auto simp: thread_ok_def)
      have nw: "\<not> th_wait ?th" using ok Nil by (auto simp: thread_ok_def)
      obtain out l where rel: "release_last t m (sy_locks s k) = (out, l)" by fastforce
      note r = view_released [OF view t Nil held fresh rel]
      then have s': "s' = put_back t (?th\<lparr>th_held := held\<rparr>) k l s"
        using step thread_step_release [OF t Nil held] rel by auto
      have "thread_ok rank (?th\<lparr>th_held := held\<rparr>)"
        using ok Nil held by (simp add: thread_ok_def keys_of_def sorted_wrt_append)
      moreover have "lock_view (put_back t (?th\<lparr>th_held := held\<rparr>) k l s) j" for j
      proof (cases "j = k")
        case True
        with r(2) show ?thesis by simp
      next
        case False
        then show ?thesis by (intro view_other [OF view _ t]) (auto simp: Nil held)
      qed
      ultimately have "sys_inv rank s'" unfolding s' by (rule sys_inv_put_back [OF inv t])
      moreover have "thread_weight (?th\<lparr>th_held := held\<rparr>) < thread_weight ?th"
        using Nil held nw by (simp add: thread_weight_def)
      ultimately show ?thesis using weight_put_back [OF t] s' by blast
    qed (use step Nil t in \<open>simp add: thread_step_def Let_def\<close>)
  qed
qed

lemma start_views [simp]: "\<not> holds (start_sys plans) t k m" "\<not> waits_for (start_sys plans) t k"
  by (simp_all add: holds_def waits_for_def start_sys_def cong: conj_cong)

lemma start_inv:
  assumes "\<forall>p \<in> set plans. sorted_wrt (<) (map (rank :: string \<Rightarrow> 'r :: linorder) (map fst p))"
  shows "sys_inv rank (start_sys plans)"
proof -
  have "lock_view (start_sys plans) k" for k
    using rw_inv_new by (simp add: lock_view_def start_sys_def [of plans, THEN arg_cong [of _ _ sy_locks]])
      (simp add: new_rw_lock_def reader_ids_def)
  moreover have "list_all (thread_ok rank) (sy_threads (start_sys plans))"
    using assms by (auto simp: start_sys_def list_all_iff thread_ok_def keys_of_def)
  ultimately show ?thesis by (simp add: sys_inv_def)
qed

lemma reach_inv:
  assumes "lock_reach s0 s" and "sys_inv rank s0"
  shows "sys_inv rank s \<and> sys_weight s \<le> sys_weight s0"
  using assms by induction (auto dest: thread_step_inv)

text \<open>A thread that cannot take a step has finished, or waits for a lock it does not hold.\<close>

definition blocked_on :: "lock_sys \<Rightarrow> tid \<Rightarrow> string \<Rightarrow> bool" where
  "blocked_on s t k \<longleftrightarrow> t < length (sy_threads s) \<and> thread_step t s = None
     \<and> (\<exists>m rest. th_todo (sy_threads s ! t) = (k, m) # rest)"

lemma stuck_thread:
  fixes rank :: "string \<Rightarrow> 'r :: linorder"
  assumes inv: "sys_inv rank s" and t: "t < length (sy_threads s)" and stuck: "thread_step t s = None"
    and unfinished: "\<not> finished (sy_threads s ! t)"
  shows "\<exists>k. blocked_on s t k"
proof (cases "th_todo (sy_threads s ! t)")
  case (Cons a rest)
  with t stuck show ?thesis by (cases a) (auto simp: blocked_on_def)
next
  case Nil
  have ok: "thread_ok rank (sy_threads s ! t)" and view: "\<And>k. lock_view s k"
    using inv t by (auto simp: sys_inv_def list_all_length)
  obtain k m held where held: "th_held (sy_threads s ! t) = (k, m) # held"
    using unfinished Nil by (cases "th_held (sy_threads s ! t)") (auto simp: finished_def)
  have fresh: "(k, m') \<notin> set held" for m'
    using keys_of_held [OF held] ok by (auto simp: thread_ok_def)
  obtain out l where rel: "release_last t m (sy_locks s k) = (out, l)" by fastforce
  from view_released(1) [OF view t Nil held fresh rel] obtain b where "out = Returns b" by blast
  with thread_step_release [OF t Nil held] rel stuck show ?thesis by simp
qed

lemma blocked_reason:
  fixes rank :: "string \<Rightarrow> 'r :: linorder"
  assumes inv: "sys_inv rank s" and b: "blocked_on s t k"
  shows "(\<exists>u m. holds s u k m) \<or> (\<exists>u. waits_for s u k)"
proof -
  obtain m rest where t: "t < length (sy_threads s)" and stuck: "thread_step t s = None"
    and todo: "th_todo (sy_threads s ! t) = (k, m) # rest"
    using b by (auto simp: blocked_on_def)
  have ok: "thread_ok rank (sy_threads s ! t)" and view: "lock_view s k"
    using inv t by (auto simp: sys_inv_def list_all_length)
  have fresh: "(k, m') \<notin> set (th_held (sy_threads s ! t))" for m'
    using keys_of_todo [OF todo] ok by (auto simp: thread_ok_def)
  note f = fresh_view [OF view fresh]
  show ?thesis
  proof (rule ccontr)
    assume none: "\<not> ?thesis"
    then have free: "reader_ids (sy_locks s k) = {}" "rw_writer (sy_locks s k) = None" "rw_waiting (sy_locks s k) = 0"
      using view by (auto simp: lock_view_def Let_def)
    have "\<not> th_wait (sy_threads s ! t)" using none waits_self [OF t todo] by auto
    then have "\<exists>b l. acquire_next t k m (th_wait (sy_threads s ! t)) (sy_locks s k) = (Returns b, l)"
      using free f by (cases m) (auto simp: acquire_next_def acquire_read_def acquire_write_def Let_def no_readers)
    with stuck thread_step_acquire [OF t todo] show False by auto
  qed
qed

lemma waiter_not_stuck:
  assumes "lock_view s k" and w: "waits_for s u k" and free: "\<And>v m. \<not> holds s v k m"
    and m: "thread_ok rank (sy_threads s ! u)"
  shows "thread_step u s \<noteq> None"
proof -
  obtain rest where u: "u < length (sy_threads s)" "th_wait (sy_threads s ! u)"
    and todo: "th_todo (sy_threads s ! u) = (k, Exclusive) # rest"
    using w m by (auto simp: waits_for_def thread_ok_def)
  have "reader_ids (sy_locks s k) = {}" "rw_writer (sy_locks s k) = None"
    using assms(1) free by (auto simp: lock_view_def Let_def)
  then have "\<exists>l. acquire_next u k Exclusive True (sy_locks s k) = (Returns True, l)"
    by (simp add: acquire_next_def wake_write_def no_readers)
  with thread_step_acquire [OF u(1) todo] u(2) show ?thesis by auto
qed

text \<open>The blocked thread whose lock comes last in the order shows that some thread can step.\<close>

lemma some_thread_steps:
  fixes rank :: "string \<Rightarrow> 'r :: linorder"
  assumes inv: "sys_inv rank s" and unfinished: "\<exists>th \<in> set (sy_threads s). \<not> finished th"
  shows "\<exists>t s'. thread_step t s = Some s'"
proof (rule ccontr)
  assume none: "\<not> ?thesis"
  then have stuck: "thread_step t s = None" for t by (cases "thread_step t s") auto
  define B where "B = {k. \<exists>t. blocked_on s t k}"
  have "B \<subseteq> (\<lambda>t. fst (hd (th_todo (sy_threads s ! t)))) ` {..<length (sy_threads s)}"
    by (force simp: B_def blocked_on_def image_iff)
  then have fin: "finite B" by (rule finite_subset) simp
  obtain t0 where "t0 < length (sy_threads s)" "\<not> finished (sy_threads s ! t0)"
    using unfinished by (auto simp: in_set_conv_nth)
  with stuck_thread [OF inv _ stuck] have "B \<noteq> {}" unfolding B_def by blast
  with fin have "Max (rank ` B) \<in> rank ` B" by simp
  then obtain k where k: "k \<in> B" and top: "rank k = Max (rank ` B)" by auto
  have max: "rank j \<le> rank k" if "j \<in> B" for j
    unfolding top using fin that by simp
  have no_holder: "\<not> holds s v k m" for v m
  proof
    assume h: "holds s v k m"
    then have v: "v < length (sy_threads s)" "\<not> finished (sy_threads s ! v)"
      by (auto simp: holds_def finished_def)
    then obtain j where j: "blocked_on s v j" using stuck_thread [OF inv _ stuck] by blast
    have "thread_ok rank (sy_threads s ! v)" using inv v(1) by (simp add: sys_inv_def list_all_length)
    then have "rank k < rank j"
      using h j by (fastforce simp: thread_ok_def keys_of_def holds_def blocked_on_def sorted_wrt_append)
    moreover have "rank j \<le> rank k" using max [of j] j unfolding B_def by blast
    ultimately show False by simp
  qed
  obtain t where t: "blocked_on s t k" using k by (auto simp: B_def)
  have view: "lock_view s k" using inv by (simp add: sys_inv_def)
  obtain u where u: "waits_for s u k" using blocked_reason [OF inv t] no_holder by blast
  then have "thread_ok rank (sy_threads s ! u)" using inv by (auto simp: sys_inv_def list_all_length waits_for_def)
  from waiter_not_stuck [OF view u no_holder this] stuck show False by simp
qed

section \<open>The plans respect the order\<close>

text \<open>The global lock comes first, then the scopes by name.\<close>

definition scope_rank :: "string set \<Rightarrow> (string \<Rightarrow> string) \<Rightarrow> string \<Rightarrow> string option" where
  "scope_rank scopes dig k = (if k = ''global'' then None else Some (inv_into scopes dig k))"

text \<open>The digest tells the scopes in use apart, and from the key of the global lock.\<close>

definition digest_ok :: "string set \<Rightarrow> (string \<Rightarrow> string) \<Rightarrow> bool" where
  "digest_ok scopes dig \<longleftrightarrow> inj_on dig scopes \<and> ''global'' \<notin> dig ` scopes"

lemma scope_rank_key:
  "digest_ok scopes dig \<Longrightarrow> set_option (map_option py_strip sc) \<subseteq> scopes \<Longrightarrow>
    scope_rank scopes dig (lifecycle_scope_key dig sc) = map_option py_strip sc"
  by (cases sc) (force simp: scope_rank_def lifecycle_scope_key_def digest_ok_def)+

lemma ordered_scopes_sorted: "sorted_wrt (<) (ordered_scopes scopes)"
  by (simp add: ordered_scopes_def strict_sorted_iff)

lemma ordered_scopes_trimmed: "s \<in> set (ordered_scopes scopes) \<Longrightarrow> py_strip s = s"
  by (auto simp: ordered_scopes_def)

text \<open>A plan that one of the context managers of the module runs, for scopes of a given set.\<close>

definition manager_plan :: "string set \<Rightarrow> (string \<Rightarrow> string) \<Rightarrow> plan \<Rightarrow> bool" where
  "manager_plan scopes dig p \<longleftrightarrow>
     (\<exists>sc. set_option (map_option py_strip sc) \<subseteq> scopes \<and> p = lifecycle_read_lock dig sc)
     \<or> (\<exists>scs. set (ordered_scopes scs) \<subseteq> scopes \<and> p = lifecycle_read_locks dig scs)
     \<or> (\<exists>sc. set_option (map_option py_strip sc) \<subseteq> scopes \<and> p = lifecycle_write_lock dig sc)"

lemma manager_plan_sorted:
  assumes "digest_ok scopes dig" and "manager_plan scopes dig p"
  shows "sorted_wrt (<) (map (scope_rank scopes dig) (map fst p))"
proof -
  note r = scope_rank_key [OF assms(1)]
  have one: "scope_rank scopes dig (lifecycle_scope_key dig None) = None" by (simp add: r)
  have many: "map (scope_rank scopes dig) (map fst (lifecycle_read_locks dig scs)) = None # map Some (ordered_scopes scs)"
    if "set (ordered_scopes scs) \<subseteq> scopes" for scs
  proof -
    have "scope_rank scopes dig (lifecycle_scope_key dig (Some x)) = Some x" if "x \<in> set (ordered_scopes scs)" for x
      using r [of "Some x"] that \<open>set (ordered_scopes scs) \<subseteq> scopes\<close> by (auto simp: ordered_scopes_trimmed)
    then show ?thesis by (simp add: lifecycle_read_locks_def one)
  qed
  have "sorted_wrt (<) (None # map Some (ordered_scopes scs))" for scs
    using ordered_scopes_sorted [of scs] by (auto simp: sorted_wrt_map)
  then show ?thesis
    using assms(2) many
    by (auto simp: manager_plan_def lifecycle_read_lock_def lifecycle_write_lock_def one r split: option.splits)
qed

lemma manager_global_first:
  assumes "manager_plan scopes dig p"
  shows "\<exists>m rest. p = (''global'', m) # rest"
  using assms by (auto simp: manager_plan_def lifecycle_read_lock_def lifecycle_read_locks_def
      lifecycle_write_lock_def lifecycle_scope_key_def split: option.splits)

text \<open>A thread acquires the global lock first and releases it last.\<close>

definition global_first :: "thread \<Rightarrow> bool" where
  "global_first th \<longleftrightarrow> (case rev (th_held th) @ th_todo th of [] \<Rightarrow> True | (k, m) # rest \<Rightarrow> k = ''global'')"

lemma global_first_release:
  "global_first th \<Longrightarrow> th_held th = a # held \<Longrightarrow> th_todo th = [] \<Longrightarrow> global_first (th\<lparr>th_held := held\<rparr>)"
  by (auto simp: global_first_def hd_append split: list.splits)

lemma step_global_first:
  assumes "thread_step t s = Some s'" and "list_all global_first (sy_threads s)"
  shows "list_all global_first (sy_threads s')"
proof -
  have t: "t < length (sy_threads s)" using assms(1) by (auto simp: thread_step_def split: if_splits)
  let ?th = "sy_threads s ! t"
  have g: "global_first ?th" using assms(2) t by (simp add: list_all_length)
  have upd: "list_all global_first ((sy_threads s)[t := th])" if "global_first th" for th
    using assms(2) that by (auto simp: list_all_iff dest: subsetD [OF set_update_subset_insert])
  show ?thesis
  proof (cases "th_todo ?th")
    case (Cons a rest)
    obtain k m where todo: "th_todo ?th = (k, m) # rest" using Cons by (cases a) simp
    have "global_first \<lparr>th_todo = rest, th_held = (k, m) # th_held ?th, th_wait = False\<rparr>"
      "global_first (?th\<lparr>th_wait := True\<rparr>)"
      using g todo by (simp_all add: global_first_def)
    with upd assms(1) thread_step_acquire [OF t todo] show ?thesis
      by (auto split: prod.splits lock_outcome.splits if_splits)
  next
    case Nil
    with assms(1) t obtain k m held where held: "th_held ?th = (k, m) # held"
      by (cases "th_held ?th") (auto simp: thread_step_def Let_def)
    with upd [OF global_first_release [OF g held Nil]] assms(1) thread_step_release [OF t Nil held] show ?thesis
      by (auto split: prod.splits lock_outcome.splits)
  qed
qed

lemma reach_global_first:
  "lock_reach s0 s \<Longrightarrow> list_all global_first (sy_threads s0) \<Longrightarrow> list_all global_first (sy_threads s)"
  by (induction rule: lock_reach.induct) (auto intro: step_global_first)

lemma holder_holds_global:
  assumes "global_first th" and "(k, m) \<in> set (th_held th)"
  shows "\<exists>m. (''global'', m) \<in> set (th_held th)"
proof -
  obtain j n where j: "th_held th \<noteq> []" "hd (rev (th_held th)) = (j, n)" using assms(2) by fastforce
  then have "rev (th_held th) @ th_todo th = (j, n) # (tl (rev (th_held th)) @ th_todo th)"
    by (metis append_Cons hd_Cons_tl rev_is_Nil_conv)
  with assms(1) have "j = ''global''" by (simp add: global_first_def)
  with j show ?thesis by (metis hd_in_set rev_is_Nil_conv set_rev)
qed

definition tag_digest :: "string \<Rightarrow> string" where
  "tag_digest s = CHR ''k'' # s"

definition two_plans :: "plan list" where
  "two_plans = [lifecycle_write_lock tag_digest (Some ''kb1''), lifecycle_read_locks tag_digest ['' kb2'', ''kb1'']]"

lemma tag_digest: "digest_ok UNIV tag_digest" "list_all (manager_plan UNIV tag_digest) two_plans"
  by (auto simp: digest_ok_def tag_digest_def inj_def two_plans_def manager_plan_def)

text \<open>The state after a schedule, as long as every chosen thread can step.\<close>

fun run_schedule :: "lock_sys \<Rightarrow> tid list \<Rightarrow> lock_sys option" where
  "run_schedule s [] = Some s"
| "run_schedule s (t # ts) = (case thread_step t s of None \<Rightarrow> None | Some s' \<Rightarrow> run_schedule s' ts)"

lemma run_schedule_reach: "run_schedule s ts = Some s' \<Longrightarrow> lock_reach s0 s \<Longrightarrow> lock_reach s0 s'"
  by (induction ts arbitrary: s) (auto intro: lock_reach.step split: option.splits)

definition writer_inside :: lock_sys where
  "writer_inside = the (run_schedule (start_sys two_plans) [0, 1, 0])"

lemma writer_inside:
  "lock_reach (start_sys two_plans) writer_inside" "holds writer_inside 0 ''kkb1'' Exclusive"
  "thread_step 0 writer_inside \<noteq> None"
proof -
  have "run_schedule (start_sys two_plans) [0, 1, 0] \<noteq> None"
    "holds (the (run_schedule (start_sys two_plans) [0, 1, 0])) 0 ''kkb1'' Exclusive"
    "thread_step 0 (the (run_schedule (start_sys two_plans) [0, 1, 0])) \<noteq> None"
    by (simp_all add: two_plans_def lifecycle_write_lock_def lifecycle_read_locks_def lifecycle_scope_key_def
        tag_digest_def start_sys_def thread_step_def acquire_next_def acquire_read_def acquire_write_def
        already_held_def read_depth_def new_rw_lock_def put_back_def holds_def Let_def release_last_def
        release_write_def py_strip_def py_lstrip_def py_rstrip_def py_isspace_def)
  then show "lock_reach (start_sys two_plans) writer_inside" "holds writer_inside 0 ''kkb1'' Exclusive"
    "thread_step 0 writer_inside \<noteq> None"
    using run_schedule_reach [OF _ lock_reach.start] unfolding writer_inside_def by fastforce+
qed

section \<open>The properties\<close>

lemma managers_inv:
  assumes "digest_ok scopes dig" and "list_all (manager_plan scopes dig) plans" and "lock_reach (start_sys plans) s"
  shows "sys_inv (scope_rank scopes dig) s" and "list_all global_first (sy_threads s)"
proof -
  have "sys_inv (scope_rank scopes dig) (start_sys plans)"
    using assms(2) manager_plan_sorted [OF assms(1)] by (intro start_inv) (auto simp: list_all_iff)
  with reach_inv [OF assms(3)] show "sys_inv (scope_rank scopes dig) s" by blast
  have "list_all global_first (sy_threads (start_sys plans))"
    using assms(2) by (auto simp: start_sys_def list_all_iff global_first_def dest!: manager_global_first)
  with reach_global_first [OF assms(3)] show "list_all global_first (sy_threads s)" by blast
qed

text \<open>
  Claim C18: mutual exclusion. Whatever the interleaving of threads in the lifecycle context
  managers, a thread that holds a lock exclusively is the only holder of it; and one that
  holds the global lock exclusively (a restore, a global deletion) is the only thread that
  holds any lifecycle lock at all, of any scope.
\<close>

theorem lifecycle_writers_exclude:
  assumes "digest_ok scopes dig" and "list_all (manager_plan scopes dig) plans" and "lock_reach (start_sys plans) s"
    and "holds s t k Exclusive" and "holds s u j m" and "j = k \<or> k = ''global''"
  shows "u = t"
proof -
  note inv = managers_inv [OF assms(1-3)]
  obtain m' where h: "holds s u k m'"
  proof (cases "j = k")
    case True
    with assms(5) that show ?thesis by blast
  next
    case False
    then have "k = ''global''" using assms(6) by simp
    moreover have "global_first (sy_threads s ! u)" using inv(2) assms(5) by (simp add: list_all_length holds_def)
    ultimately show ?thesis using holder_holds_global assms(5) that by (fastforce simp: holds_def)
  qed
  have view: "lock_view s k" using inv(1) by (simp add: sys_inv_def)
  then have "rw_writer (sy_locks s k) = Some t" and rw: "rw_inv (sy_locks s k)"
    using assms(4) by (auto simp: lock_view_def Let_def)
  then have readers: "reader_ids (sy_locks s k) \<subseteq> {t}" by (auto simp: rw_inv_def)
  show ?thesis
  proof (cases m')
    case Shared
    with h view readers show ?thesis by (auto simp: lock_view_def Let_def)
  next
    case Exclusive
    with h view \<open>rw_writer (sy_locks s k) = Some t\<close> show ?thesis by (auto simp: lock_view_def Let_def)
  qed
qed

theorem lifecycle_writers_exclude_witness:
  "holds writer_inside 0 ''kkb1'' Exclusive \<and> \<not> (\<exists>u m. holds writer_inside u ''kkb1'' m \<and> u \<noteq> 0)"
  using lifecycle_writers_exclude [OF tag_digest writer_inside(1,2)] writer_inside(2) by blast

text \<open>
  Claim C27: no deadlock. The threads in the lifecycle context managers never block each other
  for ever: from every reachable state in which some of them has not finished, some thread can
  step, and every step lowers the weight of the system, so any schedule that keeps choosing a
  thread that can step ends with all of them finished.
\<close>

theorem lifecycle_locks_never_deadlock:
  assumes "digest_ok scopes dig" and "list_all (manager_plan scopes dig) plans" and "lock_reach (start_sys plans) s"
   
  shows "(list_all finished (sy_threads s) \<or> (\<exists>t s'. thread_step t s = Some s'))
    \<and> (\<forall>t s'. thread_step t s = Some s' \<longrightarrow> sys_weight s' < sys_weight s)"
  using some_thread_steps [OF managers_inv(1) [OF assms]] thread_step_inv [OF managers_inv(1) [OF assms]]
  by (auto simp: list_all_iff)

theorem lifecycle_locks_never_deadlock_witness:
  "\<exists>s'. thread_step 0 writer_inside = Some s' \<and> sys_weight s' < sys_weight writer_inside"
proof -
  obtain s' where s': "thread_step 0 writer_inside = Some s'" using writer_inside(3) by blast
  with lifecycle_locks_never_deadlock [OF tag_digest writer_inside(1)] show ?thesis by blast
qed

end
