(* ===== verification/Lifecycle_Generation.thy ===== *)
theory Lifecycle_Generation
  imports Py_Json
begin

text \<open>
  The lifecycle generation of \<open>app/utils/index_lock.py\<close>: a counter in a shared file, raised by
  every destructive lifecycle operation, that makes the other processes reset the caches of
  their run time when they next enter a lifecycle lock. The file backend is modelled; a file
  that is missing or cannot be read is \<open>None\<close>. The callbacks are named; running them is
  counted, and a callback that raises is not modelled.
\<close>

section \<open>Decimal numbers read back\<close>

lemma digit_char: "(n::nat) < 10 \<Longrightarrow> py_isdigit (char_of (48 + n)) \<and> of_char (char_of (48 + n) :: char) = 48 + n"
  by (simp add: py_isdigit_def of_char_of Let_def)

lemma digits_dec_nat: "py_digits ok acc (dec_nat n @ s) = py_digits True (acc * 10 ^ length (dec_nat n) + n) s"
proof (induction n arbitrary: ok acc s rule: dec_nat.induct)
  case (1 n)
  show ?case
  proof (cases "n < 10")
    case True
    then show ?thesis using digit_char [OF True] by (subst (1 2) dec_nat.simps) (simp add: algebra_simps)
  next
    case False
    let ?c = "char_of (48 + n mod 10) :: char"
    have d: "dec_nat n = dec_nat (n div 10) @ [?c]" using False by (subst dec_nat.simps) simp
    have c: "py_isdigit ?c \<and> of_char ?c = 48 + n mod 10" by (rule digit_char) simp
    have "10 * (acc * 10 ^ length (dec_nat (n div 10)) + n div 10) + n mod 10
        = acc * 10 ^ length (dec_nat n) + n"
      by (simp add: d algebra_simps)
    then have e: "py_digits True (10 * (acc * 10 ^ length (dec_nat (n div 10)) + n div 10) + n mod 10) s
        = py_digits True (acc * 10 ^ length (dec_nat n) + n) s" by (rule arg_cong)
    have "py_digits ok acc (dec_nat n @ s)
        = py_digits True (10 * (acc * 10 ^ length (dec_nat (n div 10)) + n div 10) + n mod 10) s"
      unfolding d append_assoc "1.IH" [OF False] using c by (simp add: algebra_simps)
    then show ?thesis using e by (rule trans)
  qed
qed

lemma dec_nat_digits: "c \<in> set (dec_nat n) \<Longrightarrow> py_isdigit c"
proof (induction n rule: dec_nat.induct)
  case (1 n)
  then show ?case using digit_char [of n] digit_char [of "n mod 10"]
    by (subst (asm) (2) dec_nat.simps) (auto split: if_splits)
qed

lemma dec_nat_nonempty: "dec_nat n \<noteq> []"
  by (subst dec_nat.simps) simp

lemma digit_not_space: "py_isdigit c \<Longrightarrow> \<not> py_isspace c \<and> c \<noteq> CHR ''-'' \<and> c \<noteq> CHR ''+''"
  by (auto simp: py_isdigit_def py_isspace_def Let_def)

lemma strip_dec_nat: "py_strip (dec_nat n) = dec_nat n"
proof (rule py_strip_trimmed)
  have "hd (dec_nat n) \<in> set (dec_nat n)" "last (dec_nat n) \<in> set (dec_nat n)"
    using dec_nat_nonempty by simp_all
  then show "py_trimmed (dec_nat n)"
    using dec_nat_digits digit_not_space unfolding py_trimmed_def by blast
qed

lemma int_of_dec_nat: "py_int_of_text (dec_nat n) = Some (int n)"
proof -
  obtain c s where cs: "dec_nat n = c # s" using dec_nat_nonempty by (cases "dec_nat n") auto
  then have c: "c \<noteq> CHR ''-''" "c \<noteq> CHR ''+''" using dec_nat_digits [of c n] digit_not_space by auto
  have "py_digits False 0 (dec_nat n) = Some n"
    using digits_dec_nat [of False 0 n "[]"] by simp
  with c show ?thesis
    using strip_dec_nat [of n] unfolding cs py_int_of_text_def by (simp del: py_digits.simps)
qed

section \<open>State and operations\<close>

type_synonym generation_file = "string option"

record gen_process =
  gp_observed :: "int option"
  gp_invalidators :: "(string, nat) odict"
  gp_resets :: nat

definition file_number :: "generation_file \<Rightarrow> int option" where
  "file_number f = (case f of None \<Rightarrow> None
     | Some s \<Rightarrow> py_int_of_text (let t = py_strip s in if t = [] then ''0'' else t))"

definition read_lifecycle_generation :: "generation_file \<Rightarrow> int" where
  "read_lifecycle_generation f = (case file_number f of None \<Rightarrow> 0 | Some n \<Rightarrow> max 0 n)"

definition increment_lifecycle_generation :: "generation_file \<Rightarrow> int \<times> generation_file" where
  "increment_lifecycle_generation f =
     (let generation = (case file_number f of None \<Rightarrow> 1 | Some n \<Rightarrow> max 0 n + 1)
      in (generation, Some (dec_int generation)))"

definition register_lifecycle_invalidator :: "string \<Rightarrow> nat \<Rightarrow> gen_process \<Rightarrow> gen_process" where
  "register_lifecycle_invalidator name callback p = p\<lparr>gp_invalidators := od_set name callback (gp_invalidators p)\<rparr>"

definition invalidate_lifecycle_caches :: "gen_process \<Rightarrow> gen_process" where
  "invalidate_lifecycle_caches p = p\<lparr>gp_resets := gp_resets p + 1\<rparr>"

definition synchronize_lifecycle_generation :: "generation_file \<Rightarrow> gen_process \<Rightarrow> int \<times> gen_process" where
  "synchronize_lifecycle_generation f p =
     (let current = read_lifecycle_generation f
      in case gp_observed p of
           None \<Rightarrow> (current, p\<lparr>gp_observed := Some current\<rparr>)
         | Some observed \<Rightarrow>
             let callbacks = (if current \<noteq> observed then map snd (gp_invalidators p) else [])
             in if callbacks = [] then (current, p)
                else (current, (invalidate_lifecycle_caches p)\<lparr>gp_observed := Some current\<rparr>))"

definition bump_lifecycle_generation :: "generation_file \<Rightarrow> gen_process \<Rightarrow> int \<times> gen_process \<times> generation_file" where
  "bump_lifecycle_generation f p =
     (let (generation, f') = increment_lifecycle_generation f
      in (generation, p\<lparr>gp_observed := Some generation\<rparr>, f'))"

section \<open>Processes\<close>

text \<open>
  The processes share the file. \<open>gs_missed p\<close> is a ghost: another process has published a
  generation that \<open>p\<close> has neither reset its caches for nor started after.
\<close>

record gen_sys =
  gs_file :: generation_file
  gs_procs :: "nat \<Rightarrow> gen_process"
  gs_missed :: "nat \<Rightarrow> bool"

datatype gen_event = GSync nat | GPublish nat

fun gen_step :: "gen_sys \<Rightarrow> gen_event \<Rightarrow> gen_sys" where
  "gen_step s (GSync i) =
     (let p = gs_procs s i; p' = snd (synchronize_lifecycle_generation (gs_file s) p)
      in s\<lparr>gs_procs := (gs_procs s)(i := p'),
           gs_missed := (gs_missed s)(i := gs_missed s i \<and> gp_resets p' = gp_resets p)\<rparr>)"
| "gen_step s (GPublish i) =
     (let (n, p', f') = bump_lifecycle_generation (gs_file s) (gs_procs s i)
      in s\<lparr>gs_file := f', gs_procs := (gs_procs s)(i := p'),
           gs_missed := (\<lambda>j. gs_missed s j \<or> (j \<noteq> i \<and> gp_observed (gs_procs s j) \<noteq> None))\<rparr>)"

text \<open>
  A global writer publishes while it holds the lock exclusively, after it synchronised on
  entry: nothing was published in between. Every process has its invalidators registered.
\<close>

definition gen_event_ok :: "gen_sys \<Rightarrow> gen_event \<Rightarrow> bool" where
  "gen_event_ok s ev = (case ev of GSync i \<Rightarrow> True | GPublish i \<Rightarrow> \<not> gs_missed s i)"

definition file_generation :: "generation_file \<Rightarrow> int \<Rightarrow> bool" where
  "file_generation f g \<longleftrightarrow> 0 \<le> g \<and> ((f = None \<and> g = 0) \<or> f = Some (dec_int g))"

definition gen_inv :: "gen_sys \<Rightarrow> bool" where
  "gen_inv s \<longleftrightarrow> (\<exists>g. file_generation (gs_file s) g
     \<and> (\<forall>i n. gp_observed (gs_procs s i) = Some n \<longrightarrow> n \<le> g \<and> (gs_missed s i \<longrightarrow> n < g))
     \<and> (\<forall>i. gp_observed (gs_procs s i) = None \<longrightarrow> \<not> gs_missed s i)
     \<and> (\<forall>i. gp_invalidators (gs_procs s i) \<noteq> []))"

lemma file_number_dec: "0 \<le> g \<Longrightarrow> file_number (Some (dec_int g)) = Some g"
  using int_of_dec_nat [of "nat g"] by (simp add: file_number_def dec_int_def strip_dec_nat dec_nat_nonempty)

lemma read_generation: "file_generation f g \<Longrightarrow> read_lifecycle_generation f = g"
  using file_number_dec [of g] by (auto simp: file_generation_def read_lifecycle_generation_def file_number_def)

lemma increment_generation:
  "file_generation f g \<Longrightarrow> increment_lifecycle_generation f = (g + 1, Some (dec_int (g + 1)))
    \<and> file_generation (Some (dec_int (g + 1))) (g + 1)"
  using file_number_dec [of g]
  by (auto simp: file_generation_def increment_lifecycle_generation_def file_number_def Let_def)

lemma sync_current:
  assumes "file_generation f g" and "gp_invalidators p \<noteq> []"
  shows "synchronize_lifecycle_generation f p = (g,
    if gp_observed p = None \<or> gp_observed p = Some g then p\<lparr>gp_observed := Some g\<rparr>
    else p\<lparr>gp_resets := gp_resets p + 1, gp_observed := Some g\<rparr>)"
  using assms(2) by (cases "gp_observed p")
    (auto simp: synchronize_lifecycle_generation_def read_generation [OF assms(1)] invalidate_lifecycle_caches_def Let_def)

lemma gen_step_inv: "gen_inv s \<Longrightarrow> gen_event_ok s ev \<Longrightarrow> gen_inv (gen_step s ev)"
proof (cases ev)
  case (GSync i)
  assume "gen_inv s"
  then obtain g where g: "file_generation (gs_file s) g" and r: "\<And>i. gp_invalidators (gs_procs s i) \<noteq> []"
    and o: "\<And>i n. gp_observed (gs_procs s i) = Some n \<Longrightarrow> n \<le> g \<and> (gs_missed s i \<longrightarrow> n < g)"
    "\<And>i. gp_observed (gs_procs s i) = None \<Longrightarrow> \<not> gs_missed s i"
    unfolding gen_inv_def by blast
  show ?thesis
    unfolding gen_inv_def using g r o GSync o(1) [of i g]
    by (intro exI [of _ g]) (auto simp: Let_def sync_current [OF g r])
next
  case (GPublish i)
  assume "gen_inv s" and ok: "gen_event_ok s ev"
  then obtain g where g: "file_generation (gs_file s) g" and r: "\<And>i. gp_invalidators (gs_procs s i) \<noteq> []"
    and o: "\<And>i n. gp_observed (gs_procs s i) = Some n \<Longrightarrow> n \<le> g \<and> (gs_missed s i \<longrightarrow> n < g)"
    "\<And>i. gp_observed (gs_procs s i) = None \<Longrightarrow> \<not> gs_missed s i"
    unfolding gen_inv_def by blast
  show ?thesis
    unfolding gen_inv_def using increment_generation [OF g] r o GPublish ok
    by (intro exI [of _ "g + 1"]) (auto simp: bump_lifecycle_generation_def gen_event_ok_def dest!: o(1))
qed

interpretation generations: safe_machine gen_step gen_inv gen_event_ok
  by unfold_locales (rule gen_step_inv)


section \<open>What synchronising achieves\<close>

definition started :: gen_process where
  "started = \<lparr>gp_observed = None, gp_invalidators = [(''vector_stores'', 0)], gp_resets = 0\<rparr>"

definition fresh_gen_sys :: gen_sys where
  "fresh_gen_sys = \<lparr>gs_file = None, gs_procs = (\<lambda>_. started), gs_missed = (\<lambda>_. False)\<rparr>"

lemma fresh_gen_inv: "gen_inv fresh_gen_sys"
  by (auto simp: gen_inv_def fresh_gen_sys_def started_def file_generation_def)

lemma read_fresh: "read_lifecycle_generation None = 0"
  by (simp add: read_lifecycle_generation_def file_number_def)

lemma increment_fresh: "increment_lifecycle_generation None = (1, Some (dec_int 1))"
  by (simp add: increment_lifecycle_generation_def file_number_def)

lemma increment_dec: "0 \<le> g \<Longrightarrow> increment_lifecycle_generation (Some (dec_int g)) = (g + 1, Some (dec_int (g + 1)))"
  using increment_generation [of "Some (dec_int g)" g] by (simp add: file_generation_def)

lemma read_dec: "0 \<le> g \<Longrightarrow> read_lifecycle_generation (Some (dec_int g)) = g"
  using read_generation [of "Some (dec_int g)" g] by (simp add: file_generation_def)

text \<open>
  Cache coherence. When every process publishes only while nothing has been published
  that it has not seen (the discipline of a global writer, which synchronises on entry and
  excludes the other writers until it leaves), a process that has just synchronised has reset its
  caches since the last publication of every other process.
\<close>

theorem synchronized_process_is_current:
  assumes "gen_inv s" and "generations.admissible s evs"
  shows "\<not> gs_missed (gen_step (run_machine gen_step s evs) (GSync i)) i"
proof -
  let ?s = "run_machine gen_step s evs"
  have "gen_inv ?s" using assms by (rule generations.run_inv)
  then obtain g where g: "file_generation (gs_file ?s) g" and r: "gp_invalidators (gs_procs ?s i) \<noteq> []"
    and o: "\<And>n. gp_observed (gs_procs ?s i) = Some n \<Longrightarrow> gs_missed ?s i \<Longrightarrow> n < g"
    "gp_observed (gs_procs ?s i) = None \<Longrightarrow> \<not> gs_missed ?s i"
    unfolding gen_inv_def by blast
  show ?thesis
    using o by (cases "gp_observed (gs_procs ?s i)") (auto simp: Let_def sync_current [OF g r])
qed

theorem synchronized_process_is_current_witness:
  "\<not> gs_missed (gen_step (run_machine gen_step fresh_gen_sys [GSync 0, GSync 1, GPublish 0]) (GSync 1)) 1
   \<and> gs_missed (run_machine gen_step fresh_gen_sys [GSync 0, GSync 1, GPublish 0]) 1"
proof -
  have "generations.admissible fresh_gen_sys [GSync 0, GSync 1, GPublish 0]"
    by (simp add: gen_event_ok_def fresh_gen_sys_def Let_def)
  from synchronized_process_is_current [OF fresh_gen_inv this, of 1]
  show ?thesis
    by (simp add: fresh_gen_sys_def started_def synchronize_lifecycle_generation_def read_fresh
        bump_lifecycle_generation_def increment_fresh Let_def)
qed

text \<open>
  The writers of two different scopes may hold their locks at once and publish at the
  end. Two processes that do so lose an invalidation: the one that publishes last records the
  generation it wrote as observed, so it never resets its caches for the publication of the
  other, however often it synchronises afterwards.
\<close>

theorem concurrent_publication_is_lost:
  "let s = run_machine gen_step fresh_gen_sys ([GSync 0, GSync 1, GPublish 0, GPublish 1] @ replicate n (GSync 1))
   in gs_missed s 1 \<and> gp_resets (gs_procs s 1) = 0"
proof -
  let ?s = "run_machine gen_step fresh_gen_sys [GSync 0, GSync 1, GPublish 0, GPublish 1]"
  have e: "gs_file ?s = Some (dec_int 2)" "gp_observed (gs_procs ?s 1) = Some 2"
    "gs_missed ?s 1" "gp_resets (gs_procs ?s 1) = 0"
    using increment_dec [of 1]
    by (simp_all add: fresh_gen_sys_def started_def synchronize_lifecycle_generation_def read_fresh
        bump_lifecycle_generation_def increment_fresh Let_def)
  have stuck: "gs_missed (run_machine gen_step s (replicate n (GSync 1))) 1
      \<and> gp_resets (gs_procs (run_machine gen_step s (replicate n (GSync 1))) 1) = 0"
    if "gs_file s = Some (dec_int 2)" "gp_observed (gs_procs s 1) = Some 2" "gs_missed s 1"
      "gp_resets (gs_procs s 1) = 0" for s
    using that read_dec [of 2]
    by (induction n arbitrary: s) (simp_all add: synchronize_lifecycle_generation_def Let_def)
  show ?thesis using stuck [OF e] by (simp add: run_machine_append Let_def)
qed

end
