(* ===== verification/Lease_Renewer.thy ===== *)
theory Lease_Renewer
  imports Prelude Complex_Main
begin

text \<open>
  The renewal of Redis lock leases in \<open>app/utils/index_lock.py\<close>: \<open>_RedisLeaseRenewer\<close>, the
  registry of the renewers of every thread, and the exit of the two lock contexts. The Redis
  calls are parameters: a run is a sequence of rounds, each with the delay of the scheduler,
  what the call did, and how long it took.
\<close>

section \<open>Errors\<close>

datatype redis_error =
    LockNotOwnedError
  | AuthenticationError
  | AuthorizationError
  | RedisConnectionError
  | RedisTimeoutError
  | ClusterDownError
  | TryAgainError
  | OtherRedisError string

definition is_transient_redis_lease_error :: "redis_error \<Rightarrow> bool" where
  "is_transient_redis_lease_error e =
     (if e \<in> {AuthenticationError, AuthorizationError} then False
      else e \<in> {RedisConnectionError, RedisTimeoutError, ClusterDownError, TryAgainError})"

datatype lease_error =
    CallFailed redis_error
  | UnableToRenew
  | ExpiredBeforeRenewal redis_error
  | StopTimedOut

section \<open>The renewer\<close>

record renewer =
  rn_ttl :: real
  rn_interval :: real
  rn_retry :: real
  rn_deadline :: real
  rn_last_error :: "redis_error option"
  rn_error :: "lease_error option"

definition new_renewer :: "real \<Rightarrow> real \<Rightarrow> renewer" where
  "new_renewer ttl now = (let t = max (1 / 100) ttl in
     \<lparr>rn_ttl = t, rn_interval = max 1 (t / 3), rn_retry = max (1 / 20) (min 1 (t / 10)),
      rn_deadline = now + t, rn_last_error = None, rn_error = None\<rparr>)"

definition set_error :: "lease_error \<Rightarrow> renewer \<Rightarrow> renewer" where
  "set_error e r = (if rn_error r = None then r\<lparr>rn_error := Some e\<rparr> else r)"

datatype renew_outcome = RenewReturns bool | RenewRaises redis_error

text \<open>
  One pass of the loop of \<open>_run\<close> after its wait: the call of \<open>renew\<close> has ended at time
  \<open>now\<close>. The result holds the next delay, or \<open>None\<close> when the thread ends.
\<close>

definition renew_round :: "renew_outcome \<Rightarrow> real \<Rightarrow> renewer \<Rightarrow> real option \<times> renewer" where
  "renew_round outcome now r =
     (case outcome of
        RenewRaises e \<Rightarrow>
          if e = LockNotOwnedError then (None, set_error (CallFailed e) r)
          else if \<not> is_transient_redis_lease_error e then (None, set_error (CallFailed e) r)
          else let r' = r\<lparr>rn_last_error := Some e\<rparr>; remaining = rn_deadline r - now
               in if remaining \<le> 0 then (None, set_error (ExpiredBeforeRenewal e) r')
                  else (Some (min (rn_retry r) remaining), r')
      | RenewReturns renewed \<Rightarrow>
          if \<not> renewed then (None, set_error UnableToRenew r)
          else (Some (rn_interval r), r\<lparr>rn_last_error := None, rn_deadline := now + rn_ttl r\<rparr>))"

text \<open>
  A round as the environment makes it: the wait ends \<open>late\<close> seconds after its delay, the call
  takes \<open>took\<close> seconds. \<open>renewer_run\<close> gives the time of the last round, the delay before the
  next (\<open>None\<close>: the thread has ended), the renewer, and the number of rounds made.
\<close>

record round =
  rd_late :: real
  rd_took :: real
  rd_outcome :: renew_outcome

fun renewer_run :: "real \<Rightarrow> real \<Rightarrow> renewer \<Rightarrow> round list \<Rightarrow> real \<times> real option \<times> renewer \<times> nat" where
  "renewer_run now delay r [] = (now, Some delay, r, 0)"
| "renewer_run now delay r (rd # rds) =
     (let now' = now + delay + rd_late rd + rd_took rd
      in case renew_round (rd_outcome rd) now' r of
           (None, r') \<Rightarrow> (now', None, r', 1)
         | (Some delay', r') \<Rightarrow>
             (let (t, d, r'', n) = renewer_run now' delay' r' rds in (t, d, r'', Suc n)))"

text \<open>\<open>stop\<close>: \<open>alive\<close> tells whether the thread is still running after the join.\<close>

definition stop_renewer :: "bool \<Rightarrow> real \<Rightarrow> renewer \<Rightarrow> lease_error option \<times> renewer" where
  "stop_renewer alive now r =
     (let r1 = (if alive \<and> rn_error r = None then set_error StopTimedOut r else r);
          r2 = (case rn_last_error r1 of
                  None \<Rightarrow> r1
                | Some e \<Rightarrow> if rn_error r1 = None \<and> rn_deadline r1 \<le> now
                    then set_error (ExpiredBeforeRenewal e) r1 else r1)
      in (rn_error r2, r2))"

section \<open>The registry of active renewers\<close>

text \<open>Renewers are named by numbers; \<open>errors\<close> gives the current error of each.\<close>

type_synonym renewer_registry = "(nat, nat list) odict"

definition register_renewer :: "nat \<Rightarrow> nat \<Rightarrow> renewer_registry \<Rightarrow> renewer_registry" where
  "register_renewer owner rn reg =
     (let active = (case od_get reg owner of None \<Rightarrow> [] | Some a \<Rightarrow> a)
      in od_set owner (if rn \<in> set active then active else active @ [rn]) reg)"

definition unregister_renewer :: "nat \<Rightarrow> nat option \<Rightarrow> renewer_registry \<Rightarrow> renewer_registry" where
  "unregister_renewer rn owner reg =
     (case owner of
        None \<Rightarrow> reg
      | Some t \<Rightarrow>
          (case od_get reg t of
             None \<Rightarrow> reg
           | Some active \<Rightarrow>
               if active = [] then reg
               else let rest = filter (\<lambda>item. item \<noteq> rn) active
                    in if rest = [] then od_pop t reg else od_set t rest reg))"

definition assert_distributed_locks_healthy :: "nat \<Rightarrow> (nat \<Rightarrow> lease_error option) \<Rightarrow> renewer_registry \<Rightarrow> lease_error + unit" where
  "assert_distributed_locks_healthy owner errors reg =
     (case List.find (\<lambda>rn. errors rn \<noteq> None) (case od_get reg owner of None \<Rightarrow> [] | Some a \<Rightarrow> a) of
        None \<Rightarrow> Inr ()
      | Some rn \<Rightarrow> Inl (the (errors rn)))"

section \<open>Leaving the lock contexts\<close>

text \<open>
  What leaving a lock context does, given the error of the renewer, the error of releasing the
  lock, and whether the body raised: \<open>Inl\<close> when \<open>DistributedLockLeaseLostError\<close> is raised.
\<close>

datatype exit_cause = Renewal lease_error | Cleanup redis_error | ReaderGone

definition first_error :: "exit_cause option \<Rightarrow> exit_cause option \<Rightarrow> exit_cause option" where
  "first_error a b = (case a of None \<Rightarrow> b | Some x \<Rightarrow> Some x)"

definition raise_unless_raising :: "exit_cause option \<Rightarrow> bool \<Rightarrow> exit_cause + unit" where
  "raise_unless_raising cause body_raised = (case cause of
     None \<Rightarrow> Inr () | Some e \<Rightarrow> if body_raised then Inr () else Inl e)"

definition renewing_lock_exit :: "lease_error option \<Rightarrow> redis_error option \<Rightarrow> bool \<Rightarrow> exit_cause + unit" where
  "renewing_lock_exit renewal_error release_error body_raised =
     raise_unless_raising (first_error (map_option Cleanup release_error) (map_option Renewal renewal_error)) body_raised"

datatype delete_outcome = Deleted bool | DeleteRaises redis_error

text \<open>\<open>reader\<close> is the deletion of the reader key, \<open>gate\<close> the release of the gate, when there is one.\<close>

definition lifecycle_lock_exit :: "lease_error option \<Rightarrow> delete_outcome option \<Rightarrow> redis_error option option \<Rightarrow> bool
    \<Rightarrow> exit_cause + unit" where
  "lifecycle_lock_exit renewal_error reader gate body_raised =
     (let cleanup = (case reader of
            None \<Rightarrow> None
          | Some (Deleted ok) \<Rightarrow> if ok then None else Some ReaderGone
          | Some (DeleteRaises e) \<Rightarrow> Some (Cleanup e));
          cleanup' = (case gate of None \<Rightarrow> cleanup | Some released \<Rightarrow> first_error cleanup (map_option Cleanup released))
      in raise_unless_raising (first_error cleanup' (map_option Renewal renewal_error)) body_raised)"

section \<open>What the loop guarantees\<close>

text \<open>Transient failures only, and time does not run backwards.\<close>

definition transient_round :: "round \<Rightarrow> bool" where
  "transient_round rd = (0 \<le> rd_late rd \<and> 0 \<le> rd_took rd
     \<and> (case rd_outcome rd of RenewReturns b \<Rightarrow> False | RenewRaises e \<Rightarrow> is_transient_redis_lease_error e))"

lemma transient_not_lost: "is_transient_redis_lease_error e \<Longrightarrow> e \<noteq> LockNotOwnedError"
  by (auto simp: is_transient_redis_lease_error_def)

lemma transient_renew_round:
  assumes "transient_round rd" and "rn_error r = None"
  shows "\<exists>e. is_transient_redis_lease_error e \<and> renew_round (rd_outcome rd) now r =
    (if rn_deadline r \<le> now then (None, r\<lparr>rn_last_error := Some e, rn_error := Some (ExpiredBeforeRenewal e)\<rparr>)
     else (Some (min (rn_retry r) (rn_deadline r - now)), r\<lparr>rn_last_error := Some e\<rparr>))"
proof -
  obtain e where e: "rd_outcome rd = RenewRaises e" "is_transient_redis_lease_error e"
    using assms(1) by (auto simp: transient_round_def split: renew_outcome.splits)
  then show ?thesis
    using assms(2) transient_not_lost [OF e(2)] by (auto simp: renew_round_def set_error_def Let_def)
qed

text \<open>
  A run of transient failures: it ends with the error, after a number of rounds that the
  remaining time divided by the retry interval bounds.
\<close>

definition expired :: "renewer \<Rightarrow> bool" where
  "expired r \<longleftrightarrow> (\<exists>e. rn_error r = Some (ExpiredBeforeRenewal e))"

lemma transient_run_expires:
  assumes "list_all transient_round rds" and "rn_error r = None" and "0 < rn_retry r"
    and "delay = min (rn_retry r) (rn_deadline r - now)" and "now < rn_deadline r"
    and "rn_deadline r - now \<le> real n * rn_retry r" and "n < length rds" and "0 < n"
    and "list_all (\<lambda>rd. rd_late rd + rd_took rd \<le> slow) rds"
  shows "\<exists>t r' k. renewer_run now delay r rds = (t, None, r', k) \<and> expired r' \<and> k \<le> n
    \<and> rn_deadline r \<le> t \<and> t \<le> rn_deadline r + slow"
  using assms
proof (induction rds arbitrary: now delay r n)
  case Nil
  then show ?case by simp
next
  case (Cons rd rds)
  let ?now = "now + delay + rd_late rd + rd_took rd"
  have pos: "0 \<le> rd_late rd" "0 \<le> rd_took rd" and slow: "rd_late rd + rd_took rd \<le> slow"
    using Cons.prems by (auto simp: transient_round_def)
  obtain e where e: "renew_round (rd_outcome rd) ?now r =
    (if rn_deadline r \<le> ?now then (None, r\<lparr>rn_last_error := Some e, rn_error := Some (ExpiredBeforeRenewal e)\<rparr>)
     else (Some (min (rn_retry r) (rn_deadline r - ?now)), r\<lparr>rn_last_error := Some e\<rparr>))"
    using transient_renew_round [of rd r ?now] Cons.prems by auto
  show ?case
  proof (cases "rn_deadline r \<le> ?now")
    case True
    have "?now \<le> rn_deadline r + slow" using Cons.prems(4) slow by auto
    with True e Cons.prems(8) show ?thesis by (auto simp: expired_def)
  next
    case False
    then have delay: "delay = rn_retry r" using Cons.prems(4) pos by auto
    obtain m where m: "n = Suc m" using Cons.prems(8) by (cases n) auto
    have left: "rn_deadline r - ?now \<le> real m * rn_retry r"
      using Cons.prems(6) delay pos m by (simp add: algebra_simps)
    then have m0: "0 < m" using False by (cases m) auto
    let ?r = "r\<lparr>rn_last_error := Some e\<rparr>" and ?delay = "min (rn_retry r) (rn_deadline r - ?now)"
    have "\<exists>t r' k. renewer_run ?now ?delay ?r rds = (t, None, r', k) \<and> expired r' \<and> k \<le> m
        \<and> rn_deadline ?r \<le> t \<and> t \<le> rn_deadline ?r + slow"
      using Cons.prems left m m0 False by (intro Cons.IH) auto
    then obtain t r' k where "renewer_run ?now ?delay ?r rds = (t, None, r', k)" "expired r'" "k \<le> m"
      "rn_deadline r \<le> t" "t \<le> rn_deadline r + slow" by auto
    with e False m show ?thesis by auto
  qed
qed

lemma new_renewer_simps:
  "rn_error (new_renewer ttl start) = None" "0 < rn_retry (new_renewer ttl start)"
  "rn_deadline (new_renewer ttl start) = start + rn_ttl (new_renewer ttl start)"
  "0 < rn_interval (new_renewer ttl start)"
  by (simp_all add: new_renewer_def Let_def)

lemma retry_intervals_cover_ttl:
  "rn_ttl (new_renewer ttl start) \<le> real (max 10 (nat \<lceil>ttl\<rceil>)) * rn_retry (new_renewer ttl start)"
proof -
  define t where "t = max (1 / 100) ttl"
  define n where "n = real (max 10 (nat \<lceil>ttl\<rceil>))"
  have n: "10 \<le> n" "ttl \<le> n" unfolding n_def by linarith+
  have "t \<le> n * max (1 / 20) (min 1 (t / 10))"
  proof (cases "t \<le> 10")
    case True
    have "t = 10 * (t / 10)" by simp
    also have "\<dots> \<le> n * max (1 / 20) (min 1 (t / 10))"
      using n True by (intro mult_mono) (auto simp: t_def)
    finally show ?thesis .
  next
    case False
    then have "t \<le> n * 1" using n by (auto simp: t_def)
    also have "\<dots> \<le> n * max (1 / 20) (min 1 (t / 10))" using n False by (intro mult_mono) auto
    finally show ?thesis .
  qed
  then show ?thesis by (simp add: new_renewer_def Let_def t_def n_def)
qed

section \<open>The property\<close>

text \<open>
  Claim C38: the renewal thread ends and reports the loss. When Redis fails with transient errors
  from the start, the loop of a lease of \<open>ttl\<close> seconds ends after at most
  \<open>max 10 \<lceil>ttl\<rceil> + 1\<close> rounds with the error that the lease could not be renewed before its
  expiry: not before the deadline of the lease, and later than the deadline (or the first
  renewal, if that comes after it) only by the lateness and duration of one call.
\<close>

theorem failing_renewal_ends_at_deadline:
  assumes "list_all transient_round rds" and "list_all (\<lambda>rd. rd_late rd + rd_took rd \<le> slow) rds"
    and "max 10 (nat \<lceil>ttl\<rceil>) + 1 < length rds"
  shows "let r = new_renewer ttl start in
    \<exists>t r' k. renewer_run start (rn_interval r) r rds = (t, None, r', k) \<and> expired r'
      \<and> k \<le> max 10 (nat \<lceil>ttl\<rceil>) + 1 \<and> rn_deadline r \<le> t
      \<and> t \<le> max (rn_deadline r) (start + rn_interval r) + slow"
proof -
  let ?r = "new_renewer ttl start" and ?n = "max 10 (nat \<lceil>ttl\<rceil>)"
  obtain rd rds' where rds: "rds = rd # rds'" using assms(3) by (cases rds) auto
  let ?now = "start + rn_interval ?r + rd_late rd + rd_took rd"
  have pos: "0 \<le> rd_late rd" "0 \<le> rd_took rd" and slow: "rd_late rd + rd_took rd \<le> slow"
    using assms rds by (auto simp: transient_round_def)
  obtain e where e: "renew_round (rd_outcome rd) ?now ?r =
    (if rn_deadline ?r \<le> ?now then (None, ?r\<lparr>rn_last_error := Some e, rn_error := Some (ExpiredBeforeRenewal e)\<rparr>)
     else (Some (min (rn_retry ?r) (rn_deadline ?r - ?now)), ?r\<lparr>rn_last_error := Some e\<rparr>))"
    using transient_renew_round [of rd ?r ?now] assms rds new_renewer_simps by auto
  show ?thesis
  proof (cases "rn_deadline ?r \<le> ?now")
    case True
    with e slow show ?thesis by (auto simp: rds expired_def Let_def)
  next
    case False
    let ?r1 = "?r\<lparr>rn_last_error := Some e\<rparr>" and ?delay = "min (rn_retry ?r) (rn_deadline ?r - ?now)"
    have "rn_deadline ?r - ?now \<le> rn_ttl ?r" using new_renewer_simps(3,4) [of ttl start] pos by simp
    also have "\<dots> \<le> real ?n * rn_retry ?r" by (rule retry_intervals_cover_ttl)
    finally have "\<exists>t r' k. renewer_run ?now ?delay ?r1 rds' = (t, None, r', k) \<and> expired r' \<and> k \<le> ?n
        \<and> rn_deadline ?r1 \<le> t \<and> t \<le> rn_deadline ?r1 + slow"
      using assms rds new_renewer_simps [of ttl start] False by (intro transient_run_expires) auto
    then obtain t r' k where "renewer_run ?now ?delay ?r1 rds' = (t, None, r', k)" "expired r'" "k \<le> ?n"
      "rn_deadline ?r \<le> t" "t \<le> rn_deadline ?r + slow" by auto
    with e False show ?thesis by (auto simp: rds Let_def)
  qed
qed

definition unreachable :: "round list" where
  "unreachable = replicate 12 \<lparr>rd_late = 0, rd_took = 1 / 10, rd_outcome = RenewRaises RedisConnectionError\<rparr>"

theorem failing_renewal_ends_at_deadline_witness:
  "\<exists>t r' k. renewer_run 0 2 (new_renewer 6 0) unreachable = (t, None, r', k) \<and> expired r' \<and> k \<le> 11 \<and> 6 \<le> t \<and> t \<le> 6 + 1 / 10"
proof -
  have "list_all transient_round unreachable" "list_all (\<lambda>rd. rd_late rd + rd_took rd \<le> 1 / 10) unreachable"
    "max 10 (nat \<lceil>6::real\<rceil>) + 1 < length unreachable"
    by (simp_all add: unreachable_def transient_round_def is_transient_redis_lease_error_def list_all_iff)
  from failing_renewal_ends_at_deadline [OF this, of 0] show ?thesis
    by (simp add: new_renewer_def Let_def)
qed

end
