(* ===== verification/Lru_Cache.thy ===== *)
theory Lru_Cache
  imports Py_Json "HOL-Library.List_Lexorder" "HOL-Library.Char_ord"
begin

text \<open>
  The answer cache of \<open>app/utils/cache.py\<close>: \<open>SimpleLRUCache\<close> and the memory backend of
  \<open>RAGCache\<close>. The ordered dict runs from the least to the most recently used key. The
  hexadecimal SHA-256 of a text is a parameter \<open>dig\<close>; the time of a call is an argument.
\<close>

section \<open>The LRU cache\<close>

record 'v cache_entry =
  ce_value :: 'v
  ce_created :: real
  ce_ttl :: real

record 'v lru_cache =
  lru_max :: nat
  lru_items :: "(string, 'v cache_entry) odict"

definition new_cache :: "nat \<Rightarrow> 'v lru_cache" where
  "new_cache max_size = \<lparr>lru_max = max_size, lru_items = []\<rparr>"

definition is_expired :: "real \<Rightarrow> 'v cache_entry \<Rightarrow> bool" where
  "is_expired now e \<longleftrightarrow> ce_ttl e < now - ce_created e"

definition cache_get :: "real \<Rightarrow> string \<Rightarrow> 'v lru_cache \<Rightarrow> 'v option \<times> 'v lru_cache" where
  "cache_get now key c =
     (case od_get (lru_items c) key of
        None \<Rightarrow> (None, c)
      | Some entry \<Rightarrow>
          if is_expired now entry then (None, c\<lparr>lru_items := od_pop key (lru_items c)\<rparr>)
          else (Some (ce_value entry), c\<lparr>lru_items := od_move_to_end key (lru_items c)\<rparr>))"

definition cache_set :: "real \<Rightarrow> string \<Rightarrow> 'v \<Rightarrow> real \<Rightarrow> 'v lru_cache \<Rightarrow> 'v lru_cache" where
  "cache_set now key v ttl c =
     (let items = od_set key \<lparr>ce_value = v, ce_created = now, ce_ttl = ttl\<rparr> (od_pop key (lru_items c))
      in if lru_max c < length items then c\<lparr>lru_items := od_pop (fst (hd items)) items\<rparr>
         else c\<lparr>lru_items := items\<rparr>)"

definition cache_clear :: "'v lru_cache \<Rightarrow> 'v lru_cache" where
  "cache_clear c = c\<lparr>lru_items := []\<rparr>"

definition clear_matching :: "(string \<Rightarrow> bool) \<Rightarrow> 'v lru_cache \<Rightarrow> nat \<times> 'v lru_cache" where
  "clear_matching predicate c =
     (let ks = filter predicate (map fst (lru_items c))
      in (length ks, c\<lparr>lru_items := od_pop_all ks (lru_items c)\<rparr>))"

definition clear_prefix :: "string \<Rightarrow> 'v lru_cache \<Rightarrow> nat \<times> 'v lru_cache" where
  "clear_prefix prefix c =
     (let ks = filter (\<lambda>key. py_startswith key prefix) (map fst (lru_items c))
      in (length ks, c\<lparr>lru_items := od_pop_all ks (lru_items c)\<rparr>))"

definition cache_len :: "'v lru_cache \<Rightarrow> nat" where
  "cache_len c = length (lru_items c)"

section \<open>Its contract\<close>

text \<open>
  The abstract cache never forgets: it maps a key to the entry of its last assignment since
  the last clearing. Reading does not change it.
\<close>

datatype 'v cache_call =
    CGet real string
  | CSet real string 'v real
  | CClear
  | CMatching "string \<Rightarrow> bool"
  | CPrefix string

fun cache_step :: "'v lru_cache \<Rightarrow> 'v cache_call \<Rightarrow> 'v lru_cache" where
  "cache_step c (CGet now k) = snd (cache_get now k c)"
| "cache_step c (CSet now k v ttl) = cache_set now k v ttl c"
| "cache_step c CClear = cache_clear c"
| "cache_step c (CMatching P) = snd (clear_matching P c)"
| "cache_step c (CPrefix p) = snd (clear_prefix p c)"

fun store_step :: "(string \<rightharpoonup> 'v cache_entry) \<Rightarrow> 'v cache_call \<Rightarrow> (string \<rightharpoonup> 'v cache_entry)" where
  "store_step m (CGet now k) = m"
| "store_step m (CSet now k v ttl) = m(k \<mapsto> \<lparr>ce_value = v, ce_created = now, ce_ttl = ttl\<rparr>)"
| "store_step m CClear = Map.empty"
| "store_step m (CMatching P) = (\<lambda>k. if P k then None else m k)"
| "store_step m (CPrefix p) = (\<lambda>k. if py_startswith k p then None else m k)"

definition cache_wf :: "'v lru_cache \<Rightarrow> bool" where
  "cache_wf c \<longleftrightarrow> od_wf (lru_items c) \<and> length (lru_items c) \<le> lru_max c"

definition cache_refines :: "'v lru_cache \<times> (string \<rightharpoonup> 'v cache_entry) \<Rightarrow> bool" where
  "cache_refines s \<longleftrightarrow> cache_wf (fst s) \<and> od_get (lru_items (fst s)) \<subseteq>\<^sub>m snd s"

fun both_step :: "'v lru_cache \<times> (string \<rightharpoonup> 'v cache_entry) \<Rightarrow> 'v cache_call
    \<Rightarrow> 'v lru_cache \<times> (string \<rightharpoonup> 'v cache_entry)" where
  "both_step (c, m) call = (cache_step c call, store_step m call)"

lemma clear_prefix_matching: "clear_prefix p = clear_matching (\<lambda>key. py_startswith key p)"
  by (simp add: fun_eq_iff clear_prefix_def clear_matching_def)

lemma get_clear_matching:
  "od_get (lru_items (snd (clear_matching P c))) k = (if P k then None else od_get (lru_items c) k)"
  by (auto simp: clear_matching_def Let_def map_of_eq_None_iff)

lemma wf_clear_matching: "cache_wf c \<Longrightarrow> cache_wf (snd (clear_matching P c))"
  by (auto simp: cache_wf_def clear_matching_def Let_def od_pop_all_filter
      intro: order_trans [OF length_filter_le])

text \<open>An assignment puts the key last, and evicts the first entry of a full cache.\<close>

lemma od_pop_head: "od_wf d \<Longrightarrow> od_pop (fst (hd d)) d = tl d"
proof (cases d)
  case (Cons p d')
  assume "od_wf d"
  with Cons have "od_get d' (fst p) = None" by (simp add: map_of_eq_None_iff)
  with Cons show ?thesis using od_pop_absent [of d' "fst p"] by (simp add: AList.delete_eq case_prod_beta)
qed simp

lemma od_wf_put_last: "od_wf d \<Longrightarrow> od_wf (od_pop k d @ [(k, v)])"
  by (auto simp: AList.delete_eq)

lemma od_wf_tl: "od_wf d \<Longrightarrow> od_wf (tl d)"
  by (simp add: map_tl distinct_tl)

lemma cache_set_items:
  assumes "od_wf (lru_items c)"
  shows "lru_items (cache_set now key v ttl c) =
    (let items = od_pop key (lru_items c) @ [(key, \<lparr>ce_value = v, ce_created = now, ce_ttl = ttl\<rparr>)]
     in if lru_max c < length items then tl items else items)"
proof -
  let ?e = "\<lparr>ce_value = v, ce_created = now, ce_ttl = ttl\<rparr>"
  have "od_set key ?e (od_pop key (lru_items c)) = od_pop key (lru_items c) @ [(key, ?e)]"
    by (rule od_set_fresh) simp
  then show ?thesis
    using od_pop_head [OF od_wf_put_last [OF assms, of key ?e]] by (simp add: cache_set_def Let_def)
qed

lemma cache_max [simp]: "lru_max (cache_step c call) = lru_max c"
  by (cases call) (auto simp: cache_get_def cache_set_def cache_clear_def clear_matching_def
      clear_prefix_def Let_def split: option.splits)

lemma od_get_tl: "od_wf d \<Longrightarrow> od_get (tl d) k = Some e \<Longrightarrow> od_get d k = Some e"
  by (cases d) (auto simp: rev_image_eqI dest!: map_of_SomeD)

lemma wf_cache_set:
  assumes "cache_wf c"
  shows "cache_wf (cache_set now key v ttl c)"
proof -
  have wf: "od_wf (lru_items c)" and len: "length (od_pop key (lru_items c)) \<le> lru_max c"
    using assms length_od_pop_le order_trans by (fastforce simp: cache_wf_def)+
  have "lru_max (cache_set now key v ttl c) = lru_max c"
    using cache_max [of c "CSet now key v ttl"] by simp
  then show ?thesis
    using len od_wf_put_last [OF wf] od_wf_tl [OF od_wf_put_last [OF wf]]
    by (simp add: cache_wf_def cache_set_items [OF wf] Let_def del: map_append)
qed

lemma get_cache_set:
  assumes "od_wf (lru_items c)" and "od_get (lru_items (cache_set now key v ttl c)) k = Some e"
  shows "if k = key then e = \<lparr>ce_value = v, ce_created = now, ce_ttl = ttl\<rparr> else od_get (lru_items c) k = Some e"
proof -
  let ?items = "od_pop key (lru_items c) @ [(key, \<lparr>ce_value = v, ce_created = now, ce_ttl = ttl\<rparr>)]"
  have "od_get ?items k = Some e"
    using assms(2) od_get_tl [OF od_wf_put_last [OF assms(1)]]
    by (auto simp: cache_set_items [OF assms(1)] Let_def split: if_splits)
  then show ?thesis by (auto simp: map_add_Some_iff split: if_splits)
qed

lemma wf_cache_get: "cache_wf c \<Longrightarrow> cache_wf (snd (cache_get now k c))"
  by (auto simp: cache_wf_def cache_get_def length_od_move_to_end
      intro: order_trans [OF length_od_pop_le] split: option.splits)

lemma get_cache_get:
  "od_get (lru_items (snd (cache_get now k c))) j = Some e \<Longrightarrow> od_get (lru_items c) j = Some e"
  by (auto simp: cache_get_def split: option.splits if_splits)

lemma map_le_entries: "m \<subseteq>\<^sub>m n \<longleftrightarrow> (\<forall>k e. m k = Some e \<longrightarrow> n k = Some e)"
  by (force simp: map_le_def)

lemma both_step_refines: "cache_refines s \<Longrightarrow> cache_refines (both_step s call)"
proof (cases s)
  case (Pair c m)
  assume r: "cache_refines s"
  then have wf: "cache_wf c" and le: "od_get (lru_items c) \<subseteq>\<^sub>m m" using Pair by (auto simp: cache_refines_def)
  have od: "od_wf (lru_items c)" using wf by (simp add: cache_wf_def)
  show ?thesis
  proof (cases call)
    case (CGet now k)
    then show ?thesis using Pair wf_cache_get [OF wf] le
      by (auto simp: cache_refines_def map_le_entries dest!: get_cache_get)
  next
    case (CSet now k v ttl)
    then show ?thesis using Pair wf_cache_set [OF wf] le
      by (auto simp: cache_refines_def map_le_entries dest!: get_cache_set [OF od] split: if_splits)
  next
    case CClear
    then show ?thesis using Pair by (simp add: cache_refines_def cache_clear_def cache_wf_def)
  next
    case (CMatching P)
    then show ?thesis using Pair wf_clear_matching [OF wf] le
      by (auto simp: cache_refines_def map_le_entries get_clear_matching split: if_splits)
  next
    case (CPrefix p)
    then show ?thesis using Pair wf_clear_matching [OF wf] le
      by (auto simp: cache_refines_def map_le_entries clear_prefix_matching get_clear_matching split: if_splits)
  qed
qed

interpretation cache_machine: safe_machine both_step cache_refines "\<lambda>s call. True"
  by unfold_locales (rule both_step_refines)

section \<open>What an eviction may forget\<close>

text \<open>The entry of a key is in the dict, and only keys of \<open>used\<close> stand behind it.\<close>

definition recent :: "string \<Rightarrow> 'v cache_entry \<Rightarrow> string set \<Rightarrow> (string, 'v cache_entry) odict \<Rightarrow> bool" where
  "recent k e used d \<longleftrightarrow> (\<exists>a b. d = a @ (k, e) # b \<and> fst ` set b \<subseteq> used)"

lemma recent_filter: "recent k e used d \<Longrightarrow> P (k, e) \<Longrightarrow> recent k e used (filter P d)"
proof -
  assume "recent k e used d" and P: "P (k, e)"
  then obtain a b where "d = a @ (k, e) # b" "fst ` set b \<subseteq> used" unfolding recent_def by blast
  with P have "filter P d = filter P a @ (k, e) # filter P b" "fst ` set (filter P b) \<subseteq> used" by auto
  then show ?thesis unfolding recent_def by blast
qed

lemma recent_snoc: "recent k e used d \<Longrightarrow> j \<in> used \<Longrightarrow> recent k e used (d @ [(j, x)])"
proof -
  assume "recent k e used d" and j: "j \<in> used"
  then obtain a b where "d = a @ (k, e) # b" "fst ` set b \<subseteq> used" unfolding recent_def by blast
  with j have "d @ [(j, x)] = a @ (k, e) # (b @ [(j, x)])" "fst ` set (b @ [(j, x)]) \<subseteq> used" by auto
  then show ?thesis unfolding recent_def by blast
qed

lemma recent_last: "recent k e used (d @ [(k, e)])"
  unfolding recent_def by (intro exI [of _ d] exI [of _ "[]"]) simp

lemma recent_get: "recent k e used d \<Longrightarrow> od_wf d \<Longrightarrow> od_get d k = Some e"
  unfolding recent_def by auto

lemma recent_tl:
  assumes "recent k e used d" and "od_wf d" and "finite used" and "card used < m" and "m < length d"
  shows "recent k e used (tl d)"
proof -
  obtain a b where d: "d = a @ (k, e) # b" and b: "fst ` set b \<subseteq> used" using assms(1) unfolding recent_def by blast
  have "card (fst ` set b) = length b" using assms(2) d distinct_card [of "map fst b"] by simp
  then have "length b \<le> card used" using card_mono [OF assms(3) b] by simp
  then have "a \<noteq> []" using assms(4,5) d by auto
  then have "tl d = tl a @ (k, e) # b" using d by (cases a) auto
  with b show ?thesis unfolding recent_def by blast
qed

fun touched :: "'v cache_call \<Rightarrow> string list" where
  "touched (CGet now k) = [k]"
| "touched (CSet now k v ttl) = [k]"
| "touched call = []"

text \<open>Calls that neither assign nor clear a key, and that read it only while it is valid.\<close>

fun spares :: "string \<Rightarrow> 'v cache_entry \<Rightarrow> 'v cache_call \<Rightarrow> bool" where
  "spares k e (CGet now j) = (j = k \<longrightarrow> \<not> is_expired now e)"
| "spares k e (CSet now j v ttl) = (j \<noteq> k)"
| "spares k e CClear = False"
| "spares k e (CMatching P) = (\<not> P k)"
| "spares k e (CPrefix p) = (\<not> py_startswith k p)"

lemma recent_step:
  assumes "recent k e used (lru_items c)" and "od_wf (lru_items c)" and "spares k e call"
    and "set (touched call) - {k} \<subseteq> used" and "finite used" and "card used < lru_max c"
  shows "recent k e used (lru_items (cache_step c call))"
proof -
  have pop: "recent k e used (od_pop j (lru_items c))" if "j \<noteq> k" for j
    using recent_filter [OF assms(1)] that by (simp add: AList.delete_eq)
  have clear: "recent k e used (lru_items (snd (clear_matching P c)))" if "\<not> P k" for P
    using recent_filter [OF assms(1)] that by (simp add: clear_matching_def od_pop_all_filter Let_def)
  show ?thesis
  proof (cases call)
    case (CGet now j)
    then show ?thesis
      using assms(1,3,4) pop [of j] recent_get [OF assms(1,2)] recent_last recent_snoc [OF pop]
      by (cases "j = k") (auto simp: cache_get_def od_move_to_end_def split: option.splits)
  next
    case (CSet now j v ttl)
    then have j: "j \<noteq> k" "j \<in> used" using assms(3,4) by auto
    let ?items = "od_pop j (lru_items c) @ [(j, \<lparr>ce_value = v, ce_created = now, ce_ttl = ttl\<rparr>)]"
    have r: "recent k e used ?items" using recent_snoc [OF pop] j by blast
    have "recent k e used (tl ?items)" if "lru_max c < length ?items"
      by (rule recent_tl [OF r od_wf_put_last [OF assms(2)] assms(5,6) that])
    with r show ?thesis using CSet by (simp add: cache_set_items [OF assms(2)] Let_def)
  qed (use assms(3) clear in \<open>auto simp: clear_prefix_matching\<close>)
qed

lemma od_wf_step: "od_wf (lru_items c) \<Longrightarrow> od_wf (lru_items (cache_step c call))"
proof (cases call)
  case (CSet now j v ttl)
  assume wf: "od_wf (lru_items c)"
  show ?thesis using CSet od_wf_put_last [OF wf] od_wf_tl [OF od_wf_put_last [OF wf]]
    by (simp add: cache_set_items [OF wf] Let_def del: map_append)
qed (auto simp: cache_get_def cache_clear_def clear_prefix_def clear_matching_def Let_def split: option.splits)

lemma recent_run:
  assumes "recent k e used (lru_items c)" and "od_wf (lru_items c)" and "list_all (spares k e) calls"
    and "set (concat (map touched calls)) - {k} \<subseteq> used" and "finite used" and "card used < lru_max c"
  shows "recent k e used (lru_items (run_machine cache_step c calls)) \<and> od_wf (lru_items (run_machine cache_step c calls))"
  using assms
proof (induction calls arbitrary: c)
  case (Cons call calls)
  have "recent k e used (lru_items (cache_step c call))" using Cons.prems by (intro recent_step) auto
  with Cons.prems have "recent k e used (lru_items (run_machine cache_step (cache_step c call) calls))
      \<and> od_wf (lru_items (run_machine cache_step (cache_step c call) calls))"
    by (intro Cons.IH od_wf_step) auto
  then show ?case by simp
qed simp

section \<open>The properties\<close>

text \<open>
  Claim C37: the cache refines the store that never forgets. Whatever the sequence of calls and
  their clock values, it holds at most \<open>max_size\<close> entries, every entry it holds is the last one
  assigned to its key since a clearing of that key, and a read returns only the value of that
  assignment, not older than its time to live.
\<close>

theorem cache_refines_store:
  "let c = run_machine cache_step (new_cache n) calls; m = run_machine store_step Map.empty calls
   in length (lru_items c) \<le> n \<and> od_get (lru_items c) \<subseteq>\<^sub>m m
      \<and> (case fst (cache_get now k c) of None \<Rightarrow> True
         | Some v \<Rightarrow> (case m k of None \<Rightarrow> False | Some e \<Rightarrow> v = ce_value e \<and> now - ce_created e \<le> ce_ttl e))"
proof -
  have both: "run_machine both_step (c, m) calls = (run_machine cache_step c calls, run_machine store_step m calls)"
    for c :: "'a lru_cache" and m by (induction calls arbitrary: c m) auto
  have max: "lru_max (run_machine cache_step c calls) = lru_max c" for c :: "'a lru_cache"
    by (induction calls arbitrary: c) auto
  have "cache_refines (new_cache n :: 'a lru_cache, Map.empty)"
    by (simp add: cache_refines_def cache_wf_def new_cache_def)
  then have "cache_refines (run_machine both_step (new_cache n, Map.empty) calls)"
    by (rule cache_machine.run_inv_unguarded) simp
  then show ?thesis
    unfolding both using max [of "new_cache n"]
    by (auto simp: cache_refines_def cache_wf_def map_le_entries cache_get_def is_expired_def new_cache_def Let_def
        split: option.splits)
qed

text \<open>
  Eviction follows the least recent use. After an assignment, as long as the calls
  neither assign nor clear the key again and read or assign fewer than \<open>max_size\<close> different
  other keys, the cache still answers the key with the assigned value until its time to live is
  over.
\<close>

theorem recently_used_entry_survives:
  assumes "od_wf (lru_items c)" and "list_all (spares k \<lparr>ce_value = v, ce_created = t, ce_ttl = ttl\<rparr>) calls"
    and "card (set (concat (map touched calls)) - {k}) < lru_max c" and "now - t \<le> ttl"
  shows "fst (cache_get now k (run_machine cache_step (cache_set t k v ttl c) calls)) = Some v"
proof -
  let ?e = "\<lparr>ce_value = v, ce_created = t, ce_ttl = ttl\<rparr>" and ?used = "set (concat (map touched calls)) - {k}"
  let ?c = "cache_set t k v ttl c"
  have len: "tl (d @ [x]) = tl d @ [x]" if "0 < length d" for d and x :: "string \<times> 'a cache_entry"
    using that by (cases d) auto
  have "od_pop k (lru_items c) \<noteq> []" if "lru_max c < Suc (length (od_pop k (lru_items c)))"
    using that assms(3) by auto
  then have r: "recent k ?e ?used (lru_items ?c)"
    using recent_last [of k ?e ?used] by (auto simp: cache_set_items [OF assms(1)] Let_def len)
  have wf: "od_wf (lru_items ?c)" using od_wf_step [OF assms(1), of "CSet t k v ttl"] by simp
  have "lru_max ?c = lru_max c" using cache_max [of c "CSet t k v ttl"] by simp
  then have "recent k ?e ?used (lru_items (run_machine cache_step ?c calls))
      \<and> od_wf (lru_items (run_machine cache_step ?c calls))"
    using assms(3) by (intro recent_run [OF r wf assms(2)]) auto
  then show ?thesis using assms(4) recent_get by (fastforce simp: cache_get_def is_expired_def)
qed

theorem recently_used_entry_survives_witness:
  "fst (cache_get 9 ''a'' (run_machine cache_step (cache_set 0 ''a'' (7::nat) 10 (new_cache 2))
     [CSet 1 ''b'' 8 10, CGet 2 ''a'', CSet 3 ''b'' 9 10])) = Some 7"
  by (rule recently_used_entry_survives) (simp_all add: new_cache_def is_expired_def card_insert_if)

end
