(* ===== verification/Answer_Cache.thy ===== *)
theory Answer_Cache
  imports Lru_Cache
begin

text \<open>
  \<open>RAGCache\<close> of \<open>app/utils/cache.py\<close> with the memory backend: the key of a cached retrieval,
  reading, storing and clearing the entries of one collection. The settings of a call are an
  argument; the hexadecimal SHA-256 of a text is a parameter \<open>dig\<close>.
\<close>

section \<open>The text of a request\<close>

text \<open>\<open>json.dumps\<close> of a string, all characters outside printable ASCII escaped.\<close>

definition ascii_escape :: "char \<Rightarrow> string" where
  "ascii_escape c = (let n = of_char c :: nat in
     if n < 127 then json_escape_char c
     else CHR 0x5C # ''u00'' @ [hex_digit (n div 16), hex_digit (n mod 16)])"

definition json_string :: "string \<Rightarrow> string" where
  "json_string s = CHR 0x22 # concat (map ascii_escape s) @ [CHR 0x22]"

definition key_json :: "string \<Rightarrow> int \<Rightarrow> string \<Rightarrow> string \<Rightarrow> string" where
  "key_json query k model namespace =
     CHR ''{'' # json_string ''k'' @ '': '' @ dec_int k
     @ '', '' @ json_string ''model'' @ '': '' @ json_string model
     @ '', '' @ json_string ''namespace'' @ '': '' @ json_string (if namespace = [] then ''stateless'' else namespace)
     @ '', '' @ json_string ''query'' @ '': '' @ json_string query @ ''}''"

section \<open>Keys\<close>

definition first_line :: "string \<Rightarrow> string" where
  "first_line query = takeWhile (\<lambda>c. c \<noteq> CHR 0x0A) query"

definition short_hash :: "(string \<Rightarrow> string) \<Rightarrow> string \<Rightarrow> string" where
  "short_hash dig name = take 12 (dig name)"

definition plural_token :: "(string \<Rightarrow> string) \<Rightarrow> string \<Rightarrow> string" where
  "plural_token dig name = ''|'' @ short_hash dig name @ ''|''"

definition multi_collections :: "string \<Rightarrow> string list" where
  "multi_collections collection =
     sort (filter (\<lambda>v. v \<noteq> []) (py_split_on CHR ''|'' (drop (length ''multi-v2:'') collection)))"

definition generate_key :: "(string \<Rightarrow> string) \<Rightarrow> string \<Rightarrow> int \<Rightarrow> string \<Rightarrow> string \<Rightarrow> string" where
  "generate_key dig query k model namespace =
     (let json = key_json query k model namespace; collection = first_line query;
          query_hash = take 20 (dig json)
      in if py_startswith collection ''multi-v2:''
         then ''v2:'' @ concat (map (plural_token dig) (multi_collections collection)) @ '':'' @ query_hash
         else short_hash dig collection @ '':'' @ query_hash)"

section \<open>Operations\<close>

record cache_config =
  cc_enable_cache :: bool
  cc_query_k :: int
  cc_default_model :: string
  cc_cache_ttl :: real

definition or_k :: "int option \<Rightarrow> cache_config \<Rightarrow> int" where
  "or_k k config = (case k of None \<Rightarrow> cc_query_k config | Some n \<Rightarrow> if n = 0 then cc_query_k config else n)"

definition or_model :: "string option \<Rightarrow> cache_config \<Rightarrow> string" where
  "or_model model config = (case model of None \<Rightarrow> cc_default_model config
     | Some m \<Rightarrow> if m = [] then cc_default_model config else m)"

definition rag_get :: "(string \<Rightarrow> string) \<Rightarrow> cache_config \<Rightarrow> real \<Rightarrow> string \<Rightarrow> int option \<Rightarrow> string option \<Rightarrow> string
    \<Rightarrow> 'v lru_cache \<Rightarrow> 'v option \<times> 'v lru_cache" where
  "rag_get dig config now query k model namespace c =
     (if \<not> cc_enable_cache config then (None, c)
      else cache_get now (generate_key dig query (or_k k config) (or_model model config) namespace) c)"

definition rag_set :: "(string \<Rightarrow> string) \<Rightarrow> cache_config \<Rightarrow> real \<Rightarrow> string \<Rightarrow> 'v \<Rightarrow> int option \<Rightarrow> string option \<Rightarrow> string
    \<Rightarrow> 'v lru_cache \<Rightarrow> 'v lru_cache" where
  "rag_set dig config now query results k model namespace c =
     (if \<not> cc_enable_cache config then c
      else cache_set now (generate_key dig query (or_k k config) (or_model model config) namespace)
             results (cc_cache_ttl config) c)"

definition clear_collection :: "(string \<Rightarrow> string) \<Rightarrow> string \<Rightarrow> 'v lru_cache \<Rightarrow> nat \<times> 'v lru_cache" where
  "clear_collection dig collection_name c =
     (let name = (if collection_name = [] then ''documents'' else collection_name);
          (deleted, c') = clear_prefix (short_hash dig name @ '':'') c;
          (more, c'') = clear_matching (\<lambda>key. py_startswith key ''v2:'' \<and> py_contains key (plural_token dig name)) c'
      in (deleted + more, c''))"

section \<open>Clearing a collection\<close>

text \<open>The collections whose passages the retrieval of a query searches.\<close>

definition searches :: "string \<Rightarrow> string \<Rightarrow> bool" where
  "searches query name \<longleftrightarrow>
     (if py_startswith (first_line query) ''multi-v2:'' then name \<in> set (multi_collections (first_line query))
      else name = first_line query)"

lemma token_in_tokens: "name \<in> set names \<Longrightarrow> \<exists>u v. concat (map (plural_token dig) names) = u @ plural_token dig name @ v"
  by (metis (no_types, opaque_lifting) concat.simps(2) concat_append in_set_conv_decomp list.simps(9) map_append)

lemma cleared_key:
  assumes "searches query name"
  shows "py_startswith (generate_key dig query k model namespace) (short_hash dig name @ '':'')
    \<or> (py_startswith (generate_key dig query k model namespace) ''v2:''
       \<and> py_contains (generate_key dig query k model namespace) (plural_token dig name))"
proof (cases "py_startswith (first_line query) ''multi-v2:''")
  case True
  then obtain u v where "concat (map (plural_token dig) (multi_collections (first_line query))) = u @ plural_token dig name @ v"
    using assms token_in_tokens [of name] unfolding searches_def by presburger
  then have "generate_key dig query k model namespace
      = (''v2:'' @ u) @ plural_token dig name @ (v @ '':'' @ take 20 (dig (key_json query k model namespace)))"
    using True by (simp add: generate_key_def Let_def)
  then show ?thesis unfolding py_contains_iff py_startswith_iff by (metis append_assoc)
next
  case False
  then have "name = first_line query" using assms by (simp add: searches_def)
  with False have "generate_key dig query k model namespace
      = (short_hash dig name @ '':'') @ take 20 (dig (key_json query k model namespace))"
    by (simp add: generate_key_def Let_def)
  then show ?thesis unfolding py_startswith_iff by blast
qed

text \<open>
  Clearing a collection leaves none of its answers behind. After \<open>clear_collection\<close> no
  retrieval that searches the collection, alone or among others, is answered from the cache,
  whatever its other arguments, the settings and the digest; the number returned is the number
  of entries removed, and every entry that is left is one that was there.
\<close>

theorem cleared_collection_is_not_served:
  assumes "searches query (if collection_name = [] then ''documents'' else collection_name)"
  shows "let (deleted, c') = clear_collection dig collection_name c
    in fst (rag_get dig config now query k model namespace c') = None
      \<and> deleted + cache_len c' = cache_len c \<and> set (lru_items c') \<subseteq> set (lru_items c)"
proof -
  have pop: "od_pop_all (map fst (filter (\<lambda>x. P (fst x)) d)) d = filter (\<lambda>x. \<not> P (fst x)) d"
    for P and d :: "(string, 'a cache_entry) odict"
    unfolding od_pop_all_filter by (rule filter_cong [OF refl]) force
  have matching: "fst (clear_matching P d) + cache_len (snd (clear_matching P d)) = cache_len d
      \<and> set (lru_items (snd (clear_matching P d))) \<subseteq> set (lru_items d)" for P and d :: "'a lru_cache"
    using sum_length_filter_compl [of "\<lambda>x. P (fst x)" "lru_items d"]
    by (auto simp: clear_matching_def cache_len_def pop Let_def filter_map comp_def)
  have gone: "od_get (lru_items (snd (clear_collection dig collection_name c))) (generate_key dig query n m namespace) = None"
    for n m
    using cleared_key [OF assms, of dig n m namespace]
    by (auto simp: clear_collection_def clear_prefix_matching get_clear_matching Let_def case_prod_beta
        simp del: map_of_eq_None_iff split: if_splits)
  have count: "fst (clear_collection dig collection_name c) + cache_len (snd (clear_collection dig collection_name c)) = cache_len c
      \<and> set (lru_items (snd (clear_collection dig collection_name c))) \<subseteq> set (lru_items c)"
    unfolding clear_collection_def clear_prefix_matching Let_def case_prod_beta fst_conv snd_conv
    using matching by (metis (no_types, lifting) add.assoc add.commute subset_trans)
  show ?thesis
    using gone count by (auto simp: case_prod_beta rag_get_def cache_get_def)
qed

definition two_collections :: string where
  "two_collections = ''multi-v2:kb2|kb1'' @ [CHR 0x0A] @ ''why?''"

definition plain_config :: cache_config where
  "plain_config = \<lparr>cc_enable_cache = True, cc_query_k = 4, cc_default_model = ''m'', cc_cache_ttl = 60\<rparr>"

theorem cleared_collection_is_not_served_witness:
  "let c = rag_set id plain_config 0 two_collections (7::nat) None None ''stateless'' (new_cache 100)
   in fst (rag_get id plain_config 1 two_collections None None ''stateless'' c) = Some 7
    \<and> fst (rag_get id plain_config 1 two_collections None None ''stateless'' (snd (clear_collection id ''kb1'' c))) = None"
proof -
  have s: "searches two_collections (if ''kb1'' = [] then ''documents'' else ''kb1'')"
    by (simp add: searches_def two_collections_def first_line_def multi_collections_def)
  let ?c = "rag_set id plain_config 0 two_collections (7::nat) None None ''stateless'' (new_cache 100)"
  have "fst (rag_get id plain_config 1 two_collections None None ''stateless'' ?c) = Some 7"
    by (simp add: rag_get_def rag_set_def cache_get_def cache_set_def plain_config_def new_cache_def is_expired_def Let_def)
  moreover have "fst (rag_get id plain_config 1 two_collections None None ''stateless''
      (snd (clear_collection id ''kb1'' ?c))) = None"
    using cleared_collection_is_not_served [OF s, of id ?c plain_config 1 None None "''stateless''"]
    by (simp add: case_prod_beta)
  ultimately show ?thesis by (simp add: Let_def)
qed

end
