(* ===== verification/Retry.thy ===== *)
theory Retry
  imports Py_Text Complex_Main
begin

text \<open>
  Retrying with exponential backoff, \<open>app/utils/retry.py\<close>. The function that is retried is a
  parameter: what its calls do is a sequence, one outcome per attempt. The exceptions that the
  caller lets the loop catch are a predicate. The result of a run is what it returns or raises
  together with the waits it has slept.
\<close>

section \<open>Classification of errors\<close>

record exn =
  ex_class :: string
  ex_text :: string

definition get_exception_type :: "exn \<Rightarrow> string" where
  "get_exception_type e = (let msg = py_lower (ex_text e) in
     if py_contains msg ''rate'' \<or> py_contains msg ''429'' then ''rate_limit''
     else if py_contains msg ''timeout'' \<or> py_contains msg ''504'' then ''timeout''
     else if py_contains msg ''401'' \<or> py_contains msg ''unauthorized'' then ''auth''
     else if py_contains msg ''403'' \<or> py_contains msg ''forbidden'' then ''permission''
     else if py_contains msg ''not found'' \<or> py_contains msg ''404'' then ''not_found''
     else ''unknown'')"

definition is_retryable :: "exn \<Rightarrow> bool" where
  "is_retryable e \<longleftrightarrow> get_exception_type e \<in> {''rate_limit'', ''timeout'', ''unknown''}"

text \<open>\<open>wait_with_backoff\<close> with its default factor and base: the seconds slept.\<close>

definition wait_with_backoff :: "nat \<Rightarrow> real" where
  "wait_with_backoff attempt = 1 * 2 ^ attempt"

section \<open>The loop\<close>

datatype 'a retry_result = Returned 'a | Raised exn | NoAttempts

text \<open>After the loop: \<open>raise last_error\<close>, or \<open>RuntimeError\<close> when there was no attempt.\<close>

definition raise_last :: "exn option \<Rightarrow> 'a retry_result" where
  "raise_last last_error = (case last_error of None \<Rightarrow> NoAttempts | Some e \<Rightarrow> Raised e)"

fun retry_loop :: "(exn \<Rightarrow> bool) \<Rightarrow> nat \<Rightarrow> (nat \<Rightarrow> exn + 'a) \<Rightarrow> nat list \<Rightarrow> exn option \<Rightarrow> 'a retry_result \<times> real list" where
  "retry_loop caught max_retries func [] last_error = (raise_last last_error, [])"
| "retry_loop caught max_retries func (attempt # attempts) last_error =
     (case func attempt of
        Inr v \<Rightarrow> (Returned v, [])
      | Inl e \<Rightarrow>
          if \<not> caught e then (Raised e, [])
          else if attempt + 1 < max_retries \<and> is_retryable e
          then let (r, waits) = retry_loop caught max_retries func attempts (Some e)
               in (r, wait_with_backoff attempt # waits)
          else (raise_last (Some e), []))"

definition retry_with_backoff :: "(exn \<Rightarrow> bool) \<Rightarrow> nat \<Rightarrow> (nat \<Rightarrow> exn + 'a) \<Rightarrow> 'a retry_result \<times> real list" where
  "retry_with_backoff caught max_retries func = retry_loop caught max_retries func [0..<max_retries] None"

section \<open>Streams\<close>

text \<open>
  An attempt of a stream emits chunks and then ends or raises. The chunks that reach the
  consumer are part of the result.
\<close>

fun stream_loop :: "(exn \<Rightarrow> bool) \<Rightarrow> nat \<Rightarrow> (nat \<Rightarrow> 'c list \<times> exn option) \<Rightarrow> nat list \<Rightarrow> exn option
    \<Rightarrow> 'c list \<times> unit retry_result \<times> real list" where
  "stream_loop caught max_retries func [] last_error = ([], raise_last last_error, [])"
| "stream_loop caught max_retries func (attempt # attempts) last_error =
     (let (chunks, failure) = func attempt in
      case failure of
        None \<Rightarrow> (chunks, Returned (), [])
      | Some e \<Rightarrow>
          if \<not> caught e then (chunks, Raised e, [])
          else if attempt + 1 < max_retries \<and> is_retryable e
          then let (more, r, waits) = stream_loop caught max_retries func attempts (Some e)
               in (chunks @ more, r, wait_with_backoff attempt # waits)
          else (chunks, raise_last (Some e), []))"

definition retry_stream_with_backoff :: "(exn \<Rightarrow> bool) \<Rightarrow> nat \<Rightarrow> (nat \<Rightarrow> 'c list \<times> exn option)
    \<Rightarrow> 'c list \<times> unit retry_result \<times> real list" where
  "retry_stream_with_backoff caught max_retries func = stream_loop caught max_retries func [0..<max_retries] None"

section \<open>The reference\<close>

text \<open>The attempt that decides: the first that does not fail with an error worth another attempt, or the last.\<close>

definition worth_retry :: "(exn \<Rightarrow> bool) \<Rightarrow> exn + 'a \<Rightarrow> bool" where
  "worth_retry caught r = (case r of Inl e \<Rightarrow> caught e \<and> is_retryable e | Inr v \<Rightarrow> False)"

definition deciding_attempt :: "(exn \<Rightarrow> bool) \<Rightarrow> nat \<Rightarrow> (nat \<Rightarrow> exn + 'a) \<Rightarrow> nat" where
  "deciding_attempt caught max_retries func =
     length (takeWhile (\<lambda>i. worth_retry caught (func i)) [0..<max_retries - 1])"

definition as_result :: "exn + 'a \<Rightarrow> 'a retry_result" where
  "as_result r = (case r of Inl e \<Rightarrow> Raised e | Inr v \<Rightarrow> Returned v)"

lemma takeWhile_upt_Cons:
  "i < n \<Longrightarrow> takeWhile P [i..<n] = (if P i then i # takeWhile P [Suc i..<n] else [])"
  by (simp add: upt_conv_Cons)

lemma retry_loop_reference:
  assumes "i < m"
  shows "retry_loop caught m func [i..<m] last_error =
    (let k = length (takeWhile (\<lambda>j. worth_retry caught (func j)) [i..<m - 1])
     in (as_result (func (i + k)), map wait_with_backoff [i..<i + k]))"
  using assms
proof (induction "m - i" arbitrary: i last_error)
  case 0
  then show ?case by simp
next
  case (Suc d)
  note upt = upt_conv_Cons [OF Suc.prems]
  show ?case
  proof (cases "i + 1 < m \<and> worth_retry caught (func i)")
    case True
    then obtain e where e: "func i = Inl e" "caught e" "is_retryable e"
      by (auto simp: worth_retry_def split: sum.splits)
    have w: "takeWhile (\<lambda>j. worth_retry caught (func j)) [i..<m - 1]
        = i # takeWhile (\<lambda>j. worth_retry caught (func j)) [Suc i..<m - 1]"
      using True by (subst takeWhile_upt_Cons) auto
    have "retry_loop caught m func [Suc i..<m] (Some e) =
        (let k = length (takeWhile (\<lambda>j. worth_retry caught (func j)) [Suc i..<m - 1])
         in (as_result (func (Suc i + k)), map wait_with_backoff [Suc i..<Suc i + k]))"
      using Suc.hyps(2) True by (intro Suc.hyps(1)) auto
    with True e w show ?thesis by (simp add: upt Let_def upt_conv_Cons del: upt_Suc)
  next
    case False
    have w: "takeWhile (\<lambda>j. worth_retry caught (func j)) [i..<m - 1] = []"
      using False by (cases "i < m - 1") (auto simp: takeWhile_upt_Cons)
    show ?thesis
      using False w unfolding upt
      by (auto simp: as_result_def raise_last_def worth_retry_def Let_def split: sum.splits)
  qed
qed

text \<open>A stream is the same loop over the failures, with the chunks of every attempt made.\<close>

definition stream_outcome :: "'c list \<times> exn option \<Rightarrow> exn + unit" where
  "stream_outcome a = (case snd a of None \<Rightarrow> Inr () | Some e \<Rightarrow> Inl e)"

lemma stream_loop_retry:
  "stream_loop caught m func attempts last_error =
    (let (r, waits) = retry_loop caught m (stream_outcome \<circ> func) attempts last_error
     in (concat (map (fst \<circ> func) (take (Suc (length waits)) attempts)), r, waits))"
proof (induction attempts arbitrary: last_error)
  case (Cons i attempts)
  show ?case
    using Cons [of "snd (func i)"]
    by (cases "func i"; cases "snd (func i)")
      (auto simp: stream_outcome_def raise_last_def Let_def case_prod_beta split: option.splits)
qed (simp add: raise_last_def)

section \<open>The properties\<close>

text \<open>
  The loop computes its reference. With at least one attempt allowed, it makes
  attempts 0 to \<open>k\<close>, where \<open>k\<close> is the first attempt that succeeds, fails with an error the
  loop does not catch or does not retry, or is the last one allowed; it returns or raises
  exactly what attempt \<open>k\<close> did, and has slept 1, 2, 4, ... seconds, \<open>2 ^ k - 1\<close> in all.
\<close>

theorem retry_computes_first_decisive_attempt:
  "retry_with_backoff caught (Suc n) func =
     (let k = deciding_attempt caught (Suc n) func
      in (as_result (func k), map (\<lambda>i. 2 ^ i) [0..<k]))
   \<and> sum_list (snd (retry_with_backoff caught (Suc n) func)) = 2 ^ deciding_attempt caught (Suc n) func - 1
   \<and> deciding_attempt caught (Suc n) func \<le> n"
proof -
  have w: "map wait_with_backoff xs = map (\<lambda>i. 2 ^ i) xs" for xs by (simp add: wait_with_backoff_def)
  have s: "sum_list (map (\<lambda>i. 2 ^ i) [0..<k]) = (2::real) ^ k - 1" for k by (induction k) auto
  have k: "deciding_attempt caught (Suc n) func \<le> n"
    using length_takeWhile_le [of _ "[0..<n]"] by (simp add: deciding_attempt_def)
  have "retry_with_backoff caught (Suc n) func =
     (let k = deciding_attempt caught (Suc n) func in (as_result (func k), map (\<lambda>i. 2 ^ i) [0..<k]))"
    by (simp add: retry_with_backoff_def retry_loop_reference deciding_attempt_def w Let_def del: upt_Suc)
  with s k show ?thesis by (simp add: Let_def)
qed

text \<open>
  A retried stream does not start afresh for its consumer. The consumer receives the
  chunks of every attempt made, the failed ones included, in one sequence: when the first
  attempts break off, the beginning of the answer is repeated.
\<close>

theorem retried_stream_repeats_chunks:
  "fst (retry_stream_with_backoff caught (Suc n) func) =
     concat (map (\<lambda>i. fst (func i)) [0..<Suc (deciding_attempt caught (Suc n) (stream_outcome \<circ> func))])"
proof -
  let ?k = "deciding_attempt caught (Suc n) (stream_outcome \<circ> func)"
  have k: "?k \<le> n" using length_takeWhile_le [of _ "[0..<n]"] by (simp add: deciding_attempt_def)
  then have "take (Suc ?k) [0..<Suc n] = [0..<Suc ?k]" by (simp add: take_upt del: upt_Suc)
  moreover have "length (snd (retry_loop caught (Suc n) (stream_outcome \<circ> func) [0..<Suc n] None)) = ?k"
    by (simp add: retry_loop_reference deciding_attempt_def Let_def del: upt_Suc)
  ultimately show ?thesis
    by (simp add: retry_stream_with_backoff_def stream_loop_retry case_prod_beta comp_def del: upt_Suc)
qed

end
