(* ===== verification/User_Invariant.thy ===== *)
theory User_Invariant
  imports User_Keys
begin

text \<open>
  The invariant of the user database and the statements that keep it. \<open>admitted\<close> is the
  abstract store: a database changes only by statements that respect the shape of the rows.
  Every operation of the store is shown to be a sequence of admitted statements.
\<close>

section \<open>Well-formed rows\<close>

text \<open>
  \<open>user_shape\<close> holds whatever the interleaving; \<open>user_locked\<close> (a user marked as in deletion is
  disabled) only when no update acts on a deletion status that has changed since it was read.
  \<open>strict\<close> says whether the second is part of the invariant.
\<close>

definition user_shape :: "user_row \<Rightarrow> bool" where
  "user_shape u \<longleftrightarrow> u_role u \<in> set user_roles \<and> normalize_email (u_email u) = u_email u
     \<and> u_status u \<in> set ([] # user_deletion_statuses)"

definition user_locked :: "user_row \<Rightarrow> bool" where
  "user_locked u \<longleftrightarrow> u_status u = [] \<or> \<not> u_enabled u"

definition user_fine :: "bool \<Rightarrow> user_row \<Rightarrow> bool" where
  "user_fine strict u \<longleftrightarrow> user_shape u \<and> (strict \<longrightarrow> user_locked u)"

lemmas user_fine_defs = user_fine_def user_shape_def user_locked_def

definition kbs_ok :: "string list \<Rightarrow> bool" where
  "kbs_ok kbs \<longleftrightarrow> distinct kbs \<and> list_all (\<lambda>i. i = default_id \<or> kb_id_pattern i) kbs"

definition key_ok :: "key_row \<Rightarrow> bool" where
  "key_ok k \<longleftrightarrow> k_scopes k \<noteq> [] \<and> distinct (k_scopes k) \<and> set (k_scopes k) \<subseteq> set api_scopes \<and> kbs_ok (k_kbs k)"

definition udb_fine :: "bool \<Rightarrow> udb \<Rightarrow> bool" where
  "udb_fine strict db \<longleftrightarrow> integrity db \<and> list_all (user_fine strict) (users db) \<and> list_all key_ok (keys db)"

section \<open>Admitted statements\<close>

definition keeps_user :: "bool \<Rightarrow> (user_row \<Rightarrow> user_row) \<Rightarrow> user_row \<Rightarrow> bool" where
  "keeps_user strict f u \<longleftrightarrow> (user_fine strict u \<longrightarrow> user_fine strict (f u))"

definition keeps_key :: "(key_row \<Rightarrow> key_row) \<Rightarrow> key_row \<Rightarrow> bool" where
  "keeps_key f k \<longleftrightarrow> (key_ok k \<longrightarrow> key_ok (f k))"

inductive admitted :: "bool \<Rightarrow> udb \<Rightarrow> udb \<Rightarrow> bool" for strict where
  none [intro!, simp]: "admitted strict db db"
| add_user: "user_fine strict u \<Longrightarrow> insert_user u db = Inr db' \<Longrightarrow> admitted strict db db'"
| change_user: "(\<And>u. u_id (f u) = u_id u \<and> u_email (f u) = u_email u) \<Longrightarrow>
    (\<And>u. u \<in> set (users db) \<Longrightarrow> u_id u = uid \<Longrightarrow> keeps_user strict f u) \<Longrightarrow> admitted strict db (set_user uid f db)"
| drop_user: "admitted strict db (snd (delete_user_row uid db))"
| add_key: "key_ok k \<Longrightarrow> insert_key k db = Inr db' \<Longrightarrow> admitted strict db db'"
| set_key_row: "(\<And>k. k_id (f k) = k_id k \<and> key_slot (f k) = key_slot k) \<Longrightarrow>
    (\<And>k. k \<in> set (keys db) \<Longrightarrow> k_id k = kid \<Longrightarrow> keeps_key f k) \<Longrightarrow> admitted strict db (set_key kid f db)"
| change_key_row: "(\<And>k. k_id (f k) = k_id k \<and> k_user (f k) = k_user k \<and> keeps_key f k) \<Longrightarrow>
    distinct (map key_slot (keys (set_key kid f db))) \<Longrightarrow> admitted strict db (set_key kid f db)"
| drop_key: "admitted strict db (remove_key kid db)"
| seq: "admitted strict db db' \<Longrightarrow> admitted strict db' db'' \<Longrightarrow> admitted strict db db''"

lemma rename_integrity:
  assumes "integrity db" and "row \<in> set (keys db)"
    and "\<not> list_ex (\<lambda>k. k_user k = k_user row \<and> k_name k = name \<and> k_id k \<noteq> k_id row) (keys db)"
  shows "integrity (set_key (k_id row) (\<lambda>k. k\<lparr>k_name := name\<rparr>) db)"
proof -
  let ?f = "\<lambda>k. if k_id k = k_id row then k\<lparr>k_name := name\<rparr> else k"
  have inj: "inj_on k_id (set (keys db))" "inj_on key_slot (set (keys db))" "distinct (keys db)"
    using assms(1) by (auto simp: integrity_def distinct_map)
  have "inj_on (\<lambda>k. key_slot (?f k)) (set (keys db))"
  proof (rule inj_onI)
    fix k k' assume k: "k \<in> set (keys db)" "k' \<in> set (keys db)" "key_slot (?f k) = key_slot (?f k')"
    have row: "x = row" if "x \<in> set (keys db)" "k_id x = k_id row" for x
      using inj_onD [OF inj(1)] that assms(2) by blast
    show "k = k'"
    proof (cases "k_id k = k_id row"; cases "k_id k' = k_id row")
      assume "k_id k = k_id row" "k_id k' = k_id row"
      with k(1,2) show ?thesis by (metis inj(1) inj_onD)
    next
      assume *: "k_id k = k_id row" "k_id k' \<noteq> k_id row"
      with row [OF k(1)] k assms(3) show ?thesis by (auto simp: key_slot_def list_ex_iff)
    next
      assume *: "k_id k \<noteq> k_id row" "k_id k' = k_id row"
      with row [OF k(2)] k assms(3) show ?thesis by (auto simp: key_slot_def list_ex_iff)
    next
      assume "k_id k \<noteq> k_id row" "k_id k' \<noteq> k_id row"
      with k inj(2) show ?thesis by (auto dest: inj_onD)
    qed
  qed
  moreover have "map key_slot (keys (set_key (k_id row) (\<lambda>k. k\<lparr>k_name := name\<rparr>) db)) = map (\<lambda>k. key_slot (?f k)) (keys db)"
    by (simp add: set_key_def upd_where_def)
  ultimately show ?thesis
    using assms(1) inj(3)
    by (simp add: integrity_def set_key_def map_upd_where image_upd_where distinct_map)
qed

lemma admitted_ok: "admitted strict db db' \<Longrightarrow> udb_fine strict db \<Longrightarrow> udb_fine strict db'"
proof (induction rule: admitted.induct)
  case (add_user u db db')
  then have "integrity db'" using insert_user_integrity by (auto simp: udb_fine_def)
  with add_user show ?case by (auto simp: udb_fine_def insert_user_def split: if_splits)
next
  case (change_user f db uid)
  then have "integrity (set_user uid f db)" by (intro set_user_integrity) (auto simp: udb_fine_def)
  with change_user show ?case
    by (auto simp: udb_fine_def set_user_def list_all_iff set_upd_where keeps_user_def)
next
  case (drop_user db uid)
  then have "integrity (snd (delete_user_row uid db))" using delete_user_integrity by (auto simp: udb_fine_def)
  with drop_user show ?case by (auto simp: udb_fine_def delete_user_row_def list_all_iff)
next
  case (add_key k db db')
  then have "integrity db'" using insert_key_integrity by (auto simp: udb_fine_def)
  with add_key show ?case by (auto simp: udb_fine_def insert_key_def split: if_splits)
next
  case (set_key_row f db kid)
  then have "integrity (set_key kid f db)" by (intro set_key_integrity) (auto simp: udb_fine_def)
  with set_key_row show ?case
    by (auto simp: udb_fine_def set_key_def list_all_iff set_upd_where keeps_key_def)
next
  case (change_key_row f kid db)
  have kept: "k_id (f k) = k_id k" "k_user (f k) = k_user k" "key_ok k \<Longrightarrow> key_ok (f k)" for k
    using change_key_row(1) by (auto simp: keeps_key_def)
  have "integrity db" using change_key_row.prems by (simp add: udb_fine_def)
  then have "integrity (set_key kid f db)"
    using change_key_row(2) kept(1,2) by (simp add: integrity_def set_key_def map_upd_where image_upd_where)
  with change_key_row.prems kept(3) show ?case
    by (auto simp: udb_fine_def set_key_def list_all_iff set_upd_where)
next
  case (drop_key db kid)
  then have "integrity (remove_key kid db)" using remove_key_integrity by (auto simp: udb_fine_def)
  with drop_key show ?case by (auto simp: udb_fine_def remove_key_def list_all_iff)
qed auto

section \<open>Normalization yields well-formed columns\<close>

lemma normalize_email_idem [simp]: "normalize_email (normalize_email e) = normalize_email e"
  by (simp add: normalize_email_def trimmed_lower py_strip_trimmed)

lemma scopes_loop_ok:
  "distinct result \<Longrightarrow> set result \<subseteq> set api_scopes \<Longrightarrow>
    distinct (normalize_scopes_loop result ss) \<and> set (normalize_scopes_loop result ss) \<subseteq> set api_scopes"
  by (induction ss arbitrary: result) (auto simp: Let_def)

lemma normalize_scopes_ok:
  "normalize_api_scopes ss \<noteq> [] \<and> distinct (normalize_api_scopes ss) \<and> set (normalize_api_scopes ss) \<subseteq> set api_scopes"
  using scopes_loop_ok [of "[]" ss] by (auto simp: normalize_api_scopes_def Let_def api_scopes_def)

lemma validated_kb_text: "validate_kb_text v = Inr i \<Longrightarrow> i = default_id \<or> kb_id_pattern i"
  by (auto simp: validate_kb_text_def validate_knowledge_base_id_def Let_def split: if_splits)

lemma kb_loop_ok: "kbs_ok result \<Longrightarrow> normalize_kb_loop result vs = Inr kbs \<Longrightarrow> kbs_ok kbs"
proof (induction vs arbitrary: result)
  case (Cons v vs)
  then obtain i where i: "validate_kb_text v = Inr i"
    "normalize_kb_loop (if i \<in> set result then result else result @ [i]) vs = Inr kbs"
    by (auto simp: bindE_eq_Inr)
  have "kbs_ok (if i \<in> set result then result else result @ [i])"
    using Cons.prems(1) validated_kb_text [OF i(1)] by (auto simp: kbs_ok_def)
  with i(2) Cons.IH show ?case by blast
qed simp

lemma normalize_kbs_ok: "normalize_knowledge_base_ids a = Inr kbs \<Longrightarrow> kbs_ok kbs"
  using kb_loop_ok [of "[]"] by (auto simp: normalize_knowledge_base_ids_def kbs_ok_def)

end
