(* ===== verification/User_Machine.thy ===== *)
theory User_Machine
  imports User_Invariant
begin

text \<open>
  The user store as a machine: its operations in any order, each cut where the code holds no
  transaction, so that other operations come between. \<open>update_user\<close> and six of the key operations
  read, and then write; \<open>delete_user\<close> reads, marks, runs its callback, and ends;
  \<open>remove_knowledge_base_from_api_keys\<close> changes the keys, runs its callback, and ends. Operations
  under \<open>BEGIN IMMEDIATE\<close> or of one statement are one step. Every step is a sequence of admitted
  statements.
\<close>

section \<open>Operations are admitted\<close>

lemma admitted_in_tx: "(\<And>x db'. r = Inr (x, db') \<Longrightarrow> admitted strict db db') \<Longrightarrow> admitted strict db (snd (in_tx db r))"
  by (auto simp: in_tx_def split: sum.splits prod.splits)

lemma admitted_touch: "admitted strict db (touch_user uid now db)"
  unfolding touch_user_def by (intro admitted.change_user) (auto simp: keeps_user_def user_fine_defs)

lemma admitted_then_touch: "admitted strict db db' \<Longrightarrow> admitted strict db (touch_user uid now db')"
  by (rule admitted.seq [OF _ admitted_touch])

lemma admitted_change_key:
  assumes "\<And>k. k_id (f k) = k_id k \<and> key_slot (f k) = key_slot k" and "\<And>k. keeps_key f k"
  shows "admitted strict db (snd (change_key row f uid now db))"
  unfolding change_key_def snd_conv using assms by (intro admitted_then_touch admitted.set_key_row) auto

lemmas key_frames = keeps_key_def key_ok_def key_slot_def

lemma user_record_ok:
  "role \<in> set user_roles \<Longrightarrow> user_fine strict (user_record genpw (normalize_email e) pw d role b uuid salt now)"
  by (simp add: user_fine_defs user_record_def)

lemma create_user_admitted: "admitted strict db (snd (create_user genpw e pw d role b uuid salt now db))"
  by (auto simp: create_user_def Let_def user_roles_def intro: admitted.add_user [OF user_record_ok] split: sum.splits)

lemma bootstrap_admitted: "admitted strict db (snd (bootstrap_admin_if_empty genpw e pw uuid salt now db))"
  by (auto simp: bootstrap_admin_if_empty_def Let_def user_roles_def intro: admitted.add_user [OF user_record_ok]
      split: sum.splits)

lemma patched_user_frame:
  "u_id (patched_user genpw p salt now s u) = u_id u \<and> u_email (patched_user genpw p salt now s u) = u_email u
    \<and> u_status (patched_user genpw p salt now s u) = u_status u"
  "u_role u \<in> set user_roles \<Longrightarrow> u_role (patched_user genpw p salt now s u) \<in> set user_roles"
  "u_enabled (patched_user genpw p salt now s u) = (case up_enabled p of None \<Rightarrow> u_enabled u | Some b \<Rightarrow> b)"
  by (auto simp: patched_user_def Let_def split: option.splits)

lemma update_write_admitted:
  assumes "strict \<Longrightarrow> up_enabled p = Some True \<Longrightarrow> u_status u = []"
    and "\<And>v. v \<in> set (users db) \<Longrightarrow> u_id v = uid \<Longrightarrow> v = u"
  shows "admitted strict db (update_user_write genpw uid p salt now seen db)"
  unfolding update_user_write_def
proof (rule admitted.change_user)
  fix v assume "v \<in> set (users db)" "u_id v = uid"
  then have "v = u" by (rule assms(2))
  then show "keeps_user strict (patched_user genpw p salt now seen) v"
    using assms(1) by (auto simp: keeps_user_def user_fine_defs patched_user_frame split: option.splits)
qed (use patched_user_frame in auto)

lemma delete_mark_admitted: "admitted strict db (delete_mark uid now db)"
  by (auto simp: delete_mark_def keeps_user_def user_fine_defs user_deletion_statuses_def
      intro!: admitted.change_user)

lemma delete_restore_admitted: "user_fine strict original \<Longrightarrow> admitted strict db (delete_restore uid original now db)"
  by (auto simp: delete_restore_def keeps_user_def user_fine_defs intro!: admitted.change_user)

lemma delete_mark_failed_admitted: "admitted strict db (delete_mark_failed uid m now db)"
  by (auto simp: delete_mark_failed_def keeps_user_def user_fine_defs user_deletion_statuses_def intro!: admitted.change_user)

lemma delete_row_admitted: "admitted strict db (snd (delete_user_row uid db))"
  by (rule admitted.drop_user)

lemma new_key_ok:
  "kbs_ok kbs \<Longrightarrow> key_ok (new_key_row dig kid uid name value (normalize_api_scopes scopes) kbs b d e now)"
  using normalize_scopes_ok [of scopes] by (simp add: key_ok_def new_key_row_def)

lemma store_key_admitted: "key_ok k \<Longrightarrow> store_key k now db = Inr db' \<Longrightarrow> admitted strict db db'"
  by (auto simp: store_key_def intro: admitted_then_touch [OF admitted.add_key] split: sum.splits)

lemma create_key_admitted: "admitted strict db (snd (create_api_key dig uid name scopes a v b d e val g kid now db))"
  unfolding create_api_key_def
  by (rule admitted_in_tx)
    (auto simp: Let_def bindE_eq_Inr split: if_splits intro: store_key_admitted [OF new_key_ok] dest!: normalize_kbs_ok)

lemma usage_admitted: "admitted strict db (update_api_key_usage uid name now db)"
  by (auto simp: update_api_key_usage_def key_frames intro!: admitted_then_touch admitted.set_key_row split: option.splits)

lemma access_admitted: "admitted strict db (snd (update_api_key_access uid name scopes a val now db))"
proof -
  have "admitted strict db (snd (change_key row (\<lambda>k. k\<lparr>k_scopes := normalize_api_scopes scopes, k_kbs := kbs\<rparr>) uid now db))"
    if "kbs_ok kbs" for row kbs
    using that normalize_scopes_ok [of scopes] by (intro admitted_change_key) (auto simp: key_frames)
  then show ?thesis
    unfolding update_api_key_access_def Let_def
    by (auto simp: bindE_eq_Inr result_simps intro!: admitted_in_tx dest!: normalize_kbs_ok split: option.splits)
      (metis snd_conv)
qed

lemma add_kb_admitted: "admitted strict db (snd (add_knowledge_base_to_api_key uid name kb kid sc val now db))"
proof -
  have app: "kbs_ok (allowed @ [i])" if "kbs_ok allowed" "kbs_ok ids" "i = hd ids" "ids \<noteq> []" "i \<notin> set allowed" for allowed ids i
    using that by (cases ids) (auto simp: kbs_ok_def)
  have one: "ids \<noteq> []" if "normalize_knowledge_base_ids (IdList [kb]) = Inr ids" for ids
    using that by (auto simp: normalize_knowledge_base_ids_def bindE_eq_Inr)
  have ch: "admitted strict db (snd (change_key row (\<lambda>k. k\<lparr>k_kbs := kbs\<rparr>) uid now db))" if "kbs_ok kbs" for row kbs
    using that by (intro admitted_change_key) (auto simp: key_frames)
  have add: "admitted strict db (snd (change_key row (\<lambda>k. k\<lparr>k_kbs := allowed @ [hd ids]\<rparr>) uid now db))"
    if "normalize_knowledge_base_ids (IdList (k_kbs row)) = Inr allowed" "hd ids \<notin> set allowed"
      "normalize_knowledge_base_ids (IdList [kb]) = Inr ids" for row allowed ids
    using that one [OF that(3)] by (intro ch app) (auto intro: normalize_kbs_ok)
  show ?thesis
    unfolding add_knowledge_base_to_api_key_def
  proof (rule admitted_in_tx, elim bindE_InrE)
    fix x db' ids
    assume ids: "normalize_knowledge_base_ids (IdList [kb]) = Inr ids"
      and r: "(let normalized = hd ids;
            row = (case kid of
                     None \<Rightarrow> find_key db uid name
                   | Some i \<Rightarrow> if i = [] then find_key db uid name
                       else find (\<lambda>k. k_user k = uid \<and> k_id k = i) (keys db))
        in case row of
             None \<Rightarrow> Inr (None, db)
           | Some row \<Rightarrow>
               if \<not> k_enabled row then Inr (None, db)
               else if (case sc of None \<Rightarrow> False | Some s \<Rightarrow> s \<noteq> [] \<and> s \<notin> set (k_scopes row))
               then Inr (None, db)
               else bindE (or_raises val) (\<lambda>_.
                    bindE (normalize_knowledge_base_ids (IdList (k_kbs row))) (\<lambda>allowed.
                    if normalized \<in> set allowed then Inr (Some (public_api_key (row\<lparr>k_kbs := allowed\<rparr>)), db)
                    else Inr (change_key row (\<lambda>k. k\<lparr>k_kbs := allowed @ [normalized]\<rparr>) uid now db)))) = Inr (x, db')"
    define found where "found = (case kid of
                     None \<Rightarrow> find_key db uid name
                   | Some i \<Rightarrow> if i = [] then find_key db uid name
                       else find (\<lambda>k. k_user k = uid \<and> k_id k = i) (keys db))"
    show "admitted strict db db'"
    proof (cases found)
      case None
      with r show ?thesis by (simp add: found_def [symmetric] Let_def)
    next
      case (Some row)
      note r = r [unfolded Let_def, folded found_def, unfolded Some option.case]
      show ?thesis
        using r add [OF _ _ ids, of row]
        by (auto simp: bindE_eq_Inr split: if_splits)
    qed
  qed
qed

lemma remove_rows_admitted:
  "remove_kb_rows kb rows acc db = Inr (acc', db') \<Longrightarrow>
    admitted strict db db' \<and> set (rm_originals acc') \<subseteq> set (rm_originals acc) \<union> set rows"
proof (induction rows arbitrary: acc db)
  case (Cons row rows)
  from Cons.prems obtain allowed where allowed: "normalize_knowledge_base_ids (IdList (k_kbs row)) = Inr allowed"
    by (auto simp: bindE_eq_Inr)
  show ?case
  proof (cases "kb \<in> set allowed")
    case False
    with Cons.prems allowed Cons.IH show ?thesis by fastforce
  next
    case True
    let ?f = "\<lambda>k. k\<lparr>k_kbs := k_kbs (fst (stripped_key kb allowed row)), k_enabled := k_enabled (fst (stripped_key kb allowed row))\<rparr>"
    have "kbs_ok (k_kbs (fst (stripped_key kb allowed row)))"
      using normalize_kbs_ok [OF allowed] by (auto simp: stripped_key_def Let_def kbs_ok_def list_all_iff)
    then have a: "admitted strict db (set_key (k_id row) ?f db)" by (intro admitted.set_key_row) (auto simp: key_frames)
    from Cons.prems True allowed have "remove_kb_rows kb rows
        \<lparr>rm_updated = rm_updated acc + 1,
         rm_disabled = rm_disabled acc + (if snd (stripped_key kb allowed row) then 1 else 0),
         rm_originals = rm_originals acc @ [row]\<rparr> (set_key (k_id row) ?f db) = Inr (acc', db')"
      by (simp add: case_prod_beta)
    from Cons.IH [OF this] a show ?thesis by (auto intro: admitted.seq)
  qed
qed auto

lemma remove_begin_admitted:
  assumes "remove_kb_begin uid kb lc now db = (r, db')"
  shows "admitted strict db db'" and "r = Inr acc \<Longrightarrow> set (rm_originals acc) \<subseteq> set (keys db)"
proof -
  have body: "admitted strict db d \<and> set (rm_originals a) \<subseteq> set (keys db)"
    if "bindE (guardE (find_user db uid \<noteq> None) (ValueError ''User not found'')) (\<lambda>_.
        bindE (remove_kb_rows kb (user_keys db uid) \<lparr>rm_updated = 0, rm_disabled = 0, rm_originals = []\<rparr> db) (\<lambda>(acc, db').
        if rm_updated acc = 0 then Inr (acc, db)
        else bindE (or_raises lc) (\<lambda>_. Inr (acc, touch_user uid now db')))) = Inr (a, d)" for a d
    using that by (auto simp: bindE_eq_Inr user_keys_def split: if_splits
        dest!: remove_rows_admitted intro: admitted_then_touch)
  have "admitted strict db (snd (remove_kb_begin uid kb lc now db))"
    unfolding remove_kb_begin_def by (rule admitted_in_tx) (use body in blast)
  with assms show "admitted strict db db'" by simp
  show "set (rm_originals acc) \<subseteq> set (keys db)" if "r = Inr acc"
    using assms that body by (auto simp: remove_kb_begin_def in_tx_def split: sum.splits)
qed

lemma restore_admitted: "list_all key_ok originals \<Longrightarrow> admitted strict db (restore_keys originals db)"
proof (induction originals arbitrary: db)
  case (Cons orig originals)
  have "admitted strict db (set_key (k_id orig) (\<lambda>k. k\<lparr>k_kbs := k_kbs orig, k_enabled := k_enabled orig\<rparr>) db)"
    using Cons.prems by (intro admitted.set_key_row) (auto simp: key_frames)
  with Cons show ?case by (auto intro: admitted.seq)
qed auto

lemma remove_finish_admitted: "list_all key_ok (rm_originals acc) \<Longrightarrow> admitted strict db (snd (remove_kb_finish uid acc outcome now db))"
  by (auto simp: remove_kb_finish_def intro: admitted_then_touch [OF restore_admitted] split: finalize_outcome.splits)

section \<open>Requests that read and then write\<close>

fun statement_ok :: "key_statement \<Rightarrow> bool" where
  "statement_ok (ChangeRow kid f) \<longleftrightarrow> (\<forall>k. k_id (f k) = k_id k \<and> k_user (f k) = k_user k \<and> keeps_key f k)"
| "statement_ok (DropRow kid) \<longleftrightarrow> True"

lemma run_statement_admitted: "statement_ok (snd st) \<Longrightarrow> admitted strict db (run_statement now st db)"
  by (cases st; cases "snd st") (auto simp: Let_def intro!: admitted_then_touch admitted.drop_key admitted.change_key_row)

lemma planned_statement_ok: "key_plan dig req db = Inr (Some st) \<Longrightarrow> statement_ok (snd st)"
proof (cases req)
  case (SetScopes uid name scopes)
  assume "key_plan dig req db = Inr (Some st)"
  with SetScopes show ?thesis
    using normalize_scopes_ok [of scopes] by (auto simp: change_plan_def key_frames Let_def bindE_eq_Inr split: option.splits)
next
  case (SetKbs uid name a)
  assume "key_plan dig req db = Inr (Some st)"
  with SetKbs show ?thesis
    by (auto simp: change_plan_def key_frames Let_def bindE_eq_Inr dest!: normalize_kbs_ok split: option.splits)
qed (auto simp: change_plan_def key_frames Let_def split: option.splits if_splits)

text \<open>The operations of \<open>User_Keys\<close> are the read and the write with nothing between them.\<close>

lemma change_key_at_once:
  assumes "integrity (set_key (k_id row) f db)"
  shows "snd (change_key row f uid now db) = run_statement now (uid, ChangeRow (k_id row) f) db"
  using assms by (simp add: change_key_def integrity_def Let_def)

lemma same_slot_at_once:
  assumes "integrity db" and "\<And>k. k_id (f k) = k_id k \<and> key_slot (f k) = key_slot k"
  shows "run_statement now (uid, ChangeRow (k_id row) f) db = snd (change_key row f uid now db)"
  using change_key_at_once set_key_integrity [OF assms] by metis

lemma key_requests_at_once:
  assumes "integrity db"
  shows "key_request_at_once dig (ToggleKey uid name b) now db = snd (toggle_api_key_enabled uid name b now db)"
    and "key_request_at_once dig (DeleteKey uid name) now db = snd (delete_api_key uid name now db)"
    and "key_request_at_once dig (RotateKey uid name v) now db = snd (rotate_api_key dig uid name v now db)"
    and "key_request_at_once dig (RenameKey uid name n) now db = snd (update_api_key_name uid name n now db)"
    and "key_request_at_once dig (SetScopes uid name scopes) now db = snd (update_api_key_scopes uid name scopes now db)"
    and "key_request_at_once dig (SetKbs uid name a) now db = snd (update_api_key_knowledge_bases uid name a now db)"
proof -
  note at_once = same_slot_at_once [OF assms]
  show "key_request_at_once dig (ToggleKey uid name b) now db = snd (toggle_api_key_enabled uid name b now db)"
    by (simp add: key_request_at_once_def toggle_api_key_enabled_def change_plan_def Let_def at_once key_slot_def
        del: run_statement.simps split: option.splits)
  show "key_request_at_once dig (DeleteKey uid name) now db = snd (delete_api_key uid name now db)"
    by (simp add: key_request_at_once_def delete_api_key_def split: option.splits)
  show "key_request_at_once dig (RotateKey uid name v) now db = snd (rotate_api_key dig uid name v now db)"
    by (simp add: key_request_at_once_def rotate_api_key_def change_plan_def at_once key_slot_def case_prod_beta
        del: run_statement.simps split: option.splits)
  show "key_request_at_once dig (RenameKey uid name n) now db = snd (update_api_key_name uid name n now db)"
  proof (cases "find_key db uid name")
    case (Some row)
    then have row: "row \<in> set (keys db)" "k_user row = uid" by (auto dest!: find_key_Some simp: key_slot_def)
    show ?thesis
    proof (cases "list_ex (\<lambda>k. k_user k = uid \<and> k_name k = py_strip n \<and> k_id k \<noteq> k_id row) (keys db)")
      case False
      then have "integrity (set_key (k_id row) (\<lambda>k. k\<lparr>k_name := py_strip n\<rparr>) db)"
        using rename_integrity [OF assms row(1)] row(2) by blast
      from change_key_at_once [OF this] Some False show ?thesis
        by (simp add: key_request_at_once_def update_api_key_name_def change_plan_def Let_def case_prod_beta
            del: run_statement.simps)
    qed (use Some in \<open>simp add: key_request_at_once_def update_api_key_name_def Let_def\<close>)
  qed (simp add: key_request_at_once_def update_api_key_name_def Let_def)
  note plain = key_request_at_once_def change_plan_def Let_def in_tx_def need_kb_def case_prod_beta at_once key_slot_def
  show "key_request_at_once dig (SetScopes uid name scopes) now db = snd (update_api_key_scopes uid name scopes now db)"
  proof (cases "find_key db uid name")
    case (Some row)
    then show ?thesis
      by (cases "normalize_knowledge_base_ids (IdList (k_kbs row))")
        (simp_all add: plain update_api_key_scopes_def del: run_statement.simps)
  qed (simp add: plain update_api_key_scopes_def)
  show "key_request_at_once dig (SetKbs uid name a) now db = snd (update_api_key_knowledge_bases uid name a now db)"
    by (cases "normalize_knowledge_base_ids a")
      (simp_all add: plain update_api_key_knowledge_bases_def del: run_statement.simps split: option.splits)
qed

section \<open>The machine\<close>

text \<open>
  Requests in flight are numbered. An update of a user and a change of a key have read and not
  yet written, a deletion has read and not yet marked the user, or has marked it and runs its
  callback; a removal of a knowledge base holds the keys it changed.
\<close>

record user_sys =
  us_db :: udb
  us_updates :: "nat \<Rightarrow> (string \<times> user_patch \<times> user_row) option"
  us_keys :: "nat \<Rightarrow> (string \<times> key_statement) option"
  us_leaving :: "nat \<Rightarrow> (string \<times> user_row) option"
  us_deletions :: "nat \<Rightarrow> (string \<times> user_row) option"
  us_removals :: "nat \<Rightarrow> (string \<times> removal) option"

datatype user_event =
    CreateUser string string string string bool string string string
  | UpdateRead nat string user_patch
  | UpdateWrite nat string string
  | BootstrapAdmin string string string string string
  | DeleteNow string
  | DeleteRead nat string
  | DeleteMark nat string
  | DeleteEnd nat callback_outcome string
  | CreateKey string string "string list" kb_ids_arg string bool string "string option" "string option" string string string
  | UseKey string string string
  | KeyRead nat key_request
  | KeyWrite nat string
  | SetAccess string string "string list" kb_ids_arg "string option" string
  | AddKb string string string "string option" "string option" "string option" string
  | RemoveKbBegin nat string string "string option" string
  | RemoveKbEnd nat finalize_outcome string

definition delete_end :: "string \<Rightarrow> user_row \<Rightarrow> callback_outcome \<Rightarrow> string \<Rightarrow> udb \<Rightarrow> udb" where
  "delete_end uid original outcome now db = (case outcome of
     PreflightError m \<Rightarrow> delete_restore uid original now db
   | CallbackRaises m \<Rightarrow> delete_mark_failed uid m now db
   | CallbackReturns \<Rightarrow> snd (delete_user_row uid db))"

definition set_db :: "user_sys \<Rightarrow> udb \<Rightarrow> user_sys" where
  "set_db s db = s\<lparr>us_db := db\<rparr>"

fun user_step :: "(string \<Rightarrow> string \<Rightarrow> string) \<Rightarrow> (string \<Rightarrow> string) \<Rightarrow> user_sys \<Rightarrow> user_event \<Rightarrow> user_sys" where
  "user_step genpw dig s (CreateUser e pw d role b uuid salt now) = set_db s (snd (create_user genpw e pw d role b uuid salt now (us_db s)))"
| "user_step genpw dig s (UpdateRead r uid p) = (case find_user (us_db s) uid of
      None \<Rightarrow> s
    | Some u \<Rightarrow> (case update_user_check p u of
        Inl _ \<Rightarrow> s | Inr _ \<Rightarrow> s\<lparr>us_updates := (us_updates s)(r \<mapsto> (uid, p, u))\<rparr>))"
| "user_step genpw dig s (UpdateWrite r salt now) = (case us_updates s r of
      None \<Rightarrow> s
    | Some (uid, p, seen) \<Rightarrow> s\<lparr>us_db := update_user_write genpw uid p salt now seen (us_db s),
        us_updates := (us_updates s)(r := None)\<rparr>)"
| "user_step genpw dig s (BootstrapAdmin e pw uuid salt now) = set_db s (snd (bootstrap_admin_if_empty genpw e pw uuid salt now (us_db s)))"
| "user_step genpw dig s (DeleteNow uid) = set_db s (snd (delete_user_row uid (us_db s)))"
| "user_step genpw dig s (DeleteRead r uid) = (case find_user (us_db s) uid of
      None \<Rightarrow> s | Some u \<Rightarrow> s\<lparr>us_leaving := (us_leaving s)(r \<mapsto> (uid, u))\<rparr>)"
| "user_step genpw dig s (DeleteMark r now) = (case us_leaving s r of
      None \<Rightarrow> s
    | Some (uid, original) \<Rightarrow> s\<lparr>us_db := delete_mark uid now (us_db s), us_leaving := (us_leaving s)(r := None),
        us_deletions := (us_deletions s)(r \<mapsto> (uid, original))\<rparr>)"
| "user_step genpw dig s (DeleteEnd r outcome now) = (case us_deletions s r of
      None \<Rightarrow> s
    | Some (uid, original) \<Rightarrow> s\<lparr>us_db := delete_end uid original outcome now (us_db s),
        us_deletions := (us_deletions s)(r := None)\<rparr>)"
| "user_step genpw dig s (CreateKey uid name scopes a v b d e val g kid now) =
     set_db s (snd (create_api_key dig uid name scopes a v b d e val g kid now (us_db s)))"
| "user_step genpw dig s (UseKey uid name now) = set_db s (update_api_key_usage uid name now (us_db s))"
| "user_step genpw dig s (KeyRead r req) = (case key_plan dig req (us_db s) of
      Inl _ \<Rightarrow> s | Inr None \<Rightarrow> s | Inr (Some st) \<Rightarrow> s\<lparr>us_keys := (us_keys s)(r \<mapsto> st)\<rparr>)"
| "user_step genpw dig s (KeyWrite r now) = (case us_keys s r of
      None \<Rightarrow> s
    | Some st \<Rightarrow> s\<lparr>us_db := run_statement now st (us_db s), us_keys := (us_keys s)(r := None)\<rparr>)"
| "user_step genpw dig s (SetAccess uid name scopes a val now) = set_db s (snd (update_api_key_access uid name scopes a val now (us_db s)))"
| "user_step genpw dig s (AddKb uid name kb kid sc val now) = set_db s (snd (add_knowledge_base_to_api_key uid name kb kid sc val now (us_db s)))"
| "user_step genpw dig s (RemoveKbBegin r uid kb lc now) = (case remove_kb_begin uid kb lc now (us_db s) of
      (Inl e, db) \<Rightarrow> s
    | (Inr acc, db) \<Rightarrow> s\<lparr>us_db := db, us_removals := (us_removals s)(r \<mapsto> (uid, acc))\<rparr>)"
| "user_step genpw dig s (RemoveKbEnd r outcome now) = (case us_removals s r of
      None \<Rightarrow> s
    | Some (uid, acc) \<Rightarrow> s\<lparr>us_db := snd (remove_kb_finish uid acc outcome now (us_db s)),
        us_removals := (us_removals s)(r := None)\<rparr>)"

text \<open>
  The lock-out needs more than the code enforces: an update that enables a user must find, when
  it writes, the deletion status it has read. A run in which every step does is \<open>timely_run\<close>.
\<close>

fun timely :: "user_sys \<Rightarrow> user_event \<Rightarrow> bool" where
  "timely s (UpdateWrite r salt now) = (case us_updates s r of
     None \<Rightarrow> True
   | Some (uid, p, seen) \<Rightarrow> up_enabled p \<noteq> Some True
       \<or> (case find_user (us_db s) uid of None \<Rightarrow> True | Some u \<Rightarrow> u_status u = u_status seen))"
| "timely s _ = True"

fun timely_run :: "(string \<Rightarrow> string \<Rightarrow> string) \<Rightarrow> (string \<Rightarrow> string) \<Rightarrow> user_sys \<Rightarrow> user_event list \<Rightarrow> bool" where
  "timely_run genpw dig s [] = True"
| "timely_run genpw dig s (ev # evs) = (timely s ev \<and> timely_run genpw dig (user_step genpw dig s ev) evs)"

definition user_inv :: "bool \<Rightarrow> user_sys \<Rightarrow> bool" where
  "user_inv strict s \<longleftrightarrow> udb_fine strict (us_db s)
     \<and> (\<forall>r uid p u. us_updates s r = Some (uid, p, u) \<longrightarrow> update_user_check p u = Inr ())
     \<and> (\<forall>r st. us_keys s r = Some st \<longrightarrow> statement_ok (snd st))
     \<and> (\<forall>r uid u. us_leaving s r = Some (uid, u) \<longrightarrow> user_fine strict u)
     \<and> (\<forall>r uid u. us_deletions s r = Some (uid, u) \<longrightarrow> user_fine strict u)
     \<and> (\<forall>r uid acc. us_removals s r = Some (uid, acc) \<longrightarrow> list_all key_ok (rm_originals acc))"

definition start_users :: user_sys where
  "start_users = \<lparr>us_db = empty_udb, us_updates = (\<lambda>_. None), us_keys = (\<lambda>_. None), us_leaving = (\<lambda>_. None),
     us_deletions = (\<lambda>_. None), us_removals = (\<lambda>_. None)\<rparr>"

lemma start_users_inv: "user_inv strict start_users"
  by (simp add: user_inv_def start_users_def empty_udb_def udb_fine_def integrity_def)

lemma set_db_inv: "user_inv strict s \<Longrightarrow> admitted strict (us_db s) db \<Longrightarrow> user_inv strict (set_db s db)"
  by (auto simp: user_inv_def set_db_def intro: admitted_ok)

lemma delete_end_admitted: "user_fine strict original \<Longrightarrow> admitted strict db (delete_end uid original outcome now db)"
  by (auto simp: delete_end_def intro: delete_restore_admitted delete_mark_failed_admitted delete_row_admitted
      split: callback_outcome.splits)

lemma found_user_fine: "udb_fine strict db \<Longrightarrow> find_user db uid = Some u \<Longrightarrow> user_fine strict u"
  by (auto simp: udb_fine_def list_all_iff dest!: find_user_Some)

lemma pending_write_admitted:
  assumes "udb_fine strict (us_db s)" and "us_updates s r = Some (uid, p, seen)"
    and "update_user_check p seen = Inr ()" and "strict \<longrightarrow> timely s (UpdateWrite r salt now)"
  shows "admitted strict (us_db s) (update_user_write genpw uid p salt now seen (us_db s))"
proof (cases "find_user (us_db s) uid")
  case None
  then show ?thesis
    by (intro update_write_admitted [of _ _ "\<lparr>u_id = [], u_email = [], u_display = [], u_hash = [], u_role = [],
        u_enabled = True, u_created = [], u_updated = [], u_status = [], u_error = []\<rparr>"]) (auto simp: find_user_None)
next
  case (Some u)
  have one: "v = u" if "v \<in> set (users (us_db s))" "u_id v = uid" for v
    using find_user_mem [of "us_db s" v] assms(1) Some that by (auto simp: udb_fine_def)
  have "u_status u = []" if "strict" "up_enabled p = Some True"
    using that assms Some found_user_fine [OF assms(1) Some]
    by (auto simp: update_user_check_def user_fine_defs result_simps)
  then show ?thesis using one by (rule update_write_admitted)
qed

lemma user_step_inv:
  assumes "user_inv strict s" and "strict \<longrightarrow> timely s ev"
  shows "user_inv strict (user_step genpw dig s ev)"
proof -
  have ok: "udb_fine strict (us_db s)" using assms by (simp add: user_inv_def)
  note set_db = set_db_inv [OF assms(1)]
  show ?thesis
  proof (cases ev)
    case (UpdateRead r uid p)
    then show ?thesis using assms by (auto simp: user_inv_def split: option.splits sum.splits if_splits)
  next
    case (UpdateWrite r salt now)
    have "udb_fine strict (update_user_write genpw uid p salt now seen (us_db s))" if "us_updates s r = Some (uid, p, seen)"
      for uid p seen
      using that assms ok UpdateWrite by (intro admitted_ok [OF pending_write_admitted [OF ok that]]) (auto simp: user_inv_def)
    then show ?thesis
      using UpdateWrite assms by (auto simp: user_inv_def split: option.splits if_splits)
  next
    case (DeleteRead r uid)
    then show ?thesis
      using assms found_user_fine [OF ok] by (auto simp: user_inv_def split: option.splits if_splits)
  next
    case (DeleteMark r now)
    then show ?thesis
      using assms by (auto simp: user_inv_def intro: admitted_ok [OF delete_mark_admitted] split: option.splits if_splits)
  next
    case (DeleteEnd r outcome now)
    then show ?thesis
      using assms by (auto simp: user_inv_def intro: admitted_ok [OF delete_end_admitted] split: option.splits if_splits)
  next
    case (KeyRead r req)
    then show ?thesis
      using assms planned_statement_ok by (auto simp: user_inv_def split: option.splits sum.splits if_splits)
  next
    case (KeyWrite r now)
    then show ?thesis
      using assms by (auto simp: user_inv_def intro: admitted_ok [OF run_statement_admitted] split: option.splits if_splits)
  next
    case (RemoveKbBegin r uid kb lc now)
    obtain x db' where x: "remove_kb_begin uid kb lc now (us_db s) = (x, db')" by fastforce
    have "udb_fine strict db'" using remove_begin_admitted(1) [OF x] ok by (rule admitted_ok)
    moreover have "list_all key_ok (rm_originals acc)" if "x = Inr acc" for acc
      using remove_begin_admitted(2) [OF x that] ok by (auto simp: udb_fine_def list_all_iff)
    ultimately show ?thesis using RemoveKbBegin x assms by (auto simp: user_inv_def split: sum.splits)
  next
    case (RemoveKbEnd r outcome now)
    then show ?thesis
      using assms by (auto simp: user_inv_def intro: admitted_ok [OF remove_finish_admitted] split: option.splits)
  qed (use set_db ok in \<open>auto intro: create_user_admitted bootstrap_admitted delete_row_admitted
        create_key_admitted usage_admitted access_admitted add_kb_admitted\<close>)
qed

interpretation user_machine: safe_machine "user_step genpw dig" "user_inv False" "\<lambda>s ev. True" for genpw dig
  by unfold_locales (rule user_step_inv, simp_all)

interpretation timely_machine: safe_machine "user_step genpw dig" "user_inv True" timely for genpw dig
  by unfold_locales (rule user_step_inv, simp_all)

lemma timely_run_admissible:
  "timely_run genpw dig s evs \<Longrightarrow> timely_machine.admissible genpw dig s evs"
  by (induction evs arbitrary: s) auto

text \<open>What every run keeps, and what a timely one keeps.\<close>

lemma run_users_fine: "udb_fine False (us_db (run_machine (user_step genpw dig) start_users evs))"
proof -
  have "user_inv False (run_machine (user_step genpw dig) start_users evs)"
    by (rule user_machine.run_inv_unguarded [OF start_users_inv]) simp
  then show ?thesis by (simp add: user_inv_def)
qed

lemma timely_users_fine:
  assumes "timely_run genpw dig start_users evs"
  shows "udb_fine True (us_db (run_machine (user_step genpw dig) start_users evs))"
proof -
  have "user_inv True (run_machine (user_step genpw dig) start_users evs)"
    using timely_machine.run_inv [OF start_users_inv timely_run_admissible [OF assms]] .
  then show ?thesis by (simp add: user_inv_def)
qed

text \<open>\<open>update_user\<close> is its read and its write with nothing between them.\<close>

lemma update_user_at_once:
  "us_db (run_machine (user_step genpw dig) (set_db start_users db) [UpdateRead r uid p, UpdateWrite r salt now])
    = snd (update_user genpw uid p salt now db)"
  by (auto simp: update_user_def set_db_def start_users_def Let_def split: option.splits sum.splits)

end
