(* ===== verification/User_Claims.thy ===== *)
theory User_Claims
  imports User_Machine
begin

text \<open>The properties of the user store, and the lemmas about removing a knowledge base from keys.\<close>

section \<open>Removing a knowledge base\<close>

lemma valid_kb_text: "i = default_id \<or> kb_id_pattern i \<Longrightarrow> validate_kb_text i = Inr i"
proof -
  assume i: "i = default_id \<or> kb_id_pattern i"
  have "py_trimmed i" if "kb_id_pattern i"
  proof -
    have "i = ''kb_'' @ drop 3 i" using that by (metis append_take_drop_id kb_id_pattern_def)
    then show ?thesis using that hex32_trimmed [of "drop 3 i" "''kb_''"] by (simp add: kb_id_pattern_def py_isspace_def)
  qed
  moreover have "py_trimmed default_id" by (simp add: default_id_def py_trimmed_def py_isspace_def)
  ultimately have "py_strip i = i" using i py_strip_trimmed by blast
  with i show ?thesis by (auto simp: validate_kb_text_def validate_knowledge_base_id_def Let_def)
qed

lemma normalize_kbs_id: "kbs_ok kbs \<Longrightarrow> normalize_knowledge_base_ids (IdList kbs) = Inr kbs"
proof -
  have "distinct (result @ vs) \<Longrightarrow> list_all (\<lambda>i. i = default_id \<or> kb_id_pattern i) vs \<Longrightarrow>
      normalize_kb_loop result vs = Inr (result @ vs)" for result vs
    by (induction vs arbitrary: result) (auto simp: valid_kb_text)
  then show "kbs_ok kbs \<Longrightarrow> normalize_knowledge_base_ids (IdList kbs) = Inr kbs"
    by (simp add: normalize_knowledge_base_ids_def kbs_ok_def)
qed

text \<open>Rewriting rows one by one is one rewriting of the table.\<close>

definition overlay :: "key_row list \<Rightarrow> key_row \<Rightarrow> key_row" where
  "overlay rows k = (case find (\<lambda>r. k_id r = k_id k) rows of None \<Rightarrow> k
     | Some r \<Rightarrow> k\<lparr>k_kbs := k_kbs r, k_enabled := k_enabled r\<rparr>)"

lemma overlay_id [simp]: "k_id (overlay rows k) = k_id k"
  by (simp add: overlay_def split: option.splits)

lemma overlay_Cons:
  "k_id r \<notin> k_id ` set rows \<Longrightarrow>
    overlay rows (if k_id k = k_id r then k\<lparr>k_kbs := k_kbs r, k_enabled := k_enabled r\<rparr> else k) = overlay (r # rows) k"
proof (cases "k_id k = k_id r")
  case True
  assume "k_id r \<notin> k_id ` set rows"
  then have "find (\<lambda>r'. k_id r' = k_id r) rows = None"
    by (metis (mono_tags, lifting) find_None_iff image_eqI)
  with True show ?thesis by (simp add: overlay_def)
qed (auto simp: overlay_def)

lemma set_key_overlay:
  "k_id r \<notin> k_id ` set rows \<Longrightarrow>
    map (overlay rows) (keys (set_key (k_id r) (\<lambda>k. k\<lparr>k_kbs := k_kbs r, k_enabled := k_enabled r\<rparr>) db))
      = map (overlay (r # rows)) (keys db)"
  using overlay_Cons by (simp add: set_key_def upd_where_def)

lemma restore_keys_overlay:
  "distinct (map k_id originals) \<Longrightarrow> keys (restore_keys originals db) = map (overlay originals) (keys db)"
proof (induction originals arbitrary: db)
  case Nil
  show ?case by (simp add: overlay_def)
next
  case (Cons orig originals)
  then show ?case using set_key_overlay [of orig originals] by simp
qed

definition strip_kb :: "string \<Rightarrow> key_row \<Rightarrow> key_row" where
  "strip_kb kb k = fst (stripped_key kb (k_kbs k) k)"

lemma strip_kb_id [simp]: "k_id (strip_kb kb k) = k_id k"
  by (simp add: strip_kb_def stripped_key_def Let_def)

lemma remove_rows_overlay:
  assumes "list_all key_ok rows" and "distinct (map k_id rows)"
  shows "\<exists>acc' db'. remove_kb_rows kb rows acc db = Inr (acc', db')
    \<and> users db' = users db
    \<and> keys db' = map (overlay (map (strip_kb kb) (filter (\<lambda>r. kb \<in> set (k_kbs r)) rows))) (keys db)
    \<and> rm_originals acc' = rm_originals acc @ filter (\<lambda>r. kb \<in> set (k_kbs r)) rows
    \<and> rm_updated acc' = rm_updated acc + length (filter (\<lambda>r. kb \<in> set (k_kbs r)) rows)"
  using assms
proof (induction rows arbitrary: acc db)
  case Nil
  show ?case by (simp add: overlay_def)
next
  case (Cons row rows)
  have n: "normalize_knowledge_base_ids (IdList (k_kbs row)) = Inr (k_kbs row)"
    using Cons.prems by (intro normalize_kbs_id) (simp add: key_ok_def)
  show ?case
  proof (cases "kb \<in> set (k_kbs row)")
    case False
    with Cons n show ?thesis by simp
  next
    case True
    let ?rows = "map (strip_kb kb) (filter (\<lambda>r. kb \<in> set (k_kbs r)) rows)"
    let ?set = "set_key (k_id row) (\<lambda>k. k\<lparr>k_kbs := k_kbs (strip_kb kb row), k_enabled := k_enabled (strip_kb kb row)\<rparr>)"
    have fresh: "k_id (strip_kb kb row) \<notin> k_id ` set ?rows" using Cons.prems(2) by auto
    have step: "map (overlay ?rows) (keys (?set db)) = map (overlay (strip_kb kb row # ?rows)) (keys db)"
      using set_key_overlay [OF fresh] by simp
    let ?acc = "\<lparr>rm_updated = rm_updated acc + 1,
         rm_disabled = rm_disabled acc + (if snd (stripped_key kb (k_kbs row) row) then 1 else 0),
         rm_originals = rm_originals acc @ [row]\<rparr>"
    obtain acc' db' where ih: "remove_kb_rows kb rows ?acc (?set db) = Inr (acc', db')"
      "users db' = users (?set db)" "keys db' = map (overlay ?rows) (keys (?set db))"
      "rm_originals acc' = rm_originals ?acc @ filter (\<lambda>r. kb \<in> set (k_kbs r)) rows"
      "rm_updated acc' = rm_updated ?acc + length (filter (\<lambda>r. kb \<in> set (k_kbs r)) rows)"
      using Cons.IH [of ?acc "?set db"] Cons.prems by auto
    have "remove_kb_rows kb (row # rows) acc db = Inr (acc', db')"
      using ih(1) n True by (simp add: case_prod_beta strip_kb_def)
    with ih step True show ?thesis by (intro exI [of _ acc'] exI [of _ db']) simp
  qed
qed

text \<open>Over the table the rows come from, an overlay is a rewriting of those rows.\<close>

lemma overlay_own_rows:
  assumes "integrity db" and "\<And>k. k \<in> set (keys db) \<Longrightarrow> k_id (g k) = k_id k"
    and "\<And>k. k \<in> set (keys db) \<Longrightarrow> g k = k\<lparr>k_kbs := k_kbs (g k), k_enabled := k_enabled (g k)\<rparr>"
    and "k \<in> set (keys db)"
  shows "overlay (map g (filter P (keys db))) k = (if P k then g k else k)"
proof -
  have find: "find (\<lambda>r. k_id r = k_id k) (map g (filter P (keys db))) = (if P k then Some (g k) else None)"
  proof (cases "P k")
    case True
    then obtain r where r: "find (\<lambda>r. k_id r = k_id k) (map g (filter P (keys db))) = Some r"
      using assms(2,4) by (cases "find (\<lambda>r. k_id r = k_id k) (map g (filter P (keys db)))") (auto simp: find_None_iff)
    then have "r \<in> set (map g (filter P (keys db)))" "k_id r = k_id k" by (auto dest: find_SomeD)
    then obtain k' where "k' \<in> set (keys db)" "r = g k'" "k_id k' = k_id k" using assms(2) by auto
    with key_by_id [OF assms(1)] assms(4) r True show ?thesis by auto
  next
    case False
    then show ?thesis using key_by_id [OF assms(1) _ assms(4)] assms(2) by (auto simp: find_None_iff)
  qed
  then show ?thesis using assms(3) [OF assms(4)] by (simp add: overlay_def)
qed


lemma strip_kb_frame: "strip_kb kb k = k\<lparr>k_kbs := k_kbs (strip_kb kb k), k_enabled := k_enabled (strip_kb kb k)\<rparr>"
  by (simp add: strip_kb_def stripped_key_def Let_def)

lemma removal_begins:
  assumes i: "integrity db" and k: "list_all key_ok (keys db)" and "find_user db uid = Some u"
  shows "\<exists>acc db'. remove_kb_begin uid kb None now db = (Inr acc, db')
    \<and> keys db' = map (\<lambda>k. if k_user k = uid \<and> kb \<in> set (k_kbs k) then strip_kb kb k else k) (keys db)
    \<and> rm_originals acc = filter (\<lambda>k. k_user k = uid \<and> kb \<in> set (k_kbs k)) (keys db)
    \<and> rm_updated acc = length (rm_originals acc)"
proof -
  let ?P = "\<lambda>k. k_user k = uid \<and> kb \<in> set (k_kbs k)" and ?acc0 = "\<lparr>rm_updated = 0, rm_disabled = 0, rm_originals = []\<rparr>"
  have "list_all key_ok (user_keys db uid)" "distinct (map k_id (user_keys db uid))"
    using i k by (auto simp: user_keys_def list_all_iff integrity_def distinct_map_filter)
  from remove_rows_overlay [OF this, of kb ?acc0 db]
  obtain acc db1 where r: "remove_kb_rows kb (user_keys db uid) ?acc0 db = Inr (acc, db1)"
    "keys db1 = map (overlay (map (strip_kb kb) (filter ?P (keys db)))) (keys db)"
    "rm_originals acc = filter ?P (keys db)" "rm_updated acc = length (filter ?P (keys db))"
    by (auto simp: user_keys_def conj_commute)
  have "keys db1 = map (\<lambda>k. if ?P k then strip_kb kb k else k) (keys db)"
    unfolding r(2) using overlay_own_rows [OF i, of "strip_kb kb"] strip_kb_frame by (intro map_cong) auto
  moreover have "map (\<lambda>k. if ?P k then strip_kb kb k else k) (keys db) = keys db" if "filter ?P (keys db) = []"
    using that by (intro map_idI) (auto simp: filter_empty_conv)
  ultimately show ?thesis
    using assms(3) r by (auto simp: remove_kb_begin_def in_tx_def or_raises_def)
qed

text \<open>Undoing it.\<close>

lemma overlay_strip: "find (\<lambda>r. k_id r = k_id k) rows \<noteq> None \<Longrightarrow> overlay rows (strip_kb kb k) = overlay rows k"
  by (auto simp: overlay_def strip_kb_def stripped_key_def Let_def)

lemma restore_undoes_strip:
  assumes "integrity db" and "k \<in> set (keys db)"
  shows "overlay (filter P (keys db)) (if P k then strip_kb kb k else k) = k"
proof -
  have "overlay (filter P (keys db)) k = k"
    using overlay_own_rows [OF assms(1), of "\<lambda>k. k" k P] assms(2) by simp
  moreover have "find (\<lambda>r. k_id r = k_id k) (filter P (keys db)) \<noteq> None" if "P k"
    using that assms(2) by (auto simp: find_None_iff)
  ultimately show ?thesis using overlay_strip by auto
qed

text \<open>A key found by its value, and its owner.\<close>

lemma found_key_row:
  assumes "find_api_key_by_value dig dt now value db = Some f"
  shows "\<exists>k u. k \<in> set (keys db) \<and> u \<in> set (users db) \<and> u_id u = k_user k \<and> u_enabled u \<and> k_enabled k
    \<and> k_hash k = dig value \<and> \<not> key_expired dt now (k_expires k) \<and> fk_user f = k_user k
    \<and> fk_scopes f = k_scopes k \<and> fk_kbs f = k_kbs k \<and> fk_can_upload f = (''ingest'' \<in> set (k_scopes k))"
proof -
  let ?P = "\<lambda>k. k_hash k = api_key_hash dig value \<and> k_enabled k
                \<and> list_ex (\<lambda>u. u_id u = k_user k \<and> u_enabled u) (users db)"
  obtain k where k: "find ?P (keys db) = Some k"
    using assms by (auto simp: find_api_key_by_value_def split: option.splits if_splits)
  with assms have f: "\<not> key_expired dt now (k_expires k)" "fk_user f = k_user k" "fk_scopes f = k_scopes k"
    "fk_kbs f = k_kbs k" "fk_can_upload f = (''ingest'' \<in> set (k_scopes k))"
    by (auto simp: find_api_key_by_value_def split: if_splits)
  obtain u where "u \<in> set (users db)" "u_id u = k_user k" "u_enabled u"
    using find_SomeD [OF k] by (auto simp: list_ex_iff)
  with f find_SomeD [OF k] show ?thesis by (intro exI [of _ k] exI [of _ u]) (auto simp: api_key_hash_def)
qed

text \<open>Logging in as a user that is enabled.\<close>

lemma found_set_user:
  "(\<And>u. u_id (f u) = u_id u) \<Longrightarrow> find_user (set_user uid f db) uid = map_option f (find_user db uid)"
proof -
  assume f: "\<And>u. u_id (f u) = u_id u"
  have "find (\<lambda>u. u_id u = uid) (upd_where (\<lambda>u. u_id u = uid) f us) = map_option f (find (\<lambda>u. u_id u = uid) us)" for us
    using f by (induction us) (simp_all add: upd_where_def)
  then show ?thesis by (simp add: find_user_def set_user_def)
qed

lemma enabled_user_logs_in:
  assumes "integrity db" and "find_user db uid = Some u" and "u_enabled u"
    and "normalize_email (u_email u) = u_email u" and "checkpw (u_hash u) password"
  shows "authenticate checkpw (u_email u) password db = Some (public_user_of db u)"
proof -
  have u: "u \<in> set (users db)" using find_user_Some [OF assms(2)] by simp
  then have "find (\<lambda>v. u_email v = u_email u \<and> u_enabled v) (users db) \<noteq> None"
    using assms(3) by (auto simp: find_None_iff)
  then obtain v where v: "find (\<lambda>v. u_email v = u_email u \<and> u_enabled v) (users db) = Some v" by blast
  then have "v \<in> set (users db)" "u_email v = u_email u" using find_SomeD [OF v] by auto
  then have "v = u" using assms(1) u by (auto simp: integrity_def distinct_map dest: inj_onD)
  with v assms(4,5) show ?thesis by (simp add: authenticate_def)
qed

section \<open>The properties\<close>

definition two_keys :: udb where
  "two_keys = \<lparr>users = [\<lparr>u_id = ''ann'', u_email = ''a@x'', u_display = ''Ann'', u_hash = ''h'', u_role = ''user'',
       u_enabled = True, u_created = ''t'', u_updated = ''t'', u_status = [], u_error = []\<rparr>],
     keys = map (\<lambda>i. \<lparr>k_id = [i], k_user = ''ann'', k_name = [i], k_hash = [i], k_prefix = [], k_suffix = [],
       k_scopes = [''query''], k_kbs = [''default''], k_enabled = True, k_created = ''t'', k_last_used = [],
       k_usage = 0, k_description = [], k_expires = None\<rparr>) ''ab''\<rparr>"

definition locking_events :: "user_event list" where
  "locking_events = [CreateUser ''ann@x'' ''pw'' [] ''user'' True ''01234567'' [] ''t'',
     CreateKey ''ann-x-01234567'' ''bot'' [''query''] NoIds ''secret'' True [] None None [] ''k1'' ''t'',
     UpdateRead 0 ''ann-x-01234567'' \<lparr>up_display = Some ''Ann'', up_role = None, up_enabled = None, up_password = None\<rparr>,
     KeyRead 0 (RenameKey ''ann-x-01234567'' ''bot'' ''tool''),
     DeleteRead 1 ''ann-x-01234567'', DeleteMark 1 ''t'', UpdateWrite 0 [] ''t'', KeyWrite 0 ''t'',
     DeleteEnd 1 (CallbackRaises ''disk'') ''t'']"

definition db_after :: "nat \<Rightarrow> udb" where
  "db_after n = us_db (run_machine (user_step (\<lambda>salt p. p) id) start_users (take n locking_events))"

text \<open>
  Claim C17: the user database stays consistent. Whatever the sequence of operations, each cut
  where the code holds no transaction (\<open>update_user\<close> and the key operations between their read and
  their write, deletions and removals around their callbacks): identifiers, normalized e-mail
  addresses and the names of the keys of a user are unique, every key has its user, roles, scopes
  and deletion statuses are known ones, and the knowledge base ids of a key are valid and without
  duplicates. If moreover no update that enables a user writes after the deletion status it read
  has changed, every user whose status column says that it is in deletion is disabled.
\<close>

theorem user_store_stays_consistent:
  "let db = us_db (run_machine (user_step genpw dig) start_users evs)
   in integrity db \<and> list_all user_shape (users db) \<and> list_all key_ok (keys db)
     \<and> (timely_run genpw dig start_users evs \<longrightarrow> list_all user_locked (users db))"
  using run_users_fine [of genpw dig evs] timely_users_fine [of genpw dig evs]
  by (auto simp: udb_fine_def user_fine_def list_all_iff Let_def)

theorem user_store_stays_consistent_witness:
  "timely_run (\<lambda>salt p. p) id start_users locking_events
   \<and> map u_status (users (db_after 9)) = [''delete_failed''] \<and> map k_name (keys (db_after 9)) = [''tool'']
   \<and> integrity (db_after 9) \<and> list_all user_locked (users (db_after 9))"
proof -
  have timely: "timely_run (\<lambda>salt p. p) id start_users locking_events" by code_simp
  moreover have "map u_status (users (db_after 9)) = [''delete_failed'']" "map k_name (keys (db_after 9)) = [''tool'']"
    by code_simp+
  moreover have "take 9 locking_events = locking_events" by (simp add: locking_events_def)
  ultimately show ?thesis
    using user_store_stays_consistent [of "\<lambda>salt p. p" id locking_events] by (simp add: db_after_def Let_def)
qed

text \<open>
  Claim C16: a user marked as in deletion is locked out. In every state reached by a run in which
  no update that enables a user writes after the deletion status it read has changed, with any
  password check, clock and digest, neither a login nor an API key is accepted for a user whose
  status column says that its deletion is in progress or has failed. (The column is all that is
  checked: with two deletions of the same user at once, the restoration after the failed
  preflight of one clears the mark of the other.)
\<close>

theorem user_in_deletion_is_locked_out:
  assumes "timely_run genpw dig start_users evs"
  shows "let db = us_db (run_machine (user_step genpw dig) start_users evs)
   in (case authenticate checkpw email password db of None \<Rightarrow> True | Some u \<Rightarrow> pu_enabled u \<and> pu_status u = [])
     \<and> (case find_api_key_by_value dig dt now value db of None \<Rightarrow> True
         | Some k \<Rightarrow> (case find_user db (fk_user k) of None \<Rightarrow> False | Some u \<Rightarrow> u_enabled u \<and> u_status u = []))"
proof -
  let ?db = "us_db (run_machine (user_step genpw dig) start_users evs)"
  have ok: "udb_fine True ?db" using assms by (rule timely_users_fine)
  then have locked: "u_status u = []" if "u \<in> set (users ?db)" "u_enabled u" for u
    using that by (auto simp: udb_fine_def list_all_iff user_fine_defs)
  have i: "integrity ?db" using ok by (simp add: udb_fine_def)
  have "case authenticate checkpw email password ?db of None \<Rightarrow> True | Some u \<Rightarrow> pu_enabled u \<and> pu_status u = []"
    using locked by (auto simp: authenticate_def public_user_of_def dest!: find_SomeD split: option.splits)
  moreover have "case find_api_key_by_value dig dt now value ?db of None \<Rightarrow> True
         | Some k \<Rightarrow> (case find_user ?db (fk_user k) of None \<Rightarrow> False | Some u \<Rightarrow> u_enabled u \<and> u_status u = [])"
  proof (cases "find_api_key_by_value dig dt now value ?db")
    case (Some f)
    then obtain k :: key_row and u where "fk_user f = k_user k" "u \<in> set (users ?db)" "u_id u = k_user k" "u_enabled u"
      using found_key_row [OF Some] by blast
    moreover have "find_user ?db (u_id u) = Some u" using find_user_mem [OF i] \<open>u \<in> set (users ?db)\<close> by blast
    ultimately show ?thesis using locked [of u] Some by simp
  qed simp
  ultimately show ?thesis by (simp add: Let_def)
qed

theorem user_in_deletion_is_locked_out_witness:
  "timely_run (\<lambda>salt p. p) id start_users (take 5 locking_events)
   \<and> (\<exists>u. authenticate (=) ''ann@x'' ''pw'' (db_after 5) = Some u \<and> pu_enabled u \<and> pu_status u = [])
   \<and> timely_run (\<lambda>salt p. p) id start_users locking_events
   \<and> map u_status (users (db_after 9)) = [''delete_failed'']
   \<and> (case authenticate (=) ''ann@x'' ''pw'' (db_after 9) of None \<Rightarrow> True | Some u \<Rightarrow> pu_status u = [])"
proof -
  have timely: "timely_run (\<lambda>salt p. p) id start_users (take 5 locking_events)"
    "timely_run (\<lambda>salt p. p) id start_users (take 9 locking_events)"
    "timely_run (\<lambda>salt p. p) id start_users locking_events" by code_simp+
  have "authenticate (=) ''ann@x'' ''pw'' (db_after 5) \<noteq> None" "map u_status (users (db_after 9)) = [''delete_failed'']"
    by code_simp+
  then show ?thesis
    using timely user_in_deletion_is_locked_out [OF timely(1), of "(=)" "''ann@x''" "''pw''" "\<lambda>_. None" 0 "[]"]
      user_in_deletion_is_locked_out [OF timely(2), of "(=)" "''ann@x''" "''pw''" "\<lambda>_. None" 0 "[]"]
    by (auto simp: db_after_def Let_def split: option.splits)
qed

text \<open>
  Without that condition the lock-out fails. An update that enables a user and has
  checked its status before a deletion marks it writes after the mark: the user logs in while the
  deletion is in progress and the status column says so. And when two deletions of an enabled
  user overlap and the preflight of the first fails, its restoration enables the user while the
  second is still in progress.
\<close>

theorem interleaving_unlocks_a_user_in_deletion:
  assumes "integrity (us_db s)" and "find_user (us_db s) uid = Some u" and "u_status u = []"
    and "normalize_email (u_email u) = u_email u" and "checkpw (u_hash u) password"
  shows "let enable = \<lparr>up_display = None, up_role = None, up_enabled = Some True, up_password = None\<rparr>;
       s1 = run_machine (user_step genpw dig) s [UpdateRead 0 uid enable, DeleteRead 1 uid, DeleteMark 1 now, UpdateWrite 0 salt now'];
       s2 = run_machine (user_step genpw dig) s [DeleteRead 1 uid, DeleteMark 1 now, DeleteRead 2 uid, DeleteMark 2 now,
              DeleteEnd 1 (PreflightError m) now']
     in us_deletions s1 1 = Some (uid, u)
       \<and> map_option (\<lambda>v. (pu_id v, pu_status v)) (authenticate checkpw (u_email u) password (us_db s1)) = Some (uid, ''deleting'')
       \<and> (u_enabled u \<longrightarrow> us_deletions s2 2 \<noteq> None
           \<and> map_option pu_id (authenticate checkpw (u_email u) password (us_db s2)) = Some uid)"
proof -
  let ?enable = "\<lparr>up_display = None, up_role = None, up_enabled = Some True, up_password = None\<rparr>"
  have uid: "u_id u = uid" using find_user_Some [OF assms(2)] by simp
  have keeps: "integrity (set_user uid f db)" "find_user (set_user uid f db) uid = map_option f (find_user db uid)"
    if "\<And>u. u_id (f u) = u_id u \<and> u_email (f u) = u_email u" "integrity db" for f db
    using that set_user_integrity found_set_user by blast+
  let ?mark = "\<lambda>u. u\<lparr>u_enabled := False, u_status := ''deleting'', u_error := [], u_updated := now\<rparr>"
  define db1 where "db1 = update_user_write genpw uid ?enable salt now' u (delete_mark uid now (us_db s))"
  have 1: "integrity db1" "find_user db1 uid = Some ((?mark u)\<lparr>u_enabled := True, u_updated := now'\<rparr>)"
    using assms(1,2) by (simp_all add: db1_def update_user_write_def delete_mark_def keeps patched_user_def)
  have s1: "us_db (run_machine (user_step genpw dig) s [UpdateRead 0 uid ?enable, DeleteRead 1 uid, DeleteMark 1 now, UpdateWrite 0 salt now']) = db1"
    "us_deletions (run_machine (user_step genpw dig) s [UpdateRead 0 uid ?enable, DeleteRead 1 uid, DeleteMark 1 now, UpdateWrite 0 salt now']) 1 = Some (uid, u)"
    using assms(2,3) by (simp_all add: db1_def update_user_check_def user_deletion_statuses_def guardE_def)
  define db2 where "db2 = delete_restore uid u now' (delete_mark uid now (delete_mark uid now (us_db s)))"
  have 2: "integrity db2" "find_user db2 uid = Some ((?mark u)\<lparr>u_enabled := u_enabled u, u_status := u_status u, u_error := u_error u, u_updated := now'\<rparr>)"
    using assms(1,2) by (simp_all add: db2_def delete_restore_def delete_mark_def keeps)
  let ?s2 = "run_machine (user_step genpw dig) s [DeleteRead 1 uid, DeleteMark 1 now, DeleteRead 2 uid, DeleteMark 2 now,
              DeleteEnd 1 (PreflightError m) now']"
  have s2: "us_db ?s2 = db2" "us_deletions ?s2 2 \<noteq> None"
    using assms(1,2) by (simp_all add: db2_def delete_mark_def keeps delete_end_def)
  show ?thesis
    using enabled_user_logs_in [OF 1, of checkpw password] enabled_user_logs_in [OF 2, of checkpw password] assms(4,5) uid
    unfolding Let_def s1 s2(1) using s2(2) by (simp add: public_user_of_def del: run_machine.simps)
qed

lemma two_keys_ok: "integrity two_keys" "list_all key_ok (keys two_keys)"
    "find_user two_keys ''ann'' = Some (hd (users two_keys))" "u_status (hd (users two_keys)) = []"
    "normalize_email (u_email (hd (users two_keys))) = u_email (hd (users two_keys))"
  by (simp_all add: two_keys_def integrity_def key_slot_def key_ok_def kbs_ok_def
      normalize_email_def py_lower_def py_lower_char_def py_strip_def py_lstrip_def py_rstrip_def
      py_isspace_def api_scopes_def default_id_def find_user_def)

theorem interleaving_unlocks_a_user_in_deletion_witness:
  "map_option pu_status (authenticate (=) ''a@x'' ''h'' (us_db (run_machine (user_step (\<lambda>salt p. p) id) (set_db start_users two_keys)
     [UpdateRead 0 ''ann'' \<lparr>up_display = None, up_role = None, up_enabled = Some True, up_password = None\<rparr>,
      DeleteRead 1 ''ann'', DeleteMark 1 ''n'', UpdateWrite 0 [] ''n'']))) = Some ''deleting''"
proof -
  have ann: "u_email (hd (users two_keys)) = ''a@x''" "u_hash (hd (users two_keys)) = ''h''"
    by (simp_all add: two_keys_def)
  have "us_db (set_db start_users two_keys) = two_keys" by (simp add: set_db_def)
  from interleaving_unlocks_a_user_in_deletion [of "set_db start_users two_keys" "''ann''" _ "(=)" "''h''", unfolded this,
      OF two_keys_ok(1,3,4,5), of "\<lambda>salt p. p" id "''n''" "[]" "''n''"]
  show ?thesis by (auto simp: Let_def ann simp del: run_machine.simps)
qed

text \<open>
  Claim C39: what removing a knowledge base does to the keys of a user. When the finalizing
  callback returns, exactly the keys that named the knowledge base have lost it, and the ones
  left without any are disabled if they have a scope that needs one or are not manager keys.
  When the callback raises, every key is as it was before; so it is when the lease check inside
  the transaction raises. When the lease turns out to be lost after the keys were committed, the
  operation raises as well but undoes nothing: the keys stay as if it had returned.
\<close>

theorem kb_removal_is_all_or_nothing:
  assumes "integrity db" and "list_all key_ok (keys db)" and "find_user db uid = Some u"
  shows "let run = (\<lambda>outcome. remove_knowledge_base_from_api_keys uid kb None outcome now db);
       stripped = map (\<lambda>k. if k_user k = uid \<and> kb \<in> set (k_kbs k) then strip_kb kb k else k) (keys db)
     in (\<exists>d. fst (run FinalizeReturns) = Inr (length (filter (\<lambda>k. k_user k = uid \<and> kb \<in> set (k_kbs k)) (keys db)), d))
       \<and> keys (snd (run FinalizeReturns)) = stripped
       \<and> fst (run (FinalizeRaises m)) = Inl (Callback m) \<and> keys (snd (run (FinalizeRaises m))) = keys db
       \<and> fst (run LeaseLost) = Inl (Callback ''lease lost'') \<and> keys (snd (run LeaseLost)) = stripped
       \<and> keys (snd (remove_knowledge_base_from_api_keys uid kb (Some l) outcome now db)) = keys db"
proof -
  let ?P = "\<lambda>k. k_user k = uid \<and> kb \<in> set (k_kbs k)"
  obtain acc db' where r: "remove_kb_begin uid kb None now db = (Inr acc, db')"
    "keys db' = map (\<lambda>k. if ?P k then strip_kb kb k else k) (keys db)" "rm_originals acc = filter ?P (keys db)"
    "rm_updated acc = length (rm_originals acc)"
    using removal_begins [OF assms] by blast
  note i = assms(1)
  then have "distinct (map k_id (rm_originals acc))" using r(3) by (simp add: integrity_def distinct_map_filter)
  then have "keys (restore_keys (rm_originals acc) db')
      = map (\<lambda>k. overlay (filter ?P (keys db)) (if ?P k then strip_kb kb k else k)) (keys db)"
    by (simp only: restore_keys_overlay r(2,3) map_map comp_def)
  also have "\<dots> = keys db" by (rule map_idI) (rule restore_undoes_strip [OF i])
  finally have "keys (restore_keys (rm_originals acc) db') = keys db" .
  moreover have "keys db' = keys db" if "rm_updated acc = 0"
    using that unfolding r(2-4) by (intro map_idI) (auto simp: filter_empty_conv)
  moreover have "keys (snd (remove_knowledge_base_from_api_keys uid kb (Some l) outcome now db)) = keys db"
    by (cases "remove_kb_rows kb (user_keys db uid) \<lparr>rm_updated = 0, rm_disabled = 0, rm_originals = []\<rparr> db")
      (auto simp: remove_knowledge_base_from_api_keys_def remove_kb_begin_def in_tx_def or_raises_def assms(3)
        remove_kb_finish_def split: finalize_outcome.splits)
  ultimately show ?thesis using r
    by (simp add: remove_knowledge_base_from_api_keys_def remove_kb_finish_def Let_def)
qed

theorem kb_removal_is_all_or_nothing_witness:
  "map k_enabled (keys (snd (remove_knowledge_base_from_api_keys ''ann'' ''default'' None FinalizeReturns ''n'' two_keys)))
     = [False, False]
   \<and> map k_enabled (keys (snd (remove_knowledge_base_from_api_keys ''ann'' ''default'' None (FinalizeRaises []) ''n'' two_keys)))
     = [True, True]
   \<and> map k_enabled (keys (snd (remove_knowledge_base_from_api_keys ''ann'' ''default'' None LeaseLost ''n'' two_keys)))
     = [False, False]"
  using kb_removal_is_all_or_nothing [OF two_keys_ok(1-3), of "''default''" "''n''" "[]" "[]" FinalizeReturns]
  by (simp add: two_keys_def strip_kb_def stripped_key_def requires_kb_def api_scopes_requiring_kb_def Let_def)

text \<open>
  An account can be used with the password it was created with, and no other. After
  a successful \<open>create_user\<close> of an enabled user, a login with the same address, in any case and
  with any surrounding white space, succeeds exactly when the password is the same.
\<close>

theorem created_user_can_log_in:
  assumes "\<And>salt p q. checkpw (genpw salt p) q \<longleftrightarrow> p = q"
    and "create_user genpw email password display role True uuid salt now db = (Inr r, db')"
    and "normalize_email login = normalize_email email"
  shows "map_option pu_id (authenticate checkpw login attempt db') = (if attempt = password then Some (pu_id r) else None)"
proof -
  define u where "u = user_record genpw (normalize_email email) password display
    (if role \<in> set user_roles then role else ''user'') True uuid salt now"
  have u: "u_email u = normalize_email email" "u_enabled u" "u_hash u = genpw salt password"
    by (simp_all add: u_def user_record_def)
  have ins: "insert_user u db = Inr db'" and r: "r = public_new_user u"
    using assms(2) by (auto simp: create_user_def u_def Let_def split: if_splits sum.splits)
  have "normalize_email email \<notin> u_email ` set (users db)" and db': "users db' = users db @ [u]"
    using ins u by (auto simp: insert_user_def find_email_None split: if_splits)
  then have "find (\<lambda>u. u_email u = normalize_email email \<and> u_enabled u) (users db) = None"
    by (metis (mono_tags, lifting) find_None_iff image_eqI)
  then have "find (\<lambda>u. u_email u = normalize_email email \<and> u_enabled u) (users db') = Some u"
    using u by (simp add: db' find_append)
  then show ?thesis
    using assms(1,3) u r by (simp add: authenticate_def public_new_user_def public_user_of_def)
qed

definition plain_create :: "(user_error + public_user) \<times> udb" where
  "plain_create = create_user (\<lambda>salt p. p) ''ann@x'' ''pw'' [] ''user'' True ''01234567'' [] ''t'' empty_udb"

theorem created_user_can_log_in_witness:
  "\<exists>r. fst plain_create = Inr r
     \<and> map_option pu_id (authenticate (=) '' Ann@X '' ''pw'' (snd plain_create)) = Some (pu_id r)
     \<and> authenticate (=) '' Ann@X '' ''pW'' (snd plain_create) = None"
proof -
  have same: "normalize_email '' Ann@X '' = normalize_email ''ann@x''" by code_simp
  have "normalize_email ''ann@x'' \<noteq> []" by code_simp
  then obtain r db' where "plain_create = (Inr r, db')"
    by (auto simp: plain_create_def create_user_def insert_user_def empty_udb_def find_user_def find_email_def Let_def)
  then have "create_user (\<lambda>salt p. p) ''ann@x'' ''pw'' [] ''user'' True ''01234567'' [] ''t'' empty_udb = (Inr r, db')"
    by (simp add: plain_create_def)
  from created_user_can_log_in [OF _ this same, of "(=)"]
  have "map_option pu_id (authenticate (=) '' Ann@X '' attempt db') = (if attempt = ''pw'' then Some (pu_id r) else None)"
    for attempt by simp
  from this [of "''pw''"] this [of "''pW''"] show ?thesis
    unfolding \<open>plain_create = (Inr r, db')\<close> by (intro exI [of _ r]) simp
qed

end
