(* ===== verification/Authorization.thy ===== *)
theory Authorization
  imports User_Claims Workspace Knowledge_Base_Claims
begin

text \<open>
  \<open>app/utils/auth.py\<close>: who a request acts for. A decorated view is run or refused with a
  status; a redirection to the login page is an outcome of its own. The environment gives the
  optional installation key and the administrator password; \<open>checkpw\<close> is the password check.
\<close>

section \<open>Requests and responses\<close>

text \<open>Environment variables; an unset one is the empty text.\<close>

record auth_env =
  ae_api_key :: string
  ae_password_hash :: string
  ae_password :: string

record web_request =
  wr_session_user :: "string option"
  wr_api_key :: "string option"

datatype web_response =
    RunsView "found_key option"
  | Refused nat
  | LoginPage
  | ServerError

section \<open>Users\<close>

definition check_admin_password :: "(string \<Rightarrow> string \<Rightarrow> bool) \<Rightarrow> auth_env \<Rightarrow> string \<Rightarrow> bool" where
  "check_admin_password checkpw env password =
     (if ae_password_hash env \<noteq> [] then checkpw (ae_password_hash env) password
      else password = (if ae_password env = [] then ''admin'' else ae_password env))"

definition authenticate_user :: "(string \<Rightarrow> string \<Rightarrow> string) \<Rightarrow> (string \<Rightarrow> string \<Rightarrow> bool) \<Rightarrow> auth_env \<Rightarrow> string \<Rightarrow> string
    \<Rightarrow> string \<Rightarrow> string \<Rightarrow> string \<Rightarrow> udb \<Rightarrow> (user_error + public_user option) \<times> udb" where
  "authenticate_user genpw checkpw env email password uuid salt now db =
     (let email' = normalize_email (if email = [] then ''admin@example.local'' else email)
      in if \<not> has_users db \<and> check_admin_password checkpw env password
         then bootstrap_admin_if_empty genpw email' password uuid salt now db
         else (Inr (authenticate checkpw email' password db), db))"

definition current_user :: "udb \<Rightarrow> web_request \<Rightarrow> public_user option" where
  "current_user db rq =
     (case wr_session_user rq of
        None \<Rightarrow> None
      | Some uid \<Rightarrow> if uid = [] then None
          else case get_user db uid of None \<Rightarrow> None | Some u \<Rightarrow> if pu_enabled u then Some u else None)"

definition is_logged_in :: "udb \<Rightarrow> web_request \<Rightarrow> bool" where
  "is_logged_in db rq \<longleftrightarrow> current_user db rq \<noteq> None"

definition is_admin_logged_in :: "udb \<Rightarrow> web_request \<Rightarrow> bool" where
  "is_admin_logged_in db rq = (case current_user db rq of None \<Rightarrow> False | Some u \<Rightarrow> pu_role u = ''admin'')"

definition first_admin_user :: "udb \<Rightarrow> public_user option" where
  "first_admin_user db = find (\<lambda>u. pu_role u = ''admin'' \<and> pu_enabled u) (list_users db)"

section \<open>API keys\<close>

definition ascii :: "string \<Rightarrow> bool" where
  "ascii s \<longleftrightarrow> list_all (\<lambda>c. (of_char c :: nat) < 128) s"

text \<open>The installation key acts for the first enabled administrator.\<close>

definition env_key :: "public_user \<Rightarrow> found_key" where
  "env_key admin = \<lparr>fk_name = ''env'', fk_scopes = [''query'', ''ingest'', ''speech''], fk_kbs = [''default''],
     fk_can_upload = True, fk_user = pu_id admin, fk_key_id = []\<rparr>"

text \<open>
  \<open>Inl ()\<close>: \<open>hmac.compare_digest\<close> raises \<open>TypeError\<close> for a text that is not ASCII.
\<close>

definition find_api_key :: "(string \<Rightarrow> string) \<Rightarrow> (string \<Rightarrow> real option) \<Rightarrow> auth_env \<Rightarrow> real \<Rightarrow> udb \<Rightarrow> string option
    \<Rightarrow> unit + found_key option" where
  "find_api_key dig dt env now db value =
     (case value of
        None \<Rightarrow> Inr None
      | Some v \<Rightarrow>
          if v = [] then Inr None
          else
            let configured = ae_api_key env
            in if configured \<noteq> [] \<and> (\<not> ascii v \<or> \<not> ascii configured) then Inl ()
               else if configured \<noteq> [] \<and> v = configured then Inr (map_option env_key (first_admin_user db))
               else Inr (find_api_key_by_value dig dt now v db))"

definition api_key_has_scope :: "found_key \<Rightarrow> string \<Rightarrow> bool" where
  "api_key_has_scope key scope \<longleftrightarrow> scope \<in> set (fk_scopes key) \<or> (scope = ''ingest'' \<and> fk_can_upload key)"

section \<open>Decorators\<close>

text \<open>\<open>find\<close> is \<open>find_api_key\<close> applied to the header of the request.\<close>

definition require_api_key :: "unit + found_key option \<Rightarrow> web_response" where
  "require_api_key found = (case found of
     Inl _ \<Rightarrow> ServerError | Inr None \<Rightarrow> Refused 401 | Inr (Some key) \<Rightarrow> RunsView (Some key))"

definition require_api_any_scope :: "string list \<Rightarrow> unit + found_key option \<Rightarrow> web_response" where
  "require_api_any_scope scopes found = (case found of
     Inl _ \<Rightarrow> ServerError
   | Inr None \<Rightarrow> Refused 401
   | Inr (Some key) \<Rightarrow> if \<not> list_ex (api_key_has_scope key) scopes then Refused 403 else RunsView (Some key))"

definition require_api_scope :: "string \<Rightarrow> unit + found_key option \<Rightarrow> web_response" where
  "require_api_scope scope found = (case found of
     Inl _ \<Rightarrow> ServerError
   | Inr None \<Rightarrow> Refused 401
   | Inr (Some key) \<Rightarrow> if \<not> api_key_has_scope key scope then Refused 403 else RunsView (Some key))"

definition require_login :: "udb \<Rightarrow> web_request \<Rightarrow> web_response" where
  "require_login db rq = (if is_logged_in db rq then RunsView None else LoginPage)"

definition require_admin :: "udb \<Rightarrow> web_request \<Rightarrow> web_response" where
  "require_admin db rq = (if is_admin_logged_in db rq then RunsView None
     else if is_logged_in db rq then Refused 403 else LoginPage)"

text \<open>A session or else a key with one of the scopes.\<close>

definition session_or_scope :: "bool \<Rightarrow> string list \<Rightarrow> unit + found_key option \<Rightarrow> web_response" where
  "session_or_scope by_session scopes found =
     (if by_session then RunsView None
      else case found of
             Inl _ \<Rightarrow> ServerError
           | Inr None \<Rightarrow> Refused 401
           | Inr (Some key) \<Rightarrow> if list_ex (api_key_has_scope key) scopes then RunsView (Some key) else Refused 401)"

definition require_login_or_api_any_scope :: "string list \<Rightarrow> udb \<Rightarrow> web_request \<Rightarrow> unit + found_key option \<Rightarrow> web_response" where
  "require_login_or_api_any_scope scopes db rq found = session_or_scope (is_logged_in db rq) scopes found"

definition require_login_or_api_scope :: "string \<Rightarrow> udb \<Rightarrow> web_request \<Rightarrow> unit + found_key option \<Rightarrow> web_response" where
  "require_login_or_api_scope scope db rq found = session_or_scope (is_logged_in db rq) [scope] found"

definition require_admin_or_api_any_scope :: "string list \<Rightarrow> udb \<Rightarrow> web_request \<Rightarrow> unit + found_key option \<Rightarrow> web_response" where
  "require_admin_or_api_any_scope scopes db rq found = session_or_scope (is_admin_logged_in db rq) scopes found"

definition require_admin_or_api_scope :: "string \<Rightarrow> udb \<Rightarrow> web_request \<Rightarrow> unit + found_key option \<Rightarrow> web_response" where
  "require_admin_or_api_scope scope db rq found = session_or_scope (is_admin_logged_in db rq) [scope] found"

definition require_admin_or_upload_api_key :: "udb \<Rightarrow> web_request \<Rightarrow> unit + found_key option \<Rightarrow> web_response" where
  "require_admin_or_upload_api_key db rq found = require_login_or_api_scope ''ingest'' db rq found"


section \<open>What a key grants\<close>

text \<open>
  The grant behind a key that reaches a view: the installation key for an enabled
  administrator, or a stored key that is enabled, unexpired and owned by an enabled user.
\<close>

definition stored_grant :: "(string \<Rightarrow> string) \<Rightarrow> (string \<Rightarrow> real option) \<Rightarrow> real \<Rightarrow> udb \<Rightarrow> string \<Rightarrow> found_key \<Rightarrow> key_row \<Rightarrow> bool" where
  "stored_grant dig dt now db value f k \<longleftrightarrow> k \<in> set (keys db) \<and> k_hash k = dig value \<and> k_enabled k
     \<and> \<not> key_expired dt now (k_expires k) \<and> fk_user f = k_user k \<and> fk_scopes f = k_scopes k \<and> fk_kbs f = k_kbs k
     \<and> fk_can_upload f = (''ingest'' \<in> set (k_scopes k))
     \<and> (\<exists>u. find_user db (k_user k) = Some u \<and> u_enabled u)"

definition env_grant :: "auth_env \<Rightarrow> udb \<Rightarrow> string \<Rightarrow> found_key \<Rightarrow> bool" where
  "env_grant env db value f \<longleftrightarrow> ae_api_key env \<noteq> [] \<and> value = ae_api_key env \<and> fk_kbs f = [''default'']
     \<and> (\<exists>u. find_user db (fk_user f) = Some u \<and> u_role u = ''admin'' \<and> u_enabled u)"

lemma first_admin:
  assumes "integrity db" and "first_admin_user db = Some a"
  shows "\<exists>u. find_user db (pu_id a) = Some u \<and> u_role u = ''admin'' \<and> u_enabled u"
proof -
  have "a \<in> set (list_users db)" and a: "pu_role a = ''admin''" "pu_enabled a"
    using find_SomeD [OF assms(2) [unfolded first_admin_user_def]] by auto
  then obtain u where u: "u \<in> set (users db)" "a = public_user_of db u" by (auto simp: list_users_def)
  then have "find_user db (u_id u) = Some u" using find_user_mem assms(1) by blast
  with u a show ?thesis by (auto simp: public_user_of_def)
qed

lemma found_key_granted:
  assumes "integrity db" and "find_api_key dig dt env now db (Some value) = Inr (Some f)"
  shows "env_grant env db value f \<or> (\<exists>k. stored_grant dig dt now db value f k)"
proof (cases "ae_api_key env \<noteq> [] \<and> value = ae_api_key env")
  case True
  with assms(2) obtain a where a: "first_admin_user db = Some a" "f = env_key a"
    by (auto simp: find_api_key_def Let_def split: if_splits)
  with first_admin [OF assms(1) a(1)] True show ?thesis by (auto simp: env_grant_def env_key_def)
next
  case False
  with assms(2) have "find_api_key_by_value dig dt now value db = Some f"
    by (auto simp: find_api_key_def Let_def split: if_splits)
  from found_key_row [OF this] obtain k :: key_row and u where k: "k \<in> set (keys db)" "u \<in> set (users db)" "u_id u = k_user k" "u_enabled u"
    "k_enabled k" "k_hash k = dig value" "\<not> key_expired dt now (k_expires k)" "fk_user f = k_user k"
    "fk_scopes f = k_scopes k" "fk_kbs f = k_kbs k" "fk_can_upload f = (''ingest'' \<in> set (k_scopes k))" by blast
  have "find_user db (k_user k) = Some u" using find_user_mem [of db u] k assms(1) by auto
  with k have "stored_grant dig dt now db value f k" by (auto simp: stored_grant_def)
  then show ?thesis by blast
qed

lemma granted_user:
  "env_grant env db value f \<or> (\<exists>k. stored_grant dig dt now db value f k) \<Longrightarrow>
    \<exists>u. find_user db (fk_user f) = Some u \<and> u_enabled u"
  by (auto simp: env_grant_def stored_grant_def)

lemma scope_of_grant:
  assumes "stored_grant dig dt now db value f k" and "list_ex (api_key_has_scope f) scopes"
  shows "\<exists>s \<in> set scopes. s \<in> set (k_scopes k)"
  using assms by (auto simp: stored_grant_def api_key_has_scope_def list_ex_iff)

lemma context_of_key:
  assumes "knowledge_base_context dig fr dtc catalog ws i (Some f) False = Inr c"
  shows "kc_kb c \<in> set (fk_kbs f) \<and> kc_user c = ws_user ws \<and> kc_workspace c = ws_id ws
    \<and> (\<exists>r. kb_get fr dtc (kc_kb c) catalog = Inr (Some (public_kb r)) \<and> kb_id r = kc_kb c \<and> kb_status r = Active)"
proof -
  obtain kb r where kb: "validate_knowledge_base_id fr i = Inr kb" "kb \<in> set (fk_kbs f)"
    "kb_get fr dtc kb catalog = Inr (Some r)"
    using assms by (auto simp: knowledge_base_context_def bindE_eq_Inr split: option.splits if_splits)
  then obtain r' where r': "r = public_kb r'" "kb_id r' = kb"
    by (auto simp: kb_get_def bindE_eq_Inr dest!: find_SomeD)
  then have "kb_status r' = Active" "kc_kb c = kb" "kc_user c = ws_user ws" "kc_workspace c = ws_id ws"
    using assms kb by (auto simp: knowledge_base_context_def bindE_eq_Inr public_kb_def jget_def status_text_def
        split: if_splits kb_status.splits)
  with r' kb show ?thesis by (intro conjI exI [of _ r']) simp_all
qed

section \<open>The property\<close>

text \<open>
  Claim C15: a request reaches a knowledge base through an API key only with a grant for it. In
  every reachable user store: when a view that requires one of some scopes runs for a key, and
  then resolves a knowledge base in the workspace of the request, the key is the installation
  key acting for an enabled administrator, or a stored, enabled and unexpired key of an enabled
  user, with one of the scopes; the workspace is that user's; and the knowledge base is one the
  key lists and an active record of the catalog. If no update that enables a user has written
  after the deletion status it read changed, the status column of the user is empty: it is not
  marked as in deletion.
\<close>

theorem api_request_needs_grant:
  assumes "db = us_db (run_machine (user_step genpw dig) start_users evs)"
    and "require_api_any_scope scopes (find_api_key dig dt env now db (Some value)) = RunsView (Some f)"
    and "workspace_from_request data_root upload_root db (Some f) logged_in = Some ws"
    and "knowledge_base_context dig fr dtc catalog ws i (Some f) False = Inr c"
  shows "(env_grant env db value f
      \<or> (\<exists>k. stored_grant dig dt now db value f k \<and> (\<exists>s \<in> set scopes. s \<in> set (k_scopes k)) \<and> kc_kb c \<in> set (k_kbs k)))
    \<and> kc_user c = fk_user f \<and> kc_workspace c = safe_workspace_id (fk_user f) \<and> kc_kb c \<in> set (fk_kbs f)
    \<and> (\<exists>r. kb_get fr dtc (kc_kb c) catalog = Inr (Some (public_kb r)) \<and> kb_status r = Active)
    \<and> (timely_run genpw dig start_users evs \<longrightarrow>
         (\<exists>u. find_user db (fk_user f) = Some u \<and> u_enabled u \<and> u_status u = []))"
proof -
  have ok: "integrity db" unfolding assms(1) using run_users_fine [of genpw dig evs] by (simp add: udb_fine_def)
  have found: "find_api_key dig dt env now db (Some value) = Inr (Some f)" and scopes: "list_ex (api_key_has_scope f) scopes"
    using assms(2) by (auto simp: require_api_any_scope_def split: sum.splits option.splits if_splits)
  note c = context_of_key [OF assms(4)] and granted = found_key_granted [OF ok found]
  have "ws_user ws = fk_user f" "ws_id ws = safe_workspace_id (fk_user f)"
    using assms(3) by (auto simp: workspace_from_request_def workspace_for_user_def get_user_def public_user_of_def Let_def
        dest!: find_user_Some split: option.splits if_splits)
  moreover have "(\<exists>s \<in> set scopes. s \<in> set (k_scopes k)) \<and> kc_kb c \<in> set (k_kbs k)"
    if "stored_grant dig dt now db value f k" for k
    using scope_of_grant [OF that scopes] that c by (auto simp: stored_grant_def)
  moreover have "\<exists>u. find_user db (fk_user f) = Some u \<and> u_enabled u \<and> u_status u = []"
    if timely: "timely_run genpw dig start_users evs"
  proof -
    obtain u where u: "find_user db (fk_user f) = Some u" "u_enabled u" using granted_user [OF granted] by blast
    then show ?thesis
      using found_user_fine [OF timely_users_fine [OF timely], folded assms(1), OF u(1)] by (auto simp: user_fine_defs)
  qed
  ultimately show ?thesis using granted c by metis
qed


definition no_env :: auth_env where
  "no_env = \<lparr>ae_api_key = [], ae_password_hash = [], ae_password = []\<rparr>"

definition sample_events :: "user_event list" where
  "sample_events = [CreateUser ''ann@x'' ''pw'' [] ''user'' True ''01234567'' [] ''t'',
     CreateKey ''ann-x-01234567'' ''bot'' [''query''] NoIds ''secret'' True [] None None [] ''k1'' ''t'']"

definition sample_db :: udb where
  "sample_db = us_db (run_machine (user_step (\<lambda>salt p. p) id) start_users sample_events)"

definition sample_found :: found_key where
  "sample_found = \<lparr>fk_name = ''bot'', fk_scopes = [''query''], fk_kbs = [''default''], fk_can_upload = False,
     fk_user = ''ann-x-01234567'', fk_key_id = ''k1''\<rparr>"

lemma sample_found: "find_api_key id (\<lambda>_. None) no_env 0 sample_db (Some ''secret'') = Inr (Some sample_found)"
  unfolding find_api_key_def no_env_def sample_db_def
  by code_simp


definition sample_workspace :: workspace where
  "sample_workspace = \<lparr>ws_user = ''ann-x-01234567'', ws_id = ''ann-x-01234567'', ws_data = [''ann-x-01234567''],
     ws_uploads = [''ann-x-01234567''], ws_settings = [''ann-x-01234567'', ''settings.json''],
     ws_catalog = [''ann-x-01234567'', ''knowledge_bases.json''], ws_agents = [''ann-x-01234567'', ''chat_agents.json'']\<rparr>"

lemma sample_workspace: "workspace_from_request [] [] sample_db (Some sample_found) None = Some sample_workspace"
  unfolding sample_db_def by code_simp

theorem api_request_needs_grant_witness:
  "\<exists>c. knowledge_base_context id (\<lambda>x. []) sample_dt sample_file sample_workspace (JStr '' default '') (Some sample_found) False = Inr c
     \<and> kc_workspace c = ''ann-x-01234567'' \<and> (\<exists>k. stored_grant id (\<lambda>_. None) 0 sample_db ''secret'' sample_found k)
     \<and> (\<exists>u. find_user sample_db ''ann-x-01234567'' = Some u \<and> u_enabled u \<and> u_status u = [])"
proof -
  have valid: "validate_knowledge_base_id (\<lambda>x. []) (JStr '' default '') = Inr default_id"
    "validate_knowledge_base_id (\<lambda>x. []) (JStr default_id) = Inr default_id" by code_simp+
  have get: "kb_get (\<lambda>x. []) sample_dt default_id sample_file = Inr (Some (public_kb (default_record ''T0'')))"
    using sample_load [of "\<lambda>x. []"] by (simp add: kb_get_def kb_load_def default_record_def)
  obtain c where c: "knowledge_base_context id (\<lambda>x. []) sample_dt sample_file sample_workspace (JStr '' default '')
      (Some sample_found) False = Inr c"
    using valid get by (simp add: knowledge_base_context_def sample_found_def public_kb_def jget_def status_text_def
        default_record_def collection_for_knowledge_base_def default_id_def)
  have key: "require_api_any_scope [''query''] (find_api_key id (\<lambda>_. None) no_env 0 sample_db (Some ''secret'')) = RunsView (Some sample_found)"
    by (simp add: require_api_any_scope_def sample_found api_key_has_scope_def) (simp add: sample_found_def)
  have "\<not> env_grant no_env sample_db ''secret'' sample_found" by (simp add: env_grant_def no_env_def)
  moreover have "safe_workspace_id (fk_user sample_found) = ''ann-x-01234567''" by code_simp
  moreover have "timely_run (\<lambda>salt p. p) id start_users sample_events" by code_simp
  moreover have "fk_user sample_found = ''ann-x-01234567''" by (simp add: sample_found_def)
  ultimately show ?thesis using api_request_needs_grant [OF sample_db_def key sample_workspace c] c by metis
qed

end
