(* ===== verification/File_Index.thy ===== *)
theory File_Index
  imports Settings_Store
begin

text \<open>
  \<open>app/utils/file_index.py\<close>: the list of the documents of a knowledge base, a JSON array written with
  sorted keys. An unreadable file reads as empty. An element that is no object makes the call that
  meets it raise.
\<close>

datatype index_error = BrokenEntry

definition index_entries :: "json_file \<Rightarrow> json list" where
  "index_entries f = (case f of Some (Some (JArr xs)) \<Rightarrow> xs | _ \<Rightarrow> [])"

definition save_index :: "json list \<Rightarrow> json_file" where
  "save_index xs = Some (Some (sort_json (JArr xs)))"

text \<open>\<open>item.get("filename") == filename\<close>\<close>

definition entry_is :: "string \<Rightarrow> json \<Rightarrow> index_error + bool" where
  "entry_is filename x = (case x of JObj d \<Rightarrow> Inr (jget d ''filename'' = JStr filename) | _ \<Rightarrow> Inl BrokenEntry)"

fun others :: "string \<Rightarrow> json list \<Rightarrow> index_error + json list" where
  "others filename [] = Inr []"
| "others filename (x # xs) = bindE (entry_is filename x) (\<lambda>b. bindE (others filename xs) (\<lambda>ys. Inr (if b then ys else x # ys)))"

fun first_entry :: "string \<Rightarrow> json list \<Rightarrow> index_error + json option" where
  "first_entry filename [] = Inr None"
| "first_entry filename (x # xs) = bindE (entry_is filename x) (\<lambda>b. if b then Inr (Some x) else first_entry filename xs)"

text \<open>The last one, which the loop of \<open>remove\<close> keeps.\<close>

fun last_entry :: "string \<Rightarrow> json option \<Rightarrow> json list \<Rightarrow> index_error + json option" where
  "last_entry filename acc [] = Inr acc"
| "last_entry filename acc (x # xs) = bindE (entry_is filename x) (\<lambda>b. last_entry filename (if b then Some x else acc) xs)"

section \<open>Operations\<close>

definition index_list :: "json_file \<Rightarrow> json list" where
  "index_list f = index_entries f"

definition index_entry :: "string \<Rightarrow> string \<Rightarrow> string \<Rightarrow> int \<Rightarrow> string \<Rightarrow> string \<Rightarrow> jdict \<Rightarrow> jdict" where
  "index_entry now filename path chunks status error metadata = with_fields
     [(''filename'', JStr filename), (''path'', JStr path), (''chunks'', JInt chunks), (''status'', JStr status),
      (''error'', JStr error), (''updated_at'', JStr now)] metadata"

definition restore_entry :: "string \<Rightarrow> json option \<Rightarrow> json_file \<Rightarrow> (index_error + unit) \<times> json_file" where
  "restore_entry filename entry f = (case others filename (index_entries f) of
       Inl e \<Rightarrow> (Inl e, f)
     | Inr xs \<Rightarrow> (Inr (), save_index (case entry of Some x \<Rightarrow> (if truthy x then x # xs else xs) | None \<Rightarrow> xs)))"

definition index_record ::
  "string \<Rightarrow> string \<Rightarrow> string \<Rightarrow> int \<Rightarrow> string \<Rightarrow> string \<Rightarrow> jdict \<Rightarrow> json_file \<Rightarrow> (index_error + jdict) \<times> json_file" where
  "index_record now filename path chunks status error metadata f =
     (let entry = index_entry now filename path chunks status error metadata in
      case others filename (index_entries f) of
        Inl e \<Rightarrow> (Inl e, f)
      | Inr xs \<Rightarrow> (Inr entry, save_index (JObj entry # xs)))"

definition index_get :: "string \<Rightarrow> json_file \<Rightarrow> index_error + json option" where
  "index_get filename f = first_entry filename (index_entries f)"

definition index_remove :: "string \<Rightarrow> json_file \<Rightarrow> (index_error + json option) \<times> json_file" where
  "index_remove filename f =
     (case bindE (last_entry filename None (index_entries f)) (\<lambda>r. bindE (others filename (index_entries f)) (\<lambda>xs. Inr (r, xs))) of
        Inl e \<Rightarrow> (Inl e, f)
      | Inr (r, xs) \<Rightarrow> (Inr r, if r \<noteq> None then save_index xs else f))"

section \<open>Sorted documents\<close>

lemma insort_map_fst:
  assumes "fst (h p) = fst p" and "\<And>q. q \<in> set ps \<Longrightarrow> fst (h q) = fst q"
  shows "insort_key fst (h p) (map h ps) = map h (insort_key fst p ps)"
  using assms by (induction ps) auto

lemma sort_key_map_fst:
  assumes "\<And>p. p \<in> set ps \<Longrightarrow> fst (h p) = fst p"
  shows "sort_key fst (map h ps) = map h (sort_key fst ps)"
  using assms
proof (induction ps)
  case (Cons p ps)
  then have "insort_key fst (h p) (map h (sort_key fst ps)) = map h (insort_key fst p (sort_key fst ps))"
    by (intro insort_map_fst) auto
  with Cons show ?case by simp
qed simp

lemma sort_json_idem [simp]: "sort_json (sort_json v) = sort_json v"
proof (induction v rule: sort_json.induct)
  case (1 d)
  let ?h = "\<lambda>(k, v). (k, sort_json v)"
  have "map ?h (map ?h d) = map ?h d" using 1 by (auto simp: case_prod_beta)
  moreover have "map ?h (sort_key fst (map ?h d)) = sort_key fst (map ?h (map ?h d))"
    by (rule sort_key_map_fst [symmetric]) (auto simp: case_prod_beta)
  ultimately have "map ?h (sort_key fst (map ?h d)) = sort_key fst (map ?h d)" by (simp only:)
  then show ?case by (simp add: sort_key_id_if_sorted del: map_map)
qed auto

end
