(* ===== verification/Upload_Paths.thy ===== *)
theory Upload_Paths
  imports Validators Workspace Knowledge_Base_Claims
begin

text \<open>
  Where an uploaded file is stored: \<open>_safe_relative_upload_path\<close>, \<open>_safe_file_index_key\<close>,
  \<open>_upload_storage_path\<close> and \<open>_safe_join\<close> of \<open>app/app.py\<close>, with the functions of \<open>posixpath\<close> they
  use. \<open>secure_filename\<close> of werkzeug is a parameter \<open>sf\<close>; \<open>cwd\<close> is the working directory.
\<close>

section \<open>Paths\<close>

definition py_isalpha :: "char \<Rightarrow> bool" where
  "py_isalpha c \<longleftrightarrow> py_isalnum c \<and> (let n = (of_char c :: nat) in \<not> (48 \<le> n \<and> n \<le> 57) \<and> n \<notin> {178, 179, 185, 188, 189, 190})"

text \<open>\<open>posixpath.join\<close> and \<open>posixpath.normpath\<close>; \<open>norm_step\<close> is the body of its loop.\<close>

fun join_path :: "string \<Rightarrow> string list \<Rightarrow> string" where
  "join_path a [] = a"
| "join_path a (b # bs) = join_path
     (if py_startswith b ''/'' then b else if a = [] \<or> last a = CHR ''/'' then a @ b else a @ ''/'' @ b) bs"

definition norm_step :: "bool \<Rightarrow> string list \<Rightarrow> string \<Rightarrow> string list" where
  "norm_step absolute comps seg =
     (if seg = [] \<or> seg = ''.'' then comps
      else if seg \<noteq> ''..'' \<or> (\<not> absolute \<and> comps = []) \<or> (comps \<noteq> [] \<and> last comps = ''..'') then comps @ [seg]
      else butlast comps)"

definition slashes :: "string \<Rightarrow> string" where
  "slashes p = (if \<not> py_startswith p ''/'' then [] else if py_startswith p ''//'' \<and> \<not> py_startswith p ''///'' then ''//'' else ''/'')"

definition normpath :: "string \<Rightarrow> string" where
  "normpath p =
     (let n = slashes p @ py_join ''/'' (foldl (norm_step (slashes p \<noteq> [])) [] (py_split_on CHR ''/'' p))
      in if n = [] then ''.'' else n)"

definition abspath :: "string \<Rightarrow> string \<Rightarrow> string" where
  "abspath cwd p = normpath (if py_startswith p ''/'' then p else join_path cwd [p])"

section \<open>Names of uploads\<close>

definition bad_path :: "string \<Rightarrow> val_exn" where
  "bad_path field = invalid ''Path relativo non valido'' field"

definition drive_prefix :: "string \<Rightarrow> bool" where
  "drive_prefix p = (case p of a # b # _ \<Rightarrow> b = CHR '':'' \<and> py_isalpha a | _ \<Rightarrow> False)"

definition forward_slashes :: "string \<Rightarrow> string" where
  "forward_slashes p = py_strip (py_replace_char CHR 0x5C CHR ''/'' p)"

text \<open>The loop over the segments: \<open>None\<close> when one is refused.\<close>

fun safe_parts :: "(string \<Rightarrow> string) \<Rightarrow> string list \<Rightarrow> string list option" where
  "safe_parts sf [] = Some []"
| "safe_parts sf (raw # parts) =
     (let part = py_strip raw in
      if part = [] \<or> part = ''.'' then safe_parts sf parts
      else if part = ''..'' \<or> sf part = [] then None
      else map_option ((#) (sf part)) (safe_parts sf parts))"

definition rooted :: "string \<Rightarrow> bool" where
  "rooted p \<longleftrightarrow> py_startswith p ''/'' \<or> py_startswith p ''~'' \<or> drive_prefix p"

definition safe_relative_upload_path :: "(string \<Rightarrow> string) \<Rightarrow> string option \<Rightarrow> string \<Rightarrow> val_exn + string" where
  "safe_relative_upload_path sf raw fallback =
     (let fallback = sf fallback; given = (case raw of None \<Rightarrow> [] | Some s \<Rightarrow> s);
          path = forward_slashes (if given \<noteq> [] then given else fallback);
          bad = bad_path ''relative_path'' in
      bindE (guardE (path \<noteq> []) (invalid ''Nome file non valido'' ''file'')) (\<lambda>_.
      bindE (guardE (\<not> rooted path) bad) (\<lambda>_.
      case safe_parts sf (py_split_on CHR ''/'' path) of
        None \<Rightarrow> Inl bad
      | Some parts \<Rightarrow>
          bindE (guardE (parts \<noteq> []) (invalid ''Nome file non valido'' ''file'')) (\<lambda>_.
          bindE (guardE (fallback = [] \<or> last parts = fallback)
            (invalid ''Path relativo e nome file non corrispondono'' ''relative_path'')) (\<lambda>_.
          Inr (py_join ''/'' parts))))))"

definition reserved_segment :: string where "reserved_segment = ''__knowledge_bases__''"

definition validate_relative_path_for_config :: "string \<Rightarrow> string \<Rightarrow> val_exn + unit" where
  "validate_relative_path_for_config relative kb =
     guardE (\<not> (kb = default_id \<and> takeWhile (\<lambda>c. c \<noteq> CHR ''/'') relative = reserved_segment))
       (invalid ''Segmento path riservato'' ''relative_path'')"

text \<open>An empty key stands for a refused name.\<close>

definition safe_file_index_key :: "(string \<Rightarrow> string) \<Rightarrow> string option \<Rightarrow> string" where
  "safe_file_index_key sf raw =
     (let path = forward_slashes (case raw of None \<Rightarrow> [] | Some s \<Rightarrow> s) in
      if path = [] \<or> rooted path then []
      else case safe_parts sf (py_split_on CHR ''/'' path) of None \<Rightarrow> [] | Some parts \<Rightarrow> py_join ''/'' parts)"

section \<open>Places of uploads\<close>

definition upload_storage_path :: "string \<Rightarrow> string \<Rightarrow> string \<Rightarrow> val_exn + string" where
  "upload_storage_path cwd folder relative =
     (let root = abspath cwd folder; p = abspath cwd (join_path root (py_split_on CHR ''/'' relative))
      in if py_startswith p (root @ ''/'') then Inr p else Inl (bad_path ''relative_path''))"

definition safe_join :: "string \<Rightarrow> string \<Rightarrow> string list \<Rightarrow> val_exn + string" where
  "safe_join cwd folder parts =
     (let r = abspath cwd folder; p = abspath cwd (join_path r parts)
      in if p \<noteq> r \<and> \<not> py_startswith p (r @ ''/'') then Inl (invalid ''Path non valido'' ''path'') else Inr p)"

text \<open>The check that guards every removal of an uploaded file.\<close>

definition inside_root :: "string \<Rightarrow> string \<Rightarrow> string \<Rightarrow> bool" where
  "inside_root cwd folder source \<longleftrightarrow> py_startswith (abspath cwd source) (abspath cwd folder @ ''/'')"

section \<open>Normalised paths\<close>

definition plain_name :: "string \<Rightarrow> bool" where
  "plain_name s \<longleftrightarrow> s \<noteq> [] \<and> s \<noteq> ''.'' \<and> s \<noteq> ''..'' \<and> CHR ''/'' \<notin> set s"

text \<open>An absolute path in normal form, other than the root of the file system.\<close>

definition absolute_path :: "string list \<Rightarrow> string" where
  "absolute_path comps = ''/'' @ py_join ''/'' comps"

lemma norm_step_plain: "plain_name s \<Longrightarrow> norm_step b comps s = comps @ [s]"
  by (auto simp: norm_step_def plain_name_def)

lemma norm_plain: "list_all plain_name xs \<Longrightarrow> foldl (norm_step b) comps xs = comps @ xs"
  by (induction xs arbitrary: comps) (simp_all add: norm_step_plain)

lemma join_plain_head:
  assumes "list_all plain_name comps" and "comps \<noteq> []"
  shows "py_join ''/'' comps \<noteq> [] \<and> hd (py_join ''/'' comps) \<noteq> CHR ''/''"
proof -
  obtain c cs where c: "comps = c # cs" using assms(2) by (cases comps) auto
  then have "c \<noteq> []" "CHR ''/'' \<notin> set c" using assms(1) by (auto simp: plain_name_def)
  then have "c \<noteq> []" "hd c \<noteq> CHR ''/''" by (metis hd_in_set)+
  then show ?thesis by (cases cs) (auto simp: c)
qed

lemma split_absolute:
  assumes "list_all plain_name comps" and "comps \<noteq> []"
  shows "py_split_on CHR ''/'' (absolute_path comps) = [] # comps" and "slashes (absolute_path comps) = ''/''"
proof -
  have "py_split_on CHR ''/'' (py_join ''/'' comps) = comps"
    using assms by (intro split_join) (auto simp: list_all_iff plain_name_def)
  then show "py_split_on CHR ''/'' (absolute_path comps) = [] # comps" by (simp add: absolute_path_def)
  obtain x t where "py_join ''/'' comps = x # t" "x \<noteq> CHR ''/''"
    using join_plain_head [OF assms] by (cases "py_join ''/'' comps") auto
  then show "slashes (absolute_path comps) = ''/''" by (simp add: slashes_def absolute_path_def)
qed

lemma abspath_absolute:
  assumes "list_all plain_name comps" and "comps \<noteq> []"
  shows "abspath cwd (absolute_path comps) = absolute_path comps"
proof -
  have "norm_step True [] [] = []" by (simp add: norm_step_def)
  then have "normpath (absolute_path comps) = absolute_path comps"
    using split_absolute [OF assms] norm_plain [OF assms(1), of True "[]"] by (simp add: normpath_def Let_def absolute_path_def)
  then show ?thesis by (simp add: abspath_def absolute_path_def)
qed

lemma join_append: "xs \<noteq> [] \<Longrightarrow> ys \<noteq> [] \<Longrightarrow> py_join sep (xs @ ys) = py_join sep xs @ sep @ py_join sep ys"
  by (induction sep xs rule: py_join.induct) (auto simp: neq_Nil_conv)

lemma absolute_append:
  "xs \<noteq> [] \<Longrightarrow> ys \<noteq> [] \<Longrightarrow> absolute_path (xs @ ys) = absolute_path xs @ ''/'' @ py_join ''/'' ys"
  by (simp add: absolute_path_def join_append)

lemma last_join: "xs \<noteq> [] \<Longrightarrow> last xs \<noteq> [] \<Longrightarrow> py_join sep xs \<noteq> [] \<and> last (py_join sep xs) = last (last xs)"
  by (induction sep xs rule: py_join.induct) (auto simp: last_append)

lemma join_absolute:
  assumes "list_all plain_name comps" "comps \<noteq> []" and "list_all plain_name parts"
  shows "join_path (absolute_path comps) parts = absolute_path (comps @ parts)"
  using assms
proof (induction parts arbitrary: comps)
  case (Cons q parts)
  have l: "last comps \<noteq> []" "CHR ''/'' \<notin> set (last comps)"
    using Cons.prems(1,2) by (auto simp: list_all_iff plain_name_def)
  then have "last (py_join ''/'' comps) \<noteq> CHR ''/''" using last_join Cons.prems(2) last_in_set by metis
  moreover have "py_join ''/'' comps \<noteq> []" using join_plain_head Cons.prems(1,2) by blast
  moreover have "\<not> py_startswith q ''/''" using Cons.prems(3) by (cases q) (auto simp: plain_name_def)
  moreover have "absolute_path comps @ ''/'' @ q = absolute_path (comps @ [q])"
    using Cons.prems(2) by (simp add: absolute_append)
  moreover have "join_path (absolute_path (comps @ [q])) parts = absolute_path ((comps @ [q]) @ parts)"
    using Cons.prems by (intro Cons.IH) auto
  ultimately show ?case by (simp add: absolute_path_def)
qed simp

lemma absolute_inj:
  assumes "list_all plain_name xs" "list_all plain_name ys" "xs \<noteq> []" "ys \<noteq> []" and "absolute_path xs = absolute_path ys"
  shows "xs = ys"
  using split_absolute(1) [OF assms(1,3)] split_absolute(1) [OF assms(2,4)] assms(5) by (metis list.inject)

section \<open>Accepted names\<close>

text \<open>What \<open>secure_filename\<close> documents: one file name, possibly empty.\<close>

definition single_names :: "(string \<Rightarrow> string) \<Rightarrow> bool" where
  "single_names sf \<longleftrightarrow> (\<forall>s. sf s = [] \<or> plain_name (sf s))"

lemma safe_parts_plain: "single_names sf \<Longrightarrow> safe_parts sf raws = Some parts \<Longrightarrow> list_all plain_name parts"
  by (induction raws arbitrary: parts) (auto simp: Let_def single_names_def split: if_splits)

lemma accepted_relative:
  assumes "safe_relative_upload_path sf raw fallback = Inr relative" and "single_names sf"
  shows "\<exists>parts. parts \<noteq> [] \<and> list_all plain_name parts \<and> relative = py_join ''/'' parts"
  using assms safe_parts_plain [OF assms(2)]
  by (fastforce simp: safe_relative_upload_path_def Let_def result_simps split: option.splits if_splits)

lemma stored_at:
  assumes "list_all plain_name parts" "parts \<noteq> []" and "list_all plain_name comps" "comps \<noteq> []" and "abspath cwd folder = absolute_path comps"
  shows "upload_storage_path cwd folder (py_join ''/'' parts) = Inr (absolute_path (comps @ parts))"
proof -
  have "py_split_on CHR ''/'' (py_join ''/'' parts) = parts"
    using assms(1,2) by (intro split_join) (auto simp: list_all_iff plain_name_def)
  then have "abspath cwd (join_path (absolute_path comps) (py_split_on CHR ''/'' (py_join ''/'' parts))) = absolute_path (comps @ parts)"
    using join_absolute [OF assms(3,4,1)] abspath_absolute [of "comps @ parts"] assms by simp
  then show ?thesis
    using assms absolute_append [OF assms(4,2)] by (simp add: upload_storage_path_def Let_def py_startswith_iff)
qed

text \<open>
  Claim C9: An accepted upload is stored below the upload folder. Whatever relative path and file name a
  client sends, an accepted one is stored, without a further error, at the folder followed by one or
  more plain path components (no empty, dot or dot-dot segment, no separator in a component), and the
  check that guards the removal of uploads agrees that the place is inside the folder.
\<close>

theorem accepted_upload_stays_in_root:
  assumes "safe_relative_upload_path sf raw fallback = Inr relative" and "single_names sf"
    and "abspath cwd folder = absolute_path comps" "list_all plain_name comps" "comps \<noteq> []"
  shows "\<exists>parts. parts \<noteq> [] \<and> list_all plain_name parts \<and> relative = py_join ''/'' parts
    \<and> upload_storage_path cwd folder relative = Inr (absolute_path (comps @ parts))
    \<and> inside_root cwd folder (absolute_path (comps @ parts))"
proof -
  obtain parts where parts: "parts \<noteq> []" "list_all plain_name parts" "relative = py_join ''/'' parts"
    using accepted_relative [OF assms(1,2)] by blast
  moreover have "inside_root cwd folder (absolute_path (comps @ parts))"
    using parts assms abspath_absolute [of "comps @ parts"]
    by (simp add: inside_root_def absolute_append py_startswith_iff)
  ultimately show ?thesis using stored_at [OF parts(2,1) assms(4,5,3)] by blast
qed

definition demo_secure :: "string \<Rightarrow> string" where
  "demo_secure s = py_strip_chars ''._'' (filter id_char s)"

lemma demo_secure_single: "single_names demo_secure"
proof -
  have "plain_name (demo_secure s)" if "demo_secure s \<noteq> []" for s
  proof -
    have "\<not> id_char CHR ''/''" by (simp add: id_char_def py_is_ascii_alnum_def)
    then have "CHR ''/'' \<notin> set (demo_secure s)" using set_py_strip_chars [of "''._''" "filter id_char s"] by (auto simp: demo_secure_def)
    moreover have "hd (demo_secure s) \<noteq> CHR ''.''" using hd_py_strip_chars [of "''._''" "filter id_char s"] that by (auto simp: demo_secure_def)
    ultimately show ?thesis using that by (auto simp: plain_name_def)
  qed
  then show ?thesis by (auto simp: single_names_def)
qed

theorem accepted_upload_stays_in_root_witness:
  "\<exists>parts. upload_storage_path ''/srv'' ''/srv/up'' ''a/b.txt'' = Inr (absolute_path ([''srv'', ''up''] @ parts))
    \<and> inside_root ''/srv'' ''/srv/up'' (absolute_path ([''srv'', ''up''] @ parts))"
proof -
  have "safe_relative_upload_path demo_secure (Some ''a/./b.txt'') ''b.txt'' = Inr ''a/b.txt''"
    by code_simp
  moreover have "abspath ''/srv'' ''/srv/up'' = absolute_path [''srv'', ''up'']" by code_simp
  ultimately show ?thesis
    using accepted_upload_stays_in_root [of demo_secure "Some ''a/./b.txt''" "''b.txt''" "''a/b.txt''" "''/srv''" "''/srv/up''" "[''srv'', ''up'']"]
      demo_secure_single by (auto simp: plain_name_def)
qed

section \<open>Folders of knowledge bases\<close>

lemma workspace_name_plain: "plain_name (safe_workspace_id uid)"
proof -
  let ?d = "safe_workspace_id uid"
  have "\<not> id_char CHR ''/''" by (simp add: id_char_def py_is_ascii_alnum_def)
  then have "CHR ''/'' \<notin> set ?d" using safe_workspace_id_chars by blast
  with safe_workspace_id_head [of uid] show ?thesis by (auto simp: plain_name_def)
qed

lemma pattern_plain: "kb_id_pattern i \<Longrightarrow> plain_name i"
proof -
  assume a: "kb_id_pattern i"
  have "\<not> py_is_hex_lower CHR ''/''" by (simp add: py_is_hex_lower_def)
  with a have "CHR ''/'' \<notin> set (take 3 i)" "CHR ''/'' \<notin> set (drop 3 i)" "32 \<le> length i"
    by (auto simp: kb_id_pattern_def hex32_def list_all_iff)
  then have "CHR ''/'' \<notin> set i" "32 \<le> length i" by (metis UnE append_take_drop_id set_append)+
  then show ?thesis by (auto simp: plain_name_def)
qed

lemma context_uploads:
  assumes "workspace_for_user data_root upload_root uid = Some ws"
    and "knowledge_base_context dig fr dt catalog ws kb api_key inactive = Inr c"
  shows "kc_uploads c = upload_root @ kc_workspace c # (if kc_kb c = default_id then [] else [reserved_segment, kc_kb c])
    \<and> plain_name (kc_workspace c) \<and> (kc_kb c = default_id \<or> plain_name (kc_kb c))"
proof -
  obtain i r where i: "validate_knowledge_base_id fr kb = Inr i" and r: "kb_get fr dt i catalog = Inr (Some r)"
    using assms(2) by (auto simp: knowledge_base_context_def bindE_eq_Inr split: option.splits if_split_asm)
  then have c: "kc_kb c = i \<and> kc_workspace c = ws_id ws
      \<and> kc_uploads c = (if i = default_id then ws_uploads ws else ws_uploads ws @ [''__knowledge_bases__'', i])"
    using assms(2) by (cases r) (simp_all add: knowledge_base_context_def bindE_eq_Inr, auto simp: bindE_eq_Inr split: if_splits)
  have ws: "ws_id ws = safe_workspace_id uid" "ws_uploads ws = upload_root @ [safe_workspace_id uid]"
    using assms(1) by (auto simp: workspace_for_user_def Let_def split: if_splits)
  have "i = default_id \<or> plain_name i"
    using i by (auto simp: validate_knowledge_base_id_def Let_def split: if_splits intro: pattern_plain)
  with c ws workspace_name_plain [of uid] show ?thesis by (simp add: reserved_segment_def)
qed

lemma reserved_plain: "plain_name reserved_segment"
  by (simp add: reserved_segment_def plain_name_def)

lemma plain_folder:
  assumes "list_all plain_name upload_root" and "plain_name w" and "kb = default_id \<or> plain_name kb"
  shows "list_all plain_name (upload_root @ w # (if kb = default_id then [] else [reserved_segment, kb]))"
  using assms by (auto simp: reserved_plain)

lemma first_segment:
  "plain_name q \<Longrightarrow> takeWhile (\<lambda>c. c \<noteq> CHR ''/'') (py_join ''/'' (q # parts)) = q"
  by (cases parts) (auto simp: plain_name_def takeWhile_append takeWhile_eq_all_conv)

lemma folder_parts_unique:
  assumes "upload_root @ w # (if kb = default_id then [] else [reserved_segment, kb]) @ parts
      = upload_root @ w' # (if kb' = default_id then [] else [reserved_segment, kb']) @ parts'"
    and "kb = default_id \<longrightarrow> hd parts \<noteq> reserved_segment" and "kb' = default_id \<longrightarrow> hd parts' \<noteq> reserved_segment"
    and "parts \<noteq> []" "parts' \<noteq> []"
  shows "w = w' \<and> kb = kb' \<and> parts = parts'"
  using assms by (auto split: if_splits)

text \<open>
  Claim C10: Uploads of different knowledge bases never collide. If two accepted uploads, of the same or of
  different users, are stored at the same place, then they are uploads of the same name into the same
  knowledge base of the same workspace: no upload overwrites or reaches into a document of another
  knowledge base, although the folders of the additional ones lie inside the folder of the default one.
\<close>

theorem uploads_never_collide:
  assumes "workspace_for_user data_root upload_root uid = Some ws" "workspace_for_user data_root upload_root uid' = Some ws'"
    and "knowledge_base_context dig fr dt catalog ws kb api_key inactive = Inr c"
    and "knowledge_base_context dig fr dt catalog' ws' kb' api_key' inactive' = Inr c'"
    and "safe_relative_upload_path sf raw name = Inr relative" "validate_relative_path_for_config relative (kc_kb c) = Inr ()"
    and "safe_relative_upload_path sf raw' name' = Inr relative'" "validate_relative_path_for_config relative' (kc_kb c') = Inr ()"
    and "upload_storage_path cwd (absolute_path (kc_uploads c)) relative = Inr place"
    and "upload_storage_path cwd (absolute_path (kc_uploads c')) relative' = Inr place"
    and "single_names sf" "list_all plain_name upload_root"
  shows "kc_workspace c = kc_workspace c' \<and> kc_kb c = kc_kb c' \<and> relative = relative'"
proof -
  note u = context_uploads [OF assms(1,3)] and u' = context_uploads [OF assms(2,4)]
  obtain parts where p: "parts \<noteq> []" "list_all plain_name parts" "relative = py_join ''/'' parts"
    using accepted_relative [OF assms(5,11)] by blast
  obtain parts' where p': "parts' \<noteq> []" "list_all plain_name parts'" "relative' = py_join ''/'' parts'"
    using accepted_relative [OF assms(7,11)] by blast
  have f: "list_all plain_name (kc_uploads c)" "list_all plain_name (kc_uploads c')" "kc_uploads c \<noteq> []" "kc_uploads c' \<noteq> []"
    using u u' plain_folder [OF assms(12)] reserved_plain assms(12) by auto
  have "absolute_path (kc_uploads c @ parts) = place" "absolute_path (kc_uploads c' @ parts') = place"
    using stored_at [OF p(2,1) f(1,3) abspath_absolute [OF f(1,3)]] stored_at [OF p'(2,1) f(2,4) abspath_absolute [OF f(2,4)]]
      assms(9,10) p(3) p'(3) by auto
  then have eq: "kc_uploads c @ parts = kc_uploads c' @ parts'"
    using f p(1,2) p'(1,2) by (intro absolute_inj) auto
  have "kc_kb c = default_id \<longrightarrow> hd parts \<noteq> reserved_segment" "kc_kb c' = default_id \<longrightarrow> hd parts' \<noteq> reserved_segment"
    using assms(6,8) p p' first_segment
    by (cases parts; cases parts'; auto simp: validate_relative_path_for_config_def guardE_eq_Inr)+
  with folder_parts_unique [of upload_root "kc_workspace c" "kc_kb c" parts "kc_workspace c'" "kc_kb c'" parts'] eq u u' p p'
  show ?thesis by auto
qed

theorem uploads_never_collide_witness:
  "\<exists>ws c. workspace_for_user [] [''up''] ''ann'' = Some ws
    \<and> knowledge_base_context id (\<lambda>x. []) sample_dt sample_file ws (JStr ''default'') None False = Inr c
    \<and> upload_storage_path ''/'' (absolute_path (kc_uploads c)) ''a.txt'' = Inr ''/up/ann/a.txt''
    \<and> upload_storage_path ''/'' (absolute_path (kc_uploads c)) ''b.txt'' \<noteq> Inr ''/up/ann/a.txt''"
proof -
  obtain ws where ws: "workspace_for_user [] [''up''] ''ann'' = Some ws" by (simp add: workspace_for_user_def Let_def)
  then have ws_def: "ws_id ws = safe_workspace_id ''ann''" "ws_uploads ws = [''up'', safe_workspace_id ''ann'']"
    by (auto simp: workspace_for_user_def Let_def)
  have valid: "validate_knowledge_base_id (\<lambda>x. []) (JStr ''default'') = Inr default_id"
    "validate_knowledge_base_id (\<lambda>x. []) (JStr default_id) = Inr default_id" by code_simp+
  have get: "kb_get (\<lambda>x. []) sample_dt default_id sample_file = Inr (Some (public_kb (default_record ''T0'')))"
    using sample_load [of "\<lambda>x. []"] by (simp add: kb_get_def kb_load_def default_record_def)
  obtain c where c: "knowledge_base_context id (\<lambda>x. []) sample_dt sample_file ws (JStr ''default'') None False = Inr c"
    using valid get by (simp add: knowledge_base_context_def public_kb_def jget_def status_text_def
        default_record_def collection_for_knowledge_base_def default_id_def)
  have kc: "kc_kb c = default_id" "kc_uploads c = [''up'', safe_workspace_id ''ann'']"
    using c valid get ws_def by (auto simp: knowledge_base_context_def bindE_eq_Inr public_kb_def split: if_splits)
  have rel: "safe_relative_upload_path demo_secure None ''a.txt'' = Inr ''a.txt''" by code_simp
  have val: "validate_relative_path_for_config ''a.txt'' (kc_kb c) = Inr ()"
    by (simp add: validate_relative_path_for_config_def reserved_segment_def guardE_def)
  have "safe_workspace_id ''ann'' = ''ann''" by code_simp
  moreover have "upload_storage_path ''/'' (absolute_path [''up'', ''ann'']) ''a.txt'' = Inr ''/up/ann/a.txt''" by code_simp
  ultimately have place: "upload_storage_path ''/'' (absolute_path (kc_uploads c)) ''a.txt'' = Inr ''/up/ann/a.txt''"
    using kc by simp
  have rel': "safe_relative_upload_path demo_secure None ''b.txt'' = Inr ''b.txt''" by code_simp
  have val': "validate_relative_path_for_config ''b.txt'' (kc_kb c) = Inr ()"
    by (simp add: validate_relative_path_for_config_def reserved_segment_def guardE_def)
  show ?thesis
    using uploads_never_collide [OF ws ws c c rel val rel' val' place _ demo_secure_single] ws c place by (auto simp: plain_name_def)
qed

end
