(* ===== verification/Vector_Store.thy ===== *)
theory Vector_Store
  imports Upload_Paths Model_Defaults
begin

text \<open>
  \<open>app/utils/vector_store/chroma_persistent.py\<close> and \<open>app/utils/document_identity.py\<close>: the chunks of a
  collection by their source. ChromaDB is a parameter: a record of the operations of a collection
  that the code calls, with what they promise in \<open>chroma_laws\<close>; \<open>ch_find\<close> reads one record and only
  occurs there. The sums \<open>dig\<close> (SHA-256 in hexadecimal) and the embedding model are parameters too.
\<close>

record document =
  dc_text :: string
  dc_meta :: jdict

record chunk =
  ck_id :: string
  ck_text :: string
  ck_meta :: jdict
  ck_emb :: "real list"

text \<open>\<open>ch_get k v\<close> is \<open>collection.get(where={k: v})\<close>; \<open>ch_add\<close> may raise (\<open>False\<close>).\<close>

record 'c chroma =
  ch_get :: "string \<Rightarrow> string \<Rightarrow> 'c \<Rightarrow> chunk list"
  ch_add :: "chunk list \<Rightarrow> 'c \<Rightarrow> bool \<times> 'c"
  ch_upsert :: "chunk list \<Rightarrow> 'c \<Rightarrow> 'c"
  ch_delete :: "string list \<Rightarrow> 'c \<Rightarrow> 'c"
  ch_count :: "'c \<Rightarrow> nat"
  ch_find :: "string \<Rightarrow> 'c \<Rightarrow> chunk option"

section \<open>Identity of documents\<close>

definition document_hash :: "(byte list \<Rightarrow> string) \<Rightarrow> byte list \<Rightarrow> string" where
  "document_hash sha content = take 16 (sha content)"

definition source_hash :: "(string \<Rightarrow> string) \<Rightarrow> string \<Rightarrow> string" where
  "source_hash dig source = take 12 (dig (normpath source))"

definition safe_component :: "string \<Rightarrow> string \<Rightarrow> string" where
  "safe_component dflt s = (let t = py_strip_chars ''-'' (re_squeeze id_char CHR ''-'' False s) in if t = [] then dflt else t)"

definition document_chunk_id :: "(string \<Rightarrow> string) \<Rightarrow> (real \<Rightarrow> string) \<Rightarrow> jdict \<Rightarrow> nat \<Rightarrow> string" where
  "document_chunk_id dig fr meta fallback =
     (let document_id = py_str fr (j_or (jget meta ''document_id'') (j_or (jget meta ''source'') (JStr ''document'')));
          source_id = py_str fr (j_or (jget meta ''source_id'') (JStr (source_hash dig (text_or fr document_id (jget meta ''source'')))));
          chunk = py_str fr (jget_or meta ''chunk_id'' (JInt (int fallback)))
      in safe_component ''source'' source_id @ '':'' @ safe_component ''document'' document_id @ '':chunk:'' @ chunk)"

section \<open>Operations\<close>

definition chunks_of :: "(string \<Rightarrow> string) \<Rightarrow> (real \<Rightarrow> string) \<Rightarrow> (string list \<Rightarrow> real list list) \<Rightarrow> document list \<Rightarrow> chunk list" where
  "chunks_of dig fr encode docs =
     map (\<lambda>(i, d, e). \<lparr>ck_id = document_chunk_id dig fr (dc_meta d) i, ck_text = dc_text d, ck_meta = dc_meta d, ck_emb = e\<rparr>)
       (zip [0..<length docs] (zip docs (encode (map dc_text docs))))"

text \<open>Lists of different lengths are refused by the collection.\<close>

definition add_documents ::
  "'c chroma \<Rightarrow> (string \<Rightarrow> string) \<Rightarrow> (real \<Rightarrow> string) \<Rightarrow> (string list \<Rightarrow> real list list) \<Rightarrow> document list \<Rightarrow> 'c \<Rightarrow> bool \<times> 'c" where
  "add_documents ch dig fr encode docs c =
     (if docs = [] then (True, c)
      else if length (encode (map dc_text docs)) \<noteq> length docs then (False, c)
      else ch_add ch (chunks_of dig fr encode docs) c)"

definition delete_by_source :: "'c chroma \<Rightarrow> string \<Rightarrow> 'c \<Rightarrow> nat \<times> 'c" where
  "delete_by_source ch source c =
     (let ids = map ck_id (ch_get ch ''source'' source c)
      in if ids = [] then (0, c) else (length ids, ch_delete ch ids c))"

text \<open>A snapshot holds parallel lists.\<close>

record snapshot =
  sn_ids :: "string list"
  sn_documents :: "string list"
  sn_metadatas :: "jdict list"
  sn_embeddings :: "real list list"

definition snapshot_by_source :: "'c chroma \<Rightarrow> string \<Rightarrow> 'c \<Rightarrow> snapshot" where
  "snapshot_by_source ch source c =
     (let xs = ch_get ch ''source'' source c
      in \<lparr>sn_ids = map ck_id xs, sn_documents = map ck_text xs, sn_metadatas = map ck_meta xs, sn_embeddings = map ck_emb xs\<rparr>)"

definition snapshot_chunks :: "snapshot \<Rightarrow> chunk list" where
  "snapshot_chunks s = map (\<lambda>(i, d, m, e). \<lparr>ck_id = i, ck_text = d, ck_meta = m, ck_emb = e\<rparr>)
     (zip (sn_ids s) (zip (sn_documents s) (zip (sn_metadatas s) (sn_embeddings s))))"

text \<open>\<open>None\<close>: an incomplete snapshot raises.\<close>

definition restore_source_snapshot :: "'c chroma \<Rightarrow> string \<Rightarrow> snapshot \<Rightarrow> 'c \<Rightarrow> nat option \<times> 'c" where
  "restore_source_snapshot ch source s c =
     (let current = map ck_id (ch_get ch ''source'' source c); n = length (sn_ids s) in
      if sn_ids s \<noteq> [] \<and> \<not> (length (sn_documents s) = n \<and> length (sn_metadatas s) = n \<and> length (sn_embeddings s) = n)
      then (None, c)
      else
        let c = (if sn_ids s \<noteq> [] then ch_upsert ch (snapshot_chunks s) c else c);
            stale = filter (\<lambda>i. i \<notin> set (sn_ids s)) current
        in (Some n, if stale \<noteq> [] then ch_delete ch stale c else c))"

record found_document =
  fd_document :: string
  fd_source :: json
  fd_chunk :: string
  fd_chunks :: nat

definition find_document_by_id :: "'c chroma \<Rightarrow> string \<Rightarrow> string option \<Rightarrow> 'c \<Rightarrow> found_document option" where
  "find_document_by_id ch document_id exclude_source c =
     (let xs = ch_get ch ''document_id'' document_id c in
      map_option (\<lambda>x. \<lparr>fd_document = document_id, fd_source = jget (ck_meta x) ''source'', fd_chunk = ck_id x, fd_chunks = length xs\<rparr>)
        (find (\<lambda>x. \<not> (case exclude_source of None \<Rightarrow> False
             | Some s \<Rightarrow> s \<noteq> [] \<and> jget (ck_meta x) ''source'' = JStr s)) xs))"

section \<open>What a collection promises\<close>

definition from_source :: "string \<Rightarrow> chunk \<Rightarrow> bool" where
  "from_source source x \<longleftrightarrow> jget (ck_meta x) ''source'' = JStr source"

text \<open>
  The record stored after an upsert has the given text and embedding, and at least the given metadata
  (an update keeps the other fields of a record that was there).
\<close>

definition stored_as :: "chunk \<Rightarrow> chunk \<Rightarrow> bool" where
  "stored_as x y \<longleftrightarrow> ck_id y = ck_id x \<and> ck_text y = ck_text x \<and> ck_emb y = ck_emb x
     \<and> (\<forall>k v. od_get (ck_meta x) k = Some v \<longrightarrow> od_get (ck_meta y) k = Some v)"

definition chroma_laws :: "'c chroma \<Rightarrow> bool" where
  "chroma_laws ch \<longleftrightarrow>
     (\<forall>k v c. distinct (map ck_id (ch_get ch k v c))
        \<and> (\<forall>x. x \<in> set (ch_get ch k v c) \<longleftrightarrow> ch_find ch (ck_id x) c = Some x \<and> jget (ck_meta x) k = JStr v))
   \<and> (\<forall>i x c. ch_find ch i c = Some x \<longrightarrow> ck_id x = i)
   \<and> (\<forall>ids i c. ch_find ch i (ch_delete ch ids c) = (if i \<in> set ids then None else ch_find ch i c))
   \<and> (\<forall>xs c i x. distinct (map ck_id xs) \<longrightarrow> x \<in> set xs \<longrightarrow> ck_id x = i
        \<longrightarrow> (\<exists>y. ch_find ch i (ch_upsert ch xs c) = Some y \<and> stored_as x y))
   \<and> (\<forall>xs c i. i \<notin> ck_id ` set xs \<longrightarrow> ch_find ch i (ch_upsert ch xs c) = ch_find ch i c)
   \<and> (\<forall>xs c i x. ch_find ch i c = Some x \<longrightarrow> ch_find ch i (snd (ch_add ch xs c)) = Some x)
   \<and> (\<forall>xs c i x. ch_find ch i c = None \<longrightarrow> ch_find ch i (snd (ch_add ch xs c)) = Some x \<longrightarrow> x \<in> set xs)"

end
