(* ===== verification/Document_Text.thy ===== *)
theory Document_Text
  imports Vector_Store Provider_Registry
begin

text \<open>
  From a stored file to the documents that are indexed: \<open>app/utils/text_processor.py\<close>,
  \<open>pdf_processor.py\<close>, \<open>audio_processor.py\<close>, \<open>ocr_processor.py\<close> and \<open>ocr_policy.py\<close>. The text splitter
  and the PDF reader are parameters; a text that an exception carries is the left injection.
\<close>

record text_env =
  te_split :: "int \<Rightarrow> int \<Rightarrow> string \<Rightarrow> string + string list"
  te_pages :: "byte list \<Rightarrow> string + string list"
  te_utf8 :: "byte list \<Rightarrow> string option"
  te_sha :: "byte list \<Rightarrow> string"
  te_dig :: "string \<Rightarrow> string"
  te_missing :: string

section \<open>Cleaning\<close>

definition looks_binary :: "byte list \<Rightarrow> bool" where
  "looks_binary raw =
     (let sample = take 4096 raw in raw \<noteq> [] \<and>
       (0 \<in> set sample \<or> 1 / 20 < real (length (filter control_byte sample)) / real (max 1 (length sample))))"

fun unix_newlines :: "string \<Rightarrow> string" where
  "unix_newlines [] = []"
| "unix_newlines (c # s) =
     (if c = CHR 0x0D then CHR 0x0A # (case s of d # t \<Rightarrow> unix_newlines (if d = CHR 0x0A then t else s) | [] \<Rightarrow> [])
      else c # unix_newlines s)"

text \<open>\<open>re.sub(r"\n[ \t]+", "\n", text)\<close>; the flag is after a line feed.\<close>

fun drop_indents :: "bool \<Rightarrow> string \<Rightarrow> string" where
  "drop_indents b [] = []"
| "drop_indents b (c # s) =
     (if b \<and> (c = CHR '' '' \<or> c = CHR 0x09) then drop_indents True s else c # drop_indents (c = CHR 0x0A) s)"

text \<open>\<open>re.sub(r"\n{3,}", "\n\n", text)\<close>: at most two line feeds in a row.\<close>

fun two_newlines :: "nat \<Rightarrow> string \<Rightarrow> string" where
  "two_newlines n [] = []"
| "two_newlines n (c # s) =
     (if c = CHR 0x0A then (if 2 \<le> n then two_newlines n s else c # two_newlines (Suc n) s) else c # two_newlines 0 s)"

definition clean_text :: "string \<Rightarrow> string" where
  "clean_text text =
     (let t = unix_newlines (py_replace_char CHR 0x00 CHR '' '' text);
          t = re_squeeze (\<lambda>c. (of_char c :: nat) \<notin> {9, 11, 12, 32}) CHR '' '' False t
      in py_strip (two_newlines 0 (drop_indents False t)))"

definition extract_text_file :: "text_env \<Rightarrow> byte list \<Rightarrow> string + string" where
  "extract_text_file env raw =
     (if looks_binary raw then Inl ''Il file sembra binario, non testo''
      else Inr (clean_text (case te_utf8 env raw of Some t \<Rightarrow> t | None \<Rightarrow> map (\<lambda>b. char_of (unat b)) raw)))"

text \<open>\<open>re.sub(r"\s+", " ", text)\<close>, then every other character than \<open>\w\<close>, space and some punctuation.\<close>

definition kept_char :: "char \<Rightarrow> bool" where
  "kept_char c \<longleftrightarrow> py_isalnum c \<or> py_isspace c \<or> c \<in> set ''_.,;:!?()-'' \<or> c = CHR 0x27"

definition clean_extracted_text :: "string \<Rightarrow> string" where
  "clean_extracted_text text =
     py_strip (map (\<lambda>c. if kept_char c then c else CHR '' '') (re_squeeze (\<lambda>c. \<not> py_isspace c) CHR '' '' False text))"

definition extract_pdf_text :: "text_env \<Rightarrow> byte list \<Rightarrow> string + string" where
  "extract_pdf_text env raw = map_sum id (\<lambda>pages. clean_extracted_text (py_join [CHR 0x0A, CHR 0x0A] pages)) (te_pages env raw)"

section \<open>Documents\<close>

definition source_type_for_text_extension :: "string \<Rightarrow> string" where
  "source_type_for_text_extension path =
     (let e = (if CHR ''.'' \<in> set path then extension_of path else [])
      in if e = ''md'' then ''markdown'' else if e = ''csv'' then ''csv'' else ''text'')"

text \<open>The metadata all processors write; \<open>front\<close> and \<open>rear\<close> are the fields of their own.\<close>

definition text_documents :: "text_env \<Rightarrow> string \<Rightarrow> byte list \<Rightarrow> jdict \<Rightarrow> jdict \<Rightarrow> string list \<Rightarrow> document list" where
  "text_documents env path raw front rear parts =
     map (\<lambda>(i, t). \<lparr>dc_text = t, dc_meta = [(''source'', JStr path)] @ front
         @ [(''document_id'', JStr (document_hash (te_sha env) raw)), (''source_id'', JStr (source_hash (te_dig env) path)),
            (''chunk_id'', JInt (int i)), (''chunk_length'', JInt (int (length t)))] @ rear\<rparr>)
       (zip [0..<length parts] parts)"

definition process_text_file :: "text_env \<Rightarrow> int \<Rightarrow> int \<Rightarrow> string \<Rightarrow> byte list option \<Rightarrow> string + document list" where
  "process_text_file env chunk_size overlap path file = (case file of
       None \<Rightarrow> Inl (te_missing env)
     | Some raw \<Rightarrow> bindE (extract_text_file env raw) (\<lambda>text.
         if text = [] then Inr []
         else map_sum id (text_documents env path raw [(''source_type'', JStr (source_type_for_text_extension path))] [])
           (te_split env chunk_size overlap text)))"

definition process_pdf :: "text_env \<Rightarrow> int \<Rightarrow> int \<Rightarrow> string \<Rightarrow> byte list option \<Rightarrow> string + document list" where
  "process_pdf env chunk_size overlap path file = (case file of
       None \<Rightarrow> Inl (te_missing env)
     | Some raw \<Rightarrow> bindE (extract_pdf_text env raw) (\<lambda>text.
         map_sum id (text_documents env path raw [] []) (te_split env chunk_size overlap text)))"

definition process_transcript :: "text_env \<Rightarrow> int \<Rightarrow> int \<Rightarrow> string \<Rightarrow> byte list option \<Rightarrow> string \<Rightarrow> string \<Rightarrow> string + document list" where
  "process_transcript env chunk_size overlap path file transcript transcript_path =
     (let cleaned = clean_extracted_text transcript in
      if cleaned = [] then Inr []
      else bindE (te_split env chunk_size overlap cleaned) (\<lambda>parts. case file of
          None \<Rightarrow> Inl (te_missing env)
        | Some raw \<Rightarrow> Inr (text_documents env path raw
            [(''source_type'', JStr ''audio''), (''transcript_path'', JStr transcript_path)] [] parts)))"

definition process_ocr_text :: "text_env \<Rightarrow> int \<Rightarrow> int \<Rightarrow> string \<Rightarrow> byte list option \<Rightarrow> string \<Rightarrow> string \<Rightarrow> string + document list" where
  "process_ocr_text env chunk_size overlap path file text ocr_text_path =
     (let cleaned = clean_extracted_text text in
      if cleaned = [] then Inr []
      else bindE (te_split env chunk_size overlap cleaned) (\<lambda>parts. case file of
          None \<Rightarrow> Inl (te_missing env)
        | Some raw \<Rightarrow> Inr (text_documents env path raw
            [(''source_type'', JStr ''ocr''), (''ocr_text_path'', JStr ocr_text_path)] [(''ocr_used'', JBool True)] parts)))"

lemma text_documents_source:
  "d \<in> set (text_documents env path raw front rear parts) \<Longrightarrow> jget (dc_meta d) ''source'' = JStr path"
  by (auto simp: text_documents_def jget_def)

section \<open>When a PDF is read by OCR\<close>

datatype ocr_reason = ParserProducedChunks | OcrDisabled | OcrAutoDisabled | OcrNotReady | ParserProducedNoChunks

record ocr_decision =
  od_run :: bool
  od_reason :: ocr_reason
  od_error :: string

definition ocr_readiness_error :: "(real \<Rightarrow> string) \<Rightarrow> (string \<Rightarrow> string option) \<Rightarrow> jdict \<Rightarrow> string" where
  "ocr_readiness_error fr getenv ocr =
     (if \<not> truthy (jget ocr ''provider'') then ''provider mancante''
      else if \<not> truthy (jget ocr ''base_url'') then ''base URL mancante''
      else if \<not> truthy (jget ocr ''default_model'') then ''modello mancante''
      else if truthy (jget_or ocr ''requires_api_key'' (JBool True)) \<and> resolve_api_key fr getenv ocr = []
        then (let e = py_strip (text_or fr [] (jget ocr ''api_key_env'')) in
              if e \<noteq> [] then ''API key non configurata ('' @ e @ '')'' else ''API key non configurata'')
      else [])"

definition decide_pdf_ocr_for_ingestion ::
  "(real \<Rightarrow> string) \<Rightarrow> (string \<Rightarrow> string option) \<Rightarrow> jdict \<Rightarrow> document list \<Rightarrow> string \<Rightarrow> ocr_decision" where
  "decide_pdf_ocr_for_ingestion fr getenv settings parsed parse_error =
     (let ocr = dict_or_empty (jget settings ''ocr'');
          base = (if parse_error \<noteq> [] then parse_error else ''Il PDF non contiene testo indicizzabile'');
          ready = ocr_readiness_error fr getenv ocr;
          no = (\<lambda>reason e. \<lparr>od_run = False, od_reason = reason, od_error = e\<rparr>)
      in if parsed \<noteq> [] then no ParserProducedChunks []
         else if \<not> truthy (jget ocr ''enabled'') then no OcrDisabled (base @ '' e OCR non e'' @ [CHR 0x27] @ '' configurato'')
         else if \<not> truthy (jget_or ocr ''auto_on_empty_pdf'' (JBool True))
           then no OcrAutoDisabled (base @ '' e OCR automatico e'' @ [CHR 0x27] @ '' disattivato'')
         else if ready \<noteq> [] then no OcrNotReady (base @ ''. OCR non pronto: '' @ ready)
         else \<lparr>od_run = True, od_reason = ParserProducedNoChunks, od_error = []\<rparr>)"

end
