(* ===== verification/Kb_World.thy ===== *)
theory Kb_World
  imports File_Index Document_Text Answer_Cache Query_Payload
begin

text \<open>
  What indexing a document works on: the files of the upload folder, the file index, the collection of
  chunks and the answer cache of a knowledge base, and the calls that change them. Every call that the
  code can see fail is an attempt with a number of its own: \<open>ue_fault n\<close> is the text of the exception
  attempt \<open>n\<close> raises, \<open>ue_lost n\<close> the message if the distributed locks are found lost there. A theorem for
  all environments is thus one for a failure at any point.
\<close>

datatype up_error =
  Refused val_exn
| LeaseLost string
| Failed string
| During up_error up_error
| RollbackFailed up_error up_error

text \<open>
  \<open>During e f\<close> is \<open>f\<close>, raised while \<open>e\<close> is handled (its \<open>__context__\<close>); \<open>RollbackFailed e f\<close> is the
  \<open>RuntimeError\<close> raised from \<open>e\<close> when undoing its effects failed with \<open>f\<close>.
\<close>

fun error_text :: "up_error \<Rightarrow> string" where
  "error_text (Refused v) = (case v of Invalid r \<Rightarrow> ve_message r | _ \<Rightarrow> [])"
| "error_text (LeaseLost s) = s"
| "error_text (Failed s) = s"
| "error_text (During e f) = error_text f"
| "error_text (RollbackFailed e f) = error_text e @ ''; rollback upload fallito: '' @ error_text f"

record ('c, 'v) kb_world =
  kw_files :: "string \<Rightarrow> byte list option"
  kw_index :: json_file
  kw_chunks :: 'c
  kw_cache :: "'v lru_cache"
  kw_step :: nat

record 'c up_env =
  ue_text :: text_env
  ue_chroma :: "'c chroma"
  ue_encode :: "string list \<Rightarrow> real list list"
  ue_fr :: "real \<Rightarrow> string"
  ue_getenv :: "string \<Rightarrow> string option"
  ue_settings :: jdict
  ue_collection :: string
  ue_cwd :: string
  ue_folder :: string
  ue_ocr :: "byte list option \<Rightarrow> string + string"
  ue_transcribe :: "byte list option \<Rightarrow> string option \<Rightarrow> string + string"
  ue_token :: "nat \<Rightarrow> string"
  ue_now :: "nat \<Rightarrow> string"
  ue_lost :: "nat \<Rightarrow> string option"
  ue_fault :: "nat \<Rightarrow> string option"
  ue_rejected :: string

type_synonym ('c, 'v, 'a) kb_action = "('c, 'v) kb_world \<Rightarrow> (up_error + 'a) \<times> ('c, 'v) kb_world"

section \<open>Actions\<close>

definition returnA :: "'a \<Rightarrow> ('c, 'v, 'a) kb_action" where
  "returnA x w = (Inr x, w)"

definition raiseA :: "up_error \<Rightarrow> ('c, 'v, 'a) kb_action" where
  "raiseA e w = (Inl e, w)"

definition bindA :: "('c, 'v, 'a) kb_action \<Rightarrow> ('a \<Rightarrow> ('c, 'v, 'b) kb_action) \<Rightarrow> ('c, 'v, 'b) kb_action" where
  "bindA m f w = (case m w of (Inl e, v) \<Rightarrow> (Inl e, v) | (Inr x, v) \<Rightarrow> f x v)"

definition thenA :: "('c, 'v, unit) kb_action \<Rightarrow> ('c, 'v, 'b) kb_action \<Rightarrow> ('c, 'v, 'b) kb_action" where
  "thenA m k = bindA m (\<lambda>_. k)"

text \<open>\<open>try\<close> with an \<open>except\<close> clause for every exception.\<close>

definition tryA :: "('c, 'v, 'a) kb_action \<Rightarrow> (up_error \<Rightarrow> ('c, 'v, 'a) kb_action) \<Rightarrow> ('c, 'v, 'a) kb_action" where
  "tryA m h w = (case m w of (Inl e, v) \<Rightarrow> h e v | (Inr x, v) \<Rightarrow> (Inr x, v))"

definition whenA :: "bool \<Rightarrow> ('c, 'v, unit) kb_action \<Rightarrow> ('c, 'v, unit) kb_action" where
  "whenA b m = (if b then m else returnA ())"

definition liftA :: "('e \<Rightarrow> up_error) \<Rightarrow> 'e + 'a \<Rightarrow> ('c, 'v, 'a) kb_action" where
  "liftA g r = (case r of Inl e \<Rightarrow> raiseA (g e) | Inr x \<Rightarrow> returnA x)"

definition readA :: "(('c, 'v) kb_world \<Rightarrow> 'a) \<Rightarrow> ('c, 'v, 'a) kb_action" where
  "readA f w = (Inr (f w), w)"

text \<open>\<open>try\<close> with a \<open>finally\<close> clause, and an \<open>except\<close> clause that cleans up and raises again.\<close>

definition finallyA :: "('c, 'v, 'a) kb_action \<Rightarrow> ('c, 'v, 'b) kb_action \<Rightarrow> ('c, 'v, 'a) kb_action" where
  "finallyA m k w = (case m w of (r, v) \<Rightarrow> (case k v of
       (Inl f, u) \<Rightarrow> (Inl (case r of Inl e \<Rightarrow> During e f | Inr _ \<Rightarrow> f), u) | (Inr _, u) \<Rightarrow> (r, u)))"

definition reraise_after :: "('c, 'v, unit) kb_action \<Rightarrow> up_error \<Rightarrow> ('c, 'v, 'a) kb_action" where
  "reraise_after k e = finallyA (raiseA e) k"

text \<open>A call that may fail with no effect.\<close>

definition attempt :: "'c up_env \<Rightarrow> ('c, 'v, 'a) kb_action \<Rightarrow> ('c, 'v, 'a) kb_action" where
  "attempt env m w = (let v = w\<lparr>kw_step := Suc (kw_step w)\<rparr> in
     case ue_fault env (kw_step w) of Some s \<Rightarrow> (Inl (Failed s), v) | None \<Rightarrow> m v)"

section \<open>The calls\<close>

definition assert_distributed_locks_healthy :: "'c up_env \<Rightarrow> ('c, 'v, unit) kb_action" where
  "assert_distributed_locks_healthy env w =
     (case ue_lost env (kw_step w) of Some s \<Rightarrow> Inl (LeaseLost s) | None \<Rightarrow> Inr (), w\<lparr>kw_step := Suc (kw_step w)\<rparr>)"

definition is_file :: "string \<Rightarrow> ('c, 'v) kb_world \<Rightarrow> bool" where
  "is_file p w \<longleftrightarrow> kw_files w p \<noteq> None"

definition put_file :: "string \<Rightarrow> byte list option \<Rightarrow> ('c, 'v, unit) kb_action" where
  "put_file p c w = (Inr (), w\<lparr>kw_files := (kw_files w)(p := c)\<rparr>)"

definition os_replace :: "'c up_env \<Rightarrow> string \<Rightarrow> string \<Rightarrow> ('c, 'v, unit) kb_action" where
  "os_replace env a b = attempt env (\<lambda>w. case kw_files w a of
       None \<Rightarrow> (Inl (Failed (te_missing (ue_text env))), w)
     | Some c \<Rightarrow> (Inr (), w\<lparr>kw_files := (kw_files w)(a := None, b := Some c)\<rparr>))"

definition os_remove :: "'c up_env \<Rightarrow> string \<Rightarrow> ('c, 'v, unit) kb_action" where
  "os_remove env p = attempt env (\<lambda>w. if is_file p w then put_file p None w else (Inl (Failed (te_missing (ue_text env))), w))"

text \<open>Opening for writing empties the file; the write itself may then fail.\<close>

definition write_text :: "'c up_env \<Rightarrow> string \<Rightarrow> string \<Rightarrow> ('c, 'v, unit) kb_action" where
  "write_text env p s = thenA (attempt env (put_file p (Some []))) (attempt env (put_file p (Some (utf8_encode s))))"

text \<open>A read of the index that meets a broken element raises.\<close>

definition index_failed :: "index_error \<Rightarrow> up_error" where
  "index_failed e = Failed ''object has no attribute get''"

definition get_entry :: "string \<Rightarrow> ('c, 'v, json option) kb_action" where
  "get_entry filename = bindA (readA (\<lambda>w. index_get filename (kw_index w))) (liftA index_failed)"

definition on_index :: "'c up_env \<Rightarrow> (json_file \<Rightarrow> (index_error + 'a) \<times> json_file) \<Rightarrow> ('c, 'v, 'a) kb_action" where
  "on_index env f = attempt env (\<lambda>w. case f (kw_index w) of (r, i) \<Rightarrow> (map_sum index_failed id r, w\<lparr>kw_index := i\<rparr>))"

definition record_entry ::
  "'c up_env \<Rightarrow> string \<Rightarrow> string \<Rightarrow> nat \<Rightarrow> string \<Rightarrow> string \<Rightarrow> jdict \<Rightarrow> ('c, 'v, jdict) kb_action" where
  "record_entry env filename path chunks status error metadata w =
     on_index env (index_record (ue_now env (kw_step w)) filename path (int chunks) status error metadata) w"

definition on_chunks :: "'c up_env \<Rightarrow> ('c \<Rightarrow> (up_error + 'a) \<times> 'c) \<Rightarrow> ('c, 'v, 'a) kb_action" where
  "on_chunks env f = attempt env (\<lambda>w. case f (kw_chunks w) of (r, c) \<Rightarrow> (r, w\<lparr>kw_chunks := c\<rparr>))"

definition delete_source :: "'c up_env \<Rightarrow> string \<Rightarrow> ('c, 'v, nat) kb_action" where
  "delete_source env source = on_chunks env (\<lambda>c. apfst Inr (delete_by_source (ue_chroma env) source c))"

definition add_to_index :: "'c up_env \<Rightarrow> document list \<Rightarrow> ('c, 'v, unit) kb_action" where
  "add_to_index env docs = on_chunks env (\<lambda>c.
     apfst (\<lambda>ok. if ok then Inr () else Inl (Failed (ue_rejected env)))
       (add_documents (ue_chroma env) (te_dig (ue_text env)) (ue_fr env) (ue_encode env) docs c))"

definition take_snapshot :: "'c up_env \<Rightarrow> string \<Rightarrow> ('c, 'v, snapshot) kb_action" where
  "take_snapshot env source = on_chunks env (\<lambda>c. (Inr (snapshot_by_source (ue_chroma env) source c), c))"

definition find_duplicate :: "'c up_env \<Rightarrow> string \<Rightarrow> string \<Rightarrow> ('c, 'v, found_document option) kb_action" where
  "find_duplicate env document_id path = (if document_id = [] then returnA None
     else on_chunks env (\<lambda>c. (Inr (find_document_by_id (ue_chroma env) document_id (Some path) c), c)))"

definition put_back :: "'c up_env \<Rightarrow> string \<Rightarrow> snapshot \<Rightarrow> ('c, 'v, nat) kb_action" where
  "put_back env source s = on_chunks env (\<lambda>c.
     apfst (\<lambda>r. case r of None \<Rightarrow> Inl (Failed ''Snapshot vettoriale incompleto'') | Some n \<Rightarrow> Inr n)
       (restore_source_snapshot (ue_chroma env) source s c))"

definition clear_answers :: "'c up_env \<Rightarrow> ('c, 'v, unit) kb_action" where
  "clear_answers env w = (Inr (), w\<lparr>kw_cache := snd (clear_collection (te_dig (ue_text env))
     (if ue_collection env = [] then ''documents'' else ue_collection env) (kw_cache w))\<rparr>)"

section \<open>What an action leaves alone\<close>

text \<open>A relation between the states before and after an action, closed under composition.\<close>

locale action_frame =
  fixes frm :: "('c, 'v) kb_world \<Rightarrow> ('c, 'v) kb_world \<Rightarrow> bool"
  assumes frm_refl: "frm w w"
    and frm_trans: "frm u v \<Longrightarrow> frm v w \<Longrightarrow> frm u w"
    and frm_step: "frm u (v\<lparr>kw_step := n\<rparr>) \<longleftrightarrow> frm u v"
    and frm_step_left: "frm (u\<lparr>kw_step := n\<rparr>) v \<longleftrightarrow> frm u v"
begin

definition confined :: "('c, 'v, 'a) kb_action \<Rightarrow> bool" where
  "confined m \<longleftrightarrow> (\<forall>w. frm w (snd (m w)))"

lemma confined_pure: "confined (returnA x)" "confined (raiseA e)" "confined (readA f)" "confined (liftA g r)"
  by (auto simp: confined_def returnA_def raiseA_def readA_def liftA_def frm_refl split: sum.split)

lemma confined_bind:
  assumes "confined m" and "\<And>x. confined (f x)"
  shows "confined (bindA m f)"
  unfolding confined_def
proof
  fix w
  obtain r v where m: "m w = (r, v)" by fastforce
  then have "frm w v" using assms(1) by (metis confined_def snd_conv)
  moreover have "frm v (snd (f x v))" for x using assms(2) by (simp add: confined_def)
  ultimately show "frm w (snd (bindA m f w))"
    by (auto simp: bindA_def m split: sum.split intro: frm_trans)
qed

lemma confined_then: "confined m \<Longrightarrow> confined k \<Longrightarrow> confined (thenA m k)"
  by (simp add: thenA_def confined_bind)

lemma confined_when: "(b \<Longrightarrow> confined m) \<Longrightarrow> confined (whenA b m)"
  by (simp add: whenA_def confined_pure)

lemma confined_attempt:
  assumes "confined m"
  shows "confined (attempt env m)"
  unfolding confined_def
proof
  fix w :: "('c, 'v) kb_world"
  let ?v = "w\<lparr>kw_step := Suc (kw_step w)\<rparr>"
  have "frm ?v (snd (m ?v))" using assms by (simp add: confined_def)
  then have "frm w (snd (m ?v))" by (simp only: frm_step_left)
  moreover have "frm w ?v" using frm_refl by (simp only: frm_step)
  ultimately show "frm w (snd (attempt env m w))" by (simp add: attempt_def Let_def split: option.split)
qed

lemma confined_healthy: "confined (assert_distributed_locks_healthy env)"
  by (simp add: confined_def assert_distributed_locks_healthy_def frm_step frm_refl)

text \<open>For a fact about the result of the first action.\<close>

lemma confined_bind_result:
  assumes "confined m" and "\<And>x w v. m w = (Inr x, v) \<Longrightarrow> confined (f x)"
  shows "confined (bindA m f)"
  unfolding confined_def
proof
  fix w
  obtain r v where m: "m w = (r, v)" by fastforce
  then have "frm w v" using assms(1) by (metis confined_def snd_conv)
  moreover have "r = Inr x \<Longrightarrow> frm v (snd (f x v))" for x using assms(2) m by (auto simp: confined_def)
  ultimately show "frm w (snd (bindA m f w))"
    by (auto simp: bindA_def m split: sum.split intro: frm_trans)
qed

end

end
