(* ===== verification/Document_Index.thy ===== *)
theory Document_Index
  imports Kb_World
begin

text \<open>
  \<open>app/utils/document_indexer.py\<close> and, of \<open>app/app.py\<close>, the OCR of a PDF and the indexing of an uploaded
  document or recording: parsing, deduplication, the chunks, the record in the file index. What these
  touch is stated by \<open>kb_frame\<close> at the end.
\<close>

section \<open>Metadata\<close>

definition normalize_value :: "(real \<Rightarrow> string) \<Rightarrow> json \<Rightarrow> json" where
  "normalize_value fr v = (case v of
       JNull \<Rightarrow> JStr []
     | JArr xs \<Rightarrow> JStr (py_join '', '' (map (py_str fr) (filter (\<lambda>x. x \<noteq> JNull) xs)))
     | JObj d \<Rightarrow> JStr (dumps_default fr (sort_json v))
     | _ \<Rightarrow> v)"

definition normalize_metadata_values :: "(real \<Rightarrow> string) \<Rightarrow> jdict \<Rightarrow> jdict" where
  "normalize_metadata_values fr d = map (\<lambda>(k, v). (k, normalize_value fr v)) d"

definition apply_extra_metadata_to_documents :: "(real \<Rightarrow> string) \<Rightarrow> document list \<Rightarrow> jdict \<Rightarrow> document list" where
  "apply_extra_metadata_to_documents fr docs extra =
     (if extra = [] then docs
      else map (\<lambda>d. d\<lparr>dc_meta := with_fields (dc_meta d) (normalize_metadata_values fr extra)\<rparr>) docs)"

definition ingestion_metadata_keys :: "string list" where
  "ingestion_metadata_keys = [''source_type'', ''ingestion_plugin'', ''data_source_id'', ''remote_id'', ''remote_url'',
     ''remote_updated_at'', ''subject'', ''sender'', ''recipients'', ''thread_id'', ''message_id'', ''attachment_id'',
     ''attachment_filename'', ''drive_id'', ''item_id'', ''parent_id'', ''etag'', ''file_name'', ''mime_type'', ''size'',
     ''relative_path'']"

definition ingestion_metadata_from_entry :: "(real \<Rightarrow> string) \<Rightarrow> jdict \<Rightarrow> jdict" where
  "ingestion_metadata_from_entry fr entry = normalize_metadata_values fr
     (map (\<lambda>k. (k, jget entry k)) (filter (\<lambda>k. jget entry k \<noteq> JNull \<and> jget entry k \<noteq> JStr []) ingestion_metadata_keys))"

definition index_profile_from_settings :: "jdict \<Rightarrow> bool \<Rightarrow> jdict" where
  "index_profile_from_settings settings include_ocr =
     (let rag = dict_or_empty (jget settings ''rag''); ocr = dict_or_empty (jget settings ''ocr'')
      in map (\<lambda>k. (k, jget rag k)) [''embedding_provider'', ''embedding_model'', ''chunk_size'', ''chunk_overlap'']
         @ (if include_ocr then
             [(''ocr_enabled'', JBool (truthy (jget ocr ''enabled''))),
              (''ocr_auto_on_empty_pdf'', JBool (truthy (jget_or ocr ''auto_on_empty_pdf'' (JBool True)))),
              (''ocr_provider'', jget_or ocr ''provider'' (JStr [])), (''ocr_model'', jget_or ocr ''default_model'' (JStr [])),
              (''ocr_mode'', jget_or ocr ''ocr_mode'' (JStr [])), (''ocr_output_format'', jget_or ocr ''output_format'' (JStr []))]
            else []))"

text \<open>\<open>norm\<close> is the normalisation of the extra fields, which only \<open>document_indexer.py\<close> does.\<close>

definition index_record_metadata :: "(jdict \<Rightarrow> jdict) \<Rightarrow> jdict \<Rightarrow> string \<Rightarrow> string \<Rightarrow> jdict \<Rightarrow> jdict" where
  "index_record_metadata norm_extra settings document_id source_id extra =
     with_fields [(''index_profile'', JObj (index_profile_from_settings settings (truthy (jget extra ''ocr_used'')))),
                  (''document_id'', JStr document_id), (''source_id'', JStr source_id)] (norm_extra extra)"

text \<open>Whether the stored profile of an entry is the current one (\<open>app.py\<close>).\<close>

definition profile_for_index_extra :: "jdict \<Rightarrow> jdict \<Rightarrow> jdict \<Rightarrow> jdict" where
  "profile_for_index_extra base ocr extra = (if truthy (jget extra ''ocr_used'') then ocr else base)"

section \<open>Recognition of a PDF without text\<close>

definition rag_int :: "jdict \<Rightarrow> string \<Rightarrow> int" where
  "rag_int settings k = (case jget (dict_or_empty (jget settings ''rag'')) k of JInt i \<Rightarrow> i | _ \<Rightarrow> 0)"

definition chunk_size :: "'c up_env \<Rightarrow> int" where
  "chunk_size env = rag_int (ue_settings env) ''chunk_size''"

definition chunk_overlap :: "'c up_env \<Rightarrow> int" where
  "chunk_overlap env = rag_int (ue_settings env) ''chunk_overlap''"

definition ocr_documents :: "'c up_env \<Rightarrow> string \<Rightarrow> document list \<Rightarrow> string \<Rightarrow> ('c, 'v, document list \<times> jdict \<times> string) kb_action" where
  "ocr_documents env path parsed parse_error =
     (let settings = ue_settings env; ocr = dict_or_empty (jget settings ''ocr'');
          decision = decide_pdf_ocr_for_ingestion (ue_fr env) (ue_getenv env) settings parsed parse_error;
          provider = text_or (ue_fr env) [] (jget ocr ''provider''); model = text_or (ue_fr env) [] (jget ocr ''default_model'');
          text_path = path @ ''.ocr.txt''
      in if \<not> od_run decision then returnA ([], [], od_error decision)
         else bindA (readA (\<lambda>w. map_sum id py_strip (ue_ocr env (kw_files w path)))) (\<lambda>r. case r of
             Inl e \<Rightarrow> returnA ([], [(''ocr_used'', JBool False), (''ocr_error'', JStr e)], e)
           | Inr text \<Rightarrow>
               if text = [] then returnA ([], [(''ocr_used'', JBool True), (''ocr_error'', JStr ''OCR text is empty'')], ''OCR text is empty'')
               else thenA (write_text env text_path (text @ [CHR 0x0A]))
                 (bindA (readA (\<lambda>w. process_ocr_text (ue_text env) (chunk_size env) (chunk_overlap env) path (kw_files w path) text text_path))
                   (\<lambda>r. bindA (liftA Failed r) (\<lambda>docs. returnA
                     (map (\<lambda>d. d\<lparr>dc_meta := with_fields (dc_meta d)
                            [(''source_type'', JStr ''pdf''), (''ocr_provider'', JStr provider), (''ocr_model'', JStr model)]\<rparr>) docs,
                      [(''source_type'', JStr ''pdf''), (''ocr_used'', JBool True), (''ocr_provider'', JStr provider),
                       (''ocr_model'', JStr model), (''ocr_text_path'', JStr text_path)], []))))))"

section \<open>One document\<close>

definition document_index_extensions :: "string list" where
  "document_index_extensions = [''pdf'', ''txt'', ''md'', ''csv'']"

definition source_type_for_extension :: "string \<Rightarrow> string" where
  "source_type_for_extension extension =
     (if extension = ''pdf'' then ''pdf'' else if extension = ''md'' then ''markdown''
      else if extension = ''csv'' then ''csv'' else if extension = ''txt'' then ''text'' else ''document'')"

definition parse_document :: "'c up_env \<Rightarrow> string \<Rightarrow> string \<Rightarrow> ('c, 'v, document list \<times> string) kb_action" where
  "parse_document env extension path = readA (\<lambda>w.
     case (if extension = ''pdf'' then process_pdf else process_text_file)
       (ue_text env) (chunk_size env) (chunk_overlap env) path (kw_files w path) of
         Inl e \<Rightarrow> ([], e) | Inr docs \<Rightarrow> (docs, []))"

text \<open>The end of \<open>index_saved_document\<close>, from the removal of the old chunks on.\<close>

definition index_documents ::
  "'c up_env \<Rightarrow> string \<Rightarrow> string \<Rightarrow> jdict \<Rightarrow> string \<Rightarrow> document list \<Rightarrow> string \<Rightarrow> ('c, 'v, jdict) kb_action" where
  "index_documents env filename path extra source_type docs empty_error =
     (let fr = ue_fr env; meta = index_record_metadata (normalize_metadata_values fr) (ue_settings env);
          healthy = assert_distributed_locks_healthy env; entry = record_entry env filename path
      in thenA healthy (bindA (delete_source env path) (\<lambda>replaced.
        if docs = [] then
          thenA healthy (bindA (entry 0 ''empty'' empty_error (meta [] [] extra)) (\<lambda>_.
            thenA (whenA (replaced \<noteq> 0) (clear_answers env)) (raiseA (Refused (invalid empty_error ''file'')))))
        else
          let first = dc_meta (hd docs);
              document_id = text_or fr [] (jget first ''document_id''); source_id = text_or fr [] (jget first ''source_id'')
          in bindA (find_duplicate env document_id path) (\<lambda>duplicate. case duplicate of
            Some f \<Rightarrow>
              let duplicate_source = j_or (fd_source f) (JStr []) in
              thenA healthy (thenA (whenA (replaced \<noteq> 0) (clear_answers env))
                (bindA (entry 0 ''duplicate'' (''Contenuto gia'' @ [CHR 0x27] @ '' indicizzato da '' @ py_str fr duplicate_source)
                    (meta document_id source_id (with_fields extra
                      [(''duplicate_of_source'', duplicate_source), (''indexed_chunks'', JInt (int (fd_chunks f)))])))
                  (\<lambda>_. returnA
                    [(''message'', JStr (filename @ '' gia'' @ [CHR 0x27] @ '' presente nella knowledge base; non reindicizzato'')),
                     (''filename'', JStr filename), (''chunks'', JInt 0), (''status'', JStr ''duplicate''),
                     (''source_type'', jget_or extra ''source_type'' (JStr source_type)), (''document_id'', JStr document_id),
                     (''duplicate_of_source'', duplicate_source)])))
          | None \<Rightarrow>
              thenA healthy (thenA (add_to_index env docs) (thenA (clear_answers env) (thenA healthy
                (bindA (entry (length docs) ''indexed'' [] (meta document_id source_id extra)) (\<lambda>_. returnA
                  [(''message'', JStr (filename @ '' caricato e indicizzato'')), (''filename'', JStr filename),
                   (''chunks'', JInt (int (length docs))), (''status'', JStr ''indexed''),
                   (''source_type'', jget_or extra ''source_type'' (JStr source_type)), (''document_id'', JStr document_id),
                   (''ocr_used'', JBool (truthy (jget extra ''ocr_used'')))])))))))))"

definition index_saved_document ::
  "'c up_env \<Rightarrow> string \<Rightarrow> string \<Rightarrow> string
   \<Rightarrow> (document list \<Rightarrow> string \<Rightarrow> ('c, 'v, document list \<times> jdict \<times> string) kb_action) option \<Rightarrow> jdict \<Rightarrow> ('c, 'v, jdict) kb_action" where
  "index_saved_document env filename path raw_extension ocr extra =
     (let fr = ue_fr env; extension = dropWhile (\<lambda>c. c = CHR ''.'') (py_lower raw_extension);
          source_type = source_type_for_extension extension;
          index_extra = normalize_metadata_values fr (with_fields [(''source_type'', JStr source_type)] extra);
          finish = (\<lambda>docs extra parse_error ocr_error. index_documents env filename path extra source_type
            (apply_extra_metadata_to_documents fr docs extra)
            (if ocr_error \<noteq> [] then ocr_error else if parse_error \<noteq> [] then parse_error else ''Il file non contiene testo indicizzabile''))
      in if extension \<notin> set document_index_extensions then raiseA (Refused (invalid ''Formato file non supportato'' ''file''))
         else bindA (parse_document env extension path) (\<lambda>(docs, parse_error).
           case ocr of
             Some f \<Rightarrow>
               if extension = ''pdf'' then bindA (f docs parse_error) (\<lambda>(ocr_docs, ocr_extra, ocr_error).
                   finish (if ocr_docs \<noteq> [] then ocr_docs else docs)
                     (with_fields index_extra (normalize_metadata_values fr ocr_extra)) parse_error ocr_error)
               else finish docs index_extra parse_error []
           | None \<Rightarrow> finish docs index_extra parse_error []))"

section \<open>Uploads\<close>

definition index_saved_document_upload ::
  "'c up_env \<Rightarrow> string \<Rightarrow> string \<Rightarrow> string \<Rightarrow> jdict \<Rightarrow> string \<Rightarrow> ('c, 'v, jdict) kb_action" where
  "index_saved_document_upload env filename path extension extra relative_path =
     (let relative = (if relative_path = [] then [] else [(''relative_path'', JStr relative_path)])
      in bindA (index_saved_document env filename path extension (Some (ocr_documents env path)) (with_fields extra relative))
           (\<lambda>result. returnA (with_fields result relative)))"

definition refused_language :: "query_failure \<Rightarrow> up_error" where
  "refused_language e = (case e of Bad v \<Rightarrow> Refused v | _ \<Rightarrow> Failed [])"

definition audio_language_hint :: "'c up_env \<Rightarrow> string option \<Rightarrow> query_failure + string" where
  "audio_language_hint env override = (case override of
       Some l \<Rightarrow> Inr l
     | None \<Rightarrow> validate_language_hint (ue_fr env) (jget_or (dict_or_empty (jget (ue_settings env) ''voice'')) ''stt_language'' (JStr [])))"

definition index_transcript ::
  "'c up_env \<Rightarrow> string \<Rightarrow> string \<Rightarrow> string \<Rightarrow> string \<Rightarrow> string \<Rightarrow> jdict \<Rightarrow> document list \<Rightarrow> ('c, 'v, jdict) kb_action" where
  "index_transcript env filename path transcript language relative_path extra docs =
     (let fr = ue_fr env; meta = index_record_metadata id (ue_settings env);
          healthy = assert_distributed_locks_healthy env; entry = record_entry env filename path
      in thenA healthy (bindA (delete_source env path) (\<lambda>replaced.
        if docs = [] then
          thenA healthy (bindA (entry 0 ''empty'' ''Audio transcript is empty'' (meta [] [] extra)) (\<lambda>_.
            thenA (whenA (replaced \<noteq> 0) (clear_answers env)) (raiseA (Refused (invalid ''Audio transcript is empty'' ''file'')))))
        else
          let first = dc_meta (hd docs);
              document_id = text_or fr [] (jget first ''document_id''); source_id = text_or fr [] (jget first ''source_id'');
              result = (\<lambda>message n status more. [(''message'', JStr (filename @ message)), (''filename'', JStr filename),
                 (''chunks'', JInt (int n)), (''status'', JStr status), (''document_id'', JStr document_id),
                 (''source_type'', JStr ''audio''), (''transcript'', JStr transcript), (''language_hint'', JStr language)]
                 @ more @ [(''relative_path'', JStr relative_path)])
          in bindA (find_duplicate env document_id path) (\<lambda>duplicate. case duplicate of
            Some f \<Rightarrow>
              let duplicate_source = j_or (fd_source f) (JStr []) in
              thenA healthy
                (bindA (entry 0 ''duplicate'' (''Content already indexed from '' @ py_str fr duplicate_source)
                    (meta document_id source_id (with_fields extra
                      [(''duplicate_of_source'', duplicate_source), (''indexed_chunks'', JInt (int (fd_chunks f)))])))
                  (\<lambda>_. thenA (whenA (replaced \<noteq> 0) (clear_answers env))
                    (returnA (result '' already present in the knowledge base; not reindexed'' 0 ''duplicate''
                      [(''duplicate_of_source'', duplicate_source)]))))
          | None \<Rightarrow>
              thenA healthy (thenA (add_to_index env docs) (thenA (clear_answers env) (thenA healthy
                (bindA (entry (length docs) ''indexed'' [] (meta document_id source_id extra))
                  (\<lambda>_. returnA (result '' transcribed and indexed'' (length docs) ''indexed'' []))))))))))"

definition index_saved_audio_upload ::
  "'c up_env \<Rightarrow> string \<Rightarrow> string \<Rightarrow> string option \<Rightarrow> string \<Rightarrow> ('c, 'v, jdict) kb_action" where
  "index_saved_audio_upload env filename path language_override relative_path =
     bindA (liftA refused_language (audio_language_hint env language_override)) (\<lambda>language.
     bindA (readA (\<lambda>w. ue_transcribe env (kw_files w path) language_override)) (\<lambda>r. bindA (liftA Failed r) (\<lambda>transcript.
     let transcript_path = path @ ''.transcript.txt'';
         extra = [(''source_type'', JStr ''audio''), (''transcript_path'', JStr transcript_path)]
           @ (if relative_path = [] then [] else [(''relative_path'', JStr relative_path)])
     in thenA (assert_distributed_locks_healthy env) (thenA (write_text env transcript_path (transcript @ [CHR 0x0A]))
       (bindA (readA (\<lambda>w. process_transcript (ue_text env) (chunk_size env) (chunk_overlap env) path (kw_files w path)
                           transcript transcript_path)) (\<lambda>r. bindA (liftA Failed r) (\<lambda>docs.
         index_transcript env filename path transcript language relative_path extra
           (apply_extra_metadata_to_documents (ue_fr env) docs extra))))))))"

end
