(* ===== verification/Index_Frame.thy ===== *)
theory Index_Frame
  imports Document_Index
begin

text \<open>
  What indexing one document can touch: the files of a given set, the chunks of its source, its entry in
  the file index and the answer cache. \<open>kb_frame\<close> is an instance of \<open>action_frame\<close>; the lemmas carry it
  from the single calls to whole requests.
\<close>

section \<open>The file index\<close>

text \<open>Every element is an object with sorted keys, as every save leaves it.\<close>

definition index_sorted :: "json_file \<Rightarrow> bool" where
  "index_sorted f \<longleftrightarrow> (\<forall>x \<in> set (index_entries f). (\<exists>d. x = JObj d) \<and> sort_json x = x)"

lemma index_sortedD: "index_sorted f \<Longrightarrow> x \<in> set (index_entries f) \<Longrightarrow> \<exists>d. x = JObj d \<and> sort_json (JObj d) = JObj d"
  by (auto simp: index_sorted_def)

definition named :: "string \<Rightarrow> json \<Rightarrow> bool" where
  "named n x \<longleftrightarrow> entry_is n x = Inr True"

lemma entry_is_obj: "\<exists>d. x = JObj d \<Longrightarrow> entry_is n x = Inr (named n x)"
  by (auto simp: named_def entry_is_def)

lemma others_objs: "\<forall>x \<in> set xs. \<exists>d. x = JObj d \<Longrightarrow> others n xs = Inr (filter (\<lambda>x. \<not> named n x) xs)"
  by (induction xs) (auto simp: entry_is_obj)

lemma first_objs: "\<forall>x \<in> set xs. \<exists>d. x = JObj d \<Longrightarrow> first_entry n xs = Inr (find (named n) xs)"
  by (induction xs) (auto simp: entry_is_obj)

lemma find_others: "n \<noteq> m \<Longrightarrow> find (named n) (filter (\<lambda>x. \<not> named m x) xs) = find (named n) xs"
  by (induction xs) (auto simp: named_def entry_is_def split: json.splits)

lemma sorted_entries:
  assumes "index_sorted f"
  shows "\<forall>x \<in> set (index_entries f). \<exists>d. x = JObj d" and "map sort_json (index_entries f) = index_entries f"
  using assms by (auto simp: index_sorted_def intro: map_idI)

lemma index_get_sorted: "index_sorted f \<Longrightarrow> index_get n f = Inr (find (named n) (index_entries f))"
  by (simp add: index_get_def first_objs sorted_entries)

lemma saved_entries: "index_entries (save_index xs) = map sort_json xs"
  by (simp add: index_entries_def save_index_def)

lemma sort_json_obj: "\<exists>d. x = JObj d \<Longrightarrow> \<exists>d. sort_json x = JObj d"
  by auto

lemma saved_sorted: "\<forall>x \<in> set xs. \<exists>d. x = JObj d \<Longrightarrow> index_sorted (save_index xs)"
  by (auto simp: index_sorted_def saved_entries simp del: sort_json.simps intro: sort_json_obj)

lemma od_get_insort: "k \<notin> fst ` set d \<Longrightarrow> od_get (insort_key fst (k, v) d) j = (if j = k then Some v else od_get d j)"
  by (induction d) (auto simp: image_iff)

lemma od_get_sort: "od_wf d \<Longrightarrow> od_get (sort_key fst d) k = od_get d k"
  by (induction d) (auto simp: od_get_insort)

lemma od_get_map_values: "od_get (map (\<lambda>(k, v). (k, g v)) d) k = map_option g (od_get d k)"
  by (induction d) auto

text \<open>Putting one entry in front.\<close>

lemma put_entry_get:
  assumes f: "index_sorted f" and x: "\<exists>d. x = JObj d" and n: "n \<noteq> m" "\<not> named n (sort_json x)"
    and xs: "others m (index_entries f) = Inr xs"
  shows "index_sorted (save_index (x # xs))" and "index_get n (save_index (x # xs)) = index_get n f"
proof -
  have xs': "xs = filter (\<lambda>x. \<not> named m x) (index_entries f)"
    using xs by (simp add: others_objs sorted_entries [OF f])
  then have objs: "\<forall>y \<in> set (x # xs). \<exists>d. y = JObj d" using x sorted_entries(1) [OF f] by auto
  then show *: "index_sorted (save_index (x # xs))" by (rule saved_sorted)
  have id: "map sort_json xs = xs" using f by (auto simp: xs' index_sorted_def intro: map_idI)
  have "index_get n (save_index (x # xs)) = Inr (find (named n) (map sort_json (x # xs)))"
    by (simp only: index_get_sorted [OF *] saved_entries)
  moreover have "find (named n) xs = find (named n) (index_entries f)" by (simp add: xs' find_others [OF n(1)])
  ultimately show "index_get n (save_index (x # xs)) = index_get n f"
    using n(2) by (simp add: id index_get_sorted [OF f])
qed

lemma drop_entry_get:
  assumes f: "index_sorted f" and xs: "others m (index_entries f) = Inr xs"
  shows "index_sorted (save_index xs)" and "index_get n (save_index xs) = (if n = m then Inr None else index_get n f)"
proof -
  have xs': "xs = filter (\<lambda>x. \<not> named m x) (index_entries f)"
    using xs by (simp add: others_objs sorted_entries [OF f])
  then have "\<forall>y \<in> set xs. \<exists>d. y = JObj d" using sorted_entries(1) [OF f] by auto
  then show *: "index_sorted (save_index xs)" by (rule saved_sorted)
  have id: "map sort_json xs = xs" using f by (auto simp: xs' index_sorted_def intro: map_idI)
  have "index_get n (save_index xs) = Inr (find (named n) xs)"
    by (simp only: index_get_sorted [OF *] saved_entries id)
  moreover have "find (named m) xs = None" by (auto simp: xs' find_None_iff)
  moreover have "n \<noteq> m \<Longrightarrow> find (named n) xs = find (named n) (index_entries f)" by (simp add: xs' find_others)
  ultimately show "index_get n (save_index xs) = (if n = m then Inr None else index_get n f)"
    by (simp add: index_get_sorted [OF f])
qed

text \<open>An entry keeps its name through the save.\<close>

lemma named_sorted: "od_wf d \<Longrightarrow> named n (sort_json (JObj d)) \<longleftrightarrow> named n (JObj d)"
proof -
  assume d: "od_wf d"
  have "(sort_json v = JStr s) = (v = JStr s)" for v s by (cases v) auto
  moreover have "od_wf (map (\<lambda>(k, v). (k, sort_json v)) d)"
    using d by (simp add: case_prod_beta comp_def)
  ultimately show ?thesis
    by (simp add: named_def entry_is_def jget_def od_get_sort od_get_map_values split: option.split)
qed

lemma fold_pairs_wf: "od_wf d \<Longrightarrow> od_wf (fold (\<lambda>(k, v). od_set k v) kvs d)"
  by (induction kvs arbitrary: d) auto

lemma with_fields_wf: "od_wf d \<Longrightarrow> od_wf (with_fields d kvs)"
  by (simp add: with_fields_def fold_pairs_wf)

text \<open>Keys a dictionary does not have.\<close>

definition lacks :: "string \<Rightarrow> jdict \<Rightarrow> bool" where
  "lacks k d \<longleftrightarrow> k \<notin> fst ` set d"

lemma lacks_simps [simp]:
  "lacks k []" "lacks k ((j, v) # d) \<longleftrightarrow> j \<noteq> k \<and> lacks k d" "lacks k (d @ e) \<longleftrightarrow> lacks k d \<and> lacks k e"
  by (auto simp: lacks_def)

lemma lacks_with_fields [simp]: "lacks k (with_fields d kvs) \<longleftrightarrow> lacks k d \<and> lacks k kvs"
proof (induction kvs arbitrary: d)
  case (Cons kv kvs)
  have "lacks k (od_set j v d) \<longleftrightarrow> j \<noteq> k \<and> lacks k d" for j v
    by (auto simp: lacks_def dom_update)
  with Cons show ?case by (cases kv) (auto simp: with_fields_def)
qed (simp add: with_fields_def)

lemma with_fields_get_other: "lacks k kvs \<Longrightarrow> od_get (with_fields d kvs) k = od_get d k"
  by (auto simp: lacks_def with_fields_get map_of_eq_None_iff [THEN iffD2] rev_map [symmetric] split: option.split
      dest!: map_of_SomeD intro: rev_image_eqI)

lemma index_entry_named:
  assumes "lacks ''filename'' metadata"
  shows "named n (sort_json (JObj (index_entry now filename path k status e metadata))) \<longleftrightarrow> n = filename"
proof -
  have "od_wf (index_entry now filename path k status e metadata)"
    unfolding index_entry_def by (rule with_fields_wf) simp
  moreover have "od_get (index_entry now filename path k status e metadata) ''filename'' = Some (JStr filename)"
    using assms by (simp add: index_entry_def with_fields_get_other)
  ultimately show ?thesis by (simp only: named_sorted) (auto simp: named_def entry_is_def jget_def)
qed

section \<open>The frame of one document\<close>

definition kb_frame :: "'c chroma \<Rightarrow> string set \<Rightarrow> string \<Rightarrow> string \<Rightarrow> ('c, 'v) kb_world \<Rightarrow> ('c, 'v) kb_world \<Rightarrow> bool" where
  "kb_frame ch ps source filename u v \<longleftrightarrow>
     (\<forall>p. p \<notin> ps \<longrightarrow> kw_files v p = kw_files u p)
   \<and> (\<forall>i x. \<not> from_source source x \<longrightarrow> (ch_find ch i (kw_chunks v) = Some x \<longleftrightarrow> ch_find ch i (kw_chunks u) = Some x))
   \<and> (index_sorted (kw_index u) \<longrightarrow> index_sorted (kw_index v)
        \<and> (\<forall>n. n \<noteq> filename \<longrightarrow> index_get n (kw_index v) = index_get n (kw_index u)))"

interpretation kf: action_frame "kb_frame ch ps source filename" for ch :: "'c chroma" and ps source filename
  by unfold_locales (auto simp: kb_frame_def)

named_theorems confined_intros \<open>actions that stay within the frame of a document\<close>

lemmas confined_pure [confined_intros] = kf.confined_pure kf.confined_healthy

lemma confined_put [confined_intros]: "p \<in> ps \<Longrightarrow> kf.confined ch ps source filename (put_file p c)"
  by (auto simp: kf.confined_def put_file_def kb_frame_def)

lemma confined_replace [confined_intros]:
  "a \<in> ps \<Longrightarrow> b \<in> ps \<Longrightarrow> kf.confined ch ps source filename (os_replace env a b)"
  unfolding os_replace_def
  by (rule kf.confined_attempt) (auto simp: kf.confined_def kb_frame_def split: option.split)

lemma confined_remove [confined_intros]: "p \<in> ps \<Longrightarrow> kf.confined ch ps source filename (os_remove env p)"
  unfolding os_remove_def
  by (rule kf.confined_attempt) (auto simp: kf.confined_def kb_frame_def put_file_def)

lemma confined_write [confined_intros]: "p \<in> ps \<Longrightarrow> kf.confined ch ps source filename (write_text env p s)"
  by (simp add: write_text_def kf.confined_then kf.confined_attempt confined_put)

lemma confined_get_entry [confined_intros]: "kf.confined ch ps source filename (get_entry n)"
  by (simp add: get_entry_def kf.confined_bind kf.confined_pure)

lemma confined_index:
  fixes ch :: "'c chroma"
  assumes "\<And>i. index_sorted i \<Longrightarrow> index_sorted (snd (f i)) \<and> (\<forall>n. n \<noteq> filename \<longrightarrow> index_get n (snd (f i)) = index_get n i)"
  shows "kf.confined ch ps source filename (on_index env f)"
  unfolding on_index_def
proof (rule kf.confined_attempt, unfold kf.confined_def, rule)
  fix w :: "('c, 'v) kb_world"
  obtain r i where "f (kw_index w) = (r, i)" by fastforce
  with assms [of "kw_index w"]
  show "kb_frame ch ps source filename w
      (snd (case f (kw_index w) of (r, i) \<Rightarrow> (map_sum index_failed id r, w\<lparr>kw_index := i\<rparr>)))"
    by (simp add: kb_frame_def)
qed

lemma confined_record [confined_intros]:
  fixes ch :: "'c chroma"
  assumes "lacks ''filename'' metadata"
  shows "kf.confined ch ps source filename (record_entry env filename path k status e metadata)"
  unfolding kf.confined_def record_entry_def
proof
  fix w :: "('c, 'v) kb_world"
  let ?entry = "index_entry (ue_now env (kw_step w)) filename path (int k) status e metadata"
  have "index_sorted (snd (index_record (ue_now env (kw_step w)) filename path (int k) status e metadata i))
      \<and> (\<forall>n. n \<noteq> filename \<longrightarrow> index_get n (snd (index_record (ue_now env (kw_step w)) filename path (int k) status e metadata i))
          = index_get n i)" if i: "index_sorted i" for i
  proof (cases "others filename (index_entries i)")
    case (Inr xs)
    have other: "n \<noteq> filename \<Longrightarrow> \<not> named n (sort_json (JObj ?entry))" for n
      by (simp add: index_entry_named [OF assms] del: sort_json.simps)
    have "index_sorted (save_index (JObj ?entry # xs))"
      using others_objs [OF sorted_entries(1) [OF i], of filename] Inr sorted_entries(1) [OF i]
      by (intro saved_sorted) auto
    then show ?thesis using put_entry_get(2) [OF i _ _ other Inr] by (simp add: index_record_def Inr Let_def)
  qed (simp add: index_record_def Let_def i)
  from kf.confined_def [THEN iffD1, OF confined_index, OF this]
  show "kb_frame ch ps source filename w
      (snd (on_index env (index_record (ue_now env (kw_step w)) filename path (int k) status e metadata) w))"
    by blast
qed

section \<open>The chunks\<close>

lemma confined_chunks:
  fixes ch :: "'c chroma"
  assumes "\<And>c i x. \<not> from_source source x \<Longrightarrow> ch_find ch i (snd (f c)) = Some x \<longleftrightarrow> ch_find ch i c = Some x"
  shows "kf.confined ch ps source filename (on_chunks env f)"
  unfolding on_chunks_def
proof (rule kf.confined_attempt, unfold kf.confined_def, rule)
  fix w :: "('c, 'v) kb_world"
  obtain r c where "f (kw_chunks w) = (r, c)" by fastforce
  with assms [of _ _ "kw_chunks w"]
  show "kb_frame ch ps source filename w (snd (case f (kw_chunks w) of (r, c) \<Rightarrow> (r, w\<lparr>kw_chunks := c\<rparr>)))"
    by (simp add: kb_frame_def)
qed

lemma chroma_get:
  "chroma_laws ch \<Longrightarrow> x \<in> set (ch_get ch k v c) \<longleftrightarrow> ch_find ch (ck_id x) c = Some x \<and> jget (ck_meta x) k = JStr v"
  by (simp add: chroma_laws_def)

lemma chroma_id: "chroma_laws ch \<Longrightarrow> ch_find ch i c = Some x \<Longrightarrow> ck_id x = i"
  by (drule chroma_laws_def [THEN iffD1], drule conjunct2, drule conjunct1) blast

lemma chroma_delete:
  "chroma_laws ch \<Longrightarrow> ch_find ch i (ch_delete ch ids c) = (if i \<in> set ids then None else ch_find ch i c)"
  by (simp add: chroma_laws_def)

lemma ids_of_source:
  assumes "chroma_laws ch" and "ch_find ch i c = Some x"
  shows "i \<in> ck_id ` set (ch_get ch ''source'' source c) \<longleftrightarrow> from_source source x"
proof -
  have "ck_id x = i" by (rule chroma_id [OF assms])
  moreover have "y = x" if "y \<in> set (ch_get ch ''source'' source c)" "ck_id y = i" for y
    using that assms by (simp add: chroma_get)
  ultimately show ?thesis
    using assms(2) chroma_get [OF assms(1), of x "''source''" source c] by (auto simp: from_source_def image_iff)
qed

lemma no_ids_of_source: "chroma_laws ch \<Longrightarrow> ch_find ch i c = None \<Longrightarrow> i \<notin> ck_id ` set (ch_get ch k v c)"
  by (auto simp: chroma_get)

lemma deleted_by_source:
  assumes "chroma_laws ch"
  shows "ch_find ch i (snd (delete_by_source ch source c)) =
    (case ch_find ch i c of None \<Rightarrow> None | Some x \<Rightarrow> if from_source source x then None else Some x)"
proof -
  have "snd (delete_by_source ch source c) = c \<and> ch_get ch ''source'' source c = []
      \<or> snd (delete_by_source ch source c) = ch_delete ch (map ck_id (ch_get ch ''source'' source c)) c"
    by (auto simp: delete_by_source_def Let_def)
  then show ?thesis
    using ids_of_source [OF assms, of i c _ source] no_ids_of_source [OF assms, of i c "''source''" source]
    by (auto simp: chroma_delete [OF assms] split: option.split)
qed

lemma confined_delete [confined_intros]:
  assumes "chroma_laws ch" and "ue_chroma env = ch"
  shows "kf.confined ch ps source filename (delete_source env source)"
  unfolding delete_source_def
  by (rule confined_chunks) (auto simp: assms deleted_by_source [OF assms(1)] split: option.splits if_splits)

lemma added_chunk:
  assumes "x \<in> set (chunks_of dig fr encode docs)"
  shows "\<exists>d \<in> set docs. ck_meta x = dc_meta d"
  using assms by (auto simp: chunks_of_def in_set_zip) (metis nth_mem)

lemma confined_add [confined_intros]:
  assumes "chroma_laws ch" and "ue_chroma env = ch" and "\<And>d. d \<in> set docs \<Longrightarrow> jget (dc_meta d) ''source'' = JStr source"
  shows "kf.confined ch ps source filename (add_to_index env docs)"
  unfolding add_to_index_def
proof (rule confined_chunks)
  fix c i and x :: chunk
  assume x: "\<not> from_source source x"
  let ?xs = "chunks_of (te_dig (ue_text env)) (ue_fr env) (ue_encode env) docs"
  have "x \<notin> set ?xs" using x added_chunk assms(3) by (auto simp: from_source_def) metis
  moreover have "ch_find ch i c = Some y \<Longrightarrow> ch_find ch i (snd (ch_add ch ?xs c)) = Some y" for y
    using assms(1) by (simp add: chroma_laws_def)
  moreover have "ch_find ch i c = None \<Longrightarrow> ch_find ch i (snd (ch_add ch ?xs c)) = Some y \<Longrightarrow> y \<in> set ?xs" for y
    using assms(1) unfolding chroma_laws_def by metis
  ultimately have "ch_find ch i (snd (ch_add ch ?xs c)) = Some x \<longleftrightarrow> ch_find ch i c = Some x"
    by (cases "ch_find ch i c") auto
  then show "ch_find ch i (snd (apfst (\<lambda>ok. if ok then Inr () else Inl (Failed (ue_rejected env)))
      (add_documents (ue_chroma env) (te_dig (ue_text env)) (ue_fr env) (ue_encode env) docs c))) = Some x
    \<longleftrightarrow> ch_find ch i c = Some x"
    by (simp add: add_documents_def assms(2))
qed

lemma confined_find [confined_intros]: "kf.confined ch ps source filename (find_duplicate env k path)"
  by (simp add: find_duplicate_def confined_chunks kf.confined_pure)

lemma confined_snapshot [confined_intros]: "kf.confined ch ps source filename (take_snapshot env s)"
  by (simp add: take_snapshot_def confined_chunks)

lemma confined_clear [confined_intros]: "kf.confined ch ps source filename (clear_answers env)"
  by (simp add: kf.confined_def clear_answers_def kb_frame_def)

text \<open>Whole requests stay within the frame of their document.\<close>

lemmas confined_compose = kf.confined_bind kf.confined_then kf.confined_when

lemma jget_with_fields [simp]: "lacks k kvs \<Longrightarrow> jget (with_fields d kvs) k = jget d k"
  by (simp add: jget_def with_fields_get_other)

definition all_from :: "string \<Rightarrow> document list \<Rightarrow> bool" where
  "all_from source docs \<longleftrightarrow> (\<forall>d \<in> set docs. jget (dc_meta d) ''source'' = JStr source)"

lemma all_from_fields:
  assumes "all_from source docs" and "lacks ''source'' kvs"
  shows "all_from source (map (\<lambda>d. d\<lparr>dc_meta := with_fields (dc_meta d) kvs\<rparr>) docs)"
  using assms by (auto simp: all_from_def)

lemma lacks_normalized [simp]: "lacks k (normalize_metadata_values fr d) \<longleftrightarrow> lacks k d"
  by (simp add: lacks_def normalize_metadata_values_def case_prod_beta image_image)

lemma all_from_extra:
  "all_from source docs \<Longrightarrow> lacks ''source'' extra \<Longrightarrow> all_from source (apply_extra_metadata_to_documents fr docs extra)"
  by (simp add: apply_extra_metadata_to_documents_def all_from_fields)

lemma confined_indexing:
  fixes env :: "'c up_env"
  assumes "chroma_laws (ue_chroma env)" and "all_from path docs" and "lacks ''filename'' extra"
  shows "kf.confined (ue_chroma env) ps path filename (index_documents env filename path extra st docs e)"
  unfolding index_documents_def Let_def
  using assms
  by (auto simp: all_from_def index_record_metadata_def intro!: confined_compose confined_intros split: option.split)

lemma confined_transcript:
  fixes env :: "'c up_env"
  assumes "chroma_laws (ue_chroma env)" and "all_from path docs" and "lacks ''filename'' extra"
  shows "kf.confined (ue_chroma env) ps path filename (index_transcript env filename path t l r extra docs)"
  unfolding index_transcript_def Let_def
  using assms
  by (auto simp: all_from_def index_record_metadata_def intro!: confined_compose confined_intros split: option.split)

lemma confined_ocr:
  fixes env :: "'c up_env"
  assumes "path @ ''.ocr.txt'' \<in> ps"
  shows "kf.confined ch ps source filename (ocr_documents env path parsed e)"
  unfolding ocr_documents_def Let_def
  using assms by (auto intro!: confined_compose confined_intros split: sum.split)

lemma map_sum_Inr: "map_sum f g r = Inr y \<longleftrightarrow> (\<exists>x. r = Inr x \<and> y = g x)"
  by (cases r) auto

lemma process_from:
  "process_pdf t k v path file = Inr docs \<Longrightarrow> all_from path docs"
  "process_text_file t k v path file = Inr docs \<Longrightarrow> all_from path docs"
  "process_transcript t k v path file s p = Inr docs \<Longrightarrow> all_from path docs"
  "process_ocr_text t k v path file s p = Inr docs \<Longrightarrow> all_from path docs"
  by (auto simp: all_from_def process_pdf_def process_text_file_def process_transcript_def process_ocr_text_def Let_def
      bindE_eq_Inr map_sum_Inr split: option.splits if_splits dest: text_documents_source)

lemma parse_from: "parse_document env x path w = (Inr (docs, e), v) \<Longrightarrow> all_from path docs"
  by (auto simp: parse_document_def readA_def all_from_def split: sum.splits if_splits dest!: process_from)

lemma bindA_Inr: "bindA m f w = (Inr y, v) \<Longrightarrow> \<exists>x u. m w = (Inr x, u) \<and> f x u = (Inr y, v)"
  by (auto simp: bindA_def split: prod.splits sum.splits)

lemma thenA_Inr: "thenA m k w = (Inr y, v) \<Longrightarrow> \<exists>u. m w = (Inr (), u) \<and> k u = (Inr y, v)"
  by (auto simp: thenA_def dest: bindA_Inr)

lemma liftA_Inr: "liftA g r w = (Inr x, v) \<longleftrightarrow> r = Inr x \<and> v = w"
  by (auto simp: liftA_def raiseA_def returnA_def split: sum.splits)

lemma readA_Inr: "readA f w = (Inr x, v) \<longleftrightarrow> x = f w \<and> v = w"
  by (auto simp: readA_def)

lemma ocr_from:
  assumes "ocr_documents env path parsed e w = (Inr (docs, extra, err), v)"
  shows "all_from path docs" and "lacks ''source'' extra" and "lacks ''filename'' extra"
  using assms
  by (auto simp: ocr_documents_def Let_def returnA_def readA_def liftA_Inr all_from_def
      split: if_splits sum.splits dest!: bindA_Inr thenA_Inr process_from)

lemma confined_document:
  fixes env :: "'c up_env"
  assumes laws: "chroma_laws (ue_chroma env)" and ps: "path @ ''.ocr.txt'' \<in> ps"
    and extra: "lacks ''source'' extra" "lacks ''filename'' extra"
  shows "kf.confined (ue_chroma env) ps path filename
    (index_saved_document env filename path x (Some (ocr_documents env path)) extra)"
proof -
  have finish: "kf.confined (ue_chroma env) ps path filename
      (index_documents env filename path d st (apply_extra_metadata_to_documents fr docs d) e)"
    if "all_from path docs" "lacks ''source'' d" "lacks ''filename'' d" for d st fr docs e
    using laws that by (intro confined_indexing) (auto intro: all_from_extra)
  have parse: "kf.confined (ue_chroma env) ps path filename (parse_document env y path)" for y
    by (simp add: parse_document_def kf.confined_pure)
  show ?thesis
    unfolding index_saved_document_def Let_def
    using extra
    by (auto intro!: kf.confined_bind_result finish parse confined_ocr ps confined_pure split: prod.split)
      (erule parse_from | erule ocr_from | blast intro: parse_from)+
qed

lemma confined_upload:
  fixes env :: "'c up_env"
  assumes "chroma_laws (ue_chroma env)" and "path @ ''.ocr.txt'' \<in> ps" and "lacks ''source'' extra" "lacks ''filename'' extra"
  shows "kf.confined (ue_chroma env) ps path filename (index_saved_document_upload env filename path x extra relative)"
  unfolding index_saved_document_upload_def Let_def
  using assms by (auto intro!: confined_compose confined_document confined_intros)

lemma confined_audio:
  fixes env :: "'c up_env"
  assumes "chroma_laws (ue_chroma env)" and "path @ ''.transcript.txt'' \<in> ps"
  shows "kf.confined (ue_chroma env) ps path filename (index_saved_audio_upload env filename path override relative)"
proof -
  let ?extra = "[(''source_type'', JStr ''audio''), (''transcript_path'', JStr (path @ ''.transcript.txt''))]
     @ (if relative = [] then [] else [(''relative_path'', JStr relative)])"
  have "kf.confined (ue_chroma env) ps path filename
      (index_transcript env filename path t l relative ?extra (apply_extra_metadata_to_documents fr docs ?extra))"
    if "all_from path docs" for fr t l docs
    using assms(1) that by (intro confined_transcript all_from_extra) simp_all
  then show ?thesis
    unfolding index_saved_audio_upload_def Let_def
    using assms(2)
    by (auto simp: liftA_Inr readA_Inr intro!: kf.confined_bind_result kf.confined_then confined_intros
        dest!: process_from(3))
qed

end
