(* ===== verification/Upload_Transaction.thy ===== *)
theory Upload_Transaction
  imports Index_Frame
begin

text \<open>
  The upload of a document or recording as a transaction (\<open>app/app.py\<close>): the file is saved beside its
  place, moved there with the old file kept aside, indexed, and on any error files, chunks and index
  entry are put back. Directories are not modelled, nor are the locks around the transaction.
\<close>

record upload =
  ul_filename :: string
  ul_path :: string
  ul_extension :: string
  ul_language :: "string option"
  ul_relative :: string
  ul_staged :: string

record rollback_state =
  rs_filename :: string
  rs_final :: string
  rs_backup :: string
  rs_transcript :: string
  rs_transcript_backup :: string
  rs_entry :: "json option"
  rs_snapshot :: "snapshot option"
  rs_file_kept :: bool
  rs_transcript_kept :: bool
  rs_committed :: bool

section \<open>Names\<close>

definition basename :: "string \<Rightarrow> string" where
  "basename p = rev (takeWhile (\<lambda>c. c \<noteq> CHR ''/'') (rev p))"

definition dirname :: "string \<Rightarrow> string" where
  "dirname p = (let h = rev (dropWhile (\<lambda>c. c \<noteq> CHR ''/'') (rev p))
     in if list_all (\<lambda>c. c = CHR ''/'') h then h else rev (dropWhile (\<lambda>c. c = CHR ''/'') (rev h)))"

definition upload_rollback_path :: "string \<Rightarrow> string \<Rightarrow> string" where
  "upload_rollback_path token p =
     join_path (dirname p) [''.'' @ basename p @ ''.'' @ token @ ''.rollback-upload'']"

definition pending_upload_path :: "string \<Rightarrow> string \<Rightarrow> string" where
  "pending_upload_path token p = join_path (dirname p) [''.'' @ basename p @ ''.'' @ token @ ''.pending-upload'']"

section \<open>Files\<close>

definition move_back :: "'c up_env \<Rightarrow> string \<Rightarrow> string \<Rightarrow> string \<Rightarrow> ('c, 'v, unit) kb_action" where
  "move_back env message backup final = bindA (readA (is_file backup)) (\<lambda>b.
     if b then os_replace env backup final else raiseA (Failed (message @ backup)))"

definition remove_if_there :: "'c up_env \<Rightarrow> bool \<Rightarrow> string \<Rightarrow> ('c, 'v, unit) kb_action" where
  "remove_if_there env b p = bindA (readA (is_file p)) (\<lambda>there. whenA (b \<and> there) (os_remove env p))"

definition restore_upload_files :: "'c up_env \<Rightarrow> rollback_state \<Rightarrow> ('c, 'v, unit) kb_action" where
  "restore_upload_files env rs =
     thenA (remove_if_there env (rs_committed rs) (rs_final rs))
    (thenA (whenA (rs_file_kept rs) (move_back env ''Backup rollback upload non trovato: '' (rs_backup rs) (rs_final rs)))
    (thenA (remove_if_there env (rs_transcript rs \<noteq> [] \<and> rs_committed rs) (rs_transcript rs))
           (whenA (rs_transcript_kept rs)
             (move_back env ''Backup rollback trascrizione non trovato: '' (rs_transcript_backup rs) (rs_transcript rs)))))"

text \<open>The moves of \<open>_commit_staged_upload\<close>; what was moved so far is put back when one fails.\<close>

definition move_into_place :: "'c up_env \<Rightarrow> string \<Rightarrow> rollback_state \<Rightarrow> ('c, 'v, rollback_state) kb_action" where
  "move_into_place env staged rs =
     (let step = (\<lambda>b p q state. tryA (whenA b (os_replace env p q)) (reraise_after (restore_upload_files env state)));
          kept = rs\<lparr>rs_file_kept := rs_backup rs \<noteq> []\<rparr>; both = kept\<lparr>rs_transcript_kept := rs_transcript_backup rs \<noteq> []\<rparr>
      in thenA (step (rs_backup rs \<noteq> []) (rs_final rs) (rs_backup rs) rs)
        (thenA (step (rs_transcript_backup rs \<noteq> []) (rs_transcript rs) (rs_transcript_backup rs) kept)
        (thenA (step True staged (rs_final rs) both) (returnA (both\<lparr>rs_committed := True\<rparr>)))))"

definition badly_staged :: "'c up_env \<Rightarrow> string \<Rightarrow> string \<Rightarrow> bool" where
  "badly_staged env final staged \<longleftrightarrow>
     (let root = abspath (ue_cwd env) (ue_folder env) in
      \<not> py_startswith final (root @ ''/'') \<or> \<not> py_startswith staged (root @ ''/'') \<or> dirname final \<noteq> dirname staged)"

definition rollback_of ::
  "'c up_env \<Rightarrow> upload \<Rightarrow> bool \<Rightarrow> json option \<Rightarrow> snapshot option \<Rightarrow> ('c, 'v) kb_world \<Rightarrow> rollback_state" where
  "rollback_of env u with_transcript entry snap w =
     (let final = abspath (ue_cwd env) (ul_path u); transcript = (if with_transcript then final @ ''.transcript.txt'' else []);
          had_transcript = (transcript \<noteq> [] \<and> is_file transcript w)
      in \<lparr>rs_filename = ul_filename u, rs_final = final,
          rs_backup = (if is_file final w then upload_rollback_path (ue_token env (kw_step w)) final else []),
          rs_transcript = transcript,
          rs_transcript_backup = (if had_transcript then upload_rollback_path (ue_token env (Suc (kw_step w))) transcript else []),
          rs_entry = entry, rs_snapshot = snap, rs_file_kept = False, rs_transcript_kept = False, rs_committed = False\<rparr>)"

definition has_previous_state :: "'c up_env \<Rightarrow> upload \<Rightarrow> bool \<Rightarrow> json option \<Rightarrow> ('c, 'v) kb_world \<Rightarrow> bool" where
  "has_previous_state env u with_transcript entry w \<longleftrightarrow>
     (let final = abspath (ue_cwd env) (ul_path u)
      in is_file final w \<or> with_transcript \<and> is_file (final @ ''.transcript.txt'') w \<or> (case entry of Some x \<Rightarrow> truthy x | None \<Rightarrow> False))"

definition commit_staged_upload :: "'c up_env \<Rightarrow> upload \<Rightarrow> bool \<Rightarrow> ('c, 'v, rollback_state option) kb_action" where
  "commit_staged_upload env u with_transcript =
     (let final = abspath (ue_cwd env) (ul_path u); staged = abspath (ue_cwd env) (ul_staged u) in
      if ul_staged u = [] then returnA None
      else if badly_staged env final staged then raiseA (Refused (invalid ''Path staging upload non valido'' ''file''))
      else bindA (readA (is_file staged)) (\<lambda>there.
        if \<not> there then raiseA (Refused (invalid ''File staging upload non trovato'' ''file''))
        else bindA (get_entry (ul_filename u)) (\<lambda>entry.
          bindA (readA (has_previous_state env u with_transcript entry)) (\<lambda>previous.
          bindA (if previous then bindA (take_snapshot env final) (\<lambda>s. returnA (Some s)) else returnA None) (\<lambda>snap.
          bindA (readA (rollback_of env u with_transcript entry snap)) (\<lambda>rs.
          bindA (move_into_place env staged rs) (\<lambda>rs. returnA (Some rs))))))))"

section \<open>Rollback\<close>

text \<open>A part of the rollback that fails leaves its message and does not stop the others.\<close>

definition collect_error :: "string \<Rightarrow> ('c, 'v, unit) kb_action \<Rightarrow> ('c, 'v, string list) kb_action" where
  "collect_error name m = tryA (thenA m (returnA [])) (\<lambda>e. returnA [name @ '': '' @ error_text e])"

definition ignore_result :: "('c, 'v, 'a) kb_action \<Rightarrow> ('c, 'v, unit) kb_action" where
  "ignore_result m = bindA m (\<lambda>_. returnA ())"

definition restore_vectors :: "'c up_env \<Rightarrow> string \<Rightarrow> snapshot option \<Rightarrow> ('c, 'v, unit) kb_action" where
  "restore_vectors env final s =
     thenA (ignore_result (case s of None \<Rightarrow> delete_source env final | Some s \<Rightarrow> put_back env final s)) (clear_answers env)"

definition rollback_committed_upload :: "'c up_env \<Rightarrow> rollback_state \<Rightarrow> ('c, 'v, unit) kb_action" where
  "rollback_committed_upload env rs =
     bindA (collect_error ''file'' (restore_upload_files env rs)) (\<lambda>a.
     bindA (collect_error ''vettori'' (restore_vectors env (rs_final rs) (rs_snapshot rs))) (\<lambda>b.
     bindA (collect_error ''file index'' (on_index env (restore_entry (rs_filename rs) (rs_entry rs)))) (\<lambda>c.
     if a @ b @ c \<noteq> [] then raiseA (Failed (py_join ''; '' (a @ b @ c))) else returnA ())))"

definition remove_backup :: "'c up_env \<Rightarrow> string \<Rightarrow> ('c, 'v, unit) kb_action" where
  "remove_backup env p = tryA (remove_if_there env (p \<noteq> []) p) (\<lambda>_. returnA ())"

definition finalize_committed_upload :: "'c up_env \<Rightarrow> rollback_state \<Rightarrow> ('c, 'v, unit) kb_action" where
  "finalize_committed_upload env rs = thenA (remove_backup env (rs_backup rs)) (remove_backup env (rs_transcript_backup rs))"

section \<open>The request\<close>

definition index_upload :: "'c up_env \<Rightarrow> string \<Rightarrow> upload \<Rightarrow> ('c, 'v, jdict) kb_action" where
  "index_upload env kind u =
     (if kind = ''file'' then index_saved_document_upload env (ul_filename u) (ul_path u) (ul_extension u) [] (ul_relative u)
      else if kind = ''audio'' then index_saved_audio_upload env (ul_filename u) (ul_path u) (ul_language u) (ul_relative u)
      else raiseA (Refused (invalid ''Tipo job non valido'' ''type'')))"

definition undo_upload :: "'c up_env \<Rightarrow> rollback_state option \<Rightarrow> up_error \<Rightarrow> ('c, 'v, 'a) kb_action" where
  "undo_upload env rs e = (case rs of
       None \<Rightarrow> raiseA e
     | Some rs \<Rightarrow> thenA (tryA (rollback_committed_upload env rs) (\<lambda>f. raiseA (RollbackFailed e f))) (raiseA e))"

definition index_staged_upload :: "'c up_env \<Rightarrow> string \<Rightarrow> upload \<Rightarrow> ('c, 'v, jdict) kb_action" where
  "index_staged_upload env kind u =
     (let healthy = assert_distributed_locks_healthy env in
      thenA healthy (bindA (commit_staged_upload env u (kind = ''audio'')) (\<lambda>rs.
        bindA (tryA (thenA healthy (bindA (index_upload env kind u) (\<lambda>result. thenA healthy (returnA result))))
                    (undo_upload env rs))
          (\<lambda>result. thenA (case rs of None \<Rightarrow> returnA () | Some rs \<Rightarrow> finalize_committed_upload env rs) (returnA result)))))"

definition delete_uploaded_file_if_safe :: "'c up_env \<Rightarrow> string \<Rightarrow> ('c, 'v, bool) kb_action" where
  "delete_uploaded_file_if_safe env source =
     (if \<not> inside_root (ue_cwd env) (ue_folder env) source then returnA False
      else bindA (readA (is_file (abspath (ue_cwd env) source))) (\<lambda>there.
        if \<not> there then returnA False else thenA (os_remove env (abspath (ue_cwd env) source)) (returnA True)))"

definition discard_staged_upload :: "'c up_env \<Rightarrow> upload \<Rightarrow> ('c, 'v, bool) kb_action" where
  "discard_staged_upload env u = (if ul_staged u = [] then returnA False else delete_uploaded_file_if_safe env (ul_staged u))"

text \<open>\<open>_process_upload_locked\<close> and \<open>_process_audio_upload_locked\<close>, after the file is saved.\<close>

definition process_saved_upload :: "'c up_env \<Rightarrow> string \<Rightarrow> string \<Rightarrow> upload \<Rightarrow> ('c, 'v, jdict) kb_action" where
  "process_saved_upload env kind kb u = bindA (finallyA (index_staged_upload env kind u) (discard_staged_upload env u))
     (\<lambda>result. returnA (with_fields result [(''knowledge_base_id'', JStr kb)]))"

end
