(* ===== verification/Upload_Rollback.thy ===== *)
theory Upload_Rollback
  imports Upload_Transaction
begin

text \<open>The parts of a failed upload: what the moves, the indexing and the rollback do to files, index and chunks.\<close>

section \<open>Actions on files only\<close>

definition files_only :: "('c, 'v) kb_world \<Rightarrow> ('c, 'v) kb_world \<Rightarrow> bool" where
  "files_only u v \<longleftrightarrow> kw_index v = kw_index u \<and> kw_chunks v = kw_chunks u \<and> kw_cache v = kw_cache u"

interpretation fo: action_frame files_only
  by unfold_locales (auto simp: files_only_def)

lemmas file_actions = fo.confined_bind fo.confined_then fo.confined_when fo.confined_pure

lemma confined_files: "fo.confined (os_replace env a b)" "fo.confined (os_remove env p)"
proof -
  show "fo.confined (os_replace env a b)"
    unfolding os_replace_def
    by (rule fo.confined_attempt) (auto simp: fo.confined_def files_only_def split: option.split)
  show "fo.confined (os_remove env p)"
    unfolding os_remove_def
    by (rule fo.confined_attempt) (auto simp: fo.confined_def files_only_def put_file_def)
qed

lemma confined_try: "fo.confined m \<Longrightarrow> (\<And>e. fo.confined (h e)) \<Longrightarrow> fo.confined (tryA m h)"
  by (auto simp: fo.confined_def tryA_def split: prod.split sum.split) (metis fo.frm_trans snd_conv)+

lemma confined_reraise: "fo.confined k \<Longrightarrow> fo.confined (reraise_after k e)"
  by (auto simp: fo.confined_def reraise_after_def finallyA_def raiseA_def split: prod.split sum.split) (metis snd_conv)+

lemma confined_restore: "fo.confined (restore_upload_files env rs)"
  by (auto simp: restore_upload_files_def remove_if_there_def move_back_def intro!: file_actions confined_files)

lemma confined_moves: "fo.confined (move_into_place env staged rs)"
  unfolding move_into_place_def Let_def
  by (intro file_actions confined_try confined_reraise confined_restore confined_files)

section \<open>Files\<close>

lemma attempt_Inr: "attempt env m w = (Inr x, v) \<Longrightarrow> m (w\<lparr>kw_step := Suc (kw_step w)\<rparr>) = (Inr x, v)"
  by (auto simp: attempt_def Let_def split: option.splits)

lemma attempt_Inl:
  "attempt env m w = (Inl e, v) \<Longrightarrow> v = w\<lparr>kw_step := Suc (kw_step w)\<rparr> \<or> m (w\<lparr>kw_step := Suc (kw_step w)\<rparr>) = (Inl e, v)"
  by (auto simp: attempt_def Let_def split: option.splits)

lemma replaced:
  assumes "os_replace env a b w = (Inr (), v)"
  shows "kw_files w a \<noteq> None" and "kw_files v = (kw_files w)(a := None, b := kw_files w a)"
  using assms by (auto simp: os_replace_def dest!: attempt_Inr split: option.splits)

lemma not_replaced: "os_replace env a b w = (Inl e, v) \<Longrightarrow> kw_files v = kw_files w"
  by (auto simp: os_replace_def dest!: attempt_Inl split: option.splits)

lemma removed: "os_remove env p w = (Inr (), v) \<Longrightarrow> kw_files v = (kw_files w)(p := None)"
  by (auto simp: os_remove_def put_file_def dest!: attempt_Inr split: if_splits)

lemma removed_if_there:
  "remove_if_there env b p w = (Inr (), v) \<Longrightarrow> kw_files v = (if b then (kw_files w)(p := None) else kw_files w)"
  by (auto simp: remove_if_there_def whenA_def readA_Inr returnA_def is_file_def fun_upd_idem dest!: bindA_Inr removed split: if_splits)

lemma moved_back: "move_back env s b p w = (Inr (), v) \<Longrightarrow> kw_files v = (kw_files w)(b := None, p := kw_files w b)"
  by (auto simp: move_back_def readA_Inr raiseA_def dest!: bindA_Inr replaced(2) split: if_splits)

lemma when_Inr: "whenA b m w = (Inr (), v) \<longleftrightarrow> (if b then m w = (Inr (), v) else v = w)"
  by (auto simp: whenA_def returnA_def)

lemma when_moved_back:
  "whenA c (move_back env s b p) w = (Inr (), v)
     \<Longrightarrow> kw_files v = (if c then (kw_files w)(b := None, p := kw_files w b) else kw_files w)"
  by (cases c) (simp_all add: when_Inr moved_back)

lemma when_replaced:
  "whenA c (os_replace env a b) w = (Inr (), v)
     \<Longrightarrow> kw_files v = (if c then (kw_files w)(a := None, b := kw_files w a) else kw_files w)"
  by (cases c) (simp_all add: when_Inr replaced(2))

text \<open>The files after a complete restoration.\<close>

definition restored :: "rollback_state \<Rightarrow> (string \<Rightarrow> byte list option) \<Rightarrow> string \<Rightarrow> byte list option" where
  "restored rs f =
     (let f = (if rs_committed rs then f(rs_final rs := None) else f);
          f = (if rs_file_kept rs then f(rs_backup rs := None, rs_final rs := f (rs_backup rs)) else f);
          f = (if rs_transcript rs \<noteq> [] \<and> rs_committed rs then f(rs_transcript rs := None) else f)
      in if rs_transcript_kept rs then f(rs_transcript_backup rs := None, rs_transcript rs := f (rs_transcript_backup rs)) else f)"

lemma restore_files:
  assumes "restore_upload_files env rs w = (Inr (), v)"
  shows "kw_files v = restored rs (kw_files w)"
proof -
  from assms obtain u1 u2 u3
    where 1: "remove_if_there env (rs_committed rs) (rs_final rs) w = (Inr (), u1)"
      and 2: "whenA (rs_file_kept rs) (move_back env ''Backup rollback upload non trovato: '' (rs_backup rs) (rs_final rs)) u1 = (Inr (), u2)"
      and 3: "remove_if_there env (rs_transcript rs \<noteq> [] \<and> rs_committed rs) (rs_transcript rs) u2 = (Inr (), u3)"
      and 4: "whenA (rs_transcript_kept rs)
        (move_back env ''Backup rollback trascrizione non trovato: '' (rs_transcript_backup rs) (rs_transcript rs)) u3 = (Inr (), v)"
    unfolding restore_upload_files_def by (blast dest: thenA_Inr)
  show ?thesis
    by (simp only: when_moved_back [OF 4] removed_if_there [OF 3] when_moved_back [OF 2] removed_if_there [OF 1] restored_def Let_def)
qed

text \<open>The places of an upload before the moves.\<close>

definition placed :: "(string \<Rightarrow> byte list option) \<Rightarrow> string \<Rightarrow> rollback_state \<Rightarrow> bool" where
  "placed f staged rs \<longleftrightarrow>
     \<not> rs_file_kept rs \<and> \<not> rs_transcript_kept rs \<and> \<not> rs_committed rs
   \<and> (rs_backup rs \<noteq> [] \<longleftrightarrow> f (rs_final rs) \<noteq> None)
   \<and> (rs_transcript_backup rs \<noteq> [] \<longleftrightarrow> rs_transcript rs \<noteq> [] \<and> f (rs_transcript rs) \<noteq> None)
   \<and> f staged \<noteq> None \<and> rs_transcript rs \<noteq> rs_final rs \<and> staged \<notin> {rs_final rs, rs_transcript rs}
   \<and> (rs_backup rs \<noteq> [] \<longrightarrow> f (rs_backup rs) = None \<and> rs_backup rs \<notin> {rs_final rs, rs_transcript rs})
   \<and> (rs_transcript_backup rs \<noteq> [] \<longrightarrow> f (rs_transcript_backup rs) = None
        \<and> rs_transcript_backup rs \<notin> {rs_final rs, rs_transcript rs, rs_backup rs})"

definition moved :: "(string \<Rightarrow> byte list option) \<Rightarrow> string \<Rightarrow> rollback_state \<Rightarrow> string \<Rightarrow> byte list option" where
  "moved f staged rs =
     (let f = (if rs_backup rs \<noteq> [] then f(rs_final rs := None, rs_backup rs := f (rs_final rs)) else f);
          f = (if rs_transcript_backup rs \<noteq> [] then f(rs_transcript rs := None, rs_transcript_backup rs := f (rs_transcript rs)) else f)
      in f(staged := None, rs_final rs := f staged))"

definition all_moved :: "rollback_state \<Rightarrow> rollback_state" where
  "all_moved rs = rs\<lparr>rs_file_kept := rs_backup rs \<noteq> [], rs_transcript_kept := rs_transcript_backup rs \<noteq> [], rs_committed := True\<rparr>"

lemma try_reraise_Inr: "tryA m (reraise_after k) w = (Inr x, v) \<longleftrightarrow> m w = (Inr x, v)"
  by (auto simp: tryA_def reraise_after_def finallyA_def raiseA_def split: prod.splits sum.splits)

definition clean_failure :: "up_error \<Rightarrow> bool" where
  "clean_failure e \<longleftrightarrow> (case e of During _ _ \<Rightarrow> False | RollbackFailed _ _ \<Rightarrow> False | _ \<Rightarrow> True)"

lemma try_reraise_Inl:
  "tryA m (reraise_after k) w = (Inl e, v) \<Longrightarrow> clean_failure e \<Longrightarrow> \<exists>u. m w = (Inl e, u) \<and> k u = (Inr (), v)"
  by (auto simp: tryA_def reraise_after_def finallyA_def raiseA_def clean_failure_def split: prod.splits sum.splits)

lemma moves_done:
  assumes "move_into_place env staged rs w = (Inr rs', v)"
  shows "rs' = all_moved rs" and "kw_files v = moved (kw_files w) staged rs"
proof -
  from assms obtain u1 u2
    where 1: "whenA (rs_backup rs \<noteq> []) (os_replace env (rs_final rs) (rs_backup rs)) w = (Inr (), u1)"
      and 2: "whenA (rs_transcript_backup rs \<noteq> []) (os_replace env (rs_transcript rs) (rs_transcript_backup rs)) u1 = (Inr (), u2)"
      and 3: "whenA True (os_replace env staged (rs_final rs)) u2 = (Inr (), v)" and rs: "rs' = all_moved rs"
    by (auto simp: move_into_place_def Let_def try_reraise_Inr returnA_def all_moved_def dest!: thenA_Inr)
  show "rs' = all_moved rs" by (rule rs)
  show "kw_files v = moved (kw_files w) staged rs"
    by (simp only: when_replaced [OF 3] when_replaced [OF 2] when_replaced [OF 1] moved_def Let_def if_True)
qed

lemma thenA_Inl:
  "thenA m k w = (Inl e, v) \<longleftrightarrow> m w = (Inl e, v) \<or> (\<exists>u. m w = (Inr (), u) \<and> k u = (Inl e, v))"
  by (auto simp: thenA_def bindA_def split: prod.splits sum.splits)

lemma when_not_replaced: "whenA c (os_replace env a b) w = (Inl e, v) \<Longrightarrow> kw_files v = kw_files w"
  by (auto simp: whenA_def returnA_def dest: not_replaced split: if_splits)

text \<open>A move that fails after others were made: these are put back.\<close>

lemma step_failed:
  assumes "tryA (whenA c (os_replace env a b)) (reraise_after (restore_upload_files env rs)) w = (Inl e, v)" and "clean_failure e"
  shows "kw_files v = restored rs (kw_files w)"
proof -
  from try_reraise_Inl [OF assms] obtain u
    where "whenA c (os_replace env a b) w = (Inl e, u)" and "restore_upload_files env rs u = (Inr (), v)" by blast
  then show ?thesis by (simp add: when_not_replaced restore_files)
qed

lemma put_back_two:
  assumes "placed f staged rs"
  shows "restored (rs\<lparr>rs_file_kept := rs_backup rs \<noteq> [], rs_transcript_kept := rs_transcript_backup rs \<noteq> []\<rparr>)
    (let g = (if rs_backup rs \<noteq> [] then f(rs_final rs := None, rs_backup rs := f (rs_final rs)) else f)
     in if rs_transcript_backup rs \<noteq> [] then g(rs_transcript rs := None, rs_transcript_backup rs := g (rs_transcript rs)) else g) = f"
  (is "restored ?rs ?g = f")
proof
  fix p
  note facts = assms [unfolded placed_def]
  show "restored ?rs ?g p = f p"
    using facts
    by (cases "rs_backup rs = []"; cases "rs_transcript_backup rs = []")
      (simp_all add: restored_def Let_def, safe, simp_all)
qed

lemma moves_failed:
  assumes fail: "move_into_place env staged rs w = (Inl e, v)" and clean: "clean_failure e"
    and placed: "placed (kw_files w) staged rs"
  shows "kw_files v = kw_files w"
proof -
  define kept where "kept = rs\<lparr>rs_file_kept := rs_backup rs \<noteq> []\<rparr>"
  define both where "both = kept\<lparr>rs_transcript_kept := rs_transcript_backup rs \<noteq> []\<rparr>"
  let ?step = "\<lambda>b p q state. tryA (whenA b (os_replace env p q)) (reraise_after (restore_upload_files env state))"
  consider
      (first) "?step (rs_backup rs \<noteq> []) (rs_final rs) (rs_backup rs) rs w = (Inl e, v)"
    | (second) u where "whenA (rs_backup rs \<noteq> []) (os_replace env (rs_final rs) (rs_backup rs)) w = (Inr (), u)"
        "?step (rs_transcript_backup rs \<noteq> []) (rs_transcript rs) (rs_transcript_backup rs) kept u = (Inl e, v)"
    | (third) u t where "whenA (rs_backup rs \<noteq> []) (os_replace env (rs_final rs) (rs_backup rs)) w = (Inr (), u)"
        "whenA (rs_transcript_backup rs \<noteq> []) (os_replace env (rs_transcript rs) (rs_transcript_backup rs)) u = (Inr (), t)"
        "?step True staged (rs_final rs) both t = (Inl e, v)"
    using fail unfolding move_into_place_def Let_def kept_def both_def
    by (auto simp: thenA_Inl try_reraise_Inr returnA_def)
  then show ?thesis
  proof cases
    case first
    with placed show ?thesis by (simp only: step_failed [OF first clean]) (simp add: restored_def placed_def)
  next
    case second
    from placed show ?thesis
      by (simp only: step_failed [OF second(2) clean] when_replaced [OF second(1)])
        (auto simp: restored_def placed_def kept_def Let_def fun_eq_iff)
  next
    case third
    show ?thesis
      by (simp only: step_failed [OF third(3) clean] when_replaced [OF third(2)] when_replaced [OF third(1)] both_def kept_def)
        (rule put_back_two [OF placed, unfolded Let_def])
  qed
qed

text \<open>The rollback after the indexing, which writes \<open>written\<close> at most.\<close>

lemma moves_undone:
  assumes placed: "placed f staged rs"
    and g: "\<And>p. p \<notin> written \<Longrightarrow> g p = moved f staged rs p"
    and kept: "rs_backup rs \<notin> written" "rs_transcript_backup rs \<notin> written"
    and p: "p \<noteq> staged" "p \<in> written \<Longrightarrow> p = rs_transcript rs \<and> p \<noteq> []"
  shows "restored (all_moved rs) g p = f p"
proof -
  note facts = placed [unfolded placed_def]
  let ?b = "rs_backup rs \<noteq> []" and ?t = "rs_transcript_backup rs \<noteq> []"
  have distinct: "rs_transcript rs \<noteq> rs_final rs" "?b \<Longrightarrow> rs_backup rs \<noteq> rs_final rs" "?b \<Longrightarrow> rs_backup rs \<noteq> rs_transcript rs"
    "?t \<Longrightarrow> rs_transcript_backup rs \<noteq> rs_final rs" "?t \<Longrightarrow> rs_transcript_backup rs \<noteq> rs_transcript rs"
    "?t \<Longrightarrow> rs_transcript_backup rs \<noteq> rs_backup rs" "?t \<Longrightarrow> rs_transcript rs \<noteq> []"
    and were: "?b \<Longrightarrow> f (rs_backup rs) = None" "?t \<Longrightarrow> f (rs_transcript_backup rs) = None"
    "\<not> ?b \<Longrightarrow> f (rs_final rs) = None" "\<not> ?t \<Longrightarrow> rs_transcript rs \<noteq> [] \<Longrightarrow> f (rs_transcript rs) = None"
    using facts by blast+
  have staged: "staged \<noteq> rs_final rs" "?b \<Longrightarrow> rs_backup rs \<noteq> staged" "?t \<Longrightarrow> rs_transcript_backup rs \<noteq> staged"
    using facts by (force, force, force)
  have file_kept: "?b \<Longrightarrow> g (rs_backup rs) = f (rs_final rs)"
    unfolding g [OF kept(1)] moved_def Let_def using distinct staged by (cases ?t) simp_all
  have transcript_kept: "?t \<Longrightarrow> g (rs_transcript_backup rs) = f (rs_transcript rs)"
    unfolding g [OF kept(2)] moved_def Let_def using distinct staged by (cases ?b) simp_all
  note unfolded = restored_def all_moved_def Let_def
  consider (final) "p = rs_final rs" | (transcript) "p = rs_transcript rs" "rs_transcript rs \<noteq> []" "p \<noteq> rs_final rs"
    | (backup) "?b" "p = rs_backup rs" | (both) "?t" "p = rs_transcript_backup rs"
    | (other) "p \<noteq> rs_final rs" "p = rs_transcript rs \<Longrightarrow> rs_transcript rs = []" "?b \<Longrightarrow> p \<noteq> rs_backup rs"
        "?t \<Longrightarrow> p \<noteq> rs_transcript_backup rs" by blast
  then show ?thesis
  proof cases
    case final
    then show ?thesis using distinct were file_kept by (cases ?b; cases ?t) (simp_all add: unfolded)
  next
    case transcript
    then show ?thesis using distinct were transcript_kept by (cases ?b; cases ?t) (simp_all add: unfolded)
  next
    case backup
    then show ?thesis using distinct were by (cases ?t) (simp_all add: unfolded)
  next
    case both
    then show ?thesis using distinct were by (cases ?b) (simp_all add: unfolded)
  next
    case other
    then have "p \<notin> written" using p(2) by blast
    moreover have away: "?t \<Longrightarrow> p \<noteq> rs_transcript rs" using other(2) distinct(7) by blast
    ultimately have "g p = f p" using other(1,3,4) p(1) by (cases ?b; cases ?t) (simp_all add: g moved_def Let_def)
    then show ?thesis using other away by (cases ?b; cases ?t; cases "rs_transcript rs = []") (auto simp: unfolded)
  qed
qed

end
