(* ===== verification/Upload_Claims.thy ===== *)
theory Upload_Claims
  imports Upload_Rollback
begin

text \<open>A failed upload leaves nothing behind.\<close>

section \<open>Chunks\<close>

text \<open>
  What a rollback promises of the chunks: with \<open>b\<close>, every chunk of before is stored again, exactly so
  when it is of another source; without \<open>b\<close> the source had no file and no entry, and has no chunk now.
\<close>

definition chunks_restored :: "'c chroma \<Rightarrow> string \<Rightarrow> bool \<Rightarrow> 'c \<Rightarrow> 'c \<Rightarrow> bool" where
  "chunks_restored ch source b c d \<longleftrightarrow> (\<forall>i. case ch_find ch i c of
       None \<Rightarrow> ch_find ch i d = None
     | Some x \<Rightarrow> if \<not> from_source source x then ch_find ch i d = Some x
         else if b then \<exists>y. ch_find ch i d = Some y \<and> stored_as x y else ch_find ch i d = None)"

definition chunk_frame :: "'c chroma \<Rightarrow> string \<Rightarrow> 'c \<Rightarrow> 'c \<Rightarrow> bool" where
  "chunk_frame ch source c d \<longleftrightarrow>
     (\<forall>i x. \<not> from_source source x \<longrightarrow> (ch_find ch i d = Some x \<longleftrightarrow> ch_find ch i c = Some x))"

lemma chunk_frame_new:
  "chunk_frame ch source c d \<Longrightarrow> ch_find ch i c = None \<Longrightarrow> ch_find ch i d = Some x \<Longrightarrow> from_source source x"
  unfolding chunk_frame_def by (metis option.distinct(1))

lemma deleted_restored:
  assumes "chroma_laws ch" and "chunk_frame ch source c d"
  shows "chunks_restored ch source False c (snd (delete_by_source ch source d))"
proof -
  have same: "ch_find ch i d = Some x \<longleftrightarrow> ch_find ch i c = Some x" if "\<not> from_source source x" for i x
    using assms(2) that by (simp add: chunk_frame_def)
  show ?thesis
    unfolding chunks_restored_def deleted_by_source [OF assms(1)]
  proof (rule allI)
    fix i
    show "case ch_find ch i c of
        None \<Rightarrow> (case ch_find ch i d of None \<Rightarrow> None | Some x \<Rightarrow> if from_source source x then None else Some x) = None
      | Some x \<Rightarrow> if \<not> from_source source x
          then (case ch_find ch i d of None \<Rightarrow> None | Some x \<Rightarrow> if from_source source x then None else Some x) = Some x
          else if False then \<exists>y. (case ch_find ch i d of None \<Rightarrow> None
            | Some x \<Rightarrow> if from_source source x then None else Some x) = Some y \<and> stored_as x y
          else (case ch_find ch i d of None \<Rightarrow> None | Some x \<Rightarrow> if from_source source x then None else Some x) = None"
    proof (cases "ch_find ch i c")
      case None
      then show ?thesis using chunk_frame_new [OF assms(2) None] by (cases "ch_find ch i d") auto
    next
      case (Some x)
      show ?thesis
      proof (cases "from_source source x")
        case True
        have "ch_find ch i d = Some y \<Longrightarrow> from_source source y" for y
          using same [of y i] Some True by (cases "y = x") auto
        then show ?thesis using Some True by (cases "ch_find ch i d") auto
      next
        case False
        then show ?thesis using same [OF False, of i] Some by simp
      qed
    qed
  qed
qed

lemma snapshot_of_source:
  "snapshot_chunks (snapshot_by_source ch source c) = ch_get ch ''source'' source c"
  by (simp add: snapshot_chunks_def snapshot_by_source_def Let_def zip_map1 zip_map2 zip_same_conv_map) (rule map_idI, simp)

lemma stored_refl: "stored_as x x"
  by (simp add: stored_as_def)

lemma put_back_restored:
  assumes laws: "chroma_laws ch" and frame: "chunk_frame ch source c d"
  shows "fst (restore_source_snapshot ch source (snapshot_by_source ch source c) d) \<noteq> None"
    and "chunks_restored ch source True c (snd (restore_source_snapshot ch source (snapshot_by_source ch source c) d))"
proof -
  let ?s = "snapshot_by_source ch source c" and ?xs = "ch_get ch ''source'' source c" and ?ys = "ch_get ch ''source'' source d"
  let ?u = "if ?xs = [] then d else ch_upsert ch ?xs d" and ?stale = "filter (\<lambda>i. i \<notin> ck_id ` set ?xs) (map ck_id ?ys)"
  have ids: "sn_ids ?s = map ck_id ?xs" by (simp add: snapshot_by_source_def Let_def)
  have result: "restore_source_snapshot ch source ?s d
      = (Some (length ?xs), if ?stale = [] then ?u else ch_delete ch ?stale ?u)"
    unfolding restore_source_snapshot_def Let_def snapshot_of_source
    by (simp add: snapshot_by_source_def Let_def)
  then show "fst (restore_source_snapshot ch source ?s d) \<noteq> None" by simp
  have distinct: "distinct (map ck_id ?xs)" using laws by (simp add: chroma_laws_def)
  have upserted: "\<exists>y. ch_find ch i ?u = Some y \<and> stored_as x y" if "x \<in> set ?xs" "ck_id x = i" for i x
  proof -
    have "\<exists>y. ch_find ch i (ch_upsert ch ?xs d) = Some y \<and> stored_as x y"
      using laws distinct that unfolding chroma_laws_def by blast
    then show ?thesis using that by auto
  qed
  have other: "ch_find ch i ?u = ch_find ch i d" if "i \<notin> ck_id ` set ?xs" for i
    using laws that by (auto simp: chroma_laws_def)
  define stale where "stale = ?stale"
  have found: "ch_find ch i (snd (restore_source_snapshot ch source ?s d)) = (if i \<in> set stale then None else ch_find ch i ?u)" for i
    unfolding result stale_def [symmetric] by (simp add: chroma_delete [OF laws])
  show "chunks_restored ch source True c (snd (restore_source_snapshot ch source ?s d))"
    unfolding chunks_restored_def
  proof (rule allI)
    fix i
    show "case ch_find ch i c of None \<Rightarrow> ch_find ch i (snd (restore_source_snapshot ch source ?s d)) = None
      | Some x \<Rightarrow> if \<not> from_source source x then ch_find ch i (snd (restore_source_snapshot ch source ?s d)) = Some x
          else if True then \<exists>y. ch_find ch i (snd (restore_source_snapshot ch source ?s d)) = Some y \<and> stored_as x y
          else ch_find ch i (snd (restore_source_snapshot ch source ?s d)) = None"
    proof (cases "ch_find ch i c")
      case None
      then have notin: "i \<notin> ck_id ` set ?xs" by (rule no_ids_of_source [OF laws])
      have "ch_find ch i d = Some x \<Longrightarrow> from_source source x" for x
        by (rule chunk_frame_new [OF frame None])
      then have "ch_find ch i d = None \<or> i \<in> ck_id ` set ?ys"
        using ids_of_source [OF laws, of i d _ source] by (cases "ch_find ch i d") auto
      then show ?thesis using notin None by (auto simp: found other stale_def)
    next
      case (Some x)
      show ?thesis
      proof (cases "from_source source x")
        case True
        then have "x \<in> set ?xs" "ck_id x = i"
          using chroma_get [OF laws, of x "''source''" source c] chroma_id [OF laws Some] Some by (auto simp: from_source_def)
        then show ?thesis using upserted [of x i] Some True by (auto simp: found stale_def)
      next
        case False
        then have "i \<notin> ck_id ` set ?xs" using ids_of_source [OF laws Some] by simp
        moreover have d: "ch_find ch i d = Some x" using frame False Some by (simp add: chunk_frame_def)
        then have "i \<notin> ck_id ` set ?ys" using ids_of_source [OF laws d] False by simp
        ultimately show ?thesis using Some False d by (auto simp: found other stale_def)
      qed
    qed
  qed
qed

section \<open>The index\<close>

lemma entry_put_back:
  assumes f: "index_sorted f" and g: "index_sorted g" "\<And>n. n \<noteq> m \<Longrightarrow> index_get n g = index_get n f"
    and entry: "index_get m f = Inr entry" and put: "restore_entry m entry g = (Inr (), h)"
  shows "index_sorted h" and "index_get n h = index_get n f"
proof -
  from put obtain xs where xs: "others m (index_entries g) = Inr xs"
    and h: "h = save_index (case entry of Some x \<Rightarrow> (if truthy x then x # xs else xs) | None \<Rightarrow> xs)"
    by (auto simp: restore_entry_def split: sum.splits)
  have found: "find (named m) (index_entries f) = entry" using entry by (simp add: index_get_sorted [OF f])
  show "index_sorted h" "index_get n h = index_get n f"
  proof -
    show "index_sorted h"
    proof (cases entry)
      case None
      then show ?thesis using drop_entry_get(1) [OF g(1) xs] by (simp add: h)
    next
      case (Some x)
      then have "x \<in> set (index_entries f)" using found by (auto dest: find_SomeD)
      then have "\<exists>d. x = JObj d" using f by (auto simp: index_sorted_def)
      moreover have "\<forall>y \<in> set xs. \<exists>d. y = JObj d"
        using xs others_objs [OF sorted_entries(1) [OF g(1)], of m] sorted_entries(1) [OF g(1)] by auto
      ultimately show ?thesis using Some drop_entry_get(1) [OF g(1) xs] by (auto simp: h intro!: saved_sorted)
    qed
    show "index_get n h = index_get n f"
    proof (cases entry)
      case None
      then show ?thesis using drop_entry_get(2) [OF g(1) xs, of n] entry g(2) by (auto simp: h)
    next
      case (Some x)
      then have x: "x \<in> set (index_entries f)" "named m x" using found by (auto dest: find_SomeD)
      then obtain d where d: "x = JObj d" "sort_json x = x" using f by (auto simp: index_sorted_def)
      then have truthy: "truthy x" using x(2) by (auto simp: named_def entry_is_def jget_def)
      show ?thesis
      proof (cases "n = m")
        case True
        have "index_get m h = Inr (find (named m) (map sort_json (x # xs)))"
          by (simp only: index_get_sorted [OF \<open>index_sorted h\<close>]) (simp add: h Some truthy saved_entries)
        then show ?thesis using x(2) d(2) True entry Some by simp
      next
        case False
        have "\<not> named n (sort_json x)" using x(2) d False by (auto simp: named_def entry_is_def)
        then show ?thesis using put_entry_get(2) [OF g(1) _ False _ xs, of x] d g(2) [OF False] truthy by (simp add: h Some)
      qed
    qed
  qed
qed

section \<open>Names of backups\<close>

definition hex_tokens :: "'c up_env \<Rightarrow> bool" where
  "hex_tokens env \<longleftrightarrow> (\<forall>n. length (ue_token env n) = 32 \<and> list_all py_is_hex_lower (ue_token env n))"

lemma basename_append: "CHR ''/'' \<notin> set s \<Longrightarrow> basename (p @ s) = basename p @ s"
proof -
  assume "CHR ''/'' \<notin> set s"
  then have "takeWhile (\<lambda>c. c \<noteq> CHR ''/'') (rev s @ rev p) = rev s @ takeWhile (\<lambda>c. c \<noteq> CHR ''/'') (rev p)"
    by (intro takeWhile_append2) auto
  then show ?thesis by (simp add: basename_def)
qed

lemma basename_join:
  assumes "CHR ''/'' \<notin> set s"
  shows "basename (join_path d [CHR ''.'' # s]) = CHR ''.'' # s"
proof -
  have s: "CHR ''/'' \<notin> set (CHR ''.'' # s)" using assms by simp
  have "basename d = []" if "d = [] \<or> last d = CHR ''/''"
    using that by (cases d rule: rev_cases) (auto simp: basename_def)
  moreover have "basename (d @ ''/'') = []" by (simp add: basename_def)
  ultimately show ?thesis
    using basename_append [OF s, of d] basename_append [OF s, of "d @ ''/''"] by auto
qed

lemma basename_no_slash: "CHR ''/'' \<notin> set (basename p)"
  by (auto simp: basename_def dest: set_takeWhileD)

lemma basename_rollback:
  assumes "hex_tokens env"
  shows "basename (upload_rollback_path (ue_token env n) p) = ''.'' @ basename p @ ''.'' @ ue_token env n @ ''.rollback-upload''"
proof -
  have "CHR ''/'' \<notin> set (ue_token env n)"
  proof -
    have "\<not> py_is_hex_lower CHR ''/''" by (simp add: py_is_hex_lower_def Let_def)
    then show ?thesis using assms by (auto simp: hex_tokens_def list_all_iff)
  qed
  then show ?thesis
    using basename_no_slash [of p] basename_join [of "basename p @ ''.'' @ ue_token env n @ ''.rollback-upload''" "dirname p"]
    by (simp add: upload_rollback_path_def del: join_path.simps)
qed

lemma rollback_names:
  fixes p :: string
  assumes hex: "hex_tokens env"
  defines "b \<equiv> \<lambda>n. upload_rollback_path (ue_token env n)"
  shows "b n p \<noteq> p" "b n p \<noteq> p @ ''.transcript.txt''" "b n p \<noteq> p @ ''.ocr.txt''"
    and "b m (p @ ''.transcript.txt'') \<noteq> p" "b m (p @ ''.transcript.txt'') \<noteq> p @ ''.transcript.txt''"
    "b m (p @ ''.transcript.txt'') \<noteq> p @ ''.ocr.txt''" "b m (p @ ''.transcript.txt'') \<noteq> b n p"
    and "b n q \<noteq> []"
proof -
  note base = basename_rollback [OF hex]
  have len: "length (ue_token env k) = 32" for k using hex by (simp add: hex_tokens_def)
  have ne: "basename x \<noteq> basename y \<Longrightarrow> x \<noteq> y" for x y by auto
  have app: "basename (p @ ''.transcript.txt'') = basename p @ ''.transcript.txt''" "basename (p @ ''.ocr.txt'') = basename p @ ''.ocr.txt''"
    by (rule basename_append, simp)+
  have longer: "x \<noteq> y" if "length (basename x) \<noteq> length (basename y)" for x y :: string using that by auto
  show "b n p \<noteq> p" "b n p \<noteq> p @ ''.transcript.txt''" "b n p \<noteq> p @ ''.ocr.txt''"
    "b m (p @ ''.transcript.txt'') \<noteq> p" "b m (p @ ''.transcript.txt'') \<noteq> p @ ''.transcript.txt''"
    "b m (p @ ''.transcript.txt'') \<noteq> p @ ''.ocr.txt''" "b m (p @ ''.transcript.txt'') \<noteq> b n p"
    by (rule longer; simp add: b_def base app len)+
  show "b n q \<noteq> []" by (rule longer) (simp add: b_def base, simp add: basename_def)
qed

section \<open>The commit\<close>

definition same_state :: "('c, 'v) kb_world \<Rightarrow> ('c, 'v) kb_world \<Rightarrow> bool" where
  "same_state u v \<longleftrightarrow> files_only u v \<and> kw_files v = kw_files u"

interpretation sm: action_frame same_state
  by unfold_locales (auto simp: same_state_def files_only_def)

lemma sameD: "sm.confined m \<Longrightarrow> m w = (r, v) \<Longrightarrow> same_state w v"
  by (metis sm.confined_def snd_conv)

lemma same_get_entry: "sm.confined (get_entry n)"
  by (simp add: get_entry_def sm.confined_bind sm.confined_pure)

lemma same_snapshot: "sm.confined (take_snapshot env source)"
  unfolding take_snapshot_def on_chunks_def
  by (rule sm.confined_attempt) (simp add: sm.confined_def same_state_def files_only_def)

lemma bindA_cases:
  assumes "bindA m f w = (r, v)"
  obtains (raised) e where "m w = (Inl e, v)" and "r = Inl e" | (returned) x u where "m w = (Inr x, u)" and "f x u = (r, v)"
  using assms by (auto simp: bindA_def split: prod.splits sum.splits)

lemma snapshot_Inr: "take_snapshot env source w = (Inr s, v) \<Longrightarrow> s = snapshot_by_source (ue_chroma env) source (kw_chunks w)"
  by (auto simp: take_snapshot_def on_chunks_def dest!: attempt_Inr)

lemma get_entry_Inr: "get_entry n w = (Inr x, v) \<Longrightarrow> index_get n (kw_index w) = Inr x"
  by (auto simp: get_entry_def readA_Inr liftA_Inr dest!: bindA_Inr)

lemma commit_steps:
  assumes commit: "commit_staged_upload env u b w = (r, v)" and staged: "ul_staged u \<noteq> []"
  defines "final \<equiv> abspath (ue_cwd env) (ul_path u)" and "place \<equiv> abspath (ue_cwd env) (ul_staged u)"
  obtains (refused) e where "r = Inl e" and "same_state w v"
    | (moves) entry snap x q where "is_file place w" and "index_get (ul_filename u) (kw_index w) = Inr entry" and "same_state w x"
        and "snap = (if has_previous_state env u b entry w then Some (snapshot_by_source (ue_chroma env) final (kw_chunks w)) else None)"
        and "move_into_place env place (rollback_of env u b entry snap x) x = (q, v)" and "r = map_sum id Some q"
proof -
  let ?get = "bindA (get_entry (ul_filename u))"
  consider "same_state w v" "\<exists>e. r = Inl e"
    | "is_file place w" "?get (\<lambda>entry.
          bindA (readA (has_previous_state env u b entry)) (\<lambda>previous.
          bindA (if previous then bindA (take_snapshot env final) (\<lambda>s. returnA (Some s)) else returnA None) (\<lambda>snap.
          bindA (readA (rollback_of env u b entry snap)) (\<lambda>rs.
          bindA (move_into_place env place rs) (\<lambda>rs. returnA (Some rs)))))) w = (r, v)"
    using commit staged unfolding commit_staged_upload_def Let_def final_def [symmetric] place_def [symmetric]
    by (auto simp: raiseA_def bindA_def [of "readA (is_file place)"] readA_def sm.frm_refl split: if_splits)
  then show thesis
  proof cases
    case 1
    then show thesis using refused by blast
  next
    case 2
    from 2(2) show thesis
    proof (cases rule: bindA_cases)
      case (raised e)
      then show thesis using refused sameD [OF same_get_entry] by blast
    next
      case (returned entry y)
      then have y: "same_state w y" "index_get (ul_filename u) (kw_index w) = Inr entry"
        using sameD [OF same_get_entry] get_entry_Inr by blast+
      let ?previous = "has_previous_state env u b entry w"
      have "has_previous_state env u b entry y = ?previous"
        using y(1) by (simp add: has_previous_state_def is_file_def same_state_def)
      with returned(2) have "bindA (if ?previous then bindA (take_snapshot env final) (\<lambda>s. returnA (Some s)) else returnA None) (\<lambda>snap.
          bindA (readA (rollback_of env u b entry snap)) (\<lambda>rs.
          bindA (move_into_place env place rs) (\<lambda>rs. returnA (Some rs)))) y = (r, v)"
        by (simp add: bindA_def [of "readA (has_previous_state env u b entry)"] readA_def)
      then show thesis
      proof (cases rule: bindA_cases)
        case (raised e)
        then have "?previous" "take_snapshot env final y = (Inl e, v)"
          by (auto simp: returnA_def bindA_def split: if_splits prod.splits sum.splits)
        then have "same_state y v" using sameD [OF same_snapshot] by blast
        then show thesis using refused raised(2) sm.frm_trans [OF y(1)] by blast
      next
        case (returned snap x)
        have "same_state y x \<and> snap = (if ?previous then Some (snapshot_by_source (ue_chroma env) final (kw_chunks w)) else None)"
        proof (cases ?previous)
          case True
          with returned(1) obtain s where "take_snapshot env final y = (Inr s, x)" "snap = Some s"
            by (auto simp: returnA_def dest!: bindA_Inr)
          moreover from this have "s = snapshot_by_source (ue_chroma env) final (kw_chunks y)" by (blast dest: snapshot_Inr)
          moreover have "kw_chunks y = kw_chunks w" using y(1) by (simp add: same_state_def files_only_def)
          ultimately show ?thesis using True sameD [OF same_snapshot] by simp
        next
          case False
          with returned(1) show ?thesis by (simp add: returnA_def sm.frm_refl)
        qed
        moreover from this have "same_state w x" using sm.frm_trans [OF y(1)] by blast
        moreover obtain q where "move_into_place env place (rollback_of env u b entry snap x) x = (q, v)" "r = map_sum id Some q"
          using returned(2) by (auto simp: bindA_def readA_def returnA_def split: prod.splits sum.splits)
        ultimately show thesis using moves 2(1) y(2) by blast
      qed
    qed
  qed
qed

end
