(* ===== verification/Upload_Safety.thy ===== *)
theory Upload_Safety
  imports Upload_Claims
begin

text \<open>A collection that is a list of records, the first one of an id being the current one, and a concrete upload.\<close>

definition record_of :: "string \<Rightarrow> chunk list \<Rightarrow> chunk option" where
  "record_of i c = find (\<lambda>x. ck_id x = i) c"

fun current :: "string list \<Rightarrow> chunk list \<Rightarrow> chunk list" where
  "current [] c = []"
| "current (i # ids) c = (case record_of i c of None \<Rightarrow> current ids c | Some x \<Rightarrow> x # current ids c)"

definition list_chroma :: "chunk list chroma" where
  "list_chroma = \<lparr>
     ch_get = (\<lambda>k v c. filter (\<lambda>x. jget (ck_meta x) k = JStr v) (current (remdups (map ck_id c)) c)),
     ch_add = (\<lambda>xs c. (True, c @ xs)), ch_upsert = (\<lambda>xs c. xs @ c),
     ch_delete = (\<lambda>ids c. filter (\<lambda>x. ck_id x \<notin> set ids) c), ch_count = length, ch_find = record_of\<rparr>"

lemma record_of_id: "record_of i c = Some x \<Longrightarrow> ck_id x = i \<and> x \<in> set c"
  by (auto simp: record_of_def dest: find_SomeD)

lemma record_of_append: "record_of i (xs @ c) = (case record_of i xs of None \<Rightarrow> record_of i c | Some x \<Rightarrow> Some x)"
  by (simp add: record_of_def find_append split: option.split)

lemma record_of_None: "i \<notin> ck_id ` set c \<Longrightarrow> record_of i c = None"
  by (auto simp: record_of_def find_None_iff)

lemma record_of_distinct: "distinct (map ck_id xs) \<Longrightarrow> x \<in> set xs \<Longrightarrow> record_of (ck_id x) xs = Some x"
  by (induction xs) (auto simp: record_of_def)

lemma current_iff: "x \<in> set (current ids c) \<longleftrightarrow> ck_id x \<in> set ids \<and> record_of (ck_id x) c = Some x"
  by (induction ids) (auto split: option.splits dest: record_of_id)

lemma current_ids: "distinct ids \<Longrightarrow> distinct (map ck_id (current ids c))"
  by (induction ids) (auto simp: current_iff split: option.splits dest: record_of_id)

lemma record_of_filter: "record_of i (filter (\<lambda>x. ck_id x \<notin> set ids) c) = (if i \<in> set ids then None else record_of i c)"
  by (induction c) (auto simp: record_of_def)

lemma distinct_filtered: "distinct (map f xs) \<Longrightarrow> distinct (map f (filter P xs))"
  by (induction xs) auto

lemma list_chroma_laws: "chroma_laws list_chroma"
proof -
  have get: "x \<in> set (current (remdups (map ck_id c)) c) \<longleftrightarrow> record_of (ck_id x) c = Some x" for x c
    using record_of_id [of "ck_id x" c x] by (auto simp: current_iff)
  have ids: "distinct (map ck_id (filter P (current (remdups (map ck_id c)) c)))" for P c
    by (intro distinct_filtered current_ids) simp
  have other: "i \<notin> ck_id ` set xs \<Longrightarrow> record_of i (xs @ c) = record_of i c" for i xs and c :: "chunk list"
    by (simp add: record_of_append record_of_None)
  have added: "record_of i c = None \<Longrightarrow> record_of i (c @ xs) = Some x \<Longrightarrow> x \<in> set xs" for i x xs and c :: "chunk list"
    by (auto simp: record_of_append dest: record_of_id)
  have kept: "record_of i c = Some x \<Longrightarrow> record_of i (c @ xs) = Some x" for i x xs and c :: "chunk list"
    by (simp add: record_of_append)
  have upserted: "distinct (map ck_id xs) \<Longrightarrow> x \<in> set xs \<Longrightarrow> record_of (ck_id x) (xs @ c) = Some x" for x xs and c :: "chunk list"
    by (simp add: record_of_append record_of_distinct)
  show ?thesis
    unfolding chroma_laws_def list_chroma_def chroma.simps snd_conv
    by (intro conjI allI impI) (use get ids other added kept upserted in \<open>auto simp: record_of_filter stored_refl dest: record_of_id\<close>)
qed

section \<open>A concrete upload\<close>

definition demo_text :: text_env where
  "demo_text = \<lparr>te_split = (\<lambda>_ _ t. Inr [t]), te_pages = (\<lambda>_. Inr []), te_utf8 = utf8_decode, te_sha = (\<lambda>raw. ''d0''),
     te_dig = (\<lambda>t. t), te_missing = ''missing''\<rparr>"

text \<open>\<open>k\<close> is the attempt at which the lock is found lost.\<close>

definition demo_env :: "nat \<Rightarrow> chunk list up_env" where
  "demo_env k = \<lparr>ue_text = demo_text, ue_chroma = list_chroma, ue_encode = map (\<lambda>_. []), ue_fr = (\<lambda>_. []),
     ue_getenv = (\<lambda>_. None), ue_settings = [], ue_collection = ''kb'', ue_cwd = ''/'', ue_folder = ''/u'',
     ue_ocr = (\<lambda>_. Inl []), ue_transcribe = (\<lambda>_ _. Inl []), ue_token = (\<lambda>_. replicate 32 CHR ''0''),
     ue_now = (\<lambda>_. ''now''), ue_lost = (\<lambda>n. if n = k then Some ''lease lost'' else None), ue_fault = (\<lambda>_. None),
     ue_rejected = []\<rparr>"

definition demo_entry :: jdict where
  "demo_entry = [(''chunks'', JInt 1), (''filename'', JStr ''a.txt'')]"

definition demo_upload :: upload where
  "demo_upload = \<lparr>ul_filename = ''a.txt'', ul_path = ''/u/a.txt'', ul_extension = ''txt'', ul_language = None,
     ul_relative = ''a.txt'', ul_staged = ''/u/.a.pending''\<rparr>"

definition demo_world :: "(chunk list, nat) kb_world" where
  "demo_world = \<lparr>kw_files = (\<lambda>p. if p = ''/u/a.txt'' then Some (utf8_encode ''old'')
       else if p = ''/u/.a.pending'' then Some (utf8_encode ''new'') else None),
     kw_index = Some (Some (JArr [JObj demo_entry])),
     kw_chunks = [\<lparr>ck_id = ''c1'', ck_text = ''old'', ck_meta = [(''source'', JStr ''/u/a.txt'')], ck_emb = []\<rparr>,
       \<lparr>ck_id = ''c2'', ck_text = ''other'', ck_meta = [(''source'', JStr ''/u/b.txt'')], ck_emb = []\<rparr>],
     kw_cache = new_cache 1, kw_step = 0\<rparr>"

text \<open>A failed upload as a whole: the commit, the indexing and the rollback put together.\<close>

definition fresh_backups :: "'c up_env \<Rightarrow> string \<Rightarrow> ('c, 'v) kb_world \<Rightarrow> bool" where
  "fresh_backups env p w \<longleftrightarrow> hex_tokens env
     \<and> (\<forall>n. \<not> is_file (upload_rollback_path (ue_token env n) p) w
          \<and> \<not> is_file (upload_rollback_path (ue_token env n) (p @ ''.transcript.txt'')) w)"

text \<open>The final place and the staging place of an upload.\<close>

definition final_place :: "'c up_env \<Rightarrow> upload \<Rightarrow> string" where
  "final_place env u = abspath (ue_cwd env) (ul_path u)"

definition staging_place :: "'c up_env \<Rightarrow> upload \<Rightarrow> string" where
  "staging_place env u = abspath (ue_cwd env) (ul_staged u)"

definition well_staged :: "'c up_env \<Rightarrow> upload \<Rightarrow> bool" where
  "well_staged env u \<longleftrightarrow> ul_staged u \<noteq> [] \<and> final_place env u = ul_path u
     \<and> staging_place env u \<notin> {final_place env u, final_place env u @ ''.transcript.txt''}"

lemma place_nonempty: "final_place env u \<noteq> []" "staging_place env u \<noteq> []"
  by (simp_all add: final_place_def staging_place_def abspath_def normpath_def Let_def)

lemma placed_rollback:
  assumes fresh: "fresh_backups env (final_place env u) w" and "well_staged env u"
    and "is_file (staging_place env u) w" and "same_state w x"
  shows "placed (kw_files x) (staging_place env u) (rollback_of env u b entry snap x)"
proof -
  have hex: "hex_tokens env" using fresh by (simp add: fresh_backups_def)
  have same: "kw_files x = kw_files w" using assms(4) by (simp add: same_state_def)
  note names = rollback_names(1-7) [OF hex, where p = "final_place env u"] rollback_names(8) [OF hex]
  show ?thesis
    using assms(1-3) names place_nonempty [of env u]
    by (auto simp: placed_def rollback_of_def Let_def same fresh_backups_def is_file_def well_staged_def
        final_place_def [symmetric])
qed

definition written_by :: "'c up_env \<Rightarrow> string \<Rightarrow> upload \<Rightarrow> string set" where
  "written_by env kind u = {final_place env u @ (if kind = ''audio'' then ''.transcript.txt'' else ''.ocr.txt'')}"

lemma confined_index_upload:
  fixes env :: "'c up_env"
  assumes "chroma_laws (ue_chroma env)" and "well_staged env u"
  shows "kf.confined (ue_chroma env) (written_by env kind u) (final_place env u) (ul_filename u) (index_upload env kind u)"
  using assms unfolding index_upload_def
  by (auto simp: written_by_def well_staged_def intro!: confined_upload confined_audio confined_pure)

section \<open>Rolling back\<close>

lemma collected: "collect_error n m w = (Inr [], v) \<longleftrightarrow> m w = (Inr (), v)"
  by (auto simp: collect_error_def tryA_def thenA_def bindA_def returnA_def split: prod.splits sum.splits)

lemma rollback_parts:
  assumes "rollback_committed_upload env rs w = (Inr (), v)"
  obtains x y where "restore_upload_files env rs w = (Inr (), x)"
    and "restore_vectors env (rs_final rs) (rs_snapshot rs) x = (Inr (), y)"
    and "on_index env (restore_entry (rs_filename rs) (rs_entry rs)) y = (Inr (), v)"
  using assms
  by (auto simp: rollback_committed_upload_def raiseA_def returnA_def collected split: if_splits dest!: bindA_Inr)

lemma apfst_eq: "apfst f q = (a, b) \<longleftrightarrow> f (fst q) = a \<and> b = snd q"
  by (cases q) auto

lemma restored_vectors:
  assumes "restore_vectors env p s w = (Inr (), v)"
  shows "kw_files v = kw_files w" and "kw_index v = kw_index w"
    and "kw_chunks v = (case s of None \<Rightarrow> snd (delete_by_source (ue_chroma env) p (kw_chunks w))
           | Some t \<Rightarrow> snd (restore_source_snapshot (ue_chroma env) p t (kw_chunks w)))"
  using assms
  by (auto simp: restore_vectors_def ignore_result_def returnA_def clear_answers_def delete_source_def put_back_def on_chunks_def apfst_eq
      split: option.splits prod.splits dest!: thenA_Inr bindA_Inr attempt_Inr)

lemma restored_index:
  assumes "on_index env f w = (Inr (), v)"
  shows "kw_files v = kw_files w" and "kw_chunks v = kw_chunks w" and "f (kw_index w) = (Inr (), kw_index v)"
  using assms by (auto simp: on_index_def map_sum_Inr split: prod.splits dest!: attempt_Inr)

lemma undo_failure:
  assumes "undo_upload env (Some rs) e' w = (Inl e, v)" and "clean_failure e"
  shows "rollback_committed_upload env rs w = (Inr (), v)"
  using assms
  by (auto simp: undo_upload_def thenA_Inl tryA_def raiseA_def clean_failure_def split: prod.splits sum.splits)

section \<open>The whole request\<close>

text \<open>What was there before the upload.\<close>

definition had_before :: "'c up_env \<Rightarrow> string \<Rightarrow> upload \<Rightarrow> ('c, 'v) kb_world \<Rightarrow> bool" where
  "had_before env kind u w \<longleftrightarrow>
     is_file (final_place env u) w \<or> kind = ''audio'' \<and> is_file (final_place env u @ ''.transcript.txt'') w
     \<or> index_get (ul_filename u) (kw_index w) \<noteq> Inr None"

definition unchanged :: "'c up_env \<Rightarrow> string \<Rightarrow> upload \<Rightarrow> ('c, 'v) kb_world \<Rightarrow> ('c, 'v) kb_world \<Rightarrow> bool" where
  "unchanged env kind u w v \<longleftrightarrow>
     (\<forall>p. p \<notin> {staging_place env u, final_place env u @ ''.ocr.txt''} \<longrightarrow> kw_files v p = kw_files w p)
   \<and> (\<forall>n. index_get n (kw_index v) = index_get n (kw_index w))
   \<and> (\<exists>c d. c = kw_chunks w \<and> d = kw_chunks v
        \<and> (c = d \<or> chunks_restored (ue_chroma env) (final_place env u) (had_before env kind u w) c d))"

lemma unchanged_same:
  assumes "files_only w v" and "kw_files v = kw_files w"
  shows "unchanged env kind u w v"
  using assms by (auto simp: unchanged_def files_only_def)

lemma had_before_entry:
  assumes sorted: "index_sorted (kw_index w)" and entry: "index_get (ul_filename u) (kw_index w) = Inr entry"
  shows "has_previous_state env u (kind = ''audio'') entry w \<longleftrightarrow> had_before env kind u w"
proof -
  have "truthy x" if "entry = Some x" for x
  proof -
    have "find (named (ul_filename u)) (index_entries (kw_index w)) = Some x"
      using entry that by (simp add: index_get_sorted [OF sorted])
    then have x: "x \<in> set (index_entries (kw_index w))" "named (ul_filename u) x" by (auto dest: find_SomeD)
    then obtain d where "x = JObj d" using sorted by (auto simp: index_sorted_def)
    then show ?thesis using x(2) by (auto simp: named_def entry_is_def jget_def)
  qed
  then show ?thesis
    using entry by (auto simp: has_previous_state_def had_before_def final_place_def Let_def split: option.splits)
qed

text \<open>From the world after the moves to the one the rollback leaves.\<close>

lemma rolled_back:
  fixes env :: "'c up_env" and w x y z v :: "('c, 'v) kb_world"
  assumes laws: "chroma_laws (ue_chroma env)" and sorted: "index_sorted (kw_index w)"
    and fresh: "fresh_backups env (final_place env u) w" and well: "well_staged env u" and staged: "is_file (staging_place env u) w"
    and entry: "index_get (ul_filename u) (kw_index w) = Inr entry" and same: "same_state w x"
    and snap: "snap = (if had_before env kind u w
        then Some (snapshot_by_source (ue_chroma env) (final_place env u) (kw_chunks w)) else None)"
    and rs: "rs = rollback_of env u (kind = ''audio'') entry snap x"
    and move: "move_into_place env (staging_place env u) rs x = (Inr rs', y)"
    and frame: "kb_frame (ue_chroma env) (written_by env kind u) (final_place env u) (ul_filename u) y z"
    and undone: "rollback_committed_upload env rs' z = (Inr (), v)"
  shows "unchanged env kind u w v"
proof -
  let ?f = "kw_files w" and ?final = "final_place env u" and ?ch = "ue_chroma env"
  have rs': "rs' = all_moved rs" and y: "kw_files y = moved ?f (staging_place env u) rs"
    using moves_done [OF move] same by (simp_all add: same_state_def)
  have "files_only x y" using confined_moves move by (metis fo.confined_def snd_conv)
  then have xy: "kw_index y = kw_index w" "kw_chunks y = kw_chunks w" using same by (simp_all add: files_only_def same_state_def)
  have fields: "rs_final rs' = ?final" "rs_snapshot rs' = snap" "rs_filename rs' = ul_filename u" "rs_entry rs' = entry"
    and transcript: "rs_transcript rs = (if kind = ''audio'' then ?final @ ''.transcript.txt'' else [])"
    by (simp_all add: rs' rs rollback_of_def Let_def all_moved_def final_place_def)
  from undone obtain p q where p: "restore_upload_files env rs' z = (Inr (), p)"
    and q: "restore_vectors env (rs_final rs') (rs_snapshot rs') p = (Inr (), q)"
    and v: "on_index env (restore_entry (rs_filename rs') (rs_entry rs')) q = (Inr (), v)"
    by (rule rollback_parts)
  have pz: "kw_index p = kw_index z" "kw_chunks p = kw_chunks z"
    using confined_restore [of env rs'] p by (metis files_only_def fo.confined_def snd_conv)+
  note qp = restored_vectors [OF q] and vq = restored_index [OF v]
  have placed: "placed ?f (staging_place env u) rs"
    using placed_rollback [OF fresh well staged same] same by (simp add: rs same_state_def)
  have hex: "hex_tokens env" using fresh by (simp add: fresh_backups_def)
  have notin: "rs_backup rs \<notin> written_by env kind u" "rs_transcript_backup rs \<notin> written_by env kind u"
    using rollback_names(1-7) [OF hex, where p = ?final]
    by (auto simp: rs rollback_of_def Let_def written_by_def final_place_def [symmetric])
  have files: "kw_files v r = ?f r" if "r \<notin> {staging_place env u, ?final @ ''.ocr.txt''}" for r
  proof -
    have z: "r \<notin> written_by env kind u \<Longrightarrow> kw_files z r = moved ?f (staging_place env u) rs r" for r
      using frame by (simp add: kb_frame_def y)
    have "restored rs' (kw_files z) r = ?f r"
      unfolding rs' using that by (intro moves_undone [OF placed z notin]) (auto simp: written_by_def transcript split: if_splits)
    then show ?thesis by (simp add: vq(1) qp(1) restore_files [OF p])
  qed
  have index: "index_get n (kw_index v) = index_get n (kw_index w)" for n
  proof (rule entry_put_back(2) [OF sorted _ _ entry])
    show "index_sorted (kw_index z)" "\<And>n. n \<noteq> ul_filename u \<Longrightarrow> index_get n (kw_index z) = index_get n (kw_index w)"
      using frame sorted by (simp_all add: kb_frame_def xy)
    show "restore_entry (ul_filename u) entry (kw_index z) = (Inr (), kw_index v)"
      using vq(3) by (simp add: fields qp(2) pz)
  qed
  have "chunk_frame ?ch ?final (kw_chunks w) (kw_chunks z)"
    using frame by (simp add: kb_frame_def chunk_frame_def xy)
  then have "chunks_restored ?ch ?final (had_before env kind u w) (kw_chunks w) (kw_chunks v)"
    using deleted_restored [OF laws] put_back_restored(2) [OF laws]
    by (simp add: vq(2) qp(3) fields snap pz)
  then show ?thesis using files index by (auto simp: unchanged_def)
qed

lemma then_total: "fst (m w) = Inr () \<Longrightarrow> thenA m k w = k (snd (m w))"
  by (cases "m w") (simp add: thenA_def bindA_def)

lemma remove_backup_total: "fst (remove_backup env p w) = Inr ()"
  by (auto simp: remove_backup_def tryA_def returnA_def split: prod.split sum.split)

lemma finalize_total: "fst (finalize_committed_upload env rs w) = Inr ()"
  by (simp add: finalize_committed_upload_def then_total remove_backup_total)

lemma tryA_Inl: "tryA m h w = (Inl e, v) \<Longrightarrow> \<exists>f z. m w = (Inl f, z) \<and> h f z = (Inl e, v)"
  by (auto simp: tryA_def split: prod.splits sum.splits)

lemma finalized: "fst (thenA (case rs of None \<Rightarrow> returnA () | Some rs \<Rightarrow> finalize_committed_upload env rs) (returnA r) w) = Inr r"
  by (cases rs) (simp_all add: then_total finalize_total returnA_def)

lemma same_places:
  assumes "same_state w x"
  shows "fresh_backups env p x = fresh_backups env p w" and "kw_index x = kw_index w" and "is_file q x = is_file q w"
    and "had_before env kind u x = had_before env kind u w" and "unchanged env kind u x v = unchanged env kind u w v"
  using assms by (simp_all add: same_state_def files_only_def fresh_backups_def is_file_def had_before_def unchanged_def)

lemma healthy_same: "assert_distributed_locks_healthy env w = (r, x) \<Longrightarrow> same_state w x"
  by (auto simp: assert_distributed_locks_healthy_def same_state_def files_only_def)

text \<open>The indexing with the locks checked before and after it.\<close>

lemma confined_checked:
  fixes env :: "'c up_env"
  assumes "chroma_laws (ue_chroma env)" and "well_staged env u"
  shows "kf.confined (ue_chroma env) (written_by env kind u) (final_place env u) (ul_filename u)
    (thenA (assert_distributed_locks_healthy env)
       (bindA (index_upload env kind u) (\<lambda>result. thenA (assert_distributed_locks_healthy env) (returnA result))))"
  by (intro confined_compose confined_intros confined_index_upload assms)

lemma failed_after_commit:
  fixes m :: "('c, 'v, 'a) kb_action"
  assumes "bindA (tryA m (undo_upload env (Some rs))) (\<lambda>r. thenA (finalize_committed_upload env rs) (returnA r)) y = (Inl e, v)"
    and "clean_failure e"
  obtains z e' where "m y = (Inl e', z)" and "rollback_committed_upload env rs z = (Inr (), v)"
  using assms(1)
proof (cases rule: bindA_cases)
  case (raised e'')
  then obtain f z where "m y = (Inl f, z)" "(undo_upload env (Some rs) :: up_error \<Rightarrow> ('c, 'v, 'a) kb_action) f z = (Inl e, v)"
    using tryA_Inl [OF raised(1)] raised(2) by auto
  then show ?thesis using that undo_failure [OF _ assms(2)] by blast
next
  case (returned r z)
  then show ?thesis using finalized [where rs = "Some rs" and env = env and r = r and w = z] by simp
qed

text \<open>
  Claim C8: whatever fails while an upload is committed and indexed, and at whatever point (a file
  operation, the collection, the embedding model, the index, a lost lock), an error that is not one of
  the rollback itself leaves the knowledge base as it was: every file other than the staged one and the
  OCR text, every lookup in the file index, every chunk of other sources; the chunks of the document
  are stored again, or there is none if there was nothing before.
\<close>
theorem failed_upload_changes_nothing:
  assumes "chroma_laws (ue_chroma env)" and "index_sorted (kw_index w)"
    and "fresh_backups env (final_place env u) w" and "well_staged env u"
    and "index_staged_upload env kind u w = (Inl e, v)" and "clean_failure e"
  shows "unchanged env kind u w v"
proof -
  let ?checked = "thenA (assert_distributed_locks_healthy env)
     (bindA (index_upload env kind u) (\<lambda>result. thenA (assert_distributed_locks_healthy env) (returnA result)))"
  let ?rest = "\<lambda>rs. bindA (tryA ?checked (undo_upload env rs))
     (\<lambda>r. thenA (case rs of None \<Rightarrow> returnA () | Some rs \<Rightarrow> finalize_committed_upload env rs) (returnA r))"
  note staged = assms(4) [unfolded well_staged_def, THEN conjunct1]
  have "assert_distributed_locks_healthy env w = (Inl e, v)
      \<or> (\<exists>x. assert_distributed_locks_healthy env w = (Inr (), x) \<and> bindA (commit_staged_upload env u (kind = ''audio'')) ?rest x = (Inl e, v))"
    using assms(5) by (simp add: index_staged_upload_def Let_def thenA_Inl)
  then consider "same_state w v"
    | x where "same_state w x" "bindA (commit_staged_upload env u (kind = ''audio'')) ?rest x = (Inl e, v)"
    using healthy_same by blast
  then show ?thesis
  proof cases
    case 1
    then show ?thesis by (simp add: unchanged_same same_state_def)
  next
    case (2 x)
    note x = same_places [OF 2(1)]
    have "unchanged env kind u x v"
      using 2(2)
    proof (cases rule: bindA_cases)
      case (raised e')
      from raised(1) staged show ?thesis
      proof (cases rule: commit_steps)
        case (refused e'')
        then show ?thesis by (simp add: unchanged_same same_state_def)
      next
        case (moves entry snap x' q)
        then have move: "move_into_place env (staging_place env u) (rollback_of env u (kind = ''audio'') entry snap x') x' = (Inl e, v)"
          using raised(2) by (cases q) (auto simp: staging_place_def)
        have "placed (kw_files x') (staging_place env u) (rollback_of env u (kind = ''audio'') entry snap x')"
          using moves(1,3) assms(3,4) x(1) by (intro placed_rollback) (simp_all add: staging_place_def)
        then have "kw_files v = kw_files x'" using moves_failed [OF move assms(6)] by blast
        moreover have "files_only x' v" using confined_moves move by (metis fo.confined_def snd_conv)
        ultimately have "same_state x v" using moves(3) sm.frm_trans by (simp add: same_state_def files_only_def)
        then show ?thesis by (simp add: unchanged_same same_state_def)
      qed
    next
      case (returned rs' y)
      from returned(1) staged show ?thesis
      proof (cases rule: commit_steps)
        case (moves entry snap x' q)
        then obtain rs where rs: "rs' = Some rs"
          and move: "move_into_place env (staging_place env u) (rollback_of env u (kind = ''audio'') entry snap x') x' = (Inr rs, y)"
          by (cases q) (auto simp: staging_place_def)
        from returned(2) obtain z e' where z: "?checked y = (Inl e', z)" "rollback_committed_upload env rs z = (Inr (), v)"
          unfolding rs option.case by (rule failed_after_commit [OF _ assms(6)])
        have "kb_frame (ue_chroma env) (written_by env kind u) (final_place env u) (ul_filename u) y z"
          using confined_checked [OF assms(1,4), of kind] z(1) by (metis kf.confined_def snd_conv)
        moreover have "index_sorted (kw_index x)" using assms(2) x(2) by simp
        moreover have "snap = (if had_before env kind u x
            then Some (snapshot_by_source (ue_chroma env) (final_place env u) (kw_chunks x)) else None)"
          using moves(4) had_before_entry [OF _ moves(2)] assms(2) x(2) by (simp add: final_place_def)
        ultimately show ?thesis
          using rolled_back [OF assms(1) _ _ assms(4) _ moves(2,3) _ refl move _ z(2)] moves(1) assms(3) x(1)
          by (simp add: staging_place_def)
      qed simp
    qed
    then show ?thesis by (simp add: x(5))
  qed
qed

lemma demo_fresh: "fresh_backups (demo_env k) (final_place (demo_env k) demo_upload) demo_world"
proof -
  have place: "final_place (demo_env k) demo_upload = ''/u/a.txt''"
    by (simp add: final_place_def demo_env_def) code_simp
  have "\<not> is_file (upload_rollback_path (replicate 32 CHR ''0'') ''/u/a.txt'') demo_world"
    "\<not> is_file (upload_rollback_path (replicate 32 CHR ''0'') ''/u/a.txt.transcript.txt'') demo_world"
    by code_simp+
  then show ?thesis
    by (simp add: fresh_backups_def place hex_tokens_def) (simp add: demo_env_def py_is_hex_lower_def list_all_iff)
qed

theorem failed_upload_changes_nothing_witness:
  "fst (index_staged_upload (demo_env 12) ''file'' demo_upload demo_world) = Inl (LeaseLost ''lease lost'')
   \<and> unchanged (demo_env 12) ''file'' demo_upload demo_world (snd (index_staged_upload (demo_env 12) ''file'' demo_upload demo_world))"
proof
  show failed: "fst (index_staged_upload (demo_env 12) ''file'' demo_upload demo_world) = Inl (LeaseLost ''lease lost'')"
    by code_simp
  then have run: "index_staged_upload (demo_env 12) ''file'' demo_upload demo_world
      = (Inl (LeaseLost ''lease lost''), snd (index_staged_upload (demo_env 12) ''file'' demo_upload demo_world))"
    by (simp add: prod_eq_iff)
  show "unchanged (demo_env 12) ''file'' demo_upload demo_world (snd (index_staged_upload (demo_env 12) ''file'' demo_upload demo_world))"
  proof (rule failed_upload_changes_nothing [OF _ _ demo_fresh _ run])
    show "chroma_laws (ue_chroma (demo_env 12))" by (simp add: demo_env_def list_chroma_laws)
    show "index_sorted (kw_index demo_world)" by (simp add: index_sorted_def index_entries_def demo_world_def demo_entry_def)
    show "well_staged (demo_env 12) demo_upload" by code_simp
    show "clean_failure (LeaseLost ''lease lost'')" by (simp add: clean_failure_def)
  qed
qed

end
