(* ===== verification/Retrieval.thy ===== *)
theory Retrieval
  imports Vector_Store Validators "HOL-Library.Product_Lexorder"
begin

text \<open>
  Choosing the context of an answer: the selection functions of
  \<open>app/utils/vector_store/chroma_persistent.py\<close> (source diversity, maximal marginal relevance, the query
  with a reranker) and the rerankers of \<open>app/utils/reranker.py\<close>. Floats are real numbers; \<open>rnd n\<close> is
  \<open>round(x, n)\<close>. The answer of \<open>collection.query\<close> and the scores of a model are parameters.
\<close>

section \<open>Scores\<close>

text \<open>A finite score of a document; \<open>None\<close> when it has none that is a finite number.\<close>

definition meta_float :: "jdict \<Rightarrow> string \<Rightarrow> real option" where
  "meta_float meta k = (case py_float (jget meta k) of Inr (Finite x) \<Rightarrow> Some x | _ \<Rightarrow> None)"

definition norm_of :: "real list \<Rightarrow> real" where
  "norm_of xs = sqrt (sum_list (map (\<lambda>x. x * x) xs))"

definition cosine_similarity :: "real list \<Rightarrow> real list \<Rightarrow> real option" where
  "cosine_similarity left right =
     (let pairs = zip left right; a = norm_of (map fst pairs); b = norm_of (map snd pairs)
      in if pairs = [] \<or> a = 0 \<or> b = 0 then None else Some (sum_list (map (\<lambda>(x, y). x * y) pairs) / (a * b)))"

definition rerank_pool_size :: "nat \<Rightarrow> nat" where
  "rerank_pool_size top_n = min (max top_n (top_n * 4)) 200"

definition mmr_pool_size :: "nat \<Rightarrow> json \<Rightarrow> nat" where
  "mmr_pool_size top_n configured =
     (if configured = JNull then rerank_pool_size top_n
      else let v = (case py_int configured of None \<Rightarrow> int (rerank_pool_size top_n) | Some i \<Rightarrow> i)
           in min (nat (max (int top_n) v)) 200)"

definition max_chunks_per_source :: "nat \<Rightarrow> nat" where
  "max_chunks_per_source k = max 1 (min 3 k)"

definition diversity_mode :: "(real \<Rightarrow> string) \<Rightarrow> json \<Rightarrow> string" where
  "diversity_mode fr v =
     (let s = py_lower (py_strip (text_or fr ''none'' v)) in if s \<in> {''none'', ''source_diversity'', ''mmr''} then s else ''none'')"

text \<open>\<open>None\<close>: \<open>float\<close> raises \<open>OverflowError\<close>. \<open>min(1.0, nan)\<close> is 1.\<close>

definition clamp_mmr_lambda :: "json \<Rightarrow> real option" where
  "clamp_mmr_lambda v = (case py_float v of
       Inr (Finite x) \<Rightarrow> Some (max 0 (min 1 x))
     | Inr (Infinity neg) \<Rightarrow> Some (if neg then 0 else 1)
     | Inr NotANumber \<Rightarrow> Some 1
     | Inl None \<Rightarrow> Some (7 / 10)
     | Inl (Some _) \<Rightarrow> None)"

section \<open>Source diversity\<close>

definition document_source :: "(real \<Rightarrow> string) \<Rightarrow> document \<Rightarrow> string" where
  "document_source fr d = py_str fr (j_or (jget (dc_meta d) ''source'') (j_or (jget (dc_meta d) ''document_id'') (JStr ''document'')))"

text \<open>
  The loop over the documents; \<open>counts\<close> is a counter of sources. The list of the documents that
  exceed their source's share is only used when the loop ends.
\<close>

fun diverse_loop :: "('a \<Rightarrow> 's) \<Rightarrow> nat \<Rightarrow> nat \<Rightarrow> ('s \<Rightarrow> nat) \<Rightarrow> 'a list \<Rightarrow> 'a list \<Rightarrow> 'a list \<Rightarrow> 'a list" where
  "diverse_loop source limit share counts selected overflow [] = selected @ take (limit - length selected) overflow"
| "diverse_loop source limit share counts selected overflow (d # ds) =
     (if counts (source d) < share
      then let selected = selected @ [d]
           in if limit \<le> length selected then selected
              else diverse_loop source limit share (counts(source d := Suc (counts (source d)))) selected overflow ds
      else diverse_loop source limit share counts selected (overflow @ [d]) ds)"

definition diverse_documents :: "(real \<Rightarrow> string) \<Rightarrow> nat \<Rightarrow> nat \<Rightarrow> document list \<Rightarrow> document list" where
  "diverse_documents fr limit max_per_source docs = diverse_loop (document_source fr) limit max_per_source (\<lambda>_. 0) [] [] docs"

section \<open>Maximal marginal relevance\<close>

record candidate =
  cn_doc :: document
  cn_embedding :: "real list"
  cn_index :: nat
  cn_relevance :: real

text \<open>Python's \<open>max\<close> keeps the first of several maximal elements.\<close>

fun py_max :: "('a \<Rightarrow> 'k::linorder) \<Rightarrow> 'a \<Rightarrow> 'a list \<Rightarrow> 'a" where
  "py_max f x [] = x"
| "py_max f x (y # ys) = py_max f (if f x < f y then y else x) ys"

definition similarity_to :: "candidate list \<Rightarrow> candidate \<Rightarrow> real" where
  "similarity_to selected c = (case map (\<lambda>s. case cosine_similarity (cn_embedding c) (cn_embedding s) of None \<Rightarrow> 0 | Some x \<Rightarrow> x) selected of
       [] \<Rightarrow> 0 | x # xs \<Rightarrow> py_max (\<lambda>x. x) x xs)"

definition mmr_score :: "real \<Rightarrow> candidate list \<Rightarrow> candidate \<Rightarrow> real" where
  "mmr_score weight selected c = weight * cn_relevance c - (1 - weight) * similarity_to selected c"

definition mmr_key :: "real \<Rightarrow> candidate list \<Rightarrow> candidate \<Rightarrow> real \<times> int" where
  "mmr_key weight selected c = (mmr_score weight selected c, - int (cn_index c))"

definition with_mmr_score :: "(nat \<Rightarrow> real \<Rightarrow> real) \<Rightarrow> real \<Rightarrow> document \<Rightarrow> document" where
  "with_mmr_score rnd score d = d\<lparr>dc_meta := with_fields (dc_meta d) [(''mmr_score'', JFloat (rnd 6 score))]\<rparr>"

lemma py_max_mem: "py_max f x xs \<in> insert x (set xs)"
  by (induction xs arbitrary: x) auto

text \<open>Candidates are removed by their position, which is their index among those of a query.\<close>

function mmr_loop :: "(nat \<Rightarrow> real \<Rightarrow> real) \<Rightarrow> real \<Rightarrow> nat \<Rightarrow> candidate list \<Rightarrow> candidate list \<Rightarrow> candidate list" where
  "mmr_loop rnd weight limit selected candidates = (case candidates of
       [] \<Rightarrow> selected
     | c # cs \<Rightarrow>
         if limit \<le> length selected then selected
         else let best = py_max (mmr_key weight selected) c cs;
                  scored = best\<lparr>cn_doc := with_mmr_score rnd (mmr_score weight selected best) (cn_doc best)\<rparr>
              in mmr_loop rnd weight limit (selected @ [scored]) (filter (\<lambda>d. cn_index d \<noteq> cn_index best) candidates))"
  by pat_completeness auto
termination
proof (relation "measure (\<lambda>(_, _, _, _, cs). length cs)", goal_cases)
  case (2 rnd weight limit selected candidates c cs best scored)
  then have "best \<in> set candidates" using py_max_mem [of _ c cs] by auto
  then show ?case by (auto intro!: length_filter_less)
qed simp

declare mmr_loop.simps [simp del]

definition candidates_of :: "document list \<Rightarrow> real list list \<Rightarrow> candidate list" where
  "candidates_of docs embeddings = map (\<lambda>(i, d, e). \<lparr>cn_doc = d, cn_embedding = e, cn_index = i,
       cn_relevance = (case meta_float (dc_meta d) ''chroma_score'' of
         None \<Rightarrow> 1 - real i / real (max (length docs) 1) | Some x \<Rightarrow> x)\<rparr>)
     (zip [0..<length docs] (zip docs embeddings))"

definition mmr_documents :: "(nat \<Rightarrow> real \<Rightarrow> real) \<Rightarrow> document list \<Rightarrow> real list list \<Rightarrow> nat \<Rightarrow> real \<Rightarrow> document list" where
  "mmr_documents rnd docs embeddings limit weight =
     (if length embeddings < length docs \<or> (\<exists>e \<in> set (take (length docs) embeddings). cosine_similarity e e = None)
      then take limit docs
      else map cn_doc (mmr_loop rnd weight limit [] (candidates_of docs embeddings)))"

section \<open>Rerankers\<close>

definition with_reranker_score :: "document \<Rightarrow> real \<Rightarrow> document" where
  "with_reranker_score d score = d\<lparr>dc_meta := with_fields (dc_meta d) [(''reranker_score'', JFloat score)]\<rparr>"

definition dummy_rerank :: "document list \<Rightarrow> nat \<Rightarrow> document list" where
  "dummy_rerank docs top_n = take top_n docs"

text \<open>A stable sort by falling scores; \<open>scores\<close> are those of a model for the documents.\<close>

definition best_scored :: "document list \<Rightarrow> real list \<Rightarrow> nat \<Rightarrow> document list" where
  "best_scored docs scores top_n =
     take top_n (map (\<lambda>(d, x). with_reranker_score d x) (sort_key (\<lambda>(d, x). - x) (zip docs scores)))"

definition local_rerank :: "(document list \<Rightarrow> real list) \<Rightarrow> document list \<Rightarrow> nat \<Rightarrow> document list" where
  "local_rerank predict docs top_n = (if docs = [] \<or> top_n = 0 then [] else best_scored docs (predict docs) top_n)"

text \<open>The remote service may fail (\<open>None\<close>).\<close>

definition remote_rerank :: "(document list \<Rightarrow> real list option) \<Rightarrow> document list \<Rightarrow> nat \<Rightarrow> document list" where
  "remote_rerank remote docs top_n =
     (if docs = [] \<or> top_n = 0 then []
      else if length docs \<le> top_n then docs
      else (case remote docs of None \<Rightarrow> take top_n docs | Some scores \<Rightarrow> best_scored docs scores top_n))"

definition is_reranker_model :: "string \<Rightarrow> bool" where
  "is_reranker_model model \<longleftrightarrow> py_contains (py_lower model) ''reranker'' \<or> py_contains (py_lower model) ''rerank''"

definition normalize_remote_mode :: "(real \<Rightarrow> string) \<Rightarrow> json \<Rightarrow> string" where
  "normalize_remote_mode fr v =
     (let s = py_replace_char CHR ''-'' CHR ''_'' (py_lower (py_strip (text_or fr ''auto'' v)))
      in if s \<in> {''chat'', ''chat_completion'', ''chat_completions''} then ''chat_completions''
         else if s \<in> {''rerank'', ''reranker'', ''rerank_endpoint''} then ''rerank'' else ''auto'')"

section \<open>A query\<close>

record query_result =
  qr_documents :: "string list"
  qr_metadatas :: "jdict list"
  qr_embeddings :: "real list list"
  qr_distances :: "real list"

definition nth_or :: "'a list \<Rightarrow> nat \<Rightarrow> 'a option" where
  "nth_or xs i = (if i < length xs then Some (xs ! i) else None)"

definition documents_of :: "(nat \<Rightarrow> real \<Rightarrow> real) \<Rightarrow> real list \<Rightarrow> bool \<Rightarrow> query_result \<Rightarrow> document list \<times> real list list" where
  "documents_of rnd query include_embeddings r =
     (let embeddings = (if include_embeddings then qr_embeddings r else []);
          score = (\<lambda>i. case Option.bind (nth_or embeddings i) (cosine_similarity query) of
            Some x \<Rightarrow> Some x | None \<Rightarrow> map_option uminus (nth_or (qr_distances r) i));
          meta = (\<lambda>i. let m = (case nth_or (qr_metadatas r) i of Some m \<Rightarrow> m | None \<Rightarrow> []) in
            case score i of None \<Rightarrow> m | Some x \<Rightarrow> with_fields m [(''chroma_score'', JFloat (rnd 6 x))])
      in if qr_documents r = [] then ([], [])
         else (map (\<lambda>(i, t). \<lparr>dc_text = t, dc_meta = meta i\<rparr>) (zip [0..<length (qr_documents r)] (qr_documents r)), embeddings))"

record rerank_options =
  ro_k :: nat
  ro_top_n :: nat
  ro_threshold :: real
  ro_mode :: json
  ro_weight :: json
  ro_pool :: json

definition above_threshold :: "real \<Rightarrow> document \<Rightarrow> bool" where
  "above_threshold threshold d \<longleftrightarrow> (case meta_float (dc_meta d) ''reranker_score'' of None \<Rightarrow> True | Some x \<Rightarrow> threshold \<le> x)"

text \<open>
  \<open>ask n b\<close> is the answer of the collection to the query for \<open>n\<close> results, with embeddings if \<open>b\<close>.
  \<open>None\<close>: the weight is an integer that is no float.
\<close>

definition query_with_rerank ::
  "(nat \<Rightarrow> real \<Rightarrow> real) \<Rightarrow> (real \<Rightarrow> string) \<Rightarrow> real list \<Rightarrow> (nat \<Rightarrow> bool \<Rightarrow> query_result)
   \<Rightarrow> (document list \<Rightarrow> nat \<Rightarrow> document list) \<Rightarrow> rerank_options \<Rightarrow> document list option" where
  "query_with_rerank rnd fr query ask rerank opts =
     (let mode = diversity_mode fr (ro_mode opts); top_n = ro_top_n opts;
          docs = (if mode = ''mmr''
            then (let (docs, embeddings) = documents_of rnd query True (ask (mmr_pool_size top_n (ro_pool opts)) True)
                  in map_option (mmr_documents rnd docs embeddings top_n) (clamp_mmr_lambda (ro_weight opts)))
            else if mode = ''source_diversity''
            then Some (diverse_documents fr top_n (max_chunks_per_source (ro_k opts))
                   (fst (documents_of rnd query False (ask (rerank_pool_size top_n) False))))
            else Some (fst (documents_of rnd query False (ask top_n False))))
      in map_option (\<lambda>docs. let reranked = rerank docs (ro_k opts) in
           if 0 < ro_threshold opts then filter (above_threshold (ro_threshold opts)) reranked else reranked) docs)"

text \<open>What the selection functions of a retrieval choose.\<close>

section \<open>Source diversity\<close>

text \<open>The documents within and beyond the share of their source, in the order of retrieval.\<close>

definition earlier :: "('a \<Rightarrow> 's) \<Rightarrow> 'a list \<Rightarrow> 's \<Rightarrow> nat" where
  "earlier source ds s = length (filter (\<lambda>e. source e = s) ds)"

definition share_of :: "('a \<Rightarrow> 's) \<Rightarrow> nat \<Rightarrow> bool \<Rightarrow> 'a list \<Rightarrow> 'a list" where
  "share_of source share b ds = map snd
     (filter (\<lambda>(i, d). (earlier source (take i ds) (source d) < share) = b) (zip [0..<length ds] ds))"

lemma share_of_snoc:
  "share_of source share b (ds @ [d]) =
     share_of source share b ds @ (if (earlier source ds (source d) < share) = b then [d] else [])"
proof -
  have "zip [0..<length (ds @ [d])] (ds @ [d]) = zip [0..<length ds] ds @ [(length ds, d)]" by simp
  moreover have "filter (\<lambda>(i, e). (earlier source (take i (ds @ [d])) (source e) < share) = b) (zip [0..<length ds] ds)
      = filter (\<lambda>(i, e). (earlier source (take i ds) (source e) < share) = b) (zip [0..<length ds] ds)"
    by (rule filter_cong) (auto simp: in_set_zip)
  ultimately show ?thesis by (simp add: share_of_def)
qed

lemma share_of_append: "\<exists>zs. share_of source share b (ds @ es) = share_of source share b ds @ zs"
proof (induction es rule: rev_induct)
  case (snoc e es)
  then show ?case using share_of_snoc [of source share b "ds @ es" e] by auto
qed simp

lemma earlier_snoc: "earlier source (ds @ [d]) s = earlier source ds s + (if source d = s then 1 else 0)"
  by (simp add: earlier_def)

lemma diverse_loop_from:
  assumes "length (share_of source share True pre) < limit"
  shows "diverse_loop source limit share (\<lambda>s. min share (earlier source pre s))
      (share_of source share True pre) (share_of source share False pre) ds
    = take limit (share_of source share True (pre @ ds) @ share_of source share False (pre @ ds))"
  using assms
proof (induction ds arbitrary: pre)
  case (Cons d ds)
  have step: "pre @ d # ds = (pre @ [d]) @ ds" by simp
  show ?case
  proof (cases "earlier source pre (source d) < share")
    case True
    then have counts: "(\<lambda>s. min share (earlier source pre s))(source d := Suc (earlier source pre (source d)))
        = (\<lambda>s. min share (earlier source (pre @ [d]) s))"
      by (auto simp: fun_eq_iff earlier_snoc)
    have within: "share_of source share True (pre @ [d]) = share_of source share True pre @ [d]"
      "share_of source share False (pre @ [d]) = share_of source share False pre"
      using True by (simp_all add: share_of_snoc)
    show ?thesis
    proof (cases "limit \<le> length (share_of source share True pre @ [d])")
      case full: True
      obtain zs where "share_of source share True (pre @ d # ds) = (share_of source share True pre @ [d]) @ zs"
        using share_of_append [of source share True "pre @ [d]" ds] by (auto simp: within)
      moreover have "limit = Suc (length (share_of source share True pre))" using full Cons.prems by simp
      ultimately show ?thesis using True full by simp
    next
      case False
      then have "diverse_loop source limit share (\<lambda>s. min share (earlier source (pre @ [d]) s))
          (share_of source share True (pre @ [d])) (share_of source share False (pre @ [d])) ds
        = take limit (share_of source share True ((pre @ [d]) @ ds) @ share_of source share False ((pre @ [d]) @ ds))"
        by (intro Cons.IH) (simp add: within)
      then show ?thesis using True False by (simp add: counts within)
    qed
  next
    case False
    then have counts: "(\<lambda>s. min share (earlier source (pre @ [d]) s)) = (\<lambda>s. min share (earlier source pre s))"
      by (auto simp: fun_eq_iff earlier_snoc)
    have beyond: "share_of source share True (pre @ [d]) = share_of source share True pre"
      "share_of source share False (pre @ [d]) = share_of source share False pre @ [d]"
      using False by (simp_all add: share_of_snoc)
    have "diverse_loop source limit share (\<lambda>s. min share (earlier source (pre @ [d]) s))
        (share_of source share True (pre @ [d])) (share_of source share False (pre @ [d])) ds
      = take limit (share_of source share True ((pre @ [d]) @ ds) @ share_of source share False ((pre @ [d]) @ ds))"
      by (intro Cons.IH) (use Cons.prems in \<open>simp add: beyond\<close>)
    then show ?thesis using False by (simp add: counts beyond)
  qed
qed simp

lemma diverse_loop_reference:
  "0 < limit \<Longrightarrow> diverse_loop source limit share (\<lambda>_. 0) [] [] ds
     = take limit (share_of source share True ds @ share_of source share False ds)"
  using diverse_loop_from [of source share "[]" limit ds] by (simp add: share_of_def earlier_def)

section \<open>Maximal marginal relevance\<close>

lemma py_max_greatest: "z \<in> insert x (set xs) \<Longrightarrow> f z \<le> f (py_max f x xs)"
proof (induction xs arbitrary: x z)
  case (Cons y ys)
  let ?b = "if f x < f y then y else x"
  have "f x \<le> f ?b" "f y \<le> f ?b" by auto
  moreover have "f ?b \<le> f (py_max f ?b ys)" by (rule Cons.IH) simp
  ultimately show ?case using Cons.prems Cons.IH [of z ?b] by (auto intro: order_trans split: if_splits)
qed simp

text \<open>A selection in which every candidate is the best one left, given those before it.\<close>

definition greedy :: "real \<Rightarrow> candidate list \<Rightarrow> candidate list \<Rightarrow> candidate list \<Rightarrow> bool" where
  "greedy weight cs selected zs \<longleftrightarrow> (\<forall>k < length zs. \<forall>c \<in> set cs. cn_index c \<notin> cn_index ` set (take k zs)
     \<longrightarrow> mmr_score weight (selected @ take k zs) c \<le> mmr_score weight (selected @ take k zs) (zs ! k))"

text \<open>Each chosen element is a candidate whose document carries its score against those chosen before.\<close>

definition scored_from :: "(nat \<Rightarrow> real \<Rightarrow> real) \<Rightarrow> real \<Rightarrow> candidate list \<Rightarrow> candidate list \<Rightarrow> candidate list \<Rightarrow> bool" where
  "scored_from rnd weight cs selected zs \<longleftrightarrow> (\<forall>k < length zs. \<exists>c \<in> set cs.
     zs ! k = c\<lparr>cn_doc := with_mmr_score rnd (mmr_score weight (selected @ take k zs) c) (cn_doc c)\<rparr>)"

lemma scored_from_member:
  assumes "scored_from rnd weight cs selected zs" and "z \<in> set zs"
  shows "\<exists>c \<in> set cs. \<exists>x. z = c\<lparr>cn_doc := with_mmr_score rnd x (cn_doc c)\<rparr>"
  using assms unfolding scored_from_def in_set_conv_nth by metis

lemma scored_from_Cons:
  "scored_from rnd weight cs selected (z # zs) \<longleftrightarrow>
     (\<exists>c \<in> set cs. z = c\<lparr>cn_doc := with_mmr_score rnd (mmr_score weight selected c) (cn_doc c)\<rparr>)
     \<and> scored_from rnd weight cs (selected @ [z]) zs"
  by (simp add: scored_from_def All_less_Suc2)

lemma scored_from_mono:
  "scored_from rnd weight ds selected zs \<Longrightarrow> set ds \<subseteq> set cs \<Longrightarrow> scored_from rnd weight cs selected zs"
  unfolding scored_from_def by blast

lemma mmr_score_doc [simp]: "mmr_score weight selected (c\<lparr>cn_doc := d\<rparr>) = mmr_score weight selected c"
  by (simp add: mmr_score_def similarity_to_def)

lemma mmr_loop_greedy:
  assumes "distinct (map cn_index cs)"
  shows "\<exists>zs. mmr_loop rnd weight limit selected cs = selected @ zs \<and> length zs = min (limit - length selected) (length cs)
    \<and> distinct (map cn_index zs) \<and> greedy weight cs selected zs \<and> scored_from rnd weight cs selected zs"
  using assms
proof (induction "length cs" arbitrary: cs selected)
  case 0
  then show ?case by (subst mmr_loop.simps) (simp add: greedy_def scored_from_def)
next
  case (Suc n)
  then obtain c ds where cs: "cs = c # ds" by (cases cs) auto
  show ?case
  proof (cases "limit \<le> length selected")
    case True
    then show ?thesis by (subst mmr_loop.simps) (simp add: cs greedy_def scored_from_def)
  next
    case False
    define best where "best = py_max (mmr_key weight selected) c ds"
    define z where "z = best\<lparr>cn_doc := with_mmr_score rnd (mmr_score weight selected best) (cn_doc best)\<rparr>"
    define rest where "rest = filter (\<lambda>d. cn_index d \<noteq> cn_index best) cs"
    have best: "best \<in> set cs" using py_max_mem [of _ c ds] by (auto simp: best_def cs)
    have "length rest < length cs" using best by (auto simp: rest_def intro!: length_filter_less)
    moreover have "length (filter (\<lambda>d. cn_index d = cn_index best) cs) \<le> 1"
    proof -
      have "distinct (map cn_index (filter (\<lambda>d. cn_index d = cn_index best) cs))"
        using Suc.prems by (simp add: distinct_map_filter)
      moreover have "set (map cn_index (filter (\<lambda>d. cn_index d = cn_index best) cs)) \<subseteq> {cn_index best}" by auto
      ultimately show ?thesis using card_mono [of "{cn_index best}"] by (metis card.empty card.insert distinct_card empty_iff
          finite.intros length_map One_nat_def)
    qed
    moreover have "length rest + length (filter (\<lambda>d. cn_index d = cn_index best) cs) = length cs"
      using sum_length_filter_compl [of "\<lambda>d. cn_index d = cn_index best" cs] by (simp add: rest_def)
    ultimately have n: "n = length rest" using Suc.hyps(2) by simp
    have "distinct (map cn_index rest)" using Suc.prems by (simp add: rest_def distinct_map_filter)
    from Suc.hyps(1) [OF n this, of "selected @ [z]"] obtain zs
      where zs: "mmr_loop rnd weight limit (selected @ [z]) rest = (selected @ [z]) @ zs"
        "length zs = min (limit - length (selected @ [z])) (length rest)" "distinct (map cn_index zs)"
        "greedy weight rest (selected @ [z]) zs" "scored_from rnd weight rest (selected @ [z]) zs" by blast
    have loop: "mmr_loop rnd weight limit selected cs = selected @ z # zs"
    proof -
      have "mmr_loop rnd weight limit selected cs = mmr_loop rnd weight limit (selected @ [z]) rest"
        using False by (subst mmr_loop.simps) (simp add: cs best_def z_def rest_def Let_def)
      then show ?thesis by (simp add: zs(1))
    qed
    have from_rest: "cn_index y \<noteq> cn_index best" if "y \<in> set zs" for y
      using scored_from_member [OF zs(5) that] by (auto simp: rest_def)
    have "cn_index best \<notin> cn_index ` set zs" using from_rest by force
    then have "distinct (map cn_index (z # zs))" using zs(3) by (simp add: z_def)
    moreover have "scored_from rnd weight cs selected (z # zs)"
      unfolding scored_from_Cons z_def [symmetric]
      using best scored_from_mono [OF zs(5), of cs] by (auto simp: z_def rest_def)
    moreover have "greedy weight cs selected (z # zs)"
      unfolding greedy_def
    proof (intro allI impI ballI)
      fix k d
      assume k: "k < length (z # zs)" and d: "d \<in> set cs" "cn_index d \<notin> cn_index ` set (take k (z # zs))"
      show "mmr_score weight (selected @ take k (z # zs)) d \<le> mmr_score weight (selected @ take k (z # zs)) ((z # zs) ! k)"
      proof (cases k)
        case 0
        have "mmr_key weight selected d \<le> mmr_key weight selected best"
          unfolding best_def by (rule py_max_greatest) (use d cs in auto)
        then show ?thesis by (auto simp: 0 z_def mmr_key_def)
      next
        case (Suc j)
        have "d \<in> set rest" using d Suc by (auto simp: rest_def z_def)
        then show ?thesis using zs(4) k d(2) Suc by (auto simp: greedy_def)
      qed
    qed
    moreover have "length (z # zs) = min (limit - length selected) (length cs)"
      using zs(2) False n Suc.hyps(2) by auto
    ultimately show ?thesis using loop by blast
  qed
qed

section \<open>The claims\<close>

text \<open>
  Claim C14: with source diversity the documents that go to the reranker are, for a limit of at least one,
  exactly the first ones of the list that has the documents within the share of their source in front
  of those beyond it, both in the order of retrieval: no document is lost or repeated, and one beyond
  its share is only taken when no other is left.
\<close>
theorem diversity_is_share_then_overflow:
  assumes "0 < limit"
  shows "diverse_documents fr limit share docs
    = take limit (share_of (document_source fr) share True docs @ share_of (document_source fr) share False docs)"
  using assms by (simp add: diverse_documents_def diverse_loop_reference)

definition demo_docs :: "document list" where
  "demo_docs = map (\<lambda>(s, t). \<lparr>dc_text = t, dc_meta = [(''source'', JStr s)]\<rparr>)
     [(''a'', ''1''), (''a'', ''2''), (''b'', ''3''), (''a'', ''4'')]"

theorem diversity_is_share_then_overflow_witness:
  "map dc_text (diverse_documents (\<lambda>_. []) 3 1 demo_docs) = [''1'', ''3'', ''2'']"
proof -
  have "map dc_text (take 3 (share_of (document_source (\<lambda>_. [])) 1 True demo_docs
      @ share_of (document_source (\<lambda>_. [])) 1 False demo_docs)) = [''1'', ''3'', ''2'']"
    by code_simp
  moreover have "diverse_documents (\<lambda>_. []) 3 1 demo_docs = take 3 (share_of (document_source (\<lambda>_. [])) 1 True demo_docs
      @ share_of (document_source (\<lambda>_. [])) 1 False demo_docs)"
    by (rule diversity_is_share_then_overflow) simp
  ultimately show ?thesis by simp
qed

text \<open>
  Claim C13: when every document has an embedding that is not zero, maximal marginal relevance returns
  as many documents as the limit and the retrieval allow, each one a different retrieved document
  that carries its score against those chosen before it (relevance and similarity weighed, rounded to
  six digits), and each choice is the best there is: no document left scores higher against those
  already chosen.
\<close>
theorem mmr_selection_is_greedy:
  assumes "length embeddings = length docs" and "\<forall>e \<in> set embeddings. cosine_similarity e e \<noteq> None"
  shows "length (mmr_documents rnd docs embeddings limit weight) = min limit (length docs)
    \<and> (\<exists>zs. mmr_documents rnd docs embeddings limit weight = map cn_doc zs \<and> distinct (map cn_index zs)
         \<and> greedy weight (candidates_of docs embeddings) [] zs \<and> scored_from rnd weight (candidates_of docs embeddings) [] zs)"
proof -
  have "map cn_index (candidates_of docs embeddings) = [0..<length docs]"
    using assms(1) by (intro nth_equalityI) (simp_all add: candidates_of_def)
  then have cs: "distinct (map cn_index (candidates_of docs embeddings))" "length (candidates_of docs embeddings) = length docs"
    using assms(1) by (simp, simp add: candidates_of_def)
  have "mmr_documents rnd docs embeddings limit weight
      = map cn_doc (mmr_loop rnd weight limit [] (candidates_of docs embeddings))"
    using assms by (auto simp: mmr_documents_def)
  then show ?thesis using mmr_loop_greedy [OF cs(1), of rnd weight limit "[]"] cs(2) by fastforce
qed

theorem mmr_selection_is_greedy_witness:
  "length (mmr_documents (\<lambda>_ x. x) demo_docs [[1], [1], [1], [-1]] 2 (7 / 10)) = 2
    \<and> (\<exists>zs. mmr_documents (\<lambda>_ x. x) demo_docs [[1], [1], [1], [-1]] 2 (7 / 10) = map cn_doc zs
         \<and> scored_from (\<lambda>_ x. x) (7 / 10) (candidates_of demo_docs [[1], [1], [1], [-1]]) [] zs)"
proof -
  have "length [[1], [1], [1], [-1 :: real]] = length demo_docs" by (simp add: demo_docs_def)
  moreover have "\<forall>e \<in> set [[1], [1], [1], [-1 :: real]]. cosine_similarity e e \<noteq> None"
    by (simp add: cosine_similarity_def norm_of_def)
  ultimately show ?thesis
    using mmr_selection_is_greedy [of "[[1], [1], [1], [-1]]" demo_docs "\<lambda>_ x. x" 2 "7 / 10"]
    by (auto simp: demo_docs_def [THEN arg_cong [where f = length]])
qed

end
