(* ===== verification/Federated.thy ===== *)
theory Federated
  imports Retrieval Upload_Transaction
begin

text \<open>
  Retrieval over several knowledge bases, \<open>_get_federated_context\<close> of \<open>app/utils/rag_engine.py\<close>: the
  results of all collections are grouped by their text, fused by reciprocal rank, ordered, diversified
  and reranked. The collections are queried by threads; \<open>retrieved\<close> is the list of their results in the
  order in which they completed. \<open>sha\<close> is the SHA-256 of a text.
\<close>

record target =
  tg_id :: string
  tg_name :: string
  tg_collection :: string

record retrieval =
  rt_target :: target
  rt_docs :: "document list"
  rt_embeddings :: "real list list"

record fed_env =
  fe_round :: "nat \<Rightarrow> real \<Rightarrow> real"
  fe_repr :: "real \<Rightarrow> string"
  fe_sha :: "string \<Rightarrow> string"

section \<open>Candidates\<close>

definition normalized_document_content :: "string \<Rightarrow> string" where
  "normalized_document_content s = py_strip (re_squeeze (\<lambda>c. \<not> py_isspace c) CHR '' '' False s)"

definition knowledge_base_origin :: "(real \<Rightarrow> string) \<Rightarrow> target \<Rightarrow> jdict \<Rightarrow> nat \<Rightarrow> real \<Rightarrow> jdict" where
  "knowledge_base_origin fr t meta rank score =
     [(''knowledge_base_id'', JStr (tg_id t)), (''knowledge_base_name'', JStr (tg_name t)),
      (''source'', JStr (text_or fr [] (jget meta ''source''))), (''local_rank'', JInt (int rank)), (''rrf_score'', JFloat score)]
     @ map (\<lambda>k. (k, jget meta k)) (filter (\<lambda>k. jget meta k \<noteq> JNull) [''chunk_id'', ''page'', ''page_number'', ''document_id''])"

definition federated_candidate :: "fed_env \<Rightarrow> bool \<Rightarrow> retrieval \<Rightarrow> nat \<Rightarrow> document \<Rightarrow> document" where
  "federated_candidate env include_embeddings r rank d =
     (let score = fe_round env 9 (1 / (60 + real rank));
          origin = knowledge_base_origin (fe_repr env) (rt_target r) (dc_meta d) rank score;
          meta = with_fields (dc_meta d) [(''knowledge_base_id'', JStr (tg_id (rt_target r))),
            (''knowledge_base_name'', JStr (tg_name (rt_target r))), (''knowledge_base_origins'', JArr [JObj origin]),
            (''local_rank'', JInt (int rank)), (''rrf_score'', JFloat score)]
      in \<lparr>dc_text = dc_text d, dc_meta =
           (if include_embeddings \<and> rank \<le> length (rt_embeddings r)
            then with_fields meta [(''_rag_embedding'', JArr (map JFloat (rt_embeddings r ! (rank - 1))))] else meta)\<rparr>)"

definition candidates_from :: "fed_env \<Rightarrow> bool \<Rightarrow> retrieval \<Rightarrow> document list" where
  "candidates_from env b r = map (\<lambda>(i, d). federated_candidate env b r (Suc i) d) (zip [0..<length (rt_docs r)] (rt_docs r))"

definition content_key :: "fed_env \<Rightarrow> document \<Rightarrow> string" where
  "content_key env d = fe_sha env (normalized_document_content (dc_text d))"

definition group_by :: "('a \<Rightarrow> string) \<Rightarrow> 'a list \<Rightarrow> (string, 'a list) odict" where
  "group_by key xs = fold (\<lambda>x g. od_set (key x) ((case od_get g (key x) of None \<Rightarrow> [] | Some ys \<Rightarrow> ys) @ [x]) g) xs []"

definition score_or_zero :: "jdict \<Rightarrow> string \<Rightarrow> real" where
  "score_or_zero meta k = (case meta_float meta k of None \<Rightarrow> 0 | Some x \<Rightarrow> x)"

definition federated_candidate_sort_key ::
  "(real \<Rightarrow> string) \<Rightarrow> document \<Rightarrow> real \<times> real \<times> string \<times> string \<times> string" where
  "federated_candidate_sort_key fr d =
     (let m = dc_meta d in
      (- score_or_zero m ''rrf_score'', - (case meta_float m ''chroma_score'' of None \<Rightarrow> - (10 ^ 9) | Some x \<Rightarrow> x),
       text_or fr [] (jget m ''knowledge_base_id''), text_or fr [] (jget m ''source''), text_or fr [] (jget m ''chunk_id'')))"

text \<open>Python's \<open>min\<close> keeps the first of several minimal elements.\<close>

fun py_min :: "('a \<Rightarrow> 'k::linorder) \<Rightarrow> 'a \<Rightarrow> 'a list \<Rightarrow> 'a" where
  "py_min f x [] = x"
| "py_min f x (y # ys) = py_min f (if f y < f x then y else x) ys"

section \<open>Fusion\<close>

text \<open>The best score of a group in each knowledge base.\<close>

definition best_by_base :: "(real \<Rightarrow> string) \<Rightarrow> document list \<Rightarrow> (string, real) odict" where
  "best_by_base fr ds = fold (\<lambda>d m. let k = text_or fr [] (jget (dc_meta d) ''knowledge_base_id'') in
     od_set k (max (case od_get m k of None \<Rightarrow> 0 | Some x \<Rightarrow> x) (score_or_zero (dc_meta d) ''rrf_score'')) m) ds []"

definition origins_of :: "document \<Rightarrow> jdict list" where
  "origins_of d = (case jget (dc_meta d) ''knowledge_base_origins'' of JArr xs \<Rightarrow> map dict_or_empty xs | _ \<Rightarrow> [])"

definition origin_key :: "(real \<Rightarrow> string) \<Rightarrow> jdict \<Rightarrow> string \<times> string \<times> string" where
  "origin_key fr g = (text_or fr [] (jget g ''knowledge_base_id''), text_or fr [] (jget g ''source''), text_or fr [] (jget g ''chunk_id''))"

definition merged_origins :: "(real \<Rightarrow> string) \<Rightarrow> document list \<Rightarrow> jdict list" where
  "merged_origins fr ds =
     map snd (sort_key fst (fold (\<lambda>g m. od_set (origin_key fr g) g m) (concat (map origins_of ds)) []))"

definition merge_duplicates :: "fed_env \<Rightarrow> document list \<Rightarrow> document" where
  "merge_duplicates env ds =
     (let primary = py_min (federated_candidate_sort_key (fe_repr env)) (hd ds) (tl ds) in
      primary\<lparr>dc_meta := with_fields (dc_meta primary)
        [(''rrf_score'', JFloat (fe_round env 9 (sum_list (map snd (best_by_base (fe_repr env) ds))))),
         (''knowledge_base_origins'', JArr (map JObj (merged_origins (fe_repr env) ds)))]\<rparr>)"

definition fused :: "fed_env \<Rightarrow> bool \<Rightarrow> retrieval list \<Rightarrow> document list" where
  "fused env include_embeddings retrieved =
     sort_key (federated_candidate_sort_key (fe_repr env))
       (map (\<lambda>(_, ds). merge_duplicates env ds)
         (group_by (content_key env) (concat (map (candidates_from env include_embeddings) retrieved))))"

section \<open>Diversity\<close>

definition base_and_source :: "(real \<Rightarrow> string) \<Rightarrow> document \<Rightarrow> string \<times> string" where
  "base_and_source fr d = (text_or fr [] (jget (dc_meta d) ''knowledge_base_id''),
     py_str fr (j_or (jget (dc_meta d) ''source'') (j_or (jget (dc_meta d) ''document_id'') (JStr []))))"

fun federated_diversity :: "('a \<Rightarrow> 's) \<Rightarrow> nat \<Rightarrow> nat \<Rightarrow> ('s \<Rightarrow> nat) \<Rightarrow> 'a list \<Rightarrow> 'a list \<Rightarrow> 'a list \<Rightarrow> 'a list" where
  "federated_diversity source limit share counts selected overflow [] = take limit (selected @ overflow)"
| "federated_diversity source limit share counts selected overflow (d # ds) =
     (let fits = counts (source d) < share;
          selected = (if fits then selected @ [d] else selected);
          overflow = (if fits then overflow else overflow @ [d]);
          counts = (if fits then counts(source d := Suc (counts (source d))) else counts)
      in if limit \<le> length selected then selected
         else federated_diversity source limit share counts selected overflow ds)"

definition federated_source_diversity :: "(real \<Rightarrow> string) \<Rightarrow> nat \<Rightarrow> nat \<Rightarrow> document list \<Rightarrow> document list" where
  "federated_source_diversity fr limit max_per_source docs =
     federated_diversity (base_and_source fr) limit max_per_source (\<lambda>_. 0) [] [] docs"

definition embedding_in :: "jdict \<Rightarrow> real list option" where
  "embedding_in m = (case jget m ''_rag_embedding'' of
       JArr xs \<Rightarrow> Some (map (\<lambda>x. case x of JFloat r \<Rightarrow> r | _ \<Rightarrow> 0) xs) | _ \<Rightarrow> None)"

definition document_similarity :: "document \<Rightarrow> document \<Rightarrow> real" where
  "document_similarity a b = (case (embedding_in (dc_meta a), embedding_in (dc_meta b)) of
       (Some x, Some y) \<Rightarrow> (case cosine_similarity x y of None \<Rightarrow> 0 | Some s \<Rightarrow> s)
     | _ \<Rightarrow> 0)"

definition redundancy :: "document list \<Rightarrow> document \<Rightarrow> real" where
  "redundancy selected d = (case map (document_similarity d) selected of [] \<Rightarrow> 0 | x # xs \<Rightarrow> py_max (\<lambda>x. x) x xs)"

definition federated_score :: "real \<Rightarrow> document list \<Rightarrow> document \<Rightarrow> real" where
  "federated_score weight selected d = weight * score_or_zero (dc_meta d) ''chroma_score'' - (1 - weight) * redundancy selected d"

definition drop_nth :: "nat \<Rightarrow> 'a list \<Rightarrow> 'a list" where
  "drop_nth i xs = take i xs @ drop (Suc i) xs"

lemma length_drop_nth: "i < length xs \<Longrightarrow> length (drop_nth i xs) = length xs - 1"
  by (simp add: drop_nth_def)

function federated_mmr_loop :: "(nat \<Rightarrow> real \<Rightarrow> real) \<Rightarrow> real \<Rightarrow> nat \<Rightarrow> document list \<Rightarrow> document list \<Rightarrow> document list" where
  "federated_mmr_loop rnd weight limit selected candidates =
     (if candidates = [] \<or> limit \<le> length selected then selected
      else let score = (\<lambda>i. federated_score weight selected (candidates ! i));
               best = py_max (\<lambda>i. (score i, - int i)) 0 [1..<length candidates]
           in federated_mmr_loop rnd weight limit (selected @ [with_mmr_score rnd (score best) (candidates ! best)])
                (drop_nth best candidates))"
  by pat_completeness auto
termination
proof (relation "measure (\<lambda>(_, _, _, _, cs). length cs)", goal_cases)
  case (2 rnd weight limit selected candidates score best)
  have "best \<in> insert 0 (set [1..<length candidates])" unfolding 2 by (rule py_max_mem)
  then have "best < length candidates" using 2(1) by (cases candidates) auto
  then show ?case by (simp add: length_drop_nth)
qed simp

declare federated_mmr_loop.simps [simp del]

definition federated_mmr :: "(nat \<Rightarrow> real \<Rightarrow> real) \<Rightarrow> document list \<Rightarrow> nat \<Rightarrow> real \<Rightarrow> document list" where
  "federated_mmr rnd docs limit weight = federated_mmr_loop rnd weight limit [] docs"

section \<open>The context\<close>

text \<open>The settings of a retrieval, as \<open>rag\<close> has them.\<close>

record fed_settings =
  fs_reranker :: bool
  fs_mode :: string
  fs_top_n :: nat
  fs_pool :: json
  fs_weight :: real
  fs_threshold :: real

definition pool_or_zero :: "json \<Rightarrow> nat" where
  "pool_or_zero v = (if v = JNull then 0 else case py_int v of None \<Rightarrow> 0 | Some i \<Rightarrow> nat i)"

definition federated_top_n :: "fed_settings \<Rightarrow> nat \<Rightarrow> nat" where
  "federated_top_n s k = max k (fs_top_n s)"

definition global_budget :: "fed_settings \<Rightarrow> nat \<Rightarrow> nat" where
  "global_budget s k = min 200
     (if fs_reranker s then max k (max (federated_top_n s k) (if fs_mode s = ''mmr'' then pool_or_zero (fs_pool s) else 0))
      else max k (k * 2))"

definition per_collection :: "fed_settings \<Rightarrow> nat \<Rightarrow> nat \<Rightarrow> nat" where
  "per_collection s k targets = min 50 (max k ((global_budget s k + targets - 1) div targets))"

definition without_embedding :: "document \<Rightarrow> document" where
  "without_embedding d = d\<lparr>dc_meta := filter (\<lambda>(k, v). k \<noteq> ''_rag_embedding'') (dc_meta d)\<rparr>"

definition federated_context ::
  "fed_env \<Rightarrow> (document list \<Rightarrow> nat \<Rightarrow> document list) \<Rightarrow> fed_settings \<Rightarrow> nat \<Rightarrow> retrieval list \<Rightarrow> document list" where
  "federated_context env rerank s k retrieved =
     (let top_n = federated_top_n s k; candidates = take (global_budget s k) (fused env (fs_mode s = ''mmr'') retrieved);
          chosen = (if fs_reranker s then
             (let diverse = (if fs_mode s = ''mmr'' then federated_mmr (fe_round env) candidates top_n (max 0 (min 1 (fs_weight s)))
                  else if fs_mode s = ''source_diversity''
                    then federated_source_diversity (fe_repr env) top_n (max_chunks_per_source k) candidates
                  else take top_n candidates);
                  reranked = rerank diverse k
              in if 0 < fs_threshold s then filter (above_threshold (fs_threshold s)) reranked else reranked)
           else take k candidates)
      in map without_embedding chosen)"

text \<open>\<open>ask\<close> gives the results of the collections for a number of results each, in order of completion.\<close>

definition get_federated_context ::
  "fed_env \<Rightarrow> (document list \<Rightarrow> nat \<Rightarrow> document list) \<Rightarrow> fed_settings \<Rightarrow> (nat \<Rightarrow> target list \<Rightarrow> retrieval list) \<Rightarrow> nat
   \<Rightarrow> target list \<Rightarrow> document list" where
  "get_federated_context env rerank s ask k targets =
     (if targets = [] then [] else federated_context env rerank s k (ask (per_collection s k (length targets)) targets))"

definition merge_context_docs :: "(real \<Rightarrow> string) \<Rightarrow> document list \<Rightarrow> document list \<Rightarrow> document list" where
  "merge_context_docs fr docs extra =
     (let key = (\<lambda>d. (text_or fr [] (jget (dc_meta d) ''source''), text_or fr [] (jget (dc_meta d) ''chunk_id''), take 120 (dc_text d)))
      in fold (\<lambda>d merged. if key d \<in> key ` set merged then merged else merged @ [d]) extra docs)"

end
