(* ===== verification/Federated_Claims.thy ===== *)
theory Federated_Claims
  imports Federated Retrieval Index_Frame "HOL-Library.Multiset"
begin

text \<open>The context of a query over several knowledge bases does not depend on the order in which the threads end.\<close>

section \<open>Folds over permuted lists\<close>

text \<open>A dictionary built by a loop that updates the entry of each element's key.\<close>

definition accumulate :: "('a \<Rightarrow> 'k) \<Rightarrow> ('a \<Rightarrow> 'v option \<Rightarrow> 'v) \<Rightarrow> 'a list \<Rightarrow> ('k, 'v) odict" where
  "accumulate key g xs = fold (\<lambda>x m. od_set (key x) (g x (od_get m (key x))) m) xs []"

lemma od_get_accumulate: "od_get (accumulate key g xs) k = fold (\<lambda>x a. Some (g x a)) (filter (\<lambda>x. key x = k) xs) None"
  unfolding accumulate_def by (induction xs rule: rev_induct) auto

lemma od_wf_accumulate: "od_wf (accumulate key g xs)"
  unfolding accumulate_def by (induction xs rule: rev_induct) auto

lemma fold_Some: "fold (\<lambda>x a. Some (g x a)) ys None = None \<longleftrightarrow> ys = []"
  by (cases ys rule: rev_cases) auto

lemma keys_accumulate: "fst ` set (accumulate key g xs) = key ` set xs"
proof -
  have "k \<in> fst ` set (accumulate key g xs) \<longleftrightarrow> k \<in> key ` set xs" for k
  proof -
    have "k \<in> fst ` set (accumulate key g xs) \<longleftrightarrow> od_get (accumulate key g xs) k \<noteq> None" by (simp add: map_of_eq_None_iff)
    also have "\<dots> \<longleftrightarrow> filter (\<lambda>x. key x = k) xs \<noteq> []" by (simp only: od_get_accumulate fold_Some)
    finally show ?thesis by (auto simp: filter_empty_conv)
  qed
  then show ?thesis by blast
qed

lemma group_as: "group_by key xs = accumulate key (\<lambda>x a. (case a of None \<Rightarrow> [] | Some ys \<Rightarrow> ys) @ [x]) xs"
  by (simp add: group_by_def accumulate_def)

lemma group_value: "fold (\<lambda>x a. Some ((case a of None \<Rightarrow> [] | Some ys \<Rightarrow> ys) @ [x])) ys None = (if ys = [] then None else Some ys)"
  by (induction ys rule: rev_induct) auto

lemma group_mem: "(k, ds) \<in> set (group_by key xs) \<longleftrightarrow> k \<in> key ` set xs \<and> ds = filter (\<lambda>x. key x = k) xs"
proof -
  have "(k, ds) \<in> set (group_by key xs) \<longleftrightarrow> od_get (group_by key xs) k = Some ds"
    by (simp add: group_as od_wf_accumulate)
  also have "\<dots> \<longleftrightarrow> filter (\<lambda>x. key x = k) xs \<noteq> [] \<and> ds = filter (\<lambda>x. key x = k) xs"
    by (auto simp: group_as od_get_accumulate group_value)
  finally show ?thesis by (auto simp: filter_empty_conv)
qed

text \<open>The values of a dictionary as a function of its keys.\<close>

lemma mset_by_keys:
  assumes "od_wf g" and "od_wf h" and "fst ` set g = fst ` set h" and "\<And>k v w. (k, v) \<in> set g \<Longrightarrow> (k, w) \<in> set h \<Longrightarrow> f k v = f k w"
  shows "mset (map (\<lambda>(k, v). f k v) g) = mset (map (\<lambda>(k, v). f k v) h)"
proof -
  let ?val = "\<lambda>d k. f k (the (od_get d k))"
  have eq: "map (\<lambda>(k, v). f k v) d = map (?val d) (map fst d)" if "od_wf d" for d
    using that by (auto simp: od_get_iff_mem [THEN iffD2])
  have keys: "mset (map fst g) = mset (map fst h)"
    using assms(1-3) by (intro set_eq_iff_mset_eq_distinct [THEN iffD1]) simp_all
  have "?val g k = ?val h k" if "k \<in> set_mset (mset (map fst h))" for k
  proof -
    from that have "k \<in> fst ` set h" "k \<in> fst ` set g" using assms(3) by auto
    then obtain v w where "(k, v) \<in> set g" "(k, w) \<in> set h" by auto
    then show ?thesis using assms by (simp add: od_get_iff_mem [THEN iffD2])
  qed
  then have "image_mset (?val g) (mset (map fst h)) = image_mset (?val h) (mset (map fst h))"
    by (rule image_mset_cong)
  moreover have "mset (map (\<lambda>(k, v). f k v) g) = image_mset (?val g) (mset (map fst h))"
    unfolding eq [OF assms(1)] keys [symmetric] by (rule mset_map)
  moreover have "mset (map (\<lambda>(k, v). f k v) h) = image_mset (?val h) (mset (map fst h))"
    unfolding eq [OF assms(2)] by (rule mset_map)
  ultimately show ?thesis by (simp only:)
qed

lemma py_min_least: "z \<in> insert x (set xs) \<Longrightarrow> f (py_min f x xs) \<le> f z"
proof (induction xs arbitrary: x z)
  case (Cons y ys)
  let ?b = "if f y < f x then y else x"
  have "f ?b \<le> f x" "f ?b \<le> f y" by auto
  moreover have "f (py_min f ?b ys) \<le> f ?b" by (rule Cons.IH) simp
  ultimately show ?case using Cons.prems Cons.IH [of z ?b] by (auto intro: order_trans split: if_splits)
qed simp

lemma py_min_mem: "py_min f x xs \<in> insert x (set xs)"
  by (induction xs arbitrary: x) auto

lemma py_min_unique:
  assumes "mset (x # xs) = mset (y # ys)" and "inj_on f (set (x # xs))"
  shows "py_min f x xs = py_min f y ys"
proof -
  have same: "set (x # xs) = set (y # ys)" using assms(1) by (metis set_mset_mset)
  have mem: "py_min f x xs \<in> set (x # xs)" "py_min f y ys \<in> set (x # xs)"
    using py_min_mem [of f x xs] py_min_mem [of f y ys] same by auto
  have "f (py_min f x xs) \<le> f (py_min f y ys)" "f (py_min f y ys) \<le> f (py_min f x xs)"
    using py_min_least [of "py_min f y ys" x xs f] py_min_least [of "py_min f x xs" y ys f] mem same by auto
  then show ?thesis using assms(2) mem by (metis inj_on_eq_iff order_antisym)
qed

section \<open>The best score per knowledge base\<close>

definition rrf_of :: "document \<Rightarrow> real" where
  "rrf_of d = score_or_zero (dc_meta d) ''rrf_score''"

definition base_of :: "(real \<Rightarrow> string) \<Rightarrow> document \<Rightarrow> string" where
  "base_of fr d = text_or fr [] (jget (dc_meta d) ''knowledge_base_id'')"

lemma best_as: "best_by_base fr ds = accumulate (base_of fr) (\<lambda>d a. max (case a of None \<Rightarrow> 0 | Some x \<Rightarrow> x) (rrf_of d)) ds"
  by (simp add: best_by_base_def accumulate_def base_of_def rrf_of_def Let_def)

lemma best_value:
  "fold (\<lambda>d a. Some (max (case a of None \<Rightarrow> 0 | Some x \<Rightarrow> x) (rrf_of d))) ds None
     = (if ds = [] then None else Some (Max (insert 0 (rrf_of ` set ds))))"
proof (induction ds rule: rev_induct)
  case (snoc d ds)
  have "max (Max (insert 0 (rrf_of ` set ds))) (rrf_of d) = Max (insert 0 (rrf_of ` set (ds @ [d])))"
    if "finite (insert 0 (rrf_of ` set ds))"
    using Max_insert [OF that, of "rrf_of d"] by (simp add: insert_commute max.commute del: Max_insert)
  with snoc show ?case by (cases "ds = []") simp_all
qed simp

lemma best_by_base_perm:
  assumes "mset ds = mset es"
  shows "sum_list (map snd (best_by_base fr ds)) = sum_list (map snd (best_by_base fr es))"
proof -
  have same: "set ds = set es" using assms by (metis set_mset_mset)
  have "mset (map (\<lambda>(k, v). v) (best_by_base fr ds)) = mset (map (\<lambda>(k, v). v) (best_by_base fr es))"
  proof (rule mset_by_keys)
    fix k v w
    assume "(k, v) \<in> set (best_by_base fr ds)" and "(k, w) \<in> set (best_by_base fr es)"
    then have "od_get (best_by_base fr ds) k = Some v" "od_get (best_by_base fr es) k = Some w"
      by (simp_all add: best_as od_wf_accumulate)
    moreover have "set (filter (\<lambda>d. base_of fr d = k) ds) = set (filter (\<lambda>d. base_of fr d = k) es)" using same by auto
    ultimately show "v = w" by (simp add: best_as od_get_accumulate best_value split: if_splits)
  qed (simp_all add: best_as od_wf_accumulate keys_accumulate same)
  then have "sum_mset (mset (map snd (best_by_base fr ds))) = sum_mset (mset (map snd (best_by_base fr es)))"
    by (simp add: case_prod_unfold)
  then show ?thesis by (simp only: sum_mset_sum_list)
qed

section \<open>Fusion\<close>

definition identity :: "(real \<Rightarrow> string) \<Rightarrow> document \<Rightarrow> string \<times> string \<times> string" where
  "identity fr d = (base_of fr d, text_or fr [] (jget (dc_meta d) ''source''), text_or fr [] (jget (dc_meta d) ''chunk_id''))"

definition one_origin :: "(real \<Rightarrow> string) \<Rightarrow> document \<Rightarrow> bool" where
  "one_origin fr d \<longleftrightarrow> map (origin_key fr) (origins_of d) = [identity fr d]"

lemma text_or_text: "text_or fr [] (JStr (text_or fr [] v)) = text_or fr [] v"
  by (cases "text_or fr [] v") (simp_all add: text_or_def j_or_def)

lemma candidate_origin: "one_origin fr d"
  if "d = federated_candidate env b r i c" and "fr = fe_repr env"
proof -
  have jg: "jget (od_set k v m) j = (if j = k then v else jget m j)" for k v m j
    by (simp add: jget_def)
  have chunk: "jget (knowledge_base_origin f t m n x) ''chunk_id'' = jget m ''chunk_id''" for f t m n x
    by (simp add: knowledge_base_origin_def jget_def)
  have others: "jget (knowledge_base_origin f t m n x) ''knowledge_base_id'' = JStr (tg_id t)"
    "jget (knowledge_base_origin f t m n x) ''source'' = JStr (text_or f [] (jget m ''source''))" for f t m n x
    by (simp_all add: knowledge_base_origin_def jget_def)
  show ?thesis
    unfolding one_origin_def identity_def origins_of_def base_of_def origin_key_def
    by (simp add: that federated_candidate_def Let_def with_fields_def jg dict_or_empty_def
        text_or_text chunk others)
qed

lemma fold_fresh: "distinct (map key gs) \<Longrightarrow> fold (\<lambda>g m. od_set (key g) g m) gs [] = map (\<lambda>g. (key g, g)) gs"
proof (induction gs rule: rev_induct)
  case (snoc g gs)
  then have "od_get (map (\<lambda>g. (key g, g)) gs) (key g) = None" by (auto simp: map_of_eq_None_iff)
  then show ?case using snoc by (simp add: od_set_fresh)
qed simp

lemma sorted_perm:
  assumes "mset xs = mset ys" and "inj_on f (set xs)"
  shows "sort_key f xs = sort_key f ys"
proof (rule sort_key_inj_key_eq)
  show "mset xs = mset (sort_key f ys)" using assms(1) by simp
qed (simp_all add: assms(2))

lemma distinct_inj: "distinct (map f xs) \<Longrightarrow> inj_on f (set xs)"
  by (simp add: distinct_map)

lemma mset_concat_map: "mset xs = mset ys \<Longrightarrow> mset (concat (map f xs)) = mset (concat (map f ys))"
proof -
  assume "mset xs = mset ys"
  then have "sum_mset (mset (map (\<lambda>x. mset (f x)) xs)) = sum_mset (mset (map (\<lambda>x. mset (f x)) ys))" by simp
  then show ?thesis by (simp only: sum_mset_sum_list mset_concat map_map comp_def)
qed

lemma distinct_perm: "mset xs = mset ys \<Longrightarrow> distinct (map f xs) \<longleftrightarrow> distinct (map f ys)"
  by (rule mset_eq_imp_distinct_iff) simp

lemma merged_origins_perm:
  assumes perm: "mset ds = mset es" and ids: "distinct (map (identity fr) ds)" and one: "\<forall>d \<in> set ds. one_origin fr d"
  shows "merged_origins fr ds = merged_origins fr es"
proof -
  have keys: "map (origin_key fr) (concat (map origins_of xs)) = map (identity fr) xs" if "\<forall>d \<in> set xs. one_origin fr d" for xs
    using that by (induction xs) (simp_all add: one_origin_def)
  have one': "\<forall>d \<in> set es. one_origin fr d" using one perm by (metis set_mset_mset)
  let ?pairs = "\<lambda>xs. map (\<lambda>g. (origin_key fr g, g)) (concat (map origins_of xs))"
  have ds: "distinct (map (origin_key fr) (concat (map origins_of ds)))" using ids by (simp only: keys [OF one])
  have es: "distinct (map (origin_key fr) (concat (map origins_of es)))"
    using ids perm by (simp only: keys [OF one'] distinct_perm [OF perm])
  have "sort_key fst (?pairs ds) = sort_key fst (?pairs es)"
  proof (rule sorted_perm)
    show "mset (?pairs ds) = mset (?pairs es)" using mset_concat_map [OF perm, of origins_of] by (simp add: mset_map)
    show "inj_on fst (set (?pairs ds))" using ds by (auto simp: distinct_map inj_on_def)
  qed
  then show ?thesis by (simp add: merged_origins_def fold_fresh [OF ds] fold_fresh [OF es])
qed

lemma sort_key_identity: "federated_candidate_sort_key fr d = federated_candidate_sort_key fr e \<Longrightarrow> identity fr d = identity fr e"
  by (simp add: federated_candidate_sort_key_def identity_def base_of_def Let_def)

lemma merge_perm:
  assumes perm: "mset ds = mset es" and ids: "distinct (map (identity (fe_repr env)) ds)"
    and one: "\<forall>d \<in> set ds. one_origin (fe_repr env) d" and ne: "ds \<noteq> []"
  shows "merge_duplicates env ds = merge_duplicates env es"
proof -
  let ?f = "federated_candidate_sort_key (fe_repr env)"
  have "es \<noteq> []" using perm ne by auto
  then have ds: "ds = hd ds # tl ds" "es = hd es # tl es" using ne by simp_all
  have "inj_on ?f (set ds)"
    using distinct_inj [OF ids] by (auto simp: inj_on_def dest: sort_key_identity)
  then have "py_min ?f (hd ds) (tl ds) = py_min ?f (hd es) (tl es)"
    using perm ds by (intro py_min_unique) simp_all
  then show ?thesis
    by (simp add: merge_duplicates_def Let_def best_by_base_perm [OF perm] merged_origins_perm [OF perm ids one])
qed

lemma merged_identity:
  assumes "ds \<noteq> []"
  shows "\<exists>d \<in> set ds. identity fr (merge_duplicates env ds) = identity fr d \<and> dc_text (merge_duplicates env ds) = dc_text d"
proof -
  let ?p = "py_min (federated_candidate_sort_key (fe_repr env)) (hd ds) (tl ds)"
  have "?p \<in> set ds" using py_min_mem [of _ "hd ds" "tl ds"] assms by (cases ds) auto
  moreover have "identity fr (merge_duplicates env ds) = identity fr ?p"
    by (simp add: merge_duplicates_def Let_def identity_def base_of_def with_fields_def jget_def)
  ultimately show ?thesis by (auto simp: merge_duplicates_def Let_def)
qed

text \<open>The documents found, with the base, source and chunk of each.\<close>

definition all_candidates :: "fed_env \<Rightarrow> bool \<Rightarrow> retrieval list \<Rightarrow> document list" where
  "all_candidates env b rs = concat (map (candidates_from env b) rs)"

lemma all_one_origin: "d \<in> set (all_candidates env b rs) \<Longrightarrow> one_origin (fe_repr env) d"
  by (auto simp: all_candidates_def candidates_from_def intro: candidate_origin)

lemma fused_perm:
  assumes perm: "mset rs = mset rs'" and ids: "distinct (map (identity (fe_repr env)) (all_candidates env b rs))"
  shows "fused env b rs = fused env b rs'"
proof -
  let ?cs = "all_candidates env b rs" and ?cs' = "all_candidates env b rs'" and ?key = "content_key env"
  let ?merged = "\<lambda>xs. map (\<lambda>(_, ds). merge_duplicates env ds) (group_by ?key xs)"
  have cs: "mset ?cs = mset ?cs'" unfolding all_candidates_def by (rule mset_concat_map [OF perm])
  have same: "set ?cs = set ?cs'" using cs by (metis set_mset_mset)
  have "mset (?merged ?cs) = mset (?merged ?cs')"
  proof (rule mset_by_keys)
    fix k v w
    assume "(k, v) \<in> set (group_by ?key ?cs)" and "(k, w) \<in> set (group_by ?key ?cs')"
    then have v: "v = filter (\<lambda>x. ?key x = k) ?cs" "w = filter (\<lambda>x. ?key x = k) ?cs'" "v \<noteq> []"
      by (auto simp: group_mem filter_empty_conv)
    show "merge_duplicates env v = merge_duplicates env w"
    proof (rule merge_perm)
      show "mset v = mset w" using cs by (simp add: v mset_filter)
      show "distinct (map (identity (fe_repr env)) v)" using ids by (simp add: v distinct_map_filter)
    qed (use v all_one_origin in auto)
  qed (simp_all add: group_as od_wf_accumulate keys_accumulate same)
  moreover have "inj_on (federated_candidate_sort_key (fe_repr env)) (set (?merged ?cs))"
  proof (rule inj_onI)
    fix x y
    assume "x \<in> set (?merged ?cs)" "y \<in> set (?merged ?cs)"
      and key: "federated_candidate_sort_key (fe_repr env) x = federated_candidate_sort_key (fe_repr env) y"
    then obtain k v l w where x: "(k, v) \<in> set (group_by ?key ?cs)" "x = merge_duplicates env v"
      and y: "(l, w) \<in> set (group_by ?key ?cs)" "y = merge_duplicates env w" by auto
    have v: "v = filter (\<lambda>x. ?key x = k) ?cs" "v \<noteq> []" and w: "w = filter (\<lambda>x. ?key x = l) ?cs" "w \<noteq> []"
      using x(1) y(1) by (auto simp: group_mem filter_empty_conv)
    obtain p q where p: "p \<in> set v" "identity (fe_repr env) x = identity (fe_repr env) p"
      and q: "q \<in> set w" "identity (fe_repr env) y = identity (fe_repr env) q"
      using merged_identity [OF v(2), of "fe_repr env" env] merged_identity [OF w(2), of "fe_repr env" env] x(2) y(2) by auto
    have "p = q"
      using sort_key_identity [OF key] p q v w distinct_inj [OF ids] by (auto simp: inj_on_def)
    then show "x = y" using p(1) q(1) v w x(2) y(2) by auto
  qed
  ultimately show ?thesis
    unfolding fused_def all_candidates_def [symmetric] by (rule sorted_perm)
qed

section \<open>What is left of the candidates\<close>

text \<open>A step of the pipeline chooses among documents by their texts; it may change their metadata.\<close>

definition texts_within :: "document list \<Rightarrow> document list \<Rightarrow> bool" where
  "texts_within xs ys \<longleftrightarrow> mset (map dc_text xs) \<subseteq># mset (map dc_text ys)"

locale reranking =
  fixes rerank :: "document list \<Rightarrow> nat \<Rightarrow> document list"
  assumes at_most: "length (rerank docs n) \<le> n"
    and chosen: "texts_within (rerank docs n) docs"
begin

lemma threshold_at_most: "length (filter P (rerank docs n)) \<le> n"
  using at_most [of docs n] length_filter_le [of P "rerank docs n"] by linarith

lemma threshold_chosen: "texts_within (filter P (rerank docs n)) docs"
proof -
  have "mset (map dc_text (filter P (rerank docs n))) \<subseteq># mset (map dc_text (rerank docs n))"
    by (simp add: image_mset_subseteq_mono multiset_filter_subset mset_filter)
  then show ?thesis using chosen [of docs n] unfolding texts_within_def by (rule subset_mset.order_trans)
qed

end

lemma texts_take: "texts_within (take n xs) xs"
proof -
  have "mset xs = mset (take n xs) + mset (drop n xs)" by (metis append_take_drop_id mset_append)
  then have "mset (map dc_text xs) = mset (map dc_text (take n xs)) + mset (map dc_text (drop n xs))" by simp
  then show ?thesis unfolding texts_within_def by (metis mset_subset_eq_add_left)
qed

lemma texts_refl: "texts_within xs xs"
  by (simp add: texts_within_def)

lemma texts_trans: "texts_within xs ys \<Longrightarrow> texts_within ys zs \<Longrightarrow> texts_within xs zs"
  unfolding texts_within_def by (rule subset_mset.order_trans)

lemma texts_best_scored: "texts_within (best_scored docs scores n) docs"
proof -
  let ?n = "min (length docs) (length scores)"
  have scored: "map dc_text (map (\<lambda>(d, x). with_reranker_score d x) zs) = map dc_text (map fst zs)" for zs
    by (simp add: with_reranker_score_def case_prod_beta comp_def)
  have "mset (map dc_text (map (\<lambda>(d, x). with_reranker_score d x) (sort_key (\<lambda>(d, x). - x) (zip docs scores))))
      = mset (map dc_text (map fst (zip docs scores)))"
    unfolding scored by (simp add: mset_map)
  also have "map fst (zip docs scores) = take ?n docs" by (rule map_fst_zip_take)
  finally have "texts_within (map (\<lambda>(d, x). with_reranker_score d x) (sort_key (\<lambda>(d, x). - x) (zip docs scores))) docs"
    using texts_take [of ?n docs] by (simp only: texts_within_def)
  then show ?thesis unfolding best_scored_def by (rule texts_trans [OF texts_take])
qed

lemma length_best_scored: "length (best_scored docs scores n) \<le> n"
  by (simp add: best_scored_def)

interpretation dummy: reranking dummy_rerank
  by unfold_locales (simp_all add: dummy_rerank_def texts_take)

interpretation local: reranking "local_rerank predict" for predict
  by unfold_locales (auto simp: local_rerank_def length_best_scored texts_best_scored texts_within_def [of "[]"])

interpretation remote: reranking "remote_rerank scores" for scores
  by unfold_locales (auto simp: remote_rerank_def length_best_scored texts_best_scored texts_refl texts_take
      texts_within_def [of "[]"] split: option.split)

text \<open>The two diversity functions of the federated retrieval choose among their documents.\<close>

lemma diversity_within:
  "mset (federated_diversity source limit share counts selected overflow ds) \<subseteq># mset (selected @ overflow @ ds)"
proof (induction ds arbitrary: counts selected overflow)
  case Nil
  have "mset (selected @ overflow) = mset (take limit (selected @ overflow)) + mset (drop limit (selected @ overflow))"
    by (metis append_take_drop_id mset_append)
  then show ?case by (simp only: federated_diversity.simps append_Nil2) (metis mset_subset_eq_add_left)
next
  case (Cons d ds)
  have two: "mset ((selected @ [d]) @ overflow @ ds) = mset (selected @ overflow @ d # ds)"
    "mset (selected @ (overflow @ [d]) @ ds) = mset (selected @ overflow @ d # ds)" by simp_all
  have front: "mset (selected @ [d]) \<subseteq># mset (selected @ overflow @ d # ds)" "mset selected \<subseteq># mset (selected @ overflow @ d # ds)"
    by simp_all
  show ?case
    using Cons.IH [of _ "selected @ [d]" overflow] Cons.IH [of _ selected "overflow @ [d]"] front
    unfolding two by (simp only: federated_diversity.simps Let_def split: if_split) blast
qed

lemma texts_diversity: "texts_within (federated_source_diversity fr limit share docs) docs"
  using image_mset_subseteq_mono [OF diversity_within [of "base_and_source fr" limit share "\<lambda>_. 0" "[]" "[]" docs], of dc_text]
  by (simp add: texts_within_def federated_source_diversity_def)

lemma mset_drop_nth: "i < length xs \<Longrightarrow> mset xs = add_mset (xs ! i) (mset (drop_nth i xs))"
  unfolding drop_nth_def by (subst id_take_nth_drop [of i xs]) simp_all

lemma mmr_loop_within:
  "mset (map dc_text (federated_mmr_loop rnd weight limit selected candidates)) \<subseteq># mset (map dc_text (selected @ candidates))"
proof (induction rnd weight limit selected candidates rule: federated_mmr_loop.induct)
  case (1 rnd weight limit selected candidates)
  show ?case
  proof (cases "candidates = [] \<or> limit \<le> length selected")
    case True
    then show ?thesis by (subst federated_mmr_loop.simps) simp
  next
    case False
    let ?score = "\<lambda>i. federated_score weight selected (candidates ! i)"
    let ?best = "py_max (\<lambda>i. (?score i, - int i)) 0 [1..<length candidates]"
    have i: "?best < length candidates"
    proof -
      have all: "\<forall>j \<in> insert 0 (set [1..<length candidates]). j < length candidates" using False by (cases candidates) auto
      show ?thesis by (rule bspec [OF all py_max_mem])
    qed
    have "mset (map dc_text (federated_mmr_loop rnd weight limit selected candidates))
      \<subseteq># mset (map dc_text ((selected @ [with_mmr_score rnd (?score ?best) (candidates ! ?best)]) @ drop_nth ?best candidates))"
      using 1 [OF False refl refl] False by (subst federated_mmr_loop.simps) (simp only: Let_def if_False)
    also have "\<dots> = mset (map dc_text (selected @ candidates))"
      using arg_cong [OF mset_drop_nth [OF i], of "image_mset dc_text"] by (simp add: with_mmr_score_def)
    finally show ?thesis .
  qed
qed

lemma texts_mmr: "texts_within (federated_mmr rnd docs limit weight) docs"
  using mmr_loop_within [of rnd weight limit "[]" docs] by (simp add: texts_within_def federated_mmr_def)

lemma distinct_submset: "mset xs \<subseteq># mset ys \<Longrightarrow> distinct ys \<Longrightarrow> distinct xs"
  by (metis distinct_append ex_mset mset_append mset_eq_imp_distinct_iff subset_mset.le_iff_add)

lemma distinct_within:
  assumes "texts_within xs ys" and "distinct (map f (map dc_text ys))"
  shows "distinct (map f (map dc_text xs))"
proof -
  have "mset (map f (map dc_text xs)) \<subseteq># mset (map f (map dc_text ys))"
    using image_mset_subseteq_mono [OF assms(1) [unfolded texts_within_def], of f] by (simp only: mset_map)
  then show ?thesis using assms(2) by (rule distinct_submset)
qed

lemma texts_set: "texts_within xs ys \<Longrightarrow> set (map dc_text xs) \<subseteq> set (map dc_text ys)"
  unfolding texts_within_def by (metis set_mset_mono set_mset_mset)

section \<open>The texts of the fused candidates\<close>

lemma content_as: "map (content_key env) ds = map (\<lambda>t. fe_sha env (normalized_document_content t)) (map dc_text ds)"
  by (simp add: content_key_def)

lemma distinct_content: "texts_within xs ys \<Longrightarrow> distinct (map (content_key env) ys) \<Longrightarrow> distinct (map (content_key env) xs)"
  unfolding content_as by (rule distinct_within)

lemma merged_text: "(key, ds) \<in> set (group_by f xs) \<Longrightarrow> \<exists>d \<in> set xs. f d = key \<and> dc_text (merge_duplicates env ds) = dc_text d"
  using merged_identity [of ds undefined env] by (force simp: group_mem filter_empty_conv)

text \<open>Fusing the candidates keeps one document for each content.\<close>

lemma fused_distinct: "distinct (map (content_key env) (fused env b rs))"
proof -
  let ?groups = "group_by (content_key env) (all_candidates env b rs)"
  have "content_key env (merge_duplicates env ds) = key" if "(key, ds) \<in> set ?groups" for key ds
    using merged_text [OF that, of env] by (auto simp: content_key_def)
  then have "map (content_key env) (map (\<lambda>(_, ds). merge_duplicates env ds) ?groups) = map fst ?groups" by auto
  moreover have "distinct (map fst ?groups)" using od_wf_accumulate by (simp add: group_as)
  moreover have "mset (map (content_key env) (fused env b rs))
    = mset (map (content_key env) (map (\<lambda>(_, ds). merge_duplicates env ds) ?groups))"
    unfolding fused_def all_candidates_def by (simp only: mset_map mset_sort)
  ultimately show ?thesis by (metis mset_eq_imp_distinct_iff)
qed

lemma fused_texts: "d \<in> set (fused env b rs) \<Longrightarrow> \<exists>r \<in> set rs. \<exists>e \<in> set (rt_docs r). dc_text d = dc_text e"
proof -
  assume "d \<in> set (fused env b rs)"
  then obtain key ds where "(key, ds) \<in> set (group_by (content_key env) (all_candidates env b rs))" "d = merge_duplicates env ds"
    by (auto simp: fused_def all_candidates_def)
  then obtain c where "c \<in> set (all_candidates env b rs)" "dc_text d = dc_text c" using merged_text by metis
  then show ?thesis
    by (fastforce simp: all_candidates_def candidates_from_def federated_candidate_def Let_def dest!: set_zip_rightD)
qed

context reranking
begin

text \<open>What the context is chosen from, before the embeddings are removed.\<close>

lemma context_chosen:
  "\<exists>xs. federated_context env rerank s k rs = map without_embedding xs \<and> length xs \<le> k
     \<and> texts_within xs (fused env (fs_mode s = ''mmr'') rs)"
proof -
  let ?fused = "fused env (fs_mode s = ''mmr'') rs"
  let ?cs = "take (global_budget s k) ?fused" and ?n = "federated_top_n s k"
  let ?diverse = "if fs_mode s = ''mmr'' then federated_mmr (fe_round env) ?cs ?n (max 0 (min 1 (fs_weight s)))
    else if fs_mode s = ''source_diversity'' then federated_source_diversity (fe_repr env) ?n (max_chunks_per_source k) ?cs
    else take ?n ?cs"
  let ?reranked = "if 0 < fs_threshold s then filter (above_threshold (fs_threshold s)) (rerank ?diverse k) else rerank ?diverse k"
  have cs: "texts_within ?cs ?fused" by (rule texts_take)
  have if_either: "P (if c then x else y)" if "P x" "P y" for P :: "document list \<Rightarrow> bool" and c x y using that by simp
  let ?P = "\<lambda>xs. texts_within xs ?cs"
  have diverse: "texts_within ?diverse ?cs"
    by (rule if_either [where P = ?P, OF texts_mmr if_either [where P = ?P, OF texts_diversity texts_take]])
  have "texts_within ?reranked ?diverse" by (rule if_either [OF threshold_chosen chosen])
  then have "texts_within ?reranked ?fused" by (rule texts_trans [OF _ texts_trans [OF diverse cs]])
  moreover have "length ?reranked \<le> k"
    by (rule if_either [OF threshold_at_most at_most])
  moreover have "texts_within (take k ?cs) ?fused" by (rule texts_trans [OF texts_take cs])
  moreover have "length (take k ?cs) \<le> k" by simp
  ultimately have "length (if fs_reranker s then ?reranked else take k ?cs) \<le> k
      \<and> texts_within (if fs_reranker s then ?reranked else take k ?cs) ?fused"
    by (intro if_either [where P = "\<lambda>xs. length xs \<le> k \<and> texts_within xs ?fused"] conjI)
  moreover have "federated_context env rerank s k rs = map without_embedding (if fs_reranker s then ?reranked else take k ?cs)"
    by (simp only: federated_context_def Let_def)
  ultimately show ?thesis by blast
qed

lemma context_small: "length (federated_context env rerank s k rs) \<le> k"
  using context_chosen [of env s k rs] by auto

lemma context_texts: "texts_within (federated_context env rerank s k rs) (fused env (fs_mode s = ''mmr'') rs)"
proof -
  have "map dc_text (map without_embedding xs) = map dc_text xs" for xs by (simp add: without_embedding_def)
  then show ?thesis using context_chosen [of env s k rs] by (auto simp only: texts_within_def)
qed

lemma context_no_embedding: "d \<in> set (federated_context env rerank s k rs) \<Longrightarrow> jget (dc_meta d) ''_rag_embedding'' = JNull"
proof -
  have "map_of (filter (\<lambda>(k, v). k \<noteq> (x :: string)) m) x = None" for x and m :: jdict
    by (auto simp: map_of_eq_None_iff)
  then have "jget (dc_meta (without_embedding e)) ''_rag_embedding'' = JNull" for e
    by (simp add: without_embedding_def jget_def)
  then show "d \<in> set (federated_context env rerank s k rs) \<Longrightarrow> ?thesis" using context_chosen [of env s k rs] by auto
qed

end

section \<open>The claims\<close>

text \<open>
  Claim C12: the context of a query over several knowledge bases does not depend on the order in which
  the threads that query the collections complete, when no two of the results have the same knowledge
  base, source and chunk.
\<close>

theorem context_independent_of_completion_order:
  assumes "mset rs = mset rs'"
    and "distinct (map (identity (fe_repr env)) (all_candidates env (fs_mode s = ''mmr'') rs))"
  shows "federated_context env rerank s k rs = federated_context env rerank s k rs'"
  unfolding federated_context_def by (simp only: fused_perm [OF assms])

text \<open>
  Claim C11: whatever reranker is used, if it returns at most as many documents as asked and only those
  it was given, the context of a federated query has at most \<open>k\<close> documents, no two of them with the same
  normalized content, each one with the text of a result of a collection, and no embedding is left in
  their metadata.
\<close>

theorem federated_context_small_and_unique:
  assumes "\<And>docs n. length (rerank docs n) \<le> n"
    and "\<And>docs n. texts_within (rerank docs n) docs"
  shows "length (federated_context env rerank s k rs) \<le> k
    \<and> distinct (map (content_key env) (federated_context env rerank s k rs))
    \<and> (\<forall>d \<in> set (federated_context env rerank s k rs).
         (\<exists>r \<in> set rs. \<exists>e \<in> set (rt_docs r). dc_text d = dc_text e) \<and> jget (dc_meta d) ''_rag_embedding'' = JNull)"
proof -
  have laws: "reranking rerank" by (rule reranking.intro) (rule assms)+
  note texts = reranking.context_texts [OF laws, of env s k rs]
  have "\<exists>r \<in> set rs. \<exists>e \<in> set (rt_docs r). dc_text d = dc_text e" if "d \<in> set (federated_context env rerank s k rs)" for d
  proof -
    have "dc_text d \<in> set (map dc_text (federated_context env rerank s k rs))" using that by simp
    then obtain f where "f \<in> set (fused env (fs_mode s = ''mmr'') rs)" "dc_text d = dc_text f" using texts_set [OF texts] by auto
    then show ?thesis using fused_texts by metis
  qed
  then show ?thesis
    using reranking.context_small [OF laws] distinct_content [OF texts fused_distinct] reranking.context_no_embedding [OF laws]
    by blast
qed

section \<open>Two knowledge bases\<close>

definition demo_env :: fed_env where
  "demo_env = \<lparr>fe_round = (\<lambda>_ x. x), fe_repr = (\<lambda>_. ''1.0''), fe_sha = (\<lambda>s. s)\<rparr>"

definition demo_doc :: "string \<Rightarrow> string \<Rightarrow> document" where
  "demo_doc t chunk = \<lparr>dc_text = t, dc_meta = [(''source'', JStr ''a.txt''), (''chunk_id'', JStr chunk)]\<rparr>"

definition demo_results :: "retrieval list" where
  "demo_results =
     [\<lparr>rt_target = \<lparr>tg_id = ''k1'', tg_name = ''One'', tg_collection = ''c1''\<rparr>, rt_docs = [demo_doc ''x'' ''0'', demo_doc ''y'' ''1''],
        rt_embeddings = []\<rparr>,
      \<lparr>rt_target = \<lparr>tg_id = ''k2'', tg_name = ''Two'', tg_collection = ''c2''\<rparr>, rt_docs = [demo_doc ''x'' ''0''], rt_embeddings = []\<rparr>]"

definition demo_settings :: fed_settings where
  "demo_settings = \<lparr>fs_reranker = True, fs_mode = ''none'', fs_top_n = 4, fs_pool = JNull, fs_weight = 1, fs_threshold = 0\<rparr>"

lemma demo_identities:
  "map (identity (fe_repr demo_env)) (all_candidates demo_env (fs_mode demo_settings = ''mmr'') demo_results)
     = [(''k1'', ''a.txt'', ''0''), (''k1'', ''a.txt'', ''1''), (''k2'', ''a.txt'', ''0'')]"
  by code_simp

text \<open>The text that both bases have is one document of the context.\<close>

theorem context_independent_of_completion_order_witness:
  "federated_context demo_env dummy_rerank demo_settings 2 demo_results
     = federated_context demo_env dummy_rerank demo_settings 2 (rev demo_results)"
  by (rule context_independent_of_completion_order) (simp_all add: demo_identities)

theorem federated_context_small_and_unique_witness:
  "length (federated_context demo_env dummy_rerank demo_settings 2 demo_results) \<le> 2"
  using federated_context_small_and_unique [of dummy_rerank demo_env demo_settings 2 demo_results]
    dummy.at_most dummy.chosen by blast

lemma demo_fused: "map dc_text (fused demo_env (fs_mode demo_settings = ''mmr'') demo_results) = [''x'', ''y'']"
  by code_simp

end
