(* ===== verification/Rag_Engine.thy ===== *)
theory Rag_Engine
  imports Public_Sources Federated_Claims Conversation_Memory Retry
begin

text \<open>
  Answering a question, \<open>app/utils/rag_engine.py\<close>: the effective model and parameters, the retrieval with its
  cache and its reranker, the prompt, the generation with its retries, the memory of the conversation, and the
  three ways to return an answer (whole, as a stream of texts, as a stream of events). What is not under \<open>app/\<close>
  is a field of \<open>rag_env\<close>: the embedding of a text, the collections, the models, and the clock, of which
  \<open>re_now n\<close> and \<open>re_lost n\<close> (a lost distributed lease) are the readings at point \<open>n\<close> of a request.
\<close>

datatype reranker_choice =
  LocalReranker string
| RemoteReranker string string string string
| NoReranker

record llm_call =
  lc_provider :: string
  lc_model :: string
  lc_system :: string
  lc_prompt :: string
  lc_temperature :: real

record rag_env =
  re_public :: public_env
  re_fed :: fed_env
  re_dig :: "string \<Rightarrow> string"
  re_getenv :: "string \<Rightarrow> string option"
  re_providers :: "config_error + providers"
  re_resolve_text :: "resolve_error \<Rightarrow> exn"
  re_client :: "string \<Rightarrow> string \<Rightarrow> exn option"
  re_rerankers :: "jdict list"
  re_loads :: "reranker_choice \<Rightarrow> bool"
  re_predict :: "string \<Rightarrow> string \<Rightarrow> document list \<Rightarrow> real list"
  re_remote :: "reranker_choice \<Rightarrow> string \<Rightarrow> document list \<Rightarrow> real list option"
  re_encode :: "string \<Rightarrow> exn + real list"
  re_collection :: "string option \<Rightarrow> exn + (real list \<Rightarrow> nat \<Rightarrow> bool \<Rightarrow> query_result)"
  re_completion :: "target list \<Rightarrow> target list"
  re_generate :: "llm_call \<Rightarrow> nat \<Rightarrow> exn + string"
  re_stream :: "llm_call \<Rightarrow> nat \<Rightarrow> string list \<times> exn option"
  re_cache :: cache_config
  re_indexes :: "(string, json_file) odict"
  re_index :: json_file
  re_now :: "nat \<Rightarrow> time"
  re_lost :: "nat \<Rightarrow> exn option"
  re_type_error :: exn
  re_overflow :: exn
  re_url_error :: exn

record rag_request =
  rq_query :: string
  rq_model :: "string option"
  rq_provider :: "string option"
  rq_temperature :: "real option"
  rq_k :: "nat option"
  rq_collection :: "string option"
  rq_conversation :: string
  rq_client :: jdict
  rq_language :: "string option"
  rq_public :: bool
  rq_system_prompt :: string
  rq_extra :: "document list"
  rq_targets :: "target list"
  rq_kbs :: "string list"
  rq_prompt_context :: "string option"
  rq_retrieval_context :: "string option"
  rq_append :: bool

record rag_state =
  rg_cache :: "document list lru_cache"
  rg_memory :: mem_store

section \<open>Settings of a request\<close>

definition rag_of :: "jdict \<Rightarrow> jdict" where
  "rag_of settings = dict_or_empty (jget settings ''rag'')"

definition rag_nat :: "jdict \<Rightarrow> string \<Rightarrow> nat" where
  "rag_nat rag k = (case py_int (jget rag k) of None \<Rightarrow> 0 | Some i \<Rightarrow> nat i)"

definition effective_k :: "rag_request \<Rightarrow> jdict \<Rightarrow> nat" where
  "effective_k r rag = (case rq_k r of None \<Rightarrow> rag_nat rag ''query_k'' | Some k \<Rightarrow> if k = 0 then rag_nat rag ''query_k'' else k)"

definition effective_temperature :: "rag_request \<Rightarrow> jdict \<Rightarrow> real" where
  "effective_temperature r rag = (case rq_temperature r of None \<Rightarrow> score_or_zero rag ''temperature'' | Some t \<Rightarrow> t)"

definition normalize_response_language :: "string option \<Rightarrow> string" where
  "normalize_response_language v =
     (let s = py_replace_char CHR ''_'' CHR ''-'' (py_lower (py_strip (case v of None \<Rightarrow> ''auto'' | Some t \<Rightarrow> or_text t ''auto'')))
      in or_text s ''auto'')"

section \<open>Rerankers\<close>

definition split_reranker_model :: "string \<Rightarrow> string \<times> string" where
  "split_reranker_model s = (let p = takeWhile (\<lambda>c. c \<noteq> CHR ''/'') s in (p, drop (Suc (length p)) s))"

definition find_reranker_provider :: "jdict list \<Rightarrow> jdict \<Rightarrow> string \<Rightarrow> jdict option" where
  "find_reranker_provider builtin settings pid =
     find (\<lambda>p. jget p ''id'' = JStr pid)
       (builtin @ (case jget settings ''reranker_providers'' of JArr xs \<Rightarrow> map dict_or_empty xs | _ \<Rightarrow> []))"

definition remove_local_prefix :: "string \<Rightarrow> string" where
  "remove_local_prefix s = (if py_startswith s ''local/'' then drop 6 s else s)"

definition resolve_reranker :: "rag_env \<Rightarrow> jdict \<Rightarrow> reranker_choice" where
  "resolve_reranker env settings =
     (let fr = pe_repr (re_public env); rag = rag_of settings;
          model = py_str fr (jget_or rag ''reranker_model'' (JStr ''local/BAAI/bge-reranker-v2-m3''));
          kind = py_str fr (jget_or rag ''reranker_type'' (JStr ''local''));
          (pid, name) = split_reranker_model model
      in if pid = ''local'' \<or> kind = ''local'' \<and> name = [] then LocalReranker (or_text name (remove_local_prefix model))
         else case find_reranker_provider (re_rerankers env) settings (or_text pid kind) of
             None \<Rightarrow> NoReranker
           | Some p \<Rightarrow>
               let base = text_or fr [] (jget p ''base_url'');
                   key = or_text (text_or fr [] (jget rag ''reranker_api_key''))
                     (or_text (text_or fr [] (jget rag ''reranker_regolo_api_key'')) (resolve_api_key fr (re_getenv env) p))
               in if truthy (jget_or p ''enabled'' (JBool True)) \<and> base \<noteq> [] \<and> (key \<noteq> [] \<or> \<not> truthy (jget p ''requires_api_key''))
                  then RemoteReranker base (or_text key ''openai-compatible-reranker'') name
                    (normalize_remote_mode fr (jget_or p ''reranker_mode'' (JStr ''chat_completions'')))
                  else NoReranker)"

text \<open>\<open>get_reranker\<close>: one that cannot be loaded is replaced by the first documents in their order.\<close>

definition rerank_by :: "rag_env \<Rightarrow> reranker_choice \<Rightarrow> string \<Rightarrow> document list \<Rightarrow> nat \<Rightarrow> document list" where
  "rerank_by env reranker query = (if \<not> re_loads env reranker then dummy_rerank
     else case reranker of
         LocalReranker name \<Rightarrow> local_rerank (re_predict env name query)
       | RemoteReranker _ _ _ _ \<Rightarrow> remote_rerank (re_remote env reranker query)
       | NoReranker \<Rightarrow> dummy_rerank)"

section \<open>Retrieval\<close>

definition retrieve_from :: "rag_env \<Rightarrow> real list \<Rightarrow> bool \<Rightarrow> nat \<Rightarrow> target \<Rightarrow> exn + retrieval" where
  "retrieve_from env embedding include_embeddings k t = bindE (re_collection env (Some (tg_collection t))) (\<lambda>ask.
     let (docs, embeddings) = documents_of (fe_round (re_fed env)) embedding include_embeddings (ask embedding k include_embeddings)
     in Inr \<lparr>rt_target = t, rt_docs = docs, rt_embeddings = embeddings\<rparr>)"

definition fed_settings_of :: "(real \<Rightarrow> string) \<Rightarrow> jdict \<Rightarrow> fed_settings" where
  "fed_settings_of fr rag =
     \<lparr>fs_reranker = truthy (jget rag ''reranker_enabled''),
      fs_mode = py_lower (py_strip (py_str fr (jget_or rag ''reranker_diversity_mode'' (JStr ''none'')))),
      fs_top_n = (case py_int (jget_or rag ''reranker_top_n'' (JInt 20)) of None \<Rightarrow> 0 | Some i \<Rightarrow> nat i),
      fs_pool = jget rag ''reranker_mmr_candidate_pool'',
      fs_weight = (case meta_float rag ''reranker_mmr_lambda'' of None \<Rightarrow> 7 / 10 | Some x \<Rightarrow> x),
      fs_threshold = score_or_zero rag ''reranker_threshold''\<rparr>"

definition federated_documents :: "rag_env \<Rightarrow> jdict \<Rightarrow> rag_request \<Rightarrow> string \<Rightarrow> nat \<Rightarrow> exn + document list" where
  "federated_documents env settings r query k =
     (let fs = fed_settings_of (fe_repr (re_fed env)) (rag_of settings); targets = rq_targets r in
      bindE (re_encode env query) (\<lambda>embedding.
      bindE (mapE (retrieve_from env embedding (fs_mode fs = ''mmr'') (per_collection fs k (length targets)))
              (re_completion env targets)) (\<lambda>retrieved.
      case re_lost env 0 of
        Some e \<Rightarrow> Inl e
      | None \<Rightarrow> Inr (federated_context (re_fed env) (rerank_by env (resolve_reranker env settings) query) fs k retrieved))))"

definition rerank_options_of :: "jdict \<Rightarrow> nat \<Rightarrow> rerank_options" where
  "rerank_options_of rag k =
     \<lparr>ro_k = k, ro_top_n = (case py_int (jget_or rag ''reranker_top_n'' (JInt 20)) of None \<Rightarrow> 0 | Some i \<Rightarrow> nat i),
      ro_threshold = score_or_zero rag ''reranker_threshold'',
      ro_mode = jget_or rag ''reranker_diversity_mode'' (JStr ''none''),
      ro_weight = jget_or rag ''reranker_mmr_lambda'' (JFloat (7 / 10)), ro_pool = jget rag ''reranker_mmr_candidate_pool''\<rparr>"

definition single_documents :: "rag_env \<Rightarrow> jdict \<Rightarrow> rag_request \<Rightarrow> string \<Rightarrow> nat \<Rightarrow> exn + document list" where
  "single_documents env settings r query k =
     (let rag = rag_of settings; rnd = fe_round (re_fed env) in
      bindE (re_encode env query) (\<lambda>embedding.
      bindE (re_collection env (rq_collection r)) (\<lambda>ask.
      if truthy (jget rag ''reranker_enabled'')
      then (case query_with_rerank rnd (fe_repr (re_fed env)) embedding (ask embedding)
               (rerank_by env (resolve_reranker env settings) query) (rerank_options_of rag k) of
          None \<Rightarrow> Inl (re_overflow env)
        | Some docs \<Rightarrow> Inr docs)
      else Inr (fst (documents_of rnd embedding False (ask embedding (if k = 0 then nat (cc_query_k (re_cache env)) else k) False))))))"

definition cache_query :: "rag_request \<Rightarrow> string \<Rightarrow> string" where
  "cache_query r query =
     (if rq_targets r \<noteq> [] then ''multi-v2:'' @ py_join ''|'' (sort (map tg_collection (rq_targets r)))
      else or_text (case rq_collection r of None \<Rightarrow> [] | Some c \<Rightarrow> c) ''documents'') @ [newline] @ query"

definition get_context ::
  "rag_env \<Rightarrow> jdict \<Rightarrow> bool \<Rightarrow> string \<Rightarrow> rag_request \<Rightarrow> string \<Rightarrow> rag_state \<Rightarrow> (exn + document list) \<times> rag_state" where
  "get_context env settings use_cache model r query st =
     (let k = effective_k r (rag_of settings); cached = use_cache \<and> truthy (jget (rag_of settings) ''enable_cache'');
          namespace = or_text (rq_conversation r) ''stateless'';
          (hit, c) = (if cached then rag_get (re_dig env) (re_cache env) (re_now env 2) (cache_query r query) (Some (int k)) (Some model)
             namespace (rg_cache st) else (None, rg_cache st));
          st = st\<lparr>rg_cache := c\<rparr>;
          found = (if rq_targets r \<noteq> [] then federated_documents env settings r query k else single_documents env settings r query k)
      in case hit of
           Some (d # ds) \<Rightarrow> (Inr (d # ds), st)
         | _ \<Rightarrow> (case found of
               Inl e \<Rightarrow> (Inl e, st)
             | Inr docs \<Rightarrow> (Inr docs, if cached then st\<lparr>rg_cache := rag_set (re_dig env) (re_cache env) (re_now env 3)
                 (cache_query r query) docs (Some (int k)) (Some model) namespace (rg_cache st)\<rparr> else st)))"

section \<open>The prompt\<close>

definition response_language_instruction :: "string option \<Rightarrow> string" where
  "response_language_instruction v =
     (let language = normalize_response_language v in
      if language = ''auto'' then ''Rispondi nella stessa lingua della domanda dell'' @ [CHR 0x27] @ ''utente.''
      else if language = ''it'' then ''Rispondi in italiano.''
      else if language = ''en'' then ''Answer in English.''
      else ''Rispondi nella lingua indicata dal codice '' @ [CHR 0x27] @ language @ [CHR 0x27, CHR ''.''])"

definition client_labels :: "(string \<times> string) list" where
  "client_labels = [(''site_name'', ''Sito''), (''page_title'', ''Pagina''), (''page_url'', ''URL pagina''),
     (''post_type'', ''Tipo contenuto''), (''locale'', ''Lingua''), (''instructions'', ''Istruzioni client'')]"

definition client_context_block :: "(real \<Rightarrow> string) \<Rightarrow> jdict \<Rightarrow> string" where
  "client_context_block fr client = or_text
     (py_join [newline] (map (\<lambda>(k, label). label @ '': '' @ py_str fr (jget client k)) (filter (\<lambda>(k, _). truthy (jget client k)) client_labels)))
     ''Nessun contesto client fornito.''"

definition document_prompt_block :: "(real \<Rightarrow> string) \<Rightarrow> document \<Rightarrow> string" where
  "document_prompt_block fr d =
     (let source = basename (text_or fr ''documento'' (jget (dc_meta d) ''source''));
          name = py_strip (text_or fr [] (jget (dc_meta d) ''knowledge_base_name''))
      in (if name \<noteq> [] then ''[Knowledge base: '' @ name @ '' | Fonte: '' @ source else ''[Fonte: '' @ source)
         @ '']'' @ [newline] @ dc_text d)"

definition insufficient :: string where
  "insufficient = ''contesto '' @ [CHR 0xE8] @ '' insufficiente''"

definition system_prompt :: "bool \<Rightarrow> string \<Rightarrow> string \<Rightarrow> string" where
  "system_prompt internal language custom =
     (if custom = [] then [] else custom @ [newline, newline]) @ py_join [newline]
       (if internal
        then [''Sei un assistente esperto. Rispondi integrando le informazioni del contesto con la tua conoscenza interna.'',
              ''- '' @ language,
              ''- Dai prioritaria importanza alle informazioni del contesto quando sono presenti'',
              ''- Usa il contesto conversazionale solo per capire riferimenti, preferenze e follow-up'',
              ''- Se il '' @ insufficient @ '', completa la risposta con la tua conoscenza interna'',
              ''- Tieni presente che la conoscenza interna potrebbe contenere informazioni non aggiornate; preferisci sempre il contesto quando disponibile'',
              ''- Mantieni le risposte concise ma complete'']
        else [''Sei un assistente esperto. Rispondi usando SOLO le informazioni del contesto documentale e della conversazione.'',
              ''- '' @ language,
              ''- Non inventare informazioni'',
              ''- Usa il contesto conversazionale solo per capire riferimenti, preferenze e follow-up'',
              ''- Ammetti se il '' @ insufficient,
              ''- Mantieni le risposte concise ma complete''])"

definition user_prompt :: "string \<Rightarrow> string \<Rightarrow> string \<Rightarrow> string \<Rightarrow> string" where
  "user_prompt documents conversation client query = py_join [newline]
     ((if documents = [] then [] else [''--- CONTESTO DOCUMENTALE ---'', documents, ''---''])
      @ [''--- CONTESTO CONVERSAZIONE ---'', conversation, ''---'', ''--- CONTESTO CLIENT ---'', client, ''---'',
         ''--- DOMANDA ATTUALE ---'', query])"

definition prompt_of :: "rag_env \<Rightarrow> jdict \<Rightarrow> rag_request \<Rightarrow> document list \<Rightarrow> string \<Rightarrow> string" where
  "prompt_of env rag r docs conversation =
     (let fr = pe_repr (re_public env) in
      user_prompt (py_join ([newline, newline] @ ''---'' @ [newline, newline]) (map (document_prompt_block fr) docs))
        (or_text (py_strip conversation) ''Nessun contesto conversazionale precedente.'')
        (client_context_block fr (rq_client r)) (rq_query r))"

definition call_of :: "rag_env \<Rightarrow> jdict \<Rightarrow> rag_request \<Rightarrow> string \<times> string \<Rightarrow> document list \<Rightarrow> string \<Rightarrow> llm_call" where
  "call_of env rag r route docs conversation =
     \<lparr>lc_provider = fst route, lc_model = snd route,
      lc_system = system_prompt (truthy (jget rag ''use_internal_knowledge''))
        (response_language_instruction (Some (normalize_response_language (rq_language r)))) (rq_system_prompt r),
      lc_prompt = prompt_of env rag r docs conversation, lc_temperature = effective_temperature r rag\<rparr>"

section \<open>Generation\<close>

text \<open>The chunks that reach the consumer, and the exception that ends them, if any.\<close>

definition failure_text :: "exn \<Rightarrow> string" where
  "failure_text e = ''Errore: '' @ ex_text e"

definition generate_once :: "rag_env \<Rightarrow> llm_call \<Rightarrow> string list" where
  "generate_once env c = (case fst (retry_with_backoff (\<lambda>_. True) 3 (re_generate env c)) of
       Returned s \<Rightarrow> [s] | Raised e \<Rightarrow> [failure_text e] | NoAttempts \<Rightarrow> [])"

definition generate_stream :: "rag_env \<Rightarrow> llm_call \<Rightarrow> string list" where
  "generate_stream env c = (let (chunks, r, _) = retry_stream_with_backoff (\<lambda>_. True) 3 (re_stream env c) in
     case r of Raised e \<Rightarrow> chunks @ [failure_text e] | _ \<Rightarrow> chunks)"

definition no_documents :: string where
  "no_documents = ''Nessun documento caricato. Carica PDF dalla pagina admin File.''"

definition strange_source :: "document \<Rightarrow> bool" where
  "strange_source d \<longleftrightarrow> (case od_get (dc_meta d) ''source'' of None \<Rightarrow> False | Some (JStr _) \<Rightarrow> False | _ \<Rightarrow> True)"

text \<open>The model is resolved again from the result of the first time.\<close>

definition generate_response ::
  "rag_env \<Rightarrow> jdict \<Rightarrow> bool \<Rightarrow> rag_request \<Rightarrow> string \<times> string \<Rightarrow> document list \<Rightarrow> string \<Rightarrow> string list \<times> exn option" where
  "generate_response env settings stream r route docs conversation =
     (case resolve_model (pe_repr (re_public env)) (re_providers env) settings (Some (snd route)) (Some (fst route)) of
        Inl e \<Rightarrow> ([], Some (re_resolve_text env e))
      | Inr (pid, model, _) \<Rightarrow>
          if docs = [] \<and> \<not> truthy (jget (rag_of settings) ''use_internal_knowledge'') then ([no_documents], None)
          else if list_ex strange_source docs then ([], Some (re_type_error env))
          else (case re_client env pid model of
              Some e \<Rightarrow> ([], Some e)
            | None \<Rightarrow> ((if stream then generate_stream else generate_once) env
                (call_of env (rag_of settings) r (pid, model) docs conversation), None)))"

section \<open>The memory of the conversation\<close>

definition conversation_context :: "rag_env \<Rightarrow> rag_request \<Rightarrow> rag_state \<Rightarrow> string \<times> rag_state" where
  "conversation_context env r st = (case rq_prompt_context r of
       Some s \<Rightarrow> (s, st)
     | None \<Rightarrow> (case render_for_prompt (re_now env 0) (rq_conversation r) None (rg_memory st) of (s, m) \<Rightarrow> (s, st\<lparr>rg_memory := m\<rparr>)))"

definition retrieval_query :: "rag_env \<Rightarrow> rag_request \<Rightarrow> rag_state \<Rightarrow> string \<times> rag_state" where
  "retrieval_query env r st =
     (let (context, st) = (case rq_retrieval_context r of
          Some s \<Rightarrow> (s, st)
        | None \<Rightarrow> (case render_for_retrieval (re_now env 1) (rq_conversation r) (rg_memory st) of (s, m) \<Rightarrow> (s, st\<lparr>rg_memory := m\<rparr>)))
      in (if context = [] then rq_query r
          else py_join [newline] [''Contesto conversazionale precedente:'', context, [], ''Domanda attuale:'', rq_query r], st))"

definition summary_system :: string where
  "summary_system = py_join [newline]
     [''Sei un assistente che comprime memoria conversazionale per una chat RAG.'', ''- Scrivi in italiano.'',
      ''- Mantieni fatti, preferenze utente, decisioni, vincoli, riferimenti a documenti e questioni aperte.'',
      ''- Rimuovi saluti, ripetizioni e dettagli non utili ai follow-up.'', ''- Non aggiungere informazioni nuove.'',
      ''- Produci un riassunto operativo entro circa 2500 caratteri.'']"

definition summary_call :: "string \<times> string \<Rightarrow> real \<Rightarrow> summary_job \<Rightarrow> llm_call" where
  "summary_call route temperature j =
     \<lparr>lc_provider = fst route, lc_model = snd route, lc_system = summary_system,
      lc_prompt = py_join [newline] [''Riassunto precedente:'', or_text (sj_previous j) ''Nessun riassunto precedente.'', [],
        ''Turni da incorporare nel riassunto:'', format_turns (sj_turns j), [], ''Restituisci solo il nuovo riassunto aggiornato.''],
      lc_temperature = min temperature (1 / 5)\<rparr>"

text \<open>Any failure of the summary falls back to the local one.\<close>

definition summarize_conversation :: "rag_env \<Rightarrow> string \<times> string \<Rightarrow> real \<Rightarrow> summary_job \<Rightarrow> string" where
  "summarize_conversation env route temperature j =
     (if re_client env (fst route) (snd route) \<noteq> None then fallback_summary j
      else case fst (retry_with_backoff (\<lambda>_. True) 2 (re_generate env (summary_call route temperature j))) of
          Returned s \<Rightarrow> or_text s (fallback_summary j)
        | _ \<Rightarrow> fallback_summary j)"

definition append_conversation_turn ::
  "rag_env \<Rightarrow> jdict \<Rightarrow> rag_request \<Rightarrow> string \<times> string \<Rightarrow> string \<Rightarrow> rag_state \<Rightarrow> exn option \<times> rag_state" where
  "append_conversation_turn env rag r route answer st =
     (if \<not> rq_append r \<or> rq_conversation r = [] \<or> answer = [] \<or> py_startswith answer ''Errore:'' then (None, st)
      else case re_lost env 2 of
          Some e \<Rightarrow> (Some e, st)
        | None \<Rightarrow>
            (case mem_append_turn (re_now env 4) (rq_conversation r) (rq_query r) answer (rq_kbs r) None (rg_memory st) of
               (None, m) \<Rightarrow> (None, st\<lparr>rg_memory := m\<rparr>)
             | (Some j, m) \<Rightarrow>
                 (case re_lost env 3 of
                    Some e \<Rightarrow> (Some e, st\<lparr>rg_memory := m\<rparr>)
                  | None \<Rightarrow> (None, st\<lparr>rg_memory :=
                      snd (apply_summary (re_now env 5) j (summarize_conversation env route (effective_temperature r rag) j) m)\<rparr>))))"

section \<open>A request\<close>

record prepared =
  pr_provider :: string
  pr_model :: string
  pr_config :: jdict
  pr_conversation :: string
  pr_docs :: "document list"

text \<open>\<open>prepare_rag_context\<close>, with which the three other functions begin.\<close>

definition prepare_rag_context :: "rag_env \<Rightarrow> jdict \<Rightarrow> bool \<Rightarrow> rag_request \<Rightarrow> rag_state \<Rightarrow> (exn + prepared) \<times> rag_state" where
  "prepare_rag_context env settings use_cache r st =
     (case resolve_model (pe_repr (re_public env)) (re_providers env) settings (rq_model r) (rq_provider r) of
        Inl e \<Rightarrow> (Inl (re_resolve_text env e), st)
      | Inr (pid, model, config) \<Rightarrow>
          let (conversation, st) = conversation_context env r st; (query, st) = retrieval_query env r st;
              (found, st) = get_context env settings use_cache model r query st
          in (case (found, re_lost env 1) of
               (Inl e, _) \<Rightarrow> (Inl e, st)
             | (_, Some e) \<Rightarrow> (Inl e, st)
             | (Inr docs, None) \<Rightarrow> (Inr \<lparr>pr_provider = pid, pr_model = model, pr_config = config, pr_conversation = conversation,
                 pr_docs = merge_context_docs (pe_repr (re_public env)) docs (rq_extra r)\<rparr>, st)))"

definition conversation_field :: "rag_request \<Rightarrow> jdict" where
  "conversation_field r = (if rq_conversation r = [] then [] else [(''conversation_id'', JStr (rq_conversation r))])"

definition head_fields :: "rag_request \<Rightarrow> prepared \<Rightarrow> jdict" where
  "head_fields r p = [(''model'', JStr (pr_model p)), (''provider'', JStr (pr_provider p)),
     (''provider_name'', jget_or (pr_config p) ''name'' (JStr (pr_provider p))),
     (''response_language'', JStr (normalize_response_language (rq_language r)))]"

definition public_failure :: "rag_env \<Rightarrow> public_error \<Rightarrow> exn" where
  "public_failure env e = (case e of InvalidUrl \<Rightarrow> re_url_error env | WrongType \<Rightarrow> re_type_error env)"

definition answer_payload :: "rag_env \<Rightarrow> rag_request \<Rightarrow> prepared \<Rightarrow> string \<Rightarrow> exn + jdict" where
  "answer_payload env r p answer =
     map_sum (public_failure env) id
      (bindE (serialize_context (re_public env) (re_indexes env) (re_index env) (\<not> rq_public r) (pr_docs p)) (\<lambda>context.
       bindE (serialize_sources (re_public env) (pr_docs p)) (\<lambda>sources.
       Inr ((''answer'', JStr answer) # head_fields r p
         @ [(''context'', JArr (map JObj context)), (''sources'', JArr (map JObj sources)), (''usage'', JNull)]
         @ conversation_field r))))"

definition query_rag_non_stream :: "rag_env \<Rightarrow> jdict \<Rightarrow> rag_request \<Rightarrow> rag_state \<Rightarrow> (exn + jdict) \<times> rag_state" where
  "query_rag_non_stream env settings r st =
     (case prepare_rag_context env settings True r st of
        (Inl e, st) \<Rightarrow> (Inl e, st)
      | (Inr p, st) \<Rightarrow>
          let route = (pr_provider p, pr_model p); rag = rag_of settings in
          (case generate_response env settings False r route (pr_docs p) (pr_conversation p) of
             (_, Some e) \<Rightarrow> (Inl e, st)
           | (chunks, None) \<Rightarrow>
               (case append_conversation_turn env rag r route (concat chunks) st of
                  (Some e, st) \<Rightarrow> (Inl e, st)
                | (None, st) \<Rightarrow> (answer_payload env r p (concat chunks), st))))"

definition query_rag_stream :: "rag_env \<Rightarrow> jdict \<Rightarrow> rag_request \<Rightarrow> rag_state \<Rightarrow> (string list \<times> exn option) \<times> rag_state" where
  "query_rag_stream env settings r st =
     (case prepare_rag_context env settings False r st of
        (Inl e, st) \<Rightarrow> (([], Some e), st)
      | (Inr p, st) \<Rightarrow>
          let route = (pr_provider p, pr_model p); rag = rag_of settings in
          (case generate_response env settings True r route (pr_docs p) (pr_conversation p) of
             (chunks, Some e) \<Rightarrow> ((chunks, Some e), st)
           | (chunks, None) \<Rightarrow> (case append_conversation_turn env rag r route (concat chunks) st of (e, st) \<Rightarrow> ((chunks, e), st))))"

text \<open>The events a consumer that reads the stream to its end receives.\<close>

definition meta_event :: "rag_request \<Rightarrow> prepared \<Rightarrow> jdict" where
  "meta_event r p = (''type'', JStr ''meta'') # head_fields r p @ conversation_field r"

definition token_event :: "string \<Rightarrow> jdict" where
  "token_event s = [(''type'', JStr ''token''), (''text'', JStr s)]"

definition done_event :: "jdict \<Rightarrow> jdict" where
  "done_event payload = (''type'', JStr ''done'') # payload"

definition error_event :: "exn \<Rightarrow> jdict" where
  "error_event e = [(''type'', JStr ''error''), (''error'', JStr (ex_text e)), (''status'', JStr ''server_error'')]"

definition query_rag_stream_events :: "rag_env \<Rightarrow> jdict \<Rightarrow> rag_request \<Rightarrow> rag_state \<Rightarrow> jdict list \<times> rag_state" where
  "query_rag_stream_events env settings r st =
     (case prepare_rag_context env settings False r st of
        (Inl e, st) \<Rightarrow> ([error_event e], st)
      | (Inr p, st) \<Rightarrow>
          let route = (pr_provider p, pr_model p); rag = rag_of settings;
              (chunks, failure) = generate_response env settings True r route (pr_docs p) (pr_conversation p);
              sent = meta_event r p # map token_event (filter (\<lambda>c. c \<noteq> []) chunks)
          in (case failure of
               Some e \<Rightarrow> (sent @ [error_event e], st)
             | None \<Rightarrow>
                 (case answer_payload env r p (concat chunks) of
                    Inl e \<Rightarrow> (sent @ [error_event e], st)
                  | Inr payload \<Rightarrow>
                      (case append_conversation_turn env rag r route (concat chunks) st of
                         (e, st) \<Rightarrow> (sent @ done_event payload # (case e of None \<Rightarrow> [] | Some e \<Rightarrow> [error_event e]), st)))))"

section \<open>Whole answers and streams\<close>

lemma renamed_failure_Inr: "map_sum f id x = Inr y \<longleftrightarrow> x = Inr y"
  by (cases x) simp_all

lemma first_attempt:
  assumes "re_stream env c 0 = (chunks, None)" and "re_generate env c 0 = Inr (concat chunks)"
  shows "generate_stream env c = chunks" and "generate_once env c = [concat chunks]"
  using assms by (simp_all add: generate_stream_def generate_once_def retry_stream_with_backoff_def retry_with_backoff_def upt_conv_Cons)

lemma same_response:
  assumes "\<And>c. re_stream env c 0 = (chunks c, None)" and "\<And>c. re_generate env c 0 = Inr (concat (chunks c))"
  shows "concat (fst (generate_response env settings True r route docs conv)) = concat (fst (generate_response env settings False r route docs conv))"
    and "snd (generate_response env settings True r route docs conv) = snd (generate_response env settings False r route docs conv)"
  using first_attempt [OF assms(1) assms(2)]
  by (auto simp: generate_response_def split: sum.split option.split)

lemma uncached_context:
  "\<not> truthy (jget (rag_of settings) ''enable_cache'') \<Longrightarrow> get_context env settings b = get_context env settings b'"
  by (simp add: get_context_def fun_eq_iff)

lemma uncached_prepare:
  assumes "\<not> truthy (jget (rag_of settings) ''enable_cache'')"
  shows "prepare_rag_context env settings b r st = prepare_rag_context env settings b' r st"
  unfolding prepare_rag_context_def uncached_context [OF assms, of env b b'] ..

text \<open>
  The two ways to answer agree. If the cache is off and the model streams the text that it
  returns at once, then whenever the request without a stream returns a result, the events of a stream are
  the metadata, the parts of the answer and that result, and leave the same memory of the conversation;
  and whenever it raises, the last event is an error.
\<close>

theorem stream_agrees_with_whole_answer:
  assumes "\<not> truthy (jget (rag_of settings) ''enable_cache'')"
    and "\<And>c. re_stream env c 0 = (chunks c, None)" and "\<And>c. re_generate env c 0 = Inr (concat (chunks c))"
  shows "case query_rag_non_stream env settings r st of
      (Inr result, st') \<Rightarrow> \<exists>p toks. query_rag_stream_events env settings r st
         = (meta_event r p # map token_event toks @ [done_event result], st') \<and> jget result ''answer'' = JStr (concat toks)
    | (Inl _, _) \<Rightarrow> \<exists>e. last (fst (query_rag_stream_events env settings r st)) = error_event e"
proof -
  obtain found st1 where prep: "prepare_rag_context env settings True r st = (found, st1)" by fastforce
  then have prep': "prepare_rag_context env settings False r st = (found, st1)"
    using uncached_prepare [OF assms(1), of env False r st True] by simp
  show ?thesis
  proof (cases found)
    case (Inl e)
    then show ?thesis using prep prep' by (auto simp: query_rag_non_stream_def query_rag_stream_events_def)
  next
    case (Inr p)
    let ?route = "(pr_provider p, pr_model p)"
    obtain cs e where gen: "generate_response env settings False r ?route (pr_docs p) (pr_conversation p) = (cs, e)" by fastforce
    obtain ds where gen': "generate_response env settings True r ?route (pr_docs p) (pr_conversation p) = (ds, e)" and ds: "concat ds = concat cs"
      using same_response [OF assms(2,3), of settings r ?route "pr_docs p" "pr_conversation p"] gen by (metis fst_conv prod.collapse snd_conv)
    obtain f st2 where app: "append_conversation_turn env (rag_of settings) r ?route (concat cs) st1 = (f, st2)" by fastforce
    have tokens: "concat (filter (\<lambda>c. c \<noteq> []) ds) = concat cs" using ds by (induction ds arbitrary: cs) auto
    have answer: "jget payload ''answer'' = JStr a" if "answer_payload env r p a = Inr payload" for payload a
      using that by (auto simp: answer_payload_def renamed_failure_Inr bindE_eq_Inr jget_def)
    note run = query_rag_non_stream_def query_rag_stream_events_def prep prep' Inr gen gen' ds app
    show ?thesis
    proof (cases e)
      case (Some x)
      then show ?thesis by (auto simp: run)
    next
      case None
      show ?thesis
      proof (cases "answer_payload env r p (concat cs)")
        case (Inl x)
        then show ?thesis using None by (auto simp: run split: option.split)
      next
        case payload: (Inr result)
        show ?thesis
        proof (cases f)
          case None': None
          have "query_rag_stream_events env settings r st
              = (meta_event r p # map token_event (filter (\<lambda>c. c \<noteq> []) ds) @ [done_event result], st2)"
            by (simp add: run None None' payload)
          moreover have "jget result ''answer'' = JStr (concat (filter (\<lambda>c. c \<noteq> []) ds))"
            using answer [OF payload] tokens by simp
          ultimately show ?thesis by (auto simp: run None None' payload)
        next
          case (Some x)
          then show ?thesis by (auto simp: run None payload)
        qed
      qed
    qed
  qed
qed

definition demo_rag :: rag_env where
  "demo_rag = \<lparr>re_public = demo_public, re_fed = demo_env, re_dig = (\<lambda>s. s), re_getenv = (\<lambda>_. None),
     re_providers = Inr [(''p'', [(''name'', JStr ''P''), (''models'', JArr [JStr ''m''])])],
     re_resolve_text = (\<lambda>_. \<lparr>ex_class = [], ex_text = []\<rparr>), re_client = (\<lambda>_ _. None), re_rerankers = [], re_loads = (\<lambda>_. False),
     re_predict = (\<lambda>_ _ _. []), re_remote = (\<lambda>_ _ _. None), re_encode = (\<lambda>_. Inr [1]),
     re_collection = (\<lambda>_. Inr (\<lambda>_ n _. \<lparr>qr_documents = take n [''text''], qr_metadatas = [[(''source'', JStr ''a.txt'')]],
       qr_embeddings = [], qr_distances = []\<rparr>)),
     re_completion = (\<lambda>ts. ts), re_generate = (\<lambda>_ _. Inr ''Hello''), re_stream = (\<lambda>_ _. ([''Hel'', ''lo''], None)),
     re_cache = \<lparr>cc_enable_cache = False, cc_query_k = 1, cc_default_model = [], cc_cache_ttl = 0\<rparr>, re_indexes = [], re_index = None,
     re_now = (\<lambda>_. 0), re_lost = (\<lambda>_. None), re_type_error = \<lparr>ex_class = [], ex_text = []\<rparr>,
     re_overflow = \<lparr>ex_class = [], ex_text = []\<rparr>, re_url_error = \<lparr>ex_class = [], ex_text = []\<rparr>\<rparr>"

definition demo_request :: rag_request where
  "demo_request = \<lparr>rq_query = ''q'', rq_model = None, rq_provider = None, rq_temperature = None, rq_k = Some 1, rq_collection = None,
     rq_conversation = [], rq_client = [], rq_language = None, rq_public = True, rq_system_prompt = [], rq_extra = [],
     rq_targets = [], rq_kbs = [], rq_prompt_context = Some [], rq_retrieval_context = Some [], rq_append = False\<rparr>"

definition demo_rag_state :: rag_state where
  "demo_rag_state = \<lparr>rg_cache = new_cache 1, rg_memory = new_mem_store 1 1 1 1 1 1 1\<rparr>"

definition demo_rag_settings :: jdict where
  "demo_rag_settings = [(''rag'', JObj [(''query_k'', JInt 1), (''temperature'', JFloat 0)])]"

lemma demo_resolved:
  "resolve_model (pe_repr (re_public demo_rag)) (re_providers demo_rag) demo_rag_settings m q
     = Inr (''p'', ''m'', [(''name'', JStr ''P''), (''models'', JArr [JStr ''m''])])"
  if "(m, q) \<in> {(None, None), (Some ''m'', Some ''p'')}"
proof -
  have "resolve_model (pe_repr demo_public) (Inr [(''p'', [(''name'', JStr ''P''), (''models'', JArr [JStr ''m''])])]) demo_rag_settings None None
      = Inr (''p'', ''m'', [(''name'', JStr ''P''), (''models'', JArr [JStr ''m''])])"
    "resolve_model (pe_repr demo_public) (Inr [(''p'', [(''name'', JStr ''P''), (''models'', JArr [JStr ''m''])])]) demo_rag_settings (Some ''m'') (Some ''p'')
      = Inr (''p'', ''m'', [(''name'', JStr ''P''), (''models'', JArr [JStr ''m''])])"
    by code_simp+
  then show ?thesis using that by (auto simp: demo_rag_def)
qed

lemma demo_off: "\<not> truthy (jget (rag_of demo_rag_settings) ''enable_cache'')"
  by code_simp

definition demo_doc_found :: document where
  "demo_doc_found = \<lparr>dc_text = ''text'', dc_meta = [(''source'', JStr ''a.txt'')]\<rparr>"

lemma demo_prepared:
  "prepare_rag_context demo_rag demo_rag_settings b demo_request demo_rag_state
     = (Inr \<lparr>pr_provider = ''p'', pr_model = ''m'', pr_config = [(''name'', JStr ''P''), (''models'', JArr [JStr ''m''])],
          pr_conversation = [], pr_docs = [demo_doc_found]\<rparr>, demo_rag_state)"
proof -
  have "get_context demo_rag demo_rag_settings b ''m'' demo_request ''q'' demo_rag_state = (Inr [demo_doc_found], demo_rag_state)"
    using demo_off
    by (simp add: get_context_def demo_request_def single_documents_def demo_rag_def demo_rag_settings_def rag_of_def jget_def
        effective_k_def documents_of_def nth_or_def Let_def demo_doc_found_def dict_or_empty_def)
  then show ?thesis
    using demo_resolved [of None None]
    by (simp add: prepare_rag_context_def demo_request_def conversation_context_def retrieval_query_def merge_context_docs_def demo_rag_def)
qed

lemma demo_answered:
  "\<exists>result. query_rag_non_stream demo_rag demo_rag_settings demo_request demo_rag_state = (Inr result, demo_rag_state)
     \<and> jget result ''answer'' = JStr ''Hello''"
proof -
  let ?p = "\<lparr>pr_provider = ''p'', pr_model = ''m'', pr_config = [(''name'', JStr ''P''), (''models'', JArr [JStr ''m''])],
    pr_conversation = [], pr_docs = [demo_doc_found]\<rparr>"
  have "\<not> list_ex strange_source [demo_doc_found]" by code_simp
  then have generated: "generate_response demo_rag demo_rag_settings False demo_request (''p'', ''m'') [demo_doc_found] [] = ([''Hello''], None)"
    using demo_resolved [of "Some ''m''" "Some ''p''"]
    by (simp add: generate_response_def) (simp add: demo_rag_def generate_once_def retry_with_backoff_def upt_conv_Cons)
  have "\<not> rq_append demo_request" by (simp add: demo_request_def)
  moreover have "case answer_payload demo_rag demo_request ?p ''Hello'' of Inr result \<Rightarrow> jget result ''answer'' = JStr ''Hello'' | Inl _ \<Rightarrow> False"
    by code_simp
  ultimately show ?thesis
    using demo_prepared [of True] generated
    by (auto simp: query_rag_non_stream_def append_conversation_turn_def split: sum.splits)
qed

theorem stream_agrees_with_whole_answer_witness:
  "\<exists>p toks result. query_rag_stream_events demo_rag demo_rag_settings demo_request demo_rag_state
       = (meta_event demo_request p # map token_event toks @ [done_event result], demo_rag_state) \<and> concat toks = ''Hello''"
proof -
  obtain result where result: "query_rag_non_stream demo_rag demo_rag_settings demo_request demo_rag_state = (Inr result, demo_rag_state)"
    "jget result ''answer'' = JStr ''Hello''" using demo_answered by blast
  have models: "re_stream demo_rag c 0 = ([''Hel'', ''lo''], None)" "re_generate demo_rag c 0 = Inr (concat [''Hel'', ''lo''])" for c
    by (simp_all add: demo_rag_def)
  show ?thesis
    using stream_agrees_with_whole_answer [OF demo_off, of demo_rag "\<lambda>_. [''Hel'', ''lo'']" demo_request demo_rag_state] models result
    by (simp only: result prod.case sum.case json.inject) (metis json.inject(4))
qed

section \<open>Where the documents of an answer come from\<close>

interpretation served: reranking "rerank_by env reranker query" for env reranker query
proof unfold_locales
  have "reranking (rerank_by env reranker query)"
    unfolding rerank_by_def
    using dummy.reranking_axioms local.reranking_axioms remote.reranking_axioms by (simp split: reranker_choice.split)
  then show "length (rerank_by env reranker query docs n) \<le> n" "texts_within (rerank_by env reranker query docs n) docs" for docs n
    by (simp_all add: reranking_def)
qed

abbreviation texts_of :: "document list \<Rightarrow> string set" where
  "texts_of docs \<equiv> dc_text ` set docs"

lemma documents_of_found:
  "length (fst (documents_of rnd e b res)) = length (qr_documents res)" "texts_of (fst (documents_of rnd e b res)) \<subseteq> set (qr_documents res)"
  by (auto simp: documents_of_def Let_def dest: set_zip_rightD)

lemma diverse_loop_from_docs: "set (diverse_loop source limit share counts selected overflow ds) \<subseteq> set selected \<union> set overflow \<union> set ds"
  by (induction source limit share counts selected overflow ds rule: diverse_loop.induct)
    (auto simp: Let_def simp del: fun_upd_apply dest: in_set_takeD)

lemma mmr_documents_texts: "texts_of (mmr_documents rnd docs embeddings limit weight) \<subseteq> texts_of docs"
proof -
  let ?cs = "candidates_of docs embeddings"
  have "map cn_index ?cs = take (length ?cs) [0..<length docs]" by (rule nth_equalityI) (simp_all add: candidates_of_def)
  then have "distinct (map cn_index ?cs)" by simp
  then obtain zs where zs: "mmr_loop rnd weight limit [] ?cs = zs" "scored_from rnd weight ?cs [] zs"
    using mmr_loop_greedy [of ?cs rnd weight limit "[]"] by auto
  have "d \<in> set docs" if "(i, d, e) \<in> set (zip js (zip docs embeddings))" for i d e js
    using that by (meson set_zip_leftD set_zip_rightD)
  then have "texts_of (map cn_doc ?cs) \<subseteq> texts_of docs" by (fastforce simp: candidates_of_def)
  moreover have "texts_of (map cn_doc zs) \<subseteq> texts_of (map cn_doc ?cs)"
  proof
    fix t assume "t \<in> texts_of (map cn_doc zs)"
    then obtain z where z: "z \<in> set zs" "t = dc_text (cn_doc z)" by auto
    with scored_from_member [OF zs(2) z(1)] show "t \<in> texts_of (map cn_doc ?cs)" by (auto simp: with_mmr_score_def)
  qed
  ultimately have "texts_of (map cn_doc zs) \<subseteq> texts_of docs" by (rule order_trans [rotated])
  then show ?thesis by (auto simp: mmr_documents_def zs(1) dest: in_set_takeD simp del: set_map) 
qed

lemma texts_of_within: "texts_within xs ys \<Longrightarrow> texts_of xs \<subseteq> texts_of ys"
  using texts_set by simp

lemma query_with_rerank_found:
  assumes "query_with_rerank rnd fr e ask (rerank_by env reranker query) opts = Some docs"
  shows "length docs \<le> ro_k opts" and "\<exists>n b. texts_of docs \<subseteq> set (qr_documents (ask n b))"
proof -
  let ?found = "\<lambda>n b. documents_of rnd e b (ask n b)" and ?top = "ro_top_n opts"
  have diverse: "texts_of (diverse_documents fr limit share xs) \<subseteq> texts_of xs" for limit share xs
    using diverse_loop_from_docs [of "document_source fr" limit share "\<lambda>_. 0" "[]" "[]" xs] by (auto simp: diverse_documents_def)
  define reranked where "reranked pool = (if 0 < ro_threshold opts
      then filter (above_threshold (ro_threshold opts)) (rerank_by env reranker query pool (ro_k opts))
      else rerank_by env reranker query pool (ro_k opts))" for pool
  have "\<exists>pool n b. docs = reranked pool \<and> texts_of pool \<subseteq> texts_of (fst (?found n b))"
  proof (cases "diversity_mode fr (ro_mode opts) = ''mmr''")
    case True
    let ?n = "mmr_pool_size ?top (ro_pool opts)"
    obtain xs es where found: "?found ?n True = (xs, es)" by fastforce
    then obtain w where "docs = reranked (mmr_documents rnd xs es ?top w)"
      using assms True by (auto simp: query_with_rerank_def reranked_def Let_def)
    moreover have "texts_of (mmr_documents rnd xs es ?top w) \<subseteq> texts_of (fst (?found ?n True))"
      unfolding found using mmr_documents_texts by simp
    ultimately show ?thesis by blast
  next
    case False
    then have "docs = reranked (diverse_documents fr ?top (max_chunks_per_source (ro_k opts)) (fst (?found (rerank_pool_size ?top) False)))
        \<or> docs = reranked (fst (?found ?top False))"
      using assms False
      by (cases "diversity_mode fr (ro_mode opts) = ''source_diversity''") (simp_all add: query_with_rerank_def reranked_def Let_def)
    then show ?thesis using diverse by blast
  qed
  then obtain pool n b where pool: "docs = reranked pool" "texts_of pool \<subseteq> set (qr_documents (ask n b))"
    using documents_of_found(2) by (metis order_trans)
  show "length docs \<le> ro_k opts" using served.at_most served.threshold_at_most by (simp add: pool(1) reranked_def)
  have "texts_of (reranked pool) \<subseteq> texts_of pool"
    using texts_of_within [OF served.chosen] texts_of_within [OF served.threshold_chosen] by (simp add: reranked_def)
  then show "\<exists>n b. texts_of docs \<subseteq> set (qr_documents (ask n b))" using pool by (metis order_trans)
qed

text \<open>The collections a request searches.\<close>

definition searched :: "rag_request \<Rightarrow> string option set" where
  "searched r = (if rq_targets r = [] then {rq_collection r} else (Some \<circ> tg_collection) ` set (rq_targets r))"

definition held_by :: "rag_env \<Rightarrow> string option \<Rightarrow> string \<Rightarrow> bool" where
  "held_by env c t \<longleftrightarrow> (\<exists>ask e n b. re_collection env c = Inr ask \<and> t \<in> set (qr_documents (ask e n b)))"

text \<open>A collection returns no more than asked; the threads complete in some order.\<close>

definition bounded_collections :: "rag_env \<Rightarrow> bool" where
  "bounded_collections env \<longleftrightarrow> (\<forall>c ask e n b. re_collection env c = Inr ask \<longrightarrow> length (qr_documents (ask e n b)) \<le> n)"

definition completed_threads :: "rag_env \<Rightarrow> bool" where
  "completed_threads env \<longleftrightarrow> (\<forall>ts. set (re_completion env ts) \<subseteq> set ts)"

lemma single_found:
  assumes "single_documents env settings r query k = Inr docs" and "0 < k"
    and few: "bounded_collections env"
  shows "length docs \<le> k \<and> (\<forall>t \<in> texts_of docs. held_by env (rq_collection r) t)"
proof -
  obtain e ask where e: "re_encode env query = Inr e" and ask: "re_collection env (rq_collection r) = Inr ask"
    using assms(1) by (auto simp: single_documents_def bindE_eq_Inr Let_def)
  show ?thesis
  proof (cases "truthy (jget (rag_of settings) ''reranker_enabled'')")
    case True
    then have q: "query_with_rerank (fe_round (re_fed env)) (fe_repr (re_fed env)) e (ask e)
        (rerank_by env (resolve_reranker env settings) query) (rerank_options_of (rag_of settings) k) = Some docs"
      using assms(1) e ask by (simp add: single_documents_def split: option.splits)
    show ?thesis
      using query_with_rerank_found [OF q] ask unfolding held_by_def rerank_options_of_def by fastforce
  next
    case False
    then have "docs = fst (documents_of (fe_round (re_fed env)) e False (ask e k False))"
      using assms(1,2) e ask by (simp add: single_documents_def)
    then show ?thesis
      using documents_of_found [of "fe_round (re_fed env)" e False "ask e k False"] few ask
      unfolding held_by_def bounded_collections_def by fastforce
  qed
qed

lemma retrieve_from_held:
  assumes "retrieve_from env e b k t = Inr rt" and "d \<in> set (rt_docs rt)"
  shows "held_by env (Some (tg_collection t)) (dc_text d)"
proof -
  obtain ask where ask: "re_collection env (Some (tg_collection t)) = Inr ask"
    using assms(1) by (auto simp: retrieve_from_def bindE_eq_Inr)
  obtain xs es where found: "documents_of (fe_round (re_fed env)) e b (ask e k b) = (xs, es)" by fastforce
  then have "rt_docs rt = xs" using assms(1) by (auto simp: retrieve_from_def ask)
  then have "dc_text d \<in> set (qr_documents (ask e k b))"
    using documents_of_found(2) [of "fe_round (re_fed env)" e b "ask e k b"] found assms(2) by auto
  with ask show ?thesis unfolding held_by_def by blast
qed

lemma federated_found:
  assumes "federated_documents env settings r query k = Inr docs" and order: "completed_threads env"
  shows "length docs \<le> k \<and> (\<forall>t \<in> texts_of docs. \<exists>c \<in> set (rq_targets r). held_by env (Some (tg_collection c)) t)"
proof -
  let ?fs = "fed_settings_of (fe_repr (re_fed env)) (rag_of settings)" and ?rerank = "rerank_by env (resolve_reranker env settings) query"
  obtain e retrieved where retrieved: "list_all2 (\<lambda>t rt. retrieve_from env e (fs_mode ?fs = ''mmr'') (per_collection ?fs k (length (rq_targets r))) t = Inr rt)
      (re_completion env (rq_targets r)) retrieved"
    and docs: "docs = federated_context (re_fed env) ?rerank ?fs k retrieved"
    using assms(1) by (auto simp: federated_documents_def bindE_eq_Inr Let_def mapE_eq_Inr split: option.splits)
  have held: "\<exists>c \<in> set (rq_targets r). \<forall>d \<in> set (rt_docs rt). held_by env (Some (tg_collection c)) (dc_text d)"
    if rt: "rt \<in> set retrieved" for rt
  proof -
    obtain i where i: "i < length retrieved" "rt = retrieved ! i" using rt by (auto simp: in_set_conv_nth)
    let ?t = "re_completion env (rq_targets r) ! i"
    have "retrieve_from env e (fs_mode ?fs = ''mmr'') (per_collection ?fs k (length (rq_targets r))) ?t = Inr rt"
      using list_all2_nthD2 [OF retrieved i(1)] i(2) by simp
    moreover have "?t \<in> set (rq_targets r)"
      using order i(1) list_all2_lengthD [OF retrieved] unfolding completed_threads_def by (metis nth_mem subsetD)
    ultimately obtain t where t: "t \<in> set (rq_targets r)"
      "retrieve_from env e (fs_mode ?fs = ''mmr'') (per_collection ?fs k (length (rq_targets r))) t = Inr rt" by blast
    then show ?thesis using retrieve_from_held by blast
  qed
  have "\<exists>c \<in> set (rq_targets r). held_by env (Some (tg_collection c)) t" if t: "t \<in> texts_of docs" for t
  proof -
    have "t \<in> texts_of (fused (re_fed env) (fs_mode ?fs = ''mmr'') retrieved)"
      using t unfolding docs by (rule subsetD [OF texts_of_within [OF served.context_texts], rotated])
    then show ?thesis using fused_texts held by fastforce
  qed
  then show ?thesis using served.context_small by (simp add: docs)
qed

lemma merged_docs:
  "length (merge_context_docs fr docs extra) \<le> length docs + length extra" "set (merge_context_docs fr docs extra) \<subseteq> set docs \<union> set extra"
proof -
  let ?key = "\<lambda>d. (text_or fr [] (jget (dc_meta d) ''source''), text_or fr [] (jget (dc_meta d) ''chunk_id''), take 120 (dc_text d))"
  let ?fold = "\<lambda>extra. fold (\<lambda>d merged. if ?key d \<in> ?key ` set merged then merged else merged @ [d]) extra docs"
  have "length (?fold extra) \<le> length docs + length extra \<and> set (?fold extra) \<subseteq> set docs \<union> set extra"
    by (induction extra rule: rev_induct) auto
  then show "length (merge_context_docs fr docs extra) \<le> length docs + length extra" "set (merge_context_docs fr docs extra) \<subseteq> set docs \<union> set extra"
    by (simp_all add: merge_context_docs_def Let_def)
qed

text \<open>
  Claim C40: what a request reads. If no cached context is used, no collection returns more than it was
  asked for and the threads complete in some order, then the context of a request has at most as many
  documents as requested besides the attachments, and the text of each document, unless it is an
  attachment, is held by one of the collections the request names: no document of another knowledge
  base or workspace reaches the model or the reader.
\<close>

theorem answer_reads_only_its_collections:
  assumes "prepare_rag_context env settings False r st = (Inr p, st')" and "0 < effective_k r (rag_of settings)"
    and "bounded_collections env" and "completed_threads env"
  shows "length (pr_docs p) \<le> effective_k r (rag_of settings) + length (rq_extra r)
    \<and> (\<forall>d \<in> set (pr_docs p). d \<in> set (rq_extra r) \<or> (\<exists>c \<in> searched r. held_by env c (dc_text d)))"
proof -
  obtain query docs where p: "pr_docs p = merge_context_docs (pe_repr (re_public env)) docs (rq_extra r)"
    and found: "(if rq_targets r \<noteq> [] then federated_documents env settings r query (effective_k r (rag_of settings))
      else single_documents env settings r query (effective_k r (rag_of settings))) = Inr docs"
    using assms(1) by (auto simp: prepare_rag_context_def get_context_def Let_def split: sum.splits prod.splits option.splits)
  have "length docs \<le> effective_k r (rag_of settings) \<and> (\<forall>t \<in> texts_of docs. \<exists>c \<in> searched r. held_by env c t)"
    using found single_found [OF _ assms(2,3)] federated_found [OF _ assms(4)]
    by (cases "rq_targets r = []") (auto simp: searched_def)
  then show ?thesis
    using merged_docs [of "pe_repr (re_public env)" docs "rq_extra r"] unfolding p by (fastforce dest: subsetD)
qed

theorem answer_reads_only_its_collections_witness:
  "\<exists>p. prepare_rag_context demo_rag demo_rag_settings False demo_request demo_rag_state = (Inr p, demo_rag_state)
     \<and> length (pr_docs p) \<le> 1 \<and> (\<forall>d \<in> set (pr_docs p). held_by demo_rag None (dc_text d))"
proof -
  have few: "bounded_collections demo_rag" and order: "completed_threads demo_rag"
    by (auto simp: bounded_collections_def completed_threads_def demo_rag_def)
  have k: "effective_k demo_request (rag_of demo_rag_settings) = 1" by (simp add: effective_k_def demo_request_def)
  have r: "rq_extra demo_request = []" "searched demo_request = {None}" by (simp_all add: searched_def demo_request_def)
  show ?thesis
    using answer_reads_only_its_collections [OF demo_prepared [of False] _ few order] by (simp add: demo_prepared k r)
qed

end
