(* ===== verification/Spec2Isabelle.thy ===== *)
theory Spec2Isabelle
  imports Pagination Rate_Limiter History_Deletion Pending_Turns Job_Exclusion Knowledge_Base_Claims Chat_Agent_Claims Memory_Guarantees
    Service_Deletion Secret_Store Query_Claims Prompt_Templates Lifecycle_Order Lifecycle_Generation Lease_Renewer Answer_Cache Retry Authorization
Upload_Safety Rag_Engine
begin

text \<open>
  A verification library for RAGuardian, a multi-user retrieval-augmented generation service
  (Python, \<open>app/\<close>). It models the stores and the coordination code that decide what a user
  may see, what is kept, and what a retried or concurrent request does.

  \<^bold>\<open>The program.\<close> A request is admitted by \<open>utils/auth.py\<close> (a session or an API key of
  \<open>utils/user_store.py\<close>), placed in a workspace and a knowledge base (\<open>utils/workspace.py\<close>,
  \<open>utils/knowledge_base_store.py\<close>, \<open>utils/chat_agent_store.py\<close>), limited by
  \<open>utils/rate_limiter.py\<close>, and answered by the retrieval engine. A chat turn is
  reserved, staged and committed by \<open>utils/conversation_service.py\<close>, which composes the durable
  history (\<open>utils/conversation_history_store.py\<close>, SQLite), the staged results
  (\<open>utils/pending_turn_store.py\<close>) and the warm memory (\<open>utils/conversation_memory.py\<close>). Work on an
  index runs as a job (\<open>utils/job_store.py\<close>) under the lifecycle locks of
  \<open>utils/index_lock.py\<close>; retrievals are cached by \<open>utils/cache.py\<close>, calls of providers are
  retried by \<open>utils/retry.py\<close>.

  \<^bold>\<open>How it is modelled.\<close> A class is a record of its fields, a method a function from the state to a
  result and the new state, an exception the left injection of a sum, a loop a recursive function
  whose termination is proved. Clock readings, random identifiers and tokens are arguments of the
  call that draws them. Texts are lists of characters, a \<open>char\<close> standing for a code point below
  256; a \<open>dict\<close> is an association list in insertion order (locale \<open>keyed_table\<close>); a value of
  \<open>json.loads\<close> is a value of the datatype \<open>json\<close>. Code that is not under \<open>app/\<close> is a parameter: the
  decimal text of a float, SHA-256, password hashing, \<open>datetime.fromisoformat\<close>, the removal of
  files. What is written to a JSON file or
  a JSON column is the value it holds: the text form of \<open>json.dumps\<close> enters only where its length counts.

  \<^bold>\<open>Theories.\<close>
  \<^item> \<open>Prelude\<close>, \<open>Py_Text\<close>, \<open>Py_Json\<close>: results with errors, ordered dictionaries, runs of a machine
    (locale \<open>safe_machine\<close>), the Python text operations and JSON values the program uses.
  \<^item> \<open>Pagination\<close>, \<open>Rate_Limiter\<close>, \<open>Retry\<close>: \<open>utils/pagination.py\<close>, the memory backend of
    \<open>utils/rate_limiter.py\<close>, and \<open>utils/retry.py\<close> with its equivalence to the first decisive attempt.
  \<^item> \<open>Artifacts\<close>, \<open>History_Schema\<close>, \<open>History_Turns\<close>, \<open>History_Admin\<close>: the references of
    \<open>utils/conversation_artifacts.py\<close>, the tables of the history database with their constraints, the
    life of a turn, and the reads and administrative calls. \<open>History_Invariant\<close>, \<open>History_Safety\<close>,
    \<open>History_Commit\<close> and \<open>History_Quota\<close> prove the shape of every conversation and the quotas;
    \<open>History_Machine\<close> runs the store; \<open>History_Claims\<close>, \<open>History_Guarantees\<close>, \<open>History_Reads\<close>,
    \<open>History_Pages\<close> and \<open>History_Deletion\<close> hold what the calls guarantee. \<open>walk_back\<close> in
    \<open>History_Pages\<close> follows page cursors with a fuel of one more than the number of messages,
    which is proved to be enough.
  \<^item> \<open>Pending_Turns\<close>: \<open>utils/pending_turn_store.py\<close>, its byte account, and the survival of a staged
    result.
  \<^item> \<open>Conversation_Memory\<close>, \<open>Memory_Claims\<close>, \<open>Memory_Guarantees\<close>: the in-process memory, its invariant,
    and the compare-and-swap of the summariser.
  \<^item> \<open>Conversation_Service\<close>: \<open>utils/conversation_service.py\<close> over the three stores. A hydration takes the
    actions of other workers as an argument \<open>env\<close>. \<open>Service_Hydration\<close> relates the streamed tail to
    \<open>_messages_to_turns\<close>, \<open>Service_Sync\<close> shows what a rebuilt memory stands for, \<open>Service_Machine\<close>
    that every call keeps the invariants of the three stores, \<open>Service_Replay\<close> that a staged turn is
    replayed, \<open>Service_Deletion\<close> holds the remaining properties.
  \<^item> \<open>Job_Store\<close>, \<open>Job_Exclusion\<close>: \<open>MemoryJobStore\<close> of \<open>utils/job_store.py\<close> and the exclusion between
    deletions, rebuilds and other jobs.
  \<^item> \<open>Catalog_File\<close> (locale \<open>json_catalog\<close>), \<open>Knowledge_Bases\<close>, \<open>Knowledge_Base_Safety\<close>,
    \<open>Knowledge_Base_Claims\<close>, \<open>Chat_Agents\<close>, \<open>Chat_Agent_Claims\<close>: the JSON catalogs of a workspace, the
    trust in what is loaded and the persistence of a deletion in progress.
  \<^item> \<open>Lifecycle_Lock\<close>, \<open>Lifecycle_Order\<close>, \<open>Lifecycle_Generation\<close>, \<open>Lease_Renewer\<close>: the read/write lock of
    \<open>utils/index_lock.py\<close>, exclusion and freedom from deadlock of threads that use the context
    managers, the generation counter, and the renewal of leases.
  \<^item> \<open>Lru_Cache\<close>, \<open>Answer_Cache\<close>: the bounded cache as a refinement of an unbounded store, and the keys
    of cached retrievals.
  \<^item> \<open>User_Store\<close>, \<open>User_Keys\<close>, \<open>User_Invariant\<close>, \<open>User_Machine\<close>, \<open>User_Claims\<close>:
    \<open>db/schema.sql\<close> and \<open>utils/user_store.py\<close>. The machine cuts every call where the code holds no
    transaction: \<open>update_user\<close> and six calls on keys between their read and their write, the calls with a
    callback around it. What holds only when no update acts on a deletion status that has changed since
    it was read has the hypothesis \<open>timely_run\<close>; \<open>interleaving_unlocks_a_user_in_deletion\<close> shows what
    happens without it.
  \<^item> \<open>Workspace\<close>, \<open>Authorization\<close>: \<open>utils/workspace.py\<close> and \<open>utils/auth.py\<close>, down to the grant a request
    with an API key needs.
  \<^item> \<open>Bytes\<close>, \<open>Secret_Store\<close>: \<open>utils/secret_store.py\<close>, its counter-mode cipher with the hash functions as
    parameters, and the owners of secrets.
  \<^item> \<open>Validators\<close>: \<open>utils/validators.py\<close>, from the numeric texts Python accepts to the signatures of files.
  \<^item> \<open>Model_Defaults\<close>, \<open>Settings_Normalize\<close>, \<open>Settings_Document\<close>, \<open>Settings_Store\<close>, \<open>Provider_Registry\<close>:
    \<open>utils/model_defaults.py\<close>, \<open>utils/settings_store.py\<close>, \<open>utils/provider_config.py\<close> and
    \<open>utils/providers/registry.py\<close>: the built-in providers, the normalisation of a settings document, the ranges
    every stored or loaded document keeps, and the route of a model to its provider.
  \<^item> \<open>Prompt_Store\<close>, \<open>Prompt_Templates\<close>: \<open>utils/prompt_store.py\<close> and \<open>utils/prompt_templates.py\<close> with the
    part of \<open>str.format\<close> they use.
  \<^item> \<open>Query_Payload\<close>, \<open>Query_Claims\<close>: the checks of a chat request in \<open>app.py\<close> (\<open>_parse_query_payload\<close> and
    what it calls) and the scope of a conversation.

  \<^item> \<open>Upload_Paths\<close>: names and places of uploads in \<open>app.py\<close>, the POSIX path functions they use.
  \<^item> \<open>File_Index\<close>, \<open>Vector_Store\<close>, \<open>Document_Text\<close>: \<open>utils/file_index.py\<close>, the chunks by source of
    \<open>utils/vector_store/chroma_persistent.py\<close> (ChromaDB is the record \<open>chroma\<close> with \<open>chroma_laws\<close>), and the
    processors of texts, PDFs, recordings and OCR.
  \<^item> \<open>Kb_World\<close>, \<open>Document_Index\<close>, \<open>Upload_Transaction\<close>: the state of a knowledge base (files, index, chunks,
    answers), the calls on it, each of which may fail at any attempt, \<open>utils/document_indexer.py\<close> and the
    upload transaction of \<open>app.py\<close>. \<open>Index_Frame\<close> (locale \<open>action_frame\<close>) shows what indexing a
    document leaves alone, \<open>Upload_Rollback\<close>, \<open>Upload_Claims\<close> and \<open>Upload_Safety\<close> that a failed upload changes
    nothing; \<open>Upload_Safety\<close> has an instance with a list for ChromaDB.
  \<^item> \<open>Retrieval\<close>: the selection of documents in \<open>utils/vector_store/chroma_persistent.py\<close>
    (source diversity, maximal marginal relevance, reranking) and \<open>utils/reranker.py\<close>; what each selection chooses.
  \<^item> \<open>Federated\<close>, \<open>Federated_Claims\<close> (locale \<open>reranking\<close>): retrieval over several knowledge bases in
    \<open>utils/rag_engine.py\<close>, its independence of the order in which threads complete, and the size and
    uniqueness of the context under every reranker. Scores are real numbers, \<open>round\<close> is a parameter.
  \<^item> \<open>Public_Sources\<close>: what \<open>utils/rag_engine.py\<close> shows of the documents behind an answer (the public name of a
    source with the parts of \<open>urllib.parse\<close> it uses, the allowlists of metadata, download links).
  \<^item> \<open>Rag_Engine\<close>: \<open>utils/rag_engine.py\<close> from the request to the answer: the reranker, the retrieval with its
    cache, the prompt, the generation with its retries, the memory of the conversation, and the answer as
    a whole, as a stream of texts and as a stream of events. The language models, the embedding and the
    collections are fields of \<open>rag_env\<close>. It shows what a request reads and that a stream and a whole answer
    agree.

  \<^bold>\<open>Not modelled.\<close> The Redis backends (their Lua scripts run in a server), file locks between
  processes, ChromaDB, the models behind the rerankers, the providers of language
  models, embeddings, speech and text recognition, and the code interpreter (calls of libraries and
  remote services that are not under \<open>app/\<close>), the connectors of data ingestion, backups, logs and
  metrics, the rest of the Flask handlers of \<open>app.py\<close> and \<open>routes/\<close>. The asynchronous variants of
  \<open>utils/retry.py\<close> repeat the synchronous ones.
\<close>

end
